(* ===== verification/Prelude.thy ===== *)
theory Prelude
  imports "HOL-Library.Word"
begin

text \<open>
  Shared vocabulary of the development.

  \<^item> \<open>byte\<close> and \<open>bytes\<close>: \<open>uint8_t\<close> and \<open>std::vector<uint8_t>\<close>.
  \<^item> \<open>fault\<close>: the ways in which a C++ function of the program ends other than by returning:
    an exception of the program that carries an error code (\<open>Throw\<close>), any other
    \<open>std::exception\<close> (\<open>StdExcept\<close>), a failed \<open>assert\<close> (\<open>Abort\<close>), and undefined behaviour
    (\<open>Undefined\<close>: signed overflow, a read outside a container, ...).
  \<^item> \<open>rbind\<close>: sequencing of fallible steps; a fault skips the rest.
  \<^item> \<open>le_bytes\<close> and \<open>le_value\<close>: little-endian byte lists of natural numbers, shared by the
    fixed-width readers and writers, by script numbers and by the serializers.
\<close>

unbundle bit_operations_syntax

type_synonym byte = "8 word"
type_synonym bytes = "byte list"

datatype 'e fault = Throw 'e | StdExcept | Abort | Undefined

named_theorems fault_simps "unfolding rules for fallible steps"
named_theorems op_defs "definitions of the interpreter's operations"
named_theorems codec_intros "codecs that satisfy the codec laws"

section \<open>Fallible steps\<close>

definition rbind :: "'e + 'a \<Rightarrow> ('a \<Rightarrow> 'e + 'b) \<Rightarrow> 'e + 'b" where
  "rbind m f = (case m of Inl e \<Rightarrow> Inl e | Inr x \<Rightarrow> f x)"

lemma rbind_Inl [simp]: "rbind (Inl e) f = Inl e"
  by (simp add: rbind_def)

lemma rbind_Inr [simp]: "rbind (Inr x) f = f x"
  by (simp add: rbind_def)

lemma rbind_eq_Inr: "rbind m f = Inr y \<longleftrightarrow> (\<exists>x. m = Inr x \<and> f x = Inr y)"
  by (cases m) auto

lemma rbind_eq_Inl: "rbind m f = Inl e \<longleftrightarrow> m = Inl e \<or> (\<exists>x. m = Inr x \<and> f x = Inl e)"
  by (cases m) auto

lemma rbind_assoc: "rbind (rbind m f) g = rbind m (\<lambda>x. rbind (f x) g)"
  by (cases m) auto

lemma rbind_if: "rbind (if b then m else n) f = (if b then rbind m f else rbind n f)"
  by simp

lemma rbind_fundef_cong [fundef_cong]:
  "m = m' \<Longrightarrow> (\<And>x. m' = Inr x \<Longrightarrow> f x = f' x) \<Longrightarrow> rbind m f = rbind m' f'"
  by (cases m') simp_all

lemma rbind_cong [cong]: "m = m' \<Longrightarrow> rbind m f = rbind m' f"
  by simp

lemmas rbind_iffs = rbind_eq_Inr rbind_eq_Inl

section \<open>Little-endian byte lists\<close>

fun le_bytes :: "nat \<Rightarrow> nat \<Rightarrow> bytes" where
  "le_bytes 0 x = []"
| "le_bytes (Suc n) x = word_of_nat (x mod 256) # le_bytes n (x div 256)"

fun le_value :: "bytes \<Rightarrow> nat" where
  "le_value [] = 0"
| "le_value (b # bs) = unat b + 256 * le_value bs"

lemma unat_byte_lt: "unat (b :: byte) < 256"
  using unsigned_less [of b] by simp

lemma unat_byte_of_nat [simp]: "unat (word_of_nat (x mod 256) :: byte) = x mod 256"
  by (simp add: unat_of_nat)

lemma length_le_bytes [simp]: "length (le_bytes n x) = n"
  by (induction n arbitrary: x) auto

lemma le_bytes_numeral:
  "le_bytes (numeral k) x = word_of_nat (x mod 256) # le_bytes (pred_numeral k) (x div 256)"
  unfolding numeral_eq_Suc [of k] by (rule le_bytes.simps)

lemma le_value_bound: "le_value bs < 256 ^ length bs"
proof (induction bs)
  case Nil
  then show ?case by simp
next
  case (Cons b bs)
  have "unat b + 256 * le_value bs < 256 * Suc (le_value bs)"
    using unat_byte_lt [of b] by simp
  also have "\<dots> \<le> 256 * 256 ^ length bs"
    using Cons.IH by (simp only: Suc_le_eq mult_le_mono2)
  finally show ?case by simp
qed

lemma le_value_le_bytes: "le_value (le_bytes n x) = x mod 256 ^ n"
proof (induction n arbitrary: x)
  case 0
  then show ?case by simp
next
  case (Suc n)
  show ?case
    by (simp add: Suc.IH mod_mult2_eq)
qed

lemma le_bytes_le_value: "le_bytes (length bs) (le_value bs) = bs"
proof (induction bs)
  case Nil
  then show ?case by simp
next
  case (Cons b bs)
  have "unat b mod 256 = unat b" "unat b div 256 = 0"
    using unat_byte_lt [of b] by simp_all
  with Cons.IH show ?case by simp
qed

lemma le_value_append: "le_value (xs @ ys) = le_value xs + 256 ^ length xs * le_value ys"
  by (induction xs) (auto simp: algebra_simps)

lemma le_value_inj: "length xs = length ys \<Longrightarrow> le_value xs = le_value ys \<Longrightarrow> xs = ys"
  by (metis le_bytes_le_value)

lemma le_bytes_add: "le_bytes (m + n) x = le_bytes m x @ le_bytes n (x div 256 ^ m)"
  by (induction m arbitrary: x) (auto simp: div_mult2_eq)

section \<open>Machine integers as integers with a range\<close>

definition in_int64 :: "int \<Rightarrow> bool" where
  "in_int64 x \<longleftrightarrow> - (2 ^ 63) \<le> x \<and> x < 2 ^ 63"

definition in_int32 :: "int \<Rightarrow> bool" where
  "in_int32 x \<longleftrightarrow> - (2 ^ 31) \<le> x \<and> x < 2 ^ 31"

lemma in_int32_int64: "in_int32 x \<Longrightarrow> in_int64 x"
  by (simp add: in_int32_def in_int64_def)

section \<open>Lists\<close>

lemma set_dropD: "x \<in> set (drop n xs) \<Longrightarrow> x \<in> set xs"
  by (rule in_set_dropD)

lemma list_nth_butlast_last: "xs \<noteq> [] \<Longrightarrow> butlast xs @ [last xs] = xs"
  by simp

lemma take_length_append [simp]: "n = length xs \<Longrightarrow> take n (xs @ ys) = xs"
  by simp

lemma drop_length_append [simp]: "n = length xs \<Longrightarrow> drop n (xs @ ys) = ys"
  by simp

end
