(* ===== verification/Endians.thy ===== *)
theory Endians
  imports Prelude
begin

text \<open>
  \<open>src/util/Endians.hpp\<close>: fixed-width reads and writes in little- and big-endian order, and
  \<open>CountBits\<close>.

  \<open>memcpy\<close> of the bytes of an integer followed by \<open>le16toh\<close> (and its kin) gives the little-endian
  value of the bytes on every host, so the host's byte order does not appear. A pointer is the
  list of the bytes from it on; reading past the end of the list is undefined behaviour.
\<close>

definition read_bytes :: "nat \<Rightarrow> bytes \<Rightarrow> 'e fault + bytes" where
  "read_bytes n ptr = (if length ptr < n then Inl Undefined else Inr (take n ptr))"

definition ReadLE16 :: "bytes \<Rightarrow> 'e fault + 16 word" where
  "ReadLE16 ptr = rbind (read_bytes 2 ptr) (\<lambda>x. Inr (word_of_nat (le_value x)))"

definition ReadLE32 :: "bytes \<Rightarrow> 'e fault + 32 word" where
  "ReadLE32 ptr = rbind (read_bytes 4 ptr) (\<lambda>x. Inr (word_of_nat (le_value x)))"

definition ReadLE64 :: "bytes \<Rightarrow> 'e fault + 64 word" where
  "ReadLE64 ptr = rbind (read_bytes 8 ptr) (\<lambda>x. Inr (word_of_nat (le_value x)))"

definition WriteLE16 :: "16 word \<Rightarrow> bytes" where
  "WriteLE16 x = le_bytes 2 (unat x)"

definition WriteLE32 :: "32 word \<Rightarrow> bytes" where
  "WriteLE32 x = le_bytes 4 (unat x)"

definition WriteLE64 :: "64 word \<Rightarrow> bytes" where
  "WriteLE64 x = le_bytes 8 (unat x)"

definition ReadBE32 :: "bytes \<Rightarrow> 'e fault + 32 word" where
  "ReadBE32 ptr = rbind (read_bytes 4 ptr) (\<lambda>x. Inr (word_of_nat (le_value (rev x))))"

definition ReadBE64 :: "bytes \<Rightarrow> 'e fault + 64 word" where
  "ReadBE64 ptr = rbind (read_bytes 8 ptr) (\<lambda>x. Inr (word_of_nat (le_value (rev x))))"

definition WriteBE32 :: "32 word \<Rightarrow> bytes" where
  "WriteBE32 x = rev (le_bytes 4 (unat x))"

definition WriteBE64 :: "64 word \<Rightarrow> bytes" where
  "WriteBE64 x = rev (le_bytes 8 (unat x))"

text \<open>The portable loop of \<open>CountBits\<close>, taken when no count-leading-zeros builtin is declared.\<close>

function CountBits_loop :: "64 word \<Rightarrow> nat \<Rightarrow> nat" where
  "CountBits_loop x ret = (if x \<noteq> 0 then CountBits_loop (drop_bit 1 x) (ret + 1) else ret)"
  by pat_completeness auto
termination
proof (relation "measure (\<lambda>(x, ret). unat x)", goal_cases)
  case 1
  then show ?case by simp
next
  case (2 x ret)
  then have "0 < unat x" by (simp add: unat_gt_0)
  then have "unat x div 2 < unat x" by simp
  moreover have "unat (drop_bit 1 x) = unat x div 2"
    by (simp add: drop_bit_eq_div unat_div)
  ultimately show ?case by simp
qed

declare CountBits_loop.simps [simp del]

definition CountBits :: "64 word \<Rightarrow> nat" where
  "CountBits x = CountBits_loop x 0"

section \<open>Reads undo writes\<close>

lemma word_of_nat_le_bytes:
  assumes "LENGTH('a) = 8 * n"
  shows "(word_of_nat (le_value (le_bytes n (unat (x :: 'a :: len word)))) :: 'a word) = x"
proof -
  have "(256 :: nat) ^ n = 2 ^ LENGTH('a)"
    using assms by (simp add: power_mult)
  then show ?thesis
    using unsigned_less [of x] by (simp add: le_value_le_bytes)
qed

lemma read_bytes_append [simp]: "length w = n \<Longrightarrow> read_bytes n (w @ rest) = Inr w"
  by (simp add: read_bytes_def)

lemma Read_Write_LE:
  "ReadLE16 (WriteLE16 a @ rest) = Inr a"
  "ReadLE32 (WriteLE32 b @ rest) = Inr b"
  "ReadLE64 (WriteLE64 c @ rest) = Inr c"
  by (simp_all add: ReadLE16_def WriteLE16_def ReadLE32_def WriteLE32_def ReadLE64_def
      WriteLE64_def word_of_nat_le_bytes)

lemma Read_Write_BE:
  "ReadBE32 (WriteBE32 b @ rest) = Inr b"
  "ReadBE64 (WriteBE64 c @ rest) = Inr c"
  by (simp_all add: ReadBE32_def WriteBE32_def ReadBE64_def WriteBE64_def word_of_nat_le_bytes)

lemma length_WriteLE [simp]:
  "length (WriteLE16 a) = 2" "length (WriteLE32 b) = 4" "length (WriteLE64 c) = 8"
  "length (WriteBE32 b) = 4" "length (WriteBE64 c) = 8"
  by (simp_all add: WriteLE16_def WriteLE32_def WriteLE64_def WriteBE32_def WriteBE64_def)

section \<open>CountBits\<close>

lemma unat_drop_bit_1: "unat (drop_bit 1 (x :: 64 word)) = unat x div 2"
  by (simp add: drop_bit_eq_div unat_div)

lemma CountBits_loop_bounds:
  "\<exists>k. CountBits_loop x ret = ret + k \<and> unat x < 2 ^ k \<and> (x \<noteq> 0 \<longrightarrow> 0 < k \<and> 2 ^ (k - 1) \<le> unat x)"
proof (induction x ret rule: CountBits_loop.induct)
  case (1 x ret)
  show ?case
  proof (cases "x = 0")
    case True
    then show ?thesis by (simp add: CountBits_loop.simps)
  next
    case False
    let ?y = "drop_bit 1 x"
    obtain k where k: "CountBits_loop ?y (ret + 1) = ret + 1 + k" "unat ?y < 2 ^ k"
      "?y \<noteq> 0 \<longrightarrow> 0 < k \<and> 2 ^ (k - 1) \<le> unat ?y"
      using 1 False by blast
    have "CountBits_loop x ret = ret + Suc k"
      using False k(1) by (subst CountBits_loop.simps) simp
    moreover have "unat x < 2 ^ Suc k"
      using k(2) unat_drop_bit_1 [of x] by simp
    moreover have "2 ^ (Suc k - 1) \<le> unat x"
    proof (cases "?y = 0")
      case True
      then have "k = 0"
        using k(1) by (simp add: CountBits_loop.simps)
      then show ?thesis
        using False by (simp add: Suc_le_eq unat_gt_0)
    next
      case nz: False
      then have "2 ^ k = 2 * (2 ^ (k - 1) :: nat)"
        using k(3) by (cases k) auto
      then show ?thesis
        using nz k(3) unat_drop_bit_1 [of x] by auto
    qed
    ultimately show ?thesis by blast
  qed
qed

lemma CountBits_bounds:
  "unat x < 2 ^ CountBits x" and "x \<noteq> 0 \<Longrightarrow> 0 < CountBits x \<and> 2 ^ (CountBits x - 1) \<le> unat x"
  using CountBits_loop_bounds [of x 0] by (auto simp: CountBits_def)

end
