(* ===== verification/ScriptError.thy ===== *)
theory ScriptError
  imports Prelude
begin

text \<open>
  \<open>src/script/ScriptError.hpp\<close>, \<open>src/script/ScriptError.cpp\<close> and \<open>src/script/ScriptException.hpp\<close>:
  the error codes of the interpreter. The enumerators carry the prefix \<open>SE_\<close> because several of
  them are also names of opcodes or of verification flags. \<open>throw ScriptException(e)\<close> is the
  fault \<open>Throw e\<close>.
\<close>

datatype (plugins only: code) script_error =
    SE_OK | SE_EVAL_FALSE | SE_OP_RETURN | SE_SCRIPT_SIZE | SE_PUSH_SIZE | SE_OP_COUNT
  | SE_STACK_SIZE | SE_SIG_COUNT | SE_PUBKEY_COUNT | SE_CONVERTION_TO_NUMBER
  | SE_CONVERTION_TO_DATA | SE_VERIFY | SE_EQUALVERIFY | SE_CHECKMULTISIGVERIFY
  | SE_CHECKSIGVERIFY | SE_NUMEQUALVERIFY | SE_BAD_OPCODE | SE_DISABLED_OPCODE
  | SE_INVALID_STACK_OPERATION | SE_INVALID_ALTSTACK_OPERATION | SE_UNBALANCED_CONDITIONAL
  | SE_NEGATIVE_LOCKTIME | SE_UNSATISFIED_LOCKTIME | SE_SIG_HASHTYPE | SE_SIG_DER
  | SE_MINIMALDATA | SE_SIG_PUSHONLY | SE_SIG_HIGH_S | SE_SIG_NULLDUMMY | SE_PUBKEYTYPE
  | SE_CLEANSTACK | SE_MINIMALIF | SE_SIG_NULLFAIL | SE_NUMERIC_OPERATION
  | SE_DISCOURAGE_UPGRADABLE_NOPS | SE_DISCOURAGE_UPGRADABLE_WITNESS_PROGRAM
  | SE_WITNESS_PROGRAM_WRONG_LENGTH | SE_WITNESS_PROGRAM_WITNESS_EMPTY
  | SE_WITNESS_PROGRAM_MISMATCH | SE_WITNESS_MALLEATED | SE_WITNESS_MALLEATED_P2SH
  | SE_WITNESS_UNEXPECTED | SE_WITNESS_PUBKEYTYPE | SE_OP_CODESEPARATOR | SE_SIG_FINDANDDELETE
  | SE_ERROR_COUNT | SE_NOT_EXECUTED | SE_UNKNOWN_ERROR

primrec script_error_to_string :: "script_error \<Rightarrow> string" where
  "script_error_to_string SE_OK = ''OK''"
| "script_error_to_string SE_EVAL_FALSE = ''EVAL_FALSE''"
| "script_error_to_string SE_OP_RETURN = ''OP_RETURN''"
| "script_error_to_string SE_SCRIPT_SIZE = ''SCRIPT_SIZE''"
| "script_error_to_string SE_PUSH_SIZE = ''PUSH_SIZE''"
| "script_error_to_string SE_OP_COUNT = ''OP_COUNT''"
| "script_error_to_string SE_STACK_SIZE = ''STACK_SIZE''"
| "script_error_to_string SE_SIG_COUNT = ''SIG_COUNT''"
| "script_error_to_string SE_PUBKEY_COUNT = ''PUBKEY_COUNT''"
| "script_error_to_string SE_CONVERTION_TO_NUMBER = ''CONVERTION_TO_NUMBER''"
| "script_error_to_string SE_CONVERTION_TO_DATA = ''CONVERTION_TO_DATA''"
| "script_error_to_string SE_VERIFY = ''VERIFY''"
| "script_error_to_string SE_EQUALVERIFY = ''EQUALVERIFY''"
| "script_error_to_string SE_CHECKMULTISIGVERIFY = ''CHECKMULTISIGVERIFY''"
| "script_error_to_string SE_CHECKSIGVERIFY = ''CHECKSIGVERIFY''"
| "script_error_to_string SE_NUMEQUALVERIFY = ''NUMEQUALVERIFY''"
| "script_error_to_string SE_BAD_OPCODE = ''BAD_OPCODE''"
| "script_error_to_string SE_DISABLED_OPCODE = ''DISABLED_OPCODE''"
| "script_error_to_string SE_INVALID_STACK_OPERATION = ''INVALID_STACK_OPERATION''"
| "script_error_to_string SE_INVALID_ALTSTACK_OPERATION = ''INVALID_ALTSTACK_OPERATION''"
| "script_error_to_string SE_UNBALANCED_CONDITIONAL = ''UNBALANCED_CONDITIONAL''"
| "script_error_to_string SE_NEGATIVE_LOCKTIME = ''NEGATIVE_LOCKTIME''"
| "script_error_to_string SE_UNSATISFIED_LOCKTIME = ''UNSATISFIED_LOCKTIME''"
| "script_error_to_string SE_SIG_HASHTYPE = ''SIG_HASHTYPE''"
| "script_error_to_string SE_SIG_DER = ''SIG_DER''"
| "script_error_to_string SE_MINIMALDATA = ''MINIMALDATA''"
| "script_error_to_string SE_SIG_PUSHONLY = ''SIG_PUSHONLY''"
| "script_error_to_string SE_SIG_HIGH_S = ''SIG_HIGH_S''"
| "script_error_to_string SE_SIG_NULLDUMMY = ''SIG_NULLDUMMY''"
| "script_error_to_string SE_PUBKEYTYPE = ''PUBKEYTYPE''"
| "script_error_to_string SE_CLEANSTACK = ''CLEANSTACK''"
| "script_error_to_string SE_MINIMALIF = ''MINIMALIF''"
| "script_error_to_string SE_SIG_NULLFAIL = ''SIG_NULLFAIL''"
| "script_error_to_string SE_NUMERIC_OPERATION = ''NUMERIC_OPERATION''"
| "script_error_to_string SE_DISCOURAGE_UPGRADABLE_NOPS = ''DISCOURAGE_UPGRADABLE_NOPS''"
| "script_error_to_string SE_DISCOURAGE_UPGRADABLE_WITNESS_PROGRAM = ''DISCOURAGE_UPGRADABLE_WITNESS_PROGRAM''"
| "script_error_to_string SE_WITNESS_PROGRAM_WRONG_LENGTH = ''WITNESS_PROGRAM_WRONG_LENGTH''"
| "script_error_to_string SE_WITNESS_PROGRAM_WITNESS_EMPTY = ''WITNESS_PROGRAM_WITNESS_EMPTY''"
| "script_error_to_string SE_WITNESS_PROGRAM_MISMATCH = ''WITNESS_PROGRAM_MISMATCH''"
| "script_error_to_string SE_WITNESS_MALLEATED = ''WITNESS_MALLEATED''"
| "script_error_to_string SE_WITNESS_MALLEATED_P2SH = ''WITNESS_MALLEATED_P2SH''"
| "script_error_to_string SE_WITNESS_UNEXPECTED = ''WITNESS_UNEXPECTED''"
| "script_error_to_string SE_WITNESS_PUBKEYTYPE = ''WITNESS_PUBKEYTYPE''"
| "script_error_to_string SE_OP_CODESEPARATOR = ''OP_CODESEPARATOR''"
| "script_error_to_string SE_SIG_FINDANDDELETE = ''SIG_FINDANDDELETE''"
| "script_error_to_string SE_ERROR_COUNT = ''ERROR_COUNT''"
| "script_error_to_string SE_NOT_EXECUTED = ''NOT_EXECUTED''"
| "script_error_to_string SE_UNKNOWN_ERROR = ''UNKNOWN_ERROR''"

definition script_exception_what :: "script_error \<Rightarrow> string option \<Rightarrow> string" where
  "script_exception_what e description =
     (case description of
        None \<Rightarrow> ''ScriptError['' @ script_error_to_string e @ '']''
      | Some d \<Rightarrow> ''ScriptError['' @ script_error_to_string e @ '']: '' @ d)"

type_synonym script_fault = "script_error fault"

abbreviation throw :: "script_error \<Rightarrow> script_fault + 'a" where
  "throw e \<equiv> Inl (Throw e)"

end
