(* ===== verification/ScriptNum.thy ===== *)
theory ScriptNum
  imports ScriptError
begin

text \<open>
  \<open>src/script/ScriptNum.hpp\<close>: the numbers of the script language.

  A \<open>ScriptNum\<close> holds an \<open>int64_t\<close>; the model holds it as an \<open>int\<close>, and every operation that can
  leave the range of \<open>int64_t\<close> says so: it is the fault \<open>Undefined\<close> where the C++ is signed
  overflow, and \<open>Throw\<close> where the code tests for it.
\<close>

type_synonym script_num = int

section \<open>Encoding\<close>

text \<open>The loop \<open>while (absvalue) { push_back(absvalue & 0xff); absvalue >>= 8; }\<close>.\<close>

function abs_bytes :: "nat \<Rightarrow> bytes" where
  "abs_bytes absvalue =
     (if absvalue \<noteq> 0 then word_of_nat (absvalue mod 256) # abs_bytes (absvalue div 256) else [])"
  by pat_completeness auto
termination
  by (relation "measure id") auto

declare abs_bytes.simps [simp del]

definition sn_serialize :: "script_num \<Rightarrow> script_fault + bytes" where
  "sn_serialize value =
     (if value = 0 then Inr []
      else if value = - (2 ^ 63) then Inl Undefined
      else
        let neg = value < 0;
            result = abs_bytes (nat \<bar>value\<bar>)
        in if last result AND 0x80 \<noteq> 0 then Inr (result @ [if neg then 0x80 else 0])
           else if neg then Inr (butlast result @ [last result OR 0x80])
           else Inr result)"

section \<open>Decoding\<close>

text \<open>The loop \<open>result |= static_cast<int64_t>(vch[i]) << 8 * i\<close>, on the 64 bits of \<open>result\<close>.\<close>

fun or_bytes :: "nat \<Rightarrow> bytes \<Rightarrow> 64 word \<Rightarrow> 64 word" where
  "or_bytes i [] result = result"
| "or_bytes i (b # bs) result = or_bytes (Suc i) bs (result OR push_bit (8 * i) (ucast b))"

definition set_vch :: "bytes \<Rightarrow> script_num" where
  "set_vch vch =
     (if vch = [] then 0
      else
        let result = or_bytes 0 vch 0
        in if last vch AND 0x80 \<noteq> 0
           then - sint (result AND NOT (push_bit (8 * (length vch - 1)) 0x80))
           else sint result)"

definition minimally_encoded :: "bytes \<Rightarrow> bool" where
  "minimally_encoded vch \<longleftrightarrow>
     \<not> (last vch AND 0x7f = 0 \<and>
        (length vch \<le> 1 \<or> vch ! (length vch - 2) AND 0x80 = 0))"

definition ScriptNum_of_data :: "bytes \<Rightarrow> bool \<Rightarrow> nat \<Rightarrow> script_fault + script_num" where
  "ScriptNum_of_data vch fRequireMinimal nMaxNumSize =
     (if length vch > nMaxNumSize then throw SE_CONVERTION_TO_NUMBER
      else if fRequireMinimal \<and> vch \<noteq> [] \<and> \<not> minimally_encoded vch
      then throw SE_CONVERTION_TO_NUMBER
      else Inr (set_vch vch))"

section \<open>Operators\<close>

definition sn_plus :: "script_num \<Rightarrow> script_num \<Rightarrow> script_fault + script_num" where
  "sn_plus v rhs = (if in_int64 (v + rhs) then Inr (v + rhs) else Inl Undefined)"

definition sn_minus :: "script_num \<Rightarrow> script_num \<Rightarrow> script_fault + script_num" where
  "sn_minus v rhs = (if in_int64 (v - rhs) then Inr (v - rhs) else Inl Undefined)"

definition sn_and :: "script_num \<Rightarrow> int \<Rightarrow> script_num" where
  "sn_and v rhs = v AND rhs"

definition sn_uminus :: "script_num \<Rightarrow> script_fault + script_num" where
  "sn_uminus v = (if v = - (2 ^ 63) then throw SE_NUMERIC_OPERATION else Inr (- v))"

definition sn_plus_assign :: "script_num \<Rightarrow> script_num \<Rightarrow> script_fault + script_num" where
  "sn_plus_assign v rhs =
     (if rhs > 0 \<and> v > (2 ^ 63 - 1) - rhs then throw SE_NUMERIC_OPERATION
      else if rhs < 0 \<and> v < - (2 ^ 63) - rhs then throw SE_NUMERIC_OPERATION
      else Inr (v + rhs))"

definition sn_minus_assign :: "script_num \<Rightarrow> script_num \<Rightarrow> script_fault + script_num" where
  "sn_minus_assign v rhs =
     (if rhs > 0 \<and> v < - (2 ^ 63) + rhs then throw SE_NUMERIC_OPERATION
      else if rhs < 0 \<and> v > (2 ^ 63 - 1) + rhs then throw SE_NUMERIC_OPERATION
      else Inr (v - rhs))"

definition sn_bool :: "script_num \<Rightarrow> bool" where
  "sn_bool v \<longleftrightarrow> v \<noteq> 0"

definition getint :: "script_num \<Rightarrow> int" where
  "getint v =
     (if v \<ge> 2 ^ 31 - 1 then 2 ^ 31 - 1
      else if v \<le> - (2 ^ 31) then - (2 ^ 31)
      else v)"

section \<open>The byte loops\<close>

lemma abs_bytes_0 [simp]: "abs_bytes 0 = []"
  by (simp add: abs_bytes.simps)

lemma abs_bytes_pos: "n \<noteq> 0 \<Longrightarrow> abs_bytes n = word_of_nat (n mod 256) # abs_bytes (n div 256)"
  by (subst abs_bytes.simps) simp

lemma abs_bytes_eq_Nil [simp]: "abs_bytes n = [] \<longleftrightarrow> n = 0"
  by (subst abs_bytes.simps) simp

lemma le_value_abs_bytes [simp]: "le_value (abs_bytes n) = n"
  by (induction n rule: abs_bytes.induct) (subst abs_bytes.simps, simp)

lemma abs_bytes_length_le: "n < 256 ^ k \<Longrightarrow> length (abs_bytes n) \<le> k"
proof (induction n arbitrary: k rule: abs_bytes.induct)
  case (1 n)
  show ?case
  proof (cases "n = 0")
    case False
    with 1 obtain j where j: "k = Suc j" by (cases k) auto
    with 1 False have "n div 256 < 256 ^ j" by (simp add: less_mult_imp_div_less mult.commute)
    with 1 False j show ?thesis by (simp add: abs_bytes_pos)
  qed simp
qed

lemma abs_bytes_last_nonzero: "n \<noteq> 0 \<Longrightarrow> last (abs_bytes n) \<noteq> 0"
proof (induction n rule: abs_bytes.induct)
  case (1 n)
  show ?case
  proof (cases "n div 256 = 0")
    case True
    with 1 have "abs_bytes n = [word_of_nat n]" by (simp add: abs_bytes_pos)
    moreover have "(word_of_nat n :: byte) \<noteq> 0"
      using True 1 by (simp add: word_of_nat_eq_0_iff) (metis dvd_imp_le not_less div_eq_0_iff neq0_conv zero_neq_numeral)
    ultimately show ?thesis by simp
  next
    case False
    with 1 show ?thesis by (simp add: abs_bytes_pos)
  qed
qed

lemma abs_bytes_le_value: "bs = [] \<or> last bs \<noteq> 0 \<Longrightarrow> abs_bytes (le_value bs) = bs"
proof (induction bs)
  case Nil
  then show ?case by simp
next
  case (Cons b bs)
  have b: "unat b mod 256 = unat b" "unat b div 256 = 0"
    using unat_byte_lt [of b] by simp_all
  have "le_value (b # bs) \<noteq> 0"
  proof (cases "bs = []")
    case True
    with Cons.prems show ?thesis by (simp add: unat_eq_zero)
  next
    case False
    with Cons have "abs_bytes (le_value bs) \<noteq> []" by simp
    then show ?thesis by simp
  qed
  moreover have "bs = [] \<or> last bs \<noteq> 0"
    using Cons.prems by (cases "bs = []") auto
  ultimately show ?case
    using Cons.IH b by (subst abs_bytes_pos) simp_all
qed

section \<open>Bits of a byte\<close>

lemma or_eq_plus: "a < 2 ^ k \<Longrightarrow> a OR push_bit k c = a + push_bit k (c :: nat)"
proof -
  assume "a < 2 ^ k"
  then have "take_bit k a = a" by (simp add: take_bit_nat_eq_self)
  then have "\<not> bit a n" if "k \<le> n" for n
    using that by (metis bit_take_bit_iff not_le)
  then have "a AND push_bit k c = 0"
    by (intro bit_eqI) (auto simp: bit_simps)
  then show ?thesis by (simp add: disjunctive_add_eq_or)
qed

lemma byte_and_0x80 [simp]: "(b :: byte) AND 0x80 = 0 \<longleftrightarrow> unat b < 128"
proof -
  have "b AND 0x80 \<noteq> 0 \<longleftrightarrow> bit b 7"
    using bit_iff_and_push_bit_not_eq_0 [of b 7] by simp
  moreover have "bit b 7 = bit (unat b) 7"
    by (simp add: bit_unsigned_iff)
  then have "bit b 7 \<longleftrightarrow> odd (unat b div 128)"
    by (simp add: bit_iff_odd [of "unat b" 7])
  moreover have "unat b div 128 < 2"
    using unat_byte_lt [of b] by (simp add: less_mult_imp_div_less)
  ultimately show ?thesis
    by (auto simp: odd_iff_mod_2_eq_one less_2_cases_iff div_eq_0_iff)
qed

lemma unat_and_0x7f: "unat ((b :: byte) AND 0x7f) = unat b mod 128"
proof -
  have "b AND 0x7f = take_bit 7 b"
    by (simp add: take_bit_eq_mask mask_eq_exp_minus_1)
  then show ?thesis
    by (simp add: take_bit_eq_mod unat_mod)
qed

lemma byte_and_0x7f [simp]: "(b :: byte) AND 0x7f = 0 \<longleftrightarrow> unat b mod 128 = 0"
  by (metis unat_and_0x7f unat_eq_zero)

lemma unat_or_0x80: "unat (b :: byte) < 128 \<Longrightarrow> unat (b OR 0x80) = unat b + 128"
  using or_eq_plus [of "unat b" 7 1] by (simp add: unsigned_or_eq)

lemma or_bytes_unat:
  "unat r < 2 ^ (8 * i) \<Longrightarrow> i + length bs \<le> 8 \<Longrightarrow>
   unat (or_bytes i bs r) = unat r + 2 ^ (8 * i) * le_value bs"
proof (induction i bs r rule: or_bytes.induct)
  case (1 i r)
  then show ?case by simp
next
  case (2 i b bs r)
  let ?x = "r OR push_bit (8 * i) (ucast b)"
  have fits: "unat b * 2 ^ (8 * i) < 2 ^ (8 * Suc i)"
    using unat_byte_lt [of b] by (simp add: power_add)
  also have "\<dots> \<le> (2 :: nat) ^ 64"
    using "2.prems"(2) by (intro power_increasing) auto
  finally have "push_bit (8 * i) (unat b) < 2 ^ 64"
    by (simp add: push_bit_eq_mult)
  moreover have "unat (push_bit (8 * i) (ucast b :: 64 word)) = take_bit 64 (push_bit (8 * i) (unat b))"
    by (subst unsigned_push_bit_eq)
      (simp add: unsigned_ucast_eq take_bit_nat_eq_self less_trans [OF unat_byte_lt])
  ultimately have "unat (push_bit (8 * i) (ucast b :: 64 word)) = push_bit (8 * i) (unat b)"
    by (simp only: take_bit_nat_eq_self)
  then have x: "unat ?x = unat r + 2 ^ (8 * i) * unat b"
    using or_eq_plus [OF "2.prems"(1), of "unat b"]
    by (simp add: unsigned_or_eq push_bit_eq_mult)
  have "unat r + 2 ^ (8 * i) * unat b < 2 ^ (8 * i) * (unat b + 1)"
    using "2.prems"(1) by simp
  also have "\<dots> \<le> 2 ^ (8 * i) * 256"
    using unat_byte_lt [of b] by (intro mult_le_mono2) simp
  finally have "unat ?x < 2 ^ (8 * Suc i)"
    by (simp add: x power_add)
  then show ?case
    using "2.IH" "2.prems"(2) x by (simp add: power_add algebra_simps)
qed

section \<open>Decoding reads sign and magnitude\<close>

lemma sint_small:
  assumes "unat (w :: 64 word) < 2 ^ 63"
  shows "sint w = int (unat w)"
proof -
  have u: "uint w = int (unat w)" by simp
  have "sint w = signed_take_bit 63 (uint w)"
    by (simp add: sint_uint)
  also have "\<dots> = uint w"
  proof (rule signed_take_bit_int_eq_self)
    show "- (2 ^ 63) \<le> uint w"
      using unsigned_greater_eq [of w] by (rule order_trans [rotated]) simp
    show "uint w < 2 ^ 63"
      unfolding u using assms by (metis of_nat_less_iff of_nat_numeral of_nat_power)
  qed
  finally show ?thesis by (simp only: u)
qed

lemma unat_clear_top:
  assumes "unat (w :: 64 word) = 2 ^ p + lo" and "lo < 2 ^ p" and "p < 64"
  shows "unat (w AND NOT (push_bit p 1)) = lo"
proof -
  have high: "\<not> bit w m" if "p < m" for m
  proof -
    have "unat w < 2 ^ Suc p" using assms by simp
    also have "\<dots> \<le> 2 ^ m" using that by (intro power_increasing) auto
    finally have "take_bit m (unat w) = unat w" by (simp add: take_bit_nat_eq_self)
    then have "\<not> bit (unat w) m" by (metis bit_take_bit_iff less_irrefl)
    then show ?thesis by (auto simp: bit_unsigned_iff dest: bit_imp_le_length)
  qed
  have "bit (w AND NOT (push_bit p 1)) m = bit (take_bit p w) m" if "m < 64" for m
    using that high [of m] by (cases m p rule: linorder_cases) (auto simp: bit_simps)
  then have "w AND NOT (push_bit p 1) = take_bit p w"
    by (intro bit_word_eqI) auto
  then have "unat (w AND NOT (push_bit p 1)) = take_bit p (unat w)"
    by (simp only: unsigned_take_bit_eq)
  then show ?thesis
    using assms by (simp add: take_bit_eq_mod)
qed

definition magnitude :: "bytes \<Rightarrow> byte \<Rightarrow> nat" where
  "magnitude ms b = le_value ms + 256 ^ length ms * (unat b mod 128)"

lemma magnitude_bound: "magnitude ms b < 128 * 256 ^ length ms"
proof -
  have "magnitude ms b < 256 ^ length ms * (unat b mod 128 + 1)"
    using le_value_bound [of ms] by (simp add: magnitude_def algebra_simps)
  also have "\<dots> \<le> 256 ^ length ms * 128"
    by (intro mult_le_mono2) (simp add: Suc_le_eq)
  finally show ?thesis by (simp add: mult.commute)
qed

lemma le_value_snoc: "le_value (ms @ [b]) = le_value ms + 256 ^ length ms * unat b"
  by (simp add: le_value_append)

lemma set_vch_snoc:
  assumes "length ms \<le> 7"
  shows "set_vch (ms @ [b]) = (if 128 \<le> unat b then - int (magnitude ms b) else int (magnitude ms b))"
proof -
  let ?w = "or_bytes 0 (ms @ [b]) 0"
  let ?p = "8 * length ms + 7"
  have w: "unat ?w = le_value ms + 256 ^ length ms * unat b"
    using assms by (simp add: or_bytes_unat le_value_snoc)
  have p: "128 * 256 ^ length ms = (2 :: nat) ^ ?p"
    by (simp add: power_add power_mult)
  have "(2 :: nat) ^ ?p \<le> 2 ^ 63"
    using assms by (intro power_increasing) auto
  then have small: "magnitude ms b < 2 ^ 63"
    using magnitude_bound [of ms b] p by simp
  show ?thesis
  proof (cases "128 \<le> unat b")
    case True
    then have "unat b = 128 + unat b mod 128"
      using unat_byte_lt [of b] by (simp add: le_mod_geq)
    then have "256 ^ length ms * unat b = 256 ^ length ms * 128 + 256 ^ length ms * (unat b mod 128)"
      unfolding add_mult_distrib2 [symmetric] by (rule arg_cong)
    then have "unat ?w = 2 ^ ?p + magnitude ms b"
      unfolding w magnitude_def p [symmetric] by linarith
    then have "unat (?w AND NOT (push_bit ?p 1)) = magnitude ms b"
      using assms magnitude_bound [of ms b] p by (intro unat_clear_top) auto
    moreover have "push_bit (8 * length ms) (0x80 :: 64 word) = push_bit ?p 1"
      by (simp add: push_bit_eq_mult power_add)
    ultimately show ?thesis
      using True small by (simp add: set_vch_def sint_small)
  next
    case False
    then show ?thesis
      using small by (simp add: set_vch_def sint_small w magnitude_def)
  qed
qed

section \<open>Minimal encodings\<close>

lemma minimally_encoded_snoc:
  "minimally_encoded (ms @ [b]) \<longleftrightarrow> unat b mod 128 \<noteq> 0 \<or> (ms \<noteq> [] \<and> 128 \<le> unat (last ms))"
proof (cases ms rule: rev_cases)
  case Nil
  then show ?thesis by (simp add: minimally_encoded_def)
next
  case (snoc xs x)
  then have "(ms @ [b]) ! (length (ms @ [b]) - 2) = x"
    by (simp add: nth_append)
  with snoc show ?thesis by (auto simp: minimally_encoded_def not_le)
qed

lemma magnitude_lower:
  assumes "minimally_encoded (ms @ [b])" and "ms \<noteq> []"
  shows "128 * 256 ^ (length ms - 1) \<le> magnitude ms b"
proof (cases "unat b mod 128 = 0")
  case True
  with assms have last: "128 \<le> unat (last ms)" by (simp add: minimally_encoded_snoc)
  have "le_value ms = le_value (butlast ms) + 256 ^ (length ms - 1) * unat (last ms)"
    using le_value_snoc [of "butlast ms" "last ms"] assms(2) by simp
  moreover have "256 ^ (length ms - 1) * 128 \<le> 256 ^ (length ms - 1) * unat (last ms)"
    using last by (rule mult_le_mono2)
  ultimately show ?thesis unfolding magnitude_def by linarith
next
  case False
  have "128 * 256 ^ (length ms - 1) \<le> (256 :: nat) ^ length ms"
    using assms(2) by (cases ms) auto
  also have "\<dots> \<le> 256 ^ length ms * (unat b mod 128)"
    using False by simp
  finally show ?thesis by (simp add: magnitude_def)
qed

lemma magnitude_pos:
  assumes "minimally_encoded (ms @ [b])"
  shows "0 < magnitude ms b"
proof (cases "ms = []")
  case True
  then show ?thesis using assms minimally_encoded_snoc [of "[]" b] by (simp add: magnitude_def)
next
  case False
  have "0 < (128 :: nat) * 256 ^ (length ms - 1)" by simp
  also have "\<dots> \<le> magnitude ms b" using assms False by (rule magnitude_lower)
  finally show ?thesis .
qed

lemma magnitude_length:
  "minimally_encoded (ms @ [b]) \<Longrightarrow> magnitude ms b < 128 * 256 ^ k \<Longrightarrow> length ms \<le> k"
proof (rule ccontr)
  assume m: "minimally_encoded (ms @ [b])" "magnitude ms b < 128 * 256 ^ k" "\<not> length ms \<le> k"
  then have pow: "(256 :: nat) ^ k \<le> 256 ^ (length ms - 1)" by (intro power_increasing) auto
  have "128 * 256 ^ (length ms - 1) \<le> magnitude ms b"
    using m(3) by (intro magnitude_lower [OF m(1)]) auto
  with m(2) pow show False by linarith
qed

text \<open>The shape of every encoding: minimal, and its sign and magnitude are the number's.\<close>

lemma sn_serialize_shape:
  assumes "v \<noteq> 0" and "\<bar>v\<bar> < 2 ^ 63"
  obtains ms b where "sn_serialize v = Inr (ms @ [b])" and "minimally_encoded (ms @ [b])"
    and "magnitude ms b = nat \<bar>v\<bar>" and "128 \<le> unat b \<longleftrightarrow> v < 0"
proof -
  let ?r = "abs_bytes (nat \<bar>v\<bar>)"
  have r: "butlast ?r @ [last ?r] = ?r" "?r \<noteq> []" and nz: "unat (last ?r) \<noteq> 0"
    using assms(1) abs_bytes_last_nonzero [of "nat \<bar>v\<bar>"] by (simp_all add: unat_eq_zero)
  have val: "le_value (butlast ?r) + 256 ^ (length ?r - 1) * unat (last ?r) = nat \<bar>v\<bar>"
    using le_value_snoc [of "butlast ?r" "last ?r"] r by simp
  have v: "v \<noteq> - (2 ^ 63)" using assms(2) by auto
  show thesis
  proof (cases "128 \<le> unat (last ?r)")
    case True
    let ?b = "if v < 0 then 0x80 else 0 :: byte"
    have "sn_serialize v = Inr (?r @ [?b])"
      using True assms v by (simp add: sn_serialize_def Let_def not_less)
    then show thesis
      by (rule that) (use True r in \<open>auto simp: minimally_encoded_snoc magnitude_def\<close>)
  next
    case False
    let ?b = "if v < 0 then last ?r OR 0x80 else last ?r"
    have "unat (last ?r OR 0x80) = unat (last ?r) + 128"
      using False by (intro unat_or_0x80) simp
    then have b: "unat ?b = (if v < 0 then unat (last ?r) + 128 else unat (last ?r))"
      by (simp only: if_distrib [of unat])
    have "sn_serialize v = Inr (butlast ?r @ [?b])"
      using False assms v r by (auto simp: sn_serialize_def Let_def not_less)
    then show thesis
      by (rule that) (use False nz val b in \<open>auto simp: minimally_encoded_snoc magnitude_def\<close>)
  qed
qed

lemma sn_serialize_0 [simp]: "sn_serialize 0 = Inr []"
  by (simp add: sn_serialize_def)

lemma sn_serialize_total: "\<bar>v\<bar> < 2 ^ 63 \<Longrightarrow> \<exists>bs. sn_serialize v = Inr bs"
  by (cases "v = 0") (auto elim: sn_serialize_shape)

lemma set_vch_sn_serialize:
  assumes "\<bar>v\<bar> < 2 ^ 63" and "sn_serialize v = Inr bs"
  shows "set_vch bs = v"
proof (cases "v = 0")
  case True
  with assms show ?thesis by (simp add: set_vch_def)
next
  case False
  then obtain ms b where s: "sn_serialize v = Inr (ms @ [b])" "minimally_encoded (ms @ [b])"
    "magnitude ms b = nat \<bar>v\<bar>" "128 \<le> unat b \<longleftrightarrow> v < 0"
    using assms(1) by (rule sn_serialize_shape)
  have "magnitude ms b < 128 * 256 ^ 7"
    using assms(1) s(3) by simp
  then have "length ms \<le> 7" using s(2) by (rule magnitude_length [rotated])
  with s assms(2) show ?thesis by (auto simp: set_vch_snoc)
qed

lemma length_sn_serialize:
  assumes "\<bar>v\<bar> < 2 ^ 63" and "sn_serialize v = Inr bs"
  shows "length bs \<le> Suc k \<longleftrightarrow> \<bar>v\<bar> < 128 * 256 ^ k"
proof (cases "v = 0")
  case True
  with assms show ?thesis by simp
next
  case False
  then obtain ms b where s: "sn_serialize v = Inr (ms @ [b])" "minimally_encoded (ms @ [b])"
    "magnitude ms b = nat \<bar>v\<bar>"
    using assms(1) by (rule sn_serialize_shape)
  have "length ms \<le> k \<longleftrightarrow> magnitude ms b < 128 * 256 ^ k"
  proof
    assume "length ms \<le> k"
    then have "128 * 256 ^ length ms \<le> (128 :: nat) * 256 ^ k"
      by (intro mult_le_mono2 power_increasing) auto
    with magnitude_bound [of ms b] show "magnitude ms b < 128 * 256 ^ k" by linarith
  next
    assume "magnitude ms b < 128 * 256 ^ k"
    with s(2) show "length ms \<le> k" by (rule magnitude_length)
  qed
  moreover have "nat \<bar>v\<bar> < 128 * 256 ^ k \<longleftrightarrow> \<bar>v\<bar> < 128 * 256 ^ k"
    by (simp add: nat_less_iff)
  ultimately show ?thesis using s assms(2) by simp
qed

lemma byte_eq_mod_128:
  "unat (b :: byte) mod 128 = unat c \<Longrightarrow> b = (if 128 \<le> unat b then c OR 0x80 else c)"
proof -
  assume c: "unat b mod 128 = unat c"
  then have "unat c < 128" by (metis mod_less_divisor zero_less_numeral)
  then have "unat b = unat (if 128 \<le> unat b then c OR 0x80 else c)"
    using c unat_byte_lt [of b] by (auto simp: unat_or_0x80 le_mod_geq)
  then show ?thesis by (rule word_unat_eq_iff [THEN iffD2])
qed

lemma sn_serialize_set_vch:
  assumes "vch = [] \<or> minimally_encoded vch" and "length vch \<le> 8"
  shows "sn_serialize (set_vch vch) = Inr vch"
proof (cases vch rule: rev_cases)
  case Nil
  then show ?thesis by (simp add: set_vch_def)
next
  case (snoc ms b)
  with assms have m: "minimally_encoded (ms @ [b])" and len: "length ms \<le> 7" by auto
  let ?n = "magnitude ms b"
  let ?c = "b AND 0x7f"
  have v: "set_vch vch = (if 128 \<le> unat b then - int ?n else int ?n)"
    using len snoc by (simp add: set_vch_snoc)
  have "128 * 256 ^ length ms \<le> (128 :: nat) * 256 ^ 7"
    using len by (intro mult_le_mono2 power_increasing) auto
  with magnitude_bound [of ms b] have small: "?n < 2 ^ 63" by simp
  have c: "b = (if 128 \<le> unat b then ?c OR 0x80 else ?c)" "unat ?c < 128"
    using byte_eq_mod_128 [of b ?c] by (simp_all add: unat_and_0x7f)
  have abs: "abs_bytes ?n = (if ?c = 0 then ms else ms @ [?c])"
  proof (cases "?c = 0")
    case True
    then have "last ms \<noteq> 0" "?n = le_value ms"
      using m by (auto simp: minimally_encoded_snoc magnitude_def)
    then show ?thesis using True by (simp add: abs_bytes_le_value)
  next
    case False
    have "?n = le_value (ms @ [?c])" by (simp add: magnitude_def le_value_snoc unat_and_0x7f)
    then show ?thesis using False by (simp only: if_False) (rule abs_bytes_le_value, simp)
  qed
  have ser: "sn_serialize (set_vch vch) =
     (let r = abs_bytes ?n; neg = 128 \<le> unat b
      in if 128 \<le> unat (last r) then Inr (r @ [if neg then 0x80 else 0])
         else if neg then Inr (butlast r @ [last r OR 0x80]) else Inr r)"
    using small magnitude_pos [OF m] by (auto simp: sn_serialize_def v Let_def not_less)
  show ?thesis
  proof (cases "?c = 0")
    case True
    then have "128 \<le> unat (last ms)" using m by (auto simp: minimally_encoded_snoc)
    moreover have "b = (if 128 \<le> unat b then 0x80 else 0)"
      using c(1) unfolding True by (simp split: if_splits)
    ultimately show ?thesis unfolding ser abs using True snoc by (auto simp: Let_def)
  next
    case False
    then show ?thesis unfolding ser abs using c snoc by (auto simp: Let_def)
  qed
qed

end
