(* ===== verification/Stack.thy ===== *)
theory Stack
  imports ScriptNum
begin

text \<open>
  \<open>src/script/StackFrame.hpp\<close>, \<open>src/script/ScriptData.hpp\<close> and \<open>src/script/Stack.hpp\<close>: the values
  on the interpreter's stacks and the stack itself.

  A \<open>StackFrame\<close> is a variant of a number and a byte string. The non-const accessors convert the
  frame in place, so \<open>asData\<close> and \<open>asNumber\<close> give the value that the frame holds afterwards. A
  stack is a list with its top at the head. \<open>take\<close> on an empty stack fails its \<open>assert\<close>; \<open>top\<close>
  and \<open>pop\<close> of \<open>std::stack\<close> on an empty stack are undefined.
\<close>

datatype frame = Number script_num | Data bytes

type_synonym stack = "frame list"

fun isNumber :: "frame \<Rightarrow> bool" where
  "isNumber (Number n) = True"
| "isNumber (Data d) = False"

fun isData :: "frame \<Rightarrow> bool" where
  "isData (Number n) = False"
| "isData (Data d) = True"

fun asData :: "frame \<Rightarrow> script_fault + bytes" where
  "asData (Number number) = sn_serialize number"
| "asData (Data data) = Inr data"

fun asNumber :: "bool \<Rightarrow> frame \<Rightarrow> script_fault + script_num" where
  "asNumber requireMinimizeData (Number number) = Inr number"
| "asNumber requireMinimizeData (Data data) = ScriptNum_of_data data requireMinimizeData 4"

text \<open>The const accessor: \<open>std::get\<close> on the other alternative throws \<open>std::bad_variant_access\<close>.\<close>

fun asData_const :: "frame \<Rightarrow> script_fault + bytes" where
  "asData_const (Number number) = Inl StdExcept"
| "asData_const (Data data) = Inr data"

fun frame_equal :: "frame \<Rightarrow> frame \<Rightarrow> bool" where
  "frame_equal (Number a) (Number b) = (a = b)"
| "frame_equal (Data a) (Data b) = (a = b)"
| "frame_equal a b = False"

fun stack_take :: "stack \<Rightarrow> script_fault + frame \<times> stack" where
  "stack_take [] = Inl Abort"
| "stack_take (x # xs) = Inr (x, xs)"

fun stack_top :: "stack \<Rightarrow> script_fault + frame" where
  "stack_top [] = Inl Undefined"
| "stack_top (x # xs) = Inr x"

fun stack_pop :: "stack \<Rightarrow> script_fault + stack" where
  "stack_pop [] = Inl Undefined"
| "stack_pop (x # xs) = Inr xs"

definition stack_push :: "frame \<Rightarrow> stack \<Rightarrow> stack" where
  "stack_push x st = x # st"

declare stack_push_def [simp]

lemma frame_equal_iff: "frame_equal a b \<longleftrightarrow> a = b"
  by (cases a; cases b) auto

section \<open>Well-formed frames\<close>

text \<open>What the C++ types guarantee, and the length limit the interpreter enforces on pushes.\<close>

fun frame_ok :: "frame \<Rightarrow> bool" where
  "frame_ok (Number n) = in_int64 n"
| "frame_ok (Data d) = (length d \<le> 520)"

lemma set_vch_range: "length vch \<le> 8 \<Longrightarrow> \<bar>set_vch vch\<bar> < 2 ^ 63"
proof (cases vch rule: rev_cases)
  case Nil
  then show ?thesis by (simp add: set_vch_def)
next
  case (snoc ms b)
  assume "length vch \<le> 8"
  with snoc have len: "length ms \<le> 7" by simp
  then have "128 * 256 ^ length ms \<le> (128 :: nat) * 256 ^ 7"
    by (intro mult_le_mono2 power_increasing) auto
  with magnitude_bound [of ms b] have "magnitude ms b < 2 ^ 63" by simp
  with snoc len show ?thesis by (simp add: set_vch_snoc)
qed

lemma set_vch_bound: "length vch \<le> Suc k \<Longrightarrow> k \<le> 7 \<Longrightarrow> \<bar>set_vch vch\<bar> < 128 * 256 ^ k"
proof (cases vch rule: rev_cases)
  case Nil
  then show ?thesis by (simp add: set_vch_def)
next
  case (snoc ms b)
  assume "length vch \<le> Suc k" "k \<le> 7"
  with snoc have len: "length ms \<le> k" "length ms \<le> 7" by simp_all
  then have "128 * 256 ^ length ms \<le> (128 :: nat) * 256 ^ k"
    by (intro mult_le_mono2 power_increasing) auto
  with magnitude_bound [of ms b] have "magnitude ms b < 128 * 256 ^ k" by linarith
  then have "int (magnitude ms b) < 128 * 256 ^ k"
    by (metis of_nat_less_iff of_nat_mult of_nat_numeral of_nat_power)
  with snoc len show ?thesis by (simp add: set_vch_snoc)
qed

lemma ScriptNum_of_data_bound:
  "ScriptNum_of_data vch m (Suc k) = Inr n \<Longrightarrow> k \<le> 7 \<Longrightarrow> \<bar>n\<bar> < 128 * 256 ^ k"
  by (auto simp: ScriptNum_of_data_def split: if_splits intro: set_vch_bound)

lemma ScriptNum_of_data_no_crash: "ScriptNum_of_data vch m k \<noteq> Inl Abort"
  "ScriptNum_of_data vch m k \<noteq> Inl Undefined" "ScriptNum_of_data vch m k \<noteq> Inl StdExcept"
  by (auto simp: ScriptNum_of_data_def)

lemma asNumber_ok: "frame_ok f \<Longrightarrow> asNumber m f = Inr n \<Longrightarrow> in_int64 n"
proof (cases f)
  case (Data d)
  assume "asNumber m f = Inr n"
  with Data have "ScriptNum_of_data d m (Suc 3) = Inr n" by simp
  then have "\<bar>n\<bar> < 128 * 256 ^ 3" by (rule ScriptNum_of_data_bound) simp
  then show ?thesis by (simp add: in_int64_def abs_less_iff)
qed simp

lemma sn_serialize_length: "in_int64 v \<Longrightarrow> sn_serialize v = Inr bs \<Longrightarrow> length bs \<le> 8"
proof -
  assume v: "in_int64 v" "sn_serialize v = Inr bs"
  then have "v \<noteq> - (2 ^ 63)" by (auto simp: sn_serialize_def)
  with v(1) have "\<bar>v\<bar> < 2 ^ 63" by (auto simp: in_int64_def)
  then have "length bs \<le> Suc 7 \<longleftrightarrow> \<bar>v\<bar> < 128 * 256 ^ 7"
    using v(2) by (rule length_sn_serialize)
  with \<open>\<bar>v\<bar> < 2 ^ 63\<close> show ?thesis by simp
qed

lemma asData_ok: "frame_ok f \<Longrightarrow> asData f = Inr d \<Longrightarrow> length d \<le> 520"
  by (cases f) (auto dest: sn_serialize_length)

lemma sn_serialize_faults: "sn_serialize v = Inl e \<longleftrightarrow> e = Undefined \<and> v = - (2 ^ 63)"
  by (auto simp: sn_serialize_def Let_def)

end
