(* ===== verification/Script.thy ===== *)
theory Script
  imports OpCode Endians Stack
begin

text \<open>
  \<open>src/script/Script.hpp\<close>: building and reading scripts.

  A script is its list of bytes. A \<open>const_iterator\<close> into a script is the list of the bytes from it
  to the end of the script, so \<open>end - pc\<close> is the length of that list.
\<close>

definition MAX_SCRIPT_ELEMENT_SIZE :: nat where "MAX_SCRIPT_ELEMENT_SIZE = 520"
definition MAX_OPS_PER_SCRIPT :: nat where "MAX_OPS_PER_SCRIPT = 201"
definition MAX_PUBKEYS_PER_MULTISIG :: nat where "MAX_PUBKEYS_PER_MULTISIG = 20"
definition MAX_SCRIPT_SIZE :: nat where "MAX_SCRIPT_SIZE = 10000"
definition MAX_STACK_SIZE :: nat where "MAX_STACK_SIZE = 1000"
definition LOCKTIME_THRESHOLD :: int where "LOCKTIME_THRESHOLD = 500000000"

section \<open>Building\<close>

text \<open>The three cases of the push prefix, shared by the overloads for vectors and string views.\<close>

definition push_prefix :: "nat \<Rightarrow> bytes" where
  "push_prefix n =
     (if n < unat OP_PUSHDATA1 then [word_of_nat n]
      else if n \<le> 0xff then [OP_PUSHDATA1, word_of_nat n]
      else if n \<le> 0xffff then OP_PUSHDATA2 # WriteLE16 (word_of_nat n)
      else OP_PUSHDATA4 # WriteLE32 (word_of_nat n))"

definition script_push_data :: "bytes \<Rightarrow> bytes \<Rightarrow> bytes" where
  "script_push_data script b = (script @ push_prefix (length b)) @ b"

definition script_push_string :: "bytes \<Rightarrow> string \<Rightarrow> bytes" where
  "script_push_string script str =
     (script @ push_prefix (length str)) @ map (\<lambda>c. of_char c) str"

definition script_push_num :: "bytes \<Rightarrow> script_num \<Rightarrow> script_fault + bytes" where
  "script_push_num script b = rbind (sn_serialize b) (\<lambda>vch. Inr (script_push_data script vch))"

definition script_push_int64 :: "bytes \<Rightarrow> int \<Rightarrow> script_fault + bytes" where
  "script_push_int64 script n =
     (if n = 0 then Inr (script @ [OP_0])
      else if n = -1 then Inr (script @ [OP_1NEGATE])
      else if n \<ge> 1 \<and> n \<le> 16 then Inr (script @ [word_of_int (n + (uint OP_1 - 1))])
      else rbind (sn_serialize n) (\<lambda>vch. Inr (script_push_data script vch)))"

text \<open>
  The range check of \<open>operator<<(OpCode)\<close> accepts every value between \<open>OP_0\<close> and
  \<open>OP_INVALIDOPCODE\<close>, that is every byte.
\<close>

definition script_push_op :: "bytes \<Rightarrow> opcode \<Rightarrow> script_fault + bytes" where
  "script_push_op script opcode =
     (if opcode < OP_0 \<or> opcode > OP_INVALIDOPCODE then Inl StdExcept
      else Inr (script @ [opcode]))"

definition script_concat :: "bytes \<Rightarrow> bytes \<Rightarrow> bytes" where
  "script_concat a b = a @ b"

section \<open>Reading\<close>

text \<open>
  The size of the immediate operand of an opcode up to \<open>OP_PUSHDATA4\<close>, and the position after its
  length field; \<open>None\<close> when the length field does not fit. The guards \<open>end - pc < k\<close> keep the
  reads inside the script.
\<close>

definition operand_size :: "opcode \<Rightarrow> bytes \<Rightarrow> (nat \<times> bytes) option" where
  "operand_size opcode pc =
     (if opcode < OP_PUSHDATA1 then Some (unat opcode, pc)
      else if opcode = OP_PUSHDATA1 then
        (case pc of [] \<Rightarrow> None | n # pc' \<Rightarrow> Some (unat n, pc'))
      else if opcode = OP_PUSHDATA2 then
        (if length pc < 2 then None
         else case ReadLE16 pc of Inr n \<Rightarrow> Some (unat n, drop 2 pc) | Inl (_ :: unit fault) \<Rightarrow> None)
      else
        (if length pc < 4 then None
         else case ReadLE32 pc of Inr n \<Rightarrow> Some (unat n, drop 4 pc) | Inl (_ :: unit fault) \<Rightarrow> None))"

text \<open>
  \<open>GetScriptOp\<close> gives its result, the opcode, the operand, and where it left \<open>pc\<close>. The bytes that
  remain are counted in an \<open>unsigned int\<close>.
\<close>

definition GetScriptOp :: "bytes \<Rightarrow> bool \<times> opcode \<times> bytes \<times> bytes" where
  "GetScriptOp pc =
     (case pc of
        [] \<Rightarrow> (False, OP_INVALIDOPCODE, [], [])
      | opcode # pc1 \<Rightarrow>
          if opcode \<le> OP_PUSHDATA4 then
            (case operand_size opcode pc1 of
               None \<Rightarrow> (False, OP_INVALIDOPCODE, [], pc1)
             | Some (nSize, pc2) \<Rightarrow>
                 if length pc2 mod 2 ^ 32 < nSize then (False, OP_INVALIDOPCODE, [], pc2)
                 else (True, opcode, take nSize pc2, drop nSize pc2))
          else (True, opcode, [], pc1))"

section \<open>Printing\<close>

definition hex_digit :: "nat \<Rightarrow> char" where
  "hex_digit n = ''0123456789abcdef'' ! n"

definition hex_byte :: "byte \<Rightarrow> string" where
  "hex_byte b = [hex_digit (unat b div 16), hex_digit (unat b mod 16)]"

fun dec_digits :: "nat \<Rightarrow> string" where
  "dec_digits n =
     (if n < 10 then [char_of (48 + n)] else dec_digits (n div 10) @ [char_of (48 + n mod 10)])"

declare dec_digits.simps [simp del]

definition dec_int :: "int \<Rightarrow> string" where
  "dec_int i = (if i < 0 then ''-'' @ dec_digits (nat (- i)) else dec_digits (nat i))"

definition dump_op :: "opcode \<Rightarrow> bytes \<Rightarrow> string" where
  "dump_op opcode data =
     (if data = [] then opcode_to_string opcode
      else concat (map hex_byte data) @
        (case ScriptNum_of_data data True 4 of
           Inl _ \<Rightarrow> []
         | Inr n \<Rightarrow> ''('' @ dec_int (getint n) @ '')'')) @ '' ''"

lemma operand_size_length:
  "operand_size opcode pc = Some (n, pc') \<Longrightarrow> length pc' \<le> length pc"
  by (auto simp: operand_size_def split: if_splits list.splits sum.splits)

lemma GetScriptOp_length:
  assumes "GetScriptOp pc = (True, opcode, data, pc')"
  shows "length pc' < length pc"
  using assms
  by (auto simp: GetScriptOp_def less_Suc_eq_le split: list.splits if_splits option.splits prod.splits
      dest!: operand_size_length)

function script_dump :: "bytes \<Rightarrow> string" where
  "script_dump i =
     (if i \<noteq> [] then
        (case GetScriptOp i of
           (True, opcode, data, i') \<Rightarrow> dump_op opcode data @ script_dump i'
         | (False, opcode, data, i') \<Rightarrow> ''!ERROR!'' @ (if i' \<noteq> [] then '' ...'' else []))
      else [])"
  by pat_completeness auto
termination
  by (relation "measure length") (auto dest: GetScriptOp_length [OF sym])

declare script_dump.simps [simp del]

section \<open>Facts about reading\<close>

lemma operand_size_append:
  "operand_size opcode pc = Some (n, pc') \<Longrightarrow> operand_size opcode (pc @ rest) = Some (n, pc' @ rest)"
  by (auto simp: operand_size_def ReadLE16_def ReadLE32_def read_bytes_def
      split: if_splits list.splits)

text \<open>Reading one operation looks at no byte behind it.\<close>

lemma GetScriptOp_empty [simp]: "GetScriptOp [] = (False, OP_INVALIDOPCODE, [], [])"
  by (simp add: GetScriptOp_def)

lemma GetScriptOp_operand:
  assumes "GetScriptOp (opcode # pc1) = (True, opc, data, pc')" and "opcode \<le> OP_PUSHDATA4"
  obtains n pc2 where "operand_size opcode pc1 = Some (n, pc2)" and "n \<le> length pc2 mod 2 ^ 32"
    and "opc = opcode" and "data = take n pc2" and "pc' = drop n pc2"
  using assms by (auto simp: GetScriptOp_def not_less split: option.splits prod.splits if_splits)

lemma GetScriptOp_append:
  assumes "GetScriptOp pc = (True, opc, data, pc')" and "length (pc @ rest) < 2 ^ 32"
  shows "GetScriptOp (pc @ rest) = (True, opc, data, pc' @ rest)"
proof (cases pc)
  case Nil
  with assms show ?thesis by simp
next
  case (Cons opcode pc1)
  show ?thesis
  proof (cases "opcode \<le> OP_PUSHDATA4")
    case True
    with assms Cons obtain n pc2 where os: "operand_size opcode pc1 = Some (n, pc2)"
      and n: "n \<le> length pc2 mod 2 ^ 32"
      and res: "opc = opcode" "data = take n pc2" "pc' = drop n pc2"
      using GetScriptOp_operand by blast
    have "length (pc2 @ rest) < 2 ^ 32"
      using operand_size_length [OF os] assms(2) Cons by simp
    then show ?thesis
      using True n res operand_size_append [OF os, of rest] Cons
      by (simp add: GetScriptOp_def)
  next
    case False
    with assms Cons show ?thesis by (simp add: GetScriptOp_def)
  qed
qed

text \<open>What one operation consumes is a proper prefix of the script.\<close>

lemma GetScriptOp_suffix:
  assumes "GetScriptOp pc = (True, opcode, data, pc')"
  obtains c where "pc = c @ pc'" and "c \<noteq> []"
proof -
  obtain pc1 where pc: "pc = opcode # pc1"
    using assms by (auto simp: GetScriptOp_def split: list.splits if_splits option.splits prod.splits)
  have "\<exists>c. pc1 = c @ pc'"
    using assms unfolding pc
    by (auto simp: GetScriptOp_def operand_size_def intro: append_take_drop_id [symmetric]
        split: list.splits if_splits option.splits prod.splits sum.splits)
      (metis append_Cons append_assoc append_take_drop_id)+
  with that show thesis using pc by force
qed

lemma GetScriptOp_plain:
  "OP_PUSHDATA4 < opcode \<Longrightarrow> GetScriptOp (opcode # pc) = (True, opcode, [], pc)"
  by (simp add: GetScriptOp_def not_le [symmetric])

lemma GetScriptOp_zero [simp]: "GetScriptOp (0 # pc) = (True, 0, [], pc)"
  by (simp add: GetScriptOp_def operand_size_def)

lemma hd_push_prefix_le: "n < 2 ^ 32 \<Longrightarrow> hd (push_prefix n) \<le> OP_PUSHDATA4"
  by (auto simp: push_prefix_def word_le_nat_alt unat_of_nat)

text \<open>Reading back what \<open>operator<<\<close> wrote.\<close>

lemma operand_size_push:
  assumes "n < 2 ^ 32"
  shows "operand_size (hd (push_prefix n)) (tl (push_prefix n) @ rest) = Some (n, rest)"
proof -
  have w16: "unat (word_of_nat n :: 16 word) = n" if "n \<le> 0xffff"
    using that by (simp add: unat_of_nat)
  have w32: "unat (word_of_nat n :: 32 word) = n"
    using assms by (simp add: unat_of_nat)
  have w8: "(word_of_nat n :: byte) < OP_PUSHDATA1" "unat (word_of_nat n :: byte) = n" if "n < 76"
    using that by (simp_all add: word_less_nat_alt unat_of_nat)
  have w8': "unat (word_of_nat n :: byte) = n" if "n \<le> 0xff"
    using that by (simp add: unat_of_nat)
  show ?thesis
    using w8 w8' w16 w32
    by (auto simp: push_prefix_def operand_size_def Read_Write_LE)
qed

lemma GetScriptOp_push:
  assumes "length (b @ rest) < 2 ^ 32"
  shows "GetScriptOp (push_prefix (length b) @ b @ rest) = (True, hd (push_prefix (length b)), b, rest)"
proof -
  let ?p = "push_prefix (length b)"
  have p: "?p \<noteq> []" by (simp add: push_prefix_def)
  have b: "length b < 2 ^ 32" using assms by simp
  have "GetScriptOp (hd ?p # (tl ?p @ b @ rest)) = (True, hd ?p, b, rest)"
    using assms hd_push_prefix_le [OF b] operand_size_push [OF b, of "b @ rest"]
    by (simp add: GetScriptOp_def)
  moreover have "?p @ b @ rest = hd ?p # (tl ?p @ b @ rest)" using p by simp
  ultimately show ?thesis by metis
qed

end
