(* ===== verification/Flags.thy ===== *)
theory Flags
  imports Prelude
begin

text \<open>
  \<open>src/types/Flags.hpp\<close>: the flag set template, and the two flag enumerations it is used with
  (\<open>src/script/ScriptVerifyFlags.hpp\<close>, \<open>src/script/checkers/SignatureHashType.hpp\<close>).

  The storage type of \<open>Flags<FlagType>\<close> is \<open>helper<sizeof(FlagType)>::type\<close>. The parameter of
  \<open>helper\<close> is a number of bits but the argument is a number of bytes, so an enumeration of four
  bytes is stored in the type for four bits, which is \<open>uint8_t\<close> (\<open>flags_storage_is_one_byte\<close>).
  The model keeps the storage at that width.
\<close>

section \<open>Storage type\<close>

definition helper_type_bytes :: "nat \<Rightarrow> nat" where
  "helper_type_bytes BITS =
     (if BITS \<le> 8 then 1 else if BITS \<le> 16 then 2 else if BITS \<le> 32 then 4
      else if BITS \<le> 64 then 8 else 1)"

definition sizeof_enum :: nat where
  "sizeof_enum = 4"

lemma flags_storage_is_one_byte: "helper_type_bytes sizeof_enum = 1"
  by (simp add: helper_type_bytes_def sizeof_enum_def)

type_synonym flags = "8 word"

section \<open>Operations\<close>

text \<open>An enumerator is its value, an \<open>int\<close> of 32 bits; \<open>ucast\<close> is \<open>static_cast<type>(flag)\<close>.\<close>

definition flags_isSet :: "flags \<Rightarrow> 32 word \<Rightarrow> bool" where
  "flags_isSet fl flag \<longleftrightarrow> fl AND ucast flag \<noteq> 0"

definition flags_mask :: "flags \<Rightarrow> 8 word \<Rightarrow> flags" where
  "flags_mask fl m = (let res = (0 :: flags) in res AND m)"

fun flags_isSetAll :: "flags \<Rightarrow> 32 word list \<Rightarrow> bool" where
  "flags_isSetAll fl [] = True"
| "flags_isSetAll fl (f # fs) = (if \<not> flags_isSet fl f then False else flags_isSetAll fl fs)"

fun flags_isSetAny :: "flags \<Rightarrow> 32 word list \<Rightarrow> bool" where
  "flags_isSetAny fl [] = False"
| "flags_isSetAny fl (f # fs) = (if flags_isSet fl f then True else flags_isSetAny fl fs)"

definition flags_bool :: "flags \<Rightarrow> bool" where
  "flags_bool fl \<longleftrightarrow> 0 < fl"

definition flags_or :: "flags \<Rightarrow> 32 word \<Rightarrow> flags" where
  "flags_or fl flag = fl OR ucast flag"

definition flags_and :: "flags \<Rightarrow> 32 word \<Rightarrow> flags" where
  "flags_and fl flag = fl AND ucast flag"

section \<open>Enumerations\<close>

datatype ScriptVerifyFlags =
    VNONE | P2SH | STRICTENC | VERIFY_DERSIG | LOW_S | NULLDUMMY | SIGPUSHONLY | MINIMALDATA
  | DISCOURAGE_UPGRADABLE_NOPS_FLAG | CLEANSTACK | CHECKLOCKTIMEVERIFY | CHECKSEQUENCEVERIFY
  | WITNESS | DISCOURAGE_UPGRADABLE_WITNESS_PROGRAM_FLAG | MINIMALIF | NULLFAIL
  | WITNESS_PUBKEYTYPE | CONST_SCRIPTCODE

fun verify_flag :: "ScriptVerifyFlags \<Rightarrow> 32 word" where
  "verify_flag VNONE = 0"
| "verify_flag P2SH = push_bit 0 1"
| "verify_flag STRICTENC = push_bit 1 1"
| "verify_flag VERIFY_DERSIG = push_bit 2 1"
| "verify_flag LOW_S = push_bit 3 1"
| "verify_flag NULLDUMMY = push_bit 4 1"
| "verify_flag SIGPUSHONLY = push_bit 5 1"
| "verify_flag MINIMALDATA = push_bit 6 1"
| "verify_flag DISCOURAGE_UPGRADABLE_NOPS_FLAG = push_bit 7 1"
| "verify_flag CLEANSTACK = push_bit 8 1"
| "verify_flag CHECKLOCKTIMEVERIFY = push_bit 9 1"
| "verify_flag CHECKSEQUENCEVERIFY = push_bit 10 1"
| "verify_flag WITNESS = push_bit 11 1"
| "verify_flag DISCOURAGE_UPGRADABLE_WITNESS_PROGRAM_FLAG = push_bit 12 1"
| "verify_flag MINIMALIF = push_bit 13 1"
| "verify_flag NULLFAIL = push_bit 14 1"
| "verify_flag WITNESS_PUBKEYTYPE = push_bit 15 1"
| "verify_flag CONST_SCRIPTCODE = push_bit 16 1"

datatype SignatureHashType = SIGHASH_ALL | SIGHASH_NONE | SIGHASH_SINGLE | SIGHASH_ANYONECANPAY

fun sighash_flag :: "SignatureHashType \<Rightarrow> 32 word" where
  "sighash_flag SIGHASH_ALL = 1"
| "sighash_flag SIGHASH_NONE = 2"
| "sighash_flag SIGHASH_SINGLE = 3"
| "sighash_flag SIGHASH_ANYONECANPAY = 0x80"

section \<open>What the operations do\<close>

definition isSet :: "flags \<Rightarrow> ScriptVerifyFlags \<Rightarrow> bool" where
  "isSet fl f = flags_isSet fl (verify_flag f)"

lemma flags_isSetAny_iff: "flags_isSetAny fl fs \<longleftrightarrow> (\<exists>f \<in> set fs. flags_isSet fl f)"
  by (induction fs) auto

lemma flags_isSetAll_iff: "flags_isSetAll fl fs \<longleftrightarrow> (\<forall>f \<in> set fs. flags_isSet fl f)"
  by (induction fs) auto

lemma flags_mask_zero [simp]: "flags_mask fl m = 0"
  by (simp add: flags_mask_def)

lemma flags_isSet_zero [simp]: "\<not> flags_isSet 0 f"
  by (simp add: flags_isSet_def)

lemma flags_bool_iff: "flags_bool fl \<longleftrightarrow> fl \<noteq> 0"
  by (simp add: flags_bool_def word_neq_0_conv)

lemma flags_isSet_pow: "flags_isSet fl (push_bit n 1) \<longleftrightarrow> n < 8 \<and> bit fl n"
proof -
  have "ucast (push_bit n (1 :: 32 word)) = (push_bit n 1 :: 8 word)"
    by (intro bit_word_eqI) (auto simp: bit_simps)
  moreover have "fl AND push_bit n 1 \<noteq> 0 \<longleftrightarrow> n < 8 \<and> bit fl n"
    using bit_imp_le_length [of fl n] by (auto simp: bit_iff_and_push_bit_not_eq_0)
  ultimately show ?thesis
    by (simp only: flags_isSet_def)
qed

text \<open>
  The ten enumerators below 256 are readable; the others can never be read back, whatever the
  storage holds.
\<close>

definition high_flags :: "ScriptVerifyFlags list" where
  "high_flags = [CLEANSTACK, CHECKLOCKTIMEVERIFY, CHECKSEQUENCEVERIFY, WITNESS,
     DISCOURAGE_UPGRADABLE_WITNESS_PROGRAM_FLAG, MINIMALIF, NULLFAIL, WITNESS_PUBKEYTYPE,
     CONST_SCRIPTCODE]"

lemma isSet_high_flags [simp]:
  "\<not> isSet fl CLEANSTACK" "\<not> isSet fl CHECKLOCKTIMEVERIFY" "\<not> isSet fl CHECKSEQUENCEVERIFY"
  "\<not> isSet fl WITNESS" "\<not> isSet fl DISCOURAGE_UPGRADABLE_WITNESS_PROGRAM_FLAG"
  "\<not> isSet fl MINIMALIF" "\<not> isSet fl NULLFAIL" "\<not> isSet fl WITNESS_PUBKEYTYPE"
  "\<not> isSet fl CONST_SCRIPTCODE"
  by (simp_all only: isSet_def verify_flag.simps flags_isSet_pow) simp_all

lemma isSet_low_flags:
  "isSet fl P2SH = bit fl 0" "isSet fl STRICTENC = bit fl 1" "isSet fl VERIFY_DERSIG = bit fl 2"
  "isSet fl LOW_S = bit fl 3" "isSet fl NULLDUMMY = bit fl 4" "isSet fl SIGPUSHONLY = bit fl 5"
  "isSet fl MINIMALDATA = bit fl 6" "isSet fl DISCOURAGE_UPGRADABLE_NOPS_FLAG = bit fl 7"
  by (simp_all only: isSet_def verify_flag.simps flags_isSet_pow) simp_all

end
