(* ===== verification/SigEncoding.thy ===== *)
theory SigEncoding
  imports Flags Stack
begin

text \<open>
  The encoding checks of \<open>src/script/Interpreter.cpp\<close>: which byte strings the interpreter accepts
  as public keys and as signatures before it asks the checker to verify them.

  \<open>byte_at\<close> is \<open>operator[]\<close> of a vector: reading outside the vector is undefined. The main result is
  that \<open>IsValidSignatureEncoding\<close> never reads outside its argument and decides exactly the strict
  DER format that its comment describes.
\<close>

datatype SigVersion = BASE | WITNESS_V0

definition PUBLIC_KEY_SIZE :: nat where "PUBLIC_KEY_SIZE = 65"
definition COMPRESSED_PUBLIC_KEY_SIZE :: nat where "COMPRESSED_PUBLIC_KEY_SIZE = 33"

definition byte_at :: "bytes \<Rightarrow> nat \<Rightarrow> script_fault + byte" where
  "byte_at bs i = (if i < length bs then Inr (bs ! i) else Inl Undefined)"

section \<open>Public keys\<close>

definition IsCompressedOrUncompressedPubKey :: "bytes \<Rightarrow> script_fault + bool" where
  "IsCompressedOrUncompressedPubKey pubKey =
     (if length pubKey < COMPRESSED_PUBLIC_KEY_SIZE then Inr False
      else rbind (byte_at pubKey 0) (\<lambda>b0.
        if b0 = 0x04 then
          (if length pubKey \<noteq> PUBLIC_KEY_SIZE then Inr False else Inr True)
        else if b0 = 0x02 \<or> b0 = 0x03 then
          (if length pubKey \<noteq> COMPRESSED_PUBLIC_KEY_SIZE then Inr False else Inr True)
        else Inr False))"

definition IsCompressedPubKey :: "bytes \<Rightarrow> script_fault + bool" where
  "IsCompressedPubKey pubKey =
     (if length pubKey \<noteq> COMPRESSED_PUBLIC_KEY_SIZE then Inr False
      else rbind (byte_at pubKey 0) (\<lambda>b0. if b0 \<noteq> 0x02 \<and> b0 \<noteq> 0x03 then Inr False else Inr True))"

section \<open>Signatures\<close>

definition IsValidSignatureEncoding :: "bytes \<Rightarrow> script_fault + bool" where
  "IsValidSignatureEncoding sig =
     (if length sig < 9 then Inr False
      else if length sig > 73 then Inr False
      else rbind (byte_at sig 0) (\<lambda>s0. if s0 \<noteq> 0x30 then Inr False
      else rbind (byte_at sig 1) (\<lambda>s1. if unat s1 \<noteq> length sig - 3 then Inr False
      else rbind (byte_at sig 3) (\<lambda>s3. let lenR = unat s3 in
           if 5 + lenR \<ge> length sig then Inr False
      else rbind (byte_at sig (5 + lenR)) (\<lambda>s5. let lenS = unat s5 in
           if lenR + lenS + 7 \<noteq> length sig then Inr False
      else rbind (byte_at sig 2) (\<lambda>s2. if s2 \<noteq> 0x02 then Inr False
      else if lenR = 0 then Inr False
      else rbind (byte_at sig 4) (\<lambda>r0. if r0 AND 0x80 \<noteq> 0 then Inr False
      else rbind (if lenR > 1 \<and> r0 = 0x00
                  then rbind (byte_at sig 5) (\<lambda>r1. Inr (r1 AND 0x80 = 0)) else Inr False) (\<lambda>padR.
           if padR then Inr False
      else rbind (byte_at sig (lenR + 4)) (\<lambda>tagS. if tagS \<noteq> 0x02 then Inr False
      else if lenS = 0 then Inr False
      else rbind (byte_at sig (lenR + 6)) (\<lambda>t0. if t0 AND 0x80 \<noteq> 0 then Inr False
      else rbind (if lenS > 1 \<and> t0 = 0x00
                  then rbind (byte_at sig (lenR + 7)) (\<lambda>t1. Inr (t1 AND 0x80 = 0)) else Inr False) (\<lambda>padS.
           if padS then Inr False
      else Inr True)))))))))))"

definition IsLowDERSignature :: "frame \<Rightarrow> script_fault + bool" where
  "IsLowDERSignature vchSig = Inl Abort"

fun IsDefinedHashtypeSignature :: "frame \<Rightarrow> bool" where
  "IsDefinedHashtypeSignature (Number n) = False"
| "IsDefinedHashtypeSignature (Data sigData) =
     (if sigData = [] then False
      else
        let nHashType = last sigData AND NOT 0x80
        in \<not> (nHashType < ucast (sighash_flag SIGHASH_ALL) \<or>
               nHashType > ucast (sighash_flag SIGHASH_SINGLE)))"

fun CheckSignatureEncoding :: "frame \<Rightarrow> flags \<Rightarrow> script_fault + bool" where
  "CheckSignatureEncoding (Number n) fl = Inr False"
| "CheckSignatureEncoding (Data sigData) fl =
     (if sigData = [] then Inr True
      else rbind
        (if flags_isSetAny fl [verify_flag VERIFY_DERSIG, verify_flag LOW_S, verify_flag STRICTENC]
         then rbind (IsValidSignatureEncoding sigData) (\<lambda>ok. Inr (\<not> ok)) else Inr False) (\<lambda>badDer.
        if badDer then throw SE_SIG_DER
      else rbind
        (if isSet fl LOW_S
         then rbind (IsLowDERSignature (Data sigData)) (\<lambda>ok. Inr (\<not> ok)) else Inr False) (\<lambda>highS.
        if highS then Inr False
      else if isSet fl STRICTENC \<and> \<not> IsDefinedHashtypeSignature (Data sigData)
        then throw SE_SIG_HASHTYPE
      else Inr True)))"

declare CheckSignatureEncoding.simps [simp del]

definition CheckPubKeyEncoding :: "bytes \<Rightarrow> flags \<Rightarrow> SigVersion \<Rightarrow> script_fault + bool" where
  "CheckPubKeyEncoding pubKey fl sigversion =
     rbind (if isSet fl STRICTENC
            then rbind (IsCompressedOrUncompressedPubKey pubKey) (\<lambda>ok. Inr (\<not> ok)) else Inr False)
       (\<lambda>bad. if bad then throw SE_PUBKEYTYPE
      else rbind (if isSet fl WITNESS_PUBKEYTYPE \<and> sigversion = WITNESS_V0
                  then rbind (IsCompressedPubKey pubKey) (\<lambda>ok. Inr (\<not> ok)) else Inr False)
       (\<lambda>bad. if bad then throw SE_WITNESS_PUBKEYTYPE
      else Inr True))"

section \<open>The strict DER format\<close>

text \<open>A positive integer in the fewest bytes, big-endian two's complement.\<close>

definition der_int :: "bytes \<Rightarrow> bool" where
  "der_int R \<longleftrightarrow> R \<noteq> [] \<and> unat (R ! 0) < 128 \<and> (length R > 1 \<and> R ! 0 = 0 \<longrightarrow> 128 \<le> unat (R ! 1))"

definition der_layout :: "bytes \<Rightarrow> bytes \<Rightarrow> byte \<Rightarrow> bytes" where
  "der_layout R S hashtype =
     [0x30, word_of_nat (length R + length S + 4), 0x02, word_of_nat (length R)] @ R @
     [0x02, word_of_nat (length S)] @ S @ [hashtype]"

definition der_signature :: "bytes \<Rightarrow> bool" where
  "der_signature sig \<longleftrightarrow>
     (\<exists>R S hashtype. der_int R \<and> der_int S \<and> length R + length S \<le> 66 \<and> sig = der_layout R S hashtype)"

definition der_checks :: "bytes \<Rightarrow> nat \<Rightarrow> nat \<Rightarrow> bool" where
  "der_checks sig lenR lenS \<longleftrightarrow>
     sig ! 0 = 0x30 \<and> unat (sig ! 1) = length sig - 3 \<and> sig ! 2 = 0x02 \<and>
     0 < lenR \<and> unat (sig ! 4) < 128 \<and> (1 < lenR \<and> sig ! 4 = 0 \<longrightarrow> 128 \<le> unat (sig ! 5)) \<and>
     sig ! (lenR + 4) = 0x02 \<and>
     0 < lenS \<and> unat (sig ! (lenR + 6)) < 128 \<and>
     (1 < lenS \<and> sig ! (lenR + 6) = 0 \<longrightarrow> 128 \<le> unat (sig ! (lenR + 7)))"

lemma IsValidSignatureEncoding_checks:
  "IsValidSignatureEncoding sig =
     Inr (9 \<le> length sig \<and> length sig \<le> 73 \<and> 5 + unat (sig ! 3) < length sig \<and>
          unat (sig ! 3) + unat (sig ! (5 + unat (sig ! 3))) + 7 = length sig \<and>
          der_checks sig (unat (sig ! 3)) (unat (sig ! (5 + unat (sig ! 3)))))"
  by (auto simp: IsValidSignatureEncoding_def byte_at_def Let_def der_checks_def not_less)

lemma length_der_layout [simp]: "length (der_layout R S h) = length R + length S + 7"
  by (simp add: der_layout_def)

lemma der_layout_nth:
  "der_layout R S h ! 0 = 0x30"
  "der_layout R S h ! Suc 0 = word_of_nat (length R + length S + 4)"
  "der_layout R S h ! 2 = 0x02"
  "der_layout R S h ! 3 = word_of_nat (length R)"
  "der_layout R S h ! (4 + length R) = 0x02"
  "der_layout R S h ! (5 + length R) = word_of_nat (length S)"
  by (simp_all add: der_layout_def nth_append numeral_eq_Suc)

lemma der_layout_nth_R: "i < length R \<Longrightarrow> der_layout R S h ! (4 + i) = R ! i"
  by (simp add: der_layout_def nth_append)

lemma der_layout_nth_S: "i < length S \<Longrightarrow> der_layout R S h ! (6 + length R + i) = S ! i"
  by (simp add: der_layout_def nth_append)

lemma der_layout_checks:
  assumes "length R + length S \<le> 66" and "R \<noteq> []" and "S \<noteq> []"
  shows "der_checks (der_layout R S h) (length R) (length S) \<longleftrightarrow> der_int R \<and> der_int S"
proof -
  let ?l = "der_layout R S h"
  have "unat (word_of_nat (length R + length S + 4) :: byte) = length R + length S + 4"
    using assms(1) by (simp add: unat_of_nat del: of_nat_add)
  then have one: "unat (?l ! 1) = length ?l - 3"
    using der_layout_nth(2) [of R S h] by simp
  have r0: "?l ! 4 = R ! 0" and s0: "?l ! (length R + 6) = S ! 0"
    using der_layout_nth_R [of 0 R S h] der_layout_nth_S [of 0 S R h] assms by (simp_all add: ac_simps)
  have r1: "?l ! 5 = R ! 1" if "1 < length R"
    using der_layout_nth_R [of 1 R S h] that by simp
  have s1: "?l ! (length R + 7) = S ! 1" if "1 < length S"
    using der_layout_nth_S [of 1 S R h] that by (simp add: ac_simps)
  have tags: "?l ! 0 = 0x30" "?l ! 2 = 0x02" "?l ! (length R + 4) = 0x02"
    using der_layout_nth [of R S h] by (simp_all add: ac_simps)
  show ?thesis
    unfolding der_checks_def der_int_def r0 s0 tags one
    using r1 s1 assms by auto
qed

lemma split_at_length: "n \<le> length xs \<Longrightarrow> \<exists>a b. xs = a @ b \<and> length a = n"
  by (rule exI [of _ "take n xs"], rule exI [of _ "drop n xs"]) simp

lemma split_two: "length xs = 2 \<Longrightarrow> \<exists>a b. xs = [a, b]"
  by (auto simp: numeral_eq_Suc length_Suc_conv)

lemma split_four: "length xs = 4 \<Longrightarrow> \<exists>a b c d. xs = [a, b, c, d]"
  by (auto simp: numeral_eq_Suc length_Suc_conv)

lemma der_split:
  assumes "length sig = n + m + 7"
  obtains a0 a1 a2 a3 R t0 t1 S h
  where "sig = [a0, a1, a2, a3] @ R @ [t0, t1] @ S @ [h]" and "length R = n" and "length S = m"
proof -
  obtain a b where 1: "sig = a @ b" "length a = 4"
    using split_at_length [of 4 sig] assms by auto
  obtain R c where 2: "b = R @ c" "length R = n"
    using split_at_length [of n b] assms 1 by auto
  obtain t d where 3: "c = t @ d" "length t = 2"
    using split_at_length [of 2 c] assms 1 2 by auto
  obtain S e where 4: "d = S @ e" "length S = m"
    using split_at_length [of m d] assms 1 2 3 by auto
  have "length e = 1" using assms 1 2 3 4 by simp
  then obtain h where "e = [h]" by (auto simp: length_Suc_conv)
  with 1 2 3 4 split_four [of a] split_two [of t] that show thesis by auto
qed

theorem IsValidSignatureEncoding_der:
  "IsValidSignatureEncoding sig = Inr (der_signature sig)"
proof -
  let ?r = "unat (sig ! 3)"
  let ?s = "unat (sig ! (5 + ?r))"
  have "(9 \<le> length sig \<and> length sig \<le> 73 \<and> 5 + ?r < length sig \<and> ?r + ?s + 7 = length sig \<and>
      der_checks sig ?r ?s) \<longleftrightarrow> der_signature sig" (is "?checks \<longleftrightarrow> _")
  proof
    assume c: ?checks
    then have "length sig = ?r + ?s + 7" by simp
    then obtain a0 a1 a2 a3 R t0 t1 S h
      where sig: "sig = [a0, a1, a2, a3] @ R @ [t0, t1] @ S @ [h]"
        and R: "length R = ?r" and S: "length S = ?s"
      by (rule der_split)
    have idx: "sig ! 0 = a0" "sig ! 1 = a1" "sig ! 2 = a2" "sig ! 3 = a3"
      "sig ! (4 + length R) = t0" "sig ! (5 + length R) = t1"
      by (simp_all add: sig nth_append numeral_eq_Suc)
    have len: "length R + length S \<le> 66" "R \<noteq> []" "S \<noteq> []"
      using c R S by (auto simp: der_checks_def)
    have "a0 = 0x30" "a2 = 0x02" "t0 = 0x02"
      using c idx R by (auto simp: der_checks_def ac_simps)
    moreover have "a3 = word_of_nat (length R)" "t1 = word_of_nat (length S)"
      using R S idx by simp_all
    moreover have "unat a1 = length R + length S + 4"
      using c idx R S by (auto simp: der_checks_def)
    then have "a1 = word_of_nat (length R + length S + 4)"
      by (metis of_nat_unat ucast_id)
    ultimately have lay: "sig = der_layout R S h"
      by (simp add: sig der_layout_def)
    have "der_checks sig (length R) (length S)"
      unfolding R S using c by blast
    then have "der_int R \<and> der_int S"
      unfolding lay using der_layout_checks [OF len] by blast
    then show "der_signature sig"
      unfolding der_signature_def using lay len(1) by blast
  next
    assume "der_signature sig"
    then obtain R S h where d: "der_int R" "der_int S" "length R + length S \<le> 66"
      and sig: "sig = der_layout R S h"
      by (auto simp: der_signature_def)
    have ne: "R \<noteq> []" "S \<noteq> []" using d by (auto simp: der_int_def)
    have "unat (word_of_nat (length R) :: byte) = length R" "unat (word_of_nat (length S) :: byte) = length S"
      using d(3) by (simp_all add: unat_of_nat)
    then have "?r = length R" "?s = length S"
      using der_layout_nth [of R S h] by (simp_all add: sig)
    moreover have "1 \<le> length R" "1 \<le> length S"
      using ne by (simp_all add: Suc_le_eq)
    ultimately show ?checks
      using d ne der_layout_checks [of R S h] by (simp add: sig)
  qed
  then show ?thesis by (simp only: IsValidSignatureEncoding_checks)
qed

end
