(* ===== verification/InterpOps.thy ===== *)
theory InterpOps
  imports Script SigEncoding
begin

text \<open>
  \<open>src/script/Interpreter.hpp\<close> and the \<open>op_*\<close> methods of \<open>src/script/Interpreter.cpp\<close>.

  The interpreter's mutable members are the record \<open>interp\<close>; its constant members and the code it
  calls through interfaces are the record \<open>env\<close>: the flags, the signature version, the virtual
  functions of the signature checker and the digests. A method is a function from the state to a
  fault or the new state. What a failed method leaves on the stacks is not recorded: after a fault
  \<open>execute\<close> returns \<open>false\<close> and only the trace output reads the stacks.

  Positions in the script are the bytes from there to the end of the script. The vector of
  conditional execution flags is a list with its back at the head.
\<close>

record hashers =
  RIPEMD160 :: "bytes \<Rightarrow> bytes"
  SHA1 :: "bytes \<Rightarrow> bytes"
  SHA256 :: "bytes \<Rightarrow> bytes"
  Hash160 :: "bytes \<Rightarrow> bytes"
  Hash256 :: "bytes \<Rightarrow> bytes"

record checker =
  CheckSig :: "bytes \<Rightarrow> bytes \<Rightarrow> bytes \<Rightarrow> SigVersion \<Rightarrow> script_fault + bool"
  CheckLockTime :: "script_num \<Rightarrow> script_fault + bool"
  CheckSequence :: "script_num \<Rightarrow> script_fault + bool"

record env =
  eflags :: flags
  echecker :: checker
  esigversion :: SigVersion
  ehash :: hashers

record interp =
  stepNo :: nat
  opCount :: nat
  stk :: stack
  altStk :: stack
  condFlags :: "bool list"
  curPos :: bytes
  sepPos :: bytes

section \<open>Helpers\<close>

fun CastToBool :: "frame \<Rightarrow> bool" where
  "CastToBool (Number n) = (n \<noteq> 0)"
| "CastToBool (Data d) = (\<exists>b \<in> set d. b \<noteq> 0)"

definition ensureStackHasEnoughFrames :: "nat \<Rightarrow> interp \<Rightarrow> script_fault + unit" where
  "ensureStackHasEnoughFrames need s =
     (if length (stk s) < need then throw SE_INVALID_STACK_OPERATION else Inr ())"

text \<open>The conversion of an \<open>int\<close> argument to the parameter type \<open>size_t\<close>.\<close>

definition size_t_of_int :: "int \<Rightarrow> nat" where
  "size_t_of_int n = nat (n mod 2 ^ 64)"

definition take_frame :: "interp \<Rightarrow> script_fault + frame \<times> interp" where
  "take_frame s = rbind (stack_take (stk s)) (\<lambda>(x, st). Inr (x, s\<lparr>stk := st\<rparr>))"

definition top_frame :: "interp \<Rightarrow> script_fault + frame" where
  "top_frame s = stack_top (stk s)"

definition pop_frame :: "interp \<Rightarrow> script_fault + interp" where
  "pop_frame s = rbind (stack_pop (stk s)) (\<lambda>st. Inr (s\<lparr>stk := st\<rparr>))"

definition push_frame :: "frame \<Rightarrow> interp \<Rightarrow> interp" where
  "push_frame x s = s\<lparr>stk := stack_push x (stk s)\<rparr>"

definition push_num :: "script_num \<Rightarrow> interp \<Rightarrow> script_fault + interp" where
  "push_num n s = Inr (push_frame (Number n) s)"

definition push_bool :: "bool \<Rightarrow> interp \<Rightarrow> script_fault + interp" where
  "push_bool b s = push_num (if b then 1 else 0) s"

definition push_data :: "bytes \<Rightarrow> interp \<Rightarrow> script_fault + interp" where
  "push_data d s = Inr (push_frame (Data d) s)"

text \<open>\<open>_stack.take().asNumber(...)\<close> and \<open>_stack.take().asData()\<close>.\<close>

definition take_num :: "env \<Rightarrow> interp \<Rightarrow> script_fault + script_num \<times> interp" where
  "take_num env s =
     rbind (take_frame s) (\<lambda>(x, s). rbind (asNumber (isSet (eflags env) MINIMALDATA) x) (\<lambda>n. Inr (n, s)))"

definition take_data :: "interp \<Rightarrow> script_fault + bytes \<times> interp" where
  "take_data s = rbind (take_frame s) (\<lambda>(x, s). rbind (asData x) (\<lambda>d. Inr (d, s)))"

text \<open>\<open>_stack.top().asData()\<close>: the frame on the stack becomes a byte string.\<close>

definition top_data :: "interp \<Rightarrow> script_fault + bytes \<times> interp" where
  "top_data s =
     rbind (take_frame s) (\<lambda>(x, s). rbind (asData x) (\<lambda>d. Inr (d, push_frame (Data d) s)))"

lemmas frame_access_defs =
  ensureStackHasEnoughFrames_def take_frame_def top_frame_def pop_frame_def push_frame_def
  push_num_def push_bool_def push_data_def take_num_def take_data_def top_data_def

section \<open>Pushes\<close>

definition not_minimal_single :: "bytes \<Rightarrow> bool" where
  "not_minimal_single data \<longleftrightarrow>
     (case data of [b] \<Rightarrow> (b \<ge> 1 \<and> b \<le> 16) \<or> b = 0x81 | _ \<Rightarrow> False)"

definition push_short :: "env \<Rightarrow> bytes \<Rightarrow> interp \<Rightarrow> script_fault + interp" where
  "push_short env data s =
     (if length data \<le> 4
      then rbind (ScriptNum_of_data data (isSet (eflags env) MINIMALDATA) 4) (\<lambda>n. push_num n s)
      else push_data data s)"

definition op_PushData :: "env \<Rightarrow> opcode \<Rightarrow> bytes \<Rightarrow> interp \<Rightarrow> script_fault + interp" where
  [op_defs]: "op_PushData env opCode data s =
     (if isSet (eflags env) MINIMALDATA \<and> data = [] \<and> opCode \<noteq> OP_0 then throw SE_MINIMALDATA
      else if isSet (eflags env) MINIMALDATA \<and> not_minimal_single data then throw SE_MINIMALDATA
      else push_short env data s)"

definition op_PushData1 :: "env \<Rightarrow> bytes \<Rightarrow> interp \<Rightarrow> script_fault + interp" where
  [op_defs]: "op_PushData1 env data s =
     (if isSet (eflags env) MINIMALDATA \<and>
         (data = [] \<or> not_minimal_single data \<or> (length data > 1 \<and> length data < unat OP_PUSHDATA1))
      then throw SE_MINIMALDATA
      else push_short env data s)"

definition op_PushData2 :: "env \<Rightarrow> bytes \<Rightarrow> interp \<Rightarrow> script_fault + interp" where
  [op_defs]: "op_PushData2 env data s =
     (if isSet (eflags env) MINIMALDATA \<and> length data \<le> 0xff then throw SE_MINIMALDATA
      else push_data data s)"

definition op_PushData4 :: "env \<Rightarrow> bytes \<Rightarrow> interp \<Rightarrow> script_fault + interp" where
  [op_defs]: "op_PushData4 env data s =
     (if isSet (eflags env) MINIMALDATA \<and> length data \<le> 0xffff then throw SE_MINIMALDATA
      else push_data data s)"

definition op_N :: "opcode \<Rightarrow> interp \<Rightarrow> script_fault + interp" where
  [op_defs]: "op_N opCode s = push_num (uint opCode - uint OP_1 + 1) s"

section \<open>Control\<close>

definition op_Nop :: "interp \<Rightarrow> script_fault + interp" where
  [op_defs]: "op_Nop s = Inr s"

text \<open>
  The operand of the two time lock operations is read from the top frame, which stays on the
  stack as a byte string.
\<close>

definition op_CheckLockTimeVerify :: "env \<Rightarrow> interp \<Rightarrow> script_fault + interp" where
  [op_defs]: "op_CheckLockTimeVerify env s =
     (if \<not> isSet (eflags env) CHECKLOCKTIMEVERIFY then Inr s
      else rbind (ensureStackHasEnoughFrames 1 s) (\<lambda>_.
           rbind (top_data s) (\<lambda>(d, s).
           rbind (ScriptNum_of_data d (isSet (eflags env) MINIMALDATA) 5) (\<lambda>nLockTime.
           if nLockTime < 0 then throw SE_NEGATIVE_LOCKTIME
           else rbind (CheckLockTime (echecker env) nLockTime) (\<lambda>ok.
           if \<not> ok then throw SE_UNSATISFIED_LOCKTIME else Inr s)))))"

definition SEQUENCE_LOCKTIME_DISABLE_FLAG :: int where
  "SEQUENCE_LOCKTIME_DISABLE_FLAG = push_bit 31 1"

definition op_CheckSequenceVerify :: "env \<Rightarrow> interp \<Rightarrow> script_fault + interp" where
  [op_defs]: "op_CheckSequenceVerify env s =
     (if \<not> isSet (eflags env) CHECKSEQUENCEVERIFY then Inr s
      else rbind (ensureStackHasEnoughFrames 1 s) (\<lambda>_.
           rbind (top_data s) (\<lambda>(d, s).
           rbind (ScriptNum_of_data d (isSet (eflags env) MINIMALDATA) 5) (\<lambda>nSequence.
           if nSequence < 0 then throw SE_NEGATIVE_LOCKTIME
           else if sn_and nSequence SEQUENCE_LOCKTIME_DISABLE_FLAG \<noteq> 0 then Inr s
           else rbind (CheckSequence (echecker env) nSequence) (\<lambda>ok.
           if \<not> ok then throw SE_UNSATISFIED_LOCKTIME else Inr s)))))"

definition op_Noop :: "env \<Rightarrow> interp \<Rightarrow> script_fault + interp" where
  [op_defs]: "op_Noop env s =
     (if isSet (eflags env) DISCOURAGE_UPGRADABLE_NOPS_FLAG
      then throw SE_DISCOURAGE_UPGRADABLE_NOPS else Inr s)"

definition op_Verify :: "interp \<Rightarrow> script_fault + interp" where
  [op_defs]: "op_Verify s =
     rbind (ensureStackHasEnoughFrames 1 s) (\<lambda>_.
     rbind (top_frame s) (\<lambda>x. if \<not> CastToBool x then throw SE_VERIFY else pop_frame s))"

definition op_Return :: "interp \<Rightarrow> script_fault + interp" where
  [op_defs]: "op_Return s = throw SE_OP_RETURN"

definition op_ToAltStack :: "interp \<Rightarrow> script_fault + interp" where
  [op_defs]: "op_ToAltStack s =
     rbind (ensureStackHasEnoughFrames 1 s) (\<lambda>_.
     rbind (take_frame s) (\<lambda>(x, s). Inr (s\<lparr>altStk := stack_push x (altStk s)\<rparr>)))"

definition op_FromAltStack :: "interp \<Rightarrow> script_fault + interp" where
  [op_defs]: "op_FromAltStack s =
     (if altStk s = [] then throw SE_INVALID_ALTSTACK_OPERATION
      else rbind (stack_take (altStk s)) (\<lambda>(x, alt). Inr (push_frame x (s\<lparr>altStk := alt\<rparr>))))"

section \<open>Stack operations\<close>

definition op_2Drop :: "interp \<Rightarrow> script_fault + interp" where
  [op_defs]: "op_2Drop s =
     rbind (ensureStackHasEnoughFrames 2 s) (\<lambda>_. rbind (pop_frame s) pop_frame)"

definition op_2Dup :: "interp \<Rightarrow> script_fault + interp" where
  [op_defs]: "op_2Dup s =
     rbind (ensureStackHasEnoughFrames 2 s) (\<lambda>_.
     rbind (take_frame s) (\<lambda>(x2, s).
     rbind (top_frame s) (\<lambda>x1.
     Inr (push_frame x2 (push_frame x1 (push_frame x2 s))))))"

definition op_3Dup :: "interp \<Rightarrow> script_fault + interp" where
  [op_defs]: "op_3Dup s =
     rbind (ensureStackHasEnoughFrames 3 s) (\<lambda>_.
     rbind (take_frame s) (\<lambda>(x3, s).
     rbind (take_frame s) (\<lambda>(x2, s).
     rbind (top_frame s) (\<lambda>x1.
     Inr (push_frame x3 (push_frame x2 (push_frame x1 (push_frame x3 (push_frame x2 s)))))))))"

definition op_2Over :: "interp \<Rightarrow> script_fault + interp" where
  [op_defs]: "op_2Over s =
     rbind (ensureStackHasEnoughFrames 4 s) (\<lambda>_.
     rbind (take_frame s) (\<lambda>(x4, s).
     rbind (take_frame s) (\<lambda>(x3, s).
     rbind (take_frame s) (\<lambda>(x2, s).
     rbind (top_frame s) (\<lambda>x1.
     Inr (push_frame x2 (push_frame x1 (push_frame x4 (push_frame x3 (push_frame x2 s))))))))))"

definition op_2Rot :: "interp \<Rightarrow> script_fault + interp" where
  [op_defs]: "op_2Rot s =
     rbind (ensureStackHasEnoughFrames 6 s) (\<lambda>_.
     rbind (take_frame s) (\<lambda>(x6, s).
     rbind (take_frame s) (\<lambda>(x5, s).
     rbind (take_frame s) (\<lambda>(x4, s).
     rbind (take_frame s) (\<lambda>(x3, s).
     rbind (take_frame s) (\<lambda>(x2, s).
     rbind (take_frame s) (\<lambda>(x1, s).
     Inr (push_frame x2 (push_frame x1 (push_frame x6 (push_frame x5 (push_frame x4 (push_frame x3 s)))))))))))))"

definition op_2Swap :: "interp \<Rightarrow> script_fault + interp" where
  [op_defs]: "op_2Swap s =
     rbind (ensureStackHasEnoughFrames 4 s) (\<lambda>_.
     rbind (take_frame s) (\<lambda>(x4, s).
     rbind (take_frame s) (\<lambda>(x3, s).
     rbind (take_frame s) (\<lambda>(x2, s).
     rbind (take_frame s) (\<lambda>(x1, s).
     Inr (push_frame x2 (push_frame x1 (push_frame x4 (push_frame x3 s)))))))))"

definition op_IfDup :: "interp \<Rightarrow> script_fault + interp" where
  [op_defs]: "op_IfDup s =
     rbind (ensureStackHasEnoughFrames 1 s) (\<lambda>_.
     rbind (top_frame s) (\<lambda>x. if CastToBool x then Inr (push_frame x s) else Inr s))"

definition op_Depth :: "interp \<Rightarrow> script_fault + interp" where
  [op_defs]: "op_Depth s =
     push_num (int (length (stk s))) s"

definition op_Drop :: "interp \<Rightarrow> script_fault + interp" where
  [op_defs]: "op_Drop s =
     rbind (ensureStackHasEnoughFrames 1 s) (\<lambda>_. pop_frame s)"

definition op_Dup :: "interp \<Rightarrow> script_fault + interp" where
  [op_defs]: "op_Dup s =
     rbind (ensureStackHasEnoughFrames 1 s) (\<lambda>_.
     rbind (top_frame s) (\<lambda>x. Inr (push_frame x s)))"

definition op_Nip :: "interp \<Rightarrow> script_fault + interp" where
  [op_defs]: "op_Nip s =
     rbind (ensureStackHasEnoughFrames 2 s) (\<lambda>_.
     rbind (take_frame s) (\<lambda>(x2, s).
     rbind (pop_frame s) (\<lambda>s. Inr (push_frame x2 s))))"

definition op_Over :: "interp \<Rightarrow> script_fault + interp" where
  [op_defs]: "op_Over s =
     rbind (ensureStackHasEnoughFrames 2 s) (\<lambda>_.
     rbind (take_frame s) (\<lambda>(x2, s).
     rbind (top_frame s) (\<lambda>x1.
     Inr (push_frame x1 (push_frame x2 s)))))"

text \<open>
  The counting loop \<open>while (--n) { tmp.push(_stack.take()); }\<close> of \<open>op_Pick\<close> and \<open>op_Roll\<close>. The
  loop tests for zero only, so from zero or below it runs until the stack is empty and the
  \<open>assert\<close> of \<open>take\<close> fails.
\<close>

function pick_loop :: "int \<Rightarrow> stack \<Rightarrow> stack \<Rightarrow> script_fault + stack \<times> stack" where
  "pick_loop n st tmp =
     (if n - 1 \<noteq> 0 then
        (case st of
           [] \<Rightarrow> Inl Abort
         | x # st' \<Rightarrow> pick_loop (n - 1) st' (stack_push x tmp))
      else Inr (st, tmp))"
  by pat_completeness auto
termination
  by (relation "measure (\<lambda>(n, st, tmp). length st)") auto

declare pick_loop.simps [simp del]

text \<open>\<open>while (!tmp.empty()) { _stack.push(tmp.take()); }\<close>\<close>

fun drain :: "stack \<Rightarrow> stack \<Rightarrow> stack" where
  "drain [] st = st"
| "drain (x # tmp) st = drain tmp (stack_push x st)"

definition pick_count :: "script_num \<Rightarrow> script_fault + int" where
  "pick_count v = (if getint v = 2 ^ 31 - 1 then Inl Undefined else Inr (1 + getint v))"

definition op_Pick :: "env \<Rightarrow> interp \<Rightarrow> script_fault + interp" where
  [op_defs]: "op_Pick env s =
     rbind (ensureStackHasEnoughFrames 2 s) (\<lambda>_.
     rbind (take_num env s) (\<lambda>(v, s).
     rbind (pick_count v) (\<lambda>n.
     rbind (ensureStackHasEnoughFrames (size_t_of_int n) s) (\<lambda>_.
     rbind (pick_loop n (stk s) []) (\<lambda>(st, tmp).
     rbind (stack_top st) (\<lambda>xN.
     Inr (push_frame xN (s\<lparr>stk := drain tmp st\<rparr>))))))))"

definition op_Roll :: "env \<Rightarrow> interp \<Rightarrow> script_fault + interp" where
  [op_defs]: "op_Roll env s =
     rbind (ensureStackHasEnoughFrames 2 s) (\<lambda>_.
     rbind (take_num env s) (\<lambda>(v, s).
     rbind (pick_count v) (\<lambda>n.
     rbind (ensureStackHasEnoughFrames (size_t_of_int n) s) (\<lambda>_.
     rbind (pick_loop n (stk s) []) (\<lambda>(st, tmp).
     rbind (stack_take st) (\<lambda>(xN, st).
     Inr (push_frame xN (s\<lparr>stk := drain tmp st\<rparr>))))))))"

definition op_Rot :: "interp \<Rightarrow> script_fault + interp" where
  [op_defs]: "op_Rot s =
     rbind (ensureStackHasEnoughFrames 3 s) (\<lambda>_.
     rbind (take_frame s) (\<lambda>(x3, s).
     rbind (take_frame s) (\<lambda>(x2, s).
     rbind (take_frame s) (\<lambda>(x1, s).
     Inr (push_frame x1 (push_frame x3 (push_frame x2 s)))))))"

definition op_Swap :: "interp \<Rightarrow> script_fault + interp" where
  [op_defs]: "op_Swap s =
     rbind (ensureStackHasEnoughFrames 2 s) (\<lambda>_.
     rbind (take_frame s) (\<lambda>(x2, s).
     rbind (take_frame s) (\<lambda>(x1, s).
     Inr (push_frame x1 (push_frame x2 s)))))"

definition op_Tuck :: "interp \<Rightarrow> script_fault + interp" where
  [op_defs]: "op_Tuck s =
     rbind (ensureStackHasEnoughFrames 2 s) (\<lambda>_.
     rbind (take_frame s) (\<lambda>(x2, s).
     rbind (take_frame s) (\<lambda>(x1, s).
     Inr (push_frame x2 (push_frame x1 (push_frame x2 s))))))"

definition op_Size :: "interp \<Rightarrow> script_fault + interp" where
  [op_defs]: "op_Size s =
     rbind (ensureStackHasEnoughFrames 1 s) (\<lambda>_.
     rbind (top_data s) (\<lambda>(d, s). push_num (int (length d)) s))"

definition op_Equal :: "interp \<Rightarrow> script_fault + interp" where
  [op_defs]: "op_Equal s =
     rbind (ensureStackHasEnoughFrames 2 s) (\<lambda>_.
     rbind (take_data s) (\<lambda>(x2, s).
     rbind (take_data s) (\<lambda>(x1, s). push_bool (x1 = x2) s)))"

text \<open>The tail of the \<open>...VERIFY\<close> operations: pop a true result, throw on a false one.\<close>

definition verify_top :: "script_error \<Rightarrow> interp \<Rightarrow> script_fault + interp" where
  "verify_top e s =
     rbind (top_frame s) (\<lambda>x. if \<not> CastToBool x then throw e else pop_frame s)"

definition op_EqualVerify :: "interp \<Rightarrow> script_fault + interp" where
  [op_defs]: "op_EqualVerify s =
     rbind (op_Equal s) (verify_top SE_EQUALVERIFY)"

section \<open>Numeric operations\<close>

definition op_1Add :: "env \<Rightarrow> interp \<Rightarrow> script_fault + interp" where
  [op_defs]: "op_1Add env s =
     rbind (ensureStackHasEnoughFrames 1 s) (\<lambda>_.
     rbind (take_num env s) (\<lambda>(x, s). rbind (sn_plus x 1) (\<lambda>r. push_num r s)))"

definition op_1Sub :: "env \<Rightarrow> interp \<Rightarrow> script_fault + interp" where
  [op_defs]: "op_1Sub env s =
     rbind (ensureStackHasEnoughFrames 1 s) (\<lambda>_.
     rbind (take_num env s) (\<lambda>(x, s). rbind (sn_minus x 1) (\<lambda>r. push_num r s)))"

definition op_Negate :: "env \<Rightarrow> interp \<Rightarrow> script_fault + interp" where
  [op_defs]: "op_Negate env s =
     rbind (ensureStackHasEnoughFrames 1 s) (\<lambda>_.
     rbind (take_num env s) (\<lambda>(x, s). rbind (sn_uminus x) (\<lambda>r. push_num r s)))"

definition op_Abs :: "env \<Rightarrow> interp \<Rightarrow> script_fault + interp" where
  [op_defs]: "op_Abs env s =
     rbind (ensureStackHasEnoughFrames 1 s) (\<lambda>_.
     rbind (take_num env s) (\<lambda>(x, s). rbind (if x < 0 then sn_uminus x else Inr x) (\<lambda>r. push_num r s)))"

definition op_Not :: "env \<Rightarrow> interp \<Rightarrow> script_fault + interp" where
  [op_defs]: "op_Not env s =
     rbind (ensureStackHasEnoughFrames 1 s) (\<lambda>_.
     rbind (take_num env s) (\<lambda>(x, s). push_bool (\<not> sn_bool x) s))"

definition op_0NotEqual :: "env \<Rightarrow> interp \<Rightarrow> script_fault + interp" where
  [op_defs]: "op_0NotEqual env s =
     rbind (ensureStackHasEnoughFrames 1 s) (\<lambda>_.
     rbind (take_num env s) (\<lambda>(x, s). push_bool (sn_bool x) s))"

definition op_Add :: "env \<Rightarrow> interp \<Rightarrow> script_fault + interp" where
  [op_defs]: "op_Add env s =
     rbind (ensureStackHasEnoughFrames 2 s) (\<lambda>_.
     rbind (take_num env s) (\<lambda>(x2, s).
     rbind (take_num env s) (\<lambda>(x1, s). rbind (sn_plus x1 x2) (\<lambda>r. push_num r s))))"

definition op_Sub :: "env \<Rightarrow> interp \<Rightarrow> script_fault + interp" where
  [op_defs]: "op_Sub env s =
     rbind (ensureStackHasEnoughFrames 2 s) (\<lambda>_.
     rbind (take_num env s) (\<lambda>(x2, s).
     rbind (take_num env s) (\<lambda>(x1, s). rbind (sn_minus x1 x2) (\<lambda>r. push_num r s))))"

definition op_BoolAnd :: "env \<Rightarrow> interp \<Rightarrow> script_fault + interp" where
  [op_defs]: "op_BoolAnd env s =
     rbind (ensureStackHasEnoughFrames 2 s) (\<lambda>_.
     rbind (take_num env s) (\<lambda>(x2, s).
     rbind (take_num env s) (\<lambda>(x1, s). push_bool (sn_bool x1 \<and> sn_bool x2) s)))"

definition op_BoolOr :: "env \<Rightarrow> interp \<Rightarrow> script_fault + interp" where
  [op_defs]: "op_BoolOr env s =
     rbind (ensureStackHasEnoughFrames 2 s) (\<lambda>_.
     rbind (take_num env s) (\<lambda>(x2, s).
     rbind (take_num env s) (\<lambda>(x1, s). push_bool (sn_bool x1 \<or> sn_bool x2) s)))"

definition op_NumEqual :: "env \<Rightarrow> interp \<Rightarrow> script_fault + interp" where
  [op_defs]: "op_NumEqual env s =
     rbind (ensureStackHasEnoughFrames 2 s) (\<lambda>_.
     rbind (take_num env s) (\<lambda>(x2, s).
     rbind (take_num env s) (\<lambda>(x1, s). push_bool (x1 = x2) s)))"

definition op_NumEqualVerify :: "env \<Rightarrow> interp \<Rightarrow> script_fault + interp" where
  [op_defs]: "op_NumEqualVerify env s = rbind (op_NumEqual env s) (verify_top SE_NUMEQUALVERIFY)"

definition op_NumNotEqual :: "env \<Rightarrow> interp \<Rightarrow> script_fault + interp" where
  [op_defs]: "op_NumNotEqual env s =
     rbind (ensureStackHasEnoughFrames 2 s) (\<lambda>_.
     rbind (take_num env s) (\<lambda>(x2, s).
     rbind (take_num env s) (\<lambda>(x1, s). push_bool (x1 \<noteq> x2) s)))"

definition op_LessThan :: "env \<Rightarrow> interp \<Rightarrow> script_fault + interp" where
  [op_defs]: "op_LessThan env s =
     rbind (ensureStackHasEnoughFrames 2 s) (\<lambda>_.
     rbind (take_num env s) (\<lambda>(x2, s).
     rbind (take_num env s) (\<lambda>(x1, s). push_bool (x1 < x2) s)))"

definition op_GreaterThan :: "env \<Rightarrow> interp \<Rightarrow> script_fault + interp" where
  [op_defs]: "op_GreaterThan env s =
     rbind (ensureStackHasEnoughFrames 2 s) (\<lambda>_.
     rbind (take_num env s) (\<lambda>(x2, s).
     rbind (take_num env s) (\<lambda>(x1, s). push_bool (x1 > x2) s)))"

definition opLessThanOrEqual :: "env \<Rightarrow> interp \<Rightarrow> script_fault + interp" where
  [op_defs]: "opLessThanOrEqual env s =
     rbind (ensureStackHasEnoughFrames 2 s) (\<lambda>_.
     rbind (take_num env s) (\<lambda>(x2, s).
     rbind (take_num env s) (\<lambda>(x1, s). push_bool (x1 \<le> x2) s)))"

definition op_GreaterThanOrEqual :: "env \<Rightarrow> interp \<Rightarrow> script_fault + interp" where
  [op_defs]: "op_GreaterThanOrEqual env s =
     rbind (ensureStackHasEnoughFrames 2 s) (\<lambda>_.
     rbind (take_num env s) (\<lambda>(x2, s).
     rbind (take_num env s) (\<lambda>(x1, s). push_bool (x1 \<ge> x2) s)))"

definition op_Min :: "env \<Rightarrow> interp \<Rightarrow> script_fault + interp" where
  [op_defs]: "op_Min env s =
     rbind (ensureStackHasEnoughFrames 2 s) (\<lambda>_.
     rbind (take_num env s) (\<lambda>(x2, s).
     rbind (take_num env s) (\<lambda>(x1, s). push_num (if x1 < x2 then x1 else x2) s)))"

definition op_Max :: "env \<Rightarrow> interp \<Rightarrow> script_fault + interp" where
  [op_defs]: "op_Max env s =
     rbind (ensureStackHasEnoughFrames 2 s) (\<lambda>_.
     rbind (take_num env s) (\<lambda>(x2, s).
     rbind (take_num env s) (\<lambda>(x1, s). push_num (if x1 > x2 then x1 else x2) s)))"

definition op_Within :: "env \<Rightarrow> interp \<Rightarrow> script_fault + interp" where
  [op_defs]: "op_Within env s =
     rbind (ensureStackHasEnoughFrames 3 s) (\<lambda>_.
     rbind (take_num env s) (\<lambda>(x3, s).
     rbind (take_num env s) (\<lambda>(x2, s).
     rbind (take_num env s) (\<lambda>(x1, s). push_bool (x2 \<le> x1 \<and> x1 < x3) s))))"

section \<open>Digests\<close>

text \<open>
  The output buffers have the digests' output sizes, so the result is the digest of the data.
\<close>

definition op_RIPEMD :: "env \<Rightarrow> interp \<Rightarrow> script_fault + interp" where
  [op_defs]: "op_RIPEMD env s =
     rbind (ensureStackHasEnoughFrames 1 s) (\<lambda>_.
     rbind (take_data s) (\<lambda>(inData, s). push_data (RIPEMD160 (ehash env) inData) s))"

definition op_SHA1 :: "env \<Rightarrow> interp \<Rightarrow> script_fault + interp" where
  [op_defs]: "op_SHA1 env s =
     rbind (ensureStackHasEnoughFrames 1 s) (\<lambda>_.
     rbind (take_data s) (\<lambda>(inData, s). push_data (SHA1 (ehash env) inData) s))"

definition op_SHA256 :: "env \<Rightarrow> interp \<Rightarrow> script_fault + interp" where
  [op_defs]: "op_SHA256 env s =
     rbind (ensureStackHasEnoughFrames 1 s) (\<lambda>_.
     rbind (take_data s) (\<lambda>(inData, s). push_data (SHA256 (ehash env) inData) s))"

definition op_Hash160 :: "env \<Rightarrow> interp \<Rightarrow> script_fault + interp" where
  [op_defs]: "op_Hash160 env s =
     rbind (ensureStackHasEnoughFrames 1 s) (\<lambda>_.
     rbind (take_data s) (\<lambda>(inData, s). push_data (Hash160 (ehash env) inData) s))"

definition op_Hash256 :: "env \<Rightarrow> interp \<Rightarrow> script_fault + interp" where
  [op_defs]: "op_Hash256 env s =
     rbind (ensureStackHasEnoughFrames 1 s) (\<lambda>_.
     rbind (take_data s) (\<lambda>(inData, s). push_data (Hash256 (ehash env) inData) s))"

end
