(* ===== verification/Interpreter.thy ===== *)
theory Interpreter
  imports InterpOps
begin

text \<open>
  \<open>src/script/Interpreter.cpp\<close>: signature operations, the \<open>switch\<close> over the opcodes, and the
  loop of \<open>Interpreter::execute\<close>.

  The loop is a total function: every iteration consumes at least one byte of the script
  (\<open>exec_step_curPos\<close>), so no fuel is needed.
\<close>

section \<open>FindAndDelete\<close>

text \<open>
  The inner loop \<open>while (pc + needle.size() < end && std::equal(...))\<close> and the outer
  \<open>do ... while (haystack.GetOp(pc, opcode))\<close>; the range \<open>[pc2, pc)\<close> is what \<open>pc2\<close> has and \<open>pc\<close>
  has no longer.
\<close>

function skip_needle :: "bytes \<Rightarrow> bytes \<Rightarrow> nat \<Rightarrow> bytes \<times> nat" where
  "skip_needle needle pc found =
     (if needle \<noteq> [] \<and> length needle < length pc \<and> take (length needle) pc = needle
      then skip_needle needle (drop (length needle) pc) (found + 1)
      else (pc, found))"
  by pat_completeness auto
termination
  by (relation "measure (\<lambda>(needle, pc, found). length pc)") (auto intro!: diff_less)

declare skip_needle.simps [simp del]

lemma skip_needle_length: "skip_needle needle pc found = (pc', found') \<Longrightarrow> length pc' \<le> length pc"
proof (induction needle pc found rule: skip_needle.induct)
  case (1 needle pc found)
  then show ?case
    by (subst (asm) (2) skip_needle.simps) (fastforce split: if_splits)
qed

function fad_loop :: "bytes \<Rightarrow> bytes \<Rightarrow> bytes \<Rightarrow> bytes \<Rightarrow> nat \<Rightarrow> bytes \<times> bytes \<times> nat" where
  "fad_loop needle pc pc2 result found =
     (let result' = result @ take (length pc2 - length pc) pc2
      in case skip_needle needle pc found of
           (pc', found') \<Rightarrow>
             (case GetScriptOp pc' of
                (True, opcode, data, pc'') \<Rightarrow> fad_loop needle pc'' pc' result' found'
              | (False, opcode, data, pc'') \<Rightarrow> (result', pc', found')))"
  by pat_completeness auto
termination
  by (relation "measure (\<lambda>(needle, pc, pc2, result, found). length pc)")
    (auto dest!: skip_needle_length [OF sym] GetScriptOp_length [OF sym])

declare fad_loop.simps [simp del]

definition FindAndDelete :: "bytes \<Rightarrow> bytes \<Rightarrow> nat \<times> bytes" where
  "FindAndDelete haystack needle =
     (if needle = [] then (0, haystack)
      else case fad_loop needle haystack haystack [] 0 of
             (result, pc2, found) \<Rightarrow>
               if found > 0 then (found, result @ pc2) else (found, haystack))"

section \<open>Signature operations\<close>

definition op_CodeSeparator :: "env \<Rightarrow> interp \<Rightarrow> script_fault + interp" where
  [op_defs]: "op_CodeSeparator env s =
     (if esigversion env = BASE \<and> isSet (eflags env) CONST_SCRIPTCODE
      then throw SE_OP_CODESEPARATOR
      else Inr (s\<lparr>sepPos := curPos s\<rparr>))"

text \<open>
  Dropping a signature from the script code; in a \<open>BASE\<close> script a signature that was found is an
  error under \<open>CONST_SCRIPTCODE\<close>.
\<close>

definition drop_signature :: "env \<Rightarrow> bytes \<Rightarrow> bytes \<Rightarrow> script_fault + bytes" where
  "drop_signature env sig scriptCode =
     (if esigversion env = BASE then
        (case FindAndDelete scriptCode (script_push_data [] sig) of
           (found, scriptCode') \<Rightarrow>
             if found > 0 \<and> isSet (eflags env) CONST_SCRIPTCODE
             then throw SE_SIG_FINDANDDELETE else Inr scriptCode')
      else Inr scriptCode)"

definition op_CheckSig :: "env \<Rightarrow> interp \<Rightarrow> script_fault + interp" where
  [op_defs]: "op_CheckSig env s =
     rbind (ensureStackHasEnoughFrames 2 s) (\<lambda>_.
     rbind (take_data s) (\<lambda>(pubKey, s).
     rbind (take_data s) (\<lambda>(sig, s).
     rbind (drop_signature env sig (sepPos s)) (\<lambda>scriptCode.
     rbind (CheckSignatureEncoding (Data sig) (eflags env)) (\<lambda>_.
     rbind (CheckPubKeyEncoding pubKey (eflags env) (esigversion env)) (\<lambda>_.
     rbind (CheckSig (echecker env) sig pubKey scriptCode (esigversion env)) (\<lambda>isValid.
     if \<not> isValid \<and> isSet (eflags env) NULLFAIL \<and> sig \<noteq> [] then throw SE_SIG_NULLFAIL
     else push_bool isValid s)))))))"

definition op_CheckSigVerify :: "env \<Rightarrow> interp \<Rightarrow> script_fault + interp" where
  [op_defs]: "op_CheckSigVerify env s = rbind (op_CheckSig env s) (verify_top SE_CHECKSIGVERIFY)"

text \<open>\<open>for (i = 0; i < count; i++) v.emplace_back(_stack.take().asData())\<close>\<close>

fun take_many :: "nat \<Rightarrow> interp \<Rightarrow> script_fault + bytes list \<times> interp" where
  "take_many 0 s = Inr ([], s)"
| "take_many (Suc n) s =
     rbind (take_data s) (\<lambda>(d, s). rbind (take_many n s) (\<lambda>(ds, s). Inr (d # ds, s)))"

fun drop_signatures :: "env \<Rightarrow> bytes list \<Rightarrow> bytes \<Rightarrow> script_fault + bytes" where
  "drop_signatures env [] scriptCode = Inr scriptCode"
| "drop_signatures env (sig # sigs) scriptCode =
     rbind (drop_signature env sig scriptCode) (drop_signatures env sigs)"

text \<open>
  The matching loop of \<open>op_CheckMultiSig\<close>. The signatures from \<open>sigIndex\<close> on are \<open>sigs\<close>, so
  \<open>sigsCount\<close> is their number; likewise for the keys. Indexing past the last key is undefined.
\<close>

fun multisig_loop :: "env \<Rightarrow> bytes \<Rightarrow> bytes list \<Rightarrow> bytes list \<Rightarrow> script_fault + bool" where
  "multisig_loop env scriptCode [] keys = Inr True"
| "multisig_loop env scriptCode (sig # sigs) [] = Inl Undefined"
| "multisig_loop env scriptCode (sig # sigs) (pubKey # keys) =
     rbind (CheckSignatureEncoding (Data sig) (eflags env)) (\<lambda>_.
     rbind (CheckPubKeyEncoding pubKey (eflags env) (esigversion env)) (\<lambda>_.
     rbind (CheckSig (echecker env) sig pubKey scriptCode (esigversion env)) (\<lambda>fOk.
     let sigs' = (if fOk then sigs else sig # sigs)
     in if length sigs' > length keys then Inr False
        else multisig_loop env scriptCode sigs' keys)))"

definition add_ops :: "nat \<Rightarrow> interp \<Rightarrow> script_fault + interp" where
  "add_ops n s =
     (let s' = s\<lparr>opCount := opCount s + n\<rparr>
      in if opCount s' > MAX_OPS_PER_SCRIPT then throw SE_OP_COUNT else Inr s')"

definition op_CheckMultiSig :: "env \<Rightarrow> interp \<Rightarrow> script_fault + interp" where
  [op_defs]: "op_CheckMultiSig env s =
     rbind (ensureStackHasEnoughFrames 1 s) (\<lambda>_.
     rbind (take_num env s) (\<lambda>(k, s). let keysCount = getint k in
     if keysCount < 0 \<or> keysCount > int MAX_PUBKEYS_PER_MULTISIG then throw SE_PUBKEY_COUNT
     else rbind (add_ops (nat keysCount) s) (\<lambda>s.
     rbind (ensureStackHasEnoughFrames (nat keysCount) s) (\<lambda>_.
     rbind (take_many (nat keysCount) s) (\<lambda>(keys, s).
     rbind (take_num env s) (\<lambda>(m, s). let sigsCount = getint m in
     if sigsCount < 0 \<or> sigsCount > keysCount then throw SE_SIG_COUNT
     else rbind (add_ops (nat sigsCount) s) (\<lambda>s.
     rbind (ensureStackHasEnoughFrames (nat sigsCount) s) (\<lambda>_.
     rbind (take_many (nat sigsCount) s) (\<lambda>(sigs, s).
     rbind (drop_signatures env sigs (sepPos s)) (\<lambda>scriptCode.
     rbind (multisig_loop env scriptCode sigs keys) (\<lambda>fSuccess.
     rbind (ensureStackHasEnoughFrames 1 s) (\<lambda>_.
     rbind (if isSet (eflags env) NULLDUMMY
            then rbind (top_data s) (\<lambda>(d, s). if d \<noteq> [] then throw SE_SIG_NULLDUMMY else Inr s)
            else Inr s) (\<lambda>s.
     rbind (pop_frame s) (\<lambda>s. push_bool fSuccess s))))))))))))))"

definition op_CheckMultiSigVerify :: "env \<Rightarrow> interp \<Rightarrow> script_fault + interp" where
  [op_defs]: "op_CheckMultiSigVerify env s =
     rbind (op_CheckMultiSig env s) (verify_top SE_CHECKMULTISIGVERIFY)"

section \<open>Conditionals\<close>

definition exec_if :: "env \<Rightarrow> opcode \<Rightarrow> bool \<Rightarrow> interp \<Rightarrow> script_fault + interp" where
  "exec_if env opCode mustExecuted s =
     (if \<not> mustExecuted then Inr (s\<lparr>condFlags := False # condFlags s\<rparr>)
      else if stk s = [] then throw SE_UNBALANCED_CONDITIONAL
      else rbind (take_frame s) (\<lambda>(x, s).
        if esigversion env = WITNESS_V0 \<and> isSet (eflags env) MINIMALIF \<and>
           (case x of
              Data d \<Rightarrow> length d > 1 \<or> (length d = 1 \<and> d ! 0 \<noteq> 1)
            | Number n \<Rightarrow> getint n > 0xff)
        then throw SE_MINIMALIF
        else
          let executionFlag = CastToBool x;
              executionFlag = (if opCode = OP_NOTIF then \<not> executionFlag else executionFlag)
          in Inr (s\<lparr>condFlags := executionFlag # condFlags s\<rparr>)))"

definition exec_else :: "interp \<Rightarrow> script_fault + interp" where
  "exec_else s =
     (case condFlags s of
        [] \<Rightarrow> throw SE_UNBALANCED_CONDITIONAL
      | f # fs \<Rightarrow> Inr (s\<lparr>condFlags := (\<not> f) # fs\<rparr>))"

definition exec_endif :: "interp \<Rightarrow> script_fault + interp" where
  "exec_endif s =
     (case condFlags s of
        [] \<Rightarrow> throw SE_UNBALANCED_CONDITIONAL
      | f # fs \<Rightarrow> Inr (s\<lparr>condFlags := fs\<rparr>))"

text \<open>
  The \<open>default\<close> branch of the inner \<open>switch\<close> holds an \<open>assert\<close> that is always true in this range:
  \<open>OP_VERIF\<close> and \<open>OP_VERNOTIF\<close> do nothing.
\<close>

definition exec_conditional :: "env \<Rightarrow> opcode \<Rightarrow> bool \<Rightarrow> interp \<Rightarrow> script_fault + interp" where
  "exec_conditional env opCode mustExecuted s =
     (if opCode = OP_IF \<or> opCode = OP_NOTIF then exec_if env opCode mustExecuted s
      else if opCode = OP_ELSE then exec_else s
      else if opCode = OP_ENDIF then exec_endif s
      else Inr s)"

end
