(* ===== verification/Execute.thy ===== *)
theory Execute
  imports Interpreter
begin

text \<open>
  \<open>src/script/Interpreter.cpp\<close>: the dispatch over the opcodes and \<open>Interpreter::execute\<close>,
  \<open>reset\<close>, \<open>resetAndExecute\<close> and \<open>EvalScript\<close>.
\<close>

section \<open>Dispatch\<close>

text \<open>
  The \<open>switch (opCode)\<close> of an executed operation that is not a direct push. The sixteen cases
  \<open>OP_1\<close> to \<open>OP_16\<close> are consecutive and written as a range.
\<close>

definition exec_op :: "env \<Rightarrow> opcode \<Rightarrow> bytes \<Rightarrow> interp \<Rightarrow> script_fault + interp" where
  "exec_op env opCode data s =
     (if opCode = OP_PUSHDATA1 then op_PushData1 env data s
      else if opCode = OP_PUSHDATA2 then op_PushData2 env data s
      else if opCode = OP_PUSHDATA4 then op_PushData4 env data s
      else if opCode = OP_1NEGATE \<or> (OP_1 \<le> opCode \<and> opCode \<le> OP_16) then op_N opCode s
      else if opCode = OP_NOP then op_Nop s
      else if opCode = OP_CHECKLOCKTIMEVERIFY then op_CheckLockTimeVerify env s
      else if opCode = OP_CHECKSEQUENCEVERIFY then op_CheckSequenceVerify env s
      else if opCode = OP_NOP1 \<or> opCode = OP_NOP4 \<or> opCode = OP_NOP5 \<or> opCode = OP_NOP6 \<or>
         opCode = OP_NOP7 \<or> opCode = OP_NOP8 \<or> opCode = OP_NOP9 \<or> opCode = OP_NOP10 then op_Noop env s
      else if opCode = OP_VERIFY then op_Verify s
      else if opCode = OP_RETURN then op_Return s
      else if opCode = OP_TOALTSTACK then op_ToAltStack s
      else if opCode = OP_FROMALTSTACK then op_FromAltStack s
      else if opCode = OP_2DROP then op_2Drop s
      else if opCode = OP_2DUP then op_2Dup s
      else if opCode = OP_3DUP then op_3Dup s
      else if opCode = OP_2OVER then op_2Over s
      else if opCode = OP_2ROT then op_2Rot s
      else if opCode = OP_2SWAP then op_2Swap s
      else if opCode = OP_IFDUP then op_IfDup s
      else if opCode = OP_DEPTH then op_Depth s
      else if opCode = OP_DROP then op_Drop s
      else if opCode = OP_DUP then op_Dup s
      else if opCode = OP_NIP then op_Nip s
      else if opCode = OP_OVER then op_Over s
      else if opCode = OP_PICK then op_Pick env s
      else if opCode = OP_ROLL then op_Roll env s
      else if opCode = OP_ROT then op_Rot s
      else if opCode = OP_SWAP then op_Swap s
      else if opCode = OP_TUCK then op_Tuck s
      else if opCode = OP_SIZE then op_Size s
      else if opCode = OP_EQUAL then op_Equal s
      else if opCode = OP_EQUALVERIFY then op_EqualVerify s
      else if opCode = OP_1ADD then op_1Add env s
      else if opCode = OP_1SUB then op_1Sub env s
      else if opCode = OP_NEGATE then op_Negate env s
      else if opCode = OP_ABS then op_Abs env s
      else if opCode = OP_NOT then op_Not env s
      else if opCode = OP_0NOTEQUAL then op_0NotEqual env s
      else if opCode = OP_ADD then op_Add env s
      else if opCode = OP_SUB then op_Sub env s
      else if opCode = OP_BOOLAND then op_BoolAnd env s
      else if opCode = OP_BOOLOR then op_BoolOr env s
      else if opCode = OP_NUMEQUAL then op_NumEqual env s
      else if opCode = OP_NUMEQUALVERIFY then op_NumEqualVerify env s
      else if opCode = OP_NUMNOTEQUAL then op_NumNotEqual env s
      else if opCode = OP_LESSTHAN then op_LessThan env s
      else if opCode = OP_GREATERTHAN then op_GreaterThan env s
      else if opCode = OP_LESSTHANOREQUAL then opLessThanOrEqual env s
      else if opCode = OP_GREATERTHANOREQUAL then op_GreaterThanOrEqual env s
      else if opCode = OP_MIN then op_Min env s
      else if opCode = OP_MAX then op_Max env s
      else if opCode = OP_WITHIN then op_Within env s
      else if opCode = OP_RIPEMD160 then op_RIPEMD env s
      else if opCode = OP_SHA1 then op_SHA1 env s
      else if opCode = OP_SHA256 then op_SHA256 env s
      else if opCode = OP_HASH160 then op_Hash160 env s
      else if opCode = OP_HASH256 then op_Hash256 env s
      else if opCode = OP_CODESEPARATOR then op_CodeSeparator env s
      else if opCode = OP_CHECKSIG then op_CheckSig env s
      else if opCode = OP_CHECKSIGVERIFY then op_CheckSigVerify env s
      else if opCode = OP_CHECKMULTISIG then op_CheckMultiSig env s
      else if opCode = OP_CHECKMULTISIGVERIFY then op_CheckMultiSigVerify env s
      else throw SE_BAD_OPCODE)"

text \<open>A property of every case of the \<open>switch\<close> is a property of the \<open>switch\<close>.\<close>

lemma if_rule: "(b \<Longrightarrow> P x) \<Longrightarrow> P y \<Longrightarrow> P (if b then x else y)"
  by simp

lemma exec_op_rule:
  assumes
    "opCode = OP_PUSHDATA1 \<Longrightarrow> P (op_PushData1 env data s)" and
    "opCode = OP_PUSHDATA2 \<Longrightarrow> P (op_PushData2 env data s)" and
    "opCode = OP_PUSHDATA4 \<Longrightarrow> P (op_PushData4 env data s)" and
    "opCode = OP_1NEGATE \<or> (OP_1 \<le> opCode \<and> opCode \<le> OP_16) \<Longrightarrow> P (op_N opCode s)" and
    "opCode = OP_NOP \<Longrightarrow> P (op_Nop s)" and
    "opCode = OP_CHECKLOCKTIMEVERIFY \<Longrightarrow> P (op_CheckLockTimeVerify env s)" and
    "opCode = OP_CHECKSEQUENCEVERIFY \<Longrightarrow> P (op_CheckSequenceVerify env s)" and
    "opCode = OP_NOP1 \<or> opCode = OP_NOP4 \<or> opCode = OP_NOP5 \<or> opCode = OP_NOP6 \<or> opCode = OP_NOP7 \<or> opCode = OP_NOP8 \<or> opCode = OP_NOP9 \<or> opCode = OP_NOP10 \<Longrightarrow> P (op_Noop env s)" and
    "opCode = OP_VERIFY \<Longrightarrow> P (op_Verify s)" and
    "opCode = OP_RETURN \<Longrightarrow> P (op_Return s)" and
    "opCode = OP_TOALTSTACK \<Longrightarrow> P (op_ToAltStack s)" and
    "opCode = OP_FROMALTSTACK \<Longrightarrow> P (op_FromAltStack s)" and
    "opCode = OP_2DROP \<Longrightarrow> P (op_2Drop s)" and
    "opCode = OP_2DUP \<Longrightarrow> P (op_2Dup s)" and
    "opCode = OP_3DUP \<Longrightarrow> P (op_3Dup s)" and
    "opCode = OP_2OVER \<Longrightarrow> P (op_2Over s)" and
    "opCode = OP_2ROT \<Longrightarrow> P (op_2Rot s)" and
    "opCode = OP_2SWAP \<Longrightarrow> P (op_2Swap s)" and
    "opCode = OP_IFDUP \<Longrightarrow> P (op_IfDup s)" and
    "opCode = OP_DEPTH \<Longrightarrow> P (op_Depth s)" and
    "opCode = OP_DROP \<Longrightarrow> P (op_Drop s)" and
    "opCode = OP_DUP \<Longrightarrow> P (op_Dup s)" and
    "opCode = OP_NIP \<Longrightarrow> P (op_Nip s)" and
    "opCode = OP_OVER \<Longrightarrow> P (op_Over s)" and
    "opCode = OP_PICK \<Longrightarrow> P (op_Pick env s)" and
    "opCode = OP_ROLL \<Longrightarrow> P (op_Roll env s)" and
    "opCode = OP_ROT \<Longrightarrow> P (op_Rot s)" and
    "opCode = OP_SWAP \<Longrightarrow> P (op_Swap s)" and
    "opCode = OP_TUCK \<Longrightarrow> P (op_Tuck s)" and
    "opCode = OP_SIZE \<Longrightarrow> P (op_Size s)" and
    "opCode = OP_EQUAL \<Longrightarrow> P (op_Equal s)" and
    "opCode = OP_EQUALVERIFY \<Longrightarrow> P (op_EqualVerify s)" and
    "opCode = OP_1ADD \<Longrightarrow> P (op_1Add env s)" and
    "opCode = OP_1SUB \<Longrightarrow> P (op_1Sub env s)" and
    "opCode = OP_NEGATE \<Longrightarrow> P (op_Negate env s)" and
    "opCode = OP_ABS \<Longrightarrow> P (op_Abs env s)" and
    "opCode = OP_NOT \<Longrightarrow> P (op_Not env s)" and
    "opCode = OP_0NOTEQUAL \<Longrightarrow> P (op_0NotEqual env s)" and
    "opCode = OP_ADD \<Longrightarrow> P (op_Add env s)" and
    "opCode = OP_SUB \<Longrightarrow> P (op_Sub env s)" and
    "opCode = OP_BOOLAND \<Longrightarrow> P (op_BoolAnd env s)" and
    "opCode = OP_BOOLOR \<Longrightarrow> P (op_BoolOr env s)" and
    "opCode = OP_NUMEQUAL \<Longrightarrow> P (op_NumEqual env s)" and
    "opCode = OP_NUMEQUALVERIFY \<Longrightarrow> P (op_NumEqualVerify env s)" and
    "opCode = OP_NUMNOTEQUAL \<Longrightarrow> P (op_NumNotEqual env s)" and
    "opCode = OP_LESSTHAN \<Longrightarrow> P (op_LessThan env s)" and
    "opCode = OP_GREATERTHAN \<Longrightarrow> P (op_GreaterThan env s)" and
    "opCode = OP_LESSTHANOREQUAL \<Longrightarrow> P (opLessThanOrEqual env s)" and
    "opCode = OP_GREATERTHANOREQUAL \<Longrightarrow> P (op_GreaterThanOrEqual env s)" and
    "opCode = OP_MIN \<Longrightarrow> P (op_Min env s)" and
    "opCode = OP_MAX \<Longrightarrow> P (op_Max env s)" and
    "opCode = OP_WITHIN \<Longrightarrow> P (op_Within env s)" and
    "opCode = OP_RIPEMD160 \<Longrightarrow> P (op_RIPEMD env s)" and
    "opCode = OP_SHA1 \<Longrightarrow> P (op_SHA1 env s)" and
    "opCode = OP_SHA256 \<Longrightarrow> P (op_SHA256 env s)" and
    "opCode = OP_HASH160 \<Longrightarrow> P (op_Hash160 env s)" and
    "opCode = OP_HASH256 \<Longrightarrow> P (op_Hash256 env s)" and
    "opCode = OP_CODESEPARATOR \<Longrightarrow> P (op_CodeSeparator env s)" and
    "opCode = OP_CHECKSIG \<Longrightarrow> P (op_CheckSig env s)" and
    "opCode = OP_CHECKSIGVERIFY \<Longrightarrow> P (op_CheckSigVerify env s)" and
    "opCode = OP_CHECKMULTISIG \<Longrightarrow> P (op_CheckMultiSig env s)" and
    "opCode = OP_CHECKMULTISIGVERIFY \<Longrightarrow> P (op_CheckMultiSigVerify env s)" and
    "P (throw SE_BAD_OPCODE)"
  shows "P (exec_op env opCode data s)"
  unfolding exec_op_def by (rule if_rule [where P = P], erule assms)+ (rule assms)

section \<open>One iteration of the loop\<close>

definition size_check :: "interp \<Rightarrow> script_fault + interp" where
  "size_check s =
     (if length (stk s) + length (altStk s) > MAX_STACK_SIZE then throw SE_STACK_SIZE else Inr s)"

definition mustExecuted :: "interp \<Rightarrow> bool" where
  "mustExecuted s \<longleftrightarrow> count_list (condFlags s) False = 0"

text \<open>
  The body of \<open>while (_curScriptPosition < _endScriptPosition)\<close>. A direct push ends with
  \<open>continue\<close> and so leaves out the check of the stack sizes. \<open>exec_branch\<close> is the part of the body
  after the operation was read and counted.
\<close>

definition exec_branch :: "env \<Rightarrow> opcode \<Rightarrow> bytes \<Rightarrow> bool \<Rightarrow> interp \<Rightarrow> script_fault + interp" where
  "exec_branch env opCode data must s =
     (if OP_IF \<le> opCode \<and> opCode \<le> OP_ENDIF
      then rbind (exec_conditional env opCode must s) size_check
      else if must then
        (if opCode < OP_PUSHDATA1 then op_PushData env opCode data s
         else rbind (exec_op env opCode data s) size_check)
      else size_check s)"

definition count_op :: "opcode \<Rightarrow> interp \<Rightarrow> script_fault + interp" where
  "count_op opCode s = (if opCode > OP_16 then add_ops 1 s else Inr s)"

definition exec_step :: "env \<Rightarrow> interp \<Rightarrow> script_fault + interp" where
  "exec_step env s0 =
     (let s1 = s0\<lparr>stepNo := stepNo s0 + 1\<rparr>;
          must = mustExecuted s1
      in case GetScriptOp (curPos s1) of
           (False, opCode, data, pc) \<Rightarrow> throw SE_BAD_OPCODE
         | (True, opCode, data, pc) \<Rightarrow>
             if length data > MAX_SCRIPT_ELEMENT_SIZE then throw SE_PUSH_SIZE
             else rbind (count_op opCode (s1\<lparr>curPos := pc\<rparr>)) (exec_branch env opCode data must))"

section \<open>What the operations leave alone\<close>

text \<open>Successful accesses to the stack, as equivalences.\<close>

lemma stack_take_Inr [fault_simps]: "stack_take st = Inr r \<longleftrightarrow> st = fst r # snd r"
  by (cases st) auto

lemma stack_top_Inr [fault_simps]: "stack_top st = Inr x \<longleftrightarrow> (\<exists>st'. st = x # st')"
  by (cases st) auto

lemma take_frame_Inr [fault_simps]:
  "take_frame s = Inr r \<longleftrightarrow> (\<exists>st. stk s = fst r # st \<and> snd r = s\<lparr>stk := st\<rparr>)"
  by (cases "stk s"; cases r) (auto simp: take_frame_def)

lemma top_frame_Inr [fault_simps]: "top_frame s = Inr x \<longleftrightarrow> (\<exists>st. stk s = x # st)"
  by (cases "stk s") (auto simp: top_frame_def)

lemma pop_frame_Inr [fault_simps]:
  "pop_frame s = Inr s' \<longleftrightarrow> (\<exists>x st. stk s = x # st \<and> s' = s\<lparr>stk := st\<rparr>)"
  by (cases "stk s") (auto simp: pop_frame_def)

lemma ensure_Inr [fault_simps]:
  "ensureStackHasEnoughFrames n s = Inr u \<longleftrightarrow> n \<le> length (stk s)"
  by (auto simp: ensureStackHasEnoughFrames_def)

lemma take_num_Inr [fault_simps]:
  "take_num env s = Inr r \<longleftrightarrow>
     (\<exists>x st. stk s = x # st \<and> asNumber (isSet (eflags env) MINIMALDATA) x = Inr (fst r) \<and>
             snd r = s\<lparr>stk := st\<rparr>)"
  by (cases "stk s"; cases r) (auto simp: take_num_def rbind_eq_Inr take_frame_def)

lemma take_data_Inr [fault_simps]:
  "take_data s = Inr r \<longleftrightarrow>
     (\<exists>x st. stk s = x # st \<and> asData x = Inr (fst r) \<and> snd r = s\<lparr>stk := st\<rparr>)"
  by (cases "stk s"; cases r) (auto simp: take_data_def rbind_eq_Inr take_frame_def)

lemma top_data_Inr [fault_simps]:
  "top_data s = Inr r \<longleftrightarrow>
     (\<exists>x st. stk s = x # st \<and> asData x = Inr (fst r) \<and> snd r = s\<lparr>stk := Data (fst r) # st\<rparr>)"
  by (cases "stk s"; cases r) (auto simp: top_data_def rbind_eq_Inr take_frame_def push_frame_def)

lemma add_ops_Inr [fault_simps]:
  "add_ops n s = Inr s' \<longleftrightarrow> opCount s + n \<le> MAX_OPS_PER_SCRIPT \<and> s' = s\<lparr>opCount := opCount s + n\<rparr>"
  by (auto simp: add_ops_def Let_def)

lemma size_check_Inr [fault_simps]:
  "size_check s = Inr s' \<longleftrightarrow> s' = s \<and> length (stk s) + length (altStk s) \<le> MAX_STACK_SIZE"
  by (auto simp: size_check_def)

lemmas push_simps = push_num_def push_bool_def push_data_def push_frame_def push_short_def

lemma take_many_Inr:
  "take_many n s = Inr (ds, s') \<Longrightarrow>
     length ds = n \<and> (\<exists>fs st. stk s = fs @ st \<and> length fs = n \<and> s' = s\<lparr>stk := st\<rparr> \<and>
       list_all2 (\<lambda>f d. asData f = Inr d) fs ds)"
proof (induction n arbitrary: s ds)
  case 0
  then show ?case by (auto intro!: exI [of _ "[]"])
next
  case (Suc n)
  then obtain x st d ds' where t: "stk s = x # st" "asData x = Inr d"
    "take_many n (s\<lparr>stk := st\<rparr>) = Inr (ds', s')" "ds = d # ds'"
    by (auto simp: rbind_eq_Inr fault_simps)
  from Suc.IH [OF t(3)] obtain fs st' where "length ds' = n" "st = fs @ st'" "length fs = n"
    "s' = s\<lparr>stk := st'\<rparr>" "list_all2 (\<lambda>f d. asData f = Inr d) fs ds'"
    by auto
  with t show ?case by (intro conjI exI [of _ "x # fs"] exI [of _ st']) auto
qed

text \<open>
  The operations of the \<open>switch\<close> change neither the position in the script nor the conditional
  flags nor the step number; they never lower the operation count, and leave it within its limit.
\<close>

definition keeps :: "interp \<Rightarrow> script_fault + interp \<Rightarrow> bool" where
  "keeps s r \<longleftrightarrow>
     (\<forall>s'. r = Inr s' \<longrightarrow> curPos s' = curPos s \<and> condFlags s' = condFlags s \<and>
        stepNo s' = stepNo s \<and> opCount s \<le> opCount s' \<and>
        (opCount s \<le> MAX_OPS_PER_SCRIPT \<longrightarrow> opCount s' \<le> MAX_OPS_PER_SCRIPT))"

lemma keeps_verify_top: "keeps s r \<Longrightarrow> keeps s (rbind r (verify_top e))"
  by (auto simp: keeps_def verify_top_def rbind_eq_Inr fault_simps)

lemma keeps_CheckSig: "keeps s (op_CheckSig env s)"
  by (auto simp: keeps_def op_CheckSig_def rbind_eq_Inr fault_simps push_simps split: if_splits)

text \<open>A successful \<open>op_CheckMultiSig\<close>, step by step.\<close>

definition check_dummy :: "env \<Rightarrow> interp \<Rightarrow> script_fault + interp" where
  "check_dummy env s =
     (if isSet (eflags env) NULLDUMMY
      then rbind (top_data s) (\<lambda>(d, s). if d \<noteq> [] then throw SE_SIG_NULLDUMMY else Inr s)
      else Inr s)"

lemma op_CheckMultiSig_run:
  assumes "op_CheckMultiSig env s = Inr s'"
  obtains k s1 s2 keys s3 m s4 s5 sigs s6 code ok s7 s8 where
    "take_num env s = Inr (k, s1)" "0 \<le> getint k" "getint k \<le> int MAX_PUBKEYS_PER_MULTISIG"
    "add_ops (nat (getint k)) s1 = Inr s2" "nat (getint k) \<le> length (stk s2)"
    "take_many (nat (getint k)) s2 = Inr (keys, s3)" "take_num env s3 = Inr (m, s4)"
    "0 \<le> getint m" "getint m \<le> getint k" "add_ops (nat (getint m)) s4 = Inr s5"
    "nat (getint m) \<le> length (stk s5)" "take_many (nat (getint m)) s5 = Inr (sigs, s6)"
    "drop_signatures env sigs (sepPos s6) = Inr code" "multisig_loop env code sigs keys = Inr ok"
    "1 \<le> length (stk s6)" "check_dummy env s6 = Inr s7" "pop_frame s7 = Inr s8"
    "push_bool ok s8 = Inr s'"
  using assms
  by (auto simp: op_CheckMultiSig_def rbind_eq_Inr Let_def ensure_Inr not_less
      simp flip: check_dummy_def split: if_split_asm)

definition kept :: "interp \<Rightarrow> interp \<Rightarrow> bool" where
  "kept s s' \<longleftrightarrow> curPos s' = curPos s \<and> condFlags s' = condFlags s \<and> stepNo s' = stepNo s \<and>
     opCount s \<le> opCount s' \<and>
     (opCount s \<le> MAX_OPS_PER_SCRIPT \<longrightarrow> opCount s' \<le> MAX_OPS_PER_SCRIPT)"

lemma kept_trans: "kept s t \<Longrightarrow> kept t u \<Longrightarrow> kept s u"
  by (auto simp: kept_def)

lemma kept_primitives:
  "take_num env s = Inr (n, s') \<Longrightarrow> kept s s'" "take_data s = Inr (d, s') \<Longrightarrow> kept s s'"
  "take_many i s = Inr (ds, s') \<Longrightarrow> kept s s'" "add_ops i s = Inr s' \<Longrightarrow> kept s s'"
  "pop_frame s = Inr s' \<Longrightarrow> kept s s'" "push_bool b s = Inr s' \<Longrightarrow> kept s s'"
  "check_dummy env s = Inr s' \<Longrightarrow> kept s s'"
  by (auto simp: kept_def fault_simps push_simps check_dummy_def rbind_eq_Inr
      dest!: take_many_Inr split: if_splits)

lemma keeps_CheckMultiSig: "keeps s (op_CheckMultiSig env s)"
  unfolding keeps_def kept_def [symmetric]
proof (intro allI impI)
  fix s'
  assume "op_CheckMultiSig env s = Inr s'"
  then show "kept s s'"
  proof (rule op_CheckMultiSig_run)
    fix k s1 s2 keys s3 m s4 s5 sigs s6 ok s7 s8
    assume "take_num env s = Inr (k, s1)" "add_ops (nat (getint k)) s1 = Inr s2"
      "take_many (nat (getint k)) s2 = Inr (keys, s3)" "take_num env s3 = Inr (m, s4)"
      "add_ops (nat (getint m)) s4 = Inr s5" "take_many (nat (getint m)) s5 = Inr (sigs, s6)"
      "check_dummy env s6 = Inr s7" "pop_frame s7 = Inr s8" "push_bool ok s8 = Inr s'"
    then have "kept s s1" "kept s1 s2" "kept s2 s3" "kept s3 s4" "kept s4 s5" "kept s5 s6"
      "kept s6 s7" "kept s7 s8" "kept s8 s'"
      by (blast intro: kept_primitives)+
    then show "kept s s'" unfolding kept_def by auto
  qed
qed

lemma keeps_exec_op: "keeps s (exec_op env opCode data s)"
proof (rule exec_op_rule [where P = "keeps s"])
  show "keeps s (op_CheckSig env s)" "keeps s (op_CheckMultiSig env s)"
    "keeps s (op_CheckSigVerify env s)" "keeps s (op_CheckMultiSigVerify env s)"
    by (auto simp: op_CheckSigVerify_def op_CheckMultiSigVerify_def
        intro!: keeps_verify_top keeps_CheckSig keeps_CheckMultiSig)
qed (auto simp: keeps_def op_defs verify_top_def rbind_eq_Inr fault_simps push_simps split: if_splits)

lemma keeps_size_check: "keeps s r \<Longrightarrow> keeps s (rbind r size_check)"
  by (cases r) (simp_all add: keeps_def size_check_def)

lemma push_short_run: "push_short env data s = Inr s' \<Longrightarrow> \<exists>x. s' = push_frame x s"
  by (auto simp: push_short_def push_num_def push_data_def rbind_eq_Inr split: if_split_asm)

lemma op_PushData_run: "op_PushData env opCode data s = Inr s' \<Longrightarrow> push_short env data s = Inr s'"
  unfolding op_PushData_def by (simp split: if_split_asm)

lemma keeps_PushData: "keeps s (op_PushData env opCode data s)"
  by (auto simp: keeps_def push_frame_def dest!: op_PushData_run push_short_run)

text \<open>The conditionals change the conditional flags and the stack only.\<close>

definition same_rest :: "interp \<Rightarrow> interp \<Rightarrow> bool" where
  "same_rest s s' \<longleftrightarrow> curPos s' = curPos s \<and> sepPos s' = sepPos s \<and> altStk s' = altStk s \<and>
     opCount s' = opCount s \<and> stepNo s' = stepNo s"

lemma exec_if_rest: "exec_if env opCode must s = Inr s' \<Longrightarrow> same_rest s s'"
  unfolding exec_if_def same_rest_def
  by (auto simp: rbind_eq_Inr fault_simps Let_def split: if_split_asm)

lemma exec_else_rest: "exec_else s = Inr s' \<Longrightarrow> same_rest s s'"
  by (auto simp: exec_else_def same_rest_def split: list.splits)

lemma exec_endif_rest: "exec_endif s = Inr s' \<Longrightarrow> same_rest s s'"
  by (auto simp: exec_endif_def same_rest_def split: list.splits)

lemma exec_conditional_rest: "exec_conditional env opCode must s = Inr s' \<Longrightarrow> same_rest s s'"
  unfolding exec_conditional_def
  by (auto dest: exec_if_rest exec_else_rest exec_endif_rest simp: same_rest_def [of s' s']
      split: if_split_asm)

lemma exec_branch_progress:
  assumes "exec_branch env opCode data must s = Inr s'"
  shows "curPos s' = curPos s" "stepNo s' = stepNo s" "opCount s \<le> opCount s'"
    "opCount s \<le> MAX_OPS_PER_SCRIPT \<Longrightarrow> opCount s' \<le> MAX_OPS_PER_SCRIPT"
proof -
  have "curPos s' = curPos s \<and> stepNo s' = stepNo s \<and> opCount s \<le> opCount s' \<and>
    (opCount s \<le> MAX_OPS_PER_SCRIPT \<longrightarrow> opCount s' \<le> MAX_OPS_PER_SCRIPT)"
  proof (cases "OP_IF \<le> opCode \<and> opCode \<le> OP_ENDIF")
    case True
    then show ?thesis
      using assms
      by (auto simp: exec_branch_def rbind_eq_Inr fault_simps same_rest_def
          dest!: exec_conditional_rest)
  next
    case False
    then have "keeps s (exec_branch env opCode data must s)"
      using keeps_PushData keeps_size_check [OF keeps_exec_op]
      by (simp only: exec_branch_def if_False) (simp add: keeps_def size_check_def)
    then show ?thesis
      using assms by (simp add: keeps_def)
  qed
  then show "curPos s' = curPos s" "stepNo s' = stepNo s" "opCount s \<le> opCount s'"
    "opCount s \<le> MAX_OPS_PER_SCRIPT \<Longrightarrow> opCount s' \<le> MAX_OPS_PER_SCRIPT"
    by auto
qed

text \<open>
  A step that succeeds read one operation: where the position, the step number and the operation
  count are afterwards.
\<close>

lemma exec_step_run:
  assumes "exec_step env s = Inr s'"
  obtains opCode data pc s1 where "GetScriptOp (curPos s) = (True, opCode, data, pc)"
    and "length data \<le> MAX_SCRIPT_ELEMENT_SIZE"
    and "count_op opCode (s\<lparr>stepNo := stepNo s + 1, curPos := pc\<rparr>) = Inr s1"
    and "exec_branch env opCode data (mustExecuted s) s1 = Inr s'"
  using assms
  by (auto simp: exec_step_def Let_def rbind_eq_Inr mustExecuted_def split: prod.splits bool.splits
      if_split_asm)

lemma exec_step_progress:
  assumes "exec_step env s = Inr s'"
  obtains opCode data where "GetScriptOp (curPos s) = (True, opCode, data, curPos s')"
    and "length data \<le> MAX_SCRIPT_ELEMENT_SIZE" and "stepNo s' = stepNo s + 1"
    and "opCount s + (if opCode > OP_16 then 1 else 0) \<le> opCount s'"
    and "opCount s \<le> MAX_OPS_PER_SCRIPT \<Longrightarrow> opCount s' \<le> MAX_OPS_PER_SCRIPT"
  using assms
proof (rule exec_step_run)
  fix opCode data pc s1
  assume a: "GetScriptOp (curPos s) = (True, opCode, data, pc)"
    "length data \<le> MAX_SCRIPT_ELEMENT_SIZE"
    "count_op opCode (s\<lparr>stepNo := stepNo s + 1, curPos := pc\<rparr>) = Inr s1"
    "exec_branch env opCode data (mustExecuted s) s1 = Inr s'"
  note b = exec_branch_progress [OF a(4)]
  from a(3) have "curPos s1 = pc" "stepNo s1 = stepNo s + 1"
    "opCount s + (if opCode > OP_16 then 1 else 0) = opCount s1"
    "opCount s \<le> MAX_OPS_PER_SCRIPT \<Longrightarrow> opCount s1 \<le> MAX_OPS_PER_SCRIPT"
    by (auto simp: count_op_def fault_simps split: if_split_asm)
  with a b show thesis by (intro that) auto
qed

lemma exec_step_curPos: "exec_step env s = Inr s' \<Longrightarrow> length (curPos s') < length (curPos s)"
  by (auto elim!: exec_step_progress dest: GetScriptOp_length)

end
