(* ===== verification/Eval.thy ===== *)
theory Eval
  imports Execute
begin

text \<open>
  \<open>src/script/Interpreter.cpp\<close>: the loop of \<open>Interpreter::execute\<close> with its handlers, \<open>reset\<close>,
  \<open>resetAndExecute\<close> and \<open>EvalScript\<close>; the execution as a step relation; and what holds of every
  reachable state.
\<close>

section \<open>The loop\<close>

text \<open>
  Every iteration consumes at least one byte of the script (\<open>exec_step_curPos\<close>), so the loop ends
  and needs no fuel.
\<close>

function exec_loop :: "env \<Rightarrow> interp \<Rightarrow> script_fault + interp" where
  "exec_loop env s =
     (if curPos s = [] then Inr s else rbind (exec_step env s) (\<lambda>s. exec_loop env s))"
  by pat_completeness auto
termination
  by (relation "measure (\<lambda>(env, s). length (curPos s))") (auto dest: exec_step_curPos)

declare exec_loop.simps [simp del]

text \<open>
  What \<open>execute\<close> does: it returns \<open>true\<close>, it returns \<open>false\<close> with an error code, or it does not
  return because an assertion failed or the behaviour is undefined.
\<close>

datatype exec_result = Succeeded interp | Failed script_error | Crashed script_fault

text \<open>The two \<open>catch\<close> clauses.\<close>

fun catch_exceptions :: "script_fault + interp \<Rightarrow> exec_result" where
  "catch_exceptions (Inr s) = Succeeded s"
| "catch_exceptions (Inl (Throw e)) = Failed e"
| "catch_exceptions (Inl StdExcept) = Failed SE_UNKNOWN_ERROR"
| "catch_exceptions (Inl Abort) = Crashed Abort"
| "catch_exceptions (Inl Undefined) = Crashed Undefined"

definition start :: "bytes \<Rightarrow> interp \<Rightarrow> interp" where
  "start script s = s\<lparr>curPos := script, sepPos := script, opCount := 0\<rparr>"

definition check_flags_empty :: "interp \<Rightarrow> script_fault + interp" where
  "check_flags_empty s =
     (if condFlags s \<noteq> [] then throw SE_UNBALANCED_CONDITIONAL else Inr s)"

definition execute :: "env \<Rightarrow> bytes \<Rightarrow> interp \<Rightarrow> exec_result" where
  "execute env script s =
     catch_exceptions
       (if length script > MAX_SCRIPT_SIZE then throw SE_SCRIPT_SIZE
        else rbind (exec_loop env (start script s)) check_flags_empty)"

definition reset :: "interp \<Rightarrow> interp" where
  "reset s = s\<lparr>stepNo := 0, opCount := 0, condFlags := [], stk := [], altStk := [],
               curPos := [], sepPos := []\<rparr>"

definition resetAndExecute :: "env \<Rightarrow> bytes \<Rightarrow> interp \<Rightarrow> exec_result" where
  "resetAndExecute env script s = execute env script (reset s)"

text \<open>The constructor: counters at zero, stacks and flags empty, iterators value-initialised.\<close>

definition new_interp :: interp where
  "new_interp = \<lparr>stepNo = 0, opCount = 0, stk = [], altStk = [], condFlags = [], curPos = [], sepPos = []\<rparr>"

definition EvalScript ::
  "hashers \<Rightarrow> bytes \<Rightarrow> flags \<Rightarrow> checker \<Rightarrow> SigVersion \<Rightarrow> exec_result" where
  "EvalScript hs script flags chk sigversion =
     resetAndExecute \<lparr>eflags = flags, echecker = chk, esigversion = sigversion, ehash = hs\<rparr> script
       new_interp"

lemma execute_succeeds:
  "execute env script s = Succeeded s' \<longleftrightarrow>
     length script \<le> MAX_SCRIPT_SIZE \<and> exec_loop env (start script s) = Inr s' \<and> condFlags s' = []"
proof -
  have c: "catch_exceptions r = Succeeded s' \<longleftrightarrow> r = Inr s'" for r
    by (cases r rule: catch_exceptions.cases) auto
  show ?thesis
    by (auto simp: execute_def c rbind_eq_Inr check_flags_empty_def)
qed

lemma execute_crashes:
  "execute env script s = Crashed f \<longleftrightarrow>
     length script \<le> MAX_SCRIPT_SIZE \<and> exec_loop env (start script s) = Inl f \<and> f \<in> {Abort, Undefined}"
proof -
  have c: "catch_exceptions r = Crashed f \<longleftrightarrow> r = Inl f \<and> f \<in> {Abort, Undefined}" for r
    by (cases r rule: catch_exceptions.cases) auto
  show ?thesis
    by (auto simp: execute_def c rbind_eq_Inl check_flags_empty_def)
qed

section \<open>The execution as a step relation\<close>

inductive steps :: "env \<Rightarrow> interp \<Rightarrow> interp \<Rightarrow> bool" for env where
  steps_refl: "steps env s s"
| steps_step: "curPos s \<noteq> [] \<Longrightarrow> exec_step env s = Inr t \<Longrightarrow> steps env t u \<Longrightarrow> steps env s u"

inductive_cases steps_cases: "steps env s t"

lemma steps_trans: "steps env s t \<Longrightarrow> steps env t u \<Longrightarrow> steps env s u"
  by (induction rule: steps.induct) (auto intro: steps_step)

lemma exec_loop_steps:
  "exec_loop env s = Inr t \<longleftrightarrow> steps env s t \<and> curPos t = []"
proof
  show "exec_loop env s = Inr t \<Longrightarrow> steps env s t \<and> curPos t = []"
  proof (induction env s rule: exec_loop.induct)
    case (1 env s)
    then show ?case
      by (subst (asm) exec_loop.simps)
        (auto simp: rbind_eq_Inr intro: steps_refl steps_step split: if_split_asm)
  qed
  have "steps env s t \<Longrightarrow> curPos t = [] \<Longrightarrow> exec_loop env s = Inr t"
    by (induction rule: steps.induct) (subst exec_loop.simps; simp)+
  then show "steps env s t \<and> curPos t = [] \<Longrightarrow> exec_loop env s = Inr t"
    by blast
qed

text \<open>The loop continues from every state it reaches.\<close>

lemma exec_loop_reach: "steps env s t \<Longrightarrow> exec_loop env s = exec_loop env t"
  by (induction rule: steps.induct) (simp, subst exec_loop.simps, simp)

text \<open>An invariant of the steps holds of every state reached.\<close>

lemma steps_invariant:
  assumes "steps env s t" and "P s"
    and "\<And>s t. P s \<Longrightarrow> curPos s \<noteq> [] \<Longrightarrow> exec_step env s = Inr t \<Longrightarrow> P t"
  shows "P t"
  using assms(1,2) by (induction rule: steps.induct) (auto intro: assms(3))

section \<open>Counting an operation\<close>

lemma count_op_same:
  "count_op opCode s = Inr s1 \<Longrightarrow> stk s1 = stk s \<and> altStk s1 = altStk s \<and> condFlags s1 = condFlags s \<and>
     curPos s1 = curPos s \<and> sepPos s1 = sepPos s"
  by (auto simp: count_op_def fault_simps split: if_split_asm)

end
