(* ===== verification/Safety.thy ===== *)
theory Safety
  imports Eval
begin

text \<open>
  Bounds on the interpreter's counters and stacks, and where an execution can crash.
\<close>

section \<open>Counters and stack depth\<close>

definition depth :: "interp \<Rightarrow> nat" where
  "depth s = length (stk s) + length (altStk s)"

lemma exec_branch_depth:
  assumes "exec_branch env opCode data must s = Inr s'"
  shows "depth s' \<le> MAX_STACK_SIZE \<or> (must \<and> opCode < OP_PUSHDATA1 \<and> depth s' = Suc (depth s))"
proof (cases "\<not> (OP_IF \<le> opCode \<and> opCode \<le> OP_ENDIF) \<and> must \<and> opCode < OP_PUSHDATA1")
  case True
  with assms have "op_PushData env opCode data s = Inr s'"
    by (simp add: exec_branch_def)
  then obtain x where "s' = push_frame x s"
    by (blast dest: op_PushData_run push_short_run)
  with True show ?thesis by (simp add: depth_def push_frame_def)
next
  case False
  with assms obtain r where "rbind r size_check = Inr s'"
    by (cases "OP_IF \<le> opCode \<and> opCode \<le> OP_ENDIF"; cases must)
      (simp_all add: exec_branch_def, (metis rbind_Inr)+)
  then show ?thesis by (auto simp: rbind_eq_Inr fault_simps depth_def)
qed

text \<open>The stacks grow by one frame for each byte of the script read, beyond the checked limit.\<close>

lemma exec_step_depth:
  assumes "exec_step env s = Inr s'"
  shows "depth s' + length (curPos s') \<le> max (MAX_STACK_SIZE + length (curPos s)) (depth s + length (curPos s))"
  using assms
proof (rule exec_step_run)
  fix opCode data pc s1
  assume a: "GetScriptOp (curPos s) = (True, opCode, data, pc)"
    "count_op opCode (s\<lparr>stepNo := stepNo s + 1, curPos := pc\<rparr>) = Inr s1"
    "exec_branch env opCode data (mustExecuted s) s1 = Inr s'"
  have "length pc < length (curPos s)" using GetScriptOp_length [OF a(1)] .
  moreover have "curPos s' = pc" "depth s1 = depth s"
    using exec_branch_progress(1) [OF a(3)] count_op_same [OF a(2)] by (simp_all add: depth_def)
  ultimately show ?thesis using exec_branch_depth [OF a(3)] by auto
qed

lemma steps_bounds:
  assumes "steps env s t"
  shows "stepNo t + length (curPos t) \<le> stepNo s + length (curPos s)"
    and "opCount s \<le> MAX_OPS_PER_SCRIPT \<Longrightarrow> opCount t \<le> MAX_OPS_PER_SCRIPT"
    and "length (curPos t) \<le> length (curPos s)"
    and "depth t + length (curPos t) \<le> max (MAX_STACK_SIZE + length (curPos s)) (depth s + length (curPos s))"
  using assms
proof (induction rule: steps.induct)
  case (steps_step s t u)
  note len = exec_step_curPos [OF steps_step(2)]
  {
    case 1
    show ?case using steps_step(4) steps_step(2) len by (auto elim!: exec_step_progress)
  next
    case 2
    then show ?case using steps_step(5) steps_step(2) by (auto elim!: exec_step_progress)
  next
    case 3
    show ?case using steps_step(6) len by simp
  next
    case 4
    show ?case using steps_step(7) exec_step_depth [OF steps_step(2)] len by auto
  }
qed auto

section \<open>Crash-free operations\<close>

text \<open>
  \<open>calm P r\<close>: the step \<open>r\<close> neither aborts nor is undefined, and a result satisfies \<open>P\<close>.
\<close>

fun calm :: "('a \<Rightarrow> bool) \<Rightarrow> script_fault + 'a \<Rightarrow> bool" where
  "calm P (Inr x) = P x"
| "calm P (Inl e) = (e \<noteq> Abort \<and> e \<noteq> Undefined)"

lemma calm_rbind: "calm P (rbind m f) \<longleftrightarrow> calm (\<lambda>x. calm P (f x)) m"
  by (cases m) auto

lemma calm_mono: "calm Q m \<Longrightarrow> (\<And>x. Q x \<Longrightarrow> P x) \<Longrightarrow> calm P m"
  by (cases m) auto

text \<open>Frames whose conversions are defined, and states all of whose frames are such.\<close>

fun frame_safe :: "frame \<Rightarrow> bool" where
  "frame_safe (Number n) = (\<bar>n\<bar> < 2 ^ 63)"
| "frame_safe (Data d) = (length d \<le> MAX_SCRIPT_ELEMENT_SIZE)"

definition state_safe :: "interp \<Rightarrow> bool" where
  "state_safe s \<longleftrightarrow> (\<forall>x \<in> set (stk s). frame_safe x) \<and> (\<forall>x \<in> set (altStk s). frame_safe x)"

lemma asNumber_safe: "frame_safe x \<Longrightarrow> calm (\<lambda>n. \<bar>n\<bar> < 2 ^ 63) (asNumber m x)"
proof (cases x)
  case (Data d)
  then show ?thesis
    using set_vch_range [of d] by (simp add: ScriptNum_of_data_def)
qed simp

lemma asData_safe: "frame_safe x \<Longrightarrow> calm (\<lambda>d. length d \<le> MAX_SCRIPT_ELEMENT_SIZE) (asData x)"
proof (cases x)
  case (Number n)
  assume "frame_safe x"
  with Number have "\<bar>n\<bar> < 2 ^ 63" by simp
  then have "in_int64 n" "n \<noteq> - (2 ^ 63)" by (auto simp: in_int64_def)
  with Number sn_serialize_faults [of n] sn_serialize_length [of n] show ?thesis
    by (cases "sn_serialize n") (auto simp: MAX_SCRIPT_ELEMENT_SIZE_def dest!: sn_serialize_length)
qed simp

lemma state_safe_Cons: "state_safe s \<Longrightarrow> stk s = x # st \<Longrightarrow> frame_safe x \<and> state_safe (s\<lparr>stk := st\<rparr>)"
  by (simp add: state_safe_def)

lemma state_safe_push: "state_safe s \<Longrightarrow> frame_safe x \<Longrightarrow> state_safe (push_frame x s)"
  by (simp add: state_safe_def push_frame_def)

lemma length_pos_stack: "Suc n \<le> length (stk s) \<Longrightarrow> \<exists>x st. stk s = x # st \<and> n \<le> length st"
  by (cases "stk s") auto

text \<open>Each access to the stack, with the number of frames it needs.\<close>

lemma calm_Inr: "P x \<Longrightarrow> calm P (Inr x)"
  by simp

lemma calm_throw: "calm P (throw e)" "calm P (Inl StdExcept)"
  by simp_all

lemma calm_if: "(b \<Longrightarrow> calm P x) \<Longrightarrow> (\<not> b \<Longrightarrow> calm P y) \<Longrightarrow> calm P (if b then x else y)"
  by simp

lemma calm_ensure:
  "(n \<le> length (stk s) \<Longrightarrow> P ()) \<Longrightarrow> calm P (ensureStackHasEnoughFrames n s)"
  by (simp add: ensureStackHasEnoughFrames_def)

lemma calm_take_frame:
  assumes "state_safe s" and "Suc n \<le> length (stk s)"
    and "\<And>x s'. frame_safe x \<Longrightarrow> state_safe s' \<Longrightarrow> n \<le> length (stk s') \<Longrightarrow> P (x, s')"
  shows "calm P (take_frame s)"
  using length_pos_stack [OF assms(2)] state_safe_Cons [OF assms(1)] assms(3)
  by (auto simp: take_frame_def)

lemma calm_top_frame:
  assumes "state_safe s" and "Suc n \<le> length (stk s)" and "\<And>x. frame_safe x \<Longrightarrow> P x"
  shows "calm P (top_frame s)"
  using length_pos_stack [OF assms(2)] state_safe_Cons [OF assms(1)] assms(3)
  by (auto simp: top_frame_def)

lemma calm_pop_frame:
  assumes "state_safe s" and "Suc n \<le> length (stk s)"
    and "\<And>s'. state_safe s' \<Longrightarrow> n \<le> length (stk s') \<Longrightarrow> P s'"
  shows "calm P (pop_frame s)"
  using length_pos_stack [OF assms(2)] state_safe_Cons [OF assms(1)] assms(3)
  by (auto simp: pop_frame_def)

lemma calm_take_num:
  assumes "state_safe s" and "Suc n \<le> length (stk s)"
    and "\<And>v s'. \<bar>v\<bar> < 2 ^ 63 \<Longrightarrow> state_safe s' \<Longrightarrow> n \<le> length (stk s') \<Longrightarrow> P (v, s')"
  shows "calm P (take_num env s)"
  using assms(1,2) unfolding take_num_def calm_rbind
  by (rule calm_take_frame) (auto simp: calm_rbind intro: assms(3) calm_mono [OF asNumber_safe])

lemma calm_take_data:
  assumes "state_safe s" and "Suc n \<le> length (stk s)"
    and "\<And>d s'. length d \<le> MAX_SCRIPT_ELEMENT_SIZE \<Longrightarrow> state_safe s' \<Longrightarrow> n \<le> length (stk s') \<Longrightarrow> P (d, s')"
  shows "calm P (take_data s)"
  using assms(1,2) unfolding take_data_def calm_rbind
  by (rule calm_take_frame) (auto simp: calm_rbind intro: assms(3) calm_mono [OF asData_safe])

lemma calm_top_data:
  assumes "state_safe s" and "Suc n \<le> length (stk s)"
    and "\<And>d s'. length d \<le> MAX_SCRIPT_ELEMENT_SIZE \<Longrightarrow> state_safe s' \<Longrightarrow> Suc n \<le> length (stk s') \<Longrightarrow> P (d, s')"
  shows "calm P (top_data s)"
  using assms(1,2) unfolding top_data_def calm_rbind
  by (rule calm_take_frame)
    (auto simp: calm_rbind state_safe_push intro!: calm_mono [OF asData_safe] assms(3),
     auto simp: push_frame_def)

lemmas calm_access = calm_take_frame calm_top_frame calm_pop_frame calm_take_num calm_take_data calm_top_data

lemma calm_push_num: "state_safe s \<Longrightarrow> \<bar>n\<bar> < 2 ^ 63 \<Longrightarrow> calm state_safe (push_num n s)"
  by (simp add: push_num_def state_safe_push)

lemma calm_push_bool: "state_safe s \<Longrightarrow> calm state_safe (push_bool b s)"
  by (simp add: push_bool_def push_num_def state_safe_push)

lemma calm_push_data:
  "state_safe s \<Longrightarrow> length d \<le> MAX_SCRIPT_ELEMENT_SIZE \<Longrightarrow> calm state_safe (push_data d s)"
  by (simp add: push_data_def state_safe_push)

lemma calm_push_short:
  "state_safe s \<Longrightarrow> length d \<le> MAX_SCRIPT_ELEMENT_SIZE \<Longrightarrow> calm state_safe (push_short env d s)"
  using asNumber_safe [of "Data d" "isSet (eflags env) MINIMALDATA"]
  by (auto simp: push_short_def calm_rbind calm_push_data intro!: calm_push_num elim!: calm_mono)

lemma calm_verify_top:
  "state_safe s \<Longrightarrow> Suc n \<le> length (stk s) \<Longrightarrow> calm state_safe (verify_top e s)"
  unfolding verify_top_def calm_rbind
  by (rule calm_top_frame) (auto intro: calm_pop_frame)

lemmas calm_push = calm_push_num calm_push_bool calm_push_data calm_push_short calm_verify_top
lemma calm_rbindI: "calm (\<lambda>x. calm P (f x)) m \<Longrightarrow> calm P (rbind m f)"
  by (simp add: calm_rbind)

lemmas calm_intros = calm_rbindI calm_Inr calm_throw calm_if calm_ensure calm_access calm_push state_safe_push

lemma frame_counts:
  "(1 :: nat) = Suc 0" "(2 :: nat) = Suc (Suc 0)" "(3 :: nat) = Suc (Suc (Suc 0))"
  "(4 :: nat) = Suc (Suc (Suc (Suc 0)))" "(6 :: nat) = Suc (Suc (Suc (Suc (Suc (Suc 0)))))"
  by simp_all

text \<open>The operations that only move frames.\<close>

lemma calm_moves:
  assumes "state_safe s"
  shows "calm state_safe (op_2Drop s)" "calm state_safe (op_2Dup s)" "calm state_safe (op_3Dup s)"
    "calm state_safe (op_2Over s)" "calm state_safe (op_2Rot s)" "calm state_safe (op_2Swap s)"
    "calm state_safe (op_IfDup s)" "calm state_safe (op_Drop s)" "calm state_safe (op_Dup s)"
    "calm state_safe (op_Nip s)" "calm state_safe (op_Over s)" "calm state_safe (op_Rot s)"
    "calm state_safe (op_Swap s)" "calm state_safe (op_Tuck s)" "calm state_safe (op_Verify s)"
    "calm state_safe (op_Return s)" "calm state_safe (op_Nop s)"
  using assms
  by (simp_all only: op_defs frame_counts)
    (assumption | rule calm_intros | simp only: prod.case)+

text \<open>
  What the crash-free operations rely on: the digests have a bounded length (20 or 32 bytes in
  every implementation), and the checker's time lock tests return.
\<close>

definition env_calm :: "env \<Rightarrow> bool" where
  "env_calm env \<longleftrightarrow>
     (\<forall>d. length (RIPEMD160 (ehash env) d) \<le> 520 \<and> length (SHA1 (ehash env) d) \<le> 520 \<and>
          length (SHA256 (ehash env) d) \<le> 520 \<and> length (Hash160 (ehash env) d) \<le> 520 \<and>
          length (Hash256 (ehash env) d) \<le> 520) \<and>
     (\<forall>n. calm (\<lambda>_. True) (CheckLockTime (echecker env) n) \<and>
          calm (\<lambda>_. True) (CheckSequence (echecker env) n))"

lemma calm_numbers:
  assumes "state_safe s"
  shows "calm state_safe (op_Not env s)" "calm state_safe (op_0NotEqual env s)"
    "calm state_safe (op_BoolAnd env s)" "calm state_safe (op_BoolOr env s)"
    "calm state_safe (op_NumEqual env s)" "calm state_safe (op_NumNotEqual env s)"
    "calm state_safe (op_LessThan env s)" "calm state_safe (op_GreaterThan env s)"
    "calm state_safe (opLessThanOrEqual env s)" "calm state_safe (op_GreaterThanOrEqual env s)"
    "calm state_safe (op_Within env s)" "calm state_safe (op_Equal s)"
  using assms
  by (simp_all only: op_defs frame_counts)
    (assumption | rule calm_intros | simp only: prod.case)+

lemma calm_min_max:
  assumes "state_safe s"
  shows "calm state_safe (op_Min env s)" "calm state_safe (op_Max env s)"
  using assms
  by (simp_all only: op_defs frame_counts)
    (assumption | rule calm_intros | simp only: prod.case | simp)+

lemma sn_uminus_calm: "\<bar>x\<bar> < 2 ^ 63 \<Longrightarrow> (\<bar>x\<bar> < 2 ^ 63 \<Longrightarrow> P (- x)) \<Longrightarrow> calm P (sn_uminus x)"
  by (simp add: sn_uminus_def)

lemma calm_signs:
  assumes "state_safe s"
  shows "calm state_safe (op_Negate env s)" "calm state_safe (op_Abs env s)"
  using assms
  by (simp_all only: op_defs frame_counts)
    (assumption | rule calm_intros sn_uminus_calm | simp only: prod.case | simp)+

text \<open>A comparison leaves a boolean, and the \<open>...VERIFY\<close> operations pop it.\<close>

lemma calm_with_frame:
  assumes "calm state_safe r" and "\<And>s'. r = Inr s' \<Longrightarrow> stk s' \<noteq> []"
  shows "calm state_safe (rbind r (verify_top e))"
proof (cases r)
  case (Inr s')
  then have "state_safe s'" "Suc 0 \<le> length (stk s')"
    using assms by (auto simp: Suc_le_eq)
  with Inr show ?thesis by (simp add: calm_verify_top)
qed (use assms in simp)

lemma calm_verifies:
  assumes "state_safe s"
  shows "calm state_safe (op_EqualVerify s)" "calm state_safe (op_NumEqualVerify env s)"
proof -
  have "op_Equal s = Inr s' \<Longrightarrow> stk s' \<noteq> []" "op_NumEqual env s = Inr s' \<Longrightarrow> stk s' \<noteq> []" for s'
    by (auto simp: op_Equal_def op_NumEqual_def rbind_eq_Inr push_simps)
  then show "calm state_safe (op_EqualVerify s)" "calm state_safe (op_NumEqualVerify env s)"
    unfolding op_EqualVerify_def op_NumEqualVerify_def
    by (blast intro: calm_with_frame calm_numbers assms)+
qed

lemma calm_digests:
  assumes "state_safe s" and "env_calm env"
  shows "calm state_safe (op_RIPEMD env s)" "calm state_safe (op_SHA1 env s)"
    "calm state_safe (op_SHA256 env s)" "calm state_safe (op_Hash160 env s)"
    "calm state_safe (op_Hash256 env s)"
  using assms
  by (simp_all only: op_defs frame_counts)
    (assumption | rule calm_intros | simp only: prod.case |
     simp add: env_calm_def MAX_SCRIPT_ELEMENT_SIZE_def)+

lemma calm_pushes:
  assumes "state_safe s" and "length data \<le> MAX_SCRIPT_ELEMENT_SIZE"
  shows "calm state_safe (op_PushData env opCode data s)" "calm state_safe (op_PushData1 env data s)"
    "calm state_safe (op_PushData2 env data s)" "calm state_safe (op_PushData4 env data s)"
  using assms
  by (simp_all only: op_defs)
    (assumption | rule calm_intros)+

lemma calm_timelocks:
  assumes "state_safe s" and "env_calm env"
  shows "calm state_safe (op_CheckLockTimeVerify env s)" "calm state_safe (op_CheckSequenceVerify env s)"
proof -
  have n: "calm P (ScriptNum_of_data d m 5)" if "\<And>n. P n" for P d m
    using that by (simp add: ScriptNum_of_data_def)
  have c: "calm P (CheckLockTime (echecker env) n)" "calm P (CheckSequence (echecker env) n)"
    if "\<And>b. P b" for P n
    using that assms(2) by (auto simp: env_calm_def intro: calm_mono)
  show "calm state_safe (op_CheckLockTimeVerify env s)" "calm state_safe (op_CheckSequenceVerify env s)"
    using assms
    by (simp_all only: op_defs frame_counts)
      (assumption | rule calm_intros n c | simp only: prod.case)+
qed

lemma calm_altstack:
  assumes "state_safe s"
  shows "calm state_safe (op_ToAltStack s)" "calm state_safe (op_FromAltStack s)"
proof -
  show "calm state_safe (op_ToAltStack s)"
    using assms
    by (simp only: op_defs frame_counts)
      (assumption | rule calm_intros | simp only: prod.case | simp add: state_safe_def)+
  show "calm state_safe (op_FromAltStack s)"
    using assms
    by (cases "altStk s") (auto simp: op_FromAltStack_def state_safe_def push_frame_def)
qed

lemma calm_sizes:
  assumes "state_safe s" and "length (stk s) < 2 ^ 63"
  shows "calm state_safe (op_Size s)" "calm state_safe (op_Depth s)"
proof -
  show "calm state_safe (op_Size s)"
    using assms(1)
    by (simp only: op_defs frame_counts)
      (assumption | rule calm_intros | simp only: prod.case | simp add: MAX_SCRIPT_ELEMENT_SIZE_def)+
  show "calm state_safe (op_Depth s)"
    using assms by (simp add: op_Depth_def calm_push_num)
qed

lemma calm_N: "state_safe s \<Longrightarrow> calm state_safe (op_N opCode s)"
proof -
  assume "state_safe s"
  moreover have "\<bar>uint opCode - uint OP_1 + 1\<bar> < 2 ^ 63"
  proof -
    obtain u where "uint opCode = u" "0 \<le> u" "u < 256"
      using uint_bounded [of opCode] by simp
    then show ?thesis by simp
  qed
  ultimately show ?thesis by (simp only: op_N_def calm_push_num)
qed

lemma calm_misc:
  assumes "state_safe s"
  shows "calm state_safe (op_Noop env s)" "calm state_safe (op_CodeSeparator env s)"
  using assms by (simp_all add: op_Noop_def op_CodeSeparator_def state_safe_def)

lemma calm_conditional: "state_safe s \<Longrightarrow> calm state_safe (exec_conditional env opCode must s)"
proof -
  assume s: "state_safe s"
  have "calm state_safe (exec_if env opCode must s)"
    using s by (cases "stk s")
      (auto simp: exec_if_def state_safe_def take_frame_def Let_def split: frame.splits)
  moreover have "calm state_safe (exec_else s)" "calm state_safe (exec_endif s)"
    using s by (auto simp: exec_else_def exec_endif_def state_safe_def split: list.splits)
  ultimately show ?thesis using s by (simp add: exec_conditional_def)
qed

text \<open>The operations whose crash is possible.\<close>

definition may_crash :: "opcode \<Rightarrow> bool" where
  "may_crash opCode \<longleftrightarrow> opCode \<in> {OP_1ADD, OP_1SUB, OP_ADD, OP_SUB, OP_PICK, OP_ROLL,
     OP_CHECKSIG, OP_CHECKSIGVERIFY, OP_CHECKMULTISIG, OP_CHECKMULTISIGVERIFY}"

lemma calm_exec_op:
  assumes "state_safe s" and "env_calm env" and "length (stk s) < 2 ^ 63"
    and "length data \<le> MAX_SCRIPT_ELEMENT_SIZE" and "\<not> may_crash opCode"
  shows "calm state_safe (exec_op env opCode data s)"
  using assms
  by (intro exec_op_rule [where P = "calm state_safe"])
    (simp_all only: may_crash_def insert_iff simp_thms calm_moves calm_numbers calm_min_max
      calm_signs calm_verifies calm_digests calm_pushes calm_timelocks calm_altstack calm_sizes
      calm_N calm_misc calm_throw)

lemma calm_size_check: "calm state_safe r \<Longrightarrow> calm state_safe (rbind r size_check)"
  by (cases r) (auto simp: size_check_def)

lemma calm_exec_branch:
  assumes "state_safe s" and "env_calm env" and "length (stk s) < 2 ^ 63"
    and "length data \<le> MAX_SCRIPT_ELEMENT_SIZE" and "must \<Longrightarrow> \<not> may_crash opCode"
  shows "calm state_safe (exec_branch env opCode data must s)"
  using assms unfolding exec_branch_def
  by (intro calm_if calm_size_check calm_conditional calm_pushes calm_exec_op)
    (auto simp: size_check_def)

section \<open>Where an execution crashes\<close>

text \<open>The next operation of a state is executed and may crash.\<close>

definition at_risk :: "interp \<Rightarrow> bool" where
  "at_risk t \<longleftrightarrow> mustExecuted t \<and>
     (case GetScriptOp (curPos t) of (ok, opCode, data, pc) \<Rightarrow> ok \<and> may_crash opCode)"

lemma calm_exec_step:
  assumes "state_safe s" and "env_calm env" and "length (stk s) < 2 ^ 63" and "\<not> at_risk s"
  shows "calm state_safe (exec_step env s)"
proof -
  obtain ok opCode data pc where g: "GetScriptOp (curPos s) = (ok, opCode, data, pc)"
    by (cases "GetScriptOp (curPos s)")
  let ?s = "s\<lparr>stepNo := stepNo s + 1, curPos := pc\<rparr>"
  have must: "mustExecuted (s\<lparr>stepNo := n\<rparr>) = mustExecuted s" for n
    by (simp add: mustExecuted_def)
  have "calm state_safe (rbind (count_op opCode ?s) (exec_branch env opCode data (mustExecuted s)))"
    if ok and d: "length data \<le> MAX_SCRIPT_ELEMENT_SIZE"
  proof (cases "count_op opCode ?s")
    case (Inl e)
    then show ?thesis by (auto simp: count_op_def add_ops_def Let_def split: if_split_asm)
  next
    case (Inr s1)
    from count_op_same [OF this] assms(1,3) have "state_safe s1" "length (stk s1) < 2 ^ 63"
      by (simp_all add: state_safe_def)
    with Inr that g assms(2,4) show ?thesis
      by (auto intro!: calm_exec_branch simp: at_risk_def)
  qed
  then show ?thesis
    using g must by (cases ok) (auto simp: exec_step_def Let_def not_less cong del: rbind_cong)
qed

lemma calm_exec_loop:
  assumes "state_safe s" and "env_calm env" and "depth s + length (curPos s) \<le> 2 ^ 62"
    and "MAX_STACK_SIZE + length (curPos s) \<le> 2 ^ 62"
    and "\<And>t. steps env s t \<Longrightarrow> \<not> at_risk t"
  shows "calm state_safe (exec_loop env s)"
  using assms
proof (induction env s rule: exec_loop.induct)
  case (1 env s)
  show ?case
  proof (cases "curPos s = []")
    case True
    with "1.prems"(1) show ?thesis by (subst exec_loop.simps) simp
  next
    case False
    have "length (stk s) \<le> depth s" by (simp add: depth_def)
    then have "length (stk s) < 2 ^ 63" using "1.prems"(3) by simp
    then have step: "calm state_safe (exec_step env s)"
      using "1.prems" by (intro calm_exec_step) (auto intro: steps_refl)
    show ?thesis
    proof (cases "exec_step env s")
      case (Inl e)
      with step False show ?thesis by (subst exec_loop.simps) simp
    next
      case (Inr t)
      have "calm state_safe (exec_loop env t)"
      proof (rule "1.IH" [OF False Inr])
        show "state_safe t" using step Inr by simp
        show "depth t + length (curPos t) \<le> 2 ^ 62"
          using exec_step_depth [OF Inr] "1.prems"(3,4) by linarith
        show "MAX_STACK_SIZE + length (curPos t) \<le> 2 ^ 62"
          using exec_step_curPos [OF Inr] "1.prems"(4) by linarith
        show "\<not> at_risk u" if "steps env t u" for u
          using "1.prems"(5) steps_step [OF False Inr that] by blast
      qed (use "1.prems" in simp)
      with False Inr show ?thesis by (subst exec_loop.simps) simp
    qed
  qed
qed

lemma reset_start [simp]:
  "depth (start script (reset s)) = 0" "state_safe (start script (reset s))"
  "curPos (start script (reset s)) = script" "stepNo (start script (reset s)) = 0"
  "opCount (start script (reset s)) = 0" "condFlags (start script (reset s)) = []"
  by (simp_all add: depth_def start_def reset_def state_safe_def)

lemma resetAndExecute_calm:
  assumes "env_calm env" and "\<And>t. steps env (start script (reset s)) t \<Longrightarrow> \<not> at_risk t"
  shows "resetAndExecute env script s \<noteq> Crashed f"
proof
  assume c: "resetAndExecute env script s = Crashed f"
  then have len: "length script \<le> MAX_SCRIPT_SIZE"
    and loop: "exec_loop env (start script (reset s)) = Inl f" "f \<in> {Abort, Undefined}"
    by (simp_all add: resetAndExecute_def execute_crashes)
  have "calm state_safe (exec_loop env (start script (reset s)))"
    using assms len by (intro calm_exec_loop) (simp_all add: MAX_SCRIPT_SIZE_def MAX_STACK_SIZE_def)
  with loop show False by auto
qed

text \<open>The bounds on a successful execution from a fresh interpreter.\<close>

lemma resetAndExecute_bounds:
  assumes "resetAndExecute env script s = Succeeded t"
  shows "length script \<le> MAX_SCRIPT_SIZE" and "stepNo t \<le> length script"
    and "opCount t \<le> MAX_OPS_PER_SCRIPT" and "depth t \<le> MAX_STACK_SIZE + length script"
    and "condFlags t = []" and "curPos t = []"
proof -
  let ?s = "start script (reset s)"
  have t: "length script \<le> MAX_SCRIPT_SIZE" "steps env ?s t" "curPos t = []" "condFlags t = []"
    using assms by (simp_all add: resetAndExecute_def execute_succeeds exec_loop_steps)
  then show "length script \<le> MAX_SCRIPT_SIZE" "curPos t = []" "condFlags t = []" by simp_all
  show "stepNo t \<le> length script" "opCount t \<le> MAX_OPS_PER_SCRIPT"
    "depth t \<le> MAX_STACK_SIZE + length script"
    using steps_bounds [OF t(2)] t(3) by simp_all
qed

end
