(* ===== verification/Conditionals.thy ===== *)
theory Conditionals
  imports Eval
begin

text \<open>
  The conditionals of the script language. \<open>Interpreter::execute\<close> runs \<open>IF\<close>, \<open>ELSE\<close> and \<open>ENDIF\<close> with
  a vector of flags that it consults before every operation. Here the same programs get a
  structured meaning, in which a conditional chooses one of two sub-programs by the top of the
  stack and there is no vector; the loop of \<open>execute\<close> is shown to implement it.
\<close>

section \<open>The operations do not consult the flags\<close>

text \<open>\<open>t\<close> is \<open>s\<close> with other conditional flags, and two results are alike.\<close>

definition flagged :: "bool list \<Rightarrow> interp \<Rightarrow> interp \<Rightarrow> bool" where
  "flagged fs s t \<longleftrightarrow> t = s\<lparr>condFlags := fs\<rparr>"

fun alike :: "('a \<Rightarrow> 'b \<Rightarrow> bool) \<Rightarrow> script_fault + 'a \<Rightarrow> script_fault + 'b \<Rightarrow> bool" where
  "alike R (Inl a) r = (r = Inl a)"
| "alike R (Inr x) r = (\<exists>y. r = Inr y \<and> R x y)"

lemma flagged_access:
  assumes "flagged fs s t"
  shows "stk t = stk s" "altStk t = altStk s" "opCount t = opCount s" "curPos t = curPos s"
    "sepPos t = sepPos s" "stepNo t = stepNo s"
    "flagged fs (s\<lparr>stk := st\<rparr>) (t\<lparr>stk := st\<rparr>)" "flagged fs (s\<lparr>altStk := st\<rparr>) (t\<lparr>altStk := st\<rparr>)"
    "flagged fs (s\<lparr>opCount := n\<rparr>) (t\<lparr>opCount := n\<rparr>)" "flagged fs (s\<lparr>sepPos := p\<rparr>) (t\<lparr>sepPos := p\<rparr>)"
    "flagged fs (s\<lparr>curPos := p\<rparr>) (t\<lparr>curPos := p\<rparr>)" "flagged fs (s\<lparr>stepNo := n\<rparr>) (t\<lparr>stepNo := n\<rparr>)"
    "flagged fs (push_frame x s) (push_frame x t)"
  using assms by (simp_all add: flagged_def push_frame_def)

lemma alike_Inr: "flagged fs s t \<Longrightarrow> alike (flagged fs) (Inr s) (Inr t)"
  by simp

lemma alike_same: "alike R (Inl e) (Inl e)"
  by simp

lemma alike_if:
  "b = b' \<Longrightarrow> (b \<Longrightarrow> alike R x x') \<Longrightarrow> (\<not> b \<Longrightarrow> alike R y y') \<Longrightarrow>
     alike R (if b then x else y) (if b' then x' else y')"
  by simp

lemma alike_rbind:
  "alike (flagged fs) m m' \<Longrightarrow> (\<And>s t. flagged fs s t \<Longrightarrow> alike R (f s) (g t)) \<Longrightarrow>
     alike R (rbind m f) (rbind m' g)"
  by (cases m) auto

text \<open>A step that reads a value of the state and a step that has none.\<close>

lemma alike_pure: "(\<And>x. alike R (f x) (g x)) \<Longrightarrow> alike R (rbind m f) (rbind m g)"
  by (cases m) auto

lemma alike_pairs:
  assumes "alike (\<lambda>(x, s) (y, t). x = y \<and> flagged fs s t) m m'"
    and "\<And>x s t. flagged fs s t \<Longrightarrow> alike R (f x s) (g x t)"
  shows "alike R (rbind m (\<lambda>(x, s). f x s)) (rbind m' (\<lambda>(x, s). g x s))"
  using assms by (cases m) auto

lemma alike_ensure:
  "flagged fs s t \<Longrightarrow> (\<And>u. alike R (f u) (g u)) \<Longrightarrow>
     alike R (rbind (ensureStackHasEnoughFrames n s) f) (rbind (ensureStackHasEnoughFrames n t) g)"
  by (simp add: ensureStackHasEnoughFrames_def flagged_access)

lemma alike_top_frame:
  "flagged fs s t \<Longrightarrow> (\<And>x. alike R (f x) (g x)) \<Longrightarrow>
     alike R (rbind (top_frame s) f) (rbind (top_frame t) g)"
  by (simp add: top_frame_def flagged_access alike_pure)

lemma alike_take_frame:
  "flagged fs s t \<Longrightarrow> alike (\<lambda>(x, s) (y, t). x = y \<and> flagged fs s t) (take_frame s) (take_frame t)"
  by (cases "stk s") (auto simp: take_frame_def flagged_access)

lemma alike_take_num:
  "flagged fs s t \<Longrightarrow> alike (\<lambda>(x, s) (y, t). x = y \<and> flagged fs s t) (take_num env s) (take_num env t)"
  unfolding take_num_def
  by (rule alike_pairs, erule alike_take_frame, rule alike_pure) simp

lemma alike_take_data:
  "flagged fs s t \<Longrightarrow> alike (\<lambda>(x, s) (y, t). x = y \<and> flagged fs s t) (take_data s) (take_data t)"
  unfolding take_data_def
  by (rule alike_pairs, erule alike_take_frame, rule alike_pure) simp

lemma alike_top_data:
  "flagged fs s t \<Longrightarrow> alike (\<lambda>(x, s) (y, t). x = y \<and> flagged fs s t) (top_data s) (top_data t)"
  unfolding top_data_def
  by (rule alike_pairs, erule alike_take_frame, rule alike_pure) (simp add: flagged_access)

lemma alike_pop_frame: "flagged fs s t \<Longrightarrow> alike (flagged fs) (pop_frame s) (pop_frame t)"
  by (cases "stk s") (auto simp: pop_frame_def flagged_access)

lemma alike_pushes:
  assumes "flagged fs s t"
  shows "alike (flagged fs) (push_num n s) (push_num n t)"
    "alike (flagged fs) (push_bool b s) (push_bool b t)"
    "alike (flagged fs) (push_data d s) (push_data d t)"
  using assms by (simp_all add: push_num_def push_bool_def push_data_def flagged_access)

lemma alike_push_short: "flagged fs s t \<Longrightarrow> alike (flagged fs) (push_short env d s) (push_short env d t)"
  unfolding push_short_def by (intro alike_if refl alike_pure alike_pushes)

lemma alike_add_ops: "flagged fs s t \<Longrightarrow> alike (flagged fs) (add_ops n s) (add_ops n t)"
  by (simp add: add_ops_def Let_def flagged_access)

lemma alike_verify_top: "flagged fs s t \<Longrightarrow> alike (flagged fs) (verify_top e s) (verify_top e t)"
  unfolding verify_top_def
  by (rule alike_top_frame, assumption, intro alike_if refl alike_same alike_pop_frame)

lemma alike_take_many:
  "flagged fs s t \<Longrightarrow> alike (\<lambda>(x, s) (y, t). x = y \<and> flagged fs s t) (take_many n s) (take_many n t)"
proof (induction n arbitrary: s t)
  case (Suc n)
  show ?case
    unfolding take_many.simps
    by (rule alike_pairs, rule alike_take_data [OF Suc.prems], rule alike_pairs, erule Suc.IH) simp
qed simp

lemmas alike_state = alike_Inr alike_same alike_pushes alike_push_short alike_pop_frame
  alike_add_ops alike_verify_top
lemmas alike_reads = alike_take_frame alike_take_num alike_take_data alike_top_data alike_take_many
lemmas alike_steps = alike_state alike_if alike_ensure alike_top_frame
  alike_pairs [OF alike_take_frame] alike_pairs [OF alike_take_num] alike_pairs [OF alike_take_data]
  alike_pairs [OF alike_top_data] alike_pairs [OF alike_take_many] alike_rbind [OF alike_pop_frame]
  alike_rbind [OF alike_add_ops] alike_pure flagged_access(7-)

lemma alike_moves:
  assumes "flagged fs s t"
  shows "alike (flagged fs) (op_2Drop s) (op_2Drop t)" "alike (flagged fs) (op_2Dup s) (op_2Dup t)"
    "alike (flagged fs) (op_3Dup s) (op_3Dup t)" "alike (flagged fs) (op_2Over s) (op_2Over t)"
    "alike (flagged fs) (op_2Rot s) (op_2Rot t)" "alike (flagged fs) (op_2Swap s) (op_2Swap t)"
    "alike (flagged fs) (op_IfDup s) (op_IfDup t)" "alike (flagged fs) (op_Drop s) (op_Drop t)"
    "alike (flagged fs) (op_Dup s) (op_Dup t)" "alike (flagged fs) (op_Nip s) (op_Nip t)"
    "alike (flagged fs) (op_Over s) (op_Over t)" "alike (flagged fs) (op_Rot s) (op_Rot t)"
    "alike (flagged fs) (op_Swap s) (op_Swap t)" "alike (flagged fs) (op_Tuck s) (op_Tuck t)"
    "alike (flagged fs) (op_Verify s) (op_Verify t)" "alike (flagged fs) (op_Return s) (op_Return t)"
    "alike (flagged fs) (op_Nop s) (op_Nop t)"
  using assms
  by (simp_all only: op_defs) (assumption | rule refl alike_steps)+

lemma alike_numbers:
  assumes "flagged fs s t"
  shows "alike (flagged fs) (op_1Add env s) (op_1Add env t)" "alike (flagged fs) (op_1Sub env s) (op_1Sub env t)"
    "alike (flagged fs) (op_Negate env s) (op_Negate env t)" "alike (flagged fs) (op_Abs env s) (op_Abs env t)"
    "alike (flagged fs) (op_Not env s) (op_Not env t)" "alike (flagged fs) (op_0NotEqual env s) (op_0NotEqual env t)"
    "alike (flagged fs) (op_Add env s) (op_Add env t)" "alike (flagged fs) (op_Sub env s) (op_Sub env t)"
    "alike (flagged fs) (op_BoolAnd env s) (op_BoolAnd env t)" "alike (flagged fs) (op_BoolOr env s) (op_BoolOr env t)"
    "alike (flagged fs) (op_NumEqual env s) (op_NumEqual env t)"
    "alike (flagged fs) (op_NumNotEqual env s) (op_NumNotEqual env t)"
    "alike (flagged fs) (op_LessThan env s) (op_LessThan env t)"
    "alike (flagged fs) (op_GreaterThan env s) (op_GreaterThan env t)"
    "alike (flagged fs) (opLessThanOrEqual env s) (opLessThanOrEqual env t)"
    "alike (flagged fs) (op_GreaterThanOrEqual env s) (op_GreaterThanOrEqual env t)"
    "alike (flagged fs) (op_Min env s) (op_Min env t)" "alike (flagged fs) (op_Max env s) (op_Max env t)"
    "alike (flagged fs) (op_Within env s) (op_Within env t)" "alike (flagged fs) (op_Equal s) (op_Equal t)"
    "alike (flagged fs) (op_Size s) (op_Size t)"
  using assms
  by (simp_all only: op_defs) (assumption | rule refl alike_steps)+

lemma alike_verifies:
  assumes "flagged fs s t"
  shows "alike (flagged fs) (op_EqualVerify s) (op_EqualVerify t)"
    "alike (flagged fs) (op_NumEqualVerify env s) (op_NumEqualVerify env t)"
  unfolding op_EqualVerify_def op_NumEqualVerify_def
  by (rule alike_rbind, rule alike_numbers [OF assms], erule alike_verify_top)+

lemma alike_pushdata:
  assumes "flagged fs s t"
  shows "alike (flagged fs) (op_PushData env opc data s) (op_PushData env opc data t)"
    "alike (flagged fs) (op_PushData1 env data s) (op_PushData1 env data t)"
    "alike (flagged fs) (op_PushData2 env data s) (op_PushData2 env data t)"
    "alike (flagged fs) (op_PushData4 env data s) (op_PushData4 env data t)"
    "alike (flagged fs) (op_N opc s) (op_N opc t)" "alike (flagged fs) (op_Noop env s) (op_Noop env t)"
  using assms
  by (simp_all only: op_defs) (assumption | rule refl alike_steps)+

lemma alike_digests:
  assumes "flagged fs s t"
  shows "alike (flagged fs) (op_RIPEMD env s) (op_RIPEMD env t)" "alike (flagged fs) (op_SHA1 env s) (op_SHA1 env t)"
    "alike (flagged fs) (op_SHA256 env s) (op_SHA256 env t)" "alike (flagged fs) (op_Hash160 env s) (op_Hash160 env t)"
    "alike (flagged fs) (op_Hash256 env s) (op_Hash256 env t)"
    "alike (flagged fs) (op_CheckLockTimeVerify env s) (op_CheckLockTimeVerify env t)"
    "alike (flagged fs) (op_CheckSequenceVerify env s) (op_CheckSequenceVerify env t)"
  using assms
  by (simp_all only: op_defs) (assumption | rule refl alike_steps)+

lemma alike_stacks:
  assumes "flagged fs s t"
  shows "alike (flagged fs) (op_ToAltStack s) (op_ToAltStack t)"
    "alike (flagged fs) (op_FromAltStack s) (op_FromAltStack t)"
    "alike (flagged fs) (op_Depth s) (op_Depth t)"
    "alike (flagged fs) (op_CodeSeparator env s) (op_CodeSeparator env t)"
proof -
  have "alike (flagged fs) (Inr (s\<lparr>altStk := x # altStk s\<rparr>)) (Inr (t\<lparr>altStk := x # altStk t\<rparr>))"
    if "flagged fs s t" for s t x
    using that by (simp add: flagged_access)
  then show "alike (flagged fs) (op_ToAltStack s) (op_ToAltStack t)"
    using assms unfolding op_defs stack_push_def
    by (intro alike_ensure alike_pairs [OF alike_take_frame])
  show "alike (flagged fs) (op_FromAltStack s) (op_FromAltStack t)"
    using assms by (cases "altStk s") (auto simp: op_FromAltStack_def flagged_access)
  show "alike (flagged fs) (op_Depth s) (op_Depth t)"
    "alike (flagged fs) (op_CodeSeparator env s) (op_CodeSeparator env t)"
    using assms by (auto simp: op_Depth_def op_CodeSeparator_def flagged_access alike_pushes)
qed

lemma alike_picks:
  assumes "flagged fs s t"
  shows "alike (flagged fs) (op_Pick env s) (op_Pick env t)" "alike (flagged fs) (op_Roll env s) (op_Roll env t)"
proof -
  have "alike (flagged fs)
      (rbind (pick_loop n (stk s) []) (\<lambda>(st, tmp). rbind (stack_top st) (\<lambda>xN.
         Inr (push_frame xN (s\<lparr>stk := drain tmp st\<rparr>)))))
      (rbind (pick_loop n (stk t) []) (\<lambda>(st, tmp). rbind (stack_top st) (\<lambda>xN.
         Inr (push_frame xN (t\<lparr>stk := drain tmp st\<rparr>)))))" if "flagged fs s t" for s t n
    using that by (auto simp: flagged_access split_beta intro!: alike_pure)
  with assms show "alike (flagged fs) (op_Pick env s) (op_Pick env t)"
    unfolding op_Pick_def
    by (intro alike_ensure alike_pairs [OF alike_take_num] alike_pure)
  have "alike (flagged fs)
      (rbind (pick_loop n (stk s) []) (\<lambda>(st, tmp). rbind (stack_take st) (\<lambda>(xN, st).
         Inr (push_frame xN (s\<lparr>stk := drain tmp st\<rparr>)))))
      (rbind (pick_loop n (stk t) []) (\<lambda>(st, tmp). rbind (stack_take st) (\<lambda>(xN, st).
         Inr (push_frame xN (t\<lparr>stk := drain tmp st\<rparr>)))))" if "flagged fs s t" for s t n
    using that by (auto simp: flagged_access split_beta intro!: alike_pure)
  with assms show "alike (flagged fs) (op_Roll env s) (op_Roll env t)"
    unfolding op_Roll_def
    by (intro alike_ensure alike_pairs [OF alike_take_num] alike_pure)
qed

lemma alike_sepPos:
  "flagged fs s t \<Longrightarrow> (\<And>x. alike R (f x) (g x)) \<Longrightarrow>
     alike R (rbind (drop_signature env sig (sepPos s)) f) (rbind (drop_signature env sig (sepPos t)) g)"
  "flagged fs s t \<Longrightarrow> (\<And>x. alike R (f x) (g x)) \<Longrightarrow>
     alike R (rbind (drop_signatures env sigs (sepPos s)) f) (rbind (drop_signatures env sigs (sepPos t)) g)"
  by (simp_all add: flagged_access alike_pure)

lemma alike_CheckSig: "flagged fs s t \<Longrightarrow> alike (flagged fs) (op_CheckSig env s) (op_CheckSig env t)"
  unfolding op_CheckSig_def
  by (assumption | rule refl alike_sepPos alike_steps)+

lemma alike_dummy:
  assumes "flagged fs s t"
  shows "alike (flagged fs) (check_dummy env s) (check_dummy env t)"
  using assms unfolding check_dummy_def
  by - (assumption | rule refl alike_steps)+

lemma alike_CheckMultiSig:
  "flagged fs s t \<Longrightarrow> alike (flagged fs) (op_CheckMultiSig env s) (op_CheckMultiSig env t)"
  unfolding op_CheckMultiSig_def Let_def check_dummy_def [symmetric]
  by (assumption | rule refl alike_sepPos alike_rbind [OF alike_dummy] alike_steps)+

lemma alike_CheckVerifies:
  assumes "flagged fs s t"
  shows "alike (flagged fs) (op_CheckSigVerify env s) (op_CheckSigVerify env t)"
    "alike (flagged fs) (op_CheckMultiSigVerify env s) (op_CheckMultiSigVerify env t)"
  unfolding op_CheckSigVerify_def op_CheckMultiSigVerify_def
  by (rule alike_rbind, rule alike_CheckSig [OF assms] alike_CheckMultiSig [OF assms],
      erule alike_verify_top)+

lemmas alike_ops = alike_moves alike_numbers alike_verifies alike_pushdata alike_digests alike_stacks
  alike_picks alike_CheckSig alike_CheckMultiSig alike_CheckVerifies alike_same

lemma alike_exec_op:
  assumes "flagged fs s t"
  shows "alike (flagged fs) (exec_op env opCode data s) (exec_op env opCode data t)"
  unfolding exec_op_def by (rule alike_if refl alike_ops assms)+

lemma alike_size_check: "flagged fs s t \<Longrightarrow> alike (flagged fs) (size_check s) (size_check t)"
  by (simp add: size_check_def flagged_access)

lemma alike_count_op: "flagged fs s t \<Longrightarrow> alike (flagged fs) (count_op opCode s) (count_op opCode t)"
  unfolding count_op_def by (intro alike_if refl alike_add_ops alike_Inr)

text \<open>An operation that is executed, and is not a conditional, gives the same under any flags.\<close>

lemma alike_exec_branch:
  assumes "flagged fs s t" and "\<not> (OP_IF \<le> opCode \<and> opCode \<le> OP_ENDIF)"
  shows "alike (flagged fs) (exec_branch env opCode data must s) (exec_branch env opCode data must t)"
  unfolding exec_branch_def if_not_P [OF assms(2)]
  by (assumption | rule alike_if refl alike_pushdata alike_rbind [OF alike_exec_op] alike_size_check assms(1))+

section \<open>Structured programs\<close>

text \<open>
  A program is a sequence of operations and of conditionals with one or two branches; \<open>neg\<close> is
  \<open>True\<close> for \<open>OP_NOTIF\<close>. An operation is given by its bytes.
\<close>

datatype prog =
    Done
  | Do bytes prog
  | When bool prog prog
  | Either bool prog prog prog

definition if_op :: "bool \<Rightarrow> opcode" where
  "if_op neg = (if neg then OP_NOTIF else OP_IF)"

fun code :: "prog \<Rightarrow> bytes" where
  "code Done = []"
| "code (Do b k) = b @ code k"
| "code (When neg p k) = if_op neg # code p @ OP_ENDIF # code k"
| "code (Either neg p q k) = if_op neg # code p @ OP_ELSE # code q @ OP_ENDIF # code k"

definition is_operation :: "bytes \<Rightarrow> bool" where
  "is_operation b \<longleftrightarrow>
     (case GetScriptOp b of (ok, opCode, data, pc) \<Rightarrow>
        ok \<and> pc = [] \<and> \<not> (OP_IF \<le> opCode \<and> opCode \<le> OP_ENDIF))"

fun well_formed :: "prog \<Rightarrow> bool" where
  "well_formed Done = True"
| "well_formed (Do b k) = (is_operation b \<and> well_formed k)"
| "well_formed (When neg p k) = (well_formed p \<and> well_formed k)"
| "well_formed (Either neg p q k) = (well_formed p \<and> well_formed q \<and> well_formed k)"

text \<open>Reading an operation: the position behind it, the step number and the operation count.\<close>

definition fetch :: "opcode \<Rightarrow> bytes \<Rightarrow> bytes \<Rightarrow> interp \<Rightarrow> script_fault + interp" where
  "fetch opCode data pc s =
     (if length data > MAX_SCRIPT_ELEMENT_SIZE then throw SE_PUSH_SIZE
      else count_op opCode (s\<lparr>stepNo := stepNo s + 1, curPos := pc\<rparr>))"

text \<open>The condition on the stack of a conditional that is executed.\<close>

definition take_condition :: "env \<Rightarrow> bool \<Rightarrow> interp \<Rightarrow> script_fault + bool \<times> interp" where
  "take_condition env neg s =
     (if stk s = [] then throw SE_UNBALANCED_CONDITIONAL
      else rbind (take_frame s) (\<lambda>(x, s).
        if esigversion env = WITNESS_V0 \<and> isSet (eflags env) MINIMALIF \<and>
           (case x of
              Data d \<Rightarrow> length d > 1 \<or> (length d = 1 \<and> d ! 0 \<noteq> 1)
            | Number n \<Rightarrow> getint n > 0xff)
        then throw SE_MINIMALIF
        else Inr (CastToBool x \<noteq> neg, s)))"

text \<open>A branch that is not taken: its operations are counted and nothing else.\<close>

fun skip :: "prog \<Rightarrow> bytes \<Rightarrow> interp \<Rightarrow> script_fault + interp" where
  "skip Done rest s = Inr (s\<lparr>curPos := rest\<rparr>)"
| "skip (Do b k) rest s =
     rbind (fetch (fst (snd (GetScriptOp b))) (fst (snd (snd (GetScriptOp b)))) (code k @ rest) s) (\<lambda>s.
     rbind (size_check s) (skip k rest))"
| "skip (When neg p k) rest s =
     rbind (fetch (if_op neg) [] (code p @ OP_ENDIF # code k @ rest) s) (\<lambda>s.
     rbind (size_check s) (\<lambda>s.
     rbind (skip p (OP_ENDIF # code k @ rest) s) (\<lambda>s.
     rbind (fetch OP_ENDIF [] (code k @ rest) s) (\<lambda>s.
     rbind (size_check s) (skip k rest)))))"
| "skip (Either neg p q k) rest s =
     rbind (fetch (if_op neg) [] (code p @ OP_ELSE # code q @ OP_ENDIF # code k @ rest) s) (\<lambda>s.
     rbind (size_check s) (\<lambda>s.
     rbind (skip p (OP_ELSE # code q @ OP_ENDIF # code k @ rest) s) (\<lambda>s.
     rbind (fetch OP_ELSE [] (code q @ OP_ENDIF # code k @ rest) s) (\<lambda>s.
     rbind (size_check s) (\<lambda>s.
     rbind (skip q (OP_ENDIF # code k @ rest) s) (\<lambda>s.
     rbind (fetch OP_ENDIF [] (code k @ rest) s) (\<lambda>s.
     rbind (size_check s) (skip k rest))))))))"

text \<open>The meaning of a program that is executed; \<open>rest\<close> is the script behind it.\<close>

fun run :: "env \<Rightarrow> prog \<Rightarrow> bytes \<Rightarrow> interp \<Rightarrow> script_fault + interp" where
  "run env Done rest s = Inr (s\<lparr>curPos := rest\<rparr>)"
| "run env (Do b k) rest s =
     (case GetScriptOp b of (ok, opCode, data, pc) \<Rightarrow>
        rbind (fetch opCode data (code k @ rest) s) (\<lambda>s.
        rbind (exec_branch env opCode data True s) (run env k rest)))"
| "run env (When neg p k) rest s =
     rbind (fetch (if_op neg) [] (code p @ OP_ENDIF # code k @ rest) s) (\<lambda>s.
     rbind (take_condition env neg s) (\<lambda>(b, s).
     rbind (size_check s) (\<lambda>s.
     rbind (if b then run env p (OP_ENDIF # code k @ rest) s
            else skip p (OP_ENDIF # code k @ rest) s) (\<lambda>s.
     rbind (fetch OP_ENDIF [] (code k @ rest) s) (\<lambda>s.
     rbind (size_check s) (run env k rest))))))"
| "run env (Either neg p q k) rest s =
     rbind (fetch (if_op neg) [] (code p @ OP_ELSE # code q @ OP_ENDIF # code k @ rest) s) (\<lambda>s.
     rbind (take_condition env neg s) (\<lambda>(b, s).
     rbind (size_check s) (\<lambda>s.
     rbind (if b then run env p (OP_ELSE # code q @ OP_ENDIF # code k @ rest) s
            else skip p (OP_ELSE # code q @ OP_ENDIF # code k @ rest) s) (\<lambda>s.
     rbind (fetch OP_ELSE [] (code q @ OP_ENDIF # code k @ rest) s) (\<lambda>s.
     rbind (size_check s) (\<lambda>s.
     rbind (if b then skip q (OP_ENDIF # code k @ rest) s
            else run env q (OP_ENDIF # code k @ rest) s) (\<lambda>s.
     rbind (fetch OP_ENDIF [] (code k @ rest) s) (\<lambda>s.
     rbind (size_check s) (run env k rest)))))))))"

text \<open>Neither meaning consults the conditional flags.\<close>

lemma alike_fetch: "flagged fs s t \<Longrightarrow> alike (flagged fs) (fetch opCode data pc s) (fetch opCode data pc t)"
  unfolding fetch_def
  by (intro alike_if refl alike_same alike_count_op) (simp add: flagged_access)

lemma alike_skip: "flagged fs s t \<Longrightarrow> alike (flagged fs) (skip p rest s) (skip p rest t)"
proof (induction p arbitrary: rest s t)
  case Done
  then show ?case by (simp add: flagged_access)
next
  case (Do b k)
  show ?case unfolding skip.simps
    by (assumption | rule alike_rbind [OF alike_fetch] alike_rbind [OF alike_size_check]
        Do.IH Do.prems)+
next
  case (When neg p k)
  show ?case unfolding skip.simps
    by (assumption | rule alike_rbind [OF alike_fetch] alike_rbind [OF alike_size_check]
        alike_rbind [OF When.IH(1)] When.IH(2) When.prems)+
next
  case (Either neg p q k)
  show ?case unfolding skip.simps
    by (assumption | rule alike_rbind [OF alike_fetch] alike_rbind [OF alike_size_check]
        alike_rbind [OF Either.IH(1)] alike_rbind [OF Either.IH(2)] Either.IH(3) Either.prems)+
qed

section \<open>The loop implements the structured meaning\<close>

text \<open>A state at a position of the script and under given flags.\<close>

definition place :: "bool list \<Rightarrow> bytes \<Rightarrow> interp \<Rightarrow> interp" where
  "place fs pc s = s\<lparr>condFlags := fs, curPos := pc\<rparr>"

lemma flagged_upd: "flagged fs s (s\<lparr>condFlags := fs\<rparr>)"
  by (simp add: flagged_def)

text \<open>A step that does not consult the flags may be taken before they are set.\<close>

lemma alike_move:
  assumes "alike (flagged fs) m m'"
  shows "rbind m' f = rbind m (\<lambda>s. f (s\<lparr>condFlags := fs\<rparr>))"
  using assms by (cases m) (auto simp: flagged_def)

lemma exec_loop_fetch:
  assumes "GetScriptOp pc = (True, opCode, data, pc')"
  shows "exec_loop env (place fs pc s) =
    rbind (fetch opCode data pc' s) (\<lambda>s.
    rbind (exec_branch env opCode data (False \<notin> set fs) (s\<lparr>condFlags := fs\<rparr>)) (\<lambda>s.
    exec_loop env (s\<lparr>curPos := pc'\<rparr>)))"
proof -
  have ne: "pc \<noteq> []" using assms by auto
  have must: "mustExecuted (s\<lparr>condFlags := fs, curPos := c, stepNo := n\<rparr>) = (False \<notin> set fs)" for c n
    by (simp add: mustExecuted_def count_list_0_iff)
  have step: "exec_step env (place fs pc s) =
    rbind (fetch opCode data pc' (s\<lparr>condFlags := fs\<rparr>))
      (exec_branch env opCode data (False \<notin> set fs))"
    using assms must unfolding exec_step_def fetch_def place_def
    by (simp add: Let_def not_less cong del: rbind_cong)
  also have "\<dots> = rbind (fetch opCode data pc' s)
      (\<lambda>s. exec_branch env opCode data (False \<notin> set fs) (s\<lparr>condFlags := fs\<rparr>))"
    by (rule alike_move [OF alike_fetch [OF flagged_upd]])
  finally have run: "exec_loop env (place fs pc s) = rbind (fetch opCode data pc' s) (\<lambda>s.
    rbind (exec_branch env opCode data (False \<notin> set fs) (s\<lparr>condFlags := fs\<rparr>)) (exec_loop env))"
    using ne by (subst exec_loop.simps) (simp add: place_def rbind_assoc)
  show ?thesis
  proof (cases "fetch opCode data pc' s")
    case (Inr s1)
    then have pos: "curPos s1 = pc'"
      by (auto simp: fetch_def dest!: count_op_same split: if_split_asm)
    show ?thesis
    proof (cases "exec_branch env opCode data (False \<notin> set fs) (s1\<lparr>condFlags := fs\<rparr>)")
      case (Inr s2)
      then have "s2\<lparr>curPos := pc'\<rparr> = s2"
        using exec_branch_progress(1) [OF Inr] pos by simp
      with run \<open>fetch opCode data pc' s = Inr s1\<close> Inr show ?thesis by simp
    qed (use run Inr in simp)
  qed (use run in simp)
qed

text \<open>One iteration of the loop, by the kind of operation and by the flags.\<close>

lemma place_simps [simp]:
  "s\<lparr>condFlags := fs, curPos := pc\<rparr> = place fs pc s" "place fs pc s\<lparr>condFlags := gs\<rparr> = place gs pc s"
  "place fs pc s\<lparr>curPos := pd\<rparr> = place fs pd s"
  by (simp_all add: place_def)

lemma place_curPos [simp]: "place fs pc (s\<lparr>curPos := c\<rparr>) = place fs pc s"
  by (simp add: place_def del: place_simps)

lemma size_check_move:
  "rbind (size_check (s\<lparr>condFlags := fs\<rparr>)) f = rbind (size_check s) (\<lambda>s. f (s\<lparr>condFlags := fs\<rparr>))"
  by (rule alike_move [OF alike_size_check [OF flagged_upd]])

lemma if_op_range: "OP_IF \<le> if_op neg \<and> if_op neg \<le> OP_ENDIF" "OP_PUSHDATA4 < if_op neg"
  by (simp_all add: if_op_def)

lemma loop_operation:
  assumes "GetScriptOp pc = (True, opCode, data, pc')" and "\<not> (OP_IF \<le> opCode \<and> opCode \<le> OP_ENDIF)"
    and "False \<notin> set fs"
  shows "exec_loop env (place fs pc s) =
    rbind (fetch opCode data pc' s) (\<lambda>s. rbind (exec_branch env opCode data True s) (\<lambda>s.
      exec_loop env (place fs pc' s)))"
proof -
  have m: "rbind (exec_branch env opCode data True (s\<lparr>condFlags := fs\<rparr>)) f =
    rbind (exec_branch env opCode data True s) (\<lambda>s. f (s\<lparr>condFlags := fs\<rparr>))" for s f
    by (rule alike_move [OF alike_exec_branch [OF flagged_upd assms(2)]])
  show ?thesis
    unfolding exec_loop_fetch [OF assms(1)] using assms(3) by (simp add: m cong del: rbind_cong)
qed

lemma loop_skipped:
  assumes "GetScriptOp pc = (True, opCode, data, pc')" and "\<not> (OP_IF \<le> opCode \<and> opCode \<le> OP_ENDIF)"
    and "False \<in> set fs"
  shows "exec_loop env (place fs pc s) =
    rbind (fetch opCode data pc' s) (\<lambda>s. rbind (size_check s) (\<lambda>s. exec_loop env (place fs pc' s)))"
proof -
  have b: "exec_branch env opCode data False t = size_check t" for t
    unfolding exec_branch_def if_not_P [OF assms(2)] by simp
  show ?thesis
    unfolding exec_loop_fetch [OF assms(1)] using assms(3)
    by (simp add: b size_check_move cong del: rbind_cong)
qed

lemma loop_if_skipped:
  assumes "False \<in> set fs"
  shows "exec_loop env (place fs (if_op neg # pc) s) =
    rbind (fetch (if_op neg) [] pc s) (\<lambda>s. rbind (size_check s) (\<lambda>s.
      exec_loop env (place (False # fs) pc s)))"
proof -
  have "exec_conditional env (if_op neg) False t = Inr (t\<lparr>condFlags := False # condFlags t\<rparr>)" for t
    by (simp add: exec_conditional_def exec_if_def if_op_def)
  then have b: "exec_branch env (if_op neg) [] False t = size_check (t\<lparr>condFlags := False # condFlags t\<rparr>)" for t
    unfolding exec_branch_def if_P [OF if_op_range(1)] by simp
  show ?thesis
    unfolding exec_loop_fetch [OF GetScriptOp_plain [OF if_op_range(2)]] using assms
    by (simp add: b size_check_move cong del: rbind_cong)
qed

lemma exec_if_condition:
  "exec_conditional env (if_op neg) True (s\<lparr>condFlags := fs\<rparr>) =
     rbind (take_condition env neg s) (\<lambda>(b, s). Inr (s\<lparr>condFlags := b # fs\<rparr>))"
  by (cases "stk s")
    (auto simp: exec_conditional_def exec_if_def if_op_def take_condition_def take_frame_def Let_def)

lemma loop_if:
  assumes "False \<notin> set fs"
  shows "exec_loop env (place fs (if_op neg # pc) s) =
    rbind (fetch (if_op neg) [] pc s) (\<lambda>s. rbind (take_condition env neg s) (\<lambda>(b, s).
      rbind (size_check s) (\<lambda>s. exec_loop env (place (b # fs) pc s))))"
proof -
  have b: "exec_branch env (if_op neg) [] True (s\<lparr>condFlags := fs\<rparr>) =
    rbind (rbind (take_condition env neg s) (\<lambda>(b, s). Inr (s\<lparr>condFlags := b # fs\<rparr>))) size_check" for s
    unfolding exec_branch_def if_P [OF if_op_range(1)] exec_if_condition ..
  show ?thesis
    unfolding exec_loop_fetch [OF GetScriptOp_plain [OF if_op_range(2)]] using assms
    by (simp add: b size_check_move rbind_assoc case_prod_unfold cong del: rbind_cong)
qed

lemma loop_else:
  "exec_loop env (place (b # fs) (OP_ELSE # pc) s) =
    rbind (fetch OP_ELSE [] pc s) (\<lambda>s. rbind (size_check s) (\<lambda>s. exec_loop env (place ((\<not> b) # fs) pc s)))"
proof -
  have b: "exec_branch env OP_ELSE [] m (s\<lparr>condFlags := b # fs\<rparr>) = size_check (s\<lparr>condFlags := (\<not> b) # fs\<rparr>)" for m s
    by (simp add: exec_branch_def exec_conditional_def exec_else_def)
  have g: "GetScriptOp (OP_ELSE # pc) = (True, OP_ELSE, [], pc)"
    by (rule GetScriptOp_plain) simp
  show ?thesis
    unfolding exec_loop_fetch [OF g] by (simp only: b size_check_move) (simp cong del: rbind_cong)
qed

lemma loop_endif:
  "exec_loop env (place (b # fs) (OP_ENDIF # pc) s) =
    rbind (fetch OP_ENDIF [] pc s) (\<lambda>s. rbind (size_check s) (\<lambda>s. exec_loop env (place fs pc s)))"
proof -
  have b: "exec_branch env OP_ENDIF [] m (s\<lparr>condFlags := b # fs\<rparr>) = size_check (s\<lparr>condFlags := fs\<rparr>)" for m s
    by (simp add: exec_branch_def exec_conditional_def exec_endif_def)
  have g: "GetScriptOp (OP_ENDIF # pc) = (True, OP_ENDIF, [], pc)"
    by (rule GetScriptOp_plain) simp
  show ?thesis
    unfolding exec_loop_fetch [OF g] by (simp only: b size_check_move) (simp cong del: rbind_cong)
qed

lemma operation_read:
  assumes "is_operation b" and "length (b @ rest) < 2 ^ 32"
  obtains opCode data where "GetScriptOp b = (True, opCode, data, [])"
    and "GetScriptOp (b @ rest) = (True, opCode, data, rest)"
    and "\<not> (OP_IF \<le> opCode \<and> opCode \<le> OP_ENDIF)"
proof -
  obtain opCode data where g: "GetScriptOp b = (True, opCode, data, [])"
    and n: "\<not> (OP_IF \<le> opCode \<and> opCode \<le> OP_ENDIF)"
    using assms(1) unfolding is_operation_def by (auto split: prod.splits)
  from GetScriptOp_append [OF g assms(2)] g n that show thesis by simp
qed

theorem loop_skips:
  assumes "well_formed p" and "False \<in> set fs" and "length (code p @ rest) < 2 ^ 32"
  shows "exec_loop env (place fs (code p @ rest) s) =
    rbind (skip p rest s) (\<lambda>s. exec_loop env (place fs rest s))"
  using assms
proof (induction p arbitrary: fs rest s)
  case (Do b k)
  from Do.prems have "is_operation b" "length (b @ code k @ rest) < 2 ^ 32" by simp_all
  then obtain opCode data where g: "GetScriptOp b = (True, opCode, data, [])"
    "GetScriptOp (b @ code k @ rest) = (True, opCode, data, code k @ rest)"
    "\<not> (OP_IF \<le> opCode \<and> opCode \<le> OP_ENDIF)"
    by (rule operation_read)
  show ?case
    using Do.prems loop_skipped [OF g(2,3) Do.prems(2)]
    by (simp add: Do.IH g(1) rbind_assoc cong del: rbind_cong)
qed (simp_all add: loop_if_skipped loop_else loop_endif rbind_assoc cong del: rbind_cong)

theorem loop_runs:
  assumes "well_formed p" and "False \<notin> set fs" and "length (code p @ rest) < 2 ^ 32"
  shows "exec_loop env (place fs (code p @ rest) s) =
    rbind (run env p rest s) (\<lambda>s. exec_loop env (place fs rest s))"
  using assms
proof (induction p arbitrary: fs rest s)
  case (Do b k)
  from Do.prems have "is_operation b" "length (b @ code k @ rest) < 2 ^ 32" by simp_all
  then obtain opCode data where g: "GetScriptOp b = (True, opCode, data, [])"
    "GetScriptOp (b @ code k @ rest) = (True, opCode, data, code k @ rest)"
    "\<not> (OP_IF \<le> opCode \<and> opCode \<le> OP_ENDIF)"
    by (rule operation_read)
  show ?case
    using Do.prems loop_operation [OF g(2,3) Do.prems(2)]
    by (simp add: Do.IH g(1) rbind_assoc cong del: rbind_cong)
next
  case (When neg p k)
  have body: "exec_loop env (place (b # fs) (code p @ r) s) =
      rbind (if b then run env p r s else skip p r s) (\<lambda>s. exec_loop env (place (b # fs) r s))"
    if "length (code p @ r) < 2 ^ 32" for b r s
    using When that by (cases b) (simp_all add: loop_skips cong del: rbind_cong)
  show ?case
    using When.prems
    by (simp add: loop_if body loop_endif When.IH(2) rbind_assoc case_prod_unfold cong del: rbind_cong)
next
  case (Either neg p q k)
  have body: "exec_loop env (place (b # fs) (code p @ r) s) =
      rbind (if b then run env p r s else skip p r s) (\<lambda>s. exec_loop env (place (b # fs) r s))"
    if "length (code p @ r) < 2 ^ 32" for b r s
    using Either that by (cases b) (simp_all add: loop_skips cong del: rbind_cong)
  have other: "exec_loop env (place ((\<not> b) # fs) (code q @ r) s) =
      rbind (if b then skip q r s else run env q r s) (\<lambda>s. exec_loop env (place ((\<not> b) # fs) r s))"
    if "length (code q @ r) < 2 ^ 32" for b r s
    using Either that by (cases b) (simp_all add: loop_skips cong del: rbind_cong)
  show ?case
    using Either.prems
    by (simp add: loop_if body other loop_else loop_endif Either.IH(3) rbind_assoc case_prod_unfold
        cong del: rbind_cong)
qed simp

text \<open>The number of operations of a program, and of those that count towards the limit.\<close>

fun operations :: "prog \<Rightarrow> nat" where
  "operations Done = 0"
| "operations (Do b k) = 1 + operations k"
| "operations (When neg p k) = 2 + operations p + operations k"
| "operations (Either neg p q k) = 3 + operations p + operations q + operations k"

fun counted :: "prog \<Rightarrow> nat" where
  "counted Done = 0"
| "counted (Do b k) = (if OP_16 < fst (snd (GetScriptOp b)) then 1 else 0) + counted k"
| "counted (When neg p k) = 2 + counted p + counted k"
| "counted (Either neg p q k) = 3 + counted p + counted q + counted k"

fun short_operands :: "prog \<Rightarrow> bool" where
  "short_operands Done = True"
| "short_operands (Do b k) =
     (length (fst (snd (snd (GetScriptOp b)))) \<le> MAX_SCRIPT_ELEMENT_SIZE \<and> short_operands k)"
| "short_operands (When neg p k) = (short_operands p \<and> short_operands k)"
| "short_operands (Either neg p q k) = (short_operands p \<and> short_operands q \<and> short_operands k)"

text \<open>The state after \<open>n\<close> operations of which \<open>c\<close> count, when nothing else happened.\<close>

definition advance :: "nat \<Rightarrow> nat \<Rightarrow> bytes \<Rightarrow> interp \<Rightarrow> interp" where
  "advance n c pc s = s\<lparr>stepNo := stepNo s + n, opCount := opCount s + c, curPos := pc\<rparr>"

lemma advance_advance: "advance m d pd (advance n c pc s) = advance (n + m) (c + d) pd s"
  by (simp add: advance_def)

lemma advance_simps [simp]:
  "opCount (advance n c pc s) = opCount s + c" "stk (advance n c pc s) = stk s"
  "altStk (advance n c pc s) = altStk s"
  by (simp_all add: advance_def)

lemma fetch_counted:
  assumes "length data \<le> MAX_SCRIPT_ELEMENT_SIZE"
    and "opCount s + (if OP_16 < opCode then 1 else 0) \<le> MAX_OPS_PER_SCRIPT"
  shows "fetch opCode data pc s = Inr (advance 1 (if OP_16 < opCode then 1 else 0) pc s)"
  using assms by (auto simp: fetch_def count_op_def add_ops_def advance_def)

lemma fetch_conditional:
  assumes "opCount s + 1 \<le> MAX_OPS_PER_SCRIPT"
  shows "fetch (if_op neg) [] pc s = Inr (advance 1 1 pc s)"
    "fetch OP_ELSE [] pc s = Inr (advance 1 1 pc s)" "fetch OP_ENDIF [] pc s = Inr (advance 1 1 pc s)"
  using assms fetch_counted [of "[]" s "if_op neg"]
  by (simp_all add: fetch_counted if_op_def)

lemma size_check_ok: "length (stk s) + length (altStk s) \<le> MAX_STACK_SIZE \<Longrightarrow> size_check s = Inr s"
  by (simp add: size_check_def)

lemma skip_counts:
  assumes "short_operands p" and "opCount s + counted p \<le> MAX_OPS_PER_SCRIPT"
    and "length (stk s) + length (altStk s) \<le> MAX_STACK_SIZE"
  shows "skip p rest s = Inr (advance (operations p) (counted p) rest s)"
  using assms
proof (induction p arbitrary: rest s)
  case Done
  then show ?case by (simp add: advance_def)
next
  case (Do b k)
  then show ?case by (simp add: fetch_counted size_check_ok advance_advance)
next
  case (When neg p k)
  then show ?case by (simp add: fetch_conditional size_check_ok advance_advance add_ac)
next
  case (Either neg p q k)
  then show ?case by (simp add: fetch_conditional size_check_ok advance_advance add_ac
        numeral_3_eq_3)
qed

lemma untaken:
  assumes "well_formed p" and "short_operands p" and "False \<in> set fs"
    and "length (code p @ rest) < 2 ^ 32"
    and "opCount s + counted p \<le> MAX_OPS_PER_SCRIPT"
    and "length (stk s) + length (altStk s) \<le> MAX_STACK_SIZE"
  shows "exec_loop env (place fs (code p @ rest) s) =
    exec_loop env (place fs rest (advance (operations p) (counted p) rest s))"
  using loop_skips [OF assms(1,3,4), of env s] by (simp add: skip_counts [OF assms(2,5,6)])

lemma resetAndExecute_run:
  assumes "well_formed p" and "length (code p) \<le> MAX_SCRIPT_SIZE"
  shows "resetAndExecute env (code p) s =
    catch_exceptions (rbind (run env p [] (start (code p) (reset s))) (\<lambda>t. Inr (place [] [] t)))"
proof -
  let ?s = "start (code p) (reset s)"
  have finished: "exec_loop env (place [] [] t) = Inr (place [] [] t)" for t
    by (subst exec_loop.simps) (simp add: place_def del: place_simps)
  have "?s = place [] (code p @ []) ?s"
    by (simp add: place_def start_def reset_def del: place_simps)
  then have "exec_loop env ?s = exec_loop env (place [] (code p @ []) ?s)"
    by (rule arg_cong)
  also have "\<dots> = rbind (run env p [] ?s) (\<lambda>t. exec_loop env (place [] [] t))"
    using assms by (intro loop_runs) (simp_all add: MAX_SCRIPT_SIZE_def)
  also have "\<dots> = rbind (run env p [] ?s) (\<lambda>t. Inr (place [] [] t))"
    by (simp only: finished)
  finally have loop: "exec_loop env ?s = rbind (run env p [] ?s) (\<lambda>t. Inr (place [] [] t))" .
  have empty: "check_flags_empty (place [] [] t) = Inr (place [] [] t)" for t
    by (simp add: check_flags_empty_def place_def del: place_simps)
  show ?thesis
    using assms(2)
    by (simp add: resetAndExecute_def execute_def loop rbind_assoc empty cong del: rbind_cong)
qed

end
