(* ===== verification/StackSpec.thy ===== *)
theory StackSpec
  imports Safety Conditionals
begin

text \<open>
  What the stack operations of \<open>src/script/Interpreter.cpp\<close> promise: a table that gives, for each
  operation that only moves frames, how many frames it takes and which of them it leaves in which
  order; and the exact results of \<open>op_Pick\<close> and \<open>op_Roll\<close>.
\<close>

section \<open>The table\<close>

text \<open>
  The number of frames taken, and what is left in their place, as indices from the top: index 0 is
  the top frame before the operation, and the first index of the list is the top frame after it.
\<close>

definition stack_table :: "(opcode \<times> nat \<times> nat list) list" where
  "stack_table =
     [(OP_NOP, 0, []),
      (OP_2DROP, 2, []),
      (OP_2DUP, 2, [0, 1, 0, 1]),
      (OP_3DUP, 3, [0, 1, 2, 0, 1, 2]),
      (OP_2OVER, 4, [2, 3, 0, 1, 2, 3]),
      (OP_2ROT, 6, [4, 5, 0, 1, 2, 3]),
      (OP_2SWAP, 4, [2, 3, 0, 1]),
      (OP_DROP, 1, []),
      (OP_DUP, 1, [0, 0]),
      (OP_NIP, 2, [0]),
      (OP_OVER, 2, [1, 0, 1]),
      (OP_ROT, 3, [2, 0, 1]),
      (OP_SWAP, 2, [1, 0]),
      (OP_TUCK, 2, [0, 1, 0])]"

definition rearrange :: "nat \<Rightarrow> nat list \<Rightarrow> interp \<Rightarrow> script_fault + interp" where
  "rearrange n idx s =
     (if length (stk s) < n then throw SE_INVALID_STACK_OPERATION
      else Inr (s\<lparr>stk := map (\<lambda>i. stk s ! i) idx @ drop n (stk s)\<rparr>))"

lemma exec_op_moves:
  "exec_op env OP_NOP data s = op_Nop s" "exec_op env OP_2DROP data s = op_2Drop s"
  "exec_op env OP_2DUP data s = op_2Dup s" "exec_op env OP_3DUP data s = op_3Dup s"
  "exec_op env OP_2OVER data s = op_2Over s" "exec_op env OP_2ROT data s = op_2Rot s"
  "exec_op env OP_2SWAP data s = op_2Swap s" "exec_op env OP_DROP data s = op_Drop s"
  "exec_op env OP_DUP data s = op_Dup s" "exec_op env OP_NIP data s = op_Nip s"
  "exec_op env OP_OVER data s = op_Over s" "exec_op env OP_ROT data s = op_Rot s"
  "exec_op env OP_SWAP data s = op_Swap s" "exec_op env OP_TUCK data s = op_Tuck s"
  by (simp_all add: exec_op_def)

lemma stack_prefix:
  "Suc n \<le> length st \<Longrightarrow> \<exists>x st'. st = x # st' \<and> n \<le> length st'"
  by (cases st) auto

text \<open>Below its arity an operation fails; above it, the frames on top are explicit.\<close>

lemma rearrange_eq:
  assumes "length (stk s) < n \<Longrightarrow> r = throw SE_INVALID_STACK_OPERATION"
    and "\<And>xs st. stk s = xs @ st \<Longrightarrow> length xs = n \<Longrightarrow> r = Inr (s\<lparr>stk := map (\<lambda>i. (xs @ st) ! i) idx @ st\<rparr>)"
  shows "r = rearrange n idx s"
proof (cases "length (stk s) < n")
  case False
  then have "stk s = take n (stk s) @ drop n (stk s)" "length (take n (stk s)) = n" by simp_all
  from assms(2) [OF this] have "r = Inr (s\<lparr>stk := map (\<lambda>i. stk s ! i) idx @ drop n (stk s)\<rparr>)"
    by simp
  with False show ?thesis by (simp add: rearrange_def)
qed (simp add: rearrange_def assms(1))

lemma length_eq_counts:
  "length xs = 0 \<longleftrightarrow> xs = []" "length xs = Suc n \<longleftrightarrow> (\<exists>y ys. xs = y # ys \<and> length ys = n)"
  by (simp_all add: length_Suc_conv)

lemmas run_frames = take_frame_def top_frame_def pop_frame_def push_frame_def ensureStackHasEnoughFrames_def

lemma moves_rearrange:
  "op_Nop s = rearrange 0 [] s" "op_2Drop s = rearrange 2 [] s" "op_2Dup s = rearrange 2 [0, 1, 0, 1] s"
  "op_3Dup s = rearrange 3 [0, 1, 2, 0, 1, 2] s" "op_2Over s = rearrange 4 [2, 3, 0, 1, 2, 3] s"
  "op_2Rot s = rearrange 6 [4, 5, 0, 1, 2, 3] s" "op_2Swap s = rearrange 4 [2, 3, 0, 1] s"
  "op_Drop s = rearrange 1 [] s" "op_Dup s = rearrange 1 [0, 0] s" "op_Nip s = rearrange 2 [0] s"
  "op_Over s = rearrange 2 [1, 0, 1] s" "op_Rot s = rearrange 3 [2, 0, 1] s"
  "op_Swap s = rearrange 2 [1, 0] s" "op_Tuck s = rearrange 2 [0, 1, 0] s"
  by (rule rearrange_eq, simp add: op_defs ensureStackHasEnoughFrames_def,
      simp only: frame_counts length_eq_counts, (elim exE conjE)?, simp add: op_defs run_frames)+

lemma exec_op_table:
  assumes "(opCode, n, idx) \<in> set stack_table"
  shows "exec_op env opCode data s = rearrange n idx s"
  using assms unfolding stack_table_def
  by (simp only: list.set insert_iff prod.inject empty_iff simp_thms)
    (elim disjE; elim conjE; simp only: exec_op_moves moves_rearrange)

section \<open>PICK and ROLL\<close>

lemma drain_append: "drain tmp st = rev tmp @ st"
  by (induction tmp arbitrary: st) simp_all

text \<open>Counting down from a positive number takes that many frames but one.\<close>

lemma pick_loop_takes:
  "k \<le> length st \<Longrightarrow> pick_loop (int (Suc k)) st tmp = Inr (drop k st, rev (take k st) @ tmp)"
proof (induction k arbitrary: st tmp)
  case 0
  show ?case by (subst pick_loop.simps) simp
next
  case (Suc k)
  then obtain x st' where st: "st = x # st'" "k \<le> length st'" by (cases st) auto
  then show ?case
    using Suc.IH [of st' "x # tmp"] by (subst pick_loop.simps) (simp add: add.commute)
qed

text \<open>From zero or below it empties the stack and fails the assertion of \<open>take\<close>.\<close>

lemma pick_loop_aborts: "n \<le> 0 \<Longrightarrow> pick_loop n st tmp = Inl Abort"
proof (induction st arbitrary: n tmp)
  case Nil
  then show ?case by (subst pick_loop.simps) simp
next
  case (Cons x st)
  then show ?case by (subst pick_loop.simps) simp
qed

lemma getint_cases:
  assumes "in_int64 v"
  shows "getint v = v \<or> (getint v = 2 ^ 31 - 1 \<and> 2 ^ 31 - 1 \<le> v) \<or> (getint v = - (2 ^ 31) \<and> v \<le> - (2 ^ 31))"
  by (simp add: getint_def)

text \<open>What is left once the index is known to be valid.\<close>

definition picked :: "nat \<Rightarrow> stack \<Rightarrow> stack" where
  "picked i st = st ! i # st"

definition rolled :: "nat \<Rightarrow> stack \<Rightarrow> stack" where
  "rolled i st = st ! i # take i st @ drop (Suc i) st"

definition index_op :: "(nat \<Rightarrow> stack \<Rightarrow> stack) \<Rightarrow> script_num \<Rightarrow> interp \<Rightarrow> script_fault + interp" where
  "index_op f v s =
     (if v \<ge> 2 ^ 31 - 1 then Inl Undefined
      else if v \<ge> int (length (stk s)) \<or> v < -1 then throw SE_INVALID_STACK_OPERATION
      else if v = -1 then Inl Abort
      else Inr (s\<lparr>stk := f (nat v) (stk s)\<rparr>))"

lemma size_t_negative: "- (2 ^ 31) \<le> n \<Longrightarrow> n < 0 \<Longrightarrow> 2 ^ 63 \<le> size_t_of_int n"
proof -
  assume n: "- (2 ^ 31) \<le> n" "n < 0"
  have "n mod 2 ^ 64 = (n + 2 ^ 64) mod 2 ^ 64" by simp
  also have "\<dots> = n + 2 ^ 64" using n by (intro mod_pos_pos_trivial) simp_all
  finally show ?thesis using n by (simp add: size_t_of_int_def)
qed

lemma drop_take_nth: "i < length st \<Longrightarrow> take i st @ st ! i # drop (Suc i) st = st"
  by (simp add: id_take_nth_drop [symmetric])

lemma pick_run:
  assumes "stk s = x # st" and "st \<noteq> []" and "asNumber (isSet (eflags env) MINIMALDATA) x = Inr v"
    and "length st < 2 ^ 31 - 1"
  shows "op_Pick env s = index_op picked v (s\<lparr>stk := st\<rparr>)" (is ?pick)
    and "op_Roll env s = index_op rolled v (s\<lparr>stk := st\<rparr>)" (is ?roll)
proof -
  have len: "\<not> length (stk s) < 2" using assms(1,2) by (cases st) simp_all
  let ?k = "getint v + 1"
  have gi: "getint v = 2 ^ 31 - 1 \<longleftrightarrow> v \<ge> 2 ^ 31 - 1" by (auto simp: getint_def)
  have taken: "take_num env s = Inr (v, s\<lparr>stk := st\<rparr>)"
    using assms(1,3) by (simp add: take_num_def take_frame_def)
  consider (big) "v \<ge> 2 ^ 31 - 1" | (over) "v < 2 ^ 31 - 1" "int (length st) \<le> v"
    | (neg) "v < -1" | (minus) "v = -1" | (ok) "0 \<le> v" "v < int (length st)" by linarith
  then have "?pick \<and> ?roll"
  proof cases
    case big
    then show ?thesis
      using len taken gi
      by (simp_all add: op_Pick_def op_Roll_def ensureStackHasEnoughFrames_def pick_count_def index_op_def)
  next
    case over
    then have g: "getint v = v" by (simp add: getint_def)
    have "size_t_of_int (1 + v) = nat (1 + v)"
      using over by (simp add: size_t_of_int_def)
    then have "length st < size_t_of_int (1 + v)" using over by simp
    then show ?thesis
      using len taken over g
      by (simp_all add: op_Pick_def op_Roll_def ensureStackHasEnoughFrames_def pick_count_def index_op_def)
  next
    case neg
    then have g: "- (2 ^ 31) \<le> 1 + getint v" "1 + getint v < 0" by (simp_all add: getint_def)
    have "length st < size_t_of_int (1 + getint v)" using size_t_negative [OF g] assms(4) by simp
    then show ?thesis
      using len taken neg g gi
      by (simp_all add: op_Pick_def op_Roll_def ensureStackHasEnoughFrames_def pick_count_def index_op_def)
  next
    case minus
    then show ?thesis
      using len taken
      by (simp_all add: op_Pick_def op_Roll_def ensureStackHasEnoughFrames_def pick_count_def index_op_def
          getint_def size_t_of_int_def pick_loop_aborts)
  next
    case ok
    then obtain i where i: "v = int i" "i < length st" by (metis nonneg_int_cases of_nat_less_iff)
    have g: "getint v = v" using i assms(4) by (simp add: getint_def)
    have "size_t_of_int (1 + v) = Suc i" using i assms(4) by (simp add: size_t_of_int_def nat_add_distrib)
    moreover have "pick_loop (1 + v) st [] = Inr (drop i st, rev (take i st))"
      using pick_loop_takes [of i st "[]"] i by simp
    moreover have "drop i st = st ! i # drop (Suc i) st" using i by (simp add: Cons_nth_drop_Suc)
    ultimately show ?thesis
      using len taken i g assms(4)
      by (simp_all add: op_Pick_def op_Roll_def ensureStackHasEnoughFrames_def pick_count_def index_op_def
          drain_append push_frame_def picked_def rolled_def drop_take_nth)
  qed
  then show ?pick ?roll by simp_all
qed

end
