(* ===== verification/Runs.thy ===== *)
theory Runs
  imports StackSpec
begin

text \<open>
  Executions of particular scripts: pushing a number and reading it back, scripts of pushes only,
  scripts that crash, and the operations that the flags can no longer switch on.
\<close>

section \<open>Pushing a number\<close>

lemma push_prefix_short: "n < 76 \<Longrightarrow> push_prefix n = [word_of_nat n]"
  by (simp add: push_prefix_def)

text \<open>The frame that executing the pushed number leaves.\<close>

definition number_frame :: "int \<Rightarrow> bytes \<Rightarrow> frame" where
  "number_frame n vch = (if length vch \<le> 4 then Number n else Data vch)"

lemma not_minimal_single_value:
  assumes "not_minimal_single vch"
  shows "set_vch vch \<in> {1..16} \<union> {-1}"
proof -
  obtain b where b: "vch = [b]" "(1 \<le> b \<and> b \<le> 16) \<or> b = 0x81"
    using assms by (auto simp: not_minimal_single_def split: list.splits)
  have "set_vch ([] @ [b]) = (if 128 \<le> unat b then - int (magnitude [] b) else int (magnitude [] b))"
    by (rule set_vch_snoc) simp
  moreover obtain u where "uint b = int u" "unat b = u"
    using uint_nat by blast
  ultimately show ?thesis
    using b by (auto simp: magnitude_def word_le_nat_alt)
qed

lemma push_number_frame:
  assumes "sn_serialize n = Inr vch" and "\<bar>n\<bar> < 2 ^ 63" and "n \<notin> {-1..16}"
  shows "op_PushData env opCode vch s = Inr (push_frame (number_frame n vch) s)"
proof -
  have "n \<noteq> 0" using assms(3) by auto
  then obtain ms b where m: "sn_serialize n = Inr (ms @ [b])" "minimally_encoded (ms @ [b])"
    using sn_serialize_shape [OF _ assms(2)] by metis
  with assms(1) have vch: "vch = ms @ [b]" "minimally_encoded vch" by simp_all
  have val: "set_vch vch = n" by (rule set_vch_sn_serialize [OF assms(2,1)])
  have "\<not> not_minimal_single vch"
    using not_minimal_single_value [of vch] assms(3) val by auto
  with vch val show ?thesis
    by (auto simp: op_PushData_def push_short_def number_frame_def ScriptNum_of_data_def push_num_def
        push_data_def)
qed

lemma loop_push:
  assumes "length vch < 76" and "vch \<noteq> []" and "length rest < 2 ^ 31" and "False \<notin> set fs"
    and "op_PushData env (word_of_nat (length vch)) vch = (\<lambda>s. Inr (push_frame x s))"
  shows "exec_loop env (place fs (script_push_data [] vch @ rest) s) =
    exec_loop env (place fs rest (push_frame x (s\<lparr>stepNo := stepNo s + 1\<rparr>)))"
proof -
  have w: "unat (word_of_nat (length vch) :: byte) = length vch"
    using assms(1) by (simp add: unat_of_nat)
  have pre: "push_prefix (length vch) = [word_of_nat (length vch)]"
    using assms(1) by (rule push_prefix_short)
  have g: "GetScriptOp (script_push_data [] vch @ rest) = (True, word_of_nat (length vch), vch, rest)"
    using GetScriptOp_push [of vch rest] assms(1,3) pre by (simp add: script_push_data_def)
  have small: "(word_of_nat (length vch) :: byte) < OP_PUSHDATA1"
    using assms(1) w by (simp add: word_less_nat_alt)
  have op: "\<not> (OP_IF \<le> (word_of_nat (length vch) :: byte) \<and> (word_of_nat (length vch) :: byte) \<le> OP_ENDIF)"
    "\<not> OP_16 < (word_of_nat (length vch) :: byte)"
    using assms(1) w by (simp_all add: word_less_nat_alt word_le_nat_alt)
  have "exec_branch env (word_of_nat (length vch)) vch True t = Inr (push_frame x t)" for t
    unfolding exec_branch_def if_not_P [OF op(1)] using small assms(5) by simp
  moreover have "fetch (word_of_nat (length vch)) vch rest s =
      Inr (s\<lparr>stepNo := stepNo s + 1, curPos := rest\<rparr>)"
    using assms(1) op(2) by (simp add: fetch_def count_op_def MAX_SCRIPT_ELEMENT_SIZE_def)
  ultimately show ?thesis
    unfolding loop_operation [OF g op(1) assms(4)]
    by (simp add: place_def push_frame_def del: place_simps)
qed

lemma loop_zero:
  assumes "False \<notin> set fs"
  shows "exec_loop env (place fs (0 # rest) s) =
    exec_loop env (place fs rest (push_frame (Number 0) (s\<lparr>stepNo := stepNo s + 1\<rparr>)))"
proof -
  have op: "\<not> (OP_IF \<le> (0 :: byte) \<and> (0 :: byte) \<le> OP_ENDIF)" by simp
  have "op_PushData env 0 [] t = Inr (push_frame (Number 0) t)" for t
    by (simp add: op_PushData_def not_minimal_single_def push_short_def ScriptNum_of_data_def
        set_vch_def push_num_def)
  then have "exec_branch env 0 [] True t = Inr (push_frame (Number 0) t)" for t
    unfolding exec_branch_def if_not_P [OF op] by simp
  moreover have "fetch 0 [] rest s = Inr (s\<lparr>stepNo := stepNo s + 1, curPos := rest\<rparr>)"
    by (simp add: fetch_def count_op_def)
  ultimately show ?thesis
    unfolding loop_operation [OF GetScriptOp_zero op assms]
    by (simp add: place_def push_frame_def del: place_simps)
qed

lemma exec_op_N:
  "opCode = OP_1NEGATE \<or> (OP_1 \<le> opCode \<and> opCode \<le> OP_16) \<Longrightarrow> exec_op env opCode data s = op_N opCode s"
  by (simp add: exec_op_def) auto

text \<open>An operation that is neither a push nor counted, and one that is counted.\<close>

lemma loop_N:
  assumes "opCode = OP_1NEGATE \<or> (OP_1 \<le> opCode \<and> opCode \<le> OP_16)" and "False \<notin> set fs"
    and "depth s < MAX_STACK_SIZE"
  shows "exec_loop env (place fs (opCode # rest) s) =
    exec_loop env (place fs rest (push_frame (Number (uint opCode - 80)) (s\<lparr>stepNo := stepNo s + 1\<rparr>)))"
proof -
  have r: "OP_PUSHDATA4 < opCode" "\<not> OP_16 < opCode" "\<not> opCode < OP_PUSHDATA1"
    "\<not> (OP_IF \<le> opCode \<and> opCode \<le> OP_ENDIF)"
    using assms(1) by (auto simp: word_less_nat_alt word_le_nat_alt)
  have "fetch opCode [] rest s = Inr (s\<lparr>stepNo := stepNo s + 1, curPos := rest\<rparr>)"
    using r(2) by (simp add: fetch_def count_op_def)
  moreover have "exec_branch env opCode [] True t = Inr (push_frame (Number (uint opCode - 80)) t)"
    if "depth t < MAX_STACK_SIZE" for t
    unfolding exec_branch_def if_not_P [OF r(4)] using r(3) that
    by (simp add: exec_op_N [OF assms(1)] op_N_def push_num_def size_check_def push_frame_def depth_def)
  moreover have "depth (s\<lparr>stepNo := stepNo s + 1, curPos := rest\<rparr>) < MAX_STACK_SIZE"
    using assms(3) by (simp add: depth_def)
  ultimately show ?thesis
    unfolding loop_operation [OF GetScriptOp_plain [OF r(1)] r(4) assms(2)]
    by (simp add: place_def push_frame_def del: place_simps)
qed

lemma loop_push_int64:
  assumes "script_push_int64 [] n = Inr script" and "in_int64 n" and "sn_serialize n = Inr vch"
    and "False \<notin> set fs" and "depth s < MAX_STACK_SIZE" and "length rest < 2 ^ 31"
  shows "exec_loop env (place fs (script @ rest) s) =
    exec_loop env (place fs rest (push_frame (number_frame n vch) (s\<lparr>stepNo := stepNo s + 1\<rparr>)))"
proof -
  have "n \<noteq> - (2 ^ 63)" using assms(3) by (auto simp: sn_serialize_def)
  then have n: "\<bar>n\<bar> < 2 ^ 63" using assms(2) by (auto simp: in_int64_def)
  consider "n = 0" | "n = -1 \<or> (1 \<le> n \<and> n \<le> 16)" | "n \<notin> {-1..16}" by force
  then show ?thesis
  proof cases
    case 1
    then have "script = [0]" "vch = []" using assms(1,3) by (simp_all add: script_push_int64_def)
    with 1 assms(4) loop_zero [of fs env rest s] show ?thesis by (simp add: number_frame_def)
  next
    case 2
    define opCode :: opcode where "opCode = (if n = -1 then OP_1NEGATE else word_of_int (n + (uint OP_1 - 1)))"
    have script: "script = [opCode]" using assms(1) 2 by (auto simp: script_push_int64_def opCode_def)
    have w: "uint (word_of_int m :: byte) = m" if "0 \<le> m" "m < 256" for m
      using that by (simp add: uint_word_of_int)
    have "uint OP_1 - 1 = 80" by simp
    then have u: "uint opCode = n + 80"
      using 2 w [of "n + 80"] unfolding opCode_def by auto
    then have "unat opCode = nat (n + 80)" by (simp add: unat_eq_nat_uint)
    then have op: "opCode = OP_1NEGATE \<or> (OP_1 \<le> opCode \<and> opCode \<le> OP_16)"
      using 2 by (auto simp: word_le_nat_alt opCode_def)
    have "length vch \<le> Suc 0"
      using length_sn_serialize [OF n assms(3), of 0] 2 by auto
    with script u loop_N [OF op assms(4,5), of env rest] show ?thesis by (simp add: number_frame_def)
  next
    case 3
    then have script: "script = script_push_data [] vch" using assms(1,3)
      by (auto simp: script_push_int64_def)
    have "length vch \<le> 8" by (rule sn_serialize_length [OF assms(2,3)])
    moreover have "vch \<noteq> []"
      using set_vch_sn_serialize [OF n assms(3)] 3 by (auto simp: set_vch_def)
    ultimately show ?thesis
      unfolding script
      by (intro loop_push assms ext push_number_frame n 3) simp_all
  qed
qed

lemma start_place: "start script (reset s) = place [] script (start script (reset s))"
  by (simp add: place_def start_def reset_def del: place_simps)

lemma exec_loop_finished [simp]: "exec_loop env (place fs [] s) = Inr (place fs [] s)"
  by (subst exec_loop.simps) (simp add: place_def del: place_simps)

lemma resetAndExecute_place:
  assumes "length script \<le> MAX_SCRIPT_SIZE"
  shows "resetAndExecute env script s =
    catch_exceptions (rbind (exec_loop env (place [] script (start script (reset s)))) check_flags_empty)"
  using assms by (simp add: resetAndExecute_def execute_def start_place [symmetric])

lemma place_access [simp]:
  "stk (place fs pc s) = stk s" "altStk (place fs pc s) = altStk s" "opCount (place fs pc s) = opCount s"
  "stepNo (place fs pc s) = stepNo s" "sepPos (place fs pc s) = sepPos s"
  "condFlags (place fs pc s) = fs" "curPos (place fs pc s) = pc"
  by (simp_all add: place_def del: place_simps)

lemma check_flags_place [simp]: "check_flags_empty (place [] pc s) = Inr (place [] pc s)"
  by (simp add: check_flags_empty_def place_def del: place_simps)

lemma run_push_int64:
  assumes "script_push_int64 [] n = Inr script" and "in_int64 n" and "sn_serialize n = Inr vch"
  shows "\<exists>t. resetAndExecute env script s = Succeeded t \<and> stk t = [number_frame n vch]"
proof -
  have d: "depth (start script (reset s)) < MAX_STACK_SIZE" by (simp add: MAX_STACK_SIZE_def)
  have len: "length script \<le> MAX_SCRIPT_SIZE"
    using assms(1) sn_serialize_length [OF assms(2,3)] assms(3)
    by (auto simp: script_push_int64_def script_push_data_def push_prefix_def MAX_SCRIPT_SIZE_def
        split: if_split_asm)
  show ?thesis
    using loop_push_int64 [OF assms _ d, of "[]" "[]" env]
    by (simp add: resetAndExecute_place [OF len] push_frame_def start_def reset_def)
qed

section \<open>Scripts of pushes only\<close>

lemma loop_zeros:
  "False \<notin> set fs \<Longrightarrow> exec_loop env (place fs (replicate n 0) s) =
     Inr (place fs [] (s\<lparr>stepNo := stepNo s + n, stk := replicate n (Number 0) @ stk s\<rparr>))"
proof (induction n arbitrary: s)
  case (Suc n)
  then show ?case by (simp add: loop_zero push_frame_def replicate_app_Cons_same)
qed simp

section \<open>Scripts that crash\<close>

lemma loop_counted:
  assumes "OP_16 < opCode" and "\<not> (OP_IF \<le> opCode \<and> opCode \<le> OP_ENDIF)" and "False \<notin> set fs"
    and "opCount s < MAX_OPS_PER_SCRIPT"
  shows "exec_loop env (place fs (opCode # rest) s) =
    rbind (exec_op env opCode [] (advance 1 1 rest s)) (\<lambda>t. rbind (size_check t) (\<lambda>t.
      exec_loop env (place fs rest t)))"
proof -
  have r: "OP_PUSHDATA4 < opCode" "\<not> opCode < OP_PUSHDATA1"
    using assms(1) by (auto simp: word_less_nat_alt)
  have f: "fetch opCode [] rest s = Inr (advance 1 1 rest s)"
    using assms(1,4) by (subst fetch_counted) simp_all
  have b: "exec_branch env opCode [] True t = rbind (exec_op env opCode [] t) size_check" for t
    unfolding exec_branch_def if_not_P [OF assms(2)] using r(2) by simp
  show ?thesis
    unfolding loop_operation [OF GetScriptOp_plain [OF r(1)] assms(2,3)] f
    by (simp add: b rbind_assoc cong del: rbind_cong)
qed

lemma exec_op_crashing:
  "exec_op env OP_DUP data s = op_Dup s" "exec_op env OP_ADD data s = op_Add env s"
  "exec_op env OP_PICK data s = op_Pick env s" "exec_op env OP_CHECKMULTISIG data s = op_CheckMultiSig env s"
  by (simp_all add: exec_op_def)

lemma run_pick_negative: "resetAndExecute env [OP_1, OP_1NEGATE, OP_PICK] s = Crashed Abort"
proof -
  let ?s = "start [OP_1, OP_1NEGATE, OP_PICK] (reset s)"
  have d: "depth ?s = 0" "opCount ?s = 0" "stk ?s = []" by (simp_all add: start_def reset_def depth_def)
  let ?t = "push_frame (Number (-1)) (push_frame (Number 1) (?s\<lparr>stepNo := Suc 0\<rparr>)\<lparr>stepNo := Suc (Suc 0)\<rparr>)"
  have "op_Pick env (advance 1 1 [] ?t) = Inl Abort"
    using d by (subst pick_run(1) [where x = "Number (-1)" and st = "[Number 1]" and v = "-1"])
      (simp_all add: push_frame_def index_op_def advance_def)
  moreover have "exec_loop env (place [] [OP_1, OP_1NEGATE, OP_PICK] ?s) =
      exec_loop env (place [] [OP_PICK] ?t)"
    using d by (simp add: loop_N depth_def push_frame_def MAX_STACK_SIZE_def start_def reset_def)
  ultimately show ?thesis
    using d by (subst resetAndExecute_place)
      (simp_all add: MAX_SCRIPT_SIZE_def loop_counted exec_op_crashing push_frame_def MAX_OPS_PER_SCRIPT_def)
qed

lemma run_multisig_empty: "resetAndExecute env [OP_0, OP_CHECKMULTISIG] s = Crashed Abort"
proof -
  have "op_CheckMultiSig env t = Inl Abort" if "stk t = [Number 0]" "opCount t \<le> 201" for t
    using that by (simp add: op_CheckMultiSig_def ensureStackHasEnoughFrames_def take_num_def
        take_frame_def getint_def add_ops_def MAX_OPS_PER_SCRIPT_def)
  then show ?thesis
    by (subst resetAndExecute_place)
      (simp_all add: MAX_SCRIPT_SIZE_def loop_zero loop_counted exec_op_crashing push_frame_def
        MAX_OPS_PER_SCRIPT_def start_def reset_def)
qed

text \<open>Doubling a number: \<open>operator+\<close> on the numbers of the stack is not checked.\<close>

lemma loop_double:
  assumes "stk s = Number v # st" and "altStk s = []" and "length st \<le> 100" and "opCount s + 2 \<le> MAX_OPS_PER_SCRIPT"
  shows "exec_loop env (place [] (OP_DUP # OP_ADD # rest) s) =
    (if in_int64 (v + v)
     then exec_loop env (place [] rest (advance 2 2 rest (s\<lparr>stk := Number (v + v) # st\<rparr>)))
     else Inl Undefined)"
proof -
  have dup: "op_Dup t = Inr (t\<lparr>stk := Number v # Number v # st\<rparr>)" if "stk t = Number v # st" for t
    using that by (simp add: op_Dup_def run_frames)
  have add: "op_Add env t = (if in_int64 (v + v) then Inr (t\<lparr>stk := Number (v + v) # st\<rparr>) else Inl Undefined)"
    if "stk t = Number v # Number v # st" for t
    using that by (simp add: op_Add_def take_num_def run_frames sn_plus_def push_num_def)
  show ?thesis
    using assms
    by (simp add: loop_counted exec_op_crashing dup add size_check_ok MAX_STACK_SIZE_def advance_def)
      (cases s, simp add: place_def del: place_simps)
qed

definition doublings :: "nat \<Rightarrow> bytes" where
  "doublings k = concat (replicate k [OP_DUP, OP_ADD])"

lemma loop_doublings:
  assumes "stk s = [Number v]" and "0 < v" and "in_int64 v" and "altStk s = []"
    and "opCount s + 2 * k \<le> MAX_OPS_PER_SCRIPT"
  shows "exec_loop env (place [] (doublings k) s) = Inl Undefined \<longleftrightarrow> 2 ^ 63 \<le> v * 2 ^ k"
  using assms
proof (induction k arbitrary: s v)
  case 0
  then show ?case by (simp add: doublings_def in_int64_def)
next
  case (Suc k)
  let ?t = "advance 2 2 (doublings k) (s\<lparr>stk := [Number (v + v)]\<rparr>)"
  have step: "exec_loop env (place [] (doublings (Suc k)) s) =
      (if in_int64 (v + v) then exec_loop env (place [] (doublings k) ?t) else Inl Undefined)"
    using loop_double [of s v "[]" env "doublings k"] Suc.prems by (simp add: doublings_def)
  show ?case
  proof (cases "in_int64 (v + v)")
    case True
    then have "exec_loop env (place [] (doublings k) ?t) = Inl Undefined \<longleftrightarrow> 2 ^ 63 \<le> (v + v) * 2 ^ k"
      using Suc.prems by (intro Suc.IH) simp_all
    with step True show ?thesis by (simp add: mult.assoc)
  next
    case False
    then have "2 ^ 63 \<le> v * 2" using Suc.prems(2) by (simp add: in_int64_def)
    moreover have "v * 2 \<le> v * 2 ^ Suc k" using Suc.prems(2) by simp
    ultimately have "2 ^ 63 \<le> v * 2 ^ Suc k" by linarith
    with step False show ?thesis by simp
  qed
qed

lemma run_doublings:
  assumes "k \<le> 100"
  shows "resetAndExecute env (OP_1 # doublings k) s = Crashed Undefined \<longleftrightarrow> 63 \<le> k"
proof -
  let ?script = "OP_1 # doublings k"
  let ?s = "start ?script (reset s)"
  let ?t = "push_frame (Number 1) (?s\<lparr>stepNo := Suc 0\<rparr>)"
  have len: "length ?script \<le> MAX_SCRIPT_SIZE"
    using assms by (simp add: doublings_def MAX_SCRIPT_SIZE_def length_concat sum_list_replicate)
  have first: "exec_loop env (place [] ?script ?s) = exec_loop env (place [] (doublings k) ?t)"
    by (simp add: loop_N depth_def MAX_STACK_SIZE_def start_def reset_def push_frame_def)
  have "exec_loop env (place [] (doublings k) ?t) = Inl Undefined \<longleftrightarrow> (2 :: int) ^ 63 \<le> 1 * 2 ^ k"
    using assms by (intro loop_doublings)
      (simp_all add: push_frame_def in_int64_def start_def reset_def MAX_OPS_PER_SCRIPT_def)
  moreover have "(2 :: int) ^ 63 \<le> 1 * 2 ^ k \<longleftrightarrow> 63 \<le> k"
    unfolding mult_1 by (rule power_increasing_iff) simp
  ultimately have crash: "exec_loop env (place [] ?script ?s) = Inl Undefined \<longleftrightarrow> 63 \<le> k"
    unfolding first by simp
  have "resetAndExecute env ?script s = Crashed Undefined \<longleftrightarrow>
      exec_loop env (place [] ?script ?s) = Inl Undefined"
    using len by (simp add: resetAndExecute_def execute_crashes start_place [symmetric])
  with crash show ?thesis by simp
qed

section \<open>Flags that cannot be set\<close>

text \<open>
  The flags beyond bit 7 do not fit the eight bits that a \<open>Flags\<close> object holds, so the operations
  they switch on stay what they were before: they do nothing.
\<close>

lemma timelocks_off:
  "exec_op env OP_CHECKLOCKTIMEVERIFY data s = Inr s" "exec_op env OP_CHECKSEQUENCEVERIFY data s = Inr s"
  by (simp_all add: exec_op_def op_CheckLockTimeVerify_def op_CheckSequenceVerify_def)

end
