(* ===== verification/SigOps.thy ===== *)
theory SigOps
  imports Conditionals "HOL-Library.Sublist"
begin

text \<open>
  What the signature operations of \<open>src/script/Interpreter.cpp\<close> compute: \<open>FindAndDelete\<close> as the
  deletion of occurrences of a needle, and the matching loop of \<open>op_CheckMultiSig\<close> as the search for
  an order-preserving assignment of signatures to keys.
\<close>

section \<open>FindAndDelete\<close>

text \<open>\<open>deleted n h k r\<close>: \<open>r\<close> is \<open>h\<close> without \<open>k\<close> disjoint occurrences of \<open>n\<close>.\<close>

inductive deleted :: "bytes \<Rightarrow> bytes \<Rightarrow> nat \<Rightarrow> bytes \<Rightarrow> bool" for n where
  deleted_Nil: "deleted n [] 0 []"
| deleted_keep: "deleted n h k r \<Longrightarrow> deleted n (b # h) k (b # r)"
| deleted_drop: "deleted n h k r \<Longrightarrow> deleted n (n @ h) (Suc k) r"

lemma deleted_refl: "deleted n h 0 h"
  by (induction h) (auto intro: deleted.intros)

lemma deleted_keeps: "deleted n h k r \<Longrightarrow> deleted n (x @ h) k (x @ r)"
  by (induction x) (auto intro: deleted.intros)

lemma deleted_length: "deleted n h k r \<Longrightarrow> length h = length r + k * length n"
  by (induction rule: deleted.induct) auto

text \<open>The inner loop drops copies of the needle from the front.\<close>

lemma skip_needle_copies:
  "skip_needle needle pc found = (pc', found') \<Longrightarrow>
     found \<le> found' \<and> pc = concat (replicate (found' - found) needle) @ pc'"
proof (induction needle pc found rule: skip_needle.induct)
  case (1 needle pc found)
  show ?case
  proof (cases "needle \<noteq> [] \<and> length needle < length pc \<and> take (length needle) pc = needle")
    case True
    then have "skip_needle needle (drop (length needle) pc) (found + 1) = (pc', found')"
      using "1.prems" by (subst (asm) skip_needle.simps) simp
    with 1 True have IH: "found + 1 \<le> found'"
      "drop (length needle) pc = concat (replicate (found' - (found + 1)) needle) @ pc'" by auto
    have "pc = needle @ drop (length needle) pc"
      using True append_take_drop_id [of "length needle" pc] by simp
    moreover have "found' - found = Suc (found' - (found + 1))" using IH(1) by simp
    ultimately show ?thesis using IH by simp
  next
    case False
    then show ?thesis using "1.prems" by (subst (asm) skip_needle.simps) auto
  qed
qed

lemma deleted_copies: "deleted n h k r \<Longrightarrow> deleted n (concat (replicate m n) @ h) (m + k) r"
proof (induction m)
  case (Suc m)
  then have "deleted n (n @ (concat (replicate m n) @ h)) (Suc (m + k)) r"
    by (intro deleted_drop) simp
  then show ?case by simp
qed simp

lemma fad_loop_deleted:
  assumes "fad_loop needle pc (x @ pc) result found = (result', pc2', found')"
  shows "\<exists>y. found \<le> found' \<and> result' @ pc2' = result @ x @ y \<and> deleted needle pc (found' - found) y"
  using assms
proof (induction pc arbitrary: x result found rule: measure_induct_rule [of length])
  case (less pc)
  obtain pc1 found1 where sk: "skip_needle needle pc found = (pc1, found1)" by force
  obtain ok opCode data pc3 where op: "GetScriptOp pc1 = (ok, opCode, data, pc3)"
    by (cases "GetScriptOp pc1")
  note copies = skip_needle_copies [OF sk]
  have unfolded: "fad_loop needle pc (x @ pc) result found =
    (if ok then fad_loop needle pc3 pc1 (result @ x) found1 else (result @ x, pc1, found1))"
    by (subst fad_loop.simps) (simp add: sk op Let_def split: bool.splits)
  show ?case
  proof (cases ok)
    case True
    with op obtain z where z: "pc1 = z @ pc3" by (auto elim: GetScriptOp_suffix)
    have "fad_loop needle pc3 (z @ pc3) (result @ x) found1 = (result', pc2', found')"
      using less.prems unfolded True z by simp
    moreover have "length pc3 < length pc"
      using GetScriptOp_length [of pc1] op True skip_needle_length [OF sk] by fastforce
    ultimately obtain y where y: "found1 \<le> found'" "result' @ pc2' = (result @ x) @ z @ y"
      "deleted needle pc3 (found' - found1) y" using less.IH by blast
    have "deleted needle pc1 (found' - found1) (z @ y)" unfolding z by (rule deleted_keeps [OF y(3)])
    then have "deleted needle pc ((found1 - found) + (found' - found1)) (z @ y)"
      using deleted_copies copies by metis
    moreover have "(found1 - found) + (found' - found1) = found' - found" using copies y(1) by simp
    ultimately show ?thesis using y copies by (intro exI [of _ "z @ y"]) simp
  next
    case False
    with less.prems unfolded have r: "result' = result @ x" "pc2' = pc1" "found' = found1" by simp_all
    have "deleted needle pc ((found1 - found) + 0) pc1"
      using deleted_copies [OF deleted_refl] copies by metis
    with r copies show ?thesis by auto
  qed
qed

lemma FindAndDelete_deleted:
  assumes "FindAndDelete haystack needle = (k, r)"
  shows "deleted needle haystack k r"
proof (cases "needle = []")
  case True
  with assms show ?thesis by (auto simp: FindAndDelete_def intro: deleted_refl)
next
  case False
  obtain result pc2 found where l: "fad_loop needle haystack haystack [] 0 = (result, pc2, found)"
    by (cases "fad_loop needle haystack haystack [] 0")
  with fad_loop_deleted [of needle haystack "[]" "[]" 0 result pc2 found]
  have "deleted needle haystack found (result @ pc2)" by auto
  with l False assms show ?thesis
    by (auto simp: FindAndDelete_def intro: deleted_refl split: if_split_asm)
qed

text \<open>
  The test \<open>pc + needle.size() < end\<close> leaves out the last position: no occurrence at the very end of
  the script is ever found.
\<close>

lemma fad_loop_short:
  "length pc \<le> length needle \<Longrightarrow> snd (snd (fad_loop needle pc pc2 result found)) = found"
proof (induction pc arbitrary: pc2 result rule: measure_induct_rule [of length])
  case (less pc)
  then have sk: "skip_needle needle pc found = (pc, found)" by (subst skip_needle.simps) simp
  obtain ok opCode data pc3 where op: "GetScriptOp pc = (ok, opCode, data, pc3)"
    by (cases "GetScriptOp pc")
  show ?case
  proof (cases ok)
    case True
    then have "length pc3 < length pc" using op GetScriptOp_length [of pc opCode data pc3] by simp
    with less True op show ?thesis by (subst fad_loop.simps) (simp add: sk Let_def)
  next
    case False
    with op show ?thesis by (subst fad_loop.simps) (simp add: sk Let_def)
  qed
qed

lemma FindAndDelete_end:
  assumes "length haystack \<le> length needle"
  shows "FindAndDelete haystack needle = (0, haystack)"
  using fad_loop_short [OF assms, of haystack "[]" 0]
  by (auto simp: FindAndDelete_def split: prod.splits)

section \<open>Matching signatures to keys\<close>

text \<open>
  The loop walks over the keys and gives up when more signatures than keys are left. It finds an
  assignment that keeps the order exactly when there is one.
\<close>

lemma multisig_loop_emb:
  assumes "\<And>sig. sig \<in> set sigs \<Longrightarrow> CheckSignatureEncoding (Data sig) (eflags env) = Inr True"
    and "\<And>key. key \<in> set keys \<Longrightarrow> CheckPubKeyEncoding key (eflags env) (esigversion env) = Inr True"
    and "\<And>sig key. sig \<in> set sigs \<Longrightarrow> key \<in> set keys \<Longrightarrow>
      CheckSig (echecker env) sig key scriptCode (esigversion env) = Inr (valid sig key)"
    and "length sigs \<le> length keys"
  shows "multisig_loop env scriptCode sigs keys = Inr (list_emb valid sigs keys)"
  using assms
proof (induction keys arbitrary: sigs)
  case Nil
  then show ?case by simp
next
  case (Cons key keys)
  show ?case
  proof (cases sigs)
    case Nil
    then show ?thesis by simp
  next
    case (Cons sig sigs')
    have checks: "CheckSignatureEncoding (Data sig) (eflags env) = Inr True"
      "CheckPubKeyEncoding key (eflags env) (esigversion env) = Inr True"
      "CheckSig (echecker env) sig key scriptCode (esigversion env) = Inr (valid sig key)"
      using Cons.prems Cons by simp_all
    let ?left = "if valid sig key then sigs' else sigs"
    have emb: "list_emb valid sigs (key # keys) \<longleftrightarrow> list_emb valid ?left keys"
      using Cons list_emb_Cons_iff1 [of valid sig key sigs' keys] list_emb_Cons_iff2 [of valid sig key sigs' keys]
      by auto
    have step: "multisig_loop env scriptCode sigs (key # keys) =
        (if length ?left > length keys then Inr False else multisig_loop env scriptCode ?left keys)"
      using Cons checks by simp
    show ?thesis
    proof (cases "length ?left > length keys")
      case True
      then have "\<not> list_emb valid ?left keys" using list_emb_length by fastforce
      with True step emb show ?thesis by simp
    next
      case False
      have "multisig_loop env scriptCode ?left keys = Inr (list_emb valid ?left keys)"
        using Cons.prems Cons False by (intro Cons.IH) (auto split: if_split_asm)
      with False step emb show ?thesis by simp
    qed
  qed
qed

end
