(* ===== verification/InterpreterProps.thy ===== *)
theory InterpreterProps
  imports Runs SigOps
begin

text \<open>
  The properties of the script interpreter, each with a run that shows its hypotheses hold.
\<close>

text \<open>
  An environment for concrete runs: no flags, a checker that rejects every signature and every
  time lock, digests of zero bytes.
\<close>

definition sample_env :: env where
  "sample_env =
     \<lparr>eflags = 0,
      echecker = \<lparr>CheckSig = (\<lambda>sig pubKey code v. Inr False), CheckLockTime = (\<lambda>n. Inr False),
        CheckSequence = (\<lambda>n. Inr False)\<rparr>,
      esigversion = BASE,
      ehash = \<lparr>RIPEMD160 = (\<lambda>d. replicate 20 0), SHA1 = (\<lambda>d. replicate 20 0),
        SHA256 = (\<lambda>d. replicate 32 0), Hash160 = (\<lambda>d. replicate 20 0), Hash256 = (\<lambda>d. replicate 32 0)\<rparr>\<rparr>"

lemma sample_env_calm: "env_calm sample_env"
  by (simp add: sample_env_def env_calm_def)

text \<open>C1: the loop of \<open>Interpreter::execute\<close>, with its vector of conditional flags, computes the
  structured meaning of a program: a conditional takes the branch that the top of the stack
  chooses, and counts the operations of the other branch without executing them. Failures, error
  codes and the final stacks are the same.\<close>

theorem execute_structured:
  assumes "well_formed p" and "length (code p) \<le> MAX_SCRIPT_SIZE"
  shows "resetAndExecute env (code p) s =
    catch_exceptions (rbind (run env p [] (start (code p) (reset s))) (\<lambda>t. Inr (place [] [] t)))"
  using assms by (rule resetAndExecute_run)

definition sample_prog :: prog where
  "sample_prog = Do [OP_0] (Either False (Do [OP_RETURN] Done) (Do [OP_2] Done) Done)"

lemma sample_prog_ok: "well_formed sample_prog \<and> length (code sample_prog) \<le> MAX_SCRIPT_SIZE"
  by (simp add: sample_prog_def is_operation_def GetScriptOp_def operand_size_def MAX_SCRIPT_SIZE_def)

theorem execute_structured_witness:
  "code sample_prog = [OP_0, OP_IF, OP_RETURN, OP_ELSE, OP_2, OP_ENDIF] \<and>
   resetAndExecute sample_env (code sample_prog) new_interp =
     catch_exceptions (rbind (run sample_env sample_prog [] (start (code sample_prog) (reset new_interp)))
       (\<lambda>t. Inr (place [] [] t)))"
  using execute_structured [of sample_prog sample_env new_interp] sample_prog_ok
  by (simp add: sample_prog_def if_op_def)

text \<open>C5: an execution crashes (fails an assertion or has undefined behaviour) only after reaching an
  executed \<open>OP_1ADD\<close>, \<open>OP_1SUB\<close>, \<open>OP_ADD\<close>, \<open>OP_SUB\<close>, \<open>OP_PICK\<close>, \<open>OP_ROLL\<close> or signature
  operation; every other operation ends with a result or an error code on every stack.\<close>

theorem crash_at_risky_operation:
  assumes "env_calm env" and "resetAndExecute env script s = Crashed f"
  shows "\<exists>t. steps env (start script (reset s)) t \<and> at_risk t"
  using assms resetAndExecute_calm by blast

theorem crash_at_risky_operation_witness:
  "\<exists>t. steps sample_env (start [OP_1, OP_1NEGATE, OP_PICK] (reset new_interp)) t \<and> at_risk t"
  using crash_at_risky_operation [OF sample_env_calm run_pick_negative] .

text \<open>C6: a successful execution of a fresh interpreter counted at most 201 operations, took at most one
  step for each byte of the script, closed every conditional, and its two stacks together hold at
  most 1000 frames more than the script has bytes.\<close>

theorem success_bounds:
  assumes "resetAndExecute env script s = Succeeded t"
  shows "length script \<le> MAX_SCRIPT_SIZE \<and> stepNo t \<le> length script \<and> opCount t \<le> MAX_OPS_PER_SCRIPT \<and>
    depth t \<le> MAX_STACK_SIZE + length script \<and> condFlags t = [] \<and> curPos t = []"
  using resetAndExecute_bounds [OF assms] by blast

text \<open>Pushes of \<open>OP_0\<close> leave the loop body by \<open>continue\<close> and so skip the check of the stack size:
  a script of up to 10000 of them succeeds and leaves as many frames, ten times the limit.\<close>

lemma pushes_skip_stack_limit:
  assumes "n \<le> MAX_SCRIPT_SIZE"
  shows "\<exists>t. resetAndExecute env (replicate n OP_0) s = Succeeded t \<and> stk t = replicate n (Number 0)"
  using assms by (simp add: resetAndExecute_place loop_zeros) (simp add: start_def reset_def)

lemma pushes_skip_stack_limit_witness:
  "MAX_STACK_SIZE < 10000 \<and>
   (\<exists>t. resetAndExecute sample_env (replicate 10000 OP_0) new_interp = Succeeded t \<and>
        stk t = replicate 10000 (Number 0))"
  using pushes_skip_stack_limit [of 10000 sample_env new_interp]
  by (simp add: MAX_SCRIPT_SIZE_def MAX_STACK_SIZE_def)

lemma push_two: "\<exists>t. resetAndExecute sample_env [OP_0, OP_0] new_interp = Succeeded t"
  using loop_zeros [of "[]" sample_env 2] by (simp add: resetAndExecute_place MAX_SCRIPT_SIZE_def numeral_2_eq_2)

theorem success_bounds_witness:
  "\<exists>t. resetAndExecute sample_env [OP_0, OP_0] new_interp = Succeeded t \<and> opCount t \<le> MAX_OPS_PER_SCRIPT \<and>
     depth t \<le> MAX_STACK_SIZE + 2"
  using push_two success_bounds [of sample_env "[OP_0, OP_0]" new_interp] by fastforce

text \<open>C7: the operations that only move frames do what their entry in the table says: with too few frames
  they fail with \<open>INVALID_STACK_OPERATION\<close>, and otherwise they replace the frames they take by the
  listed ones and change nothing else.\<close>

theorem stack_operations_table:
  assumes "(opCode, n, idx) \<in> set stack_table"
  shows "exec_op env opCode data s =
    (if length (stk s) < n then throw SE_INVALID_STACK_OPERATION
     else Inr (s\<lparr>stk := map (\<lambda>i. stk s ! i) idx @ drop n (stk s)\<rparr>))"
  using exec_op_table [OF assms] by (simp add: rearrange_def)

theorem stack_operations_table_witness:
  "exec_op sample_env OP_2ROT [] (new_interp\<lparr>stk := map Number [6, 5, 4, 3, 2, 1, 0]\<rparr>) =
     Inr (new_interp\<lparr>stk := map Number [2, 1, 6, 5, 4, 3, 0]\<rparr>)"
  by (subst stack_operations_table [of OP_2ROT 6 "[4, 5, 0, 1, 2, 3]"]) (simp_all add: stack_table_def)

text \<open>C8: \<open>OP_PICK\<close> and \<open>OP_ROLL\<close> with index \<open>v\<close> on top: a valid index copies, or moves, the frame at
  that depth; an index beyond the stack or below -1 fails with \<open>INVALID_STACK_OPERATION\<close>; the index
  -1 passes the check of the stack depth and aborts; from \<open>INT_MAX\<close> on the addition overflows.\<close>

theorem pick_and_roll:
  assumes "stk s = Number v # st" and "st \<noteq> []" and "length st < 2 ^ 31 - 1"
  shows "op_Pick env s =
      (if v \<ge> 2 ^ 31 - 1 then Inl Undefined
       else if v \<ge> int (length st) \<or> v < -1 then throw SE_INVALID_STACK_OPERATION
       else if v = -1 then Inl Abort
       else Inr (s\<lparr>stk := st ! nat v # st\<rparr>)) \<and>
    op_Roll env s =
      (if v \<ge> 2 ^ 31 - 1 then Inl Undefined
       else if v \<ge> int (length st) \<or> v < -1 then throw SE_INVALID_STACK_OPERATION
       else if v = -1 then Inl Abort
       else Inr (s\<lparr>stk := st ! nat v # take (nat v) st @ drop (Suc (nat v)) st\<rparr>))"
  using pick_run [of s "Number v" st env v] assms by (simp add: index_op_def picked_def rolled_def)

theorem pick_and_roll_witness:
  "op_Roll sample_env (new_interp\<lparr>stk := map Number [2, 10, 11, 12, 13]\<rparr>) =
     Inr (new_interp\<lparr>stk := map Number [12, 10, 11, 13]\<rparr>)"
  using pick_and_roll [of "new_interp\<lparr>stk := map Number [2, 10, 11, 12, 13]\<rparr>" 2
    "map Number [10, 11, 12, 13]" sample_env]
  by simp

text \<open>code in a branch that is not taken has no effect on the stacks, whatever it is, crashing and
  failing operations included; it only adds to the step number and the operation count.\<close>

lemma untaken_branch:
  assumes "well_formed p" and "short_operands p" and "False \<in> set fs"
    and "length (code p @ rest) < 2 ^ 32"
    and "opCount s + counted p \<le> MAX_OPS_PER_SCRIPT"
    and "length (stk s) + length (altStk s) \<le> MAX_STACK_SIZE"
  shows "exec_loop env (place fs (code p @ rest) s) =
    exec_loop env (place fs rest
      (s\<lparr>stepNo := stepNo s + operations p, opCount := opCount s + counted p\<rparr>))"
  using untaken [OF assms] by (simp add: advance_def)

lemma untaken_branch_witness:
  "exec_loop sample_env (place [False] [OP_RETURN, OP_1NEGATE, OP_PICK] new_interp) =
   Inr (place [False] [] (new_interp\<lparr>stepNo := 3, opCount := 2\<rparr>))"
proof -
  let ?p = "Do [OP_RETURN] (Do [OP_1NEGATE] (Do [OP_PICK] Done))"
  have ok: "well_formed ?p" "short_operands ?p" "counted ?p = 2" "operations ?p = 3"
    by (simp_all add: is_operation_def GetScriptOp_def)
  show ?thesis
    using untaken_branch [of ?p "[False]" "[]" new_interp sample_env] ok
    by (simp add: new_interp_def MAX_OPS_PER_SCRIPT_def)
qed

text \<open>what \<open>operator<<(int64_t)\<close> writes for a number pushes that number: executing it succeeds under
  every set of flags and leaves one frame, the number itself if it has at most four bytes and its
  encoding otherwise.\<close>

lemma pushed_number:
  assumes "script_push_int64 [] n = Inr script" and "in_int64 n" and "sn_serialize n = Inr vch"
  shows "\<exists>t. resetAndExecute env script s = Succeeded t \<and>
    stk t = [if \<bar>n\<bar> < 2 ^ 31 then Number n else Data vch]"
proof -
  have "n \<noteq> - (2 ^ 63)" using assms(3) by (auto simp: sn_serialize_def)
  then have "\<bar>n\<bar> < 2 ^ 63" using assms(2) by (auto simp: in_int64_def)
  then have "length vch \<le> 4 \<longleftrightarrow> \<bar>n\<bar> < 2 ^ 31"
    using length_sn_serialize [of n vch 3] assms(3) by simp
  then show ?thesis using run_push_int64 [OF assms] by (simp add: number_frame_def)
qed

lemma pushed_number_witness:
  "\<exists>t. resetAndExecute sample_env [2, 0xE8, 0x03] new_interp = Succeeded t \<and> stk t = [Number 1000]"
proof -
  have enc: "sn_serialize 1000 = Inr [0xE8, 0x03]"
    by (simp add: sn_serialize_def abs_bytes.simps)
  have "script_push_int64 [] 1000 = Inr [2, 0xE8, 0x03]"
    by (simp add: script_push_int64_def enc script_push_data_def push_prefix_def)
  from pushed_number [OF this _ enc, of sample_env new_interp] show ?thesis
    by (simp add: in_int64_def)
qed

text \<open>\<open>FindAndDelete\<close> returns the script without as many disjoint occurrences of the needle as it
  counts, and keeps every other byte in its order. It misses an occurrence at the very end: a script that
  is the needle comes back unchanged.\<close>

lemma FindAndDelete_correct:
  assumes "FindAndDelete haystack needle = (found, script)"
  shows "deleted needle haystack found script \<and>
    length haystack = length script + found * length needle \<and> FindAndDelete needle needle = (0, needle)"
  using FindAndDelete_deleted [OF assms] deleted_length FindAndDelete_end [of needle needle] by auto

lemma FindAndDelete_sample: "FindAndDelete [1, 7, 1, 7, 0x51] [1, 7] = (2, [0x51])"
  by (simp add: FindAndDelete_def fad_loop.simps skip_needle.simps GetScriptOp_def operand_size_def Let_def)

lemma FindAndDelete_correct_witness:
  "deleted [1, 7] [1, 7, 1, 7, 0x51] 2 [0x51] \<and> length [1, 7, 1, 7, 0x51 :: byte] = length [0x51 :: byte] + 2 * 2"
  using FindAndDelete_correct [OF FindAndDelete_sample] by simp

text \<open>C9: when every signature and key passes the encoding checks, the loop of \<open>op_CheckMultiSig\<close> succeeds
  exactly when the signatures can be assigned to keys in the same order.\<close>

theorem multisig_matches_in_order:
  assumes "\<And>sig. sig \<in> set sigs \<Longrightarrow> CheckSignatureEncoding (Data sig) (eflags env) = Inr True"
    and "\<And>key. key \<in> set keys \<Longrightarrow> CheckPubKeyEncoding key (eflags env) (esigversion env) = Inr True"
    and "\<And>sig key. sig \<in> set sigs \<Longrightarrow> key \<in> set keys \<Longrightarrow>
      CheckSig (echecker env) sig key scriptCode (esigversion env) = Inr (valid sig key)"
    and "length sigs \<le> length keys"
  shows "multisig_loop env scriptCode sigs keys = Inr (list_emb valid sigs keys)"
  using assms by (rule multisig_loop_emb)

definition echo_env :: env where
  "echo_env = sample_env\<lparr>echecker := (echecker sample_env)\<lparr>CheckSig := \<lambda>sig key code v. Inr (sig = key)\<rparr>\<rparr>"

theorem multisig_matches_in_order_witness:
  "multisig_loop echo_env [] [[1], [3]] [[1], [2], [3]] = Inr True \<and>
   multisig_loop echo_env [] [[3], [1]] [[1], [2], [3]] = Inr False"
proof -
  have enc: "CheckSignatureEncoding (Data sig) (eflags echo_env) = Inr True"
    "CheckPubKeyEncoding key (eflags echo_env) v = Inr True"
    "CheckSig (echecker echo_env) sig key c v = Inr (sig = key)" for sig key c v
    by (simp_all add: echo_env_def sample_env_def CheckSignatureEncoding.simps CheckPubKeyEncoding_def
        flags_isSet_def isSet_def)
  show ?thesis
    using multisig_matches_in_order [of "[[1], [3]]" echo_env "[[1], [2], [3]]" "[]" "(=)"]
      multisig_matches_in_order [of "[[3], [1]]" echo_env "[[1], [2], [3]]" "[]" "(=)"]
    by (simp add: enc)
qed

text \<open>\<open>OP_CHECKMULTISIG\<close> takes the number of signatures without checking that the stack holds it:
  the two-byte script \<open>OP_0 OP_CHECKMULTISIG\<close> fails the assertion of \<open>take\<close>.\<close>

lemma multisig_count_aborts: "resetAndExecute env [OP_0, OP_CHECKMULTISIG] s = Crashed Abort"
  by (rule run_multisig_empty)

text \<open>Numbers on the stack are added without the check for four-byte operands and without an overflow
  check: \<open>OP_1\<close> followed by \<open>k\<close> doublings overflows \<open>int64_t\<close> exactly when \<open>k\<close> is at least 63.\<close>

lemma doubling_overflows:
  assumes "k \<le> 100"
  shows "resetAndExecute env (OP_1 # concat (replicate k [OP_DUP, OP_ADD])) s = Crashed Undefined \<longleftrightarrow> 63 \<le> k"
  using run_doublings [OF assms] by (simp add: doublings_def)

lemma doubling_overflows_witness:
  "resetAndExecute sample_env (OP_1 # concat (replicate 63 [OP_DUP, OP_ADD])) new_interp = Crashed Undefined"
  using doubling_overflows [of 63] by simp

text \<open>a \<open>Flags\<close> object has eight bits, so no set of flags switches the time lock operations on:
  \<open>OP_CHECKLOCKTIMEVERIFY\<close> and \<open>OP_CHECKSEQUENCEVERIFY\<close> never do anything.\<close>

lemma timelocks_never_checked:
  "exec_op env OP_CHECKLOCKTIMEVERIFY data s = Inr s \<and> exec_op env OP_CHECKSEQUENCEVERIFY data s = Inr s"
  using timelocks_off by blast

text \<open>C10: \<open>IsValidSignatureEncoding\<close> accepts exactly the strict DER encodings: a sequence of two minimal
  non-negative integers and a hash type, of 9 to 73 bytes, and it reads no byte out of range.\<close>

theorem strict_der:
  "IsValidSignatureEncoding sig = Inr (der_signature sig)"
  by (rule IsValidSignatureEncoding_der)

text \<open>C11: the encoding of script numbers: every number except the least \<open>int64_t\<close> is encoded, and decoding
  inverts this; encoding inverts decoding on the minimal encodings of at most eight bytes.\<close>

theorem script_number_codec:
  "(\<bar>v\<bar> < 2 ^ 63 \<longrightarrow> (\<exists>vch. sn_serialize v = Inr vch \<and> set_vch vch = v)) \<and>
   ((w = [] \<or> minimally_encoded w) \<and> length w \<le> 8 \<longrightarrow> sn_serialize (set_vch w) = Inr w)"
  using sn_serialize_total [of v] set_vch_sn_serialize [of v] sn_serialize_set_vch [of w] by blast

theorem script_number_codec_witness:
  "(\<exists>vch. sn_serialize (- 1000) = Inr vch \<and> set_vch vch = - 1000) \<and> sn_serialize (set_vch [0xE8, 0x83]) = Inr [0xE8, 0x83]"
  using script_number_codec [of "- 1000" "[0xE8, 0x83]"] by (simp add: minimally_encoded_def)

text \<open>reading a script gives back what \<open>operator<<\<close> pushed, for every length of data, and leaves the
  position behind it.\<close>

lemma push_then_read:
  assumes "length (b @ rest) < 2 ^ 32"
  shows "GetScriptOp (script_push_data [] b @ rest) = (True, hd (push_prefix (length b)), b, rest)"
  using GetScriptOp_push [OF assms] by (simp add: script_push_data_def)

lemma push_then_read_witness:
  "GetScriptOp (script_push_data [] (replicate 300 7) @ [OP_DROP]) = (True, OP_PUSHDATA2, replicate 300 7, [OP_DROP])"
  using push_then_read [of "replicate 300 7" "[OP_DROP]"] by (simp add: push_prefix_def)

end
