(* ===== verification/Hasher.thy ===== *)
theory Hasher
  imports Endians
begin

text \<open>
  What the hashers of \<open>src/crypto\<close> (\<open>sha1.cpp\<close>, \<open>ripemd160.cpp\<close>, \<open>sha256.cpp\<close>, \<open>sha512.cpp\<close>)
  have in common: the buffer in front of the compression function, and the interface that their
  clients use.

  Each of them keeps a state, a buffer of one block and a byte counter, \<open>uint64_t bytes\<close>. The block
  length \<open>B\<close> and the compression function \<open>tr\<close> are arguments here; each hasher's own \<open>Write\<close> and
  \<open>Finalize\<close> are instances. The buffer is not initialised by the constructors, so a new hasher may
  hold any bytes in it.
\<close>

record 's md_state =
  md_s :: 's
  md_buf :: bytes
  md_bytes :: "64 word"

text \<open>\<open>memcpy(buf + pos, data, length data)\<close>.\<close>

definition memcpy_at :: "bytes \<Rightarrow> nat \<Rightarrow> bytes \<Rightarrow> bytes" where
  "memcpy_at buf pos data = take pos buf @ data @ drop (pos + length data) buf"

text \<open>The loop \<open>while (end >= data + B)\<close>, for a block length that is not zero.\<close>

function full_chunks :: "nat \<Rightarrow> ('s \<Rightarrow> bytes \<Rightarrow> 's) \<Rightarrow> bytes \<Rightarrow> 's md_state \<Rightarrow> bytes \<times> 's md_state" where
  "full_chunks B tr data h =
     (if 0 < B \<and> B \<le> length data
      then full_chunks B tr (drop B data)
        (h\<lparr>md_s := tr (md_s h) (take B data), md_bytes := md_bytes h + word_of_nat B\<rparr>)
      else (data, h))"
  by pat_completeness auto
termination
  by (relation "measure (\<lambda>(B, tr, data, h). length data)") auto

declare full_chunks.simps [simp del]

definition md_fill :: "nat \<Rightarrow> ('s \<Rightarrow> bytes \<Rightarrow> 's) \<Rightarrow> bytes \<Rightarrow> 's md_state \<Rightarrow> nat \<Rightarrow> 's md_state" where
  "md_fill B tr data h bufsize =
     (let buf = memcpy_at (md_buf h) bufsize (take (B - bufsize) data)
      in h\<lparr>md_buf := buf, md_bytes := md_bytes h + word_of_nat (B - bufsize), md_s := tr (md_s h) (take B buf)\<rparr>)"

definition md_rest :: "nat \<Rightarrow> bytes \<Rightarrow> 's md_state \<Rightarrow> 's md_state" where
  "md_rest bufsize data h =
     (if data \<noteq> []
      then h\<lparr>md_buf := memcpy_at (md_buf h) bufsize data, md_bytes := md_bytes h + word_of_nat (length data)\<rparr>
      else h)"

definition md_Write :: "nat \<Rightarrow> ('s \<Rightarrow> bytes \<Rightarrow> 's) \<Rightarrow> bytes \<Rightarrow> 's md_state \<Rightarrow> 's md_state" where
  "md_Write B tr data h =
     (let bufsize = unat (md_bytes h) mod B;
          (data, h, bufsize) =
            (if bufsize \<noteq> 0 \<and> B \<le> bufsize + length data
             then (drop (B - bufsize) data, md_fill B tr data h bufsize, 0)
             else (data, h, bufsize));
          (data, h) = full_chunks B tr data h
      in md_rest bufsize data h)"

text \<open>
  \<open>Finalize\<close> writes \<open>1 + ((2 * B - 1 - n - bytes % B) % B)\<close> bytes of the array \<open>{0x80}\<close> and then the
  \<open>n\<close> bytes of the size: 119 for blocks of 64 and a size of 8 bytes, 239 for blocks of 128 and a
  size of 16.
\<close>

definition md_pad :: "nat \<Rightarrow> nat \<Rightarrow> 64 word \<Rightarrow> bytes" where
  "md_pad B n count = take (1 + ((2 * B - 1 - n - unat count mod B) mod B)) (0x80 # replicate (B - 1) 0)"

definition md_Finalize :: "nat \<Rightarrow> nat \<Rightarrow> ('s \<Rightarrow> bytes \<Rightarrow> 's) \<Rightarrow> (64 word \<Rightarrow> bytes) \<Rightarrow> ('s \<Rightarrow> bytes) \<Rightarrow>
    's md_state \<Rightarrow> bytes \<times> 's md_state" where
  "md_Finalize B n tr size_of out h =
     (let sizedesc = size_of (push_bit 3 (md_bytes h));
          h = md_Write B tr (md_pad B n (md_bytes h)) h;
          h = md_Write B tr sizedesc h
      in (out (md_s h), h))"

definition md_Reset :: "'s \<Rightarrow> 's md_state \<Rightarrow> 's md_state" where
  "md_Reset init h = h\<lparr>md_bytes := 0, md_s := init\<rparr>"

section \<open>Reference: hashing a whole message\<close>

text \<open>The full blocks of a message, and the message padded to whole blocks.\<close>

function chunks :: "nat \<Rightarrow> bytes \<Rightarrow> bytes list" where
  "chunks B m = (if 0 < B \<and> B \<le> length m then take B m # chunks B (drop B m) else [])"
  by pat_completeness auto
termination
  by (relation "measure (\<lambda>(B, m). length m)") auto

declare chunks.simps [simp del]

definition padded :: "nat \<Rightarrow> nat \<Rightarrow> (64 word \<Rightarrow> bytes) \<Rightarrow> bytes \<Rightarrow> bytes" where
  "padded B n size_of m =
     m @ 0x80 # replicate ((2 * B - 1 - n - length m mod B) mod B) 0 @ size_of (word_of_nat (8 * length m))"

definition md_digest :: "nat \<Rightarrow> nat \<Rightarrow> ('s \<Rightarrow> bytes \<Rightarrow> 's) \<Rightarrow> 's \<Rightarrow> (64 word \<Rightarrow> bytes) \<Rightarrow> ('s \<Rightarrow> bytes) \<Rightarrow>
    bytes \<Rightarrow> bytes" where
  "md_digest B n tr init size_of out m = out (foldl tr init (chunks B (padded B n size_of m)))"

lemma chunks_append:
  "B dvd length xs \<Longrightarrow> chunks B (xs @ ys) = chunks B xs @ chunks B ys"
proof (induction B xs rule: chunks.induct)
  case (1 B m)
  show ?case
  proof (cases "0 < B \<and> B \<le> length m")
    case True
    then have "chunks B (drop B m @ ys) = chunks B (drop B m) @ chunks B ys"
      using 1 by (simp add: dvd_diff_nat)
    with True show ?thesis
      by (subst (1 2) chunks.simps) (simp add: drop_append)
  next
    case False
    then have "m = [] \<or> B = 0" using 1(2) by (auto dest: dvd_imp_le)
    then show ?thesis by (auto simp: chunks.simps [of 0] chunks.simps [of B "[]"])
  qed
qed

lemma chunks_short: "length m < B \<Longrightarrow> chunks B m = []"
  by (simp add: chunks.simps)

lemma chunks_block: "0 < B \<Longrightarrow> length m = B \<Longrightarrow> chunks B m = [m]"
  by (simp add: chunks.simps [of B m] chunks_short)

text \<open>The blocks and the bytes behind the last of them.\<close>

definition whole :: "nat \<Rightarrow> bytes \<Rightarrow> bytes" where
  "whole B m = take (length m - length m mod B) m"

definition part :: "nat \<Rightarrow> bytes \<Rightarrow> bytes" where
  "part B m = drop (length m - length m mod B) m"

lemma whole_part: "whole B m @ part B m = m"
  by (simp add: whole_def part_def)

lemma length_part: "length (part B m) = length m mod B"
  by (simp add: part_def)

lemma length_whole: "B dvd length (whole B m)"
  by (simp add: whole_def dvd_minus_mod)

lemma chunks_whole: "0 < B \<Longrightarrow> chunks B (whole B m) = chunks B m"
  using chunks_append [OF length_whole [of B m], of "part B m"]
  by (simp add: whole_part chunks_short length_part)

lemma split_whole:
  assumes "B dvd length xs" and "length ys < B" and "m = xs @ ys"
  shows "whole B m = xs" "part B m = ys"
  using assms by (auto simp: whole_def part_def)

section \<open>The buffer implements it\<close>

text \<open>\<open>md_rep B tr init h m\<close>: the hasher \<open>h\<close> has been given the message \<open>m\<close>.\<close>

definition md_rep :: "nat \<Rightarrow> ('s \<Rightarrow> bytes \<Rightarrow> 's) \<Rightarrow> 's \<Rightarrow> 's md_state \<Rightarrow> bytes \<Rightarrow> bool" where
  "md_rep B tr init h m \<longleftrightarrow>
     length (md_buf h) = B \<and> md_bytes h = word_of_nat (length m) \<and>
     md_s h = foldl tr init (chunks B m) \<and> take (length m mod B) (md_buf h) = part B m"

lemma length_memcpy_at: "pos + length data \<le> length buf \<Longrightarrow> length (memcpy_at buf pos data) = length buf"
  by (simp add: memcpy_at_def)

lemma take_memcpy_at:
  "pos + length data \<le> length buf \<Longrightarrow> take (pos + length data) (memcpy_at buf pos data) = take pos buf @ data"
  by (simp add: memcpy_at_def)

lemma full_chunks_rep:
  assumes "full_chunks B tr data h = (data', h')" and "0 < B" and "B dvd length m"
    and "md_s h = foldl tr init (chunks B m)" and "md_bytes h = word_of_nat (length m)"
  shows "md_s h' = foldl tr init (chunks B (m @ data)) \<and> data' = part B (m @ data) \<and>
    md_bytes h' = word_of_nat (length (whole B (m @ data))) \<and> md_buf h' = md_buf h"
  using assms
proof (induction B tr data h arbitrary: m rule: full_chunks.induct)
  case (1 B tr data h)
  show ?case
  proof (cases "B \<le> length data")
    case True
    let ?h = "h\<lparr>md_s := tr (md_s h) (take B data), md_bytes := md_bytes h + word_of_nat B\<rparr>"
    have "full_chunks B tr (drop B data) ?h = (data', h')"
      using 1(2,3) True by (simp add: full_chunks.simps [of B tr data])
    moreover have "chunks B (m @ take B data) = chunks B m @ [take B data]"
      using 1(3,4) True by (simp add: chunks_append chunks_block)
    then have "md_s ?h = foldl tr init (chunks B (m @ take B data))" using 1(5) by simp
    moreover have "md_bytes ?h = word_of_nat (length (m @ take B data))" using 1(6) True by simp
    ultimately show ?thesis
      using 1(1) [of "m @ take B data", unfolded append_assoc append_take_drop_id] 1(3,4) True by simp
  next
    case False
    then have "data' = data" "h' = h" using 1(2) by (simp_all add: full_chunks.simps [of B tr data])
    moreover have "chunks B (m @ data) = chunks B m" using 1(4) False by (simp add: chunks_append chunks_short)
    moreover have "whole B (m @ data) = m" "part B (m @ data) = data"
      using 1(4) False split_whole [of B m data] by simp_all
    ultimately show ?thesis using 1(5,6) by simp
  qed
qed

lemma mod_count:
  "B dvd 2 ^ 64 \<Longrightarrow> unat (word_of_nat n :: 64 word) mod B = n mod B"
  by (simp add: unat_of_nat mod_mod_cancel)

lemma md_fill_rep:
  assumes rep: "md_rep B tr init h m" and p: "length m mod B \<noteq> 0" and "B \<le> length m mod B + length data" and "0 < B"
  shows "md_s (md_fill B tr data h (length m mod B)) = foldl tr init (chunks B (m @ take (B - length m mod B) data)) \<and>
    md_bytes (md_fill B tr data h (length m mod B)) = word_of_nat (length (m @ take (B - length m mod B) data)) \<and>
    length (md_buf (md_fill B tr data h (length m mod B))) = B \<and>
    B dvd length (m @ take (B - length m mod B) data)"
proof -
  let ?r = "length m mod B" let ?d = "take (B - ?r) data"
  have r: "?r < B" using \<open>0 < B\<close> by simp
  have l: "length ?d = B - ?r" using assms(3) by simp
  have "memcpy_at (md_buf h) ?r ?d = part B m @ ?d"
    using rep take_memcpy_at [of ?r ?d "md_buf h"] length_memcpy_at [of ?r ?d "md_buf h"] l r
    by (simp add: md_rep_def)
  moreover have eq: "m @ ?d = whole B m @ part B m @ ?d" using whole_part [of B m] by (metis append_assoc)
  have "chunks B (m @ ?d) = chunks B m @ [part B m @ ?d]"
    unfolding eq chunks_append [OF length_whole] chunks_whole [OF \<open>0 < B\<close>]
    using l r \<open>0 < B\<close> by (simp add: chunks_block length_part)
  moreover have "B dvd length m + (B - ?r)"
  proof -
    have sum: "length m + (B - ?r) = (length m - ?r) + B" using r by simp
    show ?thesis unfolding sum by (intro dvd_add dvd_minus_mod dvd_refl)
  qed
  ultimately show ?thesis
    using rep l r by (simp add: md_fill_def md_rep_def Let_def length_part)
qed

lemma md_rest_rep:
  assumes "full_chunks B tr data h = (data', h')" and "0 < B" and "B dvd length m" and "length (md_buf h) = B"
    and "md_s h = foldl tr init (chunks B m)" and "md_bytes h = word_of_nat (length m)"
  shows "md_rep B tr init (md_rest 0 data' h') (m @ data)"
proof -
  let ?n = "m @ data"
  have f: "md_s h' = foldl tr init (chunks B ?n)" "data' = part B ?n"
    "md_bytes h' = word_of_nat (length (whole B ?n))" "md_buf h' = md_buf h"
    using full_chunks_rep [OF assms(1,2,3,5,6)] by simp_all
  have len: "length (whole B ?n) + length (part B ?n) = length ?n"
    by (metis length_append whole_part)
  then have "md_bytes h' + word_of_nat (length (part B ?n)) = word_of_nat (length ?n)"
    using f(3) by (metis of_nat_add)
  moreover have "length (part B ?n) < B" using assms(2) by (simp add: length_part)
  ultimately show ?thesis
    using f len assms(4) length_memcpy_at [of 0 "part B ?n" "md_buf h"] take_memcpy_at [of 0 "part B ?n" "md_buf h"]
    by (auto simp: md_rest_def md_rep_def length_part)
qed

lemma md_Write_rep:
  assumes "md_rep B tr init h m" and B: "0 < B" "B dvd 2 ^ 64"
  shows "md_rep B tr init (md_Write B tr data h) (m @ data)"
proof -
  let ?r = "length m mod B"
  have r: "unat (md_bytes h) mod B = ?r" "?r < B"
    using assms by (simp_all add: md_rep_def mod_count)
  note rep = assms(1) [unfolded md_rep_def]
  consider "?r \<noteq> 0" "B \<le> ?r + length data" | "?r = 0" | "?r \<noteq> 0" "?r + length data < B"
    by linarith
  then show ?thesis
  proof cases
    case 1
    let ?h = "md_fill B tr data h ?r" and ?d = "take (B - ?r) data"
    obtain data' h' where run: "full_chunks B tr (drop (B - ?r) data) ?h = (data', h')" by fastforce
    then have "md_rep B tr init (md_rest 0 data' h') ((m @ ?d) @ drop (B - ?r) data)"
      using md_fill_rep [OF assms(1) 1 B(1)] B(1) by (intro md_rest_rep [OF run]) auto
    then show ?thesis using 1 r run by (simp add: md_Write_def Let_def)
  next
    case 2
    obtain data' h' where run: "full_chunks B tr data h = (data', h')" by fastforce
    then have "md_rep B tr init (md_rest 0 data' h') (m @ data)"
      using rep 2 B(1) by (intro md_rest_rep [OF run]) (auto simp: mod_eq_0_iff_dvd)
    then show ?thesis using 2 r run by (simp add: md_Write_def Let_def)
  next
    case 3
    have "full_chunks B tr data h = (data, h)" using 3 by (simp add: full_chunks.simps)
    then have w: "md_Write B tr data h = md_rest ?r data h" using 3 r by (simp add: md_Write_def Let_def)
    have m: "m @ data = whole B m @ part B m @ data" using whole_part [of B m] by (metis append_assoc)
    have "length (part B m @ data) < B" using 3 by (simp add: length_part)
    then have parts: "part B (m @ data) = part B m @ data" "whole B (m @ data) = whole B m"
      using split_whole [OF length_whole _ m] by simp_all
    then have "chunks B (m @ data) = chunks B m" by (metis B(1) chunks_whole)
    moreover have "length (m @ data) mod B = ?r + length data"
      using parts(1) by (metis length_append length_part)
    ultimately show ?thesis
      using rep w parts 3 take_memcpy_at [of ?r data "md_buf h"] length_memcpy_at [of ?r data "md_buf h"]
      by (cases "data = []") (simp_all add: md_rest_def md_rep_def)
  qed
qed

lemma pad_length:
  fixes n B l :: nat
  assumes "n < B"
  shows "B dvd (l + (1 + (2 * B - 1 - n - l mod B) mod B) + n)"
proof -
  define k where "k = 2 * B - 1 - n - l mod B"
  have "l mod B < B" using assms by (intro mod_less_divisor) simp
  then have "l mod B + (1 + n + k) = 2 * B" using assms unfolding k_def by linarith
  then have "(l mod B + (1 + n + k)) mod B = 0" by simp
  moreover have "(l + (1 + n + k mod B)) mod B = (l mod B + (1 + n + k)) mod B"
    by (metis add.assoc mod_add_left_eq mod_add_right_eq)
  ultimately have "(l + (1 + n + k mod B)) mod B = 0" by simp
  then show ?thesis unfolding k_def by (simp add: mod_eq_0_iff_dvd algebra_simps)
qed

lemma md_Finalize_rep:
  assumes rep: "md_rep B tr init h m" and B: "n < B" "B dvd 2 ^ 64"
  shows "md_Finalize B n tr size_of out h =
      (md_digest B n tr init size_of out m, snd (md_Finalize B n tr size_of out h)) \<and>
    md_rep B tr init (snd (md_Finalize B n tr size_of out h)) (padded B n size_of m)"
proof -
  have c: "md_bytes h = word_of_nat (length m)" using rep by (simp add: md_rep_def)
  have "(2 * B - 1 - n - length m mod B) mod B < B" using B(1) by simp
  then have p: "md_pad B n (md_bytes h) = 0x80 # replicate ((2 * B - 1 - n - length m mod B) mod B) 0"
    unfolding md_pad_def c mod_count [OF B(2)] by (simp add: min_def)
  have s: "push_bit 3 (md_bytes h) = word_of_nat (8 * length m)"
    unfolding c by (simp add: push_bit_eq_mult)
  let ?h = "md_Write B tr (size_of (push_bit 3 (md_bytes h))) (md_Write B tr (md_pad B n (md_bytes h)) h)"
  have "md_rep B tr init ?h ((m @ md_pad B n (md_bytes h)) @ size_of (push_bit 3 (md_bytes h)))"
    using B by (intro md_Write_rep rep) auto
  then have "md_rep B tr init ?h (padded B n size_of m)"
    unfolding p s padded_def by simp
  then show ?thesis
    by (simp add: md_Finalize_def Let_def md_digest_def md_rep_def)
qed

lemma md_Finalize_digest:
  assumes "md_rep B tr init h m" and "n < B" and "B dvd 2 ^ 64"
  shows "fst (md_Finalize B n tr size_of out h) = md_digest B n tr init size_of out m"
  using md_Finalize_rep [OF assms, of size_of out] by (metis fst_conv)

lemma md_Reset_rep:
  assumes "md_rep B tr init h m" and "0 < B"
  shows "md_rep B tr init (md_Reset init h) []"
  using assms by (simp add: md_rep_def md_Reset_def part_def chunks_short)

section \<open>The interface of a hasher\<close>

text \<open>
  What the clients call: the constructor, \<open>Reset\<close>, \<open>Write\<close>, \<open>Finalize\<close> and \<open>OUTPUT_SIZE\<close>; and what
  they rely on: writing appends to the message, \<open>Finalize\<close> gives the digest \<open>H\<close> of the whole
  message, and \<open>Reset\<close> makes a used hasher like new.
\<close>

record 'h hasher =
  New :: 'h
  Reset :: "'h \<Rightarrow> 'h"
  Write :: "bytes \<Rightarrow> 'h \<Rightarrow> 'h"
  Finalize :: "'h \<Rightarrow> bytes \<times> 'h"
  OUTPUT_SIZE :: nat

text \<open>\<open>Hasher().Write(data, size).Finalize(hash)\<close>.\<close>

definition hash_once :: "'h hasher \<Rightarrow> bytes \<Rightarrow> bytes" where
  "hash_once ops data = fst (Finalize ops (Write ops data (New ops)))"

locale hasher_contract =
  fixes ops :: "'h hasher"
    and rep :: "'h \<Rightarrow> bytes \<Rightarrow> bool"
    and H :: "bytes \<Rightarrow> bytes"
  assumes rep_New: "rep (New ops) []"
    and rep_Reset: "rep h m \<Longrightarrow> rep (Reset ops h) []"
    and rep_Write: "rep h m \<Longrightarrow> rep (Write ops data h) (m @ data)"
    and Finalize_digest: "rep h m \<Longrightarrow> fst (Finalize ops h) = H m"
    and rep_Finalize: "rep h m \<Longrightarrow> \<exists>m'. rep (snd (Finalize ops h)) m'"
    and length_H: "length (H m) = OUTPUT_SIZE ops"
begin

lemma hash_once_digest: "hash_once ops data = H data"
  using Finalize_digest [OF rep_Write [OF rep_New, of data]] by (simp add: hash_once_def)

lemma rep_fold: "rep h m \<Longrightarrow> rep (fold (Write ops) ds h) (m @ concat ds)"
proof (induction ds arbitrary: h m)
  case (Cons d ds)
  show ?case using Cons.IH [OF rep_Write [OF Cons.prems]] by simp
qed simp

text \<open>Splitting the data over several calls of \<open>Write\<close> makes no difference.\<close>

lemma Write_split:
  "concat ds = data \<Longrightarrow> fst (Finalize ops (fold (Write ops) ds (New ops))) = hash_once ops data"
  using Finalize_digest [OF rep_fold [OF rep_New, of ds]] by (simp add: hash_once_digest)

lemma reuse: "rep h m \<Longrightarrow> fst (Finalize ops (Write ops data (Reset ops h))) = H data"
  using Finalize_digest [OF rep_Write [OF rep_Reset, of h m data]] by simp

end

text \<open>
  A buffered compression function satisfies it, whatever the buffer held before. \<open>P\<close> holds for the
  states that occur.
\<close>

definition md_hasher :: "nat \<Rightarrow> nat \<Rightarrow> ('s \<Rightarrow> bytes \<Rightarrow> 's) \<Rightarrow> 's \<Rightarrow> (64 word \<Rightarrow> bytes) \<Rightarrow> ('s \<Rightarrow> bytes) \<Rightarrow> nat \<Rightarrow>
    bytes \<Rightarrow> 's md_state hasher" where
  "md_hasher B n tr init size_of out outlen junk =
     \<lparr>New = \<lparr>md_s = init, md_buf = junk, md_bytes = 0\<rparr>, Reset = md_Reset init, Write = md_Write B tr,
      Finalize = md_Finalize B n tr size_of out, OUTPUT_SIZE = outlen\<rparr>"

lemma foldl_inv: "P s \<Longrightarrow> (\<And>s c. P s \<Longrightarrow> P (f s c)) \<Longrightarrow> P (foldl f s cs)"
  by (induction cs arbitrary: s) auto

lemma foldl_cong_inv:
  "P s \<Longrightarrow> (\<And>s c. P s \<Longrightarrow> P (f s c)) \<Longrightarrow> (\<And>s c. P s \<Longrightarrow> f s c = g s c) \<Longrightarrow> foldl f s cs = foldl g s cs"
  by (induction cs arbitrary: s) auto

lemma md_contract:
  assumes "n < B" and "B dvd 2 ^ 64" and "length junk = B"
    and "P init" and "\<And>s c. P s \<Longrightarrow> P (tr s c)" and "\<And>s. P s \<Longrightarrow> length (out s) = outlen"
  shows "hasher_contract (md_hasher B n tr init size_of out outlen junk)
    (md_rep B tr init) (md_digest B n tr init size_of out)"
proof (unfold_locales, goal_cases)
  case 1
  show ?case using assms(1-3) by (simp add: md_hasher_def md_rep_def part_def chunks_short)
next
  case (2 h m)
  then show ?case using assms(1-3) by (auto simp: md_hasher_def intro: md_Reset_rep)
next
  case (3 h m data)
  then show ?case using assms(1-3) by (auto simp: md_hasher_def intro: md_Write_rep)
next
  case (4 h m)
  then show ?case using assms(1-3) md_Finalize_digest by (simp add: md_hasher_def)
next
  case (5 h m)
  then show ?case
    using assms(1-3) md_Finalize_rep [of B tr init h m n size_of out] by (auto simp: md_hasher_def)
next
  case (6 m)
  show ?case
    unfolding md_digest_def using foldl_inv [of P init tr, OF assms(4,5)] assms(6) by (simp add: md_hasher_def)
qed

end
