(* ===== verification/Sha2.thy ===== *)
theory Sha2
  imports Hasher
begin

text \<open>
  The round functions of \<open>src/crypto/sha256.cpp\<close> and \<open>src/crypto/sha512.cpp\<close>, which differ in the
  width of a word, the rotations and the number of rounds.

  The sources unroll the rounds into one statement each,
  \<open>Round(h, a, b, c, d, e, f, g, k + (w1 += sigma1(w15) + w10 + sigma0(w2)))\<close>. Here such a
  statement is a line of a table: the order of the eight variables (0 for \<open>a\<close> to 7 for \<open>h\<close>), the
  constant, and what is done with the variables \<open>w0\<close> to \<open>w15\<close>. \<open>run_lines\<close> executes the lines.

  The second part is the textbook form of the compression function, and the third shows that lines
  of a regular form compute it; that the lines of the sources are of this form is checked in the
  theories that hold them.
\<close>

section \<open>Statements\<close>

text \<open>The functions \<open>sigma0\<close>, \<open>sigma1\<close>, \<open>Sigma0\<close>, \<open>Sigma1\<close> of a file.\<close>

record 'w sha2_fns =
  sigma0 :: "'w \<Rightarrow> 'w"
  sigma1 :: "'w \<Rightarrow> 'w"
  Sigma0 :: "'w \<Rightarrow> 'w"
  Sigma1 :: "'w \<Rightarrow> 'w"

definition Ch :: "'a :: len word \<Rightarrow> 'a word \<Rightarrow> 'a word \<Rightarrow> 'a word" where
  "Ch x y z = z XOR (x AND (y XOR z))"

definition Maj :: "'a :: len word \<Rightarrow> 'a word \<Rightarrow> 'a word \<Rightarrow> 'a word" where
  "Maj x y z = (x AND y) OR (z AND (x OR y))"

text \<open>
  The summands of the schedule, and the four forms a statement takes: \<open>w_i = ReadBE(chunk + pos)\<close>,
  \<open>w_i += ...\<close>, \<open>w_i = ...\<close>, and a sum that is not stored.
\<close>

datatype 'w summand = S0 nat | S1 nat | W nat | Const 'w

datatype 'w w_op = Load nat nat | Add nat "'w summand list" | Assign nat "'w summand list" | Use "'w summand list"

type_synonym 'w line = "nat list \<times> 'w \<times> 'w w_op"

fun summand_val :: "'a :: len word sha2_fns \<Rightarrow> 'a word list \<Rightarrow> 'a word summand \<Rightarrow> 'a word" where
  "summand_val F w (S0 i) = sigma0 F (w ! i)"
| "summand_val F w (S1 i) = sigma1 F (w ! i)"
| "summand_val F w (W i) = w ! i"
| "summand_val F w (Const c) = c"

text \<open>
  \<open>ReadBE32(chunk + pos)\<close> and \<open>ReadBE64(chunk + pos)\<close>: the compression functions are only called with
  chunks of whole blocks, so no read is out of range.
\<close>

definition word_at :: "bytes \<Rightarrow> nat \<Rightarrow> 'a :: len word" where
  "word_at chunk pos = word_of_nat (le_value (rev (take (LENGTH('a) div 8) (drop pos chunk))))"

fun w_step :: "'a :: len word sha2_fns \<Rightarrow> bytes \<Rightarrow> 'a word w_op \<Rightarrow> 'a word list \<Rightarrow> 'a word \<times> 'a word list" where
  "w_step F chunk (Load i pos) w = (let x = word_at chunk pos in (x, w[i := x]))"
| "w_step F chunk (Add i ts) w = (let x = w ! i + sum_list (map (summand_val F w) ts) in (x, w[i := x]))"
| "w_step F chunk (Assign i ts) w = (let x = sum_list (map (summand_val F w) ts) in (x, w[i := x]))"
| "w_step F chunk (Use ts) w = (sum_list (map (summand_val F w) ts), w)"

text \<open>\<open>Round\<close>, with the variables named by \<open>rs\<close>; \<open>d\<close> and \<open>h\<close> are references.\<close>

definition Round :: "'a :: len word sha2_fns \<Rightarrow> nat list \<Rightarrow> 'a word \<Rightarrow> 'a word list \<Rightarrow> 'a word list" where
  "Round F rs k v =
     (let a = v ! (rs ! 0); b = v ! (rs ! 1); c = v ! (rs ! 2); d = v ! (rs ! 3);
          e = v ! (rs ! 4); f = v ! (rs ! 5); g = v ! (rs ! 6); h = v ! (rs ! 7);
          t1 = h + Sigma1 F e + Ch e f g + k;
          t2 = Sigma0 F a + Maj a b c
      in v[rs ! 3 := d + t1, rs ! 7 := t1 + t2])"

definition run_line :: "'a :: len word sha2_fns \<Rightarrow> bytes \<Rightarrow> 'a word list \<times> 'a word list \<Rightarrow> 'a word line \<Rightarrow>
    'a word list \<times> 'a word list" where
  "run_line F chunk = (\<lambda>(v, w) (rs, k, op). case w_step F chunk op w of (x, w) \<Rightarrow> (Round F rs (k + x) v, w))"

definition run_lines :: "'a :: len word sha2_fns \<Rightarrow> bytes \<Rightarrow> 'a word line list \<Rightarrow>
    'a word list \<times> 'a word list \<Rightarrow> 'a word list \<times> 'a word list" where
  "run_lines F chunk lines vw = foldl (run_line F chunk) vw lines"

section \<open>Reference: the compression function\<close>

fun schedule :: "'a :: len word sha2_fns \<Rightarrow> bytes \<Rightarrow> nat \<Rightarrow> 'a word" where
  "schedule F chunk t =
     (if t < 16 then word_at chunk (LENGTH('a) div 8 * t)
      else sigma1 F (schedule F chunk (t - 2)) + schedule F chunk (t - 7) +
        sigma0 F (schedule F chunk (t - 15)) + schedule F chunk (t - 16))"

declare schedule.simps [simp del]

fun compress_step :: "'a :: len word sha2_fns \<Rightarrow> 'a word \<Rightarrow> 'a word list \<Rightarrow> 'a word list" where
  "compress_step F kw [a, b, c, d, e, f, g, h] =
     (let t1 = h + Sigma1 F e + ((e AND f) XOR (NOT e AND g)) + kw;
          t2 = Sigma0 F a + ((a AND b) XOR (a AND c) XOR (b AND c))
      in [t1 + t2, a, b, c, d + t1, e, f, g])"
| "compress_step F kw v = v"

definition sha2_compress :: "'a :: len word sha2_fns \<Rightarrow> (nat \<Rightarrow> 'a word) \<Rightarrow> nat \<Rightarrow> 'a word list \<Rightarrow> bytes \<Rightarrow>
    'a word list" where
  "sha2_compress F K n s chunk =
     map2 (+) s (foldl (\<lambda>v t. compress_step F (K t + schedule F chunk t) v) s [0..<n])"

text \<open>
  The constants of the standards are the first bits of the fractional parts of roots of primes; these
  are the first eighty primes.
\<close>

definition primes :: "nat list" where
  "primes =
     [2, 3, 5, 7, 11, 13, 17, 19, 23, 29, 31, 37, 41, 43, 47, 53, 59, 61, 67, 71,
      73, 79, 83, 89, 97, 101, 103, 107, 109, 113, 127, 131, 137, 139, 149, 151, 157, 163, 167, 173,
      179, 181, 191, 193, 197, 199, 211, 223, 227, 229, 233, 239, 241, 251, 257, 263, 269, 271, 277, 281,
      283, 293, 307, 311, 313, 317, 331, 337, 347, 349, 353, 359, 367, 373, 379, 383, 389, 397, 401, 409]"

definition root_floor :: "nat \<Rightarrow> nat \<Rightarrow> nat" where
  "root_floor r n = (GREATEST x. x ^ r \<le> n)"

lemma root_floorI:
  assumes "x ^ r \<le> n" and "n < Suc x ^ r"
  shows "root_floor r n = x"
  unfolding root_floor_def
proof (rule Greatest_equality)
  fix y assume "y ^ r \<le> n"
  then have "y ^ r < Suc x ^ r" using assms(2) by simp
  then have "y < Suc x" by (metis power_less_imp_less_base le0)
  then show "y \<le> x" by simp
qed (rule assms)

text \<open>A root with integer part \<open>c\<close> and the bits \<open>k\<close> behind the point.\<close>

lemma root_bits:
  assumes "(c * 2 ^ LENGTH('a) + k) ^ r \<le> n" and "n < (c * 2 ^ LENGTH('a) + k + 1) ^ r"
  shows "(word_of_nat (root_floor r n) :: 'a :: len word) = word_of_nat k"
proof -
  have "root_floor r n = c * 2 ^ LENGTH('a) + k" using assms by (intro root_floorI) simp_all
  then show ?thesis by (simp add: word_of_nat_eq_iff take_bit_eq_mod)
qed

lemma rotate_bits:
  assumes "n < LENGTH('a)" and "m = LENGTH('a) - n"
  shows "drop_bit n x OR push_bit m x = word_rotr n (x :: 'a :: len word)"
proof (rule bit_word_eqI)
  fix i assume i: "i < LENGTH('a)"
  show "bit (drop_bit n x OR push_bit m x) i = bit (word_rotr n x) i"
  proof (cases "i + n < LENGTH('a)")
    case True
    then show ?thesis using assms i
      by (auto simp: bit_or_iff bit_drop_bit_eq bit_push_bit_iff bit_word_rotr_iff add.commute)
  next
    case False
    then have "(i + n) mod LENGTH('a) = i - m" using assms i by (simp add: mod_if)
    moreover have "\<not> bit x (n + i)" using False by (metis add.commute bit_imp_le_length leD leI)
    ultimately show ?thesis using assms i False
      by (auto simp: bit_or_iff bit_drop_bit_eq bit_push_bit_iff bit_word_rotr_iff)
  qed
qed

lemma rotate_left_bits:
  assumes "0 < n" and "n < LENGTH('a)" and "m = LENGTH('a) - n"
  shows "push_bit n x OR drop_bit m x = word_rotl n (x :: 'a :: len word)"
proof (rule bit_word_eqI)
  fix i assume i: "i < LENGTH('a)"
  show "bit (push_bit n x OR drop_bit m x) i = bit (word_rotl n x) i"
  proof (cases "n \<le> i")
    case True
    then have "(i + (LENGTH('a) - n)) mod LENGTH('a) = i - n" using assms i by (simp add: mod_if)
    moreover have "\<not> bit x (m + i)" using True assms by (intro notI) (drule bit_imp_le_length, simp)
    ultimately show ?thesis using assms i True
      by (auto simp: bit_or_iff bit_drop_bit_eq bit_push_bit_iff bit_word_rotl_iff)
  next
    case False
    then show ?thesis using assms i
      by (auto simp: bit_or_iff bit_drop_bit_eq bit_push_bit_iff bit_word_rotl_iff add.commute)
  qed
qed

section \<open>Lines of the regular form compute it\<close>

definition roles :: "nat \<Rightarrow> nat list" where
  "roles t = map (\<lambda>i. (i + 7 * t) mod 8) [0..<8]"

definition regular_op :: "nat \<Rightarrow> nat \<Rightarrow> nat \<Rightarrow> 'w w_op" where
  "regular_op n wb t =
     (let ts = [S1 ((t + 14) mod 16), W ((t + 9) mod 16), S0 ((t + 1) mod 16)]
      in if t < 16 then Load t (wb * t)
         else if t < n - 2 then Add (t mod 16) ts
         else Use (W (t mod 16) # ts))"

definition regular :: "nat \<Rightarrow> nat \<Rightarrow> (nat \<Rightarrow> 'w) \<Rightarrow> 'w line list" where
  "regular n wb K = map (\<lambda>t. (roles t, K t, regular_op n wb t)) [0..<n]"

lemma Ch_bits: "Ch e f g = (e AND f) XOR (NOT e AND g)"
  unfolding Ch_def by (rule bit_word_eqI) (auto simp: bit_and_iff bit_xor_iff bit_not_iff)

lemma Maj_bits: "Maj a b c = (a AND b) XOR (a AND c) XOR (b AND c)"
  unfolding Maj_def by (rule bit_word_eqI) (auto simp: bit_and_iff bit_or_iff bit_xor_iff)

lemma roles_less: "i < 8 \<Longrightarrow> roles t ! i < 8"
  by (simp add: roles_def)

lemma roles_mod: "roles (t mod 8) = roles t"
proof -
  have "(i + 7 * (t mod 8)) mod 8 = (i + 7 * t) mod 8" for i
    by (metis mod_add_right_eq mod_mult_right_eq)
  then show ?thesis by (simp add: roles_def)
qed

lemma less_8_cases: "(t :: nat) < 8 \<Longrightarrow> t = 0 \<or> t = 1 \<or> t = 2 \<or> t = 3 \<or> t = 4 \<or> t = 5 \<or> t = 6 \<or> t = 7"
  by linarith

lemma list_8: "length v = 8 \<Longrightarrow> \<exists>a b c d e f g h. v = [a, b, c, d, e, f, g, h]"
  by (auto simp: length_Suc_conv eval_nat_numeral)

lemma roles_simps:
  "roles 0 = [0, 1, 2, 3, 4, 5, 6, 7]" "roles 1 = [7, 0, 1, 2, 3, 4, 5, 6]" "roles 2 = [6, 7, 0, 1, 2, 3, 4, 5]"
  "roles 3 = [5, 6, 7, 0, 1, 2, 3, 4]" "roles 4 = [4, 5, 6, 7, 0, 1, 2, 3]" "roles 5 = [3, 4, 5, 6, 7, 0, 1, 2]"
  "roles 6 = [2, 3, 4, 5, 6, 7, 0, 1]" "roles 7 = [1, 2, 3, 4, 5, 6, 7, 0]" "roles 8 = [0, 1, 2, 3, 4, 5, 6, 7]"
  by (simp_all add: roles_def upt_rec)

lemma roles_Suc:
  "roles (Suc 0) = roles 1" "roles (Suc 1) = roles 2" "roles (Suc 2) = roles 3" "roles (Suc 3) = roles 4"
  "roles (Suc 4) = roles 5" "roles (Suc 5) = roles 6" "roles (Suc 6) = roles 7" "roles (Suc 7) = roles 8"
  by (simp_all add: eval_nat_numeral)

text \<open>A round with the roles of step \<open>t\<close> is a step of the reference, read with the roles of \<open>t + 1\<close>.\<close>

lemma Round_rotated:
  "map ((!) (Round F [0, 1, 2, 3, 4, 5, 6, 7] kw [a, b, c, d, e, f, g, h])) [7, 0, 1, 2, 3, 4, 5, 6] =
    compress_step F kw (map ((!) [a, b, c, d, e, f, g, h]) [0, 1, 2, 3, 4, 5, 6, 7])"
  "map ((!) (Round F [7, 0, 1, 2, 3, 4, 5, 6] kw [a, b, c, d, e, f, g, h])) [6, 7, 0, 1, 2, 3, 4, 5] =
    compress_step F kw (map ((!) [a, b, c, d, e, f, g, h]) [7, 0, 1, 2, 3, 4, 5, 6])"
  "map ((!) (Round F [6, 7, 0, 1, 2, 3, 4, 5] kw [a, b, c, d, e, f, g, h])) [5, 6, 7, 0, 1, 2, 3, 4] =
    compress_step F kw (map ((!) [a, b, c, d, e, f, g, h]) [6, 7, 0, 1, 2, 3, 4, 5])"
  "map ((!) (Round F [5, 6, 7, 0, 1, 2, 3, 4] kw [a, b, c, d, e, f, g, h])) [4, 5, 6, 7, 0, 1, 2, 3] =
    compress_step F kw (map ((!) [a, b, c, d, e, f, g, h]) [5, 6, 7, 0, 1, 2, 3, 4])"
  "map ((!) (Round F [4, 5, 6, 7, 0, 1, 2, 3] kw [a, b, c, d, e, f, g, h])) [3, 4, 5, 6, 7, 0, 1, 2] =
    compress_step F kw (map ((!) [a, b, c, d, e, f, g, h]) [4, 5, 6, 7, 0, 1, 2, 3])"
  "map ((!) (Round F [3, 4, 5, 6, 7, 0, 1, 2] kw [a, b, c, d, e, f, g, h])) [2, 3, 4, 5, 6, 7, 0, 1] =
    compress_step F kw (map ((!) [a, b, c, d, e, f, g, h]) [3, 4, 5, 6, 7, 0, 1, 2])"
  "map ((!) (Round F [2, 3, 4, 5, 6, 7, 0, 1] kw [a, b, c, d, e, f, g, h])) [1, 2, 3, 4, 5, 6, 7, 0] =
    compress_step F kw (map ((!) [a, b, c, d, e, f, g, h]) [2, 3, 4, 5, 6, 7, 0, 1])"
  "map ((!) (Round F [1, 2, 3, 4, 5, 6, 7, 0] kw [a, b, c, d, e, f, g, h])) [0, 1, 2, 3, 4, 5, 6, 7] =
    compress_step F kw (map ((!) [a, b, c, d, e, f, g, h]) [1, 2, 3, 4, 5, 6, 7, 0])"
  by (simp_all add: Round_def Let_def Ch_bits Maj_bits)

lemma Round_step:
  assumes "length v = 8"
  shows "map ((!) (Round F (roles t) kw v)) (roles (Suc t)) = compress_step F kw (map ((!) v) (roles t))"
proof -
  obtain a b c d e f g h where v: "v = [a, b, c, d, e, f, g, h]" using list_8 [OF assms] by blast
  have suc: "roles (Suc t) = roles (Suc (t mod 8))"
    by (metis mod_Suc_eq roles_mod)
  define r where "r = t mod 8"
  have "r < 8" by (simp add: r_def)
  then have "map ((!) (Round F (roles r) kw v)) (roles (Suc r)) = compress_step F kw (map ((!) v) (roles r))"
    by (elim less_8_cases [THEN disjE] disjE) (simp_all only: roles_simps roles_Suc v Round_rotated)
  then show ?thesis by (simp add: suc roles_mod r_def)
qed

lemma length_Round [simp]: "length (Round F rs k v) = length v"
  by (simp add: Round_def Let_def)

lemma regular_run:
  assumes "18 \<le> n" "t \<le> n" and "length v = 8" and "length w = 16"
  shows "case foldl (run_line F chunk) (v, w)
      (map (\<lambda>t. (roles t, K t, regular_op n (LENGTH('a) div 8) t)) [0..<t]) of
    (v', w') \<Rightarrow> length v' = 8 \<and> length w' = 16 \<and>
      map ((!) v') (roles t) =
        foldl (\<lambda>v t. compress_step F (K t + schedule F chunk t) v) v [0..<t] \<and>
      (\<forall>j. j < t \<longrightarrow> t \<le> j + 16 \<longrightarrow> j < n - 2 \<longrightarrow> w' ! (j mod 16) = (schedule F chunk j :: 'a :: len word))"
  using assms(2)
proof (induction t)
  case 0
  have "map ((!) v) (roles 0) = v"
    using list_8 [OF assms(3)] by (auto simp: roles_simps)
  then show ?case using assms by simp
next
  case (Suc t)
  let ?line = "\<lambda>t. (roles t, K t, regular_op n (LENGTH('a) div 8) t)"
  obtain v' w' where run: "foldl (run_line F chunk) (v, w) (map ?line [0..<t]) = (v', w')" by fastforce
  have ih: "length v' = 8" "length w' = 16"
    "map ((!) v') (roles t) = foldl (\<lambda>v t. compress_step F (K t + schedule F chunk t) v) v [0..<t]"
    "\<And>j. j < t \<Longrightarrow> t \<le> j + 16 \<Longrightarrow> j < n - 2 \<Longrightarrow> w' ! (j mod 16) = schedule F chunk j"
    using Suc run by auto
  define op :: "'a word w_op" where "op = regular_op n (LENGTH('a) div 8) t"
  have "w' ! ((t + 14) mod 16) = schedule F chunk (t - 2) \<and> w' ! ((t + 9) mod 16) = schedule F chunk (t - 7) \<and>
      w' ! ((t + 1) mod 16) = schedule F chunk (t - 15) \<and> w' ! (t mod 16) = schedule F chunk (t - 16)"
    if "\<not> t < 16"
  proof -
    have ms: "(t - 2) mod 16 = (t + 14) mod 16" "(t - 7) mod 16 = (t + 9) mod 16"
      "(t - 15) mod 16 = (t + 1) mod 16" "(t - 16) mod 16 = t mod 16"
      using that mod_add_self2 [of "t - 2" 16] mod_add_self2 [of "t - 7" 16] mod_add_self2 [of "t - 15" 16]
        mod_add_self2 [of "t - 16" 16] by (simp_all add: add.commute)
    show ?thesis
      using ih(4) [of "t - 2"] ih(4) [of "t - 7"] ih(4) [of "t - 15"] ih(4) [of "t - 16"] that Suc.prems
      by (simp add: ms)
  qed
  then have step: "w_step F chunk op w' =
      (schedule F chunk t, if t < n - 2 then w'[t mod 16 := schedule F chunk t] else w')"
  proof (cases "t < 16")
    case True
    moreover from this have "t < n - 2" using assms(1) by linarith
    ultimately show ?thesis by (simp add: op_def regular_op_def Let_def schedule.simps [of F chunk t])
  next
    case False
    then show ?thesis
      using \<open>\<not> t < 16 \<Longrightarrow> _\<close> by (simp add: op_def regular_op_def Let_def schedule.simps [of F chunk t] add_ac)
  qed
  have run': "foldl (run_line F chunk) (v, w) (map ?line [0..<Suc t]) =
      (Round F (roles t) (K t + schedule F chunk t) v', if t < n - 2 then w'[t mod 16 := schedule F chunk t] else w')"
    using run by (simp add: run_line_def step flip: op_def)
  have "(if t < n - 2 then w'[t mod 16 := schedule F chunk t] else w') ! (j mod 16) = schedule F chunk j"
    if j: "j < Suc t" "Suc t \<le> j + 16" "j < n - 2" for j
  proof (cases "j = t")
    case True
    then show ?thesis using j ih(2) by simp
  next
    case False
    then have "j mod 16 \<noteq> t mod 16"
    proof -
      have "0 < t - j" "t - j < 16" using j False by simp_all
      then have "(t - j) mod 16 \<noteq> 0" by simp
      moreover have "j mod 16 = t mod 16 \<Longrightarrow> 16 dvd t - j"
        using j False by (metis less_Suc_eq_le mod_eq_dvd_iff_nat)
      ultimately show ?thesis by (metis mod_eq_0_iff_dvd)
    qed
    then show ?thesis using ih(2) ih(4) [of j] j False by (auto simp: nth_list_update)
  qed
  then show ?case
    unfolding run' using ih(1,2,3) Round_step [OF ih(1), of F t "K t + schedule F chunk t"] by simp
qed

lemma run_regular:
  assumes "18 \<le> n" and "8 dvd n" and "length v = 8" and "length w = 16"
  shows "fst (run_lines F chunk (regular n (LENGTH('a) div 8) K) (v, w)) =
    foldl (\<lambda>v t. compress_step F (K t + (schedule F chunk t :: 'a :: len word)) v) v [0..<n]"
proof -
  obtain v' w' where run: "run_lines F chunk (regular n (LENGTH('a) div 8) K) (v, w) = (v', w')" by fastforce
  then have "length v' = 8" "map ((!) v') (roles n) =
      foldl (\<lambda>v t. compress_step F (K t + (schedule F chunk t :: 'a word)) v) v [0..<n]"
    using regular_run [OF assms(1) le_refl assms(3,4), of F K chunk]
    unfolding run_lines_def regular_def by simp_all
  moreover have "roles n = roles 0" using assms(2) roles_mod [of n] by (simp add: dvd_eq_mod_eq_0)
  ultimately show ?thesis using run list_8 [of v'] by (auto simp: roles_simps)
qed

end
