(* ===== verification/Sha256.thy ===== *)
theory Sha256
  imports Sha2
begin

text \<open>
  \<open>src/crypto/sha256.cpp\<close>: the portable \<open>sha256::Transform\<close>, which the function pointer
  \<open>Transform\<close> holds unless \<open>SHA256AutoDetect\<close> finds a faster one, and the class \<open>CSHA256\<close>.

  Main results: the 64 unrolled statements compute the compression function of the standard, with
  its constants the fractional parts of the roots of primes; \<open>CSHA256\<close> satisfies the contract of a
  hasher with the standard's digest.
\<close>

section \<open>The compression function\<close>

definition sha256_fns :: "32 word sha2_fns" where
  "sha256_fns =
     \<lparr>sigma0 = (\<lambda>x. (drop_bit 7 x OR push_bit 25 x) XOR (drop_bit 18 x OR push_bit 14 x) XOR drop_bit 3 x),
      sigma1 = (\<lambda>x. (drop_bit 17 x OR push_bit 15 x) XOR (drop_bit 19 x OR push_bit 13 x) XOR drop_bit 10 x),
      Sigma0 = (\<lambda>x. (drop_bit 2 x OR push_bit 30 x) XOR (drop_bit 13 x OR push_bit 19 x) XOR
        (drop_bit 22 x OR push_bit 10 x)),
      Sigma1 = (\<lambda>x. (drop_bit 6 x OR push_bit 26 x) XOR (drop_bit 11 x OR push_bit 21 x) XOR
        (drop_bit 25 x OR push_bit 7 x))\<rparr>"

definition sha256_Initialize :: "32 word list" where
  "sha256_Initialize =
     [0x6a09e667, 0xbb67ae85, 0x3c6ef372, 0xa54ff53a, 0x510e527f, 0x9b05688c, 0x1f83d9ab, 0x5be0cd19]"

definition sha256_lines :: "32 word line list" where
  "sha256_lines =
  [([0, 1, 2, 3, 4, 5, 6, 7], 0x428a2f98, Load 0 0),
   ([7, 0, 1, 2, 3, 4, 5, 6], 0x71374491, Load 1 4),
   ([6, 7, 0, 1, 2, 3, 4, 5], 0xb5c0fbcf, Load 2 8),
   ([5, 6, 7, 0, 1, 2, 3, 4], 0xe9b5dba5, Load 3 12),
   ([4, 5, 6, 7, 0, 1, 2, 3], 0x3956c25b, Load 4 16),
   ([3, 4, 5, 6, 7, 0, 1, 2], 0x59f111f1, Load 5 20),
   ([2, 3, 4, 5, 6, 7, 0, 1], 0x923f82a4, Load 6 24),
   ([1, 2, 3, 4, 5, 6, 7, 0], 0xab1c5ed5, Load 7 28),
   ([0, 1, 2, 3, 4, 5, 6, 7], 0xd807aa98, Load 8 32),
   ([7, 0, 1, 2, 3, 4, 5, 6], 0x12835b01, Load 9 36),
   ([6, 7, 0, 1, 2, 3, 4, 5], 0x243185be, Load 10 40),
   ([5, 6, 7, 0, 1, 2, 3, 4], 0x550c7dc3, Load 11 44),
   ([4, 5, 6, 7, 0, 1, 2, 3], 0x72be5d74, Load 12 48),
   ([3, 4, 5, 6, 7, 0, 1, 2], 0x80deb1fe, Load 13 52),
   ([2, 3, 4, 5, 6, 7, 0, 1], 0x9bdc06a7, Load 14 56),
   ([1, 2, 3, 4, 5, 6, 7, 0], 0xc19bf174, Load 15 60),
   ([0, 1, 2, 3, 4, 5, 6, 7], 0xe49b69c1, Add 0 [S1 14, W 9, S0 1]),
   ([7, 0, 1, 2, 3, 4, 5, 6], 0xefbe4786, Add 1 [S1 15, W 10, S0 2]),
   ([6, 7, 0, 1, 2, 3, 4, 5], 0x0fc19dc6, Add 2 [S1 0, W 11, S0 3]),
   ([5, 6, 7, 0, 1, 2, 3, 4], 0x240ca1cc, Add 3 [S1 1, W 12, S0 4]),
   ([4, 5, 6, 7, 0, 1, 2, 3], 0x2de92c6f, Add 4 [S1 2, W 13, S0 5]),
   ([3, 4, 5, 6, 7, 0, 1, 2], 0x4a7484aa, Add 5 [S1 3, W 14, S0 6]),
   ([2, 3, 4, 5, 6, 7, 0, 1], 0x5cb0a9dc, Add 6 [S1 4, W 15, S0 7]),
   ([1, 2, 3, 4, 5, 6, 7, 0], 0x76f988da, Add 7 [S1 5, W 0, S0 8]),
   ([0, 1, 2, 3, 4, 5, 6, 7], 0x983e5152, Add 8 [S1 6, W 1, S0 9]),
   ([7, 0, 1, 2, 3, 4, 5, 6], 0xa831c66d, Add 9 [S1 7, W 2, S0 10]),
   ([6, 7, 0, 1, 2, 3, 4, 5], 0xb00327c8, Add 10 [S1 8, W 3, S0 11]),
   ([5, 6, 7, 0, 1, 2, 3, 4], 0xbf597fc7, Add 11 [S1 9, W 4, S0 12]),
   ([4, 5, 6, 7, 0, 1, 2, 3], 0xc6e00bf3, Add 12 [S1 10, W 5, S0 13]),
   ([3, 4, 5, 6, 7, 0, 1, 2], 0xd5a79147, Add 13 [S1 11, W 6, S0 14]),
   ([2, 3, 4, 5, 6, 7, 0, 1], 0x06ca6351, Add 14 [S1 12, W 7, S0 15]),
   ([1, 2, 3, 4, 5, 6, 7, 0], 0x14292967, Add 15 [S1 13, W 8, S0 0]),
   ([0, 1, 2, 3, 4, 5, 6, 7], 0x27b70a85, Add 0 [S1 14, W 9, S0 1]),
   ([7, 0, 1, 2, 3, 4, 5, 6], 0x2e1b2138, Add 1 [S1 15, W 10, S0 2]),
   ([6, 7, 0, 1, 2, 3, 4, 5], 0x4d2c6dfc, Add 2 [S1 0, W 11, S0 3]),
   ([5, 6, 7, 0, 1, 2, 3, 4], 0x53380d13, Add 3 [S1 1, W 12, S0 4]),
   ([4, 5, 6, 7, 0, 1, 2, 3], 0x650a7354, Add 4 [S1 2, W 13, S0 5]),
   ([3, 4, 5, 6, 7, 0, 1, 2], 0x766a0abb, Add 5 [S1 3, W 14, S0 6]),
   ([2, 3, 4, 5, 6, 7, 0, 1], 0x81c2c92e, Add 6 [S1 4, W 15, S0 7]),
   ([1, 2, 3, 4, 5, 6, 7, 0], 0x92722c85, Add 7 [S1 5, W 0, S0 8]),
   ([0, 1, 2, 3, 4, 5, 6, 7], 0xa2bfe8a1, Add 8 [S1 6, W 1, S0 9]),
   ([7, 0, 1, 2, 3, 4, 5, 6], 0xa81a664b, Add 9 [S1 7, W 2, S0 10]),
   ([6, 7, 0, 1, 2, 3, 4, 5], 0xc24b8b70, Add 10 [S1 8, W 3, S0 11]),
   ([5, 6, 7, 0, 1, 2, 3, 4], 0xc76c51a3, Add 11 [S1 9, W 4, S0 12]),
   ([4, 5, 6, 7, 0, 1, 2, 3], 0xd192e819, Add 12 [S1 10, W 5, S0 13]),
   ([3, 4, 5, 6, 7, 0, 1, 2], 0xd6990624, Add 13 [S1 11, W 6, S0 14]),
   ([2, 3, 4, 5, 6, 7, 0, 1], 0xf40e3585, Add 14 [S1 12, W 7, S0 15]),
   ([1, 2, 3, 4, 5, 6, 7, 0], 0x106aa070, Add 15 [S1 13, W 8, S0 0]),
   ([0, 1, 2, 3, 4, 5, 6, 7], 0x19a4c116, Add 0 [S1 14, W 9, S0 1]),
   ([7, 0, 1, 2, 3, 4, 5, 6], 0x1e376c08, Add 1 [S1 15, W 10, S0 2]),
   ([6, 7, 0, 1, 2, 3, 4, 5], 0x2748774c, Add 2 [S1 0, W 11, S0 3]),
   ([5, 6, 7, 0, 1, 2, 3, 4], 0x34b0bcb5, Add 3 [S1 1, W 12, S0 4]),
   ([4, 5, 6, 7, 0, 1, 2, 3], 0x391c0cb3, Add 4 [S1 2, W 13, S0 5]),
   ([3, 4, 5, 6, 7, 0, 1, 2], 0x4ed8aa4a, Add 5 [S1 3, W 14, S0 6]),
   ([2, 3, 4, 5, 6, 7, 0, 1], 0x5b9cca4f, Add 6 [S1 4, W 15, S0 7]),
   ([1, 2, 3, 4, 5, 6, 7, 0], 0x682e6ff3, Add 7 [S1 5, W 0, S0 8]),
   ([0, 1, 2, 3, 4, 5, 6, 7], 0x748f82ee, Add 8 [S1 6, W 1, S0 9]),
   ([7, 0, 1, 2, 3, 4, 5, 6], 0x78a5636f, Add 9 [S1 7, W 2, S0 10]),
   ([6, 7, 0, 1, 2, 3, 4, 5], 0x84c87814, Add 10 [S1 8, W 3, S0 11]),
   ([5, 6, 7, 0, 1, 2, 3, 4], 0x8cc70208, Add 11 [S1 9, W 4, S0 12]),
   ([4, 5, 6, 7, 0, 1, 2, 3], 0x90befffa, Add 12 [S1 10, W 5, S0 13]),
   ([3, 4, 5, 6, 7, 0, 1, 2], 0xa4506ceb, Add 13 [S1 11, W 6, S0 14]),
   ([2, 3, 4, 5, 6, 7, 0, 1], 0xbef9a3f7, Use [W 14, S1 12, W 7, S0 15]),
   ([1, 2, 3, 4, 5, 6, 7, 0], 0xc67178f2, Use [W 15, S1 13, W 8, S0 0])]"

text \<open>The body of the loop; the variables \<open>w0\<close> to \<open>w15\<close> are all assigned before they are read.\<close>

definition sha256_block :: "32 word list \<Rightarrow> bytes \<Rightarrow> 32 word list" where
  "sha256_block s chunk = map2 (+) s (fst (run_lines sha256_fns chunk sha256_lines (s, replicate 16 0)))"

fun sha256_Transform :: "32 word list \<Rightarrow> bytes \<Rightarrow> nat \<Rightarrow> 32 word list" where
  "sha256_Transform s chunk 0 = s"
| "sha256_Transform s chunk (Suc blocks) =
     sha256_Transform (sha256_block s (take 64 chunk)) (drop 64 chunk) blocks"

section \<open>The class\<close>

type_synonym CSHA256 = "32 word list md_state"

text \<open>\<open>Write\<close> passes all the full blocks to one call of \<open>Transform\<close>.\<close>

definition sha256_blocks :: "bytes \<Rightarrow> CSHA256 \<Rightarrow> bytes \<times> CSHA256" where
  "sha256_blocks data h =
     (if 64 \<le> length data
      then
        let blocks = length data div 64
        in (drop (64 * blocks) data,
            h\<lparr>md_s := sha256_Transform (md_s h) data blocks, md_bytes := md_bytes h + word_of_nat (64 * blocks)\<rparr>)
      else (data, h))"

definition CSHA256_Write :: "bytes \<Rightarrow> CSHA256 \<Rightarrow> CSHA256" where
  "CSHA256_Write data h =
     (let bufsize = unat (md_bytes h) mod 64;
          (data, h, bufsize) =
            (if bufsize \<noteq> 0 \<and> 64 \<le> bufsize + length data
             then
               let buf = memcpy_at (md_buf h) bufsize (take (64 - bufsize) data)
               in (drop (64 - bufsize) data,
                   h\<lparr>md_buf := buf, md_bytes := md_bytes h + word_of_nat (64 - bufsize),
                     md_s := sha256_Transform (md_s h) buf 1\<rparr>, 0)
             else (data, h, bufsize));
          (data, h) = sha256_blocks data h
      in if data \<noteq> []
         then h\<lparr>md_buf := memcpy_at (md_buf h) bufsize data, md_bytes := md_bytes h + word_of_nat (length data)\<rparr>
         else h)"

definition sha256_output :: "32 word list \<Rightarrow> bytes" where
  "sha256_output s = concat (map WriteBE32 s)"

definition CSHA256_Finalize :: "CSHA256 \<Rightarrow> bytes \<times> CSHA256" where
  "CSHA256_Finalize h =
     (let pad = 0x80 # replicate 63 0;
          sizedesc = WriteBE64 (push_bit 3 (md_bytes h));
          h = CSHA256_Write (take (1 + ((119 - unat (md_bytes h) mod 64) mod 64)) pad) h;
          h = CSHA256_Write sizedesc h
      in (sha256_output (md_s h), h))"

definition CSHA256_Reset :: "CSHA256 \<Rightarrow> CSHA256" where
  "CSHA256_Reset h = h\<lparr>md_bytes := 0, md_s := sha256_Initialize\<rparr>"

text \<open>The constructor leaves the buffer as it is; \<open>junk\<close> is what the memory holds.\<close>

definition CSHA256_new :: "bytes \<Rightarrow> CSHA256" where
  "CSHA256_new junk = \<lparr>md_s = sha256_Initialize, md_buf = junk, md_bytes = 0\<rparr>"

definition CSHA256 :: "bytes \<Rightarrow> CSHA256 hasher" where
  "CSHA256 junk =
     \<lparr>New = CSHA256_new junk, Reset = CSHA256_Reset, Write = CSHA256_Write, Finalize = CSHA256_Finalize,
      OUTPUT_SIZE = 32\<rparr>"

section \<open>Reference: SHA-256\<close>

text \<open>
  The functions with rotations, the constants from the cube roots of the first 64 primes and the
  initial state from the square roots of the first eight.
\<close>

definition fips256_fns :: "32 word sha2_fns" where
  "fips256_fns =
     \<lparr>sigma0 = (\<lambda>x. word_rotr 7 x XOR word_rotr 18 x XOR drop_bit 3 x),
      sigma1 = (\<lambda>x. word_rotr 17 x XOR word_rotr 19 x XOR drop_bit 10 x),
      Sigma0 = (\<lambda>x. word_rotr 2 x XOR word_rotr 13 x XOR word_rotr 22 x),
      Sigma1 = (\<lambda>x. word_rotr 6 x XOR word_rotr 11 x XOR word_rotr 25 x)\<rparr>"

definition fips256_K :: "nat \<Rightarrow> 32 word" where
  "fips256_K t = word_of_nat (root_floor 3 (primes ! t * 2 ^ 96))"

definition fips256_H0 :: "32 word list" where
  "fips256_H0 = map (\<lambda>p. word_of_nat (root_floor 2 (p * 2 ^ 64))) (take 8 primes)"

definition fips_SHA256 :: "bytes \<Rightarrow> bytes" where
  "fips_SHA256 =
     md_digest 64 8 (sha2_compress fips256_fns fips256_K 64) fips256_H0 WriteBE64 (\<lambda>s. concat (map WriteBE32 s))"


section \<open>The statements compute the standard's compression function\<close>

lemma fns_fips: "sha256_fns = fips256_fns"
  by (simp add: sha256_fns_def fips256_fns_def fun_eq_iff rotate_bits)

text \<open>The integer part of the cube root of a prime below 512.\<close>

definition cbrt :: "nat \<Rightarrow> nat" where
  "cbrt p = (if p < 8 then 1 else if p < 27 then 2 else if p < 64 then 3 else if p < 125 then 4
     else if p < 216 then 5 else if p < 343 then 6 else 7)"

lemma sha256_constants:
  "list_all (\<lambda>(p, rs, k, op). (cbrt p * 2 ^ 32 + unat k) ^ 3 \<le> p * 2 ^ 96 \<and>
      p * 2 ^ 96 < (cbrt p * 2 ^ 32 + unat k + 1) ^ 3) (zip (take 64 primes) sha256_lines)"
  by (simp add: sha256_lines_def primes_def cbrt_def)

lemma length_sha256_lines [simp]: "length sha256_lines = 64"
  by (simp add: sha256_lines_def)

lemma length_primes [simp]: "length primes = 80"
  by (simp add: primes_def)

lemma sha256_K: "t < 64 \<Longrightarrow> fst (snd (sha256_lines ! t)) = fips256_K t"
proof -
  assume t: "t < 64"
  obtain rs k op where line: "sha256_lines ! t = (rs, k, op)" by (metis prod.exhaust)
  have "zip (take 64 primes) sha256_lines ! t = (primes ! t, rs, k, op)" using t line by simp
  then have "(cbrt (primes ! t) * 2 ^ 32 + unat k) ^ 3 \<le> primes ! t * 2 ^ 96 \<and>
      primes ! t * 2 ^ 96 < (cbrt (primes ! t) * 2 ^ 32 + unat k + 1) ^ 3"
    using sha256_constants [unfolded list_all_length] t by fastforce
  then show ?thesis
    using root_bits [where 'a = 32, of "cbrt (primes ! t)" "unat k" 3 "primes ! t * 2 ^ 96"] line
    by (simp add: fips256_K_def)
qed

lemma sha256_shape:
  "map (\<lambda>(rs, k, op). (rs, op)) sha256_lines = map (\<lambda>t. (roles t, regular_op 64 4 t)) [0..<64]"
  by (simp add: sha256_lines_def roles_def regular_op_def upt_rec)

lemma sha256_regular: "sha256_lines = regular 64 4 fips256_K"
proof (rule nth_equalityI)
  show "length sha256_lines = length (regular 64 4 fips256_K)" by (simp add: regular_def)
  fix t assume "t < length sha256_lines"
  then have t: "t < 64" by simp
  then have "map (\<lambda>(rs, k, op). (rs, op)) sha256_lines ! t = (roles t, regular_op 64 4 t)"
    unfolding sha256_shape by simp
  with t sha256_K [OF t] show "sha256_lines ! t = regular 64 4 fips256_K ! t"
    by (cases "sha256_lines ! t") (simp add: regular_def)
qed

lemma sqrt_bits:
  assumes "(c * 2 ^ 32 + k) ^ 2 \<le> p * 2 ^ 64" and "p * 2 ^ 64 < (c * 2 ^ 32 + k + 1) ^ 2"
  shows "(word_of_nat (root_floor 2 (p * 2 ^ 64)) :: 32 word) = word_of_nat k"
  using assms root_bits [where 'a = 32, of c k 2 "p * 2 ^ 64"] by simp

lemma sha256_initial: "sha256_Initialize = fips256_H0"
  by (simp add: sha256_Initialize_def fips256_H0_def primes_def
    sqrt_bits [of 1 "0x6a09e667" 2, simplified] sqrt_bits [of 1 "0xbb67ae85" 3, simplified] sqrt_bits [of 2 "0x3c6ef372" 5, simplified]
    sqrt_bits [of 2 "0xa54ff53a" 7, simplified] sqrt_bits [of 3 "0x510e527f" 11, simplified] sqrt_bits [of 3 "0x9b05688c" 13, simplified]
    sqrt_bits [of 4 "0x1f83d9ab" 17, simplified] sqrt_bits [of 4 "0x5be0cd19" 19, simplified])

lemma sha256_block_fips:
  assumes "length s = 8"
  shows "sha256_block s chunk = sha2_compress fips256_fns fips256_K 64 s chunk"
  using run_regular [where n = 64 and v = s and w = "replicate 16 0" and F = fips256_fns and chunk = chunk and K = fips256_K] assms
  by (simp add: sha256_block_def sha2_compress_def sha256_regular fns_fips)

section \<open>The class satisfies the contract\<close>

lemma length_sha256_block [simp]: "length s = 8 \<Longrightarrow> length (sha256_block s chunk) = 8"
proof -
  have "length (fst (run_lines F chunk lines (v, w))) = length v" for F :: "32 word sha2_fns" and lines v w
    unfolding run_lines_def
    by (induction lines arbitrary: v w) (auto simp: run_line_def split: prod.split)
  then show "length s = 8 \<Longrightarrow> ?thesis" by (simp add: sha256_block_def)
qed

lemma sha256_blocks_loop: "full_chunks 64 sha256_block data h = sha256_blocks data h"
proof (induction "64 :: nat" sha256_block data h rule: full_chunks.induct)
  case (1 data h)
  show ?case
  proof (cases "64 \<le> length data")
    case True
    then have div: "length data div 64 = Suc (length (drop 64 data) div 64)" by (simp add: le_div_geq)
    let ?h = "h\<lparr>md_s := sha256_block (md_s h) (take 64 data), md_bytes := md_bytes h + word_of_nat 64\<rparr>"
    have "full_chunks 64 sha256_block data h = sha256_blocks (drop 64 data) ?h"
      using True 1 by (simp add: full_chunks.simps [of 64 _ data])
    also have "\<dots> = sha256_blocks data h"
    proof (cases "64 \<le> length (drop 64 data)")
      case True
      then show ?thesis using \<open>64 \<le> length data\<close> unfolding sha256_blocks_def div
        by (simp add: Let_def add.commute algebra_simps)
    next
      case False
      then have "length (drop 64 data) div 64 = 0" by simp
      then show ?thesis using False \<open>64 \<le> length data\<close> unfolding sha256_blocks_def div
        by (simp add: Let_def)
    qed
    finally show ?thesis .
  next
    case False
    then show ?thesis by (simp add: full_chunks.simps [of 64 _ data] sha256_blocks_def)
  qed
qed

lemma CSHA256_Write_md: "CSHA256_Write = md_Write 64 sha256_block"
  by (intro ext)
    (simp add: CSHA256_Write_def md_Write_def sha256_blocks_loop md_fill_def md_rest_def Let_def case_prod_unfold)

lemma CSHA256_Finalize_md: "CSHA256_Finalize = md_Finalize 64 8 sha256_block WriteBE64 sha256_output"
  by (intro ext) (simp add: CSHA256_Finalize_def md_Finalize_def md_pad_def CSHA256_Write_md Let_def)

lemma CSHA256_md: "CSHA256 junk = md_hasher 64 8 sha256_block sha256_Initialize WriteBE64 sha256_output 32 junk"
  by (simp add: CSHA256_def md_hasher_def CSHA256_new_def CSHA256_Write_md CSHA256_Finalize_md
    CSHA256_Reset_def md_Reset_def fun_eq_iff)

lemma length_WriteBE32 [simp]: "length (WriteBE32 x) = 4"
  by (simp add: WriteBE32_def)

lemma length_sha256_output: "length s = 8 \<Longrightarrow> length (sha256_output s) = 32"
  by (simp add: sha256_output_def length_concat o_def sum_list_triv)

lemma sha256_digest: "md_digest 64 8 sha256_block sha256_Initialize WriteBE64 sha256_output = fips_SHA256"
proof
  fix m
  have "foldl sha256_block sha256_Initialize cs = foldl (sha2_compress fips256_fns fips256_K 64) fips256_H0 cs" for cs
    unfolding sha256_initial [symmetric]
    by (rule foldl_cong_inv [where P = "\<lambda>s. length s = 8"])
      (simp add: sha256_Initialize_def, erule length_sha256_block, erule sha256_block_fips)
  then show "md_digest 64 8 sha256_block sha256_Initialize WriteBE64 sha256_output m = fips_SHA256 m"
    by (simp add: md_digest_def fips_SHA256_def sha256_output_def)
qed

abbreviation sha256_rep :: "CSHA256 \<Rightarrow> bytes \<Rightarrow> bool" where
  "sha256_rep \<equiv> md_rep 64 sha256_block sha256_Initialize"

lemma CSHA256_contract: "length junk = 64 \<Longrightarrow> hasher_contract (CSHA256 junk) sha256_rep fips_SHA256"
  unfolding CSHA256_md sha256_digest [symmetric]
  by (rule md_contract [where P = "\<lambda>s. length s = 8"])
    (simp_all add: length_sha256_output sha256_Initialize_def)

interpretation sha256: hasher_contract "CSHA256 (replicate 64 0)" sha256_rep fips_SHA256
  by (rule CSHA256_contract) simp

end
