(* ===== verification/Sha512.thy ===== *)
theory Sha512
  imports Sha256
begin

text \<open>
  \<open>src/crypto/sha512.cpp\<close>: the compression function, with eighty unrolled statements over 64-bit words,
  and the class \<open>CSHA512\<close> with blocks of 128 bytes.
\<close>

section \<open>The code\<close>

definition sha512_fns :: "64 word sha2_fns" where
  "sha512_fns =
     \<lparr>sigma0 = (\<lambda>x. (drop_bit 1 x OR push_bit 63 x) XOR (drop_bit 8 x OR push_bit 56 x) XOR drop_bit 7 x),
      sigma1 = (\<lambda>x. (drop_bit 19 x OR push_bit 45 x) XOR (drop_bit 61 x OR push_bit 3 x) XOR drop_bit 6 x),
      Sigma0 = (\<lambda>x. (drop_bit 28 x OR push_bit 36 x) XOR (drop_bit 34 x OR push_bit 30 x) XOR
        (drop_bit 39 x OR push_bit 25 x)),
      Sigma1 = (\<lambda>x. (drop_bit 14 x OR push_bit 50 x) XOR (drop_bit 18 x OR push_bit 46 x) XOR
        (drop_bit 41 x OR push_bit 23 x))\<rparr>"

definition sha512_Initialize :: "64 word list" where
  "sha512_Initialize =
     [0x6a09e667f3bcc908, 0xbb67ae8584caa73b, 0x3c6ef372fe94f82b, 0xa54ff53a5f1d36f1,
      0x510e527fade682d1, 0x9b05688c2b3e6c1f, 0x1f83d9abfb41bd6b, 0x5be0cd19137e2179]"

definition sha512_lines :: "64 word line list" where
  "sha512_lines =
  [([0, 1, 2, 3, 4, 5, 6, 7], 0x428a2f98d728ae22, Load 0 0),
   ([7, 0, 1, 2, 3, 4, 5, 6], 0x7137449123ef65cd, Load 1 8),
   ([6, 7, 0, 1, 2, 3, 4, 5], 0xb5c0fbcfec4d3b2f, Load 2 16),
   ([5, 6, 7, 0, 1, 2, 3, 4], 0xe9b5dba58189dbbc, Load 3 24),
   ([4, 5, 6, 7, 0, 1, 2, 3], 0x3956c25bf348b538, Load 4 32),
   ([3, 4, 5, 6, 7, 0, 1, 2], 0x59f111f1b605d019, Load 5 40),
   ([2, 3, 4, 5, 6, 7, 0, 1], 0x923f82a4af194f9b, Load 6 48),
   ([1, 2, 3, 4, 5, 6, 7, 0], 0xab1c5ed5da6d8118, Load 7 56),
   ([0, 1, 2, 3, 4, 5, 6, 7], 0xd807aa98a3030242, Load 8 64),
   ([7, 0, 1, 2, 3, 4, 5, 6], 0x12835b0145706fbe, Load 9 72),
   ([6, 7, 0, 1, 2, 3, 4, 5], 0x243185be4ee4b28c, Load 10 80),
   ([5, 6, 7, 0, 1, 2, 3, 4], 0x550c7dc3d5ffb4e2, Load 11 88),
   ([4, 5, 6, 7, 0, 1, 2, 3], 0x72be5d74f27b896f, Load 12 96),
   ([3, 4, 5, 6, 7, 0, 1, 2], 0x80deb1fe3b1696b1, Load 13 104),
   ([2, 3, 4, 5, 6, 7, 0, 1], 0x9bdc06a725c71235, Load 14 112),
   ([1, 2, 3, 4, 5, 6, 7, 0], 0xc19bf174cf692694, Load 15 120),
   ([0, 1, 2, 3, 4, 5, 6, 7], 0xe49b69c19ef14ad2, Add 0 [S1 14, W 9, S0 1]),
   ([7, 0, 1, 2, 3, 4, 5, 6], 0xefbe4786384f25e3, Add 1 [S1 15, W 10, S0 2]),
   ([6, 7, 0, 1, 2, 3, 4, 5], 0x0fc19dc68b8cd5b5, Add 2 [S1 0, W 11, S0 3]),
   ([5, 6, 7, 0, 1, 2, 3, 4], 0x240ca1cc77ac9c65, Add 3 [S1 1, W 12, S0 4]),
   ([4, 5, 6, 7, 0, 1, 2, 3], 0x2de92c6f592b0275, Add 4 [S1 2, W 13, S0 5]),
   ([3, 4, 5, 6, 7, 0, 1, 2], 0x4a7484aa6ea6e483, Add 5 [S1 3, W 14, S0 6]),
   ([2, 3, 4, 5, 6, 7, 0, 1], 0x5cb0a9dcbd41fbd4, Add 6 [S1 4, W 15, S0 7]),
   ([1, 2, 3, 4, 5, 6, 7, 0], 0x76f988da831153b5, Add 7 [S1 5, W 0, S0 8]),
   ([0, 1, 2, 3, 4, 5, 6, 7], 0x983e5152ee66dfab, Add 8 [S1 6, W 1, S0 9]),
   ([7, 0, 1, 2, 3, 4, 5, 6], 0xa831c66d2db43210, Add 9 [S1 7, W 2, S0 10]),
   ([6, 7, 0, 1, 2, 3, 4, 5], 0xb00327c898fb213f, Add 10 [S1 8, W 3, S0 11]),
   ([5, 6, 7, 0, 1, 2, 3, 4], 0xbf597fc7beef0ee4, Add 11 [S1 9, W 4, S0 12]),
   ([4, 5, 6, 7, 0, 1, 2, 3], 0xc6e00bf33da88fc2, Add 12 [S1 10, W 5, S0 13]),
   ([3, 4, 5, 6, 7, 0, 1, 2], 0xd5a79147930aa725, Add 13 [S1 11, W 6, S0 14]),
   ([2, 3, 4, 5, 6, 7, 0, 1], 0x06ca6351e003826f, Add 14 [S1 12, W 7, S0 15]),
   ([1, 2, 3, 4, 5, 6, 7, 0], 0x142929670a0e6e70, Add 15 [S1 13, W 8, S0 0]),
   ([0, 1, 2, 3, 4, 5, 6, 7], 0x27b70a8546d22ffc, Add 0 [S1 14, W 9, S0 1]),
   ([7, 0, 1, 2, 3, 4, 5, 6], 0x2e1b21385c26c926, Add 1 [S1 15, W 10, S0 2]),
   ([6, 7, 0, 1, 2, 3, 4, 5], 0x4d2c6dfc5ac42aed, Add 2 [S1 0, W 11, S0 3]),
   ([5, 6, 7, 0, 1, 2, 3, 4], 0x53380d139d95b3df, Add 3 [S1 1, W 12, S0 4]),
   ([4, 5, 6, 7, 0, 1, 2, 3], 0x650a73548baf63de, Add 4 [S1 2, W 13, S0 5]),
   ([3, 4, 5, 6, 7, 0, 1, 2], 0x766a0abb3c77b2a8, Add 5 [S1 3, W 14, S0 6]),
   ([2, 3, 4, 5, 6, 7, 0, 1], 0x81c2c92e47edaee6, Add 6 [S1 4, W 15, S0 7]),
   ([1, 2, 3, 4, 5, 6, 7, 0], 0x92722c851482353b, Add 7 [S1 5, W 0, S0 8]),
   ([0, 1, 2, 3, 4, 5, 6, 7], 0xa2bfe8a14cf10364, Add 8 [S1 6, W 1, S0 9]),
   ([7, 0, 1, 2, 3, 4, 5, 6], 0xa81a664bbc423001, Add 9 [S1 7, W 2, S0 10]),
   ([6, 7, 0, 1, 2, 3, 4, 5], 0xc24b8b70d0f89791, Add 10 [S1 8, W 3, S0 11]),
   ([5, 6, 7, 0, 1, 2, 3, 4], 0xc76c51a30654be30, Add 11 [S1 9, W 4, S0 12]),
   ([4, 5, 6, 7, 0, 1, 2, 3], 0xd192e819d6ef5218, Add 12 [S1 10, W 5, S0 13]),
   ([3, 4, 5, 6, 7, 0, 1, 2], 0xd69906245565a910, Add 13 [S1 11, W 6, S0 14]),
   ([2, 3, 4, 5, 6, 7, 0, 1], 0xf40e35855771202a, Add 14 [S1 12, W 7, S0 15]),
   ([1, 2, 3, 4, 5, 6, 7, 0], 0x106aa07032bbd1b8, Add 15 [S1 13, W 8, S0 0]),
   ([0, 1, 2, 3, 4, 5, 6, 7], 0x19a4c116b8d2d0c8, Add 0 [S1 14, W 9, S0 1]),
   ([7, 0, 1, 2, 3, 4, 5, 6], 0x1e376c085141ab53, Add 1 [S1 15, W 10, S0 2]),
   ([6, 7, 0, 1, 2, 3, 4, 5], 0x2748774cdf8eeb99, Add 2 [S1 0, W 11, S0 3]),
   ([5, 6, 7, 0, 1, 2, 3, 4], 0x34b0bcb5e19b48a8, Add 3 [S1 1, W 12, S0 4]),
   ([4, 5, 6, 7, 0, 1, 2, 3], 0x391c0cb3c5c95a63, Add 4 [S1 2, W 13, S0 5]),
   ([3, 4, 5, 6, 7, 0, 1, 2], 0x4ed8aa4ae3418acb, Add 5 [S1 3, W 14, S0 6]),
   ([2, 3, 4, 5, 6, 7, 0, 1], 0x5b9cca4f7763e373, Add 6 [S1 4, W 15, S0 7]),
   ([1, 2, 3, 4, 5, 6, 7, 0], 0x682e6ff3d6b2b8a3, Add 7 [S1 5, W 0, S0 8]),
   ([0, 1, 2, 3, 4, 5, 6, 7], 0x748f82ee5defb2fc, Add 8 [S1 6, W 1, S0 9]),
   ([7, 0, 1, 2, 3, 4, 5, 6], 0x78a5636f43172f60, Add 9 [S1 7, W 2, S0 10]),
   ([6, 7, 0, 1, 2, 3, 4, 5], 0x84c87814a1f0ab72, Add 10 [S1 8, W 3, S0 11]),
   ([5, 6, 7, 0, 1, 2, 3, 4], 0x8cc702081a6439ec, Add 11 [S1 9, W 4, S0 12]),
   ([4, 5, 6, 7, 0, 1, 2, 3], 0x90befffa23631e28, Add 12 [S1 10, W 5, S0 13]),
   ([3, 4, 5, 6, 7, 0, 1, 2], 0xa4506cebde82bde9, Add 13 [S1 11, W 6, S0 14]),
   ([2, 3, 4, 5, 6, 7, 0, 1], 0xbef9a3f7b2c67915, Add 14 [S1 12, W 7, S0 15]),
   ([1, 2, 3, 4, 5, 6, 7, 0], 0xc67178f2e372532b, Add 15 [S1 13, W 8, S0 0]),
   ([0, 1, 2, 3, 4, 5, 6, 7], 0xca273eceea26619c, Add 0 [S1 14, W 9, S0 1]),
   ([7, 0, 1, 2, 3, 4, 5, 6], 0xd186b8c721c0c207, Add 1 [S1 15, W 10, S0 2]),
   ([6, 7, 0, 1, 2, 3, 4, 5], 0xeada7dd6cde0eb1e, Add 2 [S1 0, W 11, S0 3]),
   ([5, 6, 7, 0, 1, 2, 3, 4], 0xf57d4f7fee6ed178, Add 3 [S1 1, W 12, S0 4]),
   ([4, 5, 6, 7, 0, 1, 2, 3], 0x06f067aa72176fba, Add 4 [S1 2, W 13, S0 5]),
   ([3, 4, 5, 6, 7, 0, 1, 2], 0x0a637dc5a2c898a6, Add 5 [S1 3, W 14, S0 6]),
   ([2, 3, 4, 5, 6, 7, 0, 1], 0x113f9804bef90dae, Add 6 [S1 4, W 15, S0 7]),
   ([1, 2, 3, 4, 5, 6, 7, 0], 0x1b710b35131c471b, Add 7 [S1 5, W 0, S0 8]),
   ([0, 1, 2, 3, 4, 5, 6, 7], 0x28db77f523047d84, Add 8 [S1 6, W 1, S0 9]),
   ([7, 0, 1, 2, 3, 4, 5, 6], 0x32caab7b40c72493, Add 9 [S1 7, W 2, S0 10]),
   ([6, 7, 0, 1, 2, 3, 4, 5], 0x3c9ebe0a15c9bebc, Add 10 [S1 8, W 3, S0 11]),
   ([5, 6, 7, 0, 1, 2, 3, 4], 0x431d67c49c100d4c, Add 11 [S1 9, W 4, S0 12]),
   ([4, 5, 6, 7, 0, 1, 2, 3], 0x4cc5d4becb3e42b6, Add 12 [S1 10, W 5, S0 13]),
   ([3, 4, 5, 6, 7, 0, 1, 2], 0x597f299cfc657e2a, Add 13 [S1 11, W 6, S0 14]),
   ([2, 3, 4, 5, 6, 7, 0, 1], 0x5fcb6fab3ad6faec, Use [W 14, S1 12, W 7, S0 15]),
   ([1, 2, 3, 4, 5, 6, 7, 0], 0x6c44198c4a475817, Use [W 15, S1 13, W 8, S0 0])]"

definition sha512_Transform :: "64 word list \<Rightarrow> bytes \<Rightarrow> 64 word list" where
  "sha512_Transform s chunk = map2 (+) s (fst (run_lines sha512_fns chunk sha512_lines (s, replicate 16 0)))"

definition sha512_output :: "64 word list \<Rightarrow> bytes" where
  "sha512_output s = concat (map WriteBE64 s)"

text \<open>\<open>sizedesc\<close>: sixteen bytes, of which the last eight hold the size.\<close>

definition sha512_sizedesc :: "64 word \<Rightarrow> bytes" where
  "sha512_sizedesc bits = replicate 8 0 @ WriteBE64 bits"

definition CSHA512 :: "bytes \<Rightarrow> 64 word list md_state hasher" where
  "CSHA512 junk = md_hasher 128 16 sha512_Transform sha512_Initialize sha512_sizedesc sha512_output 64 junk"

section \<open>Reference: SHA-512\<close>

definition fips512_fns :: "64 word sha2_fns" where
  "fips512_fns =
     \<lparr>sigma0 = (\<lambda>x. word_rotr 1 x XOR word_rotr 8 x XOR drop_bit 7 x),
      sigma1 = (\<lambda>x. word_rotr 19 x XOR word_rotr 61 x XOR drop_bit 6 x),
      Sigma0 = (\<lambda>x. word_rotr 28 x XOR word_rotr 34 x XOR word_rotr 39 x),
      Sigma1 = (\<lambda>x. word_rotr 14 x XOR word_rotr 18 x XOR word_rotr 41 x)\<rparr>"

definition fips512_K :: "nat \<Rightarrow> 64 word" where
  "fips512_K t = word_of_nat (root_floor 3 (primes ! t * 2 ^ 192))"

definition fips512_H0 :: "64 word list" where
  "fips512_H0 = map (\<lambda>p. word_of_nat (root_floor 2 (p * 2 ^ 128))) (take 8 primes)"

definition fips_SHA512 :: "bytes \<Rightarrow> bytes" where
  "fips_SHA512 =
     md_digest 128 16 (sha2_compress fips512_fns fips512_K 80) fips512_H0 (\<lambda>n. replicate 8 0 @ WriteBE64 n)
       (\<lambda>s. concat (map WriteBE64 s))"

section \<open>The statements compute the standard's compression function\<close>

lemma fns512_fips: "sha512_fns = fips512_fns"
  by (simp add: sha512_fns_def fips512_fns_def fun_eq_iff rotate_bits)

lemma sha512_constants:
  "list_all (\<lambda>(p, rs, k, op). (cbrt p * 2 ^ 64 + unat k) ^ 3 \<le> p * 2 ^ 192 \<and>
      p * 2 ^ 192 < (cbrt p * 2 ^ 64 + unat k + 1) ^ 3) (zip primes sha512_lines)"
  by (simp add: sha512_lines_def primes_def cbrt_def)

lemma length_sha512_lines [simp]: "length sha512_lines = 80"
  by (simp add: sha512_lines_def)

lemma sha512_K: "t < 80 \<Longrightarrow> fst (snd (sha512_lines ! t)) = fips512_K t"
proof -
  assume t: "t < 80"
  obtain rs k op where line: "sha512_lines ! t = (rs, k, op)" by (metis prod.exhaust)
  have "zip primes sha512_lines ! t = (primes ! t, rs, k, op)" using t line by simp
  then have "(cbrt (primes ! t) * 2 ^ 64 + unat k) ^ 3 \<le> primes ! t * 2 ^ 192 \<and>
      primes ! t * 2 ^ 192 < (cbrt (primes ! t) * 2 ^ 64 + unat k + 1) ^ 3"
    using sha512_constants [unfolded list_all_length] t by fastforce
  then show ?thesis
    using root_bits [where 'a = 64, of "cbrt (primes ! t)" "unat k" 3 "primes ! t * 2 ^ 192"] line
    by (simp add: fips512_K_def)
qed

lemma sha512_shape:
  "map (\<lambda>(rs, k, op). (rs, op)) sha512_lines = map (\<lambda>t. (roles t, regular_op 80 8 t)) [0..<80]"
  by (simp add: sha512_lines_def roles_def regular_op_def upt_rec)

lemma sha512_regular: "sha512_lines = regular 80 8 fips512_K"
proof (rule nth_equalityI)
  show "length sha512_lines = length (regular 80 8 fips512_K)" by (simp add: regular_def)
  fix t assume "t < length sha512_lines"
  then have t: "t < 80" by simp
  then have "map (\<lambda>(rs, k, op). (rs, op)) sha512_lines ! t = (roles t, regular_op 80 8 t)"
    unfolding sha512_shape by simp
  with t sha512_K [OF t] show "sha512_lines ! t = regular 80 8 fips512_K ! t"
    by (cases "sha512_lines ! t") (simp add: regular_def)
qed

lemma sqrt64_bits:
  assumes "(c * 2 ^ 64 + k) ^ 2 \<le> p * 2 ^ 128" and "p * 2 ^ 128 < (c * 2 ^ 64 + k + 1) ^ 2"
  shows "(word_of_nat (root_floor 2 (p * 2 ^ 128)) :: 64 word) = word_of_nat k"
  using assms root_bits [where 'a = 64, of c k 2 "p * 2 ^ 128"] by simp

lemma sha512_initial: "sha512_Initialize = fips512_H0"
  by (simp add: sha512_Initialize_def fips512_H0_def primes_def
    sqrt64_bits [of 1 "0x6a09e667f3bcc908" 2, simplified]
    sqrt64_bits [of 1 "0xbb67ae8584caa73b" 3, simplified]
    sqrt64_bits [of 2 "0x3c6ef372fe94f82b" 5, simplified]
    sqrt64_bits [of 2 "0xa54ff53a5f1d36f1" 7, simplified]
    sqrt64_bits [of 3 "0x510e527fade682d1" 11, simplified]
    sqrt64_bits [of 3 "0x9b05688c2b3e6c1f" 13, simplified]
    sqrt64_bits [of 4 "0x1f83d9abfb41bd6b" 17, simplified]
    sqrt64_bits [of 4 "0x5be0cd19137e2179" 19, simplified])

lemma sha512_Transform_fips:
  assumes "length s = 8"
  shows "sha512_Transform s chunk = sha2_compress fips512_fns fips512_K 80 s chunk"
  using run_regular [where n = 80 and v = s and w = "replicate 16 0" and F = fips512_fns and chunk = chunk and K = fips512_K]
    assms
  by (simp add: sha512_Transform_def sha2_compress_def sha512_regular fns512_fips)

section \<open>The class satisfies the contract\<close>

lemma length_sha512_Transform [simp]: "length s = 8 \<Longrightarrow> length (sha512_Transform s chunk) = 8"
proof -
  have "length (fst (run_lines F chunk lines (v, w))) = length v" for F :: "64 word sha2_fns" and lines v w
    unfolding run_lines_def
    by (induction lines arbitrary: v w) (auto simp: run_line_def split: prod.split)
  then show "length s = 8 \<Longrightarrow> ?thesis" by (simp add: sha512_Transform_def)
qed

lemma length_sha512_output: "length s = 8 \<Longrightarrow> length (sha512_output s) = 64"
  by (simp add: sha512_output_def length_concat o_def sum_list_triv WriteBE64_def)

lemma sha512_digest:
  "md_digest 128 16 sha512_Transform sha512_Initialize sha512_sizedesc sha512_output = fips_SHA512"
proof
  fix m
  have "foldl sha512_Transform sha512_Initialize cs = foldl (sha2_compress fips512_fns fips512_K 80) fips512_H0 cs" for cs
    unfolding sha512_initial [symmetric]
    by (rule foldl_cong_inv [where P = "\<lambda>s. length s = 8"])
      (simp add: sha512_Initialize_def, erule length_sha512_Transform, erule sha512_Transform_fips)
  moreover have "sha512_sizedesc = (\<lambda>n. replicate 8 0 @ WriteBE64 n)"
    by (simp add: sha512_sizedesc_def fun_eq_iff)
  ultimately show "md_digest 128 16 sha512_Transform sha512_Initialize sha512_sizedesc sha512_output m = fips_SHA512 m"
    by (simp add: md_digest_def fips_SHA512_def sha512_output_def)
qed

lemma CSHA512_contract:
  "length junk = 128 \<Longrightarrow> hasher_contract (CSHA512 junk) (md_rep 128 sha512_Transform sha512_Initialize) fips_SHA512"
  unfolding CSHA512_def sha512_digest [symmetric]
  by (rule md_contract [where P = "\<lambda>s. length s = 8"]) (simp_all add: length_sha512_output sha512_Initialize_def)

interpretation sha512: hasher_contract "CSHA512 (replicate 128 0)" "md_rep 128 sha512_Transform sha512_Initialize"
    fips_SHA512
  by (rule CSHA512_contract) simp

end
