(* ===== verification/Sha1.thy ===== *)
theory Sha1
  imports Sha2
begin

text \<open>
  \<open>src/crypto/sha1.cpp\<close>: the compression function, whose eighty rounds are unrolled into one statement
  each, and the class \<open>CSHA1\<close>.

  As for SHA-2 a statement \<open>Round(e, a, b, c, d, f1(a, b, c), k1, w1 = ...)\<close> is a line of a table: the
  order of the variables (0 for \<open>a\<close> to 4 for \<open>e\<close>), the function, which is always applied to the
  second to fourth of them, the constant, and the word. The lines are shown to be the standard's
  rounds, and the class to satisfy the contract of a hasher.
\<close>

section \<open>The code\<close>

definition sha1_f1 :: "32 word \<Rightarrow> 32 word \<Rightarrow> 32 word \<Rightarrow> 32 word" where
  "sha1_f1 b c d = d XOR (b AND (c XOR d))"

definition sha1_f2 :: "32 word \<Rightarrow> 32 word \<Rightarrow> 32 word \<Rightarrow> 32 word" where
  "sha1_f2 b c d = b XOR c XOR d"

definition sha1_f3 :: "32 word \<Rightarrow> 32 word \<Rightarrow> 32 word \<Rightarrow> 32 word" where
  "sha1_f3 b c d = (b AND c) OR (d AND (b OR c))"

definition sha1_left :: "32 word \<Rightarrow> 32 word" where
  "sha1_left x = push_bit 1 x OR drop_bit 31 x"

definition sha1_k1 :: "32 word" where "sha1_k1 = 0x5A827999"

definition sha1_k2 :: "32 word" where "sha1_k2 = 0x6ED9EBA1"

definition sha1_k3 :: "32 word" where "sha1_k3 = 0x8F1BBCDC"

definition sha1_k4 :: "32 word" where "sha1_k4 = 0xCA62C1D6"

definition sha1_Initialize :: "32 word list" where
  "sha1_Initialize = [0x67452301, 0xEFCDAB89, 0x98BADCFE, 0x10325476, 0xC3D2E1F0]"

text \<open>\<open>w_i = ReadBE32(chunk + pos)\<close>, \<open>w_i = left(w_i ^ w_p ^ w_q ^ w_r)\<close>, and the same not stored.\<close>

datatype sha1_op = Load1 nat nat | Mix nat nat nat nat | Mixed nat nat nat nat

fun sha1_w :: "bytes \<Rightarrow> sha1_op \<Rightarrow> 32 word list \<Rightarrow> 32 word \<times> 32 word list" where
  "sha1_w chunk (Load1 i pos) w = (let x = word_at chunk pos in (x, w[i := x]))"
| "sha1_w chunk (Mix i p q r) w =
     (let x = sha1_left (w ! i XOR w ! p XOR w ! q XOR w ! r) in (x, w[i := x]))"
| "sha1_w chunk (Mixed i p q r) w = (sha1_left (w ! i XOR w ! p XOR w ! q XOR w ! r), w)"

definition sha1_Round :: "nat list \<Rightarrow> (32 word \<Rightarrow> 32 word \<Rightarrow> 32 word \<Rightarrow> 32 word) \<Rightarrow> 32 word \<Rightarrow> 32 word \<Rightarrow>
    32 word list \<Rightarrow> 32 word list" where
  "sha1_Round rs f k w v =
     (let a = v ! (rs ! 0); b = v ! (rs ! 1); c = v ! (rs ! 2); d = v ! (rs ! 3); e = v ! (rs ! 4)
      in v[rs ! 4 := e + ((push_bit 5 a OR drop_bit 27 a) + f b c d + k + w),
           rs ! 1 := push_bit 30 b OR drop_bit 2 b])"

type_synonym sha1_line = "nat list \<times> (32 word \<Rightarrow> 32 word \<Rightarrow> 32 word \<Rightarrow> 32 word) \<times> 32 word \<times> sha1_op"

definition sha1_lines :: "sha1_line list" where
  "sha1_lines =
  [([0, 1, 2, 3, 4], sha1_f1, sha1_k1, Load1 0 0),
   ([4, 0, 1, 2, 3], sha1_f1, sha1_k1, Load1 1 4),
   ([3, 4, 0, 1, 2], sha1_f1, sha1_k1, Load1 2 8),
   ([2, 3, 4, 0, 1], sha1_f1, sha1_k1, Load1 3 12),
   ([1, 2, 3, 4, 0], sha1_f1, sha1_k1, Load1 4 16),
   ([0, 1, 2, 3, 4], sha1_f1, sha1_k1, Load1 5 20),
   ([4, 0, 1, 2, 3], sha1_f1, sha1_k1, Load1 6 24),
   ([3, 4, 0, 1, 2], sha1_f1, sha1_k1, Load1 7 28),
   ([2, 3, 4, 0, 1], sha1_f1, sha1_k1, Load1 8 32),
   ([1, 2, 3, 4, 0], sha1_f1, sha1_k1, Load1 9 36),
   ([0, 1, 2, 3, 4], sha1_f1, sha1_k1, Load1 10 40),
   ([4, 0, 1, 2, 3], sha1_f1, sha1_k1, Load1 11 44),
   ([3, 4, 0, 1, 2], sha1_f1, sha1_k1, Load1 12 48),
   ([2, 3, 4, 0, 1], sha1_f1, sha1_k1, Load1 13 52),
   ([1, 2, 3, 4, 0], sha1_f1, sha1_k1, Load1 14 56),
   ([0, 1, 2, 3, 4], sha1_f1, sha1_k1, Load1 15 60),
   ([4, 0, 1, 2, 3], sha1_f1, sha1_k1, Mix 0 13 8 2),
   ([3, 4, 0, 1, 2], sha1_f1, sha1_k1, Mix 1 14 9 3),
   ([2, 3, 4, 0, 1], sha1_f1, sha1_k1, Mix 2 15 10 4),
   ([1, 2, 3, 4, 0], sha1_f1, sha1_k1, Mix 3 0 11 5),
   ([0, 1, 2, 3, 4], sha1_f2, sha1_k2, Mix 4 1 12 6),
   ([4, 0, 1, 2, 3], sha1_f2, sha1_k2, Mix 5 2 13 7),
   ([3, 4, 0, 1, 2], sha1_f2, sha1_k2, Mix 6 3 14 8),
   ([2, 3, 4, 0, 1], sha1_f2, sha1_k2, Mix 7 4 15 9),
   ([1, 2, 3, 4, 0], sha1_f2, sha1_k2, Mix 8 5 0 10),
   ([0, 1, 2, 3, 4], sha1_f2, sha1_k2, Mix 9 6 1 11),
   ([4, 0, 1, 2, 3], sha1_f2, sha1_k2, Mix 10 7 2 12),
   ([3, 4, 0, 1, 2], sha1_f2, sha1_k2, Mix 11 8 3 13),
   ([2, 3, 4, 0, 1], sha1_f2, sha1_k2, Mix 12 9 4 14),
   ([1, 2, 3, 4, 0], sha1_f2, sha1_k2, Mix 13 10 5 15),
   ([0, 1, 2, 3, 4], sha1_f2, sha1_k2, Mix 14 11 6 0),
   ([4, 0, 1, 2, 3], sha1_f2, sha1_k2, Mix 15 12 7 1),
   ([3, 4, 0, 1, 2], sha1_f2, sha1_k2, Mix 0 13 8 2),
   ([2, 3, 4, 0, 1], sha1_f2, sha1_k2, Mix 1 14 9 3),
   ([1, 2, 3, 4, 0], sha1_f2, sha1_k2, Mix 2 15 10 4),
   ([0, 1, 2, 3, 4], sha1_f2, sha1_k2, Mix 3 0 11 5),
   ([4, 0, 1, 2, 3], sha1_f2, sha1_k2, Mix 4 1 12 6),
   ([3, 4, 0, 1, 2], sha1_f2, sha1_k2, Mix 5 2 13 7),
   ([2, 3, 4, 0, 1], sha1_f2, sha1_k2, Mix 6 3 14 8),
   ([1, 2, 3, 4, 0], sha1_f2, sha1_k2, Mix 7 4 15 9),
   ([0, 1, 2, 3, 4], sha1_f3, sha1_k3, Mix 8 5 0 10),
   ([4, 0, 1, 2, 3], sha1_f3, sha1_k3, Mix 9 6 1 11),
   ([3, 4, 0, 1, 2], sha1_f3, sha1_k3, Mix 10 7 2 12),
   ([2, 3, 4, 0, 1], sha1_f3, sha1_k3, Mix 11 8 3 13),
   ([1, 2, 3, 4, 0], sha1_f3, sha1_k3, Mix 12 9 4 14),
   ([0, 1, 2, 3, 4], sha1_f3, sha1_k3, Mix 13 10 5 15),
   ([4, 0, 1, 2, 3], sha1_f3, sha1_k3, Mix 14 11 6 0),
   ([3, 4, 0, 1, 2], sha1_f3, sha1_k3, Mix 15 12 7 1),
   ([2, 3, 4, 0, 1], sha1_f3, sha1_k3, Mix 0 13 8 2),
   ([1, 2, 3, 4, 0], sha1_f3, sha1_k3, Mix 1 14 9 3),
   ([0, 1, 2, 3, 4], sha1_f3, sha1_k3, Mix 2 15 10 4),
   ([4, 0, 1, 2, 3], sha1_f3, sha1_k3, Mix 3 0 11 5),
   ([3, 4, 0, 1, 2], sha1_f3, sha1_k3, Mix 4 1 12 6),
   ([2, 3, 4, 0, 1], sha1_f3, sha1_k3, Mix 5 2 13 7),
   ([1, 2, 3, 4, 0], sha1_f3, sha1_k3, Mix 6 3 14 8),
   ([0, 1, 2, 3, 4], sha1_f3, sha1_k3, Mix 7 4 15 9),
   ([4, 0, 1, 2, 3], sha1_f3, sha1_k3, Mix 8 5 0 10),
   ([3, 4, 0, 1, 2], sha1_f3, sha1_k3, Mix 9 6 1 11),
   ([2, 3, 4, 0, 1], sha1_f3, sha1_k3, Mix 10 7 2 12),
   ([1, 2, 3, 4, 0], sha1_f3, sha1_k3, Mix 11 8 3 13),
   ([0, 1, 2, 3, 4], sha1_f2, sha1_k4, Mix 12 9 4 14),
   ([4, 0, 1, 2, 3], sha1_f2, sha1_k4, Mix 13 10 5 15),
   ([3, 4, 0, 1, 2], sha1_f2, sha1_k4, Mix 14 11 6 0),
   ([2, 3, 4, 0, 1], sha1_f2, sha1_k4, Mix 15 12 7 1),
   ([1, 2, 3, 4, 0], sha1_f2, sha1_k4, Mix 0 13 8 2),
   ([0, 1, 2, 3, 4], sha1_f2, sha1_k4, Mix 1 14 9 3),
   ([4, 0, 1, 2, 3], sha1_f2, sha1_k4, Mix 2 15 10 4),
   ([3, 4, 0, 1, 2], sha1_f2, sha1_k4, Mix 3 0 11 5),
   ([2, 3, 4, 0, 1], sha1_f2, sha1_k4, Mix 4 1 12 6),
   ([1, 2, 3, 4, 0], sha1_f2, sha1_k4, Mix 5 2 13 7),
   ([0, 1, 2, 3, 4], sha1_f2, sha1_k4, Mix 6 3 14 8),
   ([4, 0, 1, 2, 3], sha1_f2, sha1_k4, Mix 7 4 15 9),
   ([3, 4, 0, 1, 2], sha1_f2, sha1_k4, Mix 8 5 0 10),
   ([2, 3, 4, 0, 1], sha1_f2, sha1_k4, Mix 9 6 1 11),
   ([1, 2, 3, 4, 0], sha1_f2, sha1_k4, Mix 10 7 2 12),
   ([0, 1, 2, 3, 4], sha1_f2, sha1_k4, Mix 11 8 3 13),
   ([4, 0, 1, 2, 3], sha1_f2, sha1_k4, Mix 12 9 4 14),
   ([3, 4, 0, 1, 2], sha1_f2, sha1_k4, Mixed 13 10 5 15),
   ([2, 3, 4, 0, 1], sha1_f2, sha1_k4, Mixed 14 11 6 0),
   ([1, 2, 3, 4, 0], sha1_f2, sha1_k4, Mixed 15 12 7 1)]"

definition sha1_run_line :: "bytes \<Rightarrow> 32 word list \<times> 32 word list \<Rightarrow> sha1_line \<Rightarrow> 32 word list \<times> 32 word list" where
  "sha1_run_line chunk =
     (\<lambda>(v, w) (rs, f, k, op). case sha1_w chunk op w of (x, w) \<Rightarrow> (sha1_Round rs f k x v, w))"

definition sha1_Transform :: "32 word list \<Rightarrow> bytes \<Rightarrow> 32 word list" where
  "sha1_Transform s chunk = map2 (+) s (fst (foldl (sha1_run_line chunk) (s, replicate 16 0) sha1_lines))"

definition sha1_output :: "32 word list \<Rightarrow> bytes" where
  "sha1_output s = concat (map WriteBE32 s)"

text \<open>The class: the common buffer over \<open>sha1::Transform\<close>.\<close>

definition CSHA1 :: "bytes \<Rightarrow> 32 word list md_state hasher" where
  "CSHA1 junk = md_hasher 64 8 sha1_Transform sha1_Initialize WriteBE64 sha1_output 20 junk"

section \<open>Reference: SHA-1\<close>

definition fips1_f :: "nat \<Rightarrow> 32 word \<Rightarrow> 32 word \<Rightarrow> 32 word \<Rightarrow> 32 word" where
  "fips1_f t x y z =
     (if t < 20 then (x AND y) XOR (NOT x AND z)
      else if 40 \<le> t \<and> t < 60 then (x AND y) XOR (x AND z) XOR (y AND z)
      else x XOR y XOR z)"

definition quarter :: "nat \<Rightarrow> nat" where
  "quarter t = (if t < 20 then 0 else if t < 40 then 1 else if t < 60 then 2 else 3)"

text \<open>The first 30 bits behind the point of the square roots of 2, 3, 5 and 10, and the integer part.\<close>

definition fips1_K :: "nat \<Rightarrow> 32 word" where
  "fips1_K t = word_of_nat (root_floor 2 ([2, 3, 5, 10] ! quarter t * 2 ^ 60))"

fun fips1_W :: "bytes \<Rightarrow> nat \<Rightarrow> 32 word" where
  "fips1_W chunk t =
     (if t < 16 then word_at chunk (4 * t)
      else word_rotl 1 (fips1_W chunk (t - 3) XOR fips1_W chunk (t - 8) XOR fips1_W chunk (t - 14) XOR
        fips1_W chunk (t - 16)))"

declare fips1_W.simps [simp del]

fun fips1_step :: "(32 word \<Rightarrow> 32 word \<Rightarrow> 32 word \<Rightarrow> 32 word) \<Rightarrow> 32 word \<Rightarrow> 32 word list \<Rightarrow> 32 word list" where
  "fips1_step f kw [a, b, c, d, e] = [word_rotl 5 a + f b c d + e + kw, a, word_rotl 30 b, c, d]"
| "fips1_step f kw v = v"

definition fips1_compress :: "32 word list \<Rightarrow> bytes \<Rightarrow> 32 word list" where
  "fips1_compress s chunk =
     map2 (+) s (foldl (\<lambda>v t. fips1_step (fips1_f t) (fips1_K t + fips1_W chunk t) v) s [0..<80])"

definition fips_SHA1 :: "bytes \<Rightarrow> bytes" where
  "fips_SHA1 =
     md_digest 64 8 fips1_compress
       (map (\<lambda>x. word_at x 0) [[0x67, 0x45, 0x23, 0x01], [0xEF, 0xCD, 0xAB, 0x89], [0x98, 0xBA, 0xDC, 0xFE],
         [0x10, 0x32, 0x54, 0x76], [0xC3, 0xD2, 0xE1, 0xF0]])
       WriteBE64 (\<lambda>s. concat (map WriteBE32 s))"

section \<open>Five variables in rotation\<close>

definition roles5 :: "nat \<Rightarrow> nat list" where
  "roles5 t = map (\<lambda>i. (i + 4 * t) mod 5) [0..<5]"

lemma roles5_mod: "roles5 (t mod 5) = roles5 t"
proof -
  have "(i + 4 * (t mod 5)) mod 5 = (i + 4 * t) mod 5" for i
    by (metis mod_add_right_eq mod_mult_right_eq)
  then show ?thesis by (simp add: roles5_def)
qed

lemma roles5_simps:
  "roles5 0 = [0, 1, 2, 3, 4]" "roles5 1 = [4, 0, 1, 2, 3]" "roles5 2 = [3, 4, 0, 1, 2]"
  "roles5 3 = [2, 3, 4, 0, 1]" "roles5 4 = [1, 2, 3, 4, 0]" "roles5 5 = [0, 1, 2, 3, 4]"
  by (simp_all add: roles5_def upt_rec)

lemma roles5_Suc:
  "roles5 (Suc 0) = roles5 1" "roles5 (Suc 1) = roles5 2" "roles5 (Suc 2) = roles5 3" "roles5 (Suc 3) = roles5 4"
  "roles5 (Suc 4) = roles5 5"
  by (simp_all add: eval_nat_numeral)

lemma list_5: "length v = 5 \<Longrightarrow> \<exists>a b c d e. v = [a, b, c, d, e]"
  by (auto simp: length_Suc_conv eval_nat_numeral)

text \<open>A property of all the steps that holds for the five rotations of the variables.\<close>

lemma roles5_induct:
  assumes "P 0 (roles5 0) (roles5 1)" "P 1 (roles5 1) (roles5 2)" "P 2 (roles5 2) (roles5 3)"
    "P 3 (roles5 3) (roles5 4)" "P 4 (roles5 4) (roles5 5)"
  shows "P (t mod 5) (roles5 t) (roles5 (Suc t))"
proof -
  define r where "r = t mod 5"
  have "roles5 (Suc t) = roles5 (Suc r)" unfolding r_def by (metis mod_Suc_eq roles5_mod)
  moreover have "roles5 t = roles5 r" by (simp add: r_def roles5_mod)
  moreover have "r < 5" by (simp add: r_def)
  then have "r = 0 \<or> r = 1 \<or> r = 2 \<or> r = 3 \<or> r = 4" by linarith
  then have "P r (roles5 r) (roles5 (Suc r))" by (elim disjE) (simp_all only: assms roles5_Suc)
  ultimately show ?thesis by (simp add: r_def)
qed

section \<open>The statements are the standard's rounds\<close>

lemma rotate_left:
  fixes x :: "32 word"
  shows "push_bit 1 x OR drop_bit 31 x = word_rotl 1 x" "push_bit 5 x OR drop_bit 27 x = word_rotl 5 x"
    "push_bit 30 x OR drop_bit 2 x = word_rotl 30 x"
  by (rule rotate_left_bits; simp)+

lemma sha1_Round_rotated:
  "map ((!) (sha1_Round [0, 1, 2, 3, 4] f k w [a, b, c, d, e])) [4, 0, 1, 2, 3] = fips1_step f (k + w) (map ((!) [a, b, c, d, e]) [0, 1, 2, 3, 4])"
  "map ((!) (sha1_Round [4, 0, 1, 2, 3] f k w [a, b, c, d, e])) [3, 4, 0, 1, 2] = fips1_step f (k + w) (map ((!) [a, b, c, d, e]) [4, 0, 1, 2, 3])"
  "map ((!) (sha1_Round [3, 4, 0, 1, 2] f k w [a, b, c, d, e])) [2, 3, 4, 0, 1] = fips1_step f (k + w) (map ((!) [a, b, c, d, e]) [3, 4, 0, 1, 2])"
  "map ((!) (sha1_Round [2, 3, 4, 0, 1] f k w [a, b, c, d, e])) [1, 2, 3, 4, 0] = fips1_step f (k + w) (map ((!) [a, b, c, d, e]) [2, 3, 4, 0, 1])"
  "map ((!) (sha1_Round [1, 2, 3, 4, 0] f k w [a, b, c, d, e])) [0, 1, 2, 3, 4] = fips1_step f (k + w) (map ((!) [a, b, c, d, e]) [1, 2, 3, 4, 0])"
  by (simp_all add: sha1_Round_def Let_def rotate_left add_ac)

lemma sha1_Round_step:
  assumes "length v = 5"
  shows "map ((!) (sha1_Round (roles5 t) f k w v)) (roles5 (Suc t)) = fips1_step f (k + w) (map ((!) v) (roles5 t))"
proof -
  obtain a b c d e where v: "v = [a, b, c, d, e]" using list_5 [OF assms] by blast
  show ?thesis
    by (rule roles5_induct [of "\<lambda>_ rs rs'. map ((!) (sha1_Round rs f k w v)) rs' = fips1_step f (k + w) (map ((!) v) rs)"])
      (simp_all only: v roles5_simps sha1_Round_rotated)
qed

definition sha1_regular_op :: "nat \<Rightarrow> sha1_op" where
  "sha1_regular_op t =
     (if t < 16 then Load1 t (4 * t)
      else if t < 77 then Mix (t mod 16) ((t + 13) mod 16) ((t + 8) mod 16) ((t + 2) mod 16)
      else Mixed (t mod 16) ((t + 13) mod 16) ((t + 8) mod 16) ((t + 2) mod 16))"

definition sha1_regular :: "nat \<Rightarrow> sha1_line" where
  "sha1_regular t =
     (roles5 t, [sha1_f1, sha1_f2, sha1_f3, sha1_f2] ! quarter t, [sha1_k1, sha1_k2, sha1_k3, sha1_k4] ! quarter t,
      sha1_regular_op t)"

lemma sha1_lines_regular: "sha1_lines = map sha1_regular [0..<80]"
  by (simp add: sha1_lines_def sha1_regular_def sha1_regular_op_def quarter_def roles5_def upt_rec)

lemma sha1_functions:
  "[sha1_f1, sha1_f2, sha1_f3, sha1_f2] ! quarter t = fips1_f t"
proof -
  have "sha1_f1 = fips1_f 0"
    by (intro ext bit_word_eqI) (auto simp: sha1_f1_def fips1_f_def bit_and_iff bit_xor_iff bit_not_iff)
  moreover have "sha1_f2 = fips1_f 20" by (intro ext) (simp add: sha1_f2_def fips1_f_def)
  moreover have "sha1_f3 = fips1_f 40"
    by (intro ext bit_word_eqI) (auto simp: sha1_f3_def fips1_f_def bit_and_iff bit_or_iff bit_xor_iff)
  ultimately show ?thesis by (auto simp: fips1_f_def fun_eq_iff quarter_def)
qed

lemma sha1_constants:
  "[sha1_k1, sha1_k2, sha1_k3, sha1_k4] ! quarter t = fips1_K t"
proof -
  have roots: "root_floor 2 (2 * 2 ^ 60) = 0x5A827999" "root_floor 2 (3 * 2 ^ 60) = 0x6ED9EBA1"
    "root_floor 2 (5 * 2 ^ 60) = 0x8F1BBCDC" "root_floor 2 (10 * 2 ^ 60) = 0xCA62C1D6"
    by (rule root_floorI; simp)+
  then show ?thesis
    using roots [simplified]
    by (simp add: fips1_K_def quarter_def sha1_k1_def sha1_k2_def sha1_k3_def sha1_k4_def)
qed

text \<open>The sixteen variables hold the last sixteen words of the schedule.\<close>

lemma mod_16_distinct: "j < t \<Longrightarrow> t < j + 16 \<Longrightarrow> j mod 16 \<noteq> t mod (16 :: nat)"
proof
  assume "j < t" "t < j + 16" "j mod 16 = t mod 16"
  then have "16 dvd t - j" "0 < t - j" "t - j < 16" by (auto simp: mod_eq_dvd_iff_nat [symmetric])
  then show False using dvd_imp_le by fastforce
qed

lemma sha1_run:
  assumes "t \<le> 80" and "length v = 5" and "length w = 16"
  shows "case foldl (sha1_run_line chunk) (v, w) (map sha1_regular [0..<t]) of
    (v', w') \<Rightarrow> length v' = 5 \<and> length w' = 16 \<and>
      map ((!) v') (roles5 t) =
        foldl (\<lambda>v t. fips1_step (fips1_f t) (fips1_K t + fips1_W chunk t) v) v [0..<t] \<and>
      (\<forall>j. j < t \<longrightarrow> t \<le> j + 16 \<longrightarrow> j < 77 \<longrightarrow> w' ! (j mod 16) = fips1_W chunk j)"
  using assms(1)
proof (induction t)
  case 0
  have "map ((!) v) (roles5 0) = v"
    using list_5 [OF assms(2)] by (auto simp: roles5_simps)
  then show ?case using assms by simp
next
  case (Suc t)
  obtain v' w' where run: "foldl (sha1_run_line chunk) (v, w) (map sha1_regular [0..<t]) = (v', w')" by fastforce
  have ih: "length v' = 5" "length w' = 16"
    "map ((!) v') (roles5 t) = foldl (\<lambda>v t. fips1_step (fips1_f t) (fips1_K t + fips1_W chunk t) v) v [0..<t]"
    "\<And>j. j < t \<Longrightarrow> t \<le> j + 16 \<Longrightarrow> j < 77 \<Longrightarrow> w' ! (j mod 16) = fips1_W chunk j"
    using Suc run by auto
  let ?w = "if t < 77 then w'[t mod 16 := fips1_W chunk t] else w'"
  have step: "sha1_w chunk (sha1_regular_op t) w' = (fips1_W chunk t, ?w)"
  proof (cases "t < 16")
    case True
    then show ?thesis by (simp add: sha1_regular_op_def Let_def fips1_W.simps [of chunk t])
  next
    case False
    have ms: "(t - 3) mod 16 = (t + 13) mod 16" "(t - 8) mod 16 = (t + 8) mod 16"
      "(t - 14) mod 16 = (t + 2) mod 16" "(t - 16) mod 16 = t mod 16"
      using False mod_add_self2 [of "t - 3" 16] mod_add_self2 [of "t - 8" 16] mod_add_self2 [of "t - 14" 16]
        mod_add_self2 [of "t - 16" 16] by (simp_all add: add.commute)
    have "w' ! ((t + 13) mod 16) = fips1_W chunk (t - 3)" "w' ! ((t + 8) mod 16) = fips1_W chunk (t - 8)"
      "w' ! ((t + 2) mod 16) = fips1_W chunk (t - 14)" "w' ! (t mod 16) = fips1_W chunk (t - 16)"
      using ih(4) [of "t - 3"] ih(4) [of "t - 8"] ih(4) [of "t - 14"] ih(4) [of "t - 16"] False Suc.prems
      by (simp_all add: ms)
    then have "sha1_left (w' ! (t mod 16) XOR w' ! ((t + 13) mod 16) XOR w' ! ((t + 8) mod 16) XOR w' ! ((t + 2) mod 16)) =
        fips1_W chunk t"
      using False by (simp only: fips1_W.simps [of chunk t] sha1_left_def rotate_left if_False) (simp only: ac_simps)
    then show ?thesis using False by (simp add: sha1_regular_op_def Let_def)
  qed
  have run': "foldl (sha1_run_line chunk) (v, w) (map sha1_regular [0..<Suc t]) =
      (sha1_Round (roles5 t) (fips1_f t) (fips1_K t) (fips1_W chunk t) v', ?w)"
    using run Suc.prems by (simp add: sha1_run_line_def step sha1_regular_def sha1_functions sha1_constants)
  have "?w ! (j mod 16) = fips1_W chunk j" if j: "j < Suc t" "Suc t \<le> j + 16" "j < 77" for j
  proof (cases "j = t")
    case True
    then show ?thesis using j ih(2) by simp
  next
    case False
    then show ?thesis using ih(2) ih(4) [of j] j mod_16_distinct [of j t] by (auto simp: nth_list_update)
  qed
  moreover have "length (sha1_Round rs f k x v') = 5" for rs f k x using ih(1) by (simp add: sha1_Round_def Let_def)
  ultimately show ?case
    unfolding run' using ih(1,2,3) Suc.prems
      sha1_Round_step [OF ih(1), of t "fips1_f t" "fips1_K t" "fips1_W chunk t"] by simp
qed

lemma sha1_Transform_fips:
  assumes "length s = 5"
  shows "sha1_Transform s chunk = fips1_compress s chunk"
proof -
  obtain v' w' where run: "foldl (sha1_run_line chunk) (s, replicate 16 0) (map sha1_regular [0..<80]) = (v', w')" by fastforce
  have "length v' = 5" "map ((!) v') (roles5 80) =
      foldl (\<lambda>v t. fips1_step (fips1_f t) (fips1_K t + fips1_W chunk t) v) s [0..<80]"
    using sha1_run [of 80 s "replicate 16 0" chunk] assms run by simp_all
  moreover have "map ((!) v') (roles5 80) = v'"
  proof -
    have "roles5 80 = roles5 0" using roles5_mod [of 80] by simp
    then show ?thesis using list_5 [OF \<open>length v' = 5\<close>] by (auto simp: roles5_simps)
  qed
  ultimately show ?thesis
    using run by (simp add: sha1_Transform_def fips1_compress_def sha1_lines_regular)
qed

section \<open>The class satisfies the contract\<close>

lemma length_sha1_Transform [simp]: "length s = 5 \<Longrightarrow> length (sha1_Transform s chunk) = 5"
proof -
  have "length (fst (foldl (sha1_run_line chunk) (v, w) ls)) = length v" for ls v w
    by (induction ls arbitrary: v w) (auto simp: sha1_run_line_def sha1_Round_def Let_def split: prod.split)
  then show "length s = 5 \<Longrightarrow> ?thesis" by (simp add: sha1_Transform_def)
qed

lemma length_sha1_output: "length s = 5 \<Longrightarrow> length (sha1_output s) = 20"
  by (simp add: sha1_output_def length_concat o_def sum_list_triv WriteBE32_def)

lemma sha1_digest: "md_digest 64 8 sha1_Transform sha1_Initialize WriteBE64 sha1_output = fips_SHA1"
proof
  fix m
  have "foldl sha1_Transform sha1_Initialize cs = foldl fips1_compress sha1_Initialize cs" for cs
    by (rule foldl_cong_inv [where P = "\<lambda>s. length s = 5"])
      (simp add: sha1_Initialize_def, erule length_sha1_Transform, erule sha1_Transform_fips)
  moreover have "sha1_Initialize = map (\<lambda>x. word_at x 0) [[0x67, 0x45, 0x23, 0x01], [0xEF, 0xCD, 0xAB, 0x89],
      [0x98, 0xBA, 0xDC, 0xFE], [0x10, 0x32, 0x54, 0x76], [0xC3, 0xD2, 0xE1, 0xF0]]"
    by (simp add: sha1_Initialize_def word_at_def)
  ultimately show "md_digest 64 8 sha1_Transform sha1_Initialize WriteBE64 sha1_output m = fips_SHA1 m"
    by (simp add: md_digest_def fips_SHA1_def sha1_output_def)
qed

lemma CSHA1_contract:
  "length junk = 64 \<Longrightarrow> hasher_contract (CSHA1 junk) (md_rep 64 sha1_Transform sha1_Initialize) fips_SHA1"
  unfolding CSHA1_def sha1_digest [symmetric]
  by (rule md_contract [where P = "\<lambda>s. length s = 5"]) (simp_all add: length_sha1_output sha1_Initialize_def)

interpretation sha1: hasher_contract "CSHA1 (replicate 64 0)" "md_rep 64 sha1_Transform sha1_Initialize" fips_SHA1
  by (rule CSHA1_contract) simp

end
