(* ===== verification/Ripemd160.thy ===== *)
theory Ripemd160
  imports Sha1
begin

text \<open>
  \<open>src/crypto/ripemd160.cpp\<close>: the compression function, two interleaved lanes of eighty unrolled
  statements, and the class \<open>CRIPEMD160\<close>.

  A statement such as \<open>R12(e2, a2, b2, c2, d2, w14, 9)\<close> is a line: the function, whose second digit is
  the lane, the order of the lane's variables (0 for \<open>a\<close> to 4 for \<open>e\<close>), the number of the word and
  the rotation. The lines are shown to be the rounds of the definition of RIPEMD-160, with its word
  permutations and the table of rotations by word.
\<close>

section \<open>The code\<close>

definition rmd_f1 :: "32 word \<Rightarrow> 32 word \<Rightarrow> 32 word \<Rightarrow> 32 word" where
  "rmd_f1 x y z = x XOR y XOR z"

definition rmd_f2 :: "32 word \<Rightarrow> 32 word \<Rightarrow> 32 word \<Rightarrow> 32 word" where
  "rmd_f2 x y z = (x AND y) OR (NOT x AND z)"

definition rmd_f3 :: "32 word \<Rightarrow> 32 word \<Rightarrow> 32 word \<Rightarrow> 32 word" where
  "rmd_f3 x y z = (x OR NOT y) XOR z"

definition rmd_f4 :: "32 word \<Rightarrow> 32 word \<Rightarrow> 32 word \<Rightarrow> 32 word" where
  "rmd_f4 x y z = (x AND z) OR (y AND NOT z)"

definition rmd_f5 :: "32 word \<Rightarrow> 32 word \<Rightarrow> 32 word \<Rightarrow> 32 word" where
  "rmd_f5 x y z = x XOR (y OR NOT z)"

definition rmd_Initialize :: "32 word list" where
  "rmd_Initialize = [0x67452301, 0xEFCDAB89, 0x98BADCFE, 0x10325476, 0xC3D2E1F0]"

definition rol :: "32 word \<Rightarrow> nat \<Rightarrow> 32 word" where
  "rol x i = push_bit i x OR drop_bit (32 - i) x"

definition rmd_Round :: "nat list \<Rightarrow> (32 word \<Rightarrow> 32 word \<Rightarrow> 32 word \<Rightarrow> 32 word) \<Rightarrow> 32 word \<Rightarrow> 32 word \<Rightarrow> nat \<Rightarrow>
    32 word list \<Rightarrow> 32 word list" where
  "rmd_Round rs f x k r v =
     (let a = v ! (rs ! 0); b = v ! (rs ! 1); c = v ! (rs ! 2); d = v ! (rs ! 3); e = v ! (rs ! 4)
      in v[rs ! 0 := rol (a + f b c d + x + k) r + e, rs ! 2 := rol c 10])"

datatype rmd_fn = R11 | R21 | R31 | R41 | R51 | R12 | R22 | R32 | R42 | R52

fun rmd_call :: "rmd_fn \<Rightarrow> nat list \<Rightarrow> 32 word \<Rightarrow> nat \<Rightarrow> 32 word list \<Rightarrow> 32 word list" where
  "rmd_call R11 rs x r v = rmd_Round rs rmd_f1 x 0 r v"
| "rmd_call R21 rs x r v = rmd_Round rs rmd_f2 x 0x5A827999 r v"
| "rmd_call R31 rs x r v = rmd_Round rs rmd_f3 x 0x6ED9EBA1 r v"
| "rmd_call R41 rs x r v = rmd_Round rs rmd_f4 x 0x8F1BBCDC r v"
| "rmd_call R51 rs x r v = rmd_Round rs rmd_f5 x 0xA953FD4E r v"
| "rmd_call R12 rs x r v = rmd_Round rs rmd_f5 x 0x50A28BE6 r v"
| "rmd_call R22 rs x r v = rmd_Round rs rmd_f4 x 0x5C4DD124 r v"
| "rmd_call R32 rs x r v = rmd_Round rs rmd_f3 x 0x6D703EF3 r v"
| "rmd_call R42 rs x r v = rmd_Round rs rmd_f2 x 0x7A6D76E9 r v"
| "rmd_call R52 rs x r v = rmd_Round rs rmd_f1 x 0 r v"

fun first_lane :: "rmd_fn \<Rightarrow> bool" where
  "first_lane R11 = True" | "first_lane R21 = True" | "first_lane R31 = True" | "first_lane R41 = True"
| "first_lane R51 = True" | "first_lane fn = False"

type_synonym rmd_line = "rmd_fn \<times> nat list \<times> nat \<times> nat"

definition rmd_lines :: "rmd_line list" where
  "rmd_lines =
  [(R11, [0, 1, 2, 3, 4], 0, 11),
   (R12, [0, 1, 2, 3, 4], 5, 8),
   (R11, [4, 0, 1, 2, 3], 1, 14),
   (R12, [4, 0, 1, 2, 3], 14, 9),
   (R11, [3, 4, 0, 1, 2], 2, 15),
   (R12, [3, 4, 0, 1, 2], 7, 9),
   (R11, [2, 3, 4, 0, 1], 3, 12),
   (R12, [2, 3, 4, 0, 1], 0, 11),
   (R11, [1, 2, 3, 4, 0], 4, 5),
   (R12, [1, 2, 3, 4, 0], 9, 13),
   (R11, [0, 1, 2, 3, 4], 5, 8),
   (R12, [0, 1, 2, 3, 4], 2, 15),
   (R11, [4, 0, 1, 2, 3], 6, 7),
   (R12, [4, 0, 1, 2, 3], 11, 15),
   (R11, [3, 4, 0, 1, 2], 7, 9),
   (R12, [3, 4, 0, 1, 2], 4, 5),
   (R11, [2, 3, 4, 0, 1], 8, 11),
   (R12, [2, 3, 4, 0, 1], 13, 7),
   (R11, [1, 2, 3, 4, 0], 9, 13),
   (R12, [1, 2, 3, 4, 0], 6, 7),
   (R11, [0, 1, 2, 3, 4], 10, 14),
   (R12, [0, 1, 2, 3, 4], 15, 8),
   (R11, [4, 0, 1, 2, 3], 11, 15),
   (R12, [4, 0, 1, 2, 3], 8, 11),
   (R11, [3, 4, 0, 1, 2], 12, 6),
   (R12, [3, 4, 0, 1, 2], 1, 14),
   (R11, [2, 3, 4, 0, 1], 13, 7),
   (R12, [2, 3, 4, 0, 1], 10, 14),
   (R11, [1, 2, 3, 4, 0], 14, 9),
   (R12, [1, 2, 3, 4, 0], 3, 12),
   (R11, [0, 1, 2, 3, 4], 15, 8),
   (R12, [0, 1, 2, 3, 4], 12, 6),
   (R21, [4, 0, 1, 2, 3], 7, 7),
   (R22, [4, 0, 1, 2, 3], 6, 9),
   (R21, [3, 4, 0, 1, 2], 4, 6),
   (R22, [3, 4, 0, 1, 2], 11, 13),
   (R21, [2, 3, 4, 0, 1], 13, 8),
   (R22, [2, 3, 4, 0, 1], 3, 15),
   (R21, [1, 2, 3, 4, 0], 1, 13),
   (R22, [1, 2, 3, 4, 0], 7, 7),
   (R21, [0, 1, 2, 3, 4], 10, 11),
   (R22, [0, 1, 2, 3, 4], 0, 12),
   (R21, [4, 0, 1, 2, 3], 6, 9),
   (R22, [4, 0, 1, 2, 3], 13, 8),
   (R21, [3, 4, 0, 1, 2], 15, 7),
   (R22, [3, 4, 0, 1, 2], 5, 9),
   (R21, [2, 3, 4, 0, 1], 3, 15),
   (R22, [2, 3, 4, 0, 1], 10, 11),
   (R21, [1, 2, 3, 4, 0], 12, 7),
   (R22, [1, 2, 3, 4, 0], 14, 7),
   (R21, [0, 1, 2, 3, 4], 0, 12),
   (R22, [0, 1, 2, 3, 4], 15, 7),
   (R21, [4, 0, 1, 2, 3], 9, 15),
   (R22, [4, 0, 1, 2, 3], 8, 12),
   (R21, [3, 4, 0, 1, 2], 5, 9),
   (R22, [3, 4, 0, 1, 2], 12, 7),
   (R21, [2, 3, 4, 0, 1], 2, 11),
   (R22, [2, 3, 4, 0, 1], 4, 6),
   (R21, [1, 2, 3, 4, 0], 14, 7),
   (R22, [1, 2, 3, 4, 0], 9, 15),
   (R21, [0, 1, 2, 3, 4], 11, 13),
   (R22, [0, 1, 2, 3, 4], 1, 13),
   (R21, [4, 0, 1, 2, 3], 8, 12),
   (R22, [4, 0, 1, 2, 3], 2, 11),
   (R31, [3, 4, 0, 1, 2], 3, 11),
   (R32, [3, 4, 0, 1, 2], 15, 9),
   (R31, [2, 3, 4, 0, 1], 10, 13),
   (R32, [2, 3, 4, 0, 1], 5, 7),
   (R31, [1, 2, 3, 4, 0], 14, 6),
   (R32, [1, 2, 3, 4, 0], 1, 15),
   (R31, [0, 1, 2, 3, 4], 4, 7),
   (R32, [0, 1, 2, 3, 4], 3, 11),
   (R31, [4, 0, 1, 2, 3], 9, 14),
   (R32, [4, 0, 1, 2, 3], 7, 8),
   (R31, [3, 4, 0, 1, 2], 15, 9),
   (R32, [3, 4, 0, 1, 2], 14, 6),
   (R31, [2, 3, 4, 0, 1], 8, 13),
   (R32, [2, 3, 4, 0, 1], 6, 6),
   (R31, [1, 2, 3, 4, 0], 1, 15),
   (R32, [1, 2, 3, 4, 0], 9, 14),
   (R31, [0, 1, 2, 3, 4], 2, 14),
   (R32, [0, 1, 2, 3, 4], 11, 12),
   (R31, [4, 0, 1, 2, 3], 7, 8),
   (R32, [4, 0, 1, 2, 3], 8, 13),
   (R31, [3, 4, 0, 1, 2], 0, 13),
   (R32, [3, 4, 0, 1, 2], 12, 5),
   (R31, [2, 3, 4, 0, 1], 6, 6),
   (R32, [2, 3, 4, 0, 1], 2, 14),
   (R31, [1, 2, 3, 4, 0], 13, 5),
   (R32, [1, 2, 3, 4, 0], 10, 13),
   (R31, [0, 1, 2, 3, 4], 11, 12),
   (R32, [0, 1, 2, 3, 4], 0, 13),
   (R31, [4, 0, 1, 2, 3], 5, 7),
   (R32, [4, 0, 1, 2, 3], 4, 7),
   (R31, [3, 4, 0, 1, 2], 12, 5),
   (R32, [3, 4, 0, 1, 2], 13, 5),
   (R41, [2, 3, 4, 0, 1], 1, 11),
   (R42, [2, 3, 4, 0, 1], 8, 15),
   (R41, [1, 2, 3, 4, 0], 9, 12),
   (R42, [1, 2, 3, 4, 0], 6, 5),
   (R41, [0, 1, 2, 3, 4], 11, 14),
   (R42, [0, 1, 2, 3, 4], 4, 8),
   (R41, [4, 0, 1, 2, 3], 10, 15),
   (R42, [4, 0, 1, 2, 3], 1, 11),
   (R41, [3, 4, 0, 1, 2], 0, 14),
   (R42, [3, 4, 0, 1, 2], 3, 14),
   (R41, [2, 3, 4, 0, 1], 8, 15),
   (R42, [2, 3, 4, 0, 1], 11, 14),
   (R41, [1, 2, 3, 4, 0], 12, 9),
   (R42, [1, 2, 3, 4, 0], 15, 6),
   (R41, [0, 1, 2, 3, 4], 4, 8),
   (R42, [0, 1, 2, 3, 4], 0, 14),
   (R41, [4, 0, 1, 2, 3], 13, 9),
   (R42, [4, 0, 1, 2, 3], 5, 6),
   (R41, [3, 4, 0, 1, 2], 3, 14),
   (R42, [3, 4, 0, 1, 2], 12, 9),
   (R41, [2, 3, 4, 0, 1], 7, 5),
   (R42, [2, 3, 4, 0, 1], 2, 12),
   (R41, [1, 2, 3, 4, 0], 15, 6),
   (R42, [1, 2, 3, 4, 0], 13, 9),
   (R41, [0, 1, 2, 3, 4], 14, 8),
   (R42, [0, 1, 2, 3, 4], 9, 12),
   (R41, [4, 0, 1, 2, 3], 5, 6),
   (R42, [4, 0, 1, 2, 3], 7, 5),
   (R41, [3, 4, 0, 1, 2], 6, 5),
   (R42, [3, 4, 0, 1, 2], 10, 15),
   (R41, [2, 3, 4, 0, 1], 2, 12),
   (R42, [2, 3, 4, 0, 1], 14, 8),
   (R51, [1, 2, 3, 4, 0], 4, 9),
   (R52, [1, 2, 3, 4, 0], 12, 8),
   (R51, [0, 1, 2, 3, 4], 0, 15),
   (R52, [0, 1, 2, 3, 4], 15, 5),
   (R51, [4, 0, 1, 2, 3], 5, 5),
   (R52, [4, 0, 1, 2, 3], 10, 12),
   (R51, [3, 4, 0, 1, 2], 9, 11),
   (R52, [3, 4, 0, 1, 2], 4, 9),
   (R51, [2, 3, 4, 0, 1], 7, 6),
   (R52, [2, 3, 4, 0, 1], 1, 12),
   (R51, [1, 2, 3, 4, 0], 12, 8),
   (R52, [1, 2, 3, 4, 0], 5, 5),
   (R51, [0, 1, 2, 3, 4], 2, 13),
   (R52, [0, 1, 2, 3, 4], 8, 14),
   (R51, [4, 0, 1, 2, 3], 10, 12),
   (R52, [4, 0, 1, 2, 3], 7, 6),
   (R51, [3, 4, 0, 1, 2], 14, 5),
   (R52, [3, 4, 0, 1, 2], 6, 8),
   (R51, [2, 3, 4, 0, 1], 1, 12),
   (R52, [2, 3, 4, 0, 1], 2, 13),
   (R51, [1, 2, 3, 4, 0], 3, 13),
   (R52, [1, 2, 3, 4, 0], 13, 6),
   (R51, [0, 1, 2, 3, 4], 8, 14),
   (R52, [0, 1, 2, 3, 4], 14, 5),
   (R51, [4, 0, 1, 2, 3], 11, 11),
   (R52, [4, 0, 1, 2, 3], 0, 15),
   (R51, [3, 4, 0, 1, 2], 6, 8),
   (R52, [3, 4, 0, 1, 2], 3, 13),
   (R51, [2, 3, 4, 0, 1], 15, 5),
   (R52, [2, 3, 4, 0, 1], 9, 11),
   (R51, [1, 2, 3, 4, 0], 13, 6),
   (R52, [1, 2, 3, 4, 0], 11, 11)]"

definition le_word_at :: "bytes \<Rightarrow> nat \<Rightarrow> 32 word" where
  "le_word_at chunk pos = word_of_nat (le_value (take 4 (drop pos chunk)))"

definition rmd_run_line :: "bytes \<Rightarrow> 32 word list \<times> 32 word list \<Rightarrow> rmd_line \<Rightarrow> 32 word list \<times> 32 word list" where
  "rmd_run_line chunk =
     (\<lambda>(v1, v2) (fn, rs, i, r).
       let x = le_word_at chunk (4 * i)
       in if first_lane fn then (rmd_call fn rs x r v1, v2) else (v1, rmd_call fn rs x r v2))"

definition rmd_combine :: "32 word list \<Rightarrow> 32 word list \<Rightarrow> 32 word list \<Rightarrow> 32 word list" where
  "rmd_combine s v1 v2 =
     [s ! 1 + v1 ! 2 + v2 ! 3, s ! 2 + v1 ! 3 + v2 ! 4, s ! 3 + v1 ! 4 + v2 ! 0, s ! 4 + v1 ! 0 + v2 ! 1,
      s ! 0 + v1 ! 1 + v2 ! 2]"

definition rmd_Transform :: "32 word list \<Rightarrow> bytes \<Rightarrow> 32 word list" where
  "rmd_Transform s chunk =
     (case foldl (rmd_run_line chunk) (s, s) rmd_lines of (v1, v2) \<Rightarrow> rmd_combine s v1 v2)"

definition rmd_output :: "32 word list \<Rightarrow> bytes" where
  "rmd_output s = concat (map WriteLE32 s)"

text \<open>The class: the common buffer over \<open>ripemd160::Transform\<close>, with the size and the output little-endian.\<close>

definition CRIPEMD160 :: "bytes \<Rightarrow> 32 word list md_state hasher" where
  "CRIPEMD160 junk = md_hasher 64 8 rmd_Transform rmd_Initialize WriteLE64 rmd_output 20 junk"

section \<open>Reference: RIPEMD-160\<close>

text \<open>
  Five rounds of sixteen steps in two lanes. The first round of the left lane takes the words in their
  order, that of the right lane permuted by \<open>pi\<close>, and from each round to the next the words are
  permuted by \<open>rho\<close>; the rotation depends on the round and the word. The constants are the first 30 bits of square and of cube roots of 2, 3, 5 and 7.
\<close>

definition rho :: "nat \<Rightarrow> nat" where
  "rho i = [7, 4, 13, 1, 10, 6, 15, 3, 12, 0, 9, 5, 2, 14, 11, 8] ! i"

definition pi_perm :: "nat \<Rightarrow> nat" where
  "pi_perm i = (9 * i + 5) mod 16"

definition orders :: "nat list \<Rightarrow> nat list list" where
  "orders ns = [ns, map rho ns, map rho (map rho ns), map rho (map rho (map rho ns)),
     map rho (map rho (map rho (map rho ns)))]"

definition left_words :: "nat list list" where
  "left_words = orders [0, 1, 2, 3, 4, 5, 6, 7, 8, 9, 10, 11, 12, 13, 14, 15]"

definition right_words :: "nat list list" where
  "right_words = orders (map pi_perm [0, 1, 2, 3, 4, 5, 6, 7, 8, 9, 10, 11, 12, 13, 14, 15])"

definition rotation :: "nat \<Rightarrow> nat \<Rightarrow> nat" where
  "rotation j i =
     [[11, 14, 15, 12, 5, 8, 7, 9, 11, 13, 14, 15, 6, 7, 9, 8],
      [12, 13, 11, 15, 6, 9, 9, 7, 12, 15, 11, 13, 7, 8, 7, 7],
      [13, 15, 14, 11, 7, 7, 6, 8, 13, 14, 13, 12, 5, 5, 6, 9],
      [14, 11, 12, 14, 8, 6, 5, 5, 15, 12, 15, 14, 9, 9, 8, 6],
      [15, 12, 13, 13, 9, 5, 8, 6, 14, 11, 12, 11, 8, 6, 5, 5]] ! j ! i"

definition ref_f :: "nat \<Rightarrow> 32 word \<Rightarrow> 32 word \<Rightarrow> 32 word \<Rightarrow> 32 word" where
  "ref_f j = [\<lambda>x y z. x XOR y XOR z, \<lambda>x y z. (x AND y) OR (NOT x AND z), \<lambda>x y z. (x OR NOT y) XOR z,
    \<lambda>x y z. (x AND z) OR (y AND NOT z), \<lambda>x y z. x XOR (y OR NOT z)] ! j"

definition ref_K :: "nat \<Rightarrow> 32 word" where
  "ref_K j = (if j = 0 then 0 else word_of_nat (root_floor 2 ([0, 2, 3, 5, 7] ! j * 2 ^ 60)))"

definition ref_K' :: "nat \<Rightarrow> 32 word" where
  "ref_K' j = (if j = 4 then 0 else word_of_nat (root_floor 3 ([2, 3, 5, 7] ! j * 2 ^ 90)))"

fun ref_step :: "(32 word \<Rightarrow> 32 word \<Rightarrow> 32 word \<Rightarrow> 32 word) \<Rightarrow> 32 word \<Rightarrow> 32 word \<Rightarrow> nat \<Rightarrow> 32 word list \<Rightarrow> 32 word list" where
  "ref_step f x k r [a, b, c, d, e] = [e, word_rotl r (a + f b c d + x + k) + e, b, word_rotl 10 c, d]"
| "ref_step f x k r v = v"

text \<open>The step \<open>i\<close> of round \<open>j\<close> in each lane.\<close>

definition left_step :: "bytes \<Rightarrow> 32 word list \<Rightarrow> nat \<times> nat \<Rightarrow> 32 word list" where
  "left_step chunk v = (\<lambda>(j, i).
     let n = left_words ! j ! i in ref_step (ref_f j) (le_word_at chunk (4 * n)) (ref_K j) (rotation j n) v)"

definition right_step :: "bytes \<Rightarrow> 32 word list \<Rightarrow> nat \<times> nat \<Rightarrow> 32 word list" where
  "right_step chunk v = (\<lambda>(j, i).
     let n = right_words ! j ! i in ref_step (ref_f (4 - j)) (le_word_at chunk (4 * n)) (ref_K' j) (rotation j n) v)"

definition ref_compress :: "32 word list \<Rightarrow> bytes \<Rightarrow> 32 word list" where
  "ref_compress s chunk =
     (let steps = List.product [0, 1, 2, 3, 4] [0, 1, 2, 3, 4, 5, 6, 7, 8, 9, 10, 11, 12, 13, 14, 15]
      in rmd_combine s (foldl (left_step chunk) s steps) (foldl (right_step chunk) s steps))"

definition ref_RIPEMD160 :: "bytes \<Rightarrow> bytes" where
  "ref_RIPEMD160 =
     md_digest 64 8 ref_compress
       (map (\<lambda>x. le_word_at x 0) [[0x01, 0x23, 0x45, 0x67], [0x89, 0xAB, 0xCD, 0xEF], [0xFE, 0xDC, 0xBA, 0x98],
         [0x76, 0x54, 0x32, 0x10], [0xF0, 0xE1, 0xD2, 0xC3]])
       WriteLE64 (\<lambda>s. concat (map WriteLE32 s))"

section \<open>The statements are the reference's steps\<close>

text \<open>The functions and constants of the calls are those of the round.\<close>

definition left_fn :: "nat \<Rightarrow> rmd_fn" where
  "left_fn j = [R11, R21, R31, R41, R51] ! j"

definition right_fn :: "nat \<Rightarrow> rmd_fn" where
  "right_fn j = [R12, R22, R32, R42, R52] ! j"

definition all_steps :: "(nat \<times> nat) list" where
  "all_steps = List.product [0, 1, 2, 3, 4] [0, 1, 2, 3, 4, 5, 6, 7, 8, 9, 10, 11, 12, 13, 14, 15]"

lemma left_words_list:
  "left_words =
    [[0, 1, 2, 3, 4, 5, 6, 7, 8, 9, 10, 11, 12, 13, 14, 15],
     [7, 4, 13, 1, 10, 6, 15, 3, 12, 0, 9, 5, 2, 14, 11, 8],
     [3, 10, 14, 4, 9, 15, 8, 1, 2, 7, 0, 6, 13, 11, 5, 12],
     [1, 9, 11, 10, 0, 8, 12, 4, 13, 3, 7, 15, 14, 5, 6, 2],
     [4, 0, 5, 9, 7, 12, 2, 10, 14, 1, 3, 8, 11, 6, 15, 13]]"
  by (simp add: left_words_def orders_def rho_def)

lemma right_words_list:
  "right_words =
    [[5, 14, 7, 0, 9, 2, 11, 4, 13, 6, 15, 8, 1, 10, 3, 12],
     [6, 11, 3, 7, 0, 13, 5, 10, 14, 15, 8, 12, 4, 9, 1, 2],
     [15, 5, 1, 3, 7, 14, 6, 9, 11, 8, 12, 2, 10, 0, 4, 13],
     [8, 6, 4, 1, 3, 11, 15, 0, 5, 12, 2, 13, 9, 7, 10, 14],
     [12, 15, 10, 4, 1, 5, 8, 7, 6, 2, 13, 14, 0, 3, 9, 11]]"
  by (simp add: right_words_def orders_def rho_def pi_perm_def)

lemma rmd_lines_regular:
  "rmd_lines = concat (map (\<lambda>(j, i).
     [(left_fn j, roles5 (16 * j + i), left_words ! j ! i, rotation j (left_words ! j ! i)),
      (right_fn j, roles5 (16 * j + i), right_words ! j ! i, rotation j (right_words ! j ! i))]) all_steps)"
  unfolding left_words_list right_words_list
  by (simp add: rmd_lines_def all_steps_def left_fn_def right_fn_def roles5_def upt_rec rotation_def)

lemma rol_rotl: "0 < r \<Longrightarrow> r < 32 \<Longrightarrow> rol x r = word_rotl r x"
  unfolding rol_def by (rule rotate_left_bits) simp_all

lemma rmd_Round_rotated:
  assumes "0 < r" and "r < 32"
  shows
  "map ((!) (rmd_Round [0, 1, 2, 3, 4] f x k r [a, b, c, d, e])) [4, 0, 1, 2, 3] = ref_step f x k r (map ((!) [a, b, c, d, e]) [0, 1, 2, 3, 4])"
  "map ((!) (rmd_Round [4, 0, 1, 2, 3] f x k r [a, b, c, d, e])) [3, 4, 0, 1, 2] = ref_step f x k r (map ((!) [a, b, c, d, e]) [4, 0, 1, 2, 3])"
  "map ((!) (rmd_Round [3, 4, 0, 1, 2] f x k r [a, b, c, d, e])) [2, 3, 4, 0, 1] = ref_step f x k r (map ((!) [a, b, c, d, e]) [3, 4, 0, 1, 2])"
  "map ((!) (rmd_Round [2, 3, 4, 0, 1] f x k r [a, b, c, d, e])) [1, 2, 3, 4, 0] = ref_step f x k r (map ((!) [a, b, c, d, e]) [2, 3, 4, 0, 1])"
  "map ((!) (rmd_Round [1, 2, 3, 4, 0] f x k r [a, b, c, d, e])) [0, 1, 2, 3, 4] = ref_step f x k r (map ((!) [a, b, c, d, e]) [1, 2, 3, 4, 0])"
  by (simp_all add: rmd_Round_def Let_def rol_rotl assms)

lemma rmd_Round_step:
  assumes "length v = 5" and r: "0 < r" "r < 32"
  shows "map ((!) (rmd_Round (roles5 t) f x k r v)) (roles5 (Suc t)) = ref_step f x k r (map ((!) v) (roles5 t))"
proof -
  obtain a b c d e where v: "v = [a, b, c, d, e]" using list_5 [OF assms(1)] by blast
  show ?thesis
    by (rule roles5_induct [of "\<lambda>_ rs rs'. map ((!) (rmd_Round rs f x k r v)) rs' = ref_step f x k r (map ((!) v) rs)"])
      (simp_all only: v roles5_simps rmd_Round_rotated [OF r])
qed

lemma below_5: "(j :: nat) < 5 \<Longrightarrow> j = 0 \<or> j = 1 \<or> j = 2 \<or> j = 3 \<or> j = 4"
  by linarith

lemma rmd_constants:
  "ref_K 1 = 0x5A827999" "ref_K 2 = 0x6ED9EBA1" "ref_K 3 = 0x8F1BBCDC" "ref_K 4 = 0xA953FD4E"
  "ref_K' 0 = 0x50A28BE6" "ref_K' 1 = 0x5C4DD124" "ref_K' 2 = 0x6D703EF3" "ref_K' 3 = 0x7A6D76E9"
proof -
  have "root_floor 2 (2 * 2 ^ 60) = 0x5A827999" "root_floor 2 (3 * 2 ^ 60) = 0x6ED9EBA1"
    "root_floor 2 (5 * 2 ^ 60) = 0x8F1BBCDC" "root_floor 2 (7 * 2 ^ 60) = 0xA953FD4E"
    "root_floor 3 (2 * 2 ^ 90) = 0x50A28BE6" "root_floor 3 (3 * 2 ^ 90) = 0x5C4DD124"
    "root_floor 3 (5 * 2 ^ 90) = 0x6D703EF3" "root_floor 3 (7 * 2 ^ 90) = 0x7A6D76E9"
    by (rule root_floorI; simp)+
  note this [simplified]
  then show "ref_K 1 = 0x5A827999" "ref_K 2 = 0x6ED9EBA1" "ref_K 3 = 0x8F1BBCDC" "ref_K 4 = 0xA953FD4E"
    "ref_K' 0 = 0x50A28BE6" "ref_K' 1 = 0x5C4DD124" "ref_K' 2 = 0x6D703EF3" "ref_K' 3 = 0x7A6D76E9"
    by (simp_all add: ref_K_def ref_K'_def)
qed

lemma ref_f_functions: "ref_f 0 = rmd_f1" "ref_f 1 = rmd_f2" "ref_f 2 = rmd_f3" "ref_f 3 = rmd_f4" "ref_f 4 = rmd_f5"
  by (simp_all add: ref_f_def fun_eq_iff rmd_f1_def rmd_f2_def rmd_f3_def rmd_f4_def rmd_f5_def)

lemma left_call:
  assumes "j < 5"
  shows "rmd_call (left_fn j) rs x r v = rmd_Round rs (ref_f j) x (ref_K j) r v \<and> first_lane (left_fn j)"
  using below_5 [OF assms]
  by (elim disjE) (simp_all add: left_fn_def ref_f_functions ref_f_functions [simplified] rmd_constants
    rmd_constants [simplified] ref_K_def [of 0])

lemma right_call:
  assumes "j < 5"
  shows "rmd_call (right_fn j) rs x r v = rmd_Round rs (ref_f (4 - j)) x (ref_K' j) r v \<and> \<not> first_lane (right_fn j)"
  using below_5 [OF assms]
  by (elim disjE) (simp_all add: right_fn_def ref_f_functions ref_f_functions [simplified] rmd_constants
    rmd_constants [simplified] ref_K'_def [of 4])

lemma below_16: "(i :: nat) < 16 \<Longrightarrow> i \<in> set [0, 1, 2, 3, 4, 5, 6, 7, 8, 9, 10, 11, 12, 13, 14, 15]"
proof -
  assume "i < 16"
  then have "i \<in> set [0..<16]" by simp
  moreover have "[0..<16] = [0, 1, 2, 3, 4, 5, 6, 7, 8, 9, 10, 11, 12, 13, 14, 15]" by (simp add: upt_rec)
  ultimately show ?thesis by (simp only:)
qed

lemma rotation_bounds:
  assumes "j < 5" and "i < 16"
  shows "0 < rotation j (left_words ! j ! i) \<and> rotation j (left_words ! j ! i) < 32 \<and>
    0 < rotation j (right_words ! j ! i) \<and> rotation j (right_words ! j ! i) < 32"
proof -
  have "list_all (\<lambda>(j, i). 0 < rotation j (left_words ! j ! i) \<and> rotation j (left_words ! j ! i) < 32 \<and>
      0 < rotation j (right_words ! j ! i) \<and> rotation j (right_words ! j ! i) < 32) all_steps"
    unfolding left_words_list right_words_list by (simp add: all_steps_def rotation_def)
  moreover have "(j, i) \<in> set all_steps"
    unfolding all_steps_def set_product using below_5 [OF assms(1)] below_16 [OF assms(2)]
    by (intro SigmaI) simp_all
  ultimately show ?thesis unfolding list_all_iff by blast
qed

lemma all_steps_nth: "all_steps = map (\<lambda>t. (t div 16, t mod 16)) [0..<80]"
  by (simp add: all_steps_def upt_rec)

definition line_pair :: "nat \<Rightarrow> rmd_line list" where
  "line_pair t =
     (let j = t div 16; i = t mod 16
      in [(left_fn j, roles5 t, left_words ! j ! i, rotation j (left_words ! j ! i)),
          (right_fn j, roles5 t, right_words ! j ! i, rotation j (right_words ! j ! i))])"

lemma rmd_lines_pairs: "rmd_lines = concat (map line_pair [0..<80])"
  unfolding rmd_lines_regular all_steps_nth map_map
  by (intro arg_cong [of _ _ concat] map_cong) (simp_all add: line_pair_def Let_def mult.commute)

lemma rmd_run:
  assumes "t \<le> 80" and "length v1 = 5" and "length v2 = 5"
  shows "case foldl (rmd_run_line chunk) (v1, v2) (concat (map line_pair [0..<t])) of
    (u1, u2) \<Rightarrow> length u1 = 5 \<and> length u2 = 5 \<and>
      map ((!) u1) (roles5 t) = foldl (left_step chunk) v1 (map (\<lambda>t. (t div 16, t mod 16)) [0..<t]) \<and>
      map ((!) u2) (roles5 t) = foldl (right_step chunk) v2 (map (\<lambda>t. (t div 16, t mod 16)) [0..<t])"
  using assms(1)
proof (induction t)
  case 0
  have "map ((!) v) (roles5 0) = v" if "length v = 5" for v :: "32 word list"
    using list_5 [OF that] by (auto simp: roles5_simps)
  then show ?case using assms by simp
next
  case (Suc t)
  obtain u1 u2 where run: "foldl (rmd_run_line chunk) (v1, v2) (concat (map line_pair [0..<t])) = (u1, u2)" by fastforce
  have ih: "length u1 = 5" "length u2 = 5"
    "map ((!) u1) (roles5 t) = foldl (left_step chunk) v1 (map (\<lambda>t. (t div 16, t mod 16)) [0..<t])"
    "map ((!) u2) (roles5 t) = foldl (right_step chunk) v2 (map (\<lambda>t. (t div 16, t mod 16)) [0..<t])"
    using Suc run by auto
  define j i where "j = t div 16" and "i = t mod 16"
  have ji: "j < 5" "i < 16" using Suc.prems by (simp_all add: j_def i_def less_mult_imp_div_less)
  let ?w1 = "rmd_Round (roles5 t) (ref_f j) (le_word_at chunk (4 * (left_words ! j ! i))) (ref_K j)
    (rotation j (left_words ! j ! i)) u1"
  let ?w2 = "rmd_Round (roles5 t) (ref_f (4 - j)) (le_word_at chunk (4 * (right_words ! j ! i))) (ref_K' j)
    (rotation j (right_words ! j ! i)) u2"
  have run': "foldl (rmd_run_line chunk) (v1, v2) (concat (map line_pair [0..<Suc t])) = (?w1, ?w2)"
    using run left_call [OF ji(1)] right_call [OF ji(1)]
    by (simp add: line_pair_def Let_def rmd_run_line_def flip: j_def i_def)
  have "length (rmd_Round rs f x k r v) = length v" for rs f x k r v by (simp add: rmd_Round_def Let_def)
  moreover have "map ((!) ?w1) (roles5 (Suc t)) = left_step chunk (map ((!) u1) (roles5 t)) (j, i)"
    using rmd_Round_step [OF ih(1)] rotation_bounds [OF ji] by (simp add: left_step_def Let_def)
  moreover have "map ((!) ?w2) (roles5 (Suc t)) = right_step chunk (map ((!) u2) (roles5 t)) (j, i)"
    using rmd_Round_step [OF ih(2)] rotation_bounds [OF ji] by (simp add: right_step_def Let_def)
  ultimately show ?case unfolding run' using ih by (simp flip: j_def i_def)
qed

lemma rmd_Transform_ref:
  assumes "length s = 5"
  shows "rmd_Transform s chunk = ref_compress s chunk"
proof -
  obtain u1 u2 where run: "foldl (rmd_run_line chunk) (s, s) (concat (map line_pair [0..<80])) = (u1, u2)" by fastforce
  have u: "length u1 = 5" "length u2 = 5" "map ((!) u1) (roles5 80) = foldl (left_step chunk) s all_steps"
    "map ((!) u2) (roles5 80) = foldl (right_step chunk) s all_steps"
    using rmd_run [of 80 s s chunk] assms run by (simp_all add: all_steps_nth)
  have "roles5 80 = roles5 0" using roles5_mod [of 80] by simp
  then have "map ((!) v) (roles5 80) = v" if "length v = 5" for v :: "32 word list"
    using list_5 [OF that] by (auto simp: roles5_simps)
  then show ?thesis
    unfolding rmd_Transform_def ref_compress_def rmd_lines_pairs run Let_def prod.case all_steps_def [symmetric]
    using u by simp
qed

section \<open>The class satisfies the contract\<close>

lemma length_rmd_Transform [simp]: "length (rmd_Transform s chunk) = 5"
  by (simp add: rmd_Transform_def rmd_combine_def split: prod.split)

lemma length_rmd_output: "length s = 5 \<Longrightarrow> length (rmd_output s) = 20"
  by (simp add: rmd_output_def length_concat o_def sum_list_triv WriteLE32_def)

lemma rmd_digest: "md_digest 64 8 rmd_Transform rmd_Initialize WriteLE64 rmd_output = ref_RIPEMD160"
proof
  fix m
  have "foldl rmd_Transform rmd_Initialize cs = foldl ref_compress rmd_Initialize cs" for cs
    by (rule foldl_cong_inv [where P = "\<lambda>s. length s = 5"])
      (simp add: rmd_Initialize_def, rule length_rmd_Transform, erule rmd_Transform_ref)
  moreover have "rmd_Initialize = map (\<lambda>x. le_word_at x 0) [[0x01, 0x23, 0x45, 0x67], [0x89, 0xAB, 0xCD, 0xEF],
      [0xFE, 0xDC, 0xBA, 0x98], [0x76, 0x54, 0x32, 0x10], [0xF0, 0xE1, 0xD2, 0xC3]]"
    by (simp add: rmd_Initialize_def le_word_at_def)
  ultimately show "md_digest 64 8 rmd_Transform rmd_Initialize WriteLE64 rmd_output m = ref_RIPEMD160 m"
    by (simp add: md_digest_def ref_RIPEMD160_def rmd_output_def)
qed

lemma CRIPEMD160_contract:
  "length junk = 64 \<Longrightarrow> hasher_contract (CRIPEMD160 junk) (md_rep 64 rmd_Transform rmd_Initialize) ref_RIPEMD160"
  unfolding CRIPEMD160_def rmd_digest [symmetric]
  by (rule md_contract [where P = "\<lambda>s. length s = 5"]) (simp_all add: length_rmd_output rmd_Initialize_def)

interpretation ripemd160: hasher_contract "CRIPEMD160 (replicate 64 0)" "md_rep 64 rmd_Transform rmd_Initialize"
    ref_RIPEMD160
  by (rule CRIPEMD160_contract) simp

end
