(* ===== verification/Digests.thy ===== *)
theory Digests
  imports Sha512 Ripemd160 InterpOps
begin

text \<open>
  The hashers built from others: \<open>CHash256\<close> and \<open>CHash160\<close> in \<open>src/other/Hash256.hpp\<close> and
  \<open>src/other/Hash160.hpp\<close>, \<open>CHMAC_SHA256\<close> and \<open>CHMAC_SHA512\<close> in \<open>src/crypto\<close>; and the digest
  operations of the script interpreter with all of them.
\<close>

section \<open>Hashers over hashers\<close>

definition twice_Finalize :: "'h hasher \<Rightarrow> 'h \<Rightarrow> bytes \<times> 'h" where
  "twice_Finalize ops sha =
     (let (d, sha) = Finalize ops sha;
          sha = Reset ops sha;
          sha = Write ops d sha
      in Finalize ops sha)"

definition then_Finalize :: "'h hasher \<Rightarrow> (bytes \<Rightarrow> bytes) \<Rightarrow> 'h \<Rightarrow> bytes \<times> 'h" where
  "then_Finalize ops f sha = (let (d, sha) = Finalize ops sha in (f d, sha))"

text \<open>The keyed hash: two hashers of the same kind, with a block length \<open>B\<close>.\<close>

record 'h hmac =
  outer :: 'h
  inner :: 'h

definition hmac_new :: "'h hasher \<Rightarrow> nat \<Rightarrow> bytes \<Rightarrow> 'h hmac" where
  "hmac_new ops B key =
     (let rkey = (if length key \<le> B then key @ replicate (B - length key) 0
                  else hash_once ops key @ replicate (B - OUTPUT_SIZE ops) 0);
          rkey = map (\<lambda>b. b XOR 0x5c) rkey;
          outer = Write ops rkey (New ops);
          rkey = map (\<lambda>b. b XOR (0x5c XOR 0x36)) rkey;
          inner = Write ops rkey (New ops)
      in \<lparr>outer = outer, inner = inner\<rparr>)"

definition hmac_Write :: "'h hasher \<Rightarrow> bytes \<Rightarrow> 'h hmac \<Rightarrow> 'h hmac" where
  "hmac_Write ops data h = h\<lparr>inner := Write ops data (inner h)\<rparr>"

definition hmac_Finalize :: "'h hasher \<Rightarrow> 'h hmac \<Rightarrow> bytes" where
  "hmac_Finalize ops h =
     (let temp = fst (Finalize ops (inner h)) in fst (Finalize ops (Write ops temp (outer h))))"

text \<open>The standard's definition of the keyed hash, with the key filled up to a block.\<close>

definition HMAC :: "(bytes \<Rightarrow> bytes) \<Rightarrow> nat \<Rightarrow> bytes \<Rightarrow> bytes \<Rightarrow> bytes" where
  "HMAC H B key m =
     (let k = (if B < length key then H key else key);
          k = k @ replicate (B - length k) 0
      in H (map (\<lambda>b. b XOR 0x5c) k @ H (map (\<lambda>b. b XOR 0x36) k @ m)))"

context hasher_contract
begin

lemma Finalize_cases: "rep h m \<Longrightarrow> \<exists>h' m'. Finalize ops h = (H m, h') \<and> rep h' m'"
  using Finalize_digest rep_Finalize by (metis prod.collapse)

lemma twice_contract:
  "hasher_contract \<lparr>New = New ops, Reset = Reset ops, Write = Write ops, Finalize = twice_Finalize ops,
     OUTPUT_SIZE = OUTPUT_SIZE ops\<rparr> rep (\<lambda>m. H (H m))"
proof -
  have "\<exists>h' m'. twice_Finalize ops h = (H (H m), h') \<and> rep h' m'" if r: "rep h m" for h m
  proof -
    obtain h1 m1 where 1: "Finalize ops h = (H m, h1)" "rep h1 m1" using Finalize_cases [OF r] by blast
    then have "rep (Write ops (H m) (Reset ops h1)) ([] @ H m)" by (intro rep_Write rep_Reset)
    then show ?thesis using Finalize_cases 1 by (fastforce simp: twice_Finalize_def)
  qed
  then show ?thesis
    by (unfold_locales) (auto intro: rep_New rep_Reset rep_Write simp: length_H, (metis fst_conv snd_conv)+)
qed

lemma then_contract:
  assumes "\<And>d. length (f d) = n"
  shows "hasher_contract \<lparr>New = New ops, Reset = Reset ops, Write = Write ops, Finalize = then_Finalize ops f,
     OUTPUT_SIZE = n\<rparr> rep (\<lambda>m. f (H m))"
proof -
  have "\<exists>h' m'. then_Finalize ops f h = (f (H m), h') \<and> rep h' m'" if "rep h m" for h m
    using Finalize_cases [OF that] by (auto simp: then_Finalize_def)
  then show ?thesis
    by (unfold_locales) (auto intro: rep_New rep_Reset rep_Write simp: assms, (metis fst_conv snd_conv)+)
qed

lemma hmac_digest:
  "hmac_Finalize ops (fold (hmac_Write ops) ds (hmac_new ops B key)) = HMAC H B key (concat ds)"
proof -
  define k where "k = (let k = (if B < length key then H key else key) in k @ replicate (B - length k) 0)"
  let ?h = "hmac_new ops B key"
  have "hmac_new ops B key = \<lparr>outer = Write ops (map (\<lambda>b. b XOR 0x5c) k) (New ops),
      inner = Write ops (map (\<lambda>b. b XOR 0x36) k) (New ops)\<rparr>"
    by (simp add: hmac_new_def k_def Let_def hash_once_digest length_H not_le o_def xor.assoc flip: not_less)
  then have start: "rep (outer ?h) (map (\<lambda>b. b XOR 0x5c) k)" "rep (inner ?h) (map (\<lambda>b. b XOR 0x36) k)"
    using rep_Write [OF rep_New] by simp_all
  have run: "fold (hmac_Write ops) ds h = h\<lparr>inner := fold (Write ops) ds (inner h)\<rparr>" for h :: "'h hmac"
    by (induction ds arbitrary: h) (simp_all add: hmac_Write_def)
  have i: "fst (Finalize ops (fold (Write ops) ds (inner ?h))) = H (map (\<lambda>b. b XOR 0x36) k @ concat ds)"
    by (rule Finalize_digest [OF rep_fold [OF start(2)]])
  have o: "fst (Finalize ops (Write ops t (outer ?h))) = H (map (\<lambda>b. b XOR 0x5c) k @ t)" for t
    by (rule Finalize_digest [OF rep_Write [OF start(1)]])
  have "hmac_Finalize ops (fold (hmac_Write ops) ds ?h) =
      H (map (\<lambda>b. b XOR 0x5c) k @ H (map (\<lambda>b. b XOR 0x36) k @ concat ds))"
    unfolding hmac_Finalize_def run Let_def using i o by simp
  then show ?thesis by (simp add: HMAC_def k_def Let_def)
qed

end

section \<open>The program's classes\<close>

definition CHash256 :: "bytes \<Rightarrow> CSHA256 hasher" where
  "CHash256 junk =
     \<lparr>New = CSHA256_new junk, Reset = CSHA256_Reset, Write = CSHA256_Write,
      Finalize = twice_Finalize (CSHA256 junk), OUTPUT_SIZE = 32\<rparr>"

text \<open>\<open>Finalize\<close> of \<open>CHash160\<close> makes a new \<open>CRIPEMD160\<close>, whose buffer holds \<open>junk'\<close>.\<close>

definition CHash160 :: "bytes \<Rightarrow> bytes \<Rightarrow> CSHA256 hasher" where
  "CHash160 junk junk' =
     \<lparr>New = CSHA256_new junk, Reset = CSHA256_Reset, Write = CSHA256_Write,
      Finalize = then_Finalize (CSHA256 junk) (hash_once (CRIPEMD160 junk')), OUTPUT_SIZE = 20\<rparr>"

definition CHMAC_SHA256 :: "bytes \<Rightarrow> bytes \<Rightarrow> CSHA256 hmac" where
  "CHMAC_SHA256 junk key = hmac_new (CSHA256 junk) 64 key"

definition CHMAC_SHA512 :: "bytes \<Rightarrow> bytes \<Rightarrow> 64 word list md_state hmac" where
  "CHMAC_SHA512 junk key = hmac_new (CSHA512 junk) 128 key"

lemma CHash256_contract:
  "length junk = 64 \<Longrightarrow> hasher_contract (CHash256 junk) sha256_rep (\<lambda>m. fips_SHA256 (fips_SHA256 m))"
  using hasher_contract.twice_contract [OF CSHA256_contract, of junk]
  by (simp add: CHash256_def CSHA256_def twice_Finalize_def [abs_def])

lemma CHash160_contract:
  assumes "length junk = 64" and "length junk' = 64"
  shows "hasher_contract (CHash160 junk junk') sha256_rep (\<lambda>m. ref_RIPEMD160 (fips_SHA256 m))"
proof -
  note rmd = CRIPEMD160_contract [OF assms(2)]
  have once: "hash_once (CRIPEMD160 junk') = ref_RIPEMD160"
    using hasher_contract.hash_once_digest [OF rmd] by (simp add: fun_eq_iff)
  have "length (ref_RIPEMD160 d) = 20" for d
    using hasher_contract.length_H [OF rmd] by (simp add: CRIPEMD160_def md_hasher_def)
  from hasher_contract.then_contract [OF CSHA256_contract [OF assms(1)], of ref_RIPEMD160, OF this]
  show ?thesis by (simp add: CHash160_def once CSHA256_def then_Finalize_def [abs_def])
qed

interpretation hash256: hasher_contract "CHash256 (replicate 64 0)" sha256_rep "\<lambda>m. fips_SHA256 (fips_SHA256 m)"
  by (rule CHash256_contract) simp

interpretation hash160: hasher_contract "CHash160 (replicate 64 0) (replicate 64 0)" sha256_rep
    "\<lambda>m. ref_RIPEMD160 (fips_SHA256 m)"
  by (rule CHash160_contract) simp_all

lemma CHMAC_SHA256_digest:
  "length junk = 64 \<Longrightarrow>
     hmac_Finalize (CSHA256 junk) (fold (hmac_Write (CSHA256 junk)) ds (CHMAC_SHA256 junk key)) =
       HMAC fips_SHA256 64 key (concat ds)"
  unfolding CHMAC_SHA256_def by (rule hasher_contract.hmac_digest [OF CSHA256_contract])

lemma CHMAC_SHA512_digest:
  "length junk = 128 \<Longrightarrow>
     hmac_Finalize (CSHA512 junk) (fold (hmac_Write (CSHA512 junk)) ds (CHMAC_SHA512 junk key)) =
       HMAC fips_SHA512 128 key (concat ds)"
  unfolding CHMAC_SHA512_def by (rule hasher_contract.hmac_digest [OF CSHA512_contract])

section \<open>The digest operations of scripts\<close>

text \<open>What \<open>op_RIPEMD\<close> to \<open>op_Hash256\<close> compute: a new hasher, one \<open>Write\<close> and \<open>Finalize\<close>.\<close>

definition program_hashers :: "bytes \<Rightarrow> bytes \<Rightarrow> hashers" where
  "program_hashers junk junk' =
     \<lparr>RIPEMD160 = hash_once (CRIPEMD160 junk), SHA1 = hash_once (CSHA1 junk), SHA256 = hash_once (CSHA256 junk),
      Hash160 = hash_once (CHash160 junk junk'), Hash256 = hash_once (CHash256 junk)\<rparr>"

lemma program_hashers_digests:
  assumes "length junk = 64" and "length junk' = 64"
  shows "program_hashers junk junk' =
    \<lparr>RIPEMD160 = ref_RIPEMD160, SHA1 = fips_SHA1, SHA256 = fips_SHA256,
     Hash160 = (\<lambda>d. ref_RIPEMD160 (fips_SHA256 d)), Hash256 = (\<lambda>d. fips_SHA256 (fips_SHA256 d))\<rparr>"
  unfolding program_hashers_def
  using hasher_contract.hash_once_digest [OF CRIPEMD160_contract [OF assms(1)]]
    hasher_contract.hash_once_digest [OF CSHA1_contract [OF assms(1)]]
    hasher_contract.hash_once_digest [OF CSHA256_contract [OF assms(1)]]
    hasher_contract.hash_once_digest [OF CHash160_contract [OF assms]]
    hasher_contract.hash_once_digest [OF CHash256_contract [OF assms(1)]]
  by (simp add: fun_eq_iff)

end
