(* ===== verification/Sha256D64.thy ===== *)
theory Sha256D64
  imports Sha256
begin

text \<open>
  The double hash of 64 bytes in \<open>src/crypto/sha256.cpp\<close>: \<open>TransformD64\<close>, in which the two padding
  blocks are folded into the constants of the rounds; \<open>TransformD64Wrapper\<close>, which computes the same
  from a one-block \<open>Transform\<close>; and \<open>SHA256D64\<close>, which hashes many blocks and prefers the functions
  for several blocks at once where the function pointers are set.

  The result is \<open>TransformD64_double\<close>: the folded constants are right, so that \<open>TransformD64\<close> is
  SHA-256 applied twice.
\<close>

section \<open>The code\<close>

text \<open>
  The statements of the second and the third part; those of the first part are the statements of
  \<open>Transform\<close>.
\<close>

definition d64_lines2 :: "32 word line list" where
  "d64_lines2 =
  [([0, 1, 2, 3, 4, 5, 6, 7], 0xc28a2f98, Use []),
   ([7, 0, 1, 2, 3, 4, 5, 6], 0x71374491, Use []),
   ([6, 7, 0, 1, 2, 3, 4, 5], 0xb5c0fbcf, Use []),
   ([5, 6, 7, 0, 1, 2, 3, 4], 0xe9b5dba5, Use []),
   ([4, 5, 6, 7, 0, 1, 2, 3], 0x3956c25b, Use []),
   ([3, 4, 5, 6, 7, 0, 1, 2], 0x59f111f1, Use []),
   ([2, 3, 4, 5, 6, 7, 0, 1], 0x923f82a4, Use []),
   ([1, 2, 3, 4, 5, 6, 7, 0], 0xab1c5ed5, Use []),
   ([0, 1, 2, 3, 4, 5, 6, 7], 0xd807aa98, Use []),
   ([7, 0, 1, 2, 3, 4, 5, 6], 0x12835b01, Use []),
   ([6, 7, 0, 1, 2, 3, 4, 5], 0x243185be, Use []),
   ([5, 6, 7, 0, 1, 2, 3, 4], 0x550c7dc3, Use []),
   ([4, 5, 6, 7, 0, 1, 2, 3], 0x72be5d74, Use []),
   ([3, 4, 5, 6, 7, 0, 1, 2], 0x80deb1fe, Use []),
   ([2, 3, 4, 5, 6, 7, 0, 1], 0x9bdc06a7, Use []),
   ([1, 2, 3, 4, 5, 6, 7, 0], 0xc19bf374, Use []),
   ([0, 1, 2, 3, 4, 5, 6, 7], 0x649b69c1, Use []),
   ([7, 0, 1, 2, 3, 4, 5, 6], 0xf0fe4786, Use []),
   ([6, 7, 0, 1, 2, 3, 4, 5], 0x0fe1edc6, Use []),
   ([5, 6, 7, 0, 1, 2, 3, 4], 0x240cf254, Use []),
   ([4, 5, 6, 7, 0, 1, 2, 3], 0x4fe9346f, Use []),
   ([3, 4, 5, 6, 7, 0, 1, 2], 0x6cc984be, Use []),
   ([2, 3, 4, 5, 6, 7, 0, 1], 0x61b9411e, Use []),
   ([1, 2, 3, 4, 5, 6, 7, 0], 0x16f988fa, Use []),
   ([0, 1, 2, 3, 4, 5, 6, 7], 0xf2c65152, Use []),
   ([7, 0, 1, 2, 3, 4, 5, 6], 0xa88e5a6d, Use []),
   ([6, 7, 0, 1, 2, 3, 4, 5], 0xb019fc65, Use []),
   ([5, 6, 7, 0, 1, 2, 3, 4], 0xb9d99ec7, Use []),
   ([4, 5, 6, 7, 0, 1, 2, 3], 0x9a1231c3, Use []),
   ([3, 4, 5, 6, 7, 0, 1, 2], 0xe70eeaa0, Use []),
   ([2, 3, 4, 5, 6, 7, 0, 1], 0xfdb1232b, Use []),
   ([1, 2, 3, 4, 5, 6, 7, 0], 0xc7353eb0, Use []),
   ([0, 1, 2, 3, 4, 5, 6, 7], 0x3069bad5, Use []),
   ([7, 0, 1, 2, 3, 4, 5, 6], 0xcb976d5f, Use []),
   ([6, 7, 0, 1, 2, 3, 4, 5], 0x5a0f118f, Use []),
   ([5, 6, 7, 0, 1, 2, 3, 4], 0xdc1eeefd, Use []),
   ([4, 5, 6, 7, 0, 1, 2, 3], 0x0a35b689, Use []),
   ([3, 4, 5, 6, 7, 0, 1, 2], 0xde0b7a04, Use []),
   ([2, 3, 4, 5, 6, 7, 0, 1], 0x58f4ca9d, Use []),
   ([1, 2, 3, 4, 5, 6, 7, 0], 0xe15d5b16, Use []),
   ([0, 1, 2, 3, 4, 5, 6, 7], 0x007f3e86, Use []),
   ([7, 0, 1, 2, 3, 4, 5, 6], 0x37088980, Use []),
   ([6, 7, 0, 1, 2, 3, 4, 5], 0xa507ea32, Use []),
   ([5, 6, 7, 0, 1, 2, 3, 4], 0x6fab9537, Use []),
   ([4, 5, 6, 7, 0, 1, 2, 3], 0x17406110, Use []),
   ([3, 4, 5, 6, 7, 0, 1, 2], 0x0d8cd6f1, Use []),
   ([2, 3, 4, 5, 6, 7, 0, 1], 0xcdaa3b6d, Use []),
   ([1, 2, 3, 4, 5, 6, 7, 0], 0xc0bbbe37, Use []),
   ([0, 1, 2, 3, 4, 5, 6, 7], 0x83613bda, Use []),
   ([7, 0, 1, 2, 3, 4, 5, 6], 0xdb48a363, Use []),
   ([6, 7, 0, 1, 2, 3, 4, 5], 0x0b02e931, Use []),
   ([5, 6, 7, 0, 1, 2, 3, 4], 0x6fd15ca7, Use []),
   ([4, 5, 6, 7, 0, 1, 2, 3], 0x521afaca, Use []),
   ([3, 4, 5, 6, 7, 0, 1, 2], 0x31338431, Use []),
   ([2, 3, 4, 5, 6, 7, 0, 1], 0x6ed41a95, Use []),
   ([1, 2, 3, 4, 5, 6, 7, 0], 0x6d437890, Use []),
   ([0, 1, 2, 3, 4, 5, 6, 7], 0xc39c91f2, Use []),
   ([7, 0, 1, 2, 3, 4, 5, 6], 0x9eccabbd, Use []),
   ([6, 7, 0, 1, 2, 3, 4, 5], 0xb5c9a0e6, Use []),
   ([5, 6, 7, 0, 1, 2, 3, 4], 0x532fb63c, Use []),
   ([4, 5, 6, 7, 0, 1, 2, 3], 0xd2c741c6, Use []),
   ([3, 4, 5, 6, 7, 0, 1, 2], 0x07237ea3, Use []),
   ([2, 3, 4, 5, 6, 7, 0, 1], 0xa4954b68, Use []),
   ([1, 2, 3, 4, 5, 6, 7, 0], 0x4c191d76, Use [])]"

definition d64_lines3 :: "32 word line list" where
  "d64_lines3 =
  [([0, 1, 2, 3, 4, 5, 6, 7], 0x428a2f98, Use [W 0]),
   ([7, 0, 1, 2, 3, 4, 5, 6], 0x71374491, Use [W 1]),
   ([6, 7, 0, 1, 2, 3, 4, 5], 0xb5c0fbcf, Use [W 2]),
   ([5, 6, 7, 0, 1, 2, 3, 4], 0xe9b5dba5, Use [W 3]),
   ([4, 5, 6, 7, 0, 1, 2, 3], 0x3956c25b, Use [W 4]),
   ([3, 4, 5, 6, 7, 0, 1, 2], 0x59f111f1, Use [W 5]),
   ([2, 3, 4, 5, 6, 7, 0, 1], 0x923f82a4, Use [W 6]),
   ([1, 2, 3, 4, 5, 6, 7, 0], 0xab1c5ed5, Use [W 7]),
   ([0, 1, 2, 3, 4, 5, 6, 7], 0x5807aa98, Use []),
   ([7, 0, 1, 2, 3, 4, 5, 6], 0x12835b01, Use []),
   ([6, 7, 0, 1, 2, 3, 4, 5], 0x243185be, Use []),
   ([5, 6, 7, 0, 1, 2, 3, 4], 0x550c7dc3, Use []),
   ([4, 5, 6, 7, 0, 1, 2, 3], 0x72be5d74, Use []),
   ([3, 4, 5, 6, 7, 0, 1, 2], 0x80deb1fe, Use []),
   ([2, 3, 4, 5, 6, 7, 0, 1], 0x9bdc06a7, Use []),
   ([1, 2, 3, 4, 5, 6, 7, 0], 0xc19bf274, Use []),
   ([0, 1, 2, 3, 4, 5, 6, 7], 0xe49b69c1, Add 0 [S0 1]),
   ([7, 0, 1, 2, 3, 4, 5, 6], 0xefbe4786, Add 1 [Const 0xa00000, S0 2]),
   ([6, 7, 0, 1, 2, 3, 4, 5], 0x0fc19dc6, Add 2 [S1 0, S0 3]),
   ([5, 6, 7, 0, 1, 2, 3, 4], 0x240ca1cc, Add 3 [S1 1, S0 4]),
   ([4, 5, 6, 7, 0, 1, 2, 3], 0x2de92c6f, Add 4 [S1 2, S0 5]),
   ([3, 4, 5, 6, 7, 0, 1, 2], 0x4a7484aa, Add 5 [S1 3, S0 6]),
   ([2, 3, 4, 5, 6, 7, 0, 1], 0x5cb0a9dc, Add 6 [S1 4, Const 0x100, S0 7]),
   ([1, 2, 3, 4, 5, 6, 7, 0], 0x76f988da, Add 7 [S1 5, W 0, Const 0x11002000]),
   ([0, 1, 2, 3, 4, 5, 6, 7], 0x983e5152, Assign 8 [Const 0x80000000, S1 6, W 1]),
   ([7, 0, 1, 2, 3, 4, 5, 6], 0xa831c66d, Assign 9 [S1 7, W 2]),
   ([6, 7, 0, 1, 2, 3, 4, 5], 0xb00327c8, Assign 10 [S1 8, W 3]),
   ([5, 6, 7, 0, 1, 2, 3, 4], 0xbf597fc7, Assign 11 [S1 9, W 4]),
   ([4, 5, 6, 7, 0, 1, 2, 3], 0xc6e00bf3, Assign 12 [S1 10, W 5]),
   ([3, 4, 5, 6, 7, 0, 1, 2], 0xd5a79147, Assign 13 [S1 11, W 6]),
   ([2, 3, 4, 5, 6, 7, 0, 1], 0x06ca6351, Assign 14 [S1 12, W 7, Const 0x400022]),
   ([1, 2, 3, 4, 5, 6, 7, 0], 0x14292967, Assign 15 [Const 0x100, S1 13, W 8, S0 0]),
   ([0, 1, 2, 3, 4, 5, 6, 7], 0x27b70a85, Add 0 [S1 14, W 9, S0 1]),
   ([7, 0, 1, 2, 3, 4, 5, 6], 0x2e1b2138, Add 1 [S1 15, W 10, S0 2]),
   ([6, 7, 0, 1, 2, 3, 4, 5], 0x4d2c6dfc, Add 2 [S1 0, W 11, S0 3]),
   ([5, 6, 7, 0, 1, 2, 3, 4], 0x53380d13, Add 3 [S1 1, W 12, S0 4]),
   ([4, 5, 6, 7, 0, 1, 2, 3], 0x650a7354, Add 4 [S1 2, W 13, S0 5]),
   ([3, 4, 5, 6, 7, 0, 1, 2], 0x766a0abb, Add 5 [S1 3, W 14, S0 6]),
   ([2, 3, 4, 5, 6, 7, 0, 1], 0x81c2c92e, Add 6 [S1 4, W 15, S0 7]),
   ([1, 2, 3, 4, 5, 6, 7, 0], 0x92722c85, Add 7 [S1 5, W 0, S0 8]),
   ([0, 1, 2, 3, 4, 5, 6, 7], 0xa2bfe8a1, Add 8 [S1 6, W 1, S0 9]),
   ([7, 0, 1, 2, 3, 4, 5, 6], 0xa81a664b, Add 9 [S1 7, W 2, S0 10]),
   ([6, 7, 0, 1, 2, 3, 4, 5], 0xc24b8b70, Add 10 [S1 8, W 3, S0 11]),
   ([5, 6, 7, 0, 1, 2, 3, 4], 0xc76c51a3, Add 11 [S1 9, W 4, S0 12]),
   ([4, 5, 6, 7, 0, 1, 2, 3], 0xd192e819, Add 12 [S1 10, W 5, S0 13]),
   ([3, 4, 5, 6, 7, 0, 1, 2], 0xd6990624, Add 13 [S1 11, W 6, S0 14]),
   ([2, 3, 4, 5, 6, 7, 0, 1], 0xf40e3585, Add 14 [S1 12, W 7, S0 15]),
   ([1, 2, 3, 4, 5, 6, 7, 0], 0x106aa070, Add 15 [S1 13, W 8, S0 0]),
   ([0, 1, 2, 3, 4, 5, 6, 7], 0x19a4c116, Add 0 [S1 14, W 9, S0 1]),
   ([7, 0, 1, 2, 3, 4, 5, 6], 0x1e376c08, Add 1 [S1 15, W 10, S0 2]),
   ([6, 7, 0, 1, 2, 3, 4, 5], 0x2748774c, Add 2 [S1 0, W 11, S0 3]),
   ([5, 6, 7, 0, 1, 2, 3, 4], 0x34b0bcb5, Add 3 [S1 1, W 12, S0 4]),
   ([4, 5, 6, 7, 0, 1, 2, 3], 0x391c0cb3, Add 4 [S1 2, W 13, S0 5]),
   ([3, 4, 5, 6, 7, 0, 1, 2], 0x4ed8aa4a, Add 5 [S1 3, W 14, S0 6]),
   ([2, 3, 4, 5, 6, 7, 0, 1], 0x5b9cca4f, Add 6 [S1 4, W 15, S0 7]),
   ([1, 2, 3, 4, 5, 6, 7, 0], 0x682e6ff3, Add 7 [S1 5, W 0, S0 8]),
   ([0, 1, 2, 3, 4, 5, 6, 7], 0x748f82ee, Add 8 [S1 6, W 1, S0 9]),
   ([7, 0, 1, 2, 3, 4, 5, 6], 0x78a5636f, Add 9 [S1 7, W 2, S0 10]),
   ([6, 7, 0, 1, 2, 3, 4, 5], 0x84c87814, Add 10 [S1 8, W 3, S0 11]),
   ([5, 6, 7, 0, 1, 2, 3, 4], 0x8cc70208, Add 11 [S1 9, W 4, S0 12]),
   ([4, 5, 6, 7, 0, 1, 2, 3], 0x90befffa, Add 12 [S1 10, W 5, S0 13]),
   ([3, 4, 5, 6, 7, 0, 1, 2], 0xa4506ceb, Add 13 [S1 11, W 6, S0 14]),
   ([2, 3, 4, 5, 6, 7, 0, 1], 0xbef9a3f7, Use [W 14, S1 12, W 7, S0 15]),
   ([1, 2, 3, 4, 5, 6, 7, 0], 0xc67178f2, Use [W 15, S1 13, W 8, S0 0])]"

definition TransformD64 :: "bytes \<Rightarrow> bytes" where
  "TransformD64 inp =
     (let (v, w) = run_lines sha256_fns inp sha256_lines (sha256_Initialize, replicate 16 0);
          t = map2 (+) v sha256_Initialize;
          (v, w) = run_lines sha256_fns inp d64_lines2 (t, w);
          w = map2 (+) t v @ drop 8 w;
          (v, w) = run_lines sha256_fns inp d64_lines3 (sha256_Initialize, w)
      in sha256_output (map2 (+) v sha256_Initialize))"

definition padding1 :: bytes where
  "padding1 =
     [0x80, 0, 0, 0, 0, 0, 0, 0, 0, 0, 0, 0, 0, 0, 0, 0,
      0, 0, 0, 0, 0, 0, 0, 0, 0, 0, 0, 0, 0, 0, 0, 0,
      0, 0, 0, 0, 0, 0, 0, 0, 0, 0, 0, 0, 0, 0, 0, 0,
      0, 0, 0, 0, 0, 0, 0, 0, 0, 0, 0, 0, 0, 0, 2, 0]"

definition buffer2 :: bytes where
  "buffer2 =
     [0, 0, 0, 0, 0, 0, 0, 0, 0, 0, 0, 0, 0, 0, 0, 0,
      0, 0, 0, 0, 0, 0, 0, 0, 0, 0, 0, 0, 0, 0, 0, 0,
      0x80, 0, 0, 0, 0, 0, 0, 0, 0, 0, 0, 0, 0, 0, 0, 0,
      0, 0, 0, 0, 0, 0, 0, 0, 0, 0, 0, 0, 0, 0, 1, 0]"

definition TransformD64Wrapper :: "(32 word list \<Rightarrow> bytes \<Rightarrow> nat \<Rightarrow> 32 word list) \<Rightarrow> bytes \<Rightarrow> bytes" where
  "TransformD64Wrapper tr inp =
     (let s = tr (tr sha256_Initialize inp 1) padding1 1;
          buffer2 = memcpy_at buffer2 0 (sha256_output s)
      in sha256_output (tr sha256_Initialize buffer2 1))"

text \<open>
  \<open>SHA256D64\<close>, with the pointers to the functions for eight, four and two blocks.
\<close>

function d64_loop :: "nat \<Rightarrow> (bytes \<Rightarrow> bytes) \<Rightarrow> bytes \<Rightarrow> bytes \<times> bytes" where
  "d64_loop k f inp =
     (if 0 < k \<and> 64 * k \<le> length inp
      then (case d64_loop k f (drop (64 * k) inp) of (out, rest) \<Rightarrow> (f (take (64 * k) inp) @ out, rest))
      else ([], inp))"
  by pat_completeness auto
termination
  by (relation "measure (\<lambda>(k, f, inp). length inp)") auto

declare d64_loop.simps [simp del]

definition d64_ways :: "nat \<Rightarrow> (bytes \<Rightarrow> bytes) option \<Rightarrow> bytes \<Rightarrow> bytes \<times> bytes" where
  "d64_ways k f inp = (case f of None \<Rightarrow> ([], inp) | Some f \<Rightarrow> d64_loop k f inp)"

definition SHA256D64 :: "(bytes \<Rightarrow> bytes) option \<Rightarrow> (bytes \<Rightarrow> bytes) option \<Rightarrow> (bytes \<Rightarrow> bytes) option \<Rightarrow>
    (bytes \<Rightarrow> bytes) \<Rightarrow> bytes \<Rightarrow> bytes" where
  "SHA256D64 f8 f4 f2 f1 inp =
     (let (out8, inp) = d64_ways 8 f8 inp;
          (out4, inp) = d64_ways 4 f4 inp;
          (out2, inp) = d64_ways 2 f2 inp;
          (out1, inp) = d64_loop 1 f1 inp
      in out8 @ out4 @ out2 @ out1)"

section \<open>Rounds and their inputs\<close>

text \<open>The inputs of the rounds do not depend on the eight variables.\<close>

fun round_inputs :: "32 word sha2_fns \<Rightarrow> bytes \<Rightarrow> 32 word line list \<Rightarrow> 32 word list \<Rightarrow>
    (nat list \<times> 32 word) list \<times> 32 word list" where
  "round_inputs F chunk [] w = ([], w)"
| "round_inputs F chunk ((rs, k, op) # ls) w =
     (case w_step F chunk op w of (x, w) \<Rightarrow>
      case round_inputs F chunk ls w of (kws, w) \<Rightarrow> ((rs, k + x) # kws, w))"

lemma run_round_inputs:
  "fst (run_lines F chunk ls (v, w)) =
     foldl (\<lambda>v (rs, kw). Round F rs kw v) v (fst (round_inputs F chunk ls w))"
  unfolding run_lines_def
  by (induction ls arbitrary: v w) (auto simp: run_line_def split: prod.split)

lemma round_inputs_append:
  "round_inputs F chunk (ls @ ls') w =
     (case round_inputs F chunk ls w of (a, w) \<Rightarrow> case round_inputs F chunk ls' w of (b, w) \<Rightarrow> (a @ b, w))"
  by (induction ls arbitrary: w) (auto split: prod.splits)

definition lines2_w :: "32 word list" where
  "lines2_w = [0x80000000, 0, 0, 0, 0, 0, 0, 0, 0, 0, 0, 0, 0, 0, 0, 512]"

lemma padding1_words: "map (word_at padding1) [0, 4, 8, 12, 16, 20, 24, 28, 32, 36, 40, 44, 48, 52, 56, 60] = lines2_w"
  by (simp add: padding1_def lines2_w_def word_at_def)

lemma sixteen_zeros: "replicate 16 (0 :: 32 word) = [0, 0, 0, 0, 0, 0, 0, 0, 0, 0, 0, 0, 0, 0, 0, 0]"
  by (simp add: eval_nat_numeral)

lemma loads:
  assumes "map (word_at chunk) [0, 4, 8, 12, 16, 20, 24, 28, 32, 36, 40, 44, 48, 52, 56, 60] =
    [x0, x1, x2, x3, x4, x5, x6, x7, x8, x9, x10, x11, x12, x13, x14, x15]"
  shows "round_inputs F chunk (take 16 sha256_lines) (replicate 16 0) =
    (map (\<lambda>((rs, k, op), x). (rs, k + x)) (zip (take 16 sha256_lines) [x0, x1, x2, x3, x4, x5, x6, x7, x8, x9, x10, x11, x12, x13, x14, x15]),
     [x0, x1, x2, x3, x4, x5, x6, x7, x8, x9, x10, x11, x12, x13, x14, x15])"
  using assms by (simp add: sha256_lines_def sixteen_zeros)

text \<open>The variables after eight, sixteen, ... more statements on the first padding block.\<close>

definition lines2_w1 :: "32 word list" where
  "lines2_w1 = [0x80000000, 0x1400000, 0x205000, 0x5088, 0x22000800, 0x22550014, 0x5089742, 0xa0000020,
     0x0, 0x0, 0x0, 0x0, 0x0, 0x0, 0x0, 0x200]"

definition lines2_w2 :: "32 word list" where
  "lines2_w2 = [0x80000000, 0x1400000, 0x205000, 0x5088, 0x22000800, 0x22550014, 0x5089742, 0xa0000020,
     0x5a880000, 0x5c9400, 0x16d49d, 0xfa801f00, 0xd33225d0, 0x11675959, 0xf6e6bfda, 0xb30c1549]"

definition lines2_w3 :: "32 word list" where
  "lines2_w3 = [0x8b2b050, 0x9d7c4c27, 0xce2a393, 0x88e6e1ea, 0xa52b4335, 0x67a16f49, 0xd732016f, 0x4eeb2e91,
     0x5a880000, 0x5c9400, 0x16d49d, 0xfa801f00, 0xd33225d0, 0x11675959, 0xf6e6bfda, 0xb30c1549]"

definition lines2_w4 :: "32 word list" where
  "lines2_w4 = [0x8b2b050, 0x9d7c4c27, 0xce2a393, 0x88e6e1ea, 0xa52b4335, 0x67a16f49, 0xd732016f, 0x4eeb2e91,
     0x5dbf55e5, 0x8eee2335, 0xe2bc5ec2, 0xa83f4394, 0x45ad78f7, 0x36f3d0cd, 0xd99c05e8, 0xb0511dc7]"

definition lines2_w5 :: "32 word list" where
  "lines2_w5 = [0x69bc7ac4, 0xbd11375b, 0xe3ba71e5, 0x3b209ff2, 0x18feee17, 0xe25ad9e7, 0x13375046, 0x515089d,
     0x5dbf55e5, 0x8eee2335, 0xe2bc5ec2, 0xa83f4394, 0x45ad78f7, 0x36f3d0cd, 0xd99c05e8, 0xb0511dc7]"

definition lines2_w6 :: "32 word list" where
  "lines2_w6 = [0x69bc7ac4, 0xbd11375b, 0xe3ba71e5, 0x3b209ff2, 0x18feee17, 0xe25ad9e7, 0x13375046, 0x515089d,
     0x4f0d0f04, 0x2627484e, 0x310128d2, 0xc668b434, 0x420841cc, 0x62d311b8, 0xd99c05e8, 0xb0511dc7]"

lemma lines2_1:
  "round_inputs sha256_fns chunk (take 8 (drop 16 sha256_lines)) lines2_w =
     (map (\<lambda>(rs, k, op). (rs, k)) (take 8 (drop 16 d64_lines2)), lines2_w1)"
  by (simp add: sha256_lines_def d64_lines2_def lines2_w_def lines2_w1_def sha256_fns_def)

lemma lines2_2:
  "round_inputs sha256_fns chunk (take 8 (drop 24 sha256_lines)) lines2_w1 =
     (map (\<lambda>(rs, k, op). (rs, k)) (take 8 (drop 24 d64_lines2)), lines2_w2)"
  by (simp add: sha256_lines_def d64_lines2_def lines2_w1_def lines2_w2_def sha256_fns_def)

lemma lines2_3:
  "round_inputs sha256_fns chunk (take 8 (drop 32 sha256_lines)) lines2_w2 =
     (map (\<lambda>(rs, k, op). (rs, k)) (take 8 (drop 32 d64_lines2)), lines2_w3)"
  by (simp add: sha256_lines_def d64_lines2_def lines2_w2_def lines2_w3_def sha256_fns_def)

lemma lines2_4:
  "round_inputs sha256_fns chunk (take 8 (drop 40 sha256_lines)) lines2_w3 =
     (map (\<lambda>(rs, k, op). (rs, k)) (take 8 (drop 40 d64_lines2)), lines2_w4)"
  by (simp add: sha256_lines_def d64_lines2_def lines2_w3_def lines2_w4_def sha256_fns_def)

lemma lines2_5:
  "round_inputs sha256_fns chunk (take 8 (drop 48 sha256_lines)) lines2_w4 =
     (map (\<lambda>(rs, k, op). (rs, k)) (take 8 (drop 48 d64_lines2)), lines2_w5)"
  by (simp add: sha256_lines_def d64_lines2_def lines2_w4_def lines2_w5_def sha256_fns_def)

lemma lines2_6:
  "round_inputs sha256_fns chunk (take 8 (drop 56 sha256_lines)) lines2_w5 =
     (map (\<lambda>(rs, k, op). (rs, k)) (take 8 (drop 56 d64_lines2)), lines2_w6)"
  by (simp add: sha256_lines_def d64_lines2_def lines2_w5_def lines2_w6_def sha256_fns_def)

lemma split_at_8: "take (8 + n) (drop m xs) = take 8 (drop m xs) @ take n (drop (m + 8) xs)"
  by (simp only: take_add drop_drop add.commute [of 8 m])

lemma second_part:
  "fst (round_inputs sha256_fns padding1 sha256_lines (replicate 16 0)) = map (\<lambda>(rs, k, op). (rs, k)) d64_lines2"
proof -
  have first: "round_inputs sha256_fns padding1 (take 16 sha256_lines) (replicate 16 0) =
     (map (\<lambda>((rs, k, op), x). (rs, k + x)) (zip (take 16 sha256_lines) lines2_w), lines2_w)"
    using loads [OF padding1_words [unfolded lines2_w_def]] by (simp only: lines2_w_def)
  have start: "map (\<lambda>((rs, k, op), x). (rs, k + x)) (zip (take 16 sha256_lines) lines2_w) =
      map (\<lambda>(rs, k, op). (rs, k)) (take 16 d64_lines2)"
    by (simp add: sha256_lines_def lines2_w_def d64_lines2_def)
  have parts: "xs = take 16 xs @ take 8 (drop 16 xs) @ take 8 (drop 24 xs) @ take 8 (drop 32 xs) @ take 8 (drop 40 xs) @
      take 8 (drop 48 xs) @ take 8 (drop 56 xs)" if "length xs = 64" for xs :: "32 word line list"
  proof -
    have "xs = take 16 xs @ take (8 + (8 + (8 + (8 + (8 + 8))))) (drop 16 xs)" using that by simp
    then show ?thesis by (simp only: split_at_8) simp
  qed
  have "fst (round_inputs sha256_fns padding1 sha256_lines (replicate 16 0)) =
      map (\<lambda>(rs, k, op). (rs, k)) (take 16 d64_lines2 @ take 8 (drop 16 d64_lines2) @ take 8 (drop 24 d64_lines2) @
        take 8 (drop 32 d64_lines2) @ take 8 (drop 40 d64_lines2) @ take 8 (drop 48 d64_lines2) @ take 8 (drop 56 d64_lines2))"
    by (subst parts [OF length_sha256_lines])
      (simp only: round_inputs_append first lines2_1 lines2_2 lines2_3 lines2_4 lines2_5 lines2_6 prod.case fst_conv
        start map_append)
  also have "\<dots> = map (\<lambda>(rs, k, op). (rs, k)) d64_lines2"
    by (subst (8) parts) (simp_all add: d64_lines2_def)
  finally show ?thesis .
qed

text \<open>
  The second padding block behind a digest of eight words. The statements of the third part leave
  out what the constants make zero, and combine the others.
\<close>

lemma word_at_append:
  "length xs = pos \<Longrightarrow> word_at (xs @ WriteBE32 x @ ys) pos = x"
proof -
  assume "length xs = pos"
  then have "word_at (xs @ WriteBE32 x @ ys) pos = (word_of_nat (le_value (rev (WriteBE32 x))) :: 32 word)"
    by (simp add: word_at_def)
  then show ?thesis by (simp add: WriteBE32_def word_of_nat_le_bytes)
qed

lemma buffer2_words:
  assumes "b = memcpy_at buffer2 0 (sha256_output [a0, a1, a2, a3, a4, a5, a6, a7])"
  shows "map (word_at b) [0, 4, 8, 12, 16, 20, 24, 28, 32, 36, 40, 44, 48, 52, 56, 60] =
    [a0, a1, a2, a3, a4, a5, a6, a7, 0x80000000, 0, 0, 0, 0, 0, 0, 256]"
proof -
  have b: "b = WriteBE32 a0 @ WriteBE32 a1 @ WriteBE32 a2 @ WriteBE32 a3 @ WriteBE32 a4 @ WriteBE32 a5 @
      WriteBE32 a6 @ WriteBE32 a7 @ drop 32 buffer2"
    using assms by (simp add: memcpy_at_def sha256_output_def)
  have tail: "(word_at b (32 + n) :: 32 word) = word_at (drop 32 buffer2) n" for n
    unfolding b by (simp add: word_at_def)
  have "word_at b 0 = a0" "word_at b 4 = a1" "word_at b 8 = a2" "word_at b 12 = a3" "word_at b 16 = a4"
    "word_at b 20 = a5" "word_at b 24 = a6" "word_at b 28 = a7"
    using word_at_append [of "[]" 0] word_at_append [of "WriteBE32 a0" 4]
      word_at_append [of "WriteBE32 a0 @ WriteBE32 a1" 8]
      word_at_append [of "WriteBE32 a0 @ WriteBE32 a1 @ WriteBE32 a2" 12]
      word_at_append [of "WriteBE32 a0 @ WriteBE32 a1 @ WriteBE32 a2 @ WriteBE32 a3" 16]
      word_at_append [of "WriteBE32 a0 @ WriteBE32 a1 @ WriteBE32 a2 @ WriteBE32 a3 @ WriteBE32 a4" 20]
      word_at_append [of "WriteBE32 a0 @ WriteBE32 a1 @ WriteBE32 a2 @ WriteBE32 a3 @ WriteBE32 a4 @ WriteBE32 a5" 24]
      word_at_append [of "WriteBE32 a0 @ WriteBE32 a1 @ WriteBE32 a2 @ WriteBE32 a3 @ WriteBE32 a4 @ WriteBE32 a5 @
        WriteBE32 a6" 28]
    unfolding b by simp_all
  moreover have "word_at b 32 = (0x80000000 :: 32 word)" "word_at b 36 = (0 :: 32 word)" "word_at b 40 = (0 :: 32 word)"
    "word_at b 44 = (0 :: 32 word)" "word_at b 48 = (0 :: 32 word)" "word_at b 52 = (0 :: 32 word)"
    "word_at b 56 = (0 :: 32 word)" "word_at b 60 = (256 :: 32 word)"
    using tail [of 0] tail [of 4] tail [of 8] tail [of 12] tail [of 16] tail [of 20] tail [of 24] tail [of 28]
    by (simp_all add: word_at_def buffer2_def)
  ultimately show ?thesis by simp
qed

lemma sigma_constants:
  "sigma0 sha256_fns 0 = 0" "sigma1 sha256_fns 0 = 0" "sigma0 sha256_fns 0x80000000 = 0x11002000"
  "sigma1 sha256_fns 256 = 0xa00000" "sigma0 sha256_fns 256 = 0x400022"
  by (simp_all add: sha256_fns_def)

lemma third_loads:
  assumes "length w = 16"
  shows "round_inputs sha256_fns chunk (take 16 d64_lines3) ([a0, a1, a2, a3, a4, a5, a6, a7] @ drop 8 w) =
    (map (\<lambda>((rs, k, op), x). (rs, k + x)) (zip (take 16 sha256_lines) [a0, a1, a2, a3, a4, a5, a6, a7, 0x80000000, 0, 0, 0, 0, 0, 0, 256]),
     [a0, a1, a2, a3, a4, a5, a6, a7] @ drop 8 w)"
  by (simp add: d64_lines3_def sha256_lines_def)

lemma third_middle1:
  "\<exists>kws e0 e1 e2 e3 e4 e5 e6 e7.
     round_inputs sha256_fns chunk (take 8 (drop 16 sha256_lines)) [a0, a1, a2, a3, a4, a5, a6, a7, 0x80000000, 0, 0, 0, 0, 0, 0, 256] =
       (kws, [e0, e1, e2, e3, e4, e5, e6, e7, 0x80000000, 0, 0, 0, 0, 0, 0, 256]) \<and>
     round_inputs sha256_fns chunk' (take 8 (drop 16 d64_lines3)) [a0, a1, a2, a3, a4, a5, a6, a7, j0, j1, j2, j3, j4, j5, j6, j7] =
       (kws, [e0, e1, e2, e3, e4, e5, e6, e7, j0, j1, j2, j3, j4, j5, j6, j7])"
  by (simp add: d64_lines3_def sha256_lines_def sigma_constants Let_def)

lemma third_middle2:
  "\<exists>kws w.
     round_inputs sha256_fns chunk (take 8 (drop 24 sha256_lines)) [a0, a1, a2, a3, a4, a5, a6, a7, 0x80000000, 0, 0, 0, 0, 0, 0, 256] = (kws, w) \<and>
     round_inputs sha256_fns chunk' (take 8 (drop 24 d64_lines3)) [a0, a1, a2, a3, a4, a5, a6, a7, j0, j1, j2, j3, j4, j5, j6, j7] = (kws, w)"
  by (simp add: d64_lines3_def sha256_lines_def sigma_constants Let_def)

fun no_load :: "'w line \<Rightarrow> bool" where
  "no_load (rs, k, Load i pos) = False"
| "no_load (rs, k, op) = True"

lemma round_inputs_no_load:
  "list_all no_load ls \<Longrightarrow> round_inputs F chunk ls w = round_inputs F chunk' ls w"
proof (induction ls arbitrary: w)
  case (Cons l ls)
  obtain rs k op where l: "l = (rs, k, op)" by (metis prod.exhaust)
  show ?case using Cons unfolding l by (cases op) (auto split: prod.split)
qed simp

lemma last_lines: "drop 32 d64_lines3 = drop 32 sha256_lines" "list_all no_load (drop 32 sha256_lines)"
  by (simp_all add: d64_lines3_def sha256_lines_def)

lemma split_16_8_8: "xs = take 16 xs @ take 8 (drop 16 xs) @ take 8 (drop 24 xs) @ drop 32 xs"
proof -
  have "take 8 (drop 24 xs) @ drop 32 xs = drop 24 xs"
    using append_take_drop_id [of 8 "drop 24 xs"] unfolding drop_drop by simp
  moreover have "take 8 (drop 16 xs) @ drop 24 xs = drop 16 xs"
    using append_take_drop_id [of 8 "drop 16 xs"] unfolding drop_drop by simp
  ultimately show ?thesis by simp
qed

lemma third_part:
  assumes "b = memcpy_at buffer2 0 (sha256_output d)" and "length d = 8" and "length w = 16"
  shows "fst (round_inputs sha256_fns b sha256_lines (replicate 16 0)) =
    fst (round_inputs sha256_fns chunk d64_lines3 (d @ drop 8 w))"
proof -
  obtain a0 a1 a2 a3 a4 a5 a6 a7 where d: "d = [a0, a1, a2, a3, a4, a5, a6, a7]" using list_8 [OF assms(2)] by blast
  have "length (drop 8 w) = 8" using assms(3) by simp
  then obtain j0 j1 j2 j3 j4 j5 j6 j7 where w: "drop 8 w = [j0, j1, j2, j3, j4, j5, j6, j7]" using list_8 by blast
  let ?start = "map (\<lambda>((rs, k, op), x). (rs, k + x)) (zip (take 16 sha256_lines) [a0, a1, a2, a3, a4, a5, a6, a7, 0x80000000, 0, 0, 0, 0, 0, 0, 256])"
  have r1: "round_inputs sha256_fns b (take 16 sha256_lines) (replicate 16 0) =
      (?start, [a0, a1, a2, a3, a4, a5, a6, a7, 0x80000000, 0, 0, 0, 0, 0, 0, 256])"
    using loads [OF buffer2_words [of b, OF assms(1) [unfolded d]]] .
  have r1': "round_inputs sha256_fns chunk (take 16 d64_lines3) (d @ drop 8 w) = (?start, [a0, a1, a2, a3, a4, a5, a6, a7, j0, j1, j2, j3, j4, j5, j6, j7])"
    using third_loads [OF assms(3), of chunk a0 a1 a2 a3 a4 a5 a6 a7] w by (simp add: d)
  obtain kws e0 e1 e2 e3 e4 e5 e6 e7 where r2:
    "round_inputs sha256_fns b (take 8 (drop 16 sha256_lines)) [a0, a1, a2, a3, a4, a5, a6, a7, 0x80000000, 0, 0, 0, 0, 0, 0, 256] =
      (kws, [e0, e1, e2, e3, e4, e5, e6, e7, 0x80000000, 0, 0, 0, 0, 0, 0, 256])"
    "round_inputs sha256_fns chunk (take 8 (drop 16 d64_lines3)) [a0, a1, a2, a3, a4, a5, a6, a7, j0, j1, j2, j3, j4, j5, j6, j7] =
      (kws, [e0, e1, e2, e3, e4, e5, e6, e7, j0, j1, j2, j3, j4, j5, j6, j7])"
    using third_middle1 [of b a0 a1 a2 a3 a4 a5 a6 a7 chunk j0 j1 j2 j3 j4 j5 j6 j7]
    by (elim exE conjE) (rule that)
  obtain kws' w' where r3:
    "round_inputs sha256_fns b (take 8 (drop 24 sha256_lines)) [e0, e1, e2, e3, e4, e5, e6, e7, 0x80000000, 0, 0, 0, 0, 0, 0, 256] = (kws', w')"
    "round_inputs sha256_fns chunk (take 8 (drop 24 d64_lines3)) [e0, e1, e2, e3, e4, e5, e6, e7, j0, j1, j2, j3, j4, j5, j6, j7] = (kws', w')"
    using third_middle2 [of b e0 e1 e2 e3 e4 e5 e6 e7 chunk j0 j1 j2 j3 j4 j5 j6 j7]
    by (elim exE conjE) (rule that)
  have r4: "round_inputs sha256_fns b (drop 32 sha256_lines) w' = round_inputs sha256_fns chunk (drop 32 sha256_lines) w'"
    using last_lines(2) by (rule round_inputs_no_load)
  obtain kws3 w3 where r5: "round_inputs sha256_fns chunk (drop 32 sha256_lines) w' = (kws3, w3)" by fastforce
  have "fst (round_inputs sha256_fns b sha256_lines (replicate 16 0)) =
      ?start @ kws @ kws' @ fst (round_inputs sha256_fns chunk (drop 32 sha256_lines) w')"
    by (subst split_16_8_8 [of sha256_lines])
      (simp only: round_inputs_append r1 r2 r3 r4 r5 prod.case fst_conv)
  moreover have "fst (round_inputs sha256_fns chunk d64_lines3 (d @ drop 8 w)) =
      ?start @ kws @ kws' @ fst (round_inputs sha256_fns chunk (drop 32 sha256_lines) w')"
    by (subst split_16_8_8 [of d64_lines3])
      (simp only: round_inputs_append r1' r2 r3 r5 last_lines(1) prod.case fst_conv)
  ultimately show ?thesis by simp
qed

section \<open>The double hash\<close>

lemma length_run_lines: "length (fst (run_lines F chunk ls (v, w))) = length v"
  unfolding run_lines_def
  by (induction ls arbitrary: v w) (auto simp: run_line_def split: prod.split)

lemma length_run_lines_w: "length (snd (run_lines F chunk ls (v, w))) = length w"
proof -
  have "length (snd (w_step F chunk op w)) = length w" for op and w :: "'a word list"
    by (cases op) (auto simp: Let_def)
  then show ?thesis
    unfolding run_lines_def
    by (induction ls arbitrary: v w) (auto simp: run_line_def case_prod_unfold)
qed

lemma no_loads2: "round_inputs F chunk d64_lines2 w = (map (\<lambda>(rs, k, op). (rs, k)) d64_lines2, w)"
  by (simp add: d64_lines2_def)

lemma TransformD64_wrapper:
  assumes "length inp = 64"
  shows "TransformD64 inp = TransformD64Wrapper sha256_Transform inp"
proof -
  let ?run = "\<lambda>chunk v. fst (run_lines sha256_fns chunk sha256_lines (v, replicate 16 0))"
  obtain v1 w1 where r1: "run_lines sha256_fns inp sha256_lines (sha256_Initialize, replicate 16 0) = (v1, w1)" by fastforce
  have len: "length v1 = 8" "length w1 = 16"
    using length_run_lines [of sha256_fns inp sha256_lines sha256_Initialize "replicate 16 0"]
      length_run_lines_w [of sha256_fns inp sha256_lines sha256_Initialize "replicate 16 0"] r1
    by (simp_all add: sha256_Initialize_def)
  define t where "t = map2 (+) v1 sha256_Initialize"
  have t: "length t = 8" "t = map2 (+) sha256_Initialize v1"
    using len by (auto simp: t_def sha256_Initialize_def length_Suc_conv eval_nat_numeral add.commute)
  obtain v2 w2 where r2: "run_lines sha256_fns inp d64_lines2 (t, w1) = (v2, w2)" by fastforce
  have v2: "v2 = ?run padding1 t"
    using run_round_inputs [of sha256_fns inp d64_lines2 t w1] r2 second_part
      run_round_inputs [of sha256_fns padding1 sha256_lines t "replicate 16 0"] by (simp add: no_loads2)
  have len2: "length v2 = 8" "length w2 = 16"
    using length_run_lines [of sha256_fns inp d64_lines2 t w1] length_run_lines_w [of sha256_fns inp d64_lines2 t w1]
      r2 t len by simp_all
  define d where "d = map2 (+) t v2"
  have d: "length d = 8" using t len2 by (simp add: d_def)
  let ?b = "memcpy_at buffer2 0 (sha256_output d)"
  have third: "fst (run_lines sha256_fns inp d64_lines3 (sha256_Initialize, d @ drop 8 w2)) = ?run ?b sha256_Initialize"
    unfolding run_round_inputs third_part [OF refl d len2(2), of inp] ..
  have blocks: "sha256_block sha256_Initialize inp = t" "sha256_block t padding1 = d"
    "length padding1 = 64" "length ?b = 64"
    using r1 t(2) v2 length_sha256_output [OF d]
    by (simp_all add: sha256_block_def d_def length_memcpy_at padding1_def buffer2_def)
  have swap: "map2 (+) v sha256_Initialize = map2 (+) sha256_Initialize v" if "length v = 8" for v
    using list_8 [OF that] by (auto simp: sha256_Initialize_def add.commute)
  obtain v3 w3 where r3: "run_lines sha256_fns inp d64_lines3 (sha256_Initialize, d @ drop 8 w2) = (v3, w3)" by fastforce
  have "TransformD64 inp = sha256_output (map2 (+) v3 sha256_Initialize)"
    unfolding TransformD64_def r1 Let_def prod.case t_def [symmetric] r2 d_def [symmetric] r3 ..
  also have "v3 = ?run ?b sha256_Initialize" using third r3 by simp
  also have "map2 (+) (?run ?b sha256_Initialize) sha256_Initialize = sha256_block sha256_Initialize ?b"
    unfolding sha256_block_def by (rule swap) (simp add: length_run_lines sha256_Initialize_def)
  finally show ?thesis
    using assms blocks by (simp add: TransformD64Wrapper_def Let_def)
qed

text \<open>Both are SHA-256 applied twice.\<close>

lemma replicate_numeral: "replicate (numeral k) y = y # replicate (pred_numeral k) y"
  unfolding numeral_eq_Suc [of k] by (rule replicate_Suc)

lemma padded_64: "length m = 64 \<Longrightarrow> padded 64 8 WriteBE64 m = m @ padding1"
  by (simp add: padded_def padding1_def WriteBE64_def le_bytes_numeral replicate_numeral)

lemma padded_32: "length m = 32 \<Longrightarrow> padded 64 8 WriteBE64 m = memcpy_at buffer2 0 m"
  by (simp add: padded_def memcpy_at_def buffer2_def WriteBE64_def le_bytes_numeral replicate_numeral)

lemma TransformD64_double:
  assumes "length inp = 64"
  shows "TransformD64 inp = fips_SHA256 (fips_SHA256 inp)"
proof -
  let ?s = "sha256_block (sha256_block sha256_Initialize inp) padding1"
  have p: "length padding1 = 64" by (simp add: padding1_def)
  have "chunks 64 (inp @ padding1) = [inp, padding1]"
    using assms p chunks_append [of 64 inp padding1] by (simp add: chunks_block)
  then have one: "fips_SHA256 inp = sha256_output ?s"
    using assms by (simp add: md_digest_def padded_64 flip: sha256_digest)
  have len: "length (sha256_output ?s) = 32"
    by (intro length_sha256_output length_sha256_block) (simp add: sha256_Initialize_def)
  let ?b = "memcpy_at buffer2 0 (sha256_output ?s)"
  have b: "length ?b = 64" using len by (simp add: length_memcpy_at buffer2_def)
  have "fips_SHA256 (sha256_output ?s) = sha256_output (sha256_block sha256_Initialize ?b)"
    using padded_32 [OF len] chunks_block [OF _ b] by (simp add: md_digest_def flip: sha256_digest)
  then show ?thesis
    unfolding TransformD64_wrapper [OF assms] one using assms p b by (simp add: TransformD64Wrapper_def Let_def)
qed

text \<open>
  \<open>SHA256D64\<close> hashes block by block, whichever of the pointers are set, if the functions behind them
  do.
\<close>

definition many :: "nat \<Rightarrow> (bytes \<Rightarrow> bytes) \<Rightarrow> bool" where
  "many k f \<longleftrightarrow> (\<forall>inp. length inp = 64 * k \<longrightarrow> f inp = concat (map TransformD64 (chunks 64 inp)))"

lemma d64_loop_blocks:
  assumes "many k f" and "0 < k" and "64 dvd length inp" and "d64_loop k f inp = (out, rest)"
  shows "out @ concat (map TransformD64 (chunks 64 rest)) = concat (map TransformD64 (chunks 64 inp)) \<and>
    64 dvd length rest \<and> length rest < 64 * k"
  using assms
proof (induction k f inp arbitrary: out rest rule: d64_loop.induct)
  case (1 k f inp)
  show ?case
  proof (cases "64 * k \<le> length inp")
    case True
    obtain out' rest' where l: "d64_loop k f (drop (64 * k) inp) = (out', rest')" by fastforce
    have ih: "out' @ concat (map TransformD64 (chunks 64 rest')) = concat (map TransformD64 (chunks 64 (drop (64 * k) inp)))"
      "64 dvd length rest'" "length rest' < 64 * k"
      using 1(1) [OF _ 1(2,3) _ l] 1(3,4) True by (auto simp: dvd_diff_nat)
    have "f (take (64 * k) inp) = concat (map TransformD64 (chunks 64 (take (64 * k) inp)))"
      using 1(2) True by (simp add: many_def)
    moreover have "out = f (take (64 * k) inp) @ out'" "rest = rest'"
      using 1(3,5) True l by (simp_all add: d64_loop.simps [of k f inp])
    moreover have "chunks 64 inp = chunks 64 (take (64 * k) inp) @ chunks 64 (drop (64 * k) inp)"
      using chunks_append [of 64 "take (64 * k) inp" "drop (64 * k) inp"] True by simp
    ultimately show ?thesis using ih by simp
  next
    case False
    then show ?thesis using 1(3-5) by (simp add: d64_loop.simps [of k f inp])
  qed
qed

lemma d64_ways_blocks:
  assumes "\<And>g. f = Some g \<Longrightarrow> many k g" and "0 < k" and "64 dvd length inp" and "d64_ways k f inp = (out, rest)"
  shows "out @ concat (map TransformD64 (chunks 64 rest)) = concat (map TransformD64 (chunks 64 inp)) \<and> 64 dvd length rest"
  using assms d64_loop_blocks [of k "the f" inp out rest]
  by (auto simp: d64_ways_def split: option.splits)

lemma SHA256D64_blocks:
  assumes "\<And>g. f8 = Some g \<Longrightarrow> many 8 g" and "\<And>g. f4 = Some g \<Longrightarrow> many 4 g" and "\<And>g. f2 = Some g \<Longrightarrow> many 2 g"
    and "64 dvd length inp"
  shows "SHA256D64 f8 f4 f2 TransformD64 inp = concat (map TransformD64 (chunks 64 inp))"
proof -
  obtain o8 i8 o4 i4 o2 i2 o1 i1 where e: "d64_ways 8 f8 inp = (o8, i8)" "d64_ways 4 f4 i8 = (o4, i4)"
    "d64_ways 2 f2 i4 = (o2, i2)" "d64_loop 1 TransformD64 i2 = (o1, i1)" by (metis prod.exhaust)
  have "many 1 TransformD64" by (simp add: many_def chunks_block)
  note s8 = d64_ways_blocks [OF assms(1) _ assms(4) e(1)]
  have s4: "o4 @ concat (map TransformD64 (chunks 64 i4)) = concat (map TransformD64 (chunks 64 i8))" "64 dvd length i4"
    using d64_ways_blocks [OF assms(2) _ _ e(2)] s8 by auto
  have s2: "o2 @ concat (map TransformD64 (chunks 64 i2)) = concat (map TransformD64 (chunks 64 i4))" "64 dvd length i2"
    using d64_ways_blocks [OF assms(3) _ _ e(3)] s4 by auto
  have s1: "o1 @ concat (map TransformD64 (chunks 64 i1)) = concat (map TransformD64 (chunks 64 i2))" "length i1 < 64"
    using d64_loop_blocks [OF \<open>many 1 TransformD64\<close> _ s2(2) e(4)] by auto
  have "chunks 64 i1 = []" using s1(2) by (rule chunks_short)
  then show ?thesis using s8 s4 s2 s1 by (simp add: SHA256D64_def e e(4) [simplified] Let_def)
qed

end
