(* ===== verification/Intrinsics.thy ===== *)
theory Intrinsics
  imports Sha256D64
begin

unbundle bit_operations_syntax

text \<open>
  The vector instructions the files \<open>src/crypto/sha256_avx2.cpp\<close>, \<open>sha256_sse41.cpp\<close> and
  \<open>sha256_shani.cpp\<close> use, as their documentation describes them. They are part of the language these
  files are written in. A vector of 128 or 256 bits is the list of its 32-bit lanes, the lowest
  first; an instruction on lanes of other widths goes through the bytes of the vector, of which the
  lowest is the first.
\<close>

type_synonym vec = "32 word list"

section \<open>Instructions on the lanes\<close>

definition mm_set1_epi32 :: "nat \<Rightarrow> 32 word \<Rightarrow> vec" where
  "mm_set1_epi32 n x = replicate n x"

text \<open>The arguments of \<open>_mm_set_epi32\<close> and \<open>_mm_set_epi64x\<close> are the lanes from the highest on.\<close>

definition mm_set_epi32 :: "32 word list \<Rightarrow> vec" where
  "mm_set_epi32 xs = rev xs"

definition mm_set_epi64x :: "64 word \<Rightarrow> 64 word \<Rightarrow> vec" where
  "mm_set_epi64x e1 e0 = [ucast e0, ucast (drop_bit 32 e0), ucast e1, ucast (drop_bit 32 e1)]"

definition mm_extract_epi32 :: "vec \<Rightarrow> nat \<Rightarrow> 32 word" where
  "mm_extract_epi32 v i = v ! i"

definition mm_add_epi32 :: "vec \<Rightarrow> vec \<Rightarrow> vec" where
  "mm_add_epi32 = map2 (+)"

definition mm_and :: "vec \<Rightarrow> vec \<Rightarrow> vec" where
  "mm_and = map2 (AND)"

definition mm_or :: "vec \<Rightarrow> vec \<Rightarrow> vec" where
  "mm_or = map2 (OR)"

definition mm_xor :: "vec \<Rightarrow> vec \<Rightarrow> vec" where
  "mm_xor = map2 (XOR)"

definition mm_srli_epi32 :: "vec \<Rightarrow> nat \<Rightarrow> vec" where
  "mm_srli_epi32 v n = map (drop_bit n) v"

definition mm_slli_epi32 :: "vec \<Rightarrow> nat \<Rightarrow> vec" where
  "mm_slli_epi32 v n = map (push_bit n) v"

definition mm_shuffle_epi32 :: "vec \<Rightarrow> nat \<Rightarrow> vec" where
  "mm_shuffle_epi32 a imm = map (\<lambda>i. a ! (imm div 4 ^ i mod 4)) [0, 1, 2, 3]"

section \<open>Instructions on the bytes\<close>

definition vec_bytes :: "vec \<Rightarrow> bytes" where
  "vec_bytes v = concat (map WriteLE32 v)"

definition bytes_vec :: "bytes \<Rightarrow> vec" where
  "bytes_vec bs = map (\<lambda>c. word_of_nat (le_value c)) (chunks 4 bs)"

text \<open>Bytes are shuffled within each group of sixteen.\<close>

definition shuffle_16 :: "bytes \<Rightarrow> bytes \<Rightarrow> bytes" where
  "shuffle_16 a m = map (\<lambda>i. if bit i 7 then 0 else a ! unat (i AND 15)) m"

definition mm_shuffle_epi8 :: "vec \<Rightarrow> vec \<Rightarrow> vec" where
  "mm_shuffle_epi8 a m =
     bytes_vec (concat (map2 shuffle_16 (chunks 16 (vec_bytes a)) (chunks 16 (vec_bytes m))))"

definition mm_alignr_epi8 :: "vec \<Rightarrow> vec \<Rightarrow> nat \<Rightarrow> vec" where
  "mm_alignr_epi8 a b imm = bytes_vec (take 16 (drop imm (vec_bytes b @ vec_bytes a)))"

definition mm_blend_epi16 :: "vec \<Rightarrow> vec \<Rightarrow> nat \<Rightarrow> vec" where
  "mm_blend_epi16 a b imm =
     bytes_vec (concat (map (\<lambda>i. if bit imm i then chunks 2 (vec_bytes b) ! i else chunks 2 (vec_bytes a) ! i)
       [0, 1, 2, 3, 4, 5, 6, 7]))"

definition mm_loadu_si128 :: "bytes \<Rightarrow> vec" where
  "mm_loadu_si128 p = bytes_vec (take 16 p)"

section \<open>The SHA instructions\<close>

text \<open>Two rounds, of which the first operand holds CDGH and the second ABEF.\<close>

definition mm_sha256rnds2_epu32 :: "vec \<Rightarrow> vec \<Rightarrow> vec \<Rightarrow> vec" where
  "mm_sha256rnds2_epu32 a b k =
     (let s = compress_step fips256_fns (k ! 1)
        (compress_step fips256_fns (k ! 0) [b ! 3, b ! 2, a ! 3, a ! 2, b ! 1, b ! 0, a ! 1, a ! 0])
      in [s ! 5, s ! 4, s ! 1, s ! 0])"

definition mm_sha256msg1_epu32 :: "vec \<Rightarrow> vec \<Rightarrow> vec" where
  "mm_sha256msg1_epu32 a b =
     [a ! 0 + sigma0 fips256_fns (a ! 1), a ! 1 + sigma0 fips256_fns (a ! 2), a ! 2 + sigma0 fips256_fns (a ! 3),
      a ! 3 + sigma0 fips256_fns (b ! 0)]"

definition mm_sha256msg2_epu32 :: "vec \<Rightarrow> vec \<Rightarrow> vec" where
  "mm_sha256msg2_epu32 a b =
     (let w16 = a ! 0 + sigma1 fips256_fns (b ! 2);
          w17 = a ! 1 + sigma1 fips256_fns (b ! 3);
          w18 = a ! 2 + sigma1 fips256_fns w16;
          w19 = a ! 3 + sigma1 fips256_fns w17
      in [w16, w17, w18, w19])"

section \<open>Facts\<close>

lemma vec_bytes_simps [simp]:
  "vec_bytes [] = []" "vec_bytes (x # v) = WriteLE32 x @ vec_bytes v" "vec_bytes (v @ v') = vec_bytes v @ vec_bytes v'"
  by (simp_all add: vec_bytes_def)

lemma length_vec_bytes [simp]: "length (vec_bytes v) = 4 * length v"
  by (induction v) simp_all

lemma bytes_vec_append: "length c = 4 \<Longrightarrow> bytes_vec (c @ bs) = word_of_nat (le_value c) # bytes_vec bs"
  by (simp add: bytes_vec_def chunks.simps [of 4 "c @ bs"])

lemma bytes_vec_Nil [simp]: "bytes_vec [] = []"
  by (simp add: bytes_vec_def chunks.simps)

lemma bytes_vec_bytes [simp]: "bytes_vec (vec_bytes v) = v"
  by (induction v) (simp_all add: bytes_vec_append WriteLE32_def word_of_nat_le_bytes)

lemma bytes_vec_bytes_append: "bytes_vec (vec_bytes v @ bs) = v @ bytes_vec bs"
  by (induction v) (simp_all add: bytes_vec_append WriteLE32_def word_of_nat_le_bytes)

text \<open>The words of a buffer, and stores of a word.\<close>

lemma vec_bytes_store:
  "j < length ws \<Longrightarrow> memcpy_at (vec_bytes ws) (4 * j) (WriteLE32 x) = vec_bytes (ws[j := x])"
proof -
  assume j: "j < length ws"
  have t: "take (4 * j) (vec_bytes ws) = vec_bytes (take j ws)"
    using j take_length_append [of "4 * j" "vec_bytes (take j ws)" "vec_bytes (drop j ws)"]
    unfolding vec_bytes_simps(3) [symmetric] by simp
  have d: "drop (4 * j + 4) (vec_bytes ws) = vec_bytes (drop (Suc j) ws)"
    using j drop_length_append [of "4 * j + 4" "vec_bytes (take (Suc j) ws)" "vec_bytes (drop (Suc j) ws)"]
    unfolding vec_bytes_simps(3) [symmetric] by simp
  show ?thesis using j t d by (simp add: memcpy_at_def upd_conv_take_nth_drop)
qed

text \<open>Every buffer of whole words is the bytes of a vector.\<close>

lemma bytes_are_vec: "4 dvd length bs \<Longrightarrow> bs = vec_bytes (bytes_vec bs)"
proof (induction "4 :: nat" bs rule: chunks.induct)
  case (1 bs)
  show ?case
  proof (cases "4 \<le> length bs")
    case True
    then have "drop 4 bs = vec_bytes (bytes_vec (drop 4 bs))" using 1 by (simp add: dvd_diff_nat)
    moreover have "bytes_vec bs = word_of_nat (le_value (take 4 bs)) # bytes_vec (drop 4 bs)"
      using True by (simp add: bytes_vec_def chunks.simps [of 4 bs])
    moreover have "WriteLE32 (word_of_nat (le_value (take 4 bs))) = take 4 bs"
      using True le_value_bound [of "take 4 bs"] le_bytes_le_value [of "take 4 bs"]
      by (simp add: WriteLE32_def unat_of_nat)
    ultimately show ?thesis by (metis append_take_drop_id vec_bytes_simps(2))
  next
    case False
    then have "length bs = 0" using 1(2) by (meson dvd_imp_le not_gr_zero)
    then show ?thesis by simp
  qed
qed

text \<open>The reversal of the bytes of each word.\<close>

definition swap32 :: "32 word \<Rightarrow> 32 word" where
  "swap32 x = word_of_nat (le_value (WriteBE32 x))"

lemma WriteLE32_swap: "WriteLE32 (swap32 x) = WriteBE32 x"
  using le_value_bound [of "WriteBE32 x"] le_bytes_le_value [of "WriteBE32 x"]
  by (simp add: WriteLE32_def swap32_def unat_of_nat WriteBE32_def)

lemma WriteBE32_rev: "WriteBE32 x = rev (WriteLE32 x)"
  by (simp add: WriteBE32_def WriteLE32_def)

lemma swap_word_at:
  assumes "pos + 4 \<le> length chunk"
  shows "swap32 (word_of_nat (le_value (take 4 (drop pos chunk)))) = word_at chunk pos"
proof -
  have "length (take 4 (drop pos chunk)) = 4" using assms by simp
  then have "WriteLE32 (word_of_nat (le_value (take 4 (drop pos chunk)))) = take 4 (drop pos chunk)"
    using le_value_bound [of "take 4 (drop pos chunk)"] le_bytes_le_value [of "take 4 (drop pos chunk)"]
    by (simp add: WriteLE32_def unat_of_nat)
  then show ?thesis by (simp add: swap32_def WriteBE32_rev word_at_def)
qed

lemma length_4: "length xs = 4 \<Longrightarrow> \<exists>a b c d. xs = [a, b, c, d]"
  by (auto simp: length_Suc_conv eval_nat_numeral)

lemma WriteLE32_bytes: "\<exists>a b c d. WriteLE32 x = [a, b, c, d]"
  by (rule length_4) simp

text \<open>The mask of all three files.\<close>

definition swap_mask :: "32 word list" where
  "swap_mask = [0x00010203, 0x04050607, 0x08090a0b, 0x0c0d0e0f]"

lemma swap_mask_bytes: "vec_bytes swap_mask = [3, 2, 1, 0, 7, 6, 5, 4, 11, 10, 9, 8, 15, 14, 13, 12]"
  by (simp add: swap_mask_def WriteLE32_def le_bytes_numeral)

lemma shuffle_swap:
  "shuffle_16 (vec_bytes [x0, x1, x2, x3]) (vec_bytes swap_mask) = vec_bytes (map swap32 [x0, x1, x2, x3])"
proof -
  obtain a0 b0 c0 d0 where x0: "WriteLE32 x0 = [a0, b0, c0, d0]" using WriteLE32_bytes by blast
  obtain a1 b1 c1 d1 where x1: "WriteLE32 x1 = [a1, b1, c1, d1]" using WriteLE32_bytes by blast
  obtain a2 b2 c2 d2 where x2: "WriteLE32 x2 = [a2, b2, c2, d2]" using WriteLE32_bytes by blast
  obtain a3 b3 c3 d3 where x3: "WriteLE32 x3 = [a3, b3, c3, d3]" using WriteLE32_bytes by blast
  show ?thesis
    unfolding swap_mask_bytes
    by (simp add: shuffle_16_def x0 x1 x2 x3 WriteLE32_swap WriteBE32_rev)
qed

lemma mm_shuffle_epi8_swap4: "length v = 4 \<Longrightarrow> mm_shuffle_epi8 v swap_mask = map swap32 v"
proof -
  assume "length v = 4"
  then obtain x0 x1 x2 x3 where v: "v = [x0, x1, x2, x3]" using length_4 by blast
  have c: "chunks 16 (vec_bytes u) = [vec_bytes u]" if "length u = 4" for u :: vec
    using that by (intro chunks_block) simp_all
  have "mm_shuffle_epi8 v swap_mask = bytes_vec (shuffle_16 (vec_bytes v) (vec_bytes swap_mask))"
    using \<open>length v = 4\<close> by (simp add: mm_shuffle_epi8_def c swap_mask_def del: vec_bytes_simps)
  then show ?thesis by (simp only: v shuffle_swap bytes_vec_bytes)
qed

lemma mm_shuffle_epi8_swap8: "length v = 8 \<Longrightarrow> mm_shuffle_epi8 v (swap_mask @ swap_mask) = map swap32 v"
proof -
  assume "length v = 8"
  then have "v = take 4 v @ drop 4 v" "length (take 4 v) = 4" "length (drop 4 v) = 4" by simp_all
  then obtain x0 x1 x2 x3 y0 y1 y2 y3 where v: "v = [x0, x1, x2, x3] @ [y0, y1, y2, y3]" by (metis length_4)
  have c: "chunks 16 (vec_bytes (u @ u')) = [vec_bytes u, vec_bytes u']" if "length u = 4" "length u' = 4" for u u' :: vec
    using that chunks_append [of 16 "vec_bytes u" "vec_bytes u'"] by (simp add: chunks_block)
  have "mm_shuffle_epi8 v (swap_mask @ swap_mask) =
      bytes_vec (shuffle_16 (vec_bytes [x0, x1, x2, x3]) (vec_bytes swap_mask) @
        shuffle_16 (vec_bytes [y0, y1, y2, y3]) (vec_bytes swap_mask))"
    by (simp add: mm_shuffle_epi8_def v c swap_mask_def del: vec_bytes_simps append.simps)
  then show ?thesis
    by (simp only: v shuffle_swap bytes_vec_bytes_append bytes_vec_bytes map_append)
qed

end
