(* ===== verification/Sha256Lanes.thy ===== *)
theory Sha256Lanes
  imports Intrinsics
begin

text \<open>
  The functions of \<open>src/crypto/sha256_avx2.cpp\<close> and \<open>src/crypto/sha256_sse41.cpp\<close>, which hash eight and
  four blocks at once, one in each lane of a vector. The two files are the same text up to the width
  of the vectors, so that the helpers have the number \<open>n\<close> of lanes as a parameter. The unrolled
  statements are lines of tables as in \<open>Sha2\<close>.

  The result is \<open>wide_rounds_lanes\<close>: every lane goes through the statements of \<open>TransformD64\<close>.
\<close>

section \<open>The code\<close>

definition vK :: "nat \<Rightarrow> 32 word \<Rightarrow> vec" where
  "vK n x = mm_set1_epi32 n x"

text \<open>The overloads of \<open>Add\<close> for two to five arguments.\<close>

fun vAdd :: "vec list \<Rightarrow> vec" where
  "vAdd [x, y] = mm_add_epi32 x y"
| "vAdd [x, y, z] = mm_add_epi32 (mm_add_epi32 x y) z"
| "vAdd [x, y, z, w] = mm_add_epi32 (mm_add_epi32 x y) (mm_add_epi32 z w)"
| "vAdd [x, y, z, w, v] = mm_add_epi32 (mm_add_epi32 (mm_add_epi32 x y) z) (mm_add_epi32 w v)"
| "vAdd xs = concat xs"

definition vXor :: "vec \<Rightarrow> vec \<Rightarrow> vec \<Rightarrow> vec" where
  "vXor x y z = mm_xor (mm_xor x y) z"

definition vCh :: "vec \<Rightarrow> vec \<Rightarrow> vec \<Rightarrow> vec" where
  "vCh x y z = mm_xor z (mm_and x (mm_xor y z))"

definition vMaj :: "vec \<Rightarrow> vec \<Rightarrow> vec \<Rightarrow> vec" where
  "vMaj x y z = mm_or (mm_and x y) (mm_and z (mm_or x y))"

definition vSigma0 :: "vec \<Rightarrow> vec" where
  "vSigma0 x = vXor (mm_or (mm_srli_epi32 x 2) (mm_slli_epi32 x 30)) (mm_or (mm_srli_epi32 x 13) (mm_slli_epi32 x 19))
     (mm_or (mm_srli_epi32 x 22) (mm_slli_epi32 x 10))"

definition vSigma1 :: "vec \<Rightarrow> vec" where
  "vSigma1 x = vXor (mm_or (mm_srli_epi32 x 6) (mm_slli_epi32 x 26)) (mm_or (mm_srli_epi32 x 11) (mm_slli_epi32 x 21))
     (mm_or (mm_srli_epi32 x 25) (mm_slli_epi32 x 7))"

definition vsigma0 :: "vec \<Rightarrow> vec" where
  "vsigma0 x = vXor (mm_or (mm_srli_epi32 x 7) (mm_slli_epi32 x 25)) (mm_or (mm_srli_epi32 x 18) (mm_slli_epi32 x 14))
     (mm_srli_epi32 x 3)"

definition vsigma1 :: "vec \<Rightarrow> vec" where
  "vsigma1 x = vXor (mm_or (mm_srli_epi32 x 17) (mm_slli_epi32 x 15)) (mm_or (mm_srli_epi32 x 19) (mm_slli_epi32 x 13))
     (mm_srli_epi32 x 10)"

definition vRound :: "nat list \<Rightarrow> vec \<Rightarrow> vec list \<Rightarrow> vec list" where
  "vRound rs k v =
     (let a = v ! (rs ! 0); b = v ! (rs ! 1); c = v ! (rs ! 2); d = v ! (rs ! 3);
          e = v ! (rs ! 4); f = v ! (rs ! 5); g = v ! (rs ! 6); h = v ! (rs ! 7);
          t1 = vAdd [h, vSigma1 e, vCh e f g, k];
          t2 = vAdd [vSigma0 a, vMaj a b c]
      in v[rs ! 3 := vAdd [d, t1], rs ! 7 := vAdd [t1, t2]])"

text \<open>
  The last argument of \<open>Round\<close> is \<open>Add(K(k), ...)\<close>, or \<open>K(k)\<close> alone; \<open>vstep\<close> gives the summands behind
  \<open>K(k)\<close>, and assigns the variable \<open>w_i\<close>. \<open>rd\<close> is \<open>Read8\<close> or \<open>Read4\<close> of the input.
\<close>

fun vsummand :: "nat \<Rightarrow> vec list \<Rightarrow> 32 word summand \<Rightarrow> vec" where
  "vsummand n w (S0 i) = vsigma0 (w ! i)"
| "vsummand n w (S1 i) = vsigma1 (w ! i)"
| "vsummand n w (W i) = w ! i"
| "vsummand n w (Const c) = vK n c"

fun vstep :: "nat \<Rightarrow> (nat \<Rightarrow> vec) \<Rightarrow> 32 word w_op \<Rightarrow> vec list \<Rightarrow> vec list \<times> vec list" where
  "vstep n rd (Load i pos) w = (let x = rd pos in ([x], w[i := x]))"
| "vstep n rd (Add i ts) w = (let x = vAdd (w ! i # map (vsummand n w) ts) in ([x], w[i := x]))"
| "vstep n rd (Assign i ts) w = (let x = vAdd (map (vsummand n w) ts) in ([x], w[i := x]))"
| "vstep n rd (Use ts) w = (map (vsummand n w) ts, w)"

definition vline :: "nat \<Rightarrow> (nat \<Rightarrow> vec) \<Rightarrow> vec list \<times> vec list \<Rightarrow> 32 word line \<Rightarrow> vec list \<times> vec list" where
  "vline n rd = (\<lambda>(v, w) (rs, k, op). case vstep n rd op w of (xs, w) \<Rightarrow> (vRound rs (vAdd (vK n k # xs)) v, w))"

definition vlines :: "nat \<Rightarrow> (nat \<Rightarrow> vec) \<Rightarrow> 32 word line list \<Rightarrow> vec list \<times> vec list \<Rightarrow> vec list \<times> vec list" where
  "vlines n rd lines vw = foldl (vline n rd) vw lines"

text \<open>
  The three transforms with the statements between them, up to the final addition. The variables
  \<open>w0\<close> to \<open>w15\<close> are assigned before they are read, so that their initial values do not matter.
\<close>

definition wide_rounds :: "nat \<Rightarrow> (nat \<Rightarrow> vec) \<Rightarrow> 32 word line list \<Rightarrow> 32 word line list \<Rightarrow> 32 word line list \<Rightarrow>
    vec list" where
  "wide_rounds n rd lines1 lines2 lines3 =
     (let init = map (vK n) sha256_Initialize;
          (v, w) = vlines n rd lines1 (init, replicate 16 (vK n 0));
          t = map2 (\<lambda>x k. vAdd [x, k]) v init;
          (v, w) = vlines n rd lines2 (t, w);
          w = map2 (\<lambda>t x. vAdd [t, x]) t v @ drop 8 w;
          (v, w) = vlines n rd lines3 (init, w)
      in map2 (\<lambda>x k. vAdd [x, k]) v init)"

section \<open>Lanes\<close>

definition lane :: "nat \<Rightarrow> vec list \<Rightarrow> 32 word list" where
  "lane i vs = map (\<lambda>x. x ! i) vs"

definition of_width :: "nat \<Rightarrow> vec list \<Rightarrow> bool" where
  "of_width n vs \<longleftrightarrow> list_all (\<lambda>x. length x = n) vs"

lemma nth_lane [simp]: "j < length vs \<Longrightarrow> lane i vs ! j = vs ! j ! i"
  by (simp add: lane_def)

lemma length_lane [simp]: "length (lane i vs) = length vs"
  by (simp add: lane_def)

lemma lane_update [simp]: "lane i (vs[j := x]) = (lane i vs)[j := x ! i]"
  by (simp add: lane_def map_update)

lemma of_widthD: "of_width n vs \<Longrightarrow> j < length vs \<Longrightarrow> length (vs ! j) = n"
  by (simp add: of_width_def list_all_length)

lemma of_width_update: "of_width n vs \<Longrightarrow> length x = n \<Longrightarrow> of_width n (vs[j := x])"
  unfolding of_width_def list_all_iff by (metis insertE set_update_subset_insert subsetD)

lemma length_ops [simp]:
  "length (vK n c) = n" "length (mm_add_epi32 x y) = min (length x) (length y)"
  "length (mm_and x y) = min (length x) (length y)" "length (mm_or x y) = min (length x) (length y)"
  "length (mm_xor x y) = min (length x) (length y)"
  "length (mm_srli_epi32 x k) = length x" "length (mm_slli_epi32 x k) = length x"
  by (simp_all add: vK_def mm_set1_epi32_def mm_add_epi32_def mm_and_def mm_or_def mm_xor_def mm_srli_epi32_def
    mm_slli_epi32_def)

lemma nth_ops [simp]:
  "i < n \<Longrightarrow> vK n c ! i = c"
  "i < length x \<Longrightarrow> i < length y \<Longrightarrow> mm_add_epi32 x y ! i = x ! i + y ! i"
  "i < length x \<Longrightarrow> i < length y \<Longrightarrow> mm_and x y ! i = x ! i AND y ! i"
  "i < length x \<Longrightarrow> i < length y \<Longrightarrow> mm_or x y ! i = x ! i OR y ! i"
  "i < length x \<Longrightarrow> i < length y \<Longrightarrow> mm_xor x y ! i = x ! i XOR y ! i"
  "i < length x \<Longrightarrow> mm_srli_epi32 x k ! i = drop_bit k (x ! i)"
  "i < length x \<Longrightarrow> mm_slli_epi32 x k ! i = push_bit k (x ! i)"
  by (simp_all add: vK_def mm_set1_epi32_def mm_add_epi32_def mm_and_def mm_or_def mm_xor_def mm_srli_epi32_def
    mm_slli_epi32_def)

lemma length_fns [simp]:
  "length (vSigma0 x) = length x" "length (vSigma1 x) = length x" "length (vsigma0 x) = length x"
  "length (vsigma1 x) = length x"
  by (simp_all add: vSigma0_def vSigma1_def vsigma0_def vsigma1_def vXor_def)

lemma nth_fns [simp]:
  assumes "i < length x"
  shows "vSigma0 x ! i = Sigma0 sha256_fns (x ! i)" "vSigma1 x ! i = Sigma1 sha256_fns (x ! i)"
    "vsigma0 x ! i = sigma0 sha256_fns (x ! i)" "vsigma1 x ! i = sigma1 sha256_fns (x ! i)"
  using assms by (simp_all add: vSigma0_def vSigma1_def vsigma0_def vsigma1_def vXor_def sha256_fns_def xor.assoc)

lemma vCh_vMaj [simp]:
  assumes "length x = n" "length y = n" "length z = n"
  shows "length (vCh x y z) = n" "length (vMaj x y z) = n"
    "i < n \<Longrightarrow> vCh x y z ! i = Ch (x ! i) (y ! i) (z ! i)" "i < n \<Longrightarrow> vMaj x y z ! i = Maj (x ! i) (y ! i) (z ! i)"
  using assms by (simp_all add: vCh_def vMaj_def Ch_def Maj_def)

text \<open>The overloads add one to five vectors.\<close>

lemma vAdd_lane:
  assumes "of_width n xs" and "xs \<noteq> []" and "length xs \<le> 5"
  shows "length (vAdd xs) = n \<and> (i < n \<longrightarrow> vAdd xs ! i = sum_list (lane i xs))"
proof -
  consider x where "xs = [x]" | x y where "xs = [x, y]" | x y z where "xs = [x, y, z]"
    | x y z w where "xs = [x, y, z, w]" | x y z w v where "xs = [x, y, z, w, v]"
    using assms(2,3) by (cases xs rule: vAdd.cases) auto
  then show ?thesis using assms(1) by cases (auto simp: of_width_def lane_def add_ac)
qed

section \<open>A line in every lane\<close>

fun summand_ok :: "'w summand \<Rightarrow> bool" where
  "summand_ok (S0 i) = (i < 16)"
| "summand_ok (S1 i) = (i < 16)"
| "summand_ok (W i) = (i < 16)"
| "summand_ok (Const c) = True"

fun op_ok :: "'w w_op \<Rightarrow> bool" where
  "op_ok (Load i pos) = (i < 16 \<and> pos + 4 \<le> 64)"
| "op_ok (Add i ts) = (i < 16 \<and> length ts \<le> 3 \<and> list_all summand_ok ts)"
| "op_ok (Assign i ts) = (i < 16 \<and> ts \<noteq> [] \<and> length ts \<le> 5 \<and> list_all summand_ok ts)"
| "op_ok (Use ts) = (length ts \<le> 4 \<and> list_all summand_ok ts)"

definition line_ok :: "'w line \<Rightarrow> bool" where
  "line_ok = (\<lambda>(rs, k, op). length rs = 8 \<and> list_all (\<lambda>r. r < 8) rs \<and> op_ok op)"

definition reads :: "nat \<Rightarrow> (nat \<Rightarrow> vec) \<Rightarrow> (nat \<Rightarrow> bytes) \<Rightarrow> bool" where
  "reads n rd chunk \<longleftrightarrow> (\<forall>pos \<le> 60. length (rd pos) = n \<and> (\<forall>i < n. rd pos ! i = word_at (chunk i) pos))"

lemma vsummand_lane:
  assumes "of_width n w" and "length w = 16" and "summand_ok t"
  shows "length (vsummand n w t) = n \<and> (i < n \<longrightarrow> vsummand n w t ! i = summand_val sha256_fns (lane i w) t)"
  using assms by (cases t) (simp_all add: of_widthD)

lemma vsummands_lane:
  assumes "of_width n w" and "length w = 16" and "list_all summand_ok ts" and "i < n"
  shows "of_width n (map (vsummand n w) ts)"
    and "lane i (map (vsummand n w) ts) = map (summand_val sha256_fns (lane i w)) ts"
  using assms vsummand_lane [OF assms(1,2), of _ i] by (auto simp: of_width_def lane_def list_all_iff)

lemma vstep_lane:
  assumes "of_width n w" and "length w = 16" and "op_ok op" and "reads n rd chunk" and "i < n"
    and "vstep n rd op w = (xs, w')"
  shows "of_width n xs \<and> length xs \<le> 4 \<and> of_width n w' \<and> length w' = 16 \<and>
    w_step sha256_fns (chunk i) op (lane i w) = (sum_list (lane i xs), lane i w')"
proof (cases op)
  case (Load j pos)
  then have "length (rd pos) = n" "rd pos ! i = word_at (chunk i) pos" using assms(3-5) by (simp_all add: reads_def)
  moreover have "xs = [rd pos]" "w' = w[j := rd pos]" using assms(6) by (simp_all add: Load Let_def)
  ultimately show ?thesis using assms(1,2)
    by (simp add: Load of_width_update of_width_def [of n "[rd pos]"] lane_def [of i "[rd pos]"] Let_def)
next
  case (Add j ts)
  note ts = vsummands_lane [OF assms(1,2) _ assms(5), of ts]
  let ?xs = "w ! j # map (vsummand n w) ts"
  have "length (w ! j) = n" using Add assms(1-3) by (simp add: of_widthD)
  then have w: "of_width n ?xs" using Add assms(3) ts(1) by (simp add: of_width_def)
  have "length (vAdd ?xs) = n" "vAdd ?xs ! i = sum_list (lane i ?xs)"
    using vAdd_lane [OF w, of i] Add assms(3,5) by simp_all
  moreover have "lane i ?xs = lane i w ! j # map (summand_val sha256_fns (lane i w)) ts"
    using Add assms(2,3) ts(2) by (simp add: lane_def)
  moreover have "xs = [vAdd ?xs]" "w' = w[j := vAdd ?xs]" using assms(6) by (simp_all add: Add Let_def)
  ultimately show ?thesis using assms(1,2) by (simp add: Add of_width_update of_width_def [of n "[vAdd ?xs]"] lane_def [of i "[vAdd ?xs]"] Let_def)
next
  case (Assign j ts)
  note ts = vsummands_lane [OF assms(1,2) _ assms(5), of ts]
  let ?xs = "map (vsummand n w) ts"
  have "length (vAdd ?xs) = n" "vAdd ?xs ! i = sum_list (lane i ?xs)"
    using vAdd_lane [of n ?xs i] ts(1) Assign assms(3,5) by simp_all
  moreover have "lane i ?xs = map (summand_val sha256_fns (lane i w)) ts" using ts(2) Assign assms(3) by simp
  moreover have "xs = [vAdd ?xs]" "w' = w[j := vAdd ?xs]" using assms(6) by (simp_all add: Assign Let_def)
  ultimately show ?thesis using assms(1,2) by (simp add: Assign of_width_update of_width_def [of n "[vAdd ?xs]"] lane_def [of i "[vAdd ?xs]"] Let_def)
next
  case (Use ts)
  then show ?thesis using assms vsummands_lane [OF assms(1,2) _ assms(5), of ts] by auto
qed

lemma vRound_lane:
  assumes "of_width n v" and "length v = 8" and "length rs = 8" and "list_all (\<lambda>r. r < 8) rs" and "length k = n" and "i < n"
  shows "of_width n (vRound rs k v)" and "lane i (vRound rs k v) = Round sha256_fns rs (k ! i) (lane i v)"
proof -
  have r: "rs ! j < 8" if "j < 8" for j using that assms(3,4) by (simp add: list_all_length)
  have l: "length (v ! (rs ! j)) = n" if "j < 8" for j using that r assms(1,2) by (simp add: of_widthD)
  show "of_width n (vRound rs k v)"
    unfolding vRound_def Let_def using assms(1,5) l by (intro of_width_update) simp_all
  show "lane i (vRound rs k v) = Round sha256_fns rs (k ! i) (lane i v)"
    unfolding vRound_def Round_def Let_def using assms l r by (simp add: add_ac)
qed

lemma length_vRound [simp]: "length (vRound rs k v) = length v"
  by (simp add: vRound_def Let_def)

lemma vline_lane:
  assumes "of_width n v" and "length v = 8" and "of_width n w" and "length w = 16" and "line_ok l"
    and "reads n rd chunk" and "i < n" and "vline n rd (v, w) l = (v', w')"
  shows "of_width n v' \<and> length v' = 8 \<and> of_width n w' \<and> length w' = 16 \<and>
    run_line sha256_fns (chunk i) (lane i v, lane i w) l = (lane i v', lane i w')"
proof -
  obtain rs k op where l: "l = (rs, k, op)" by (metis prod.exhaust)
  then have ok: "length rs = 8" "list_all (\<lambda>r. r < 8) rs" "op_ok op" using assms(5) by (simp_all add: line_ok_def)
  obtain xs w1 where st: "vstep n rd op w = (xs, w1)" by fastforce
  note s = vstep_lane [OF assms(3,4) ok(3) assms(6,7) st]
  have "of_width n (vK n k # xs)" using s by (simp add: of_width_def)
  then have k: "length (vAdd (vK n k # xs)) = n" "vAdd (vK n k # xs) ! i = k + sum_list (lane i xs)"
    using vAdd_lane [of n "vK n k # xs" i] s assms(7) by (simp_all add: lane_def)
  have "v' = vRound rs (vAdd (vK n k # xs)) v" "w' = w1" using assms(8) st by (simp_all add: vline_def l)
  then show ?thesis
    using vRound_lane [OF assms(1,2) ok(1,2) k(1) assms(7)] s assms(2) by (simp add: run_line_def l k(2))
qed

lemma vlines_lane:
  assumes "of_width n v" and "length v = 8" and "of_width n w" and "length w = 16" and "list_all line_ok ls"
    and "reads n rd chunk" and "i < n" and "vlines n rd ls (v, w) = (v', w')"
  shows "of_width n v' \<and> length v' = 8 \<and> of_width n w' \<and> length w' = 16 \<and>
    run_lines sha256_fns (chunk i) ls (lane i v, lane i w) = (lane i v', lane i w')"
  using assms
proof (induction ls arbitrary: v w)
  case Nil
  then show ?case by (simp add: vlines_def run_lines_def)
next
  case (Cons l ls)
  obtain v1 w1 where st: "vline n rd (v, w) l = (v1, w1)" by fastforce
  have "line_ok l" "list_all line_ok ls" using Cons.prems(5) by simp_all
  note s = vline_lane [OF Cons.prems(1-4) this(1) Cons.prems(6,7) st]
  have "vlines n rd ls (v1, w1) = (v', w')" using Cons.prems(8) st by (simp add: vlines_def)
  then show ?case using Cons.IH [of v1 w1] s Cons.prems(6,7) \<open>list_all line_ok ls\<close> by (simp add: run_lines_def)
qed

text \<open>Pairwise sums of two lists of vectors.\<close>

lemma vAdds_lane:
  assumes "of_width n vs" and "of_width n ws" and "i < n"
  shows "of_width n (map2 (\<lambda>x y. vAdd [x, y]) vs ws)"
    and "lane i (map2 (\<lambda>x y. vAdd [x, y]) vs ws) = map2 (+) (lane i vs) (lane i ws)"
  using assms
proof (induction vs arbitrary: ws)
  case (Cons v vs)
  case 1
  then show ?case using Cons(1) by (cases ws) (simp_all add: of_width_def)
next
  case (Cons v vs)
  case 2
  then show ?case using Cons(2) by (cases ws) (simp_all add: of_width_def lane_def)
qed (simp_all add: of_width_def lane_def)

section \<open>The transform in every lane\<close>

text \<open>
  The statements of the first transform: those of \<open>Transform\<close>, but the last two store the sums they
  use.
\<close>

definition wide_lines1 :: "32 word line list" where
  "wide_lines1 = take 62 sha256_lines @
     [([2, 3, 4, 5, 6, 7, 0, 1], 0xbef9a3f7, Add 14 [S1 12, W 7, S0 15]),
      ([1, 2, 3, 4, 5, 6, 7, 0], 0xc67178f2, Add 15 [S1 13, W 8, S0 0])]"

lemma tables_ok: "list_all line_ok wide_lines1" "list_all line_ok d64_lines2" "list_all line_ok d64_lines3"
  by (simp_all add: wide_lines1_def sha256_lines_def d64_lines2_def d64_lines3_def line_ok_def)

lemma wide_lines1_run:
  assumes "length w = 16"
  shows "fst (run_lines sha256_fns chunk wide_lines1 (v, w)) = fst (run_lines sha256_fns chunk sha256_lines (v, w))"
proof -
  have "sha256_lines = take 62 sha256_lines @
     [([2, 3, 4, 5, 6, 7, 0, 1], 0xbef9a3f7, Use [W 14, S1 12, W 7, S0 15]),
      ([1, 2, 3, 4, 5, 6, 7, 0], 0xc67178f2, Use [W 15, S1 13, W 8, S0 0])]" (is "_ = _ @ ?last")
    by (simp add: sha256_lines_def)
  then have s: "run_lines sha256_fns chunk sha256_lines (v, w) =
      run_lines sha256_fns chunk ?last (run_lines sha256_fns chunk (take 62 sha256_lines) (v, w))"
    unfolding run_lines_def by (metis foldl_append)
  obtain v' w' where r: "run_lines sha256_fns chunk (take 62 sha256_lines) (v, w) = (v', w')" by fastforce
  then have "length w' = 16"
    using assms length_run_lines_w [of sha256_fns chunk "take 62 sha256_lines" v w] by simp
  then show ?thesis unfolding s r
    using r by (simp add: wide_lines1_def run_lines_def run_line_def Let_def)
qed

text \<open>The second transform does not use the \<open>w_i\<close>, and the third sets those it uses.\<close>

lemma lines2_any:
  "fst (run_lines sha256_fns chunk d64_lines2 (v, w)) = fst (run_lines sha256_fns chunk' d64_lines2 (v, w'))"
  by (simp add: run_round_inputs no_loads2)

lemma lines3_any:
  assumes "length d = 8" and "length w = 16" and "length w' = 16"
  shows "fst (run_lines sha256_fns chunk d64_lines3 (v, d @ drop 8 w)) =
    fst (run_lines sha256_fns chunk' d64_lines3 (v, d @ drop 8 w'))"
  using third_part [OF refl assms(1,2), of chunk] third_part [OF refl assms(1,3), of chunk'] by (simp add: run_round_inputs)

lemma TransformD64_wide:
  assumes "run_lines sha256_fns inp wide_lines1 (sha256_Initialize, replicate 16 0) = (v1, w1)"
    and "run_lines sha256_fns inp d64_lines2 (map2 (+) v1 sha256_Initialize, w1) = (v2, w2)"
    and "run_lines sha256_fns inp d64_lines3 (sha256_Initialize, map2 (+) (map2 (+) v1 sha256_Initialize) v2 @ drop 8 w2) = (v3, w3)"
  shows "TransformD64 inp = sha256_output (map2 (+) v3 sha256_Initialize)"
proof -
  obtain w1' where r1: "run_lines sha256_fns inp sha256_lines (sha256_Initialize, replicate 16 0) = (v1, w1')"
    using wide_lines1_run [of "replicate 16 0" inp sha256_Initialize] assms(1)
    by (cases "run_lines sha256_fns inp sha256_lines (sha256_Initialize, replicate 16 0)") simp
  define t where "t = map2 (+) v1 sha256_Initialize"
  obtain w2' where r2: "run_lines sha256_fns inp d64_lines2 (t, w1') = (v2, w2')"
    using lines2_any [of inp t w1 inp w1'] assms(2) unfolding t_def
    by (cases "run_lines sha256_fns inp d64_lines2 (map2 (+) v1 sha256_Initialize, w1')") simp
  have len: "length v1 = 8" "length w1' = 16" "length w1 = 16"
    using length_run_lines [of sha256_fns inp sha256_lines sha256_Initialize "replicate 16 0"]
      length_run_lines_w [of sha256_fns inp sha256_lines sha256_Initialize "replicate 16 0"]
      length_run_lines_w [of sha256_fns inp wide_lines1 sha256_Initialize "replicate 16 0"] r1 assms(1)
    by (simp_all add: sha256_Initialize_def)
  then have t: "length t = 8" by (simp add: t_def sha256_Initialize_def)
  then have len2: "length v2 = 8" "length w2' = 16" "length w2 = 16"
    using length_run_lines [of sha256_fns inp d64_lines2 t w1'] length_run_lines_w [of sha256_fns inp d64_lines2 t w1']
      length_run_lines_w [of sha256_fns inp d64_lines2 t w1] r2 assms(2) len by (simp_all add: t_def)
  have "fst (run_lines sha256_fns inp d64_lines3 (sha256_Initialize, map2 (+) t v2 @ drop 8 w2')) = v3"
    using lines3_any [of "map2 (+) t v2" w2' w2 inp sha256_Initialize inp] assms(3) t len2 by (simp add: t_def)
  then show ?thesis
    by (cases "run_lines sha256_fns inp d64_lines3 (sha256_Initialize, map2 (+) t v2 @ drop 8 w2')")
      (simp add: TransformD64_def r1 r2 Let_def flip: t_def)
qed

lemma wide_rounds_lanes:
  assumes "reads n rd chunk" and "i < n"
  shows "of_width n (wide_rounds n rd wide_lines1 d64_lines2 d64_lines3) \<and>
    length (wide_rounds n rd wide_lines1 d64_lines2 d64_lines3) = 8 \<and>
    sha256_output (lane i (wide_rounds n rd wide_lines1 d64_lines2 d64_lines3)) = TransformD64 (chunk i)"
proof -
  let ?init = "map (vK n) sha256_Initialize"
  have init: "of_width n ?init" "length ?init = 8" "lane i ?init = sha256_Initialize"
    using assms(2) by (simp_all add: of_width_def sha256_Initialize_def lane_def)
  have zero: "of_width n (replicate 16 (vK n 0))" "length (replicate 16 (vK n 0)) = 16"
    "lane i (replicate 16 (vK n 0)) = replicate 16 0"
    using assms(2) by (simp_all add: of_width_def lane_def list_all_iff)
  obtain v1 w1 where r1: "vlines n rd wide_lines1 (?init, replicate 16 (vK n 0)) = (v1, w1)" by fastforce
  note l1 = vlines_lane [OF init(1,2) zero(1,2) tables_ok(1) assms r1]
  define t where "t = map2 (\<lambda>x k. vAdd [x, k]) v1 ?init"
  have t: "of_width n t" "length t = 8" "lane i t = map2 (+) (lane i v1) sha256_Initialize"
    using vAdds_lane [of n v1 ?init i] l1 init assms(2) by (simp_all add: t_def)
  obtain v2 w2 where r2: "vlines n rd d64_lines2 (t, w1) = (v2, w2)" by fastforce
  have l2: "of_width n v2" "length v2 = 8" "of_width n w2" "length w2 = 16"
    "run_lines sha256_fns (chunk i) d64_lines2 (lane i t, lane i w1) = (lane i v2, lane i w2)"
    using vlines_lane [OF t(1,2) _ _ tables_ok(2) assms r2] l1 by simp_all
  define w where "w = map2 (\<lambda>t x. vAdd [t, x]) t v2 @ drop 8 w2"
  have "list_all (\<lambda>x. length x = n) (drop 8 w2)"
    using l2(3) unfolding of_width_def list_all_iff by (auto dest: in_set_dropD)
  then have w: "of_width n w" "length w = 16" "lane i w = map2 (+) (lane i t) (lane i v2) @ drop 8 (lane i w2)"
    using vAdds_lane [of n t v2 i] t l2 assms(2) by (simp_all add: w_def of_width_def lane_def drop_map)
  obtain v3 w3 where r3: "vlines n rd d64_lines3 (?init, w) = (v3, w3)" by fastforce
  note l3 = vlines_lane [OF init(1,2) w(1,2) tables_ok(3) assms r3]
  have res: "wide_rounds n rd wide_lines1 d64_lines2 d64_lines3 = map2 (\<lambda>x k. vAdd [x, k]) v3 ?init"
    unfolding wide_rounds_def Let_def r1 prod.case t_def [symmetric] r2 w_def [symmetric] r3 ..
  have "TransformD64 (chunk i) = sha256_output (map2 (+) (lane i v3) sha256_Initialize)"
    using l1 l2(5) l3 t(3) w(3) TransformD64_wide [of "chunk i"] by (simp add: init(3) zero(3))
  then show ?thesis
    unfolding res using vAdds_lane [of n v3 ?init i] l3 init assms(2) by simp
qed

end
