(* ===== verification/Sha256Wide.thy ===== *)
theory Sha256Wide
  imports Sha256Lanes
begin

text \<open>
  \<open>src/crypto/sha256_avx2.cpp\<close> and \<open>src/crypto/sha256_sse41.cpp\<close>: the statements of \<open>Transform_8way\<close> and
  \<open>Transform_4way\<close>, with the loads that gather a word of every block and the stores that scatter the
  digests.

  The result is that both write the double hash of every block (\<open>Transform_8way_blocks\<close>,
  \<open>Transform_4way_blocks\<close>), whatever the output buffer held before.
\<close>

section \<open>\<open>sha256_avx2.cpp\<close>\<close>

definition avx2_lines1 :: "32 word line list" where
  "avx2_lines1 =
  [([0, 1, 2, 3, 4, 5, 6, 7], 0x428a2f98, Load 0 0),
   ([7, 0, 1, 2, 3, 4, 5, 6], 0x71374491, Load 1 4),
   ([6, 7, 0, 1, 2, 3, 4, 5], 0xb5c0fbcf, Load 2 8),
   ([5, 6, 7, 0, 1, 2, 3, 4], 0xe9b5dba5, Load 3 12),
   ([4, 5, 6, 7, 0, 1, 2, 3], 0x3956c25b, Load 4 16),
   ([3, 4, 5, 6, 7, 0, 1, 2], 0x59f111f1, Load 5 20),
   ([2, 3, 4, 5, 6, 7, 0, 1], 0x923f82a4, Load 6 24),
   ([1, 2, 3, 4, 5, 6, 7, 0], 0xab1c5ed5, Load 7 28),
   ([0, 1, 2, 3, 4, 5, 6, 7], 0xd807aa98, Load 8 32),
   ([7, 0, 1, 2, 3, 4, 5, 6], 0x12835b01, Load 9 36),
   ([6, 7, 0, 1, 2, 3, 4, 5], 0x243185be, Load 10 40),
   ([5, 6, 7, 0, 1, 2, 3, 4], 0x550c7dc3, Load 11 44),
   ([4, 5, 6, 7, 0, 1, 2, 3], 0x72be5d74, Load 12 48),
   ([3, 4, 5, 6, 7, 0, 1, 2], 0x80deb1fe, Load 13 52),
   ([2, 3, 4, 5, 6, 7, 0, 1], 0x9bdc06a7, Load 14 56),
   ([1, 2, 3, 4, 5, 6, 7, 0], 0xc19bf174, Load 15 60),
   ([0, 1, 2, 3, 4, 5, 6, 7], 0xe49b69c1, Add 0 [S1 14, W 9, S0 1]),
   ([7, 0, 1, 2, 3, 4, 5, 6], 0xefbe4786, Add 1 [S1 15, W 10, S0 2]),
   ([6, 7, 0, 1, 2, 3, 4, 5], 0x0fc19dc6, Add 2 [S1 0, W 11, S0 3]),
   ([5, 6, 7, 0, 1, 2, 3, 4], 0x240ca1cc, Add 3 [S1 1, W 12, S0 4]),
   ([4, 5, 6, 7, 0, 1, 2, 3], 0x2de92c6f, Add 4 [S1 2, W 13, S0 5]),
   ([3, 4, 5, 6, 7, 0, 1, 2], 0x4a7484aa, Add 5 [S1 3, W 14, S0 6]),
   ([2, 3, 4, 5, 6, 7, 0, 1], 0x5cb0a9dc, Add 6 [S1 4, W 15, S0 7]),
   ([1, 2, 3, 4, 5, 6, 7, 0], 0x76f988da, Add 7 [S1 5, W 0, S0 8]),
   ([0, 1, 2, 3, 4, 5, 6, 7], 0x983e5152, Add 8 [S1 6, W 1, S0 9]),
   ([7, 0, 1, 2, 3, 4, 5, 6], 0xa831c66d, Add 9 [S1 7, W 2, S0 10]),
   ([6, 7, 0, 1, 2, 3, 4, 5], 0xb00327c8, Add 10 [S1 8, W 3, S0 11]),
   ([5, 6, 7, 0, 1, 2, 3, 4], 0xbf597fc7, Add 11 [S1 9, W 4, S0 12]),
   ([4, 5, 6, 7, 0, 1, 2, 3], 0xc6e00bf3, Add 12 [S1 10, W 5, S0 13]),
   ([3, 4, 5, 6, 7, 0, 1, 2], 0xd5a79147, Add 13 [S1 11, W 6, S0 14]),
   ([2, 3, 4, 5, 6, 7, 0, 1], 0x06ca6351, Add 14 [S1 12, W 7, S0 15]),
   ([1, 2, 3, 4, 5, 6, 7, 0], 0x14292967, Add 15 [S1 13, W 8, S0 0]),
   ([0, 1, 2, 3, 4, 5, 6, 7], 0x27b70a85, Add 0 [S1 14, W 9, S0 1]),
   ([7, 0, 1, 2, 3, 4, 5, 6], 0x2e1b2138, Add 1 [S1 15, W 10, S0 2]),
   ([6, 7, 0, 1, 2, 3, 4, 5], 0x4d2c6dfc, Add 2 [S1 0, W 11, S0 3]),
   ([5, 6, 7, 0, 1, 2, 3, 4], 0x53380d13, Add 3 [S1 1, W 12, S0 4]),
   ([4, 5, 6, 7, 0, 1, 2, 3], 0x650a7354, Add 4 [S1 2, W 13, S0 5]),
   ([3, 4, 5, 6, 7, 0, 1, 2], 0x766a0abb, Add 5 [S1 3, W 14, S0 6]),
   ([2, 3, 4, 5, 6, 7, 0, 1], 0x81c2c92e, Add 6 [S1 4, W 15, S0 7]),
   ([1, 2, 3, 4, 5, 6, 7, 0], 0x92722c85, Add 7 [S1 5, W 0, S0 8]),
   ([0, 1, 2, 3, 4, 5, 6, 7], 0xa2bfe8a1, Add 8 [S1 6, W 1, S0 9]),
   ([7, 0, 1, 2, 3, 4, 5, 6], 0xa81a664b, Add 9 [S1 7, W 2, S0 10]),
   ([6, 7, 0, 1, 2, 3, 4, 5], 0xc24b8b70, Add 10 [S1 8, W 3, S0 11]),
   ([5, 6, 7, 0, 1, 2, 3, 4], 0xc76c51a3, Add 11 [S1 9, W 4, S0 12]),
   ([4, 5, 6, 7, 0, 1, 2, 3], 0xd192e819, Add 12 [S1 10, W 5, S0 13]),
   ([3, 4, 5, 6, 7, 0, 1, 2], 0xd6990624, Add 13 [S1 11, W 6, S0 14]),
   ([2, 3, 4, 5, 6, 7, 0, 1], 0xf40e3585, Add 14 [S1 12, W 7, S0 15]),
   ([1, 2, 3, 4, 5, 6, 7, 0], 0x106aa070, Add 15 [S1 13, W 8, S0 0]),
   ([0, 1, 2, 3, 4, 5, 6, 7], 0x19a4c116, Add 0 [S1 14, W 9, S0 1]),
   ([7, 0, 1, 2, 3, 4, 5, 6], 0x1e376c08, Add 1 [S1 15, W 10, S0 2]),
   ([6, 7, 0, 1, 2, 3, 4, 5], 0x2748774c, Add 2 [S1 0, W 11, S0 3]),
   ([5, 6, 7, 0, 1, 2, 3, 4], 0x34b0bcb5, Add 3 [S1 1, W 12, S0 4]),
   ([4, 5, 6, 7, 0, 1, 2, 3], 0x391c0cb3, Add 4 [S1 2, W 13, S0 5]),
   ([3, 4, 5, 6, 7, 0, 1, 2], 0x4ed8aa4a, Add 5 [S1 3, W 14, S0 6]),
   ([2, 3, 4, 5, 6, 7, 0, 1], 0x5b9cca4f, Add 6 [S1 4, W 15, S0 7]),
   ([1, 2, 3, 4, 5, 6, 7, 0], 0x682e6ff3, Add 7 [S1 5, W 0, S0 8]),
   ([0, 1, 2, 3, 4, 5, 6, 7], 0x748f82ee, Add 8 [S1 6, W 1, S0 9]),
   ([7, 0, 1, 2, 3, 4, 5, 6], 0x78a5636f, Add 9 [S1 7, W 2, S0 10]),
   ([6, 7, 0, 1, 2, 3, 4, 5], 0x84c87814, Add 10 [S1 8, W 3, S0 11]),
   ([5, 6, 7, 0, 1, 2, 3, 4], 0x8cc70208, Add 11 [S1 9, W 4, S0 12]),
   ([4, 5, 6, 7, 0, 1, 2, 3], 0x90befffa, Add 12 [S1 10, W 5, S0 13]),
   ([3, 4, 5, 6, 7, 0, 1, 2], 0xa4506ceb, Add 13 [S1 11, W 6, S0 14]),
   ([2, 3, 4, 5, 6, 7, 0, 1], 0xbef9a3f7, Add 14 [S1 12, W 7, S0 15]),
   ([1, 2, 3, 4, 5, 6, 7, 0], 0xc67178f2, Add 15 [S1 13, W 8, S0 0])]"

definition avx2_lines2 :: "32 word line list" where
  "avx2_lines2 =
  [([0, 1, 2, 3, 4, 5, 6, 7], 0xc28a2f98, Use []),
   ([7, 0, 1, 2, 3, 4, 5, 6], 0x71374491, Use []),
   ([6, 7, 0, 1, 2, 3, 4, 5], 0xb5c0fbcf, Use []),
   ([5, 6, 7, 0, 1, 2, 3, 4], 0xe9b5dba5, Use []),
   ([4, 5, 6, 7, 0, 1, 2, 3], 0x3956c25b, Use []),
   ([3, 4, 5, 6, 7, 0, 1, 2], 0x59f111f1, Use []),
   ([2, 3, 4, 5, 6, 7, 0, 1], 0x923f82a4, Use []),
   ([1, 2, 3, 4, 5, 6, 7, 0], 0xab1c5ed5, Use []),
   ([0, 1, 2, 3, 4, 5, 6, 7], 0xd807aa98, Use []),
   ([7, 0, 1, 2, 3, 4, 5, 6], 0x12835b01, Use []),
   ([6, 7, 0, 1, 2, 3, 4, 5], 0x243185be, Use []),
   ([5, 6, 7, 0, 1, 2, 3, 4], 0x550c7dc3, Use []),
   ([4, 5, 6, 7, 0, 1, 2, 3], 0x72be5d74, Use []),
   ([3, 4, 5, 6, 7, 0, 1, 2], 0x80deb1fe, Use []),
   ([2, 3, 4, 5, 6, 7, 0, 1], 0x9bdc06a7, Use []),
   ([1, 2, 3, 4, 5, 6, 7, 0], 0xc19bf374, Use []),
   ([0, 1, 2, 3, 4, 5, 6, 7], 0x649b69c1, Use []),
   ([7, 0, 1, 2, 3, 4, 5, 6], 0xf0fe4786, Use []),
   ([6, 7, 0, 1, 2, 3, 4, 5], 0x0fe1edc6, Use []),
   ([5, 6, 7, 0, 1, 2, 3, 4], 0x240cf254, Use []),
   ([4, 5, 6, 7, 0, 1, 2, 3], 0x4fe9346f, Use []),
   ([3, 4, 5, 6, 7, 0, 1, 2], 0x6cc984be, Use []),
   ([2, 3, 4, 5, 6, 7, 0, 1], 0x61b9411e, Use []),
   ([1, 2, 3, 4, 5, 6, 7, 0], 0x16f988fa, Use []),
   ([0, 1, 2, 3, 4, 5, 6, 7], 0xf2c65152, Use []),
   ([7, 0, 1, 2, 3, 4, 5, 6], 0xa88e5a6d, Use []),
   ([6, 7, 0, 1, 2, 3, 4, 5], 0xb019fc65, Use []),
   ([5, 6, 7, 0, 1, 2, 3, 4], 0xb9d99ec7, Use []),
   ([4, 5, 6, 7, 0, 1, 2, 3], 0x9a1231c3, Use []),
   ([3, 4, 5, 6, 7, 0, 1, 2], 0xe70eeaa0, Use []),
   ([2, 3, 4, 5, 6, 7, 0, 1], 0xfdb1232b, Use []),
   ([1, 2, 3, 4, 5, 6, 7, 0], 0xc7353eb0, Use []),
   ([0, 1, 2, 3, 4, 5, 6, 7], 0x3069bad5, Use []),
   ([7, 0, 1, 2, 3, 4, 5, 6], 0xcb976d5f, Use []),
   ([6, 7, 0, 1, 2, 3, 4, 5], 0x5a0f118f, Use []),
   ([5, 6, 7, 0, 1, 2, 3, 4], 0xdc1eeefd, Use []),
   ([4, 5, 6, 7, 0, 1, 2, 3], 0x0a35b689, Use []),
   ([3, 4, 5, 6, 7, 0, 1, 2], 0xde0b7a04, Use []),
   ([2, 3, 4, 5, 6, 7, 0, 1], 0x58f4ca9d, Use []),
   ([1, 2, 3, 4, 5, 6, 7, 0], 0xe15d5b16, Use []),
   ([0, 1, 2, 3, 4, 5, 6, 7], 0x007f3e86, Use []),
   ([7, 0, 1, 2, 3, 4, 5, 6], 0x37088980, Use []),
   ([6, 7, 0, 1, 2, 3, 4, 5], 0xa507ea32, Use []),
   ([5, 6, 7, 0, 1, 2, 3, 4], 0x6fab9537, Use []),
   ([4, 5, 6, 7, 0, 1, 2, 3], 0x17406110, Use []),
   ([3, 4, 5, 6, 7, 0, 1, 2], 0x0d8cd6f1, Use []),
   ([2, 3, 4, 5, 6, 7, 0, 1], 0xcdaa3b6d, Use []),
   ([1, 2, 3, 4, 5, 6, 7, 0], 0xc0bbbe37, Use []),
   ([0, 1, 2, 3, 4, 5, 6, 7], 0x83613bda, Use []),
   ([7, 0, 1, 2, 3, 4, 5, 6], 0xdb48a363, Use []),
   ([6, 7, 0, 1, 2, 3, 4, 5], 0x0b02e931, Use []),
   ([5, 6, 7, 0, 1, 2, 3, 4], 0x6fd15ca7, Use []),
   ([4, 5, 6, 7, 0, 1, 2, 3], 0x521afaca, Use []),
   ([3, 4, 5, 6, 7, 0, 1, 2], 0x31338431, Use []),
   ([2, 3, 4, 5, 6, 7, 0, 1], 0x6ed41a95, Use []),
   ([1, 2, 3, 4, 5, 6, 7, 0], 0x6d437890, Use []),
   ([0, 1, 2, 3, 4, 5, 6, 7], 0xc39c91f2, Use []),
   ([7, 0, 1, 2, 3, 4, 5, 6], 0x9eccabbd, Use []),
   ([6, 7, 0, 1, 2, 3, 4, 5], 0xb5c9a0e6, Use []),
   ([5, 6, 7, 0, 1, 2, 3, 4], 0x532fb63c, Use []),
   ([4, 5, 6, 7, 0, 1, 2, 3], 0xd2c741c6, Use []),
   ([3, 4, 5, 6, 7, 0, 1, 2], 0x07237ea3, Use []),
   ([2, 3, 4, 5, 6, 7, 0, 1], 0xa4954b68, Use []),
   ([1, 2, 3, 4, 5, 6, 7, 0], 0x4c191d76, Use [])]"

definition avx2_lines3 :: "32 word line list" where
  "avx2_lines3 =
  [([0, 1, 2, 3, 4, 5, 6, 7], 0x428a2f98, Use [W 0]),
   ([7, 0, 1, 2, 3, 4, 5, 6], 0x71374491, Use [W 1]),
   ([6, 7, 0, 1, 2, 3, 4, 5], 0xb5c0fbcf, Use [W 2]),
   ([5, 6, 7, 0, 1, 2, 3, 4], 0xe9b5dba5, Use [W 3]),
   ([4, 5, 6, 7, 0, 1, 2, 3], 0x3956c25b, Use [W 4]),
   ([3, 4, 5, 6, 7, 0, 1, 2], 0x59f111f1, Use [W 5]),
   ([2, 3, 4, 5, 6, 7, 0, 1], 0x923f82a4, Use [W 6]),
   ([1, 2, 3, 4, 5, 6, 7, 0], 0xab1c5ed5, Use [W 7]),
   ([0, 1, 2, 3, 4, 5, 6, 7], 0x5807aa98, Use []),
   ([7, 0, 1, 2, 3, 4, 5, 6], 0x12835b01, Use []),
   ([6, 7, 0, 1, 2, 3, 4, 5], 0x243185be, Use []),
   ([5, 6, 7, 0, 1, 2, 3, 4], 0x550c7dc3, Use []),
   ([4, 5, 6, 7, 0, 1, 2, 3], 0x72be5d74, Use []),
   ([3, 4, 5, 6, 7, 0, 1, 2], 0x80deb1fe, Use []),
   ([2, 3, 4, 5, 6, 7, 0, 1], 0x9bdc06a7, Use []),
   ([1, 2, 3, 4, 5, 6, 7, 0], 0xc19bf274, Use []),
   ([0, 1, 2, 3, 4, 5, 6, 7], 0xe49b69c1, Add 0 [S0 1]),
   ([7, 0, 1, 2, 3, 4, 5, 6], 0xefbe4786, Add 1 [Const 0xa00000, S0 2]),
   ([6, 7, 0, 1, 2, 3, 4, 5], 0x0fc19dc6, Add 2 [S1 0, S0 3]),
   ([5, 6, 7, 0, 1, 2, 3, 4], 0x240ca1cc, Add 3 [S1 1, S0 4]),
   ([4, 5, 6, 7, 0, 1, 2, 3], 0x2de92c6f, Add 4 [S1 2, S0 5]),
   ([3, 4, 5, 6, 7, 0, 1, 2], 0x4a7484aa, Add 5 [S1 3, S0 6]),
   ([2, 3, 4, 5, 6, 7, 0, 1], 0x5cb0a9dc, Add 6 [S1 4, Const 0x100, S0 7]),
   ([1, 2, 3, 4, 5, 6, 7, 0], 0x76f988da, Add 7 [S1 5, W 0, Const 0x11002000]),
   ([0, 1, 2, 3, 4, 5, 6, 7], 0x983e5152, Assign 8 [Const 0x80000000, S1 6, W 1]),
   ([7, 0, 1, 2, 3, 4, 5, 6], 0xa831c66d, Assign 9 [S1 7, W 2]),
   ([6, 7, 0, 1, 2, 3, 4, 5], 0xb00327c8, Assign 10 [S1 8, W 3]),
   ([5, 6, 7, 0, 1, 2, 3, 4], 0xbf597fc7, Assign 11 [S1 9, W 4]),
   ([4, 5, 6, 7, 0, 1, 2, 3], 0xc6e00bf3, Assign 12 [S1 10, W 5]),
   ([3, 4, 5, 6, 7, 0, 1, 2], 0xd5a79147, Assign 13 [S1 11, W 6]),
   ([2, 3, 4, 5, 6, 7, 0, 1], 0x06ca6351, Assign 14 [S1 12, W 7, Const 0x400022]),
   ([1, 2, 3, 4, 5, 6, 7, 0], 0x14292967, Assign 15 [Const 0x100, S1 13, W 8, S0 0]),
   ([0, 1, 2, 3, 4, 5, 6, 7], 0x27b70a85, Add 0 [S1 14, W 9, S0 1]),
   ([7, 0, 1, 2, 3, 4, 5, 6], 0x2e1b2138, Add 1 [S1 15, W 10, S0 2]),
   ([6, 7, 0, 1, 2, 3, 4, 5], 0x4d2c6dfc, Add 2 [S1 0, W 11, S0 3]),
   ([5, 6, 7, 0, 1, 2, 3, 4], 0x53380d13, Add 3 [S1 1, W 12, S0 4]),
   ([4, 5, 6, 7, 0, 1, 2, 3], 0x650a7354, Add 4 [S1 2, W 13, S0 5]),
   ([3, 4, 5, 6, 7, 0, 1, 2], 0x766a0abb, Add 5 [S1 3, W 14, S0 6]),
   ([2, 3, 4, 5, 6, 7, 0, 1], 0x81c2c92e, Add 6 [S1 4, W 15, S0 7]),
   ([1, 2, 3, 4, 5, 6, 7, 0], 0x92722c85, Add 7 [S1 5, W 0, S0 8]),
   ([0, 1, 2, 3, 4, 5, 6, 7], 0xa2bfe8a1, Add 8 [S1 6, W 1, S0 9]),
   ([7, 0, 1, 2, 3, 4, 5, 6], 0xa81a664b, Add 9 [S1 7, W 2, S0 10]),
   ([6, 7, 0, 1, 2, 3, 4, 5], 0xc24b8b70, Add 10 [S1 8, W 3, S0 11]),
   ([5, 6, 7, 0, 1, 2, 3, 4], 0xc76c51a3, Add 11 [S1 9, W 4, S0 12]),
   ([4, 5, 6, 7, 0, 1, 2, 3], 0xd192e819, Add 12 [S1 10, W 5, S0 13]),
   ([3, 4, 5, 6, 7, 0, 1, 2], 0xd6990624, Add 13 [S1 11, W 6, S0 14]),
   ([2, 3, 4, 5, 6, 7, 0, 1], 0xf40e3585, Add 14 [S1 12, W 7, S0 15]),
   ([1, 2, 3, 4, 5, 6, 7, 0], 0x106aa070, Add 15 [S1 13, W 8, S0 0]),
   ([0, 1, 2, 3, 4, 5, 6, 7], 0x19a4c116, Add 0 [S1 14, W 9, S0 1]),
   ([7, 0, 1, 2, 3, 4, 5, 6], 0x1e376c08, Add 1 [S1 15, W 10, S0 2]),
   ([6, 7, 0, 1, 2, 3, 4, 5], 0x2748774c, Add 2 [S1 0, W 11, S0 3]),
   ([5, 6, 7, 0, 1, 2, 3, 4], 0x34b0bcb5, Add 3 [S1 1, W 12, S0 4]),
   ([4, 5, 6, 7, 0, 1, 2, 3], 0x391c0cb3, Add 4 [S1 2, W 13, S0 5]),
   ([3, 4, 5, 6, 7, 0, 1, 2], 0x4ed8aa4a, Add 5 [S1 3, W 14, S0 6]),
   ([2, 3, 4, 5, 6, 7, 0, 1], 0x5b9cca4f, Add 6 [S1 4, W 15, S0 7]),
   ([1, 2, 3, 4, 5, 6, 7, 0], 0x682e6ff3, Add 7 [S1 5, W 0, S0 8]),
   ([0, 1, 2, 3, 4, 5, 6, 7], 0x748f82ee, Add 8 [S1 6, W 1, S0 9]),
   ([7, 0, 1, 2, 3, 4, 5, 6], 0x78a5636f, Add 9 [S1 7, W 2, S0 10]),
   ([6, 7, 0, 1, 2, 3, 4, 5], 0x84c87814, Add 10 [S1 8, W 3, S0 11]),
   ([5, 6, 7, 0, 1, 2, 3, 4], 0x8cc70208, Add 11 [S1 9, W 4, S0 12]),
   ([4, 5, 6, 7, 0, 1, 2, 3], 0x90befffa, Add 12 [S1 10, W 5, S0 13]),
   ([3, 4, 5, 6, 7, 0, 1, 2], 0xa4506ceb, Add 13 [S1 11, W 6, S0 14]),
   ([2, 3, 4, 5, 6, 7, 0, 1], 0xbef9a3f7, Use [W 14, S1 12, W 7, S0 15]),
   ([1, 2, 3, 4, 5, 6, 7, 0], 0xc67178f2, Use [W 15, S1 13, W 8, S0 0])]"

text \<open>\<open>ReadLE32\<close> of the input, which holds whole blocks.\<close>

definition le32_at :: "bytes \<Rightarrow> nat \<Rightarrow> 32 word" where
  "le32_at chunk pos = word_of_nat (le_value (take 4 (drop pos chunk)))"

definition Read8 :: "bytes \<Rightarrow> nat \<Rightarrow> vec" where
  "Read8 chunk offset =
     (let ret = mm_set_epi32
        [le32_at chunk (0 + offset),
         le32_at chunk (64 + offset),
         le32_at chunk (128 + offset),
         le32_at chunk (192 + offset),
         le32_at chunk (256 + offset),
         le32_at chunk (320 + offset),
         le32_at chunk (384 + offset),
         le32_at chunk (448 + offset)]
      in mm_shuffle_epi8 ret (mm_set_epi32 [0x0C0D0E0F, 0x08090A0B, 0x04050607, 0x00010203,
           0x0C0D0E0F, 0x08090A0B, 0x04050607, 0x00010203]))"

definition Write8 :: "bytes \<Rightarrow> nat \<Rightarrow> vec \<Rightarrow> bytes" where
  "Write8 out offset v =
     (let v = mm_shuffle_epi8 v (mm_set_epi32 [0x0C0D0E0F, 0x08090A0B, 0x04050607, 0x00010203,
           0x0C0D0E0F, 0x08090A0B, 0x04050607, 0x00010203]);
          out = memcpy_at out (0 + offset) (WriteLE32 (mm_extract_epi32 v 7));
          out = memcpy_at out (32 + offset) (WriteLE32 (mm_extract_epi32 v 6));
          out = memcpy_at out (64 + offset) (WriteLE32 (mm_extract_epi32 v 5));
          out = memcpy_at out (96 + offset) (WriteLE32 (mm_extract_epi32 v 4));
          out = memcpy_at out (128 + offset) (WriteLE32 (mm_extract_epi32 v 3));
          out = memcpy_at out (160 + offset) (WriteLE32 (mm_extract_epi32 v 2));
          out = memcpy_at out (192 + offset) (WriteLE32 (mm_extract_epi32 v 1));
          out = memcpy_at out (224 + offset) (WriteLE32 (mm_extract_epi32 v 0))
      in out)"

definition Transform_8way :: "bytes \<Rightarrow> bytes \<Rightarrow> bytes" where
  "Transform_8way out inp =
     (let v = wide_rounds 8 (Read8 inp) avx2_lines1 avx2_lines2 avx2_lines3;
          out = Write8 out 0 (v ! 0);
          out = Write8 out 4 (v ! 1);
          out = Write8 out 8 (v ! 2);
          out = Write8 out 12 (v ! 3);
          out = Write8 out 16 (v ! 4);
          out = Write8 out 20 (v ! 5);
          out = Write8 out 24 (v ! 6);
          out = Write8 out 28 (v ! 7)
      in out)"

section \<open>\<open>sha256_sse41.cpp\<close>\<close>

definition Read4 :: "bytes \<Rightarrow> nat \<Rightarrow> vec" where
  "Read4 chunk offset =
     (let ret = mm_set_epi32
        [le32_at chunk (0 + offset),
         le32_at chunk (64 + offset),
         le32_at chunk (128 + offset),
         le32_at chunk (192 + offset)]
      in mm_shuffle_epi8 ret (mm_set_epi32 [0x0C0D0E0F, 0x08090A0B, 0x04050607, 0x00010203]))"

definition Write4 :: "bytes \<Rightarrow> nat \<Rightarrow> vec \<Rightarrow> bytes" where
  "Write4 out offset v =
     (let v = mm_shuffle_epi8 v (mm_set_epi32 [0x0C0D0E0F, 0x08090A0B, 0x04050607, 0x00010203]);
          out = memcpy_at out (0 + offset) (WriteLE32 (mm_extract_epi32 v 3));
          out = memcpy_at out (32 + offset) (WriteLE32 (mm_extract_epi32 v 2));
          out = memcpy_at out (64 + offset) (WriteLE32 (mm_extract_epi32 v 1));
          out = memcpy_at out (96 + offset) (WriteLE32 (mm_extract_epi32 v 0))
      in out)"

definition sse41_lines1 :: "32 word line list" where
  "sse41_lines1 =
  [([0, 1, 2, 3, 4, 5, 6, 7], 0x428a2f98, Load 0 0),
   ([7, 0, 1, 2, 3, 4, 5, 6], 0x71374491, Load 1 4),
   ([6, 7, 0, 1, 2, 3, 4, 5], 0xb5c0fbcf, Load 2 8),
   ([5, 6, 7, 0, 1, 2, 3, 4], 0xe9b5dba5, Load 3 12),
   ([4, 5, 6, 7, 0, 1, 2, 3], 0x3956c25b, Load 4 16),
   ([3, 4, 5, 6, 7, 0, 1, 2], 0x59f111f1, Load 5 20),
   ([2, 3, 4, 5, 6, 7, 0, 1], 0x923f82a4, Load 6 24),
   ([1, 2, 3, 4, 5, 6, 7, 0], 0xab1c5ed5, Load 7 28),
   ([0, 1, 2, 3, 4, 5, 6, 7], 0xd807aa98, Load 8 32),
   ([7, 0, 1, 2, 3, 4, 5, 6], 0x12835b01, Load 9 36),
   ([6, 7, 0, 1, 2, 3, 4, 5], 0x243185be, Load 10 40),
   ([5, 6, 7, 0, 1, 2, 3, 4], 0x550c7dc3, Load 11 44),
   ([4, 5, 6, 7, 0, 1, 2, 3], 0x72be5d74, Load 12 48),
   ([3, 4, 5, 6, 7, 0, 1, 2], 0x80deb1fe, Load 13 52),
   ([2, 3, 4, 5, 6, 7, 0, 1], 0x9bdc06a7, Load 14 56),
   ([1, 2, 3, 4, 5, 6, 7, 0], 0xc19bf174, Load 15 60),
   ([0, 1, 2, 3, 4, 5, 6, 7], 0xe49b69c1, Add 0 [S1 14, W 9, S0 1]),
   ([7, 0, 1, 2, 3, 4, 5, 6], 0xefbe4786, Add 1 [S1 15, W 10, S0 2]),
   ([6, 7, 0, 1, 2, 3, 4, 5], 0x0fc19dc6, Add 2 [S1 0, W 11, S0 3]),
   ([5, 6, 7, 0, 1, 2, 3, 4], 0x240ca1cc, Add 3 [S1 1, W 12, S0 4]),
   ([4, 5, 6, 7, 0, 1, 2, 3], 0x2de92c6f, Add 4 [S1 2, W 13, S0 5]),
   ([3, 4, 5, 6, 7, 0, 1, 2], 0x4a7484aa, Add 5 [S1 3, W 14, S0 6]),
   ([2, 3, 4, 5, 6, 7, 0, 1], 0x5cb0a9dc, Add 6 [S1 4, W 15, S0 7]),
   ([1, 2, 3, 4, 5, 6, 7, 0], 0x76f988da, Add 7 [S1 5, W 0, S0 8]),
   ([0, 1, 2, 3, 4, 5, 6, 7], 0x983e5152, Add 8 [S1 6, W 1, S0 9]),
   ([7, 0, 1, 2, 3, 4, 5, 6], 0xa831c66d, Add 9 [S1 7, W 2, S0 10]),
   ([6, 7, 0, 1, 2, 3, 4, 5], 0xb00327c8, Add 10 [S1 8, W 3, S0 11]),
   ([5, 6, 7, 0, 1, 2, 3, 4], 0xbf597fc7, Add 11 [S1 9, W 4, S0 12]),
   ([4, 5, 6, 7, 0, 1, 2, 3], 0xc6e00bf3, Add 12 [S1 10, W 5, S0 13]),
   ([3, 4, 5, 6, 7, 0, 1, 2], 0xd5a79147, Add 13 [S1 11, W 6, S0 14]),
   ([2, 3, 4, 5, 6, 7, 0, 1], 0x06ca6351, Add 14 [S1 12, W 7, S0 15]),
   ([1, 2, 3, 4, 5, 6, 7, 0], 0x14292967, Add 15 [S1 13, W 8, S0 0]),
   ([0, 1, 2, 3, 4, 5, 6, 7], 0x27b70a85, Add 0 [S1 14, W 9, S0 1]),
   ([7, 0, 1, 2, 3, 4, 5, 6], 0x2e1b2138, Add 1 [S1 15, W 10, S0 2]),
   ([6, 7, 0, 1, 2, 3, 4, 5], 0x4d2c6dfc, Add 2 [S1 0, W 11, S0 3]),
   ([5, 6, 7, 0, 1, 2, 3, 4], 0x53380d13, Add 3 [S1 1, W 12, S0 4]),
   ([4, 5, 6, 7, 0, 1, 2, 3], 0x650a7354, Add 4 [S1 2, W 13, S0 5]),
   ([3, 4, 5, 6, 7, 0, 1, 2], 0x766a0abb, Add 5 [S1 3, W 14, S0 6]),
   ([2, 3, 4, 5, 6, 7, 0, 1], 0x81c2c92e, Add 6 [S1 4, W 15, S0 7]),
   ([1, 2, 3, 4, 5, 6, 7, 0], 0x92722c85, Add 7 [S1 5, W 0, S0 8]),
   ([0, 1, 2, 3, 4, 5, 6, 7], 0xa2bfe8a1, Add 8 [S1 6, W 1, S0 9]),
   ([7, 0, 1, 2, 3, 4, 5, 6], 0xa81a664b, Add 9 [S1 7, W 2, S0 10]),
   ([6, 7, 0, 1, 2, 3, 4, 5], 0xc24b8b70, Add 10 [S1 8, W 3, S0 11]),
   ([5, 6, 7, 0, 1, 2, 3, 4], 0xc76c51a3, Add 11 [S1 9, W 4, S0 12]),
   ([4, 5, 6, 7, 0, 1, 2, 3], 0xd192e819, Add 12 [S1 10, W 5, S0 13]),
   ([3, 4, 5, 6, 7, 0, 1, 2], 0xd6990624, Add 13 [S1 11, W 6, S0 14]),
   ([2, 3, 4, 5, 6, 7, 0, 1], 0xf40e3585, Add 14 [S1 12, W 7, S0 15]),
   ([1, 2, 3, 4, 5, 6, 7, 0], 0x106aa070, Add 15 [S1 13, W 8, S0 0]),
   ([0, 1, 2, 3, 4, 5, 6, 7], 0x19a4c116, Add 0 [S1 14, W 9, S0 1]),
   ([7, 0, 1, 2, 3, 4, 5, 6], 0x1e376c08, Add 1 [S1 15, W 10, S0 2]),
   ([6, 7, 0, 1, 2, 3, 4, 5], 0x2748774c, Add 2 [S1 0, W 11, S0 3]),
   ([5, 6, 7, 0, 1, 2, 3, 4], 0x34b0bcb5, Add 3 [S1 1, W 12, S0 4]),
   ([4, 5, 6, 7, 0, 1, 2, 3], 0x391c0cb3, Add 4 [S1 2, W 13, S0 5]),
   ([3, 4, 5, 6, 7, 0, 1, 2], 0x4ed8aa4a, Add 5 [S1 3, W 14, S0 6]),
   ([2, 3, 4, 5, 6, 7, 0, 1], 0x5b9cca4f, Add 6 [S1 4, W 15, S0 7]),
   ([1, 2, 3, 4, 5, 6, 7, 0], 0x682e6ff3, Add 7 [S1 5, W 0, S0 8]),
   ([0, 1, 2, 3, 4, 5, 6, 7], 0x748f82ee, Add 8 [S1 6, W 1, S0 9]),
   ([7, 0, 1, 2, 3, 4, 5, 6], 0x78a5636f, Add 9 [S1 7, W 2, S0 10]),
   ([6, 7, 0, 1, 2, 3, 4, 5], 0x84c87814, Add 10 [S1 8, W 3, S0 11]),
   ([5, 6, 7, 0, 1, 2, 3, 4], 0x8cc70208, Add 11 [S1 9, W 4, S0 12]),
   ([4, 5, 6, 7, 0, 1, 2, 3], 0x90befffa, Add 12 [S1 10, W 5, S0 13]),
   ([3, 4, 5, 6, 7, 0, 1, 2], 0xa4506ceb, Add 13 [S1 11, W 6, S0 14]),
   ([2, 3, 4, 5, 6, 7, 0, 1], 0xbef9a3f7, Add 14 [S1 12, W 7, S0 15]),
   ([1, 2, 3, 4, 5, 6, 7, 0], 0xc67178f2, Add 15 [S1 13, W 8, S0 0])]"

definition sse41_lines2 :: "32 word line list" where
  "sse41_lines2 =
  [([0, 1, 2, 3, 4, 5, 6, 7], 0xc28a2f98, Use []),
   ([7, 0, 1, 2, 3, 4, 5, 6], 0x71374491, Use []),
   ([6, 7, 0, 1, 2, 3, 4, 5], 0xb5c0fbcf, Use []),
   ([5, 6, 7, 0, 1, 2, 3, 4], 0xe9b5dba5, Use []),
   ([4, 5, 6, 7, 0, 1, 2, 3], 0x3956c25b, Use []),
   ([3, 4, 5, 6, 7, 0, 1, 2], 0x59f111f1, Use []),
   ([2, 3, 4, 5, 6, 7, 0, 1], 0x923f82a4, Use []),
   ([1, 2, 3, 4, 5, 6, 7, 0], 0xab1c5ed5, Use []),
   ([0, 1, 2, 3, 4, 5, 6, 7], 0xd807aa98, Use []),
   ([7, 0, 1, 2, 3, 4, 5, 6], 0x12835b01, Use []),
   ([6, 7, 0, 1, 2, 3, 4, 5], 0x243185be, Use []),
   ([5, 6, 7, 0, 1, 2, 3, 4], 0x550c7dc3, Use []),
   ([4, 5, 6, 7, 0, 1, 2, 3], 0x72be5d74, Use []),
   ([3, 4, 5, 6, 7, 0, 1, 2], 0x80deb1fe, Use []),
   ([2, 3, 4, 5, 6, 7, 0, 1], 0x9bdc06a7, Use []),
   ([1, 2, 3, 4, 5, 6, 7, 0], 0xc19bf374, Use []),
   ([0, 1, 2, 3, 4, 5, 6, 7], 0x649b69c1, Use []),
   ([7, 0, 1, 2, 3, 4, 5, 6], 0xf0fe4786, Use []),
   ([6, 7, 0, 1, 2, 3, 4, 5], 0x0fe1edc6, Use []),
   ([5, 6, 7, 0, 1, 2, 3, 4], 0x240cf254, Use []),
   ([4, 5, 6, 7, 0, 1, 2, 3], 0x4fe9346f, Use []),
   ([3, 4, 5, 6, 7, 0, 1, 2], 0x6cc984be, Use []),
   ([2, 3, 4, 5, 6, 7, 0, 1], 0x61b9411e, Use []),
   ([1, 2, 3, 4, 5, 6, 7, 0], 0x16f988fa, Use []),
   ([0, 1, 2, 3, 4, 5, 6, 7], 0xf2c65152, Use []),
   ([7, 0, 1, 2, 3, 4, 5, 6], 0xa88e5a6d, Use []),
   ([6, 7, 0, 1, 2, 3, 4, 5], 0xb019fc65, Use []),
   ([5, 6, 7, 0, 1, 2, 3, 4], 0xb9d99ec7, Use []),
   ([4, 5, 6, 7, 0, 1, 2, 3], 0x9a1231c3, Use []),
   ([3, 4, 5, 6, 7, 0, 1, 2], 0xe70eeaa0, Use []),
   ([2, 3, 4, 5, 6, 7, 0, 1], 0xfdb1232b, Use []),
   ([1, 2, 3, 4, 5, 6, 7, 0], 0xc7353eb0, Use []),
   ([0, 1, 2, 3, 4, 5, 6, 7], 0x3069bad5, Use []),
   ([7, 0, 1, 2, 3, 4, 5, 6], 0xcb976d5f, Use []),
   ([6, 7, 0, 1, 2, 3, 4, 5], 0x5a0f118f, Use []),
   ([5, 6, 7, 0, 1, 2, 3, 4], 0xdc1eeefd, Use []),
   ([4, 5, 6, 7, 0, 1, 2, 3], 0x0a35b689, Use []),
   ([3, 4, 5, 6, 7, 0, 1, 2], 0xde0b7a04, Use []),
   ([2, 3, 4, 5, 6, 7, 0, 1], 0x58f4ca9d, Use []),
   ([1, 2, 3, 4, 5, 6, 7, 0], 0xe15d5b16, Use []),
   ([0, 1, 2, 3, 4, 5, 6, 7], 0x007f3e86, Use []),
   ([7, 0, 1, 2, 3, 4, 5, 6], 0x37088980, Use []),
   ([6, 7, 0, 1, 2, 3, 4, 5], 0xa507ea32, Use []),
   ([5, 6, 7, 0, 1, 2, 3, 4], 0x6fab9537, Use []),
   ([4, 5, 6, 7, 0, 1, 2, 3], 0x17406110, Use []),
   ([3, 4, 5, 6, 7, 0, 1, 2], 0x0d8cd6f1, Use []),
   ([2, 3, 4, 5, 6, 7, 0, 1], 0xcdaa3b6d, Use []),
   ([1, 2, 3, 4, 5, 6, 7, 0], 0xc0bbbe37, Use []),
   ([0, 1, 2, 3, 4, 5, 6, 7], 0x83613bda, Use []),
   ([7, 0, 1, 2, 3, 4, 5, 6], 0xdb48a363, Use []),
   ([6, 7, 0, 1, 2, 3, 4, 5], 0x0b02e931, Use []),
   ([5, 6, 7, 0, 1, 2, 3, 4], 0x6fd15ca7, Use []),
   ([4, 5, 6, 7, 0, 1, 2, 3], 0x521afaca, Use []),
   ([3, 4, 5, 6, 7, 0, 1, 2], 0x31338431, Use []),
   ([2, 3, 4, 5, 6, 7, 0, 1], 0x6ed41a95, Use []),
   ([1, 2, 3, 4, 5, 6, 7, 0], 0x6d437890, Use []),
   ([0, 1, 2, 3, 4, 5, 6, 7], 0xc39c91f2, Use []),
   ([7, 0, 1, 2, 3, 4, 5, 6], 0x9eccabbd, Use []),
   ([6, 7, 0, 1, 2, 3, 4, 5], 0xb5c9a0e6, Use []),
   ([5, 6, 7, 0, 1, 2, 3, 4], 0x532fb63c, Use []),
   ([4, 5, 6, 7, 0, 1, 2, 3], 0xd2c741c6, Use []),
   ([3, 4, 5, 6, 7, 0, 1, 2], 0x07237ea3, Use []),
   ([2, 3, 4, 5, 6, 7, 0, 1], 0xa4954b68, Use []),
   ([1, 2, 3, 4, 5, 6, 7, 0], 0x4c191d76, Use [])]"

definition sse41_lines3 :: "32 word line list" where
  "sse41_lines3 =
  [([0, 1, 2, 3, 4, 5, 6, 7], 0x428a2f98, Use [W 0]),
   ([7, 0, 1, 2, 3, 4, 5, 6], 0x71374491, Use [W 1]),
   ([6, 7, 0, 1, 2, 3, 4, 5], 0xb5c0fbcf, Use [W 2]),
   ([5, 6, 7, 0, 1, 2, 3, 4], 0xe9b5dba5, Use [W 3]),
   ([4, 5, 6, 7, 0, 1, 2, 3], 0x3956c25b, Use [W 4]),
   ([3, 4, 5, 6, 7, 0, 1, 2], 0x59f111f1, Use [W 5]),
   ([2, 3, 4, 5, 6, 7, 0, 1], 0x923f82a4, Use [W 6]),
   ([1, 2, 3, 4, 5, 6, 7, 0], 0xab1c5ed5, Use [W 7]),
   ([0, 1, 2, 3, 4, 5, 6, 7], 0x5807aa98, Use []),
   ([7, 0, 1, 2, 3, 4, 5, 6], 0x12835b01, Use []),
   ([6, 7, 0, 1, 2, 3, 4, 5], 0x243185be, Use []),
   ([5, 6, 7, 0, 1, 2, 3, 4], 0x550c7dc3, Use []),
   ([4, 5, 6, 7, 0, 1, 2, 3], 0x72be5d74, Use []),
   ([3, 4, 5, 6, 7, 0, 1, 2], 0x80deb1fe, Use []),
   ([2, 3, 4, 5, 6, 7, 0, 1], 0x9bdc06a7, Use []),
   ([1, 2, 3, 4, 5, 6, 7, 0], 0xc19bf274, Use []),
   ([0, 1, 2, 3, 4, 5, 6, 7], 0xe49b69c1, Add 0 [S0 1]),
   ([7, 0, 1, 2, 3, 4, 5, 6], 0xefbe4786, Add 1 [Const 0xa00000, S0 2]),
   ([6, 7, 0, 1, 2, 3, 4, 5], 0x0fc19dc6, Add 2 [S1 0, S0 3]),
   ([5, 6, 7, 0, 1, 2, 3, 4], 0x240ca1cc, Add 3 [S1 1, S0 4]),
   ([4, 5, 6, 7, 0, 1, 2, 3], 0x2de92c6f, Add 4 [S1 2, S0 5]),
   ([3, 4, 5, 6, 7, 0, 1, 2], 0x4a7484aa, Add 5 [S1 3, S0 6]),
   ([2, 3, 4, 5, 6, 7, 0, 1], 0x5cb0a9dc, Add 6 [S1 4, Const 0x100, S0 7]),
   ([1, 2, 3, 4, 5, 6, 7, 0], 0x76f988da, Add 7 [S1 5, W 0, Const 0x11002000]),
   ([0, 1, 2, 3, 4, 5, 6, 7], 0x983e5152, Assign 8 [Const 0x80000000, S1 6, W 1]),
   ([7, 0, 1, 2, 3, 4, 5, 6], 0xa831c66d, Assign 9 [S1 7, W 2]),
   ([6, 7, 0, 1, 2, 3, 4, 5], 0xb00327c8, Assign 10 [S1 8, W 3]),
   ([5, 6, 7, 0, 1, 2, 3, 4], 0xbf597fc7, Assign 11 [S1 9, W 4]),
   ([4, 5, 6, 7, 0, 1, 2, 3], 0xc6e00bf3, Assign 12 [S1 10, W 5]),
   ([3, 4, 5, 6, 7, 0, 1, 2], 0xd5a79147, Assign 13 [S1 11, W 6]),
   ([2, 3, 4, 5, 6, 7, 0, 1], 0x06ca6351, Assign 14 [S1 12, W 7, Const 0x400022]),
   ([1, 2, 3, 4, 5, 6, 7, 0], 0x14292967, Assign 15 [Const 0x100, S1 13, W 8, S0 0]),
   ([0, 1, 2, 3, 4, 5, 6, 7], 0x27b70a85, Add 0 [S1 14, W 9, S0 1]),
   ([7, 0, 1, 2, 3, 4, 5, 6], 0x2e1b2138, Add 1 [S1 15, W 10, S0 2]),
   ([6, 7, 0, 1, 2, 3, 4, 5], 0x4d2c6dfc, Add 2 [S1 0, W 11, S0 3]),
   ([5, 6, 7, 0, 1, 2, 3, 4], 0x53380d13, Add 3 [S1 1, W 12, S0 4]),
   ([4, 5, 6, 7, 0, 1, 2, 3], 0x650a7354, Add 4 [S1 2, W 13, S0 5]),
   ([3, 4, 5, 6, 7, 0, 1, 2], 0x766a0abb, Add 5 [S1 3, W 14, S0 6]),
   ([2, 3, 4, 5, 6, 7, 0, 1], 0x81c2c92e, Add 6 [S1 4, W 15, S0 7]),
   ([1, 2, 3, 4, 5, 6, 7, 0], 0x92722c85, Add 7 [S1 5, W 0, S0 8]),
   ([0, 1, 2, 3, 4, 5, 6, 7], 0xa2bfe8a1, Add 8 [S1 6, W 1, S0 9]),
   ([7, 0, 1, 2, 3, 4, 5, 6], 0xa81a664b, Add 9 [S1 7, W 2, S0 10]),
   ([6, 7, 0, 1, 2, 3, 4, 5], 0xc24b8b70, Add 10 [S1 8, W 3, S0 11]),
   ([5, 6, 7, 0, 1, 2, 3, 4], 0xc76c51a3, Add 11 [S1 9, W 4, S0 12]),
   ([4, 5, 6, 7, 0, 1, 2, 3], 0xd192e819, Add 12 [S1 10, W 5, S0 13]),
   ([3, 4, 5, 6, 7, 0, 1, 2], 0xd6990624, Add 13 [S1 11, W 6, S0 14]),
   ([2, 3, 4, 5, 6, 7, 0, 1], 0xf40e3585, Add 14 [S1 12, W 7, S0 15]),
   ([1, 2, 3, 4, 5, 6, 7, 0], 0x106aa070, Add 15 [S1 13, W 8, S0 0]),
   ([0, 1, 2, 3, 4, 5, 6, 7], 0x19a4c116, Add 0 [S1 14, W 9, S0 1]),
   ([7, 0, 1, 2, 3, 4, 5, 6], 0x1e376c08, Add 1 [S1 15, W 10, S0 2]),
   ([6, 7, 0, 1, 2, 3, 4, 5], 0x2748774c, Add 2 [S1 0, W 11, S0 3]),
   ([5, 6, 7, 0, 1, 2, 3, 4], 0x34b0bcb5, Add 3 [S1 1, W 12, S0 4]),
   ([4, 5, 6, 7, 0, 1, 2, 3], 0x391c0cb3, Add 4 [S1 2, W 13, S0 5]),
   ([3, 4, 5, 6, 7, 0, 1, 2], 0x4ed8aa4a, Add 5 [S1 3, W 14, S0 6]),
   ([2, 3, 4, 5, 6, 7, 0, 1], 0x5b9cca4f, Add 6 [S1 4, W 15, S0 7]),
   ([1, 2, 3, 4, 5, 6, 7, 0], 0x682e6ff3, Add 7 [S1 5, W 0, S0 8]),
   ([0, 1, 2, 3, 4, 5, 6, 7], 0x748f82ee, Add 8 [S1 6, W 1, S0 9]),
   ([7, 0, 1, 2, 3, 4, 5, 6], 0x78a5636f, Add 9 [S1 7, W 2, S0 10]),
   ([6, 7, 0, 1, 2, 3, 4, 5], 0x84c87814, Add 10 [S1 8, W 3, S0 11]),
   ([5, 6, 7, 0, 1, 2, 3, 4], 0x8cc70208, Add 11 [S1 9, W 4, S0 12]),
   ([4, 5, 6, 7, 0, 1, 2, 3], 0x90befffa, Add 12 [S1 10, W 5, S0 13]),
   ([3, 4, 5, 6, 7, 0, 1, 2], 0xa4506ceb, Add 13 [S1 11, W 6, S0 14]),
   ([2, 3, 4, 5, 6, 7, 0, 1], 0xbef9a3f7, Use [W 14, S1 12, W 7, S0 15]),
   ([1, 2, 3, 4, 5, 6, 7, 0], 0xc67178f2, Use [W 15, S1 13, W 8, S0 0])]"

definition Transform_4way :: "bytes \<Rightarrow> bytes \<Rightarrow> bytes" where
  "Transform_4way out inp =
     (let v = wide_rounds 4 (Read4 inp) sse41_lines1 sse41_lines2 sse41_lines3;
          out = Write4 out 0 (v ! 0);
          out = Write4 out 4 (v ! 1);
          out = Write4 out 8 (v ! 2);
          out = Write4 out 12 (v ! 3);
          out = Write4 out 16 (v ! 4);
          out = Write4 out 20 (v ! 5);
          out = Write4 out 24 (v ! 6);
          out = Write4 out 28 (v ! 7)
      in out)"

section \<open>The statements are those of \<open>TransformD64\<close>\<close>

text \<open>The last two statements of the first transform also store the sum.\<close>

lemma avx2_tables:
  "avx2_lines1 = wide_lines1" "avx2_lines2 = d64_lines2" "avx2_lines3 = d64_lines3"
  by (simp_all add: avx2_lines1_def wide_lines1_def sha256_lines_def avx2_lines2_def d64_lines2_def avx2_lines3_def
    d64_lines3_def)

lemma sse41_tables:
  "sse41_lines1 = wide_lines1" "sse41_lines2 = d64_lines2" "sse41_lines3 = d64_lines3"
  by (simp_all add: sse41_lines1_def wide_lines1_def sha256_lines_def sse41_lines2_def d64_lines2_def sse41_lines3_def
    d64_lines3_def)

section \<open>Loads and stores\<close>

text \<open>The highest lane holds the first block.\<close>

definition lane_block :: "nat \<Rightarrow> bytes \<Rightarrow> nat \<Rightarrow> bytes" where
  "lane_block n inp i = take 64 (drop (64 * (n - 1 - i)) inp)"

lemma masks:
  "mm_set_epi32 [0x0C0D0E0F, 0x08090A0B, 0x04050607, 0x00010203] = swap_mask"
  "mm_set_epi32 [0x0C0D0E0F, 0x08090A0B, 0x04050607, 0x00010203, 0x0C0D0E0F, 0x08090A0B, 0x04050607, 0x00010203] =
    swap_mask @ swap_mask"
  by (simp_all add: mm_set_epi32_def swap_mask_def)

lemma swap_le32_at:
  assumes "length inp = 64 * n" and "i < n" and "pos \<le> 60"
  shows "swap32 (le32_at inp (64 * (n - 1 - i) + pos)) = word_at (lane_block n inp i) pos"
proof -
  have "64 * (n - 1 - i) + pos + 4 \<le> length inp" using assms by (simp add: less_eq_Suc_le)
  then have "swap32 (le32_at inp (64 * (n - 1 - i) + pos)) = word_at inp (64 * (n - 1 - i) + pos)"
    unfolding le32_at_def by (rule swap_word_at)
  moreover have "take 4 (drop pos (take 64 (drop (64 * (n - 1 - i)) inp))) = take 4 (drop (64 * (n - 1 - i) + pos) inp)"
    using assms(3) by (simp add: drop_take add.commute min_def)
  ultimately show ?thesis by (simp add: lane_block_def word_at_def)
qed

lemma less_8: "(i :: nat) < 8 \<Longrightarrow> i \<in> {0, 1, 2, 3, 4, 5, 6, 7}" and less_4: "(i :: nat) < 4 \<Longrightarrow> i \<in> {0, 1, 2, 3}"
  by auto

lemma Read8_reads: "length inp = 512 \<Longrightarrow> reads 8 (Read8 inp) (lane_block 8 inp)"
  unfolding reads_def
proof (intro allI impI conjI)
  fix pos i :: nat
  let ?ret = "[le32_at inp (448 + pos), le32_at inp (384 + pos), le32_at inp (320 + pos), le32_at inp (256 + pos),
     le32_at inp (192 + pos), le32_at inp (128 + pos), le32_at inp (64 + pos), le32_at inp pos]"
  have r: "Read8 inp pos = map swap32 ?ret"
    unfolding Read8_def masks Let_def
    by (subst mm_shuffle_epi8_swap8) (simp_all add: mm_set_epi32_def)
  show "length (Read8 inp pos) = 8" by (simp add: r)
  assume "length inp = 512" "pos \<le> 60" "i < 8"
  note at = swap_le32_at [of inp 8 i pos, OF _ this(3,2)] this
  show "Read8 inp pos ! i = word_at (lane_block 8 inp i) pos"
    using at(1) at(2) less_8 [OF at(4)] unfolding r by auto
qed

lemma Read4_reads: "length inp = 256 \<Longrightarrow> reads 4 (Read4 inp) (lane_block 4 inp)"
  unfolding reads_def
proof (intro allI impI conjI)
  fix pos i :: nat
  let ?ret = "[le32_at inp (192 + pos), le32_at inp (128 + pos), le32_at inp (64 + pos), le32_at inp pos]"
  have r: "Read4 inp pos = map swap32 ?ret"
    unfolding Read4_def masks Let_def
    by (subst mm_shuffle_epi8_swap4) (simp_all add: mm_set_epi32_def)
  show "length (Read4 inp pos) = 4" by (simp add: r)
  assume "length inp = 256" "pos \<le> 60" "i < 4"
  note at = swap_le32_at [of inp 4 i pos, OF _ this(3,2)] this
  show "Read4 inp pos ! i = word_at (lane_block 4 inp i) pos"
    using at(1) at(2) less_4 [OF at(4)] unfolding r by auto
qed

text \<open>The words of the output: block by block, and eight to a block.\<close>

definition scatter :: "nat \<Rightarrow> nat \<Rightarrow> vec \<Rightarrow> 32 word list \<Rightarrow> 32 word list" where
  "scatter n k v ws = foldl (\<lambda>ws i. ws[8 * i + k := swap32 (v ! (n - 1 - i))]) ws [0..<n]"

lemma length_scatter: "length (scatter n k v ws) = length ws"
proof -
  have "length (foldl (\<lambda>ws i. ws[8 * i + k := f i]) ws is) = length ws" for f "is"
    by (induction "is" arbitrary: ws) simp_all
  then show ?thesis by (simp add: scatter_def)
qed

lemma nth_scatter:
  assumes "k < 8" and "j < length ws"
  shows "scatter n k v ws ! j = (if j mod 8 = k \<and> j div 8 < n then swap32 (v ! (n - 1 - j div 8)) else ws ! j) \<and>
    length (scatter n k v ws) = length ws"
proof -
  have "foldl (\<lambda>ws i. ws[8 * i + k := f i]) ws [0..<m] ! j = (if j mod 8 = k \<and> j div 8 < m then f (j div 8) else ws ! j) \<and>
      length (foldl (\<lambda>ws i. ws[8 * i + k := f i]) ws [0..<m]) = length ws" for f and m
  proof (induction m)
    case (Suc m)
    have "j = 8 * m + k \<longleftrightarrow> j mod 8 = k \<and> j div 8 = m" using assms(1) by auto
    then show ?case using Suc assms(2) by (auto simp: nth_list_update less_Suc_eq)
  qed simp
  then show ?thesis by (simp add: scatter_def)
qed

lemma scatter_all:
  assumes "length ws = 8 * n"
  shows "foldl (\<lambda>ws k. scatter n k (vs ! k) ws) ws [0..<8] =
    concat (map (\<lambda>i. map (\<lambda>k. swap32 (vs ! k ! (n - 1 - i))) [0..<8]) [0..<n])"
proof (rule nth_equalityI)
  have step: "length (foldl (\<lambda>ws k. scatter n k (vs ! k) ws) ws [0..<m]) = length ws \<and>
      (\<forall>j < length ws. foldl (\<lambda>ws k. scatter n k (vs ! k) ws) ws [0..<m] ! j =
        (if j mod 8 < m then swap32 (vs ! (j mod 8) ! (n - 1 - j div 8)) else ws ! j))" if "m \<le> 8" for m
    using that
  proof (induction m)
    case (Suc m)
    let ?ws = "foldl (\<lambda>ws k. scatter n k (vs ! k) ws) ws [0..<m]"
    have ih: "length ?ws = length ws" "\<And>j. j < length ws \<Longrightarrow>
      ?ws ! j = (if j mod 8 < m then swap32 (vs ! (j mod 8) ! (n - 1 - j div 8)) else ws ! j)" using Suc by simp_all
    have "scatter n m (vs ! m) ?ws ! j =
        (if j mod 8 < Suc m then swap32 (vs ! (j mod 8) ! (n - 1 - j div 8)) else ws ! j)" if "j < length ws" for j
    proof -
      have "j div 8 < n" using that assms by (simp add: less_mult_imp_div_less mult.commute)
      then show ?thesis using nth_scatter [of m j ?ws n "vs ! m"] ih that Suc.prems by (auto simp: less_Suc_eq)
    qed
    then show ?case by (simp add: length_scatter ih(1))
  qed simp
  have len: "length (concat (map (\<lambda>i. map (f i) [0..<8]) [0..<n])) = 8 * n" for f :: "nat \<Rightarrow> nat \<Rightarrow> 32 word"
    by (simp add: length_concat o_def sum_list_triv)
  have nth: "concat (map (\<lambda>i. map (f i) [0..<8]) [0..<n]) ! j = f (j div 8) (j mod 8)"
    if "j < 8 * n" for f :: "nat \<Rightarrow> nat \<Rightarrow> 32 word" and j
    using that
  proof (induction n)
    case (Suc n)
    have l: "length (concat (map (\<lambda>i. map (f i) [0..<8]) [0..<n])) = 8 * n"
      by (simp add: length_concat o_def sum_list_triv)
    show ?case
    proof (cases "j < 8 * n")
      case True
      then show ?thesis using Suc l by (simp add: nth_append)
    next
      case False
      then have "j div 8 = n" "j - 8 * n < 8" using Suc.prems by auto
      moreover from this(1) have "j mod 8 = j - 8 * n" by (simp add: modulo_nat_def)
      ultimately show ?thesis using False l by (simp add: nth_append)
    qed
  qed simp
  show "length (foldl (\<lambda>ws k. scatter n k (vs ! k) ws) ws [0..<8]) =
      length (concat (map (\<lambda>i. map (\<lambda>k. swap32 (vs ! k ! (n - 1 - i))) [0..<8]) [0..<n]))"
    using step [of 8] assms by (simp add: len)
  fix j assume "j < length (foldl (\<lambda>ws k. scatter n k (vs ! k) ws) ws [0..<8])"
  then show "foldl (\<lambda>ws k. scatter n k (vs ! k) ws) ws [0..<8] ! j =
      concat (map (\<lambda>i. map (\<lambda>k. swap32 (vs ! k ! (n - 1 - i))) [0..<8]) [0..<n]) ! j"
    using step [of 8] assms nth [of j "\<lambda>i k. swap32 (vs ! k ! (n - 1 - i))"] by simp
qed

lemma Write8_scatter:
  assumes "length v = 8" and "length ws = 64" and "k < 8"
  shows "Write8 (vec_bytes ws) (4 * k) v = vec_bytes (scatter 8 k v ws)"
proof -
  have s: "memcpy_at (vec_bytes ws') (32 * i + 4 * k) (WriteLE32 x) = vec_bytes (ws'[8 * i + k := x])"
    if "i < 8" "length ws' = 64" for i ws' x
    using vec_bytes_store [of "8 * i + k" ws' x] that assms(3) by (simp add: algebra_simps)
  have l: "[0..<8] = [0, 1, 2, 3, 4, 5, 6, 7 :: nat]" by (simp add: upt_rec)
  show ?thesis
    unfolding Write8_def masks mm_shuffle_epi8_swap8 [OF assms(1)] Let_def mm_extract_epi32_def scatter_def l
    using s [of 0] s [of 1] s [of 2] s [of 3] s [of 4] s [of 5] s [of 6] s [of 7] assms by simp
qed

lemma Write4_scatter:
  assumes "length v = 4" and "length ws = 32" and "k < 8"
  shows "Write4 (vec_bytes ws) (4 * k) v = vec_bytes (scatter 4 k v ws)"
proof -
  have s: "memcpy_at (vec_bytes ws') (32 * i + 4 * k) (WriteLE32 x) = vec_bytes (ws'[8 * i + k := x])"
    if "i < 4" "length ws' = 32" for i ws' x
    using vec_bytes_store [of "8 * i + k" ws' x] that assms(3) by (simp add: algebra_simps)
  have l: "[0..<4] = [0, 1, 2, 3 :: nat]" by (simp add: upt_rec)
  show ?thesis
    unfolding Write4_def masks mm_shuffle_epi8_swap4 [OF assms(1)] Let_def mm_extract_epi32_def scatter_def l
    using s [of 0] s [of 1] s [of 2] s [of 3] assms by simp
qed

text \<open>The words of the lanes, read as bytes, are their digests.\<close>

lemma vec_bytes_concat: "vec_bytes (concat xss) = concat (map vec_bytes xss)"
  by (induction xss) simp_all

lemma vec_bytes_swaps: "vec_bytes (map swap32 xs) = sha256_output xs"
  by (induction xs) (simp_all add: sha256_output_def WriteLE32_swap)

lemma scatter_digests:
  assumes "length ws = 8 * n" and "length vs = 8"
    and "\<And>i. i < n \<Longrightarrow> sha256_output (lane i vs) = TransformD64 (lane_block n inp i)" and "length inp = 64 * n"
  shows "vec_bytes (foldl (\<lambda>ws k. scatter n k (vs ! k) ws) ws [0..<8]) = concat (map TransformD64 (chunks 64 inp))"
proof -
  have l: "map (\<lambda>k. swap32 (vs ! k ! i)) [0..<8] = map swap32 (lane i vs)" for i
    using assms(2) by (auto intro!: nth_equalityI)
  have "chunks 64 inp = map (\<lambda>i. take 64 (drop (64 * i) inp)) [0..<n]"
    using assms(4)
  proof (induction n arbitrary: inp)
    case 0
    then show ?case by (simp add: chunks_short)
  next
    case (Suc n)
    have "[0..<Suc n] = 0 # map Suc [0..<n]" by (simp add: upt_conv_Cons map_Suc_upt del: upt_Suc)
    moreover have "chunks 64 inp = take 64 inp # chunks 64 (drop 64 inp)"
      using Suc.prems by (simp add: chunks.simps [of 64 inp])
    ultimately show ?case using Suc.IH [of "drop 64 inp"] Suc.prems by (simp add: o_def add.commute)
  qed
  moreover have "vec_bytes (map (\<lambda>k. swap32 (vs ! k ! (n - 1 - i))) [0..<8]) = TransformD64 (take 64 (drop (64 * i) inp))"
    if "i < n" for i
    using assms(3) [of "n - 1 - i"] that by (simp add: l vec_bytes_swaps lane_block_def)
  ultimately show ?thesis
    unfolding scatter_all [OF assms(1)] vec_bytes_concat map_map o_def
    by (intro arg_cong [where f = concat]) simp
qed

section \<open>Both functions hash every block\<close>

lemma upt_8: "[0..<8] = [0, 1, 2, 3, 4, 5, 6, 7 :: nat]"
  by (simp add: upt_rec)

lemma Transform_8way_blocks:
  assumes "length inp = 512" and "length out = 256"
  shows "Transform_8way out inp = concat (map TransformD64 (chunks 64 inp))"
proof -
  define vs where "vs = wide_rounds 8 (Read8 inp) wide_lines1 d64_lines2 d64_lines3"
  note wide = wide_rounds_lanes [OF Read8_reads [OF assms(1)], folded vs_def]
  have vs: "length vs = 8" "\<And>k. k < 8 \<Longrightarrow> length (vs ! k) = 8"
    using wide [of 0] by (auto intro: of_widthD)
  obtain ws where out: "out = vec_bytes ws" using bytes_are_vec [of out] assms(2) by auto
  then have len: "length ws = 64" using assms(2) by simp
  have w: "Write8 (vec_bytes ws) (4 * k) (vs ! k) = vec_bytes (scatter 8 k (vs ! k) ws)" if "length ws = 64" "k < 8" for ws k
    using Write8_scatter vs(2) that by blast
  have "Transform_8way out inp = vec_bytes (foldl (\<lambda>ws k. scatter 8 k (vs ! k) ws) ws [0..<8])"
    using w [of _ 0] w [of _ 1] w [of _ 2] w [of _ 3] w [of _ 4] w [of _ 5] w [of _ 6] w [of _ 7] len
    unfolding Transform_8way_def avx2_tables vs_def [symmetric] out upt_8
    by (simp add: length_scatter Let_def)
  also have "\<dots> = concat (map TransformD64 (chunks 64 inp))"
    using assms(1) len vs(1) wide by (intro scatter_digests) simp_all
  finally show ?thesis .
qed

lemma Transform_4way_blocks:
  assumes "length inp = 256" and "length out = 128"
  shows "Transform_4way out inp = concat (map TransformD64 (chunks 64 inp))"
proof -
  define vs where "vs = wide_rounds 4 (Read4 inp) wide_lines1 d64_lines2 d64_lines3"
  note wide = wide_rounds_lanes [OF Read4_reads [OF assms(1)], folded vs_def]
  have vs: "length vs = 8" "\<And>k. k < 8 \<Longrightarrow> length (vs ! k) = 4"
    using wide [of 0] by (auto intro: of_widthD)
  obtain ws where out: "out = vec_bytes ws" using bytes_are_vec [of out] assms(2) by auto
  then have len: "length ws = 32" using assms(2) by simp
  have w: "Write4 (vec_bytes ws) (4 * k) (vs ! k) = vec_bytes (scatter 4 k (vs ! k) ws)" if "length ws = 32" "k < 8" for ws k
    using Write4_scatter vs(2) that by blast
  have "Transform_4way out inp = vec_bytes (foldl (\<lambda>ws k. scatter 4 k (vs ! k) ws) ws [0..<8])"
    using w [of _ 0] w [of _ 1] w [of _ 2] w [of _ 3] w [of _ 4] w [of _ 5] w [of _ 6] w [of _ 7] len
    unfolding Transform_4way_def sse41_tables vs_def [symmetric] out upt_8
    by (simp add: length_scatter Let_def)
  also have "\<dots> = concat (map TransformD64 (chunks 64 inp))"
    using assms(1) len vs(1) wide by (intro scatter_digests) simp_all
  finally show ?thesis .
qed

end
