(* ===== verification/Sha256Shani.thy ===== *)
theory Sha256Shani
  imports Intrinsics
begin

text \<open>
  \<open>src/crypto/sha256_shani.cpp\<close>: \<open>Transform\<close> and \<open>Transform_2way\<close> with the SHA instructions. The
  eight variables of the compression function are in two vectors, ABEF and CDGH; a \<open>QuadRound\<close> does
  four rounds; the vectors \<open>m0\<close> to \<open>m3\<close> hold sixteen words of the schedule, which the
  \<open>ShiftMessage\<close> functions extend. The unrolled statements are lists, which \<open>ni_run\<close> executes.

  The results: \<open>shani_Transform\<close> computes \<open>sha256::Transform\<close>, and \<open>shani_Transform_2way\<close> the double
  hash of two blocks.
\<close>

section \<open>The code\<close>

definition MASK :: vec where
  "MASK = mm_set_epi64x 0x0c0d0e0f08090a0b 0x0405060700010203"

definition INIT0 :: vec where
  "INIT0 = mm_set_epi64x 0x6a09e667bb67ae85 0x510e527f9b05688c"

definition INIT1 :: vec where
  "INIT1 = mm_set_epi64x 0x3c6ef372a54ff53a 0x1f83d9ab5be0cd19"

type_synonym ni_regs = "vec \<times> vec"

definition shani_Quad :: "vec \<Rightarrow> ni_regs \<Rightarrow> ni_regs" where
  "shani_Quad msg = (\<lambda>(state0, state1).
     let state1 = mm_sha256rnds2_epu32 state1 state0 msg;
         state0 = mm_sha256rnds2_epu32 state0 state1 (mm_shuffle_epi32 msg 0x0e)
     in (state0, state1))"

definition QuadRound_k :: "64 word \<Rightarrow> 64 word \<Rightarrow> ni_regs \<Rightarrow> ni_regs" where
  "QuadRound_k k1 k0 = shani_Quad (mm_set_epi64x k1 k0)"

definition QuadRound_m :: "vec \<Rightarrow> 64 word \<Rightarrow> 64 word \<Rightarrow> ni_regs \<Rightarrow> ni_regs" where
  "QuadRound_m m k1 k0 = shani_Quad (mm_add_epi32 m (mm_set_epi64x k1 k0))"

definition shani_ShiftC :: "vec \<Rightarrow> vec \<Rightarrow> vec \<Rightarrow> vec" where
  "shani_ShiftC m0 m1 m2 = mm_sha256msg2_epu32 (mm_add_epi32 m2 (mm_alignr_epi8 m1 m0 4)) m1"

definition shani_Shuffle :: "ni_regs \<Rightarrow> ni_regs" where
  "shani_Shuffle = (\<lambda>(s0, s1).
     let t1 = mm_shuffle_epi32 s0 0xB1;
         t2 = mm_shuffle_epi32 s1 0x1B
     in (mm_alignr_epi8 t1 t2 0x08, mm_blend_epi16 t2 t1 0xF0))"

definition shani_Unshuffle :: "ni_regs \<Rightarrow> ni_regs" where
  "shani_Unshuffle = (\<lambda>(s0, s1).
     let t1 = mm_shuffle_epi32 s0 0x1B;
         t2 = mm_shuffle_epi32 s1 0xB1
     in (mm_blend_epi16 t1 t2 0xF0, mm_alignr_epi8 t2 t1 0x08))"

definition shani_Load :: "bytes \<Rightarrow> vec" where
  "shani_Load inp = mm_shuffle_epi8 (mm_loadu_si128 inp) MASK"

definition shani_Save :: "bytes \<Rightarrow> nat \<Rightarrow> vec \<Rightarrow> bytes" where
  "shani_Save out pos s = memcpy_at out pos (vec_bytes (mm_shuffle_epi8 s MASK))"

text \<open>
  The statements: \<open>m_i = Load(in + pos)\<close>, \<open>m_i = _mm_set_epi64x(e1, e0)\<close>, the two forms of
  \<open>QuadRound(s0, s1, ...)\<close>, and the three functions that shift the schedule.
\<close>

datatype ni_stmt =
    LoadM nat nat
  | SetM nat "64 word" "64 word"
  | QuadRoundM nat "64 word" "64 word"
  | QuadRoundK "64 word" "64 word"
  | ShiftMessageA nat nat
  | ShiftMessageB nat nat nat
  | ShiftMessageC nat nat nat

type_synonym ni_state = "ni_regs \<times> vec list"

fun ni_step :: "bytes \<Rightarrow> ni_stmt \<Rightarrow> ni_state \<Rightarrow> ni_state" where
  "ni_step inp (LoadM i pos) (s, m) = (s, m[i := shani_Load (drop pos inp)])"
| "ni_step inp (SetM i e1 e0) (s, m) = (s, m[i := mm_set_epi64x e1 e0])"
| "ni_step inp (QuadRoundM i k1 k0) (s, m) = (QuadRound_m (m ! i) k1 k0 s, m)"
| "ni_step inp (QuadRoundK k1 k0) (s, m) = (QuadRound_k k1 k0 s, m)"
| "ni_step inp (ShiftMessageA i j) (s, m) = (s, m[i := mm_sha256msg1_epu32 (m ! i) (m ! j)])"
| "ni_step inp (ShiftMessageC i j k) (s, m) = (s, m[k := shani_ShiftC (m ! i) (m ! j) (m ! k)])"
| "ni_step inp (ShiftMessageB i j k) (s, m) =
     (let m = m[k := shani_ShiftC (m ! i) (m ! j) (m ! k)]
      in (s, m[i := mm_sha256msg1_epu32 (m ! i) (m ! j)]))"

definition ni_run :: "bytes \<Rightarrow> ni_stmt list \<Rightarrow> ni_state \<Rightarrow> ni_state" where
  "ni_run inp = fold (ni_step inp)"

subsection \<open>\<open>Transform\<close>\<close>

definition shani_lines :: "ni_stmt list" where
  "shani_lines =
  [LoadM 0 0,
   QuadRoundM 0 0xe9b5dba5b5c0fbcf 0x71374491428a2f98,
   LoadM 1 16,
   QuadRoundM 1 0xab1c5ed5923f82a4 0x59f111f13956c25b,
   ShiftMessageA 0 1,
   LoadM 2 32,
   QuadRoundM 2 0x550c7dc3243185be 0x12835b01d807aa98,
   ShiftMessageA 1 2,
   LoadM 3 48,
   QuadRoundM 3 0xc19bf1749bdc06a7 0x80deb1fe72be5d74,
   ShiftMessageB 2 3 0,
   QuadRoundM 0 0x240ca1cc0fc19dc6 0xefbe4786e49b69c1,
   ShiftMessageB 3 0 1,
   QuadRoundM 1 0x76f988da5cb0a9dc 0x4a7484aa2de92c6f,
   ShiftMessageB 0 1 2,
   QuadRoundM 2 0xbf597fc7b00327c8 0xa831c66d983e5152,
   ShiftMessageB 1 2 3,
   QuadRoundM 3 0x1429296706ca6351 0xd5a79147c6e00bf3,
   ShiftMessageB 2 3 0,
   QuadRoundM 0 0x53380d134d2c6dfc 0x2e1b213827b70a85,
   ShiftMessageB 3 0 1,
   QuadRoundM 1 0x92722c8581c2c92e 0x766a0abb650a7354,
   ShiftMessageB 0 1 2,
   QuadRoundM 2 0xc76c51a3c24b8b70 0xa81a664ba2bfe8a1,
   ShiftMessageB 1 2 3,
   QuadRoundM 3 0x106aa070f40e3585 0xd6990624d192e819,
   ShiftMessageB 2 3 0,
   QuadRoundM 0 0x34b0bcb52748774c 0x1e376c0819a4c116,
   ShiftMessageB 3 0 1,
   QuadRoundM 1 0x682e6ff35b9cca4f 0x4ed8aa4a391c0cb3,
   ShiftMessageC 0 1 2,
   QuadRoundM 2 0x8cc7020884c87814 0x78a5636f748f82ee,
   ShiftMessageC 1 2 3,
   QuadRoundM 3 0xc67178f2bef9a3f7 0xa4506ceb90befffa]"

text \<open>The vectors \<open>m0\<close> to \<open>m3\<close> are assigned before they are read.\<close>

definition ni_unset :: "vec list" where
  "ni_unset = replicate 4 (replicate 4 0)"

fun shani_blocks :: "ni_regs \<Rightarrow> bytes \<Rightarrow> nat \<Rightarrow> ni_regs" where
  "shani_blocks s chunk 0 = s"
| "shani_blocks s chunk (Suc blocks) =
     (let ((s0, s1), m) = ni_run chunk shani_lines (s, ni_unset);
          s0 = mm_add_epi32 s0 (fst s);
          s1 = mm_add_epi32 s1 (snd s)
      in shani_blocks (s0, s1) (drop 64 chunk) blocks)"

definition shani_Transform :: "32 word list \<Rightarrow> bytes \<Rightarrow> nat \<Rightarrow> 32 word list" where
  "shani_Transform s chunk blocks =
     (let s0 = take 4 s; s1 = take 4 (drop 4 s);
          (s0, s1) = shani_Unshuffle (shani_blocks (shani_Shuffle (s0, s1)) chunk blocks)
      in s0 @ s1)"

subsection \<open>\<open>Transform_2way\<close>\<close>

text \<open>The statements on the variables \<open>as0\<close>, \<open>as1\<close>, \<open>am0\<close>, ... and on \<open>bs0\<close>, \<open>bs1\<close>, \<open>bm0\<close>, ... alternate.\<close>

datatype way = WayA | WayB

fun way_step :: "bytes \<Rightarrow> way \<times> ni_stmt \<Rightarrow> ni_state \<times> ni_state \<Rightarrow> ni_state \<times> ni_state" where
  "way_step inp (WayA, st) (a, b) = (ni_step inp st a, b)"
| "way_step inp (WayB, st) (a, b) = (a, ni_step inp st b)"

definition ways_lines1 :: "(way \<times> ni_stmt) list" where
  "ways_lines1 =
  [(WayA, LoadM 0 0),
   (WayB, LoadM 0 64),
   (WayA, QuadRoundM 0 0xe9b5dba5b5c0fbcf 0x71374491428a2f98),
   (WayB, QuadRoundM 0 0xe9b5dba5b5c0fbcf 0x71374491428a2f98),
   (WayA, LoadM 1 16),
   (WayB, LoadM 1 80),
   (WayA, QuadRoundM 1 0xab1c5ed5923f82a4 0x59f111f13956c25b),
   (WayB, QuadRoundM 1 0xab1c5ed5923f82a4 0x59f111f13956c25b),
   (WayA, ShiftMessageA 0 1),
   (WayB, ShiftMessageA 0 1),
   (WayA, LoadM 2 32),
   (WayB, LoadM 2 96),
   (WayA, QuadRoundM 2 0x550c7dc3243185be 0x12835b01d807aa98),
   (WayB, QuadRoundM 2 0x550c7dc3243185be 0x12835b01d807aa98),
   (WayA, ShiftMessageA 1 2),
   (WayB, ShiftMessageA 1 2),
   (WayA, LoadM 3 48),
   (WayB, LoadM 3 112),
   (WayA, QuadRoundM 3 0xc19bf1749bdc06a7 0x80deb1fe72be5d74),
   (WayB, QuadRoundM 3 0xc19bf1749bdc06a7 0x80deb1fe72be5d74),
   (WayA, ShiftMessageB 2 3 0),
   (WayB, ShiftMessageB 2 3 0),
   (WayA, QuadRoundM 0 0x240ca1cc0fc19dc6 0xefbe4786e49b69c1),
   (WayB, QuadRoundM 0 0x240ca1cc0fc19dc6 0xefbe4786e49b69c1),
   (WayA, ShiftMessageB 3 0 1),
   (WayB, ShiftMessageB 3 0 1),
   (WayA, QuadRoundM 1 0x76f988da5cb0a9dc 0x4a7484aa2de92c6f),
   (WayB, QuadRoundM 1 0x76f988da5cb0a9dc 0x4a7484aa2de92c6f),
   (WayA, ShiftMessageB 0 1 2),
   (WayB, ShiftMessageB 0 1 2),
   (WayA, QuadRoundM 2 0xbf597fc7b00327c8 0xa831c66d983e5152),
   (WayB, QuadRoundM 2 0xbf597fc7b00327c8 0xa831c66d983e5152),
   (WayA, ShiftMessageB 1 2 3),
   (WayB, ShiftMessageB 1 2 3),
   (WayA, QuadRoundM 3 0x1429296706ca6351 0xd5a79147c6e00bf3),
   (WayB, QuadRoundM 3 0x1429296706ca6351 0xd5a79147c6e00bf3),
   (WayA, ShiftMessageB 2 3 0),
   (WayB, ShiftMessageB 2 3 0),
   (WayA, QuadRoundM 0 0x53380d134d2c6dfc 0x2e1b213827b70a85),
   (WayB, QuadRoundM 0 0x53380d134d2c6dfc 0x2e1b213827b70a85),
   (WayA, ShiftMessageB 3 0 1),
   (WayB, ShiftMessageB 3 0 1),
   (WayA, QuadRoundM 1 0x92722c8581c2c92e 0x766a0abb650a7354),
   (WayB, QuadRoundM 1 0x92722c8581c2c92e 0x766a0abb650a7354),
   (WayA, ShiftMessageB 0 1 2),
   (WayB, ShiftMessageB 0 1 2),
   (WayA, QuadRoundM 2 0xc76c51a3c24b8b70 0xa81a664ba2bfe8a1),
   (WayB, QuadRoundM 2 0xc76c51a3c24b8b70 0xa81a664ba2bfe8a1),
   (WayA, ShiftMessageB 1 2 3),
   (WayB, ShiftMessageB 1 2 3),
   (WayA, QuadRoundM 3 0x106aa070f40e3585 0xd6990624d192e819),
   (WayB, QuadRoundM 3 0x106aa070f40e3585 0xd6990624d192e819),
   (WayA, ShiftMessageB 2 3 0),
   (WayB, ShiftMessageB 2 3 0),
   (WayA, QuadRoundM 0 0x34b0bcb52748774c 0x1e376c0819a4c116),
   (WayB, QuadRoundM 0 0x34b0bcb52748774c 0x1e376c0819a4c116),
   (WayA, ShiftMessageB 3 0 1),
   (WayB, ShiftMessageB 3 0 1),
   (WayA, QuadRoundM 1 0x682e6ff35b9cca4f 0x4ed8aa4a391c0cb3),
   (WayB, QuadRoundM 1 0x682e6ff35b9cca4f 0x4ed8aa4a391c0cb3),
   (WayA, ShiftMessageC 0 1 2),
   (WayB, ShiftMessageC 0 1 2),
   (WayA, QuadRoundM 2 0x8cc7020884c87814 0x78a5636f748f82ee),
   (WayB, QuadRoundM 2 0x8cc7020884c87814 0x78a5636f748f82ee),
   (WayA, ShiftMessageC 1 2 3),
   (WayB, ShiftMessageC 1 2 3),
   (WayA, QuadRoundM 3 0xc67178f2bef9a3f7 0xa4506ceb90befffa),
   (WayB, QuadRoundM 3 0xc67178f2bef9a3f7 0xa4506ceb90befffa)]"

definition ways_lines2 :: "(way \<times> ni_stmt) list" where
  "ways_lines2 =
  [(WayA, QuadRoundK 0xe9b5dba5b5c0fbcf 0x71374491c28a2f98),
   (WayB, QuadRoundK 0xe9b5dba5b5c0fbcf 0x71374491c28a2f98),
   (WayA, QuadRoundK 0xab1c5ed5923f82a4 0x59f111f13956c25b),
   (WayB, QuadRoundK 0xab1c5ed5923f82a4 0x59f111f13956c25b),
   (WayA, QuadRoundK 0x550c7dc3243185be 0x12835b01d807aa98),
   (WayB, QuadRoundK 0x550c7dc3243185be 0x12835b01d807aa98),
   (WayA, QuadRoundK 0xc19bf3749bdc06a7 0x80deb1fe72be5d74),
   (WayB, QuadRoundK 0xc19bf3749bdc06a7 0x80deb1fe72be5d74),
   (WayA, QuadRoundK 0x240cf2540fe1edc6 0xf0fe4786649b69c1),
   (WayB, QuadRoundK 0x240cf2540fe1edc6 0xf0fe4786649b69c1),
   (WayA, QuadRoundK 0x16f988fa61b9411e 0x6cc984be4fe9346f),
   (WayB, QuadRoundK 0x16f988fa61b9411e 0x6cc984be4fe9346f),
   (WayA, QuadRoundK 0xb9d99ec7b019fc65 0xa88e5a6df2c65152),
   (WayB, QuadRoundK 0xb9d99ec7b019fc65 0xa88e5a6df2c65152),
   (WayA, QuadRoundK 0xc7353eb0fdb1232b 0xe70eeaa09a1231c3),
   (WayB, QuadRoundK 0xc7353eb0fdb1232b 0xe70eeaa09a1231c3),
   (WayA, QuadRoundK 0xdc1eeefd5a0f118f 0xcb976d5f3069bad5),
   (WayB, QuadRoundK 0xdc1eeefd5a0f118f 0xcb976d5f3069bad5),
   (WayA, QuadRoundK 0xe15d5b1658f4ca9d 0xde0b7a040a35b689),
   (WayB, QuadRoundK 0xe15d5b1658f4ca9d 0xde0b7a040a35b689),
   (WayA, QuadRoundK 0x6fab9537a507ea32 0x37088980007f3e86),
   (WayB, QuadRoundK 0x6fab9537a507ea32 0x37088980007f3e86),
   (WayA, QuadRoundK 0xc0bbbe37cdaa3b6d 0x0d8cd6f117406110),
   (WayB, QuadRoundK 0xc0bbbe37cdaa3b6d 0x0d8cd6f117406110),
   (WayA, QuadRoundK 0x6fd15ca70b02e931 0xdb48a36383613bda),
   (WayB, QuadRoundK 0x6fd15ca70b02e931 0xdb48a36383613bda),
   (WayA, QuadRoundK 0x6d4378906ed41a95 0x31338431521afaca),
   (WayB, QuadRoundK 0x6d4378906ed41a95 0x31338431521afaca),
   (WayA, QuadRoundK 0x532fb63cb5c9a0e6 0x9eccabbdc39c91f2),
   (WayB, QuadRoundK 0x532fb63cb5c9a0e6 0x9eccabbdc39c91f2),
   (WayA, QuadRoundK 0x4c191d76a4954b68 0x07237ea3d2c741c6),
   (WayB, QuadRoundK 0x4c191d76a4954b68 0x07237ea3d2c741c6)]"

definition ways_lines3 :: "(way \<times> ni_stmt) list" where
  "ways_lines3 =
  [(WayA, QuadRoundM 0 0xe9b5dba5b5c0fbcf 0x71374491428a2f98),
   (WayB, QuadRoundM 0 0xe9b5dba5b5c0fbcf 0x71374491428a2f98),
   (WayA, QuadRoundM 1 0xab1c5ed5923f82a4 0x59f111f13956c25b),
   (WayB, QuadRoundM 1 0xab1c5ed5923f82a4 0x59f111f13956c25b),
   (WayA, ShiftMessageA 0 1),
   (WayB, ShiftMessageA 0 1),
   (WayA, SetM 2 0x0 0x80000000),
   (WayB, SetM 2 0x0 0x80000000),
   (WayA, QuadRoundK 0x550c7dc3243185be 0x12835b015807aa98),
   (WayB, QuadRoundK 0x550c7dc3243185be 0x12835b015807aa98),
   (WayA, ShiftMessageA 1 2),
   (WayB, ShiftMessageA 1 2),
   (WayA, SetM 3 0x10000000000 0x0),
   (WayB, SetM 3 0x10000000000 0x0),
   (WayA, QuadRoundK 0xc19bf2749bdc06a7 0x80deb1fe72be5d74),
   (WayB, QuadRoundK 0xc19bf2749bdc06a7 0x80deb1fe72be5d74),
   (WayA, ShiftMessageB 2 3 0),
   (WayB, ShiftMessageB 2 3 0),
   (WayA, QuadRoundM 0 0x240ca1cc0fc19dc6 0xefbe4786e49b69c1),
   (WayB, QuadRoundM 0 0x240ca1cc0fc19dc6 0xefbe4786e49b69c1),
   (WayA, ShiftMessageB 3 0 1),
   (WayB, ShiftMessageB 3 0 1),
   (WayA, QuadRoundM 1 0x76f988da5cb0a9dc 0x4a7484aa2de92c6f),
   (WayB, QuadRoundM 1 0x76f988da5cb0a9dc 0x4a7484aa2de92c6f),
   (WayA, ShiftMessageB 0 1 2),
   (WayB, ShiftMessageB 0 1 2),
   (WayA, QuadRoundM 2 0xbf597fc7b00327c8 0xa831c66d983e5152),
   (WayB, QuadRoundM 2 0xbf597fc7b00327c8 0xa831c66d983e5152),
   (WayA, ShiftMessageB 1 2 3),
   (WayB, ShiftMessageB 1 2 3),
   (WayA, QuadRoundM 3 0x1429296706ca6351 0xd5a79147c6e00bf3),
   (WayB, QuadRoundM 3 0x1429296706ca6351 0xd5a79147c6e00bf3),
   (WayA, ShiftMessageB 2 3 0),
   (WayB, ShiftMessageB 2 3 0),
   (WayA, QuadRoundM 0 0x53380d134d2c6dfc 0x2e1b213827b70a85),
   (WayB, QuadRoundM 0 0x53380d134d2c6dfc 0x2e1b213827b70a85),
   (WayA, ShiftMessageB 3 0 1),
   (WayB, ShiftMessageB 3 0 1),
   (WayA, QuadRoundM 1 0x92722c8581c2c92e 0x766a0abb650a7354),
   (WayB, QuadRoundM 1 0x92722c8581c2c92e 0x766a0abb650a7354),
   (WayA, ShiftMessageB 0 1 2),
   (WayB, ShiftMessageB 0 1 2),
   (WayA, QuadRoundM 2 0xc76c51a3c24b8b70 0xa81a664ba2bfe8a1),
   (WayB, QuadRoundM 2 0xc76c51a3c24b8b70 0xa81a664ba2bfe8a1),
   (WayA, ShiftMessageB 1 2 3),
   (WayB, ShiftMessageB 1 2 3),
   (WayA, QuadRoundM 3 0x106aa070f40e3585 0xd6990624d192e819),
   (WayB, QuadRoundM 3 0x106aa070f40e3585 0xd6990624d192e819),
   (WayA, ShiftMessageB 2 3 0),
   (WayB, ShiftMessageB 2 3 0),
   (WayA, QuadRoundM 0 0x34b0bcb52748774c 0x1e376c0819a4c116),
   (WayB, QuadRoundM 0 0x34b0bcb52748774c 0x1e376c0819a4c116),
   (WayA, ShiftMessageB 3 0 1),
   (WayB, ShiftMessageB 3 0 1),
   (WayA, QuadRoundM 1 0x682e6ff35b9cca4f 0x4ed8aa4a391c0cb3),
   (WayB, QuadRoundM 1 0x682e6ff35b9cca4f 0x4ed8aa4a391c0cb3),
   (WayA, ShiftMessageC 0 1 2),
   (WayB, ShiftMessageC 0 1 2),
   (WayA, QuadRoundM 2 0x8cc7020884c87814 0x78a5636f748f82ee),
   (WayB, QuadRoundM 2 0x8cc7020884c87814 0x78a5636f748f82ee),
   (WayA, ShiftMessageC 1 2 3),
   (WayB, ShiftMessageC 1 2 3),
   (WayA, QuadRoundM 3 0xc67178f2bef9a3f7 0xa4506ceb90befffa),
   (WayB, QuadRoundM 3 0xc67178f2bef9a3f7 0xa4506ceb90befffa)]"

definition shani_Transform_2way :: "bytes \<Rightarrow> bytes \<Rightarrow> bytes" where
  "shani_Transform_2way out inp =
     (let init = (INIT0, INIT1);
          (((as0, as1), am), ((bs0, bs1), bm)) =
            fold (way_step inp) ways_lines1 ((init, ni_unset), (init, ni_unset));
          aso0 = mm_add_epi32 as0 INIT0;
          bso0 = mm_add_epi32 bs0 INIT0;
          aso1 = mm_add_epi32 as1 INIT1;
          bso1 = mm_add_epi32 bs1 INIT1;
          (((as0, as1), am), ((bs0, bs1), bm)) =
            fold (way_step inp) ways_lines2 (((aso0, aso1), am), ((bso0, bso1), bm));
          as0 = mm_add_epi32 as0 aso0;
          bs0 = mm_add_epi32 bs0 bso0;
          as1 = mm_add_epi32 as1 aso1;
          bs1 = mm_add_epi32 bs1 bso1;
          (am0, am1) = shani_Unshuffle (as0, as1);
          (bm0, bm1) = shani_Unshuffle (bs0, bs1);
          (((as0, as1), am), ((bs0, bs1), bm)) =
            fold (way_step inp) ways_lines3 ((init, am[0 := am0, 1 := am1]), (init, bm[0 := bm0, 1 := bm1]));
          as0 = mm_add_epi32 as0 INIT0;
          bs0 = mm_add_epi32 bs0 INIT0;
          as1 = mm_add_epi32 as1 INIT1;
          bs1 = mm_add_epi32 bs1 INIT1;
          (as0, as1) = shani_Unshuffle (as0, as1);
          (bs0, bs1) = shani_Unshuffle (bs0, bs1);
          out = shani_Save out 0 as0;
          out = shani_Save out 16 as1;
          out = shani_Save out 32 bs0;
          out = shani_Save out 48 bs1
      in out)"

section \<open>Vectors of words\<close>

lemma MASK_swap: "MASK = swap_mask"
  by (simp add: MASK_def swap_mask_def mm_set_epi64x_def)

lemma mm_add_4 [simp]: "mm_add_epi32 [a, b, c, d] [a', b', c', d'] = [a + a', b + b', c + c', d + d']"
  by (simp add: mm_add_epi32_def)

lemma chunks_2: "chunks 2 (WriteLE32 x @ bs) = take 2 (WriteLE32 x) # drop 2 (WriteLE32 x) # chunks 2 bs"
proof -
  obtain a b c d where "WriteLE32 x = [a, b, c, d]" using WriteLE32_bytes by blast
  moreover have "chunks 2 (x # y # bs) = [x, y] # chunks 2 bs" for x y bs
    by (simp add: chunks.simps [of 2 "x # _"])
  ultimately show ?thesis by simp
qed

lemma chunks_2_end: "chunks 2 (WriteLE32 x) = [take 2 (WriteLE32 x), drop 2 (WriteLE32 x)]"
  using chunks_2 [of x "[]"] by (simp add: chunks_short)

lemma alignr_8: "mm_alignr_epi8 [a0, a1, a2, a3] [b0, b1, b2, b3] 8 = [b2, b3, a0, a1]"
proof -
  have "take 16 (drop 8 (vec_bytes [b0, b1, b2, b3] @ vec_bytes [a0, a1, a2, a3])) = vec_bytes [b2, b3, a0, a1]"
    by (simp add: take_Cons')
  then show ?thesis by (simp only: mm_alignr_epi8_def bytes_vec_bytes)
qed

lemma alignr_4: "mm_alignr_epi8 [a0, a1, a2, a3] [b0, b1, b2, b3] 4 = [b1, b2, b3, a0]"
proof -
  have "take 16 (drop 4 (vec_bytes [b0, b1, b2, b3] @ vec_bytes [a0, a1, a2, a3])) = vec_bytes [b1, b2, b3, a0]"
    by simp
  then show ?thesis by (simp only: mm_alignr_epi8_def bytes_vec_bytes)
qed

lemma halves: "take 2 (WriteLE32 x) @ drop 2 (WriteLE32 x) @ bs = WriteLE32 x @ bs"
  by (simp flip: append_assoc)

lemma blend_high: "mm_blend_epi16 [a0, a1, a2, a3] [b0, b1, b2, b3] 0xF0 = [a0, a1, b2, b3]"
proof -
  have "concat (map (\<lambda>i. if bit (0xF0 :: nat) i then chunks 2 (vec_bytes [b0, b1, b2, b3]) ! i
      else chunks 2 (vec_bytes [a0, a1, a2, a3]) ! i) [0, 1, 2, 3, 4, 5, 6, 7]) = vec_bytes [a0, a1, b2, b3]"
    by (simp add: chunks_2 chunks_2_end halves bit_iff_odd)
  then show ?thesis by (simp only: mm_blend_epi16_def bytes_vec_bytes)
qed

lemma Shuffle_words:
  "shani_Shuffle ([a, b, c, d], [e, f, g, h]) = ([f, e, b, a], [h, g, d, c])"
  "shani_Unshuffle ([f, e, b, a], [h, g, d, c]) = ([a, b, c, d], [e, f, g, h])"
  by (simp_all add: shani_Shuffle_def shani_Unshuffle_def mm_shuffle_epi32_def alignr_8 blend_high)

section \<open>Four rounds\<close>

abbreviation rounds :: "32 word list \<Rightarrow> 32 word list \<Rightarrow> 32 word list" where
  "rounds \<equiv> foldl (\<lambda>v kw. compress_step fips256_fns kw v)"

definition ni_rep :: "32 word list \<Rightarrow> ni_regs" where
  "ni_rep s = ([s ! 5, s ! 4, s ! 1, s ! 0], [s ! 7, s ! 6, s ! 3, s ! 2])"

lemma length_rounds: "length v = 8 \<Longrightarrow> length (rounds v kws) = 8"
proof (induction kws arbitrary: v)
  case (Cons kw kws)
  then show ?case using list_8 [OF Cons.prems] by (auto simp: Let_def)
qed simp

lemma Quad_rounds:
  assumes "length v = 8"
  shows "shani_Quad [k0, k1, k2, k3] (ni_rep v) = ni_rep (rounds v [k0, k1, k2, k3])"
proof -
  obtain a b c d e f g h where v: "v = [a, b, c, d, e, f, g, h]" using list_8 [OF assms] by blast
  show ?thesis
    by (simp add: v ni_rep_def shani_Quad_def mm_sha256rnds2_epu32_def mm_shuffle_epi32_def Let_def)
qed

section \<open>The schedule\<close>

text \<open>
  Four words of the schedule of a chunk, the same with \<open>sigma0\<close> of the next words added, and the
  summands of four rounds.
\<close>

abbreviation sched :: "bytes \<Rightarrow> nat \<Rightarrow> 32 word" where
  "sched \<equiv> schedule fips256_fns"

definition w4 :: "bytes \<Rightarrow> nat \<Rightarrow> vec" where
  "w4 chunk j = map (\<lambda>i. sched chunk (4 * j + i)) [0, 1, 2, 3]"

definition w4s :: "bytes \<Rightarrow> nat \<Rightarrow> vec" where
  "w4s chunk j = map (\<lambda>i. sched chunk (4 * j + i) + sigma0 fips256_fns (sched chunk (4 * j + i + 1))) [0, 1, 2, 3]"

definition kw4 :: "bytes \<Rightarrow> nat \<Rightarrow> 32 word list" where
  "kw4 chunk j = map (\<lambda>i. fips256_K (4 * j + i) + sched chunk (4 * j + i)) [0, 1, 2, 3]"

lemma msg1_w4: "mm_sha256msg1_epu32 (w4 chunk j) (w4 chunk (Suc j)) = w4s chunk j"
  by (simp add: mm_sha256msg1_epu32_def w4_def w4s_def eval_nat_numeral)

lemma msg2_w4: "shani_ShiftC (w4 chunk (j + 2)) (w4 chunk (j + 3)) (w4s chunk j) = w4 chunk (j + 4)"
proof -
  have s: "sched chunk (16 + t) = sigma1 fips256_fns (sched chunk (14 + t)) + sched chunk (9 + t) +
      sigma0 fips256_fns (sched chunk (1 + t)) + sched chunk t" for t
    by (subst schedule.simps) simp
  show ?thesis
    unfolding shani_ShiftC_def w4_def w4s_def list.map alignr_4
    using s [of "4 * j"] s [of "4 * j + 1"] s [of "4 * j + 2"] s [of "4 * j + 3"]
    by (simp add: mm_sha256msg2_epu32_def Let_def algebra_simps)
qed

lemma kw4_rounds:
  "rounds v (concat (map (kw4 chunk) [0..<n])) = foldl (\<lambda>v t. compress_step fips256_fns (fips256_K t + sched chunk t) v) v [0..<4 * n]"
proof (induction n)
  case (Suc n)
  have "[0..<4 * Suc n] = [0..<4 * n] @ [4 * n, 4 * n + 1, 4 * n + 2, 4 * n + 3]"
  proof -
    have "4 * Suc n = Suc (Suc (Suc (Suc (4 * n))))" by simp
    then show ?thesis by (simp only: upt_Suc) (simp add: numeral_3_eq_3)
  qed
  then show ?case using Suc by (simp add: kw4_def)
qed simp

text \<open>The constants of the rounds, and the summands of a \<open>QuadRound\<close>.\<close>

lemma K_list: "map fips256_K [0..<64] = map (\<lambda>(rs, k, op). k) sha256_lines"
  by (rule nth_equalityI) (auto simp: case_prod_unfold sha256_K)

definition k4 :: "nat \<Rightarrow> vec" where
  "k4 j = map (\<lambda>i. fips256_K (4 * j + i)) [0, 1, 2, 3]"

lemma k4_nth:
  assumes "j < 16"
  shows "k4 j = take 4 (drop (4 * j) (map (\<lambda>(rs, k, op). k) sha256_lines))"
proof -
  have "take 4 (drop (4 * j) (map fips256_K [0..<64])) = k4 j"
    using assms by (intro nth_equalityI) (auto simp: k4_def less_Suc_eq eval_nat_numeral)
  then show ?thesis by (simp add: K_list)
qed

lemma k4_words: "mm_add_epi32 (w4 chunk j) (k4 j) = kw4 chunk j"
  by (simp add: w4_def k4_def kw4_def add.commute)

section \<open>One block\<close>

text \<open>The vectors are the words of the schedule; \<open>K j\<close> are the constants of the statements.\<close>

lemma k4_consts:
  "k4 0 = [0x428a2f98, 0x71374491, 0xb5c0fbcf, 0xe9b5dba5]" "k4 1 = [0x3956c25b, 0x59f111f1, 0x923f82a4, 0xab1c5ed5]"
  "k4 2 = [0xd807aa98, 0x12835b01, 0x243185be, 0x550c7dc3]" "k4 3 = [0x72be5d74, 0x80deb1fe, 0x9bdc06a7, 0xc19bf174]"
  "k4 4 = [0xe49b69c1, 0xefbe4786, 0x0fc19dc6, 0x240ca1cc]" "k4 5 = [0x2de92c6f, 0x4a7484aa, 0x5cb0a9dc, 0x76f988da]"
  "k4 6 = [0x983e5152, 0xa831c66d, 0xb00327c8, 0xbf597fc7]" "k4 7 = [0xc6e00bf3, 0xd5a79147, 0x06ca6351, 0x14292967]"
  "k4 8 = [0x27b70a85, 0x2e1b2138, 0x4d2c6dfc, 0x53380d13]" "k4 9 = [0x650a7354, 0x766a0abb, 0x81c2c92e, 0x92722c85]"
  "k4 10 = [0xa2bfe8a1, 0xa81a664b, 0xc24b8b70, 0xc76c51a3]" "k4 11 = [0xd192e819, 0xd6990624, 0xf40e3585, 0x106aa070]"
  "k4 12 = [0x19a4c116, 0x1e376c08, 0x2748774c, 0x34b0bcb5]" "k4 13 = [0x391c0cb3, 0x4ed8aa4a, 0x5b9cca4f, 0x682e6ff3]"
  "k4 14 = [0x748f82ee, 0x78a5636f, 0x84c87814, 0x8cc70208]" "k4 15 = [0x90befffa, 0xa4506ceb, 0xbef9a3f7, 0xc67178f2]"
  by (simp_all add: k4_nth sha256_lines_def)

text \<open>The vector of two constants of 64 bits, in the form of the sources.\<close>

lemma set_k4:
  "mm_set_epi64x 0xe9b5dba5b5c0fbcf 0x71374491428a2f98 = k4 0" "mm_set_epi64x 0xab1c5ed5923f82a4 0x59f111f13956c25b = k4 1"
  "mm_set_epi64x 0x550c7dc3243185be 0x12835b01d807aa98 = k4 2" "mm_set_epi64x 0xc19bf1749bdc06a7 0x80deb1fe72be5d74 = k4 3"
  "mm_set_epi64x 0x240ca1cc0fc19dc6 0xefbe4786e49b69c1 = k4 4" "mm_set_epi64x 0x76f988da5cb0a9dc 0x4a7484aa2de92c6f = k4 5"
  "mm_set_epi64x 0xbf597fc7b00327c8 0xa831c66d983e5152 = k4 6" "mm_set_epi64x 0x1429296706ca6351 0xd5a79147c6e00bf3 = k4 7"
  "mm_set_epi64x 0x53380d134d2c6dfc 0x2e1b213827b70a85 = k4 8" "mm_set_epi64x 0x92722c8581c2c92e 0x766a0abb650a7354 = k4 9"
  "mm_set_epi64x 0xc76c51a3c24b8b70 0xa81a664ba2bfe8a1 = k4 10" "mm_set_epi64x 0x106aa070f40e3585 0xd6990624d192e819 = k4 11"
  "mm_set_epi64x 0x34b0bcb52748774c 0x1e376c0819a4c116 = k4 12" "mm_set_epi64x 0x682e6ff35b9cca4f 0x4ed8aa4a391c0cb3 = k4 13"
  "mm_set_epi64x 0x8cc7020884c87814 0x78a5636f748f82ee = k4 14" "mm_set_epi64x 0xc67178f2bef9a3f7 0xa4506ceb90befffa = k4 15"
  by (simp_all only: k4_consts) (simp_all add: mm_set_epi64x_def)

lemma kw4_list: "\<exists>a b c d. kw4 chunk j = [a, b, c, d]"
  by (simp add: kw4_def)

lemma QuadRound_kw4:
  "mm_set_epi64x k1 k0 = k4 j \<Longrightarrow> length v = 8 \<Longrightarrow>
    QuadRound_m (w4 chunk j) k1 k0 (ni_rep v) = ni_rep (rounds v (kw4 chunk j))"
  using kw4_list [of chunk j] by (auto simp: QuadRound_m_def k4_words Quad_rounds)

lemma shift_w4:
  "j' = Suc j \<Longrightarrow> mm_sha256msg1_epu32 (w4 chunk j) (w4 chunk j') = w4s chunk j"
  "i = j + 2 \<Longrightarrow> i' = j + 3 \<Longrightarrow> shani_ShiftC (w4 chunk i) (w4 chunk i') (w4s chunk j) = w4 chunk (j + 4)"
  by (simp_all only: msg1_w4 msg2_w4)

lemma Load_w4:
  assumes "64 \<le> length chunk" and "j < 4" and "pos = 16 * j"
  shows "shani_Load (drop pos chunk) = w4 chunk j"
proof -
  have "take 16 (drop pos chunk) = vec_bytes (bytes_vec (take 16 (drop pos chunk)))"
    using assms by (intro bytes_are_vec) simp
  have "length (take 16 (drop pos chunk)) = 16" using assms by simp
  have le: "bytes_vec (take 16 bs) = map (\<lambda>i. word_of_nat (le_value (take 4 (drop (4 * i) bs)))) [0, 1, 2, 3]"
    if "16 \<le> length bs" for bs
    using that by (simp add: bytes_vec_def chunks.simps [of 4] drop_take take_Cons')
  have "bytes_vec (take 16 (drop pos chunk)) = map (\<lambda>i. word_of_nat (le_value (take 4 (drop (4 * i + pos) chunk)))) [0, 1, 2, 3]"
    using le [of "drop pos chunk"] assms by (simp add: add.commute)
  moreover have "swap32 (word_of_nat (le_value (take 4 (drop (4 * i + pos) chunk)))) = sched chunk (4 * j + i)" if "i < 4" for i
    using swap_word_at [of "4 * i + pos" chunk] assms that by (simp add: schedule.simps [of _ chunk] algebra_simps)
  note this [of 0] this [of 1] this [of 2] this [of 3]
  ultimately show ?thesis
    by (simp add: shani_Load_def mm_loadu_si128_def MASK_swap mm_shuffle_epi8_swap4 w4_def)
qed

lemma list_update_numeral [simp]:
  "(x # xs)[numeral k := y] = x # xs[pred_numeral k := y]"
  unfolding numeral_eq_Suc [of k] by (rule list_update.simps(2) [THEN trans]) simp

lemma Loads_w4:
  assumes "64 \<le> length chunk"
  shows "shani_Load chunk = w4 chunk 0" "shani_Load (drop 16 chunk) = w4 chunk 1"
    "shani_Load (drop 32 chunk) = w4 chunk 2" "shani_Load (drop 48 chunk) = w4 chunk 3"
  using Load_w4 [OF assms, of 0] Load_w4 [OF assms, of 1] Load_w4 [OF assms, of 2] Load_w4 [OF assms, of 3] by simp_all

lemma ni_unset_list: "ni_unset = [replicate 4 0, replicate 4 0, replicate 4 0, replicate 4 0]"
  by (simp add: ni_unset_def eval_nat_numeral)

lemma upt_16: "[0..<16] = [0, 1, 2, 3, 4, 5, 6, 7, 8, 9, 10, 11, 12, 13, 14, 15 :: nat]"
  by (simp add: upt_rec)

lemma shani_block_rounds:
  assumes "64 \<le> length chunk" and "length v = 8"
  shows "fst (ni_run chunk shani_lines (ni_rep v, ni_unset)) = ni_rep (rounds v (concat (map (kw4 chunk) [0..<16])))"
  unfolding upt_16 using assms
  by (simp add: shani_lines_def ni_run_def ni_unset_list shift_w4 Loads_w4 QuadRound_kw4 set_k4 length_rounds Let_def)

text \<open>The schedule uses the first 64 bytes only.\<close>

lemma sched_take: "sched (take 64 chunk) t = sched chunk t"
proof (induction t rule: less_induct)
  case (less t)
  have "take 4 (drop (4 * t) (take 64 chunk)) = take 4 (drop (4 * t) chunk)" if "t < 16"
    using that by (simp add: drop_take)
  then show ?case
    using less by (subst (1 2) schedule.simps) (simp add: word_at_def)
qed

lemma block_rounds:
  assumes "length v = 8"
  shows "sha256_block v (take 64 chunk) = map2 (+) v (rounds v (concat (map (kw4 chunk) [0..<16])))"
  using kw4_rounds [of v chunk 16]
  by (simp add: sha256_block_fips [OF assms] sha2_compress_def sched_take)

text \<open>Sums of the vectors of two states.\<close>

lemma ni_rep_add:
  assumes "length u = 8" and "length v = 8"
  shows "(mm_add_epi32 (fst (ni_rep u)) (fst (ni_rep v)), mm_add_epi32 (snd (ni_rep u)) (snd (ni_rep v))) =
    ni_rep (map2 (+) v u)"
  using list_8 [OF assms(1)] list_8 [OF assms(2)] by (auto simp: ni_rep_def add.commute)

lemma shani_blocks_rep:
  "length v = 8 \<Longrightarrow> 64 * n \<le> length chunk \<Longrightarrow> shani_blocks (ni_rep v) chunk n = ni_rep (sha256_Transform v chunk n)"
proof (induction n arbitrary: v chunk)
  case (Suc n)
  let ?u = "rounds v (concat (map (kw4 chunk) [0..<16]))"
  obtain s0 s1 m where r: "ni_run chunk shani_lines (ni_rep v, ni_unset) = ((s0, s1), m)" by (metis prod.exhaust)
  have "(s0, s1) = ni_rep ?u" using shani_block_rounds [of chunk v] Suc.prems r by simp
  then have "(mm_add_epi32 s0 (fst (ni_rep v)), mm_add_epi32 s1 (snd (ni_rep v))) = ni_rep (map2 (+) v ?u)"
    using ni_rep_add [OF length_rounds [OF Suc.prems(1)] Suc.prems(1)] by (metis fst_conv snd_conv)
  then show ?case
    using Suc.prems Suc.IH [of "sha256_block v (take 64 chunk)" "drop 64 chunk"]
    by (simp add: r block_rounds [OF Suc.prems(1)] length_rounds)
qed simp

theorem shani_Transform_standard:
  assumes "length s = 8" and "64 * blocks \<le> length chunk"
  shows "shani_Transform s chunk blocks = sha256_Transform s chunk blocks"
proof -
  obtain a b c d e f g h where s: "s = [a, b, c, d, e, f, g, h]" using list_8 [OF assms(1)] by blast
  have "length (sha256_Transform v chunk' n) = 8" if "length v = 8" for v chunk' n
    using that by (induction n arbitrary: v chunk') simp_all
  then obtain a' b' c' d' e' f' g' h' where t: "sha256_Transform s chunk blocks = [a', b', c', d', e', f', g', h']"
    using list_8 assms(1) by blast
  have "shani_Shuffle (take 4 s, take 4 (drop 4 s)) = ni_rep s" by (simp add: s Shuffle_words ni_rep_def)
  moreover have "shani_Unshuffle (ni_rep (sha256_Transform s chunk blocks)) = ([a', b', c', d'], [e', f', g', h'])"
    by (simp add: t Shuffle_words ni_rep_def)
  ultimately show ?thesis
    using shani_blocks_rep [OF assms] by (simp add: shani_Transform_def t)
qed

section \<open>Two blocks\<close>

text \<open>The statements of the two ways do not share variables.\<close>

definition statements :: "way \<Rightarrow> (way \<times> ni_stmt) list \<Rightarrow> ni_stmt list" where
  "statements w prog = map snd (filter (\<lambda>st. fst st = w) prog)"

lemma ways_split:
  "fold (way_step inp) prog (a, b) = (ni_run inp (statements WayA prog) a, ni_run inp (statements WayB prog) b)"
proof (induction prog arbitrary: a b)
  case (Cons st prog)
  then show ?case by (cases st; cases "fst st") (auto simp: statements_def ni_run_def)
qed (simp add: statements_def ni_run_def)

fun from_second :: "ni_stmt \<Rightarrow> ni_stmt" where
  "from_second (LoadM i pos) = LoadM i (64 + pos)"
| "from_second st = st"

lemma ni_step_second: "ni_step inp (from_second st) s = ni_step (drop 64 inp) st s"
  by (cases s; cases st) (simp_all add: add.commute)

lemma ni_run_second: "ni_run inp (map from_second prog) s = ni_run (drop 64 inp) prog s"
  by (induction prog arbitrary: s) (simp_all add: ni_run_def ni_step_second)

lemma ways_tables:
  "statements WayA ways_lines1 = shani_lines" "statements WayB ways_lines1 = map from_second shani_lines"
  "statements WayB ways_lines2 = map from_second (statements WayA ways_lines2)"
  "statements WayB ways_lines3 = map from_second (statements WayA ways_lines3)"
  by (simp_all add: statements_def ways_lines1_def ways_lines2_def ways_lines3_def shani_lines_def)

lemma length_ni_run: "length (snd (ni_run inp prog s)) = length (snd s)"
proof -
  have "length (snd (ni_step inp st s)) = length (snd s)" for st s
    by (cases s; cases st) (simp_all add: Let_def)
  then show ?thesis by (induction prog arbitrary: s) (simp_all add: ni_run_def)
qed

text \<open>One way on its own.\<close>

definition one_way :: "bytes \<Rightarrow> ni_regs" where
  "one_way inp =
     (let ((s0, s1), m) = ni_run inp shani_lines ((INIT0, INIT1), ni_unset);
          so = (mm_add_epi32 s0 INIT0, mm_add_epi32 s1 INIT1);
          ((s0, s1), m) = ni_run inp (statements WayA ways_lines2) (so, m);
          (m0, m1) = shani_Unshuffle (mm_add_epi32 s0 (fst so), mm_add_epi32 s1 (snd so));
          ((s0, s1), m) = ni_run inp (statements WayA ways_lines3) ((INIT0, INIT1), m[0 := m0, 1 := m1])
      in shani_Unshuffle (mm_add_epi32 s0 INIT0, mm_add_epi32 s1 INIT1))"

lemma two_one_way:
  "shani_Transform_2way out inp =
     (let (as0, as1) = one_way inp; (bs0, bs1) = one_way (drop 64 inp);
          out = shani_Save out 0 as0; out = shani_Save out 16 as1; out = shani_Save out 32 bs0
      in shani_Save out 48 bs1)"
  unfolding shani_Transform_2way_def one_way_def ways_split ways_tables ni_run_second Let_def
  by (simp only: case_prod_unfold fst_conv snd_conv)

subsection \<open>The second transform\<close>

lemma QuadRound_const:
  "length v = 8 \<Longrightarrow> QuadRound_k k1 k0 (ni_rep v) = ni_rep (rounds v (mm_set_epi64x k1 k0))"
  by (simp add: QuadRound_k_def mm_set_epi64x_def Quad_rounds)

fun quad_consts :: "ni_stmt \<Rightarrow> 32 word list" where
  "quad_consts (QuadRoundK k1 k0) = mm_set_epi64x k1 k0"
| "quad_consts st = []"

fun const_quad :: "ni_stmt \<Rightarrow> bool" where
  "const_quad (QuadRoundK k1 k0) = True"
| "const_quad st = False"

lemma run_const_quads:
  "list_all const_quad prog \<Longrightarrow> length v = 8 \<Longrightarrow>
    ni_run inp prog (ni_rep v, m) = (ni_rep (rounds v (concat (map quad_consts prog))), m)"
proof (induction prog arbitrary: v)
  case (Cons st prog)
  then show ?case by (cases st) (simp_all add: ni_run_def QuadRound_const length_rounds)
qed (simp add: ni_run_def)

lemma lines2_consts:
  "list_all const_quad (statements WayA ways_lines2)"
  "concat (map quad_consts (statements WayA ways_lines2)) = map (\<lambda>(rs, k, op). k) d64_lines2"
  by (simp_all add: statements_def ways_lines2_def d64_lines2_def mm_set_epi64x_def)

text \<open>Rounds with the roles of a table are rounds of the reference.\<close>

lemma Round_rounds:
  assumes "length v = 8"
  shows "map ((!) (foldl (\<lambda>v (rs, kw). Round fips256_fns rs kw v) v (zip (map roles [0..<n]) kws))) (roles (min n (length kws))) =
    rounds v (take n kws) \<and> length (foldl (\<lambda>v (rs, kw). Round fips256_fns rs kw v) v (zip (map roles [0..<n]) kws)) = 8"
proof (induction n)
  case 0
  then show ?case using list_8 [OF assms] by (auto simp: roles_simps)
next
  case (Suc n)
  show ?case
  proof (cases "n < length kws")
    case True
    then have z: "zip (map roles [0..<Suc n]) kws = zip (map roles [0..<n]) kws @ [(roles n, kws ! n)]"
      by (intro nth_equalityI) (auto simp: nth_append less_Suc_eq)
    then show ?thesis
      using Suc True Round_step [of "foldl (\<lambda>v (rs, kw). Round fips256_fns rs kw v) v (zip (map roles [0..<n]) kws)" fips256_fns n "kws ! n"]
      by (simp add: take_Suc_conv_app_nth)
  next
    case False
    then have "zip (map roles [0..<Suc n]) kws = zip (map roles [0..<n]) kws"
      by (intro nth_equalityI) (auto simp: nth_append)
    then show ?thesis using Suc False by simp
  qed
qed

lemma lines2_roles: "map (\<lambda>(rs, k, op). (rs, k)) d64_lines2 = zip (map roles [0..<64]) (map (\<lambda>(rs, k, op). k) d64_lines2)"
  by (simp add: d64_lines2_def roles_def upt_rec)

lemma padding_rounds:
  assumes "length v = 8"
  shows "sha256_block v padding1 = map2 (+) v (rounds v (map (\<lambda>(rs, k, op). k) d64_lines2))"
proof -
  let ?v = "foldl (\<lambda>v (rs, kw). Round fips256_fns rs kw v) v (zip (map roles [0..<64]) (map (\<lambda>(rs, k, op). k) d64_lines2))"
  have "fst (run_lines sha256_fns padding1 sha256_lines (v, replicate 16 0)) = ?v"
    unfolding run_round_inputs second_part lines2_roles by (simp only: fns_fips)
  moreover have "length d64_lines2 = 64" by (simp add: d64_lines2_def)
  then have "map ((!) ?v) (roles 64) = rounds v (map (\<lambda>(rs, k, op). k) d64_lines2)" "length ?v = 8"
    using Round_rounds [OF assms, of 64 "map (\<lambda>(rs, k, op). k) d64_lines2"] by simp_all
  moreover have "roles 64 = [0, 1, 2, 3, 4, 5, 6, 7]" using roles_mod [of 64] by (simp add: roles_simps)
  ultimately show ?thesis using list_8 [of ?v] by (auto simp: sha256_block_def)
qed

subsection \<open>The third transform\<close>

text \<open>The block that holds the digest \<open>d\<close> and the padding.\<close>

definition digest_block :: "32 word list \<Rightarrow> bytes" where
  "digest_block d = memcpy_at buffer2 0 (sha256_output d)"

lemma digest_block_w4:
  assumes "length d = 8"
  shows "w4 (digest_block d) 0 = take 4 d" "w4 (digest_block d) 1 = drop 4 d"
    "w4 (digest_block d) 2 = mm_set_epi64x 0 0x80000000" "w4 (digest_block d) 3 = mm_set_epi64x 0x10000000000 0"
proof -
  obtain a0 a1 a2 a3 a4 a5 a6 a7 where d: "d = [a0, a1, a2, a3, a4, a5, a6, a7]" using list_8 [OF assms] by blast
  have "map (word_at (digest_block d)) [0, 4, 8, 12, 16, 20, 24, 28, 32, 36, 40, 44, 48, 52, 56, 60] =
    [a0, a1, a2, a3, a4, a5, a6, a7, 0x80000000, 0, 0, 0, 0, 0, 0, 256]"
    by (rule buffer2_words) (simp add: digest_block_def d)
  then show "w4 (digest_block d) 0 = take 4 d" "w4 (digest_block d) 1 = drop 4 d"
    "w4 (digest_block d) 2 = mm_set_epi64x 0 0x80000000" "w4 (digest_block d) 3 = mm_set_epi64x 0x10000000000 0"
    by (simp_all add: w4_def d mm_set_epi64x_def schedule.simps [of _ "digest_block _"])
qed

lemma digest_block_kw4:
  assumes "length d = 8"
  shows "mm_set_epi64x 0x550c7dc3243185be 0x12835b015807aa98 = kw4 (digest_block d) 2"
    "mm_set_epi64x 0xc19bf2749bdc06a7 0x80deb1fe72be5d74 = kw4 (digest_block d) 3"
  unfolding k4_words [symmetric] digest_block_w4 [OF assms] k4_consts by (simp_all add: mm_set_epi64x_def)

lemma third_rounds:
  assumes "length d = 8" and "length v = 8"
  shows "fst (ni_run inp (statements WayA ways_lines3) (ni_rep v, [take 4 d, drop 4 d, x, y])) =
    ni_rep (rounds v (concat (map (kw4 (digest_block d)) [0..<16])))"
  unfolding upt_16 using assms(2) digest_block_w4 [OF assms(1), symmetric] digest_block_kw4 [OF assms(1)]
  by (simp add: statements_def ways_lines3_def ni_run_def shift_w4 QuadRound_kw4 QuadRound_const set_k4 length_rounds
    Let_def)

lemma length_4_list: "length m = 4 \<Longrightarrow> \<exists>a b c d. m = [a, b, c, d]"
  by (auto simp: length_Suc_conv eval_nat_numeral)

lemma INIT_rep: "(INIT0, INIT1) = ni_rep sha256_Initialize"
  by (simp add: INIT0_def INIT1_def ni_rep_def sha256_Initialize_def mm_set_epi64x_def)

lemma Unshuffle_rep: "length d = 8 \<Longrightarrow> shani_Unshuffle (ni_rep d) = (take 4 d, drop 4 d)"
  using list_8 [of d] by (auto simp: ni_rep_def Shuffle_words)

lemma one_way_digest:
  assumes "64 \<le> length inp"
  shows "\<exists>d. length d = 8 \<and> one_way inp = (take 4 d, drop 4 d) \<and> sha256_output d = TransformD64 (take 64 inp)"
proof -
  let ?i = sha256_Initialize
  have i: "length ?i = 8" by (simp add: sha256_Initialize_def)
  have "INIT0 = fst (ni_rep ?i)" "INIT1 = snd (ni_rep ?i)" by (simp_all flip: INIT_rep)
  note sums = this
  obtain s0 s1 m where r1: "ni_run inp shani_lines (ni_rep ?i, ni_unset) = ((s0, s1), m)" by (metis prod.exhaust)
  have m: "length m = 4"
    using length_ni_run [of inp shani_lines "(ni_rep ?i, ni_unset)"] unfolding r1 by (simp add: ni_unset_def)
  define t where "t = sha256_block ?i (take 64 inp)"
  have t: "length t = 8" by (simp add: t_def i)
  have "(s0, s1) = ni_rep (rounds ?i (concat (map (kw4 inp) [0..<16])))"
    using shani_block_rounds [OF assms i] r1 by simp
  then have e1: "(mm_add_epi32 s0 INIT0, mm_add_epi32 s1 INIT1) = ni_rep t"
    using ni_rep_add [OF length_rounds [OF i] i] unfolding sums t_def block_rounds [OF i] by (metis fst_conv snd_conv)
  obtain u0 u1 where r2: "ni_run inp (statements WayA ways_lines2) (ni_rep t, m) = ((u0, u1), m)"
    and u: "(u0, u1) = ni_rep (rounds t (map (\<lambda>(rs, k, op). k) d64_lines2))"
    using run_const_quads [OF lines2_consts(1) t, of inp m] unfolding lines2_consts(2) by (metis surj_pair)
  define d where "d = sha256_block t padding1"
  have d: "length d = 8" by (simp add: d_def t)
  have e2: "(mm_add_epi32 u0 (fst (ni_rep t)), mm_add_epi32 u1 (snd (ni_rep t))) = ni_rep d"
    using ni_rep_add [OF length_rounds [OF t] t] u unfolding d_def padding_rounds [OF t] by (metis fst_conv snd_conv)
  obtain m0 m1 m2 m3 where m4: "m = [m0, m1, m2, m3]" using length_4_list [OF m] by blast
  obtain v0 v1 m' where r3: "ni_run inp (statements WayA ways_lines3) (ni_rep ?i, m[0 := take 4 d, 1 := drop 4 d]) = ((v0, v1), m')"
    by (metis prod.exhaust)
  define h where "h = sha256_block ?i (digest_block d)"
  have h: "length h = 8" by (simp add: h_def i)
  have db: "take 64 (digest_block d) = digest_block d"
    using length_sha256_output [OF d] by (simp add: digest_block_def length_memcpy_at buffer2_def)
  have "(v0, v1) = ni_rep (rounds ?i (concat (map (kw4 (digest_block d)) [0..<16])))"
    using third_rounds [OF d i, of inp m2 m3] r3 by (simp add: m4)
  then have e3: "(mm_add_epi32 v0 INIT0, mm_add_epi32 v1 INIT1) = ni_rep h"
    using ni_rep_add [OF length_rounds [OF i] i] block_rounds [OF i, of "digest_block d"]
    unfolding sums h_def db by (metis fst_conv snd_conv)
  have "one_way inp = (take 4 h, drop 4 h)"
    unfolding one_way_def INIT_rep r1 Let_def prod.case e1 r2 e2 Unshuffle_rep [OF d] r3 e3
      Unshuffle_rep [OF h] ..
  moreover have "sha256_output h = TransformD64 (take 64 inp)"
    using assms db by (subst TransformD64_wrapper)
      (simp_all add: TransformD64Wrapper_def h_def d_def t_def digest_block_def padding1_def Let_def)
  ultimately show ?thesis using h by blast
qed

lemma Save_words:
  "length v = 4 \<Longrightarrow> shani_Save out pos v = memcpy_at out pos (sha256_output v)"
proof -
  have "vec_bytes (map swap32 v) = sha256_output v" for v
    by (induction v) (simp_all add: sha256_output_def WriteLE32_swap)
  then show "length v = 4 \<Longrightarrow> ?thesis" by (simp add: shani_Save_def MASK_swap mm_shuffle_epi8_swap4)
qed

theorem shani_Transform_2way_blocks:
  assumes "length inp = 128" and "length out = 64"
  shows "shani_Transform_2way out inp = concat (map TransformD64 (chunks 64 inp))"
proof -
  obtain a where a: "length a = 8" "one_way inp = (take 4 a, drop 4 a)" "sha256_output a = TransformD64 (take 64 inp)"
    using one_way_digest [of inp] assms(1) by auto
  obtain b where b: "length b = 8" "one_way (drop 64 inp) = (take 4 b, drop 4 b)"
    "sha256_output b = TransformD64 (take 64 (drop 64 inp))"
    using one_way_digest [of "drop 64 inp"] assms(1) by auto
  have l: "length (sha256_output v) = 16" if "length v = 4" for v
    using that by (simp add: sha256_output_def length_concat o_def sum_list_triv)
  have app: "sha256_output (take 4 v) @ sha256_output (drop 4 v) = sha256_output v" for v
    by (simp add: sha256_output_def flip: concat_append map_append)
  have "shani_Transform_2way out inp =
      (sha256_output (take 4 a) @ sha256_output (drop 4 a)) @ (sha256_output (take 4 b) @ sha256_output (drop 4 b))"
    using a(1) b(1) assms(2) l [of "take 4 a"] l [of "drop 4 a"] l [of "take 4 b"] l [of "drop 4 b"]
    by (simp add: two_one_way a(2) b(2) Save_words memcpy_at_def)
  moreover have "chunks 64 inp = [take 64 inp, drop 64 inp]"
    using assms(1) chunks_append [of 64 "take 64 inp" "drop 64 inp"] by (simp add: chunks_block)
  ultimately show ?thesis using a(3) b(3) assms(1) by (simp add: app)
qed

end
