(* ===== verification/Sha256Detect.thy ===== *)
theory Sha256Detect
  imports Sha256Wide Sha256Shani
begin

text \<open>
  The function pointers of \<open>src/crypto/sha256.cpp\<close>, \<open>SelfTest\<close> and \<open>SHA256AutoDetect\<close>, which chooses
  the implementations by the features of the processor.

  The result: whatever the processor reports and whichever files are compiled in, the pointers are
  to functions that compute what the portable ones compute (\<open>detected_sound\<close>), so that \<open>SHA256D64\<close>
  gives the double hash of every block (\<open>pointers_double\<close>).
\<close>

section \<open>The code\<close>

text \<open>
  The pointers. A function that hashes several blocks is given the input; the region it writes to
  holds some bytes before, \<open>junk n\<close> for a region of length \<open>n\<close>.
\<close>

record sha256_pointers =
  p_Transform :: "32 word list \<Rightarrow> bytes \<Rightarrow> nat \<Rightarrow> 32 word list"
  p_TransformD64 :: "bytes \<Rightarrow> bytes"
  p_2way :: "(bytes \<Rightarrow> bytes) option"
  p_4way :: "(bytes \<Rightarrow> bytes) option"
  p_8way :: "(bytes \<Rightarrow> bytes) option"

definition default_pointers :: sha256_pointers where
  "default_pointers =
     \<lparr>p_Transform = sha256_Transform, p_TransformD64 = TransformD64, p_2way = None, p_4way = None, p_8way = None\<rparr>"

definition selftest_data :: bytes where
  "selftest_data = map of_char (''-'' @
      ''Lorem ipsum dolor sit amet, consectetur adipiscing elit, sed do '' @
      ''eiusmod tempor incididunt ut labore et dolore magna aliqua. Et m'' @
      ''olestie ac feugiat sed lectus vestibulum mattis ullamcorper. Mor'' @
      ''bi blandit cursus risus at ultrices mi tempus imperdiet nulla. N'' @
      ''unc congue nisi vita suscipit tellus mauris. Imperdiet proin fer'' @
      ''mentum leo vel orci. Massa tempor nec feugiat nisl pretium fusce'' @
      '' id velit. Telus in metus vulputate eu scelerisque felis. Mi tem'' @
      ''pus imperdiet nulla malesuada pellentesque. Tristique magna sit.'') @ replicate 128 0"

definition selftest_result :: "32 word list list" where
  "selftest_result =
     [[0x6a09e667, 0xbb67ae85, 0x3c6ef372, 0xa54ff53a, 0x510e527f, 0x9b05688c, 0x1f83d9ab, 0x5be0cd19],
      [0x91f8ec6b, 0x4da10fe3, 0x1c9c292c, 0x45e18185, 0x435cc111, 0x3ca26f09, 0xeb954cae, 0x402a7069],
      [0xcabea5ac, 0x374fb97c, 0x182ad996, 0x7bd69cbf, 0x450ff900, 0xc1d2be8a, 0x6a41d505, 0xe6212dc3],
      [0xbcff09d6, 0x3e76f36e, 0x3ecb2501, 0x78866e97, 0xe1c1e2fd, 0x32f4eaff, 0x8aa6c4e5, 0xdfc024bc],
      [0xa08c5d94, 0x0a862f93, 0x6b7f2f40, 0x8f9fae76, 0x6d40439f, 0x79dcee0c, 0x3e39ff3a, 0xdc3bdbb1],
      [0x216a0895, 0x9f1a3662, 0xe99946f9, 0x87ba4364, 0x0fb5db2c, 0x12bed3d3, 0x6689c0c7, 0x292f1b04],
      [0xca3067f8, 0xbc8c2656, 0x37cb7e0d, 0x9b6b8b0f, 0x46dc380b, 0xf1287f57, 0xc42e4b23, 0x3fefe94d],
      [0x3e4c4039, 0xbb6fca8c, 0x6f27d2f7, 0x301e44a4, 0x8352ba14, 0x5769ce37, 0x48a1155f, 0xc0e1c4c6],
      [0xfe2fa9dd, 0x69d0862b, 0x1ae0db23, 0x471f9244, 0xf55c0145, 0xc30f9c3b, 0x40a84ea0, 0x5b8a266c]]"

definition selftest_result_d64 :: bytes where
  "selftest_result_d64 =
     [0x09, 0x3a, 0xc4, 0xd0, 0x0f, 0xf7, 0x57, 0xe1, 0x72, 0x85, 0x79, 0x42, 0xfe, 0xe7, 0xe0, 0xa0,
      0xfc, 0x52, 0xd7, 0xdb, 0x07, 0x63, 0x45, 0xfb, 0x53, 0x14, 0x7d, 0x17, 0x22, 0x86, 0xf0, 0x52,
      0x48, 0xb6, 0x11, 0x9e, 0x6e, 0x48, 0x81, 0x6d, 0xcc, 0x57, 0x1f, 0xb2, 0x97, 0xa8, 0xd5, 0x25,
      0x9b, 0x82, 0xaa, 0x89, 0xe2, 0xfd, 0x2d, 0x56, 0xe8, 0x28, 0x83, 0x0b, 0xe2, 0xfa, 0x53, 0xb7,
      0xd6, 0x6b, 0x07, 0x85, 0x83, 0xb0, 0x10, 0xa2, 0xf5, 0x51, 0x3c, 0xf9, 0x60, 0x03, 0xab, 0x45,
      0x6c, 0x15, 0x6e, 0xef, 0xb5, 0xac, 0x3e, 0x6c, 0xdf, 0xb4, 0x92, 0x22, 0x2d, 0xce, 0xbf, 0x3e,
      0xe9, 0xe5, 0xf6, 0x29, 0x0e, 0x01, 0x4f, 0xd2, 0xd4, 0x45, 0x65, 0xb3, 0xbb, 0xf2, 0x4c, 0x16,
      0x37, 0x50, 0x3c, 0x6e, 0x49, 0x8c, 0x5a, 0x89, 0x2b, 0x1b, 0xab, 0xc4, 0x37, 0xd1, 0x46, 0xe9,
      0x3d, 0x0e, 0x85, 0xa2, 0x50, 0x73, 0xa1, 0x5e, 0x54, 0x37, 0xd7, 0x94, 0x17, 0x56, 0xc2, 0xd8,
      0xe5, 0x9f, 0xed, 0x4e, 0xae, 0x15, 0x42, 0x06, 0x0d, 0x74, 0x74, 0x5e, 0x24, 0x30, 0xce, 0xd1,
      0x9e, 0x50, 0xa3, 0x9a, 0xb8, 0xf0, 0x4a, 0x57, 0x69, 0x78, 0x67, 0x12, 0x84, 0x58, 0xbe, 0xc7,
      0x36, 0xaa, 0xee, 0x7c, 0x64, 0xa3, 0x76, 0xec, 0xff, 0x55, 0x41, 0x00, 0x2a, 0x44, 0x68, 0x4d,
      0xb6, 0x53, 0x9e, 0x1c, 0x95, 0xb7, 0xca, 0xdc, 0x7f, 0x7d, 0x74, 0x27, 0x5c, 0x8e, 0xa6, 0x84,
      0xb5, 0xac, 0x87, 0xa9, 0xf3, 0xff, 0x75, 0xf2, 0x34, 0xcd, 0x1a, 0x3b, 0x82, 0x2c, 0x2b, 0x4e,
      0x6a, 0x46, 0x30, 0xa6, 0x89, 0x86, 0x23, 0xac, 0xf8, 0xa5, 0x15, 0xe9, 0x0a, 0xaa, 0x1e, 0x9a,
      0xd7, 0x93, 0x6b, 0x28, 0xe4, 0x3b, 0xfd, 0x59, 0xc6, 0xed, 0x7c, 0x5f, 0xa5, 0x41, 0xcb, 0x51]"

text \<open>The test of a function for \<open>n\<close> blocks, if it is available.\<close>

definition selftest_ways :: "nat \<Rightarrow> (bytes \<Rightarrow> bytes) option \<Rightarrow> bool" where
  "selftest_ways n f =
     (case f of None \<Rightarrow> True
      | Some f \<Rightarrow> f (take (64 * n) (drop 1 selftest_data)) = take (32 * n) selftest_result_d64)"

definition SelfTest :: "sha256_pointers \<Rightarrow> bool" where
  "SelfTest ps \<longleftrightarrow>
     (\<forall>i \<in> set [0..<9]. p_Transform ps sha256_Initialize (drop 1 selftest_data) i = selftest_result ! i) \<and>
     selftest_ways 1 (Some (p_TransformD64 ps)) \<and> selftest_ways 2 (p_2way ps) \<and>
     selftest_ways 4 (p_4way ps) \<and> selftest_ways 8 (p_8way ps)"

text \<open>The macros of the build, and what the instructions \<open>cpuid\<close> and \<open>xgetbv\<close> return.\<close>

record sha256_build =
  USE_ASM_x86 :: bool
  x86_64 :: bool
  ENABLE_SHANI :: bool
  ENABLE_SSE41 :: bool
  ENABLE_AVX2 :: bool
  BUILD_BITCOIN_INTERNAL :: bool

record cpu =
  cpuid :: "32 word \<Rightarrow> 32 word \<Rightarrow> 32 word \<times> 32 word \<times> 32 word \<times> 32 word"
  xgetbv :: "32 word"

definition AVXEnabled :: "cpu \<Rightarrow> bool" where
  "AVXEnabled c \<longleftrightarrow> xgetbv c AND 6 = 6"

text \<open>
  The three blocks of \<open>SHA256AutoDetect\<close> that set pointers. \<open>sse4\<close> is \<open>sha256_sse4::Transform\<close>, which
  is written in assembly language.
\<close>

definition detect_shani :: "sha256_build \<Rightarrow> (nat \<Rightarrow> bytes) \<Rightarrow> bool \<Rightarrow> string \<times> sha256_pointers \<times> bool \<times> bool \<Rightarrow>
    string \<times> sha256_pointers \<times> bool \<times> bool" where
  "detect_shani b junk have_shani = (\<lambda>(ret, ps, have_sse4, have_avx2).
     if ENABLE_SHANI b \<and> \<not> BUILD_BITCOIN_INTERNAL b \<and> have_shani
     then (''shani(1way,2way)'',
       ps\<lparr>p_Transform := shani_Transform, p_TransformD64 := TransformD64Wrapper shani_Transform,
         p_2way := Some (shani_Transform_2way (junk 64))\<rparr>, False, False)
     else (ret, ps, have_sse4, have_avx2))"

definition detect_sse4 :: "sha256_build \<Rightarrow> (32 word list \<Rightarrow> bytes \<Rightarrow> nat \<Rightarrow> 32 word list) \<Rightarrow> (nat \<Rightarrow> bytes) \<Rightarrow> bool \<Rightarrow>
    string \<times> sha256_pointers \<Rightarrow> string \<times> sha256_pointers" where
  "detect_sse4 b sse4 junk have_sse4 = (\<lambda>(ret, ps).
     if have_sse4
     then
       let (ret, ps) =
         (if x86_64 b
          then (''sse4(1way)'', ps\<lparr>p_Transform := sse4, p_TransformD64 := TransformD64Wrapper sse4\<rparr>)
          else (ret, ps))
       in (if ENABLE_SSE41 b \<and> \<not> BUILD_BITCOIN_INTERNAL b
           then (ret @ '',sse41(4way)'', ps\<lparr>p_4way := Some (Transform_4way (junk 128))\<rparr>)
           else (ret, ps))
     else (ret, ps))"

definition detect_avx2 :: "sha256_build \<Rightarrow> (nat \<Rightarrow> bytes) \<Rightarrow> bool \<Rightarrow> string \<times> sha256_pointers \<Rightarrow>
    string \<times> sha256_pointers" where
  "detect_avx2 b junk have_avx2 = (\<lambda>(ret, ps).
     if ENABLE_AVX2 b \<and> \<not> BUILD_BITCOIN_INTERNAL b \<and> have_avx2
     then (ret @ '',avx2(8way)'', ps\<lparr>p_8way := Some (Transform_8way (junk 256))\<rparr>)
     else (ret, ps))"

text \<open>The assertion \<open>SelfTest()\<close> at the end is the result \<open>None\<close> when it fails.\<close>

definition SHA256AutoDetect :: "sha256_build \<Rightarrow> cpu \<Rightarrow> (32 word list \<Rightarrow> bytes \<Rightarrow> nat \<Rightarrow> 32 word list) \<Rightarrow>
    (nat \<Rightarrow> bytes) \<Rightarrow> sha256_pointers \<Rightarrow> (string \<times> sha256_pointers) option" where
  "SHA256AutoDetect b c sse4 junk ps =
     (let (ret, ps) =
       (if USE_ASM_x86 b
        then
          let (eax, ebx, ecx, edx) = cpuid c 1 0;
              have_sse4 = bit ecx 19;
              have_xsave = bit ecx 27;
              have_avx = bit ecx 28;
              enabled_avx = (have_xsave \<and> have_avx \<and> AVXEnabled c);
              (eax, ebx, ecx, edx) = (if have_sse4 then cpuid c 7 0 else (eax, ebx, ecx, edx));
              have_avx2 = (have_sse4 \<and> bit ebx 5);
              have_shani = (have_sse4 \<and> bit ebx 29);
              (ret, ps, have_sse4, have_avx2) = detect_shani b junk have_shani (''standard'', ps, have_sse4, have_avx2)
          in detect_avx2 b junk (have_avx2 \<and> have_avx \<and> enabled_avx) (detect_sse4 b sse4 junk have_sse4 (ret, ps))
        else (''standard'', ps))
      in if SelfTest ps then Some (ret, ps) else None)"

text \<open>\<open>SHA256D64\<close> with the pointers.\<close>

definition SHA256D64_with :: "sha256_pointers \<Rightarrow> bytes \<Rightarrow> bytes" where
  "SHA256D64_with ps = SHA256D64 (p_8way ps) (p_4way ps) (p_2way ps) (p_TransformD64 ps)"

section \<open>The chosen functions compute what the portable ones compute\<close>

definition transforms :: "(32 word list \<Rightarrow> bytes \<Rightarrow> nat \<Rightarrow> 32 word list) \<Rightarrow> bool" where
  "transforms tr \<longleftrightarrow>
     (\<forall>s chunk blocks. length s = 8 \<longrightarrow> 64 * blocks \<le> length chunk \<longrightarrow> tr s chunk blocks = sha256_Transform s chunk blocks)"

definition pointers_ok :: "sha256_pointers \<Rightarrow> bool" where
  "pointers_ok ps \<longleftrightarrow> transforms (p_Transform ps) \<and> many 1 (p_TransformD64 ps) \<and>
     (\<forall>f \<in> set_option (p_2way ps). many 2 f) \<and> (\<forall>f \<in> set_option (p_4way ps). many 4 f) \<and>
     (\<forall>f \<in> set_option (p_8way ps). many 8 f)"

lemma transforms_portable: "transforms sha256_Transform" "transforms shani_Transform"
  by (simp_all add: transforms_def shani_Transform_standard)

lemma length_Transform: "length s = 8 \<Longrightarrow> length (sha256_Transform s chunk n) = 8"
  by (induction n arbitrary: s chunk) simp_all

lemma wrapper_many:
  assumes "transforms tr"
  shows "many 1 (TransformD64Wrapper tr)"
proof -
  have p: "length padding1 = 64" by (simp add: padding1_def)
  have i: "length sha256_Initialize = 8" by (simp add: sha256_Initialize_def)
  have "TransformD64Wrapper tr inp = TransformD64 inp" if "length inp = 64" for inp
  proof -
    let ?s = "sha256_Transform (sha256_Transform sha256_Initialize inp 1) padding1 1"
    have s: "tr (tr sha256_Initialize inp 1) padding1 1 = ?s"
      using assms that p i length_Transform [OF i] by (simp add: transforms_def del: One_nat_def)
    have "length (memcpy_at buffer2 0 (sha256_output ?s)) = 64"
      using length_sha256_output [OF length_Transform [OF length_Transform [OF i]], of inp 1 padding1 1]
      by (simp add: length_memcpy_at buffer2_def length_sha256_output del: One_nat_def)
    then show ?thesis
      unfolding TransformD64_wrapper [OF that] TransformD64Wrapper_def Let_def s
      using assms i by (simp add: transforms_def del: One_nat_def)
  qed
  then show ?thesis by (simp add: many_def chunks_block)
qed

lemma default_ok: "pointers_ok default_pointers"
  by (simp add: pointers_ok_def default_pointers_def transforms_portable many_def chunks_block)

lemma detect_shani_ok:
  assumes "pointers_ok ps" and "length (junk 64) = 64" and "detect_shani b junk have (ret, ps, x, y) = (ret', ps', x', y')"
  shows "pointers_ok ps'"
  using assms transforms_portable(2) wrapper_many [OF transforms_portable(2)] shani_Transform_2way_blocks
  by (auto simp: pointers_ok_def detect_shani_def many_def split: if_splits)

lemma detect_sse4_ok:
  assumes "pointers_ok ps" and "length (junk 128) = 128" and "transforms sse4"
  shows "pointers_ok (snd (detect_sse4 b sse4 junk have (ret, ps)))"
proof -
  have "many 4 (Transform_4way (junk 128))" using assms(2) by (simp add: many_def Transform_4way_blocks)
  then show ?thesis using assms(1,3) wrapper_many [OF assms(3)] by (simp add: pointers_ok_def detect_sse4_def)
qed

lemma detect_avx2_ok:
  assumes "pointers_ok (snd rps)" and "length (junk 256) = 256"
  shows "pointers_ok (snd (detect_avx2 b junk have rps))"
proof -
  have "many 8 (Transform_8way (junk 256))" using assms(2) by (simp add: many_def Transform_8way_blocks)
  then show ?thesis using assms(1) by (simp add: pointers_ok_def detect_avx2_def case_prod_unfold)
qed

lemma detected_sound:
  assumes "transforms sse4" and "\<And>n. length (junk n) = n" and "pointers_ok ps"
  shows "\<exists>ret ps'. pointers_ok ps' \<and>
    SHA256AutoDetect b c sse4 junk ps = (if SelfTest ps' then Some (ret, ps') else None)"
proof (cases "USE_ASM_x86 b")
  case True
  obtain eax ebx ecx edx where c1: "cpuid c 1 0 = (eax, ebx, ecx, edx)" by (metis prod.exhaust)
  obtain eax7 ebx7 ecx7 edx7 where c7: "(if bit ecx 19 then cpuid c 7 0 else (eax, ebx, ecx, edx)) = (eax7, ebx7, ecx7, edx7)"
    by (metis prod.exhaust)
  obtain r1 ps1 s1 a1 where d1: "detect_shani b junk (bit ecx 19 \<and> bit ebx7 29) (''standard'', ps, bit ecx 19, bit ecx 19 \<and> bit ebx7 5) =
      (r1, ps1, s1, a1)" by (metis prod.exhaust)
  obtain r2 ps2 where d2: "detect_avx2 b junk (a1 \<and> bit ecx 28 \<and> bit ecx 27 \<and> bit ecx 28 \<and> AVXEnabled c)
      (detect_sse4 b sse4 junk s1 (r1, ps1)) = (r2, ps2)" by (metis prod.exhaust)
  have "pointers_ok ps1" using detect_shani_ok [OF assms(3) _ d1] assms(2) by simp
  then have "pointers_ok ps2"
    using detect_avx2_ok [OF detect_sse4_ok [OF _ _ assms(1)]] assms(2) d2 by (metis snd_conv)
  moreover have "SHA256AutoDetect b c sse4 junk ps = (if SelfTest ps2 then Some (r2, ps2) else None)"
    by (simp only: SHA256AutoDetect_def True if_True c1 c7 d1 d2 Let_def prod.case)
  ultimately show ?thesis by blast
next
  case False
  then show ?thesis using assms(3) by (auto simp: SHA256AutoDetect_def)
qed

lemma pointers_double:
  assumes "pointers_ok ps" and "64 dvd length inp"
  shows "SHA256D64_with ps inp = concat (map TransformD64 (chunks 64 inp))"
proof -
  have one: "many 1 (p_TransformD64 ps)" using assms(1) by (simp add: pointers_ok_def)
  have "d64_loop 1 (p_TransformD64 ps) inp = d64_loop 1 TransformD64 inp" for inp
  proof (induction "1 :: nat" "p_TransformD64 ps" inp rule: d64_loop.induct)
    case (1 inp)
    have "p_TransformD64 ps (take 64 inp) = TransformD64 (take 64 inp)" if "64 \<le> length inp"
      using one that by (simp add: many_def chunks_block)
    then show ?case using 1 by (subst (1 2) d64_loop.simps) simp
  qed
  then have "SHA256D64_with ps inp = SHA256D64 (p_8way ps) (p_4way ps) (p_2way ps) TransformD64 inp"
    by (simp add: SHA256D64_with_def SHA256D64_def)
  then show ?thesis
    using SHA256D64_blocks [of "p_8way ps" "p_4way ps" "p_2way ps" inp] assms by (simp add: pointers_ok_def)
qed

end
