(* ===== verification/Streams.thy ===== *)
theory Streams
  imports Endians
begin

text \<open>
  \<open>src/serialization/Serialization.hpp\<close>, \<open>src/serialization/SerializationWrapper.hpp\<close>,
  \<open>src/types/VariableLengthInteger.cpp\<close> and \<open>src/types/VariableLengthString.cpp\<close>: reading and
  writing values on streams, and the contract of a serializable type.

  An output stream is the list of the bytes written. An input stream is the bytes not yet read and
  its state: no exception mask is ever set on a stream of this program, so a short read sets the
  fail bit, keeps the rest of the destination and turns the later reads into no-operations. A local
  variable that a failed read leaves uninitialised makes its use undefined.
\<close>

type_synonym io_fault = "unit fault"

text \<open>\<open>room\<close> is the number of elements up to which \<open>resize\<close> succeeds; beyond it, it throws.\<close>

record istream =
  buf :: bytes
  good :: bool
  room :: nat

section \<open>Reading and writing bytes and integers\<close>

text \<open>\<open>is.read(ptr, n)\<close> over a destination that holds the \<open>n\<close> bytes \<open>old\<close>.\<close>

definition read_over :: "bytes \<Rightarrow> istream \<Rightarrow> bytes \<times> istream" where
  "read_over old s =
     (let n = length old
      in if \<not> good s then (old, s)
         else if n \<le> length (buf s) then (take n (buf s), s\<lparr>buf := drop n (buf s)\<rparr>)
         else (buf s @ drop (length (buf s)) old, s\<lparr>buf := [], good := False\<rparr>))"

text \<open>A read of \<open>n\<close> bytes into an uninitialised local variable that is used afterwards.\<close>

definition read_local :: "nat \<Rightarrow> istream \<Rightarrow> io_fault + bytes \<times> istream" where
  "read_local n s =
     (if good s \<and> n \<le> length (buf s) then Inr (take n (buf s), s\<lparr>buf := drop n (buf s)\<rparr>)
      else Inl Undefined)"

definition peek :: "istream \<Rightarrow> byte option \<times> istream" where
  "peek s =
     (if \<not> good s then (None, s)
      else case buf s of [] \<Rightarrow> (None, s\<lparr>good := False\<rparr>) | b # bs \<Rightarrow> (Some b, s))"

definition word_le :: "bytes \<Rightarrow> 'a :: len word" where
  "word_le bs = word_of_nat (le_value bs)"

definition ser_int :: "'a :: len word \<Rightarrow> bytes" where
  "ser_int x = le_bytes (LENGTH('a) div 8) (unat x)"

definition unser_int :: "'a :: len word \<Rightarrow> istream \<Rightarrow> io_fault + 'a word \<times> istream" where
  "unser_int old s = (case read_over (ser_int old) s of (bs, s) \<Rightarrow> Inr (word_le bs, s))"

definition ser_bytes :: "bytes \<Rightarrow> bytes" where
  "ser_bytes bs = bs"

definition unser_bytes :: "bytes \<Rightarrow> istream \<Rightarrow> io_fault + bytes \<times> istream" where
  "unser_bytes old s = Inr (read_over old s)"

section \<open>Variable length integers\<close>

definition ser_varint :: "64 word \<Rightarrow> bytes" where
  "ser_varint v =
     (if v < 253 then ser_int (ucast v :: 8 word)
      else if v \<le> 0xffff then ser_int (253 :: 8 word) @ ser_int (ucast v :: 16 word)
      else if v \<le> 0xffffffff then ser_int (254 :: 8 word) @ ser_int (ucast v :: 32 word)
      else ser_int (255 :: 8 word) @ ser_int v)"

definition unser_varint :: "istream \<Rightarrow> io_fault + 64 word \<times> istream" where
  "unser_varint s =
     rbind (read_local 1 s) (\<lambda>(bs, s). let size = (word_le bs :: 8 word) in
     if size < 253 then Inr (ucast size, s)
     else if size = 253 then
       rbind (read_local 2 s) (\<lambda>(bs, s). let value = (word_le bs :: 16 word) in
       if value < 253 then Inl StdExcept else Inr (ucast value, s))
     else if size = 254 then
       rbind (read_local 4 s) (\<lambda>(bs, s). let value = (word_le bs :: 32 word) in
       if value \<le> 0xffff then Inl StdExcept else Inr (ucast value, s))
     else
       rbind (read_local 8 s) (\<lambda>(bs, s). let value = (word_le bs :: 64 word) in
       if value \<le> 0xffffffff then Inl StdExcept else Inr (value, s)))"

section \<open>Vectors, with and without their size\<close>

fun unser_list :: "('a \<Rightarrow> istream \<Rightarrow> io_fault + 'a \<times> istream) \<Rightarrow> 'a list \<Rightarrow> istream \<Rightarrow>
    io_fault + 'a list \<times> istream" where
  "unser_list unser [] s = Inr ([], s)"
| "unser_list unser (x # xs) s =
     rbind (unser x s) (\<lambda>(y, s). rbind (unser_list unser xs s) (\<lambda>(ys, s). Inr (y # ys, s)))"

definition ser_list :: "('a \<Rightarrow> bytes) \<Rightarrow> 'a list \<Rightarrow> bytes" where
  "ser_list ser xs = concat (map ser xs)"

definition resize :: "nat \<Rightarrow> 'a \<Rightarrow> 'a list \<Rightarrow> 'a list" where
  "resize n d xs = take n xs @ replicate (n - length xs) d"

text \<open>The wrapper \<open>size_and_\<close>, for vectors of a serializable type and for vectors of bytes.\<close>

definition ser_sized :: "('a \<Rightarrow> bytes) \<Rightarrow> 'a list \<Rightarrow> bytes" where
  "ser_sized ser xs = ser_varint (word_of_nat (length xs)) @ ser_list ser xs"

definition unser_sized :: "'a \<Rightarrow> ('a \<Rightarrow> istream \<Rightarrow> io_fault + 'a \<times> istream) \<Rightarrow> 'a list \<Rightarrow> istream \<Rightarrow>
    io_fault + 'a list \<times> istream" where
  "unser_sized d unser old s =
     rbind (unser_varint s) (\<lambda>(size, s).
     if unat size > room s then Inl StdExcept
     else unser_list unser (resize (unat size) d old) s)"

definition ser_sized_bytes :: "bytes \<Rightarrow> bytes" where
  "ser_sized_bytes bs = ser_varint (word_of_nat (length bs)) @ ser_bytes bs"

definition unser_sized_bytes :: "bytes \<Rightarrow> istream \<Rightarrow> io_fault + bytes \<times> istream" where
  "unser_sized_bytes old s =
     rbind (unser_varint s) (\<lambda>(size, s).
     if unat size > room s then Inl StdExcept
     else unser_bytes (resize (unat size) 0 old) s)"

text \<open>
  \<open>VariableLengthString\<close>: \<open>Unserialize\<close> reads the length and then as many characters as the string
  already has; nothing resizes it.
\<close>

definition ser_varstring :: "bytes \<Rightarrow> bytes" where
  "ser_varstring str = ser_varint (word_of_nat (length str)) @ ser_bytes str"

definition unser_varstring :: "bytes \<Rightarrow> istream \<Rightarrow> io_fault + bytes \<times> istream" where
  "unser_varstring old s = rbind (unser_varint s) (\<lambda>(length, s). unser_bytes old s)"

section \<open>Integers and sizes read back\<close>

lemma length_ser_int [simp]: "length (ser_int (x :: 'a :: len word)) = LENGTH('a) div 8"
  by (simp add: ser_int_def)

lemma word_le_ser_int [simp]: "8 dvd LENGTH('a) \<Longrightarrow> word_le (ser_int (x :: 'a :: len word)) = x"
  unfolding word_le_def ser_int_def by (rule word_of_nat_le_bytes) simp

lemma read_over_enough:
  "good s \<Longrightarrow> buf s = bs @ r \<Longrightarrow> length old = length bs \<Longrightarrow> read_over old s = (bs, s\<lparr>buf := r\<rparr>)"
  by (simp add: read_over_def)

lemma read_local_enough:
  "good s \<Longrightarrow> buf s = bs @ r \<Longrightarrow> length bs = n \<Longrightarrow> read_local n s = Inr (bs, s\<lparr>buf := r\<rparr>)"
  by (simp add: read_local_def)

lemma unser_int_decode:
  fixes x :: "'a :: len word"
  assumes "8 dvd LENGTH('a)" and "good s" and "buf s = ser_int x @ r"
  shows "unser_int old s = Inr (x, s\<lparr>buf := r\<rparr>)"
  using assms read_over_enough [of s "ser_int x" r "ser_int old"] by (simp add: unser_int_def)

lemma unser_bytes_decode:
  "good s \<Longrightarrow> buf s = bs @ r \<Longrightarrow> length old = length bs \<Longrightarrow> unser_bytes old s = Inr (bs, s\<lparr>buf := r\<rparr>)"
  by (simp add: unser_bytes_def read_over_enough)

lemma read_local_int:
  "good s \<Longrightarrow> buf s = ser_int (x :: 'a :: len word) @ r \<Longrightarrow> LENGTH('a) div 8 = n \<Longrightarrow>
     read_local n s = Inr (ser_int x, s\<lparr>buf := r\<rparr>)"
  by (rule read_local_enough) auto

lemma unat_ucast_small:
  "unat v < 2 ^ LENGTH('b) \<Longrightarrow> unat (ucast (v :: 64 word) :: 'b :: len word) = unat v"
  by (simp add: unsigned_ucast_eq take_bit_nat_eq_self)

lemma ucast_ucast_small:
  assumes "unat v < 2 ^ LENGTH('b)"
  shows "ucast (ucast (v :: 64 word) :: 'b :: len word) = v"
proof -
  have "unat (ucast v :: 'b word) < 2 ^ 64"
    using unat_ucast_small [OF assms] unsigned_less [of v] by simp
  then have "unat (ucast (ucast v :: 'b word) :: 64 word) = unat v"
    using unat_ucast_small [OF assms]
    by (simp add: unsigned_ucast_eq take_bit_nat_eq_self unsigned_take_bit_eq)
  then show ?thesis by (rule unsigned_word_eqI)
qed

lemma ucast_small:
  fixes v :: "64 word"
  shows "v < 253 \<Longrightarrow> ucast (ucast v :: 8 word) = v \<and> (ucast v :: 8 word) < 253"
    and "253 \<le> v \<Longrightarrow> v \<le> 0xffff \<Longrightarrow> ucast (ucast v :: 16 word) = v \<and> \<not> (ucast v :: 16 word) < 253"
    and "0xffff < v \<Longrightarrow> v \<le> 0xffffffff \<Longrightarrow> ucast (ucast v :: 32 word) = v \<and> \<not> (ucast v :: 32 word) \<le> 0xffff"
  using unat_ucast_small [where 'b = 8, of v] ucast_ucast_small [where 'b = 8, of v]
    unat_ucast_small [where 'b = 16, of v] ucast_ucast_small [where 'b = 16, of v]
    unat_ucast_small [where 'b = 32, of v] ucast_ucast_small [where 'b = 32, of v]
  by (simp_all add: word_less_nat_alt word_le_nat_alt)

lemma unser_varint_decode:
  assumes "good s" and "buf s = ser_varint v @ r"
  shows "unser_varint s = Inr (v, s\<lparr>buf := r\<rparr>)"
proof -
  have read: "read_local 1 s = Inr (ser_int b, s\<lparr>buf := t\<rparr>)" if "buf s = ser_int (b :: 8 word) @ t" for b t
    using assms(1) that by (rule read_local_int) simp
  have next16: "read_local 2 (s\<lparr>buf := ser_int (x :: 16 word) @ r\<rparr>) = Inr (ser_int x, s\<lparr>buf := r\<rparr>)" for x
    by (subst read_local_int [where r = r and x = x]) (simp_all add: assms(1))
  have next32: "read_local 4 (s\<lparr>buf := ser_int (x :: 32 word) @ r\<rparr>) = Inr (ser_int x, s\<lparr>buf := r\<rparr>)" for x
    by (subst read_local_int [where r = r and x = x]) (simp_all add: assms(1))
  have next64: "read_local 8 (s\<lparr>buf := ser_int (x :: 64 word) @ r\<rparr>) = Inr (ser_int x, s\<lparr>buf := r\<rparr>)" for x
    by (subst read_local_int [where r = r and x = x]) (simp_all add: assms(1))
  consider "v < 253" | "253 \<le> v" "v \<le> 0xffff" | "0xffff < v" "v \<le> 0xffffffff" | "0xffffffff < v"
    by force
  then show ?thesis
  proof cases
    case 1
    then have "buf s = ser_int (ucast v :: 8 word) @ r" using assms(2) by (simp add: ser_varint_def)
    from read [OF this] 1 ucast_small(1) [of v] show ?thesis by (simp add: unser_varint_def)
  next
    case 2
    then have "buf s = ser_int (253 :: 8 word) @ ser_int (ucast v :: 16 word) @ r"
      using assms(2) by (auto simp: ser_varint_def not_less [symmetric])
    from read [OF this] 2 ucast_small(2) [of v] show ?thesis by (simp add: unser_varint_def next16)
  next
    case 3
    then have "\<not> v < 253" "\<not> v \<le> 0xffff" by (auto simp: word_less_nat_alt word_le_nat_alt)
    with 3 have "buf s = ser_int (254 :: 8 word) @ ser_int (ucast v :: 32 word) @ r"
      using assms(2) by (simp add: ser_varint_def)
    from read [OF this] 3 ucast_small(3) [of v] show ?thesis by (simp add: unser_varint_def next32)
  next
    case 4
    then have "\<not> v < 253" "\<not> v \<le> 0xffff" "\<not> v \<le> 0xffffffff"
      by (auto simp: word_less_nat_alt word_le_nat_alt)
    then have "buf s = ser_int (255 :: 8 word) @ ser_int v @ r"
      using assms(2) by (simp add: ser_varint_def)
    from read [OF this] \<open>\<not> v \<le> 0xffffffff\<close> show ?thesis by (simp add: unser_varint_def next64)
  qed
qed

text \<open>Only the shortest encoding of a size is accepted.\<close>

lemma ser_int_word_le:
  assumes "8 * length bs = LENGTH('a :: len)"
  shows "ser_int (word_le bs :: 'a word) = bs"
proof -
  have "(256 :: nat) ^ length bs = 2 ^ LENGTH('a)"
    using assms by (simp add: power_mult flip: assms)
  then have "le_value bs < 2 ^ LENGTH('a)" using le_value_bound [of bs] by simp
  then have "unat (word_le bs :: 'a word) = le_value bs"
    by (simp add: word_le_def unat_of_nat)
  moreover have "LENGTH('a) div 8 = length bs" using assms by (metis nonzero_mult_div_cancel_left zero_neq_numeral)
  ultimately show ?thesis by (simp add: ser_int_def le_bytes_le_value)
qed

lemma read_local_Inr:
  "read_local n s = Inr (bs, s') \<longleftrightarrow> good s \<and> length bs = n \<and> buf s = bs @ buf s' \<and> s' = s\<lparr>buf := buf s'\<rparr>"
  by (auto simp: read_local_def)

lemma ucast_wide:
  fixes x :: "16 word" and y :: "32 word" and z :: "8 word"
  shows "ucast (ucast z :: 64 word) = z" "ucast (ucast x :: 64 word) = x" "ucast (ucast y :: 64 word) = y"
    and "z < 253 \<Longrightarrow> (ucast z :: 64 word) < 253"
    and "\<not> x < 253 \<Longrightarrow> \<not> (ucast x :: 64 word) < 253 \<and> (ucast x :: 64 word) \<le> 0xffff"
    and "\<not> y \<le> 0xffff \<Longrightarrow> \<not> (ucast y :: 64 word) < 253 \<and> \<not> (ucast y :: 64 word) \<le> 0xffff \<and>
      (ucast y :: 64 word) \<le> 0xffffffff"
proof -
  have u: "unat x < 65536" "unat y < 4294967296" "unat z < 256"
    using unsigned_less [of x, where ?'a = nat] unsigned_less [of y, where ?'a = nat]
      unsigned_less [of z, where ?'a = nat] by simp_all
  then have t: "take_bit 64 (unat x) = unat x" "take_bit 64 (unat y) = unat y" "take_bit 64 (unat z) = unat z"
    by (simp_all add: take_bit_nat_eq_self)
  have "unat (take_bit 64 x) = unat x" "unat (take_bit 64 y) = unat y" "unat (take_bit 64 z) = unat z"
    by (simp_all only: unsigned_take_bit_eq t)
  then have "take_bit 64 x = x" "take_bit 64 y = y" "take_bit 64 z = z"
    by (blast intro: unsigned_word_eqI)+
  then show "ucast (ucast z :: 64 word) = z" "ucast (ucast x :: 64 word) = x" "ucast (ucast y :: 64 word) = y"
    by (simp_all add: unsigned_ucast_eq)
  show "z < 253 \<Longrightarrow> (ucast z :: 64 word) < 253"
    "\<not> x < 253 \<Longrightarrow> \<not> (ucast x :: 64 word) < 253 \<and> (ucast x :: 64 word) \<le> 0xffff"
    "\<not> y \<le> 0xffff \<Longrightarrow> \<not> (ucast y :: 64 word) < 253 \<and> \<not> (ucast y :: 64 word) \<le> 0xffff \<and>
      (ucast y :: 64 word) \<le> 0xffffffff"
    using u t by (simp_all add: word_less_nat_alt word_le_nat_alt unsigned_ucast_eq)
qed

lemma unser_varint_canonical:
  assumes "unser_varint s = Inr (v, s')"
  shows "buf s = ser_varint v @ buf s'"
proof -
  obtain b t where r: "read_local 1 s = Inr (b, t)"
    using assms by (auto simp: unser_varint_def rbind_eq_Inr)
  then have b: "buf s = b @ buf t" "length b = 1" by (simp_all add: read_local_Inr)
  define size where "size = (word_le b :: 8 word)"
  have sb: "b = ser_int size" unfolding size_def by (rule ser_int_word_le [symmetric]) (simp add: b)
  note run = assms [unfolded unser_varint_def r rbind_Inr prod.case Let_def, folded size_def]
  have "unat size < 256" using unsigned_less [of size, where ?'a = nat] by simp
  then have "unat size < 253 \<or> unat size = 253 \<or> unat size = 254 \<or> unat size = 255" by linarith
  then consider "size < 253" | "size = 253" | "size = 254" | "size = 255"
    by (auto simp: word_less_nat_alt word_eq_iff_unsigned [where ?'a = nat, of size])
  then show ?thesis
  proof cases
    case 1
    with run have "v = ucast size" "s' = t" by simp_all
    with 1 b sb ucast_wide(1) [of size] ucast_wide(4) [of size] show ?thesis by (simp add: ser_varint_def)
  next
    case 2
    with run obtain c where c: "read_local 2 t = Inr (c, s')" "\<not> (word_le c :: 16 word) < 253"
      "v = ucast (word_le c :: 16 word)"
      by (auto simp: rbind_eq_Inr split: if_split_asm)
    have "ser_int (word_le c :: 16 word) = c" using c(1) by (intro ser_int_word_le) (simp add: read_local_Inr)
    with 2 b sb c ucast_wide(2) ucast_wide(5) [OF c(2)] show ?thesis
      by (simp add: ser_varint_def read_local_Inr)
  next
    case 3
    with run obtain c where c: "read_local 4 t = Inr (c, s')" "\<not> (word_le c :: 32 word) \<le> 0xffff"
      "v = ucast (word_le c :: 32 word)"
      by (auto simp: rbind_eq_Inr split: if_split_asm)
    have "ser_int (word_le c :: 32 word) = c" using c(1) by (intro ser_int_word_le) (simp add: read_local_Inr)
    with 3 b sb c ucast_wide(3) ucast_wide(6) [OF c(2)] show ?thesis
      by (simp add: ser_varint_def read_local_Inr)
  next
    case 4
    with run obtain c where c: "read_local 8 t = Inr (c, s')" "\<not> v \<le> 0xffffffff"
      "v = word_le c"
      by (auto simp: rbind_eq_Inr split: if_split_asm)
    have "ser_int (word_le c :: 64 word) = c" using c(1) by (intro ser_int_word_le) (simp add: read_local_Inr)
    moreover have "\<not> v < 253" "\<not> v \<le> 0xffff" using c(2) by (auto simp: word_less_nat_alt word_le_nat_alt)
    ultimately show ?thesis using 4 b sb c by (simp add: ser_varint_def read_local_Inr)
  qed
qed

section \<open>The contract of a serializable type\<close>

text \<open>
  What a client of \<open>Serialize\<close> and \<open>Unserialize\<close> relies on: reading back the bytes of a value over a
  suitable object gives the value and leaves exactly the bytes behind them. \<open>ok n x\<close> are the values
  the contract holds for when \<open>resize\<close> succeeds up to \<open>n\<close> elements, and \<open>ready\<close> the objects that may
  be read into.
\<close>

locale codec =
  fixes ser :: "'a \<Rightarrow> bytes"
    and unser :: "'a \<Rightarrow> istream \<Rightarrow> io_fault + 'a \<times> istream"
    and ok :: "nat \<Rightarrow> 'a \<Rightarrow> bool"
    and ready :: "'a \<Rightarrow> bool"
  assumes decode: "good s \<Longrightarrow> buf s = ser x @ r \<Longrightarrow> ok (room s) x \<Longrightarrow> ready old \<Longrightarrow>
    unser old s = Inr (x, s\<lparr>buf := r\<rparr>)"
begin

lemma prefix_free:
  assumes "ok n x" and "ok n y" and "ready old" and "ser x @ r = ser y @ r'"
  shows "x = y \<and> r = r'"
proof -
  let ?s = "\<lparr>buf = ser x @ r, good = True, room = n\<rparr>"
  have "unser old ?s = Inr (x, ?s\<lparr>buf := r\<rparr>)" "unser old ?s = Inr (y, ?s\<lparr>buf := r'\<rparr>)"
    using decode [of ?s x r old] decode [of ?s y r' old] assms by simp_all
  then show ?thesis by simp
qed

lemma decode_list:
  assumes "good s" and "buf s = ser_list ser xs @ r" and "\<And>x. x \<in> set xs \<Longrightarrow> ok (room s) x"
    and "length old = length xs" and "\<And>x. x \<in> set old \<Longrightarrow> ready x"
  shows "unser_list unser old s = Inr (xs, s\<lparr>buf := r\<rparr>)"
  using assms
proof (induction xs arbitrary: old s)
  case Nil
  then show ?case by (simp add: ser_list_def)
next
  case (Cons x xs)
  then obtain y ys where old: "old = y # ys" by (cases old) auto
  have "unser y s = Inr (x, s\<lparr>buf := ser_list ser xs @ r\<rparr>)"
    using Cons.prems old by (intro decode) (auto simp: ser_list_def)
  moreover have "unser_list unser ys (s\<lparr>buf := ser_list ser xs @ r\<rparr>) = Inr (xs, s\<lparr>buf := r\<rparr>)"
    using Cons.prems old Cons.IH [of "s\<lparr>buf := ser_list ser xs @ r\<rparr>" ys] by simp
  ultimately show ?case using old by simp
qed

end

text \<open>
  A type whose default object may be read into: vectors of it, written behind their size, satisfy the
  contract again.
\<close>

definition sized_ok :: "(nat \<Rightarrow> 'a \<Rightarrow> bool) \<Rightarrow> nat \<Rightarrow> 'a list \<Rightarrow> bool" where
  "sized_ok ok n xs \<longleftrightarrow> length xs \<le> n \<and> length xs < 2 ^ 64 \<and> (\<forall>x \<in> set xs. ok n x)"

definition all_ready :: "('a \<Rightarrow> bool) \<Rightarrow> 'a list \<Rightarrow> bool" where
  "all_ready ready xs \<longleftrightarrow> (\<forall>x \<in> set xs. ready x)"

lemma length_resize [simp]: "length (resize n d xs) = n"
  by (simp add: resize_def)

lemma set_resize: "x \<in> set (resize n d xs) \<Longrightarrow> x = d \<or> x \<in> set xs"
  by (auto simp: resize_def dest: in_set_takeD)

lemma unat_word_of_length: "n < 2 ^ 64 \<Longrightarrow> unat (word_of_nat n :: 64 word) = n"
  by (simp add: unat_of_nat)

locale vector_codec = codec +
  fixes dflt :: 'a
  assumes ready_dflt: "ready dflt"
begin

lemma decode_sized:
  assumes "good s" and "buf s = ser_sized ser xs @ r" and "sized_ok ok (room s) xs" and "all_ready ready old"
  shows "unser_sized dflt unser old s = Inr (xs, s\<lparr>buf := r\<rparr>)"
proof -
  let ?s = "s\<lparr>buf := ser_list ser xs @ r\<rparr>"
  have "unser_varint s = Inr (word_of_nat (length xs), ?s)"
    using assms(1,2) by (intro unser_varint_decode) (simp_all add: ser_sized_def)
  moreover have "unser_list unser (resize (length xs) dflt old) ?s = Inr (xs, ?s\<lparr>buf := r\<rparr>)"
    using assms ready_dflt
    by (intro decode_list) (auto simp: sized_ok_def all_ready_def dest: set_resize)
  ultimately show ?thesis
    using assms(3) by (simp add: unser_sized_def sized_ok_def unat_word_of_length)
qed

end

sublocale vector_codec \<subseteq> vector: codec "ser_sized ser" "unser_sized dflt unser" "sized_ok ok" "all_ready ready"
  by unfold_locales (rule decode_sized)

section \<open>The types of this file satisfy it\<close>

text \<open>
  Integers of whole bytes, over any old value; byte strings of a fixed length; and the vectors of
  bytes behind their size.
\<close>

interpretation u8: vector_codec "ser_int :: 8 word \<Rightarrow> bytes" unser_int "\<lambda>n x. True" "\<lambda>x. True" 0
  by unfold_locales (auto intro: unser_int_decode)

interpretation u16: vector_codec "ser_int :: 16 word \<Rightarrow> bytes" unser_int "\<lambda>n x. True" "\<lambda>x. True" 0
  by unfold_locales (auto intro: unser_int_decode)

interpretation u32: vector_codec "ser_int :: 32 word \<Rightarrow> bytes" unser_int "\<lambda>n x. True" "\<lambda>x. True" 0
  by unfold_locales (auto intro: unser_int_decode)

interpretation u64: vector_codec "ser_int :: 64 word \<Rightarrow> bytes" unser_int "\<lambda>n x. True" "\<lambda>x. True" 0
  by unfold_locales (auto intro: unser_int_decode)

interpretation varint: codec ser_varint "\<lambda>old. unser_varint" "\<lambda>n x. True" "\<lambda>x. True"
  by unfold_locales (auto intro: unser_varint_decode)

definition bytes_ok :: "nat \<Rightarrow> bytes \<Rightarrow> bool" where
  "bytes_ok n bs \<longleftrightarrow> length bs \<le> n \<and> length bs < 2 ^ 64"

lemma unser_sized_bytes_decode:
  assumes "good s" and "buf s = ser_sized_bytes bs @ r" and "bytes_ok (room s) bs"
  shows "unser_sized_bytes old s = Inr (bs, s\<lparr>buf := r\<rparr>)"
proof -
  let ?s = "s\<lparr>buf := bs @ r\<rparr>"
  have "unser_varint s = Inr (word_of_nat (length bs), ?s)"
    using assms(1,2) by (intro unser_varint_decode) (simp_all add: ser_sized_bytes_def ser_bytes_def)
  moreover have "unser_bytes (resize (length bs) 0 old) ?s = Inr (bs, ?s\<lparr>buf := r\<rparr>)"
    using assms(1) by (intro unser_bytes_decode) simp_all
  ultimately show ?thesis
    using assms(3) by (simp add: unser_sized_bytes_def bytes_ok_def unat_word_of_length)
qed

interpretation sized_bytes: vector_codec ser_sized_bytes unser_sized_bytes bytes_ok "\<lambda>x. True" "[]"
  by unfold_locales (auto intro: unser_sized_bytes_decode)

text \<open>A string reads back only over an object that already has its length; an empty one stays empty.\<close>

lemma unser_varstring_decode:
  assumes "good s" and "buf s = ser_varstring str @ r" and "length old = length str"
  shows "unser_varstring old s = Inr (str, s\<lparr>buf := r\<rparr>)"
proof -
  have "unser_varint s = Inr (word_of_nat (length str), s\<lparr>buf := str @ r\<rparr>)"
    using assms(1,2) by (intro unser_varint_decode) (simp_all add: ser_varstring_def ser_bytes_def)
  moreover have "unser_bytes old (s\<lparr>buf := str @ r\<rparr>) = Inr (str, s\<lparr>buf := r\<rparr>)"
    using unser_bytes_decode [of "s\<lparr>buf := str @ r\<rparr>" str r old] assms(1,3) by simp
  ultimately show ?thesis by (simp add: unser_varstring_def)
qed

lemma unser_varstring_empty:
  assumes "good s" and "buf s = ser_varstring str @ r"
  shows "unser_varstring [] s = Inr ([], s\<lparr>buf := str @ r\<rparr>)"
proof -
  have "unser_varint s = Inr (word_of_nat (length str), s\<lparr>buf := str @ r\<rparr>)"
    using assms by (intro unser_varint_decode) (simp_all add: ser_varstring_def ser_bytes_def)
  then show ?thesis using assms(1) by (simp add: unser_varstring_def unser_bytes_def read_over_def)
qed

end
