(* ===== verification/HashStream.thy ===== *)
theory HashStream
  imports Hasher Streams
begin

text \<open>
  \<open>src/other/HashStreamBuffer.hpp\<close> and \<open>src/other/HashStream.hpp\<close>: an output stream that hashes
  twice what is written to it. The class is a template over the hasher, an argument here.

  The result for a client is \<open>HashStream_digest\<close>: the digest depends only on the concatenation of
  the data written since the last digest.
\<close>

record 'h hash_stream =
  hs_buffer :: bytes
  hs_pptr :: nat
  hs_digest_buf :: bytes
  hs_valid :: bool
  hs_hasher :: 'h
  hs_writeCount :: nat

text \<open>The buffer of 64 characters is not initialised; \<open>junk\<close> is what it holds.\<close>

definition hs_new :: "'h hasher \<Rightarrow> bytes \<Rightarrow> 'h hash_stream" where
  "hs_new ops junk =
     \<lparr>hs_buffer = junk, hs_pptr = 0, hs_digest_buf = replicate (OUTPUT_SIZE ops) 0, hs_valid = False,
      hs_hasher = New ops, hs_writeCount = 0\<rparr>"

definition hs_size :: "'h hash_stream \<Rightarrow> nat" where
  "hs_size s = hs_writeCount s"

definition hs_sync :: "'h hasher \<Rightarrow> 'h hash_stream \<Rightarrow> 'h hash_stream" where
  "hs_sync ops s =
     (if hs_pptr s = 0 then s
      else s\<lparr>hs_hasher := Write ops (take (hs_pptr s) (hs_buffer s)) (hs_hasher s), hs_pptr := 0\<rparr>)"

definition hs_digest :: "'h hasher \<Rightarrow> 'h hash_stream \<Rightarrow> bytes \<times> 'h hash_stream" where
  "hs_digest ops s =
     (if hs_valid s then (hs_digest_buf s, s)
      else
        let s = hs_sync ops s;
            (d, h) = Finalize ops (hs_hasher s);
            (d, h) = Finalize ops (Write ops d (Reset ops h))
        in (d, s\<lparr>hs_digest_buf := d, hs_hasher := h, hs_valid := True\<rparr>))"

text \<open>\<open>uint256 hash()\<close>: the digest copied into a blob of 32 zero bytes; a longer digest does not fit.\<close>

definition blob256_of :: "bytes \<Rightarrow> io_fault + bytes" where
  "blob256_of data = (if length data \<le> 32 then Inr (data @ replicate (32 - length data) 0) else Inl Undefined)"

definition hs_hash :: "'h hasher \<Rightarrow> 'h hash_stream \<Rightarrow> io_fault + bytes \<times> 'h hash_stream" where
  "hs_hash ops s =
     (case hs_digest ops s of (d, s) \<Rightarrow> rbind (blob256_of d) (\<lambda>hash. Inr (hash, s)))"

text \<open>
  \<open>xsputn\<close>, behind every \<open>write\<close> on the stream. The data fills the buffer; when it does not fit, the
  full buffer is hashed and the rest is kept, or hashed directly if it is a block or more.
\<close>

definition hs_xsputn :: "'h hasher \<Rightarrow> bytes \<Rightarrow> 'h hash_stream \<Rightarrow> 'h hash_stream" where
  "hs_xsputn ops data s =
     (let s = (if hs_valid s
               then s\<lparr>hs_hasher := Reset ops (hs_hasher s), hs_writeCount := 0, hs_valid := False\<rparr> else s);
          space = 64 - hs_pptr s
      in if length data < space
         then s\<lparr>hs_buffer := memcpy_at (hs_buffer s) (hs_pptr s) data, hs_pptr := hs_pptr s + length data,
                hs_writeCount := hs_writeCount s + length data\<rparr>
         else
           let buffer = memcpy_at (hs_buffer s) (hs_pptr s) (take space data);
               s = s\<lparr>hs_buffer := buffer, hs_hasher := Write ops buffer (hs_hasher s), hs_pptr := 0\<rparr>;
               remain = drop space data
           in if length remain < 64
              then s\<lparr>hs_buffer := memcpy_at (hs_buffer s) 0 remain, hs_pptr := length remain,
                     hs_writeCount := hs_writeCount s + length data\<rparr>
              else s\<lparr>hs_hasher := Write ops remain (hs_hasher s),
                     hs_writeCount := hs_writeCount s + length data\<rparr>)"

text \<open>
  Single characters: \<open>sputc\<close> of the base class stores the character while there is room and calls
  \<open>overflow\<close> otherwise, which stores it at \<open>pptr()\<close> all the same: behind the array.
\<close>

definition hs_overflow :: "'h hasher \<Rightarrow> byte \<Rightarrow> 'h hash_stream \<Rightarrow> io_fault + 'h hash_stream" where
  "hs_overflow ops c s =
     (if hs_pptr s < 64
      then Inr (hs_sync ops (s\<lparr>hs_buffer := (hs_buffer s)[hs_pptr s := c], hs_pptr := hs_pptr s + 1,
        hs_writeCount := hs_writeCount s + 1\<rparr>))
      else Inl Undefined)"

definition hs_sputc :: "'h hasher \<Rightarrow> byte \<Rightarrow> 'h hash_stream \<Rightarrow> io_fault + 'h hash_stream" where
  "hs_sputc ops c s =
     (if hs_pptr s < 64 then Inr (s\<lparr>hs_buffer := (hs_buffer s)[hs_pptr s := c], hs_pptr := hs_pptr s + 1\<rparr>)
      else hs_overflow ops c s)"

section \<open>The digest of what was written\<close>

text \<open>
  \<open>hs_holds rep s m\<close>: the data written since the last digest is \<open>m\<close>. After a digest the stream holds
  no data: the next write starts a new message.
\<close>

definition hs_holds :: "('h \<Rightarrow> bytes \<Rightarrow> bool) \<Rightarrow> 'h hash_stream \<Rightarrow> bytes \<Rightarrow> bool" where
  "hs_holds rep s m \<longleftrightarrow>
     length (hs_buffer s) = 64 \<and> hs_pptr s < 64 \<and>
     (if hs_valid s then m = [] \<and> hs_pptr s = 0 \<and> (\<exists>m'. rep (hs_hasher s) m')
      else hs_writeCount s = length m \<and>
        (\<exists>m'. rep (hs_hasher s) m' \<and> m = m' @ take (hs_pptr s) (hs_buffer s)))"

context hasher_contract
begin

lemma hs_holds_new: "length junk = 64 \<Longrightarrow> hs_holds rep (hs_new ops junk) []"
  using rep_New by (auto simp: hs_holds_def hs_new_def)

lemma memcpy_prefix:
  "length b0 = 64 \<Longrightarrow> pos + length data \<le> 64 \<Longrightarrow>
     take (pos + length data) (memcpy_at b0 pos data) = take pos b0 @ data \<and>
     length (memcpy_at b0 pos data) = 64"
  by (simp add: take_memcpy_at length_memcpy_at)

lemma hs_holds_write_fresh:
  assumes "hs_holds rep s m" and "\<not> hs_valid s"
  shows "hs_holds rep (hs_xsputn ops data s) (m @ data)"
proof -
  obtain m' where m': "rep (hs_hasher s) m'" "m = m' @ take (hs_pptr s) (hs_buffer s)"
    using assms by (auto simp: hs_holds_def)
  note s = assms [unfolded hs_holds_def]
  let ?space = "64 - hs_pptr s"
  show ?thesis
  proof (cases "length data < ?space")
    case True
    then show ?thesis
      using s m' memcpy_prefix [of "hs_buffer s" "hs_pptr s" data]
      by (auto simp: hs_xsputn_def hs_holds_def Let_def)
  next
    case False
    let ?b = "memcpy_at (hs_buffer s) (hs_pptr s) (take ?space data)" and ?remain = "drop ?space data"
    have b: "?b = take (hs_pptr s) (hs_buffer s) @ take ?space data" "length ?b = 64"
      using s False by (simp_all add: memcpy_at_def)
    have w: "rep (Write ops ?b (hs_hasher s)) (m @ take ?space data)"
      using rep_Write [OF m'(1), of ?b] m'(2) b by simp
    show ?thesis
    proof (cases "length ?remain < 64")
      case True
      have "take (length ?remain) (memcpy_at ?b 0 ?remain) = ?remain \<and> length (memcpy_at ?b 0 ?remain) = 64"
        using memcpy_prefix [of ?b 0 ?remain] True b by simp
      moreover have "m @ data = (m @ take ?space data) @ ?remain" by simp
      ultimately show ?thesis
        using s False True w
        by (auto simp: hs_xsputn_def hs_holds_def Let_def simp del: append_assoc intro!: exI [of _ "m @ take ?space data"])
    next
      case more: False
      have "rep (Write ops ?remain (Write ops ?b (hs_hasher s))) (m @ data)"
        using rep_Write [OF w, of ?remain] by simp
      then show ?thesis
        using s False more b by (auto simp: hs_xsputn_def hs_holds_def Let_def)
    qed
  qed
qed

lemma hs_holds_write: "hs_holds rep s m \<Longrightarrow> hs_holds rep (hs_xsputn ops data s) (m @ data)"
proof (cases "hs_valid s")
  case True
  assume s: "hs_holds rep s m"
  let ?s = "s\<lparr>hs_hasher := Reset ops (hs_hasher s), hs_writeCount := 0, hs_valid := False\<rparr>"
  have "hs_holds rep ?s []" using s True rep_Reset by (auto simp: hs_holds_def)
  then have "hs_holds rep (hs_xsputn ops data ?s) ([] @ data)" by (rule hs_holds_write_fresh) simp
  moreover have "hs_xsputn ops data s = hs_xsputn ops data ?s" using True by (simp add: hs_xsputn_def)
  ultimately show ?thesis using s True by (simp add: hs_holds_def)
qed (rule hs_holds_write_fresh)

lemma hs_holds_writes: "hs_holds rep s m \<Longrightarrow> hs_holds rep (fold (hs_xsputn ops) ds s) (m @ concat ds)"
proof (induction ds arbitrary: s m)
  case (Cons d ds)
  show ?case using Cons.IH [OF hs_holds_write [OF Cons.prems]] by simp
qed simp

lemma hs_digest_holds:
  assumes "hs_holds rep s m" and "\<not> hs_valid s"
  shows "\<exists>s'. hs_digest ops s = (H (H m), s') \<and> hs_holds rep s' [] \<and> hs_valid s' \<and> hs_digest_buf s' = H (H m)"
proof -
  have sync: "rep (hs_hasher (hs_sync ops s)) m" "hs_pptr (hs_sync ops s) = 0"
    "length (hs_buffer (hs_sync ops s)) = 64"
    using assms rep_Write by (auto simp: hs_holds_def hs_sync_def)
  obtain d h where d: "Finalize ops (hs_hasher (hs_sync ops s)) = (d, h)" by fastforce
  have "d = H m" using Finalize_digest [OF sync(1)] d by simp
  obtain m1 where "rep h m1" using rep_Finalize [OF sync(1)] d by auto
  then have "rep (Write ops d (Reset ops h)) ([] @ d)" by (intro rep_Write rep_Reset)
  moreover obtain d' h' where d': "Finalize ops (Write ops d (Reset ops h)) = (d', h')" by fastforce
  ultimately have "d' = H d" "\<exists>m2. rep h' m2"
    using Finalize_digest [of "Write ops d (Reset ops h)" d] rep_Finalize [of "Write ops d (Reset ops h)" d] by auto
  then show ?thesis
    using assms sync d d' \<open>d = H m\<close> by (auto simp: hs_digest_def hs_holds_def)
qed

text \<open>The digest of a new stream after any sequence of writes.\<close>

lemma HashStream_digest:
  assumes "length junk = 64"
  shows "fst (hs_digest ops (fold (hs_xsputn ops) ds (hs_new ops junk))) = H (H (concat ds))"
proof (cases ds)
  case Nil
  then show ?thesis
    using hs_digest_holds [OF hs_holds_new [OF assms]] by (auto simp: hs_new_def)
next
  case (Cons d ds')
  let ?s = "fold (hs_xsputn ops) ds (hs_new ops junk)"
  have "\<not> hs_valid (hs_xsputn ops d s)" for d and s :: "'h hash_stream"
    by (simp add: hs_xsputn_def Let_def)
  then have "\<not> hs_valid (fold (hs_xsputn ops) ds s)" if "\<not> hs_valid s" for ds and s :: "'h hash_stream"
    using that by (induction ds arbitrary: s) simp_all
  then have "\<not> hs_valid ?s" by (simp add: hs_new_def)
  then show ?thesis
    using hs_digest_holds [OF hs_holds_writes [OF hs_holds_new [OF assms], of ds]] by auto
qed

text \<open>A second call gives the same digest, and the next write starts a new message.\<close>

lemma digest_then_write:
  assumes "hs_holds rep s m" and "\<not> hs_valid s" and "hs_digest ops s = (d, s')"
  shows "hs_digest ops s' = (d, s') \<and> fst (hs_digest ops (hs_xsputn ops data s')) = H (H data)"
proof -
  have s': "hs_holds rep s' []" "hs_valid s'" "hs_digest_buf s' = d"
    using hs_digest_holds [OF assms(1,2)] assms(3) by auto
  have "\<not> hs_valid (hs_xsputn ops data s')" by (simp add: hs_xsputn_def Let_def)
  then show ?thesis
    using hs_digest_holds [OF hs_holds_write [OF s'(1), of data]] s' by (auto simp: hs_digest_def)
qed

end

text \<open>The sixty-fifth single character is stored behind the array.\<close>

lemma hs_sputc_run:
  "n \<le> 64 \<Longrightarrow> \<exists>b. foldl (\<lambda>r c. rbind r (hs_sputc ops c)) (Inr (hs_new ops junk)) (replicate n c) =
     Inr ((hs_new ops junk)\<lparr>hs_buffer := b, hs_pptr := n\<rparr>)"
proof (induction n)
  case 0
  have "hs_new ops junk = (hs_new ops junk)\<lparr>hs_buffer := junk, hs_pptr := 0\<rparr>" by (simp add: hs_new_def)
  then show ?case by fastforce
next
  case (Suc n)
  then obtain b where "foldl (\<lambda>r c. rbind r (hs_sputc ops c)) (Inr (hs_new ops junk)) (replicate n c) =
      Inr ((hs_new ops junk)\<lparr>hs_buffer := b, hs_pptr := n\<rparr>)" by auto
  then show ?case
    using Suc.prems by (simp add: replicate_append_same [symmetric] hs_sputc_def del: replicate_append_same) (metis)
qed

lemma hs_sputc_overflow:
  "foldl (\<lambda>r c. rbind r (hs_sputc ops c)) (Inr (hs_new ops junk)) (replicate 65 c) = Inl Undefined"
proof -
  obtain b where "foldl (\<lambda>r c. rbind r (hs_sputc ops c)) (Inr (hs_new ops junk)) (replicate 64 c) =
      Inr ((hs_new ops junk)\<lparr>hs_buffer := b, hs_pptr := 64\<rparr>)"
    using hs_sputc_run [of 64 ops junk c] by auto
  moreover have "replicate 65 c = replicate 64 c @ [c]"
    using replicate_append_same [of 64 c] replicate_Suc [of 64 c] by simp
  ultimately show ?thesis by (simp only: foldl_append foldl.simps rbind_Inr hs_sputc_def hs_overflow_def) simp
qed

end
