(* ===== verification/Merkle.thy ===== *)
theory Merkle
  imports HashStream
begin

text \<open>
  \<open>src/other/MerkleTree.hpp\<close>: the Merkle root of a block's transactions, computed in place in one
  vector of concatenated digests, two digests at a time.

  The vector is its bytes and its capacity: appending to it from itself is undefined once that would
  reallocate. The result is \<open>MerkleRoot_tree\<close>: the root is the textbook tree's, and none of the reads,
  writes and copies is out of bounds.
\<close>

section \<open>The code\<close>

text \<open>\<open>MerkleLeaves\<close>: each item is the list of the pieces that its \<open>Serialize\<close> writes.\<close>

definition MerkleLeaves :: "'h hasher \<Rightarrow> bytes \<Rightarrow> bytes list list \<Rightarrow> bytes" where
  "MerkleLeaves ops junk items =
     concat (map (\<lambda>pieces. fst (hs_digest ops (fold (hs_xsputn ops) pieces (hs_new ops junk)))) items)"

text \<open>
  The inner loop \<open>for (;;)\<close>, with \<open>src\<close> and \<open>dst\<close> as offsets: both hash steps go through the same
  hasher, and the second reads the digest the first has stored at \<open>dst\<close>.
\<close>

definition merkle_pair :: "'h hasher \<Rightarrow> bytes \<Rightarrow> nat \<Rightarrow> nat \<Rightarrow> 'h \<Rightarrow> bytes \<times> 'h" where
  "merkle_pair ops hashes src dst h =
     (let n = OUTPUT_SIZE ops;
          (d, h) = Finalize ops (Write ops (take (2 * n) (drop src hashes)) (Reset ops h));
          hashes = memcpy_at hashes dst d;
          (d, h) = Finalize ops (Write ops (take n (drop dst hashes)) (Reset ops h))
      in (memcpy_at hashes dst d, h))"

function merkle_loop :: "'h hasher \<Rightarrow> bytes \<Rightarrow> nat \<Rightarrow> nat \<Rightarrow> 'h \<Rightarrow> io_fault + bytes \<times> 'h" where
  "merkle_loop ops hashes src dst h =
     (let n = OUTPUT_SIZE ops
      in if n = 0 \<or> length hashes < src + 2 * n \<or> length hashes < dst + n then Inl Undefined
         else
           let r = merkle_pair ops hashes src dst h
           in if length hashes \<le> src + 2 * n then Inr r
              else if length (fst r) \<noteq> length hashes then Inl Undefined
              else merkle_loop ops (fst r) (src + 2 * n) (dst + n) (snd r))"
  by pat_completeness auto
termination
  by (relation "measure (\<lambda>(ops, hashes, src, dst, h). length hashes - src)") (auto simp: Let_def)

declare merkle_loop.simps [simp del]

text \<open>The outer loop, on the vector with its capacity, and the function.\<close>

definition push_last :: "nat \<Rightarrow> nat \<Rightarrow> bytes \<Rightarrow> io_fault + bytes" where
  "push_last n cap hashes =
     (if cap < length hashes + n then Inl Undefined
      else Inr (hashes @ drop (length hashes - n) hashes))"

function merkle_levels :: "'h hasher \<Rightarrow> nat \<Rightarrow> bytes \<Rightarrow> 'h \<Rightarrow> io_fault + bytes" where
  "merkle_levels ops cap hashes h =
     (let n = OUTPUT_SIZE ops
      in if n < length hashes
         then rbind (if odd (length hashes div n) then push_last n cap hashes else Inr hashes) (\<lambda>hashes'.
              rbind (merkle_loop ops hashes' 0 0 h) (\<lambda>(hashes'', h).
              if length hashes \<le> length hashes' div 2 then Inl Undefined
              else merkle_levels ops cap (take (length hashes' div 2) hashes'') h))
         else Inr hashes)"
  by pat_completeness auto
termination
  by (relation "measure (\<lambda>(ops, cap, hashes, h). length hashes)") (auto simp: min_def)

declare merkle_levels.simps [simp del]

definition MerkleRoot_hashes :: "'h hasher \<Rightarrow> nat \<Rightarrow> bytes \<Rightarrow> io_fault + bytes" where
  "MerkleRoot_hashes ops cap hashes =
     (let n = OUTPUT_SIZE ops;
          cap = (if n < length hashes \<and> odd (length hashes div n) then max cap (length hashes + n) else cap)
      in rbind (merkle_levels ops cap hashes (New ops)) blob256_of)"

definition MerkleRoot :: "'h hasher \<Rightarrow> bytes \<Rightarrow> bytes list list \<Rightarrow> io_fault + bytes" where
  "MerkleRoot ops junk items =
     (let hashes = MerkleLeaves ops junk items in MerkleRoot_hashes ops (length hashes) hashes)"

section \<open>Reference: the tree\<close>

fun tree_level :: "(bytes \<Rightarrow> bytes) \<Rightarrow> bytes list \<Rightarrow> bytes list" where
  "tree_level D [] = []"
| "tree_level D [x] = [D (x @ x)]"
| "tree_level D (x # y # zs) = D (x @ y) # tree_level D zs"

lemma length_tree_level: "length (tree_level D xs) = (length xs + 1) div 2"
  by (induction D xs rule: tree_level.induct) auto

function tree_root :: "(bytes \<Rightarrow> bytes) \<Rightarrow> bytes list \<Rightarrow> bytes" where
  "tree_root D [] = replicate 32 0"
| "tree_root D [x] = x"
| "tree_root D (x # y # zs) = tree_root D (tree_level D (x # y # zs))"
  by pat_completeness auto
termination
  by (relation "measure (\<lambda>(D, xs). length xs)") (auto simp: length_tree_level)

lemma tree_root_level: "2 \<le> length xs \<Longrightarrow> tree_root D xs = tree_root D (tree_level D xs)"
  by (cases "(D, xs)" rule: tree_root.cases) auto

text \<open>A last digest without a partner is paired with itself.\<close>

lemma tree_level_append: "even (length xs) \<Longrightarrow> tree_level D (xs @ ys) = tree_level D xs @ tree_level D ys"
  by (induction D xs rule: tree_level.induct) auto

lemma tree_root_duplicate:
  assumes "even (length xs)" and "xs \<noteq> []"
  shows "tree_root D (xs @ [x]) = tree_root D (xs @ [x, x])"
  using assms by (subst (1 2) tree_root_level) (simp_all add: tree_level_append Suc_le_eq)

section \<open>The code computes the tree\<close>

context hasher_contract
begin

abbreviation D2 :: "bytes \<Rightarrow> bytes" where
  "D2 data \<equiv> H (H data)"

lemma merkle_pair_digest:
  assumes "rep h m" and "dst + OUTPUT_SIZE ops \<le> length hashes"
  shows "\<exists>h' m'. merkle_pair ops hashes src dst h =
    (memcpy_at hashes dst (D2 (take (2 * OUTPUT_SIZE ops) (drop src hashes))), h') \<and> rep h' m'"
proof -
  let ?n = "OUTPUT_SIZE ops" let ?data = "take (2 * ?n) (drop src hashes)"
  have r1: "rep (Write ops ?data (Reset ops h)) ([] @ ?data)" by (intro rep_Write rep_Reset [OF assms(1)])
  obtain d1 h1 where f1: "Finalize ops (Write ops ?data (Reset ops h)) = (d1, h1)" by fastforce
  have d1: "d1 = H ?data" using Finalize_digest [OF r1] f1 by simp
  obtain m1 where m1: "rep h1 m1" using rep_Finalize [OF r1] f1 by auto
  let ?hs = "memcpy_at hashes dst d1"
  have hs: "take ?n (drop dst ?hs) = d1" using assms(2) length_H d1 by (simp add: memcpy_at_def)
  have r2: "rep (Write ops d1 (Reset ops h1)) ([] @ d1)" by (intro rep_Write rep_Reset [OF m1])
  obtain d2 h2 where f2: "Finalize ops (Write ops d1 (Reset ops h1)) = (d2, h2)" by fastforce
  have "d2 = H d1" using Finalize_digest [OF r2] f2 by simp
  moreover obtain m2 where "rep h2 m2" using rep_Finalize [OF r2] f2 by auto
  moreover have "memcpy_at ?hs dst d2 = memcpy_at hashes dst d2"
    using assms(2) length_H d1 \<open>d2 = H d1\<close> by (simp add: memcpy_at_def)
  ultimately show ?thesis using f1 f2 d1 hs by (auto simp: merkle_pair_def Let_def)
qed

text \<open>
  The digests of this level lie in front of \<open>dst\<close>, the digests still to be read from \<open>src\<close> on;
  between them lie \<open>g\<close> bytes that are not needed any more.
\<close>

lemma merkle_loop_level:
  assumes "even (length rest)" and "rest \<noteq> []" and "\<forall>x \<in> set rest. length x = OUTPUT_SIZE ops"
    and "0 < OUTPUT_SIZE ops" and "rep h m" and "length g = length done"
  shows "\<exists>h' m' g'. merkle_loop ops (done @ g @ concat rest) (length (done @ g)) (length done) h =
      Inr (done @ concat (tree_level D2 rest) @ g', h') \<and> rep h' m' \<and>
      length g' = length (done @ concat (tree_level D2 rest))"
  using assms
proof (induction D2 rest arbitrary: "done" g h m rule: tree_level.induct)
  case (3 x y zs)
  let ?n = "OUTPUT_SIZE ops"
  define hs where "hs = done @ g @ concat (x # y # zs)"
  define src dst d where "src = length (done @ g)" and "dst = length done" and "d = D2 (x @ y)"
  have xy: "length x = ?n" "length y = ?n" "length d = ?n" using 3(4) length_H by (auto simp: d_def)
  have "0 < length (concat zs) \<longleftrightarrow> zs \<noteq> []" using 3(4,5) by (cases zs) auto
  then have lens: "src + 2 * ?n \<le> length hs" "dst + ?n \<le> length hs" "length hs \<le> src + 2 * ?n \<longleftrightarrow> zs = []"
    using xy by (auto simp: hs_def src_def dst_def)
  obtain h1 m1 where p: "merkle_pair ops hs src dst h = (memcpy_at hs dst d, h1)" "rep h1 m1"
    using merkle_pair_digest [OF 3(6), of dst hs src] lens xy by (auto simp: hs_def src_def d_def)
  define g1 where "g1 = drop ?n (g @ x @ y)"
  have hs1: "memcpy_at hs dst d = (done @ d) @ g1 @ concat zs"
    and g1: "length g1 = length (done @ d)" "length ((done @ d) @ g1) = src + 2 * ?n" "length (done @ d) = dst + ?n"
    using xy 3(7) by (simp_all add: memcpy_at_def g1_def hs_def dst_def src_def)
  have len1: "length (memcpy_at hs dst d) = length hs" using lens xy by (simp add: length_memcpy_at)
  have "\<exists>h' m' g'. merkle_loop ops hs src dst h = Inr (done @ concat (tree_level D2 (x # y # zs)) @ g', h') \<and>
      rep h' m' \<and> length g' = length (done @ concat (tree_level D2 (x # y # zs)))"
  proof (cases "zs = []")
    case True
    then have "merkle_loop ops hs src dst h = Inr (memcpy_at hs dst d, h1)"
      using lens 3(5) p by (subst merkle_loop.simps) (simp add: Let_def)
    then show ?thesis using hs1 g1 p(2) True by (auto simp: d_def)
  next
    case False
    then have "merkle_loop ops hs src dst h = merkle_loop ops (memcpy_at hs dst d) (src + 2 * ?n) (dst + ?n) h1"
      using lens 3(5) p len1 by (subst merkle_loop.simps) (simp add: Let_def)
    then have step: "merkle_loop ops hs src dst h =
        merkle_loop ops ((done @ d) @ g1 @ concat zs) (length ((done @ d) @ g1)) (length (done @ d)) h1"
      unfolding hs1 g1(2,3) .
    show ?thesis
      unfolding step using 3(1) [OF _ False _ 3(5) p(2) g1(1)] 3(2,4) by (auto simp: d_def)
  qed
  then show ?case by (simp only: hs_def src_def dst_def)
qed auto

lemma length_level: "\<forall>x \<in> set (tree_level D2 xs). length x = OUTPUT_SIZE ops"
  by (induction D2 xs rule: tree_level.induct) (auto simp: length_H)

lemma merkle_levels_tree:
  assumes "xs \<noteq> []" and "\<forall>x \<in> set xs. length x = OUTPUT_SIZE ops" and "0 < OUTPUT_SIZE ops"
    and "rep h m" and "(length xs + length xs mod 2) * OUTPUT_SIZE ops \<le> cap \<or> length xs = 1"
  shows "merkle_levels ops cap (concat xs) h = Inr (tree_root D2 xs)"
  using assms
proof (induction "length xs" arbitrary: xs h m rule: less_induct)
  case less
  let ?n = "OUTPUT_SIZE ops"
  have len: "length (concat xs) = length xs * ?n"
    using less.prems(2) by (induction xs) auto
  show ?case
  proof (cases "length xs = 1")
    case True
    then obtain x where "xs = [x]" by (cases xs) auto
    then show ?thesis using less.prems by (simp add: merkle_levels.simps)
  next
    case False
    then have two: "2 \<le> length xs" using less.prems(1) by (cases xs; cases "tl xs") auto
    have n: "?n < length (concat xs)" using len two less.prems(3) by simp
    have div: "length (concat xs) div ?n = length xs" using len less.prems(3) by simp
    define ys where "ys = (if odd (length xs) then xs @ [last xs] else xs)"
    have last: "drop (length (concat xs) - ?n) (concat xs) = last xs"
    proof -
      have "concat xs = concat (butlast xs) @ last xs"
        using less.prems(1) by (metis append_butlast_last_id concat.simps concat_append append_Nil2)
      moreover have "length (last xs) = ?n" using less.prems(1,2) by simp
      ultimately show ?thesis by simp
    qed
    have push: "(if odd (length (concat xs) div ?n) then push_last ?n cap (concat xs) else Inr (concat xs)) =
        (Inr (concat ys) :: io_fault + bytes)"
    proof (cases "odd (length xs)")
      case True
      then have "length xs mod 2 = 1" by presburger
      then have "length (concat xs) + ?n \<le> cap" using less.prems(5) False len by (simp add: algebra_simps)
      then show ?thesis using True unfolding push_last_def div last ys_def by simp
    qed (simp add: div ys_def)
    have ys: "even (length ys)" "ys \<noteq> []" "\<forall>x \<in> set ys. length x = ?n" "length ys = length xs + length xs mod 2"
      using less.prems(1,2) by (auto simp: ys_def odd_iff_mod_2_eq_one)
    have level: "tree_level D2 ys = tree_level D2 xs"
    proof (cases "odd (length xs)")
      case True
      then have e: "even (length (butlast xs))" by (cases xs rule: rev_cases) auto
      have "ys = butlast xs @ [last xs, last xs]" "xs = butlast xs @ [last xs]"
        using True less.prems(1) by (simp_all add: ys_def)
      then show ?thesis using tree_level_append [OF e] by (metis tree_level.simps)
    qed (simp add: ys_def)
    obtain h' m' g' where loop: "merkle_loop ops (concat ys) 0 0 h =
        Inr (concat (tree_level D2 xs) @ g', h')" "rep h' m'" "length g' = length (concat (tree_level D2 xs))"
      using merkle_loop_level [OF ys(1-3) less.prems(3,4), of "[]" "[]"] level by auto
    have lev: "\<forall>x \<in> set (tree_level D2 xs). length x = ?n" by (rule length_level)
    have len_lev: "length (concat (tree_level D2 xs)) = length (tree_level D2 xs) * ?n"
      using lev by (induction "tree_level D2 xs") (auto simp: sum_list_triv length_concat cong: map_cong)
    have half: "length (concat ys) div 2 = length (tree_level D2 xs) * ?n"
    proof -
      have "length (concat ys) = length ys * ?n" using ys(3) by (induction ys) auto
      moreover have "n + n mod 2 = 2 * (Suc n div 2)" for n :: nat by presburger
      then have "length ys = 2 * length (tree_level D2 xs)" using ys(4) by (simp add: length_tree_level)
      ultimately show ?thesis by simp
    qed
    have less_len: "length (tree_level D2 xs) < length xs" using two by (simp add: length_tree_level)
    have "merkle_levels ops cap (concat xs) h = merkle_levels ops cap (concat (tree_level D2 xs)) h'"
      using n push loop half len len_lev less_len less.prems(3)
      by (subst merkle_levels.simps) (simp add: Let_def)
    also have "\<dots> = Inr (tree_root D2 (tree_level D2 xs))"
    proof (rule less.hyps [OF less_len _ lev less.prems(3) loop(2)])
      show "tree_level D2 xs \<noteq> []" using two by (cases "tree_level D2 xs") (simp_all add: length_tree_level flip: length_0_conv)
      let ?k = "length (tree_level D2 xs)"
      have "?k + ?k mod 2 \<le> length xs + length xs mod 2" using two by (simp add: length_tree_level)
      then have "(?k + ?k mod 2) * ?n \<le> (length xs + length xs mod 2) * ?n" by (rule mult_le_mono1)
      then show "(?k + ?k mod 2) * ?n \<le> cap \<or> ?k = 1" using less.prems(5) False by linarith
    qed
    finally show ?thesis using tree_root_level [OF two] by simp
  qed
qed

lemma MerkleRoot_hashes_tree:
  assumes "\<forall>x \<in> set xs. length x = 32" and "OUTPUT_SIZE ops = 32" and "length (concat xs) \<le> cap"
  shows "MerkleRoot_hashes ops cap (concat xs) = Inr (tree_root D2 xs)"
proof (cases "xs = []")
  case True
  then show ?thesis
    by (simp add: MerkleRoot_hashes_def merkle_levels.simps blob256_of_def)
next
  case False
  have len: "length (concat xs) = length xs * 32" using assms(1) by (induction xs) auto
  let ?cap = "if 32 < length (concat xs) \<and> odd (length (concat xs) div 32) then max cap (length (concat xs) + 32) else cap"
  have "merkle_levels ops ?cap (concat xs) (New ops) = Inr (tree_root D2 xs)"
  proof (rule merkle_levels_tree [OF False _ _ rep_New])
    show "(length xs + length xs mod 2) * OUTPUT_SIZE ops \<le> ?cap \<or> length xs = 1"
    proof (cases "length xs = 1")
      case False
      moreover have "0 < length xs" using \<open>xs \<noteq> []\<close> by simp
      ultimately have two: "32 < length (concat xs)" unfolding len by linarith
      have div: "length (concat xs) div 32 = length xs" unfolding len by simp
      show ?thesis
      proof (cases "odd (length xs)")
        case True
        then have "?cap = max cap (length (concat xs) + 32)" using two unfolding div by simp
        moreover have "length xs mod 2 = 1" using True by presburger
        moreover have "length xs * 32 + 32 \<le> max cap (length (concat xs) + 32)" unfolding len by simp
        ultimately show ?thesis using assms(2) by (simp only: add_mult_distrib) simp
      next
        case even: False
        then have "length xs mod 2 = 0" by presburger
        then show ?thesis using even assms(2,3) len by simp
      qed
    qed simp
  qed (use assms in auto)
  moreover have "length (tree_root D2 xs) = 32"
    using False assms(1) length_H assms(2)
  proof (induction D2 xs rule: tree_root.induct)
    case (3 x y zs)
    have "\<forall>z \<in> set (tree_level D2 (x # y # zs)). length z = 32"
      using length_level [of "x # y # zs"] assms(2) by simp
    moreover have "tree_level D2 (x # y # zs) \<noteq> []" by simp
    ultimately show ?case using 3 by simp
  qed auto
  ultimately show ?thesis using assms(2) by (simp add: MerkleRoot_hashes_def Let_def blob256_of_def)
qed

text \<open>The root of the items is the root of the tree over their digests.\<close>

lemma MerkleRoot_tree:
  assumes "OUTPUT_SIZE ops = 32" and "length junk = 64"
  shows "MerkleRoot ops junk items = Inr (tree_root D2 (map (\<lambda>pieces. D2 (concat pieces)) items))"
proof -
  have "MerkleLeaves ops junk items = concat (map (\<lambda>pieces. D2 (concat pieces)) items)"
    unfolding MerkleLeaves_def using HashStream_digest [OF assms(2)] by simp
  then show ?thesis
    using MerkleRoot_hashes_tree [of "map (\<lambda>pieces. D2 (concat pieces)) items"] assms(1) length_H
    by (simp add: MerkleRoot_def Let_def)
qed

end

end
