(* ===== verification/HashProps.thy ===== *)
theory HashProps
  imports Digests Sha256Detect HashStream Merkle Execute
begin

text \<open>
  The properties of the digests, the hashing stream buffer and the Merkle tree. The buffers of new
  hashers hold arbitrary bytes (\<open>junk\<close>): none of them reaches a digest.
\<close>

text \<open>
  The digest of a hasher for any split of the data over calls of \<open>Write\<close>, and again after
  \<open>Reset\<close>.
\<close>

definition digests_as :: "'h hasher \<Rightarrow> (bytes \<Rightarrow> bytes) \<Rightarrow> bytes list \<Rightarrow> bytes list \<Rightarrow> bool" where
  "digests_as ops H ds ds' \<longleftrightarrow>
     (case Finalize ops (fold (Write ops) ds (New ops)) of (d, used) \<Rightarrow>
        d = H (concat ds) \<and> fst (Finalize ops (fold (Write ops) ds' (Reset ops used))) = H (concat ds'))"

lemma length_in_chunks: "x \<in> set (chunks B m) \<Longrightarrow> length x = B"
proof (induction B m rule: chunks.induct)
  case (1 B m)
  then show ?case by (subst (asm) (2) chunks.simps) (auto split: if_splits)
qed

lemma hs_valid_writes: "\<not> hs_valid s \<Longrightarrow> \<not> hs_valid (fold (hs_xsputn ops) ds s)"
  by (induction ds arbitrary: s) (simp_all add: hs_xsputn_def Let_def)

lemma exec_digests:
  "exec_op env OP_RIPEMD160 data s = op_RIPEMD env s" "exec_op env OP_SHA1 data s = op_SHA1 env s"
  "exec_op env OP_SHA256 data s = op_SHA256 env s" "exec_op env OP_HASH160 data s = op_Hash160 env s"
  "exec_op env OP_HASH256 data s = op_Hash256 env s"
  by (simp_all add: exec_op_def)

text \<open>The form the five operations share.\<close>

lemma digest_step:
  "rbind (ensureStackHasEnoughFrames 1 s) (\<lambda>_. rbind (take_data s) (\<lambda>(d, s). push_data (H d) s)) =
     (case stk s of [] \<Rightarrow> throw SE_INVALID_STACK_OPERATION
      | x # st \<Rightarrow> rbind (asData x) (\<lambda>d. Inr (s\<lparr>stk := Data (H d) # st\<rparr>)))"
proof (cases "stk s")
  case (Cons x st)
  then show ?thesis by (cases "asData x") (simp_all add: frame_access_defs)
qed (simp add: frame_access_defs)

lemma digests_as_contract:
  assumes "hasher_contract ops rep H"
  shows "digests_as ops H ds ds'"
proof -
  note laws = hasher_contract.Finalize_digest [OF assms] hasher_contract.rep_Finalize [OF assms]
    hasher_contract.rep_fold [OF assms] hasher_contract.rep_Reset [OF assms]
  have rep: "rep (fold (Write ops) ds (New ops)) (concat ds)"
    using laws(3) [OF hasher_contract.rep_New [OF assms]] by simp
  obtain d used where eq: "Finalize ops (fold (Write ops) ds (New ops)) = (d, used)" by fastforce
  then obtain m where "rep used m" "d = H (concat ds)" using laws(1,2) [OF rep] by auto
  then show ?thesis
    using laws(1) [OF laws(3) [OF laws(4)], of used m ds'] eq by (simp add: digests_as_def)
qed

text \<open>C12: the classes \<open>CSHA256\<close>, \<open>CSHA1\<close>, \<open>CRIPEMD160\<close> and \<open>CSHA512\<close> compute the standard digests
  (FIPS 180-4 and the RIPEMD-160 paper, written with message schedules and derived constants) of
  the data, however it is split over calls of \<open>Write\<close>, and again when the object is reused after
  \<open>Reset\<close>.\<close>

theorem digest_classes:
  assumes "length junk = 64" and "length junk' = 128"
  shows "digests_as (CSHA256 junk) fips_SHA256 ds ds' \<and> digests_as (CSHA1 junk) fips_SHA1 ds ds' \<and>
    digests_as (CRIPEMD160 junk) ref_RIPEMD160 ds ds' \<and> digests_as (CSHA512 junk') fips_SHA512 ds ds'"
  using digests_as_contract [OF CSHA256_contract [OF assms(1)]] digests_as_contract [OF CSHA1_contract [OF assms(1)]]
    digests_as_contract [OF CRIPEMD160_contract [OF assms(1)]] digests_as_contract [OF CSHA512_contract [OF assms(2)]]
  by blast

theorem digest_classes_witness:
  "digests_as (CSHA256 (replicate 64 7)) fips_SHA256 [[1, 2], [3]] [] \<and>
   digests_as (CSHA1 (replicate 64 7)) fips_SHA1 [[1, 2], [3]] [] \<and>
   digests_as (CRIPEMD160 (replicate 64 7)) ref_RIPEMD160 [[1, 2], [3]] [] \<and>
   digests_as (CSHA512 (replicate 128 7)) fips_SHA512 [[1, 2], [3]] []"
  by (rule digest_classes) simp_all

text \<open>Double hashes, whichever pointers are set.\<close>

lemma blocks_double:
  "concat (map TransformD64 (chunks 64 inp)) = concat (map (\<lambda>b. fips_SHA256 (fips_SHA256 b)) (chunks 64 inp))"
  by (intro arg_cong [where f = concat] map_cong) (auto intro: TransformD64_double dest: length_in_chunks)

text \<open>C13: for every processor and every selection of the files with vector instructions, the pointers
  that \<open>SHA256AutoDetect\<close> sets, if its self-test passes, make \<open>SHA256D64\<close> the double SHA-256 of every
  64-byte block and \<open>Transform\<close> the compression function of the portable code: the transforms for eight
  (AVX2), four (SSE4.1), two (SHA-NI) and one block agree with it. What is assumed is that the
  assembly routine \<open>sha256_sse4::Transform\<close> does.\<close>

theorem autodetect_double:
  assumes "\<And>s chunk blocks. length s = 8 \<Longrightarrow> 64 * blocks \<le> length chunk \<Longrightarrow>
      sse4 s chunk blocks = sha256_Transform s chunk blocks"
    and "\<And>n. length (junk n) = n"
  shows "\<exists>ret ps. SHA256AutoDetect build processor sse4 junk default_pointers = (if SelfTest ps then Some (ret, ps) else None) \<and>
    (\<forall>inp. 64 dvd length inp \<longrightarrow>
      SHA256D64_with ps inp = concat (map (\<lambda>b. fips_SHA256 (fips_SHA256 b)) (chunks 64 inp))) \<and>
    (\<forall>s chunk blocks. length s = 8 \<longrightarrow> 64 * blocks \<le> length chunk \<longrightarrow>
      p_Transform ps s chunk blocks = sha256_Transform s chunk blocks)"
proof -
  have "transforms sse4" using assms(1) by (simp add: transforms_def)
  then obtain ret ps where "pointers_ok ps"
    "SHA256AutoDetect build processor sse4 junk default_pointers = (if SelfTest ps then Some (ret, ps) else None)"
    using detected_sound [OF _ assms(2) default_ok] by blast
  then show ?thesis
    using pointers_double [of ps] unfolding blocks_double pointers_ok_def transforms_def by blast
qed

theorem autodetect_double_witness:
  "\<exists>ret ps. SHA256AutoDetect
      \<lparr>USE_ASM_x86 = True, x86_64 = True, ENABLE_SHANI = False, ENABLE_SSE41 = True, ENABLE_AVX2 = True,
        BUILD_BITCOIN_INTERNAL = False\<rparr>
      \<lparr>cpuid = (\<lambda>leaf sub. (0, 0x20, 0x18080000, 0)), xgetbv = 7\<rparr> sha256_Transform (\<lambda>n. replicate n 0) default_pointers =
      (if SelfTest ps then Some (ret, ps) else None) \<and>
    (\<forall>inp. 64 dvd length inp \<longrightarrow>
      SHA256D64_with ps inp = concat (map (\<lambda>b. fips_SHA256 (fips_SHA256 b)) (chunks 64 inp))) \<and>
    (\<forall>s chunk blocks. length s = 8 \<longrightarrow> 64 * blocks \<le> length chunk \<longrightarrow>
      p_Transform ps s chunk blocks = sha256_Transform s chunk blocks)"
  by (rule autodetect_double) simp_all

text \<open>C14: \<open>CHMAC_SHA256\<close> and \<open>CHMAC_SHA512\<close> compute HMAC of RFC 2104 over the standard digests, for keys
  of any length and any split of the message.\<close>

theorem hmac_classes:
  assumes "length junk = 64" and "length junk' = 128"
  shows "hmac_Finalize (CSHA256 junk) (fold (hmac_Write (CSHA256 junk)) ds (CHMAC_SHA256 junk key)) =
      HMAC fips_SHA256 64 key (concat ds) \<and>
    hmac_Finalize (CSHA512 junk') (fold (hmac_Write (CSHA512 junk')) ds (CHMAC_SHA512 junk' key)) =
      HMAC fips_SHA512 128 key (concat ds)"
  using assms by (simp add: CHMAC_SHA256_digest CHMAC_SHA512_digest)

theorem hmac_classes_witness:
  "hmac_Finalize (CSHA256 (replicate 64 0)) (fold (hmac_Write (CSHA256 (replicate 64 0))) [[1], [2]]
      (CHMAC_SHA256 (replicate 64 0) (replicate 100 9))) = HMAC fips_SHA256 64 (replicate 100 9) (concat [[1], [2]]) \<and>
   hmac_Finalize (CSHA512 (replicate 128 0)) (fold (hmac_Write (CSHA512 (replicate 128 0))) [[1], [2]]
      (CHMAC_SHA512 (replicate 128 0) (replicate 100 9))) = HMAC fips_SHA512 128 (replicate 100 9) (concat [[1], [2]])"
  by (rule hmac_classes) simp_all

text \<open>in an environment with the program's hash classes, the five digest operations of scripts
  replace the top frame by the standard digest of its data, and fail with
  \<open>INVALID_STACK_OPERATION\<close> on an empty stack.\<close>

lemma script_digests:
  assumes "length junk = 64" and "length junk' = 64" and "ehash env = program_hashers junk junk'"
    and "(opCode, H) \<in> {(OP_RIPEMD160, ref_RIPEMD160), (OP_SHA1, fips_SHA1), (OP_SHA256, fips_SHA256),
      (OP_HASH160, \<lambda>d. ref_RIPEMD160 (fips_SHA256 d)), (OP_HASH256, \<lambda>d. fips_SHA256 (fips_SHA256 d))}"
  shows "exec_op env opCode data s =
    (case stk s of [] \<Rightarrow> throw SE_INVALID_STACK_OPERATION
      | x # st \<Rightarrow> rbind (asData x) (\<lambda>d. Inr (s\<lparr>stk := Data (H d) # st\<rparr>)))"
proof -
  have "exec_op env opCode data s =
      rbind (ensureStackHasEnoughFrames 1 s) (\<lambda>_. rbind (take_data s) (\<lambda>(d, s). push_data (H d) s))"
    using assms(4) unfolding insert_iff empty_iff prod.inject
    by (elim disjE conjE)
      (simp_all only: exec_digests op_RIPEMD_def op_SHA1_def op_SHA256_def op_Hash160_def op_Hash256_def
        assms(3) program_hashers_digests [OF assms(1,2)] hashers.simps simp_thms)
  then show ?thesis by (simp only: digest_step)
qed

lemma script_digests_witness:
  "exec_op \<lparr>eflags = 0, echecker = \<lparr>CheckSig = (\<lambda>sig pubKey code v. Inr False), CheckLockTime = (\<lambda>n. Inr False),
        CheckSequence = (\<lambda>n. Inr False)\<rparr>, esigversion = BASE,
        ehash = program_hashers (replicate 64 0) (replicate 64 0)\<rparr> OP_HASH160 []
      \<lparr>stepNo = 0, opCount = 0, stk = [Data [1, 2, 3]], altStk = [], condFlags = [], curPos = [], sepPos = []\<rparr> =
    Inr \<lparr>stepNo = 0, opCount = 0, stk = [Data (ref_RIPEMD160 (fips_SHA256 [1, 2, 3]))], altStk = [],
      condFlags = [], curPos = [], sepPos = []\<rparr>"
  using script_digests [of "replicate 64 0" "replicate 64 0"
      "\<lparr>eflags = 0, echecker = \<lparr>CheckSig = (\<lambda>sig pubKey code v. Inr False), CheckLockTime = (\<lambda>n. Inr False),
        CheckSequence = (\<lambda>n. Inr False)\<rparr>, esigversion = BASE,
        ehash = program_hashers (replicate 64 0) (replicate 64 0)\<rparr>"
      OP_HASH160 "\<lambda>d. ref_RIPEMD160 (fips_SHA256 d)" "[]"
      "\<lparr>stepNo = 0, opCount = 0, stk = [Data [1, 2, 3]], altStk = [], condFlags = [], curPos = [], sepPos = []\<rparr>"]
  by simp

text \<open>a \<open>HashStream\<close> over \<open>CSHA256\<close> gives the double digest of all that was written, whatever the
  sizes of the writes; asking again gives the same digest, and the next write starts a new
  message.\<close>

lemma hash_stream_digest:
  assumes "length junk = 64" and "length junk' = 64"
  shows "\<exists>s. hs_digest (CSHA256 junk) (fold (hs_xsputn (CSHA256 junk)) ds (hs_new (CSHA256 junk) junk')) =
      (fips_SHA256 (fips_SHA256 (concat ds)), s) \<and>
    hs_digest (CSHA256 junk) s = (fips_SHA256 (fips_SHA256 (concat ds)), s) \<and>
    fst (hs_digest (CSHA256 junk) (hs_xsputn (CSHA256 junk) data s)) = fips_SHA256 (fips_SHA256 data)"
proof -
  note c = CSHA256_contract [OF assms(1)]
  let ?s = "fold (hs_xsputn (CSHA256 junk)) ds (hs_new (CSHA256 junk) junk')"
  obtain d s where eq: "hs_digest (CSHA256 junk) ?s = (d, s)" by fastforce
  then have "d = fips_SHA256 (fips_SHA256 (concat ds))"
    using hasher_contract.HashStream_digest [OF c assms(2), of ds] by simp
  then show ?thesis
    using hasher_contract.digest_then_write
      [OF c hasher_contract.hs_holds_writes [OF c hasher_contract.hs_holds_new [OF c assms(2)]]
        hs_valid_writes eq] eq by (auto simp: hs_new_def)
qed

lemma hash_stream_digest_witness:
  "\<exists>s. hs_digest (CSHA256 (replicate 64 1)) (fold (hs_xsputn (CSHA256 (replicate 64 1))) [replicate 70 2, [3]]
        (hs_new (CSHA256 (replicate 64 1)) (replicate 64 5))) =
      (fips_SHA256 (fips_SHA256 (concat [replicate 70 2, [3]])), s) \<and>
    hs_digest (CSHA256 (replicate 64 1)) s = (fips_SHA256 (fips_SHA256 (concat [replicate 70 2, [3]])), s) \<and>
    fst (hs_digest (CSHA256 (replicate 64 1)) (hs_xsputn (CSHA256 (replicate 64 1)) [4] s)) = fips_SHA256 (fips_SHA256 [4])"
  by (rule hash_stream_digest) simp_all

text \<open>Putting 65 single characters into a new hash stream writes behind its buffer:
  \<open>overflow\<close> stores the character at \<open>pptr()\<close> although the constructor leaves no spare byte.\<close>

lemma hash_stream_overflow:
  "foldl (\<lambda>r c. rbind r (hs_sputc ops c)) (Inr (hs_new ops junk)) (replicate 65 c) = Inl Undefined"
  by (rule hs_sputc_overflow)

text \<open>C15: \<open>MerkleRoot\<close> over items, each written in any number of pieces, computes the root of the binary
  hash tree in which the last node of a level of odd length is paired with itself; it never
  reads or writes out of bounds and never uses an iterator that a reallocation has
  invalidated.\<close>

theorem merkle_root:
  assumes "length junk = 64" and "length junk' = 64"
  shows "MerkleRoot (CSHA256 junk) junk' items =
    Inr (tree_root (\<lambda>d. fips_SHA256 (fips_SHA256 d))
      (map (\<lambda>pieces. fips_SHA256 (fips_SHA256 (concat pieces))) items))"
  by (rule hasher_contract.MerkleRoot_tree [OF CSHA256_contract [OF assms(1)]])
    (simp_all add: CSHA256_def assms(2))

theorem merkle_root_witness:
  "MerkleRoot (CSHA256 (replicate 64 0)) (replicate 64 0) [[[1]], [[2], [3]], []] =
    Inr (tree_root (\<lambda>d. fips_SHA256 (fips_SHA256 d))
      (map (\<lambda>pieces. fips_SHA256 (fips_SHA256 (concat pieces))) [[[1]], [[2], [3]], []]))"
  by (rule merkle_root) simp_all

text \<open>two different lists of transactions have the same Merkle root: repeating the last item of a
  list of odd length (above one) changes nothing.\<close>

lemma merkle_root_duplicate:
  assumes "even (length items)" and "items \<noteq> []" and "length junk = 64" and "length junk' = 64"
  shows "MerkleRoot (CSHA256 junk) junk' (items @ [x]) = MerkleRoot (CSHA256 junk) junk' (items @ [x, x])"
proof -
  have "OUTPUT_SIZE (CSHA256 junk) = 32" by (simp add: CSHA256_def)
  note root = hasher_contract.MerkleRoot_tree [OF CSHA256_contract [OF assms(3)] this assms(4)]
  show ?thesis unfolding root using assms(1,2) by (simp add: tree_root_duplicate)
qed

lemma merkle_root_duplicate_witness:
  "MerkleRoot (CSHA256 (replicate 64 0)) (replicate 64 0) ([[[1]], [[2]]] @ [[[3]]]) =
   MerkleRoot (CSHA256 (replicate 64 0)) (replicate 64 0) ([[[1]], [[2]]] @ [[[3]], [[3]]])"
  by (rule merkle_root_duplicate) simp_all

end
