(* ===== verification/Blob.thy ===== *)
theory Blob
  imports Streams
begin

text \<open>
  \<open>src/util/Hex.hpp\<close>, \<open>src/util/Hex.cpp\<close> and \<open>src/types/Blob.hpp\<close>: hexadecimal text and the
  fixed-size numbers (hashes) the program handles.

  A \<open>Blob<BITS>\<close> is the list of its \<open>bytes\<close> bytes, least significant first; where an operation needs
  that number it is an argument. Text is a list of characters; the constructor from a string may
  look one character past the end, which is the terminating zero of a literal or a \<open>std::string\<close>.
\<close>

section \<open>Hexadecimal text\<close>

definition noDigit :: byte where
  "noDigit = 0xff"

text \<open>The table \<open>_hexMap\<close>, by the character's code.\<close>

definition hexMap :: "nat \<Rightarrow> byte" where
  "hexMap i =
     (if i < 48 then 0xff
      else if i \<le> 57 then word_of_nat (i - 48)
      else if i < 65 then 0xff
      else if i \<le> 70 then word_of_nat (i - 65 + 10)
      else if i < 97 then 0xff
      else if i \<le> 102 then word_of_nat (i - 97 + 10)
      else noDigit)"

definition digitToInt :: "char \<Rightarrow> byte" where
  "digitToInt chr = hexMap (of_char chr)"

definition isDigit :: "char \<Rightarrow> bool" where
  "isDigit chr \<longleftrightarrow> hexMap (of_char chr) \<noteq> noDigit"

definition isHexString :: "string \<Rightarrow> bool" where
  "isHexString str \<longleftrightarrow> (\<forall>chr \<in> set str. isDigit chr) \<and> str \<noteq> [] \<and> length str mod 2 = 0"

definition isspace :: "char \<Rightarrow> bool" where
  "isspace chr \<longleftrightarrow> (let c = (of_char chr :: nat) in c = 32 \<or> (9 \<le> c \<and> c \<le> 13))"

text \<open>The loop of \<open>Hex::Parse\<close>, with the high half and its digit \<open>n\<close>.\<close>

fun Parse_loop :: "string \<Rightarrow> bool \<Rightarrow> byte \<Rightarrow> bytes \<Rightarrow> bytes" where
  "Parse_loop [] h n res = res"
| "Parse_loop (chr # str) h n res =
     (if isspace chr then Parse_loop str h n res
      else
        let c = digitToInt chr
        in if c = noDigit then res
           else if h then Parse_loop str False (push_bit 4 c) res
           else Parse_loop str True 0 (res @ [n OR c]))"

definition Hex_Parse :: "string \<Rightarrow> bytes" where
  "Hex_Parse str = Parse_loop str True 0 []"

definition hex_char :: "nat \<Rightarrow> char" where
  "hex_char n = ''0123456789abcdef'' ! n"

definition hex_of_byte :: "byte \<Rightarrow> string" where
  "hex_of_byte b = [hex_char (unat b div 16), hex_char (unat b mod 16)]"

definition Hex_toString :: "bytes \<Rightarrow> string" where
  "Hex_toString data = concat (map hex_of_byte data)"

section \<open>Blobs\<close>

type_synonym blob = bytes

definition blob_null :: "nat \<Rightarrow> blob" where
  "blob_null n = replicate n 0"

text \<open>
  The constructor from a vector: its bytes reversed, padded with zeros. The check for excess bytes
  starts at \<open>data.begin() + size\<close>.
\<close>

definition blob_of_bytes :: "nat \<Rightarrow> bytes \<Rightarrow> io_fault + blob" where
  "blob_of_bytes n data =
     (let size = min (length data) n
      in if \<exists>b \<in> set (drop size data). b \<noteq> 0 then Inl StdExcept
         else Inr (take size (rev data) @ replicate (n - size) 0))"

text \<open>The constructor from a string. \<open>fill_blob\<close> takes the digits from the last to the first.\<close>

fun fill_blob :: "nat \<Rightarrow> byte list \<Rightarrow> blob" where
  "fill_blob 0 ds = []"
| "fill_blob (Suc n) [] = replicate (Suc n) 0"
| "fill_blob (Suc n) [d] = d # fill_blob n []"
| "fill_blob (Suc n) (d # e # ds) = (d OR push_bit 4 e) # fill_blob n ds"

definition char_at :: "string \<Rightarrow> char" where
  "char_at str = (case str of [] \<Rightarrow> char_of (0 :: nat) | c # _ \<Rightarrow> c)"

definition skip_0x :: "string \<Rightarrow> string" where
  "skip_0x str =
     (if char_at str = CHR ''0'' then
        (if char_at (tl str) = CHR ''x'' \<or> char_at (tl str) = CHR ''X'' then tl (tl str) else str)
      else str)"

definition blob_of_string :: "nat \<Rightarrow> string \<Rightarrow> blob" where
  "blob_of_string n str =
     (let src = dropWhile (\<lambda>c. c = CHR ''0'') (skip_0x (dropWhile isspace str));
          digits = takeWhile isDigit src
      in fill_blob n (map digitToInt (rev digits)))"

definition isNull :: "blob \<Rightarrow> bool" where
  "isNull b \<longleftrightarrow> (\<forall>byte \<in> set b. byte = 0)"

definition blob_str :: "blob \<Rightarrow> string" where
  "blob_str b = concat (map hex_of_byte (rev b))"

definition GetUint64 :: "blob \<Rightarrow> nat \<Rightarrow> io_fault + 64 word" where
  "GetUint64 b pos = ReadLE64 (drop (pos * 8) b)"

text \<open>\<open>std::lexicographical_compare\<close> and the four operators, which read from the last byte on.\<close>

fun lexicographical_compare :: "('a \<Rightarrow> 'a \<Rightarrow> bool) \<Rightarrow> 'a list \<Rightarrow> 'a list \<Rightarrow> bool" where
  "lexicographical_compare cmp [] ys = (ys \<noteq> [])"
| "lexicographical_compare cmp (x # xs) [] = False"
| "lexicographical_compare cmp (x # xs) (y # ys) =
     (if cmp x y then True else if cmp y x then False else lexicographical_compare cmp xs ys)"

definition blob_less :: "blob \<Rightarrow> blob \<Rightarrow> bool" where
  "blob_less a b = lexicographical_compare (<) (rev a) (rev b)"

definition blob_leq :: "blob \<Rightarrow> blob \<Rightarrow> bool" where
  "blob_leq a b = lexicographical_compare (\<le>) (rev a) (rev b)"

definition blob_greater :: "blob \<Rightarrow> blob \<Rightarrow> bool" where
  "blob_greater a b = lexicographical_compare (>) (rev a) (rev b)"

definition blob_geq :: "blob \<Rightarrow> blob \<Rightarrow> bool" where
  "blob_geq a b = lexicographical_compare (\<ge>) (rev a) (rev b)"

section \<open>The order\<close>

lemma lex_less_value:
  "length xs = length ys \<Longrightarrow>
     lexicographical_compare (<) xs ys \<longleftrightarrow> le_value (rev xs) < le_value (rev ys)"
proof (induction xs ys rule: list_induct2)
  case Nil
  then show ?case by simp
next
  case (Cons x xs y ys)
  let ?p = "(256 :: nat) ^ length xs"
  have b: "le_value (rev xs) < ?p" "le_value (rev ys) < ?p"
    using le_value_bound [of "rev xs"] le_value_bound [of "rev ys"] Cons.hyps by simp_all
  have v: "le_value (rev (x # xs)) = le_value (rev xs) + ?p * unat x"
    "le_value (rev (y # ys)) = le_value (rev ys) + ?p * unat y"
    using Cons.hyps by (simp_all add: le_value_append)
  have gap: "l + ?p * i < m + ?p * j" if "i < j" "l < ?p" for i j l m :: nat
  proof -
    have "l + ?p * i < ?p * Suc i" using that by simp
    also have "\<dots> \<le> ?p * j" using that by (intro mult_le_mono2) simp
    finally show ?thesis by simp
  qed
  consider "unat x < unat y" | "unat y < unat x" | "x = y"
    by (metis linorder_neqE_nat unsigned_word_eqI)
  then show ?case
  proof cases
    case 1
    then show ?thesis using gap [OF 1 b(1), of "le_value (rev ys)"] v by (simp add: word_less_nat_alt)
  next
    case 2
    then show ?thesis using gap [OF 2 b(2), of "le_value (rev xs)"] v by (simp add: word_less_nat_alt)
  next
    case 3
    then show ?thesis using Cons.IH v by simp
  qed
qed

lemma blob_less_value: "length a = length b \<Longrightarrow> blob_less a b \<longleftrightarrow> le_value a < le_value b"
  using lex_less_value [of "rev a" "rev b"] by (simp add: blob_less_def)

lemma lex_flip: "lexicographical_compare (>) xs ys = lexicographical_compare (<) ys xs"
  if "length xs = length ys" for xs ys :: bytes
  using that by (induction xs ys rule: list_induct2) auto

lemma blob_greater_value: "length a = length b \<Longrightarrow> blob_greater a b \<longleftrightarrow> le_value b < le_value a"
  using blob_less_value [of b a] by (simp add: blob_greater_def blob_less_def lex_flip)

text \<open>
  With a reflexive comparison the first pair of bytes decides: the two other operators compare the
  most significant bytes only.
\<close>

lemma blob_leq_last: "a \<noteq> [] \<Longrightarrow> b \<noteq> [] \<Longrightarrow> blob_leq a b \<longleftrightarrow> last a \<le> last b"
  by (cases a rule: rev_cases; cases b rule: rev_cases) (auto simp: blob_leq_def)

lemma blob_geq_last: "a \<noteq> [] \<Longrightarrow> b \<noteq> [] \<Longrightarrow> blob_geq a b \<longleftrightarrow> last b \<le> last a"
  by (cases a rule: rev_cases; cases b rule: rev_cases) (auto simp: blob_geq_def)

section \<open>Text and back\<close>

lemma hex_char_cases:
  assumes "k < 16"
  shows "digitToInt (hex_char k) = word_of_nat k \<and> isDigit (hex_char k) \<and> \<not> isspace (hex_char k) \<and>
    (hex_char k = CHR ''0'' \<longleftrightarrow> k = 0) \<and> hex_char k \<noteq> CHR ''x'' \<and> hex_char k \<noteq> CHR ''X''"
proof -
  have "k \<in> set [0..<16]" using assms by simp
  then have "k = 0 \<or> k = 1 \<or> k = 2 \<or> k = 3 \<or> k = 4 \<or> k = 5 \<or> k = 6 \<or> k = 7 \<or>
      k = 8 \<or> k = 9 \<or> k = 10 \<or> k = 11 \<or> k = 12 \<or> k = 13 \<or> k = 14 \<or> k = 15"
    unfolding set_upt atLeastLessThan_iff by presburger
  then show ?thesis
    by (elim disjE)
      (simp_all add: hex_char_def digitToInt_def isDigit_def isspace_def hexMap_def noDigit_def)
qed

definition nibbles :: "blob \<Rightarrow> nat list" where
  "nibbles b = concat (map (\<lambda>x. [unat x mod 16, unat x div 16]) b)"

lemma nibbles_small: "k \<in> set (nibbles b) \<Longrightarrow> k < 16"
  using unat_byte_lt by (auto simp: nibbles_def less_mult_imp_div_less)

lemma nibbles_append: "nibbles (a @ b) = nibbles a @ nibbles b"
  by (simp add: nibbles_def)

lemma blob_str_nibbles: "blob_str b = map hex_char (rev (nibbles b))"
  by (induction b rule: rev_induct) (simp_all add: blob_str_def hex_of_byte_def nibbles_append nibbles_def)

lemma dropWhile_no: "(\<forall>x \<in> set xs. \<not> P x) \<Longrightarrow> dropWhile P xs = xs"
  by (cases xs) auto

lemma takeWhile_all: "(\<forall>x \<in> set xs. P x) \<Longrightarrow> takeWhile P xs = xs"
  by (induction xs) auto

lemma fill_blob_zeros: "fill_blob n (replicate k 0) = replicate n 0"
proof (induction n arbitrary: k)
  case (Suc n)
  consider "k = 0" | "k = 1" | j where "k = Suc (Suc j)"
    by (metis One_nat_def not0_implies_Suc)
  then show ?case
  proof cases
    case 2
    then show ?thesis using Suc [of 0] by simp
  next
    case 3
    then show ?thesis using Suc by simp
  qed simp
qed simp

text \<open>Zero digits behind the others do not matter.\<close>

lemma fill_blob_pad: "fill_blob n (ds @ replicate k 0) = fill_blob n ds"
proof (induction n ds arbitrary: k rule: fill_blob.induct)
  case (2 n)
  then show ?case using fill_blob_zeros [of "Suc n" k] by simp
next
  case (3 n d)
  then show ?case using fill_blob_zeros [of n] fill_blob_zeros [of n 0] by (cases k) auto
qed simp_all

lemma byte_of_nibbles: "(word_of_nat (unat b mod 16) :: byte) OR push_bit 4 (word_of_nat (unat b div 16)) = b"
proof -
  have "(word_of_nat (unat b mod 16) :: byte) = take_bit 4 b"
    by (rule unsigned_word_eqI [where ?'a = nat]) (simp add: take_bit_eq_mod unat_mod unat_of_nat)
  moreover have "(word_of_nat (unat b div 16) :: byte) = drop_bit 4 b"
    using unat_byte_lt [of b]
    by (intro unsigned_word_eqI [where ?'a = nat]) (simp add: drop_bit_eq_div unat_div unat_of_nat)
  ultimately show ?thesis
    by (auto simp: bit_eq_iff bit_or_iff bit_take_bit_iff bit_push_bit_iff bit_drop_bit_eq)
qed

lemma fill_blob_nibbles: "fill_blob (length b) (map word_of_nat (nibbles b)) = b"
  by (induction b) (simp_all add: nibbles_def byte_of_nibbles)

lemma rev_dropWhile_zero:
  "\<exists>k. rev xs = rev (dropWhile (\<lambda>x. x = (0 :: nat)) xs) @ replicate k 0"
proof (induction xs)
  case (Cons x xs)
  then obtain k where k: "rev xs = rev (dropWhile (\<lambda>x. x = 0) xs) @ replicate k 0" by blast
  show ?case
  proof (cases "x = 0")
    case True
    then have "rev (x # xs) = rev (dropWhile (\<lambda>x. x = 0) (x # xs)) @ replicate (Suc k) 0"
      using k by (simp add: replicate_append_same)
    then show ?thesis by blast
  next
    case False
    then show ?thesis by (intro exI [of _ 0]) simp
  qed
qed simp

lemma blob_str_plain: "dropWhile isspace (blob_str b) = blob_str b" "skip_0x (blob_str b) = blob_str b"
proof -
  let ?str = "map hex_char (rev (nibbles b))"
  have chars: "\<forall>c \<in> set ?str. \<not> isspace c \<and> c \<noteq> CHR ''x'' \<and> c \<noteq> CHR ''X''"
    using nibbles_small hex_char_cases by auto
  then have "dropWhile isspace ?str = ?str" by (intro dropWhile_no) auto
  moreover have "\<forall>c \<in> set (tl ?str). c \<noteq> CHR ''x'' \<and> c \<noteq> CHR ''X''"
    using chars by (cases ?str) auto
  then have "char_at (tl ?str) \<noteq> CHR ''x'' \<and> char_at (tl ?str) \<noteq> CHR ''X''"
    by (cases "tl ?str") (auto simp: char_at_def char_of_def)
  then have "skip_0x ?str = ?str" by (simp add: skip_0x_def)
  ultimately show "dropWhile isspace (blob_str b) = blob_str b" "skip_0x (blob_str b) = blob_str b"
    by (simp_all add: blob_str_nibbles)
qed

lemma blob_of_string_str: "blob_of_string (length b) (blob_str b) = b"
proof -
  let ?ns = "rev (nibbles b)"
  have small: "\<forall>k \<in> set ?ns. k < 16" using nibbles_small by auto
  have chars: "\<forall>c \<in> set (map hex_char ?ns). isDigit c" using small hex_char_cases by auto
  note d12 = blob_str_plain [of b, unfolded blob_str_nibbles]
  have d3: "dropWhile (\<lambda>c. c = CHR ''0'') (map hex_char ?ns) = map hex_char (dropWhile (\<lambda>k. k = 0) ?ns)"
    unfolding dropWhile_map o_def
    using small hex_char_cases by (intro arg_cong [of _ _ "map hex_char"] dropWhile_cong) auto
  have d4: "takeWhile isDigit (map hex_char (dropWhile (\<lambda>k. k = 0) ?ns)) = map hex_char (dropWhile (\<lambda>k. k = 0) ?ns)"
    using chars by (intro takeWhile_all) (auto dest: set_dropWhileD)
  have d5: "map digitToInt (rev (map hex_char (dropWhile (\<lambda>k. k = 0) ?ns))) =
      map word_of_nat (rev (dropWhile (\<lambda>k. k = 0) ?ns))"
    using small hex_char_cases by (auto simp: rev_map dest!: set_dropWhileD)
  have "blob_of_string (length b) (blob_str b) =
      fill_blob (length b) (map word_of_nat (rev (dropWhile (\<lambda>k. k = 0) ?ns)))"
    unfolding blob_of_string_def Let_def blob_str_nibbles d12 d3 d4 d5 by (rule refl)
  also have "\<dots> = fill_blob (length b) (map word_of_nat (nibbles b))"
  proof -
    obtain k where "rev ?ns = rev (dropWhile (\<lambda>k. k = 0) ?ns) @ replicate k 0"
      using rev_dropWhile_zero by blast
    then have "nibbles b = rev (dropWhile (\<lambda>k. k = 0) ?ns) @ replicate k 0" by simp
    from arg_cong [OF this, of "map (word_of_nat :: nat \<Rightarrow> byte)"]
    have "map (word_of_nat :: nat \<Rightarrow> byte) (nibbles b) =
        map word_of_nat (rev (dropWhile (\<lambda>k. k = 0) ?ns)) @ replicate k 0"
      unfolding map_append map_replicate semiring_1_class.of_nat_0 .
    then show ?thesis by (simp add: fill_blob_pad)
  qed
  finally show ?thesis by (simp add: fill_blob_nibbles)
qed

text \<open>Spaces and the prefix are skipped.\<close>

lemma blob_of_string_prefixed:
  assumes "\<forall>c \<in> set spaces. isspace c" and "prefix \<in> {'''', ''0x'', ''0X''}"
  shows "blob_of_string (length b) (spaces @ prefix @ blob_str b) = b"
proof -
  have "dropWhile isspace (prefix @ blob_str b) = prefix @ blob_str b"
    using assms(2) blob_str_plain(1) by (auto simp: isspace_def)
  moreover have "skip_0x (prefix @ blob_str b) = blob_str b"
    using assms(2) unfolding insert_iff empty_iff
  proof (elim disjE FalseE)
    assume "prefix = ''''"
    then show ?thesis by (simp add: blob_str_plain)
  qed (simp_all add: skip_0x_def char_at_def)
  ultimately have "blob_of_string n (spaces @ prefix @ blob_str b) = blob_of_string n (blob_str b)" for n
    using assms(1) by (simp add: blob_of_string_def blob_str_plain dropWhile_append2)
  then show ?thesis by (simp add: blob_of_string_str)
qed

end
