(* ===== verification/ChainTypes.thy ===== *)
theory ChainTypes
  imports Blob
begin

text \<open>
  The parts of a transaction: \<open>src/blockchain/Amount.hpp\<close>, \<open>TxOutPoint\<close>, \<open>TxWitness\<close>, \<open>TxIn\<close>,
  \<open>TxOut\<close> with their \<open>.cpp\<close> files, and the stream methods of \<open>src/script/Script.cpp\<close>.

  A record for each class, its constructor, and its \<open>Serialize\<close> and \<open>Unserialize\<close>. Reading goes over
  an existing object, whose members it replaces one after the other. Each type satisfies the contract
  of \<open>Streams\<close> on the values it can hold.
\<close>

abbreviation blob_ok :: "blob \<Rightarrow> bool" where
  "blob_ok b \<equiv> length b = 32"

section \<open>Amounts and scripts\<close>

text \<open>\<open>Amount\<close> wraps an \<open>int64_t\<close>, written in two's complement; \<open>amount_value\<close> is its value.\<close>

type_synonym amount = "64 word"

definition amount_value :: "amount \<Rightarrow> int" where
  "amount_value a = sint a"

definition ser_Amount :: "amount \<Rightarrow> bytes" where
  "ser_Amount a = ser_int a"

definition unser_Amount :: "amount \<Rightarrow> istream \<Rightarrow> io_fault + amount \<times> istream" where
  "unser_Amount old s = unser_int old s"

definition ser_Script :: "bytes \<Rightarrow> bytes" where
  "ser_Script script = ser_sized_bytes script"

definition unser_Script :: "bytes \<Rightarrow> istream \<Rightarrow> io_fault + bytes \<times> istream" where
  "unser_Script old s = unser_sized_bytes old s"

section \<open>Transaction out points\<close>

record tx_out_point =
  op_hash :: blob
  op_index :: "32 word"

definition TxOutPoint_new :: tx_out_point where
  "TxOutPoint_new = \<lparr>op_hash = blob_null 32, op_index = - 1\<rparr>"

definition ser_TxOutPoint :: "tx_out_point \<Rightarrow> bytes" where
  "ser_TxOutPoint p = ser_bytes (op_hash p) @ ser_int (op_index p)"

definition unser_TxOutPoint :: "tx_out_point \<Rightarrow> istream \<Rightarrow> io_fault + tx_out_point \<times> istream" where
  "unser_TxOutPoint old s =
     rbind (unser_bytes (op_hash old) s) (\<lambda>(h, s).
     rbind (unser_int (op_index old) s) (\<lambda>(i, s).
     Inr (\<lparr>op_hash = h, op_index = i\<rparr>, s)))"

section \<open>Witnesses\<close>

text \<open>
  \<open>size_and_\<close> writes the number of elements; the elements, byte vectors, are written without their
  lengths, and each is read into a vector that keeps the length it has.
\<close>

type_synonym tx_witness = "bytes list"

definition ser_TxWitness :: "tx_witness \<Rightarrow> bytes" where
  "ser_TxWitness stack = ser_sized ser_bytes stack"

definition unser_TxWitness :: "tx_witness \<Rightarrow> istream \<Rightarrow> io_fault + tx_witness \<times> istream" where
  "unser_TxWitness old s = unser_sized [] unser_bytes old s"

definition witness_IsNull :: "tx_witness \<Rightarrow> bool" where
  "witness_IsNull stack \<longleftrightarrow> stack = []"

definition witness_SetNull :: "tx_witness \<Rightarrow> tx_witness" where
  "witness_SetNull stack = []"

text \<open>\<open>ToString\<close> writes the separators only; the hexadecimal text is commented out.\<close>

definition witness_ToString :: "tx_witness \<Rightarrow> string" where
  "witness_ToString stack = ''ScriptWitness('' @ concat (replicate (length stack - 1) '', '') @ '')''"

section \<open>Inputs and outputs\<close>

record tx_in =
  prevOut :: tx_out_point
  sigScript :: bytes
  sequence :: "32 word"
  scriptWitness :: tx_witness

definition TxIn_new :: tx_in where
  "TxIn_new = \<lparr>prevOut = TxOutPoint_new, sigScript = [], sequence = - 1, scriptWitness = []\<rparr>"

definition ser_TxIn :: "tx_in \<Rightarrow> bytes" where
  "ser_TxIn t = ser_TxOutPoint (prevOut t) @ ser_Script (sigScript t) @ ser_int (sequence t)"

definition unser_TxIn :: "tx_in \<Rightarrow> istream \<Rightarrow> io_fault + tx_in \<times> istream" where
  "unser_TxIn old s =
     rbind (unser_TxOutPoint (prevOut old) s) (\<lambda>(p, s).
     rbind (unser_Script (sigScript old) s) (\<lambda>(c, s).
     rbind (unser_int (sequence old) s) (\<lambda>(q, s).
     Inr (old\<lparr>prevOut := p, sigScript := c, sequence := q\<rparr>, s))))"

record tx_out =
  out_value :: amount
  keyScript :: bytes

definition TxOut_new :: tx_out where
  "TxOut_new = \<lparr>out_value = - 1, keyScript = []\<rparr>"

definition ser_TxOut :: "tx_out \<Rightarrow> bytes" where
  "ser_TxOut t = ser_Amount (out_value t) @ ser_Script (keyScript t)"

definition unser_TxOut :: "tx_out \<Rightarrow> istream \<Rightarrow> io_fault + tx_out \<times> istream" where
  "unser_TxOut old s =
     rbind (unser_Amount (out_value old) s) (\<lambda>(v, s).
     rbind (unser_Script (keyScript old) s) (\<lambda>(k, s).
     Inr (\<lparr>out_value = v, keyScript = k\<rparr>, s)))"

section \<open>They satisfy the contract\<close>

interpretation out_point: vector_codec ser_TxOutPoint unser_TxOutPoint "\<lambda>n p. blob_ok (op_hash p)"
    "\<lambda>p. blob_ok (op_hash p)" TxOutPoint_new
proof
  fix s :: istream and x old :: tx_out_point and r
  assume "good s" "buf s = ser_TxOutPoint x @ r" "blob_ok (op_hash x)" "blob_ok (op_hash old)"
  then have "unser_bytes (op_hash old) s = Inr (op_hash x, s\<lparr>buf := ser_int (op_index x) @ r\<rparr>)"
    by (intro unser_bytes_decode) (simp_all add: ser_TxOutPoint_def ser_bytes_def)
  then show "unser_TxOutPoint old s = Inr (x, s\<lparr>buf := r\<rparr>)"
    using \<open>good s\<close> by (simp add: unser_TxOutPoint_def unser_int_decode)
qed (simp add: TxOutPoint_new_def blob_null_def)

definition tx_in_ok :: "nat \<Rightarrow> tx_in \<Rightarrow> bool" where
  "tx_in_ok n t \<longleftrightarrow> blob_ok (op_hash (prevOut t)) \<and> bytes_ok n (sigScript t) \<and> scriptWitness t = []"

definition tx_in_ready :: "tx_in \<Rightarrow> bool" where
  "tx_in_ready t \<longleftrightarrow> blob_ok (op_hash (prevOut t)) \<and> scriptWitness t = []"

lemma unser_TxIn_decode:
  assumes "good s" and "buf s = ser_TxIn x @ r" and "blob_ok (op_hash (prevOut x))" and "bytes_ok (room s) (sigScript x)"
    and "blob_ok (op_hash (prevOut old))"
  shows "unser_TxIn old s = Inr (x\<lparr>scriptWitness := scriptWitness old\<rparr>, s\<lparr>buf := r\<rparr>)"
proof -
  have "unser_TxOutPoint (prevOut old) s =
      Inr (prevOut x, s\<lparr>buf := ser_Script (sigScript x) @ ser_int (sequence x) @ r\<rparr>)"
    using assms by (intro out_point.decode) (simp_all add: ser_TxIn_def)
  moreover have "unser_Script (sigScript old) (s\<lparr>buf := ser_Script (sigScript x) @ ser_int (sequence x) @ r\<rparr>) =
      Inr (sigScript x, s\<lparr>buf := ser_int (sequence x) @ r\<rparr>)"
    using assms sized_bytes.decode [of "s\<lparr>buf := ser_Script (sigScript x) @ ser_int (sequence x) @ r\<rparr>"]
    by (simp add: unser_Script_def ser_Script_def)
  ultimately show ?thesis using assms(1) by (simp add: unser_TxIn_def unser_int_decode)
qed

interpretation tx_in: vector_codec ser_TxIn unser_TxIn tx_in_ok tx_in_ready TxIn_new
proof
  fix s :: istream and x r old
  assume "good s" "buf s = ser_TxIn x @ r" "tx_in_ok (room s) x" "tx_in_ready old"
  then show "unser_TxIn old s = Inr (x, s\<lparr>buf := r\<rparr>)"
    using unser_TxIn_decode [of s x r old] by (simp add: tx_in_ok_def tx_in_ready_def)
qed (simp add: TxIn_new_def TxOutPoint_new_def blob_null_def tx_in_ready_def)

interpretation tx_out: vector_codec ser_TxOut unser_TxOut "\<lambda>n t. bytes_ok n (keyScript t)" "\<lambda>t. True" TxOut_new
proof
  fix s :: istream and x old :: tx_out and r
  assume a: "good s" "buf s = ser_TxOut x @ r" "bytes_ok (room s) (keyScript x)"
  then have "unser_Amount (out_value old) s = Inr (out_value x, s\<lparr>buf := ser_Script (keyScript x) @ r\<rparr>)"
    by (simp add: unser_Amount_def ser_TxOut_def ser_Amount_def unser_int_decode)
  moreover have "unser_Script (keyScript old) (s\<lparr>buf := ser_Script (keyScript x) @ r\<rparr>) = Inr (keyScript x, s\<lparr>buf := r\<rparr>)"
    using a sized_bytes.decode [of "s\<lparr>buf := ser_Script (keyScript x) @ r\<rparr>"]
    by (simp add: unser_Script_def ser_Script_def)
  ultimately show "unser_TxOut old s = Inr (x, s\<lparr>buf := r\<rparr>)" by (simp add: unser_TxOut_def)
qed simp

text \<open>
  Byte vectors read raw: the object must already have the length. A witness read into an empty object
  has the right number of elements, but they are empty, and their bytes are still in the stream.
\<close>

lemma unser_list_empty: "unser_list unser_bytes (replicate n []) s = Inr (replicate n [], s)"
proof (induction n arbitrary: s)
  case (Suc n)
  have "read_over [] s = ([], s)" by (simp add: read_over_def)
  then show ?case using Suc by (simp add: unser_bytes_def)
qed simp

lemma unser_TxWitness_empty:
  assumes "good s" and "buf s = ser_TxWitness stack @ r" and "length stack \<le> room s" and "length stack < 2 ^ 64"
  shows "unser_TxWitness [] s = Inr (replicate (length stack) [], s\<lparr>buf := concat stack @ r\<rparr>)"
proof -
  have ser: "ser_list ser_bytes stack = concat stack" by (simp add: ser_list_def ser_bytes_def [abs_def])
  have "unser_varint s = Inr (word_of_nat (length stack), s\<lparr>buf := concat stack @ r\<rparr>)"
    using assms(1,2) by (intro unser_varint_decode) (simp_all add: ser_TxWitness_def ser_sized_def ser)
  then show ?thesis
    using assms(3,4)
    by (simp add: unser_TxWitness_def unser_sized_def unat_word_of_length resize_def unser_list_empty)
qed

end
