(* ===== verification/Transactions.thy ===== *)
theory Transactions
  imports ChainTypes HashStream
begin

text \<open>
  \<open>src/blockchain/Transaction.hpp\<close> and \<open>Transaction.cpp\<close>.

  The optional flag is an \<open>option\<close>; the witnesses lie in the inputs and are written and read only when
  the flag is present. \<open>hash\<close> caches its result in two mutable members.
\<close>

record transaction =
  tx_version :: "32 word"
  tx_flag :: "16 word option"
  txIns :: "tx_in list"
  txOuts :: "tx_out list"
  srcChain :: "32 word"
  dstChain :: "32 word"
  lockTime :: "32 word"
  tx_hash :: blob
  tx_validHash :: bool

definition Transaction_new :: transaction where
  "Transaction_new =
     \<lparr>tx_version = 0, tx_flag = None, txIns = [], txOuts = [], srcChain = - 1, dstChain = - 1, lockTime = 0,
      tx_hash = blob_null 32, tx_validHash = False\<rparr>"

section \<open>The code\<close>

definition ser_Transaction :: "transaction \<Rightarrow> bytes" where
  "ser_Transaction t =
     ser_int (tx_version t) @
     (case tx_flag t of None \<Rightarrow> [] | Some flag \<Rightarrow> ser_int flag) @
     ser_sized ser_TxIn (txIns t) @ ser_sized ser_TxOut (txOuts t) @
     (case tx_flag t of None \<Rightarrow> [] | Some flag \<Rightarrow> concat (map (\<lambda>txIn. ser_TxWitness (scriptWitness txIn)) (txIns t))) @
     ser_int (srcChain t) @ ser_int (dstChain t) @ ser_int (lockTime t)"

fun unser_witnesses :: "tx_in list \<Rightarrow> istream \<Rightarrow> io_fault + tx_in list \<times> istream" where
  "unser_witnesses [] s = Inr ([], s)"
| "unser_witnesses (t # ts) s =
     rbind (unser_TxWitness (scriptWitness t) s) (\<lambda>(w, s).
     rbind (unser_witnesses ts s) (\<lambda>(ts, s). Inr (t\<lparr>scriptWitness := w\<rparr> # ts, s)))"

definition unser_flag :: "istream \<Rightarrow> io_fault + 16 word option \<times> istream" where
  "unser_flag s =
     (case peek s of
        (Some b, s) \<Rightarrow>
          if b = 0 then rbind (unser_int 0 s) (\<lambda>(flag, s). Inr (Some flag, s)) else Inr (None, s)
      | (None, s) \<Rightarrow> Inr (None, s))"

definition unser_Transaction :: "transaction \<Rightarrow> istream \<Rightarrow> io_fault + transaction \<times> istream" where
  "unser_Transaction old s =
     rbind (unser_int (tx_version old) s) (\<lambda>(version, s).
     rbind (unser_flag s) (\<lambda>(flag, s).
     rbind (unser_sized TxIn_new unser_TxIn (txIns old) s) (\<lambda>(ins, s).
     rbind (unser_sized TxOut_new unser_TxOut (txOuts old) s) (\<lambda>(outs, s).
     rbind (if flag = None then Inr (ins, s) else unser_witnesses ins s) (\<lambda>(ins, s).
     rbind (unser_int (srcChain old) s) (\<lambda>(src, s).
     rbind (unser_int (dstChain old) s) (\<lambda>(dst, s).
     rbind (unser_int (lockTime old) s) (\<lambda>(lock, s).
     Inr (old\<lparr>tx_version := version, tx_flag := flag, txIns := ins, txOuts := outs, srcChain := src,
       dstChain := dst, lockTime := lock\<rparr>, s)))))))))"

text \<open>\<open>hash()\<close>, over the hasher of \<open>Hash256Stream\<close>.\<close>

definition Transaction_hash :: "'h hasher \<Rightarrow> bytes \<Rightarrow> transaction \<Rightarrow> io_fault + blob \<times> transaction" where
  "Transaction_hash ops junk t =
     (if tx_validHash t then Inr (tx_hash t, t)
      else
        rbind (hs_hash ops (hs_xsputn ops (ser_Transaction t) (hs_new ops junk))) (\<lambda>(hash, hs).
        Inr (hash, t\<lparr>tx_hash := hash, tx_validHash := True\<rparr>)))"

definition HasWitness :: "transaction \<Rightarrow> bool" where
  "HasWitness t \<longleftrightarrow> (\<exists>txIn \<in> set (txIns t). \<not> witness_IsNull (scriptWitness txIn))"

text \<open>\<open>txIn\<close> and \<open>txOut\<close> use \<open>at\<close>, which throws out of range.\<close>

definition tx_txIn :: "transaction \<Rightarrow> nat \<Rightarrow> io_fault + tx_in" where
  "tx_txIn t index = (if index < length (txIns t) then Inr (txIns t ! index) else Inl StdExcept)"

definition tx_txOut :: "transaction \<Rightarrow> nat \<Rightarrow> io_fault + tx_out" where
  "tx_txOut t index = (if index < length (txOuts t) then Inr (txOuts t ! index) else Inl StdExcept)"

section \<open>Reading back\<close>

text \<open>
  The transactions that are read back: at least one input, no flag and so no witness data, or the
  flag with the wire bytes 0 and 1 and no witness elements.
\<close>

definition tx_ok :: "nat \<Rightarrow> transaction \<Rightarrow> bool" where
  "tx_ok n t \<longleftrightarrow>
     (tx_flag t = None \<and> txIns t \<noteq> [] \<or> tx_flag t = Some 0x0100) \<and>
     sized_ok tx_in_ok n (txIns t) \<and> sized_ok (\<lambda>n t. bytes_ok n (keyScript t)) n (txOuts t) \<and> 0 < n"

definition tx_ready :: "transaction \<Rightarrow> bool" where
  "tx_ready t \<longleftrightarrow> all_ready tx_in_ready (txIns t)"

lemma hd_ser_varint: "v \<noteq> 0 \<Longrightarrow> \<exists>b bs. ser_varint v = b # bs \<and> b \<noteq> 0"
proof -
  assume "v \<noteq> 0"
  have "ser_int (x :: 8 word) = [x]" for x
  proof -
    have "unat x mod 256 = unat x" using unat_byte_lt [of x] by simp
    then show ?thesis by (simp add: ser_int_def)
  qed
  moreover have "v < 253 \<Longrightarrow> (ucast v :: 8 word) \<noteq> 0"
    using ucast_small(1) [of v] \<open>v \<noteq> 0\<close> by auto
  ultimately show ?thesis by (auto simp: ser_varint_def)
qed

lemma unser_witnesses_empty:
  "good s \<Longrightarrow> 0 < room s \<Longrightarrow> \<forall>t \<in> set ts. scriptWitness t = [] \<Longrightarrow>
     buf s = concat (map (\<lambda>t. ser_TxWitness (scriptWitness t)) ts) @ r \<Longrightarrow>
     unser_witnesses ts s = Inr (ts, s\<lparr>buf := r\<rparr>)"
proof (induction ts arbitrary: s)
  case (Cons t ts)
  let ?s = "s\<lparr>buf := concat (map (\<lambda>t. ser_TxWitness (scriptWitness t)) ts) @ r\<rparr>"
  have "unser_TxWitness [] s = Inr ([], ?s)"
    using unser_TxWitness_empty [of s "[]"] Cons.prems by simp
  moreover have "unser_witnesses ts ?s = Inr (ts, ?s\<lparr>buf := r\<rparr>)"
    using Cons.prems by (intro Cons.IH) simp_all
  ultimately show ?case using Cons.prems by simp
qed simp

lemma unser_flag_none:
  "good s \<Longrightarrow> buf s = b # bs \<Longrightarrow> b \<noteq> 0 \<Longrightarrow> unser_flag s = Inr (None, s)"
  by (simp add: unser_flag_def peek_def)

lemma unser_flag_some:
  assumes "good s" and "buf s = ser_int (0x0100 :: 16 word) @ r"
  shows "unser_flag s = Inr (Some 0x0100, s\<lparr>buf := r\<rparr>)"
proof -
  have "buf s = 0 # 1 # r" using assms(2) by (simp add: ser_int_def le_bytes_numeral)
  then have "peek s = (Some 0, s)" using assms(1) by (simp add: peek_def)
  then show ?thesis using assms by (simp add: unser_flag_def unser_int_decode)
qed

lemma unser_Transaction_decode:
  assumes "good s" and "buf s = ser_Transaction t @ r" and "tx_ok (room s) t" and "tx_ready old"
  shows "unser_Transaction old s =
    Inr (t\<lparr>tx_hash := tx_hash old, tx_validHash := tx_validHash old\<rparr>, s\<lparr>buf := r\<rparr>)"
proof -
  define tail where "tail = ser_int (srcChain t) @ ser_int (dstChain t) @ ser_int (lockTime t) @ r"
  define wit where "wit = (case tx_flag t of None \<Rightarrow> [] | Some flag \<Rightarrow>
    concat (map (\<lambda>txIn. ser_TxWitness (scriptWitness txIn)) (txIns t)))"
  define body where "body = ser_sized ser_TxIn (txIns t) @ ser_sized ser_TxOut (txOuts t) @ wit @ tail"
  have b: "buf s = ser_int (tx_version t) @ (case tx_flag t of None \<Rightarrow> [] | Some f \<Rightarrow> ser_int f) @ body"
    using assms(2) by (simp add: ser_Transaction_def body_def wit_def tail_def)
  let ?s = "\<lambda>b. s\<lparr>buf := b\<rparr>"
  have version: "unser_int (tx_version old) s =
      Inr (tx_version t, ?s ((case tx_flag t of None \<Rightarrow> [] | Some f \<Rightarrow> ser_int f) @ body))"
    using assms(1) b by (intro unser_int_decode) simp_all
  have flag: "unser_flag (?s ((case tx_flag t of None \<Rightarrow> [] | Some f \<Rightarrow> ser_int f) @ body)) = Inr (tx_flag t, ?s body)"
  proof (cases "tx_flag t")
    case None
    then have "txIns t \<noteq> []" "length (txIns t) < 2 ^ 64" using assms(3) by (auto simp: tx_ok_def sized_ok_def)
    then have "(word_of_nat (length (txIns t)) :: 64 word) \<noteq> 0"
      using unat_word_of_length [of "length (txIns t)"] by (metis length_0_conv unat_0)
    then obtain c cs where "ser_varint (word_of_nat (length (txIns t))) = c # cs" "c \<noteq> 0" using hd_ser_varint by blast
    then have "body = c # cs @ ser_list ser_TxIn (txIns t) @ ser_sized ser_TxOut (txOuts t) @ wit @ tail"
      by (simp add: body_def ser_sized_def)
    then show ?thesis using None assms(1) \<open>c \<noteq> 0\<close> by (simp add: unser_flag_none)
  next
    case (Some f)
    then have "f = 0x0100" using assms(3) by (auto simp: tx_ok_def)
    then show ?thesis using Some assms(1) unser_flag_some [of "?s (ser_int f @ body)" body] by simp
  qed
  have ins: "unser_sized TxIn_new unser_TxIn (txIns old) (?s body) =
      Inr (txIns t, ?s (ser_sized ser_TxOut (txOuts t) @ wit @ tail))"
    using tx_in.decode_sized [of "?s body" "txIns t"] assms by (simp add: body_def tx_ok_def tx_ready_def)
  have outs: "unser_sized TxOut_new unser_TxOut (txOuts old) (?s (ser_sized ser_TxOut (txOuts t) @ wit @ tail)) =
      Inr (txOuts t, ?s (wit @ tail))"
    using tx_out.decode_sized [of "?s (ser_sized ser_TxOut (txOuts t) @ wit @ tail)" "txOuts t"] assms
    by (simp add: tx_ok_def all_ready_def)
  have wits: "(if tx_flag t = None then Inr (txIns t, ?s (wit @ tail)) else unser_witnesses (txIns t) (?s (wit @ tail))) =
      Inr (txIns t, ?s tail)"
  proof (cases "tx_flag t")
    case (Some f)
    have "\<forall>i \<in> set (txIns t). scriptWitness i = []" "0 < room s"
      using assms(3) by (auto simp: tx_ok_def sized_ok_def tx_in_ok_def)
    then show ?thesis
      using Some unser_witnesses_empty [of "?s (wit @ tail)" "txIns t" tail] assms(1) by (simp add: wit_def)
  qed (simp add: wit_def)
  show ?thesis
    unfolding unser_Transaction_def version rbind_Inr prod.case flag ins outs wits
    using assms(1) by (simp add: tail_def unser_int_decode)
qed

text \<open>
  A transaction with no inputs and no flag reads back as one with a flag: the zero that counts its
  inputs is taken for the start of the flag.
\<close>

lemma unser_Transaction_no_inputs:
  assumes "good s" and "buf s = ser_Transaction t @ r" and "tx_flag t = None" and "txIns t = []"
    and "unser_Transaction old s = Inr (t', s')"
  shows "tx_flag t' \<noteq> None"
proof -
  have zero: "ser_varint 0 = [0]" by (simp add: ser_varint_def ser_int_def)
  define rest where "rest = ser_sized ser_TxOut (txOuts t) @ ser_int (srcChain t) @ ser_int (dstChain t) @ ser_int (lockTime t) @ r"
  have "buf s = ser_int (tx_version t) @ 0 # rest"
    using assms(2-4) by (simp add: ser_Transaction_def ser_sized_def ser_list_def zero rest_def)
  then have "unser_int (tx_version old) s = Inr (tx_version t, s\<lparr>buf := 0 # rest\<rparr>)"
    using assms(1) by (intro unser_int_decode) simp_all
  moreover have "peek (s\<lparr>buf := 0 # rest\<rparr>) = (Some 0, s\<lparr>buf := 0 # rest\<rparr>)"
    using assms(1) by (simp add: peek_def)
  ultimately show ?thesis
    using assms(5) by (auto simp: unser_Transaction_def unser_flag_def rbind_eq_Inr)
qed

text \<open>Reading over an object leaves its cached hash in place, valid or not.\<close>

lemma unser_Transaction_hash:
  assumes "unser_Transaction old s = Inr (t, s')"
  shows "tx_hash t = tx_hash old \<and> tx_validHash t = tx_validHash old"
  using assms by (auto simp: unser_Transaction_def rbind_eq_Inr)

text \<open>The hash of a transaction is the double digest of its bytes, and is kept.\<close>

context hasher_contract
begin

lemma hash_of_bytes:
  assumes "OUTPUT_SIZE ops = 32" and "length junk = 64"
  shows "\<exists>hs. hs_hash ops (hs_xsputn ops data (hs_new ops junk)) = Inr (H (H data), hs)"
proof -
  have "fst (hs_digest ops (hs_xsputn ops data (hs_new ops junk))) = H (H data)"
    using HashStream_digest [OF assms(2), of "[data]"] by simp
  then show ?thesis
    using assms(1) length_H
    by (cases "hs_digest ops (hs_xsputn ops data (hs_new ops junk))") (simp add: hs_hash_def blob256_of_def)
qed

lemma Transaction_hash_digest:
  assumes "OUTPUT_SIZE ops = 32" and "length junk = 64" and "\<not> tx_validHash t"
  shows "Transaction_hash ops junk t =
    Inr (H (H (ser_Transaction t)), t\<lparr>tx_hash := H (H (ser_Transaction t)), tx_validHash := True\<rparr>)"
  using hash_of_bytes [OF assms(1,2), of "ser_Transaction t"] assms(3) by (auto simp: Transaction_hash_def)

end

end
