(* ===== verification/Blocks.thy ===== *)
theory Blocks
  imports Transactions Merkle
begin

text \<open>
  \<open>src/blockchain/BlockHeader.hpp\<close>, \<open>BlockHeader.cpp\<close>, \<open>Block.hpp\<close> and \<open>Block.cpp\<close>.

  The list of transactions is a shared pointer to a vector of shared pointers: an \<open>option\<close> of a list
  of \<open>option\<close>s here. The elements are distinct objects, which nothing else changes.
\<close>

section \<open>Block headers\<close>

record block_header =
  bh_version :: "32 word"
  bh_prev :: blob
  bh_merkle :: blob
  bh_timestamp :: "32 word"
  bh_bits :: "32 word"
  bh_nonce :: "32 word"
  bh_chain :: "32 word"
  bh_id :: "64 word"
  bh_height :: "64 word"
  bh_hash :: blob
  bh_validHash :: bool

definition BlockHeader_new :: block_header where
  "BlockHeader_new =
     \<lparr>bh_version = 0, bh_prev = blob_null 32, bh_merkle = blob_null 32, bh_timestamp = 0, bh_bits = 0,
      bh_nonce = 0, bh_chain = - 1, bh_id = - 1, bh_height = - 1, bh_hash = blob_null 32, bh_validHash = False\<rparr>"

text \<open>\<open>reset\<close> assigns \<open>-1\<close> to the flag \<open>_validHash\<close>, which is \<open>true\<close>.\<close>

definition bh_reset :: "block_header \<Rightarrow> block_header" where
  "bh_reset h =
     h\<lparr>bh_version := 0, bh_prev := blob_null 32, bh_merkle := blob_null 32, bh_timestamp := 0, bh_bits := 0,
       bh_nonce := 0, bh_chain := - 1, bh_id := - 1, bh_height := - 1, bh_hash := blob_null 32, bh_validHash := True\<rparr>"

definition ser_BlockHeader :: "block_header \<Rightarrow> bytes" where
  "ser_BlockHeader h =
     ser_int (bh_version h) @ ser_bytes (bh_prev h) @ ser_bytes (bh_merkle h) @ ser_int (bh_timestamp h) @
     ser_int (bh_bits h) @ ser_int (bh_nonce h) @ ser_int (bh_chain h)"

definition unser_BlockHeader :: "block_header \<Rightarrow> istream \<Rightarrow> io_fault + block_header \<times> istream" where
  "unser_BlockHeader old s =
     rbind (unser_int (bh_version old) s) (\<lambda>(version, s).
     rbind (unser_bytes (bh_prev old) s) (\<lambda>(prev, s).
     rbind (unser_bytes (bh_merkle old) s) (\<lambda>(merkle, s).
     rbind (unser_int (bh_timestamp old) s) (\<lambda>(timestamp, s).
     rbind (unser_int (bh_bits old) s) (\<lambda>(bits, s).
     rbind (unser_int (bh_nonce old) s) (\<lambda>(nonce, s).
     rbind (unser_int (bh_chain old) s) (\<lambda>(chain, s).
     Inr (old\<lparr>bh_version := version, bh_prev := prev, bh_merkle := merkle, bh_timestamp := timestamp,
       bh_bits := bits, bh_nonce := nonce, bh_chain := chain\<rparr>, s))))))))"

definition BlockHeader_hash :: "'h hasher \<Rightarrow> bytes \<Rightarrow> block_header \<Rightarrow> io_fault + blob \<times> block_header" where
  "BlockHeader_hash ops junk h =
     (if bh_validHash h then Inr (bh_hash h, h)
      else
        rbind (hs_hash ops (hs_xsputn ops (ser_BlockHeader h) (hs_new ops junk))) (\<lambda>(hash, hs).
        Inr (hash, h\<lparr>bh_hash := hash, bh_validHash := True\<rparr>)))"

definition setId :: "64 word \<Rightarrow> block_header \<Rightarrow> io_fault + block_header" where
  "setId i h = (if bh_id h = - 1 then Inr (h\<lparr>bh_id := i\<rparr>) else Inl Abort)"

definition setHeight :: "64 word \<Rightarrow> block_header \<Rightarrow> io_fault + block_header" where
  "setHeight n h = (if bh_height h = - 1 then Inr (h\<lparr>bh_height := n\<rparr>) else Inl Abort)"

definition inChain :: "block_header \<Rightarrow> bool" where
  "inChain h \<longleftrightarrow> bh_height h \<noteq> - 1"

section \<open>Blocks\<close>

record block =
  b_header :: block_header
  b_txList :: "transaction option list option"

definition Block_new :: block where
  "Block_new = \<lparr>b_header = BlockHeader_new, b_txList = None\<rparr>"

definition Block_of_header :: "block_header \<Rightarrow> block" where
  "Block_of_header h = \<lparr>b_header = h, b_txList = None\<rparr>"

text \<open>Through a null pointer \<open>Serialize\<close> is undefined; \<open>Unserialize\<close> makes the objects that are missing.\<close>

definition ser_tx_ptr :: "transaction option \<Rightarrow> io_fault + bytes" where
  "ser_tx_ptr p = (case p of None \<Rightarrow> Inl Undefined | Some t \<Rightarrow> Inr (ser_Transaction t))"

fun ser_tx_ptrs :: "transaction option list \<Rightarrow> io_fault + bytes" where
  "ser_tx_ptrs [] = Inr []"
| "ser_tx_ptrs (p # ps) = rbind (ser_tx_ptr p) (\<lambda>b. rbind (ser_tx_ptrs ps) (\<lambda>bs. Inr (b @ bs)))"

definition unser_tx_ptr :: "transaction option \<Rightarrow> istream \<Rightarrow> io_fault + transaction option \<times> istream" where
  "unser_tx_ptr old s =
     rbind (unser_Transaction (case old of None \<Rightarrow> Transaction_new | Some t \<Rightarrow> t) s) (\<lambda>(t, s). Inr (Some t, s))"

definition ser_Block :: "block \<Rightarrow> io_fault + bytes" where
  "ser_Block b =
     (case b_txList b of
        None \<Rightarrow> Inl Undefined
      | Some txs \<Rightarrow> rbind (ser_tx_ptrs txs) (\<lambda>bs.
          Inr (ser_BlockHeader (b_header b) @ ser_varint (word_of_nat (length txs)) @ bs)))"

definition unser_Block :: "block \<Rightarrow> istream \<Rightarrow> io_fault + block \<times> istream" where
  "unser_Block old s =
     rbind (unser_BlockHeader (b_header old) s) (\<lambda>(h, s).
     rbind (unser_sized None unser_tx_ptr (case b_txList old of None \<Rightarrow> [] | Some txs \<Rightarrow> txs) s) (\<lambda>(txs, s).
     Inr (\<lparr>b_header = h, b_txList = Some txs\<rparr>, s)))"

section \<open>Reading back\<close>

definition header_ok :: "block_header \<Rightarrow> bool" where
  "header_ok h \<longleftrightarrow> blob_ok (bh_prev h) \<and> blob_ok (bh_merkle h)"

lemma unser_BlockHeader_decode:
  assumes "good s" and "buf s = ser_BlockHeader h @ r" and "header_ok h" and "header_ok old"
  shows "unser_BlockHeader old s =
    Inr (h\<lparr>bh_id := bh_id old, bh_height := bh_height old, bh_hash := bh_hash old, bh_validHash := bh_validHash old\<rparr>,
      s\<lparr>buf := r\<rparr>)"
proof -
  let ?s = "\<lambda>b. s\<lparr>buf := b\<rparr>"
  define r5 where "r5 = ser_int (bh_chain h) @ r"
  define r4 where "r4 = ser_int (bh_bits h) @ ser_int (bh_nonce h) @ r5"
  define r3 where "r3 = ser_int (bh_timestamp h) @ r4"
  define r2 where "r2 = ser_bytes (bh_merkle h) @ r3"
  define r1 where "r1 = ser_bytes (bh_prev h) @ r2"
  have "unser_int (bh_version old) s = Inr (bh_version h, ?s r1)"
    using assms(1,2) by (intro unser_int_decode) (simp_all add: ser_BlockHeader_def r1_def r2_def r3_def r4_def r5_def)
  moreover have "unser_bytes (bh_prev old) (?s r1) = Inr (bh_prev h, ?s r2)"
    using unser_bytes_decode [of "?s r1" "bh_prev h" r2 "bh_prev old"] assms
    by (simp add: r1_def ser_bytes_def header_ok_def)
  moreover have "unser_bytes (bh_merkle old) (?s r2) = Inr (bh_merkle h, ?s r3)"
    using unser_bytes_decode [of "?s r2" "bh_merkle h" r3 "bh_merkle old"] assms
    by (simp add: r2_def ser_bytes_def header_ok_def)
  ultimately show ?thesis
    using assms(1) by (simp add: unser_BlockHeader_def r3_def r4_def r5_def unser_int_decode)
qed

lemma length_ser_BlockHeader: "header_ok h \<Longrightarrow> length (ser_BlockHeader h) = 84"
  by (simp add: ser_BlockHeader_def ser_bytes_def header_ok_def)

text \<open>
  A transaction that has been read has its hash still to be computed; pointers to such transactions
  are read back into null pointers.
\<close>

definition fresh_hash :: "transaction \<Rightarrow> bool" where
  "fresh_hash t \<longleftrightarrow> tx_hash t = blob_null 32 \<and> \<not> tx_validHash t"

definition tx_ptr_ok :: "nat \<Rightarrow> transaction option \<Rightarrow> bool" where
  "tx_ptr_ok n p \<longleftrightarrow> (case p of None \<Rightarrow> False | Some t \<Rightarrow> tx_ok n t \<and> fresh_hash t)"

definition tx_ptr_bytes :: "transaction option \<Rightarrow> bytes" where
  "tx_ptr_bytes p = (case p of None \<Rightarrow> [] | Some t \<Rightarrow> ser_Transaction t)"

interpretation tx_ptr: vector_codec tx_ptr_bytes unser_tx_ptr tx_ptr_ok "\<lambda>p. p = None" None
proof
  fix s :: istream and x old :: "transaction option" and r
  assume a: "good s" "buf s = tx_ptr_bytes x @ r" "tx_ptr_ok (room s) x" "old = None"
  then obtain t where x: "x = Some t" "tx_ok (room s) t" "fresh_hash t"
    by (cases x) (simp_all add: tx_ptr_ok_def)
  have "unser_Transaction Transaction_new s =
      Inr (t\<lparr>tx_hash := tx_hash Transaction_new, tx_validHash := tx_validHash Transaction_new\<rparr>, s\<lparr>buf := r\<rparr>)"
    using a x by (intro unser_Transaction_decode) (simp_all add: tx_ptr_bytes_def tx_ready_def all_ready_def Transaction_new_def)
  moreover have "t\<lparr>tx_hash := tx_hash Transaction_new, tx_validHash := tx_validHash Transaction_new\<rparr> = t"
    using x(3) by (simp add: fresh_hash_def Transaction_new_def)
  ultimately show "unser_tx_ptr old s = Inr (x, s\<lparr>buf := r\<rparr>)" using a x by (simp add: unser_tx_ptr_def)
qed simp

lemma ser_tx_ptrs_list: "None \<notin> set ps \<Longrightarrow> ser_tx_ptrs ps = Inr (ser_list tx_ptr_bytes ps)"
proof (induction ps)
  case (Cons p ps)
  then obtain t where "p = Some t" by (cases p) auto
  with Cons show ?case by (simp add: ser_tx_ptr_def tx_ptr_bytes_def ser_list_def)
qed (simp add: ser_list_def)

text \<open>A block that \<open>Serialize\<close> has written is read back into a new block, up to the header's bookkeeping.\<close>

lemma unser_Block_decode:
  assumes "good s" and "ser_Block b = Inr bs" and "buf s = bs @ r" and "header_ok (b_header b)"
    and "b_txList b = Some txs" and "sized_ok tx_ptr_ok (room s) txs"
  shows "unser_Block Block_new s =
    Inr (b\<lparr>b_header := (b_header b)\<lparr>bh_id := - 1, bh_height := - 1, bh_hash := blob_null 32, bh_validHash := False\<rparr>\<rparr>,
      s\<lparr>buf := r\<rparr>)"
proof -
  have some: "None \<notin> set txs" using assms(6) by (auto simp: sized_ok_def tx_ptr_ok_def)
  then have bs: "bs = ser_BlockHeader (b_header b) @ ser_sized tx_ptr_bytes txs"
    using assms(2,5) by (simp add: ser_Block_def ser_tx_ptrs_list ser_sized_def)
  have "unser_BlockHeader BlockHeader_new s =
      Inr ((b_header b)\<lparr>bh_id := - 1, bh_height := - 1, bh_hash := blob_null 32, bh_validHash := False\<rparr>,
        s\<lparr>buf := ser_sized tx_ptr_bytes txs @ r\<rparr>)"
    using unser_BlockHeader_decode [of s "b_header b" "ser_sized tx_ptr_bytes txs @ r" BlockHeader_new] assms bs
    by (simp add: header_ok_def BlockHeader_new_def blob_null_def)
  moreover have "unser_sized None unser_tx_ptr [] (s\<lparr>buf := ser_sized tx_ptr_bytes txs @ r\<rparr>) = Inr (txs, s\<lparr>buf := r\<rparr>)"
    using tx_ptr.decode_sized [of "s\<lparr>buf := ser_sized tx_ptr_bytes txs @ r\<rparr>" txs r "[]"] assms
    by (simp add: all_ready_def)
  ultimately show ?thesis using assms(5) by (simp add: unser_Block_def Block_new_def)
qed

text \<open>
  After \<open>reset\<close>, a header gives the null hash whatever is read into it.
\<close>

lemma reset_hash:
  assumes "unser_BlockHeader (bh_reset h) s = Inr (h', s')"
  shows "BlockHeader_hash ops junk h' = Inr (blob_null 32, h')"
  using assms by (auto simp: unser_BlockHeader_def rbind_eq_Inr bh_reset_def BlockHeader_hash_def)

context hasher_contract
begin

lemma BlockHeader_hash_digest:
  assumes "OUTPUT_SIZE ops = 32" and "length junk = 64" and "\<not> bh_validHash h"
  shows "BlockHeader_hash ops junk h =
    Inr (H (H (ser_BlockHeader h)), h\<lparr>bh_hash := H (H (ser_BlockHeader h)), bh_validHash := True\<rparr>)"
  using hash_of_bytes [OF assms(1,2), of "ser_BlockHeader h"] assms(3) by (auto simp: BlockHeader_hash_def)

end

end
