(* ===== verification/ChainProps.thy ===== *)
theory ChainProps
  imports Blob Blocks Digests
begin

text \<open>
  The properties of the wire formats: integers of variable length, blobs, transactions and blocks,
  each with an instance of its hypotheses.
\<close>

abbreviation stream_of :: "bytes \<Rightarrow> istream" where
  "stream_of bs \<equiv> \<lparr>buf = bs, good = True, room = 1000000\<rparr>"

lemma unser_int_total: "\<exists>x s'. unser_int old s = Inr (x, s')"
  by (simp add: unser_int_def split: prod.split)

text \<open>C16: reading an integer of variable length succeeds exactly on the bytes that \<open>Serialize\<close> writes for it
  (the shortest form), and consumes just these.\<close>

theorem varint_codec:
  assumes "good s"
  shows "unser_varint s = Inr (v, s') \<longleftrightarrow> buf s = ser_varint v @ buf s' \<and> s' = s\<lparr>buf := buf s'\<rparr>"
proof
  assume r: "unser_varint s = Inr (v, s')"
  then have "buf s = ser_varint v @ buf s'" by (rule unser_varint_canonical)
  with unser_varint_decode [OF assms this] r
  show "buf s = ser_varint v @ buf s' \<and> s' = s\<lparr>buf := buf s'\<rparr>" by simp
next
  assume "buf s = ser_varint v @ buf s' \<and> s' = s\<lparr>buf := buf s'\<rparr>"
  with unser_varint_decode [OF assms, of v "buf s'"] show "unser_varint s = Inr (v, s')" by simp
qed

theorem varint_codec_witness:
  "unser_varint (stream_of [253, 0, 1, 7]) = Inr (256, stream_of [7]) \<longleftrightarrow>
     buf (stream_of [253, 0, 1, 7]) = ser_varint 256 @ buf (stream_of [7]) \<and>
     stream_of [7] = stream_of [253, 0, 1, 7]\<lparr>buf := buf (stream_of [7])\<rparr>"
  by (rule varint_codec) simp

text \<open>on blobs of the same size, \<open>operator<\<close> and \<open>operator>\<close> compare the numbers that the blobs hold in
  little-endian order; \<open>operator<=\<close> and \<open>operator>=\<close> compare only their most significant bytes.\<close>

lemma blob_order:
  assumes "length a = length b" and "a \<noteq> []"
  shows "(blob_less a b \<longleftrightarrow> le_value a < le_value b) \<and> (blob_greater a b \<longleftrightarrow> le_value a > le_value b) \<and>
    (blob_leq a b \<longleftrightarrow> last a \<le> last b) \<and> (blob_geq a b \<longleftrightarrow> last a \<ge> last b)"
proof -
  have "b \<noteq> []" using assms by auto
  then show ?thesis
    using assms by (simp add: blob_less_value blob_greater_value blob_leq_last blob_geq_last)
qed

lemma blob_order_witness:
  "(blob_less [2, 1] [1, 1] \<longleftrightarrow> le_value [2, 1] < le_value [1, 1]) \<and>
   (blob_greater [2, 1] [1, 1] \<longleftrightarrow> le_value [2, 1] > le_value [1, 1]) \<and>
   (blob_leq [2, 1] [1, 1] \<longleftrightarrow> last [2 :: byte, 1] \<le> last [1, 1]) \<and> (blob_geq [2, 1] [1, 1] \<longleftrightarrow> last [2 :: byte, 1] \<ge> last [1, 1])"
  by (rule blob_order) simp_all

text \<open>the constructor from a string reads back what \<open>str\<close> prints, also after spaces and with the
  prefix \<open>0x\<close>.\<close>

lemma blob_text_roundtrip:
  assumes "\<forall>c \<in> set spaces. isspace c" and "prefix \<in> {'''', ''0x'', ''0X''}"
  shows "blob_of_string (length b) (spaces @ prefix @ blob_str b) = b"
  using blob_of_string_prefixed [OF assms] .

lemma blob_text_roundtrip_witness:
  "blob_of_string (length [0x1f :: byte, 0, 0xa0]) ('' '' @ ''0x'' @ blob_str [0x1f, 0, 0xa0]) = [0x1f, 0, 0xa0]"
  by (rule blob_text_roundtrip) (simp_all add: isspace_def)

text \<open>C17: \<open>Unserialize\<close> reads back a transaction that \<open>Serialize\<close> has written, into any object whose inputs have no
  witness elements (\<open>tx_ready\<close>), and its hash is then the double SHA-256 of these bytes, unless the object had cached a hash
  before: that hash is kept, whatever was read. The transaction is one that \<open>tx_ok\<close> describes: it has an input and no flag, or the
  flag 0x0100; its inputs have no witness elements, and its lists and scripts can be allocated. Without a flag and without inputs the
  count of the inputs is read as a flag, and witness elements are lost: see the lemmas on them.\<close>

theorem transaction_roundtrip:
  assumes "length junk = 64" and "length junk' = 64"
    and "good s" and "buf s = ser_Transaction t @ r" and "tx_ok (room s) t" and "tx_ready old"
  shows "\<exists>t'. unser_Transaction old s = Inr (t', s\<lparr>buf := r\<rparr>) \<and> ser_Transaction t' = ser_Transaction t \<and>
    (\<exists>t''. Transaction_hash (CSHA256 junk) junk' t' =
      Inr (if tx_validHash old then tx_hash old else fips_SHA256 (fips_SHA256 (ser_Transaction t)), t''))"
proof -
  let ?t = "t\<lparr>tx_hash := tx_hash old, tx_validHash := tx_validHash old\<rparr>"
  have ser: "ser_Transaction ?t = ser_Transaction t" by (simp add: ser_Transaction_def split: option.split)
  have "OUTPUT_SIZE (CSHA256 junk) = 32" by (simp add: CSHA256_def)
  note hash = hasher_contract.Transaction_hash_digest [OF CSHA256_contract [OF assms(1)] this assms(2), of ?t]
  have "\<exists>t''. Transaction_hash (CSHA256 junk) junk' ?t =
      Inr (if tx_validHash old then tx_hash old else fips_SHA256 (fips_SHA256 (ser_Transaction t)), t'')"
    using hash ser by (cases "tx_validHash old") (simp_all add: Transaction_hash_def)
  then show ?thesis using unser_Transaction_decode [OF assms(3-6)] ser by blast
qed

definition sample_tx :: transaction where
  "sample_tx = Transaction_new\<lparr>txIns := [TxIn_new], txOuts := [TxOut_new\<lparr>keyScript := [0x51]\<rparr>]\<rparr>"

lemma sample_tx_ok: "tx_ok 1000000 sample_tx \<and> tx_ready sample_tx \<and> fresh_hash sample_tx"
  by (simp add: sample_tx_def tx_ok_def tx_ready_def fresh_hash_def Transaction_new_def sized_ok_def tx_in_ok_def
      TxIn_new_def TxOutPoint_new_def blob_null_def bytes_ok_def all_ready_def tx_in_ready_def)

theorem transaction_roundtrip_witness:
  "\<exists>t'. unser_Transaction sample_tx (stream_of (ser_Transaction sample_tx @ [1])) = Inr (t', stream_of [1]) \<and>
    ser_Transaction t' = ser_Transaction sample_tx \<and>
    (\<exists>t''. Transaction_hash (CSHA256 (replicate 64 0)) (replicate 64 0) t' =
      Inr (fips_SHA256 (fips_SHA256 (ser_Transaction sample_tx)), t''))"
proof -
  have "\<not> tx_validHash sample_tx" using sample_tx_ok by (simp add: fresh_hash_def)
  then show ?thesis
    using transaction_roundtrip [of "replicate 64 0" "replicate 64 0" "stream_of (ser_Transaction sample_tx @ [1])"
        sample_tx "[1]" sample_tx] sample_tx_ok by simp
qed

text \<open>A transaction without inputs and without a flag is never read back as it was: the zero count of
  its inputs is taken for the first byte of a flag.\<close>

lemma transaction_no_inputs:
  assumes "good s" and "buf s = ser_Transaction t @ r" and "tx_flag t = None" and "txIns t = []"
    and "unser_Transaction old s = Inr (t', s')"
  shows "tx_flag t' \<noteq> None"
  using assms by (rule unser_Transaction_no_inputs)

definition empty_tx :: transaction where
  "empty_tx = Transaction_new\<lparr>srcChain := 0, dstChain := 0\<rparr>"

lemma transaction_no_inputs_witness:
  "\<exists>t' s'. unser_Transaction Transaction_new (stream_of (ser_Transaction empty_tx)) = Inr (t', s') \<and>
     tx_flag t' \<noteq> None"
proof -
  let ?s = "\<lambda>b. stream_of (b @ [0, 0, 0, 0, 0, 0, 0, 0, 0, 0])"
  let ?b1 = "ser_sized ser_TxIn [] @ ser_sized ser_TxOut []"
  have bytes: "ser_Transaction empty_tx = (ser_int (0 :: 32 word) @ ser_int (0 :: 16 word) @ ?b1) @ [0, 0, 0, 0, 0, 0, 0, 0, 0, 0]"
    by (simp add: empty_tx_def Transaction_new_def ser_Transaction_def ser_int_def le_bytes_numeral ser_sized_def
        ser_list_def ser_varint_def)
  have "unser_int (tx_version Transaction_new) (stream_of (ser_Transaction empty_tx)) = Inr (0, ?s (ser_int (0 :: 16 word) @ ?b1))"
    unfolding bytes by (rule unser_int_decode [THEN trans]) simp_all
  moreover have "unser_flag (?s (ser_int (0 :: 16 word) @ ?b1)) = Inr (Some 0, ?s ?b1)"
    using unser_int_decode [of "?s (ser_int (0 :: 16 word) @ ?b1)" "0 :: 16 word" "?b1 @ [0, 0, 0, 0, 0, 0, 0, 0, 0, 0]" 0]
    by (simp add: unser_flag_def peek_def ser_int_def le_bytes_numeral)
  moreover have "unser_sized TxIn_new unser_TxIn (txIns Transaction_new) (?s ?b1) = Inr ([], ?s (ser_sized ser_TxOut []))"
    using tx_in.decode_sized [of "?s ?b1" "[]" "ser_sized ser_TxOut [] @ [0, 0, 0, 0, 0, 0, 0, 0, 0, 0]"]
    by (simp add: sized_ok_def all_ready_def Transaction_new_def)
  moreover have "unser_sized TxOut_new unser_TxOut (txOuts Transaction_new) (?s (ser_sized ser_TxOut [])) = Inr ([], ?s [])"
    using tx_out.decode_sized [of "?s (ser_sized ser_TxOut [])" "[]" "[0, 0, 0, 0, 0, 0, 0, 0, 0, 0]"]
    by (simp add: sized_ok_def all_ready_def Transaction_new_def)
  moreover obtain src s1 where "unser_int (srcChain Transaction_new) (?s []) = Inr (src, s1)"
    using unser_int_total by blast
  moreover obtain dst s2 where "unser_int (dstChain Transaction_new) s1 = Inr (dst, s2)"
    using unser_int_total by blast
  moreover obtain lock s3 where "unser_int (lockTime Transaction_new) s2 = Inr (lock, s3)"
    using unser_int_total by blast
  ultimately obtain t' s' where
    "unser_Transaction Transaction_new (stream_of (ser_Transaction empty_tx)) = Inr (t', s')"
    by (simp add: unser_Transaction_def cong del: rbind_cong)
  then show ?thesis using transaction_no_inputs [of "stream_of (ser_Transaction empty_tx)" empty_tx "[]" Transaction_new t' s']
    by (fastforce simp: empty_tx_def Transaction_new_def)
qed

text \<open>A witness read into an empty object gets as many elements as were written, all of them empty; the
  bytes of the elements stay on the stream and are taken for what follows.\<close>

lemma witness_elements_lost:
  assumes "good s" and "buf s = ser_TxWitness stack @ r" and "length stack \<le> room s" and "length stack < 2 ^ 64"
  shows "unser_TxWitness [] s = Inr (replicate (length stack) [], s\<lparr>buf := concat stack @ r\<rparr>)"
  using assms by (rule unser_TxWitness_empty)

lemma witness_elements_lost_witness:
  "unser_TxWitness [] (stream_of (ser_TxWitness [[7, 8], [9]] @ [1])) =
     Inr ([[], []], (stream_of (ser_TxWitness [[7, 8], [9]] @ [1]))\<lparr>buf := [7, 8, 9, 1]\<rparr>)"
  using witness_elements_lost [of "stream_of (ser_TxWitness [[7, 8], [9]] @ [1])" "[[7, 8], [9]]" "[1]"] by simp

text \<open>C18: \<open>Unserialize\<close> into a new block reads back the header and the transactions that \<open>Serialize\<close> has
  written; the bookkeeping of the header starts anew, and its hash is the double SHA-256 of its 84
  bytes. Every transaction of the block is one that can be read back (\<open>tx_ok\<close>: an input and no flag, or the flag 0x0100, and
  no witness elements) and has no cached hash.\<close>

theorem block_roundtrip:
  assumes "length junk = 64" and "length junk' = 64"
    and "good s" and "ser_Block b = Inr bs" and "buf s = bs @ r" and "header_ok (b_header b)"
    and "b_txList b = Some txs" and "sized_ok tx_ptr_ok (room s) txs"
  shows "\<exists>b'. unser_Block Block_new s = Inr (b', s\<lparr>buf := r\<rparr>) \<and> ser_Block b' = Inr bs \<and> b_txList b' = Some txs \<and>
    \<not> inChain (b_header b') \<and>
    (\<exists>h. BlockHeader_hash (CSHA256 junk) junk' (b_header b') = Inr (fips_SHA256 (fips_SHA256 (take 84 bs)), h))"
proof -
  let ?h = "(b_header b)\<lparr>bh_id := - 1, bh_height := - 1, bh_hash := blob_null 32, bh_validHash := False\<rparr>"
  have ser: "ser_BlockHeader ?h = ser_BlockHeader (b_header b)" by (simp add: ser_BlockHeader_def)
  have "take 84 bs = ser_BlockHeader (b_header b)"
    using assms(4,6,7) length_ser_BlockHeader [of "b_header b"] by (auto simp: ser_Block_def rbind_eq_Inr)
  moreover have "OUTPUT_SIZE (CSHA256 junk) = 32" by (simp add: CSHA256_def)
  ultimately have "BlockHeader_hash (CSHA256 junk) junk' ?h =
      Inr (fips_SHA256 (fips_SHA256 (take 84 bs)), ?h\<lparr>bh_hash := fips_SHA256 (fips_SHA256 (take 84 bs)), bh_validHash := True\<rparr>)"
    using hasher_contract.BlockHeader_hash_digest [OF CSHA256_contract [OF assms(1)] _ assms(2), of ?h] ser by simp
  moreover have "ser_Block (b\<lparr>b_header := ?h\<rparr>) = Inr bs" using assms(4,7) ser by (simp add: ser_Block_def cong del: rbind_cong)
  moreover have "\<not> inChain ?h" by (simp add: inChain_def)
  ultimately show ?thesis
    using unser_Block_decode [OF assms(3-8)] assms(7) by (intro exI [of _ "b\<lparr>b_header := ?h\<rparr>"]) auto
qed

theorem block_roundtrip_witness:
  "\<exists>bs b'. ser_Block (Block_new\<lparr>b_txList := Some [Some sample_tx]\<rparr>) = Inr bs \<and>
    unser_Block Block_new (stream_of (bs @ [5])) = Inr (b', stream_of [5]) \<and> b_txList b' = Some [Some sample_tx]"
proof -
  let ?b = "Block_new\<lparr>b_txList := Some [Some sample_tx]\<rparr>"
  obtain bs where bs: "ser_Block ?b = Inr bs" by (simp add: ser_Block_def ser_tx_ptr_def)
  have "header_ok (b_header ?b)" by (simp add: Block_new_def BlockHeader_new_def header_ok_def blob_null_def)
  moreover have "sized_ok tx_ptr_ok 1000000 [Some sample_tx]"
    using sample_tx_ok by (simp add: sized_ok_def tx_ptr_ok_def)
  ultimately show ?thesis
    using block_roundtrip [of "replicate 64 0" "replicate 64 0" "stream_of (bs @ [5])" ?b bs "[5]" "[Some sample_tx]"] bs
    by auto
qed

text \<open>A header that \<open>reset\<close> has cleared gives the null hash, whatever is read into it afterwards:
  \<open>reset\<close> sets \<open>_validHash\<close> instead of clearing it.\<close>

lemma header_reset_hash:
  assumes "unser_BlockHeader (bh_reset h) s = Inr (h', s')"
  shows "BlockHeader_hash ops junk h' = Inr (blob_null 32, h')"
  using assms by (rule reset_hash)

lemma header_reset_hash_witness:
  "\<exists>h' s'. unser_BlockHeader (bh_reset BlockHeader_new) (stream_of (ser_BlockHeader BlockHeader_new)) = Inr (h', s') \<and>
     BlockHeader_hash (CSHA256 (replicate 64 0)) (replicate 64 0) h' = Inr (blob_null 32, h')"
proof -
  let ?s = "stream_of (ser_BlockHeader BlockHeader_new)"
  have ok: "header_ok BlockHeader_new" "header_ok (bh_reset BlockHeader_new)"
    by (simp_all add: BlockHeader_new_def bh_reset_def header_ok_def blob_null_def)
  obtain h' s' where "unser_BlockHeader (bh_reset BlockHeader_new) ?s = Inr (h', s')"
    using unser_BlockHeader_decode [of ?s BlockHeader_new "[]", OF _ _ ok] by auto
  then show ?thesis using header_reset_hash by blast
qed

end
