(* ===== verification/BlockStore.thy ===== *)
theory BlockStore
  imports Blocks Merkle
begin

text \<open>
  \<open>src/node/Blockchain.hpp\<close> and \<open>src/node/Blockchain.cpp\<close>: the store of block headers and
  transactions, and the main chain.

  The members of the only instance are the record \<open>chain_state\<close>. The vectors hold shared pointers to
  objects that nobody else changes after they were added, so a pointer is the position of its object
  in the vector (the id), and comparing pointers compares positions. A stored header may be a full
  block: \<open>Serialize\<close> is virtual. References into the headers (\<open>_blockHashes\<close>, \<open>_txHashes\<close>) are the hashes
  they refer to; these are computed once and the objects live as long as the program.

  Loops that the code may never leave are \<open>partial_function (option)\<close>: \<open>None\<close> means that the call does
  not return. The queue of the task manager is the list \<open>cs_tasks\<close>, filled at its end.
\<close>

section \<open>The state\<close>

datatype stored = Plain block_header | Full block

fun stored_header :: "stored \<Rightarrow> block_header" where
  "stored_header (Plain h) = h"
| "stored_header (Full b) = b_header b"

fun with_header :: "block_header \<Rightarrow> stored \<Rightarrow> stored" where
  "with_header h (Plain g) = Plain h"
| "with_header h (Full b) = Full (b\<lparr>b_header := h\<rparr>)"

record chain_state =
  cs_genesis :: blob
  cs_blocks :: "stored list"
  cs_blockIds :: "blob \<rightharpoonup> nat"
  cs_blockHashes :: "nat \<rightharpoonup> blob"
  cs_orphans :: "(blob \<times> nat) list"
  cs_merkles :: "blob \<rightharpoonup> nat"
  cs_txs :: "transaction list"
  cs_txIds :: "blob \<rightharpoonup> nat"
  cs_txHashes :: "nat \<rightharpoonup> blob"
  cs_mainChain :: "nat list"
  cs_tasks :: "nat list"

definition chain_init :: "blob \<Rightarrow> chain_state" where
  "chain_init genesis =
     \<lparr>cs_genesis = genesis, cs_blocks = [], cs_blockIds = Map.empty, cs_blockHashes = Map.empty, cs_orphans = [],
      cs_merkles = Map.empty, cs_txs = [], cs_txIds = Map.empty, cs_txHashes = Map.empty, cs_mainChain = [],
      cs_tasks = []\<rparr>"

text \<open>\<open>emplace\<close> of a map keeps the value of a key that is there.\<close>

definition map_emplace :: "'k \<Rightarrow> 'v \<Rightarrow> ('k \<rightharpoonup> 'v) \<Rightarrow> ('k \<rightharpoonup> 'v)" where
  "map_emplace k v m = (if m k = None then m(k \<mapsto> v) else m)"

text \<open>The header behind a pointer, and its update.\<close>

definition hdr :: "chain_state \<Rightarrow> nat \<Rightarrow> block_header" where
  "hdr s p = stored_header (cs_blocks s ! p)"

definition set_hdr :: "nat \<Rightarrow> block_header \<Rightarrow> chain_state \<Rightarrow> chain_state" where
  "set_hdr p h s = s\<lparr>cs_blocks := (cs_blocks s)[p := with_header h (cs_blocks s ! p)]\<rparr>"

section \<open>Heights and hashes\<close>

definition getHeight :: "chain_state \<Rightarrow> 64 word" where
  "getHeight s = word_of_nat (length (cs_mainChain s))"

definition getBlockHash :: "64 word \<Rightarrow> chain_state \<Rightarrow> io_fault + blob" where
  "getBlockHash height s =
     (if unat height \<ge> length (cs_mainChain s) then Inr (blob_null 32)
      else case cs_blockHashes s (cs_mainChain s ! unat height) of None \<Rightarrow> Inl Abort | Some hash \<Rightarrow> Inr hash)"

definition getTopBlockHash :: "chain_state \<Rightarrow> io_fault + blob" where
  "getTopBlockHash s = getBlockHash (getHeight s - 1) s"

definition getTopBlockHeader :: "chain_state \<Rightarrow> io_fault + nat option" where
  "getTopBlockHeader s =
     (if cs_mainChain s = [] then Inr None
      else if last (cs_mainChain s) < length (cs_blocks s) then Inr (Some (last (cs_mainChain s)))
      else Inl Undefined)"

section \<open>Headers\<close>

definition hasBlockHeader :: "blob \<Rightarrow> chain_state \<Rightarrow> bool" where
  "hasBlockHeader hash s \<longleftrightarrow> cs_blockIds s hash \<noteq> None"

definition getBlockHeader_id :: "nat \<Rightarrow> chain_state \<Rightarrow> nat option" where
  "getBlockHeader_id i s = (if i < length (cs_blocks s) then Some i else None)"

definition getBlockHeader :: "blob \<Rightarrow> chain_state \<Rightarrow> nat option" where
  "getBlockHeader hash s =
     (case cs_blockIds s hash of None \<Rightarrow> None | Some i \<Rightarrow> getBlockHeader_id i s)"

definition addBlockHeader :: "'h hasher \<Rightarrow> bytes \<Rightarrow> stored \<Rightarrow> chain_state \<Rightarrow> io_fault + bool \<times> chain_state" where
  "addBlockHeader ops junk obj s =
     rbind (BlockHeader_hash ops junk (stored_header obj)) (\<lambda>(hash, h).
     if hasBlockHeader hash s then Inr (False, s)
     else
       let i = length (cs_blocks s)
       in rbind (setId (word_of_nat i) h) (\<lambda>h.
          Inr (True, s\<lparr>cs_blockIds := map_emplace hash i (cs_blockIds s),
            cs_blocks := cs_blocks s @ [with_header h obj],
            cs_blockHashes := map_emplace i hash (cs_blockHashes s)\<rparr>)))"

definition hasBlock :: "blob \<Rightarrow> chain_state \<Rightarrow> bool" where
  "hasBlock hash s \<longleftrightarrow> (case getBlockHeader hash s of None \<Rightarrow> False | Some p \<Rightarrow> inChain (hdr s p))"

section \<open>Transactions\<close>

definition hasTx :: "blob \<Rightarrow> chain_state \<Rightarrow> bool" where
  "hasTx hash s \<longleftrightarrow> cs_txIds s hash \<noteq> None"

definition getTx_id :: "nat \<Rightarrow> chain_state \<Rightarrow> nat option" where
  "getTx_id i s = (if i < length (cs_txs s) then Some i else None)"

definition getTx :: "blob \<Rightarrow> chain_state \<Rightarrow> nat option" where
  "getTx hash s = (case cs_txIds s hash of None \<Rightarrow> None | Some i \<Rightarrow> getTx_id i s)"

definition addTx :: "'h hasher \<Rightarrow> bytes \<Rightarrow> transaction \<Rightarrow> chain_state \<Rightarrow> io_fault + bool \<times> chain_state" where
  "addTx ops junk tx s =
     rbind (Transaction_hash ops junk tx) (\<lambda>(hash, tx).
     if hasTx hash s then Inr (False, s)
     else
       let i = length (cs_txs s)
       in Inr (True, s\<lparr>cs_txIds := map_emplace hash i (cs_txIds s), cs_txs := cs_txs s @ [tx],
            cs_txHashes := map_emplace i hash (cs_txHashes s)\<rparr>))"

definition addTxN :: "'t \<Rightarrow> chain_state \<Rightarrow> bool \<times> chain_state" where
  "addTxN transactions s = (False, s)"

text \<open>The loop of \<open>addBlock\<close> over the transactions; \<open>tx->hash()\<close> through a null pointer is undefined.\<close>

fun addTxs :: "'h hasher \<Rightarrow> bytes \<Rightarrow> transaction option list \<Rightarrow> chain_state \<Rightarrow> io_fault + chain_state" where
  "addTxs ops junk [] s = Inr s"
| "addTxs ops junk (None # txs) s = Inl Undefined"
| "addTxs ops junk (Some tx # txs) s = rbind (addTx ops junk tx s) (\<lambda>(_, s). addTxs ops junk txs s)"

section \<open>Connecting a block\<close>

text \<open>Steps that may not return, and then may fail.\<close>

definition obind :: "(io_fault + 'a) option \<Rightarrow> ('a \<Rightarrow> (io_fault + 'b) option) \<Rightarrow> (io_fault + 'b) option" where
  "obind m f = (case m of None \<Rightarrow> None | Some (Inl e) \<Rightarrow> Some (Inl e) | Some (Inr x) \<Rightarrow> f x)"

text \<open>
  \<open>equal_range\<close> of the multimap: the block ids of a key; their order is that of the list, newest
  first.
\<close>

definition equal_range :: "blob \<Rightarrow> chain_state \<Rightarrow> nat list" where
  "equal_range key s = map snd (filter (\<lambda>e. fst e = key) (cs_orphans s))"

text \<open>
  The loop that removes a block from the orphans. Its iterator is never incremented: it compares the
  first element of the range until it is the block.
\<close>

partial_function (option) remove_orphan ::
  "nat \<Rightarrow> nat list \<Rightarrow> blob \<Rightarrow> chain_state \<Rightarrow> chain_state option" where
  "remove_orphan blockId waiting prev s =
     (case waiting of
        [] \<Rightarrow> Some s
      | i # _ \<Rightarrow>
          if i = blockId then Some (s\<lparr>cs_orphans := remove1 (prev, blockId) (cs_orphans s)\<rparr>)
          else remove_orphan blockId waiting prev s)"

text \<open>The loop that enqueues a task for every waiting orphan. Its iterator is never incremented.\<close>

partial_function (option) enqueue_orphans :: "nat list \<Rightarrow> chain_state \<Rightarrow> chain_state option" where
  "enqueue_orphans waiting s =
     (case waiting of
        [] \<Rightarrow> Some s
      | i # _ \<Rightarrow> enqueue_orphans waiting (s\<lparr>cs_tasks := cs_tasks s @ [i]\<rparr>))"

text \<open>\<open>while (block && block->height() > height)\<close>: the stack has its top at the head.\<close>

partial_function (option) climb ::
  "chain_state \<Rightarrow> 64 word \<Rightarrow> nat option \<Rightarrow> nat list \<Rightarrow> (nat option \<times> nat list) option" where
  "climb s height b chain =
     (case b of
        None \<Rightarrow> Some (None, chain)
      | Some p \<Rightarrow>
          if bh_height (hdr s p) > height
          then climb s height (getBlockHeader (bh_prev (hdr s p)) s) (p # chain)
          else Some (b, chain))"

text \<open>
  The loop down both branches to their common block. \<open>pop_back\<close> of an empty vector is undefined.
\<close>

partial_function (option) retract ::
  "chain_state \<Rightarrow> nat option \<Rightarrow> nat option \<Rightarrow> nat list \<Rightarrow> nat list \<Rightarrow> (io_fault + nat list \<times> nat list) option" where
  "retract s new old chain mc =
     (case (new, old) of
        (Some n, Some p) \<Rightarrow>
          if n \<noteq> p then
            if mc = [] then Some (Inl Undefined)
            else retract s (getBlockHeader (bh_prev (hdr s n)) s) (getBlockHeader (bh_prev (hdr s p)) s)
              (n # chain) (butlast mc)
          else Some (Inr (chain, mc))
      | _ \<Rightarrow> Some (Inr (chain, mc)))"

text \<open>The loop that appends the stack to the main chain; it also gives the last block it has seen.\<close>

fun replay :: "chain_state \<Rightarrow> nat list \<Rightarrow> nat option \<Rightarrow> nat list \<Rightarrow> io_fault + nat option \<times> nat list" where
  "replay s [] b mc = Inr (b, mc)"
| "replay s (p # chain) b mc =
     (if bh_height (hdr s p) = word_of_nat (length mc)
      then replay s chain (Some p) (mc @ [unat (bh_id (hdr s p))])
      else Inl Abort)"

text \<open>\<open>// Check new height\<close>\<close>

definition choose_chain :: "nat \<Rightarrow> chain_state \<Rightarrow> (io_fault + nat option \<times> chain_state) option" where
  "choose_chain p s =
     (let height = getHeight s - 1
      in if bh_height (hdr s p) \<ge> height then
           (case climb s height (Some p) [] of
              None \<Rightarrow> None
            | Some (b, chain) \<Rightarrow>
                obind (Some (getTopBlockHeader s)) (\<lambda>top.
                obind (retract s b top chain (cs_mainChain s)) (\<lambda>(chain, mc).
                obind (Some (replay s chain b mc)) (\<lambda>(b, mc).
                Some (Inr (b, s\<lparr>cs_mainChain := mc\<rparr>))))))
         else Some (Inr (Some p, s)))"

text \<open>
  \<open>// Find descendants\<close>. The iterator of the loop over the orphans is never advanced: with an orphan that
  waits for the block the loop enqueues its task again and again and the call does not return (\<open>None\<close>).
\<close>

definition header_hash :: "'h hasher \<Rightarrow> bytes \<Rightarrow> nat \<Rightarrow> chain_state \<Rightarrow> io_fault + blob \<times> chain_state" where
  "header_hash ops junk p s =
     rbind (BlockHeader_hash ops junk (hdr s p)) (\<lambda>(hash, h). Inr (hash, set_hdr p h s))"

definition descendants :: "'h hasher \<Rightarrow> bytes \<Rightarrow> nat option \<Rightarrow> chain_state \<Rightarrow> (io_fault + bool \<times> chain_state) option" where
  "descendants ops junk b s =
     (case b of
        None \<Rightarrow> Some (Inl Undefined)
      | Some p \<Rightarrow>
          obind (Some (header_hash ops junk p s)) (\<lambda>(hash, s).
          case enqueue_orphans (equal_range hash s) s of
            None \<Rightarrow> None
          | Some s \<Rightarrow> Some (Inr (True, s))))"

text \<open>
  The part of \<open>connectToAncestor\<close> before the first block of the main chain is there. \<open>place_genesis\<close> is what it does up to
  \<open>goto descendants\<close>: the genesis block is on the main chain, with its height, before the loop over the
  orphans starts. A call that never leaves this loop is \<open>None\<close> below and has no state after it; the state it
  left to the rest of the program is the one of \<open>place_genesis\<close>, with the task of the same orphan at the
  end of the queue once more for every round of the loop.
\<close>

definition place_genesis :: "'h hasher \<Rightarrow> bytes \<Rightarrow> nat \<Rightarrow> chain_state \<Rightarrow> io_fault + bool \<times> chain_state" where
  "place_genesis ops junk p s =
     rbind (header_hash ops junk p s) (\<lambda>(hash, s).
     if hash \<noteq> cs_genesis s \<or> \<not> isNull (bh_prev (hdr s p))
     then Inr (False, s\<lparr>cs_orphans := (bh_prev (hdr s p), p) # cs_orphans s\<rparr>)
     else
       rbind (setHeight 0 (hdr s p)) (\<lambda>h.
       Inr (True, (set_hdr p h s)\<lparr>cs_mainChain := cs_mainChain s @ [p]\<rparr>)))"

definition connect_genesis :: "'h hasher \<Rightarrow> bytes \<Rightarrow> nat \<Rightarrow> chain_state \<Rightarrow> (io_fault + bool \<times> chain_state) option" where
  "connect_genesis ops junk p s =
     obind (Some (place_genesis ops junk p s)) (\<lambda>(placed, s).
     if placed then descendants ops junk (Some p) s else Some (Inr (False, s)))"

definition connect_child :: "'h hasher \<Rightarrow> bytes \<Rightarrow> nat \<Rightarrow> chain_state \<Rightarrow> (io_fault + bool \<times> chain_state) option" where
  "connect_child ops junk p s =
     (let prev = bh_prev (hdr s p)
      in case cs_blockIds s prev of
           None \<Rightarrow> Some (Inr (False, s))
         | Some prevId \<Rightarrow>
             (case getBlockHeader_id prevId s of
                None \<Rightarrow> Some (Inr (False, s\<lparr>cs_orphans := (prev, p) # cs_orphans s\<rparr>))
              | Some q \<Rightarrow>
                  if \<not> inChain (hdr s q) then Some (Inr (False, s))
                  else
                    obind (Some (setHeight (bh_height (hdr s q) + 1) (hdr s p))) (\<lambda>h.
                    let s = set_hdr p h s
                    in case remove_orphan p (equal_range prev s) prev s of
                         None \<Rightarrow> None
                       | Some s \<Rightarrow> obind (choose_chain p s) (\<lambda>(b, s). descendants ops junk b s))))"

definition connectToAncestor_id :: "'h hasher \<Rightarrow> bytes \<Rightarrow> nat \<Rightarrow> chain_state \<Rightarrow> (io_fault + bool \<times> chain_state) option" where
  "connectToAncestor_id ops junk blockId s =
     (case getBlockHeader_id blockId s of
        None \<Rightarrow> Some (Inr (False, s))
      | Some p \<Rightarrow> if getHeight s = 0 then connect_genesis ops junk p s else connect_child ops junk p s)"

definition connectToAncestor :: "'h hasher \<Rightarrow> bytes \<Rightarrow> blob \<Rightarrow> chain_state \<Rightarrow> (io_fault + bool \<times> chain_state) option" where
  "connectToAncestor ops junk hash s =
     (case cs_blockIds s hash of
        None \<Rightarrow> Some (Inl Abort)
      | Some i \<Rightarrow> connectToAncestor_id ops junk i s)"

section \<open>Adding a block\<close>

text \<open>\<open>MerkleRoot\<close> over the transactions; a null list and null pointers in it are dereferenced.\<close>

fun tx_pieces :: "transaction option list \<Rightarrow> io_fault + bytes list list" where
  "tx_pieces [] = Inr []"
| "tx_pieces (None # txs) = Inl Undefined"
| "tx_pieces (Some tx # txs) = rbind (tx_pieces txs) (\<lambda>items. Inr ([ser_Transaction tx] # items))"

definition block_txs :: "block \<Rightarrow> io_fault + transaction option list" where
  "block_txs b = (case b_txList b of None \<Rightarrow> Inl Undefined | Some txs \<Rightarrow> Inr txs)"

definition addBlock :: "'h hasher \<Rightarrow> bytes \<Rightarrow> block \<Rightarrow> chain_state \<Rightarrow> (io_fault + bool \<times> chain_state) option" where
  "addBlock ops junk b s =
     obind (Some (BlockHeader_hash ops junk (b_header b))) (\<lambda>(hash, h).
     obind (Some (rbind (block_txs b) tx_pieces)) (\<lambda>items.
     obind (Some (MerkleRoot ops junk items)) (\<lambda>merkle.
     if bh_merkle h \<noteq> merkle then Some (Inr (False, s))
     else
       obind (Some (if hasBlockHeader hash s then Inr s
                    else rbind (addBlockHeader ops junk (Full (b\<lparr>b_header := h\<rparr>)) s) (\<lambda>(_, s). Inr s))) (\<lambda>s.
       obind (Some (rbind (block_txs b) (\<lambda>txs. addTxs ops junk txs s))) (\<lambda>s.
       obind (connectToAncestor ops junk hash s) (\<lambda>(_, s).
       Some (Inr (True, s))))))))"

section \<open>Locators and lists of headers\<close>

partial_function (option) locator_loop ::
  "chain_state \<Rightarrow> 64 word \<Rightarrow> 64 word \<Rightarrow> blob list \<Rightarrow> (io_fault + blob list) option" where
  "locator_loop s height step locator =
     (case getBlockHash height s of
        Inl e \<Rightarrow> Some (Inl e)
      | Inr hash \<Rightarrow>
          if height = 0 then Some (Inr (locator @ [hash]))
          else
            locator_loop s
              (let step = (if length (locator @ [hash]) > 10 then push_bit 1 step else step)
               in if height > step then height - step else 0)
              (if length (locator @ [hash]) > 10 then push_bit 1 step else step)
              (locator @ [hash]))"

definition getBlockLocator :: "blob \<Rightarrow> chain_state \<Rightarrow> (io_fault + blob list) option" where
  "getBlockLocator blockHash s =
     (let height = (if cs_mainChain s = [] then 0 else word_of_nat (length (cs_mainChain s) - 1))
      in locator_loop s height 1 [])"

text \<open>The height of the first block of a locator that is connected; \<open>-1\<close> when there is none.\<close>

fun locate :: "chain_state \<Rightarrow> blob list \<Rightarrow> 64 word \<Rightarrow> 64 word" where
  "locate s [] height = height"
| "locate s (hash # locator) height =
     (case getBlockHeader hash s of
        None \<Rightarrow> locate s locator height
      | Some p \<Rightarrow> if bh_height (hdr s p) \<noteq> - 1 then bh_height (hdr s p) else locate s locator (bh_height (hdr s p)))"

text \<open>
  The loops of \<open>getBlockHeaders\<close> and \<open>getBlocks\<close>: the reference \<open>hash\<close> is bound once, before the loop,
  and only the unused \<open>height\<close> changes. \<open>get\<close> is what is appended.
\<close>

function collect :: "(blob \<Rightarrow> 'a) \<Rightarrow> blob \<Rightarrow> blob \<Rightarrow> 64 word \<Rightarrow> 'a list \<Rightarrow> 'a list" where
  "collect get hash stopHash height xs =
     (if \<not> isNull hash \<and> hash \<noteq> stopHash \<and> length xs \<le> 1000
      then collect get hash stopHash (height + 1) (xs @ [get hash]) else xs)"
  by pat_completeness auto
termination
  by (relation "measure (\<lambda>(get, hash, stopHash, height, xs). 1001 - length xs)") auto

declare collect.simps [simp del]

definition getBlockHeaders :: "blob list \<Rightarrow> blob \<Rightarrow> chain_state \<Rightarrow> io_fault + nat option list" where
  "getBlockHeaders locator stopHash s =
     (let height = locate s locator (- 1)
      in rbind (getBlockHash height s) (\<lambda>hash.
         Inr (collect (\<lambda>hash. getBlockHeader hash s) hash stopHash height [])))"

definition getBlock :: "blob \<Rightarrow> chain_state \<Rightarrow> block option" where
  "getBlock hash s = None"

definition getBlocks :: "blob list \<Rightarrow> blob \<Rightarrow> chain_state \<Rightarrow> io_fault + block option list" where
  "getBlocks locator stopHash s =
     (let height = locate s locator (- 1)
      in rbind (getBlockHash height s) (\<lambda>hash.
         Inr (collect (\<lambda>hash. getBlock hash s) hash stopHash height [])))"

section \<open>Saving and loading\<close>

text \<open>
  The mempool file. \<open>Serialize\<close> of a stored header is virtual: a full block writes its transactions too.
  Loading reads plain headers, takes both vectors from their ends, and fills neither the hashes by id
  nor the ids and heights of the headers. \<open>junk'\<close> stands for the buffers of the hash streams.
\<close>

fun ser_stored :: "stored \<Rightarrow> io_fault + bytes" where
  "ser_stored (Plain h) = Inr (ser_BlockHeader h)"
| "ser_stored (Full b) = ser_Block b"

fun ser_all :: "stored list \<Rightarrow> io_fault + bytes" where
  "ser_all [] = Inr []"
| "ser_all (b # bs) = rbind (ser_stored b) (\<lambda>x. rbind (ser_all bs) (\<lambda>y. Inr (x @ y)))"

definition chain_save :: "chain_state \<Rightarrow> io_fault + bytes" where
  "chain_save s =
     rbind (ser_all (cs_blocks s)) (\<lambda>bs.
     Inr (ser_varint (word_of_nat (length (cs_blocks s))) @ bs @ ser_sized ser_Transaction (cs_txs s)))"

definition unser_header_ptr :: "block_header option \<Rightarrow> istream \<Rightarrow> io_fault + block_header option \<times> istream" where
  "unser_header_ptr old s =
     rbind (unser_BlockHeader (case old of None \<Rightarrow> BlockHeader_new | Some h \<Rightarrow> h) s) (\<lambda>(h, s). Inr (Some h, s))"

definition stream_hash :: "'h hasher \<Rightarrow> bytes \<Rightarrow> bytes \<Rightarrow> io_fault + blob" where
  "stream_hash ops junk data = rbind (hs_hash ops (hs_xsputn ops data (hs_new ops junk))) (\<lambda>(hash, hs). Inr hash)"

definition load_block :: "'h hasher \<Rightarrow> bytes \<Rightarrow> block_header \<Rightarrow> chain_state \<Rightarrow> io_fault + chain_state" where
  "load_block ops junk h s =
     (let i = length (cs_blocks s)
      in rbind (stream_hash ops junk (ser_BlockHeader h)) (\<lambda>hash.
         Inr (s\<lparr>cs_blockIds := map_emplace hash i (cs_blockIds s),
           cs_merkles := map_emplace (bh_merkle h) i (cs_merkles s), cs_blocks := cs_blocks s @ [Plain h]\<rparr>)))"

definition load_tx :: "'h hasher \<Rightarrow> bytes \<Rightarrow> transaction \<Rightarrow> chain_state \<Rightarrow> io_fault + chain_state" where
  "load_tx ops junk tx s =
     (let i = length (cs_txs s)
      in rbind (stream_hash ops junk (ser_Transaction tx)) (\<lambda>hash.
         Inr (s\<lparr>cs_txIds := map_emplace hash i (cs_txIds s), cs_txs := cs_txs s @ [tx]\<rparr>)))"

fun load_blocks :: "'h hasher \<Rightarrow> bytes \<Rightarrow> block_header list \<Rightarrow> chain_state \<Rightarrow> io_fault + chain_state" where
  "load_blocks ops junk [] s = Inr s"
| "load_blocks ops junk (h # hs) s = rbind (load_block ops junk h s) (load_blocks ops junk hs)"

fun load_txs :: "'h hasher \<Rightarrow> bytes \<Rightarrow> transaction list \<Rightarrow> chain_state \<Rightarrow> io_fault + chain_state" where
  "load_txs ops junk [] s = Inr s"
| "load_txs ops junk (t # ts) s = rbind (load_tx ops junk t s) (load_txs ops junk ts)"

definition chain_load :: "'h hasher \<Rightarrow> bytes \<Rightarrow> istream \<Rightarrow> chain_state \<Rightarrow> io_fault + chain_state" where
  "chain_load ops junk file s =
     rbind (unser_sized None unser_header_ptr [] file) (\<lambda>(blocks, file).
     rbind (unser_sized None unser_tx_ptr [] file) (\<lambda>(txs, file).
     rbind (load_blocks ops junk (rev (map the blocks)) s) (load_txs ops junk (rev (map the txs)))))"

end
