(* ===== verification/BlockStoreInv.thy ===== *)
theory BlockStoreInv
  imports BlockStore
begin

text \<open>
  The invariant of the block store and its preservation by every operation.

  \<^item> \<open>reg_ok\<close>: objects, ids by hash and hashes by id agree; the same contract for blocks and for
    transactions, stated once as a locale.
  \<^item> \<open>connected\<close>: a block with a height is the genesis block or the child of a block one lower.
  \<^item> \<open>branch\<close>: a list of ids in which every block is the child of the one before it; the main chain
    is a branch from height 0.
\<close>

section \<open>Registries\<close>

definition reg_ok :: "('a \<Rightarrow> blob) \<Rightarrow> 'a list \<Rightarrow> (blob \<rightharpoonup> nat) \<Rightarrow> (nat \<rightharpoonup> blob) \<Rightarrow> bool" where
  "reg_ok key xs ids hashes \<longleftrightarrow>
     (\<forall>i < length xs. ids (key (xs ! i)) = Some i) \<and>
     (\<forall>k i. ids k = Some i \<longrightarrow> i < length xs \<and> key (xs ! i) = k) \<and>
     (\<forall>i. hashes i = (if i < length xs then Some (key (xs ! i)) else None))"

lemma reg_okD:
  assumes "reg_ok key xs ids hashes"
  shows "i < length xs \<Longrightarrow> ids (key (xs ! i)) = Some i"
    and "ids k = Some i \<Longrightarrow> i < length xs \<and> key (xs ! i) = k"
    and "i < length xs \<Longrightarrow> hashes i = Some (key (xs ! i))"
  using assms by (auto simp: reg_ok_def)

lemma reg_ok_Nil: "reg_ok key [] Map.empty Map.empty"
  by (simp add: reg_ok_def)

lemma reg_ok_add:
  assumes "reg_ok key xs ids hashes" and "ids k = None" and "key x = k"
  shows "reg_ok key (xs @ [x]) (map_emplace k (length xs) ids) (map_emplace (length xs) k hashes)"
proof -
  have "hashes (length xs) = None" using assms(1) by (simp add: reg_ok_def)
  moreover have "key (xs ! i) \<noteq> k" if "i < length xs" for i
    using reg_okD(1) [OF assms(1) that] assms(2) by auto
  ultimately show ?thesis
    using assms by (auto simp: reg_ok_def map_emplace_def nth_append less_Suc_eq)
qed

lemma reg_ok_update:
  assumes "reg_ok key xs ids hashes" and "key y = key (xs ! i)"
  shows "reg_ok key (xs[i := y]) ids hashes"
proof (cases "i < length xs")
  case True
  then have "key (xs[i := y] ! j) = key (xs ! j)" if "j < length xs" for j
    using assms(2) that by (simp add: nth_list_update)
  with assms(1) show ?thesis by (simp add: reg_ok_def)
next
  case False
  then show ?thesis using assms(1) by (simp add: list_update_beyond not_less)
qed

text \<open>
  The interface that \<open>addBlockHeader\<close> and \<open>addTx\<close> share: \<open>add\<close> stores an object under its key unless
  the key is known, and \<open>find\<close> gives the position of the object with a key. The stored object may
  differ from the one given (it has its id, and its hash cached), but not in its key.
\<close>

locale registry =
  fixes key :: "'a \<Rightarrow> blob"
    and items :: "'s \<Rightarrow> 'a list"
    and find :: "blob \<Rightarrow> 's \<Rightarrow> nat option"
    and has :: "blob \<Rightarrow> 's \<Rightarrow> bool"
    and ok :: "'s \<Rightarrow> bool"
    and new :: "'a \<Rightarrow> 's \<Rightarrow> bool"
    and add :: "'a \<Rightarrow> 's \<Rightarrow> bool \<times> 's"
  assumes find_iff: "ok s \<Longrightarrow> find k s = Some i \<longleftrightarrow> i < length (items s) \<and> key (items s ! i) = k"
    and has_find: "ok s \<Longrightarrow> has k s \<longleftrightarrow> find k s \<noteq> None"
    and add_known: "ok s \<Longrightarrow> has (key x) s \<Longrightarrow> add x s = (False, s)"
    and add_new: "ok s \<Longrightarrow> new x s \<Longrightarrow> \<not> has (key x) s \<Longrightarrow>
      fst (add x s) \<and> ok (snd (add x s)) \<and> (\<exists>y. items (snd (add x s)) = items s @ [y] \<and> key y = key x)"
begin

lemma add_ok: "ok s \<Longrightarrow> new x s \<Longrightarrow> ok (snd (add x s))"
  using add_known [of s x] add_new [of s x] by (cases "has (key x) s") auto

text \<open>An added object is found, and the positions of the objects that were there stay.\<close>

lemma find_added:
  assumes "ok s" and "new x s"
  shows "\<exists>i. find (key x) (snd (add x s)) = Some i"
proof (cases "has (key x) s")
  case True
  then show ?thesis using add_known [OF assms(1) True] has_find [OF assms(1)] by auto
next
  case False
  obtain y where "items (snd (add x s)) = items s @ [y]" "key y = key x" "ok (snd (add x s))"
    using add_new [OF assms False] by auto
  then show ?thesis using find_iff [of "snd (add x s)" "key x" "length (items s)"] by auto
qed

lemma find_kept:
  assumes "ok s" and "new x s" and "find k s = Some i"
  shows "find k (snd (add x s)) = Some i \<and> items (snd (add x s)) ! i = items s ! i"
proof (cases "has (key x) s")
  case True
  then show ?thesis using add_known [OF assms(1) True] assms(3) by simp
next
  case False
  have i: "i < length (items s)" "key (items s ! i) = k" using find_iff [OF assms(1)] assms(3) by auto
  obtain y where y: "items (snd (add x s)) = items s @ [y]" "ok (snd (add x s))"
    using add_new [OF assms(1,2) False] by auto
  then have "items (snd (add x s)) ! i = items s ! i" using i by (simp add: nth_append)
  then show ?thesis using find_iff [OF y(2), of k i] y(1) i by simp
qed

text \<open>Adding twice is adding once.\<close>

lemma add_again: "ok s \<Longrightarrow> new x s \<Longrightarrow> add x (snd (add x s)) = (False, snd (add x s))"
  using find_added [of s x] has_find [of "snd (add x s)" "key x"] add_ok [of s x] add_known [of "snd (add x s)" x]
  by auto

end

section \<open>The invariant\<close>

abbreviation count :: "chain_state \<Rightarrow> nat" where
  "count s \<equiv> length (cs_blocks s)"

abbreviation stored_hash :: "stored \<Rightarrow> blob" where
  "stored_hash b \<equiv> bh_hash (stored_header b)"

definition ht :: "chain_state \<Rightarrow> nat \<Rightarrow> nat" where
  "ht s p = unat (bh_height (hdr s p))"

definition parent :: "chain_state \<Rightarrow> nat \<Rightarrow> nat option" where
  "parent s p = cs_blockIds s (bh_prev (hdr s p))"

definition connected :: "chain_state \<Rightarrow> nat \<Rightarrow> bool" where
  "connected s i \<longleftrightarrow>
     (ht s i = 0 \<and> bh_hash (hdr s i) = cs_genesis s \<and> isNull (bh_prev (hdr s i))) \<or>
     (\<exists>q < count s. parent s i = Some q \<and> inChain (hdr s q) \<and> ht s i = Suc (ht s q))"

fun branch :: "chain_state \<Rightarrow> nat \<Rightarrow> nat list \<Rightarrow> bool" where
  "branch s k [] \<longleftrightarrow> True"
| "branch s k (x # xs) \<longleftrightarrow>
     x < count s \<and> inChain (hdr s x) \<and> ht s x = k \<and> (xs \<noteq> [] \<longrightarrow> parent s (hd xs) = Some x) \<and>
     branch s (Suc k) xs"

definition registered :: "chain_state \<Rightarrow> bool" where
  "registered s \<longleftrightarrow>
     reg_ok stored_hash (cs_blocks s) (cs_blockIds s) (cs_blockHashes s) \<and>
     reg_ok tx_hash (cs_txs s) (cs_txIds s) (cs_txHashes s) \<and>
     (\<forall>i < count s. bh_id (hdr s i) = word_of_nat i \<and> bh_validHash (hdr s i)) \<and>
     (\<forall>t \<in> set (cs_txs s). tx_validHash t) \<and> count s < 2 ^ 64 - 1"

definition store_ok :: "chain_state \<Rightarrow> bool" where
  "store_ok s \<longleftrightarrow>
     registered s \<and> (\<forall>i < count s. inChain (hdr s i) \<longrightarrow> connected s i \<and> ht s i < length (cs_mainChain s)) \<and>
     branch s 0 (cs_mainChain s) \<and> (\<forall>(k, i) \<in> set (cs_orphans s). i < count s \<and> bh_prev (hdr s i) = k)"

lemma store_ok_init: "store_ok (chain_init genesis)"
  by (simp add: store_ok_def registered_def chain_init_def reg_ok_Nil)

section \<open>Branches\<close>

lemma branch_append:
  "branch s k (xs @ ys) \<longleftrightarrow> branch s k xs \<and> branch s (k + length xs) ys \<and>
     (xs \<noteq> [] \<and> ys \<noteq> [] \<longrightarrow> parent s (hd ys) = Some (last xs))"
proof (induction xs arbitrary: k)
  case (Cons x xs)
  then show ?case by (cases xs; cases ys) auto
qed simp

lemma branch_nth: "branch s k xs \<Longrightarrow> i < length xs \<Longrightarrow> xs ! i < count s \<and> inChain (hdr s (xs ! i)) \<and> ht s (xs ! i) = k + i"
proof (induction xs arbitrary: k i)
  case (Cons x xs)
  then show ?case by (cases i) auto
qed simp

lemma branch_parent: "branch s k xs \<Longrightarrow> i < length xs \<Longrightarrow> i \<noteq> 0 \<Longrightarrow> parent s (xs ! i) = Some (xs ! (i - 1))"
proof (induction xs arbitrary: k i)
  case (Cons x xs)
  then obtain j where j: "i = Suc j" by (cases i) auto
  then show ?case using Cons by (cases j) (auto simp: hd_conv_nth)
qed simp

lemma branch_distinct: "branch s k xs \<Longrightarrow> distinct xs"
proof (subst distinct_conv_nth, intro allI impI)
  fix i j
  assume b: "branch s k xs" and ij: "i < length xs" "j < length xs" "i \<noteq> j"
  then have "ht s (xs ! i) = k + i" "ht s (xs ! j) = k + j" using branch_nth [OF b] by simp_all
  then show "xs ! i \<noteq> xs ! j" using ij(3) by auto
qed

lemma branch_length: "branch s k xs \<Longrightarrow> length xs \<le> count s"
proof -
  assume b: "branch s k xs"
  then have "set xs \<subseteq> {..<count s}" by (auto simp: in_set_conv_nth dest: branch_nth)
  then have "card (set xs) \<le> count s" using card_mono [of "{..<count s}" "set xs"] by simp
  then show ?thesis using distinct_card [OF branch_distinct [OF b]] by simp
qed

text \<open>A branch is determined by its end.\<close>

lemma branch_unique:
  "branch s 0 xs \<Longrightarrow> branch s 0 ys \<Longrightarrow> xs \<noteq> [] \<Longrightarrow> ys \<noteq> [] \<Longrightarrow> last xs = last ys \<Longrightarrow> xs = ys"
proof (induction xs arbitrary: ys rule: rev_induct)
  case (snoc x xs)
  obtain ys' y where ys: "ys = ys' @ [y]" using snoc.prems(4) by (cases ys rule: rev_cases) auto
  then have y: "y = x" using snoc.prems(5) by simp
  have "ht s x = length xs" "ht s x = length ys'"
    using snoc.prems(1,2) ys y by (simp_all add: branch_append)
  then have len: "length xs = length ys'" by simp
  show ?case
  proof (cases "xs = []")
    case False
    then have "ys' \<noteq> []" using len by auto
    then have "last xs = last ys'" using snoc.prems(1,2) ys y False by (simp add: branch_append)
    then have "xs = ys'" using snoc.IH [of ys'] snoc.prems(1,2) ys False \<open>ys' \<noteq> []\<close> by (simp add: branch_append)
    then show ?thesis using ys y by simp
  qed (use len ys y in auto)
qed simp

section \<open>States that know more\<close>

definition grown :: "chain_state \<Rightarrow> chain_state \<Rightarrow> bool" where
  "grown s s' \<longleftrightarrow>
     count s \<le> count s' \<and> cs_blockIds s \<subseteq>\<^sub>m cs_blockIds s' \<and> cs_genesis s' = cs_genesis s \<and>
     (\<forall>i < count s. inChain (hdr s i) \<longrightarrow> hdr s' i = hdr s i)"

lemma grown_parent: "grown s s' \<Longrightarrow> i < count s \<Longrightarrow> inChain (hdr s i) \<Longrightarrow> parent s i = Some q \<Longrightarrow> parent s' i = Some q"
  by (force simp: grown_def parent_def map_le_def dom_def)

lemma grown_connected:
  assumes "grown s s'" and "i < count s" and "inChain (hdr s i)" and "connected s i"
  shows "connected s' i"
proof -
  have same: "hdr s' j = hdr s j" if "j < count s" "inChain (hdr s j)" for j
    using assms(1) that by (simp add: grown_def)
  have more: "count s \<le> count s'" "cs_genesis s' = cs_genesis s" using assms(1) by (simp_all add: grown_def)
  show ?thesis
    using assms(4) same [OF assms(2,3)] more grown_parent [OF assms(1-3)]
    by (force simp: connected_def ht_def same)
qed

lemma grown_branch: "grown s s' \<Longrightarrow> branch s k xs \<Longrightarrow> branch s' k xs"
proof (induction xs arbitrary: k)
  case (Cons x xs)
  have "parent s' (hd xs) = Some x" if "xs \<noteq> []"
    using that Cons.prems grown_parent [OF Cons.prems(1), of "hd xs" x] by (cases xs) auto
  moreover have "x < count s'" "hdr s' x = hdr s x" using Cons.prems by (auto simp: grown_def)
  ultimately show ?case using Cons by (simp add: ht_def)
qed simp

lemma same_tree:
  assumes "cs_blocks s' = cs_blocks s" and "cs_blockIds s' = cs_blockIds s" and "cs_genesis s' = cs_genesis s"
  shows "hdr s' = hdr s" "ht s' = ht s" "parent s' = parent s" "connected s' = connected s" "branch s' k xs = branch s k xs"
proof -
  show hdr: "hdr s' = hdr s" using assms by (simp add: hdr_def fun_eq_iff)
  show ht: "ht s' = ht s" by (simp add: ht_def hdr fun_eq_iff)
  show parent: "parent s' = parent s" using assms by (simp add: parent_def hdr fun_eq_iff)
  show "connected s' = connected s" using assms by (simp add: connected_def hdr ht parent fun_eq_iff)
  show "branch s' k xs = branch s k xs"
    by (induction xs arbitrary: k) (use assms in \<open>simp_all add: hdr ht parent\<close>)
qed

lemma tree_updates [simp]:
  "hdr (s\<lparr>cs_orphans := x\<rparr>) = hdr s" "hdr (s\<lparr>cs_tasks := t\<rparr>) = hdr s" "hdr (s\<lparr>cs_mainChain := c\<rparr>) = hdr s"
  "ht (s\<lparr>cs_orphans := x\<rparr>) = ht s" "ht (s\<lparr>cs_tasks := t\<rparr>) = ht s" "ht (s\<lparr>cs_mainChain := c\<rparr>) = ht s"
  "parent (s\<lparr>cs_orphans := x\<rparr>) = parent s" "parent (s\<lparr>cs_tasks := t\<rparr>) = parent s" "parent (s\<lparr>cs_mainChain := c\<rparr>) = parent s"
  "connected (s\<lparr>cs_orphans := x\<rparr>) = connected s" "connected (s\<lparr>cs_tasks := t\<rparr>) = connected s"
  "connected (s\<lparr>cs_mainChain := c\<rparr>) = connected s"
  "branch (s\<lparr>cs_orphans := x\<rparr>) k xs = branch s k xs" "branch (s\<lparr>cs_tasks := t\<rparr>) k xs = branch s k xs"
  "branch (s\<lparr>cs_mainChain := c\<rparr>) k xs = branch s k xs"
  "registered (s\<lparr>cs_orphans := x\<rparr>) = registered s" "registered (s\<lparr>cs_tasks := t\<rparr>) = registered s"
  "registered (s\<lparr>cs_mainChain := c\<rparr>) = registered s"
  by (rule same_tree; simp)+ (simp_all add: registered_def hdr_def)

section \<open>Changing one header\<close>

lemma stored_header_with [simp]: "stored_header (with_header h b) = h" "with_header (stored_header b) b = b"
  by (cases b; simp)+

lemma set_hdr_simps [simp]:
  "count (set_hdr p h s) = count s" "cs_blockIds (set_hdr p h s) = cs_blockIds s"
  "cs_blockHashes (set_hdr p h s) = cs_blockHashes s" "cs_genesis (set_hdr p h s) = cs_genesis s"
  "cs_orphans (set_hdr p h s) = cs_orphans s" "cs_mainChain (set_hdr p h s) = cs_mainChain s"
  "cs_txs (set_hdr p h s) = cs_txs s" "cs_txIds (set_hdr p h s) = cs_txIds s"
  "cs_txHashes (set_hdr p h s) = cs_txHashes s" "cs_tasks (set_hdr p h s) = cs_tasks s"
  "set_hdr p (hdr s p) s = s"
  by (simp_all add: set_hdr_def hdr_def)

lemma hdr_set_hdr: "p < count s \<Longrightarrow> hdr (set_hdr p h s) i = (if i = p then h else hdr s i)"
  by (simp add: hdr_def set_hdr_def nth_list_update)

lemma registered_set_hdr:
  assumes "registered s" and "p < count s" and "bh_hash h = bh_hash (hdr s p)" and "bh_id h = bh_id (hdr s p)"
    and "bh_validHash h"
  shows "registered (set_hdr p h s)"
proof -
  have "reg_ok stored_hash (cs_blocks (set_hdr p h s)) (cs_blockIds s) (cs_blockHashes s)"
    using assms(1,3) unfolding set_hdr_def registered_def by (auto intro!: reg_ok_update simp: hdr_def)
  then show ?thesis using assms by (simp add: registered_def hdr_set_hdr)
qed

lemma grown_set_hdr: "p < count s \<Longrightarrow> \<not> inChain (hdr s p) \<Longrightarrow> grown s (set_hdr p h s)"
  by (simp add: grown_def hdr_set_hdr)

lemma header_hash_stored:
  assumes "registered s" and "p < count s"
  shows "header_hash ops junk p s = Inr (bh_hash (hdr s p), s)"
  using assms by (simp add: header_hash_def BlockHeader_hash_def registered_def)

lemma getBlockHeader_parent:
  assumes "registered s"
  shows "getBlockHeader (bh_prev (hdr s p)) s = parent s p"
  using assms reg_okD(2) [of stored_hash "cs_blocks s" "cs_blockIds s" "cs_blockHashes s"]
  by (auto simp: getBlockHeader_def parent_def getBlockHeader_id_def registered_def split: option.split)

lemma hash_id:
  assumes "registered s" and "i < count s"
  shows "cs_blockIds s (bh_hash (hdr s i)) = Some i" and "cs_blockHashes s i = Some (bh_hash (hdr s i))"
    and "unat (bh_id (hdr s i)) = i"
proof -
  show "cs_blockIds s (bh_hash (hdr s i)) = Some i" "cs_blockHashes s i = Some (bh_hash (hdr s i))"
    using assms by (simp_all add: registered_def reg_ok_def hdr_def)
  have "i < 2 ^ 64" using assms by (simp add: registered_def)
  then show "unat (bh_id (hdr s i)) = i" using assms by (simp add: registered_def unat_word_of_length)
qed

end
