(* ===== verification/BlockStoreOps.thy ===== *)
theory BlockStoreOps
  imports BlockStoreInv
begin

text \<open>
  Every operation of the block store keeps its invariant, and what connecting a block does to the main
  chain: the loops down the branches find the common ancestor, and the new main chain is the branch
  that ends in the new block, if that block is at least as high as the tip.
\<close>

section \<open>Adding headers and transactions\<close>

lemma BlockHeader_hash_Inr:
  "BlockHeader_hash ops junk h = Inr (hash, h') \<Longrightarrow> h' = h\<lparr>bh_hash := hash, bh_validHash := True\<rparr>"
  by (auto simp: BlockHeader_hash_def rbind_eq_Inr split: if_splits)

lemma Transaction_hash_Inr:
  "Transaction_hash ops junk t = Inr (hash, t') \<Longrightarrow> t' = t\<lparr>tx_hash := hash, tx_validHash := True\<rparr>"
  by (auto simp: Transaction_hash_def rbind_eq_Inr split: if_splits)

definition fresh_header :: "block_header \<Rightarrow> bool" where
  "fresh_header h \<longleftrightarrow> bh_id h = - 1 \<and> bh_height h = - 1"

lemma addBlockHeader_cases:
  assumes "addBlockHeader ops junk obj s = Inr (r, s')"
  obtains (known) hash h where "BlockHeader_hash ops junk (stored_header obj) = Inr (hash, h)"
      "hasBlockHeader hash s" "\<not> r" "s' = s"
  | (new) hash h where "BlockHeader_hash ops junk (stored_header obj) = Inr (hash, h)" "\<not> hasBlockHeader hash s" r
      "h = (stored_header obj)\<lparr>bh_hash := hash, bh_validHash := True\<rparr>" "bh_id (stored_header obj) = - 1"
      "s' = s\<lparr>cs_blockIds := map_emplace hash (count s) (cs_blockIds s),
        cs_blocks := cs_blocks s @ [with_header (h\<lparr>bh_id := word_of_nat (count s)\<rparr>) obj],
        cs_blockHashes := map_emplace (count s) hash (cs_blockHashes s)\<rparr>"
proof -
  obtain hash h where h: "BlockHeader_hash ops junk (stored_header obj) = Inr (hash, h)"
    using assms by (auto simp: addBlockHeader_def rbind_eq_Inr)
  note h' = BlockHeader_hash_Inr [OF h]
  show thesis
  proof (cases "hasBlockHeader hash s")
    case True
    with known [OF h True] assms show thesis by (simp add: addBlockHeader_def h)
  next
    case False
    have "rbind (setId (word_of_nat (count s)) h) (\<lambda>h. Inr (True, s\<lparr>cs_blockIds := map_emplace hash (count s) (cs_blockIds s),
        cs_blocks := cs_blocks s @ [with_header h obj], cs_blockHashes := map_emplace (count s) hash (cs_blockHashes s)\<rparr>)) =
        Inr (r, s')" using assms False by (simp add: addBlockHeader_def h Let_def)
    then have "bh_id h = - 1 \<and> r \<and> s' = s\<lparr>cs_blockIds := map_emplace hash (count s) (cs_blockIds s),
        cs_blocks := cs_blocks s @ [with_header (h\<lparr>bh_id := word_of_nat (count s)\<rparr>) obj],
        cs_blockHashes := map_emplace (count s) hash (cs_blockHashes s)\<rparr>"
      by (cases "bh_id h = - 1") (simp_all add: setId_def)
    with new [OF h False _ h'] h' show thesis by simp
  qed
qed

lemma addBlockHeader_ok:
  assumes "store_ok s" and "addBlockHeader ops junk obj s = Inr (r, s')" and "fresh_header (stored_header obj)"
    and "Suc (count s) < 2 ^ 64 - 1"
  shows "store_ok s' \<and> grown s s' \<and> cs_mainChain s' = cs_mainChain s"
  using assms(2)
proof (cases rule: addBlockHeader_cases)
  case known
  then show "store_ok s' \<and> grown s s' \<and> cs_mainChain s' = cs_mainChain s" using assms(1) by (simp add: grown_def)
next
  case (new hash h)
  let ?x = "with_header (h\<lparr>bh_id := word_of_nat (count s)\<rparr>) obj"
  note reg = assms(1) [unfolded store_ok_def registered_def]
  have ids: "cs_blockIds s hash = None" using new(2) by (simp add: hasBlockHeader_def)
  have blocks: "cs_blocks s' = cs_blocks s @ [?x]" "cs_blockIds s' = map_emplace hash (count s) (cs_blockIds s)"
    "cs_blockHashes s' = map_emplace (count s) hash (cs_blockHashes s)" "cs_genesis s' = cs_genesis s"
    "cs_mainChain s' = cs_mainChain s" "cs_orphans s' = cs_orphans s"
    "cs_txs s' = cs_txs s" "cs_txIds s' = cs_txIds s" "cs_txHashes s' = cs_txHashes s"
    using new(6) by simp_all
  have hdr: "hdr s' i = (if i = count s then h\<lparr>bh_id := word_of_nat (count s)\<rparr> else hdr s i)" if "i \<le> count s" for i
    using that by (simp add: hdr_def blocks nth_append)
  have top: "\<not> inChain (hdr s' (count s))" using new(4) assms(3) by (simp add: hdr fresh_header_def inChain_def)
  have "cs_blockIds s \<subseteq>\<^sub>m cs_blockIds s'"
    unfolding blocks map_emplace_def using ids by (auto simp: map_le_def)
  then have grown: "grown s s'" using blocks hdr by (simp add: grown_def)
  have "reg_ok stored_hash (cs_blocks s') (cs_blockIds s') (cs_blockHashes s')"
    unfolding blocks using reg ids new(4) by (intro reg_ok_add) simp_all
  then have "registered s'"
    using reg assms(4) new(4) unfolding registered_def by (auto simp: blocks hdr less_Suc_eq)
  moreover have "connected s' i \<and> ht s' i < length (cs_mainChain s')" if "i < count s'" "inChain (hdr s' i)" for i
  proof -
    have i: "i < count s" using that top by (cases "i = count s") (auto simp: blocks)
    then have "inChain (hdr s i)" "ht s' i = ht s i" using that(2) by (simp_all add: hdr ht_def)
    then show ?thesis using grown_connected [OF grown i] assms(1) i blocks by (simp add: store_ok_def)
  qed
  moreover have "branch s' 0 (cs_mainChain s')"
    using grown_branch [OF grown] assms(1) blocks by (simp add: store_ok_def)
  moreover have "i < count s' \<and> bh_prev (hdr s' i) = k" if "(k, i) \<in> set (cs_orphans s')" for k i
    using that assms(1) by (auto simp: store_ok_def blocks hdr)
  ultimately show "store_ok s' \<and> grown s s' \<and> cs_mainChain s' = cs_mainChain s"
    using grown blocks by (auto simp: store_ok_def)
qed

lemma addTx_ok:
  assumes "store_ok s" and "addTx ops junk tx s = Inr (r, s')"
  shows "store_ok s' \<and> cs_blocks s' = cs_blocks s \<and> cs_blockIds s' = cs_blockIds s \<and> cs_genesis s' = cs_genesis s \<and>
    cs_mainChain s' = cs_mainChain s \<and> cs_orphans s' = cs_orphans s"
proof -
  obtain hash t where h: "Transaction_hash ops junk tx = Inr (hash, t)"
    and s': "if hasTx hash s then s' = s else s' = s\<lparr>cs_txIds := map_emplace hash (length (cs_txs s)) (cs_txIds s),
      cs_txs := cs_txs s @ [t], cs_txHashes := map_emplace (length (cs_txs s)) hash (cs_txHashes s)\<rparr>"
    using assms(2) by (auto simp: addTx_def rbind_eq_Inr Let_def split: if_splits)
  show "store_ok s' \<and> cs_blocks s' = cs_blocks s \<and> cs_blockIds s' = cs_blockIds s \<and> cs_genesis s' = cs_genesis s \<and>
    cs_mainChain s' = cs_mainChain s \<and> cs_orphans s' = cs_orphans s"
  proof (cases "hasTx hash s")
    case False
    note s' = s' [simplified False if_False]
    have tree: "hdr s' = hdr s" "ht s' = ht s" "connected s' = connected s" "branch s' k xs = branch s k xs" for k xs
      using same_tree [of s' s] s' by simp_all
    have "reg_ok tx_hash (cs_txs s') (cs_txIds s') (cs_txHashes s')"
      using False assms(1) Transaction_hash_Inr [OF h] unfolding s'
      by (auto intro!: reg_ok_add simp: hasTx_def store_ok_def registered_def)
    then have "registered s'"
      using assms(1) Transaction_hash_Inr [OF h] tree(1) s' by (auto simp: store_ok_def registered_def)
    then show ?thesis using assms(1) s' unfolding store_ok_def tree by simp
  next
    case True
    then show ?thesis using assms(1) s' by simp
  qed
qed

lemma addTxs_ok:
  "store_ok s \<Longrightarrow> addTxs ops junk txs s = Inr s' \<Longrightarrow>
     store_ok s' \<and> cs_blocks s' = cs_blocks s \<and> cs_blockIds s' = cs_blockIds s \<and> cs_genesis s' = cs_genesis s \<and>
     cs_mainChain s' = cs_mainChain s \<and> cs_orphans s' = cs_orphans s"
proof (induction ops junk txs s rule: addTxs.induct)
  case (3 ops junk tx txs s)
  then obtain r s1 where s1: "addTx ops junk tx s = Inr (r, s1)" "addTxs ops junk txs s1 = Inr s'"
    by (auto simp: rbind_eq_Inr)
  note ok = addTx_ok [OF 3(2) s1(1)]
  show ?case using 3(1) [OF s1(1) refl _ s1(2)] ok by simp
qed simp_all

section \<open>The loops over orphans\<close>

lemma remove_orphan_Nil: "remove_orphan p [] k s = Some s"
  by (simp add: remove_orphan.simps)

lemma remove_orphan_Some:
  "remove_orphan p w k s = Some s' \<Longrightarrow>
     (w = [] \<and> s' = s) \<or> (\<exists>w'. w = p # w' \<and> s' = s\<lparr>cs_orphans := remove1 (k, p) (cs_orphans s)\<rparr>)"
  by (rule remove_orphan.raw_induct [where P = "\<lambda>p w k s s'. (w = [] \<and> s' = s) \<or>
      (\<exists>w'. w = p # w' \<and> s' = s\<lparr>cs_orphans := remove1 (k, p) (cs_orphans s)\<rparr>)"])
    (fastforce split: list.splits if_splits)

lemma enqueue_orphans_Some: "enqueue_orphans w s = Some s' \<Longrightarrow> w = [] \<and> s' = s"
  by (rule enqueue_orphans.raw_induct [where P = "\<lambda>w s s'. w = [] \<and> s' = s"]) (auto split: list.splits)

lemma enqueue_orphans_Nil: "enqueue_orphans [] s = Some s"
  by (simp add: enqueue_orphans.simps)

section \<open>The main chain\<close>

text \<open>Both branches end at the same height; they meet.\<close>

lemma retract_meets:
  assumes "registered s" and "\<forall>i < count s. inChain (hdr s i) \<longrightarrow> connected s i"
    and "branch s 0 (mc @ [p])" and "branch s (length mc) (n # chain)"
  shows "\<exists>chain' mc'. retract s (Some n) (Some p) chain (mc @ [p]) = Some (Inr (chain', mc')) \<and>
    branch s 0 (mc' @ chain') \<and> length (mc' @ chain') = Suc (length mc + length chain) \<and> mc' \<noteq> [] \<and>
    last (mc' @ chain') = last (n # chain) \<and> (chain' = [] \<longrightarrow> n = p \<and> chain = [])"
  using assms(3,4)
proof (induction mc arbitrary: n p chain rule: rev_induct)
  case Nil
  have ends: "inChain (hdr s i) \<and> i < count s \<and> ht s i = 0" if "i \<in> {n, p}" for i using Nil that by auto
  have "bh_hash (hdr s i) = cs_genesis s" if "i \<in> {n, p}" for i
    using ends [OF that] assms(2) by (auto simp: connected_def)
  then have "cs_blockIds s (cs_genesis s) = Some n" "cs_blockIds s (cs_genesis s) = Some p"
    using hash_id(1) [OF assms(1)] ends by (metis insertI1, metis insertI1 insert_commute)
  then have "n = p" by simp
  then show ?case using Nil by (auto simp: retract.simps [of s "Some p"] intro!: exI [of _ chain] exI [of _ "[p]"])
next
  case (snoc q mc)
  show ?case
  proof (cases "n = p")
    case True
    then show ?thesis
      using snoc.prems by (auto simp: retract.simps [of s "Some p"] branch_append intro!: exI [of _ chain] exI [of _ "mc @ [q, p]"])
  next
    case False
    have n: "n < count s" "inChain (hdr s n)" "ht s n = Suc (length mc)" using snoc.prems by simp_all
    then obtain m where m: "parent s n = Some m" "m < count s" "inChain (hdr s m)" "ht s m = length mc"
      using assms(2) by (auto simp: connected_def)
    have q: "parent s p = Some q" using snoc.prems(1) by (simp add: branch_append)
    have "branch s (length mc) (m # n # chain)" using snoc.prems(2) m by simp
    moreover have "branch s 0 (mc @ [q])" using snoc.prems(1) by (simp add: branch_append)
    moreover have "retract s (Some n) (Some p) chain ((mc @ [q]) @ [p]) = retract s (Some m) (Some q) (n # chain) (mc @ [q])"
      using False m(1) q by (subst retract.simps) (simp add: getBlockHeader_parent [OF assms(1)] butlast_append)
    ultimately show ?thesis using snoc.IH [of q m "n # chain"] by auto
  qed
qed

text \<open>The stack is appended block by block; the assertion on the height holds.\<close>

lemma replay_branch:
  assumes "registered s"
  shows "branch s (length mc) chain \<Longrightarrow> length (mc @ chain) \<le> count s \<Longrightarrow>
    replay s chain b mc = Inr (if chain = [] then b else Some (last chain), mc @ chain)"
proof (induction chain arbitrary: b mc)
  case (Cons p chain)
  have "unat (bh_id (hdr s p)) = p" using Cons.prems by (intro hash_id [OF assms]) simp
  moreover have "length mc < 2 ^ 64" using Cons.prems assms by (simp add: registered_def)
  then have "bh_height (hdr s p) = word_of_nat (length mc)"
    using Cons.prems by (auto simp: ht_def unat_word_of_length intro!: word_unat_eq_iff [THEN iffD2])
  ultimately show ?case using Cons.IH [of "mc @ [p]" "Some p"] Cons.prems by simp
qed simp

lemma choose_chain_best:
  assumes "registered s" and "\<forall>i < count s. inChain (hdr s i) \<longrightarrow> connected s i"
    and "branch s 0 (cs_mainChain s)" and "cs_mainChain s \<noteq> []"
    and "p < count s" and "inChain (hdr s p)" and "p \<notin> set (cs_mainChain s)"
    and "parent s p = Some q" and "q < count s" and "inChain (hdr s q)" and "ht s p = Suc (ht s q)"
    and "ht s p \<le> length (cs_mainChain s)"
  shows "\<exists>mc. choose_chain p s = Some (Inr (Some p, s\<lparr>cs_mainChain := mc\<rparr>)) \<and> branch s 0 mc \<and>
    length mc = max (length (cs_mainChain s)) (Suc (ht s p)) \<and>
    (if length (cs_mainChain s) \<le> Suc (ht s p) then last mc = p else mc = cs_mainChain s)"
proof -
  let ?L = "length (cs_mainChain s)"
  obtain mc t where mc: "cs_mainChain s = mc @ [t]" using assms(4) by (cases "cs_mainChain s" rule: rev_cases) auto
  have L: "?L \<le> count s" "count s < 2 ^ 64 - 1" using branch_length [OF assms(3)] assms(1) by (simp_all add: registered_def)
  have height: "unat (getHeight s - 1) = length mc"
    using L mc by (simp add: getHeight_def unat_word_of_length)
  have t: "t < count s" "inChain (hdr s t)" "ht s t = length mc" using assms(3) mc by (simp_all add: branch_append)
  have top: "getTopBlockHeader s = Inr (Some t)" using mc t by (simp add: getTopBlockHeader_def)
  have above: "bh_height (hdr s i) > getHeight s - 1 \<longleftrightarrow> ht s i > length mc" for i
    by (simp add: word_less_nat_alt height ht_def)
  have finish: ?thesis if climb: "climb s (getHeight s - 1) (Some p) [] = Some (Some n, chain)"
    and n: "branch s (length mc) (n # chain)" "last (n # chain) = p" "Suc (length mc + length chain) = Suc (ht s p)"
    and high: "bh_height (hdr s p) \<ge> getHeight s - 1" for n chain
  proof -
    obtain chain' mc' where r: "retract s (Some n) (Some t) chain (mc @ [t]) = Some (Inr (chain', mc'))"
      "branch s 0 (mc' @ chain')" "length (mc' @ chain') = Suc (length mc + length chain)" "mc' \<noteq> []"
      "last (mc' @ chain') = last (n # chain)" "chain' = [] \<longrightarrow> n = t \<and> chain = []"
      using retract_meets [OF assms(1,2) _ n(1), of t] assms(3) mc by auto
    have "chain' \<noteq> []" using r(6) n(2) assms(7) mc by auto
    then have "last chain' = p" using r(5) n(2) by simp
    have "replay s chain' (Some n) mc' = Inr (Some p, mc' @ chain')"
      using replay_branch [OF assms(1), of mc' chain' "Some n"] r(2) branch_length [OF r(2)] \<open>chain' \<noteq> []\<close> \<open>last chain' = p\<close>
      by (simp add: branch_append)
    then have "choose_chain p s = Some (Inr (Some p, s\<lparr>cs_mainChain := mc' @ chain'\<rparr>))"
      using high climb top r(1) mc by (simp add: choose_chain_def obind_def Let_def)
    moreover have "length (mc' @ chain') = max ?L (Suc (ht s p))" "?L \<le> Suc (ht s p)"
      using r(3) n(3) mc by simp_all
    moreover have "last (mc' @ chain') = p" using \<open>chain' \<noteq> []\<close> \<open>last chain' = p\<close> by simp
    ultimately show ?thesis using r(2) by auto
  qed
  consider "ht s p < length mc" | "ht s p = length mc" | "ht s p = Suc (length mc)"
    using assms(12) mc by fastforce
  then show ?thesis
  proof cases
    case 1
    then have "\<not> bh_height (hdr s p) \<ge> getHeight s - 1" by (simp add: word_le_nat_alt height ht_def)
    then have "choose_chain p s = Some (Inr (Some p, s))" by (simp add: choose_chain_def Let_def)
    moreover have "s = s\<lparr>cs_mainChain := cs_mainChain s\<rparr>" by simp
    moreover have "max ?L (Suc (ht s p)) = ?L" "\<not> ?L \<le> Suc (ht s p)" using 1 mc by simp_all
    ultimately show ?thesis using assms(3) by metis
  next
    case 2
    have "climb s (getHeight s - 1) (Some p) [] = Some (Some p, [])"
      by (subst climb.simps) (simp add: above 2)
    then show ?thesis using 2 assms(5,6) by (intro finish [of p "[]"]) (simp_all add: word_le_nat_alt height ht_def)
  next
    case 3
    have q: "ht s q = length mc" using 3 assms(11) by simp
    have "climb s (getHeight s - 1) (Some q) [p] = Some (Some q, [p])"
      by (subst climb.simps) (simp add: above q)
    then have "climb s (getHeight s - 1) (Some p) [] = Some (Some q, [p])"
      by (subst climb.simps) (simp add: above 3 getBlockHeader_parent [OF assms(1)] assms(8))
    then show ?thesis
      using 3 assms(5,6,8-10) q by (intro finish [of q "[p]"]) (simp_all add: word_le_nat_alt height ht_def)
  qed
qed

end
