(* ===== verification/BlockStoreReach.thy ===== *)
theory BlockStoreReach
  imports BlockStoreOps
begin

text \<open>
  Connecting and adding blocks: the invariant, the new main chain, and when the calls do not return.
\<close>

lemma obind_simps [simp]:
  "obind None f = None" "obind (Some (Inl e)) f = Some (Inl e)" "obind (Some (Inr x)) f = f x"
  by (simp_all add: obind_def)

lemma obind_Some: "obind m f = Some (Inr y) \<longleftrightarrow> (\<exists>x. m = Some (Inr x) \<and> f x = Some (Inr y))"
  by (auto simp: obind_def split: option.split sum.split)

lemma unat_minus_1: "unat (- 1 :: 64 word) = 2 ^ 64 - 1"
  by (simp add: unsigned_minus_1_eq_mask mask_eq_exp_minus_1)

text \<open>The header of a block that gets its height.\<close>

definition raised :: "nat \<Rightarrow> nat \<Rightarrow> chain_state \<Rightarrow> chain_state" where
  "raised p n s = set_hdr p ((hdr s p)\<lparr>bh_height := word_of_nat n\<rparr>) s"

lemma raised_simps [simp]:
  "count (raised p n s) = count s" "cs_mainChain (raised p n s) = cs_mainChain s" "cs_orphans (raised p n s) = cs_orphans s"
  "cs_genesis (raised p n s) = cs_genesis s" "cs_blockIds (raised p n s) = cs_blockIds s"
  by (simp_all add: raised_def)

lemma raised_facts:
  assumes "store_ok s" and "p < count s" and "\<not> inChain (hdr s p)" and "n \<le> count s"
  shows "registered (raised p n s)" and "grown s (raised p n s)" and "ht (raised p n s) p = n" and "inChain (hdr (raised p n s) p)"
    and "\<And>i. i \<noteq> p \<Longrightarrow> hdr (raised p n s) i = hdr s i" and "parent (raised p n s) = parent s"
    and "bh_hash (hdr (raised p n s) p) = bh_hash (hdr s p)" and "bh_prev (hdr (raised p n s) p) = bh_prev (hdr s p)"
proof -
  have reg: "registered s" using assms(1) by (simp add: store_ok_def)
  then have n: "n < 2 ^ 64 - 1" using assms(4) by (simp add: registered_def)
  then have u: "unat (word_of_nat n :: 64 word) = n" by (intro unat_word_of_length) simp
  have hdr: "hdr (raised p n s) i = (if i = p then (hdr s p)\<lparr>bh_height := word_of_nat n\<rparr> else hdr s i)" for i
    using assms(2) by (simp add: raised_def hdr_set_hdr)
  show "registered (raised p n s)"
    unfolding raised_def using reg assms(2) by (intro registered_set_hdr) (simp_all add: registered_def)
  show "grown s (raised p n s)" unfolding raised_def using assms(2,3) by (rule grown_set_hdr)
  show "ht (raised p n s) p = n" using u by (simp add: ht_def hdr)
  have "word_of_nat n \<noteq> (- 1 :: 64 word)" using u n unat_minus_1 by (metis less_irrefl)
  then show "inChain (hdr (raised p n s) p)" by (simp add: inChain_def hdr)
  show "\<And>i. i \<noteq> p \<Longrightarrow> hdr (raised p n s) i = hdr s i" by (simp add: hdr)
  show "parent (raised p n s) = parent s" by (simp add: parent_def hdr fun_eq_iff)
  show "bh_hash (hdr (raised p n s) p) = bh_hash (hdr s p)" "bh_prev (hdr (raised p n s) p) = bh_prev (hdr s p)"
    by (simp_all add: hdr)
qed

lemma setHeight_raised:
  assumes "\<not> inChain (hdr s p)"
  shows "setHeight (word_of_nat n) (hdr s p) = Inr ((hdr s p)\<lparr>bh_height := word_of_nat n\<rparr>)"
  using assms by (simp add: setHeight_def inChain_def)

lemma descendants_stored:
  assumes "registered s" and "p < count s"
  shows "descendants ops junk (Some p) s =
    (case enqueue_orphans (equal_range (bh_hash (hdr s p)) s) s of None \<Rightarrow> None | Some s \<Rightarrow> Some (Inr (True, s)))"
  using header_hash_stored [OF assms, of ops junk] by (simp add: descendants_def)

lemma enqueue_waiting: "enqueue_orphans w s = (if w = [] then Some s else None)"
proof (cases "enqueue_orphans w s")
  case None
  then show ?thesis by (auto simp: enqueue_orphans_Nil)
qed (auto dest: enqueue_orphans_Some)

section \<open>The first block\<close>

lemma place_genesis_eq:
  assumes "store_ok s" and "p < count s" and "cs_mainChain s = []"
  shows "place_genesis ops junk p s =
    (if bh_hash (hdr s p) \<noteq> cs_genesis s \<or> \<not> isNull (bh_prev (hdr s p))
     then Inr (False, s\<lparr>cs_orphans := (bh_prev (hdr s p), p) # cs_orphans s\<rparr>)
     else Inr (True, (raised p 0 s)\<lparr>cs_mainChain := [p]\<rparr>))"
proof -
  have reg: "registered s" using assms(1) by (simp add: store_ok_def)
  have "\<not> inChain (hdr s p)" using assms by (auto simp: store_ok_def)
  then have "setHeight 0 (hdr s p) = Inr ((hdr s p)\<lparr>bh_height := word_of_nat 0\<rparr>)"
    using setHeight_raised [of s p 0] by simp
  then show ?thesis
    using header_hash_stored [OF reg assms(2), of ops junk] assms(3) by (simp add: place_genesis_def raised_def)
qed

lemma connect_genesis_eq:
  assumes "store_ok s" and "p < count s" and "cs_mainChain s = []"
  shows "connect_genesis ops junk p s =
    (if bh_hash (hdr s p) \<noteq> cs_genesis s \<or> \<not> isNull (bh_prev (hdr s p))
     then Some (Inr (False, s\<lparr>cs_orphans := (bh_prev (hdr s p), p) # cs_orphans s\<rparr>))
     else if equal_range (bh_hash (hdr s p)) s = []
     then Some (Inr (True, (raised p 0 s)\<lparr>cs_mainChain := [p]\<rparr>))
     else None)"
proof -
  have free: "\<not> inChain (hdr s p)" using assms by (auto simp: store_ok_def)
  note r = raised_facts [OF assms(1,2) free, of 0]
  have "equal_range k ((raised p 0 s)\<lparr>cs_mainChain := [p]\<rparr>) = equal_range k s" for k by (simp add: equal_range_def)
  then have "descendants ops junk (Some p) ((raised p 0 s)\<lparr>cs_mainChain := [p]\<rparr>) =
      (if equal_range (bh_hash (hdr s p)) s = [] then Some (Inr (True, (raised p 0 s)\<lparr>cs_mainChain := [p]\<rparr>)) else None)"
    using descendants_stored [of "(raised p 0 s)\<lparr>cs_mainChain := [p]\<rparr>" p ops junk] r assms(2)
    by (simp add: enqueue_waiting)
  then show ?thesis using place_genesis_eq [OF assms(1-3), of ops junk] by (simp add: connect_genesis_def)
qed

lemma connect_genesis_ok:
  assumes "store_ok s" and "p < count s" and "cs_mainChain s = []" and "connect_genesis ops junk p s = Some (Inr (r, s'))"
  shows "store_ok s'"
proof -
  have free: "\<not> inChain (hdr s i)" if "i < count s" for i using assms(1,3) that by (auto simp: store_ok_def)
  note f = raised_facts [OF assms(1,2) free [OF assms(2)], of 0]
  consider (orphan) "s' = s\<lparr>cs_orphans := (bh_prev (hdr s p), p) # cs_orphans s\<rparr>"
    | (genesis) "s' = (raised p 0 s)\<lparr>cs_mainChain := [p]\<rparr>" "bh_hash (hdr s p) = cs_genesis s" "isNull (bh_prev (hdr s p))"
    using connect_genesis_eq [OF assms(1-3), of ops junk] assms(4) by (auto split: if_splits)
  then show ?thesis
  proof cases
    case orphan
    then show ?thesis using assms(1,2) by (auto simp: store_ok_def)
  next
    case genesis
    have "connected (raised p 0 s) p" using f genesis by (simp add: connected_def)
    moreover have "i = p" if "i < count s" "inChain (hdr (raised p 0 s) i)" for i
      using f(5) [of i] free [of i] that by (cases "i = p") auto
    moreover have "i < count s \<and> bh_prev (hdr (raised p 0 s) i) = k" if "(k, i) \<in> set (cs_orphans s)" for k i
      using that assms(1) f(5,8) by (cases "i = p") (auto simp: store_ok_def)
    ultimately show ?thesis using genesis(1) f assms(2) by (auto simp: store_ok_def)
  qed
qed

section \<open>Further blocks\<close>

text \<open>What happens to a block whose parent is connected.\<close>

definition joins :: "chain_state \<Rightarrow> nat \<Rightarrow> nat \<Rightarrow> bool" where
  "joins s p q \<longleftrightarrow> parent s p = Some q \<and> inChain (hdr s q)"

lemma joins_count: "store_ok s \<Longrightarrow> joins s p q \<Longrightarrow> q < count s"
  using reg_okD(2) [of stored_hash "cs_blocks s" "cs_blockIds s" "cs_blockHashes s"]
  by (auto simp: joins_def parent_def store_ok_def registered_def)

lemma connect_child_waits:
  assumes "store_ok s" and "\<not> (\<exists>q. joins s p q)"
  shows "connect_child ops junk p s = Some (Inr (False, s))"
proof (cases "parent s p")
  case (Some q)
  then have "q < count s" "\<not> inChain (hdr s q)"
    using assms reg_okD(2) [of stored_hash "cs_blocks s" "cs_blockIds s" "cs_blockHashes s"]
    by (auto simp: joins_def parent_def store_ok_def registered_def)
  with Some show ?thesis by (simp add: connect_child_def parent_def getBlockHeader_id_def Let_def)
qed (simp add: connect_child_def parent_def Let_def)

lemma connect_child_again:
  assumes "store_ok s" and "joins s p q" and "inChain (hdr s p)"
  shows "connect_child ops junk p s = Some (Inl Abort)"
  using assms(2,3) joins_count [OF assms(1,2)]
  by (simp add: connect_child_def parent_def getBlockHeader_id_def Let_def joins_def setHeight_def inChain_def)

lemma connect_child_joins:
  assumes "store_ok s" and "p < count s" and "cs_mainChain s \<noteq> []" and "joins s p q" and "\<not> inChain (hdr s p)"
  shows "\<exists>mc. connect_child ops junk p s =
      (case remove_orphan p (equal_range (bh_prev (hdr s p)) s) (bh_prev (hdr s p)) (raised p (Suc (ht s q)) s) of
         None \<Rightarrow> None
       | Some s1 \<Rightarrow>
           if equal_range (bh_hash (hdr s p)) s1 = [] then Some (Inr (True, s1\<lparr>cs_mainChain := mc\<rparr>)) else None) \<and>
    branch (raised p (Suc (ht s q)) s) 0 mc \<and> length mc = max (length (cs_mainChain s)) (Suc (Suc (ht s q))) \<and>
    (if length (cs_mainChain s) \<le> Suc (Suc (ht s q)) then last mc = p else mc = cs_mainChain s)"
proof -
  let ?s = "raised p (Suc (ht s q)) s" and ?k = "bh_prev (hdr s p)"
  have q: "q < count s" "parent s p = Some q" "inChain (hdr s q)" "p \<noteq> q"
    using joins_count [OF assms(1,4)] assms(4,5) by (auto simp: joins_def)
  have low: "ht s q < length (cs_mainChain s)" "length (cs_mainChain s) \<le> count s"
    using assms(1) q branch_length [of s 0 "cs_mainChain s"] by (simp_all add: store_ok_def)
  note f = raised_facts [OF assms(1,2,5), of "Suc (ht s q)"]
  have f': "registered ?s" "grown s ?s" "ht ?s p = Suc (ht s q)" "inChain (hdr ?s p)" "hdr ?s q = hdr s q" "parent ?s = parent s"
    using f low q(4) by simp_all
  have conn: "connected ?s i" if "i < count ?s" "inChain (hdr ?s i)" for i
  proof (cases "i = p")
    case True
    then show ?thesis using f' q by (auto simp: connected_def ht_def)
  next
    case False
    then have "inChain (hdr s i)" using f(5) [OF _ False] low that by simp
    then show ?thesis using grown_connected [OF f'(2)] that assms(1) by (simp add: store_ok_def)
  qed
  have main: "branch ?s 0 (cs_mainChain s)" using grown_branch [OF f'(2)] assms(1) by (simp add: store_ok_def)
  have out: "p \<notin> set (cs_mainChain s)"
    using assms(1,5) by (auto simp: store_ok_def in_set_conv_nth dest: branch_nth)
  have hq: "ht ?s q = ht s q" using f' by (simp add: ht_def)
  have best: "\<exists>mc. choose_chain p (?s\<lparr>cs_orphans := x\<rparr>) = Some (Inr (Some p, ?s\<lparr>cs_orphans := x, cs_mainChain := mc\<rparr>)) \<and>
      branch ?s 0 mc \<and> length mc = max (length (cs_mainChain s)) (Suc (Suc (ht s q))) \<and>
      (if length (cs_mainChain s) \<le> Suc (Suc (ht s q)) then last mc = p else mc = cs_mainChain s)" for x
    using choose_chain_best [of "?s\<lparr>cs_orphans := x\<rparr>" p q] f' conn main assms(2,3) out q low hq
    by (simp split del: if_split cong: if_cong)
  obtain mc where mc: "branch ?s 0 mc" "length mc = max (length (cs_mainChain s)) (Suc (Suc (ht s q)))"
    "if length (cs_mainChain s) \<le> Suc (Suc (ht s q)) then last mc = p else mc = cs_mainChain s"
    using best [of "[]"] by blast
  have later: "choose_chain p (?s\<lparr>cs_orphans := x\<rparr>) = Some (Inr (Some p, ?s\<lparr>cs_orphans := x, cs_mainChain := mc\<rparr>))" for x
  proof -
    obtain mc' where mc': "choose_chain p (?s\<lparr>cs_orphans := x\<rparr>) = Some (Inr (Some p, ?s\<lparr>cs_orphans := x, cs_mainChain := mc'\<rparr>))"
      "branch ?s 0 mc'" "length mc' = max (length (cs_mainChain s)) (Suc (Suc (ht s q)))"
      "if length (cs_mainChain s) \<le> Suc (Suc (ht s q)) then last mc' = p else mc' = cs_mainChain s"
      using best [of x] by blast
    have "mc \<noteq> []" "mc' \<noteq> []" using mc(2) mc'(3) by auto
    then have "mc' = mc" using branch_unique [OF mc'(2) mc(1)] mc(3) mc'(4) by (simp split: if_splits)
    then show ?thesis using mc'(1) by simp
  qed
  have range_eq: "equal_range k (s1\<lparr>cs_mainChain := mc\<rparr>) = equal_range k s1" for k s1 by (simp add: equal_range_def)
  have desc: "descendants ops junk (Some p) (s1\<lparr>cs_mainChain := mc\<rparr>) =
      (if equal_range (bh_hash (hdr s p)) s1 = [] then Some (Inr (True, s1\<lparr>cs_mainChain := mc\<rparr>)) else None)"
    if "s1 = ?s\<lparr>cs_orphans := x\<rparr>" for s1 x
    using descendants_stored [of "s1\<lparr>cs_mainChain := mc\<rparr>" p ops junk] that f f' assms(2) low
    by (simp add: enqueue_waiting range_eq)
  have height: "bh_height (hdr s q) + 1 = word_of_nat (Suc (ht s q))" by (simp add: ht_def)
  have range: "equal_range ?k ?s = equal_range ?k s" by (simp add: equal_range_def)
  have "connect_child ops junk p s =
      (case remove_orphan p (equal_range ?k s) ?k ?s of None \<Rightarrow> None
       | Some s1 \<Rightarrow> obind (choose_chain p s1) (\<lambda>(b, s). descendants ops junk b s))"
    using q setHeight_raised [OF assms(5), of "Suc (ht s q)"] range
    by (simp add: connect_child_def parent_def getBlockHeader_id_def Let_def height raised_def del: of_nat_Suc)
  also have "\<dots> = (case remove_orphan p (equal_range ?k s) ?k ?s of None \<Rightarrow> None
       | Some s1 \<Rightarrow>
           if equal_range (bh_hash (hdr s p)) s1 = [] then Some (Inr (True, s1\<lparr>cs_mainChain := mc\<rparr>)) else None)"
  proof (cases "remove_orphan p (equal_range ?k s) ?k ?s")
    case (Some s1)
    then obtain x where x: "s1 = ?s\<lparr>cs_orphans := x\<rparr>"
      using remove_orphan_Some [OF Some] by (cases "s1 = ?s") (auto intro: that [of "cs_orphans ?s"])
    then show ?thesis using Some later [of x] desc [OF x] by simp
  qed simp
  finally show ?thesis using mc by blast
qed

lemma connect_child_ok:
  assumes "store_ok s" and "p < count s" and "cs_mainChain s \<noteq> []" and "connect_child ops junk p s = Some (Inr (r, s'))"
  shows "store_ok s'"
proof (cases "\<exists>q. joins s p q")
  case False
  then show ?thesis using connect_child_waits [OF assms(1) False, of ops junk] assms(1,4) by simp
next
  case True
  then obtain q where q: "joins s p q" by blast
  have free: "\<not> inChain (hdr s p)" using connect_child_again [OF assms(1) q, of ops junk] assms(4) by force
  let ?s = "raised p (Suc (ht s q)) s"
  obtain mc s1 where mc: "branch ?s 0 mc" "length mc = max (length (cs_mainChain s)) (Suc (Suc (ht s q)))"
    and s1: "remove_orphan p (equal_range (bh_prev (hdr s p)) s) (bh_prev (hdr s p)) ?s = Some s1" "s' = s1\<lparr>cs_mainChain := mc\<rparr>"
    using connect_child_joins [OF assms(1-3) q free, of ops junk] assms(4) by (auto split: option.splits if_splits)
  have x: "\<exists>x. s1 = ?s\<lparr>cs_orphans := x\<rparr> \<and> set x \<subseteq> set (cs_orphans s)"
  proof (cases "s1 = ?s")
    case True
    then show ?thesis by (intro exI [of _ "cs_orphans ?s"]) simp
  next
    case False
    then show ?thesis using remove_orphan_Some [OF s1(1)] set_remove1_subset by fastforce
  qed
  then obtain x where x: "s1 = ?s\<lparr>cs_orphans := x\<rparr>" "set x \<subseteq> set (cs_orphans s)" by blast
  have qs: "q < count s" "parent s p = Some q" "inChain (hdr s q)" "p \<noteq> q"
    using joins_count [OF assms(1) q] q free by (auto simp: joins_def)
  have low: "ht s q < length (cs_mainChain s)" "length (cs_mainChain s) \<le> count s"
    using assms(1) qs branch_length [of s 0 "cs_mainChain s"] by (simp_all add: store_ok_def)
  note f = raised_facts [OF assms(1,2) free, of "Suc (ht s q)"]
  have "connected ?s i \<and> ht ?s i < length mc" if "i < count s" "inChain (hdr ?s i)" for i
  proof (cases "i = p")
    case True
    then show ?thesis using f low qs mc(2) by (auto simp: connected_def ht_def)
  next
    case False
    then have "hdr ?s i = hdr s i" using f(5) low by simp
    then show ?thesis
      using grown_connected [OF f(2)] that assms(1) mc(2) low by (auto simp: store_ok_def ht_def)
  qed
  moreover have "i < count s \<and> bh_prev (hdr ?s i) = k" if "(k, i) \<in> set x" for k i
    using that x(2) assms(1) f(5,8) low by (cases "i = p") (fastforce simp: store_ok_def)+
  ultimately show ?thesis using s1(2) x(1) f(1) low mc(1) by (auto simp: store_ok_def)
qed

end
