(* ===== verification/BlockStoreRun.thy ===== *)
theory BlockStoreRun
  imports BlockStoreReach Sha256
begin

text \<open>
  Runs of the block store: sequences of the public operations and of the tasks they leave behind. The
  invariant holds in every reachable state. Then the loops: the locator, the copies of headers, the
  orphans that keep calls from returning, and what loading leaves out.
\<close>

section \<open>Adding a block\<close>

lemma getHeight_0:
  assumes "store_ok s"
  shows "getHeight s = 0 \<longleftrightarrow> cs_mainChain s = []"
proof -
  have "length (cs_mainChain s) \<le> count s" "count s < 2 ^ 64 - 1"
    using assms branch_length [of s 0 "cs_mainChain s"] by (simp_all add: store_ok_def registered_def)
  then have "unat (getHeight s) = length (cs_mainChain s)" by (simp add: getHeight_def unat_word_of_length)
  then show ?thesis by (auto simp: unat_eq_zero)
qed

lemma connect_id_ok:
  assumes "store_ok s" and "connectToAncestor_id ops junk i s = Some (Inr (r, s'))"
  shows "store_ok s'"
proof (cases "i < count s")
  case True
  then have "connectToAncestor_id ops junk i s =
      (if cs_mainChain s = [] then connect_genesis ops junk i s else connect_child ops junk i s)"
    by (simp add: connectToAncestor_id_def getBlockHeader_id_def getHeight_0 [OF assms(1)])
  then show ?thesis
    using assms True connect_genesis_ok [OF assms(1) True, of ops junk r s'] connect_child_ok [OF assms(1) True, of ops junk r s']
    by (auto split: if_splits)
qed (use assms in \<open>simp add: connectToAncestor_id_def getBlockHeader_id_def\<close>)

lemma connect_ok:
  "store_ok s \<Longrightarrow> connectToAncestor ops junk hash s = Some (Inr (r, s')) \<Longrightarrow> store_ok s'"
  by (auto simp: connectToAncestor_def split: option.splits intro: connect_id_ok)

text \<open>The stages of \<open>addBlock\<close> that a successful call has passed.\<close>

lemma addBlock_stages:
  assumes "addBlock ops junk b s = Some (Inr (r, s'))"
  obtains (rejected) "\<not> r" "s' = s"
  | (added) hash h txs items s1 s2 r' where "BlockHeader_hash ops junk (b_header b) = Inr (hash, h)"
      "b_txList b = Some txs" "tx_pieces txs = Inr items" "MerkleRoot ops junk items = Inr (bh_merkle h)" r
      "if hasBlockHeader hash s then s1 = s
       else addBlockHeader ops junk (Full (b\<lparr>b_header := h\<rparr>)) s = Inr (True, s1)"
      "addTxs ops junk txs s1 = Inr s2" "connectToAncestor ops junk hash s2 = Some (Inr (r', s'))"
proof -
  obtain hash h where h: "BlockHeader_hash ops junk (b_header b) = Inr (hash, h)"
    using assms by (cases "BlockHeader_hash ops junk (b_header b)") (auto simp: addBlock_def)
  obtain txs where txs: "b_txList b = Some txs"
    using assms h by (cases "b_txList b") (simp_all add: addBlock_def block_txs_def)
  obtain items where items: "tx_pieces txs = Inr items"
    using assms h txs by (cases "tx_pieces txs") (simp_all add: addBlock_def block_txs_def)
  obtain merkle where merkle: "MerkleRoot ops junk items = Inr merkle"
    using assms h txs items by (cases "MerkleRoot ops junk items") (simp_all add: addBlock_def block_txs_def)
  show thesis
  proof (cases "bh_merkle h = merkle")
    case False
    then show thesis using assms h txs items merkle rejected by (simp add: addBlock_def block_txs_def)
  next
    case True
    let ?add = "if hasBlockHeader hash s then Inr s
      else rbind (addBlockHeader ops junk (Full (b\<lparr>b_header := h\<rparr>)) s) (\<lambda>(_, s). Inr s)"
    have rest: "obind (Some ?add) (\<lambda>s. obind (Some (addTxs ops junk txs s)) (\<lambda>s.
        obind (connectToAncestor ops junk hash s) (\<lambda>(_, s). Some (Inr (True, s))))) = Some (Inr (r, s'))"
      using assms h txs items merkle True by (simp add: addBlock_def block_txs_def split del: if_split)
    then obtain s1 where s1: "?add = Inr s1"
      "obind (Some (addTxs ops junk txs s1)) (\<lambda>s. obind (connectToAncestor ops junk hash s) (\<lambda>(_, s). Some (Inr (True, s)))) =
        Some (Inr (r, s'))" unfolding obind_Some by auto
    then obtain s2 where s2: "addTxs ops junk txs s1 = Inr s2"
      "obind (connectToAncestor ops junk hash s2) (\<lambda>(_, s). Some (Inr (True, s))) = Some (Inr (r, s'))"
      unfolding obind_Some [of "Some (addTxs ops junk txs s1)"] by auto
    then obtain r' where "connectToAncestor ops junk hash s2 = Some (Inr (r', s'))" r
      unfolding obind_Some by auto
    moreover have "if hasBlockHeader hash s then s1 = s
       else addBlockHeader ops junk (Full (b\<lparr>b_header := h\<rparr>)) s = Inr (True, s1)"
    proof (cases "hasBlockHeader hash s")
      case False
      then obtain f where f: "addBlockHeader ops junk (Full (b\<lparr>b_header := h\<rparr>)) s = Inr (f, s1)"
        using s1(1) by (auto simp: rbind_eq_Inr)
      have "BlockHeader_hash ops junk h = Inr (hash, h)"
        using BlockHeader_hash_Inr [OF h] by (simp add: BlockHeader_hash_def)
      then have f using f False by (auto simp: addBlockHeader_def Let_def rbind_eq_Inr)
      then show ?thesis using f False by simp
    qed (use s1(1) in simp)
    ultimately show thesis using added h txs items merkle True s2(1) by blast
  qed
qed

lemma addBlock_ok:
  assumes "store_ok s" and "addBlock ops junk b s = Some (Inr (r, s'))" and "fresh_header (b_header b)"
    and "Suc (count s) < 2 ^ 64 - 1"
  shows "store_ok s'"
  using assms(2)
proof (cases rule: addBlock_stages)
  case (added hash h txs items s1 s2 r')
  have "fresh_header h" using assms(3) BlockHeader_hash_Inr [OF added(1)] by (simp add: fresh_header_def)
  then have "store_ok s1"
    using added(6) assms(1)
      addBlockHeader_ok [OF assms(1) _ _ assms(4), of ops junk "Full (b\<lparr>b_header := h\<rparr>)" True s1] by (auto split: if_splits)
  then show ?thesis using addTxs_ok [OF _ added(7)] connect_ok [OF _ added(8)] by blast
qed (use assms(1) in simp)

section \<open>Runs\<close>

text \<open>
  The steps of a run: the calls of \<open>addBlockHeader\<close>, \<open>addTx\<close> and \<open>addBlock\<close> that return, and the tasks of the queue. Runs
  start from a store that \<open>chain_init\<close> gives. Loading a saved store (\<open>chain_load\<close>, which \<open>init\<close> calls) is not a
  step: it leaves \<open>_blockHashes\<close> empty, so what runs keep true does not hold after it; see
  \<open>connect_without_hashes\<close> below.
\<close>

inductive chain_steps :: "'h hasher \<Rightarrow> bytes \<Rightarrow> chain_state \<Rightarrow> chain_state \<Rightarrow> bool"
  for ops junk s0 where
  start: "chain_steps ops junk s0 s0"
| header: "chain_steps ops junk s0 s \<Longrightarrow> fresh_header (stored_header obj) \<Longrightarrow> Suc (count s) < 2 ^ 64 - 1 \<Longrightarrow>
    addBlockHeader ops junk obj s = Inr (r, s') \<Longrightarrow> chain_steps ops junk s0 s'"
| tx: "chain_steps ops junk s0 s \<Longrightarrow> addTx ops junk t s = Inr (r, s') \<Longrightarrow> chain_steps ops junk s0 s'"
| block: "chain_steps ops junk s0 s \<Longrightarrow> fresh_header (b_header b) \<Longrightarrow> Suc (count s) < 2 ^ 64 - 1 \<Longrightarrow>
    addBlock ops junk b s = Some (Inr (r, s')) \<Longrightarrow> chain_steps ops junk s0 s'"
| task: "chain_steps ops junk s0 s \<Longrightarrow> cs_tasks s = i # ts \<Longrightarrow>
    connectToAncestor_id ops junk i (s\<lparr>cs_tasks := ts\<rparr>) = Some (Inr (r, s')) \<Longrightarrow> chain_steps ops junk s0 s'"

lemma store_ok_updates [simp]: "store_ok (s\<lparr>cs_tasks := ts\<rparr>) = store_ok s"
  by (simp add: store_ok_def)

lemma chain_steps_ok: "chain_steps ops junk s0 s \<Longrightarrow> store_ok s0 \<Longrightarrow> store_ok s"
proof (induction rule: chain_steps.induct)
  case (header s obj r s')
  then show ?case using addBlockHeader_ok by blast
next
  case (tx s t r s')
  then show ?case using addTx_ok by blast
next
  case (block s b r s')
  then show ?case using addBlock_ok by blast
next
  case (task s i ts r s')
  then show ?case using connect_id_ok [of "s\<lparr>cs_tasks := ts\<rparr>"] by simp
qed

section \<open>Orphans\<close>

text \<open>Without waiting orphans every call returns, once there is a first block.\<close>

lemma connect_id_returns:
  assumes "store_ok s" and "cs_mainChain s \<noteq> []" and "cs_orphans s = []"
  shows "connectToAncestor_id ops junk i s \<noteq> None \<and>
    (\<forall>r s'. connectToAncestor_id ops junk i s = Some (Inr (r, s')) \<longrightarrow> cs_mainChain s' \<noteq> [] \<and> cs_orphans s' = [])"
proof (cases "i < count s")
  case True
  have child: "connectToAncestor_id ops junk i s = connect_child ops junk i s"
    using True assms(2) by (simp add: connectToAncestor_id_def getBlockHeader_id_def getHeight_0 [OF assms(1)])
  consider "\<not> (\<exists>q. joins s i q)" | q where "joins s i q" "inChain (hdr s i)" | q where "joins s i q" "\<not> inChain (hdr s i)"
    by blast
  then show ?thesis
  proof cases
    case 1
    then show ?thesis using connect_child_waits [OF assms(1) 1, of ops junk] child assms by simp
  next
    case 2
    then show ?thesis using connect_child_again [OF assms(1) 2, of ops junk] child by simp
  next
    case 3
    obtain mc where "length mc = max (length (cs_mainChain s)) (Suc (Suc (ht s q)))"
      "connect_child ops junk i s =
      (case remove_orphan i (equal_range (bh_prev (hdr s i)) s) (bh_prev (hdr s i)) (raised i (Suc (ht s q)) s) of
         None \<Rightarrow> None
       | Some s1 \<Rightarrow>
           if equal_range (bh_hash (hdr s i)) s1 = [] then Some (Inr (True, s1\<lparr>cs_mainChain := mc\<rparr>)) else None)"
      using connect_child_joins [OF assms(1) True assms(2) 3, of ops junk] by blast
    moreover have "equal_range k s = []" "equal_range k (raised i n s) = []" for k n
      using assms(3) by (simp_all add: equal_range_def)
    moreover have "mc \<noteq> []" using calculation(1) by auto
    ultimately show ?thesis using child assms(3) by (simp add: remove_orphan_Nil)
  qed
next
  case False
  then show ?thesis using assms by (simp add: connectToAncestor_id_def getBlockHeader_id_def)
qed

text \<open>With an orphan that waits for the genesis block no call that connects this block returns.\<close>

definition stalled :: "blob \<Rightarrow> chain_state \<Rightarrow> bool" where
  "stalled genesis s \<longleftrightarrow> store_ok s \<and> cs_genesis s = genesis \<and> cs_mainChain s = [] \<and> (\<exists>i. (genesis, i) \<in> set (cs_orphans s))"

lemma equal_range_in: "(k, i) \<in> set (cs_orphans s) \<Longrightarrow> equal_range k s \<noteq> []"
  by (force simp: equal_range_def filter_empty_conv)

lemma stalled_connect:
  assumes "stalled genesis s" and "connectToAncestor_id ops junk i s = Some (Inr (r, s'))"
  shows "stalled genesis s'"
proof (cases "i < count s")
  case True
  have s: "store_ok s" "cs_mainChain s = []" using assms(1) by (simp_all add: stalled_def)
  obtain j where j: "(cs_genesis s, j) \<in> set (cs_orphans s)" using assms(1) by (auto simp: stalled_def)
  have eq: "connect_genesis ops junk i s = Some (Inr (r, s'))"
    using assms(2) True s by (simp add: connectToAncestor_id_def getBlockHeader_id_def getHeight_def)
  then have "s' = s\<lparr>cs_orphans := (bh_prev (hdr s i), i) # cs_orphans s\<rparr>"
    using connect_genesis_eq [OF s(1) True s(2), of ops junk] equal_range_in [OF j] by (auto split: if_splits)
  then show ?thesis using connect_genesis_ok [OF s(1) True s(2) eq] s(2) j assms(1) by (auto simp: stalled_def)
qed (use assms in \<open>simp add: connectToAncestor_id_def getBlockHeader_id_def\<close>)

lemma addBlockHeader_orphans:
  "addBlockHeader ops junk obj s = Inr (r, s') \<Longrightarrow> cs_orphans s' = cs_orphans s \<and> cs_genesis s' = cs_genesis s"
  by (erule addBlockHeader_cases) simp_all

lemma addBlock_parts:
  assumes "store_ok s" and "fresh_header (b_header b)" and "Suc (count s) < 2 ^ 64 - 1"
    and "addBlock ops junk b s = Some (Inr (r, s'))"
  shows "s' = s \<or> (\<exists>s2 i r'. store_ok s2 \<and> cs_mainChain s2 = cs_mainChain s \<and> cs_orphans s2 = cs_orphans s \<and>
    cs_genesis s2 = cs_genesis s \<and> connectToAncestor_id ops junk i s2 = Some (Inr (r', s')))"
  using assms(4)
proof (cases rule: addBlock_stages)
  case (added hash h txs items s1 s2 r')
  have "fresh_header h" using assms(2) BlockHeader_hash_Inr [OF added(1)] by (simp add: fresh_header_def)
  then have "store_ok s1 \<and> cs_mainChain s1 = cs_mainChain s \<and> cs_orphans s1 = cs_orphans s \<and> cs_genesis s1 = cs_genesis s"
    using added(6) assms(1)
      addBlockHeader_ok [OF assms(1) _ _ assms(3), of ops junk "Full (b\<lparr>b_header := h\<rparr>)" True s1] addBlockHeader_orphans [of ops junk _ s True s1]
    by (auto split: if_splits)
  then have "store_ok s2 \<and> cs_mainChain s2 = cs_mainChain s \<and> cs_orphans s2 = cs_orphans s \<and> cs_genesis s2 = cs_genesis s"
    using addTxs_ok [OF _ added(7)] by auto
  moreover obtain i where "connectToAncestor_id ops junk i s2 = Some (Inr (r', s'))"
    using added(8) by (auto simp: connectToAncestor_def split: option.splits)
  ultimately show ?thesis by blast
qed simp

lemma stalled_steps: "chain_steps ops junk s0 s \<Longrightarrow> stalled genesis s0 \<Longrightarrow> stalled genesis s"
proof (induction rule: chain_steps.induct)
  case (header s obj r s')
  have s: "stalled genesis s" by (rule header.IH [OF header.prems])
  then show ?case
    using addBlockHeader_ok [OF _ header(4) header(2,3)] addBlockHeader_orphans [OF header(4)] by (simp add: stalled_def)
next
  case (tx s t r s')
  have s: "stalled genesis s" by (rule tx.IH [OF tx.prems])
  then show ?case using addTx_ok [OF _ tx(2)] by (simp add: stalled_def)
next
  case (block s b r s')
  have s: "stalled genesis s" by (rule block.IH [OF block.prems])
  then have "store_ok s" by (simp add: stalled_def)
  from addBlock_parts [OF this block(2-4)] show ?case
  proof (elim disjE exE conjE)
    fix s2 i r'
    assume s2: "store_ok s2" "cs_mainChain s2 = cs_mainChain s" "cs_orphans s2 = cs_orphans s" "cs_genesis s2 = cs_genesis s"
      and c: "connectToAncestor_id ops junk i s2 = Some (Inr (r', s'))"
    have "stalled genesis s2" using s s2 by (simp add: stalled_def)
    then show "stalled genesis s'" using c by (rule stalled_connect)
  qed (use s in simp)
next
  case (task s i ts r s')
  have "stalled genesis (s\<lparr>cs_tasks := ts\<rparr>)" using task.IH [OF task.prems] by (simp add: stalled_def)
  then show ?case using stalled_connect [OF _ task(3)] by simp
qed simp

section \<open>Adding a connected block again\<close>

lemma addTxs_total: "addTxs ops junk txs s = Inr s' \<Longrightarrow> \<exists>t'. addTxs ops junk txs t = Inr t'"
proof (induction ops junk txs s arbitrary: t rule: addTxs.induct)
  case (3 ops junk tx txs s)
  obtain r s1 where s1: "addTx ops junk tx s = Inr (r, s1)" "addTxs ops junk txs s1 = Inr s'"
    using 3(2) by (auto simp: rbind_eq_Inr)
  obtain hash tx' where "Transaction_hash ops junk tx = Inr (hash, tx')" using s1(1) by (auto simp: addTx_def rbind_eq_Inr)
  then have "\<exists>r' t1. addTx ops junk tx t = Inr (r', t1)"
    by (cases "hasTx hash t") (auto simp: addTx_def Let_def)
  then obtain r' t1 where "addTx ops junk tx t = Inr (r', t1)" by blast
  then show ?case using 3(1) [OF s1(1) refl s1(2), of t1] by auto
qed simp_all

lemma addBlock_again:
  assumes "store_ok s1" and "addBlock ops junk b s = Some (Inr (True, s1))"
    and "BlockHeader_hash ops junk (b_header b) = Inr (hash, h)"
    and "getBlockHeader hash s1 = Some p" and "inChain (hdr s1 p)" and "0 < ht s1 p"
  shows "addBlock ops junk b s1 = Some (Inl Abort)"
  using assms(2)
proof (cases rule: addBlock_stages)
  case (added hash' h' txs items s2 s3 r')
  have h: "hash' = hash" "h' = h" using added(1) assms(3) by simp_all
  have p: "cs_blockIds s1 hash = Some p" "p < count s1"
    using assms(4) by (auto simp: getBlockHeader_def getBlockHeader_id_def split: option.splits if_splits)
  have "connected s1 p" using assms(1,5) p by (simp add: store_ok_def)
  then obtain q where q: "joins s1 p q" using assms(6) by (auto simp: connected_def joins_def)
  obtain t where t: "addTxs ops junk txs s1 = Inr t" using addTxs_total [OF added(7)] by blast
  have ok: "store_ok t" "cs_blocks t = cs_blocks s1" "cs_blockIds t = cs_blockIds s1" "cs_mainChain t = cs_mainChain s1"
    "cs_genesis t = cs_genesis s1"
    using addTxs_ok [OF assms(1) t] by simp_all
  note same = same_tree [OF ok(2,3,5)]
  have "joins t p q" "inChain (hdr t p)" using q assms(5) same by (simp_all add: joins_def)
  then have "connect_child ops junk p t = Some (Inl Abort)" by (rule connect_child_again [OF ok(1)])
  moreover have "cs_mainChain t \<noteq> []" using assms(1,5) p ok(4) by (auto simp: store_ok_def)
  ultimately have "connectToAncestor ops junk hash t = Some (Inl Abort)"
    using p ok by (simp add: connectToAncestor_def connectToAncestor_id_def getBlockHeader_id_def getHeight_0)
  moreover have "hasBlockHeader hash s1" using p by (simp add: hasBlockHeader_def)
  ultimately show ?thesis
    using added(2-4) assms(3) h t by (simp add: addBlock_def block_txs_def)
qed simp

section \<open>Lists of headers\<close>

lemma collect_eq:
  "length xs \<le> 1001 \<Longrightarrow> collect get hash stopHash height xs =
     (if isNull hash \<or> hash = stopHash then xs else xs @ replicate (1001 - length xs) (get hash))"
proof (induction "1001 - length xs" arbitrary: xs height)
  case 0
  then show ?case by (simp add: collect.simps)
next
  case (Suc n)
  have n: "1000 - length xs = n" using Suc(2) by simp
  with Suc have "collect get hash stopHash (height + 1) (xs @ [get hash]) =
      (if isNull hash \<or> hash = stopHash then xs @ [get hash] else (xs @ [get hash]) @ replicate n (get hash))"
    using Suc(1) [of "xs @ [get hash]" "height + 1"] by simp
  moreover have "replicate (1001 - length xs) (get hash) = get hash # replicate n (get hash)"
    using Suc(2) by (metis replicate_Suc)
  ultimately show ?case using Suc by (subst collect.simps) auto
qed

section \<open>The block locator\<close>

text \<open>How far below the tip the entry \<open>i\<close> of a locator lies.\<close>

definition locator_offset :: "nat \<Rightarrow> nat" where
  "locator_offset i = (if i < 10 then i else 8 + 2 ^ (i - 9))"

definition locator_step :: "nat \<Rightarrow> nat" where
  "locator_step i = (if i \<le> 10 then 1 else 2 ^ (i - 10))"

lemma locator_offset_Suc: "locator_offset (Suc i) = locator_offset i + locator_step (Suc i)"
proof -
  consider "i < 9" | "i = 9" | "10 \<le> i" by linarith
  then show ?thesis
  proof cases
    case 3
    then have "Suc i - 9 = Suc (i - 9)" "Suc i - 10 = i - 9" by simp_all
    then show ?thesis using 3 by (simp add: locator_offset_def locator_step_def)
  qed (simp_all add: locator_offset_def locator_step_def)
qed

lemma locator_step_Suc: "locator_step (Suc i) = (if 10 \<le> i then 2 * locator_step i else locator_step i)"
proof (cases "10 \<le> i")
  case True
  then have "Suc i - 10 = Suc (i - 10)" by simp
  then show ?thesis using True by (simp add: locator_step_def)
qed (simp add: locator_step_def)

lemma locator_loop_spec:
  assumes "n < 2 ^ 64" and "\<And>k. k \<le> n \<Longrightarrow> getBlockHash (word_of_nat k) s = Inr (hash_at k)"
  shows "length loc = 73 - d \<Longrightarrow> d \<le> 73 \<Longrightarrow>
    \<exists>m > length loc. m \<le> 74 \<and> n \<le> locator_offset (m - 1) \<and> (\<forall>j. length loc \<le> j \<and> j < m - 1 \<longrightarrow> locator_offset j < n) \<and>
      locator_loop s (word_of_nat (n - locator_offset (length loc))) (word_of_nat (locator_step (length loc))) loc =
        Some (Inr (loc @ map (\<lambda>j. hash_at (n - locator_offset j)) [length loc..<m]))"
proof (induction d arbitrary: loc)
  case 0
  then have l: "length loc = 73" by simp
  have "locator_offset 73 = 8 + 2 ^ 64" by (simp add: locator_offset_def)
  then have "n - locator_offset 73 = 0" "n \<le> locator_offset 73" using assms(1) by simp_all
  moreover have "getBlockHash 0 s = Inr (hash_at 0)" using assms(2) [of 0] by simp
  ultimately have "locator_loop s (word_of_nat (n - locator_offset (length loc))) (word_of_nat (locator_step (length loc))) loc =
      Some (Inr (loc @ [hash_at 0]))"
    by (subst locator_loop.simps) (simp add: l)
  then show ?case using l \<open>n - locator_offset 73 = 0\<close> \<open>n \<le> locator_offset 73\<close>
    by (intro exI [of _ 74]) (auto simp: upt_rec)
next
  case (Suc d)
  let ?i = "length loc" and ?off = "locator_offset (length loc)"
  have i: "?i < 73" using Suc.prems by simp
  have hash: "getBlockHash (word_of_nat (n - ?off)) s = Inr (hash_at (n - ?off))" by (rule assms(2)) simp
  have small: "unat (word_of_nat (n - ?off) :: 64 word) = n - ?off" using assms(1) by (intro unat_word_of_length) simp
  show ?case
  proof (cases "n \<le> ?off")
    case True
    have "locator_loop s (word_of_nat (n - ?off)) (word_of_nat (locator_step ?i)) loc = Some (Inr (loc @ [hash_at (n - ?off)]))"
      using hash True by (subst locator_loop.simps) simp
    then show ?thesis using True i by (intro exI [of _ "Suc ?i"]) auto
  next
    case False
    let ?loc = "loc @ [hash_at (n - ?off)]" and ?step = "locator_step (Suc ?i)"
    have "?step \<le> 2 ^ 63"
      using i by (auto simp: locator_step_def intro!: power_increasing [of _ 63 "2 :: nat", simplified])
    then have step: "unat (word_of_nat ?step :: 64 word) = ?step" by (intro unat_word_of_length) simp
    have nz: "word_of_nat (n - ?off) \<noteq> (0 :: 64 word)" using False small by (metis diff_is_0_eq unat_0)
    have next_step: "(if length ?loc > 10 then push_bit 1 (word_of_nat (locator_step ?i)) else word_of_nat (locator_step ?i)) =
        (word_of_nat ?step :: 64 word)"
      by (simp add: locator_step_Suc push_bit_eq_mult)
    have next_height: "(if word_of_nat (n - ?off) > (word_of_nat ?step :: 64 word)
        then word_of_nat (n - ?off) - word_of_nat ?step else 0) = (word_of_nat (n - locator_offset (Suc ?i)) :: 64 word)"
    proof (cases "n - ?off > ?step")
      case True
      then have "word_of_nat (n - ?off) > (word_of_nat ?step :: 64 word)"
        by (simp only: word_less_nat_alt small step)
      moreover have "word_of_nat (n - ?off) - word_of_nat ?step = (word_of_nat (n - ?off - ?step) :: 64 word)"
        using True by (simp add: of_nat_diff)
      ultimately show ?thesis by (simp add: locator_offset_Suc)
    next
      case False
      then have "\<not> word_of_nat (n - ?off) > (word_of_nat ?step :: 64 word)"
        by (simp only: word_less_nat_alt small step not_False_eq_True)
      then show ?thesis using False by (simp add: locator_offset_Suc)
    qed
    have "locator_loop s (word_of_nat (n - ?off)) (word_of_nat (locator_step ?i)) loc =
        locator_loop s (word_of_nat (n - locator_offset (Suc ?i))) (word_of_nat ?step) ?loc"
      by (subst locator_loop.simps) (simp only: hash sum.case nz if_False Let_def next_step next_height)
    moreover obtain m where "m > Suc ?i" "m \<le> 74" "n \<le> locator_offset (m - 1)"
      "\<forall>j. Suc ?i \<le> j \<and> j < m - 1 \<longrightarrow> locator_offset j < n"
      "locator_loop s (word_of_nat (n - locator_offset (Suc ?i))) (word_of_nat ?step) ?loc =
        Some (Inr (?loc @ map (\<lambda>j. hash_at (n - locator_offset j)) [Suc ?i..<m]))"
    proof -
      have len: "length ?loc = 73 - d" "d \<le> 73" and i': "length ?loc = Suc ?i" using Suc.prems by simp_all
      from Suc.IH [OF len, unfolded i'] show thesis using that by blast
    qed
    moreover have "[?i..<m] = ?i # [Suc ?i..<m]" using calculation(2) by (simp add: upt_conv_Cons)
    ultimately show ?thesis using False by (intro exI [of _ m]) (auto simp: le_eq_less_or_eq [of ?i])
  qed
qed

lemma getBlockHash_main:
  assumes "store_ok s" and "k < length (cs_mainChain s)"
  shows "getBlockHash (word_of_nat k) s = Inr (bh_hash (hdr s (cs_mainChain s ! k)))"
proof -
  have "length (cs_mainChain s) \<le> count s" "registered s" "count s < 2 ^ 64 - 1"
    using assms(1) branch_length [of s 0 "cs_mainChain s"] by (simp_all add: store_ok_def registered_def)
  then have "unat (word_of_nat k :: 64 word) = k" using assms(2) by (intro unat_word_of_length) simp
  moreover have "cs_mainChain s ! k < count s" using assms branch_nth [of s 0 "cs_mainChain s" k] by (simp add: store_ok_def)
  ultimately show ?thesis
    using assms(2) hash_id(2) [OF \<open>registered s\<close>] by (simp add: getBlockHash_def)
qed

section \<open>After the genesis block\<close>

text \<open>Without waiting orphans every call returns, and none appears.\<close>

definition live :: "chain_state \<Rightarrow> bool" where
  "live s \<longleftrightarrow> store_ok s \<and> cs_mainChain s \<noteq> [] \<and> cs_orphans s = []"

lemma obind_None: "obind m f = None \<longleftrightarrow> m = None \<or> (\<exists>x. m = Some (Inr x) \<and> f x = None)"
  by (auto simp: obind_def split: option.split sum.split)

lemma addBlock_hangs:
  assumes "store_ok s" and "fresh_header (b_header b)" and "Suc (count s) < 2 ^ 64 - 1" and "addBlock ops junk b s = None"
  shows "\<exists>s2 i. store_ok s2 \<and> cs_mainChain s2 = cs_mainChain s \<and> cs_orphans s2 = cs_orphans s \<and>
    connectToAncestor_id ops junk i s2 = None"
proof -
  obtain hash h where h: "BlockHeader_hash ops junk (b_header b) = Inr (hash, h)"
    using assms(4) by (cases "BlockHeader_hash ops junk (b_header b)") (auto simp: addBlock_def)
  let ?add = "if hasBlockHeader hash s then Inr s
    else rbind (addBlockHeader ops junk (Full (b\<lparr>b_header := h\<rparr>)) s) (\<lambda>(_, s). Inr s)"
  obtain s1 s2 where s: "?add = Inr s1" "rbind (block_txs b) (\<lambda>txs. addTxs ops junk txs s1) = Inr s2"
    "connectToAncestor ops junk hash s2 = None"
    using assms(4) h unfolding addBlock_def
    by (auto simp: obind_None split: if_splits cong del: rbind_cong)
  obtain txs where txs: "addTxs ops junk txs s1 = Inr s2" using s(2) by (auto simp: rbind_eq_Inr)
  have "fresh_header h" using assms(2) BlockHeader_hash_Inr [OF h] by (simp add: fresh_header_def)
  then have "store_ok s1 \<and> cs_mainChain s1 = cs_mainChain s \<and> cs_orphans s1 = cs_orphans s"
    using s(1) assms(1) addBlockHeader_ok [OF assms(1) _ _ assms(3), of ops junk "Full (b\<lparr>b_header := h\<rparr>)"]
      addBlockHeader_orphans [of ops junk _ s]
    by (auto simp: rbind_eq_Inr split: if_splits)
  then have "store_ok s2 \<and> cs_mainChain s2 = cs_mainChain s \<and> cs_orphans s2 = cs_orphans s"
    using addTxs_ok [OF _ txs] by auto
  moreover obtain i where "connectToAncestor_id ops junk i s2 = None"
    using s(3) by (auto simp: connectToAncestor_def split: option.splits)
  ultimately show ?thesis by blast
qed

lemma live_addBlock:
  assumes "live s" and "fresh_header (b_header b)" and "Suc (count s) < 2 ^ 64 - 1"
  shows "addBlock ops junk b s \<noteq> None \<and> (\<forall>r s'. addBlock ops junk b s = Some (Inr (r, s')) \<longrightarrow> live s')"
proof -
  have s: "store_ok s" "cs_mainChain s \<noteq> []" "cs_orphans s = []" using assms(1) by (simp_all add: live_def)
  have "addBlock ops junk b s \<noteq> None"
    using addBlock_hangs [OF s(1) assms(2,3), of ops junk] connect_id_returns [of _ ops junk] s(2,3) by metis
  moreover have "live s'" if r: "addBlock ops junk b s = Some (Inr (r, s'))" for r s'
    using addBlock_parts [OF s(1) assms(2,3) r] addBlock_ok [OF s(1) r assms(2,3)] s connect_id_returns [of _ ops junk]
    unfolding live_def by metis
  ultimately show ?thesis by blast
qed

lemma live_steps: "chain_steps ops junk s0 s \<Longrightarrow> live s0 \<Longrightarrow> live s"
proof (induction rule: chain_steps.induct)
  case (header s obj r s')
  have s: "live s" by (rule header.IH [OF header.prems])
  then show ?case
    using addBlockHeader_ok [OF _ header(4) header(2,3)] addBlockHeader_orphans [OF header(4)] by (simp add: live_def)
next
  case (tx s t r s')
  have s: "live s" by (rule tx.IH [OF tx.prems])
  then show ?case using addTx_ok [OF _ tx(2)] by (simp add: live_def)
next
  case (block s b r s')
  then show ?case using live_addBlock [OF block.IH [OF block.prems] block(2,3)] by blast
next
  case (task s i ts r s')
  then have s: "store_ok (s\<lparr>cs_tasks := ts\<rparr>)" "cs_mainChain (s\<lparr>cs_tasks := ts\<rparr>) \<noteq> []" "cs_orphans (s\<lparr>cs_tasks := ts\<rparr>) = []"
    by (simp_all add: live_def)
  show ?case using connect_id_returns [OF s, of ops junk i] connect_id_ok [OF s(1) task(3)] task(3) by (auto simp: live_def)
qed simp

section \<open>After loading\<close>

lemma load_blocks_hashes:
  "load_blocks ops junk hs s = Inr s' \<Longrightarrow> cs_blockHashes s' = cs_blockHashes s \<and> cs_mainChain s' = cs_mainChain s"
proof (induction hs arbitrary: s)
  case (Cons h hs)
  then obtain s1 where s1: "load_block ops junk h s = Inr s1" "load_blocks ops junk hs s1 = Inr s'" by (auto simp: rbind_eq_Inr)
  have "cs_blockHashes s1 = cs_blockHashes s \<and> cs_mainChain s1 = cs_mainChain s"
    using s1(1) by (auto simp: load_block_def rbind_eq_Inr Let_def)
  then show ?case using Cons.IH [OF s1(2)] by simp
qed simp

lemma load_txs_hashes:
  "load_txs ops junk ts s = Inr s' \<Longrightarrow> cs_blockHashes s' = cs_blockHashes s \<and> cs_mainChain s' = cs_mainChain s"
proof (induction ts arbitrary: s)
  case (Cons t ts)
  then obtain s1 where s1: "load_tx ops junk t s = Inr s1" "load_txs ops junk ts s1 = Inr s'" by (auto simp: rbind_eq_Inr)
  have "cs_blockHashes s1 = cs_blockHashes s \<and> cs_mainChain s1 = cs_mainChain s"
    using s1(1) by (auto simp: load_tx_def rbind_eq_Inr Let_def)
  then show ?case using Cons.IH [OF s1(2)] by simp
qed simp

lemma chain_load_hashes:
  "chain_load ops junk file s = Inr s' \<Longrightarrow> cs_blockHashes s' = cs_blockHashes s \<and> cs_mainChain s' = cs_mainChain s"
  by (auto simp: chain_load_def rbind_eq_Inr dest!: load_blocks_hashes load_txs_hashes)

lemma connect_without_hashes:
  assumes "cs_blockHashes s = Map.empty" and "cs_mainChain s = []"
    and "connectToAncestor ops junk hash s = Some (Inr (True, s'))"
  shows "getTopBlockHash s' = Inl Abort"
proof -
  obtain p where "connect_genesis ops junk p s = Some (Inr (True, s'))"
    using assms(2,3) by (auto simp: connectToAncestor_def connectToAncestor_id_def getHeight_def split: option.splits)
  then obtain t where "place_genesis ops junk p s = Inr (True, t)" "descendants ops junk (Some p) t = Some (Inr (True, s'))"
    unfolding connect_genesis_def obind_Some by (auto simp: obind_Some split: if_splits)
  then obtain s1 h hash' where s1: "header_hash ops junk p s = Inr (hash', s1)"
    "descendants ops junk (Some p) ((set_hdr p h s1)\<lparr>cs_mainChain := cs_mainChain s1 @ [p]\<rparr>) = Some (Inr (True, s'))"
    by (auto simp: place_genesis_def rbind_eq_Inr split: if_splits)
  have "cs_blockHashes s1 = Map.empty \<and> cs_mainChain s1 = []"
    using s1(1) assms(1,2) by (auto simp: header_hash_def rbind_eq_Inr)
  then show ?thesis
    using s1(2) by (auto simp: descendants_def obind_Some header_hash_def rbind_eq_Inr getTopBlockHash_def getHeight_def
        getBlockHash_def enqueue_waiting split: if_splits)
qed

end
