(* ===== verification/StoreProps.thy ===== *)
theory StoreProps
  imports BlockStoreRun
begin

text \<open>
  The registries of the block store as instances of their common interface, and the properties of the
  store, with runs on small chains.
\<close>

section \<open>Blocks and transactions as registries\<close>

abbreviation sha :: "CSHA256 hasher" where
  "sha \<equiv> CSHA256 (replicate 64 0)"

abbreviation zeros :: bytes where
  "zeros \<equiv> replicate 64 0"

definition header_key :: "block_header \<Rightarrow> blob" where
  "header_key h = (if bh_validHash h then bh_hash h else fips_SHA256 (fips_SHA256 (ser_BlockHeader h)))"

definition tx_key :: "transaction \<Rightarrow> blob" where
  "tx_key t = (if tx_validHash t then tx_hash t else fips_SHA256 (fips_SHA256 (ser_Transaction t)))"

lemma sha_size: "OUTPUT_SIZE (CSHA256 junk) = 32"
  by (simp add: CSHA256_def)

lemma BlockHeader_hash_key:
  "BlockHeader_hash sha zeros h = Inr (header_key h, h\<lparr>bh_hash := header_key h, bh_validHash := True\<rparr>)"
  using hasher_contract.BlockHeader_hash_digest [OF CSHA256_contract sha_size, of zeros zeros h]
  by (simp add: header_key_def BlockHeader_hash_def)

lemma Transaction_hash_key:
  "Transaction_hash sha zeros t = Inr (tx_key t, t\<lparr>tx_hash := tx_key t, tx_validHash := True\<rparr>)"
  using hasher_contract.Transaction_hash_digest [OF CSHA256_contract sha_size, of zeros zeros t]
  by (simp add: tx_key_def Transaction_hash_def)

definition add_header :: "stored \<Rightarrow> chain_state \<Rightarrow> bool \<times> chain_state" where
  "add_header x s = (case addBlockHeader sha zeros x s of Inr r \<Rightarrow> r | Inl e \<Rightarrow> (False, s))"

definition add_transaction :: "transaction \<Rightarrow> chain_state \<Rightarrow> bool \<times> chain_state" where
  "add_transaction t s = (case addTx sha zeros t s of Inr r \<Rightarrow> r | Inl e \<Rightarrow> (False, s))"

lemma find_reg:
  assumes "reg_ok key xs ids hashes"
  shows "(case ids k of None \<Rightarrow> None | Some i \<Rightarrow> if i < length xs then Some i else None) = Some i \<longleftrightarrow>
    i < length xs \<and> key (xs ! i) = k"
  using reg_okD(1) [OF assms, of i] reg_okD(2) [OF assms, of k] by (auto split: option.splits)

interpretation blocks: registry "\<lambda>x. header_key (stored_header x)" cs_blocks getBlockHeader hasBlockHeader store_ok
  "\<lambda>x s. fresh_header (stored_header x) \<and> Suc (count s) < 2 ^ 64 - 1" add_header
proof (unfold_locales, goal_cases)
  case (1 s k i)
  have key: "header_key (stored_header (cs_blocks s ! i)) = stored_hash (cs_blocks s ! i)" if "i < count s"
    using 1 that by (simp add: store_ok_def registered_def header_key_def hdr_def)
  have "getBlockHeader k s = Some i \<longleftrightarrow> i < count s \<and> stored_hash (cs_blocks s ! i) = k"
    unfolding getBlockHeader_def getBlockHeader_id_def
    by (rule find_reg [of stored_hash "cs_blocks s" "cs_blockIds s" "cs_blockHashes s"]) (use 1 in \<open>simp add: store_ok_def registered_def\<close>)
  with key show ?case by auto
next
  case (2 s k)
  then show ?case
    using reg_okD(2) [of stored_hash "cs_blocks s" "cs_blockIds s" "cs_blockHashes s" k]
    by (auto simp: store_ok_def registered_def hasBlockHeader_def getBlockHeader_def getBlockHeader_id_def split: option.splits)
next
  case (3 s x)
  then show ?case by (simp add: add_header_def addBlockHeader_def BlockHeader_hash_key)
next
  case (4 s x)
  let ?h = "(stored_header x)\<lparr>bh_hash := header_key (stored_header x), bh_validHash := True, bh_id := word_of_nat (count s)\<rparr>"
  have "\<exists>s'. addBlockHeader sha zeros x s = Inr (True, s') \<and> cs_blocks s' = cs_blocks s @ [with_header ?h x]"
    using 4 by (simp add: addBlockHeader_def BlockHeader_hash_key setId_def fresh_header_def Let_def)
  then obtain s' where s': "addBlockHeader sha zeros x s = Inr (True, s')" "cs_blocks s' = cs_blocks s @ [with_header ?h x]"
    by blast
  moreover have "store_ok s'" using addBlockHeader_ok [OF 4(1) s'(1)] 4(2) by simp
  ultimately show ?case by (simp add: add_header_def header_key_def)
qed

interpretation txs: registry tx_key cs_txs getTx hasTx store_ok "\<lambda>x s. True" add_transaction
proof (unfold_locales, goal_cases)
  case (1 s k i)
  have key: "tx_key (cs_txs s ! i) = tx_hash (cs_txs s ! i)" if "i < length (cs_txs s)"
    using 1 that by (simp add: store_ok_def registered_def tx_key_def)
  have "getTx k s = Some i \<longleftrightarrow> i < length (cs_txs s) \<and> tx_hash (cs_txs s ! i) = k"
    unfolding getTx_def getTx_id_def
    by (rule find_reg [of tx_hash "cs_txs s" "cs_txIds s" "cs_txHashes s"]) (use 1 in \<open>simp add: store_ok_def registered_def\<close>)
  with key show ?case by auto
next
  case (2 s k)
  then show ?case
    using reg_okD(2) [of tx_hash "cs_txs s" "cs_txIds s" "cs_txHashes s" k]
    by (auto simp: store_ok_def registered_def hasTx_def getTx_def getTx_id_def split: option.splits)
next
  case (3 s x)
  then show ?case by (simp add: add_transaction_def addTx_def Transaction_hash_key)
next
  case (4 s x)
  then have "\<exists>s'. addTx sha zeros x s = Inr (True, s') \<and> cs_txs s' = cs_txs s @ [x\<lparr>tx_hash := tx_key x, tx_validHash := True\<rparr>]"
    by (simp add: addTx_def Transaction_hash_key Let_def)
  then obtain s' where s': "addTx sha zeros x s = Inr (True, s')"
    "cs_txs s' = cs_txs s @ [x\<lparr>tx_hash := tx_key x, tx_validHash := True\<rparr>]" by blast
  moreover have "store_ok s'" using addTx_ok [OF 4(1) s'(1)] by simp
  ultimately show ?case by (simp add: add_transaction_def tx_key_def)
qed

section \<open>Small chains\<close>

text \<open>
  Blocks without transactions, whose hash is cached: \<open>chain1\<close> holds the genesis block and \<open>chain2\<close> a
  second block above it.
\<close>

definition small_header :: "byte \<Rightarrow> blob \<Rightarrow> block_header" where
  "small_header n prev = BlockHeader_new\<lparr>bh_prev := prev, bh_hash := replicate 32 n, bh_validHash := True\<rparr>"

definition small_block :: "byte \<Rightarrow> blob \<Rightarrow> block" where
  "small_block n prev = \<lparr>b_header = small_header n prev, b_txList = Some []\<rparr>"

definition small_stored :: "nat \<Rightarrow> byte \<Rightarrow> blob \<Rightarrow> 64 word \<Rightarrow> stored" where
  "small_stored i n prev height =
     with_header ((small_header n prev)\<lparr>bh_id := word_of_nat i, bh_height := height\<rparr>) (Full (small_block n prev))"

abbreviation key :: "byte \<Rightarrow> blob" where
  "key n \<equiv> replicate 32 n"

abbreviation chain0 :: chain_state where
  "chain0 \<equiv> chain_init (key 1)"

definition chain1 :: chain_state where
  "chain1 = chain0\<lparr>cs_blocks := [small_stored 0 1 (key 0) 0], cs_blockIds := [key 1 \<mapsto> 0], cs_blockHashes := [0 \<mapsto> key 1],
     cs_mainChain := [0]\<rparr>"

definition chain2 :: chain_state where
  "chain2 = chain0\<lparr>cs_blocks := [small_stored 0 1 (key 0) 0, small_stored 1 2 (key 1) 1],
     cs_blockIds := [key 1 \<mapsto> 0, key 2 \<mapsto> 1], cs_blockHashes := [0 \<mapsto> key 1, 1 \<mapsto> key 2], cs_mainChain := [0, 1]\<rparr>"

lemma small_simps [simp]:
  "bh_hash (small_header n prev) = key n" "bh_prev (small_header n prev) = prev" "bh_validHash (small_header n prev)"
  "bh_id (small_header n prev) = - 1" "bh_height (small_header n prev) = - 1" "bh_merkle (small_header n prev) = key 0"
  "b_header (small_block n prev) = small_header n prev" "b_txList (small_block n prev) = Some []"
  "stored_header (small_stored i n prev height) = (small_header n prev)\<lparr>bh_id := word_of_nat i, bh_height := height\<rparr>"
  "fresh_header (small_header n prev)"
  "(small_header n prev)\<lparr>bh_id := w, bh_height := - 1\<rparr> = (small_header n prev)\<lparr>bh_id := w\<rparr>"
  by (simp_all add: small_header_def small_block_def small_stored_def BlockHeader_new_def blob_null_def fresh_header_def)

lemma no_items_root: "MerkleRoot sha zeros [] = Inr (key 0)"
  using hasher_contract.MerkleRoot_tree [OF CSHA256_contract sha_size, of zeros zeros "[]"]
  by (simp add: tree_root.simps blob_null_def)

lemma addBlock_small:
  assumes "\<not> hasBlockHeader (key n) s"
  shows "addBlock sha zeros (small_block n prev) s =
    obind (connectToAncestor sha zeros (key n)
      (s\<lparr>cs_blockIds := (cs_blockIds s)(key n \<mapsto> count s), cs_blocks := cs_blocks s @ [small_stored (count s) n prev (- 1)],
        cs_blockHashes := map_emplace (count s) (key n) (cs_blockHashes s)\<rparr>)) (\<lambda>(_, s). Some (Inr (True, s)))"
  using assms
  by (simp add: addBlock_def BlockHeader_hash_def block_txs_def no_items_root addBlockHeader_def setId_def obind_def
      small_stored_def map_emplace_def hasBlockHeader_def small_block_def Let_def rbind_def)

lemmas run_simps = connectToAncestor_def connectToAncestor_id_def connect_genesis_def place_genesis_def connect_child_def header_hash_def
  descendants_def choose_chain_def getBlockHeader_id_def getBlockHeader_def getHeight_def obind_def setHeight_def hdr_def set_hdr_def
  hasBlockHeader_def map_emplace_def equal_range_def enqueue_orphans.simps remove_orphan.simps climb.simps retract.simps
  getTopBlockHeader_def inChain_def BlockHeader_hash_def chain_init_def Let_def

lemma chain1_step: "addBlock sha zeros (small_block 1 (key 0)) chain0 = Some (Inr (True, chain1))"
  by (subst addBlock_small) (simp_all add: run_simps small_stored_def chain1_def isNull_def)

lemma chain2_step: "addBlock sha zeros (small_block 2 (key 1)) chain1 = Some (Inr (True, chain2))"
  by (subst addBlock_small) (simp_all add: run_simps small_stored_def chain1_def chain2_def isNull_def)

lemma chain2_reached: "chain_steps sha zeros chain0 chain2" "chain_steps sha zeros chain0 chain1"
proof -
  show "chain_steps sha zeros chain0 chain1"
    by (rule chain_steps.block [OF chain_steps.start _ _ chain1_step]) (simp_all add: chain_init_def)
  then show "chain_steps sha zeros chain0 chain2"
    by (rule chain_steps.block [OF _ _ _ chain2_step]) (simp_all add: chain1_def)
qed

text \<open>C3: in every state that the adding operations and the tasks of the store can reach from a fresh store (loading a saved
  store is not a step), the main chain runs from the genesis
  block upwards, every block naming the hash of the one below; \<open>getBlockHash\<close> gives the hashes along
  it; looking up a hash finds exactly the stored header with that hash; and no connected block is
  higher than the tip.\<close>

theorem reachable_chain:
  assumes "chain_steps ops junk (chain_init genesis) s"
  shows "(\<forall>k < length (cs_mainChain s).
      getBlockHash (word_of_nat k) s = Inr (bh_hash (hdr s (cs_mainChain s ! k))) \<and>
      bh_height (hdr s (cs_mainChain s ! k)) = word_of_nat k \<and>
      (if k = 0 then bh_hash (hdr s (cs_mainChain s ! k)) = cs_genesis s
       else bh_prev (hdr s (cs_mainChain s ! k)) = bh_hash (hdr s (cs_mainChain s ! (k - 1))))) \<and>
    (\<forall>hash p. getBlockHeader hash s = Some p \<longleftrightarrow> p < count s \<and> bh_hash (hdr s p) = hash) \<and>
    (\<forall>p < count s. inChain (hdr s p) \<longrightarrow> unat (bh_height (hdr s p)) < length (cs_mainChain s))"
proof -
  have ok: "store_ok s" using chain_steps_ok [OF assms] store_ok_init by blast
  then have reg: "reg_ok stored_hash (cs_blocks s) (cs_blockIds s) (cs_blockHashes s)" "count s < 2 ^ 64 - 1"
    and b: "branch s 0 (cs_mainChain s)"
    and conn: "i < count s \<Longrightarrow> inChain (hdr s i) \<Longrightarrow> connected s i" for i
    by (auto simp: store_ok_def registered_def)
  have "getBlockHeader hash s = Some p \<longleftrightarrow> p < count s \<and> bh_hash (hdr s p) = hash" for hash p
    unfolding getBlockHeader_def getBlockHeader_id_def hdr_def using reg(1) by (rule find_reg)
  moreover have "bh_height (hdr s (cs_mainChain s ! k)) = word_of_nat k" "ht s (cs_mainChain s ! k) = k"
    if "k < length (cs_mainChain s)" for k
  proof -
    have "k < 2 ^ 64" using that branch_length [OF b] reg(2) by simp
    then show "ht s (cs_mainChain s ! k) = k" "bh_height (hdr s (cs_mainChain s ! k)) = word_of_nat k"
      using branch_nth [OF b that] by (auto simp: ht_def unat_word_of_length intro!: word_unat_eq_iff [THEN iffD2])
  qed
  moreover have "bh_hash (hdr s (cs_mainChain s ! 0)) = cs_genesis s" if "0 < length (cs_mainChain s)"
    using branch_nth [OF b that] conn [of "cs_mainChain s ! 0"] by (auto simp: connected_def)
  moreover have "bh_prev (hdr s (cs_mainChain s ! k)) = bh_hash (hdr s (cs_mainChain s ! (k - 1)))"
    if "k < length (cs_mainChain s)" "k \<noteq> 0" for k
  proof -
    have "parent s (cs_mainChain s ! k) = Some (cs_mainChain s ! (k - 1))" using branch_parent [OF b that] .
    then show ?thesis using reg_okD(2) [OF reg(1)] by (auto simp: parent_def hdr_def)
  qed
  ultimately show ?thesis using getBlockHash_main [OF ok] ok by (auto simp: store_ok_def ht_def)
qed

theorem reachable_chain_witness:
  "getBlockHash 1 chain2 = Inr (key 2) \<and> getBlockHeader (key 2) chain2 = Some 1"
  using reachable_chain [OF chain2_reached(1)] by (simp add: chain2_def hdr_def All_less_Suc2 chain_init_def)

text \<open>C20: the stores of headers and transactions. Adding a header to a store that a run has reached makes
  its hash findable, keeps every position that lookups gave before, and a second add of the same
  header changes nothing; likewise for transactions.\<close>

theorem store_lookup:
  assumes "chain_steps ops junk (chain_init genesis) s"
  shows "(fresh_header (stored_header x) \<and> Suc (count s) < 2 ^ 64 - 1 \<longrightarrow>
      (\<exists>r s'. addBlockHeader sha zeros x s = Inr (r, s') \<and> getBlockHeader (header_key (stored_header x)) s' \<noteq> None \<and>
        (\<forall>k p. getBlockHeader k s = Some p \<longrightarrow> getBlockHeader k s' = Some p \<and> cs_blocks s' ! p = cs_blocks s ! p) \<and>
        addBlockHeader sha zeros x s' = Inr (False, s'))) \<and>
    (\<exists>r s'. addTx sha zeros t s = Inr (r, s') \<and> getTx (tx_key t) s' \<noteq> None \<and>
        (\<forall>k p. getTx k s = Some p \<longrightarrow> getTx k s' = Some p \<and> cs_txs s' ! p = cs_txs s ! p) \<and>
        addTx sha zeros t s' = Inr (False, s'))"
proof (intro conjI impI)
  have ok: "store_ok s" using chain_steps_ok [OF assms] store_ok_init by blast
  { assume x: "fresh_header (stored_header x) \<and> Suc (count s) < 2 ^ 64 - 1"
    then have "\<exists>r s'. addBlockHeader sha zeros x s = Inr (r, s')"
      by (cases "hasBlockHeader (header_key (stored_header x)) s")
        (auto simp: addBlockHeader_def BlockHeader_hash_key setId_def fresh_header_def Let_def)
    then obtain r s' where s': "addBlockHeader sha zeros x s = Inr (r, s')" by blast
    then have eq: "add_header x s = (r, s')" by (simp add: add_header_def)
    have "addBlockHeader sha zeros x s' = Inr (False, s')"
      using blocks.find_added [OF ok x] blocks.add_ok [OF ok x] eq
      by (auto simp: addBlockHeader_def BlockHeader_hash_key blocks.has_find)
    then show "\<exists>r s'. addBlockHeader sha zeros x s = Inr (r, s') \<and> getBlockHeader (header_key (stored_header x)) s' \<noteq> None \<and>
        (\<forall>k p. getBlockHeader k s = Some p \<longrightarrow> getBlockHeader k s' = Some p \<and> cs_blocks s' ! p = cs_blocks s ! p) \<and>
        addBlockHeader sha zeros x s' = Inr (False, s')"
      using s' eq blocks.find_added [OF ok x] blocks.find_kept [OF ok x] by auto }
  have "\<exists>r s'. addTx sha zeros t s = Inr (r, s')"
    by (cases "hasTx (tx_key t) s") (auto simp: addTx_def Transaction_hash_key Let_def)
  then obtain r s' where s': "addTx sha zeros t s = Inr (r, s')" by blast
  then have eq: "add_transaction t s = (r, s')" by (simp add: add_transaction_def)
  have "addTx sha zeros t s' = Inr (False, s')"
    using txs.find_added [OF ok TrueI, of t] txs.add_ok [OF ok TrueI, of t] eq
    by (auto simp: addTx_def Transaction_hash_key txs.has_find)
  then show "\<exists>r s'. addTx sha zeros t s = Inr (r, s') \<and> getTx (tx_key t) s' \<noteq> None \<and>
        (\<forall>k p. getTx k s = Some p \<longrightarrow> getTx k s' = Some p \<and> cs_txs s' ! p = cs_txs s ! p) \<and>
        addTx sha zeros t s' = Inr (False, s')"
    using s' eq txs.find_added [OF ok TrueI, of t] txs.find_kept [OF ok TrueI, where x = t] by auto
qed

theorem store_lookup_witness:
  "\<exists>r s'. addBlockHeader sha zeros (Plain (small_header 3 (key 2))) chain2 = Inr (r, s') \<and>
    getBlockHeader (key 3) s' \<noteq> None \<and> getBlockHeader (key 2) s' = Some 1"
proof -
  let ?x = "Plain (small_header 3 (key 2))"
  have f: "getBlockHeader (key 2) chain2 = Some 1" "fresh_header (stored_header ?x) \<and> Suc (count chain2) < 2 ^ 64 - 1"
    "header_key (stored_header ?x) = key 3"
    by (simp_all add: chain2_def getBlockHeader_def getBlockHeader_id_def header_key_def)
  show ?thesis using store_lookup [OF chain2_reached(1), of ?x, THEN conjunct1, THEN mp, OF f(2)] f(1) unfolding f(3) by blast
qed

lemma branch_to:
  assumes "store_ok s"
  shows "p < count s \<Longrightarrow> inChain (hdr s p) \<Longrightarrow> \<exists>xs. xs \<noteq> [] \<and> last xs = p \<and> branch s 0 xs"
proof (induction "ht s p" arbitrary: p)
  case 0
  then show ?case by (intro exI [of _ "[p]"]) simp
next
  case (Suc n)
  have "connected s p" using assms Suc.prems by (simp add: store_ok_def)
  then obtain q where q: "q < count s" "parent s p = Some q" "inChain (hdr s q)" "ht s p = Suc (ht s q)"
    using Suc.hyps(2) by (auto simp: connected_def)
  then obtain xs where xs: "xs \<noteq> []" "last xs = q" "branch s 0 xs"
    using Suc.hyps(1) [of q] Suc.hyps(2) by auto
  have "ht s q = length xs - 1"
    using branch_nth [OF xs(3), of "length xs - 1"] xs(1,2) by (simp add: last_conv_nth)
  then have "ht s p = length xs" using q(4) xs(1) by (cases xs) simp_all
  then show ?case using xs q Suc.prems by (intro exI [of _ "xs @ [p]"]) (simp add: branch_append)
qed

text \<open>C2: the rule of the best chain. When the main chain is there and a stored block that is not yet
  connected names a connected block \<open>q\<close> as its previous one, a call that connects it gives it the height above
  \<open>q\<close>; exactly one branch from the genesis block ends in it; and the main chain becomes this branch
  when it is at least as long as the main chain was, and stays otherwise.\<close>

theorem best_chain:
  assumes "chain_steps ops junk (chain_init genesis) s" and "cs_mainChain s \<noteq> []" and "p < count s"
    and "parent s p = Some q" and "inChain (hdr s q)" and "\<not> inChain (hdr s p)"
    and "connectToAncestor_id ops junk p s = Some (Inr (r, s'))"
  shows "r \<and> ht s' p = Suc (ht s q) \<and> (\<exists>!xs. xs \<noteq> [] \<and> last xs = p \<and> branch s' 0 xs) \<and>
    (if length (cs_mainChain s) \<le> Suc (Suc (ht s q))
     then cs_mainChain s' \<noteq> [] \<and> last (cs_mainChain s') = p \<and> branch s' 0 (cs_mainChain s')
     else cs_mainChain s' = cs_mainChain s)"
proof -
  have ok: "store_ok s" using chain_steps_ok [OF assms(1)] store_ok_init by blast
  have ok': "store_ok s'" by (rule connect_id_ok [OF ok assms(7)])
  have eq: "connect_child ops junk p s = Some (Inr (r, s'))"
    using assms(2,3,7) by (simp add: connectToAncestor_id_def getBlockHeader_id_def getHeight_0 [OF ok])
  have q: "joins s p q" using assms(4,5) by (simp add: joins_def)
  let ?s = "raised p (Suc (ht s q)) s"
  obtain mc s1 where mc: "length mc = max (length (cs_mainChain s)) (Suc (Suc (ht s q)))"
      "if length (cs_mainChain s) \<le> Suc (Suc (ht s q)) then last mc = p else mc = cs_mainChain s"
    and s1: "remove_orphan p (equal_range (bh_prev (hdr s p)) s) (bh_prev (hdr s p)) ?s = Some s1"
      "r" "s' = s1\<lparr>cs_mainChain := mc\<rparr>"
    using connect_child_joins [OF ok assms(3,2) q assms(6), of ops junk] eq by (auto split: option.splits if_splits)
  have s'_eq: "hdr s' = hdr ?s" "ht s' = ht ?s" "cs_mainChain s' = mc" "count s' = count s"
    using remove_orphan_Some [OF s1(1)] s1(3) by auto
  have "Suc (ht s q) \<le> count s"
    using ok joins_count [OF ok q] assms(5) branch_length [of s 0 "cs_mainChain s"] by (fastforce simp: store_ok_def)
  note up = raised_facts [OF ok assms(3,6) this]
  have h: "ht s' p = Suc (ht s q)" using up(3) s'_eq(2) by simp
  have "inChain (hdr s' p)" using up(4) s'_eq(1) by simp
  then have "\<exists>xs. xs \<noteq> [] \<and> last xs = p \<and> branch s' 0 xs"
    using branch_to [OF ok', of p] assms(3) s'_eq(4) by auto
  then have "\<exists>!xs. xs \<noteq> [] \<and> last xs = p \<and> branch s' 0 xs" using branch_unique by blast
  moreover have "branch s' 0 (cs_mainChain s')" using ok' by (simp add: store_ok_def)
  moreover have "mc \<noteq> []" using mc(1) by auto
  ultimately show ?thesis using h mc(2) s1(2) s'_eq(3) by auto
qed

text \<open>\<open>fork\<close> is \<open>chain2\<close> with a second header above the genesis block, not yet connected.\<close>

definition fork :: chain_state where
  "fork = chain2\<lparr>cs_blocks := cs_blocks chain2 @ [Plain ((small_header 3 (key 1))\<lparr>bh_id := 2\<rparr>)],
     cs_blockIds := (cs_blockIds chain2)(key 3 \<mapsto> 2), cs_blockHashes := (cs_blockHashes chain2)(2 \<mapsto> key 3)\<rparr>"

lemma fork_reached: "chain_steps sha zeros chain0 fork"
proof (rule chain_steps.header [OF chain2_reached(1), of "Plain (small_header 3 (key 1))" True])
  show "addBlockHeader sha zeros (Plain (small_header 3 (key 1))) chain2 = Inr (True, fork)"
    by (simp add: addBlockHeader_def BlockHeader_hash_def hasBlockHeader_def setId_def map_emplace_def fork_def chain2_def chain_init_def numeral_2_eq_2 Let_def)
qed (simp_all add: chain2_def)

lemma fork_connects: "\<exists>s'. connectToAncestor_id sha zeros 2 fork = Some (Inr (True, s'))"
  by (simp add: run_simps small_stored_def fork_def chain2_def isNull_def numeral_2_eq_2)

theorem best_chain_witness:
  "\<exists>s'. connectToAncestor_id sha zeros 2 fork = Some (Inr (True, s')) \<and> last (cs_mainChain s') = 2 \<and>
    branch s' 0 (cs_mainChain s')"
proof -
  obtain s' where s': "connectToAncestor_id sha zeros 2 fork = Some (Inr (True, s'))" using fork_connects by blast
  have "parent fork 2 = Some 0" "inChain (hdr fork 0)" "\<not> inChain (hdr fork 2)" "2 < count fork" "cs_mainChain fork = [0, 1]"
    by (simp_all add: parent_def hdr_def inChain_def fork_def chain2_def)
  then show ?thesis using s' best_chain [OF fork_reached _ _ _ _ _ s', of 0] by (simp add: ht_def hdr_def)
qed

text \<open>C22: blocks that arrive too early. When no block is connected and an orphan waits for the genesis
  block, then in every later state the genesis block, once it is stored, can be put on the main chain with height 0
  (\<open>place_genesis\<close>), but the loop over its orphans that follows never ends: \<open>connectToAncestor\<close> does not
  return.\<close>

theorem early_child_stalls:
  assumes "chain_steps ops junk (chain_init genesis) s" and "cs_mainChain s = []"
    and "(cs_genesis s, i) \<in> set (cs_orphans s)" and "chain_steps ops junk s s'"
  shows "\<forall>p < count s'. bh_hash (hdr s' p) = cs_genesis s \<and> isNull (bh_prev (hdr s' p)) \<longrightarrow>
    (\<exists>t. place_genesis ops junk p s' = Inr (True, t) \<and> cs_mainChain t = [p] \<and> inChain (hdr t p) \<and> bh_height (hdr t p) = 0 \<and>
      descendants ops junk (Some p) t = None) \<and>
    connectToAncestor_id ops junk p s' = None"
proof (intro allI impI)
  fix p assume p: "p < count s'" and gen: "bh_hash (hdr s' p) = cs_genesis s \<and> isNull (bh_prev (hdr s' p))"
  have "store_ok s" using chain_steps_ok [OF assms(1)] store_ok_init by blast
  then have s': "stalled (cs_genesis s) s'"
    using stalled_steps [OF assms(4)] assms(2,3) by (auto simp: stalled_def)
  then have ok: "store_ok s'" "cs_mainChain s' = []" "cs_genesis s' = cs_genesis s" by (simp_all add: stalled_def)
  have wait: "equal_range (cs_genesis s) s' \<noteq> []" using s' equal_range_in [of "cs_genesis s" _ s'] by (auto simp: stalled_def)
  have free: "\<not> inChain (hdr s' p)" using ok p by (auto simp: store_ok_def)
  note f = raised_facts [OF ok(1) p free, of 0]
  let ?t = "(raised p 0 s')\<lparr>cs_mainChain := [p]\<rparr>"
  have t: "place_genesis ops junk p s' = Inr (True, ?t)" using place_genesis_eq [OF ok(1) p ok(2), of ops junk] gen ok(3) by simp
  have none: "connectToAncestor_id ops junk p s' = None"
    using connect_genesis_eq [OF ok(1) p ok(2), of ops junk] p gen ok wait
    by (simp add: connectToAncestor_id_def getBlockHeader_id_def getHeight_def)
  then have "descendants ops junk (Some p) ?t = None"
    using t p ok(2) by (simp add: connectToAncestor_id_def getBlockHeader_id_def getHeight_def connect_genesis_def)
  moreover have "inChain (hdr ?t p)" "bh_height (hdr ?t p) = 0" using f by (simp_all add: ht_def unat_eq_0)
  ultimately show "(\<exists>t. place_genesis ops junk p s' = Inr (True, t) \<and> cs_mainChain t = [p] \<and> inChain (hdr t p) \<and>
      bh_height (hdr t p) = 0 \<and> descendants ops junk (Some p) t = None) \<and> connectToAncestor_id ops junk p s' = None"
    using t none by (intro conjI exI [of _ ?t]) simp_all
qed

text \<open>\<open>early\<close> holds the second block only, which waits; \<open>late\<close> holds the header of the genesis block too.\<close>

definition early :: chain_state where
  "early = chain0\<lparr>cs_blocks := [small_stored 0 2 (key 1) (- 1)], cs_blockIds := [key 2 \<mapsto> 0],
     cs_blockHashes := [0 \<mapsto> key 2], cs_orphans := [(key 1, 0)]\<rparr>"

definition late :: chain_state where
  "late = early\<lparr>cs_blocks := cs_blocks early @ [Plain ((small_header 1 (key 0))\<lparr>bh_id := 1\<rparr>)],
     cs_blockIds := [key 2 \<mapsto> 0, key 1 \<mapsto> 1], cs_blockHashes := [0 \<mapsto> key 2, 1 \<mapsto> key 1]\<rparr>"

lemma late_reached: "chain_steps sha zeros chain0 early" "chain_steps sha zeros early late"
proof -
  have "addBlock sha zeros (small_block 2 (key 1)) chain0 = Some (Inr (True, early))"
    by (subst addBlock_small) (simp_all add: run_simps small_stored_def early_def isNull_def)
  then show "chain_steps sha zeros chain0 early"
    by (rule chain_steps.block [OF chain_steps.start, rotated 2]) (simp_all add: chain_init_def)
  have "addBlockHeader sha zeros (Plain (small_header 1 (key 0))) early = Inr (True, late)"
    by (simp add: addBlockHeader_def BlockHeader_hash_def hasBlockHeader_def setId_def map_emplace_def late_def early_def
        chain_init_def Let_def)
  then show "chain_steps sha zeros early late"
    by (rule chain_steps.header [OF chain_steps.start, rotated 2]) (simp_all add: early_def)
qed

theorem early_child_stalls_witness:
  "(\<exists>t. place_genesis sha zeros 1 late = Inr (True, t) \<and> cs_mainChain t = [1] \<and> descendants sha zeros (Some 1) t = None) \<and>
    connectToAncestor_id sha zeros 1 late = None"
proof -
  have "cs_mainChain early = []" "(cs_genesis early, 0) \<in> set (cs_orphans early)" "1 < count late"
    "bh_hash (hdr late 1) = cs_genesis early" "isNull (bh_prev (hdr late 1))"
    by (simp_all add: early_def late_def chain_init_def hdr_def isNull_def)
  then show ?thesis using early_child_stalls [OF late_reached(1) _ _ late_reached(2), of 0] by blast
qed

text \<open>What \<open>addBlock\<close> does with a block whose transactions are all there, when no orphan waits. \<open>root_of\<close> is the
  root of the textbook Merkle tree over the transactions.\<close>

definition root_of :: "transaction list \<Rightarrow> bytes" where
  "root_of txs = tree_root (\<lambda>d. fips_SHA256 (fips_SHA256 d)) (map (\<lambda>tx. fips_SHA256 (fips_SHA256 (ser_Transaction tx))) txs)"

lemma tx_pieces_all: "tx_pieces (map Some txs) = Inr (map (\<lambda>tx. [ser_Transaction tx]) txs)"
  by (induction txs) simp_all

lemma pieces_root: "MerkleRoot sha zeros (map (\<lambda>tx. [ser_Transaction tx]) txs) = Inr (root_of txs)"
  using hasher_contract.MerkleRoot_tree [OF CSHA256_contract sha_size, of zeros zeros "map (\<lambda>tx. [ser_Transaction tx]) txs"]
  by (simp add: root_of_def o_def)

lemma addTxs_all: "\<exists>t. addTxs sha zeros (map Some txs) s = Inr t"
proof (induction txs arbitrary: s)
  case (Cons tx txs)
  obtain r s1 where "addTx sha zeros tx s = Inr (r, s1)"
    by (cases "hasTx (tx_key tx) s") (auto simp: addTx_def Transaction_hash_key Let_def)
  then show ?case using Cons.IH by simp
qed simp

lemma connect_id_outcome:
  assumes "store_ok s" and "cs_mainChain s \<noteq> []" and "cs_orphans s = []" and "i < count s"
  shows "if inChain (hdr s i) \<and> bh_height (hdr s i) \<noteq> 0 then connectToAncestor_id ops junk i s = Some (Inl Abort)
    else inChain (hdr s i) \<and> connectToAncestor_id ops junk i s = Some (Inl Abort) \<or>
      (\<exists>r t. connectToAncestor_id ops junk i s = Some (Inr (r, t)) \<and> cs_orphans t = [] \<and>
        cs_blockIds t = cs_blockIds s \<and> count t = count s)"
proof -
  have child: "connectToAncestor_id ops junk i s = connect_child ops junk i s"
    using assms(2,4) by (simp add: connectToAncestor_id_def getBlockHeader_id_def getHeight_0 [OF assms(1)])
  show ?thesis
  proof (cases "inChain (hdr s i)")
    case True
    have "connected s i" using assms(1,4) True by (simp add: store_ok_def)
    then have "bh_height (hdr s i) \<noteq> 0 \<Longrightarrow> \<exists>q. joins s i q"
      by (auto simp: connected_def joins_def ht_def unat_eq_0)
    moreover have "connectToAncestor_id ops junk i s = Some (Inl Abort)" if "joins s i q" for q
      using child connect_child_again [OF assms(1) that True] by simp
    moreover have "connectToAncestor_id ops junk i s = Some (Inr (False, s))" if "\<nexists>q. joins s i q"
      using child connect_child_waits [OF assms(1) that, of ops junk] by simp
    ultimately show ?thesis using True assms(3) by (cases "\<exists>q. joins s i q") auto
  next
    case False
    show ?thesis
    proof (cases "\<exists>q. joins s i q")
      case True
      then obtain q where q: "joins s i q" by blast
      obtain mc where "connect_child ops junk i s =
          (case remove_orphan i (equal_range (bh_prev (hdr s i)) s) (bh_prev (hdr s i)) (raised i (Suc (ht s q)) s) of
             None \<Rightarrow> None
           | Some s1 \<Rightarrow>
               if equal_range (bh_hash (hdr s i)) s1 = [] then Some (Inr (True, s1\<lparr>cs_mainChain := mc\<rparr>)) else None)"
        using connect_child_joins [OF assms(1,4,2) q False, of ops junk] by blast
      moreover have "equal_range k s = []" "equal_range k (raised i n s) = []" for k n
        using assms(3) by (simp_all add: equal_range_def)
      moreover have "cs_blockIds (raised i n s) = cs_blockIds s" for n by (simp add: raised_def set_hdr_def)
      ultimately show ?thesis using False child by (auto simp: remove_orphan_Nil assms(3))
    next
      case no: False
      then show ?thesis using False child connect_child_waits [OF assms(1) no, of ops junk] assms(3) by auto
    qed
  qed
qed

lemma addBlock_outcome:
  assumes "live s" and "fresh_header (b_header b)" and "Suc (count s) < 2 ^ 64 - 1" and "b_txList b = Some (map Some txs)"
    and "bh_merkle (b_header b) = root_of txs"
  shows "\<exists>s2 p. store_ok s2 \<and> cs_mainChain s2 \<noteq> [] \<and> cs_orphans s2 = [] \<and> p < count s2 \<and>
    cs_blockIds s2 (header_key (b_header b)) = Some p \<and>
    (case getBlockHeader (header_key (b_header b)) s of None \<Rightarrow> \<not> inChain (hdr s2 p) | Some q \<Rightarrow> q = p \<and> hdr s2 p = hdr s p) \<and>
    addBlock sha zeros b s = obind (connectToAncestor_id sha zeros p s2) (\<lambda>(_, t). Some (Inr (True, t)))"
proof -
  let ?k = "header_key (b_header b)"
  have s: "store_ok s" "cs_mainChain s \<noteq> []" "cs_orphans s = []" using assms(1) by (simp_all add: live_def)
  define h where "h = (b_header b)\<lparr>bh_hash := ?k, bh_validHash := True\<rparr>"
  have hash: "BlockHeader_hash sha zeros (b_header b) = Inr (?k, h)" by (simp add: BlockHeader_hash_key h_def)
  have key: "header_key h = ?k" by (simp add: header_key_def h_def)
  have has: "hasBlockHeader ?k s \<longleftrightarrow> getBlockHeader ?k s \<noteq> None"
    using blocks.has_find [OF s(1)] by simp
  define add where "add = (if hasBlockHeader ?k s then Inr s
    else rbind (addBlockHeader sha zeros (Full (b\<lparr>b_header := h\<rparr>)) s) (\<lambda>(_, s). Inr s) :: io_fault + chain_state)"
  have fresh: "fresh_header h" using assms(2) by (simp add: fresh_header_def h_def)
  obtain s1 p where s1: "add = Inr s1" "store_ok s1" "cs_mainChain s1 = cs_mainChain s" "cs_orphans s1 = []"
    "getBlockHeader ?k s1 = Some p"
    "case getBlockHeader ?k s of None \<Rightarrow> \<not> inChain (hdr s1 p) | Some q \<Rightarrow> q = p \<and> hdr s1 p = hdr s p"
  proof (cases "hasBlockHeader ?k s")
    case True
    then obtain p where "getBlockHeader ?k s = Some p" using has by blast
    then show thesis using that [of s p] s True by (simp add: add_def)
  next
    case False
    let ?h = "h\<lparr>bh_id := word_of_nat (count s)\<rparr>"
    have h': "BlockHeader_hash sha zeros h = Inr (?k, h)" by (simp add: BlockHeader_hash_key key) (simp add: h_def)
    obtain t where t: "addBlockHeader sha zeros (Full (b\<lparr>b_header := h\<rparr>)) s = Inr (True, t)"
      "cs_blocks t = cs_blocks s @ [with_header ?h (Full (b\<lparr>b_header := h\<rparr>))]" "cs_orphans t = cs_orphans s"
      using False h' fresh by (simp add: addBlockHeader_def setId_def fresh_header_def Let_def)
    have ok: "store_ok t" "cs_mainChain t = cs_mainChain s" using addBlockHeader_ok [OF s(1) t(1)] fresh assms(3) by simp_all
    have "hdr t (count s) = ?h" by (simp add: hdr_def t(2))
    moreover have "header_key ?h = ?k" by (simp add: header_key_def h_def)
    ultimately have "getBlockHeader ?k t = Some (count s)" "\<not> inChain (hdr t (count s))"
      using blocks.find_iff [OF ok(1), of ?k "count s"] t(2) fresh by (auto simp: hdr_def inChain_def fresh_header_def)
    then show thesis using that [of t "count s"] False has t ok s(3) by (simp add: add_def)
  qed
  obtain s2 where s2: "addTxs sha zeros (map Some txs) s1 = Inr s2" using addTxs_all by blast
  note t = addTxs_ok [OF s1(2) s2]
  have p: "cs_blockIds s2 ?k = Some p" "p < count s2" "hdr s2 p = hdr s1 p"
    using s1(5) t by (auto simp: getBlockHeader_def getBlockHeader_id_def hdr_def split: option.splits if_splits)
  have "addBlock sha zeros b s = obind (Some add) (\<lambda>s. obind (Some (addTxs sha zeros (map Some txs) s)) (\<lambda>s.
      obind (connectToAncestor sha zeros ?k s) (\<lambda>(_, s). Some (Inr (True, s)))))"
    using assms(4,5) unfolding addBlock_def hash
    by (simp add: block_txs_def tx_pieces_all pieces_root add_def h_def obind_def cong del: rbind_cong)
  then have "addBlock sha zeros b s = obind (connectToAncestor_id sha zeros p s2) (\<lambda>(_, t). Some (Inr (True, t)))"
    using s1(1) s2 p(1) by (simp add: obind_def connectToAncestor_def)
  then show ?thesis using s1 s(2) t p by (intro exI [of _ s2] exI [of _ p]) (simp split: option.splits)
qed

text \<open>C21: blocks in order. From a state whose genesis block is connected and that has no orphans, no run
  ever has orphans, and adding a block whose transactions are all there and whose header has no id and no height yet, as one that has been
  read, ends: a block with a wrong Merkle root is refused and changes nothing; one that is stored and connected above the
  genesis block aborts the program, by the assertion of \<open>setHeight\<close> (the genesis block itself is accepted or aborts it too); and
  one that is not connected yet is accepted and stored.\<close>

theorem blocks_return:
  assumes "chain_steps sha zeros (chain_init genesis) s" and "cs_mainChain s \<noteq> []" and "cs_orphans s = []"
    and "chain_steps sha zeros s s'" and "fresh_header (b_header b)" and "Suc (count s') < 2 ^ 64 - 1"
    and "b_txList b = Some (map Some txs)"
  shows "cs_orphans s' = [] \<and>
    (if bh_merkle (b_header b) \<noteq> root_of txs then addBlock sha zeros b s' = Some (Inr (False, s'))
     else case getBlockHeader (header_key (b_header b)) s' of
       Some p \<Rightarrow>
         if inChain (hdr s' p) \<and> bh_height (hdr s' p) \<noteq> 0 then addBlock sha zeros b s' = Some (Inl Abort)
         else inChain (hdr s' p) \<and> addBlock sha zeros b s' = Some (Inl Abort) \<or>
           (\<exists>t. addBlock sha zeros b s' = Some (Inr (True, t)) \<and> cs_orphans t = [])
     | None \<Rightarrow>
         \<exists>t p. addBlock sha zeros b s' = Some (Inr (True, t)) \<and> cs_orphans t = [] \<and>
           getBlockHeader (header_key (b_header b)) t = Some p)"
proof -
  let ?k = "header_key (b_header b)"
  have "live s" using chain_steps_ok [OF assms(1)] store_ok_init assms(2,3) by (auto simp: live_def)
  then have live: "live s'" by (rule live_steps [OF assms(4)])
  have "addBlock sha zeros b s' = Some (Inr (False, s'))" if "bh_merkle (b_header b) \<noteq> root_of txs"
    using that assms(7) by (simp add: addBlock_def BlockHeader_hash_key block_txs_def tx_pieces_all pieces_root obind_def)
  moreover have ?thesis if m: "bh_merkle (b_header b) = root_of txs"
  proof -
    obtain s2 p where s2: "store_ok s2" "cs_mainChain s2 \<noteq> []" "cs_orphans s2 = []" "p < count s2" "cs_blockIds s2 ?k = Some p"
      "case getBlockHeader ?k s' of None \<Rightarrow> \<not> inChain (hdr s2 p) | Some q \<Rightarrow> q = p \<and> hdr s2 p = hdr s' p"
      and eq: "addBlock sha zeros b s' = obind (connectToAncestor_id sha zeros p s2) (\<lambda>(_, t). Some (Inr (True, t)))"
      using addBlock_outcome [OF live assms(5,6,7) m] by blast
    have "if inChain (hdr s2 p) \<and> bh_height (hdr s2 p) \<noteq> 0 then addBlock sha zeros b s' = Some (Inl Abort)
      else inChain (hdr s2 p) \<and> addBlock sha zeros b s' = Some (Inl Abort) \<or>
        (\<exists>t. addBlock sha zeros b s' = Some (Inr (True, t)) \<and> cs_orphans t = [] \<and> getBlockHeader ?k t = Some p)"
      using connect_id_outcome [OF s2(1-4), of sha zeros] s2(4,5) eq
      by (auto simp: obind_def getBlockHeader_def getBlockHeader_id_def split: if_splits)
    then show ?thesis using s2(6) m live by (auto simp: live_def split: option.splits if_splits)
  qed
  ultimately show ?thesis using live by (auto simp: live_def)
qed

theorem blocks_return_witness:
  "\<exists>t p. addBlock sha zeros (small_block 3 (key 2)) chain2 = Some (Inr (True, t)) \<and> cs_orphans t = [] \<and>
    getBlockHeader (key 3) t = Some p"
proof -
  have s: "cs_mainChain chain1 \<noteq> []" "cs_orphans chain1 = []" by (simp_all add: chain1_def chain_init_def)
  have step: "chain_steps sha zeros chain1 chain2"
    by (rule chain_steps.block [OF chain_steps.start _ _ chain2_step]) (simp_all add: chain1_def)
  have "fresh_header (b_header (small_block 3 (key 2)))" "Suc (count chain2) < 2 ^ 64 - 1"
    "b_txList (small_block 3 (key 2)) = Some (map Some [])"
    by (simp_all add: chain2_def small_block_def)
  moreover have "root_of [] = key 0" using pieces_root [of "[]"] no_items_root by simp
  moreover have "header_key (b_header (small_block 3 (key 2))) = key 3" by (simp add: header_key_def small_block_def)
  moreover have "getBlockHeader (key 3) chain2 = None"
    by (simp add: chain2_def getBlockHeader_def getBlockHeader_id_def)
  ultimately show ?thesis using blocks_return [OF chain2_reached(2) s step, of "small_block 3 (key 2)" "[]"] by (simp add: small_block_def)
qed

text \<open>a connected block above the genesis block that is added once more aborts the program: the assertion
  of \<open>setHeight\<close> finds a height.\<close>

lemma block_again_aborts:
  assumes "chain_steps ops junk (chain_init genesis) s" and "fresh_header (b_header b)" and "Suc (count s) < 2 ^ 64 - 1"
    and "addBlock ops junk b s = Some (Inr (True, s1))" and "BlockHeader_hash ops junk (b_header b) = Inr (hash, h)"
    and "getBlockHeader hash s1 = Some p" and "inChain (hdr s1 p)" and "bh_height (hdr s1 p) \<noteq> 0"
  shows "addBlock ops junk b s1 = Some (Inl Abort)"
proof -
  have "store_ok s" using chain_steps_ok [OF assms(1)] store_ok_init by blast
  then have "store_ok s1" using addBlock_ok [OF _ assms(4,2,3)] by blast
  moreover have "0 < ht s1 p" using assms(8) by (simp add: ht_def unat_gt_0)
  ultimately show ?thesis using addBlock_again [OF _ assms(4-7)] by blast
qed

lemma block_again_aborts_witness: "addBlock sha zeros (small_block 2 (key 1)) chain2 = Some (Inl Abort)"
proof (rule block_again_aborts [OF chain2_reached(2) _ _ chain2_step])
  show "BlockHeader_hash sha zeros (b_header (small_block 2 (key 1))) = Inr (key 2, small_header 2 (key 1))"
    by (simp add: BlockHeader_hash_def)
  show "getBlockHeader (key 2) chain2 = Some 1" by (simp add: chain2_def getBlockHeader_def getBlockHeader_id_def)
qed (simp_all add: chain1_def chain2_def hdr_def inChain_def)

text \<open>C19: block locators. Over a main chain that a run has reached the loop of \<open>getBlockLocator\<close> ends with at most
  74 hashes: the tip, the nine blocks below it, then blocks at distances that double, and last the
  genesis block.\<close>

theorem block_locator:
  assumes "chain_steps ops junk (chain_init genesis) s" and "cs_mainChain s \<noteq> []"
  shows "\<exists>m. 0 < m \<and> m \<le> 74 \<and> length (cs_mainChain s) - 1 \<le> locator_offset (m - 1) \<and>
    (\<forall>j < m - 1. locator_offset j < length (cs_mainChain s) - 1) \<and>
    getBlockLocator hash s = Some (Inr (map (\<lambda>j. bh_hash (hdr s (cs_mainChain s ! (length (cs_mainChain s) - 1 - locator_offset j)))) [0..<m]))"
proof -
  let ?n = "length (cs_mainChain s) - 1"
  have ok: "store_ok s" using chain_steps_ok [OF assms(1)] store_ok_init by blast
  then have "length (cs_mainChain s) \<le> count s" "count s < 2 ^ 64 - 1"
    using branch_length [of s 0 "cs_mainChain s"] by (simp_all add: store_ok_def registered_def)
  then have n: "?n < 2 ^ 64" by simp
  have at: "getBlockHash (word_of_nat k) s = Inr (bh_hash (hdr s (cs_mainChain s ! k)))" if "k \<le> ?n" for k
    using that assms(2) by (intro getBlockHash_main [OF ok]) (cases "cs_mainChain s", auto)
  have "locator_loop s (word_of_nat ?n) 1 [] = getBlockLocator hash s"
    using assms(2) by (simp add: getBlockLocator_def)
  then show ?thesis
    using locator_loop_spec [OF n at, of "[]" 73] by (auto simp: locator_offset_def locator_step_def)
qed

theorem block_locator_witness: "getBlockLocator (key 0) chain2 = Some (Inr [key 2, key 1])"
proof -
  have "cs_mainChain chain2 \<noteq> []" by (simp add: chain2_def)
  from block_locator [OF chain2_reached(1) this, of "key 0"] obtain m where m: "0 < m" "1 \<le> locator_offset (m - 1)"
    "\<forall>j < m - 1. locator_offset j < 1" and l: "getBlockLocator (key 0) chain2 =
      Some (Inr (map (\<lambda>j. bh_hash (hdr chain2 ([0, 1] ! (1 - locator_offset j)))) [0..<m]))"
    by (auto simp: chain2_def)
  have "\<not> 2 < m" using m(3) [THEN spec [of _ 1]] by (auto simp: locator_offset_def)
  moreover have "m \<noteq> 1" using m(2) by (auto simp: locator_offset_def)
  ultimately have "m = 2" using m(1) by simp
  then have "[0..<m] = [0, 1]" by (simp add: upt_rec)
  then show ?thesis unfolding l by (simp add: locator_offset_def hdr_def chain2_def)
qed

text \<open>\<open>getBlockHeaders\<close> for a locator that starts with the block at height \<open>k\<close> of the main chain: unless
  this is the block to stop at, the result is 1001 copies of this one header. The loop never moves on,
  and its bound of 1000 is checked too late.\<close>

lemma headers_repeat:
  assumes "chain_steps ops junk (chain_init genesis) s" and "k < length (cs_mainChain s)"
    and "p = cs_mainChain s ! k" and "hash = bh_hash (hdr s p)"
  shows "getBlockHeaders (hash # locator) stop s =
    Inr (if isNull hash \<or> hash = stop then [] else replicate 1001 (Some p))"
proof -
  have ok: "store_ok s" using chain_steps_ok [OF assms(1)] store_ok_init by blast
  then have b: "branch s 0 (cs_mainChain s)" and reg: "registered s" "count s < 2 ^ 64 - 1"
    by (simp_all add: store_ok_def registered_def)
  have p: "p < count s" "inChain (hdr s p)" "ht s p = k" using branch_nth [OF b assms(2)] assms(3) by simp_all
  then have find: "getBlockHeader hash s = Some p"
    using reg_okD(1) [of stored_hash "cs_blocks s" "cs_blockIds s" "cs_blockHashes s" p] reg(1) assms(4)
    by (simp add: registered_def getBlockHeader_def getBlockHeader_id_def hdr_def)
  have h: "bh_height (hdr s p) = word_of_nat k" using p(3) by (auto simp: ht_def)
  have "locate s (hash # locator) (- 1) = word_of_nat k"
    using p(2) by (simp add: find inChain_def h)
  then show ?thesis
    using getBlockHash_main [OF ok assms(2)] assms(3,4) find
    by (simp add: getBlockHeaders_def collect_eq Let_def del: locate.simps)
qed

lemma headers_repeat_witness:
  "getBlockHeaders [key 1] (key 9) chain2 = Inr (replicate 1001 (Some 0))"
proof -
  have "0 < length (cs_mainChain chain2)" "0 = cs_mainChain chain2 ! 0" "key 1 = bh_hash (hdr chain2 0)"
    by (simp_all add: chain2_def hdr_def)
  from headers_repeat [OF chain2_reached(1) this, of "[]" "key 9"] show ?thesis by (simp add: isNull_def)
qed

end
