(* ===== verification/PubKey.thy ===== *)
theory PubKey
  imports Digests Blob
begin

text \<open>
  \<open>src/crypto/keys/CPubKey.hpp\<close> and \<open>CPubKey.cpp\<close>: public keys.

  The functions of libsecp256k1, which is not part of the sources, are the fields of the record
  \<open>secp\<close>; its parsed keys and signatures are the type variables. A function that reports failure gives
  \<open>None\<close>. A key is the array \<open>vch\<close> of 65 bytes; what the default constructor leaves in it is an argument.
\<close>

record ('pk, 'sig, 'rsig) secp =
  pubkey_parse :: "bytes \<Rightarrow> 'pk option"
  pubkey_serialize :: "bool \<Rightarrow> 'pk \<Rightarrow> bytes"
  pubkey_tweak_add :: "bytes \<Rightarrow> 'pk \<Rightarrow> 'pk option"
  pubkey_create :: "bytes \<Rightarrow> 'pk option"
  seckey_verify :: "bytes \<Rightarrow> bool"
  privkey_tweak_add :: "bytes \<Rightarrow> bytes \<Rightarrow> bool \<times> bytes"
  parse_der_lax :: "bytes \<Rightarrow> 'sig option"
  sig_normalize :: "'sig \<Rightarrow> bool \<times> 'sig"
  ecdsa_verify :: "'sig \<Rightarrow> blob \<Rightarrow> 'pk \<Rightarrow> bool"
  ecdsa_sign :: "blob \<Rightarrow> bytes \<Rightarrow> bytes option \<Rightarrow> 'sig option"
  sig_compact :: "'sig \<Rightarrow> bytes"
  sig_der :: "'sig \<Rightarrow> bytes"
  parse_compact :: "bytes \<Rightarrow> 32 word \<Rightarrow> 'rsig option"
  recover :: "'rsig \<Rightarrow> blob \<Rightarrow> 'pk option"
  sign_recoverable :: "blob \<Rightarrow> bytes \<Rightarrow> 'rsig option"
  recoverable_compact :: "'rsig \<Rightarrow> bytes \<times> 32 word"
  privkey_export_der :: "bytes \<Rightarrow> bool \<Rightarrow> bytes option"
  privkey_import_der :: "bytes \<Rightarrow> bool \<times> bytes"

section \<open>The array of a key\<close>

definition COMPACT_SIGNATURE_SIZE :: nat where
  "COMPACT_SIGNATURE_SIZE = 65"

definition GetLen :: "byte \<Rightarrow> nat" where
  "GetLen chHeader =
     (if chHeader = 2 \<or> chHeader = 3 then COMPRESSED_PUBLIC_KEY_SIZE
      else if chHeader = 4 \<or> chHeader = 6 \<or> chHeader = 7 then PUBLIC_KEY_SIZE
      else 0)"

definition Invalidate :: "bytes \<Rightarrow> bytes" where
  "Invalidate vch = vch[0 := 0xFF]"

definition CPubKey_new :: "bytes \<Rightarrow> bytes" where
  "CPubKey_new junk = Invalidate junk"

definition ValidSize :: "bytes \<Rightarrow> bool" where
  "ValidSize vch \<longleftrightarrow> length vch > 0 \<and> GetLen (vch ! 0) = length vch"

definition CPubKey_Set :: "bytes \<Rightarrow> bytes \<Rightarrow> bytes" where
  "CPubKey_Set data vch =
     (let len = (if data = [] then 0 else GetLen (data ! 0))
      in if len \<noteq> 0 \<and> len = length data then memcpy_at vch 0 (take len data) else Invalidate vch)"

definition CPubKey_of :: "bytes \<Rightarrow> bytes \<Rightarrow> bytes" where
  "CPubKey_of junk data = CPubKey_Set data junk"

definition pk_size :: "bytes \<Rightarrow> nat" where
  "pk_size vch = GetLen (vch ! 0)"

text \<open>The range from \<open>data()\<close> to \<open>end()\<close>.\<close>

definition pk_data :: "bytes \<Rightarrow> bytes" where
  "pk_data vch = take (pk_size vch) vch"

definition pk_eq :: "bytes \<Rightarrow> bytes \<Rightarrow> bool" where
  "pk_eq a b \<longleftrightarrow> a ! 0 = b ! 0 \<and> take (pk_size a) a = take (pk_size a) b"

text \<open>\<open>memcmp\<close> compares unsigned bytes from the first one on.\<close>

fun memcmp_less :: "bytes \<Rightarrow> bytes \<Rightarrow> bool" where
  "memcmp_less (x # xs) (y # ys) \<longleftrightarrow> x < y \<or> x = y \<and> memcmp_less xs ys"
| "memcmp_less _ _ \<longleftrightarrow> False"

definition pk_less :: "bytes \<Rightarrow> bytes \<Rightarrow> bool" where
  "pk_less a b \<longleftrightarrow> a ! 0 < b ! 0 \<or> a ! 0 = b ! 0 \<and> memcmp_less (take (pk_size a) a) (take (pk_size a) b)"

definition pk_IsValid :: "bytes \<Rightarrow> bool" where
  "pk_IsValid vch \<longleftrightarrow> pk_size vch > 0"

definition pk_IsCompressed :: "bytes \<Rightarrow> bool" where
  "pk_IsCompressed vch \<longleftrightarrow> pk_size vch = COMPRESSED_PUBLIC_KEY_SIZE"

section \<open>Digests of a key\<close>

text \<open>
  \<open>Hash\<close> and \<open>Hash160\<close> of \<open>src/other/hash.h\<close>. \<open>Hash160\<close> lets \<open>Finalize\<close> write to the address of the object
  instead of its data: in the layout of the platform's ABI the first eight bytes are the pointer to
  the virtual table, so the digest's first eight bytes are lost and the last eight bytes of the
  result keep the zeros of the constructor.
\<close>

definition hash_range :: "'h hasher \<Rightarrow> bytes \<Rightarrow> blob" where
  "hash_range ops data = hash_once ops data"

definition hash160_range :: "'h hasher \<Rightarrow> bytes \<Rightarrow> blob" where
  "hash160_range ops data = drop 8 (hash_once ops data) @ replicate 8 0"

definition pk_GetID :: "'h hasher \<Rightarrow> bytes \<Rightarrow> blob" where
  "pk_GetID ops vch = hash160_range ops (pk_data vch)"

definition pk_GetHash :: "'h hasher \<Rightarrow> bytes \<Rightarrow> blob" where
  "pk_GetHash ops vch = hash_range ops (pk_data vch)"

section \<open>Signatures\<close>

definition pk_Verify :: "('pk, 'sig, 'rsig) secp \<Rightarrow> bytes \<Rightarrow> blob \<Rightarrow> bytes \<Rightarrow> bool" where
  "pk_Verify lib vch hash vchSig =
     (if \<not> pk_IsValid vch then False
      else case pubkey_parse lib (pk_data vch) of
        None \<Rightarrow> False
      | Some pubkey \<Rightarrow>
          (case parse_der_lax lib vchSig of
             None \<Rightarrow> False
           | Some sig \<Rightarrow> ecdsa_verify lib (snd (sig_normalize lib sig)) hash pubkey))"

definition CheckLowS :: "('pk, 'sig, 'rsig) secp \<Rightarrow> bytes \<Rightarrow> bool" where
  "CheckLowS lib vchSig =
     (case parse_der_lax lib vchSig of None \<Rightarrow> False | Some sig \<Rightarrow> \<not> fst (sig_normalize lib sig))"

definition IsFullyValid :: "('pk, 'sig, 'rsig) secp \<Rightarrow> bytes \<Rightarrow> bool" where
  "IsFullyValid lib vch = (if \<not> pk_IsValid vch then False else pubkey_parse lib (pk_data vch) \<noteq> None)"

text \<open>Operations that change the key give it back together with their result.\<close>

definition RecoverCompact :: "('pk, 'sig, 'rsig) secp \<Rightarrow> blob \<Rightarrow> bytes \<Rightarrow> bytes \<Rightarrow> bool \<times> bytes" where
  "RecoverCompact lib hash vchSig vch =
     (if length vchSig \<noteq> COMPACT_SIGNATURE_SIZE then (False, vch)
      else
        let header = (ucast (vchSig ! 0) :: 32 word) - 27;
            recid = header AND 3;
            fComp = header AND 4 \<noteq> 0
        in case parse_compact lib (drop 1 vchSig) recid of
             None \<Rightarrow> (False, vch)
           | Some sig \<Rightarrow>
               (case recover lib sig hash of
                  None \<Rightarrow> (False, vch)
                | Some pubkey \<Rightarrow> (True, CPubKey_Set (pubkey_serialize lib fComp pubkey) vch)))"

definition Decompress :: "('pk, 'sig, 'rsig) secp \<Rightarrow> bytes \<Rightarrow> bool \<times> bytes" where
  "Decompress lib vch =
     (if \<not> pk_IsValid vch then (False, vch)
      else case pubkey_parse lib (pk_data vch) of
        None \<Rightarrow> (False, vch)
      | Some pubkey \<Rightarrow> (True, CPubKey_Set (pubkey_serialize lib False pubkey) vch))"

section \<open>Child keys\<close>

definition BIP32Hash :: "bytes \<Rightarrow> blob \<Rightarrow> 32 word \<Rightarrow> byte \<Rightarrow> bytes \<Rightarrow> bytes" where
  "BIP32Hash junk chainCode nChild header data =
     (let num = [ucast (drop_bit 24 nChild), ucast (drop_bit 16 nChild), ucast (drop_bit 8 nChild), ucast nChild];
          mac = CHMAC_SHA512 junk chainCode;
          mac = hmac_Write (CSHA512 junk) [header] mac;
          mac = hmac_Write (CSHA512 junk) (take 32 data) mac;
          mac = hmac_Write (CSHA512 junk) num mac
      in hmac_Finalize (CSHA512 junk) mac)"

text \<open>The result, the child's array and its chain code.\<close>

definition pk_Derive :: "('pk, 'sig, 'rsig) secp \<Rightarrow> bytes \<Rightarrow> bytes \<Rightarrow> blob \<Rightarrow> 32 word \<Rightarrow> blob \<Rightarrow> bytes \<Rightarrow>
    io_fault + bool \<times> bytes \<times> blob" where
  "pk_Derive lib junk pubkeyChild ccChild nChild cc vch =
     (if \<not> pk_IsValid vch then Inl Abort
      else if drop_bit 31 nChild \<noteq> 0 then Inl Abort
      else if pk_size vch \<noteq> COMPRESSED_PUBLIC_KEY_SIZE then Inl Abort
      else
        let out = BIP32Hash junk cc nChild (vch ! 0) (drop 1 vch);
            ccChild = take 32 (drop 32 out)
        in case pubkey_parse lib (pk_data vch) of
             None \<Rightarrow> Inr (False, pubkeyChild, ccChild)
           | Some pubkey \<Rightarrow>
               (case pubkey_tweak_add lib (take 32 out) pubkey of
                  None \<Rightarrow> Inr (False, pubkeyChild, ccChild)
                | Some pubkey \<Rightarrow> Inr (True, CPubKey_Set (pubkey_serialize lib True pubkey) pubkeyChild, ccChild)))"

section \<open>Facts\<close>

text \<open>A key made from bytes is valid exactly when they have the length that their header announces, and then
  it holds them.\<close>

lemma GetLen_le: "GetLen h \<le> PUBLIC_KEY_SIZE"
  by (simp add: GetLen_def PUBLIC_KEY_SIZE_def COMPRESSED_PUBLIC_KEY_SIZE_def)

lemma pk_of_valid:
  assumes "ValidSize data" and "length vch = PUBLIC_KEY_SIZE"
  shows "pk_data (CPubKey_Set data vch) = data" and "pk_size (CPubKey_Set data vch) = length data"
    and "CPubKey_Set data vch ! 0 = data ! 0" and "take (length data) (CPubKey_Set data vch) = data"
    and "pk_IsValid (CPubKey_Set data vch)" and "length (CPubKey_Set data vch) = PUBLIC_KEY_SIZE"
proof -
  have d: "data \<noteq> []" "GetLen (data ! 0) = length data" using assms(1) by (auto simp: ValidSize_def)
  then have set: "CPubKey_Set data vch = data @ drop (length data) vch"
    by (simp add: CPubKey_Set_def memcpy_at_def)
  then show "CPubKey_Set data vch ! 0 = data ! 0" using d by (simp add: nth_append)
  then show size: "pk_size (CPubKey_Set data vch) = length data" using d by (simp add: pk_size_def)
  show "take (length data) (CPubKey_Set data vch) = data" using set by simp
  then show "pk_data (CPubKey_Set data vch) = data" using size by (simp add: pk_data_def)
  show "pk_IsValid (CPubKey_Set data vch)" using size d by (simp add: pk_IsValid_def)
  show "length (CPubKey_Set data vch) = PUBLIC_KEY_SIZE"
    using set assms(2) GetLen_le [of "data ! 0"] d by simp
qed

lemma pk_of_invalid:
  assumes "\<not> ValidSize data" and "vch \<noteq> []"
  shows "\<not> pk_IsValid (CPubKey_Set data vch)"
proof -
  have "CPubKey_Set data vch = Invalidate vch" using assms(1) by (auto simp: CPubKey_Set_def ValidSize_def Let_def)
  then show ?thesis using assms(2) by (simp add: Invalidate_def pk_IsValid_def pk_size_def GetLen_def)
qed

lemma pk_of_IsValid: "length vch = PUBLIC_KEY_SIZE \<Longrightarrow> pk_IsValid (CPubKey_Set data vch) \<longleftrightarrow> ValidSize data"
  using pk_of_valid(5) [of data vch] pk_of_invalid [of data vch] by (cases vch) (auto simp: PUBLIC_KEY_SIZE_def)

end
