(* ===== verification/SigChecker.thy ===== *)
theory SigChecker
  imports PubKey Transactions Interpreter
begin

text \<open>
  \<open>src/script/checkers\<close>: what a signature of an input signs, and the checks that the interpreter asks for
  (\<open>TransactionSignatureSerializer.hpp\<close>, \<open>SignatureHash.cpp\<close>, \<open>PrecomputedTransactionData.cpp\<close>,
  \<open>GenericTransactionSignatureChecker.cpp\<close>); and \<open>src/other/HashWriter.hpp\<close>, through which it is hashed.

  \<open>unsigned int\<close> is a word of 32 bits. The serializer and the hash writer are records of their
  members; serializing gives the bytes that are written, or the exception of \<open>at\<close>.
\<close>

section \<open>The hash writer\<close>

text \<open>
  \<open>CHashWriter\<close> derives from \<open>std::ostream\<close>, whose default constructor sets no stream buffer: \<open>hw_buf\<close> is
  \<open>None\<close>. Its method \<open>write\<close> hides that of the base class but does not override it. Every \<open>::Serialize\<close>
  takes a \<open>std::ostream&\<close>, so the insertion \<open>operator<<\<close> reaches \<open>std::ostream::write\<close>, which writes to the
  buffer and, without one, writes nothing.
\<close>

record 'h hash_writer =
  hw_buf :: "bytes option"
  hw_ctx :: 'h

definition hw_new :: "'h hasher \<Rightarrow> 'h hash_writer" where
  "hw_new ops = \<lparr>hw_buf = None, hw_ctx = New ops\<rparr>"

definition ostream_write :: "bytes \<Rightarrow> 'h hash_writer \<Rightarrow> 'h hash_writer" where
  "ostream_write data w =
     (case hw_buf w of None \<Rightarrow> w | Some written \<Rightarrow> w\<lparr>hw_buf := Some (written @ data)\<rparr>)"

definition hw_write :: "'h hasher \<Rightarrow> bytes \<Rightarrow> 'h hash_writer \<Rightarrow> 'h hash_writer" where
  "hw_write ops data w = w\<lparr>hw_ctx := Write ops data (hw_ctx w)\<rparr>"

definition hw_insert :: "bytes \<Rightarrow> 'h hash_writer \<Rightarrow> 'h hash_writer" where
  "hw_insert serialized w = ostream_write serialized w"

definition hw_GetHash :: "'h hasher \<Rightarrow> 'h hash_writer \<Rightarrow> blob \<times> 'h hash_writer" where
  "hw_GetHash ops w = (case Finalize ops (hw_ctx w) of (d, h) \<Rightarrow> (d, w\<lparr>hw_ctx := h\<rparr>))"

section \<open>Access to a transaction\<close>

definition txIn_at :: "nat \<Rightarrow> transaction \<Rightarrow> 'e fault + tx_in" where
  "txIn_at i tx = (if i < length (txIns tx) then Inr (txIns tx ! i) else Inl StdExcept)"

definition txOut_at :: "nat \<Rightarrow> transaction \<Rightarrow> 'e fault + tx_out" where
  "txOut_at i tx = (if i < length (txOuts tx) then Inr (txOuts tx ! i) else Inl StdExcept)"

section \<open>Serializing for a signature\<close>

record sig_serializer =
  ss_txTo :: transaction
  ss_scriptCode :: bytes
  ss_nIn :: "32 word"
  ss_fAnyoneCanPay :: bool
  ss_fHashSingle :: bool
  ss_fHashNone :: bool

definition ss_new :: "transaction \<Rightarrow> bytes \<Rightarrow> 32 word \<Rightarrow> flags \<Rightarrow> sig_serializer" where
  "ss_new txToIn scriptCodeIn nInIn nHashTypeIn =
     \<lparr>ss_txTo = txToIn, ss_scriptCode = scriptCodeIn, ss_nIn = nInIn,
      ss_fAnyoneCanPay = flags_isSet nHashTypeIn (sighash_flag SIGHASH_ANYONECANPAY),
      ss_fHashSingle = flags_isSet (flags_mask nHashTypeIn 0x1f) (sighash_flag SIGHASH_SINGLE),
      ss_fHashNone = flags_isSet (flags_mask nHashTypeIn 0x1f) (sighash_flag SIGHASH_NONE)\<rparr>"

text \<open>The loop that counts the separators.\<close>

function count_separators :: "bytes \<Rightarrow> 32 word \<Rightarrow> 32 word" where
  "count_separators it n =
     (case GetScriptOp it of
        (True, opcode, _, it') \<Rightarrow> count_separators it' (if opcode = OP_CODESEPARATOR then n + 1 else n)
      | (False, _, _, _) \<Rightarrow> n)"
  by pat_completeness auto
termination
  by (relation "measure (\<lambda>(it, n). length it)") (auto dest: GetScriptOp_length [OF sym])

declare count_separators.simps [simp del]

text \<open>
  The loop that writes the parts between separators. An iterator is the rest of the script behind it;
  the loop gives what was written, \<open>itBegin\<close> and the place where \<open>GetOp\<close> has failed.
\<close>

function write_parts :: "bytes \<Rightarrow> bytes \<Rightarrow> bytes \<Rightarrow> bytes \<times> bytes \<times> bytes" where
  "write_parts itBegin it out =
     (case GetScriptOp it of
        (True, opcode, _, it') \<Rightarrow>
          if opcode = OP_CODESEPARATOR
          then write_parts it' it' (out @ take (length itBegin - length it' - 1) itBegin)
          else write_parts itBegin it' out
      | (False, _, _, it') \<Rightarrow> (out, itBegin, it'))"
  by pat_completeness auto
termination
  by (relation "measure (\<lambda>(itBegin, it, out). length it)") (auto dest: GetScriptOp_length [OF sym])

declare write_parts.simps [simp del]

definition SerializeScriptCode :: "bytes \<Rightarrow> bytes" where
  "SerializeScriptCode scriptCode =
     (let nCodeSeparators = count_separators scriptCode 0;
          len = (word_of_nat (length scriptCode) - ucast nCodeSeparators :: 64 word);
          (out, itBegin, it) = write_parts scriptCode scriptCode []
      in ser_varint len @ out @ (if itBegin \<noteq> [] then take (length itBegin - length it) itBegin else []))"

definition SerializeInput :: "sig_serializer \<Rightarrow> 32 word \<Rightarrow> 'e fault + bytes" where
  "SerializeInput s nInput =
     (let nInput = (if ss_fAnyoneCanPay s then ss_nIn s else nInput)
      in rbind (txIn_at (unat nInput) (ss_txTo s)) (\<lambda>txIn.
         Inr (ser_TxOutPoint (prevOut txIn) @
           (if nInput \<noteq> ss_nIn s then ser_Script [] else SerializeScriptCode (ss_scriptCode s)) @
           (if nInput \<noteq> ss_nIn s \<and> (ss_fHashSingle s \<or> ss_fHashNone s) then ser_int (0 :: 32 word)
            else ser_int (sequence txIn)))))"

definition SerializeOutput :: "sig_serializer \<Rightarrow> 32 word \<Rightarrow> 'e fault + bytes" where
  "SerializeOutput s nOutput =
     (if ss_fHashSingle s \<and> nOutput \<noteq> ss_nIn s then Inr (ser_TxOut TxOut_new)
      else rbind (txOut_at (unat nOutput) (ss_txTo s)) (\<lambda>txOut. Inr (ser_TxOut txOut)))"

fun ser_each :: "(32 word \<Rightarrow> 'e fault + bytes) \<Rightarrow> nat list \<Rightarrow> 'e fault + bytes" where
  "ser_each f [] = Inr []"
| "ser_each f (i # is) = rbind (f (word_of_nat i)) (\<lambda>b. rbind (ser_each f is) (\<lambda>bs. Inr (b @ bs)))"

definition ss_Serialize :: "sig_serializer \<Rightarrow> 'e fault + bytes" where
  "ss_Serialize s =
     (let tx = ss_txTo s;
          nInputs = (if ss_fAnyoneCanPay s then 1 else word_of_nat (length (txIns tx)) :: 32 word);
          nOutputs = (if ss_fHashNone s then 0 else if ss_fHashSingle s then ss_nIn s + 1
                      else word_of_nat (length (txOuts tx)) :: 32 word)
      in rbind (ser_each (SerializeInput s) [0..<unat nInputs]) (\<lambda>ins.
         rbind (ser_each (SerializeOutput s) [0..<unat nOutputs]) (\<lambda>outs.
         Inr (ser_int (tx_version tx) @ ser_varint (ucast nInputs) @ ins @ ser_varint (ucast nOutputs) @ outs @
           ser_int (lockTime tx)))))"

section \<open>The hash that is signed\<close>

text \<open>The constant \<open>one\<close>: the constructor of a blob reverses the bytes that \<open>Hex::Parse\<close> gives.\<close>

definition one_hash :: blob where
  "one_hash = 1 # replicate 31 0"

lemma one_hash: "blob_of_bytes 32 (replicate 31 0 @ [1]) = Inr one_hash"
  by (simp add: blob_of_bytes_def one_hash_def)

definition SignatureHash :: "'h hasher \<Rightarrow> bytes \<Rightarrow> transaction \<Rightarrow> 32 word \<Rightarrow> flags \<Rightarrow> amount \<Rightarrow> SigVersion \<Rightarrow> 'e fault + blob" where
  "SignatureHash ops scriptCode tx nIn nHashType amount sigversion =
     (if \<not> unat nIn < length (txIns tx) then Inl Abort
      else
        let maskedHashType = flags_mask nHashType 0x1f
        in if flags_isSet maskedHashType (sighash_flag SIGHASH_SINGLE) \<and> unat nIn \<ge> length (txOuts tx)
           then Inr one_hash
           else
             rbind (ss_Serialize (ss_new tx scriptCode nIn nHashType)) (\<lambda>txTmp.
             let ss = hw_insert [nHashType] (hw_insert txTmp (hw_new ops))
             in Inr (fst (hw_GetHash ops ss))))"

text \<open>The cache for witnesses, which nothing reads.\<close>

definition GetPrevoutHash :: "'h hasher \<Rightarrow> transaction \<Rightarrow> blob" where
  "GetPrevoutHash ops tx =
     fst (hw_GetHash ops (fold (\<lambda>txIn. hw_insert (ser_TxOutPoint (prevOut txIn))) (txIns tx) (hw_new ops)))"

definition GetSequenceHash :: "'h hasher \<Rightarrow> transaction \<Rightarrow> blob" where
  "GetSequenceHash ops tx =
     fst (hw_GetHash ops (fold (\<lambda>txIn. hw_insert (ser_int (sequence txIn))) (txIns tx) (hw_new ops)))"

definition GetOutputsHash :: "'h hasher \<Rightarrow> transaction \<Rightarrow> blob" where
  "GetOutputsHash ops tx =
     fst (hw_GetHash ops (fold (\<lambda>txOut. hw_insert (ser_TxOut txOut)) (txOuts tx) (hw_new ops)))"

record tx_cache =
  hashPrevouts :: blob
  hashSequence :: blob
  hashOutputs :: blob
  cache_ready :: bool

definition PrecomputedTransactionData :: "'h hasher \<Rightarrow> transaction \<Rightarrow> tx_cache" where
  "PrecomputedTransactionData ops tx =
     (if HasWitness tx
      then \<lparr>hashPrevouts = GetPrevoutHash ops tx, hashSequence = GetSequenceHash ops tx,
            hashOutputs = GetOutputsHash ops tx, cache_ready = True\<rparr>
      else \<lparr>hashPrevouts = blob_null 32, hashSequence = blob_null 32, hashOutputs = blob_null 32, cache_ready = False\<rparr>)"

section \<open>The checker\<close>

text \<open>A null pointer to the transaction, which the default constructor sets, is \<open>None\<close>.\<close>

record sig_checker =
  sc_txTo :: "transaction option"
  sc_nIn :: "32 word"
  sc_amount :: amount

definition sig_checker_new :: sig_checker where
  "sig_checker_new = \<lparr>sc_txTo = None, sc_nIn = 0, sc_amount = 0\<rparr>"

definition sig_checker_of :: "transaction \<Rightarrow> 32 word \<Rightarrow> amount \<Rightarrow> sig_checker" where
  "sig_checker_of txToIn nInIn amountIn = \<lparr>sc_txTo = Some txToIn, sc_nIn = nInIn, sc_amount = amountIn\<rparr>"

definition sc_tx :: "sig_checker \<Rightarrow> 'e fault + transaction" where
  "sc_tx c = (case sc_txTo c of None \<Rightarrow> Inl Undefined | Some tx \<Rightarrow> Inr tx)"

definition VerifySignature :: "('pk, 'sig, 'rsig) secp \<Rightarrow> bytes \<Rightarrow> bytes \<Rightarrow> blob \<Rightarrow> bool" where
  "VerifySignature lib vchSig pubkey sighash = pk_Verify lib pubkey sighash vchSig"

definition sc_CheckSig :: "('pk, 'sig, 'rsig) secp \<Rightarrow> 'h hasher \<Rightarrow> bytes \<Rightarrow> sig_checker \<Rightarrow>
    bytes \<Rightarrow> bytes \<Rightarrow> bytes \<Rightarrow> SigVersion \<Rightarrow> 'e fault + bool" where
  "sc_CheckSig lib ops junk c sigData pubKeyData script sigversion =
     (let pubkey = CPubKey_of junk pubKeyData
      in if \<not> pk_IsValid pubkey then Inr False
         else if sigData = [] then Inr False
         else
           let nHashType = last sigData;
               vchSig = butlast sigData
           in rbind (sc_tx c) (\<lambda>tx.
              rbind (SignatureHash ops script tx (sc_nIn c) nHashType (sc_amount c) sigversion) (\<lambda>sighash.
              Inr (if \<not> VerifySignature lib vchSig pubkey sighash then False else True))))"

text \<open>\<open>BaseSignatureChecker\<close>: the hash is a member that only a test sets, and the time locks fail.\<close>

definition base_CheckSig :: "('pk, 'sig, 'rsig) secp \<Rightarrow> bytes \<Rightarrow> blob \<Rightarrow> bytes \<Rightarrow> bytes \<Rightarrow> bytes \<Rightarrow> SigVersion \<Rightarrow> bool" where
  "base_CheckSig lib junk hash sigData pubKeyData script sigversion =
     (let pubkey = CPubKey_of junk pubKeyData
      in if \<not> pk_IsValid pubkey then False
         else if sigData = [] then False
         else pk_Verify lib pubkey hash sigData)"

definition sc_CheckLockTime :: "sig_checker \<Rightarrow> script_num \<Rightarrow> 'e fault + bool" where
  "sc_CheckLockTime c nLockTime =
     rbind (sc_tx c) (\<lambda>tx.
     let txLockTime = uint (lockTime tx)
     in if \<not> (txLockTime < LOCKTIME_THRESHOLD \<and> nLockTime < LOCKTIME_THRESHOLD \<or>
              txLockTime \<ge> LOCKTIME_THRESHOLD \<and> nLockTime \<ge> LOCKTIME_THRESHOLD) then Inr False
        else if nLockTime > txLockTime then Inr False
        else rbind (txIn_at (unat (sc_nIn c)) tx) (\<lambda>txIn.
             if 0xFFFFFFFF = sequence txIn then Inr False else Inr True))"

definition SEQUENCE_LOCKTIME_TYPE_FLAG :: int where
  "SEQUENCE_LOCKTIME_TYPE_FLAG = push_bit 22 1"

definition SEQUENCE_LOCKTIME_MASK :: int where
  "SEQUENCE_LOCKTIME_MASK = 0xFFFF"

definition sc_CheckSequence :: "sig_checker \<Rightarrow> script_num \<Rightarrow> 'e fault + bool" where
  "sc_CheckSequence c nSequence =
     rbind (sc_tx c) (\<lambda>tx.
     rbind (txIn_at (unat (sc_nIn c)) tx) (\<lambda>txIn.
     let txToSequence = uint (sequence txIn)
     in if tx_version tx < 2 then Inr False
        else if txToSequence AND SEQUENCE_LOCKTIME_DISABLE_FLAG \<noteq> 0 then Inr False
        else
          let nLockTimeMask = SEQUENCE_LOCKTIME_TYPE_FLAG OR SEQUENCE_LOCKTIME_MASK;
              txToSequenceMasked = txToSequence AND nLockTimeMask;
              nSequenceMasked = sn_and nSequence nLockTimeMask
          in if \<not> (txToSequenceMasked < SEQUENCE_LOCKTIME_TYPE_FLAG \<and> nSequenceMasked < SEQUENCE_LOCKTIME_TYPE_FLAG \<or>
                   txToSequenceMasked \<ge> SEQUENCE_LOCKTIME_TYPE_FLAG \<and> nSequenceMasked \<ge> SEQUENCE_LOCKTIME_TYPE_FLAG)
             then Inr False
             else if nSequenceMasked > txToSequenceMasked then Inr False
             else Inr True))"

text \<open>The checker as the interpreter sees it.\<close>

definition checker_of :: "('pk, 'sig, 'rsig) secp \<Rightarrow> 'h hasher \<Rightarrow> bytes \<Rightarrow> sig_checker \<Rightarrow> checker" where
  "checker_of lib ops junk c =
     \<lparr>CheckSig = sc_CheckSig lib ops junk c, CheckLockTime = sc_CheckLockTime c, CheckSequence = sc_CheckSequence c\<rparr>"

end
