(* ===== verification/CheckerFacts.thy ===== *)
theory CheckerFacts
  imports SigChecker Runs
begin

text \<open>
  What the signature checker depends on. The signed hash is a constant; the script code is written
  without its separators; the time locks are comparisons of what the masks leave; and the interpreter
  uses nothing of a checker but its verdicts on signatures.
\<close>

section \<open>The signed hash\<close>

lemma ostream_write_no_buffer [simp]: "hw_buf w = None \<Longrightarrow> ostream_write data w = w"
  by (simp add: ostream_write_def)

lemma hw_insert_new [simp]: "hw_insert data (hw_new ops) = hw_new ops"
  by (simp add: hw_insert_def hw_new_def)

lemma ser_each_total:
  "\<forall>i \<in> set is. \<exists>b. f (word_of_nat i) = Inr b \<Longrightarrow> \<exists>bs. ser_each f is = Inr bs"
proof (induction "is")
  case (Cons i "is")
  obtain b where "f (word_of_nat i) = Inr b" using Cons.prems by auto
  moreover obtain bs where "ser_each f is = Inr bs" using Cons by auto
  ultimately show ?case by simp
qed simp

text \<open>With the input in range the serializer throws nothing.\<close>

lemma unat_counted:
  assumes "i < unat (word_of_nat n :: 32 word)"
  shows "unat (word_of_nat i :: 32 word) < n"
proof -
  have "unat (word_of_nat n :: 32 word) \<le> n" by (simp add: unat_of_nat)
  moreover have "unat (word_of_nat i :: 32 word) \<le> i" by (simp add: unat_of_nat)
  ultimately show ?thesis using assms by simp
qed

lemma ss_Serialize_total:
  assumes "unat nIn < length (txIns tx)"
  shows "\<exists>bs. (ss_Serialize (ss_new tx scr nIn nHashType) :: 'e fault + bytes) = Inr bs"
proof -
  let ?s = "ss_new tx scr nIn nHashType"
  have ins: "\<exists>b. (SerializeInput ?s (word_of_nat i) :: 'e fault + bytes) = Inr b"
    if "i < unat (if ss_fAnyoneCanPay ?s then 1 else word_of_nat (length (txIns tx)) :: 32 word)" for i
    using that assms unat_counted [of i "length (txIns tx)"]
    by (cases "ss_fAnyoneCanPay ?s") (simp_all add: SerializeInput_def ss_new_def txIn_at_def Let_def)
  have outs: "\<exists>b. (SerializeOutput ?s (word_of_nat i) :: 'e fault + bytes) = Inr b"
    if "i < unat (word_of_nat (length (txOuts tx)) :: 32 word)" for i
    using that unat_counted [of i "length (txOuts tx)"]
    by (simp add: SerializeOutput_def ss_new_def txOut_at_def)
  obtain bs where "ser_each (SerializeInput ?s)
      [0..<unat (if ss_fAnyoneCanPay ?s then 1 else word_of_nat (length (txIns tx)) :: 32 word)] = (Inr bs :: 'e fault + bytes)"
    using ser_each_total [of _ "SerializeInput ?s"] ins by (metis atLeastLessThan_iff set_upt)
  moreover obtain cs where "ser_each (SerializeOutput ?s) [0..<unat (word_of_nat (length (txOuts tx)) :: 32 word)] =
      (Inr cs :: 'e fault + bytes)"
    using ser_each_total [of _ "SerializeOutput ?s"] outs by (metis atLeastLessThan_iff set_upt)
  moreover have "\<not> ss_fHashNone ?s" "\<not> ss_fHashSingle ?s" "ss_txTo ?s = tx" by (simp_all add: ss_new_def)
  ultimately show ?thesis by (simp add: ss_Serialize_def Let_def)
qed

lemma SignatureHash_empty:
  assumes "unat nIn < length (txIns tx)"
  shows "(SignatureHash ops scr tx nIn nHashType amount v :: 'e fault + blob) = Inr (fst (Finalize ops (New ops)))"
proof -
  obtain bs where "(ss_Serialize (ss_new tx scr nIn nHashType) :: 'e fault + bytes) = Inr bs"
    using ss_Serialize_total [OF assms] by blast
  moreover have "fst (hw_GetHash ops (hw_new ops)) = fst (Finalize ops (New ops))"
    by (simp add: hw_GetHash_def hw_new_def split: prod.split)
  ultimately show ?thesis using assms by (simp add: SignatureHash_def)
qed

lemma SignatureHash_constant:
  assumes "length junk = 64" and "unat nIn < length (txIns tx)"
  shows "SignatureHash (CHash256 junk) scr tx nIn nHashType amount v = Inr (fips_SHA256 (fips_SHA256 []))"
  using hasher_contract.Finalize_digest [OF CHash256_contract hasher_contract.rep_New [OF CHash256_contract], OF assms(1) assms(1)]
  by (simp add: SignatureHash_empty [OF assms(2)])

section \<open>The interpreter\<close>

text \<open>Another checker with the same verdicts on signatures.\<close>

abbreviation rechecked :: "checker \<Rightarrow> env \<Rightarrow> env" where
  "rechecked c env \<equiv> env\<lparr>echecker := c\<rparr>"

lemma rechecked_helpers:
  "take_num (rechecked c env) = take_num env" "push_short (rechecked c env) = push_short env"
  "drop_signature (rechecked c env) = drop_signature env"
  by (simp_all add: fun_eq_iff take_num_def push_short_def drop_signature_def cong del: rbind_cong)

lemma rechecked_drops: "drop_signatures (rechecked c env) sigs = drop_signatures env sigs"
proof (induction sigs)
  case (Cons sig sigs)
  show ?case by (rule ext) (simp add: rechecked_helpers Cons cong del: rbind_cong)
qed (simp add: fun_eq_iff)

lemma rechecked_loop:
  assumes "CheckSig c = CheckSig (echecker env)"
  shows "multisig_loop (rechecked c env) scr sigs keys = multisig_loop env scr sigs keys"
proof (induction keys arbitrary: sigs)
  case Nil
  then show ?case by (cases sigs) simp_all
next
  case (Cons key keys)
  then show ?case by (cases sigs) (simp_all add: assms Let_def cong del: rbind_cong if_weak_cong)
qed

lemmas rechecked_simps = rechecked_helpers rechecked_drops rechecked_loop

text \<open>Every operation of the dispatch; the time locks are off.\<close>

lemma rechecked_op:
  assumes "CheckSig c = CheckSig (echecker env)"
  shows "exec_op (rechecked c env) opCode data s = exec_op env opCode data s"
proof -
  have sig: "op_CheckSig (rechecked c env) = op_CheckSig env" "op_CheckMultiSig (rechecked c env) = op_CheckMultiSig env"
    by (simp_all add: fun_eq_iff op_CheckSig_def op_CheckMultiSig_def rechecked_simps assms Let_def
        cong del: rbind_cong if_weak_cong)
  show ?thesis
    unfolding exec_op_def op_CheckSigVerify_def op_CheckMultiSigVerify_def sig
    by (simp add: op_defs rechecked_simps assms Let_def cong del: rbind_cong if_weak_cong)
qed

lemma rechecked_step:
  assumes "CheckSig c = CheckSig (echecker env)"
  shows "exec_step (rechecked c env) s = exec_step env s"
proof -
  have "exec_conditional (rechecked c env) = exec_conditional env"
    by (simp add: fun_eq_iff exec_conditional_def exec_if_def cong del: rbind_cong if_weak_cong)
  moreover have "op_PushData (rechecked c env) = op_PushData env"
    by (simp add: fun_eq_iff op_PushData_def rechecked_helpers cong del: if_weak_cong)
  moreover have "exec_op (rechecked c env) = exec_op env"
    using rechecked_op [OF assms] by (simp add: fun_eq_iff)
  ultimately have "exec_branch (rechecked c env) opCode data must t = exec_branch env opCode data must t" for opCode data must t
    by (simp only: exec_branch_def)
  then have branch: "exec_branch (rechecked c env) opCode data must = exec_branch env opCode data must" for opCode data must
    by (simp add: fun_eq_iff)
  show ?thesis unfolding exec_step_def branch ..
qed

lemma rechecked_run:
  assumes "CheckSig c = CheckSig (echecker env)"
  shows "resetAndExecute (rechecked c env) script s = resetAndExecute env script s"
proof -
  have "exec_loop (rechecked c env) t = exec_loop env t" for t
  proof (induction "length (curPos t)" arbitrary: t rule: less_induct)
    case less
    have "exec_loop (rechecked c env) t' = exec_loop env t'" if "exec_step env t = Inr t'" "curPos t \<noteq> []" for t'
      using less exec_step_curPos [OF that(1)] by blast
    then show ?case
      by (subst (1 2) exec_loop.simps) (auto simp: rechecked_step [OF assms] rbind_def split: sum.split)
  qed
  then show ?thesis by (simp add: resetAndExecute_def execute_def)
qed

section \<open>Verdicts\<close>

lemma sc_CheckSig_verdict:
  assumes "length hjunk = 64" and "length junk = PUBLIC_KEY_SIZE" and "sc_txTo c = Some tx" and "unat (sc_nIn c) < length (txIns tx)"
  shows "sc_CheckSig lib (CHash256 hjunk) junk c sigData pubKeyData scr v =
    Inr (ValidSize pubKeyData \<and> sigData \<noteq> [] \<and>
      pk_Verify lib (CPubKey_of junk pubKeyData) (fips_SHA256 (fips_SHA256 [])) (butlast sigData))"
  using assms(3,4)
  by (simp add: sc_CheckSig_def Let_def SignatureHash_constant [OF assms(1)] sc_tx_def VerifySignature_def CPubKey_of_def
      pk_of_IsValid [OF assms(2)])

section \<open>The script code\<close>

text \<open>The operations of a script, each with its opcode and its bytes, up to the first that cannot be read.\<close>

function ops_of :: "bytes \<Rightarrow> (opcode \<times> bytes) list \<times> bytes" where
  "ops_of scr =
     (case GetScriptOp scr of
        (True, opcode, _, rest) \<Rightarrow>
          (let (ops, bad) = ops_of rest in ((opcode, take (length scr - length rest) scr) # ops, bad))
      | (False, _, _, _) \<Rightarrow> ([], scr))"
  by pat_completeness auto
termination
  by (relation "measure length") (auto dest: GetScriptOp_length [OF sym])

declare ops_of.simps [simp del]

definition is_separator :: "opcode \<times> bytes \<Rightarrow> bool" where
  "is_separator p \<longleftrightarrow> fst p = OP_CODESEPARATOR"

lemma ops_of_step:
  assumes "GetScriptOp scr = (True, opcode, data, rest)"
  shows "\<exists>c. scr = c @ rest \<and> c \<noteq> [] \<and> ops_of scr = ((opcode, c) # fst (ops_of rest), snd (ops_of rest)) \<and>
    (opcode = OP_CODESEPARATOR \<longrightarrow> length c = 1)"
proof -
  obtain c where c: "scr = c @ rest" "c \<noteq> []" using GetScriptOp_suffix [OF assms] by blast
  have "length c = 1" if "opcode = OP_CODESEPARATOR"
  proof -
    obtain x xs where x: "scr = x # xs" using c by (cases c) auto
    then have "x = opcode" using assms by (auto simp: GetScriptOp_def split: if_splits option.splits prod.splits)
    then have "rest = xs" using assms x that GetScriptOp_plain [of x xs] by simp
    then show ?thesis using c(1) x by auto
  qed
  moreover have t: "take (length scr - length rest) scr = c" using c(1) by simp
  have "ops_of scr = ((opcode, c) # fst (ops_of rest), snd (ops_of rest))"
    by (subst ops_of.simps) (simp add: assms t split: prod.split)
  ultimately show ?thesis using c by blast
qed

lemma ops_of_concat: "scr = concat (map snd (fst (ops_of scr))) @ snd (ops_of scr)"
proof (induction scr rule: ops_of.induct)
  case (1 scr)
  show ?case
  proof (cases "GetScriptOp scr")
    case (fields ok opcode data rest)
    show ?thesis
    proof (cases ok)
      case True
      with fields have get: "GetScriptOp scr = (True, opcode, data, rest)" by simp
      have "rest = concat (map snd (fst (ops_of rest))) @ snd (ops_of rest)" by (rule 1 [OF get [symmetric]]) simp_all
      moreover obtain c where "scr = c @ rest" "ops_of scr = ((opcode, c) # fst (ops_of rest), snd (ops_of rest))"
        using ops_of_step [OF get] by blast
      ultimately show ?thesis by simp
    next
      case False
      with fields show ?thesis by (simp add: ops_of.simps [of scr])
    qed
  qed
qed

text \<open>What is left when the separators are dropped.\<close>

definition without_separators :: "bytes \<Rightarrow> bytes" where
  "without_separators scr = concat (map snd (filter (\<lambda>p. \<not> is_separator p) (fst (ops_of scr))))"

definition separators :: "bytes \<Rightarrow> nat" where
  "separators scr = length (filter is_separator (fst (ops_of scr)))"

lemma count_separators_eq: "count_separators scr n = n + word_of_nat (separators scr)"
proof (induction scr n rule: count_separators.induct)
  case (1 scr n)
  show ?case
  proof (cases "GetScriptOp scr")
    case (fields ok opcode data rest)
    show ?thesis
    proof (cases ok)
      case True
      with fields have get: "GetScriptOp scr = (True, opcode, data, rest)" by simp
      obtain c where c: "ops_of scr = ((opcode, c) # fst (ops_of rest), snd (ops_of rest))"
        using ops_of_step [OF get] by blast
      show ?thesis
        using 1 [OF get [symmetric] refl refl refl]
        by (subst count_separators.simps) (simp add: get separators_def c is_separator_def)
    next
      case False
      with fields show ?thesis
        by (subst count_separators.simps) (simp add: separators_def ops_of.simps [of scr])
    qed
  qed
qed

lemma length_without_separators:
  assumes "snd (ops_of scr) = []"
  shows "length scr = length (without_separators scr) + separators scr"
proof -
  have one: "length (snd p) = 1" if "p \<in> set (fst (ops_of s))" "is_separator p" for s p
    using that
  proof (induction s rule: ops_of.induct)
    case (1 s)
    show ?case
    proof (cases "GetScriptOp s")
      case (fields ok opcode data rest)
      show ?thesis
      proof (cases ok)
        case True
        with fields have get: "GetScriptOp s = (True, opcode, data, rest)" by simp
        obtain c where "ops_of s = ((opcode, c) # fst (ops_of rest), snd (ops_of rest))"
          "opcode = OP_CODESEPARATOR \<longrightarrow> length c = 1"
          using ops_of_step [OF get] by blast
        with 1 get show ?thesis by (auto simp: is_separator_def)
      next
        case False
        with fields 1 show ?thesis by (simp add: ops_of.simps [of s])
      qed
    qed
  qed
  have "length (concat (map snd ps)) = length (concat (map snd (filter (\<lambda>p. \<not> is_separator p) ps))) + length (filter is_separator ps)"
    if "\<forall>p \<in> set ps. is_separator p \<longrightarrow> length (snd p) = 1" for ps :: "(opcode \<times> bytes) list"
    using that by (induction ps) auto
  from this [of "fst (ops_of scr)"] show ?thesis
    using one [of _ scr] ops_of_concat [of scr] assms by (simp add: without_separators_def separators_def)
qed

text \<open>The writing loop; \<open>pending\<close> is what lies between \<open>itBegin\<close> and \<open>it\<close>.\<close>

lemma write_parts_eq:
  "snd (ops_of it) = [] \<Longrightarrow>
     (case write_parts (pending @ it) it out of (out', itBegin, it') \<Rightarrow>
        it' = [] \<and> out' @ itBegin = out @ pending @ without_separators it)"
proof (induction it arbitrary: pending out rule: ops_of.induct)
  case (1 it)
  show ?case
  proof (cases "GetScriptOp it")
    case (fields ok opcode data rest)
    show ?thesis
    proof (cases ok)
      case False
      then have "it = []" using 1 fields by (simp add: ops_of.simps [of it])
      then show ?thesis by (simp add: write_parts.simps without_separators_def ops_of.simps [of "[]"])
    next
      case True
      with fields have get: "GetScriptOp it = (True, opcode, data, rest)" by simp
      obtain c where c: "it = c @ rest" "ops_of it = ((opcode, c) # fst (ops_of rest), snd (ops_of rest))"
        "opcode = OP_CODESEPARATOR \<longrightarrow> length c = 1"
        using ops_of_step [OF get] by blast
      note IH = 1(1) [OF get [symmetric] refl refl refl]
      have rest: "snd (ops_of rest) = []" using 1(2) c(2) by simp
      show ?thesis
      proof (cases "opcode = OP_CODESEPARATOR")
        case True
        then obtain x where x: "it = x # rest" using c by (auto simp: length_Suc_conv)
        have "without_separators it = without_separators rest"
          by (simp add: without_separators_def c(2) is_separator_def True)
        then show ?thesis
          using IH [OF rest, of "out @ pending" "[]"] True by (subst write_parts.simps) (simp add: get [unfolded x] x)
      next
        case False
        have "without_separators it = c @ without_separators rest"
          using False by (simp add: without_separators_def c(2) is_separator_def)
        moreover have "write_parts (pending @ it) it out = write_parts (pending @ it) rest out"
          using False by (subst write_parts.simps) (simp add: get)
        ultimately show ?thesis using IH [OF rest, of out "pending @ c"] c(1) by simp
      qed
    qed
  qed
qed

lemma SerializeScriptCode_eq:
  assumes "snd (ops_of scr) = []" and "length scr < 2 ^ 32"
  shows "SerializeScriptCode scr = ser_sized_bytes (without_separators scr)"
proof -
  obtain out itBegin where w: "write_parts scr scr [] = (out, itBegin, [])" "out @ itBegin = without_separators scr"
    using write_parts_eq [OF assms(1), of "[]" "[]"] by (auto split: prod.splits)
  have len: "length scr = length (without_separators scr) + separators scr" by (rule length_without_separators [OF assms(1)])
  then have "ucast (word_of_nat (separators scr) :: 32 word) = (word_of_nat (separators scr) :: 64 word)"
    using assms(2) by (simp add: unsigned_of_nat take_bit_nat_eq_self)
  then have "word_of_nat (length scr) - ucast (count_separators scr 0) = (word_of_nat (length (without_separators scr)) :: 64 word)"
    by (simp add: count_separators_eq len)
  then show ?thesis using w by (auto simp: SerializeScriptCode_def Let_def ser_sized_bytes_def ser_bytes_def)
qed

section \<open>Relative time locks\<close>

lemma type_flag_bit: "bit SEQUENCE_LOCKTIME_TYPE_FLAG n \<longleftrightarrow> n = 22"
  by (simp only: SEQUENCE_LOCKTIME_TYPE_FLAG_def bit_push_bit_iff bit_1_iff) auto

lemma mask_parts:
  fixes x :: int
  assumes "0 \<le> x"
  shows "x AND (SEQUENCE_LOCKTIME_TYPE_FLAG OR SEQUENCE_LOCKTIME_MASK) = (if bit x 22 then SEQUENCE_LOCKTIME_TYPE_FLAG else 0) + x mod 2 ^ 16"
proof -
  have m: "SEQUENCE_LOCKTIME_MASK = mask 16" by (simp add: SEQUENCE_LOCKTIME_MASK_def mask_numeral)
  have "x AND (SEQUENCE_LOCKTIME_TYPE_FLAG OR SEQUENCE_LOCKTIME_MASK) =
      (x AND SEQUENCE_LOCKTIME_TYPE_FLAG) OR (x AND SEQUENCE_LOCKTIME_MASK)"
    by (simp add: bit.conj_disj_distrib)
  also have "\<dots> = (x AND SEQUENCE_LOCKTIME_TYPE_FLAG) + (x AND SEQUENCE_LOCKTIME_MASK)"
    unfolding m
    by (rule disjunctive_add [symmetric]) (auto simp: bit_simps type_flag_bit)
  also have "x AND SEQUENCE_LOCKTIME_TYPE_FLAG = (if bit x 22 then SEQUENCE_LOCKTIME_TYPE_FLAG else 0)"
    by (intro bit_eqI) (auto simp: bit_and_iff type_flag_bit)
  also have "x AND SEQUENCE_LOCKTIME_MASK = x mod 2 ^ 16"
    by (simp add: m take_bit_eq_mod flip: take_bit_eq_mask)
  finally show ?thesis .
qed

abbreviation masked :: "int \<Rightarrow> int" where
  "masked x \<equiv> x AND (SEQUENCE_LOCKTIME_TYPE_FLAG OR SEQUENCE_LOCKTIME_MASK)"

lemma masked_type:
  assumes "0 \<le> x"
  shows "SEQUENCE_LOCKTIME_TYPE_FLAG \<le> masked x \<longleftrightarrow> bit x 22"
proof -
  have "SEQUENCE_LOCKTIME_TYPE_FLAG = 4194304" by (simp add: SEQUENCE_LOCKTIME_TYPE_FLAG_def)
  moreover have "0 \<le> x mod 2 ^ 16" "x mod 2 ^ 16 < 65536" by simp_all
  then have "0 \<le> x mod 2 ^ 16" "\<not> 4194304 \<le> x mod 2 ^ 16" by linarith+
  ultimately show ?thesis unfolding mask_parts [OF assms] by simp
qed

lemma masked_less:
  "0 \<le> x \<Longrightarrow> 0 \<le> y \<Longrightarrow> bit x 22 = bit y 22 \<Longrightarrow> masked x < masked y \<longleftrightarrow> x mod 2 ^ 16 < y mod 2 ^ 16"
  by (simp add: mask_parts)

lemma disable_flag:
  fixes x :: int
  shows "x AND SEQUENCE_LOCKTIME_DISABLE_FLAG = 0 \<longleftrightarrow> \<not> bit x 31"
proof -
  have b: "bit SEQUENCE_LOCKTIME_DISABLE_FLAG n \<longleftrightarrow> n = 31" for n
    by (simp only: SEQUENCE_LOCKTIME_DISABLE_FLAG_def bit_push_bit_iff bit_1_iff) auto
  have "bit (x AND SEQUENCE_LOCKTIME_DISABLE_FLAG) n \<longleftrightarrow> n = 31 \<and> bit x 31" for n
    by (auto simp: bit_and_iff b)
  then show ?thesis by (metis bit_0_eq bit_eqI bot_apply bot_bool_def)
qed

lemma sc_CheckSequence_eq:
  assumes "sc_txTo c = Some tx" and "unat (sc_nIn c) < length (txIns tx)" and "0 \<le> n"
  defines "seq \<equiv> uint (sequence (txIns tx ! unat (sc_nIn c)))"
  shows "sc_CheckSequence c n = Inr (2 \<le> tx_version tx \<and> \<not> bit seq 31 \<and> (bit n 22 \<longleftrightarrow> bit seq 22) \<and>
    n mod 2 ^ 16 \<le> seq mod 2 ^ 16)"
proof -
  have seq: "0 \<le> seq" by (simp add: seq_def)
  have "sc_CheckSequence c n =
      (if tx_version tx < 2 \<or> bit seq 31 \<or> (SEQUENCE_LOCKTIME_TYPE_FLAG \<le> masked seq) \<noteq> (SEQUENCE_LOCKTIME_TYPE_FLAG \<le> masked n) \<or>
          masked seq < masked n then Inr False else Inr True)"
    using assms(1,2) unfolding sc_CheckSequence_def sc_tx_def txIn_at_def sn_and_def
    by (auto simp: seq_def [symmetric] Let_def disable_flag not_le [symmetric])
  then show ?thesis
    using masked_less [OF seq assms(3)]
    by (cases "bit n 22 = bit seq 22") (auto simp: masked_type [OF seq] masked_type [OF assms(3)] not_less)
qed

lemma sc_CheckLockTime_eq:
  assumes "sc_txTo c = Some tx" and "unat (sc_nIn c) < length (txIns tx)"
  shows "sc_CheckLockTime c n = Inr ((n < 500000000 \<longleftrightarrow> lockTime tx < 500000000) \<and> n \<le> uint (lockTime tx) \<and>
    sequence (txIns tx ! unat (sc_nIn c)) \<noteq> - 1)"
proof -
  have "uint (lockTime tx) < 500000000 \<longleftrightarrow> lockTime tx < 500000000" by (simp add: word_less_def)
  then show ?thesis
    using assms by (auto simp: sc_CheckLockTime_def sc_tx_def txIn_at_def LOCKTIME_THRESHOLD_def Let_def)
qed

end
