(* ===== verification/CheckerProps.thy ===== *)
theory CheckerProps
  imports CheckerFacts
begin

text \<open>The properties of the signature checker, with examples.\<close>

section \<open>Examples\<close>

text \<open>A library in which a signature is valid for a key when it equals the key.\<close>

definition plain_lib :: "(bytes, bytes, bytes) secp" where
  "plain_lib =
     \<lparr>pubkey_parse = Some, pubkey_serialize = (\<lambda>c k. k), pubkey_tweak_add = (\<lambda>t k. Some k), pubkey_create = Some,
      seckey_verify = (\<lambda>k. True), privkey_tweak_add = (\<lambda>t k. (True, k)), parse_der_lax = Some,
      sig_normalize = (\<lambda>s. (False, s)), ecdsa_verify = (\<lambda>s h k. s = k), ecdsa_sign = (\<lambda>h k e. Some k),
      sig_compact = id, sig_der = id, parse_compact = (\<lambda>s r. Some s), recover = (\<lambda>s h. Some s),
      sign_recoverable = (\<lambda>h k. Some k), recoverable_compact = (\<lambda>s. (s, 0)), privkey_export_der = (\<lambda>k c. Some k),
      privkey_import_der = (\<lambda>d. (True, d))\<rparr>"

definition locked_tx :: "32 word \<Rightarrow> 32 word \<Rightarrow> transaction" where
  "locked_tx lock seq = Transaction_new\<lparr>tx_version := 2, txIns := [TxIn_new\<lparr>sequence := seq\<rparr>], lockTime := lock\<rparr>"

section \<open>Properties\<close>

text \<open>C4: signatures do not bind the transaction. The bytes to sign never reach the hash, because the hash writer
  does not override what the insertion calls: the hash is that of no bytes, whatever the script
  code, the transaction and the hash type are. Therefore every script gives the same result
  for any two transactions.\<close>

theorem script_ignores_transaction:
  assumes "length hjunk = 64" and "length junk = 65"
    and "unat nIn < length (txIns tx)" and "unat nIn' < length (txIns tx')"
  shows "SignatureHash (CHash256 hjunk) scr tx nIn hashType amount v = Inr (fips_SHA256 (fips_SHA256 [])) \<and>
    resetAndExecute (env\<lparr>echecker := checker_of lib (CHash256 hjunk) junk (sig_checker_of tx nIn amount)\<rparr>) script s =
    resetAndExecute (env\<lparr>echecker := checker_of lib (CHash256 hjunk) junk (sig_checker_of tx' nIn' amount')\<rparr>) script s"
proof
  let ?c = "checker_of lib (CHash256 hjunk) junk (sig_checker_of tx nIn amount)"
  let ?c' = "checker_of lib (CHash256 hjunk) junk (sig_checker_of tx' nIn' amount')"
  have junk: "length junk = PUBLIC_KEY_SIZE" using assms(2) by (simp add: PUBLIC_KEY_SIZE_def)
  have verdict: "(sc_CheckSig lib (CHash256 hjunk) junk (sig_checker_of t n a) sigData key sc v :: script_fault + bool) =
      Inr (ValidSize key \<and> sigData \<noteq> [] \<and>
        pk_Verify lib (CPubKey_of junk key) (fips_SHA256 (fips_SHA256 [])) (butlast sigData))"
    if "unat n < length (txIns t)" for t n a sigData key sc v
    by (rule sc_CheckSig_verdict [OF assms(1) junk, of _ t]) (simp_all add: sig_checker_of_def that)
  have "CheckSig ?c = CheckSig (echecker (env\<lparr>echecker := ?c'\<rparr>))"
    using verdict [OF assms(3)] verdict [OF assms(4)] by (simp add: fun_eq_iff checker_of_def)
  from rechecked_run [OF this, of script s]
  show "resetAndExecute (env\<lparr>echecker := ?c\<rparr>) script s = resetAndExecute (env\<lparr>echecker := ?c'\<rparr>) script s" by simp
qed (rule SignatureHash_constant [OF assms(1,3)])

theorem script_ignores_transaction_witness:
  "resetAndExecute \<lparr>eflags = 0, echecker = checker_of plain_lib (CHash256 (replicate 64 0)) (replicate 65 0)
        (sig_checker_of (locked_tx 1 2) 0 3), esigversion = BASE, ehash = program_hashers (replicate 64 0) (replicate 64 0)\<rparr>
      [2, 7, 1, 1, 2, OP_CHECKSIG] new_interp =
   resetAndExecute \<lparr>eflags = 0, echecker = checker_of plain_lib (CHash256 (replicate 64 0)) (replicate 65 0)
        (sig_checker_of (locked_tx 4 5) 0 6), esigversion = BASE, ehash = program_hashers (replicate 64 0) (replicate 64 0)\<rparr>
      [2, 7, 1, 1, 2, OP_CHECKSIG] new_interp"
  (is "resetAndExecute ?env ?script new_interp = _")
proof -
  have "length (replicate 64 (0 :: byte)) = 64" "length (replicate 65 (0 :: byte)) = 65"
    "unat (0 :: 32 word) < length (txIns (locked_tx 1 2))" "unat (0 :: 32 word) < length (txIns (locked_tx 4 5))"
    by (simp_all add: locked_tx_def)
  note same = script_ignores_transaction [OF this, where env = ?env and lib = plain_lib and amount = 3 and amount' = 6
      and script = ?script and s = new_interp]
  show ?thesis using conjunct2 [OF same] by simp
qed

text \<open>the script code that is signed. A script whose operations can all be read is written with its length
  and without its \<open>OP_CODESEPARATOR\<close> operations, everything else in place.\<close>

lemma script_code_without_separators:
  assumes "snd (ops_of scr) = []" and "length scr < 2 ^ 32"
  shows "SerializeScriptCode scr = ser_sized_bytes (without_separators scr) \<and>
    length scr = length (without_separators scr) + separators scr"
  using SerializeScriptCode_eq [OF assms] length_without_separators [OF assms(1)] by blast

lemma script_code_without_separators_witness:
  "SerializeScriptCode [OP_CODESEPARATOR, 2, OP_CODESEPARATOR, 7, OP_CODESEPARATOR, OP_DUP] =
     ser_sized_bytes [2, OP_CODESEPARATOR, 7, OP_DUP]"
proof -
  let ?s = "[OP_CODESEPARATOR, 2, OP_CODESEPARATOR, 7, OP_CODESEPARATOR, OP_DUP]"
  have ops: "ops_of ?s = ([(OP_CODESEPARATOR, [OP_CODESEPARATOR]), (2, [2, OP_CODESEPARATOR, 7]),
      (OP_CODESEPARATOR, [OP_CODESEPARATOR]), (OP_DUP, [OP_DUP])], [])"
    by (simp add: ops_of.simps GetScriptOp_def operand_size_def)
  then have "without_separators ?s = [2, OP_CODESEPARATOR, 7, OP_DUP]"
    by (simp add: without_separators_def is_separator_def)
  then show ?thesis using script_code_without_separators [of ?s] ops by simp
qed

text \<open>the time locks of the checker. \<open>CheckLockTime\<close> compares two heights or two times, and the input must not be
  final; \<open>CheckSequence\<close> needs version 2, an input whose lock is enabled, the same unit (bit 22) on both
  sides, and then compares the low sixteen bits. Neither faults for an input in range.\<close>

lemma time_locks:
  assumes "sc_txTo c = Some tx" and "unat (sc_nIn c) < length (txIns tx)" and "0 \<le> n"
    and "seq = sequence (txIns tx ! unat (sc_nIn c))"
  shows "sc_CheckLockTime c n =
      Inr ((n < 500000000 \<longleftrightarrow> lockTime tx < 500000000) \<and> n \<le> uint (lockTime tx) \<and> seq \<noteq> - 1) \<and>
    sc_CheckSequence c n =
      Inr (2 \<le> tx_version tx \<and> \<not> bit seq 31 \<and> (bit n 22 \<longleftrightarrow> bit seq 22) \<and> n mod 2 ^ 16 \<le> uint seq mod 2 ^ 16)"
  using sc_CheckLockTime_eq [OF assms(1,2), of n] sc_CheckSequence_eq [OF assms(1-3)] assms(4) by (simp add: bit_uint_iff)

lemma time_locks_witness:
  "sc_CheckLockTime (sig_checker_of (locked_tx 100 5) 0 0) 99 = Inr True \<and>
   sc_CheckSequence (sig_checker_of (locked_tx 100 5) 0 0) 6 = Inr False"
proof -
  let ?c = "sig_checker_of (locked_tx 100 5) 0 0"
  have c: "sc_txTo ?c = Some (locked_tx 100 5)" "unat (sc_nIn ?c) < length (txIns (locked_tx 100 5))" "(0 :: int) \<le> 99"
    "(0 :: int) \<le> 6" "5 = sequence (txIns (locked_tx 100 5) ! unat (sc_nIn ?c))"
    by (simp_all add: sig_checker_of_def locked_tx_def)
  show ?thesis
    unfolding time_locks [OF c(1,2,3,5), THEN conjunct1] time_locks [OF c(1,2,4,5), THEN conjunct2]
    by (simp add: locked_tx_def)
qed

end
