(* ===== verification/Keys.thy ===== *)
theory Keys
  imports PubKey
begin

text \<open>
  \<open>src/crypto/keys/CKey.hpp\<close>, \<open>CKey.cpp\<close>, \<open>CExtKey.cpp\<close> and \<open>CExtPubKey.cpp\<close>: private keys and extended keys.

  Random bytes come from a sequence of draws. Loops that draw or sign until the result fits may not
  end: they are partial functions. \<open>hjunk\<close> is what new hashers hold in their buffers, \<open>junk\<close> the array of a new
  public key, and \<open>ops160\<close> the hasher of key identifiers.
\<close>

section \<open>Private keys\<close>

record ckey =
  k_fValid :: bool
  k_fCompressed :: bool
  k_data :: bytes

definition CKey_new :: ckey where
  "CKey_new = \<lparr>k_fValid = False, k_fCompressed = False, k_data = replicate 32 0\<rparr>"

definition ck_size :: "ckey \<Rightarrow> nat" where
  "ck_size k = (if k_fValid k then length (k_data k) else 0)"

definition ck_eq :: "ckey \<Rightarrow> ckey \<Rightarrow> bool" where
  "ck_eq a b \<longleftrightarrow>
     k_fCompressed a = k_fCompressed b \<and> ck_size a = ck_size b \<and> take (ck_size a) (k_data a) = take (ck_size a) (k_data b)"

definition ck_Check :: "('pk, 'sig, 'rsig) secp \<Rightarrow> bytes \<Rightarrow> bool" where
  "ck_Check lib vch = seckey_verify lib (take 32 vch)"

definition ck_Set :: "('pk, 'sig, 'rsig) secp \<Rightarrow> bytes \<Rightarrow> bool \<Rightarrow> ckey \<Rightarrow> ckey" where
  "ck_Set lib data fCompressedIn k =
     (if ck_Check lib data
      then k\<lparr>k_data := take (length (k_data k)) data, k_fValid := True, k_fCompressed := fCompressedIn\<rparr>
      else k\<lparr>k_fValid := False\<rparr>)"

partial_function (option) draw_key :: "('pk, 'sig, 'rsig) secp \<Rightarrow> (nat \<Rightarrow> bytes) \<Rightarrow> nat \<Rightarrow> bytes option" where
  "draw_key lib rand i = (if ck_Check lib (rand i) then Some (rand i) else draw_key lib rand (Suc i))"

definition MakeNewKey :: "('pk, 'sig, 'rsig) secp \<Rightarrow> (nat \<Rightarrow> bytes) \<Rightarrow> bool \<Rightarrow> ckey \<Rightarrow> ckey option" where
  "MakeNewKey lib rand fCompressedIn k =
     (case draw_key lib rand 0 of
        None \<Rightarrow> None
      | Some d \<Rightarrow> Some (k\<lparr>k_data := d, k_fValid := True, k_fCompressed := fCompressedIn\<rparr>))"

definition GetPrivKey :: "('pk, 'sig, 'rsig) secp \<Rightarrow> ckey \<Rightarrow> io_fault + bytes" where
  "GetPrivKey lib k =
     (if \<not> k_fValid k then Inl Abort
      else case privkey_export_der lib (k_data k) (k_fCompressed k) of None \<Rightarrow> Inl Abort | Some der \<Rightarrow> Inr der)"

definition GetPubKey :: "('pk, 'sig, 'rsig) secp \<Rightarrow> bytes \<Rightarrow> ckey \<Rightarrow> io_fault + bytes" where
  "GetPubKey lib junk k =
     (if \<not> k_fValid k then Inl Abort
      else case pubkey_create lib (k_data k) of
        None \<Rightarrow> Inl Abort
      | Some pubkey \<Rightarrow>
          let ser = pubkey_serialize lib (k_fCompressed k) pubkey;
              result = memcpy_at (CPubKey_new junk) 0 ser
          in if pk_size result \<noteq> length ser then Inl Abort
             else if \<not> pk_IsValid result then Inl Abort
             else Inr result)"

section \<open>Signing\<close>

definition SigHasLowR :: "('pk, 'sig, 'rsig) secp \<Rightarrow> 'sig \<Rightarrow> bool" where
  "SigHasLowR lib sig \<longleftrightarrow> sig_compact lib sig ! 0 < 0x80"

definition entropy_of :: "32 word \<Rightarrow> bytes" where
  "entropy_of n = WriteLE32 n @ replicate 28 0"

partial_function (option) grind_loop ::
  "('pk, 'sig, 'rsig) secp \<Rightarrow> blob \<Rightarrow> bytes \<Rightarrow> bool \<Rightarrow> 32 word \<Rightarrow> 'sig option \<Rightarrow> 'sig option option" where
  "grind_loop lib hash key grind counter ret =
     (case ret of
        None \<Rightarrow> Some None
      | Some sig \<Rightarrow>
          if \<not> SigHasLowR lib sig \<and> grind
          then grind_loop lib hash key grind (counter + 1) (ecdsa_sign lib hash key (Some (entropy_of (counter + 1))))
          else Some (Some sig))"

text \<open>The result and the signature; the argument is what the vector holds before.\<close>

definition ck_Sign :: "('pk, 'sig, 'rsig) secp \<Rightarrow> blob \<Rightarrow> bytes \<Rightarrow> bool \<Rightarrow> 32 word \<Rightarrow> ckey \<Rightarrow> (io_fault + bool \<times> bytes) option" where
  "ck_Sign lib hash vchSig grind test_case k =
     (if \<not> k_fValid k then Some (Inr (False, vchSig))
      else
        let ret = ecdsa_sign lib hash (k_data k) (if \<not> grind \<and> test_case \<noteq> 0 then Some (entropy_of test_case) else None)
        in case grind_loop lib hash (k_data k) grind 0 ret of
             None \<Rightarrow> None
           | Some None \<Rightarrow> Some (Inl Abort)
           | Some (Some sig) \<Rightarrow> Some (Inr (True, sig_der lib sig)))"

definition ck_SignCompact :: "('pk, 'sig, 'rsig) secp \<Rightarrow> blob \<Rightarrow> bytes \<Rightarrow> ckey \<Rightarrow> io_fault + bool \<times> bytes" where
  "ck_SignCompact lib hash vchSig k =
     (if \<not> k_fValid k then Inr (False, vchSig)
      else case sign_recoverable lib hash (k_data k) of
        None \<Rightarrow> Inl Abort
      | Some sig \<Rightarrow>
          (case recoverable_compact lib sig of
             (rs, rec) \<Rightarrow>
               if rec = - 1 then Inl Abort
               else Inr (True, ucast (27 + rec + (if k_fCompressed k then 4 else 0)) # rs)))"

text \<open>The text that is signed to verify a key: \<open>"Bitcoin key verification\n"\<close>.\<close>

definition verification_text :: bytes where
  "verification_text = map (\<lambda>c. word_of_nat (of_char c)) (''Bitcoin key verification'' @ [char_of (10 :: nat)])"

definition VerifyPubKey :: "('pk, 'sig, 'rsig) secp \<Rightarrow> 'h hasher \<Rightarrow> bytes \<Rightarrow> bytes \<Rightarrow> ckey \<Rightarrow> (io_fault + bool) option" where
  "VerifyPubKey lib ops rnd pubkey k =
     (if pk_IsCompressed pubkey \<noteq> k_fCompressed k then Some (Inr False)
      else
        let hash = fst (Finalize ops (Write ops rnd (Write ops verification_text (New ops))))
        in case ck_Sign lib hash [] True 0 k of
             None \<Rightarrow> None
           | Some (Inl e) \<Rightarrow> Some (Inl e)
           | Some (Inr (_, vchSig)) \<Rightarrow> Some (Inr (pk_Verify lib pubkey hash vchSig)))"

definition ck_Load :: "('pk, 'sig, 'rsig) secp \<Rightarrow> 'h hasher \<Rightarrow> bytes \<Rightarrow> bytes \<Rightarrow> bytes \<Rightarrow> bool \<Rightarrow> ckey \<Rightarrow>
    ((io_fault + bool) \<times> ckey) option" where
  "ck_Load lib ops rnd privkey vchPubKey fSkipCheck k =
     (case privkey_import_der lib privkey of
        (ok, data) \<Rightarrow>
          if \<not> ok then Some (Inr False, k\<lparr>k_data := data\<rparr>)
          else
            let k = k\<lparr>k_data := data, k_fCompressed := pk_IsCompressed vchPubKey, k_fValid := True\<rparr>
            in if fSkipCheck then Some (Inr True, k)
               else case VerifyPubKey lib ops rnd vchPubKey k of None \<Rightarrow> None | Some r \<Rightarrow> Some (r, k))"

section \<open>Child keys\<close>

text \<open>What \<open>BIP32Hash\<close> gives for a child: of the public key, or of the private key for a hardened child.\<close>

definition child_hash :: "('pk, 'sig, 'rsig) secp \<Rightarrow> bytes \<Rightarrow> bytes \<Rightarrow> 32 word \<Rightarrow> blob \<Rightarrow> ckey \<Rightarrow> io_fault + bytes" where
  "child_hash lib hjunk junk nChild cc k =
     (if drop_bit 31 nChild = 0
      then rbind (GetPubKey lib junk k) (\<lambda>pubkey.
           if pk_size pubkey \<noteq> COMPRESSED_PUBLIC_KEY_SIZE then Inl Abort
           else Inr (BIP32Hash hjunk cc nChild (pubkey ! 0) (drop 1 pubkey)))
      else if ck_size k \<noteq> 32 then Inl Abort
      else Inr (BIP32Hash hjunk cc nChild 0 (k_data k)))"

definition ck_Derive :: "('pk, 'sig, 'rsig) secp \<Rightarrow> bytes \<Rightarrow> bytes \<Rightarrow> ckey \<Rightarrow> 32 word \<Rightarrow> blob \<Rightarrow> ckey \<Rightarrow>
    io_fault + bool \<times> ckey \<times> blob" where
  "ck_Derive lib hjunk junk keyChild nChild cc k =
     (if \<not> k_fValid k then Inl Abort
      else if \<not> k_fCompressed k then Inl Abort
      else rbind (child_hash lib hjunk junk nChild cc k) (\<lambda>vout.
        let data = memcpy_at (k_data keyChild) 0 (take 32 (k_data k));
            (ret, data) = privkey_tweak_add lib (take 32 vout) data
        in Inr (ret, keyChild\<lparr>k_data := data, k_fCompressed := True, k_fValid := ret\<rparr>, take 32 (drop 32 vout))))"

section \<open>Extended keys\<close>

record ext_key =
  xk_nDepth :: byte
  xk_fingerprint :: bytes
  xk_nChild :: "32 word"
  xk_chaincode :: blob
  xk_key :: ckey

record ext_pubkey =
  xp_nDepth :: byte
  xp_fingerprint :: bytes
  xp_nChild :: "32 word"
  xp_chaincode :: blob
  xp_pubkey :: bytes

definition xk_eq :: "ext_key \<Rightarrow> ext_key \<Rightarrow> bool" where
  "xk_eq a b \<longleftrightarrow>
     xk_nDepth a = xk_nDepth b \<and> xk_fingerprint a = xk_fingerprint b \<and> xk_nChild a = xk_nChild b \<and>
     xk_chaincode a = xk_chaincode b \<and> ck_eq (xk_key a) (xk_key b)"

definition xp_eq :: "ext_pubkey \<Rightarrow> ext_pubkey \<Rightarrow> bool" where
  "xp_eq a b \<longleftrightarrow>
     xp_nDepth a = xp_nDepth b \<and> xp_fingerprint a = xp_fingerprint b \<and> xp_nChild a = xp_nChild b \<and>
     xp_chaincode a = xp_chaincode b \<and> pk_eq (xp_pubkey a) (xp_pubkey b)"

definition xk_Derive :: "('pk, 'sig, 'rsig) secp \<Rightarrow> 'h hasher \<Rightarrow> bytes \<Rightarrow> bytes \<Rightarrow> ext_key \<Rightarrow> 32 word \<Rightarrow> ext_key \<Rightarrow>
    io_fault + bool \<times> ext_key" where
  "xk_Derive lib ops160 hjunk junk out nChild k =
     rbind (GetPubKey lib junk (xk_key k)) (\<lambda>pubkey.
     rbind (ck_Derive lib hjunk junk (xk_key out) nChild (xk_chaincode k) (xk_key k)) (\<lambda>(ret, key, chaincode).
     Inr (ret, \<lparr>xk_nDepth = xk_nDepth k + 1, xk_fingerprint = take 4 (pk_GetID ops160 pubkey), xk_nChild = nChild,
       xk_chaincode = chaincode, xk_key = key\<rparr>)))"

definition seed_key :: bytes where
  "seed_key = map (\<lambda>c. word_of_nat (of_char c)) ''Bitcoin seed''"

definition xk_SetSeed :: "('pk, 'sig, 'rsig) secp \<Rightarrow> bytes \<Rightarrow> bytes \<Rightarrow> ext_key \<Rightarrow> ext_key" where
  "xk_SetSeed lib hjunk seed k =
     (let vout = hmac_Finalize (CSHA512 hjunk) (hmac_Write (CSHA512 hjunk) seed (CHMAC_SHA512 hjunk seed_key))
      in \<lparr>xk_nDepth = 0, xk_fingerprint = replicate 4 0, xk_nChild = 0, xk_chaincode = take 32 (drop 32 vout),
          xk_key = ck_Set lib (take 32 vout) True (xk_key k)\<rparr>)"

definition Neuter :: "('pk, 'sig, 'rsig) secp \<Rightarrow> bytes \<Rightarrow> ext_key \<Rightarrow> io_fault + ext_pubkey" where
  "Neuter lib junk k =
     rbind (GetPubKey lib junk (xk_key k)) (\<lambda>pubkey.
     Inr \<lparr>xp_nDepth = xk_nDepth k, xp_fingerprint = xk_fingerprint k, xp_nChild = xk_nChild k,
       xp_chaincode = xk_chaincode k, xp_pubkey = pubkey\<rparr>)"

definition xp_Derive :: "('pk, 'sig, 'rsig) secp \<Rightarrow> 'h hasher \<Rightarrow> bytes \<Rightarrow> ext_pubkey \<Rightarrow> 32 word \<Rightarrow> ext_pubkey \<Rightarrow>
    io_fault + bool \<times> ext_pubkey" where
  "xp_Derive lib ops160 hjunk out nChild k =
     rbind (pk_Derive lib hjunk (xp_pubkey out) (xp_chaincode out) nChild (xp_chaincode k) (xp_pubkey k))
       (\<lambda>(ret, pubkey, chaincode).
     Inr (ret, \<lparr>xp_nDepth = xp_nDepth k + 1, xp_fingerprint = take 4 (pk_GetID ops160 (xp_pubkey k)), xp_nChild = nChild,
       xp_chaincode = chaincode, xp_pubkey = pubkey\<rparr>))"

text \<open>The 74 bytes of an extended key.\<close>

definition BIP32_EXTKEY_SIZE :: nat where
  "BIP32_EXTKEY_SIZE = 74"

definition child_bytes :: "32 word \<Rightarrow> bytes" where
  "child_bytes n = [ucast (drop_bit 24 n AND 0xFF), ucast (drop_bit 16 n AND 0xFF), ucast (drop_bit 8 n AND 0xFF), ucast (n AND 0xFF)]"

definition child_number :: "bytes \<Rightarrow> 32 word" where
  "child_number c = push_bit 24 (ucast (c ! 5)) OR push_bit 16 (ucast (c ! 6)) OR push_bit 8 (ucast (c ! 7)) OR ucast (c ! 8)"

definition xk_Encode :: "ext_key \<Rightarrow> io_fault + bytes" where
  "xk_Encode k =
     (if ck_size (xk_key k) \<noteq> 32 then Inl Abort
      else Inr ([xk_nDepth k] @ take 4 (xk_fingerprint k) @ child_bytes (xk_nChild k) @ take 32 (xk_chaincode k) @ [0] @
        take 32 (k_data (xk_key k))))"

definition xk_Decode :: "('pk, 'sig, 'rsig) secp \<Rightarrow> bytes \<Rightarrow> ext_key \<Rightarrow> ext_key" where
  "xk_Decode lib c k =
     \<lparr>xk_nDepth = c ! 0, xk_fingerprint = take 4 (drop 1 c), xk_nChild = child_number c,
      xk_chaincode = take 32 (drop 9 c), xk_key = ck_Set lib (take (BIP32_EXTKEY_SIZE - 42) (drop 42 c)) True (xk_key k)\<rparr>"

definition xp_Encode :: "ext_pubkey \<Rightarrow> io_fault + bytes" where
  "xp_Encode k =
     (if pk_size (xp_pubkey k) \<noteq> COMPRESSED_PUBLIC_KEY_SIZE then Inl Abort
      else Inr ([xp_nDepth k] @ take 4 (xp_fingerprint k) @ child_bytes (xp_nChild k) @ take 32 (xp_chaincode k) @
        take COMPRESSED_PUBLIC_KEY_SIZE (xp_pubkey k)))"

definition xp_Decode :: "bytes \<Rightarrow> ext_pubkey \<Rightarrow> ext_pubkey" where
  "xp_Decode c k =
     \<lparr>xp_nDepth = c ! 0, xp_fingerprint = take 4 (drop 1 c), xp_nChild = child_number c,
      xp_chaincode = take 32 (drop 9 c), xp_pubkey = CPubKey_Set (take (BIP32_EXTKEY_SIZE - 41) (drop 41 c)) (xp_pubkey k)\<rparr>"

end
