(* ===== verification/KeyProps.thy ===== *)
theory KeyProps
  imports Keys
begin

text \<open>
  Extended keys: their encoding, and the derivation of public keys against that of private keys, for a library
  that satisfies the documented laws of libsecp256k1.
\<close>

section \<open>The laws of the library\<close>

text \<open>
  A compressed key has 33 bytes and starts with 2 or 3, parsing inverts serializing, and adding a tweak to a private key
  adds it to its public key; the two additions fail for the same tweaks.
\<close>

definition secp_laws :: "('pk, 'sig, 'rsig) secp \<Rightarrow> bool" where
  "secp_laws lib \<longleftrightarrow>
     (\<forall>P. length (pubkey_serialize lib True P) = 33 \<and> hd (pubkey_serialize lib True P) \<in> {2, 3}) \<and>
     (\<forall>c P. pubkey_parse lib (pubkey_serialize lib c P) = Some P) \<and>
     (\<forall>k t P. pubkey_create lib k = Some P \<longrightarrow>
        (if fst (privkey_tweak_add lib t k)
         then pubkey_tweak_add lib t P = pubkey_create lib (snd (privkey_tweak_add lib t k)) \<and> pubkey_tweak_add lib t P \<noteq> None
         else pubkey_tweak_add lib t P = None))"

lemma compressed_key:
  fixes lib :: "('pk, 'sig, 'rsig) secp" and P :: 'pk
  assumes "secp_laws lib" and "length junk = PUBLIC_KEY_SIZE"
  defines "ser \<equiv> pubkey_serialize lib True P"
  shows "ValidSize ser" and "memcpy_at (CPubKey_new junk) 0 ser = CPubKey_Set ser (CPubKey_new junk)"
    and "length ser = 33" and "pubkey_parse lib ser = Some P"
proof -
  have ser: "length ser = 33" "hd ser \<in> {2, 3}" using assms(1) by (simp_all add: secp_laws_def ser_def)
  then have "ser ! 0 = hd ser" by (cases ser) auto
  then have len: "GetLen (ser ! 0) = 33" using ser(2) by (auto simp: GetLen_def COMPRESSED_PUBLIC_KEY_SIZE_def)
  with ser show "ValidSize ser" by (simp add: ValidSize_def)
  have "take 33 ser = ser" using ser(1) by simp
  with len ser(1) show "memcpy_at (CPubKey_new junk) 0 ser = CPubKey_Set ser (CPubKey_new junk)"
    by (auto simp: CPubKey_Set_def)
  show "length ser = 33" by (rule ser(1))
  show "pubkey_parse lib ser = Some P" using assms(1) by (simp add: secp_laws_def ser_def)
qed

lemma GetPubKey_compressed:
  assumes "secp_laws lib" and "length junk = PUBLIC_KEY_SIZE" and "k_fValid k" and "k_fCompressed k"
    and "pubkey_create lib (k_data k) = Some P"
  shows "GetPubKey lib junk k = Inr (CPubKey_Set (pubkey_serialize lib True P) (CPubKey_new junk))"
proof -
  have new: "length (CPubKey_new junk) = PUBLIC_KEY_SIZE" using assms(2) by (simp add: CPubKey_new_def Invalidate_def)
  note c = compressed_key [OF assms(1,2), of P]
  show ?thesis
    using assms(3-5) c(1,2) pk_of_valid(2,5) [OF c(1) new] by (simp add: GetPubKey_def Let_def)
qed

section \<open>Derivation\<close>

lemma tweaked:
  assumes "secp_laws lib" and "pubkey_create lib k = Some P"
  shows "fst (privkey_tweak_add lib t k) \<Longrightarrow>
      \<exists>Q. pubkey_tweak_add lib t P = Some Q \<and> pubkey_create lib (snd (privkey_tweak_add lib t k)) = Some Q"
    and "\<not> fst (privkey_tweak_add lib t k) \<Longrightarrow> pubkey_tweak_add lib t P = None"
proof -
  have "if fst (privkey_tweak_add lib t k)
      then pubkey_tweak_add lib t P = pubkey_create lib (snd (privkey_tweak_add lib t k)) \<and> pubkey_tweak_add lib t P \<noteq> None
      else pubkey_tweak_add lib t P = None"
    using assms unfolding secp_laws_def by blast
  note law = this
  show "\<exists>Q. pubkey_tweak_add lib t P = Some Q \<and> pubkey_create lib (snd (privkey_tweak_add lib t k)) = Some Q"
    if "fst (privkey_tweak_add lib t k)"
    using law that by (cases "pubkey_tweak_add lib t P") (auto dest: sym)
  show "pubkey_tweak_add lib t P = None" if "\<not> fst (privkey_tweak_add lib t k)" using law that by simp
qed

text \<open>The public key of a compressed private key.\<close>

lemma public_parts:
  assumes "secp_laws lib" and "length junk = PUBLIC_KEY_SIZE" and "GetPubKey lib junk k = Inr pub" and "k_fCompressed k"
  obtains P where "pubkey_create lib (k_data k) = Some P" and "pk_size pub = COMPRESSED_PUBLIC_KEY_SIZE"
    and "pk_IsValid pub" and "pubkey_parse lib (pk_data pub) = Some P"
proof -
  have valid: "k_fValid k" using assms(3) by (auto simp: GetPubKey_def split: if_splits)
  then obtain P where P: "pubkey_create lib (k_data k) = Some P" using assms(3) by (auto simp: GetPubKey_def split: option.splits)
  have pub_eq: "pub = CPubKey_Set (pubkey_serialize lib True P) (CPubKey_new junk)"
    using assms(3) GetPubKey_compressed [OF assms(1,2) valid assms(4) P] by simp
  have new: "length (CPubKey_new junk) = PUBLIC_KEY_SIZE" using assms(2) by (simp add: CPubKey_new_def Invalidate_def)
  note c = compressed_key [OF assms(1,2), of P]
  note v = pk_of_valid [OF c(1) new, folded pub_eq]
  show thesis by (rule that [OF P]) (use v(1,2,5) c(3,4) in \<open>simp_all add: COMPRESSED_PUBLIC_KEY_SIZE_def\<close>)
qed

text \<open>What deriving a normal child of a private key gives.\<close>

lemma derived_private:
  assumes "GetPubKey lib junk (xk_key k) = Inr pub" and "pk_size pub = COMPRESSED_PUBLIC_KEY_SIZE"
    and "length (k_data (xk_key k)) = 32" and "length (k_data (xk_key out)) = 32" and "drop_bit 31 n = 0"
    and "xk_Derive lib ops hjunk junk out n k = Inr (r, k')"
  defines "mac \<equiv> BIP32Hash hjunk (xk_chaincode k) n (pub ! 0) (drop 1 pub)"
  defines "tweak \<equiv> privkey_tweak_add lib (take 32 mac) (k_data (xk_key k))"
  shows "r = fst tweak \<and> k' = \<lparr>xk_nDepth = xk_nDepth k + 1, xk_fingerprint = take 4 (pk_GetID ops pub), xk_nChild = n,
    xk_chaincode = take 32 (drop 32 mac), xk_key = (xk_key out)\<lparr>k_data := snd tweak, k_fCompressed := True, k_fValid := fst tweak\<rparr>\<rparr>"
proof -
  have "memcpy_at (k_data (xk_key out)) 0 (take 32 (k_data (xk_key k))) = k_data (xk_key k)"
    using assms(3,4) by (simp add: memcpy_at_def)
  then show ?thesis
    using assms(1,2,5,6)
    by (auto simp: xk_Derive_def ck_Derive_def child_hash_def rbind_eq_Inr Let_def mac_def tweak_def split: if_splits prod.splits)
qed

lemma neuter_derive:
  assumes "secp_laws lib" and "length junk = PUBLIC_KEY_SIZE" and "length (xp_pubkey xout) = PUBLIC_KEY_SIZE"
    and "length (k_data (xk_key k)) = 32" and "length (k_data (xk_key out)) = 32"
    and "drop_bit 31 n = 0" and "Neuter lib junk k = Inr p" and "xk_Derive lib ops hjunk junk out n k = Inr (r, k')"
  shows "\<exists>p'. xp_Derive lib ops hjunk xout n p = Inr (r, p') \<and>
    (r \<longrightarrow> (\<exists>q. Neuter lib junk k' = Inr q \<and> xp_eq p' q))"
proof -
  obtain pub where pub: "GetPubKey lib junk (xk_key k) = Inr pub" and p: "p = \<lparr>xp_nDepth = xk_nDepth k,
      xp_fingerprint = xk_fingerprint k, xp_nChild = xk_nChild k, xp_chaincode = xk_chaincode k, xp_pubkey = pub\<rparr>"
    using assms(7) by (auto simp: Neuter_def rbind_eq_Inr)
  have comp: "k_fCompressed (xk_key k)" using assms(8) by (auto simp: xk_Derive_def ck_Derive_def rbind_eq_Inr split: if_splits)
  obtain P where P: "pubkey_create lib (k_data (xk_key k)) = Some P" "pk_size pub = COMPRESSED_PUBLIC_KEY_SIZE"
    "pk_IsValid pub" "pubkey_parse lib (pk_data pub) = Some P"
    by (rule public_parts [OF assms(1,2) pub comp])
  let ?mac = "BIP32Hash hjunk (xk_chaincode k) n (pub ! 0) (drop 1 pub)"
  note d = derived_private [OF pub P(2) assms(4-6,8)]
  show ?thesis
  proof (cases r)
    case False
    then have "pubkey_tweak_add lib (take 32 ?mac) P = None" using tweaked(2) [OF assms(1) P(1)] d by blast
    then show ?thesis
      using P(2-4) assms(6) False by (simp add: xp_Derive_def p pk_Derive_def Let_def)
  next
    case True
    then obtain Q where Q: "pubkey_tweak_add lib (take 32 ?mac) P = Some Q" "pubkey_create lib (k_data (xk_key k')) = Some Q"
      using tweaked(1) [OF assms(1) P(1), of "take 32 ?mac"] d by auto
    let ?q = "pubkey_serialize lib True Q"
    have new: "length (CPubKey_new junk) = PUBLIC_KEY_SIZE" using assms(2) by (simp add: CPubKey_new_def Invalidate_def)
    note cq = compressed_key [OF assms(1,2), of Q]
    have "GetPubKey lib junk (xk_key k') = Inr (CPubKey_Set ?q (CPubKey_new junk))"
      using GetPubKey_compressed [OF assms(1,2) _ _ Q(2)] True d by simp
    moreover have "xp_Derive lib ops hjunk xout n p = Inr (True, \<lparr>xp_nDepth = xk_nDepth k',
        xp_fingerprint = xk_fingerprint k', xp_nChild = xk_nChild k', xp_chaincode = xk_chaincode k',
        xp_pubkey = CPubKey_Set ?q (xp_pubkey xout)\<rparr>)"
      using P(2-4) assms(6) Q(1) d by (simp add: xp_Derive_def p pk_Derive_def Let_def)
    moreover have "pk_eq (CPubKey_Set ?q (xp_pubkey xout)) (CPubKey_Set ?q (CPubKey_new junk))"
      using pk_of_valid [OF cq(1) assms(3)] pk_of_valid [OF cq(1) new] by (simp add: pk_eq_def)
    ultimately show ?thesis using True by (simp add: Neuter_def xp_eq_def)
  qed
qed

section \<open>Encoding\<close>

lemma length_child_bytes [simp]: "length (child_bytes n) = 4"
  by (simp add: child_bytes_def)

lemma child_number_bytes:
  assumes "length a = 5"
  shows "child_number (a @ child_bytes n @ b) = n"
proof -
  have "(a @ child_bytes n @ b) ! (5 + i) = (child_bytes n @ b) ! i" for i
    using nth_append_length_plus [of a "child_bytes n @ b" i] assms by simp
  from this [of 0] this [of 1] this [of 2] this [of 3]
  have c: "(a @ child_bytes n @ b) ! 5 = ucast (drop_bit 24 n AND 0xFF)" "(a @ child_bytes n @ b) ! 6 = ucast (drop_bit 16 n AND 0xFF)"
    "(a @ child_bytes n @ b) ! 7 = ucast (drop_bit 8 n AND 0xFF)" "(a @ child_bytes n @ b) ! 8 = ucast (n AND 0xFF)"
    by (simp_all add: child_bytes_def)
  have ff: "(0xFF :: 32 word) = mask 8" by (simp add: mask_numeral)
  show ?thesis
    unfolding child_number_def c ff
  proof (rule bit_word_eqI)
    fix i
    assume "i < LENGTH(32)"
    then consider "i < 8" | "8 \<le> i" "i < 16" | "16 \<le> i" "i < 24" | "24 \<le> i" "i < 32" by fastforce
    then show "bit (push_bit 24 (ucast (ucast (drop_bit 24 n AND mask 8) :: byte) :: 32 word) OR push_bit 16 (ucast (ucast (drop_bit 16 n AND mask 8) :: byte)) OR
        push_bit 8 (ucast (ucast (drop_bit 8 n AND mask 8) :: byte)) OR ucast (ucast (n AND mask 8) :: byte)) i = bit n i"
      by cases (auto simp: bit_simps)
  qed
qed

lemma xk_roundtrip:
  assumes "xk_Encode k = Inr c" and "length (xk_fingerprint k) = 4" and "length (xk_chaincode k) = 32"
    and "k_fCompressed (xk_key k)" and "seckey_verify lib (k_data (xk_key k))" and "length (k_data (xk_key out)) = 32"
  shows "length c = BIP32_EXTKEY_SIZE" and "xk_eq (xk_Decode lib c out) k"
proof -
  have size: "k_fValid (xk_key k)" "length (k_data (xk_key k)) = 32"
    using assms(1) by (auto simp: xk_Encode_def ck_size_def split: if_splits)
  have c: "c = (xk_nDepth k # xk_fingerprint k) @ child_bytes (xk_nChild k) @ xk_chaincode k @ 0 # k_data (xk_key k)"
    using assms(1-3) size by (simp add: xk_Encode_def ck_size_def split: if_splits)
  show "length c = BIP32_EXTKEY_SIZE" using size assms(2,3) by (simp add: c BIP32_EXTKEY_SIZE_def)
  have "take 4 (drop 1 c) = xk_fingerprint k" "take 32 (drop 9 c) = xk_chaincode k" "c ! 0 = xk_nDepth k"
    "take (BIP32_EXTKEY_SIZE - 42) (drop 42 c) = k_data (xk_key k)" "child_number c = xk_nChild k"
    using assms(2,3) size child_number_bytes [of "xk_nDepth k # xk_fingerprint k" "xk_nChild k"]
    by (simp_all add: c BIP32_EXTKEY_SIZE_def)
  then show "xk_eq (xk_Decode lib c out) k"
    using assms(4-6) size by (simp add: xk_eq_def xk_Decode_def ck_Set_def ck_Check_def ck_eq_def ck_size_def)
qed

lemma xp_roundtrip:
  assumes "xp_Encode k = Inr c" and "length (xp_fingerprint k) = 4" and "length (xp_chaincode k) = 32"
    and "length (xp_pubkey k) = PUBLIC_KEY_SIZE" and "length (xp_pubkey out) = PUBLIC_KEY_SIZE"
  shows "length c = BIP32_EXTKEY_SIZE" and "xp_eq (xp_Decode c out) k"
proof -
  let ?d = "take 33 (xp_pubkey k)"
  have size: "pk_size (xp_pubkey k) = 33" "length ?d = 33"
    using assms(1,4) by (auto simp: xp_Encode_def COMPRESSED_PUBLIC_KEY_SIZE_def PUBLIC_KEY_SIZE_def split: if_splits)
  have c: "c = (xp_nDepth k # xp_fingerprint k) @ child_bytes (xp_nChild k) @ xp_chaincode k @ ?d"
    using assms(1-3) size by (simp add: xp_Encode_def COMPRESSED_PUBLIC_KEY_SIZE_def)
  show "length c = BIP32_EXTKEY_SIZE" using size assms(2,3) by (simp add: c BIP32_EXTKEY_SIZE_def)
  have parts: "take 4 (drop 1 c) = xp_fingerprint k" "take 32 (drop 9 c) = xp_chaincode k" "c ! 0 = xp_nDepth k"
    "take (BIP32_EXTKEY_SIZE - 41) (drop 41 c) = ?d" "child_number c = xp_nChild k"
    using assms(2,3) size child_number_bytes [of "xp_nDepth k # xp_fingerprint k" "xp_nChild k"]
    by (simp_all add: c BIP32_EXTKEY_SIZE_def)
  have d0: "?d ! 0 = xp_pubkey k ! 0" by simp
  then have "ValidSize ?d" using size by (auto simp: ValidSize_def pk_size_def)
  note v = pk_of_valid [OF this assms(5)]
  show "xp_eq (xp_Decode c out) k"
    unfolding xp_Decode_def parts using v size d0 by (simp add: xp_eq_def pk_eq_def)
qed

section \<open>Properties\<close>

text \<open>A library that satisfies the laws: the first byte of a private key, under addition.\<close>

definition toy_lib :: "(byte, bytes, bytes) secp" where
  "toy_lib =
     \<lparr>pubkey_parse = (\<lambda>d. Some (last d)),
      pubkey_serialize = (\<lambda>c P. if c then 2 # replicate 31 0 @ [P] else 4 # replicate 63 0 @ [P]),
      pubkey_tweak_add = (\<lambda>t P. Some (P + hd t)), pubkey_create = (\<lambda>k. Some (hd k)), seckey_verify = (\<lambda>k. True),
      privkey_tweak_add = (\<lambda>t k. (True, (hd k + hd t) # tl k)), parse_der_lax = Some, sig_normalize = (\<lambda>s. (False, s)),
      ecdsa_verify = (\<lambda>s h k. True), ecdsa_sign = (\<lambda>h k e. Some k), sig_compact = id, sig_der = id,
      parse_compact = (\<lambda>s r. Some s), recover = (\<lambda>s h. None), sign_recoverable = (\<lambda>h k. Some k),
      recoverable_compact = (\<lambda>s. (s, 0)), privkey_export_der = (\<lambda>k c. Some k), privkey_import_der = (\<lambda>d. (True, d))\<rparr>"

lemma toy_lib_laws: "secp_laws toy_lib"
  by (auto simp: secp_laws_def toy_lib_def)

definition toy_key :: ext_key where
  "toy_key = \<lparr>xk_nDepth = 0, xk_fingerprint = replicate 4 0, xk_nChild = 0, xk_chaincode = replicate 32 1,
     xk_key = \<lparr>k_fValid = True, k_fCompressed = True, k_data = replicate 32 7\<rparr>\<rparr>"

text \<open>C23: deriving a normal child commutes with dropping the private part. For a library with the documented laws,
  \<open>CExtPubKey::Derive\<close> of the neutered key succeeds exactly when \<open>CExtKey::Derive\<close> does, and then gives the neutered
  child, as \<open>operator==\<close> compares.\<close>

theorem child_keys_agree:
  assumes "secp_laws lib" and "length junk = PUBLIC_KEY_SIZE" and "length (xp_pubkey xout) = PUBLIC_KEY_SIZE"
    and "length (k_data (xk_key k)) = 32" and "length (k_data (xk_key out)) = 32"
    and "drop_bit 31 n = 0" and "Neuter lib junk k = Inr p" and "xk_Derive lib ops hjunk junk out n k = Inr (r, k')"
  shows "\<exists>p'. xp_Derive lib ops hjunk xout n p = Inr (r, p') \<and>
    (r \<longrightarrow> (\<exists>q. Neuter lib junk k' = Inr q \<and> xp_eq p' q))"
  using assms by (rule neuter_derive)

theorem child_keys_agree_witness:
  "\<exists>p k' p' q. Neuter toy_lib (replicate 65 0) toy_key = Inr p \<and>
     xk_Derive toy_lib (CHash160 [] []) (replicate 128 0) (replicate 65 0) toy_key 5 toy_key = Inr (True, k') \<and>
     xp_Derive toy_lib (CHash160 [] []) (replicate 128 0) p 5 p = Inr (True, p') \<and>
     Neuter toy_lib (replicate 65 0) k' = Inr q \<and> xp_eq p' q"
proof -
  let ?j = "replicate 65 (0 :: byte)"
  let ?pub = "CPubKey_Set (2 # replicate 31 0 @ [7]) (CPubKey_new ?j)"
  have ser: "pubkey_serialize toy_lib True 7 = 2 # replicate 31 0 @ [7]" by (simp add: toy_lib_def)
  have new: "length (CPubKey_new ?j) = PUBLIC_KEY_SIZE"
    by (simp add: CPubKey_new_def Invalidate_def PUBLIC_KEY_SIZE_def)
  have pub: "GetPubKey toy_lib ?j (xk_key toy_key) = Inr ?pub"
    using GetPubKey_compressed [OF toy_lib_laws, of ?j "xk_key toy_key" 7] ser
    by (simp add: PUBLIC_KEY_SIZE_def toy_key_def) (simp add: toy_lib_def)
  have v: "ValidSize (2 # replicate 31 0 @ [7])" by (simp add: ValidSize_def GetLen_def COMPRESSED_PUBLIC_KEY_SIZE_def)
  have len: "length ?pub = PUBLIC_KEY_SIZE" "pk_size ?pub = COMPRESSED_PUBLIC_KEY_SIZE"
    using pk_of_valid [OF v new] by (simp_all add: COMPRESSED_PUBLIC_KEY_SIZE_def)
  obtain p where p: "Neuter toy_lib ?j toy_key = Inr p" "xp_pubkey p = ?pub" using pub by (auto simp: Neuter_def)
  have k: "length (k_data (xk_key toy_key)) = 32" "drop_bit 31 (5 :: 32 word) = 0" by (simp_all add: toy_key_def)
  have j: "length ?j = PUBLIC_KEY_SIZE" by (simp add: PUBLIC_KEY_SIZE_def)
  obtain k' where k': "xk_Derive toy_lib (CHash160 [] []) (replicate 128 0) ?j toy_key 5 toy_key = Inr (True, k')"
    using pub len(2) by (auto simp: xk_Derive_def ck_Derive_def child_hash_def Let_def toy_key_def split: prod.split)
      (simp add: toy_lib_def)
  show ?thesis
    using child_keys_agree [OF toy_lib_laws j _ k(1) k(1) k(2) p(1) k', of p] p(1) k' len(1) by (auto simp: p(2))
qed

text \<open>the 74 bytes of extended keys. Decoding what \<open>Encode\<close> wrote gives the key back, as \<open>operator==\<close> compares: private
  keys that the library accepts and that are compressed, and public keys.\<close>

lemma ext_key_codec:
  assumes "length (xk_fingerprint k) = 4" and "length (xk_chaincode k) = 32"
    and "k_fCompressed (xk_key k)" and "seckey_verify lib (k_data (xk_key k))" and "length (k_data (xk_key out)) = 32"
    and "length (xp_fingerprint p) = 4" and "length (xp_chaincode p) = 32"
    and "length (xp_pubkey p) = PUBLIC_KEY_SIZE" and "length (xp_pubkey pout) = PUBLIC_KEY_SIZE"
  shows "(\<forall>c. xk_Encode k = Inr c \<longrightarrow> length c = BIP32_EXTKEY_SIZE \<and> xk_eq (xk_Decode lib c out) k) \<and>
    (\<forall>c. xp_Encode p = Inr c \<longrightarrow> length c = BIP32_EXTKEY_SIZE \<and> xp_eq (xp_Decode c pout) p)"
  using xk_roundtrip [OF _ assms(1-5)] xp_roundtrip [OF _ assms(6-9)] by blast

lemma ext_key_codec_witness:
  "\<exists>c. xk_Encode (toy_key\<lparr>xk_nChild := 0x80000001\<rparr>) = Inr c \<and> xk_eq (xk_Decode toy_lib c toy_key) (toy_key\<lparr>xk_nChild := 0x80000001\<rparr>)"
proof -
  let ?k = "toy_key\<lparr>xk_nChild := 0x80000001\<rparr>"
  let ?p = "\<lparr>xp_nDepth = 0, xp_fingerprint = replicate 4 0, xp_nChild = 0, xp_chaincode = replicate 32 0, xp_pubkey = replicate 65 0\<rparr>"
  have "\<exists>c. xk_Encode ?k = Inr c" by (simp add: xk_Encode_def toy_key_def ck_size_def)
  moreover have "seckey_verify toy_lib (k_data (xk_key ?k))" by (simp add: toy_lib_def)
  ultimately show ?thesis
    using ext_key_codec [of ?k toy_lib toy_key ?p ?p] by (auto simp: toy_key_def PUBLIC_KEY_SIZE_def)
qed

end
