(* ===== verification/NetTypes.thy ===== *)
theory NetTypes
  imports Blocks
begin

text \<open>
  \<open>src/protocol/types/\<close>: inventory vectors, network addresses, the message header and the records of
  compact blocks, with the contract of a serializable type for each.
\<close>

section \<open>Reading at the front of a stream\<close>

context codec
begin

text \<open>The contract as a rewrite rule for the stream a previous read has left.\<close>

lemma decode_at:
  "good s \<Longrightarrow> ok (room s) x \<Longrightarrow> ready old \<Longrightarrow> unser old (s\<lparr>buf := ser x @ r\<rparr>) = Inr (x, s\<lparr>buf := r\<rparr>)"
  using decode [of "s\<lparr>buf := ser x @ r\<rparr>" x r old] by simp

end

lemma stream_front: "buf s = bs \<Longrightarrow> s = s\<lparr>buf := bs\<rparr>"
  by (rule istream.equality) simp_all

lemma bytes_at:
  "good s \<Longrightarrow> length old = length x \<Longrightarrow> unser_bytes old (s\<lparr>buf := ser_bytes x @ r\<rparr>) = Inr (x, s\<lparr>buf := r\<rparr>)"
  using unser_bytes_decode [of "s\<lparr>buf := ser_bytes x @ r\<rparr>" x r old] by (simp add: ser_bytes_def)

lemma int_at:
  fixes x :: "'a :: len word"
  assumes "8 dvd LENGTH('a)" and "good s"
  shows "unser_int old (s\<lparr>buf := ser_int x @ r\<rparr>) = Inr (x, s\<lparr>buf := r\<rparr>)"
  using assms unser_int_decode [of "s\<lparr>buf := ser_int x @ r\<rparr>" x r old] by simp

lemma varint_at: "good s \<Longrightarrow> unser_varint (s\<lparr>buf := ser_varint x @ r\<rparr>) = Inr (x, s\<lparr>buf := r\<rparr>)"
  using unser_varint_decode [of "s\<lparr>buf := ser_varint x @ r\<rparr>" x r] by simp

lemma local_at:
  fixes x :: "'a :: len word"
  assumes "LENGTH('a) div 8 = n" and "good s"
  shows "read_local n (s\<lparr>buf := ser_int x @ r\<rparr>) = Inr (ser_int x, s\<lparr>buf := r\<rparr>)"
  using assms read_local_int [of "s\<lparr>buf := ser_int x @ r\<rparr>" x r n] by simp

lemmas front_reads = bytes_at int_at varint_at local_at

text \<open>Byte strings of a fixed length, the \<open>Blob\<close>s and \<open>std::array\<close>s of bytes.\<close>

interpretation blob32: vector_codec ser_bytes unser_bytes "\<lambda>n x. length x = 32" "\<lambda>x. length x = 32" "blob_null 32"
  by unfold_locales (auto simp: ser_bytes_def blob_null_def intro: unser_bytes_decode)

interpretation blob6: vector_codec ser_bytes unser_bytes "\<lambda>n x. length x = 6" "\<lambda>x. length x = 6" "blob_null 6"
  by unfold_locales (auto simp: ser_bytes_def blob_null_def intro: unser_bytes_decode)

text \<open>Vectors of shared pointers: writing through a null pointer is undefined.\<close>

fun ser_each :: "('a \<Rightarrow> io_fault + bytes) \<Rightarrow> 'a list \<Rightarrow> io_fault + bytes" where
  "ser_each ser [] = Inr []"
| "ser_each ser (x # xs) = rbind (ser x) (\<lambda>b. rbind (ser_each ser xs) (\<lambda>bs. Inr (b @ bs)))"

definition ser_sized_each :: "('a \<Rightarrow> io_fault + bytes) \<Rightarrow> 'a list \<Rightarrow> io_fault + bytes" where
  "ser_sized_each ser xs = rbind (ser_each ser xs) (\<lambda>bs. Inr (ser_varint (word_of_nat (length xs)) @ bs))"

lemma ser_each_list: "\<forall>x \<in> set xs. ser x = Inr (ser' x) \<Longrightarrow> ser_each ser xs = Inr (ser_list ser' xs)"
  by (induction xs) (simp_all add: ser_list_def)

lemma ser_sized_each_list:
  "\<forall>x \<in> set xs. ser x = Inr (ser' x) \<Longrightarrow> ser_sized_each ser xs = Inr (ser_sized ser' xs)"
  by (simp add: ser_sized_each_def ser_each_list [of xs ser ser'] ser_sized_def)

section \<open>\<open>InventoryVector\<close>\<close>

text \<open>The type is an enumeration with a 32-bit representation; any value can be read into it.\<close>

record inventory_vector =
  iv_type :: "32 word"
  iv_hash :: blob

definition IV_ERROR :: "32 word" where "IV_ERROR = 0"
definition MSG_TX :: "32 word" where "MSG_TX = 1"
definition MSG_BLOCK :: "32 word" where "MSG_BLOCK = 2"
definition MSG_FILTERED_BLOCK :: "32 word" where "MSG_FILTERED_BLOCK = 3"
definition MSG_CMPCT_BLOCK :: "32 word" where "MSG_CMPCT_BLOCK = 4"

definition InventoryVector_new :: inventory_vector where
  "InventoryVector_new = \<lparr>iv_type = IV_ERROR, iv_hash = blob_null 32\<rparr>"

definition ser_InventoryVector :: "inventory_vector \<Rightarrow> bytes" where
  "ser_InventoryVector v = ser_int (iv_type v) @ ser_bytes (iv_hash v)"

definition unser_InventoryVector :: "inventory_vector \<Rightarrow> istream \<Rightarrow> io_fault + inventory_vector \<times> istream" where
  "unser_InventoryVector old s =
     rbind (read_local 4 s) (\<lambda>(type, s).
     rbind (unser_bytes (iv_hash old) s) (\<lambda>(hash, s).
     Inr (\<lparr>iv_type = word_le type, iv_hash = hash\<rparr>, s)))"

definition iv_ok :: "inventory_vector \<Rightarrow> bool" where
  "iv_ok v \<longleftrightarrow> length (iv_hash v) = 32"

interpretation inventory: vector_codec ser_InventoryVector unser_InventoryVector "\<lambda>n. iv_ok" iv_ok InventoryVector_new
proof
  fix s :: istream and x old :: inventory_vector and r
  assume a: "good s" "buf s = ser_InventoryVector x @ r" "iv_ok x" "iv_ok old"
  then have s: "s = s\<lparr>buf := ser_int (iv_type x) @ ser_bytes (iv_hash x) @ r\<rparr>"
    by (intro stream_front) (simp add: ser_InventoryVector_def)
  show "unser_InventoryVector old s = Inr (x, s\<lparr>buf := r\<rparr>)"
    using a(1,3,4) by (subst s) (simp add: unser_InventoryVector_def iv_ok_def front_reads)
qed (simp add: InventoryVector_new_def iv_ok_def blob_null_def)

section \<open>\<open>NetworkAddress\<close>\<close>

record network_address =
  na_time :: "32 word"
  na_services :: "64 word"
  na_ip :: bytes
  na_port :: "16 word"
  na_ignoreTime :: bool

definition NetworkAddress_new :: network_address where
  "NetworkAddress_new =
     \<lparr>na_time = 0, na_services = 0, na_ip = replicate 16 0, na_port = 0, na_ignoreTime = False\<rparr>"

definition setIgnoreTime :: "network_address \<Rightarrow> network_address" where
  "setIgnoreTime a = a\<lparr>na_ignoreTime := True, na_time := 0\<rparr>"

definition setTime :: "32 word \<Rightarrow> network_address \<Rightarrow> network_address" where
  "setTime t a = a\<lparr>na_ignoreTime := False, na_time := t\<rparr>"

definition getTime :: "network_address \<Rightarrow> 32 word" where
  "getTime a = (if na_ignoreTime a then 0 else na_time a)"

text \<open>
  A socket address: the four bytes of an IPv4 address or the sixteen of an IPv6 address as they lie in
  memory, and the port in network order. \<open>auto ip6\<close> deduces a pointer from the array of the IPv6
  address, so the eight bytes of that pointer, \<open>ptr\<close> here, are what \<open>memcpy\<close> copies.
\<close>

datatype sockaddr =
    AF_INET (sin_addr: bytes) (sin_port: "16 word")
  | AF_INET6 (sin6_addr: bytes) (sin6_port: "16 word")
  | AF_OTHER

definition ip4_prefix :: bytes where
  "ip4_prefix = [0, 0, 0, 0, 0, 0, 0, 0, 0, 0, 0xff, 0xff]"

definition na_set :: "bytes \<Rightarrow> sockaddr \<Rightarrow> network_address \<Rightarrow> network_address" where
  "na_set ptr address a =
     (case address of
        AF_INET ip port \<Rightarrow> a\<lparr>na_ip := ip4_prefix @ ip, na_port := port\<rparr>
      | AF_INET6 ip port \<Rightarrow> a\<lparr>na_ip := ptr @ drop 8 (na_ip a), na_port := port\<rparr>
      | AF_OTHER \<Rightarrow> a\<lparr>na_ip := replicate 16 0, na_port := 0\<rparr>)"

definition NetworkAddress_of :: "bytes \<Rightarrow> sockaddr \<Rightarrow> network_address" where
  "NetworkAddress_of ptr address = na_set ptr address NetworkAddress_new"

definition ser_NetworkAddress :: "network_address \<Rightarrow> bytes" where
  "ser_NetworkAddress a =
     (if \<not> na_ignoreTime a then ser_int (na_time a) else []) @
     ser_int (na_services a) @ ser_bytes (na_ip a) @ ser_int (na_port a)"

definition unser_NetworkAddress :: "network_address \<Rightarrow> istream \<Rightarrow> io_fault + network_address \<times> istream" where
  "unser_NetworkAddress old s =
     rbind (if \<not> na_ignoreTime old then unser_int (na_time old) s else Inr (na_time old, s)) (\<lambda>(time, s).
     rbind (unser_int (na_services old) s) (\<lambda>(services, s).
     rbind (unser_bytes (na_ip old) s) (\<lambda>(ip, s).
     rbind (unser_int (na_port old) s) (\<lambda>(port, s).
     Inr (old\<lparr>na_time := time, na_services := services, na_ip := ip, na_port := port\<rparr>, s)))))"

text \<open>\<open>ComparatorByAddr\<close> and \<open>ComparatorByTime\<close>.\<close>

definition same_address :: "network_address \<Rightarrow> network_address \<Rightarrow> bool" where
  "same_address a b \<longleftrightarrow> na_ip a = na_ip b \<and> na_port a = na_port b"

definition earlier :: "network_address \<Rightarrow> network_address \<Rightarrow> bool" where
  "earlier a b \<longleftrightarrow> na_time a < na_time b"

definition na_timed :: "network_address \<Rightarrow> bool" where
  "na_timed a \<longleftrightarrow> length (na_ip a) = 16 \<and> \<not> na_ignoreTime a"

definition na_untimed :: "network_address \<Rightarrow> bool" where
  "na_untimed a \<longleftrightarrow> length (na_ip a) = 16 \<and> na_ignoreTime a \<and> na_time a = 0"

lemma unser_NetworkAddress_decode:
  assumes "good s" and "buf s = ser_NetworkAddress x @ r" and "length (na_ip x) = 16" and "length (na_ip old) = 16"
    and "na_ignoreTime old = na_ignoreTime x" and "na_ignoreTime x \<Longrightarrow> na_time old = na_time x"
  shows "unser_NetworkAddress old s = Inr (x, s\<lparr>buf := r\<rparr>)"
proof -
  have s: "s = s\<lparr>buf := (if \<not> na_ignoreTime x then ser_int (na_time x) else []) @
      ser_int (na_services x) @ ser_bytes (na_ip x) @ ser_int (na_port x) @ r\<rparr>"
    using assms(2) by (intro stream_front) (simp add: ser_NetworkAddress_def)
  show ?thesis
    using assms(1,3-) by (subst s) (simp add: unser_NetworkAddress_def front_reads)
qed

interpretation address: vector_codec ser_NetworkAddress unser_NetworkAddress "\<lambda>n. na_timed" na_timed NetworkAddress_new
  by unfold_locales (auto simp: na_timed_def NetworkAddress_new_def intro: unser_NetworkAddress_decode)

interpretation peer_address: codec ser_NetworkAddress unser_NetworkAddress "\<lambda>n. na_untimed" na_untimed
  by unfold_locales (auto simp: na_untimed_def intro: unser_NetworkAddress_decode)

lemma length_ser_NetworkAddress:
  "length (na_ip a) = 16 \<Longrightarrow> length (ser_NetworkAddress a) = (if na_ignoreTime a then 26 else 30)"
  by (simp add: ser_NetworkAddress_def ser_bytes_def)

text \<open>
  The address an IPv6 connection is known by depends on where the structure lay in memory, and not on
  the IPv6 address.
\<close>

lemma na_set_INET6:
  "na_set ptr (AF_INET6 ip port) a = na_set ptr (AF_INET6 ip' port) a"
  "na_set ptr (AF_INET6 ip port) a = na_set ptr' (AF_INET6 ip port) a \<longleftrightarrow> ptr = ptr'"
proof -
  show "na_set ptr (AF_INET6 ip port) a = na_set ptr (AF_INET6 ip' port) a" by (simp add: na_set_def)
  show "na_set ptr (AF_INET6 ip port) a = na_set ptr' (AF_INET6 ip port) a \<longleftrightarrow> ptr = ptr'"
    by (cases a) (simp add: na_set_def)
qed

section \<open>\<open>MessageHeader\<close>\<close>

record message_header =
  mh_magic :: "32 word"
  mh_command :: bytes
  mh_length :: "32 word"
  mh_checksum :: "32 word"

definition HEADER_SIZE :: nat where "HEADER_SIZE = 24"

definition MAGIC_main :: "32 word" where "MAGIC_main = 0x34FEAFAA"
definition MAGIC_testnet :: "32 word" where "MAGIC_testnet = 0x211CFC69"

definition MessageHeader_new :: message_header where
  "MessageHeader_new = \<lparr>mh_magic = 0, mh_command = replicate 12 0, mh_length = 0, mh_checksum = 0\<rparr>"

text \<open>A command of more than twelve characters would be copied past the array.\<close>

definition MessageHeader_of :: "32 word \<Rightarrow> string \<Rightarrow> nat \<Rightarrow> 32 word \<Rightarrow> io_fault + message_header" where
  "MessageHeader_of magic command len checksum =
     (if size command > 12 then Inl Undefined
      else Inr \<lparr>mh_magic = magic, mh_command = map (\<lambda>c. word_of_nat (of_char c)) command @ replicate (12 - size command) 0,
        mh_length = word_of_nat len, mh_checksum = checksum\<rparr>)"

definition mh_command_name :: "message_header \<Rightarrow> string" where
  "mh_command_name h = map (\<lambda>c. char_of (unat c)) (filter (\<lambda>c. c \<noteq> 0) (mh_command h))"

definition ser_MessageHeader :: "message_header \<Rightarrow> bytes" where
  "ser_MessageHeader h =
     ser_int (mh_magic h) @ ser_bytes (mh_command h) @ ser_int (mh_length h) @ ser_int (mh_checksum h)"

definition unser_MessageHeader :: "message_header \<Rightarrow> istream \<Rightarrow> io_fault + message_header \<times> istream" where
  "unser_MessageHeader old s =
     rbind (unser_int (mh_magic old) s) (\<lambda>(magic, s).
     rbind (unser_bytes (mh_command old) s) (\<lambda>(command, s).
     rbind (unser_int (mh_length old) s) (\<lambda>(len, s).
     rbind (unser_int (mh_checksum old) s) (\<lambda>(checksum, s).
     Inr (\<lparr>mh_magic = magic, mh_command = command, mh_length = len, mh_checksum = checksum\<rparr>, s)))))"

definition mh_ok :: "message_header \<Rightarrow> bool" where
  "mh_ok h \<longleftrightarrow> length (mh_command h) = 12"

interpretation header: vector_codec ser_MessageHeader unser_MessageHeader "\<lambda>n. mh_ok" mh_ok MessageHeader_new
proof
  fix s :: istream and x old :: message_header and r
  assume a: "good s" "buf s = ser_MessageHeader x @ r" "mh_ok x" "mh_ok old"
  then have s: "s = s\<lparr>buf := ser_int (mh_magic x) @ ser_bytes (mh_command x) @ ser_int (mh_length x) @
      ser_int (mh_checksum x) @ r\<rparr>"
    by (intro stream_front) (simp add: ser_MessageHeader_def)
  show "unser_MessageHeader old s = Inr (x, s\<lparr>buf := r\<rparr>)"
    using a(1,3,4) by (subst s) (simp add: unser_MessageHeader_def mh_ok_def front_reads)
qed (simp add: MessageHeader_new_def mh_ok_def)

text \<open>The name that was put into a header is read out of it: the padding is dropped.\<close>

lemma mh_command_name_of:
  assumes "MessageHeader_of magic command n checksum = Inr h" and "CHR 0x00 \<notin> set command"
  shows "mh_command_name h = command" and "mh_ok h"
proof -
  have h: "mh_command h = map (\<lambda>c. word_of_nat (of_char c)) command @ replicate (12 - length command) 0"
    "length command \<le> 12"
    using assms(1) by (auto simp: MessageHeader_of_def split: if_splits)
  have byte: "unat (word_of_nat (of_char c) :: byte) = of_char c" for c
    by (simp add: unat_of_nat)
  have nz: "(word_of_nat (of_char c) :: byte) \<noteq> 0" if "c \<in> set command" for c
  proof
    assume "(word_of_nat (of_char c) :: byte) = 0"
    then have "of_char c = (0 :: nat)" using byte [of c] by simp
    moreover have "char_of (of_char c :: nat) = c" by (rule char_of_char)
    moreover have "char_of (0 :: nat) = CHR 0x00" by (simp add: char_of_def)
    ultimately show False using that assms(2) by (metis (no_types))
  qed
  have "filter (\<lambda>c. c \<noteq> 0) (map (\<lambda>c. word_of_nat (of_char c) :: byte) command) = map (\<lambda>c. word_of_nat (of_char c)) command"
    using nz by (intro filter_True) auto
  then show "mh_command_name h = command" by (simp add: mh_command_name_def h byte comp_def)
  show "mh_ok h" using h by (simp add: mh_ok_def)
qed

lemma length_ser_MessageHeader: "mh_ok h \<Longrightarrow> length (ser_MessageHeader h) = HEADER_SIZE"
  by (simp add: ser_MessageHeader_def ser_bytes_def mh_ok_def HEADER_SIZE_def)

end
