(* ===== verification/CompactBlocks.thy ===== *)
theory CompactBlocks
  imports NetTypes
begin

text \<open>
  The records of compact blocks of \<open>src/protocol/types/\<close>: \<open>BlockTransactions\<close>,
  \<open>BlockTransactionsRequest\<close>, \<open>PrefilledTransaction\<close> and \<open>HeaderAndShortIDs\<close>.

  Transactions and headers are behind shared pointers. Reading fills a new object, whose cached hash
  is still to be computed, so the round trips are about values with no cached hash.
\<close>

section \<open>Pointers to transactions and headers\<close>

lemma ser_tx_ptr_bytes: "tx_ptr_ok n p \<Longrightarrow> ser_tx_ptr p = Inr (tx_ptr_bytes p)"
  by (cases p) (simp_all add: tx_ptr_ok_def ser_tx_ptr_def tx_ptr_bytes_def)

definition ser_header_ptr :: "block_header option \<Rightarrow> io_fault + bytes" where
  "ser_header_ptr p = (case p of None \<Rightarrow> Inl Undefined | Some h \<Rightarrow> Inr (ser_BlockHeader h))"

definition unser_header :: "block_header option \<Rightarrow> istream \<Rightarrow> io_fault + block_header option \<times> istream" where
  "unser_header old s =
     rbind (unser_BlockHeader (case old of None \<Rightarrow> BlockHeader_new | Some h \<Rightarrow> h) s) (\<lambda>(h, s). Inr (Some h, s))"

definition header_ptr_bytes :: "block_header option \<Rightarrow> bytes" where
  "header_ptr_bytes p = (case p of None \<Rightarrow> [] | Some h \<Rightarrow> ser_BlockHeader h)"

definition plain_header :: "block_header \<Rightarrow> bool" where
  "plain_header h \<longleftrightarrow> bh_id h = - 1 \<and> bh_height h = - 1 \<and> bh_hash h = blob_null 32 \<and> \<not> bh_validHash h"

definition header_ptr_ok :: "block_header option \<Rightarrow> bool" where
  "header_ptr_ok p \<longleftrightarrow> (case p of None \<Rightarrow> False | Some h \<Rightarrow> header_ok h \<and> plain_header h)"

lemma new_header_ok: "header_ptr_ok (Some BlockHeader_new)"
  by (simp add: header_ptr_ok_def header_ok_def plain_header_def BlockHeader_new_def blob_null_def)

interpretation header_ptr: vector_codec header_ptr_bytes unser_header "\<lambda>n. header_ptr_ok" "\<lambda>p. p = None" None
proof
  fix s :: istream and x old :: "block_header option" and r
  assume a: "good s" "buf s = header_ptr_bytes x @ r" "header_ptr_ok x" "old = None"
  then obtain h where x: "x = Some h" "header_ok h" "plain_header h"
    by (cases x) (simp_all add: header_ptr_ok_def)
  have "h\<lparr>bh_id := - 1, bh_height := - 1, bh_hash := blob_null 32, bh_validHash := False\<rparr> = h"
    using x(3) by (simp add: plain_header_def)
  then have "unser_BlockHeader BlockHeader_new s = Inr (h, s\<lparr>buf := r\<rparr>)"
    using unser_BlockHeader_decode [of s h r BlockHeader_new] a x
    by (simp add: header_ptr_bytes_def header_ok_def BlockHeader_new_def blob_null_def)
  then show "unser_header old s = Inr (x, s\<lparr>buf := r\<rparr>)" using a x by (simp add: unser_header_def)
qed simp

section \<open>\<open>BlockTransactions\<close>\<close>

record block_transactions =
  bt_blockhash :: blob
  bt_transactions :: "transaction option list"

definition BlockTransactions_new :: block_transactions where
  "BlockTransactions_new = \<lparr>bt_blockhash = blob_null 32, bt_transactions = []\<rparr>"

definition ser_BlockTransactions :: "block_transactions \<Rightarrow> io_fault + bytes" where
  "ser_BlockTransactions b =
     rbind (ser_sized_each ser_tx_ptr (bt_transactions b)) (\<lambda>bs. Inr (ser_bytes (bt_blockhash b) @ bs))"

definition unser_BlockTransactions :: "block_transactions \<Rightarrow> istream \<Rightarrow> io_fault + block_transactions \<times> istream" where
  "unser_BlockTransactions old s =
     rbind (unser_bytes (bt_blockhash old) s) (\<lambda>(blockhash, s).
     rbind (unser_sized None unser_tx_ptr (bt_transactions old) s) (\<lambda>(transactions, s).
     Inr (\<lparr>bt_blockhash = blockhash, bt_transactions = transactions\<rparr>, s)))"

definition bt_ok :: "nat \<Rightarrow> block_transactions \<Rightarrow> bool" where
  "bt_ok n b \<longleftrightarrow> length (bt_blockhash b) = 32 \<and> sized_ok tx_ptr_ok n (bt_transactions b)"

lemma ser_BlockTransactions_bytes:
  assumes "bt_ok n b"
  shows "ser_BlockTransactions b = Inr (ser_bytes (bt_blockhash b) @ ser_sized tx_ptr_bytes (bt_transactions b))"
proof -
  have "\<forall>p \<in> set (bt_transactions b). ser_tx_ptr p = Inr (tx_ptr_bytes p)"
    using assms by (auto simp: bt_ok_def sized_ok_def intro: ser_tx_ptr_bytes)
  then show ?thesis by (simp add: ser_BlockTransactions_def ser_sized_each_list [of _ ser_tx_ptr tx_ptr_bytes])
qed

lemma unser_BlockTransactions_decode:
  assumes "good s" and "bt_ok (room s) b"
  shows "unser_BlockTransactions BlockTransactions_new
      (s\<lparr>buf := ser_bytes (bt_blockhash b) @ ser_sized tx_ptr_bytes (bt_transactions b) @ r\<rparr>) = Inr (b, s\<lparr>buf := r\<rparr>)"
proof -
  have "unser_sized None unser_tx_ptr [] (s\<lparr>buf := ser_sized tx_ptr_bytes (bt_transactions b) @ r\<rparr>) =
      Inr (bt_transactions b, s\<lparr>buf := r\<rparr>)"
    using assms by (intro tx_ptr.vector.decode_at) (simp_all add: bt_ok_def all_ready_def)
  then show ?thesis
    using assms by (simp add: unser_BlockTransactions_def BlockTransactions_new_def bt_ok_def blob_null_def bytes_at)
qed

section \<open>\<open>BlockTransactionsRequest\<close>\<close>

record block_transactions_request =
  btr_hash :: blob
  btr_indexes :: "64 word list"

definition BlockTransactionsRequest_new :: block_transactions_request where
  "BlockTransactionsRequest_new = \<lparr>btr_hash = blob_null 32, btr_indexes = []\<rparr>"

text \<open>
  The indexes are sent as differences. \<open>prev\<close> has 32 bits. The \<open>operator-\<close> of the integer class
  changes its left operand, so in \<open>index - prev - 1\<close> the loop's copy becomes the difference, and
  \<open>prev = index\<close> stores the difference and not the index.
\<close>

fun ser_indexes :: "32 word \<Rightarrow> 64 word list \<Rightarrow> bytes" where
  "ser_indexes prev [] = []"
| "ser_indexes prev (index # indexes) =
     (if prev = - 1 then ser_varint index @ ser_indexes (ucast index) indexes
      else let index = index - ucast prev - 1 in ser_varint index @ ser_indexes (ucast index) indexes)"

definition ser_BlockTransactionsRequest :: "block_transactions_request \<Rightarrow> bytes" where
  "ser_BlockTransactionsRequest b =
     ser_bytes (btr_hash b) @ ser_varint (word_of_nat (length (btr_indexes b))) @ ser_indexes (- 1) (btr_indexes b)"

fun absolute_indexes :: "32 word \<Rightarrow> 64 word list \<Rightarrow> 64 word list" where
  "absolute_indexes prev [] = []"
| "absolute_indexes prev (index # indexes) =
     (if prev = - 1 then index # absolute_indexes (ucast index) indexes
      else let index = index + ucast prev + 1 in index # absolute_indexes (ucast index) indexes)"

definition unser_BlockTransactionsRequest ::
    "block_transactions_request \<Rightarrow> istream \<Rightarrow> io_fault + block_transactions_request \<times> istream" where
  "unser_BlockTransactionsRequest old s =
     rbind (unser_bytes (btr_hash old) s) (\<lambda>(hash, s).
     rbind (unser_varint s) (\<lambda>(indexCount, s).
     if unat indexCount > room s then Inl StdExcept
     else
       rbind (unser_list (\<lambda>old. unser_varint) (resize (unat indexCount) 0 (btr_indexes old)) s) (\<lambda>(indexes, s).
       Inr (\<lparr>btr_hash = hash, btr_indexes = absolute_indexes (- 1) indexes\<rparr>, s))))"

text \<open>The differences that are written, as numbers.\<close>

fun index_deltas :: "32 word \<Rightarrow> 64 word list \<Rightarrow> 64 word list" where
  "index_deltas prev [] = []"
| "index_deltas prev (index # indexes) =
     (let index = (if prev = - 1 then index else index - ucast prev - 1)
      in index # index_deltas (ucast index) indexes)"

lemma ser_indexes_deltas: "ser_indexes prev xs = ser_list ser_varint (index_deltas prev xs)"
  by (induction xs arbitrary: prev) (simp_all add: ser_list_def Let_def)

lemma length_index_deltas [simp]: "length (index_deltas prev xs) = length xs"
  by (induction xs arbitrary: prev) (simp_all add: Let_def)

definition btr_ok :: "nat \<Rightarrow> block_transactions_request \<Rightarrow> bool" where
  "btr_ok n b \<longleftrightarrow> length (btr_hash b) = 32 \<and> length (btr_indexes b) \<le> n \<and> length (btr_indexes b) < 2 ^ 64"

text \<open>What is read: the absolute positions of the differences that were written.\<close>

lemma unser_BlockTransactionsRequest_reads:
  assumes "good s" and "btr_ok (room s) b"
  shows "unser_BlockTransactionsRequest BlockTransactionsRequest_new (s\<lparr>buf := ser_BlockTransactionsRequest b @ r\<rparr>) =
    Inr (b\<lparr>btr_indexes := absolute_indexes (- 1) (index_deltas (- 1) (btr_indexes b))\<rparr>, s\<lparr>buf := r\<rparr>)"
proof -
  let ?ds = "index_deltas (- 1) (btr_indexes b)"
  have "unser_list (\<lambda>old. unser_varint) (resize (length (btr_indexes b)) 0 []) (s\<lparr>buf := ser_list ser_varint ?ds @ r\<rparr>) =
      Inr (?ds, s\<lparr>buf := r\<rparr>)"
    using assms(1) varint.decode_list [of "s\<lparr>buf := ser_list ser_varint ?ds @ r\<rparr>" ?ds r] by simp
  then show ?thesis
    using assms
    by (simp add: unser_BlockTransactionsRequest_def ser_BlockTransactionsRequest_def ser_indexes_deltas
        BlockTransactionsRequest_new_def btr_ok_def blob_null_def front_reads unat_word_of_length)
qed

text \<open>
  With one or two indexes these are the indexes themselves. A third index is read wrong whatever it
  is, by the first one plus one, as long as the numbers are below the mark \<open>2 ^ 32 - 1\<close>.
\<close>

lemma indexes_pair: "length xs \<le> 2 \<Longrightarrow> absolute_indexes (- 1) (index_deltas (- 1) xs) = xs"
  by (cases xs; cases "tl xs") (auto simp: Let_def)

lemma indexes_third:
  assumes "unat a < 2 ^ 32 - 1" and "unat b < 2 ^ 32 - 1" and "unat (b - a - 1) < 2 ^ 32 - 1"
  shows "absolute_indexes (- 1) (index_deltas (- 1) [a, b, c]) = [a, b, c + a + 1]"
proof -
  have small: "ucast (ucast v :: 32 word) = v \<and> (ucast v :: 32 word) \<noteq> - 1" if "unat v < 2 ^ 32 - 1" for v :: "64 word"
  proof -
    have "unat v < 2 ^ LENGTH(32)" using that by simp
    then have "ucast (ucast v :: 32 word) = v" "unat (ucast v :: 32 word) = unat v"
      using ucast_ucast_small [where 'b = 32, of v] unat_ucast_small [where 'b = 32, of v] by simp_all
    moreover have "unat (- 1 :: 32 word) = 2 ^ 32 - 1"
      by (simp add: unsigned_minus_1_eq_mask mask_eq_exp_minus_1)
    ultimately show ?thesis using that by auto
  qed
  show ?thesis
    using small [OF assms(1)] small [OF assms(2)] small [OF assms(3)] by (simp add: Let_def algebra_simps)
qed

section \<open>\<open>PrefilledTransaction\<close>\<close>

record prefilled_transaction =
  pt_index :: "32 word"
  pt_tx :: "transaction option"

definition PrefilledTransaction_new :: prefilled_transaction where
  "PrefilledTransaction_new = \<lparr>pt_index = 0, pt_tx = None\<rparr>"

definition ser_PrefilledTransaction :: "prefilled_transaction \<Rightarrow> io_fault + bytes" where
  "ser_PrefilledTransaction p = rbind (ser_tx_ptr (pt_tx p)) (\<lambda>bs. Inr (ser_varint (ucast (pt_index p)) @ bs))"

definition unser_PrefilledTransaction ::
    "prefilled_transaction \<Rightarrow> istream \<Rightarrow> io_fault + prefilled_transaction \<times> istream" where
  "unser_PrefilledTransaction old s =
     rbind (unser_varint s) (\<lambda>(index, s).
     rbind (unser_tx_ptr (pt_tx old) s) (\<lambda>(tx, s).
     Inr (\<lparr>pt_index = ucast index, pt_tx = tx\<rparr>, s)))"

definition pt_bytes :: "prefilled_transaction \<Rightarrow> bytes" where
  "pt_bytes p = ser_varint (ucast (pt_index p)) @ tx_ptr_bytes (pt_tx p)"

definition pt_ok :: "nat \<Rightarrow> prefilled_transaction \<Rightarrow> bool" where
  "pt_ok n p \<longleftrightarrow> tx_ptr_ok n (pt_tx p)"

lemma ser_PrefilledTransaction_bytes: "pt_ok n p \<Longrightarrow> ser_PrefilledTransaction p = Inr (pt_bytes p)"
  by (simp add: ser_PrefilledTransaction_def pt_bytes_def pt_ok_def ser_tx_ptr_bytes [of n])

interpretation prefilled: vector_codec pt_bytes unser_PrefilledTransaction pt_ok "\<lambda>p. pt_tx p = None" PrefilledTransaction_new
proof
  fix s :: istream and x old :: prefilled_transaction and r
  assume a: "good s" "buf s = pt_bytes x @ r" "pt_ok (room s) x" "pt_tx old = None"
  then have s: "s = s\<lparr>buf := ser_varint (ucast (pt_index x)) @ tx_ptr_bytes (pt_tx x) @ r\<rparr>"
    by (intro stream_front) (simp add: pt_bytes_def)
  have "unser_tx_ptr None (s\<lparr>buf := tx_ptr_bytes (pt_tx x) @ r\<rparr>) = Inr (pt_tx x, s\<lparr>buf := r\<rparr>)"
    using a by (intro tx_ptr.decode_at) (simp_all add: pt_ok_def)
  then show "unser_PrefilledTransaction old s = Inr (x, s\<lparr>buf := r\<rparr>)"
    using a(1,4) by (subst s) (simp add: unser_PrefilledTransaction_def varint_at ucast_wide)
qed (simp add: PrefilledTransaction_new_def)

section \<open>\<open>HeaderAndShortIDs\<close>\<close>

text \<open>The nonce of a new object is whatever the memory held.\<close>

record header_and_short_ids =
  cmp_header :: "block_header option"
  cmp_nonce :: "64 word"
  cmp_shortIds :: "blob list"
  cmp_prefilledTxn :: "prefilled_transaction list"

definition HeaderAndShortIDs_new :: "64 word \<Rightarrow> header_and_short_ids" where
  "HeaderAndShortIDs_new junk = \<lparr>cmp_header = None, cmp_nonce = junk, cmp_shortIds = [], cmp_prefilledTxn = []\<rparr>"

definition ser_HeaderAndShortIDs :: "header_and_short_ids \<Rightarrow> io_fault + bytes" where
  "ser_HeaderAndShortIDs h =
     rbind (ser_header_ptr (cmp_header h)) (\<lambda>bs.
     rbind (ser_sized_each ser_PrefilledTransaction (cmp_prefilledTxn h)) (\<lambda>ps.
     Inr (bs @ ser_int (cmp_nonce h) @ ser_sized ser_bytes (cmp_shortIds h) @ ps)))"

definition unser_HeaderAndShortIDs :: "header_and_short_ids \<Rightarrow> istream \<Rightarrow> io_fault + header_and_short_ids \<times> istream" where
  "unser_HeaderAndShortIDs old s =
     rbind (unser_header (cmp_header old) s) (\<lambda>(header, s).
     rbind (unser_int (cmp_nonce old) s) (\<lambda>(nonce, s).
     rbind (unser_sized (blob_null 6) unser_bytes (cmp_shortIds old) s) (\<lambda>(shortIds, s).
     rbind (unser_sized PrefilledTransaction_new unser_PrefilledTransaction (cmp_prefilledTxn old) s) (\<lambda>(prefilledTxn, s).
     Inr (\<lparr>cmp_header = header, cmp_nonce = nonce, cmp_shortIds = shortIds, cmp_prefilledTxn = prefilledTxn\<rparr>, s)))))"

definition cmp_bytes :: "header_and_short_ids \<Rightarrow> bytes" where
  "cmp_bytes h =
     header_ptr_bytes (cmp_header h) @ ser_int (cmp_nonce h) @ ser_sized ser_bytes (cmp_shortIds h) @
     ser_sized pt_bytes (cmp_prefilledTxn h)"

definition cmp_ok :: "nat \<Rightarrow> header_and_short_ids \<Rightarrow> bool" where
  "cmp_ok n h \<longleftrightarrow>
     header_ptr_ok (cmp_header h) \<and> sized_ok (\<lambda>n b. length b = 6) n (cmp_shortIds h) \<and> sized_ok pt_ok n (cmp_prefilledTxn h)"

lemma ser_HeaderAndShortIDs_bytes:
  assumes "cmp_ok n h"
  shows "ser_HeaderAndShortIDs h = Inr (cmp_bytes h)"
proof -
  have "\<forall>p \<in> set (cmp_prefilledTxn h). ser_PrefilledTransaction p = Inr (pt_bytes p)"
    using assms by (auto simp: cmp_ok_def sized_ok_def intro: ser_PrefilledTransaction_bytes)
  note ps = ser_sized_each_list [OF this]
  obtain b where "cmp_header h = Some b" using assms by (cases "cmp_header h") (simp_all add: cmp_ok_def header_ptr_ok_def)
  then show ?thesis
    by (simp add: ser_HeaderAndShortIDs_def ps cmp_bytes_def header_ptr_bytes_def ser_header_ptr_def)
qed

lemma unser_HeaderAndShortIDs_decode:
  assumes "good s" and "cmp_ok (room s) h"
  shows "unser_HeaderAndShortIDs (HeaderAndShortIDs_new junk) (s\<lparr>buf := cmp_bytes h @ r\<rparr>) = Inr (h, s\<lparr>buf := r\<rparr>)"
proof -
  define r2 where "r2 = ser_sized pt_bytes (cmp_prefilledTxn h) @ r"
  define r1 where "r1 = ser_sized ser_bytes (cmp_shortIds h) @ r2"
  have "unser_header None (s\<lparr>buf := header_ptr_bytes (cmp_header h) @ ser_int (cmp_nonce h) @ r1\<rparr>) =
      Inr (cmp_header h, s\<lparr>buf := ser_int (cmp_nonce h) @ r1\<rparr>)"
    using assms by (intro header_ptr.decode_at) (simp_all add: cmp_ok_def)
  moreover have "unser_sized (blob_null 6) unser_bytes [] (s\<lparr>buf := r1\<rparr>) = Inr (cmp_shortIds h, s\<lparr>buf := r2\<rparr>)"
    unfolding r1_def using assms by (intro blob6.vector.decode_at) (simp_all add: cmp_ok_def all_ready_def)
  moreover have "unser_sized PrefilledTransaction_new unser_PrefilledTransaction [] (s\<lparr>buf := r2\<rparr>) =
      Inr (cmp_prefilledTxn h, s\<lparr>buf := r\<rparr>)"
    unfolding r2_def using assms by (intro prefilled.vector.decode_at) (simp_all add: cmp_ok_def all_ready_def)
  ultimately show ?thesis
    using assms(1) by (simp add: unser_HeaderAndShortIDs_def HeaderAndShortIDs_new_def cmp_bytes_def int_at flip: r1_def r2_def)
qed

end
