(* ===== verification/Messages.thy ===== *)
theory Messages
  imports CompactBlocks
begin

text \<open>
  \<open>src/protocol/messages/\<close>, \<open>src/protocol/types/Message.hpp\<close>, \<open>Message.cpp\<close> and
  \<open>src/protocol/MessageFactory.cpp\<close>: the messages that are registered, how each is written and read,
  the factory that makes an empty message from a command, and the header of a message.

  Each class derived from \<open>Message\<close> is a constructor; its arguments are the members of the class.
\<close>

section \<open>The messages\<close>

record version_message =
  vm_version :: "32 word"
  vm_services :: "64 word"
  vm_timestamp :: "64 word"
  vm_addrRecv :: network_address
  vm_addrFrom :: network_address
  vm_nonce :: "64 word"
  vm_userAgent :: bytes
  vm_startHeight :: "32 word"
  vm_relay :: "8 word"

datatype message =
    Addr "network_address list"
  | Block "block option"
  | BlockTxn block_transactions
  | CmpctBlock header_and_short_ids
  | FeeFilter "64 word"
  | GetAddr
  | GetBlockTxn block_transactions_request
  | GetBlocks "32 word" "blob list" blob
  | GetData "inventory_vector list"
  | GetHeaders "32 word" "blob list" blob
  | Headers "block_header option list"
  | Inv "inventory_vector list"
  | NotFound "inventory_vector list"
  | Ping "64 word"
  | Pong "64 word"
  | SendCmpct "8 word" "64 word"
  | SendHeaders
  | Tx "transaction option"
  | Verack "32 word list"
  | Version version_message

definition Version_new :: version_message where
  "Version_new =
     \<lparr>vm_version = 0, vm_services = 0, vm_timestamp = 0, vm_addrRecv = setIgnoreTime NetworkAddress_new,
      vm_addrFrom = setIgnoreTime NetworkAddress_new, vm_nonce = 0, vm_userAgent = [], vm_startHeight = 0, vm_relay = 0\<rparr>"

text \<open>The constructor with arguments takes the time and a random number for the nonce.\<close>

definition Version_of ::
    "64 word \<Rightarrow> 64 word \<Rightarrow> 32 word \<Rightarrow> 64 word \<Rightarrow> network_address \<Rightarrow> network_address \<Rightarrow> bytes \<Rightarrow> 32 word \<Rightarrow> 8 word \<Rightarrow>
      version_message" where
  "Version_of now rand version services addrRecv addrFrom userAgent startHeight relay =
     \<lparr>vm_version = version, vm_services = services, vm_timestamp = now, vm_addrRecv = setIgnoreTime addrRecv,
      vm_addrFrom = setIgnoreTime addrFrom, vm_nonce = rand, vm_userAgent = userAgent, vm_startHeight = startHeight,
      vm_relay = relay\<rparr>"

definition MIN_MESSAGE_SIZE :: nat where "MIN_MESSAGE_SIZE = 4 + 8 + 8 + 30 + 30 + 8 + 1 + 4 + 1"
definition MAX_MESSAGE_SIZE :: nat where "MAX_MESSAGE_SIZE = MIN_MESSAGE_SIZE + 1 + 256"

definition ser_Version :: "version_message \<Rightarrow> bytes" where
  "ser_Version m =
     ser_int (vm_version m) @ ser_int (vm_services m) @ ser_int (vm_timestamp m) @
     ser_NetworkAddress (vm_addrRecv m) @ ser_NetworkAddress (vm_addrFrom m) @ ser_int (vm_nonce m) @
     ser_varstring (vm_userAgent m) @ ser_int (vm_startHeight m) @ ser_int (vm_relay m)"

definition unser_Version :: "version_message \<Rightarrow> istream \<Rightarrow> io_fault + version_message \<times> istream" where
  "unser_Version old s =
     rbind (unser_int (vm_version old) s) (\<lambda>(version, s).
     rbind (unser_int (vm_services old) s) (\<lambda>(services, s).
     rbind (unser_int (vm_timestamp old) s) (\<lambda>(timestamp, s).
     rbind (unser_NetworkAddress (vm_addrRecv old) s) (\<lambda>(addrRecv, s).
     rbind (unser_NetworkAddress (vm_addrFrom old) s) (\<lambda>(addrFrom, s).
     rbind (unser_int (vm_nonce old) s) (\<lambda>(nonce, s).
     rbind (unser_varstring (vm_userAgent old) s) (\<lambda>(userAgent, s).
     rbind (unser_int (vm_startHeight old) s) (\<lambda>(startHeight, s).
     rbind (unser_int (vm_relay old) s) (\<lambda>(relay, s).
     Inr (\<lparr>vm_version = version, vm_services = services, vm_timestamp = timestamp, vm_addrRecv = addrRecv,
       vm_addrFrom = addrFrom, vm_nonce = nonce, vm_userAgent = userAgent, vm_startHeight = startHeight,
       vm_relay = relay\<rparr>, s))))))))))"

text \<open>
  \<open>Headers::Unserialize\<close> reads a header and a count of transactions for each element and appends it;
  \<open>Serialize\<close> writes the headers only. The pointer is null again after each \<open>push_back\<close>.
\<close>

fun unser_headers :: "nat \<Rightarrow> block_header option list \<Rightarrow> istream \<Rightarrow> io_fault + block_header option list \<times> istream" where
  "unser_headers 0 headers s = Inr (headers, s)"
| "unser_headers (Suc n) headers s =
     rbind (unser_header None s) (\<lambda>(header, s).
     rbind (unser_varint s) (\<lambda>(txCount, s).
     unser_headers n (headers @ [header]) s))"

definition unser_Headers :: "block_header option list \<Rightarrow> istream \<Rightarrow> io_fault + block_header option list \<times> istream" where
  "unser_Headers old s =
     rbind (unser_varint s) (\<lambda>(size, s).
     if unat size > room s then Inl StdExcept else unser_headers (unat size) old s)"

text \<open>\<open>GetBlocks\<close> and \<open>GetHeaders\<close> have the same members.\<close>

definition ser_locator :: "32 word \<Rightarrow> blob list \<Rightarrow> blob \<Rightarrow> bytes" where
  "ser_locator version locator stopHash =
     ser_int version @ ser_sized ser_bytes locator @ ser_bytes stopHash"

definition unser_locator :: "32 word \<Rightarrow> blob list \<Rightarrow> blob \<Rightarrow> istream \<Rightarrow> io_fault + (32 word \<times> blob list \<times> blob) \<times> istream" where
  "unser_locator version locator stopHash s =
     rbind (unser_int version s) (\<lambda>(version, s).
     rbind (unser_sized (blob_null 32) unser_bytes locator s) (\<lambda>(locator, s).
     rbind (unser_bytes stopHash s) (\<lambda>(stopHash, s).
     Inr ((version, locator, stopHash), s))))"

abbreviation unser_inventory :: "inventory_vector list \<Rightarrow> istream \<Rightarrow> io_fault + inventory_vector list \<times> istream" where
  "unser_inventory \<equiv> unser_sized InventoryVector_new unser_InventoryVector"

text \<open>\<open>Serialize\<close> and \<open>Unserialize\<close> of each class. The vector of integers in \<open>Verack\<close> is read in one piece,
  which is the same as one by one.\<close>

definition Addr_Serialize :: "network_address list \<Rightarrow> io_fault + bytes" where
  "Addr_Serialize list = Inr (ser_sized ser_NetworkAddress list)"

definition Addr_Unserialize :: "network_address list \<Rightarrow> istream \<Rightarrow> io_fault + (network_address list) \<times> istream" where
  "Addr_Unserialize list s = unser_sized NetworkAddress_new unser_NetworkAddress list s"

definition Block_Serialize :: "block option \<Rightarrow> io_fault + bytes" where
  "Block_Serialize block = (case block of None \<Rightarrow> Inr [] | Some b \<Rightarrow> ser_Block b)"

definition Block_Unserialize :: "block option \<Rightarrow> istream \<Rightarrow> io_fault + (block option) \<times> istream" where
  "Block_Unserialize block s =
     rbind (unser_Block (case block of None \<Rightarrow> Block_new | Some b \<Rightarrow> b) s) (\<lambda>(b, s). Inr (Some b, s))"

definition BlockTxn_Serialize :: "block_transactions \<Rightarrow> io_fault + bytes" where
  "BlockTxn_Serialize transactions = ser_BlockTransactions transactions"

definition BlockTxn_Unserialize :: "block_transactions \<Rightarrow> istream \<Rightarrow> io_fault + (block_transactions) \<times> istream" where
  "BlockTxn_Unserialize transactions s = unser_BlockTransactions transactions s"

definition CmpctBlock_Serialize :: "header_and_short_ids \<Rightarrow> io_fault + bytes" where
  "CmpctBlock_Serialize h = ser_HeaderAndShortIDs h"

definition CmpctBlock_Unserialize :: "header_and_short_ids \<Rightarrow> istream \<Rightarrow> io_fault + (header_and_short_ids) \<times> istream" where
  "CmpctBlock_Unserialize h s = unser_HeaderAndShortIDs h s"

definition FeeFilter_Serialize :: "64 word \<Rightarrow> io_fault + bytes" where
  "FeeFilter_Serialize feeRate = Inr (ser_int feeRate)"

definition FeeFilter_Unserialize :: "64 word \<Rightarrow> istream \<Rightarrow> io_fault + (64 word) \<times> istream" where
  "FeeFilter_Unserialize feeRate s = unser_int feeRate s"

definition GetBlockTxn_Serialize :: "block_transactions_request \<Rightarrow> io_fault + bytes" where
  "GetBlockTxn_Serialize request = Inr (ser_BlockTransactionsRequest request)"

definition GetBlockTxn_Unserialize :: "block_transactions_request \<Rightarrow> istream \<Rightarrow> io_fault + (block_transactions_request) \<times> istream" where
  "GetBlockTxn_Unserialize request s = unser_BlockTransactionsRequest request s"

definition GetData_Serialize :: "inventory_vector list \<Rightarrow> io_fault + bytes" where
  "GetData_Serialize list = Inr (ser_sized ser_InventoryVector list)"

definition GetData_Unserialize :: "inventory_vector list \<Rightarrow> istream \<Rightarrow> io_fault + (inventory_vector list) \<times> istream" where
  "GetData_Unserialize list s = unser_inventory list s"

definition Headers_Serialize :: "block_header option list \<Rightarrow> io_fault + bytes" where
  "Headers_Serialize headers = ser_sized_each ser_header_ptr headers"

definition Inv_Serialize :: "inventory_vector list \<Rightarrow> io_fault + bytes" where
  "Inv_Serialize list = Inr (ser_sized ser_InventoryVector list)"

definition Inv_Unserialize :: "inventory_vector list \<Rightarrow> istream \<Rightarrow> io_fault + (inventory_vector list) \<times> istream" where
  "Inv_Unserialize list s = unser_inventory list s"

definition NotFound_Serialize :: "inventory_vector list \<Rightarrow> io_fault + bytes" where
  "NotFound_Serialize list = Inr (ser_sized ser_InventoryVector list)"

definition NotFound_Unserialize :: "inventory_vector list \<Rightarrow> istream \<Rightarrow> io_fault + (inventory_vector list) \<times> istream" where
  "NotFound_Unserialize list s = unser_inventory list s"

definition Ping_Serialize :: "64 word \<Rightarrow> io_fault + bytes" where
  "Ping_Serialize nonce = Inr (ser_int nonce)"

definition Ping_Unserialize :: "64 word \<Rightarrow> istream \<Rightarrow> io_fault + (64 word) \<times> istream" where
  "Ping_Unserialize nonce s = unser_int nonce s"

definition Pong_Serialize :: "64 word \<Rightarrow> io_fault + bytes" where
  "Pong_Serialize nonce = Inr (ser_int nonce)"

definition Pong_Unserialize :: "64 word \<Rightarrow> istream \<Rightarrow> io_fault + (64 word) \<times> istream" where
  "Pong_Unserialize nonce s = unser_int nonce s"

definition Tx_Serialize :: "transaction option \<Rightarrow> io_fault + bytes" where
  "Tx_Serialize tx = (case tx of None \<Rightarrow> Inr [] | Some t \<Rightarrow> Inr (ser_Transaction t))"

definition Tx_Unserialize :: "transaction option \<Rightarrow> istream \<Rightarrow> io_fault + (transaction option) \<times> istream" where
  "Tx_Unserialize tx s =
     rbind (unser_Transaction (case tx of None \<Rightarrow> Transaction_new | Some t \<Rightarrow> t) s) (\<lambda>(t, s). Inr (Some t, s))"

definition Verack_Serialize :: "32 word list \<Rightarrow> io_fault + bytes" where
  "Verack_Serialize knownChains = Inr (ser_sized ser_int knownChains)"

definition Verack_Unserialize :: "32 word list \<Rightarrow> istream \<Rightarrow> io_fault + (32 word list) \<times> istream" where
  "Verack_Unserialize knownChains s = unser_sized 0 unser_int knownChains s"

definition SendCmpct_Serialize :: "8 word \<Rightarrow> 64 word \<Rightarrow> io_fault + bytes" where
  "SendCmpct_Serialize announce version = Inr (ser_int announce @ ser_int version)"

definition SendCmpct_Unserialize :: "8 word \<Rightarrow> 64 word \<Rightarrow> istream \<Rightarrow> io_fault + (8 word \<times> 64 word) \<times> istream" where
  "SendCmpct_Unserialize announce version s =
     rbind (unser_int announce s) (\<lambda>(announce, s). rbind (unser_int version s) (\<lambda>(version, s).
     Inr ((announce, version), s)))"

definition GetBlocks_Serialize :: "32 word \<Rightarrow> blob list \<Rightarrow> blob \<Rightarrow> io_fault + bytes" where
  "GetBlocks_Serialize version locator stopHash = Inr (ser_locator version locator stopHash)"

definition GetBlocks_Unserialize ::
    "32 word \<Rightarrow> blob list \<Rightarrow> blob \<Rightarrow> istream \<Rightarrow> io_fault + (32 word \<times> blob list \<times> blob) \<times> istream" where
  "GetBlocks_Unserialize version locator stopHash s = unser_locator version locator stopHash s"

definition GetHeaders_Serialize :: "32 word \<Rightarrow> blob list \<Rightarrow> blob \<Rightarrow> io_fault + bytes" where
  "GetHeaders_Serialize version locator stopHash = Inr (ser_locator version locator stopHash)"

definition GetHeaders_Unserialize ::
    "32 word \<Rightarrow> blob list \<Rightarrow> blob \<Rightarrow> istream \<Rightarrow> io_fault + (32 word \<times> blob list \<times> blob) \<times> istream" where
  "GetHeaders_Unserialize version locator stopHash s = unser_locator version locator stopHash s"

lemmas message_parts [simp] =
  Addr_Serialize_def Addr_Unserialize_def Block_Serialize_def Block_Unserialize_def BlockTxn_Serialize_def
  BlockTxn_Unserialize_def CmpctBlock_Serialize_def CmpctBlock_Unserialize_def FeeFilter_Serialize_def
  FeeFilter_Unserialize_def GetBlockTxn_Serialize_def GetBlockTxn_Unserialize_def GetData_Serialize_def
  GetData_Unserialize_def Headers_Serialize_def Inv_Serialize_def Inv_Unserialize_def NotFound_Serialize_def
  NotFound_Unserialize_def Ping_Serialize_def Ping_Unserialize_def Pong_Serialize_def Pong_Unserialize_def
  Tx_Serialize_def Tx_Unserialize_def Verack_Serialize_def Verack_Unserialize_def SendCmpct_Serialize_def
  SendCmpct_Unserialize_def GetBlocks_Serialize_def GetBlocks_Unserialize_def GetHeaders_Serialize_def
  GetHeaders_Unserialize_def

text \<open>The virtual methods, by the class of the message.\<close>

fun ser_Message :: "message \<Rightarrow> io_fault + bytes" where
  "ser_Message (Addr list) = Addr_Serialize list"
| "ser_Message (Block block) = Block_Serialize block"
| "ser_Message (BlockTxn transactions) = BlockTxn_Serialize transactions"
| "ser_Message (CmpctBlock h) = CmpctBlock_Serialize h"
| "ser_Message (FeeFilter feeRate) = FeeFilter_Serialize feeRate"
| "ser_Message GetAddr = Inr []"
| "ser_Message (GetBlockTxn request) = GetBlockTxn_Serialize request"
| "ser_Message (GetBlocks version locator stopHash) = GetBlocks_Serialize version locator stopHash"
| "ser_Message (GetData list) = GetData_Serialize list"
| "ser_Message (GetHeaders version locator stopHash) = GetHeaders_Serialize version locator stopHash"
| "ser_Message (Headers headers) = Headers_Serialize headers"
| "ser_Message (Inv list) = Inv_Serialize list"
| "ser_Message (NotFound list) = NotFound_Serialize list"
| "ser_Message (Ping nonce) = Ping_Serialize nonce"
| "ser_Message (Pong nonce) = Pong_Serialize nonce"
| "ser_Message (SendCmpct announce version) = SendCmpct_Serialize announce version"
| "ser_Message SendHeaders = Inr []"
| "ser_Message (Tx tx) = Tx_Serialize tx"
| "ser_Message (Verack knownChains) = Verack_Serialize knownChains"
| "ser_Message (Version m) = Inr (ser_Version m)"

fun unser_Message :: "message \<Rightarrow> istream \<Rightarrow> io_fault + message \<times> istream" where
  "unser_Message (Addr list) s = rbind (Addr_Unserialize list s) (\<lambda>(x, s). Inr (Addr x, s))"
| "unser_Message (Block block) s = rbind (Block_Unserialize block s) (\<lambda>(x, s). Inr (Block x, s))"
| "unser_Message (BlockTxn transactions) s = rbind (BlockTxn_Unserialize transactions s) (\<lambda>(x, s). Inr (BlockTxn x, s))"
| "unser_Message (CmpctBlock h) s = rbind (CmpctBlock_Unserialize h s) (\<lambda>(x, s). Inr (CmpctBlock x, s))"
| "unser_Message (FeeFilter feeRate) s = rbind (FeeFilter_Unserialize feeRate s) (\<lambda>(x, s). Inr (FeeFilter x, s))"
| "unser_Message GetAddr s = Inr (GetAddr, s)"
| "unser_Message (GetBlockTxn request) s = rbind (GetBlockTxn_Unserialize request s) (\<lambda>(x, s). Inr (GetBlockTxn x, s))"
| "unser_Message (GetBlocks version locator stopHash) s =
     rbind (GetBlocks_Unserialize version locator stopHash s) (\<lambda>((v, l, h), s). Inr (GetBlocks v l h, s))"
| "unser_Message (GetData list) s = rbind (GetData_Unserialize list s) (\<lambda>(x, s). Inr (GetData x, s))"
| "unser_Message (GetHeaders version locator stopHash) s =
     rbind (GetHeaders_Unserialize version locator stopHash s) (\<lambda>((v, l, h), s). Inr (GetHeaders v l h, s))"
| "unser_Message (Headers headers) s = rbind (unser_Headers headers s) (\<lambda>(x, s). Inr (Headers x, s))"
| "unser_Message (Inv list) s = rbind (Inv_Unserialize list s) (\<lambda>(x, s). Inr (Inv x, s))"
| "unser_Message (NotFound list) s = rbind (NotFound_Unserialize list s) (\<lambda>(x, s). Inr (NotFound x, s))"
| "unser_Message (Ping nonce) s = rbind (Ping_Unserialize nonce s) (\<lambda>(x, s). Inr (Ping x, s))"
| "unser_Message (Pong nonce) s = rbind (Pong_Unserialize nonce s) (\<lambda>(x, s). Inr (Pong x, s))"
| "unser_Message (SendCmpct announce version) s =
     rbind (SendCmpct_Unserialize announce version s) (\<lambda>((a, v), s). Inr (SendCmpct a v, s))"
| "unser_Message SendHeaders s = Inr (SendHeaders, s)"
| "unser_Message (Tx tx) s = rbind (Tx_Unserialize tx s) (\<lambda>(x, s). Inr (Tx x, s))"
| "unser_Message (Verack knownChains) s = rbind (Verack_Unserialize knownChains s) (\<lambda>(x, s). Inr (Verack x, s))"
| "unser_Message (Version m) s = rbind (unser_Version m s) (\<lambda>(m, s). Inr (Version m, s))"

section \<open>Commands and the factory\<close>

definition tolower :: "char \<Rightarrow> char" where
  "tolower c = (if 65 \<le> (of_char c :: nat) \<and> (of_char c :: nat) \<le> 90 then char_of (of_char c + 32 :: nat) else c)"

fun class_name :: "message \<Rightarrow> string" where
  "class_name (Addr list) = ''Addr''"
| "class_name (Block b) = ''Block''"
| "class_name (BlockTxn t) = ''BlockTxn''"
| "class_name (CmpctBlock h) = ''CmpctBlock''"
| "class_name (FeeFilter x) = ''FeeFilter''"
| "class_name GetAddr = ''GetAddr''"
| "class_name (GetBlockTxn r) = ''GetBlockTxn''"
| "class_name (GetBlocks v l h) = ''GetBlocks''"
| "class_name (GetData list) = ''GetData''"
| "class_name (GetHeaders v l h) = ''GetHeaders''"
| "class_name (Headers hs) = ''Headers''"
| "class_name (Inv list) = ''Inv''"
| "class_name (NotFound list) = ''NotFound''"
| "class_name (Ping x) = ''Ping''"
| "class_name (Pong x) = ''Pong''"
| "class_name (SendCmpct a v) = ''SendCmpct''"
| "class_name SendHeaders = ''SendHeaders''"
| "class_name (Tx t) = ''Tx''"
| "class_name (Verack cs) = ''Verack''"
| "class_name (Version m) = ''Version''"

definition command :: "message \<Rightarrow> string" where
  "command m = map tolower (class_name m)"

text \<open>What the creators of the classes return. The nonce of a \<open>CmpctBlock\<close> is not initialised.\<close>

definition created :: "64 word \<Rightarrow> message list" where
  "created junk =
     [Addr [], Block None, BlockTxn BlockTransactions_new, CmpctBlock (HeaderAndShortIDs_new junk), FeeFilter 0, GetAddr,
      GetBlockTxn BlockTransactionsRequest_new, GetBlocks 0 [] (blob_null 32), GetData [],
      GetHeaders 0 [] (blob_null 32), Headers [], Inv [], NotFound [], Ping 0, Pong 0, SendCmpct 0 0, SendHeaders,
      Tx None, Verack [0], Version Version_new]"

type_synonym creators = "string \<rightharpoonup> message"

text \<open>Registering a name twice ends the program. The classes register themselves in no fixed order.\<close>

definition factory_reg :: "string \<Rightarrow> message \<Rightarrow> creators \<Rightarrow> io_fault + creators" where
  "factory_reg name creator c = (if c name \<noteq> None then Inl Abort else Inr (c(name \<mapsto> creator)))"

fun register_all :: "message list \<Rightarrow> creators \<Rightarrow> io_fault + creators" where
  "register_all [] c = Inr c"
| "register_all (m # ms) c = rbind (factory_reg (command m) m c) (register_all ms)"

definition factory_create :: "creators \<Rightarrow> string \<Rightarrow> message option" where
  "factory_create c name = c name"

section \<open>The header of a message\<close>

definition buildHeader :: "'h hasher \<Rightarrow> bytes \<Rightarrow> message \<Rightarrow> io_fault + message_header" where
  "buildHeader ops junk m =
     rbind (ser_Message m) (\<lambda>bs.
     let calculator = hs_xsputn ops bs (hs_new ops junk); len = hs_size calculator
     in rbind (hs_hash ops calculator) (\<lambda>(hash, calculator).
        MessageHeader_of MAGIC_main (command m) len (word_le (take 4 hash))))"

end
