(* ===== verification/MessageFacts.thy ===== *)
theory MessageFacts
  imports Messages "HOL-Library.Multiset"
begin

text \<open>
  The messages of \<open>Messages\<close>: which of them are read back, what the factory makes, and the two classes
  whose \<open>Unserialize\<close> does not match their \<open>Serialize\<close>.
\<close>

section \<open>The factory\<close>

fun fresh :: "64 word \<Rightarrow> message \<Rightarrow> message" where
  "fresh junk (Addr list) = Addr []"
| "fresh junk (Block b) = Block None"
| "fresh junk (BlockTxn t) = BlockTxn BlockTransactions_new"
| "fresh junk (CmpctBlock h) = CmpctBlock (HeaderAndShortIDs_new junk)"
| "fresh junk (FeeFilter x) = FeeFilter 0"
| "fresh junk GetAddr = GetAddr"
| "fresh junk (GetBlockTxn r) = GetBlockTxn BlockTransactionsRequest_new"
| "fresh junk (GetBlocks v l h) = GetBlocks 0 [] (blob_null 32)"
| "fresh junk (GetData list) = GetData []"
| "fresh junk (GetHeaders v l h) = GetHeaders 0 [] (blob_null 32)"
| "fresh junk (Headers hs) = Headers []"
| "fresh junk (Inv list) = Inv []"
| "fresh junk (NotFound list) = NotFound []"
| "fresh junk (Ping x) = Ping 0"
| "fresh junk (Pong x) = Pong 0"
| "fresh junk (SendCmpct a v) = SendCmpct 0 0"
| "fresh junk SendHeaders = SendHeaders"
| "fresh junk (Tx t) = Tx None"
| "fresh junk (Verack cs) = Verack [0]"
| "fresh junk (Version m) = Version Version_new"

lemma fresh_created: "fresh junk m \<in> set (created junk)"
  by (cases m) (simp_all add: created_def)

lemma command_fresh: "command (fresh junk m) = command m"
  by (cases m) (simp_all add: command_def)

lemma distinct_commands: "distinct (map command (created junk))"
  by (simp add: created_def command_def tolower_def)

lemma length_command: "length (command m) \<le> 12"
  by (cases m) (simp_all add: command_def)

lemma command_no_zero: "CHR 0x00 \<notin> set (command m)"
  by (cases m) (simp_all add: command_def tolower_def char_of_def)

lemma register_all_distinct:
  "distinct (map command ms) \<Longrightarrow> (\<And>m. m \<in> set ms \<Longrightarrow> c0 (command m) = None) \<Longrightarrow>
     \<exists>c. register_all ms c0 = Inr c \<and> (\<forall>m \<in> set ms. c (command m) = Some m) \<and>
       (\<forall>name. name \<notin> command ` set ms \<longrightarrow> c name = c0 name)"
proof (induction ms arbitrary: c0)
  case (Cons m ms)
  let ?c = "c0(command m \<mapsto> m)"
  have "?c (command m') = None" if "m' \<in> set ms" for m'
    using Cons.prems that by (auto simp: image_iff)
  moreover have "distinct (map command ms)" using Cons.prems(1) by simp
  ultimately obtain c where c: "register_all ms ?c = Inr c"
    "\<forall>m \<in> set ms. c (command m) = Some m" "\<forall>name. name \<notin> command ` set ms \<longrightarrow> c name = ?c name" using Cons.IH [of ?c] by blast
  have "c (command m) = Some m" using c(3) Cons.prems(1) by (auto simp: image_iff)
  then show ?case using c Cons.prems by (auto simp: factory_reg_def)
qed simp

lemma factory_complete:
  assumes "mset ms = mset (created junk)"
  shows "\<exists>c. register_all ms Map.empty = Inr c \<and> (\<forall>m. factory_create c (command m) = Some (fresh junk m))"
proof -
  have "mset (map command ms) = mset (map command (created junk))" using assms by simp
  then have "distinct (map command ms)" using distinct_commands mset_eq_imp_distinct_iff by blast
  then obtain c where c: "register_all ms Map.empty = Inr c" "\<forall>m \<in> set ms. c (command m) = Some m"
    using register_all_distinct [of ms Map.empty] by auto
  have "set ms = set (created junk)" using assms by (rule mset_eq_setD)
  then have "factory_create c (command m) = Some (fresh junk m)" for m
    using c(2) fresh_created [of junk m] command_fresh [of junk m] by (metis factory_create_def)
  with c(1) show ?thesis by blast
qed

section \<open>The messages that are read back\<close>

text \<open>
  No \<open>Headers\<close> message with a header in it, no \<open>Version\<close> message with a user agent, and at most two
  indexes in a \<open>GetBlockTxn\<close>. Blocks, headers and transactions have no cached hash.
\<close>

fun message_ok :: "nat \<Rightarrow> message \<Rightarrow> bool" where
  "message_ok n (Addr list) \<longleftrightarrow> sized_ok (\<lambda>n. na_timed) n list"
| "message_ok n (Block b) \<longleftrightarrow>
     (case b of None \<Rightarrow> False | Some b \<Rightarrow> header_ok (b_header b) \<and> plain_header (b_header b) \<and>
       (case b_txList b of None \<Rightarrow> False | Some txs \<Rightarrow> sized_ok tx_ptr_ok n txs))"
| "message_ok n (BlockTxn t) \<longleftrightarrow> bt_ok n t"
| "message_ok n (CmpctBlock h) \<longleftrightarrow> cmp_ok n h"
| "message_ok n (GetBlockTxn r) \<longleftrightarrow> btr_ok n r \<and> length (btr_indexes r) \<le> 2"
| "message_ok n (GetBlocks v l h) \<longleftrightarrow> sized_ok (\<lambda>n b. length b = 32) n l \<and> length h = 32"
| "message_ok n (GetData list) \<longleftrightarrow> sized_ok (\<lambda>n. iv_ok) n list"
| "message_ok n (GetHeaders v l h) \<longleftrightarrow> sized_ok (\<lambda>n b. length b = 32) n l \<and> length h = 32"
| "message_ok n (Headers hs) \<longleftrightarrow> hs = []"
| "message_ok n (Inv list) \<longleftrightarrow> sized_ok (\<lambda>n. iv_ok) n list"
| "message_ok n (NotFound list) \<longleftrightarrow> sized_ok (\<lambda>n. iv_ok) n list"
| "message_ok n (Tx t) \<longleftrightarrow> tx_ptr_ok n t"
| "message_ok n (Verack cs) \<longleftrightarrow> sized_ok (\<lambda>n c. True) n cs"
| "message_ok n (Version m) \<longleftrightarrow> na_untimed (vm_addrRecv m) \<and> na_untimed (vm_addrFrom m) \<and> vm_userAgent m = []"
| "message_ok n m \<longleftrightarrow> True"

lemma unser_locator_at:
  assumes "good s" and "sized_ok (\<lambda>n b. length b = 32) (room s) l" and "length h = 32" and "length h0 = 32"
  shows "unser_locator v0 [] h0 (s\<lparr>buf := ser_locator v l h @ r\<rparr>) = Inr ((v, l, h), s\<lparr>buf := r\<rparr>)"
proof -
  have "unser_sized (blob_null 32) unser_bytes [] (s\<lparr>buf := ser_sized ser_bytes l @ ser_bytes h @ r\<rparr>) =
      Inr (l, s\<lparr>buf := ser_bytes h @ r\<rparr>)"
    using assms by (intro blob32.vector.decode_at) (simp_all add: all_ready_def)
  then show ?thesis using assms by (simp add: unser_locator_def ser_locator_def front_reads)
qed

lemma unser_inventory_at:
  assumes "good s" and "sized_ok (\<lambda>n. iv_ok) (room s) l"
  shows "unser_inventory [] (s\<lparr>buf := ser_sized ser_InventoryVector l @ r\<rparr>) = Inr (l, s\<lparr>buf := r\<rparr>)"
  using assms by (intro inventory.vector.decode_at) (simp_all add: all_ready_def)

lemma new_untimed: "na_untimed (setIgnoreTime NetworkAddress_new)"
  by (simp add: na_untimed_def setIgnoreTime_def NetworkAddress_new_def)

text \<open>A \<open>Version\<close> message up to its user agent.\<close>

definition version_front :: "version_message \<Rightarrow> bytes" where
  "version_front m =
     ser_int (vm_version m) @ ser_int (vm_services m) @ ser_int (vm_timestamp m) @
     ser_NetworkAddress (vm_addrRecv m) @ ser_NetworkAddress (vm_addrFrom m) @ ser_int (vm_nonce m)"

lemma ser_Version_front:
  "ser_Version m = version_front m @ ser_varstring (vm_userAgent m) @ ser_int (vm_startHeight m) @ ser_int (vm_relay m)"
  by (simp add: ser_Version_def version_front_def)

lemma unser_varstring_at:
  "good s \<Longrightarrow> unser_varstring [] (s\<lparr>buf := ser_varstring str @ r\<rparr>) = Inr ([], s\<lparr>buf := str @ r\<rparr>)"
  using unser_varstring_empty [of "s\<lparr>buf := ser_varstring str @ r\<rparr>" str r] by simp

lemma unser_Version_front:
  assumes "good s" and "na_untimed (vm_addrRecv m)" and "na_untimed (vm_addrFrom m)"
    and "length a = 4" and "length b = 1" and "vm_userAgent m @ t = a @ b @ r"
  shows "unser_Version Version_new (s\<lparr>buf := version_front m @ ser_varstring (vm_userAgent m) @ t\<rparr>) =
    Inr (m\<lparr>vm_userAgent := [], vm_startHeight := word_le a, vm_relay := word_le b\<rparr>, s\<lparr>buf := r\<rparr>)"
proof -
  have height: "ser_int (word_le a :: 32 word) = a" using assms(4) by (intro ser_int_word_le) simp
  have relay: "ser_int (word_le b :: 8 word) = b" using assms(5) by (intro ser_int_word_le) simp
  have "unser_int (0 :: 32 word) (s\<lparr>buf := a @ b @ r\<rparr>) = Inr (word_le a, s\<lparr>buf := b @ r\<rparr>)"
    using int_at [where 'a = 32, of s 0 "word_le a" "b @ r"] assms(1) height by simp
  moreover have "unser_int (0 :: 8 word) (s\<lparr>buf := b @ r\<rparr>) = Inr (word_le b, s\<lparr>buf := r\<rparr>)"
    using int_at [where 'a = 8, of s 0 "word_le b" r] assms(1) relay by simp
  ultimately show ?thesis
    using assms new_untimed
    by (simp add: unser_Version_def Version_new_def version_front_def int_at peer_address.decode_at unser_varstring_at)
qed

theorem unser_Message_decode:
  assumes "good s" and "message_ok (room s) m"
  shows "\<exists>bs. ser_Message m = Inr bs \<and> unser_Message (fresh junk m) (s\<lparr>buf := bs @ r\<rparr>) = Inr (m, s\<lparr>buf := r\<rparr>)"
proof (cases m)
  case (Addr l)
  then have "unser_sized NetworkAddress_new unser_NetworkAddress [] (s\<lparr>buf := ser_sized ser_NetworkAddress l @ r\<rparr>) =
      Inr (l, s\<lparr>buf := r\<rparr>)"
    using assms by (intro address.vector.decode_at) (simp_all add: all_ready_def)
  with Addr show ?thesis by simp
next
  case (Block b)
  then obtain b' txs where b: "b = Some b'" "b_txList b' = Some txs" "header_ok (b_header b')"
    "plain_header (b_header b')" "sized_ok tx_ptr_ok (room s) txs"
    using assms(2) by (auto split: option.splits)
  have "None \<notin> set txs" using b(5) by (auto simp: sized_ok_def tx_ptr_ok_def)
  then obtain bs where bs: "ser_Block b' = Inr bs" using b(2) by (simp add: ser_Block_def ser_tx_ptrs_list)
  have "b'\<lparr>b_header := (b_header b')\<lparr>bh_id := - 1, bh_height := - 1, bh_hash := blob_null 32, bh_validHash := False\<rparr>\<rparr> = b'"
    using b(4) by (simp add: plain_header_def)
  then have "unser_Block Block_new (s\<lparr>buf := bs @ r\<rparr>) = Inr (b', s\<lparr>buf := r\<rparr>)"
    using unser_Block_decode [of "s\<lparr>buf := bs @ r\<rparr>" b' bs r txs] b bs assms(1) by simp
  with Block b bs show ?thesis by simp
next
  case (BlockTxn t)
  with assms show ?thesis
    using ser_BlockTransactions_bytes [of "room s" t] unser_BlockTransactions_decode [of s t r] by simp
next
  case (CmpctBlock h)
  with assms show ?thesis
    using ser_HeaderAndShortIDs_bytes [of "room s" h] unser_HeaderAndShortIDs_decode [of s h junk r] by simp
next
  case (GetBlockTxn q)
  with assms show ?thesis
    using unser_BlockTransactionsRequest_reads [of s q r] indexes_pair [of "btr_indexes q"] by simp
next
  case (GetBlocks v l h)
  with assms show ?thesis by (simp add: unser_locator_at blob_null_def)
next
  case (GetHeaders v l h)
  with assms show ?thesis by (simp add: unser_locator_at blob_null_def)
next
  case (Headers hs)
  with assms show ?thesis by (simp add: ser_sized_each_def unser_Headers_def varint_at)
next
  case (Tx t)
  then have "unser_tx_ptr None (s\<lparr>buf := tx_ptr_bytes t @ r\<rparr>) = Inr (t, s\<lparr>buf := r\<rparr>)"
    using assms by (intro tx_ptr.decode_at) simp_all
  moreover obtain t' where "t = Some t'" using Tx assms(2) by (cases t) (simp_all add: tx_ptr_ok_def)
  ultimately show ?thesis using Tx by (auto simp: tx_ptr_bytes_def unser_tx_ptr_def rbind_eq_Inr)
next
  case (Verack cs)
  then have "unser_sized 0 unser_int [0] (s\<lparr>buf := ser_sized ser_int cs @ r\<rparr>) = Inr (cs, s\<lparr>buf := r\<rparr>)"
    using assms by (intro u32.vector.decode_at) (simp_all add: all_ready_def)
  with Verack show ?thesis by simp
next
  case (Version v)
  then have v: "na_untimed (vm_addrRecv v)" "na_untimed (vm_addrFrom v)" "vm_userAgent v = []"
    using assms(2) by simp_all
  have same: "v\<lparr>vm_userAgent := [], vm_startHeight := vm_startHeight v, vm_relay := vm_relay v\<rparr> = v"
    by (rule version_message.equality) (simp_all add: v(3))
  have "unser_Version Version_new (s\<lparr>buf := version_front v @ ser_varstring (vm_userAgent v) @
      ser_int (vm_startHeight v) @ ser_int (vm_relay v) @ r\<rparr>) = Inr (v, s\<lparr>buf := r\<rparr>)"
    using unser_Version_front [OF assms(1) v(1,2), of "ser_int (vm_startHeight v)" "ser_int (vm_relay v)"
      "ser_int (vm_startHeight v) @ ser_int (vm_relay v) @ r" r] v(3) by (simp add: same)
  then have "unser_Version Version_new (s\<lparr>buf := ser_Version v @ r\<rparr>) = Inr (v, s\<lparr>buf := r\<rparr>)"
    by (simp only: ser_Version_front append_assoc)
  with Version show ?thesis by simp
qed (use assms in \<open>simp_all add: int_at unser_inventory_at\<close>)

section \<open>Headers that cannot be read\<close>

lemma read_over_good:
  "read_over old s = (x, s') \<Longrightarrow> good s' \<Longrightarrow> good s \<and> length (buf s) = length old + length (buf s') \<and> length x = length old"
  by (auto simp: read_over_def Let_def split: if_splits)

lemma unser_int_good:
  "unser_int (old :: 'a :: len word) s = Inr (x, s') \<Longrightarrow> good s' \<Longrightarrow>
     good s \<and> length (buf s) = LENGTH('a) div 8 + length (buf s')"
  by (auto simp: unser_int_def split: prod.splits dest: read_over_good)

lemma unser_bytes_good:
  "unser_bytes old s = Inr (x, s') \<Longrightarrow> good s' \<Longrightarrow> good s \<and> length (buf s) = length old + length (buf s')"
  by (auto simp: unser_bytes_def dest: read_over_good)

lemma unser_header_good:
  assumes "unser_header None s = Inr (h, s')" and "good s'"
  shows "length (buf s) = 84 + length (buf s')"
  using assms
  by (auto simp: unser_header_def unser_BlockHeader_def rbind_eq_Inr BlockHeader_new_def blob_null_def
      dest!: unser_int_good unser_bytes_good)

lemma unser_varint_good: "unser_varint s = Inr (v, s') \<Longrightarrow> good s \<and> length (buf s') < length (buf s)"
  by (auto simp: unser_varint_def rbind_eq_Inr read_local_Inr Let_def split: if_splits)

lemma unser_headers_length: "unser_headers n hs s = Inr (hs', s') \<Longrightarrow> 85 * n + length (buf s') \<le> length (buf s)"
proof (induction n arbitrary: hs s)
  case (Suc n)
  from Suc.prems obtain h s1 c s2 where s: "unser_header None s = Inr (h, s1)" "unser_varint s1 = Inr (c, s2)"
    "unser_headers n (hs @ [h]) s2 = Inr (hs', s')" by (auto simp: rbind_eq_Inr)
  from unser_varint_good [OF s(2)] unser_header_good [OF s(1)] Suc.IH [OF s(3)] show ?case by simp
qed simp

lemma unser_Headers_fails:
  assumes "hs \<noteq> []" and "\<forall>h \<in> set hs. header_ptr_ok h" and "length hs < 2 ^ 64"
    and "ser_Message (Headers hs) = Inr bs" and "good s"
  shows "\<exists>e. unser_Message (Headers []) (s\<lparr>buf := bs\<rparr>) = Inl e"
proof -
  have each: "\<forall>h \<in> set hs. ser_header_ptr h = Inr (header_ptr_bytes h)"
    using assms(2) by (auto simp: header_ptr_ok_def ser_header_ptr_def header_ptr_bytes_def split: option.splits)
  have bs: "bs = ser_sized header_ptr_bytes hs"
    using assms(4) ser_sized_each_list [OF each] by simp
  have "length (header_ptr_bytes h) = 84" if "h \<in> set hs" for h
    using assms(2) that length_ser_BlockHeader by (auto simp: header_ptr_ok_def header_ptr_bytes_def split: option.splits)
  then have len: "length (ser_list header_ptr_bytes hs) = 84 * length hs"
    by (induction hs) (simp_all add: ser_list_def)
  have size: "unser_varint (s\<lparr>buf := bs\<rparr>) = Inr (word_of_nat (length hs), s\<lparr>buf := ser_list header_ptr_bytes hs\<rparr>)"
    unfolding bs ser_sized_def using assms(5) by (rule varint_at)
  show ?thesis
  proof (cases "unser_headers (length hs) [] (s\<lparr>buf := ser_list header_ptr_bytes hs\<rparr>)")
    case (Inl e)
    then show ?thesis using assms(3) by (auto simp: unser_Headers_def size unat_word_of_length)
  next
    case (Inr p)
    then have "85 * length hs \<le> 84 * length hs"
      using unser_headers_length [of "length hs" "[]" _ "fst p" "snd p"] len by fastforce
    with assms(1) show ?thesis by simp
  qed
qed

section \<open>The header of a message\<close>

context hasher_contract
begin

lemma buildHeader_of:
  assumes "OUTPUT_SIZE ops = 32" and "length junk = 64" and "ser_Message m = Inr bs"
  shows "\<exists>h. buildHeader ops junk m = Inr h \<and> mh_magic h = MAGIC_main \<and> mh_command_name h = command m \<and>
    mh_length h = word_of_nat (length bs) \<and> mh_checksum h = word_le (take 4 (H (H bs))) \<and> mh_ok h"
proof -
  obtain hs where hs: "hs_hash ops (hs_xsputn ops bs (hs_new ops junk)) = Inr (H (H bs), hs)"
    using hash_of_bytes [OF assms(1,2), of bs] by blast
  have n: "hs_size (hs_xsputn ops bs (hs_new ops junk)) = length bs"
    by (simp add: hs_size_def hs_xsputn_def hs_new_def Let_def)
  obtain h where h: "MessageHeader_of MAGIC_main (command m) (length bs) (word_le (take 4 (H (H bs)))) = Inr h"
    using length_command [of m] by (simp add: MessageHeader_of_def)
  then have "buildHeader ops junk m = Inr h" by (simp add: buildHeader_def assms(3) Let_def hs n)
  moreover note mh_command_name_of [OF h command_no_zero]
  ultimately show ?thesis using h length_command [of m] by (auto simp: MessageHeader_of_def)
qed

end

end
