(* ===== verification/Wire.thy ===== *)
theory Wire
  imports MessageFacts
begin

text \<open>
  \<open>src/transport/messages/\<close>: messages on a connection. \<open>MsgPipe::processing\<close> cuts the incoming bytes
  into messages and hands them on; \<open>MsgServer::processing\<close> and \<open>MsgClient::processing\<close> are the two sides
  of the handshake before it; \<open>MsgContext\<close> keeps the state of the conversation and sends.

  A connection is the bytes received and not yet skipped, the bytes written, its time to live in
  milliseconds, whether it has been closed, and the context attached to it. \<open>InputMemoryStream\<close> is a
  stream over a part of the received bytes. \<open>cn_handled\<close> are the messages that have been given to the
  handler, in order; what the handler does with them is in \<open>Peers\<close>. The logging and the metrics are
  left out.
\<close>

record msg_context =
  mc_established :: bool
  mc_local :: "version_message option"
  mc_remote :: "version_message option"

record connection =
  cn_in :: bytes
  cn_out :: bytes
  cn_ttl :: nat
  cn_closed :: bool
  cn_context :: "msg_context option"
  cn_pipe :: bool
  cn_handled :: "message list"
  cn_notified :: bool

definition MsgContext_new :: msg_context where
  "MsgContext_new = \<lparr>mc_established = False, mc_local = None, mc_remote = None\<rparr>"

definition memory_stream :: "nat \<Rightarrow> bytes \<Rightarrow> istream" where
  "memory_stream n bs = \<lparr>buf = bs, good = True, room = n\<rparr>"

definition skip :: "nat \<Rightarrow> connection \<Rightarrow> connection" where
  "skip n c = c\<lparr>cn_in := drop n (cn_in c)\<rparr>"

definition writes :: "bytes \<Rightarrow> connection \<Rightarrow> connection" where
  "writes bs c = c\<lparr>cn_out := cn_out c @ bs\<rparr>"

text \<open>What each of the refusals of the pipe does.\<close>

definition drop_peer :: "connection \<Rightarrow> connection" where
  "drop_peer c = c\<lparr>cn_closed := True, cn_context := None, cn_ttl := 50\<rparr>"

definition read_header :: "nat \<Rightarrow> connection \<Rightarrow> io_fault + message_header" where
  "read_header n c =
     rbind (unser_MessageHeader MessageHeader_new (memory_stream n (take HEADER_SIZE (cn_in c)))) (\<lambda>(h, s). Inr h)"

definition CHECKSUM_OFFSET :: nat where "CHECKSUM_OFFSET = 20"

text \<open>
  The digest of the payload is computed and not used: the \<open>checksum\<close> that is compared with the one in
  the header is copied from the header's own bytes.
\<close>

definition wrong_checksum :: "message_header \<Rightarrow> connection \<Rightarrow> bool" where
  "wrong_checksum h c \<longleftrightarrow> mh_checksum h \<noteq> word_le (take 4 (drop CHECKSUM_OFFSET (cn_in c)))"

definition known_magic :: "32 word \<Rightarrow> bool" where
  "known_magic m \<longleftrightarrow> m = MAGIC_main \<or> m = MAGIC_testnet"

section \<open>\<open>MsgPipe\<close>\<close>

text \<open>One round of the loop: whether it goes on, and the connection after it.\<close>

definition pipe_message :: "creators \<Rightarrow> nat \<Rightarrow> message_header \<Rightarrow> connection \<Rightarrow> io_fault + bool \<times> connection" where
  "pipe_message cr n h c =
     (let c = skip HEADER_SIZE c in
      case factory_create cr (mh_command_name h) of
        None \<Rightarrow> Inr (False, drop_peer c)
      | Some msg \<Rightarrow>
          case unser_Message msg (memory_stream n (take (unat (mh_length h)) (cn_in c))) of
            Inl StdExcept \<Rightarrow> Inr (False, drop_peer c)
          | Inl e \<Rightarrow> Inl e
          | Inr (msg, s) \<Rightarrow>
              let c = skip (unat (mh_length h)) c
              in Inr (True, c\<lparr>cn_handled := cn_handled c @ [msg]\<rparr>))"

definition pipe_step :: "creators \<Rightarrow> nat \<Rightarrow> connection \<Rightarrow> io_fault + bool \<times> connection" where
  "pipe_step cr n c =
     (if length (cn_in c) < HEADER_SIZE
      then Inr (False, c\<lparr>cn_ttl := if 0 < length (cn_in c) then 10000 else 900000\<rparr>)
      else
        rbind (read_header n c) (\<lambda>h.
        if \<not> known_magic (mh_magic h) then Inr (False, drop_peer c)
        else if length (cn_in c) < HEADER_SIZE + unat (mh_length h) then Inr (False, c\<lparr>cn_ttl := 900000\<rparr>)
        else if wrong_checksum h c then Inr (False, drop_peer c)
        else pipe_message cr n h c))"

lemma pipe_step_shrinks:
  "pipe_step cr n c = Inr (True, c') \<Longrightarrow> length (cn_in c') < length (cn_in c)"
  by (auto simp: pipe_step_def pipe_message_def rbind_eq_Inr Let_def skip_def HEADER_SIZE_def
      split: if_splits option.splits sum.splits fault.splits)

function pipe_loop :: "creators \<Rightarrow> nat \<Rightarrow> connection \<Rightarrow> io_fault + connection" where
  "pipe_loop cr n c =
     (case pipe_step cr n c of
        Inl e \<Rightarrow> Inl e
      | Inr (go, c') \<Rightarrow> if go then pipe_loop cr n c' else Inr c')"
  by pat_completeness auto
termination
  by (relation "measure (\<lambda>(cr, n, c). length (cn_in c))") (auto dest: pipe_step_shrinks)

declare pipe_loop.simps [simp del]

definition pipe_processing :: "creators \<Rightarrow> nat \<Rightarrow> connection \<Rightarrow> io_fault + connection" where
  "pipe_processing cr n c =
     (case cn_context c of
        None \<Rightarrow> Inl StdExcept
      | Some context \<Rightarrow> if \<not> mc_established context then Inl StdExcept else pipe_loop cr n c)"

section \<open>\<open>MsgContext\<close>\<close>

text \<open>
  \<open>setEstablished\<close> replaces the transport by a pipe, lets it process what has been received already and
  then calls the handler for an established conversation.
\<close>

definition setEstablished :: "creators \<Rightarrow> nat \<Rightarrow> msg_context \<Rightarrow> connection \<Rightarrow> io_fault + connection" where
  "setEstablished cr n context c =
     (if mc_established context then Inr c
      else
        let context = context\<lparr>mc_established := True, mc_local := None, mc_remote := None\<rparr>;
            c = c\<lparr>cn_context := Some context, cn_pipe := True\<rparr>
        in rbind (pipe_processing cr n c) (\<lambda>c. Inr (c\<lparr>cn_notified := True\<rparr>)))"

text \<open>The bytes of a message behind its header.\<close>

definition frame_of :: "'h hasher \<Rightarrow> bytes \<Rightarrow> message \<Rightarrow> io_fault + bytes" where
  "frame_of ops junk msg =
     rbind (buildHeader ops junk msg) (\<lambda>h. rbind (ser_Message msg) (\<lambda>bs. Inr (ser_MessageHeader h @ bs)))"

text \<open>\<open>transmit\<close>; a connection that has no context is an assertion that fails.\<close>

definition transmit :: "'h hasher \<Rightarrow> bytes \<Rightarrow> message \<Rightarrow> bool \<Rightarrow> connection \<Rightarrow> io_fault + connection" where
  "transmit ops junk msg close c =
     (case cn_context c of
        None \<Rightarrow> Inl Abort
      | Some context \<Rightarrow>
          if \<not> mc_established context then Inl StdExcept
          else rbind (frame_of ops junk msg) (\<lambda>bs.
            let c = writes bs c in Inr (if close then drop_peer c else c)))"

section \<open>\<open>MsgServer\<close>\<close>

type_synonym 'f handlers = "string \<rightharpoonup> 'f"

definition bindHandler :: "string \<Rightarrow> 'f \<Rightarrow> 'f handlers \<Rightarrow> io_fault + 'f handlers" where
  "bindHandler selector handler hs = (if hs selector \<noteq> None then Inl StdExcept else Inr (hs(selector \<mapsto> handler)))"

definition unbindHandler :: "string \<Rightarrow> 'f handlers \<Rightarrow> 'f handlers" where
  "unbindHandler selector hs = hs(selector := None)"

definition getHandler :: "string \<Rightarrow> 'f handlers \<Rightarrow> 'f option" where
  "getHandler subject hs = hs subject"

definition server_processing :: "creators \<Rightarrow> nat \<Rightarrow> 'f handlers \<Rightarrow> connection \<Rightarrow> io_fault + connection" where
  "server_processing cr n hs c =
     (let context = (case cn_context c of None \<Rightarrow> MsgContext_new | Some context \<Rightarrow> context);
          c = c\<lparr>cn_context := Some context\<rparr>
      in if mc_established context then Inl StdExcept
         else if length (cn_in c) < HEADER_SIZE then Inr (c\<lparr>cn_ttl := 5000\<rparr>)
         else
           rbind (read_header n c) (\<lambda>h.
           if \<not> known_magic (mh_magic h) then Inr (c\<lparr>cn_context := None, cn_ttl := 50\<rparr>)
           else if mh_command_name h \<noteq> command (Version Version_new) then Inr (c\<lparr>cn_context := None, cn_ttl := 50\<rparr>)
           else if unat (mh_length h) < MIN_MESSAGE_SIZE \<or> unat (mh_length h) > MAX_MESSAGE_SIZE then Inr (c\<lparr>cn_ttl := 50\<rparr>)
           else if length (cn_in c) < HEADER_SIZE + unat (mh_length h) then Inr (c\<lparr>cn_ttl := 5000\<rparr>)
           else if wrong_checksum h c then Inr (c\<lparr>cn_ttl := 50\<rparr>)
           else
             let c = skip HEADER_SIZE c
             in rbind (unser_Version Version_new (memory_stream n (take (unat (mh_length h)) (cn_in c)))) (\<lambda>(msgVersion, s).
                if getHandler ''/'' hs = None then Inr (c\<lparr>cn_context := None, cn_ttl := 50\<rparr>)
                else setEstablished cr n context c)))"

section \<open>\<open>MsgClient\<close>\<close>

definition MIN_VERSION :: int where "MIN_VERSION = 80000"

text \<open>The part that waits for the \<open>verack\<close> message.\<close>

definition client_verack :: "creators \<Rightarrow> nat \<Rightarrow> msg_context \<Rightarrow> connection \<Rightarrow> io_fault + connection" where
  "client_verack cr n context c =
     (if length (cn_in c) < HEADER_SIZE then Inr c
      else
        rbind (read_header n c) (\<lambda>h.
        if mh_magic h \<noteq> MAGIC_main then Inr (c\<lparr>cn_ttl := 50\<rparr>)
        else if mh_command_name h \<noteq> command (Verack []) then Inr (c\<lparr>cn_ttl := 50\<rparr>)
        else if length (cn_in c) < HEADER_SIZE + unat (mh_length h) then Inr (c\<lparr>cn_ttl := 5000\<rparr>)
        else if wrong_checksum h c then Inr (c\<lparr>cn_ttl := 50\<rparr>)
        else
          let c = skip HEADER_SIZE c
          in rbind (unser_Message (Verack [0]) (memory_stream n (take (unat (mh_length h)) (cn_in c)))) (\<lambda>(msgVerack, s).
             setEstablished cr n context (skip (unat (mh_length h)) c))))"

definition client_processing ::
    "creators \<Rightarrow> nat \<Rightarrow> 'h hasher \<Rightarrow> bytes \<Rightarrow> connection \<Rightarrow> io_fault + connection" where
  "client_processing cr n ops junk c =
     (let context = (case cn_context c of None \<Rightarrow> MsgContext_new | Some context \<Rightarrow> context);
          c = c\<lparr>cn_context := Some context\<rparr>
      in if mc_established context then Inl StdExcept
         else if mc_remote context \<noteq> None then client_verack cr n context c
         else if length (cn_in c) < HEADER_SIZE then Inr c
         else
           rbind (read_header n c) (\<lambda>h.
           if mh_magic h \<noteq> MAGIC_main then Inr (c\<lparr>cn_ttl := 50\<rparr>)
           else if mh_command_name h \<noteq> command (Version Version_new) then Inr (c\<lparr>cn_ttl := 50\<rparr>)
           else if unat (mh_length h) < MIN_MESSAGE_SIZE \<or> unat (mh_length h) > MAX_MESSAGE_SIZE then Inr (c\<lparr>cn_ttl := 50\<rparr>)
           else if length (cn_in c) < HEADER_SIZE + unat (mh_length h) then Inr (c\<lparr>cn_ttl := 5000\<rparr>)
           else if wrong_checksum h c then Inr (c\<lparr>cn_ttl := 50\<rparr>)
           else
             let c = skip HEADER_SIZE c
             in rbind (unser_Version Version_new (memory_stream n (take (unat (mh_length h)) (cn_in c)))) (\<lambda>(msgVersion, s).
                let c = skip (unat (mh_length h)) c
                in if sint (vm_version msgVersion) < MIN_VERSION then Inr (c\<lparr>cn_ttl := 50\<rparr>)
                   else
                     case mc_local context of
                       None \<Rightarrow> Inl Undefined
                     | Some localVersion \<Rightarrow>
                         if vm_nonce msgVersion = vm_nonce localVersion then Inr (c\<lparr>cn_ttl := 50\<rparr>)
                         else
                           let context = context\<lparr>mc_remote := Some msgVersion\<rparr>
                           in rbind (frame_of ops junk (Verack [0])) (\<lambda>bs.
                              client_verack cr n context (writes bs (c\<lparr>cn_context := Some context\<rparr>))))))"

end
