(* ===== verification/WireFacts.thy ===== *)
theory WireFacts
  imports Wire
begin

text \<open>
  What the transport of \<open>Wire\<close> does with the bytes it receives: how the pipe cuts them into messages,
  whatever pieces they arrive in, and how far the two sides of the handshake come.
\<close>

section \<open>Headers at the front of the received bytes\<close>

definition extend :: "bytes \<Rightarrow> connection \<Rightarrow> connection" where
  "extend bs c = c\<lparr>cn_in := cn_in c @ bs\<rparr>"

lemma read_header_front:
  assumes "mh_ok h"
  shows "read_header n (c\<lparr>cn_in := ser_MessageHeader h @ r\<rparr>) = Inr h"
proof -
  have "take HEADER_SIZE (ser_MessageHeader h @ r) = ser_MessageHeader h @ []"
    using length_ser_MessageHeader [OF assms] by simp
  moreover have "unser_MessageHeader MessageHeader_new (memory_stream n (ser_MessageHeader h @ [])) =
      Inr (h, (memory_stream n (ser_MessageHeader h @ []))\<lparr>buf := []\<rparr>)"
    using assms by (intro header.decode) (simp_all add: memory_stream_def MessageHeader_new_def mh_ok_def)
  ultimately show ?thesis by (simp add: read_header_def)
qed

lemma right_checksum:
  assumes "mh_ok h"
  shows "\<not> wrong_checksum h (c\<lparr>cn_in := ser_MessageHeader h @ r\<rparr>)"
proof -
  have "drop CHECKSUM_OFFSET (ser_MessageHeader h @ r) = ser_int (mh_checksum h) @ r"
    using assms by (simp add: ser_MessageHeader_def CHECKSUM_OFFSET_def ser_bytes_def mh_ok_def)
  then show ?thesis by (simp add: wrong_checksum_def)
qed

lemma skip_header:
  "mh_ok h \<Longrightarrow> skip HEADER_SIZE (c\<lparr>cn_in := ser_MessageHeader h @ r\<rparr>) = c\<lparr>cn_in := r\<rparr>"
  using length_ser_MessageHeader [of h] by (simp add: skip_def)

lemma header_enough:
  "mh_ok h \<Longrightarrow> length (ser_MessageHeader h @ r) < HEADER_SIZE + k \<longleftrightarrow> length r < k"
  "mh_ok h \<Longrightarrow> \<not> length (ser_MessageHeader h @ r) < HEADER_SIZE"
  using length_ser_MessageHeader [of h] by simp_all

text \<open>Any 24 bytes are a header.\<close>

lemma ser_int_parts:
  "8 * length bs = LENGTH('a :: len) \<Longrightarrow> ser_int (word_le bs :: 'a word) = bs"
  by (rule ser_int_word_le)

lemma header_of_bytes:
  assumes "length bs = HEADER_SIZE"
  shows "\<exists>h. mh_ok h \<and> ser_MessageHeader h = bs \<and> mh_magic h = word_le (take 4 bs)"
proof -
  define h where "h = \<lparr>mh_magic = word_le (take 4 bs), mh_command = take 12 (drop 4 bs),
    mh_length = word_le (take 4 (drop 16 bs)), mh_checksum = word_le (take 4 (drop 20 bs))\<rparr>"
  have n: "length bs = 24" using assms by (simp add: HEADER_SIZE_def)
  have "ser_MessageHeader h = take 4 bs @ take 12 (drop 4 bs) @ take 4 (drop 16 bs) @ take 4 (drop 20 bs)"
    using n by (simp add: h_def ser_MessageHeader_def ser_bytes_def ser_int_parts)
  also have "take 4 (drop 20 bs) = drop 20 bs" using n by simp
  also have "take 4 (drop 16 bs) @ drop 20 bs = drop 16 bs"
    using append_take_drop_id [of 4 "drop 16 bs"] by simp
  also have "take 12 (drop 4 bs) @ drop 16 bs = drop 4 bs"
    using append_take_drop_id [of 12 "drop 4 bs"] by simp
  finally have "ser_MessageHeader h = bs" by simp
  moreover have "mh_ok h" "mh_magic h = word_le (take 4 bs)" using n by (simp_all add: mh_ok_def h_def)
  ultimately show ?thesis by blast
qed

lemma header_split:
  assumes "\<not> length (cn_in c) < HEADER_SIZE"
  obtains h r where "mh_ok h" and "c = c\<lparr>cn_in := ser_MessageHeader h @ r\<rparr>" and "mh_magic h = word_le (take 4 (cn_in c))"
proof -
  have "length (take HEADER_SIZE (cn_in c)) = HEADER_SIZE" using assms by simp
  from header_of_bytes [OF this] obtain h where h: "mh_ok h" "ser_MessageHeader h = take HEADER_SIZE (cn_in c)"
    "mh_magic h = word_le (take 4 (take HEADER_SIZE (cn_in c)))" by blast
  show thesis
  proof (rule that [of h "drop HEADER_SIZE (cn_in c)"])
    show "mh_ok h" by (rule h)
    show "c = c\<lparr>cn_in := ser_MessageHeader h @ drop HEADER_SIZE (cn_in c)\<rparr>" by (simp add: h(2))
    show "mh_magic h = word_le (take 4 (cn_in c))" using h(3) by (simp add: HEADER_SIZE_def)
  qed
qed

section \<open>The pipe\<close>

text \<open>One round of the loop on a header and what is behind it.\<close>

lemma pipe_step_front:
  assumes "mh_ok h"
  shows "pipe_step cr n (c\<lparr>cn_in := ser_MessageHeader h @ r\<rparr>) =
    (if \<not> known_magic (mh_magic h) then Inr (False, drop_peer (c\<lparr>cn_in := ser_MessageHeader h @ r\<rparr>))
     else if length r < unat (mh_length h) then Inr (False, c\<lparr>cn_in := ser_MessageHeader h @ r, cn_ttl := 900000\<rparr>)
     else
       case factory_create cr (mh_command_name h) of
         None \<Rightarrow> Inr (False, drop_peer (c\<lparr>cn_in := r\<rparr>))
       | Some msg \<Rightarrow>
           case unser_Message msg (memory_stream n (take (unat (mh_length h)) r)) of
             Inl StdExcept \<Rightarrow> Inr (False, drop_peer (c\<lparr>cn_in := r\<rparr>))
           | Inl e \<Rightarrow> Inl e
           | Inr (msg, s) \<Rightarrow> Inr (True, c\<lparr>cn_in := drop (unat (mh_length h)) r, cn_handled := cn_handled c @ [msg]\<rparr>))"
proof -
  have "pipe_message cr n h (c\<lparr>cn_in := ser_MessageHeader h @ r\<rparr>) =
    (case factory_create cr (mh_command_name h) of
       None \<Rightarrow> Inr (False, drop_peer (c\<lparr>cn_in := r\<rparr>))
     | Some msg \<Rightarrow>
         case unser_Message msg (memory_stream n (take (unat (mh_length h)) r)) of
           Inl StdExcept \<Rightarrow> Inr (False, drop_peer (c\<lparr>cn_in := r\<rparr>))
         | Inl e \<Rightarrow> Inl e
         | Inr (msg, s) \<Rightarrow> Inr (True, c\<lparr>cn_in := drop (unat (mh_length h)) r, cn_handled := cn_handled c @ [msg]\<rparr>))"
    unfolding pipe_message_def skip_header [OF assms] Let_def
    by (auto simp: skip_def split: option.splits sum.splits fault.splits prod.splits)
  then show ?thesis
    using header_enough [OF assms, of r] right_checksum [OF assms, of r c]
    by (simp add: pipe_step_def read_header_front [OF assms])
qed

lemma pipe_step_extend:
  assumes "pipe_step cr n c = Inr (True, c')"
  shows "pipe_step cr n (extend b c) = Inr (True, extend b c')"
proof -
  have "\<not> length (cn_in c) < HEADER_SIZE" using assms by (auto simp: pipe_step_def)
  then obtain h r where h: "mh_ok h" "c = c\<lparr>cn_in := ser_MessageHeader h @ r\<rparr>" by (rule header_split)
  have e: "extend b c = c\<lparr>cn_in := ser_MessageHeader h @ (r @ b)\<rparr>" by (subst h(2)) (simp add: extend_def)
  from assms have s: "pipe_step cr n (c\<lparr>cn_in := ser_MessageHeader h @ r\<rparr>) = Inr (True, c')"
    using h(2) by simp
  then show ?thesis
    unfolding e pipe_step_front [OF h(1)]
    by (auto simp: extend_def split: if_splits option.splits sum.splits fault.splits prod.splits)
qed

lemma pipe_step_waits:
  assumes "pipe_step cr n c = Inr (False, c')" and "\<not> cn_closed c'"
  shows "\<exists>t. c' = c\<lparr>cn_ttl := t\<rparr>"
  using assms
  by (auto simp: pipe_step_def pipe_message_def rbind_eq_Inr Let_def drop_peer_def
      split: if_splits option.splits sum.splits fault.splits prod.splits)

lemma pipe_step_ttl:
  "pipe_step cr n (c\<lparr>cn_ttl := t\<rparr>) =
     (case pipe_step cr n c of
        Inl e \<Rightarrow> Inl e
      | Inr (go, c') \<Rightarrow> Inr (go, if go then c'\<lparr>cn_ttl := t\<rparr> else c'))"
proof (cases "length (cn_in c) < HEADER_SIZE")
  case True
  then show ?thesis by (simp add: pipe_step_def)
next
  case False
  then obtain h r where h: "mh_ok h" "c = c\<lparr>cn_in := ser_MessageHeader h @ r\<rparr>" by (rule header_split)
  have "c\<lparr>cn_ttl := t\<rparr> = c\<lparr>cn_ttl := t, cn_in := ser_MessageHeader h @ r\<rparr>" by (subst h(2)) simp
  then have "pipe_step cr n (c\<lparr>cn_ttl := t\<rparr>) = pipe_step cr n (c\<lparr>cn_ttl := t, cn_in := ser_MessageHeader h @ r\<rparr>)"
    by simp
  moreover have "pipe_step cr n c = pipe_step cr n (c\<lparr>cn_in := ser_MessageHeader h @ r\<rparr>)" using h(2) by simp
  ultimately show ?thesis
    unfolding pipe_step_front [OF h(1)]
    by (auto simp: drop_peer_def split: option.splits sum.splits fault.splits prod.splits)
qed

lemma pipe_loop_ttl: "pipe_loop cr n (c\<lparr>cn_ttl := t\<rparr>) = pipe_loop cr n c"
proof (induction cr n c arbitrary: t rule: pipe_loop.induct)
  case (1 cr n c)
  show ?case
    unfolding pipe_loop.simps [of cr n "c\<lparr>cn_ttl := t\<rparr>"] pipe_loop.simps [of cr n c] pipe_step_ttl
    using 1 by (auto split: sum.splits prod.splits)
qed

lemma pipe_loop_go: "pipe_step cr n c = Inr (True, c') \<Longrightarrow> pipe_loop cr n c = pipe_loop cr n c'"
  by (subst pipe_loop.simps) simp

text \<open>The bytes may arrive in any pieces, as long as the connection stays open.\<close>

lemma pipe_loop_extend:
  "pipe_loop cr n c = Inr c1 \<Longrightarrow> \<not> cn_closed c1 \<Longrightarrow>
     pipe_loop cr n (extend b c1) = pipe_loop cr n (extend b c)"
proof (induction cr n c rule: pipe_loop.induct)
  case (1 cr n c)
  show ?case
  proof (cases "pipe_step cr n c")
    case (Inl e)
    with "1.prems"(1) show ?thesis by (subst (asm) pipe_loop.simps) simp
  next
    case (Inr p)
    obtain go c' where p: "pipe_step cr n c = Inr (go, c')" using Inr by (cases p) simp
    show ?thesis
    proof (cases go)
      case True
      have "pipe_loop cr n c' = Inr c1" using "1.prems"(1) p True by (simp add: pipe_loop_go)
      then have "pipe_loop cr n (extend b c1) = pipe_loop cr n (extend b c')"
        using "1.IH" [of "(go, c')" go c'] p True "1.prems"(2) by simp
      also have "\<dots> = pipe_loop cr n (extend b c)"
        using pipe_step_extend [of cr n c c' b] p True by (simp add: pipe_loop_go)
      finally show ?thesis .
    next
      case False
      then have "c1 = c'" using "1.prems"(1) p by (subst (asm) pipe_loop.simps) simp
      then obtain t where "c1 = c\<lparr>cn_ttl := t\<rparr>" using pipe_step_waits [of cr n c c'] p False "1.prems"(2) by auto
      then have "extend b c1 = (extend b c)\<lparr>cn_ttl := t\<rparr>" by (simp add: extend_def)
      then show ?thesis by (simp add: pipe_loop_ttl)
    qed
  qed
qed

section \<open>Messages through the pipe\<close>

definition complete_factory :: "64 word \<Rightarrow> creators \<Rightarrow> bool" where
  "complete_factory junk cr \<longleftrightarrow> (\<forall>m. factory_create cr (command m) = Some (fresh junk m))"

text \<open>A framed message: a header that says what \<open>buildHeader\<close> makes it say, and the payload.\<close>

definition framed :: "message \<Rightarrow> bytes \<Rightarrow> bool" where
  "framed m f \<longleftrightarrow>
     (\<exists>h bs. f = ser_MessageHeader h @ bs \<and> mh_ok h \<and> mh_magic h = MAGIC_main \<and> mh_command_name h = command m \<and>
       ser_Message m = Inr bs \<and> length bs < 2 ^ 32 \<and> mh_length h = word_of_nat (length bs))"

lemma framed_length:
  assumes "length bs < 2 ^ 32"
  shows "unat (word_of_nat (length bs) :: 32 word) = length bs"
  using assms by (simp add: unat_of_nat)

lemma pipe_step_framed:
  assumes "complete_factory junk cr" and "message_ok n m" and "framed m f"
  shows "pipe_step cr n (c\<lparr>cn_in := f @ r\<rparr>) = Inr (True, c\<lparr>cn_in := r, cn_handled := cn_handled c @ [m]\<rparr>)"
proof -
  obtain h bs where h: "f = ser_MessageHeader h @ bs" "mh_ok h" "mh_magic h = MAGIC_main" "mh_command_name h = command m"
    "ser_Message m = Inr bs" "length bs < 2 ^ 32" "mh_length h = word_of_nat (length bs)"
    using assms(3) unfolding framed_def by blast
  have len: "unat (mh_length h) = length bs" unfolding h(7) by (rule framed_length [OF h(6)])
  have "unser_Message (fresh junk m) ((memory_stream n [])\<lparr>buf := bs @ []\<rparr>) = Inr (m, (memory_stream n [])\<lparr>buf := []\<rparr>)"
    using unser_Message_decode [of "memory_stream n []" m junk "[]"] assms(2) h(5) by (auto simp: memory_stream_def)
  then have "unser_Message (fresh junk m) (memory_stream n bs) = Inr (m, (memory_stream n [])\<lparr>buf := []\<rparr>)"
    by (simp add: memory_stream_def)
  moreover have "factory_create cr (mh_command_name h) = Some (fresh junk m)"
    using assms(1) h(4) by (simp add: complete_factory_def)
  ultimately show ?thesis
    unfolding h(1) append_assoc pipe_step_front [OF h(2)] using h(3) by (simp add: known_magic_def len)
qed

lemma in_handled: "c\<lparr>cn_in := b, cn_handled := ms\<rparr> = c\<lparr>cn_handled := ms, cn_in := b\<rparr>"
  by (rule connection.equality) simp_all

lemma pipe_loop_framed:
  assumes "complete_factory junk cr" and "list_all2 framed ms fs" and "\<forall>m \<in> set ms. message_ok n m"
  shows "pipe_loop cr n (c\<lparr>cn_in := concat fs @ r\<rparr>) =
    pipe_loop cr n (c\<lparr>cn_in := r, cn_handled := cn_handled c @ ms\<rparr>)"
  using assms(2,3)
proof (induction arbitrary: c rule: list_all2_induct)
  case Nil
  have "c\<lparr>cn_in := r, cn_handled := cn_handled c\<rparr> = c\<lparr>cn_in := r\<rparr>" by (rule connection.equality) simp_all
  then show ?case by simp
next
  case (Cons m ms f fs)
  have "pipe_loop cr n (c\<lparr>cn_in := f @ concat fs @ r\<rparr>) =
      pipe_loop cr n ((c\<lparr>cn_handled := cn_handled c @ [m]\<rparr>)\<lparr>cn_in := concat fs @ r\<rparr>)"
    using pipe_step_framed [OF assms(1), of n m f "concat fs @ r" c] Cons.hyps(1) Cons.prems
    by (simp add: pipe_loop_go in_handled)
  also have "\<dots> = pipe_loop cr n ((c\<lparr>cn_handled := cn_handled c @ [m]\<rparr>)\<lparr>cn_in := r, cn_handled := cn_handled c @ [m] @ ms\<rparr>)"
    using Cons.IH [of "c\<lparr>cn_handled := cn_handled c @ [m]\<rparr>"] Cons.prems by simp
  finally show ?case by simp
qed

lemma pipe_loop_short: "length (cn_in c) < HEADER_SIZE \<Longrightarrow>
    pipe_loop cr n c = Inr (c\<lparr>cn_ttl := if 0 < length (cn_in c) then 10000 else 900000\<rparr>)"
  by (subst pipe_loop.simps) (simp add: pipe_step_def)

context hasher_contract
begin

lemma frame_framed:
  assumes "OUTPUT_SIZE ops = 32" and "length junk = 64" and "ser_Message m = Inr bs" and "length bs < 2 ^ 32"
  shows "\<exists>f. frame_of ops junk m = Inr f \<and> framed m f"
  using buildHeader_of [OF assms(1-3)] assms(3,4) by (auto simp: frame_of_def framed_def)

end

section \<open>The handshake\<close>

lemma length_version_front:
  "na_untimed (vm_addrRecv m) \<Longrightarrow> na_untimed (vm_addrFrom m) \<Longrightarrow> length (version_front m) = 80"
  by (simp add: version_front_def length_ser_NetworkAddress na_untimed_def)

lemma length_ser_Version:
  assumes "na_untimed (vm_addrRecv m)" and "na_untimed (vm_addrFrom m)" and "length (vm_userAgent m) < 253"
  shows "length (ser_Version m) = 86 + length (vm_userAgent m)"
proof -
  have "(word_of_nat (length (vm_userAgent m)) :: 64 word) < 253"
    using assms(3) by (simp add: word_less_nat_alt unat_of_nat)
  then show ?thesis
    using length_version_front [OF assms(1,2)]
    by (simp add: ser_Version_front ser_varstring_def ser_varint_def ser_bytes_def)
qed

lemma version_magic: "word_le (take 4 (ser_Version m)) = vm_version m"
  by (simp add: ser_Version_def)

lemma five_bytes: "xs = take 4 xs @ take 1 (drop 4 xs) @ drop 5 xs"
proof -
  have "take 1 (drop 4 xs) @ drop 1 (drop 4 xs) = drop 4 xs" by (rule append_take_drop_id)
  moreover have "drop 1 (drop 4 xs) = drop 5 xs" by (simp only: drop_drop) simp
  ultimately have "take 4 xs @ take 1 (drop 4 xs) @ drop 5 xs = take 4 xs @ drop 4 xs" by simp
  then show ?thesis by simp
qed

text \<open>
  A \<open>Version\<close> message reads without an error, whatever its user agent: the height and the relay flag
  come from the five bytes behind the length of the user agent.
\<close>

lemma unser_Version_reads:
  assumes "na_untimed (vm_addrRecv m)" and "na_untimed (vm_addrFrom m)" and "good s"
  shows "\<exists>height relay r. unser_Version Version_new (s\<lparr>buf := ser_Version m\<rparr>) =
    Inr (m\<lparr>vm_userAgent := [], vm_startHeight := height, vm_relay := relay\<rparr>, s\<lparr>buf := r\<rparr>)"
proof -
  let ?t = "ser_int (vm_startHeight m) @ ser_int (vm_relay m)"
  let ?x = "vm_userAgent m @ ?t"
  have four: "length (take 4 ?x) = 4" and one: "length (take 1 (drop 4 ?x)) = 1" by simp_all
  have "unser_Version Version_new (s\<lparr>buf := ser_Version m\<rparr>) =
      Inr (m\<lparr>vm_userAgent := [], vm_startHeight := word_le (take 4 ?x), vm_relay := word_le (take 1 (drop 4 ?x))\<rparr>,
        s\<lparr>buf := drop 5 ?x\<rparr>)"
    unfolding ser_Version_front by (rule unser_Version_front [OF assms(3,1,2) four one five_bytes])
  then show ?thesis by blast
qed

definition waiting :: "connection \<Rightarrow> bool" where
  "waiting c \<longleftrightarrow> (case cn_context c of None \<Rightarrow> True | Some context \<Rightarrow> \<not> mc_established context)"

text \<open>The header of a \<open>Version\<close> message in front of the received bytes.\<close>

definition version_framed :: "version_message \<Rightarrow> bytes \<Rightarrow> bool" where
  "version_framed v f \<longleftrightarrow>
     na_untimed (vm_addrRecv v) \<and> na_untimed (vm_addrFrom v) \<and> length (vm_userAgent v) < 253 \<and> framed (Version v) f"

lemma version_framed_parts:
  assumes "version_framed v f"
  obtains h where "f = ser_MessageHeader h @ ser_Version v" "mh_ok h" "mh_magic h = MAGIC_main"
    "mh_command_name h = command (Version Version_new)" "unat (mh_length h) = length (ser_Version v)"
    "length (ser_Version v) = 86 + length (vm_userAgent v)"
proof -
  have n: "length (ser_Version v) = 86 + length (vm_userAgent v)" "length (vm_userAgent v) < 253"
    using assms length_ser_Version [of v] by (simp_all add: version_framed_def)
  obtain h where h: "f = ser_MessageHeader h @ ser_Version v" "mh_ok h" "mh_magic h = MAGIC_main"
    "mh_command_name h = command (Version v)" "mh_length h = word_of_nat (length (ser_Version v))"
    using assms unfolding version_framed_def framed_def by auto
  have "unat (mh_length h) = length (ser_Version v)"
    unfolding h(5) by (rule framed_length) (use n in simp)
  with h n show thesis by (intro that [of h]) (simp_all add: command_def)
qed

lemma pipe_loop_wrong_magic:
  assumes "HEADER_SIZE \<le> length (cn_in c)" and "\<not> known_magic (word_le (take 4 (cn_in c)))"
  shows "pipe_loop cr n c = Inr (drop_peer c)"
proof -
  obtain h r where h: "mh_ok h" "c = c\<lparr>cn_in := ser_MessageHeader h @ r\<rparr>" "mh_magic h = word_le (take 4 (cn_in c))"
    using assms(1) by (metis header_split not_less)
  have "pipe_step cr n (c\<lparr>cn_in := ser_MessageHeader h @ r\<rparr>) = Inr (False, drop_peer (c\<lparr>cn_in := ser_MessageHeader h @ r\<rparr>))"
    unfolding pipe_step_front [OF h(1)] using assms(2) h(3) by simp
  then have "pipe_step cr n c = Inr (False, drop_peer c)" using h(2) by simp
  then show ?thesis by (subst pipe_loop.simps) simp
qed

lemma server_handshake:
  assumes "version_framed v f" and "8 \<le> length (vm_userAgent v)" and "\<not> known_magic (vm_version v)" and "waiting c"
    and "getHandler ''/'' hs = Some fh"
  shows "\<exists>c'. server_processing cr n hs (c\<lparr>cn_in := f @ r\<rparr>) = Inr c' \<and> cn_closed c' \<and> cn_context c' = None \<and>
    cn_handled c' = cn_handled c \<and> cn_in c' = ser_Version v @ r"
proof -
  obtain h where h: "f = ser_MessageHeader h @ ser_Version v" "mh_ok h" "mh_magic h = MAGIC_main"
    "mh_command_name h = command (Version Version_new)" "unat (mh_length h) = length (ser_Version v)"
    "length (ser_Version v) = 86 + length (vm_userAgent v)"
    using assms(1) by (rule version_framed_parts)
  define ctx where "ctx = (case cn_context c of None \<Rightarrow> MsgContext_new | Some context \<Rightarrow> context)"
  have est: "\<not> mc_established ctx"
    using assms(4) by (simp add: waiting_def ctx_def MsgContext_new_def split: option.splits)
  define c1 where "c1 = c\<lparr>cn_context := Some ctx\<rparr>"
  have addr: "na_untimed (vm_addrRecv v)" "na_untimed (vm_addrFrom v)" "length (vm_userAgent v) < 253"
    using assms(1) by (simp_all add: version_framed_def)
  obtain m s where read: "unser_Version Version_new (memory_stream n (ser_Version v)) = Inr (m, s)"
    using unser_Version_reads [OF addr(1,2), of "memory_stream n []"] by (auto simp: memory_stream_def)
  define c2 where "c2 = c1\<lparr>cn_in := ser_Version v @ r, cn_context := Some (ctx\<lparr>mc_established := True, mc_local := None,
    mc_remote := None\<rparr>), cn_pipe := True\<rparr>"
  have "take 4 (ser_Version v @ r) = take 4 (ser_Version v)" using h(6) by simp
  then have "pipe_loop cr n c2 = Inr (drop_peer c2)"
    using assms(3) h(6) by (intro pipe_loop_wrong_magic) (simp_all add: c2_def version_magic HEADER_SIZE_def)
  then have est': "setEstablished cr n ctx (c1\<lparr>cn_in := ser_Version v @ r\<rparr>) = Inr ((drop_peer c2)\<lparr>cn_notified := True\<rparr>)"
    using est by (simp add: setEstablished_def pipe_processing_def Let_def c2_def)
  let ?c = "c1\<lparr>cn_in := ser_MessageHeader h @ (ser_Version v @ r)\<rparr>"
  have c: "c\<lparr>cn_in := f @ r\<rparr>\<lparr>cn_context := Some ctx\<rparr> = ?c"
    by (rule connection.equality) (simp_all add: c1_def h(1))
  have "server_processing cr n hs (c\<lparr>cn_in := f @ r\<rparr>) = setEstablished cr n ctx (c1\<lparr>cn_in := ser_Version v @ r\<rparr>)"
    unfolding server_processing_def Let_def connection.select_convs(5) connection.update_convs
    using est assms(2) addr(3)
    by (simp add: c [simplified] ctx_def [symmetric] read_header_front [OF h(2)] right_checksum [OF h(2)]
        skip_header [OF h(2)] length_ser_MessageHeader [OF h(2)] h(3-6) known_magic_def MIN_MESSAGE_SIZE_def
        MAX_MESSAGE_SIZE_def assms(5) read)
  then show ?thesis using est' by (simp add: drop_peer_def c2_def c1_def)
qed

lemma client_verack_front:
  assumes "framed (Verack cs) k" and "message_ok n (Verack cs)"
  shows "client_verack cr n ctx (c\<lparr>cn_in := k @ r\<rparr>) = setEstablished cr n ctx (c\<lparr>cn_in := r\<rparr>)"
proof -
  obtain h bs where h: "k = ser_MessageHeader h @ bs" "mh_ok h" "mh_magic h = MAGIC_main"
    "mh_command_name h = command (Verack cs)" "ser_Message (Verack cs) = Inr bs" "length bs < 2 ^ 32"
    "mh_length h = word_of_nat (length bs)"
    using assms(1) unfolding framed_def by blast
  have len: "unat (mh_length h) = length bs" unfolding h(7) by (rule framed_length [OF h(6)])
  have name: "mh_command_name h = command (Verack [])" using h(4) by (simp add: command_def)
  have "unser_Message (fresh 0 (Verack cs)) ((memory_stream n [])\<lparr>buf := bs @ []\<rparr>) =
      Inr (Verack cs, (memory_stream n [])\<lparr>buf := []\<rparr>)"
    using unser_Message_decode [of "memory_stream n []" "Verack cs" 0 "[]"] assms(2) h(5) by (auto simp: memory_stream_def)
  then have read: "unser_Message (Verack [0]) (memory_stream n bs) = Inr (Verack cs, (memory_stream n [])\<lparr>buf := []\<rparr>)"
    by (simp add: memory_stream_def)
  show ?thesis
    unfolding client_verack_def h(1) append_assoc
    by (simp add: read_header_front [OF h(2)] right_checksum [OF h(2)] skip_header [OF h(2)]
        length_ser_MessageHeader [OF h(2)] h(3) name len read Let_def del: unser_Message.simps)
      (simp add: skip_def)
qed

text \<open>
  A client that has sent its \<open>Version\<close> message establishes the conversation on the answer, and goes on
  with what is behind it.
\<close>

lemma client_handshake:
  assumes "version_framed v f" and "8 \<le> length (vm_userAgent v)" and "framed (Verack cs) k" and "message_ok n (Verack cs)"
    and "cn_context c = Some ctx" and "\<not> mc_established ctx" and "mc_remote ctx = None" and "mc_local ctx = Some lv"
    and "vm_nonce v \<noteq> vm_nonce lv" and "MIN_VERSION \<le> sint (vm_version v)" and "frame_of ops junk (Verack [0]) = Inr bs"
  shows "client_processing cr n ops junk (c\<lparr>cn_in := f @ k @ r\<rparr>) =
    rbind (pipe_loop cr n (c\<lparr>cn_in := r, cn_out := cn_out c @ bs, cn_context := Some \<lparr>mc_established = True, mc_local = None,
      mc_remote = None\<rparr>, cn_pipe := True\<rparr>)) (\<lambda>c. Inr (c\<lparr>cn_notified := True\<rparr>))"
proof -
  obtain h where h: "f = ser_MessageHeader h @ ser_Version v" "mh_ok h" "mh_magic h = MAGIC_main"
    "mh_command_name h = command (Version Version_new)" "unat (mh_length h) = length (ser_Version v)"
    "length (ser_Version v) = 86 + length (vm_userAgent v)"
    using assms(1) by (rule version_framed_parts)
  have addr: "na_untimed (vm_addrRecv v)" "na_untimed (vm_addrFrom v)" "length (vm_userAgent v) < 253"
    using assms(1) by (simp_all add: version_framed_def)
  obtain m s where read: "unser_Version Version_new (memory_stream n (ser_Version v)) = Inr (m, s)"
    and m: "vm_version m = vm_version v" "vm_nonce m = vm_nonce v"
    using unser_Version_reads [OF addr(1,2), of "memory_stream n []"] by (auto simp: memory_stream_def)
  define ctx1 where "ctx1 = ctx\<lparr>mc_remote := Some m\<rparr>"
  have same: "c\<lparr>cn_in := b, cn_context := Some ctx\<rparr> = c\<lparr>cn_in := b\<rparr>" for b
    by (rule connection.equality) (simp_all add: assms(5))
  have skipped: "skip (length (ser_Version v)) (c\<lparr>cn_in := ser_Version v @ k @ r\<rparr>) = c\<lparr>cn_in := k @ r\<rparr>"
    by (simp add: skip_def)
  have "client_processing cr n ops junk (c\<lparr>cn_in := ser_MessageHeader h @ (ser_Version v @ k @ r)\<rparr>) =
      client_verack cr n ctx1 (writes bs (c\<lparr>cn_in := k @ r, cn_context := Some ctx1\<rparr>))"
    unfolding client_processing_def Let_def
    using assms(2,9,10) addr(3)
    by (simp add: assms(5-8,11) same read_header_front [OF h(2)] right_checksum [OF h(2)] skip_header [OF h(2)]
        length_ser_MessageHeader [OF h(2)] h(3-6) MIN_MESSAGE_SIZE_def MAX_MESSAGE_SIZE_def read skipped [unfolded h(6)] m ctx1_def
        del: append_assoc)
  also have "writes bs (c\<lparr>cn_in := k @ r, cn_context := Some ctx1\<rparr>) =
      c\<lparr>cn_out := cn_out c @ bs, cn_context := Some ctx1, cn_in := k @ r\<rparr>"
    by (rule connection.equality) (simp_all add: writes_def)
  also have "client_verack cr n ctx1 \<dots> =
      setEstablished cr n ctx1 (c\<lparr>cn_out := cn_out c @ bs, cn_context := Some ctx1, cn_in := r\<rparr>)"
    by (rule client_verack_front [OF assms(3,4)])
  also have "\<dots> = rbind (pipe_loop cr n (c\<lparr>cn_in := r, cn_out := cn_out c @ bs, cn_context := Some \<lparr>mc_established = True,
      mc_local = None, mc_remote = None\<rparr>, cn_pipe := True\<rparr>)) (\<lambda>c. Inr (c\<lparr>cn_notified := True\<rparr>))"
  proof -
    have e1: "ctx1\<lparr>mc_established := True, mc_local := None, mc_remote := None\<rparr> =
        \<lparr>mc_established = True, mc_local = None, mc_remote = None\<rparr>"
      by (rule msg_context.equality) simp_all
    have e2: "c\<lparr>cn_out := cn_out c @ bs, cn_in := r, cn_context := x, cn_pipe := True\<rparr> =
        c\<lparr>cn_in := r, cn_out := cn_out c @ bs, cn_context := x, cn_pipe := True\<rparr>" for x
      by (rule connection.equality) simp_all
    have "\<not> mc_established ctx1" using assms(6) by (simp add: ctx1_def)
    then show ?thesis by (simp add: setEstablished_def Let_def pipe_processing_def e1 e2)
  qed
  finally show ?thesis by (simp add: h(1))
qed

section \<open>Pieces\<close>

text \<open>The bytes as they come: the pipe runs after each piece.\<close>

fun arrive :: "creators \<Rightarrow> nat \<Rightarrow> bytes list \<Rightarrow> connection \<Rightarrow> io_fault + connection" where
  "arrive cr n [] c = Inr c"
| "arrive cr n (p # ps) c = rbind (pipe_processing cr n (extend p c)) (arrive cr n ps)"

definition talking :: "connection \<Rightarrow> bool" where
  "talking c \<longleftrightarrow> \<not> cn_closed c \<and> (\<exists>ctx. cn_context c = Some ctx \<and> mc_established ctx)"

lemma pipe_processing_talking: "talking c \<Longrightarrow> pipe_processing cr n (extend p c) = pipe_loop cr n (extend p c)"
  by (auto simp: talking_def pipe_processing_def extend_def)

lemma extend_extend [simp]: "extend q (extend p c) = extend (p @ q) c"
  by (simp add: extend_def)

lemma arrive_pieces:
  assumes "ps \<noteq> []" and "talking c"
    and "\<And>q r. concat ps = q @ r \<Longrightarrow> \<exists>c'. pipe_loop cr n (extend q c) = Inr c' \<and> talking c'"
  shows "arrive cr n ps c = pipe_loop cr n (extend (concat ps) c)"
  using assms
proof (induction ps arbitrary: c)
  case (Cons p ps)
  obtain c1 where c1: "pipe_loop cr n (extend p c) = Inr c1" "talking c1" using Cons.prems(3) [of p "concat ps"] by auto
  then have step: "arrive cr n (p # ps) c = arrive cr n ps c1"
    using pipe_processing_talking [OF Cons.prems(2)] by simp
  have more: "pipe_loop cr n (extend q c1) = pipe_loop cr n (extend (p @ q) c)" for q
    using pipe_loop_extend [OF c1(1), of q] c1(2) by (simp add: talking_def)
  show ?case
  proof (cases "ps = []")
    case True
    then show ?thesis using step c1 by simp
  next
    case False
    have "\<exists>c'. pipe_loop cr n (extend q c1) = Inr c' \<and> talking c'" if "concat ps = q @ r" for q r
      using Cons.prems(3) [of "p @ q" r] that by (simp add: more)
    with False have "arrive cr n ps c1 = pipe_loop cr n (extend (concat ps) c1)" using Cons.IH c1(2) by blast
    then show ?thesis using step by (simp add: more)
  qed
qed simp

text \<open>The beginning of a framed message is waited for.\<close>

lemma pipe_loop_partial:
  assumes "framed m f" and "f = q @ r" and "r \<noteq> []"
  shows "\<exists>t. pipe_loop cr n (c\<lparr>cn_in := q\<rparr>) = Inr (c\<lparr>cn_in := q, cn_ttl := t\<rparr>)"
proof (cases "length q < HEADER_SIZE")
  case True
  then show ?thesis using pipe_loop_short [of "c\<lparr>cn_in := q\<rparr>" cr n] by auto
next
  case False
  obtain h bs where h: "f = ser_MessageHeader h @ bs" "mh_ok h" "mh_magic h = MAGIC_main" "length bs < 2 ^ 32"
    "mh_length h = word_of_nat (length bs)"
    using assms(1) unfolding framed_def by blast
  have len: "unat (mh_length h) = length bs" unfolding h(5) by (rule framed_length [OF h(4)])
  have "q = ser_MessageHeader h @ drop HEADER_SIZE q"
  proof -
    have "take HEADER_SIZE f = ser_MessageHeader h" using length_ser_MessageHeader [OF h(2)] by (simp add: h(1))
    moreover have "take HEADER_SIZE f = take HEADER_SIZE q" using False by (simp add: assms(2))
    ultimately show ?thesis using append_take_drop_id [of HEADER_SIZE q] by simp
  qed
  moreover have "length q < length f" using assms(2,3) by simp
  ultimately obtain d where d: "q = ser_MessageHeader h @ d" "length d < length bs"
    using length_ser_MessageHeader [OF h(2)] by (metis h(1) length_append nat_add_left_cancel_less)
  have "pipe_step cr n (c\<lparr>cn_in := q\<rparr>) = Inr (False, c\<lparr>cn_in := q, cn_ttl := 900000\<rparr>)"
    unfolding d(1) pipe_step_front [OF h(2)] using d(2) h(3) len by (simp add: known_magic_def)
  then show ?thesis by (subst pipe_loop.simps) auto
qed

lemma pipe_loop_prefix:
  assumes "complete_factory junk cr" and "list_all2 framed ms fs" and "\<forall>m \<in> set ms. message_ok n m"
    and "concat fs @ tail = q @ r" and "length tail < HEADER_SIZE"
  shows "\<exists>b ms' t. pipe_loop cr n (c\<lparr>cn_in := q\<rparr>) = Inr (c\<lparr>cn_in := b, cn_handled := ms', cn_ttl := t\<rparr>)"
  using assms(2-4)
proof (induction arbitrary: c q rule: list_all2_induct)
  case Nil
  then have "length q < HEADER_SIZE" using assms(5) by (metis append_Nil concat.simps(1) le_less_trans length_append le_add1)
  then have "pipe_loop cr n (c\<lparr>cn_in := q\<rparr>) =
      Inr (c\<lparr>cn_in := q, cn_handled := cn_handled c, cn_ttl := if 0 < length q then 10000 else 900000\<rparr>)"
    using pipe_loop_short [of "c\<lparr>cn_in := q\<rparr>" cr n] by (auto intro: connection.equality)
  then show ?case by blast
next
  case (Cons m ms f fs)
  consider r' where "f = q @ r'" "r' \<noteq> []" | q' where "q = f @ q'" "concat fs @ tail = q' @ r"
  proof -
    have "f @ concat fs @ tail = q @ r" using Cons.prems(2) by simp
    then obtain us where "f = q @ us \<and> us @ concat fs @ tail = r \<or> f @ us = q \<and> concat fs @ tail = us @ r"
      unfolding append_eq_append_conv2 by blast
    then show thesis using that by (cases "us = []") auto
  qed
  then show ?case
  proof cases
    case 1
    obtain t where "pipe_loop cr n (c\<lparr>cn_in := q\<rparr>) = Inr (c\<lparr>cn_in := q, cn_ttl := t\<rparr>)"
      using pipe_loop_partial [OF Cons.hyps(1) 1, where c = c] by blast
    moreover have "c\<lparr>cn_in := q, cn_ttl := t\<rparr> = c\<lparr>cn_in := q, cn_handled := cn_handled c, cn_ttl := t\<rparr>"
      by (rule connection.equality) simp_all
    ultimately show ?thesis by metis
  next
    case 2
    have "pipe_loop cr n (c\<lparr>cn_in := q\<rparr>) = pipe_loop cr n (c\<lparr>cn_handled := cn_handled c @ [m], cn_in := q'\<rparr>)"
      using pipe_step_framed [OF assms(1), of n m f q' c] Cons.hyps(1) Cons.prems(1)
      by (simp add: 2(1) pipe_loop_go in_handled)
    moreover obtain b ms' t where "pipe_loop cr n (c\<lparr>cn_handled := cn_handled c @ [m], cn_in := q'\<rparr>) =
        Inr (c\<lparr>cn_handled := cn_handled c @ [m], cn_in := b, cn_handled := ms', cn_ttl := t\<rparr>)"
      using Cons.IH [of q' "c\<lparr>cn_handled := cn_handled c @ [m]\<rparr>"] Cons.prems(1) 2(2) by auto
    moreover have "c\<lparr>cn_handled := cn_handled c @ [m], cn_in := b, cn_handled := ms', cn_ttl := t\<rparr> =
        c\<lparr>cn_in := b, cn_handled := ms', cn_ttl := t\<rparr>"
      by (rule connection.equality) simp_all
    ultimately show ?thesis by metis
  qed
qed

text \<open>Framed messages arrive as they were sent, however the bytes are cut.\<close>

lemma arrive_framed:
  assumes "complete_factory junk cr" and "list_all2 framed ms fs" and "\<forall>m \<in> set ms. message_ok n m"
    and "concat ps = concat fs @ tail" and "length tail < HEADER_SIZE" and "ps \<noteq> []" and "talking c" and "cn_in c = []"
  shows "arrive cr n ps c =
    Inr (c\<lparr>cn_in := tail, cn_handled := cn_handled c @ ms, cn_ttl := if 0 < length tail then 10000 else 900000\<rparr>)"
proof -
  have front: "extend q c = c\<lparr>cn_in := q\<rparr>" for q by (simp add: extend_def assms(8))
  have "arrive cr n ps c = pipe_loop cr n (extend (concat ps) c)"
  proof (rule arrive_pieces [OF assms(6,7)])
    fix q r
    assume "concat ps = q @ r"
    then have "concat fs @ tail = q @ r" using assms(4) by simp
    from pipe_loop_prefix [OF assms(1-3) this assms(5), of c]
    obtain b ms' t where "pipe_loop cr n (c\<lparr>cn_in := q\<rparr>) = Inr (c\<lparr>cn_in := b, cn_handled := ms', cn_ttl := t\<rparr>)" by blast
    then show "\<exists>c'. pipe_loop cr n (extend q c) = Inr c' \<and> talking c'"
      using assms(7) by (simp add: front talking_def)
  qed
  also have "\<dots> = pipe_loop cr n (c\<lparr>cn_in := tail, cn_handled := cn_handled c @ ms\<rparr>)"
    unfolding front assms(4) by (rule pipe_loop_framed [OF assms(1-3)])
  also have "\<dots> = Inr (c\<lparr>cn_in := tail, cn_handled := cn_handled c @ ms, cn_ttl := if 0 < length tail then 10000 else 900000\<rparr>)"
    using pipe_loop_short [of "c\<lparr>cn_in := tail, cn_handled := cn_handled c @ ms\<rparr>" cr n] assms(5) by simp
  finally show ?thesis .
qed

end
