(* ===== verification/Communicator.thy ===== *)
theory Communicator
  imports WireFacts
begin

text \<open>
  \<open>src/transport/messages/MsgCommunicator.cpp\<close>: the object that opens a connection, sends the
  \<open>Version\<close> message and waits until the conversation is established. It is a state machine whose
  steps are the handlers that the connector and the connection call.

  \<open>done\<close> calls the handler for success or the one for failure and throws an exception that no caller
  inside the class catches, so it is always the last action. \<open>mk_done\<close> lists these calls: \<open>None\<close> is
  success, \<open>Some error\<close> failure.
\<close>

section \<open>The object and its steps\<close>

datatype comm_state = INIT | CONNECT | CONNECTED | SUBMIT | SUBMITED | ESTABLISHED | ERROR

record communicator =
  mk_state :: comm_state
  mk_error :: string
  mk_connector :: bool
  mk_connection :: "connection option"
  mk_done :: "string option list"

definition MsgCommunicator_new :: communicator where
  "MsgCommunicator_new =
     \<lparr>mk_state = INIT, mk_error = ''No run'', mk_connector = False, mk_connection = None, mk_done = []\<rparr>"

definition comm_cleanup :: "communicator \<Rightarrow> communicator" where
  "comm_cleanup k =
     k\<lparr>mk_connection := if mk_state k \<noteq> ESTABLISHED then None else mk_connection k, mk_connector := False\<rparr>"

definition comm_done :: "communicator \<Rightarrow> io_fault + communicator" where
  "comm_done k =
     (if mk_error k = []
      then
        case mk_connection k of
          None \<Rightarrow> Inl Undefined
        | Some c \<Rightarrow>
            let c = (if cn_context c = None then c\<lparr>cn_context := Some MsgContext_new\<rparr> else c)
            in Inr (comm_cleanup (k\<lparr>mk_connection := Some c, mk_done := mk_done k @ [None]\<rparr>))
      else Inr (comm_cleanup (k\<lparr>mk_done := mk_done k @ [Some (mk_error k)]\<rparr>)))"

definition comm_fail :: "string \<Rightarrow> communicator \<Rightarrow> io_fault + communicator" where
  "comm_fail error k =
     comm_done (k\<lparr>mk_state := ERROR, mk_error := if mk_error k = [] then error else mk_error k\<rparr>)"

definition badStep :: "communicator \<Rightarrow> io_fault + communicator" where
  "badStep k =
     (if mk_state k = ERROR \<or> mk_state k = ESTABLISHED then Inr k else comm_fail ''Processing order error'' k)"

definition failConnect :: "communicator \<Rightarrow> io_fault + communicator" where
  "failConnect k = (if mk_state k \<noteq> CONNECT then badStep k else comm_fail ''Fail connect'' k)"

definition exceptionAtConnect :: "communicator \<Rightarrow> io_fault + communicator" where
  "exceptionAtConnect k = (if mk_state k \<noteq> CONNECT then badStep k else comm_fail ''Exception at connect'' k)"

text \<open>\<open>operator()\<close>. The library may throw while the connector is made, with the text \<open>what\<close>.\<close>

definition comm_start :: "string option \<Rightarrow> communicator \<Rightarrow> io_fault + communicator" where
  "comm_start throws k =
     (if mk_state k \<noteq> INIT then badStep k
      else
        let k = k\<lparr>mk_error := [], mk_state := CONNECT\<rparr>
        in case throws of
             None \<Rightarrow> Inr (k\<lparr>mk_connector := True\<rparr>)
           | Some what \<Rightarrow> exceptionAtConnect (k\<lparr>mk_error := ''Exception at connect <- '' @ what\<rparr>))"

definition exceptionAtSubmit :: "communicator \<Rightarrow> io_fault + communicator" where
  "exceptionAtSubmit k = (if mk_state k \<noteq> SUBMIT then badStep k else comm_fail ''Exception at submit'' k)"

text \<open>
  What \<open>submit\<close> takes from its surroundings: the clock, a random number, the address of the peer and
  of this node, the user agent, the hasher, and whether a library call throws before the message is
  written.
\<close>

record surroundings =
  su_now :: "64 word"
  su_rand :: "64 word"
  su_ptr :: bytes
  su_peer :: sockaddr
  su_self :: "sockaddr option"
  su_agent :: bytes
  su_throws :: "string option"

definition NODE_VERSION :: "32 word" where "NODE_VERSION = 80000"

definition local_version :: "surroundings \<Rightarrow> version_message" where
  "local_version u =
     Version_of (su_now u) (su_rand u) NODE_VERSION 1037 (NetworkAddress_of (su_ptr u) (su_peer u))
       (case su_self u of None \<Rightarrow> NetworkAddress_new | Some a \<Rightarrow> na_set (su_ptr u) a NetworkAddress_new)
       (su_agent u) 0 1"

definition comm_submit :: "surroundings \<Rightarrow> 'h hasher \<Rightarrow> bytes \<Rightarrow> communicator \<Rightarrow> io_fault + communicator" where
  "comm_submit u ops junk k =
     (if mk_state k \<noteq> CONNECTED then badStep k
      else
        let k = k\<lparr>mk_state := SUBMIT\<rparr>
        in case (mk_connection k, su_throws u) of
             (None, _) \<Rightarrow> Inl Undefined
           | (Some c, Some what) \<Rightarrow>
               exceptionAtSubmit (k\<lparr>mk_error := ''Internal error: Uncatched exception at submit <- '' @ what\<rparr>)
           | (Some c, None) \<Rightarrow>
               case cn_context c of
                 None \<Rightarrow> exceptionAtSubmit (k\<lparr>mk_error := ''Internal error: Uncatched exception at submit <- Bad context''\<rparr>)
               | Some context \<Rightarrow>
                   let context = context\<lparr>mc_local := Some (local_version u)\<rparr>
                   in rbind (frame_of ops junk (Version (local_version u))) (\<lambda>bs.
                      Inr (k\<lparr>mk_state := SUBMITED,
                        mk_connection := Some (c\<lparr>cn_context := Some context, cn_out := cn_out c @ bs, cn_ttl := 999000\<rparr>)\<rparr>)))"

text \<open>The handler of the connector: the connection is stored before \<open>onConnected\<close> looks at the state.\<close>

definition onConnected ::
    "surroundings \<Rightarrow> 'h hasher \<Rightarrow> bytes \<Rightarrow> connection \<Rightarrow> communicator \<Rightarrow> io_fault + communicator" where
  "onConnected u ops junk c k =
     (let k = k\<lparr>mk_connector := False, mk_connection := Some c\<rparr>
      in if mk_state k \<noteq> CONNECT then badStep k
         else
           let c = (if cn_context c = None then c\<lparr>cn_context := Some MsgContext_new\<rparr> else c)
           in comm_submit u ops junk (k\<lparr>mk_state := CONNECTED, mk_connection := Some c\<rparr>))"

definition after_connected :: "comm_state \<Rightarrow> bool" where
  "after_connected s \<longleftrightarrow> s = CONNECTED \<or> s = SUBMIT \<or> s = SUBMITED"

definition failProcessing :: "communicator \<Rightarrow> io_fault + communicator" where
  "failProcessing k =
     (if \<not> after_connected (mk_state k) then badStep k else comm_fail ''Exception after connected'' k)"

text \<open>The handler of the connection's end, with the context it had.\<close>

definition onDisconnected :: "msg_context option \<Rightarrow> communicator \<Rightarrow> io_fault + communicator" where
  "onDisconnected context k =
     (case context of
        None \<Rightarrow> failProcessing k
      | Some context \<Rightarrow> if mc_established context then Inr k else failProcessing k)"

text \<open>\<open>onComplete\<close>, which \<open>setEstablished\<close> calls.\<close>

definition onComplete :: "communicator \<Rightarrow> io_fault + communicator" where
  "onComplete k =
     (if mk_state k = ESTABLISHED then Inr k
      else if mk_state k \<noteq> SUBMITED then badStep k
      else
        case mk_connection k of
          None \<Rightarrow> Inl Undefined
        | Some c \<Rightarrow>
            case cn_context c of
              None \<Rightarrow> Inl StdExcept
            | Some context \<Rightarrow>
                comm_done (k\<lparr>mk_connection := Some (c\<lparr>cn_ttl := 900000\<rparr>), mk_error := [], mk_state := ESTABLISHED\<rparr>))"

definition onError :: "communicator \<Rightarrow> io_fault + communicator" where
  "onError k =
     (if \<not> after_connected (mk_state k) then badStep k
      else
        case mk_connection k of
          None \<Rightarrow> Inl Undefined
        | Some c \<Rightarrow>
            comm_done (k\<lparr>mk_state := ERROR, mk_error := if mk_error k = [] then ''Error at processing'' else mk_error k,
              mk_connection := Some (c\<lparr>cn_ttl := 50\<rparr>)\<rparr>))"

section \<open>Runs\<close>

text \<open>
  The handlers may be called at any time and in any order; \<open>comm_traffic\<close> is anything that happens on
  the connection. A handler that throws before it changes the object is no step.
\<close>

inductive comm_step :: "'h hasher \<Rightarrow> bytes \<Rightarrow> communicator \<Rightarrow> communicator \<Rightarrow> bool" for ops :: "'h hasher" and junk where
  comm_starts: "comm_start throws k = Inr k' \<Longrightarrow> comm_step ops junk k k'"
| comm_connects: "onConnected u ops junk c k = Inr k' \<Longrightarrow> comm_step ops junk k k'"
| comm_fails: "failConnect (k\<lparr>mk_connector := False\<rparr>) = Inr k' \<Longrightarrow> comm_step ops junk k k'"
| comm_ends: "onDisconnected context k = Inr k' \<Longrightarrow> comm_step ops junk k k'"
| comm_breaks: "failProcessing k = Inr k' \<Longrightarrow> comm_step ops junk k k'"
| comm_completes: "onComplete k = Inr k' \<Longrightarrow> comm_step ops junk k k'"
| comm_errs: "onError k = Inr k' \<Longrightarrow> comm_step ops junk k k'"
| comm_traffic: "mk_connection k = Some c \<Longrightarrow> comm_step ops junk k (k\<lparr>mk_connection := Some c'\<rparr>)"

inductive comm_reachable :: "'h hasher \<Rightarrow> bytes \<Rightarrow> communicator \<Rightarrow> bool" for ops :: "'h hasher" and junk where
  comm_initial: "comm_reachable ops junk MsgCommunicator_new"
| comm_next: "comm_reachable ops junk k \<Longrightarrow> comm_step ops junk k k' \<Longrightarrow> comm_reachable ops junk k'"

section \<open>One outcome\<close>

text \<open>
  Before the end no handler has been called; in the state \<open>ESTABLISHED\<close> the one for success has been
  called once, in the state \<open>ERROR\<close> the one for failure once, with an error that is not empty.
\<close>

definition comm_inv :: "communicator \<Rightarrow> bool" where
  "comm_inv k \<longleftrightarrow>
     (mk_state k = ESTABLISHED \<longrightarrow> mk_done k = [None]) \<and>
     (mk_state k = ERROR \<longrightarrow> (\<exists>e. e \<noteq> [] \<and> mk_done k = [Some e])) \<and>
     (mk_state k \<noteq> ESTABLISHED \<and> mk_state k \<noteq> ERROR \<longrightarrow> mk_done k = [])"

lemma comm_inv_fields [simp]:
  "comm_inv (k\<lparr>mk_connection := c\<rparr>) = comm_inv k" "comm_inv (k\<lparr>mk_connector := b\<rparr>) = comm_inv k"
  by (simp_all add: comm_inv_def)

lemma comm_done_states: "comm_done k = Inr k' \<Longrightarrow>
    mk_state k' = mk_state k \<and> mk_done k' = mk_done k @ [if mk_error k = [] then None else Some (mk_error k)]"
  by (auto simp: comm_done_def comm_cleanup_def Let_def split: if_splits option.splits)

lemma comm_fail_inv: "comm_fail e k = Inr k' \<Longrightarrow> e \<noteq> [] \<Longrightarrow> mk_done k = [] \<Longrightarrow> comm_inv k'"
  by (auto simp: comm_fail_def comm_inv_def dest!: comm_done_states)

lemma running_done: "comm_inv k \<Longrightarrow> mk_state k \<noteq> ESTABLISHED \<Longrightarrow> mk_state k \<noteq> ERROR \<Longrightarrow> mk_done k = []"
  by (simp add: comm_inv_def)

lemma badStep_inv: "badStep k = Inr k' \<Longrightarrow> comm_inv k \<Longrightarrow> comm_inv k'"
  using comm_fail_inv [of "''Processing order error''" k k'] running_done [of k]
  by (auto simp: badStep_def split: if_splits)

lemma failConnect_inv: "failConnect k = Inr k' \<Longrightarrow> comm_inv k \<Longrightarrow> comm_inv k'"
  by (auto simp: failConnect_def running_done split: if_splits intro: badStep_inv comm_fail_inv)

lemma exceptionAtConnect_inv: "exceptionAtConnect k = Inr k' \<Longrightarrow> comm_inv k \<Longrightarrow> comm_inv k'"
  by (auto simp: exceptionAtConnect_def running_done split: if_splits intro: badStep_inv comm_fail_inv)

lemma exceptionAtSubmit_inv: "exceptionAtSubmit k = Inr k' \<Longrightarrow> comm_inv k \<Longrightarrow> comm_inv k'"
  by (auto simp: exceptionAtSubmit_def running_done split: if_splits intro: badStep_inv comm_fail_inv)

lemma comm_inv_running: "mk_done k = [] \<Longrightarrow> mk_state k \<noteq> ESTABLISHED \<Longrightarrow> mk_state k \<noteq> ERROR \<Longrightarrow> comm_inv k"
  by (simp add: comm_inv_def)

lemma comm_start_inv:
  assumes "comm_start throws k = Inr k'" and "comm_inv k"
  shows "comm_inv k'"
proof (cases "mk_state k = INIT")
  case True
  then have "mk_done k = []" using assms(2) by (simp add: comm_inv_def)
  then have inv: "comm_inv (k\<lparr>mk_state := CONNECT, mk_error := e\<rparr>)" "comm_inv (k\<lparr>mk_error := e, mk_state := CONNECT, mk_connector := b\<rparr>)"
    for e b by (simp_all add: comm_inv_def)
  show ?thesis
    using assms(1) True exceptionAtConnect_inv [OF _ inv(1)] inv(2)
    by (cases throws) (auto simp: comm_start_def)
next
  case False
  then show ?thesis using assms by (auto simp: comm_start_def intro: badStep_inv)
qed

lemma comm_submit_inv:
  assumes "comm_submit u ops junk k = Inr k'" and "comm_inv k"
  shows "comm_inv k'"
proof (cases "mk_state k = CONNECTED")
  case True
  then have "mk_done k = []" using assms(2) by (simp add: comm_inv_def)
  then have inv: "comm_inv (k\<lparr>mk_state := SUBMIT, mk_error := e\<rparr>)" "comm_inv (k\<lparr>mk_state := SUBMITED, mk_connection := c\<rparr>)"
    for e c by (simp_all add: comm_inv_def)
  show ?thesis
    using assms(1) True inv(2) exceptionAtSubmit_inv [OF _ inv(1)]
    by (auto simp: comm_submit_def Let_def rbind_eq_Inr split: option.splits)
next
  case False
  then show ?thesis using assms by (auto simp: comm_submit_def intro: badStep_inv)
qed

lemma onConnected_inv:
  assumes "onConnected u ops junk c k = Inr k'" and "comm_inv k"
  shows "comm_inv k'"
proof (cases "mk_state k = CONNECT")
  case True
  then have "mk_done k = []" using assms(2) by (simp add: comm_inv_def)
  then have inv: "comm_inv (k\<lparr>mk_connector := False, mk_state := CONNECTED, mk_connection := c\<rparr>)" for c
    by (simp add: comm_inv_def)
  show ?thesis
    using assms(1) True comm_submit_inv [OF _ inv] by (auto simp: onConnected_def Let_def)
next
  case False
  have "comm_inv (k\<lparr>mk_connector := False, mk_connection := Some c\<rparr>)" using assms(2) by simp
  with False show ?thesis using assms(1) badStep_inv by (auto simp: onConnected_def Let_def)
qed

lemma failProcessing_inv: "failProcessing k = Inr k' \<Longrightarrow> comm_inv k \<Longrightarrow> comm_inv k'"
  by (auto simp: failProcessing_def after_connected_def running_done split: if_splits intro: badStep_inv comm_fail_inv)

lemma onDisconnected_inv: "onDisconnected context k = Inr k' \<Longrightarrow> comm_inv k \<Longrightarrow> comm_inv k'"
  by (auto simp: onDisconnected_def split: option.splits if_splits intro: failProcessing_inv)

lemma onComplete_inv:
  assumes "onComplete k = Inr k'" and "comm_inv k"
  shows "comm_inv k'"
proof (cases "mk_state k = SUBMITED")
  case True
  then have "mk_done k = []" using assms(2) by (simp add: comm_inv_def)
  then show ?thesis
    using assms(1) True by (auto simp: onComplete_def comm_inv_def split: option.splits dest!: comm_done_states)
next
  case False
  then show ?thesis using assms by (auto simp: onComplete_def split: if_splits intro: badStep_inv)
qed

lemma onError_inv:
  assumes "onError k = Inr k'" and "comm_inv k"
  shows "comm_inv k'"
proof (cases "after_connected (mk_state k)")
  case True
  then have "mk_done k = []" using assms(2) by (auto simp: comm_inv_def after_connected_def)
  then show ?thesis
    using assms(1) True by (auto simp: onError_def comm_inv_def split: option.splits dest!: comm_done_states)
next
  case False
  then show ?thesis using assms by (auto simp: onError_def intro: badStep_inv)
qed

lemma comm_step_inv: "comm_step ops junk k k' \<Longrightarrow> comm_inv k \<Longrightarrow> comm_inv k'"
proof (induction rule: comm_step.induct)
  case (comm_fails k k')
  have "comm_inv (k\<lparr>mk_connector := False\<rparr>)" using comm_fails(2) by simp
  then show ?case by (rule failConnect_inv [OF comm_fails(1)])
next
  case (comm_traffic k c c')
  then show ?case by simp
qed (blast intro: comm_start_inv onConnected_inv onDisconnected_inv failProcessing_inv onComplete_inv onError_inv)+

lemma comm_reachable_inv: "comm_reachable ops junk k \<Longrightarrow> comm_inv k"
  by (induction rule: comm_reachable.induct) (auto simp: comm_inv_def MsgCommunicator_new_def dest: comm_step_inv)

end
