(* ===== verification/MessageTypes.thy ===== *)
theory MessageTypes
  imports Wire
begin

text \<open>
  The shape of the messages: every hash has 32 bytes, every short identifier 6 and every address 16. Whatever
  bytes arrive, what is read into an object of the right shape has the right shape again, so all that
  the pipe hands on has.
\<close>

section \<open>Reading keeps a shape\<close>

definition keeps :: "('a \<Rightarrow> bool) \<Rightarrow> ('a \<Rightarrow> istream \<Rightarrow> io_fault + 'a \<times> istream) \<Rightarrow> bool" where
  "keeps P unser \<longleftrightarrow> (\<forall>old s x s'. P old \<longrightarrow> unser old s = Inr (x, s') \<longrightarrow> P x)"

lemma keepsI: "(\<And>old s x s'. P old \<Longrightarrow> unser old s = Inr (x, s') \<Longrightarrow> P x) \<Longrightarrow> keeps P unser"
  by (auto simp: keeps_def)

lemma keepsD: "keeps P unser \<Longrightarrow> unser old s = Inr (x, s') \<Longrightarrow> P old \<Longrightarrow> P x"
  by (auto simp: keeps_def)

lemma keeps_list: "keeps P unser \<Longrightarrow> unser_list unser old s = Inr (xs, s') \<Longrightarrow> list_all P old \<Longrightarrow> list_all P xs"
  by (induction old arbitrary: s xs) (auto simp: rbind_eq_Inr dest: keepsD)

lemma keeps_sized: "keeps P unser \<Longrightarrow> P d \<Longrightarrow> keeps (list_all P) (unser_sized d unser)"
proof (rule keepsI)
  fix old s xs s'
  assume a: "keeps P unser" "P d" "list_all P old" "unser_sized d unser old s = Inr (xs, s')"
  then obtain n t where "unser_list unser (resize n d old) t = Inr (xs, s')"
    by (auto simp: unser_sized_def rbind_eq_Inr split: if_splits)
  moreover have "list_all P (resize n d old)"
    using a(2,3) by (auto simp: list_all_iff dest: set_resize)
  ultimately show "list_all P xs" using a(1) by (rule keeps_list [rotated])
qed

lemma unser_bytes_length: "unser_bytes old s = Inr (x, s') \<Longrightarrow> length x = length old"
  by (auto simp: unser_bytes_def read_over_def Let_def split: if_splits)

lemma keeps_bytes: "keeps (\<lambda>b. length b = n) unser_bytes"
  by (rule keepsI) (auto dest: unser_bytes_length)

definition pointer :: "('a \<Rightarrow> bool) \<Rightarrow> 'a option \<Rightarrow> bool" where
  "pointer P p \<longleftrightarrow> (case p of None \<Rightarrow> True | Some x \<Rightarrow> P x)"

lemma pointer_simps [simp]: "pointer P None" "pointer P (Some x) = P x"
  by (simp_all add: pointer_def)

section \<open>The shapes\<close>

definition header_shape :: "block_header \<Rightarrow> bool" where
  "header_shape h \<longleftrightarrow> length (bh_prev h) = 32 \<and> length (bh_merkle h) = 32 \<and> length (bh_hash h) = 32"

definition tx_shape :: "transaction \<Rightarrow> bool" where
  "tx_shape t \<longleftrightarrow> list_all (\<lambda>i. length (op_hash (prevOut i)) = 32) (txIns t) \<and> length (tx_hash t) = 32"

definition block_shape :: "block \<Rightarrow> bool" where
  "block_shape b \<longleftrightarrow> header_shape (b_header b) \<and> pointer (list_all (pointer tx_shape)) (b_txList b)"

definition address_shape :: "network_address \<Rightarrow> bool" where
  "address_shape a \<longleftrightarrow> length (na_ip a) = 16"

definition prefilled_shape :: "prefilled_transaction \<Rightarrow> bool" where
  "prefilled_shape p \<longleftrightarrow> pointer tx_shape (pt_tx p)"

fun message_shape :: "message \<Rightarrow> bool" where
  "message_shape (Addr list) = list_all address_shape list"
| "message_shape (Block b) = pointer block_shape b"
| "message_shape (BlockTxn t) = (length (bt_blockhash t) = 32 \<and> list_all (pointer tx_shape) (bt_transactions t))"
| "message_shape (CmpctBlock h) =
     (pointer header_shape (cmp_header h) \<and> list_all (\<lambda>b. length b = 6) (cmp_shortIds h) \<and>
      list_all prefilled_shape (cmp_prefilledTxn h))"
| "message_shape (GetBlockTxn r) = (length (btr_hash r) = 32)"
| "message_shape (GetBlocks v l h) = (list_all (\<lambda>b. length b = 32) l \<and> length h = 32)"
| "message_shape (GetData list) = list_all iv_ok list"
| "message_shape (GetHeaders v l h) = (list_all (\<lambda>b. length b = 32) l \<and> length h = 32)"
| "message_shape (Headers hs) = list_all (pointer header_shape) hs"
| "message_shape (Inv list) = list_all iv_ok list"
| "message_shape (NotFound list) = list_all iv_ok list"
| "message_shape (Tx t) = pointer tx_shape t"
| "message_shape (Version m) = (address_shape (vm_addrRecv m) \<and> address_shape (vm_addrFrom m))"
| "message_shape m = True"

section \<open>They are kept\<close>

lemma keeps_header: "keeps header_shape unser_BlockHeader"
  by (rule keepsI) (auto simp: header_shape_def unser_BlockHeader_def rbind_eq_Inr dest!: unser_bytes_length)

lemma keeps_header_ptr: "keeps (pointer header_shape) unser_header"
proof (rule keepsI)
  fix old s x s'
  assume a: "pointer header_shape old" "unser_header old s = Inr (x, s')"
  have "header_shape (case old of None \<Rightarrow> BlockHeader_new | Some h \<Rightarrow> h)"
    using a(1) by (cases old) (simp_all add: header_shape_def BlockHeader_new_def blob_null_def)
  with a(2) show "pointer header_shape x"
    by (auto simp: unser_header_def rbind_eq_Inr dest: keepsD [OF keeps_header])
qed

lemma keeps_tx_in: "keeps (\<lambda>i. length (op_hash (prevOut i)) = 32) unser_TxIn"
  by (rule keepsI) (auto simp: unser_TxIn_def unser_TxOutPoint_def rbind_eq_Inr dest!: unser_bytes_length)

lemma unser_witnesses_prevOut: "unser_witnesses ins s = Inr (ins', s') \<Longrightarrow> map prevOut ins' = map prevOut ins"
  by (induction ins arbitrary: s ins') (auto simp: rbind_eq_Inr)

lemma list_all_prevOut: "list_all (\<lambda>i. length (op_hash (prevOut i)) = 32) ins \<longleftrightarrow> list_all (\<lambda>p. length (op_hash p) = 32) (map prevOut ins)"
  by (simp add: list_all_iff)

lemma keeps_tx_ins: "keeps (list_all (\<lambda>i. length (op_hash (prevOut i)) = 32)) (unser_sized TxIn_new unser_TxIn)"
  by (rule keeps_sized [OF keeps_tx_in]) (simp add: TxIn_new_def TxOutPoint_new_def blob_null_def)

lemma keeps_tx: "keeps tx_shape unser_Transaction"
proof (rule keepsI)
  fix old s t s'
  assume a: "tx_shape old" "unser_Transaction old s = Inr (t, s')"
  have prev: "map prevOut (fst p) = map prevOut ins"
    if "(if f = None then Inr (ins, u) else unser_witnesses ins u) = Inr p" for f :: "16 word option" and ins u p
    using that by (cases p) (auto split: if_splits dest: unser_witnesses_prevOut)
  have ins: "list_all (\<lambda>p. length (op_hash p) = 32) (map prevOut (fst p))"
    if "unser_sized TxIn_new unser_TxIn (txIns old) u = Inr p" for u p
    using keepsD [OF keeps_tx_ins, of "txIns old" u "fst p" "snd p"] that a(1) by (simp add: tx_shape_def list_all_prevOut)
  show "tx_shape t"
    using a unfolding tx_shape_def list_all_prevOut unser_Transaction_def
    by (auto simp: rbind_eq_Inr dest!: prev ins)
qed

lemma new_tx_shape: "tx_shape Transaction_new"
  by (simp add: tx_shape_def Transaction_new_def blob_null_def)

lemma keeps_tx_ptr: "keeps (pointer tx_shape) unser_tx_ptr"
proof (rule keepsI)
  fix old s x s'
  assume a: "pointer tx_shape old" "unser_tx_ptr old s = Inr (x, s')"
  have "tx_shape (case old of None \<Rightarrow> Transaction_new | Some t \<Rightarrow> t)"
    using a(1) new_tx_shape by (cases old) simp_all
  with a(2) show "pointer tx_shape x" by (auto simp: unser_tx_ptr_def rbind_eq_Inr dest: keepsD [OF keeps_tx])
qed

lemma keeps_tx_ptrs: "keeps (list_all (pointer tx_shape)) (unser_sized None unser_tx_ptr)"
  by (rule keeps_sized [OF keeps_tx_ptr]) simp

lemma keeps_block: "keeps block_shape unser_Block"
proof (rule keepsI)
  fix old s x s'
  assume a: "block_shape old" "unser_Block old s = Inr (x, s')"
  then have old: "list_all (pointer tx_shape) (case b_txList old of None \<Rightarrow> [] | Some txs \<Rightarrow> txs)"
    by (auto simp: block_shape_def split: option.splits)
  from a(2) obtain h s1 txs s2 where r: "unser_BlockHeader (b_header old) s = Inr (h, s1)"
    "unser_sized None unser_tx_ptr (case b_txList old of None \<Rightarrow> [] | Some txs \<Rightarrow> txs) s1 = Inr (txs, s2)"
    "x = \<lparr>b_header = h, b_txList = Some txs\<rparr>"
    by (auto simp: unser_Block_def rbind_eq_Inr)
  show "block_shape x"
    using keepsD [OF keeps_header r(1)] keepsD [OF keeps_tx_ptrs r(2) old] a(1) r(3) by (simp add: block_shape_def)
qed

lemma keeps_address: "keeps address_shape unser_NetworkAddress"
  by (rule keepsI) (auto simp: address_shape_def unser_NetworkAddress_def rbind_eq_Inr dest!: unser_bytes_length)

lemma keeps_addresses: "keeps (list_all address_shape) (unser_sized NetworkAddress_new unser_NetworkAddress)"
  by (rule keeps_sized [OF keeps_address]) (simp add: address_shape_def NetworkAddress_new_def)

lemma keeps_inventory: "keeps (list_all iv_ok) unser_inventory"
proof (rule keeps_sized)
  show "keeps iv_ok unser_InventoryVector"
    by (rule keepsI) (auto simp: iv_ok_def unser_InventoryVector_def rbind_eq_Inr dest!: unser_bytes_length)
qed (simp add: iv_ok_def InventoryVector_new_def blob_null_def)

lemma keeps_hashes: "keeps (list_all (\<lambda>b. length b = n)) (unser_sized (blob_null n) unser_bytes)"
  by (rule keeps_sized [OF keeps_bytes]) (simp add: blob_null_def)

lemma keeps_prefilled: "keeps (list_all prefilled_shape) (unser_sized PrefilledTransaction_new unser_PrefilledTransaction)"
proof (rule keeps_sized)
  show "keeps prefilled_shape unser_PrefilledTransaction"
    by (rule keepsI)
      (auto simp: prefilled_shape_def unser_PrefilledTransaction_def rbind_eq_Inr dest: keepsD [OF keeps_tx_ptr])
qed (simp add: prefilled_shape_def PrefilledTransaction_new_def)

lemma unser_headers_shape:
  "unser_headers n old s = Inr (hs, s') \<Longrightarrow> list_all (pointer header_shape) old \<Longrightarrow> list_all (pointer header_shape) hs"
  by (induction n arbitrary: old s) (fastforce simp: rbind_eq_Inr dest: keepsD [OF keeps_header_ptr])+

lemma unser_locator_shape:
  assumes "unser_locator v l h s = Inr ((v', l', h'), s')" and "list_all (\<lambda>b. length b = 32) l" and "length h = 32"
  shows "list_all (\<lambda>b. length b = 32) l' \<and> length h' = 32"
proof -
  from assms(1) obtain s1 s2 s3 where "unser_sized (blob_null 32) unser_bytes l s1 = Inr (l', s2)" "unser_bytes h s2 = Inr (h', s3)"
    by (auto simp: unser_locator_def rbind_eq_Inr)
  with assms(2,3) show ?thesis using keepsD [OF keeps_hashes, of 32 l s1 l' s2] unser_bytes_length [of h s2 h' s3] by simp
qed

lemma keeps_version:
  "unser_Version m s = Inr (m', s') \<Longrightarrow> address_shape (vm_addrRecv m) \<Longrightarrow> address_shape (vm_addrFrom m) \<Longrightarrow>
     address_shape (vm_addrRecv m') \<and> address_shape (vm_addrFrom m')"
  by (auto simp: unser_Version_def rbind_eq_Inr dest: keepsD [OF keeps_address])

lemma keeps_BlockTransactions:
  "unser_BlockTransactions t s = Inr (t', s') \<Longrightarrow> message_shape (BlockTxn t) \<Longrightarrow> message_shape (BlockTxn t')"
  by (auto simp: unser_BlockTransactions_def rbind_eq_Inr dest: keepsD [OF keeps_tx_ptrs] dest!: unser_bytes_length)

lemma keeps_HeaderAndShortIDs:
  "unser_HeaderAndShortIDs h s = Inr (h', s') \<Longrightarrow> message_shape (CmpctBlock h) \<Longrightarrow> message_shape (CmpctBlock h')"
  by (auto simp: unser_HeaderAndShortIDs_def rbind_eq_Inr
      dest: keepsD [OF keeps_header_ptr] keepsD [OF keeps_hashes] keepsD [OF keeps_prefilled])

theorem unser_Message_shape:
  assumes "unser_Message m s = Inr (m', s')" and "message_shape m"
  shows "message_shape m' \<and> command m' = command m"
proof (cases m)
  case (Addr l)
  with assms show ?thesis by (auto simp: rbind_eq_Inr command_def dest: keepsD [OF keeps_addresses])
next
  case (Block b)
  have "block_shape (case b of None \<Rightarrow> Block_new | Some b \<Rightarrow> b)"
    using assms(2) Block
    by (cases b) (simp_all add: block_shape_def Block_new_def header_shape_def BlockHeader_new_def blob_null_def)
  with Block assms(1) show ?thesis by (auto simp: rbind_eq_Inr command_def dest: keepsD [OF keeps_block])
next
  case (BlockTxn t)
  with assms show ?thesis by (auto simp: rbind_eq_Inr command_def simp del: message_shape.simps dest: keeps_BlockTransactions)
next
  case (CmpctBlock h)
  with assms show ?thesis by (auto simp: rbind_eq_Inr command_def simp del: message_shape.simps dest: keeps_HeaderAndShortIDs)
next
  case (GetBlockTxn r)
  with assms show ?thesis
    by (auto simp: unser_BlockTransactionsRequest_def rbind_eq_Inr command_def split: if_splits dest!: unser_bytes_length)
next
  case (GetBlocks v l h)
  with assms show ?thesis by (auto simp: rbind_eq_Inr command_def dest: unser_locator_shape)
next
  case (GetHeaders v l h)
  with assms show ?thesis by (auto simp: rbind_eq_Inr command_def dest: unser_locator_shape)
next
  case (GetData l)
  with assms show ?thesis by (auto simp: rbind_eq_Inr command_def dest: keepsD [OF keeps_inventory])
next
  case (Inv l)
  with assms show ?thesis by (auto simp: rbind_eq_Inr command_def dest: keepsD [OF keeps_inventory])
next
  case (NotFound l)
  with assms show ?thesis by (auto simp: rbind_eq_Inr command_def dest: keepsD [OF keeps_inventory])
next
  case (Headers hs)
  with assms show ?thesis
    by (auto simp: rbind_eq_Inr command_def unser_Headers_def split: if_splits dest: unser_headers_shape)
next
  case (Tx t)
  have "tx_shape (case t of None \<Rightarrow> Transaction_new | Some t \<Rightarrow> t)"
    using assms(2) Tx new_tx_shape by (cases t) simp_all
  with Tx assms(1) show ?thesis by (auto simp: rbind_eq_Inr command_def dest: keepsD [OF keeps_tx])
next
  case (Version m)
  with assms show ?thesis by (auto simp: rbind_eq_Inr command_def dest: keeps_version)
qed (use assms in \<open>auto simp: rbind_eq_Inr command_def\<close>)

lemma fresh_shape: "m \<in> set (created junk) \<Longrightarrow> message_shape m"
  by (auto simp: created_def BlockTransactions_new_def HeaderAndShortIDs_new_def BlockTransactionsRequest_new_def
      Version_new_def setIgnoreTime_def NetworkAddress_new_def address_shape_def blob_null_def)

section \<open>What the pipe hands on\<close>

definition factory_shape :: "creators \<Rightarrow> bool" where
  "factory_shape cr \<longleftrightarrow> (\<forall>name m. factory_create cr name = Some m \<longrightarrow> message_shape m \<and> command m = name)"

lemma register_all_shape:
  "register_all ms c = Inr cr \<Longrightarrow> factory_shape c \<Longrightarrow> \<forall>m \<in> set ms. message_shape m \<Longrightarrow> factory_shape cr"
proof (induction ms arbitrary: c)
  case (Cons m ms)
  then have "factory_shape (c(command m \<mapsto> m))" by (simp add: factory_shape_def factory_create_def)
  moreover have "register_all ms (c(command m \<mapsto> m)) = Inr cr"
    using Cons.prems(1) by (auto simp: factory_reg_def split: if_splits)
  ultimately show ?case using Cons.IH Cons.prems(3) by simp
qed simp

lemma pipe_step_shape:
  assumes "pipe_step cr n c = Inr (go, c')" and "factory_shape cr" and "list_all message_shape (cn_handled c)"
  shows "list_all message_shape (cn_handled c')"
  using assms
  by (auto simp: pipe_step_def pipe_message_def rbind_eq_Inr Let_def drop_peer_def skip_def factory_shape_def
      split: if_splits option.splits sum.splits fault.splits prod.splits dest: unser_Message_shape)

lemma pipe_loop_shape:
  "pipe_loop cr n c = Inr c' \<Longrightarrow> factory_shape cr \<Longrightarrow> list_all message_shape (cn_handled c) \<Longrightarrow>
     list_all message_shape (cn_handled c')"
proof (induction cr n c rule: pipe_loop.induct)
  case (1 cr n c)
  obtain go c1 where s: "pipe_step cr n c = Inr (go, c1)"
    using "1.prems"(1) by (subst (asm) pipe_loop.simps) (auto split: sum.splits)
  have "list_all message_shape (cn_handled c1)" using pipe_step_shape [OF s "1.prems"(2,3)] .
  then show ?case
    using "1.IH" [of "(go, c1)" go c1] "1.prems"(1,2) s
    by (subst (asm) (2) pipe_loop.simps) (auto split: if_splits)
qed

end
