(* ===== verification/PipeSpec.thy ===== *)
theory PipeSpec
  imports WireFacts
begin

text \<open>
  The specification of \<open>MsgPipe::processing\<close>: which messages it takes from the bytes it has received and where it stops.
  The lemmas below show that the loop of \<open>Wire\<close> implements it.
\<close>

section \<open>The specification\<close>

text \<open>
  What the pipe is to do with the bytes it has received, said without its loop. A frame is a header with a known magic
  number, a payload of the length it names, and the message that an object of the class it names reads from the payload;
  \<open>pipe_end\<close> lists what becomes of bytes that do not begin with a frame: too few for a header or for the payload, they are
  kept; with another magic number, an unknown command or a payload that is refused, the peer is dropped; and
  a payload may make the program itself fail.
\<close>

type_synonym wire_frame = "message_header \<times> bytes \<times> message"

fun frame_bytes :: "wire_frame \<Rightarrow> bytes" where
  "frame_bytes (h, p, m) = ser_MessageHeader h @ p"

fun frame_message :: "wire_frame \<Rightarrow> message" where
  "frame_message (h, p, m) = m"

fun read_frame :: "creators \<Rightarrow> nat \<Rightarrow> wire_frame \<Rightarrow> bool" where
  "read_frame cr n (h, p, m) \<longleftrightarrow> mh_ok h \<and> known_magic (mh_magic h) \<and> length p = unat (mh_length h) \<and>
     (case factory_create cr (mh_command_name h) of None \<Rightarrow> False
      | Some old \<Rightarrow> (case unser_Message old (memory_stream n p) of Inl _ \<Rightarrow> False | Inr (m', _) \<Rightarrow> m' = m))"

inductive pipe_end :: "creators \<Rightarrow> nat \<Rightarrow> connection \<Rightarrow> io_fault + connection \<Rightarrow> bool" for cr n c where
  short_header: "length (cn_in c) < HEADER_SIZE \<Longrightarrow>
    pipe_end cr n c (Inr (c\<lparr>cn_ttl := if cn_in c = [] then 900000 else 10000\<rparr>))"
| short_payload: "cn_in c = ser_MessageHeader h @ p \<Longrightarrow> mh_ok h \<Longrightarrow> known_magic (mh_magic h) \<Longrightarrow>
    length p < unat (mh_length h) \<Longrightarrow> pipe_end cr n c (Inr (c\<lparr>cn_ttl := 900000\<rparr>))"
| wrong_magic: "cn_in c = ser_MessageHeader h @ p \<Longrightarrow> mh_ok h \<Longrightarrow> \<not> known_magic (mh_magic h) \<Longrightarrow>
    pipe_end cr n c (Inr (drop_peer c))"
| unknown_command: "cn_in c = ser_MessageHeader h @ p \<Longrightarrow> mh_ok h \<Longrightarrow> known_magic (mh_magic h) \<Longrightarrow>
    unat (mh_length h) \<le> length p \<Longrightarrow> factory_create cr (mh_command_name h) = None \<Longrightarrow>
    pipe_end cr n c (Inr (drop_peer (c\<lparr>cn_in := p\<rparr>)))"
| refused: "cn_in c = ser_MessageHeader h @ p \<Longrightarrow> mh_ok h \<Longrightarrow> known_magic (mh_magic h) \<Longrightarrow>
    unat (mh_length h) \<le> length p \<Longrightarrow> factory_create cr (mh_command_name h) = Some old \<Longrightarrow>
    unser_Message old (memory_stream n (take (unat (mh_length h)) p)) = Inl e \<Longrightarrow>
    pipe_end cr n c (if e = StdExcept then Inr (drop_peer (c\<lparr>cn_in := p\<rparr>)) else Inl e)"

section \<open>The loop implements it\<close>

text \<open>One round against the specification: it reads a frame or it ends.\<close>

lemma pipe_step_reads:
  assumes "pipe_step cr n c = Inr (True, c')"
  obtains h p m r where "read_frame cr n (h, p, m)" and "cn_in c = frame_bytes (h, p, m) @ r"
    and "c' = c\<lparr>cn_in := r, cn_handled := cn_handled c @ [m]\<rparr>"
proof -
  have "\<not> length (cn_in c) < HEADER_SIZE" using assms by (auto simp: pipe_step_def)
  then obtain h r where h: "mh_ok h" "c = c\<lparr>cn_in := ser_MessageHeader h @ r\<rparr>" by (rule header_split)
  let ?k = "unat (mh_length h)"
  from assms have s: "pipe_step cr n (c\<lparr>cn_in := ser_MessageHeader h @ r\<rparr>) = Inr (True, c')" using h(2) by simp
  then obtain old m t where m: "known_magic (mh_magic h)" "\<not> length r < ?k"
    "factory_create cr (mh_command_name h) = Some old" "unser_Message old (memory_stream n (take ?k r)) = Inr (m, t)"
    "c' = c\<lparr>cn_in := drop ?k r, cn_handled := cn_handled c @ [m]\<rparr>"
    unfolding pipe_step_front [OF h(1)] by (auto split: if_splits option.splits sum.splits fault.splits prod.splits)
  have "cn_in c = ser_MessageHeader h @ r" by (subst h(2)) simp
  with h(1) m show thesis by (intro that [of h "take ?k r" m "drop ?k r"]) simp_all
qed

lemma pipe_step_frame:
  assumes "read_frame cr n f"
  shows "pipe_step cr n (c\<lparr>cn_in := frame_bytes f @ r\<rparr>) = Inr (True, c\<lparr>cn_in := r, cn_handled := cn_handled c @ [frame_message f]\<rparr>)"
  using assms
  by (cases f) (auto simp: pipe_step_front split: option.splits sum.splits)

lemma pipe_step_ends: "pipe_step cr n c = Inr (False, c') \<Longrightarrow> pipe_end cr n c (Inr c')"
  and pipe_step_fails: "pipe_step cr n c = Inl e \<Longrightarrow> pipe_end cr n c (Inl e)"
proof -
  have all: "pipe_end cr n c (case_sum Inl (\<lambda>(go, c'). Inr c') (pipe_step cr n c))"
    if go: "\<nexists>c'. pipe_step cr n c = Inr (True, c')"
  proof (cases "length (cn_in c) < HEADER_SIZE")
    case True
    then show ?thesis using short_header [OF True, of cr n] by (cases "cn_in c = []") (simp_all add: pipe_step_def)
  next
    case False
    then obtain h r where h: "mh_ok h" "c = c\<lparr>cn_in := ser_MessageHeader h @ r\<rparr>" by (rule header_split)
    have i: "cn_in c = ser_MessageHeader h @ r" by (subst h(2)) simp
    have u: "c\<lparr>cn_in := ser_MessageHeader h @ r\<rparr> = c" using h(2) by simp
    note front = pipe_step_front [OF h(1), of cr n r c, unfolded u]
    consider "\<not> known_magic (mh_magic h)" | "known_magic (mh_magic h)" "length r < unat (mh_length h)"
      | "known_magic (mh_magic h)" "unat (mh_length h) \<le> length r" "factory_create cr (mh_command_name h) = None"
      | old e where "known_magic (mh_magic h)" "unat (mh_length h) \<le> length r" "factory_create cr (mh_command_name h) = Some old"
        "unser_Message old (memory_stream n (take (unat (mh_length h)) r)) = Inl e"
      | old x where "known_magic (mh_magic h)" "unat (mh_length h) \<le> length r" "factory_create cr (mh_command_name h) = Some old"
        "unser_Message old (memory_stream n (take (unat (mh_length h)) r)) = Inr x"
      by (metis not_less sum.exhaust option.exhaust)
    then show ?thesis
    proof cases
      case 1
      then show ?thesis using wrong_magic [OF i h(1) 1] front by simp
    next
      case 2
      have "c\<lparr>cn_in := ser_MessageHeader h @ r, cn_ttl := 900000\<rparr> = c\<lparr>cn_ttl := 900000\<rparr>"
        by (rule connection.equality) (simp_all add: i)
      then show ?thesis using short_payload [OF i h(1) 2] front 2 by simp
    next
      case 3
      then show ?thesis using unknown_command [OF i h(1) 3] front by simp
    next
      case (4 old e)
      then show ?thesis using refused [OF i h(1) 4] front by (cases e) simp_all
    next
      case (5 old x)
      then show ?thesis using go front by (cases x) simp
    qed
  qed
  show "pipe_end cr n c (Inr c')" if "pipe_step cr n c = Inr (False, c')" using all that by simp
  show "pipe_end cr n c (Inl e)" if "pipe_step cr n c = Inl e" using all that by simp
qed

lemma in_self: "cn_in c = bs \<Longrightarrow> c\<lparr>cn_in := bs\<rparr> = c"
  by (rule connection.equality) simp_all

lemma pipe_end_step:
  assumes "pipe_end cr n c res"
  shows "pipe_loop cr n c = res"
  using assms
proof cases
  case short_header
  then show ?thesis by (auto simp: pipe_loop_short)
next
  case (short_payload h p)
  have "pipe_step cr n c = Inr (False, c\<lparr>cn_ttl := 900000\<rparr>)"
    using pipe_step_front [OF short_payload(3), of cr n p c, unfolded in_self [OF short_payload(2)]] short_payload(2,4,5) by simp
  then show ?thesis using short_payload(1) by (simp add: pipe_loop.simps [of cr n c])
next
  case (wrong_magic h p)
  have "pipe_step cr n c = Inr (False, drop_peer c)"
    using pipe_step_front [OF wrong_magic(3), of cr n p c, unfolded in_self [OF wrong_magic(2)]] wrong_magic(4) by simp
  then show ?thesis using wrong_magic(1) by (simp add: pipe_loop.simps [of cr n c])
next
  case (unknown_command h p)
  have "pipe_step cr n c = Inr (False, drop_peer (c\<lparr>cn_in := p\<rparr>))"
    using pipe_step_front [OF unknown_command(3), of cr n p c, unfolded in_self [OF unknown_command(2)]] unknown_command(4-6) by simp
  then show ?thesis using unknown_command(1) by (simp add: pipe_loop.simps [of cr n c])
next
  case (refused h p old e)
  have "pipe_step cr n c = (if e = StdExcept then Inr (False, drop_peer (c\<lparr>cn_in := p\<rparr>)) else Inl e)"
    using pipe_step_front [OF refused(3), of cr n p c, unfolded in_self [OF refused(2)]] refused(4-7) by (cases e) simp_all
  then show ?thesis using refused(1) by (auto simp: pipe_loop.simps [of cr n c])
qed

lemma pipe_loop_frames:
  assumes "list_all (read_frame cr n) fs"
  shows "pipe_loop cr n (c\<lparr>cn_in := concat (map frame_bytes fs) @ r\<rparr>) =
    pipe_loop cr n (c\<lparr>cn_in := r, cn_handled := cn_handled c @ map frame_message fs\<rparr>)"
  using assms
proof (induction fs arbitrary: c)
  case Nil
  have "c\<lparr>cn_in := r, cn_handled := cn_handled c\<rparr> = c\<lparr>cn_in := r\<rparr>" by (rule connection.equality) simp_all
  then show ?case by simp
next
  case (Cons f fs)
  then show ?case
    using pipe_loop_go [OF pipe_step_frame [of cr n f "concat (map frame_bytes fs) @ r" c]]
      Cons.IH [of "c\<lparr>cn_handled := cn_handled c @ [frame_message f]\<rparr>"] by (simp add: in_handled)
qed

lemma pipe_loop_cuts:
  "\<exists>fs rest. cn_in c = concat (map frame_bytes fs) @ rest \<and> list_all (read_frame cr n) fs \<and>
    pipe_end cr n (c\<lparr>cn_in := rest, cn_handled := cn_handled c @ map frame_message fs\<rparr>) (pipe_loop cr n c)"
proof (induction cr n c rule: pipe_loop.induct)
  case (1 cr n c)
  have id: "c\<lparr>cn_in := cn_in c, cn_handled := cn_handled c @ []\<rparr> = c" by (rule connection.equality) simp_all
  consider e where "pipe_step cr n c = Inl e" | c' where "pipe_step cr n c = Inr (False, c')" | c' where "pipe_step cr n c = Inr (True, c')"
    by (cases "pipe_step cr n c") auto
  then show ?case
  proof cases
    case (1 e)
    then show ?thesis using pipe_step_fails [OF 1]
      by (intro exI [of _ "[]"] exI [of _ "cn_in c"]) (simp add: pipe_loop.simps [of cr n c])
  next
    case (2 c')
    then show ?thesis using pipe_step_ends [OF 2]
      by (intro exI [of _ "[]"] exI [of _ "cn_in c"]) (simp add: pipe_loop.simps [of cr n c])
  next
    case (3 c')
    from pipe_step_reads [OF 3] obtain h p m r where f: "read_frame cr n (h, p, m)" "cn_in c = frame_bytes (h, p, m) @ r"
      "c' = c\<lparr>cn_in := r, cn_handled := cn_handled c @ [m]\<rparr>" by blast
    obtain fs rest where "cn_in c' = concat (map frame_bytes fs) @ rest" "list_all (read_frame cr n) fs"
      "pipe_end cr n (c'\<lparr>cn_in := rest, cn_handled := cn_handled c' @ map frame_message fs\<rparr>) (pipe_loop cr n c')"
      using "1.IH" [OF 3 refl] by auto
    then show ?thesis using f pipe_loop_go [OF 3]
      by (intro exI [of _ "(h, p, m) # fs"] exI [of _ rest]) (simp add: in_handled)
  qed
qed

end
