(* ===== verification/ProtocolProps.thy ===== *)
theory ProtocolProps
  imports Communicator MessageTypes PipeSpec StoreProps
begin

text \<open>
  The properties of messages, of the transport and of the communicator, for the program's hasher,
  \<open>CSHA256\<close>, and for the factory in which all classes have registered in some order.
\<close>

section \<open>Messages\<close>

lemma frame_sha:
  assumes "length junk = 64" and "length junk' = 64" and "ser_Message m = Inr bs" and "length bs < 2 ^ 32"
  shows "\<exists>f. frame_of (CSHA256 junk) junk' m = Inr f \<and> framed m f"
  using hasher_contract.frame_framed [OF CSHA256_contract [OF assms(1)] sha_size assms(2-4)] .

definition full_factory :: "64 word \<Rightarrow> creators \<Rightarrow> bool" where
  "full_factory junk cr \<longleftrightarrow> (\<exists>ms. mset ms = mset (created junk) \<and> register_all ms Map.empty = Inr cr)"

lemma full_factory_complete: "full_factory junk cr \<Longrightarrow> complete_factory junk cr"
  using factory_complete by (fastforce simp: full_factory_def complete_factory_def)

lemma full_factory_shape: "full_factory junk cr \<Longrightarrow> factory_shape cr"
  using register_all_shape fresh_shape
  by (fastforce simp: full_factory_def factory_shape_def [of Map.empty] factory_create_def dest: mset_eq_setD)

lemma a_full_factory: "\<exists>cr. full_factory junk cr"
  using factory_complete [of "created junk" junk] by (auto simp: full_factory_def)

text \<open>C24: In whatever order the classes register, the factory makes from a message's command an object
  that reads back what \<open>Serialize\<close> has written for it and stops behind it, for the messages that \<open>message_ok\<close>
  describes. It leaves out \<open>headers\<close> messages with a header in them (C25), \<open>version\<close> messages with a user agent, \<open>getblocktxn\<close> messages
  with more than two indexes (\<open>third_index\<close>), transactions that are not read back (C17) or have a cached hash, and lists
  and hashes that are not of the lengths the classes allow.\<close>

theorem message_roundtrip:
  assumes "mset ms = mset (created junk)" and "good s" and "message_ok (room s) m"
  shows "\<exists>cr old bs. register_all ms Map.empty = Inr cr \<and> factory_create cr (command m) = Some old \<and>
    ser_Message m = Inr bs \<and> unser_Message old (s\<lparr>buf := bs @ r\<rparr>) = Inr (m, s\<lparr>buf := r\<rparr>)"
  using factory_complete [OF assms(1)] unser_Message_decode [OF assms(2,3)] by blast

definition sample_inv :: message where
  "sample_inv = Inv [\<lparr>iv_type = MSG_TX, iv_hash = replicate 32 7\<rparr>]"

lemma sample_inv_ok: "message_ok 1000 sample_inv"
  by (simp add: sample_inv_def sized_ok_def iv_ok_def)

theorem message_roundtrip_witness:
  "\<exists>cr old bs. register_all (rev (created 5)) Map.empty = Inr cr \<and> factory_create cr (command sample_inv) = Some old \<and>
    ser_Message sample_inv = Inr bs \<and>
    unser_Message old (memory_stream 1000 (bs @ [9])) = Inr (sample_inv, memory_stream 1000 [9])"
  using message_roundtrip [of "rev (created 5)" 5 "memory_stream 1000 []" sample_inv "[9]"] sample_inv_ok
  by (simp add: memory_stream_def)

text \<open>C25: A \<open>headers\<close> message with a header in it cannot be read by the program that wrote it: the counts
  of transactions that \<open>Unserialize\<close> expects were never written.\<close>

theorem headers_unreadable:
  assumes "hs \<noteq> []" and "\<forall>h \<in> set hs. header_ptr_ok h" and "length hs < 2 ^ 64"
    and "ser_Message (Headers hs) = Inr bs"
  shows "\<exists>e. unser_Message (Headers []) (memory_stream n bs) = Inl e"
  using unser_Headers_fails [OF assms, of "memory_stream n []"] by (simp add: memory_stream_def)

theorem headers_unreadable_witness:
  "\<exists>bs e. ser_Message (Headers [Some BlockHeader_new]) = Inr bs \<and>
     unser_Message (Headers []) (memory_stream 1000 bs) = Inl e"
proof -
  obtain bs where bs: "ser_Message (Headers [Some BlockHeader_new]) = Inr bs"
    by (simp add: ser_sized_each_def ser_header_ptr_def)
  show ?thesis using headers_unreadable [OF _ _ _ bs, of 1000] new_header_ok bs by auto
qed

text \<open>Of the indexes of a \<open>getblocktxn\<close> message the third is read as itself plus the first one plus
  one.\<close>

lemma third_index:
  assumes "unat a < 2 ^ 32 - 1" and "unat b < 2 ^ 32 - 1" and "unat (b - a - 1) < 2 ^ 32 - 1"
    and "length hash = 32" and "3 \<le> n"
  shows "\<exists>bs. ser_Message (GetBlockTxn \<lparr>btr_hash = hash, btr_indexes = [a, b, c]\<rparr>) = Inr bs \<and>
    unser_Message (GetBlockTxn BlockTransactionsRequest_new) (memory_stream n bs) =
      Inr (GetBlockTxn \<lparr>btr_hash = hash, btr_indexes = [a, b, c + a + 1]\<rparr>, memory_stream n [])"
  using unser_BlockTransactionsRequest_reads [of "memory_stream n []" "\<lparr>btr_hash = hash, btr_indexes = [a, b, c]\<rparr>" "[]"]
    indexes_third [OF assms(1-3), of c] assms(4,5)
  by (simp add: memory_stream_def btr_ok_def del: index_deltas.simps absolute_indexes.simps)

lemma third_index_witness:
  "\<exists>bs. ser_Message (GetBlockTxn \<lparr>btr_hash = blob_null 32, btr_indexes = [0, 1, 2]\<rparr>) = Inr bs \<and>
    unser_Message (GetBlockTxn BlockTransactionsRequest_new) (memory_stream 3 bs) =
      Inr (GetBlockTxn \<lparr>btr_hash = blob_null 32, btr_indexes = [0, 1, 3]\<rparr>, memory_stream 3 [])"
  using third_index [of 0 1 "blob_null 32" 3 2] by (simp add: blob_null_def)

section \<open>The pipe\<close>

text \<open>C26: Messages that can be read back (\<open>message_ok\<close>, as in C24) and that were sent are handed on in order, however the bytes are
  cut into pieces, and the beginning of a header behind them is kept.\<close>

theorem pipe_delivers:
  assumes "full_factory junk0 cr" and "length junk = 64" and "length junk' = 64"
    and "list_all2 (\<lambda>m f. message_ok n m \<and> frame_of (CSHA256 junk) junk' m = Inr f \<and> length f < 2 ^ 32) ms fs"
    and "concat ps = concat fs @ tail" and "length tail < HEADER_SIZE" and "ps \<noteq> []" and "talking c" and "cn_in c = []"
  shows "arrive cr n ps c =
    Inr (c\<lparr>cn_in := tail, cn_handled := cn_handled c @ ms, cn_ttl := if 0 < length tail then 10000 else 900000\<rparr>)"
proof (rule arrive_framed [OF full_factory_complete [OF assms(1)] _ _ assms(5-9)])
  have "framed m f" if m: "message_ok n m" and f: "frame_of (CSHA256 junk) junk' m = Inr f" "length f < 2 ^ 32" for m f
  proof -
    obtain bs where bs: "ser_Message m = Inr bs"
      using unser_Message_decode [of "memory_stream n []" m 0 "[]"] m by (auto simp: memory_stream_def)
    have "length bs < 2 ^ 32" using f bs by (auto simp: frame_of_def rbind_eq_Inr)
    then show ?thesis using frame_sha [OF assms(2,3) bs] f(1) by auto
  qed
  then show "list_all2 framed ms fs" using assms(4) by (auto elim: list_all2_mono)
  show "\<forall>m \<in> set ms. message_ok n m" using assms(4) by (induction rule: list_all2_induct) auto
qed

definition talking_connection :: connection where
  "talking_connection =
     \<lparr>cn_in = [], cn_out = [], cn_ttl = 0, cn_closed = False,
      cn_context = Some \<lparr>mc_established = True, mc_local = None, mc_remote = None\<rparr>, cn_pipe = True, cn_handled = [],
      cn_notified = True\<rparr>"

lemma sample_frames:
  "\<exists>f g. frame_of sha zeros (Ping 7) = Inr f \<and> frame_of sha zeros (Pong 8) = Inr g \<and> length f < 2 ^ 32 \<and> length g < 2 ^ 32"
proof -
  have "\<exists>f. frame_of sha zeros m = Inr f \<and> length f < 2 ^ 32" if m: "ser_Message m = Inr bs" "length bs = 8" for m bs
  proof -
    have "length bs < 2 ^ 32" using m(2) by simp
    then obtain f where f: "frame_of sha zeros m = Inr f" "framed m f"
      using frame_sha [OF length_replicate length_replicate m(1)] by blast
    then have "length f = 32" using m length_ser_MessageHeader by (auto simp: framed_def HEADER_SIZE_def)
    with f show ?thesis by simp
  qed
  from this [of "Ping 7" "ser_int (7 :: 64 word)"] this [of "Pong 8" "ser_int (8 :: 64 word)"] show ?thesis by auto
qed

theorem pipe_delivers_witness:
  "\<exists>cr f g. arrive cr 1000 [take 30 (f @ g), drop 30 (f @ g) @ [1]] talking_connection =
    Inr (talking_connection\<lparr>cn_in := [1], cn_handled := [Ping 7, Pong 8], cn_ttl := 10000\<rparr>)"
proof -
  obtain cr where cr: "full_factory 0 cr" using a_full_factory by blast
  obtain f g where fg: "frame_of sha zeros (Ping 7) = Inr f" "frame_of sha zeros (Pong 8) = Inr g" "length f < 2 ^ 32" "length g < 2 ^ 32"
    using sample_frames by blast
  have "arrive cr 1000 [take 30 (f @ g), drop 30 (f @ g) @ [1]] talking_connection =
      Inr (talking_connection\<lparr>cn_in := [1], cn_handled := cn_handled talking_connection @ [Ping 7, Pong 8],
        cn_ttl := if 0 < length [1 :: byte] then 10000 else 900000\<rparr>)"
    using fg by (intro pipe_delivers [OF cr, of zeros zeros 1000 _ "[f, g]"])
      (simp_all add: HEADER_SIZE_def talking_def talking_connection_def del: take_append drop_append)
  then have "arrive cr 1000 [take 30 (f @ g), drop 30 (f @ g) @ [1]] talking_connection =
      Inr (talking_connection\<lparr>cn_in := [1], cn_handled := [Ping 7, Pong 8], cn_ttl := 10000\<rparr>)"
    by (simp add: talking_connection_def)
  then show ?thesis by blast
qed

text \<open>C27: The pipe does the same for any two checksums in the header: the digest of the payload is
  compared with nothing.\<close>

theorem checksum_ignored:
  assumes "mh_ok h"
  shows "pipe_step cr n (c\<lparr>cn_in := ser_MessageHeader (h\<lparr>mh_checksum := x\<rparr>) @ payload\<rparr>) = Inr (True, c') \<longleftrightarrow>
    pipe_step cr n (c\<lparr>cn_in := ser_MessageHeader (h\<lparr>mh_checksum := y\<rparr>) @ payload\<rparr>) = Inr (True, c')"
proof -
  have ok: "mh_ok (h\<lparr>mh_checksum := z\<rparr>)" and name: "mh_command_name (h\<lparr>mh_checksum := z\<rparr>) = mh_command_name h" for z
    using assms by (simp_all add: mh_ok_def mh_command_name_def)
  show ?thesis
    unfolding pipe_step_front [OF ok]
    by (simp add: name split: option.split sum.split fault.split prod.split)
qed

theorem checksum_ignored_witness:
  "\<exists>cr h f c'. framed (Ping 7) f \<and> f = ser_MessageHeader h @ ser_int (7 :: 64 word) \<and>
    pipe_step cr 1000 (talking_connection\<lparr>cn_in := ser_MessageHeader (h\<lparr>mh_checksum := 0\<rparr>) @ ser_int (7 :: 64 word)\<rparr>) =
      Inr (True, c') \<and> cn_handled c' = [Ping 7]"
proof -
  obtain cr where cr: "full_factory 0 cr" using a_full_factory by blast
  obtain f where f: "framed (Ping 7) f" using frame_sha [of zeros zeros "Ping 7"] by auto
  then obtain h where h: "f = ser_MessageHeader h @ ser_int (7 :: 64 word)" "mh_ok h" by (auto simp: framed_def)
  let ?c = "talking_connection\<lparr>cn_in := [], cn_handled := cn_handled talking_connection @ [Ping 7]\<rparr>"
  have same: "h\<lparr>mh_checksum := mh_checksum h\<rparr> = h" by simp
  have "pipe_step cr 1000 (talking_connection\<lparr>cn_in := f @ []\<rparr>) = Inr (True, ?c)"
    using f by (intro pipe_step_framed [OF full_factory_complete [OF cr]]) simp_all
  then have "pipe_step cr 1000 (talking_connection\<lparr>cn_in := ser_MessageHeader (h\<lparr>mh_checksum := 0\<rparr>) @ ser_int (7 :: 64 word)\<rparr>) =
      Inr (True, ?c)"
    using checksum_ignored [OF h(2), of cr 1000 "mh_checksum h" "ser_int (7 :: 64 word)" talking_connection ?c 0] same h(1)
    by simp
  then show ?thesis using f h(1) by (fastforce simp: talking_connection_def)
qed

text \<open>Every message that the pipe hands on has the shape its class promises: hashes of 32 bytes, addresses of 16 and
  short identifiers of 6.\<close>

lemma handled_messages_typed:
  assumes "full_factory junk cr" and "pipe_loop cr n c = Inr c'" and "list_all message_shape (cn_handled c)"
  shows "list_all message_shape (cn_handled c')"
  using pipe_loop_shape [OF assms(2) full_factory_shape [OF assms(1)] assms(3)] .

text \<open>C28: Whatever bytes have arrived, the pipe cuts them into frames. What it hands on are the messages of the frames at the
  front, in order, each read by an object of the class that its header names from the bytes behind the header; it
  stops exactly at the first bytes that are no frame, and what it does there is what \<open>pipe_end\<close> says.
  No message is handed on behind a wrong magic number, an unknown command or an incomplete payload. The checksum
  plays no part.\<close>

theorem pipe_cuts:
  "pipe_loop cr n c = res \<longleftrightarrow>
    (\<exists>fs rest. cn_in c = concat (map frame_bytes fs) @ rest \<and> list_all (read_frame cr n) fs \<and>
      pipe_end cr n (c\<lparr>cn_in := rest, cn_handled := cn_handled c @ map frame_message fs\<rparr>) res)"
proof
  assume "\<exists>fs rest. cn_in c = concat (map frame_bytes fs) @ rest \<and> list_all (read_frame cr n) fs \<and>
      pipe_end cr n (c\<lparr>cn_in := rest, cn_handled := cn_handled c @ map frame_message fs\<rparr>) res"
  then obtain fs rest where f: "cn_in c = concat (map frame_bytes fs) @ rest" "list_all (read_frame cr n) fs"
    "pipe_end cr n (c\<lparr>cn_in := rest, cn_handled := cn_handled c @ map frame_message fs\<rparr>) res" by blast
  have "c\<lparr>cn_in := concat (map frame_bytes fs) @ rest\<rparr> = c" by (rule connection.equality) (simp_all add: f(1))
  then show "pipe_loop cr n c = res" using pipe_loop_frames [OF f(2), of rest c] pipe_end_step [OF f(3)] by simp
qed (use pipe_loop_cuts in blast)

text \<open>A \<open>ping\<close> and then bytes without a magic number: the \<open>ping\<close> is handed on and the peer is dropped.\<close>

theorem pipe_cuts_witness:
  "\<exists>cr f. frame_of sha zeros (Ping 7) = Inr f \<and>
    pipe_loop cr 1000 (talking_connection\<lparr>cn_in := f @ replicate 24 0\<rparr>) =
      Inr (drop_peer (talking_connection\<lparr>cn_in := replicate 24 0, cn_handled := [Ping 7]\<rparr>))"
proof -
  obtain cr where cr: "full_factory 0 cr" using a_full_factory by blast
  then have make: "factory_create cr (command (Ping 7)) = Some (fresh 0 (Ping 7))"
    using full_factory_complete by (simp add: complete_factory_def)
  obtain f where f: "frame_of sha zeros (Ping 7) = Inr f" "framed (Ping 7) f" using frame_sha [of zeros zeros "Ping 7"] by auto
  then obtain h where h: "f = ser_MessageHeader h @ ser_int (7 :: 64 word)" "mh_ok h" "mh_magic h = MAGIC_main"
    "mh_command_name h = command (Ping 7)" "mh_length h = 8" by (auto simp: framed_def)
  have "unser_Message (fresh 0 (Ping 7)) (memory_stream 1000 (ser_int (7 :: 64 word) @ [])) = Inr (Ping 7, memory_stream 1000 [])"
    using unser_Message_decode [of "memory_stream 1000 []" "Ping 7" 0 "[]"] by (simp add: memory_stream_def)
  then have frame: "read_frame cr 1000 (h, ser_int (7 :: 64 word), Ping 7)" using h(2-5) make by (simp add: known_magic_def)
  obtain z where z: "mh_ok z" "ser_MessageHeader z = replicate 24 0" "mh_magic z = word_le (take 4 (replicate 24 0))"
    using header_of_bytes [of "replicate 24 0"] by (auto simp: HEADER_SIZE_def)
  moreover have "word_le (take 4 (replicate 24 0)) = (0 :: 32 word)" by (simp add: word_le_def numeral_eq_Suc)
  ultimately have "\<not> known_magic (mh_magic z)" by (simp add: known_magic_def MAGIC_main_def MAGIC_testnet_def)
  moreover have "replicate 24 0 = ser_MessageHeader z @ []" by (simp add: z(2))
  ultimately have stop: "pipe_end cr 1000 (talking_connection\<lparr>cn_in := replicate 24 0, cn_handled := cn_handled talking_connection @ [Ping 7]\<rparr>)
      (Inr (drop_peer (talking_connection\<lparr>cn_in := replicate 24 0, cn_handled := cn_handled talking_connection @ [Ping 7]\<rparr>)))"
    using z(1) by (intro pipe_end.wrong_magic [of _ z "[]"]) simp_all
  have "pipe_loop cr 1000 (talking_connection\<lparr>cn_in := f @ replicate 24 0\<rparr>) =
      Inr (drop_peer (talking_connection\<lparr>cn_in := replicate 24 0, cn_handled := cn_handled talking_connection @ [Ping 7]\<rparr>))"
    unfolding pipe_cuts using frame stop h(1)
    by (intro exI [of _ "[(h, ser_int (7 :: 64 word), Ping 7)]"] exI [of _ "replicate 24 0"]) simp
  with f(1) show ?thesis by (auto simp: talking_connection_def)
qed

section \<open>The handshake\<close>

text \<open>C29: A server that accepts the \<open>version\<close> message of a peer closes the connection at once, hands on
  nothing and leaves the message in the buffer: it skips the header only, and the pipe takes the
  payload for the next header.\<close>

theorem server_closes:
  assumes "version_framed v f" and "8 \<le> length (vm_userAgent v)" and "\<not> known_magic (vm_version v)" and "waiting c"
    and "getHandler ''/'' hs = Some fh"
  shows "\<exists>c'. server_processing cr n hs (c\<lparr>cn_in := f @ r\<rparr>) = Inr c' \<and> cn_closed c' \<and> cn_context c' = None \<and>
    cn_handled c' = cn_handled c \<and> cn_in c' = ser_Version v @ r"
  using assms by (rule server_handshake)

definition idle_connection :: connection where
  "idle_connection =
     \<lparr>cn_in = [], cn_out = [], cn_ttl = 0, cn_closed = False, cn_context = None, cn_pipe = False, cn_handled = [],
      cn_notified = False\<rparr>"

definition sample_surroundings :: surroundings where
  "sample_surroundings =
     \<lparr>su_now = 1600000000, su_rand = 42, su_ptr = replicate 8 0, su_peer = AF_INET [127, 0, 0, 1] 20445,
      su_self = None, su_agent = replicate 47 65, su_throws = None\<rparr>"

lemma untimed_of:
  "length ip = 4 \<Longrightarrow> na_untimed (setIgnoreTime (NetworkAddress_of ptr (AF_INET ip port)))"
  by (simp add: na_untimed_def setIgnoreTime_def NetworkAddress_of_def na_set_def NetworkAddress_new_def ip4_prefix_def)

lemma sample_version: "\<exists>f. version_framed (local_version sample_surroundings) f"
proof -
  let ?v = "local_version sample_surroundings"
  have v: "na_untimed (vm_addrRecv ?v)" "na_untimed (vm_addrFrom ?v)" "length (vm_userAgent ?v) < 253"
    using untimed_of [of "[127, 0, 0, 1]"] new_untimed
    by (simp_all add: local_version_def Version_of_def sample_surroundings_def)
  then have "length (ser_Version ?v) < 2 ^ 32" using length_ser_Version [of ?v] by simp
  then show ?thesis
    using frame_sha [of zeros zeros "Version ?v"] v by (auto simp: version_framed_def)
qed

theorem server_closes_witness:
  "\<exists>f c'. version_framed (local_version sample_surroundings) f \<and>
    server_processing Map.empty 1000 [''/'' \<mapsto> ()] (idle_connection\<lparr>cn_in := f @ [1, 2]\<rparr>) = Inr c' \<and> cn_closed c'"
proof -
  obtain f where f: "version_framed (local_version sample_surroundings) f" using sample_version by blast
  have "8 \<le> length (vm_userAgent (local_version sample_surroundings))" "\<not> known_magic (vm_version (local_version sample_surroundings))"
    by (simp_all add: local_version_def Version_of_def sample_surroundings_def NODE_VERSION_def known_magic_def
        MAGIC_main_def MAGIC_testnet_def)
  from server_closes [OF f this, of idle_connection "[''/'' \<mapsto> ()]" "()" Map.empty 1000 "[1, 2]"] f show ?thesis
    by (auto simp: waiting_def idle_connection_def getHandler_def)
qed




text \<open>C31: In every run of the communicator, whatever the order in which its handlers are called, the end is
  reported once: the handler for success exactly in the state \<open>ESTABLISHED\<close>, the one for failure, with an
  error, exactly in the state \<open>ERROR\<close>, and none before.\<close>

theorem communicator_outcome:
  assumes "comm_reachable ops junk k"
  shows "case mk_state k of
      ESTABLISHED \<Rightarrow> mk_done k = [None]
    | ERROR \<Rightarrow> (\<exists>e. e \<noteq> [] \<and> mk_done k = [Some e])
    | _ \<Rightarrow> mk_done k = []"
  using comm_reachable_inv [OF assms] by (auto simp: comm_inv_def split: comm_state.split)

theorem communicator_outcome_witness:
  "\<exists>k. comm_reachable sha zeros k \<and> mk_state k = ERROR \<and> (\<exists>e. e \<noteq> [] \<and> mk_done k = [Some e])"
proof -
  let ?k = "MsgCommunicator_new\<lparr>mk_error := [], mk_state := CONNECT, mk_connector := True\<rparr>"
  have "comm_start None MsgCommunicator_new = Inr ?k" by (simp add: comm_start_def MsgCommunicator_new_def)
  then have "comm_reachable sha zeros ?k" by (meson comm_initial comm_next comm_starts)
  moreover obtain k' where k': "failConnect (?k\<lparr>mk_connector := False\<rparr>) = Inr k'" "mk_state k' = ERROR"
    by (simp add: failConnect_def comm_fail_def comm_done_def comm_cleanup_def MsgCommunicator_new_def)
  ultimately have r: "comm_reachable sha zeros k'" by (blast intro: comm_next [OF _ comm_fails [OF k'(1)]])
  with communicator_outcome [OF r] k'(2) show ?thesis by auto
qed

end
