(* ===== verification/Addresses.thy ===== *)
theory Addresses
  imports Wire
begin

text \<open>
  \<open>src/node/AddressManager.cpp\<close>: the addresses of other nodes, those that failed and those that are
  banned, and the file they are kept in.

  The three hash sets compare elements by address and port only; here they are lists with at most one
  element for each address, in the order in which the set would be traversed. The time of an element
  is a mutable member. \<open>am_saving\<close> says whether the timer that saves the addresses is running. The clock
  is an argument, in seconds. \<open>reg\<close> compares an iterator of one set with the end of another; the ends
  of all sets are equal in the standard library of GCC, and so they are here.
\<close>

record address_manager =
  am_initialized :: bool
  am_storageTime :: nat
  am_addressCapacity :: nat
  am_bannedCapacity :: nat
  am_saving :: bool
  am_addresses :: "network_address list"
  am_banned :: "network_address list"
  am_failed :: "network_address list"
  am_sorted :: "network_address list"

definition AddressManager_new :: address_manager where
  "AddressManager_new =
     \<lparr>am_initialized = False, am_storageTime = 86400 * 30, am_addressCapacity = 50000, am_bannedCapacity = 1000,
      am_saving = False, am_addresses = [], am_banned = [], am_failed = [], am_sorted = []\<rparr>"

section \<open>Sets of addresses\<close>

definition as_find :: "network_address \<Rightarrow> network_address list \<Rightarrow> network_address option" where
  "as_find a s = find (same_address a) s"

definition as_erase :: "network_address \<Rightarrow> network_address list \<Rightarrow> network_address list" where
  "as_erase a s = filter (\<lambda>b. \<not> same_address a b) s"

definition as_emplace :: "network_address \<Rightarrow> network_address list \<Rightarrow> network_address list \<times> bool" where
  "as_emplace a s = (if as_find a s = None then (s @ [a], True) else (s, False))"

text \<open>Setting the time of the element with the address of \<open>a\<close>.\<close>

definition as_setTime :: "network_address \<Rightarrow> 32 word \<Rightarrow> network_address list \<Rightarrow> network_address list" where
  "as_setTime a t s = map (\<lambda>b. if same_address a b then setTime t b else b) s"

fun as_insert_all :: "network_address list \<Rightarrow> network_address list \<Rightarrow> network_address list" where
  "as_insert_all [] s = s"
| "as_insert_all (a # as) s = as_insert_all as (fst (as_emplace a s))"

text \<open>\<open>std::sort\<close> from the end by time: the latest first.\<close>

definition latest_first :: "network_address list \<Rightarrow> network_address list" where
  "latest_first xs = rev (sort_key na_time (rev xs))"

section \<open>The operations\<close>

definition getInstance :: "address_manager \<Rightarrow> io_fault + address_manager" where
  "getInstance am = (if \<not> am_initialized am then Inl StdExcept else Inr am)"

definition scheduleSave :: "address_manager \<Rightarrow> address_manager" where
  "scheduleSave am = am\<lparr>am_saving := True\<rparr>"

text \<open>The difference is computed in 64 bits and cut to 32.\<close>

definition threshold :: "nat \<Rightarrow> address_manager \<Rightarrow> 32 word" where
  "threshold now am = word_of_int (int now - int (am_storageTime am))"

definition truncate :: "nat \<Rightarrow> address_manager \<Rightarrow> bool \<times> address_manager" where
  "truncate now am =
     (let keep = filter (\<lambda>a. \<not> getTime a < threshold now am);
          am' = am\<lparr>am_addresses := keep (am_addresses am), am_banned := keep (am_banned am)\<rparr>
      in (length (am_addresses am') < length (am_addresses am) \<or> length (am_banned am') < length (am_banned am), am'))"

text \<open>\<open>load\<close>, with the bytes of the file, or \<open>None\<close> if there is none.\<close>

definition am_load :: "nat \<Rightarrow> istream option \<Rightarrow> address_manager \<Rightarrow> io_fault + address_manager" where
  "am_load now file am =
     rbind (getInstance am) (\<lambda>am.
     case file of
       None \<Rightarrow> Inr am
     | Some ifs \<Rightarrow>
         rbind (unser_sized NetworkAddress_new unser_NetworkAddress [] ifs) (\<lambda>(address, ifs).
         rbind (unser_sized NetworkAddress_new unser_NetworkAddress [] ifs) (\<lambda>(banned, ifs).
         let address = latest_first address;
             address = (if length address > am_addressCapacity am then take (am_addressCapacity am) address else address);
             am = am\<lparr>am_sorted := address,
               am_addresses := as_insert_all (rev banned) (as_insert_all (rev address) (am_addresses am))\<rparr>;
             (changed, am) = truncate now am
         in Inr (if changed then scheduleSave am else am))))"

text \<open>\<open>save\<close>, with the bytes that are written; writing the file succeeds.\<close>

definition am_save :: "nat \<Rightarrow> address_manager \<Rightarrow> io_fault + bytes \<times> address_manager" where
  "am_save now am =
     rbind (getInstance am) (\<lambda>am.
     let (changed, am) = truncate now am;
         address = latest_first (am_addresses am);
         banned = am_banned am;
         address = (if length address > am_addressCapacity am then take (am_addressCapacity am) address else address);
         am = am\<lparr>am_sorted := address\<rparr>;
         address = address @ am_failed am
     in Inr (ser_sized ser_NetworkAddress address @ ser_sized ser_NetworkAddress banned, am))"

text \<open>The destructor saves when the timer is running.\<close>

definition am_destroy :: "nat \<Rightarrow> address_manager \<Rightarrow> io_fault + bytes option" where
  "am_destroy now am =
     (if \<not> am_initialized am then Inr None
      else if am_saving am then rbind (am_save now am) (\<lambda>(bs, am). Inr (Some bs)) else Inr None)"

definition am_init ::
    "nat \<Rightarrow> nat option \<Rightarrow> nat option \<Rightarrow> nat option \<Rightarrow> istream option \<Rightarrow> address_manager \<Rightarrow> io_fault + address_manager" where
  "am_init now storageTime addressCapacity bannedCapacity file am =
     (let am = (case storageTime of None \<Rightarrow> am | Some n \<Rightarrow> am\<lparr>am_storageTime := n\<rparr>);
          am = (case addressCapacity of None \<Rightarrow> am | Some n \<Rightarrow> am\<lparr>am_addressCapacity := n\<rparr>);
          am = (case bannedCapacity of None \<Rightarrow> am | Some n \<Rightarrow> am\<lparr>am_bannedCapacity := n\<rparr>)
      in am_load now file (am\<lparr>am_initialized := True\<rparr>))"

text \<open>\<open>reg\<close> and \<open>fail\<close> may change the time of the object that the caller passed, so it is returned too.\<close>

definition am_reg :: "network_address \<Rightarrow> address_manager \<Rightarrow> io_fault + network_address \<times> address_manager" where
  "am_reg address am =
     rbind (getInstance am) (\<lambda>am.
     if as_find address (am_banned am) \<noteq> None then Inr (address, am)
     else
       let emplaced =
         (case as_emplace address (am_addresses am) of
            (s, True) \<Rightarrow> (address, scheduleSave (am\<lparr>am_addresses := s\<rparr>))
          | (s, False) \<Rightarrow>
              case as_find address s of
                None \<Rightarrow> (address, am)
              | Some i \<Rightarrow>
                  if getTime i < getTime address
                  then (address, scheduleSave (am\<lparr>am_addresses := as_setTime address (getTime address) s\<rparr>))
                  else (address, am))
       in case as_find address (am_failed am) of
            None \<Rightarrow> Inr emplaced
          | Some i \<Rightarrow>
              if getTime i > getTime address then Inr (setTime (getTime i) address, scheduleSave am)
              else Inr emplaced)"

definition am_fail :: "network_address \<Rightarrow> address_manager \<Rightarrow> io_fault + network_address \<times> address_manager" where
  "am_fail address am =
     rbind (getInstance am) (\<lambda>am.
     if as_find address (am_banned am) \<noteq> None then Inr (address, am)
     else
       let (address, needSave, am) =
         (case as_find address (am_addresses am) of
            None \<Rightarrow> (address, False, am)
          | Some i \<Rightarrow>
              (if getTime i > getTime address then setTime (getTime i) address else address,
               getTime i > getTime address,
               am\<lparr>am_addresses := as_erase address (am_addresses am)\<rparr>));
         (s, ok) = as_emplace address (am_failed am);
         older = (case as_find address s of None \<Rightarrow> False | Some i \<Rightarrow> getTime i < getTime address);
         s = (if \<not> ok \<and> older then as_setTime address (getTime address) s else s);
         am = am\<lparr>am_failed := s\<rparr>
       in Inr (address, if needSave \<or> (\<not> ok \<and> older) then scheduleSave am else am))"

definition am_ban :: "nat \<Rightarrow> network_address \<Rightarrow> address_manager \<Rightarrow> io_fault + address_manager" where
  "am_ban now address am =
     rbind (getInstance am) (\<lambda>am.
     let am = am\<lparr>am_addresses := as_erase address (am_addresses am), am_failed := as_erase address (am_failed am),
           am_banned := as_setTime address (word_of_nat now) (fst (as_emplace address (am_banned am)))\<rparr>
     in Inr (scheduleSave am))"

text \<open>\<open>get\<close>: the number only bounds what is reserved.\<close>

definition am_get :: "nat \<Rightarrow> address_manager \<Rightarrow> io_fault + network_address list" where
  "am_get number am = rbind (getInstance am) (\<lambda>am. Inr (am_sorted am))"

definition isBanned :: "network_address \<Rightarrow> address_manager \<Rightarrow> io_fault + bool" where
  "isBanned address am = rbind (getInstance am) (\<lambda>am. Inr (as_find address (am_banned am) \<noteq> None))"

definition registeredCount :: "address_manager \<Rightarrow> io_fault + nat" where
  "registeredCount am = rbind (getInstance am) (\<lambda>am. Inr (length (am_addresses am)))"

definition bannedCount :: "address_manager \<Rightarrow> io_fault + nat" where
  "bannedCount am = rbind (getInstance am) (\<lambda>am. Inr (length (am_banned am)))"

section \<open>Lookups\<close>

definition addr_key :: "network_address \<Rightarrow> bytes \<times> 16 word" where
  "addr_key a = (na_ip a, na_port a)"

lemma same_address_key: "same_address a b \<longleftrightarrow> addr_key a = addr_key b"
  by (simp add: same_address_def addr_key_def)

lemma key_setTime [simp]: "addr_key (setTime t a) = addr_key a"
  by (simp add: addr_key_def setTime_def)

lemma as_find_None: "as_find a s = None \<longleftrightarrow> addr_key a \<notin> addr_key ` set s"
  by (auto simp: as_find_def find_None_iff same_address_key)

lemma as_find_Some: "as_find a s = Some b \<Longrightarrow> b \<in> set s \<and> addr_key b = addr_key a"
  by (auto simp: as_find_def find_Some_iff same_address_key)

lemma keys_emplace: "addr_key ` set (fst (as_emplace a s)) = insert (addr_key a) (addr_key ` set s)"
  by (auto simp: as_emplace_def as_find_None)

lemma keys_erase: "addr_key ` set (as_erase a s) = addr_key ` set s - {addr_key a}"
  by (auto simp: as_erase_def same_address_key)

lemma map_key_setTime: "map addr_key (as_setTime a t s) = map addr_key s"
  by (auto simp: as_setTime_def)

lemma keys_setTime: "addr_key ` set (as_setTime a t s) = addr_key ` set s"
  using arg_cong [OF map_key_setTime [of a t s], of set] by simp

definition addr_set :: "network_address list \<Rightarrow> bool" where
  "addr_set s \<longleftrightarrow> distinct (map addr_key s)"

lemma addr_set_emplace: "addr_set s \<Longrightarrow> addr_set (fst (as_emplace a s))"
  by (auto simp: addr_set_def as_emplace_def as_find_None)

lemma addr_set_filter: "addr_set s \<Longrightarrow> addr_set (filter P s)"
  by (auto simp: addr_set_def distinct_map_filter)

lemma addr_set_erase: "addr_set s \<Longrightarrow> addr_set (as_erase a s)"
  by (simp add: as_erase_def addr_set_filter)

lemma addr_set_setTime: "addr_set s \<Longrightarrow> addr_set (as_setTime a t s)"
  by (simp add: addr_set_def map_key_setTime)

lemma keys_insert_all: "addr_key ` set (as_insert_all as s) = addr_key ` set as \<union> addr_key ` set s"
  by (induction as arbitrary: s) (auto simp: keys_emplace)

lemma addr_set_insert_all: "addr_set s \<Longrightarrow> addr_set (as_insert_all as s)"
  by (induction as arbitrary: s) (simp_all add: addr_set_emplace)

section \<open>The invariant\<close>

text \<open>No address occurs twice in a set, and no banned one is registered or failed.\<close>

definition am_inv :: "address_manager \<Rightarrow> bool" where
  "am_inv am \<longleftrightarrow>
     addr_set (am_addresses am) \<and> addr_set (am_banned am) \<and> addr_set (am_failed am) \<and>
     addr_key ` set (am_banned am) \<inter> (addr_key ` set (am_addresses am) \<union> addr_key ` set (am_failed am)) = {}"

lemma am_inv_saving [simp]: "am_inv (am\<lparr>am_saving := b\<rparr>) = am_inv am" "am_inv (am\<lparr>am_sorted := s\<rparr>) = am_inv am"
  by (simp_all add: am_inv_def)

lemma truncate_inv: "am_inv am \<Longrightarrow> am_inv (snd (truncate now am))"
  by (auto simp: am_inv_def truncate_def Let_def addr_set_filter)

lemma am_inv_emplace:
  assumes "am_inv am" and "addr_key a \<notin> addr_key ` set (am_banned am)"
  shows "am_inv (am\<lparr>am_addresses := fst (as_emplace a (am_addresses am))\<rparr>)"
    and "am_inv (am\<lparr>am_failed := fst (as_emplace a (am_failed am))\<rparr>)"
  using assms by (auto simp: am_inv_def addr_set_emplace keys_emplace)

lemma am_inv_setTime:
  assumes "am_inv am"
  shows "am_inv (am\<lparr>am_addresses := as_setTime a t (am_addresses am)\<rparr>)"
    and "am_inv (am\<lparr>am_failed := as_setTime a t (am_failed am)\<rparr>)"
  using assms by (simp_all add: am_inv_def addr_set_setTime keys_setTime)

lemma am_inv_erase: "am_inv am \<Longrightarrow> am_inv (am\<lparr>am_addresses := as_erase a (am_addresses am)\<rparr>)"
  by (auto simp: am_inv_def addr_set_erase keys_erase)

lemma am_reg_inv:
  assumes "am_inv am" and "am_reg a am = Inr (a', am')"
  shows "am_inv am'"
proof (cases "as_find a (am_banned am) = None")
  case True
  then have b: "addr_key a \<notin> addr_key ` set (am_banned am)" by (simp add: as_find_None)
  note steps = am_inv_emplace(1) [OF assms(1) b] am_inv_setTime(1) [OF assms(1)] assms(1)
  show ?thesis
    using assms(2) True steps
    by (auto simp: am_reg_def getInstance_def rbind_eq_Inr scheduleSave_def Let_def as_emplace_def
        split: if_splits option.splits)
next
  case False
  then show ?thesis using assms by (auto simp: am_reg_def getInstance_def rbind_eq_Inr split: if_splits)
qed

lemma am_fail_inv:
  assumes "am_inv am" and "am_fail a am = Inr (a', am')"
  shows "am_inv am'"
proof (cases "as_find a (am_banned am) = None")
  case True
  then have b: "addr_key a \<notin> addr_key ` set (am_banned am)" by (simp add: as_find_None)
  define a1 where "a1 = (case as_find a (am_addresses am) of None \<Rightarrow> a
    | Some i \<Rightarrow> if getTime i > getTime a then setTime (getTime i) a else a)"
  define am1 where "am1 = (case as_find a (am_addresses am) of None \<Rightarrow> am
    | Some i \<Rightarrow> am\<lparr>am_addresses := as_erase a (am_addresses am)\<rparr>)"
  have k1: "addr_key a1 = addr_key a" by (simp add: a1_def split: option.split)
  have am1: "am_inv am1" "am_banned am1 = am_banned am" "am_failed am1 = am_failed am"
    using am_inv_erase [OF assms(1)] assms(1) by (simp_all add: am1_def split: option.split)
  have "am_inv (am1\<lparr>am_failed := fst (as_emplace a1 (am_failed am1))\<rparr>)"
    using am_inv_emplace(2) [OF am1(1), of a1] b am1(2) k1 by simp
  note steps = this am_inv_setTime(2) [OF this, of a1]
  have "\<exists>s. am_inv (am1\<lparr>am_failed := s\<rparr>) \<and> (am' = am1\<lparr>am_failed := s\<rparr> \<or> am' = scheduleSave (am1\<lparr>am_failed := s\<rparr>))"
    using assms(2) True steps
    by (cases "as_find a (am_addresses am)")
      (auto simp: am_fail_def getInstance_def rbind_eq_Inr Let_def a1_def am1_def split: if_splits prod.splits)
  then show ?thesis by (auto simp: scheduleSave_def)
next
  case False
  then show ?thesis using assms by (auto simp: am_fail_def getInstance_def rbind_eq_Inr split: if_splits)
qed

lemma am_ban_inv:
  assumes "am_inv am" and "am_ban now a am = Inr am'"
  shows "am_inv am'"
proof -
  let ?b = "as_setTime a (word_of_nat now) (fst (as_emplace a (am_banned am)))"
  have am': "am' = am\<lparr>am_addresses := as_erase a (am_addresses am), am_failed := as_erase a (am_failed am),
      am_banned := ?b, am_saving := True\<rparr>"
    using assms(2) by (auto simp: am_ban_def getInstance_def rbind_eq_Inr scheduleSave_def Let_def split: if_splits)
  have "addr_key ` set ?b \<inter> (addr_key ` set (as_erase a (am_addresses am)) \<union> addr_key ` set (as_erase a (am_failed am))) = {}"
    unfolding keys_setTime keys_emplace keys_erase using assms(1) by (auto simp: am_inv_def simp del: disjoint_iff)
  then show ?thesis
    using assms(1) by (simp add: am' am_inv_def addr_set_erase addr_set_setTime addr_set_emplace)
qed

lemma am_save_inv: "am_inv am \<Longrightarrow> am_save now am = Inr (bs, am') \<Longrightarrow> am_inv am'"
  using truncate_inv [of am now]
  by (auto simp: am_save_def getInstance_def rbind_eq_Inr Let_def split: if_splits prod.splits)

text \<open>Runs after a start, with any file or without.\<close>

inductive am_run :: "address_manager \<Rightarrow> bool" where
  am_started: "am_init now s c b ifs AddressManager_new = Inr am \<Longrightarrow> am_run am"
| am_registers: "am_run am \<Longrightarrow> am_reg a am = Inr (a', am') \<Longrightarrow> am_run am'"
| am_fails: "am_run am \<Longrightarrow> am_fail a am = Inr (a', am') \<Longrightarrow> am_run am'"
| am_bans: "am_run am \<Longrightarrow> am_ban now a am = Inr am' \<Longrightarrow> am_run am'"
| am_saves: "am_run am \<Longrightarrow> am_save now am = Inr (bs, am') \<Longrightarrow> am_run am'"

text \<open>A loaded book: nothing is banned or failed.\<close>

definition loaded :: "nat \<Rightarrow> network_address list \<Rightarrow> network_address list \<Rightarrow> address_manager \<Rightarrow> address_manager" where
  "loaded now address banned am =
     (let address = latest_first address;
          address = (if length address > am_addressCapacity am then take (am_addressCapacity am) address else address)
      in snd (truncate now (am\<lparr>am_sorted := address,
           am_addresses := as_insert_all (rev banned) (as_insert_all (rev address) (am_addresses am))\<rparr>)))"

lemma am_load_reads:
  assumes "am_initialized am"
    and "unser_sized NetworkAddress_new unser_NetworkAddress [] ifs = Inr (address, ifs1)"
    and "unser_sized NetworkAddress_new unser_NetworkAddress [] ifs1 = Inr (banned, ifs2)"
  shows "\<exists>b. am_load now (Some ifs) am = Inr ((loaded now address banned am)\<lparr>am_saving := b\<rparr>)"
proof -
  let ?am = "let address = latest_first address;
          address = (if length address > am_addressCapacity am then take (am_addressCapacity am) address else address)
      in am\<lparr>am_sorted := address, am_addresses := as_insert_all (rev banned) (as_insert_all (rev address) (am_addresses am))\<rparr>"
  obtain changed am1 where t: "truncate now ?am = (changed, am1)" by force
  have "am_load now (Some ifs) am = Inr (if changed then scheduleSave am1 else am1)"
    using assms t by (simp add: am_load_def getInstance_def Let_def)
  moreover have "am1 = loaded now address banned am" using t by (simp add: loaded_def Let_def)
  ultimately have "am_load now (Some ifs) am = Inr ((loaded now address banned am)\<lparr>am_saving := (if changed then True else am_saving am1)\<rparr>)"
    by (simp add: scheduleSave_def)
  then show ?thesis by blast
qed

lemma am_load_file:
  assumes "am_initialized am" and "am_load now (Some ifs) am = Inr am'"
  obtains address banned b where "am' = (loaded now address banned am)\<lparr>am_saving := b\<rparr>"
proof -
  obtain address ifs1 banned ifs2 where d: "unser_sized NetworkAddress_new unser_NetworkAddress [] ifs = Inr (address, ifs1)"
    "unser_sized NetworkAddress_new unser_NetworkAddress [] ifs1 = Inr (banned, ifs2)"
    using assms by (auto simp: am_load_def getInstance_def rbind_eq_Inr)
  show ?thesis using am_load_reads [OF assms(1) d, of now] assms(2) that by auto
qed

lemma loaded_fields:
  "am_banned am = [] \<Longrightarrow> am_banned (loaded now address banned am) = []"
  "am_failed (loaded now address banned am) = am_failed am"
  "am_initialized (loaded now address banned am) = am_initialized am"
  by (simp_all add: loaded_def truncate_def Let_def)

lemma loaded_inv: "am_inv am \<Longrightarrow> am_banned am = [] \<Longrightarrow> am_inv (loaded now address banned am)"
  unfolding loaded_def Let_def by (intro truncate_inv) (simp add: am_inv_def addr_set_insert_all)

lemma am_init_inv:
  assumes "am_init now s c b file AddressManager_new = Inr am"
  shows "am_inv am"
proof -
  obtain am0 where am0: "am_load now file am0 = Inr am" "am_initialized am0" "am_banned am0 = []" "am_inv am0"
    using assms by (auto simp: am_init_def Let_def AddressManager_new_def am_inv_def addr_set_def split: option.splits)
  show ?thesis
  proof (cases "file")
    case None
    then show ?thesis using am0 by (simp add: am_load_def getInstance_def)
  next
    case (Some ifs)
    obtain address banned saving where "am = (loaded now address banned am0)\<lparr>am_saving := saving\<rparr>"
      using am_load_file [OF am0(2) am0(1) [unfolded Some]] .
    then show ?thesis using loaded_inv am0(3,4) by simp
  qed
qed

lemma am_run_inv: "am_run am \<Longrightarrow> am_inv am"
  by (induction rule: am_run.induct) (blast intro: am_init_inv am_reg_inv am_fail_inv am_ban_inv am_save_inv)+

section \<open>Saving and loading\<close>

lemma set_latest_first [simp]: "set (latest_first xs) = set xs" "length (latest_first xs) = length xs"
  by (simp_all add: latest_first_def)

lemma as_insert_all_keeps: "a \<in> set s \<Longrightarrow> a \<in> set (as_insert_all as s)"
  by (induction as arbitrary: s) (auto simp: as_emplace_def)

lemma as_insert_all_member:
  "a \<in> set as \<Longrightarrow> distinct (map addr_key as) \<Longrightarrow> addr_key a \<notin> addr_key ` set s \<Longrightarrow> a \<in> set (as_insert_all as s)"
proof (induction as arbitrary: s)
  case (Cons b as)
  show ?case
  proof (cases "a = b")
    case True
    then show ?thesis using Cons.prems(3) by (auto simp: as_emplace_def as_find_None intro: as_insert_all_keeps)
  next
    case False
    then have "addr_key a \<noteq> addr_key b" using Cons.prems(1,2) by (auto simp: image_iff)
    then have "addr_key a \<notin> addr_key ` set (fst (as_emplace b s))" using Cons.prems(3) by (simp add: keys_emplace)
    then show ?thesis using Cons False by simp
  qed
qed simp

lemma as_find_unique: "addr_set s \<Longrightarrow> a \<in> set s \<Longrightarrow> as_find a s = Some a"
proof (induction s)
  case (Cons b s)
  then show ?case by (cases "b = a") (auto simp: as_find_def same_address_key addr_set_def image_iff)
qed simp

lemma am_load_saved:
  assumes "am_initialized am" and "am_save now am = Inr (bs, am')" and "am_initialized new"
    and "\<forall>a \<in> set (am_addresses am @ am_banned am @ am_failed am). na_timed a"
    and "length (am_addresses am) + length (am_failed am) + length (am_banned am) \<le> n" and "n < 2 ^ 64"
  shows "\<exists>address b. set address \<subseteq> set (am_addresses am) \<union> set (am_failed am) \<and>
    am_load now' (Some (memory_stream n bs)) new = Inr ((loaded now' address (am_banned am') new)\<lparr>am_saving := b\<rparr>)"
proof -
  let ?am = "snd (truncate now am)"
  have sub: "set (am_addresses ?am) \<subseteq> set (am_addresses am)" "set (am_banned ?am) \<subseteq> set (am_banned am)"
    "am_failed ?am = am_failed am" "length (am_addresses ?am) \<le> length (am_addresses am)"
    "length (am_banned ?am) \<le> length (am_banned am)"
    by (auto simp: truncate_def Let_def)
  define sorted where "sorted = (let address = latest_first (am_addresses ?am)
    in if length address > am_addressCapacity ?am then take (am_addressCapacity ?am) address else address)"
  have sorted: "set sorted \<subseteq> set (am_addresses am)" "length sorted \<le> length (am_addresses am)"
    using sub set_take_subset [of "am_addressCapacity ?am" "latest_first (am_addresses ?am)"]
    by (auto simp: sorted_def Let_def)
  have bs: "bs = ser_sized ser_NetworkAddress (sorted @ am_failed am) @ ser_sized ser_NetworkAddress (am_banned ?am)"
    and am': "am_banned am' = am_banned ?am"
    using assms(1,2) sub(3) by (auto simp: am_save_def getInstance_def sorted_def Let_def case_prod_unfold)
  have ok: "sized_ok (\<lambda>n. na_timed) n (sorted @ am_failed am)" "sized_ok (\<lambda>n. na_timed) n (am_banned ?am)"
    using assms(4-6) sorted sub by (auto simp: sized_ok_def)
  let ?s = "(memory_stream n [])\<lparr>buf := ser_sized ser_NetworkAddress (am_banned ?am)\<rparr>"
  have r1: "unser_sized NetworkAddress_new unser_NetworkAddress [] (memory_stream n bs) = Inr (sorted @ am_failed am, ?s)"
    using address.decode_sized [of "memory_stream n bs" "sorted @ am_failed am" "ser_sized ser_NetworkAddress (am_banned ?am)" "[]"] ok
    by (simp add: memory_stream_def bs all_ready_def)
  have r2: "unser_sized NetworkAddress_new unser_NetworkAddress [] ?s = Inr (am_banned ?am, ?s\<lparr>buf := []\<rparr>)"
    using address.decode_sized [of ?s "am_banned ?am" "[]" "[]"] ok by (simp add: memory_stream_def all_ready_def)
  have "set (sorted @ am_failed am) \<subseteq> set (am_addresses am) \<union> set (am_failed am)" using sorted(1) by auto
  then show ?thesis using am_load_reads [OF assms(3) r1 r2, of now'] unfolding am' by blast
qed

text \<open>An address that is loaded as banned, and that no other one of the file repeats, is registered.\<close>

lemma loaded_banned:
  assumes "a \<in> set banned" and "addr_set banned" and "addr_key a \<notin> addr_key ` set address" and "am_addresses am = []"
    and "\<not> getTime a < threshold now am"
  shows "as_find a (am_addresses (loaded now address banned am)) = Some a"
proof -
  define front where "front = (let address = latest_first address
    in if length address > am_addressCapacity am then take (am_addressCapacity am) address else address)"
  define s where "s = as_insert_all (rev banned) (as_insert_all (rev front) [])"
  have front: "addr_key a \<notin> addr_key ` set (rev front)"
    using assms(3) set_take_subset [of "am_addressCapacity am" "latest_first address"] by (auto simp: front_def Let_def)
  have s: "addr_set s" unfolding s_def by (intro addr_set_insert_all) (simp add: addr_set_def)
  have "a \<in> set s" unfolding s_def
    using assms(1,2) front by (intro as_insert_all_member) (auto simp: keys_insert_all addr_set_def rev_map [symmetric])
  then have "a \<in> set (filter (\<lambda>a. \<not> getTime a < threshold now am) s)" using assms(5) by simp
  moreover have "am_addresses (loaded now address banned am) = filter (\<lambda>a. \<not> getTime a < threshold now am) s"
    using assms(4) by (simp add: loaded_def truncate_def threshold_def Let_def s_def front_def)
  ultimately show ?thesis using as_find_unique addr_set_filter [OF s] by simp
qed

end
