(* ===== verification/Peers.thy ===== *)
theory Peers
  imports Communicator BlockStore Addresses
begin

text \<open>
  \<open>src/net/Peer.cpp\<close>, \<open>src/net/PeerManager.cpp\<close>, the \<open>apply\<close> of the message classes in
  \<open>src/protocol/messages/\<close>, \<open>Protocol::handler\<close> and the part of \<open>src/node/Node.cpp\<close> that meets peers.

  An action of the node runs on its whole state: it may not return (\<open>None\<close>), and a fault keeps the
  state that had been reached, because \<open>Protocol::handler\<close> catches exceptions. A peer is named by its
  id, its connection by its position in \<open>w_conns\<close>; \<open>w_links\<close> is the weak pointer that the context of a
  connection has to its peer, which is gone when the peer manager has let the peer go. \<open>w_tasks\<close> are the
  tasks that peers leave to the task manager, \<open>cs_tasks\<close> of the block chain those it leaves itself.
  Random numbers are arguments. The bytes that \<open>transmit\<close> logs are left out.
\<close>

section \<open>The state\<close>

record peer =
  pr_id :: "64 word"
  pr_context :: "nat option"
  pr_version :: "32 word"
  pr_sendHeaders :: bool
  pr_compactVersion :: "64 word"
  pr_pingNonce :: "64 word"
  pr_feeRate :: "64 word"
  pr_unload :: "nat option"
  pr_pingTimer :: bool
  pr_announceTimer :: bool
  pr_announce :: "inventory_vector list"

record peer_manager =
  pm_lastId :: "64 word"
  pm_peers :: "peer list"
  pm_ids :: "64 word list"

datatype task = AskNextHeaders "64 word" | AddBlockLater block

record world =
  w_chain :: chain_state
  w_book :: address_manager
  w_pm :: peer_manager
  w_conns :: "connection list"
  w_links :: "nat \<rightharpoonup> 64 word"
  w_tasks :: "task list"

text \<open>The two hash functions: that of the checksums of messages, and that of the block chain.\<close>

record ('g, 'h) hashers =
  msg_hash :: "'g hasher"
  chain_hash :: "'h hasher"
  hash_junk :: bytes

section \<open>Actions\<close>

type_synonym 'a act = "world \<Rightarrow> ((io_fault + 'a) \<times> world) option"

definition areturn :: "'a \<Rightarrow> 'a act" where
  "areturn x w = Some (Inr x, w)"

definition afail :: "io_fault \<Rightarrow> 'a act" where
  "afail e w = Some (Inl e, w)"

definition abind :: "'a act \<Rightarrow> ('a \<Rightarrow> 'b act) \<Rightarrow> 'b act" where
  "abind m f w = (case m w of None \<Rightarrow> None | Some (Inl e, w') \<Rightarrow> Some (Inl e, w') | Some (Inr x, w') \<Rightarrow> f x w')"

text \<open>A query of the block chain, and an operation on it; one that does not return, too.\<close>

definition asks :: "(world \<Rightarrow> io_fault + 'a) \<Rightarrow> 'a act" where
  "asks q w = Some (q w, w)"

definition asks_long :: "(chain_state \<Rightarrow> (io_fault + 'a) option) \<Rightarrow> 'a act" where
  "asks_long q w = (case q (w_chain w) of None \<Rightarrow> None | Some r \<Rightarrow> Some (r, w))"

definition on_chain :: "(chain_state \<Rightarrow> (io_fault + 'a \<times> chain_state) option) \<Rightarrow> 'a act" where
  "on_chain f w =
     (case f (w_chain w) of
        None \<Rightarrow> None
      | Some (Inl e) \<Rightarrow> Some (Inl e, w)
      | Some (Inr (x, s)) \<Rightarrow> Some (Inr x, w\<lparr>w_chain := s\<rparr>))"

definition on_pm :: "(peer_manager \<Rightarrow> 'a \<times> peer_manager) \<Rightarrow> 'a act" where
  "on_pm f w = (case f (w_pm w) of (x, pm) \<Rightarrow> Some (Inr x, w\<lparr>w_pm := pm\<rparr>))"

lemma act_simps [simp]:
  "areturn x w = Some (Inr x, w)" "afail e w = Some (Inl e, w)"
  by (simp_all add: areturn_def afail_def)

lemma abind_simps [simp]:
  "m w = None \<Longrightarrow> abind m f w = None"
  "m w = Some (Inl e, w') \<Longrightarrow> abind m f w = Some (Inl e, w')"
  "m w = Some (Inr x, w') \<Longrightarrow> abind m f w = f x w'"
  by (simp_all add: abind_def)

lemma abind_eq_Inr:
  "abind m f w = Some (Inr y, w'') \<longleftrightarrow> (\<exists>x w'. m w = Some (Inr x, w') \<and> f x w' = Some (Inr y, w''))"
  by (auto simp: abind_def split: option.splits sum.splits)

section \<open>\<open>PeerManager\<close>\<close>

text \<open>The constructor of a peer takes the next id; \<open>rand\<close> is its first nonce.\<close>

definition Peer_new :: "64 word \<Rightarrow> 64 word \<Rightarrow> peer" where
  "Peer_new i rand =
     \<lparr>pr_id = i, pr_context = None, pr_version = 0, pr_sendHeaders = False, pr_compactVersion = 0,
      pr_pingNonce = rand, pr_feeRate = 0, pr_unload = None, pr_pingTimer = False, pr_announceTimer = False,
      pr_announce = []\<rparr>"

definition PeerManager_new :: peer_manager where
  "PeerManager_new = \<lparr>pm_lastId = 0, pm_peers = [], pm_ids = []\<rparr>"

definition newPeer :: "64 word \<Rightarrow> peer_manager \<Rightarrow> 64 word \<times> peer_manager" where
  "newPeer rand pm =
     (let i = pm_lastId pm
      in (i, pm\<lparr>pm_lastId := i + 1, pm_peers := pm_peers pm @ [Peer_new i rand], pm_ids := List.insert i (pm_ids pm)\<rparr>))"

definition find_peer :: "64 word \<Rightarrow> peer_manager \<Rightarrow> peer option" where
  "find_peer i pm = find (\<lambda>p. pr_id p = i) (pm_peers pm)"

definition peerById :: "64 word \<Rightarrow> peer_manager \<Rightarrow> peer option \<times> peer_manager" where
  "peerById i pm =
     (if i \<in> set (pm_ids pm) then
        case find_peer i pm of
          Some p \<Rightarrow> (Some p, pm)
        | None \<Rightarrow> (None, pm\<lparr>pm_ids := removeAll i (pm_ids pm)\<rparr>)
      else (None, pm))"

definition closePeer :: "64 word \<Rightarrow> peer_manager \<Rightarrow> peer_manager" where
  "closePeer i pm = pm\<lparr>pm_peers := filter (\<lambda>p. pr_id p \<noteq> i) (pm_peers pm)\<rparr>"

text \<open>Assigning a member of the peer with an id.\<close>

definition set_peer :: "64 word \<Rightarrow> (peer \<Rightarrow> peer) \<Rightarrow> peer_manager \<Rightarrow> peer_manager" where
  "set_peer i f pm = pm\<lparr>pm_peers := map (\<lambda>p. if pr_id p = i then f p else p) (pm_peers pm)\<rparr>"

definition forEach :: "(peer \<Rightarrow> peer) \<Rightarrow> peer_manager \<Rightarrow> peer_manager" where
  "forEach f pm = pm\<lparr>pm_peers := map f (pm_peers pm)\<rparr>"

definition modify_peer :: "64 word \<Rightarrow> (peer \<Rightarrow> peer) \<Rightarrow> unit act" where
  "modify_peer i f = on_pm (\<lambda>pm. ((), set_peer i f pm))"

section \<open>Sending\<close>

text \<open>\<open>_context->transmit(msg)\<close>, with the bytes of the whole message.\<close>

definition send_frame :: "(io_fault + bytes) \<Rightarrow> peer \<Rightarrow> unit act" where
  "send_frame frame p w =
     (case pr_context p of
        None \<Rightarrow> Some (Inl Undefined, w)
      | Some k \<Rightarrow>
          (case cn_context (w_conns w ! k) of
             None \<Rightarrow> Some (Inl Abort, w)
           | Some context \<Rightarrow>
               if \<not> mc_established context then Some (Inl StdExcept, w)
               else
                 case frame of
                   Inl e \<Rightarrow> Some (Inl e, w)
                 | Inr bs \<Rightarrow> Some (Inr (), w\<lparr>w_conns := (w_conns w)[k := writes bs (w_conns w ! k)]\<rparr>)))"

definition send :: "('g, 'h) hashers \<Rightarrow> message \<Rightarrow> peer \<Rightarrow> unit act" where
  "send env msg p = send_frame (frame_of (msg_hash env) (hash_junk env) msg) p"

lemma send_transmit:
  assumes "pr_context p = Some k"
  shows "send env msg p w =
    (case transmit (msg_hash env) (hash_junk env) msg False (w_conns w ! k) of
       Inl e \<Rightarrow> Some (Inl e, w)
     | Inr c \<Rightarrow> Some (Inr (), w\<lparr>w_conns := (w_conns w)[k := c]\<rparr>))"
  using assms
  by (cases "frame_of (msg_hash env) (hash_junk env) msg")
    (auto simp: send_def send_frame_def transmit_def Let_def split: option.split)

text \<open>
  A \<open>Headers\<close> message over stored blocks: the writer of a header is virtual, so a block that is stored
  in full is written in full.
\<close>

definition ser_stored_ptr :: "stored option \<Rightarrow> io_fault + bytes" where
  "ser_stored_ptr b = (case b of None \<Rightarrow> Inl Undefined | Some b \<Rightarrow> ser_stored b)"

definition frame_stored_headers :: "'g hasher \<Rightarrow> bytes \<Rightarrow> stored option list \<Rightarrow> io_fault + bytes" where
  "frame_stored_headers ops junk headers =
     rbind (ser_sized_each ser_stored_ptr headers) (\<lambda>bs.
     let calculator = hs_xsputn ops bs (hs_new ops junk); len = hs_size calculator
     in rbind (hs_hash ops calculator) (\<lambda>(hash, calculator).
        rbind (MessageHeader_of MAGIC_main (command (Headers [])) len (word_le (take 4 hash))) (\<lambda>h.
        Inr (ser_MessageHeader h @ bs))))"

section \<open>\<open>Peer\<close>\<close>

definition delayBeforeUnload :: "bool \<Rightarrow> nat" where
  "delayBeforeUnload isShort = (if isShort then 15 else 900)"

definition touch :: "64 word \<Rightarrow> bool \<Rightarrow> unit act" where
  "touch i temporary = modify_peer i (pr_unload_update (\<lambda>t. Some (max (case t of None \<Rightarrow> 0 | Some s \<Rightarrow> s) (delayBeforeUnload temporary))))"

definition close :: "64 word \<Rightarrow> unit act" where
  "close i = on_pm (\<lambda>pm. ((), closePeer i pm))"

definition alive :: "64 word \<Rightarrow> unit act" where
  "alive i = modify_peer i (\<lambda>p. p\<lparr>pr_pingNonce := 0, pr_pingTimer := True\<rparr>)"

text \<open>The handler of the timer that \<open>alive\<close> starts.\<close>

definition ping_timer :: "('g, 'h) hashers \<Rightarrow> 64 word \<Rightarrow> 64 word \<Rightarrow> unit act" where
  "ping_timer env rand i w =
     (case find_peer i (w_pm w) of
        None \<Rightarrow> areturn () w
      | Some p \<Rightarrow>
          if pr_pingNonce p \<noteq> 0 then close i w
          else abind (modify_peer i (pr_pingNonce_update (\<lambda>_. rand))) (\<lambda>_. send env (Ping rand) p) w)"

definition ping :: "('g, 'h) hashers \<Rightarrow> 64 word \<Rightarrow> peer \<Rightarrow> unit act" where
  "ping env nonce p = send env (Pong nonce) p"

definition pong :: "64 word \<Rightarrow> peer \<Rightarrow> unit act" where
  "pong nonce p = (if nonce \<noteq> pr_pingNonce p then close (pr_id p) else alive (pr_id p))"

definition setVersion :: "32 word \<Rightarrow> 64 word \<Rightarrow> unit act" where
  "setVersion version i = modify_peer i (pr_version_update (\<lambda>_. version))"

definition setSendHeaders :: "64 word \<Rightarrow> unit act" where
  "setSendHeaders i = modify_peer i (pr_sendHeaders_update (\<lambda>_. True))"

definition setCompact :: "bool \<Rightarrow> 64 word \<Rightarrow> 64 word \<Rightarrow> unit act" where
  "setCompact announce version i = modify_peer i (pr_compactVersion_update (\<lambda>_. if announce then version else 0))"

definition setFeeFilter :: "64 word \<Rightarrow> 64 word \<Rightarrow> unit act" where
  "setFeeFilter feeRate i = modify_peer i (pr_feeRate_update (\<lambda>_. feeRate))"

subsection \<open>Headers and blocks\<close>

definition AskHeaders :: "('g, 'h) hashers \<Rightarrow> blob list \<Rightarrow> blob \<Rightarrow> peer \<Rightarrow> unit act" where
  "AskHeaders env locatorHashes stopHash p = send env (GetHeaders NODE_VERSION locatorHashes stopHash) p"

text \<open>The call with the locator and the hash of the top block.\<close>

definition ask_from_top :: "('g, 'h) hashers \<Rightarrow> peer \<Rightarrow> unit act" where
  "ask_from_top env p =
     abind (asks (\<lambda>w. getTopBlockHash (w_chain w))) (\<lambda>top.
     abind (asks_long (getBlockLocator top)) (\<lambda>locator. AskHeaders env locator top p))"

definition SendHeaders_to :: "('g, 'h) hashers \<Rightarrow> blob list \<Rightarrow> blob \<Rightarrow> peer \<Rightarrow> unit act" where
  "SendHeaders_to env locatorHashes stopHash p =
     abind (asks (\<lambda>w. rbind (getBlockHeaders locatorHashes stopHash (w_chain w)) (\<lambda>hs.
       Inr (map (map_option (\<lambda>q. cs_blocks (w_chain w) ! q)) hs)))) (\<lambda>headers.
     if headers = [] then areturn ()
     else send_frame (frame_stored_headers (msg_hash env) (hash_junk env) headers) p)"

definition AskBlocks :: "('g, 'h) hashers \<Rightarrow> blob list \<Rightarrow> blob \<Rightarrow> peer \<Rightarrow> unit act" where
  "AskBlocks env locatorHashes stopHash p = send env (GetBlocks NODE_VERSION locatorHashes stopHash) p"

fun send_all :: "('g, 'h) hashers \<Rightarrow> message list \<Rightarrow> peer \<Rightarrow> unit act" where
  "send_all env [] p = areturn ()"
| "send_all env (m # ms) p = abind (send env m p) (\<lambda>_. send_all env ms p)"

definition SendBlocks :: "('g, 'h) hashers \<Rightarrow> blob list \<Rightarrow> blob \<Rightarrow> peer \<Rightarrow> unit act" where
  "SendBlocks env locatorHashes stopHash p =
     abind (asks (\<lambda>w. getBlocks locatorHashes stopHash (w_chain w))) (\<lambda>blocks. send_all env (map Block blocks) p)"

subsection \<open>Addresses\<close>

definition AskAddress :: "('g, 'h) hashers \<Rightarrow> peer \<Rightarrow> unit act" where
  "AskAddress env p = send env GetAddr p"

fun ReceiveAddress :: "network_address list \<Rightarrow> unit act" where
  "ReceiveAddress [] w = Some (Inr (), w)"
| "ReceiveAddress (a # as) w =
     (case am_reg a (w_book w) of
        Inl e \<Rightarrow> Some (Inl e, w)
      | Inr (a, am) \<Rightarrow> ReceiveAddress as (w\<lparr>w_book := am\<rparr>))"

definition SendAddress :: "('g, 'h) hashers \<Rightarrow> peer \<Rightarrow> unit act" where
  "SendAddress env p = abind (asks (\<lambda>w. am_get 1000 (w_book w))) (\<lambda>list. send env (Addr list) p)"

subsection \<open>Inventories\<close>

definition known_item :: "chain_state \<Rightarrow> inventory_vector \<Rightarrow> bool" where
  "known_item s item =
     (if iv_type item = MSG_TX then hasTx (iv_hash item) s
      else if iv_type item \<in> {MSG_BLOCK, MSG_FILTERED_BLOCK, MSG_CMPCT_BLOCK} then hasBlock (iv_hash item) s
      else True)"

definition filterKnownInventory :: "inventory_vector list \<Rightarrow> chain_state \<Rightarrow> inventory_vector list" where
  "filterKnownInventory inventory s = filter (\<lambda>item. \<not> known_item s item) inventory"

definition AskInventory :: "('g, 'h) hashers \<Rightarrow> inventory_vector list \<Rightarrow> peer \<Rightarrow> unit act" where
  "AskInventory env inventory p w =
     (if inventory = [] then areturn () w
      else
        let inventory = filterKnownInventory inventory (w_chain w)
        in if inventory \<noteq> [] then send env (GetData inventory) p w else areturn () w)"

text \<open>The loop of \<open>ReceiveInventory\<close>, with the items that have not been found.\<close>

fun send_items :: "('g, 'h) hashers \<Rightarrow> inventory_vector list \<Rightarrow> inventory_vector list \<Rightarrow> peer \<Rightarrow> inventory_vector list act" where
  "send_items env [] missing p w = Some (Inr missing, w)"
| "send_items env (item # inventory) missing p w =
     (if iv_type item = MSG_TX then
        case getTx (iv_hash item) (w_chain w) of
          Some t \<Rightarrow> abind (send env (Tx (Some (cs_txs (w_chain w) ! t))) p) (\<lambda>_. send_items env inventory missing p) w
        | None \<Rightarrow> send_items env inventory (missing @ [item]) p w
      else if iv_type item = MSG_BLOCK then
        case getBlock (iv_hash item) (w_chain w) of
          Some b \<Rightarrow> abind (send env (Block (Some b)) p) (\<lambda>_. send_items env inventory missing p) w
        | None \<Rightarrow> send_items env inventory (missing @ [item]) p w
      else send_items env inventory missing p w)"

definition ReceiveInventory :: "('g, 'h) hashers \<Rightarrow> inventory_vector list \<Rightarrow> peer \<Rightarrow> unit act" where
  "ReceiveInventory env inventory p =
     abind (send_items env inventory [] p) (\<lambda>missing.
     if missing \<noteq> [] then send env (NotFound missing) p else areturn ())"

text \<open>\<open>ReceiveHeaders\<close>: the headers that are new become the inventory that is asked for.\<close>

fun add_headers :: "('g, 'h) hashers \<Rightarrow> block_header option list \<Rightarrow> inventory_vector list \<Rightarrow> inventory_vector list act" where
  "add_headers env [] inventory = areturn inventory"
| "add_headers env (None # headers) inventory = afail Undefined"
| "add_headers env (Some h # headers) inventory =
     abind (on_chain (\<lambda>s. Some (addBlockHeader (chain_hash env) (hash_junk env) (Plain h) s))) (\<lambda>added.
     if added then
       abind (asks (\<lambda>w. BlockHeader_hash (chain_hash env) (hash_junk env) h)) (\<lambda>(hash, h).
       add_headers env headers (inventory @ [\<lparr>iv_type = MSG_BLOCK, iv_hash = hash\<rparr>]))
     else add_headers env headers inventory)"

definition enqueue :: "task \<Rightarrow> unit act" where
  "enqueue t w = Some (Inr (), w\<lparr>w_tasks := w_tasks w @ [t]\<rparr>)"

definition ReceiveHeaders :: "('g, 'h) hashers \<Rightarrow> block_header option list \<Rightarrow> peer \<Rightarrow> unit act" where
  "ReceiveHeaders env headers p =
     abind (add_headers env headers []) (\<lambda>inventory.
     if inventory \<noteq> [] then abind (AskInventory env inventory p) (\<lambda>_. enqueue (AskNextHeaders (pr_id p)))
     else areturn ())"

subsection \<open>Announcements\<close>

definition MAX_INV_COUNT :: nat where "MAX_INV_COUNT = 50000"

text \<open>\<open>SendInventory\<close> on one peer: the item joins a set, and the timer is started.\<close>

definition SendInventory :: "inventory_vector \<Rightarrow> peer \<Rightarrow> peer" where
  "SendInventory item p = p\<lparr>pr_announce := (if item \<in> set (pr_announce p) then pr_announce p else pr_announce p @ [item]),
     pr_announceTimer := True\<rparr>"

text \<open>
  The loop of its timer: \<open>n\<close> is the size of the set. The vector that has been moved into a message
  is empty; the counter goes on.
\<close>

fun inv_messages :: "nat \<Rightarrow> nat \<Rightarrow> nat \<Rightarrow> inventory_vector list \<Rightarrow> inventory_vector list \<Rightarrow> message list" where
  "inv_messages m n k inventory [] = []"
| "inv_messages m n k inventory (item # items) =
     (if k + 1 = m \<or> k + 1 = n
      then Inv (inventory @ [item]) # inv_messages m n (k + 1) [] items
      else inv_messages m n (k + 1) (inventory @ [item]) items)"

definition announce_timer :: "('g, 'h) hashers \<Rightarrow> 64 word \<Rightarrow> unit act" where
  "announce_timer env i w =
     (case find_peer i (w_pm w) of
        None \<Rightarrow> areturn () w
      | Some p \<Rightarrow>
          abind (send_all env (inv_messages MAX_INV_COUNT (length (pr_announce p)) 0 [] (pr_announce p)) p)
            (\<lambda>_. modify_peer i (pr_announce_update (\<lambda>_. []))) w)"

subsection \<open>Not implemented in the code\<close>

definition ReceiveBlock :: "block option \<Rightarrow> peer \<Rightarrow> unit act" where
  "ReceiveBlock b p = areturn ()"

definition AskBlockTxN :: "block_transactions_request \<Rightarrow> peer \<Rightarrow> unit act" where
  "AskBlockTxN request p = areturn ()"

definition ReceiveBlockTxN :: "block option \<Rightarrow> peer \<Rightarrow> unit act" where
  "ReceiveBlockTxN b p = areturn ()"

definition SendBlockTxB :: "blob list \<Rightarrow> blob \<Rightarrow> peer \<Rightarrow> unit act" where
  "SendBlockTxB locatorHashes stopHash p = areturn ()"

section \<open>Messages applied\<close>

definition apply_Block :: "('g, 'h) hashers \<Rightarrow> block option \<Rightarrow> peer \<Rightarrow> unit act" where
  "apply_Block env block p =
     (case block of
        None \<Rightarrow> afail Undefined
      | Some b \<Rightarrow>
          if isNull (bh_prev (b_header b)) then
            abind (on_chain (addBlock (chain_hash env) (hash_junk env) b)) (\<lambda>added.
            if added then ask_from_top env p else areturn ())
          else enqueue (AddBlockLater b))"

definition apply_Tx :: "('g, 'h) hashers \<Rightarrow> transaction option \<Rightarrow> unit act" where
  "apply_Tx env tx =
     (case tx of
        None \<Rightarrow> afail Undefined
      | Some tx \<Rightarrow> abind (on_chain (\<lambda>s. Some (addTx (chain_hash env) (hash_junk env) tx s))) (\<lambda>_. areturn ()))"

definition apply_Version :: "version_message \<Rightarrow> peer \<Rightarrow> unit act" where
  "apply_Version m p = setVersion (if sint (vm_version m) < sint NODE_VERSION then vm_version m else NODE_VERSION) (pr_id p)"

definition apply_Addr :: "network_address list \<Rightarrow> peer \<Rightarrow> unit act" where
  "apply_Addr list p = ReceiveAddress list"

definition apply_BlockTxn :: "block_transactions \<Rightarrow> unit act" where
  "apply_BlockTxn transactions = on_chain (\<lambda>s. Some (case addTxN transactions s of (added, s) \<Rightarrow> Inr ((), s)))"

definition apply_CmpctBlock :: "header_and_short_ids \<Rightarrow> peer \<Rightarrow> unit act" where
  "apply_CmpctBlock h p = areturn ()"

definition apply_FeeFilter :: "64 word \<Rightarrow> peer \<Rightarrow> unit act" where
  "apply_FeeFilter feeRate p = setFeeFilter feeRate (pr_id p)"

definition apply_GetAddr :: "('g, 'h) hashers \<Rightarrow> peer \<Rightarrow> unit act" where
  "apply_GetAddr env p = SendAddress env p"

definition apply_GetBlockTxn :: "block_transactions_request \<Rightarrow> peer \<Rightarrow> unit act" where
  "apply_GetBlockTxn request p = AskBlockTxN request p"

definition apply_GetBlocks :: "('g, 'h) hashers \<Rightarrow> blob list \<Rightarrow> blob \<Rightarrow> peer \<Rightarrow> unit act" where
  "apply_GetBlocks env locatorHashes stopHash p = SendBlocks env locatorHashes stopHash p"

definition apply_GetData :: "('g, 'h) hashers \<Rightarrow> inventory_vector list \<Rightarrow> peer \<Rightarrow> unit act" where
  "apply_GetData env list p = AskInventory env list p"

definition apply_GetHeaders :: "('g, 'h) hashers \<Rightarrow> blob list \<Rightarrow> blob \<Rightarrow> peer \<Rightarrow> unit act" where
  "apply_GetHeaders env locatorHashes stopHash p = SendHeaders_to env locatorHashes stopHash p"

definition apply_Headers :: "('g, 'h) hashers \<Rightarrow> block_header option list \<Rightarrow> peer \<Rightarrow> unit act" where
  "apply_Headers env headers p = ReceiveHeaders env headers p"

definition apply_Inv :: "('g, 'h) hashers \<Rightarrow> inventory_vector list \<Rightarrow> peer \<Rightarrow> unit act" where
  "apply_Inv env list p = AskInventory env list p"

definition apply_NotFound :: "('g, 'h) hashers \<Rightarrow> inventory_vector list \<Rightarrow> peer \<Rightarrow> unit act" where
  "apply_NotFound env list p = ReceiveInventory env list p"

definition apply_Ping :: "('g, 'h) hashers \<Rightarrow> 64 word \<Rightarrow> peer \<Rightarrow> unit act" where
  "apply_Ping env nonce p = ping env nonce p"

definition apply_Pong :: "64 word \<Rightarrow> peer \<Rightarrow> unit act" where
  "apply_Pong nonce p = pong nonce p"

definition apply_SendCmpct :: "8 word \<Rightarrow> 64 word \<Rightarrow> peer \<Rightarrow> unit act" where
  "apply_SendCmpct announce version p = setCompact (announce \<noteq> 0) version (pr_id p)"

definition apply_SendHeaders :: "peer \<Rightarrow> unit act" where
  "apply_SendHeaders p = setSendHeaders (pr_id p)"

definition apply_Verack :: "32 word list \<Rightarrow> unit act" where
  "apply_Verack knownChains = afail StdExcept"

lemmas apply_defs =
  apply_Addr_def apply_Block_def apply_BlockTxn_def apply_CmpctBlock_def apply_FeeFilter_def apply_GetAddr_def
  apply_GetBlockTxn_def apply_GetBlocks_def apply_GetData_def apply_GetHeaders_def apply_Headers_def apply_Inv_def
  apply_NotFound_def apply_Ping_def apply_Pong_def apply_SendCmpct_def apply_SendHeaders_def apply_Tx_def
  apply_Verack_def apply_Version_def

text \<open>The virtual call \<open>msg->apply(node, peer)\<close>.\<close>

fun apply_message :: "('g, 'h) hashers \<Rightarrow> message \<Rightarrow> peer \<Rightarrow> unit act" where
  "apply_message env (Addr list) p = apply_Addr list p"
| "apply_message env (Block block) p = apply_Block env block p"
| "apply_message env (BlockTxn transactions) p = apply_BlockTxn transactions"
| "apply_message env (CmpctBlock h) p = apply_CmpctBlock h p"
| "apply_message env (FeeFilter feeRate) p = apply_FeeFilter feeRate p"
| "apply_message env GetAddr p = apply_GetAddr env p"
| "apply_message env (GetBlockTxn request) p = apply_GetBlockTxn request p"
| "apply_message env (GetBlocks version locator stopHash) p = apply_GetBlocks env locator stopHash p"
| "apply_message env (GetData list) p = apply_GetData env list p"
| "apply_message env (GetHeaders version locator stopHash) p = apply_GetHeaders env locator stopHash p"
| "apply_message env (Headers headers) p = apply_Headers env headers p"
| "apply_message env (Inv list) p = apply_Inv env list p"
| "apply_message env (NotFound list) p = apply_NotFound env list p"
| "apply_message env (Ping nonce) p = apply_Ping env nonce p"
| "apply_message env (Pong nonce) p = apply_Pong nonce p"
| "apply_message env (SendCmpct announce version) p = apply_SendCmpct announce version p"
| "apply_message env SendHeaders p = apply_SendHeaders p"
| "apply_message env (Tx tx) p = apply_Tx env tx"
| "apply_message env (Verack knownChains) p = apply_Verack knownChains"
| "apply_message env (Version m) p = apply_Version m p"

text \<open>\<open>Protocol::handler\<close> for a message that arrived on connection \<open>k\<close>: exceptions end up in the log.\<close>

definition protocol_handler :: "('g, 'h) hashers \<Rightarrow> nat \<Rightarrow> message \<Rightarrow> unit act" where
  "protocol_handler env k msg w =
     (case w_links w k of
        None \<Rightarrow> Some (Inl Abort, w)
      | Some i \<Rightarrow>
          (case find_peer i (w_pm w) of
             None \<Rightarrow> Some (Inl Abort, w)
           | Some p \<Rightarrow>
               (case apply_message env msg p w of
                  Some (Inl StdExcept, w) \<Rightarrow> Some (Inr (), w)
                | r \<Rightarrow> r)))"

section \<open>\<open>Node\<close>\<close>

text \<open>\<open>Peer::initialSetup\<close>.\<close>

definition initialSetup :: "('g, 'h) hashers \<Rightarrow> peer \<Rightarrow> unit act" where
  "initialSetup env p =
     abind (send env SendHeaders p) (\<lambda>_.
     abind (send env (SendCmpct 0 1) p) (\<lambda>_.
     abind (send env (Ping (pr_pingNonce p)) p) (\<lambda>_.
     abind (asks (\<lambda>w. Inr (w_chain w))) (\<lambda>s.
     abind (if getHeight s \<noteq> 0 then ask_from_top env p
            else send env (GetData [\<lparr>iv_type = MSG_BLOCK, iv_hash = cs_genesis s\<rparr>]) p) (\<lambda>_.
     abind (send env (FeeFilter 1000) p) (\<lambda>_. send env GetAddr p))))))"

text \<open>The handler of \<open>connectToPeers\<close> for connection \<open>k\<close> on which the handshake has succeeded.\<close>

definition on_success :: "('g, 'h) hashers \<Rightarrow> 64 word \<Rightarrow> nat \<Rightarrow> unit act" where
  "on_success env rand k =
     abind (on_pm (newPeer rand)) (\<lambda>i.
     abind (modify_peer i (pr_context_update (\<lambda>_. Some k))) (\<lambda>_ w.
     initialSetup env ((Peer_new i rand)\<lparr>pr_context := Some k\<rparr>) (w\<lparr>w_links := (w_links w)(k \<mapsto> i)\<rparr>)))"

definition announceTx :: "('g, 'h) hashers \<Rightarrow> transaction \<Rightarrow> unit act" where
  "announceTx env tx =
     abind (asks (\<lambda>w. stream_hash (chain_hash env) (hash_junk env) (ser_Transaction tx))) (\<lambda>hash.
     on_pm (\<lambda>pm. ((), forEach (SendInventory \<lparr>iv_type = MSG_TX, iv_hash = hash\<rparr>) pm)))"

definition announceBlock :: "('g, 'h) hashers \<Rightarrow> block \<Rightarrow> unit act" where
  "announceBlock env b =
     abind (asks (\<lambda>w. rbind (ser_Block b) (stream_hash (chain_hash env) (hash_junk env)))) (\<lambda>hash.
     on_pm (\<lambda>pm. ((), forEach (SendInventory \<lparr>iv_type = MSG_BLOCK, iv_hash = hash\<rparr>) pm)))"

text \<open>The tasks that peers leave.\<close>

fun run_task :: "('g, 'h) hashers \<Rightarrow> task \<Rightarrow> unit act" where
  "run_task env (AskNextHeaders i) w =
     (case find_peer i (w_pm w) of None \<Rightarrow> areturn () w | Some p \<Rightarrow> ask_from_top env p w)"
| "run_task env (AddBlockLater b) w = abind (on_chain (addBlock (chain_hash env) (hash_junk env) b)) (\<lambda>_. areturn ()) w"

end
