(* ===== verification/PeerFacts.thy ===== *)
theory PeerFacts
  imports Peers BlockStoreRun ProtocolProps
begin

text \<open>
  What the actions of a peer leave alone, the runs of the node, and the invariant that ties every peer
  to a connection of its own; then what a peer writes, as lists of messages.
\<close>

section \<open>Actions on one connection\<close>

definition pr_name :: "peer \<Rightarrow> 64 word \<times> nat option" where
  "pr_name p = (pr_id p, pr_context p)"

text \<open>
  From \<open>w\<close> to \<open>w'\<close> nothing is written but on connection \<open>k\<close>, nothing that was written is lost, and no
  peer appears or changes its id or its connection.
\<close>

definition local_step :: "nat \<Rightarrow> world \<Rightarrow> world \<Rightarrow> bool" where
  "local_step k w w' \<longleftrightarrow>
     length (w_conns w') = length (w_conns w) \<and>
     (\<forall>j. j \<noteq> k \<longrightarrow> w_conns w' ! j = w_conns w ! j) \<and>
     (\<exists>bs. w_conns w' ! k = writes bs (w_conns w ! k)) \<and>
     w_links w' = w_links w \<and> pm_lastId (w_pm w') = pm_lastId (w_pm w) \<and>
     (\<exists>P. map pr_name (pm_peers (w_pm w')) = filter P (map pr_name (pm_peers (w_pm w))))"

definition local_act :: "nat \<Rightarrow> 'a act \<Rightarrow> bool" where
  "local_act k m \<longleftrightarrow> (\<forall>w r w'. m w = Some (r, w') \<longrightarrow> local_step k w w')"

named_theorems local_intros "actions that stay on one connection"

lemma writes_Nil [simp]: "writes [] c = c"
  by (simp add: writes_def)

lemma writes_append: "writes bs' (writes bs c) = writes (bs @ bs') c"
  by (simp add: writes_def)

lemma local_step_same:
  "w_conns w' = w_conns w \<Longrightarrow> w_links w' = w_links w \<Longrightarrow> pm_lastId (w_pm w') = pm_lastId (w_pm w) \<Longrightarrow>
    map pr_name (pm_peers (w_pm w')) = filter P (map pr_name (pm_peers (w_pm w))) \<Longrightarrow> local_step k w w'"
  unfolding local_step_def by (metis writes_Nil)

lemma local_step_refl: "local_step k w w"
  by (rule local_step_same [where P = "\<lambda>x. True"]) simp_all

lemma local_step_trans: "local_step k w w' \<Longrightarrow> local_step k w' w'' \<Longrightarrow> local_step k w w''"
  unfolding local_step_def by (auto simp: writes_append)

lemma local_areturn [local_intros]: "local_act k (areturn x)" "local_act k (afail e)"
  by (simp_all add: local_act_def local_step_refl)

lemma local_asks [local_intros]: "local_act k (asks q)" "local_act k (asks_long q')"
  by (auto simp: local_act_def asks_def asks_long_def local_step_refl split: option.splits)

lemma local_on_chain [local_intros]: "local_act k (on_chain f)"
  by (auto simp: local_act_def on_chain_def split: option.splits sum.splits
      intro!: local_step_same [where P = "\<lambda>x. True"])

lemma local_enqueue [local_intros]: "local_act k (enqueue t)"
  by (auto simp: local_act_def enqueue_def intro!: local_step_same [where P = "\<lambda>x. True"])

lemma local_abind [local_intros]:
  assumes "local_act k m" and "\<And>x. local_act k (f x)"
  shows "local_act k (abind m f)"
  unfolding local_act_def
proof (intro allI impI)
  fix w r w' assume r: "abind m f w = Some (r, w')"
  show "local_step k w w'"
  proof (cases "m w")
    case None then show ?thesis using r by simp
  next
    case (Some p)
    obtain q w1 where p: "p = (q, w1)" by force
    have w1: "local_step k w w1" using assms(1) Some p by (auto simp: local_act_def)
    show ?thesis
    proof (cases q)
      case (Inl e) then show ?thesis using r Some p w1 by simp
    next
      case (Inr x)
      then have "f x w1 = Some (r, w')" using r Some p by simp
      then have "local_step k w1 w'" using assms(2) [of x] unfolding local_act_def by blast
      then show ?thesis using w1 by (rule local_step_trans [rotated])
    qed
  qed
qed

lemma local_if [local_intros]: "local_act k m \<Longrightarrow> local_act k n \<Longrightarrow> local_act k (if b then m else n)"
  by simp

lemma map_pr_name: "(\<And>p. pr_name (f p) = pr_name p) \<Longrightarrow> map pr_name (map f ps) = map pr_name ps"
  by simp

lemma local_modify_peer:
  assumes "\<And>p. pr_name (f p) = pr_name p"
  shows "local_act k (modify_peer i f)"
proof -
  have "local_step k w (w\<lparr>w_pm := set_peer i f (w_pm w)\<rparr>)" for w
    by (rule local_step_same [where P = "\<lambda>x. True"])
      (simp_all add: set_peer_def assms comp_def if_distrib [of pr_name] cong: if_cong)
  then show ?thesis by (auto simp: local_act_def modify_peer_def on_pm_def)
qed

lemma local_close [local_intros]: "local_act k (close i)"
proof -
  have "local_step k w (w\<lparr>w_pm := closePeer i (w_pm w)\<rparr>)" for w
    by (rule local_step_same [where P = "\<lambda>n. fst n \<noteq> i"]) (simp_all add: closePeer_def filter_map comp_def pr_name_def)
  then show ?thesis by (auto simp: local_act_def close_def on_pm_def)
qed

lemma writes_update: "\<exists>bs'. xs[k := writes bs (xs ! k)] ! k = writes bs' (xs ! k)"
  by (cases "k < length xs") (auto simp: list_update_beyond intro: exI [of _ "[]"])

lemma local_send_frame: "pr_context p = Some k \<Longrightarrow> local_act k (send_frame frame p)"
  unfolding local_act_def send_frame_def
  by (auto simp: local_step_def writes_update split: option.splits sum.splits if_splits intro: exI [of _ "[]"]
      intro!: exI [of _ "\<lambda>x. True"])

lemma local_send: "pr_context p = Some k \<Longrightarrow> local_act k (send env msg p)"
  unfolding send_def by (rule local_send_frame)

lemma local_setters [local_intros]:
  "local_act k (setVersion n i)" "local_act k (setSendHeaders i)" "local_act k (setCompact a v i)"
  "local_act k (setFeeFilter fee i)" "local_act k (alive i)" "local_act k (touch i t)"
  by (auto simp: setVersion_def setSendHeaders_def setCompact_def setFeeFilter_def alive_def touch_def pr_name_def
      intro!: local_modify_peer)

lemma local_pong [local_intros]: "local_act k (pong nonce p)"
  unfolding pong_def by (intro local_intros)

lemma local_ask_from_top: "pr_context p = Some k \<Longrightarrow> local_act k (ask_from_top env p)"
  unfolding ask_from_top_def AskHeaders_def by (intro local_intros local_send)

lemma local_send_all: "pr_context p = Some k \<Longrightarrow> local_act k (send_all env ms p)"
  by (induction ms) (auto intro!: local_intros local_send)

lemma local_ReceiveAddress [local_intros]: "local_act k (ReceiveAddress as)"
proof (induction as)
  case Nil
  then show ?case by (simp add: local_act_def local_step_refl)
next
  case (Cons a as)
  have "local_step k w (w\<lparr>w_book := am\<rparr>)" for w am
    by (rule local_step_same [where P = "\<lambda>x. True"]) simp_all
  then show ?case
    using Cons local_step_trans unfolding local_act_def by (auto simp: local_step_refl split: sum.splits prod.splits, blast)
qed

lemma local_AskInventory: "pr_context p = Some k \<Longrightarrow> local_act k (AskInventory env xs p)"
  using local_send [of p k env] unfolding local_act_def AskInventory_def by (auto simp: Let_def local_step_refl)

lemma local_send_items: "pr_context p = Some k \<Longrightarrow> local_act k (send_items env xs missing p)"
proof (induction xs arbitrary: missing)
  case Nil
  then show ?case by (simp add: local_act_def local_step_refl)
next
  case (Cons x xs)
  have "local_act k (abind (send env m p) (\<lambda>_. send_items env xs missing p))" for m missing
    using Cons by (intro local_intros local_send)
  then show ?case
    using Cons unfolding local_act_def by (auto simp: getBlock_def split: if_splits option.splits)
qed

lemma local_add_headers [local_intros]: "local_act k (add_headers env hs inventory)"
proof (induction hs arbitrary: inventory)
  case Nil
  show ?case unfolding add_headers.simps by (rule local_areturn)
next
  case (Cons h hs)
  show ?case
  proof (cases h)
    case None
    then show ?thesis unfolding None add_headers.simps by (intro local_areturn)
  next
    case (Some g)
    show ?thesis unfolding Some add_headers.simps
      by (intro local_intros) (auto split: prod.split intro!: Cons)
  qed
qed

lemma local_apply_message:
  assumes "pr_context p = Some k"
  shows "local_act k (apply_message env msg p)"
  by (cases msg)
    (auto simp: SendAddress_def AskBlockTxN_def SendBlocks_def SendHeaders_to_def ReceiveHeaders_def ReceiveInventory_def
      ping_def apply_defs
      intro!: local_intros local_send local_send_frame local_send_all local_AskInventory local_send_items
        local_ask_from_top assms split: option.split)


section \<open>Runs of the node\<close>

text \<open>
  Every peer has a connection of its own, whose context points back to it. The counter of the ids has
  not come round.
\<close>

definition world_inv :: "world \<Rightarrow> bool" where
  "world_inv w \<longleftrightarrow>
     distinct (map pr_id (pm_peers (w_pm w))) \<and>
     (\<forall>p \<in> set (pm_peers (w_pm w)). \<exists>k < length (w_conns w). pr_context p = Some k \<and> w_links w k = Some (pr_id p)) \<and>
     inj_on (w_links w) (dom (w_links w)) \<and>
     (\<forall>i \<in> ran (w_links w). i < pm_lastId (w_pm w))"

inductive world_run :: "('g, 'h) hashers \<Rightarrow> world \<Rightarrow> bool" for env where
  world_start: "w_pm w = PeerManager_new \<Longrightarrow> w_links w = Map.empty \<Longrightarrow> world_run env w"
| world_connects: "world_run env w \<Longrightarrow> k < length (w_conns w) \<Longrightarrow> w_links w k = None \<Longrightarrow> pm_lastId (w_pm w) + 1 \<noteq> 0 \<Longrightarrow>
    on_success env rand k w = Some (r, w') \<Longrightarrow> world_run env w'"
| world_handles: "world_run env w \<Longrightarrow> protocol_handler env k msg w = Some (r, w') \<Longrightarrow> world_run env w'"
| world_pings: "world_run env w \<Longrightarrow> ping_timer env rand i w = Some (r, w') \<Longrightarrow> world_run env w'"
| world_announces_tx: "world_run env w \<Longrightarrow> announceTx env tx w = Some (r, w') \<Longrightarrow> world_run env w'"
| world_announces_block: "world_run env w \<Longrightarrow> announceBlock env b w = Some (r, w') \<Longrightarrow> world_run env w'"
| world_sends_inv: "world_run env w \<Longrightarrow> announce_timer env i w = Some (r, w') \<Longrightarrow> world_run env w'"
| world_task: "world_run env w \<Longrightarrow> run_task env t w = Some (r, w') \<Longrightarrow> world_run env w'"

lemma map_pr_id: "map pr_id ps = map fst (map pr_name ps)"
  by (simp add: comp_def pr_name_def)

text \<open>The same over the names of the peers alone.\<close>

definition names_ok :: "(64 word \<times> nat option) list \<Rightarrow> nat \<Rightarrow> (nat \<rightharpoonup> 64 word) \<Rightarrow> 64 word \<Rightarrow> bool" where
  "names_ok names n links lastId \<longleftrightarrow>
     distinct (map fst names) \<and> (\<forall>x \<in> set names. \<exists>k < n. snd x = Some k \<and> links k = Some (fst x)) \<and>
     inj_on links (dom links) \<and> (\<forall>i \<in> ran links. i < lastId)"

lemma world_inv_names:
  "world_inv w \<longleftrightarrow>
     names_ok (map pr_name (pm_peers (w_pm w))) (length (w_conns w)) (w_links w) (pm_lastId (w_pm w))"
  unfolding world_inv_def names_ok_def map_pr_id [symmetric] by (simp add: pr_name_def)

lemma names_ok_filter: "names_ok names n links i \<Longrightarrow> names_ok (filter P names) n links i"
  by (auto simp: names_ok_def distinct_map_filter)

lemma local_step_inv: "world_inv w \<Longrightarrow> local_step k w w' \<Longrightarrow> world_inv w'"
  unfolding world_inv_names local_step_def by (auto simp: names_ok_filter simp del: map_map)

lemma local_actD: "local_act k m \<Longrightarrow> m w = Some (r, w') \<Longrightarrow> \<exists>k. local_step k w w'"
  unfolding local_act_def by blast

lemma local_act_inv: "world_inv w \<Longrightarrow> local_act k m \<Longrightarrow> m w = Some (r, w') \<Longrightarrow> world_inv w'"
  unfolding local_act_def using local_step_inv by blast

lemma find_peer_Some: "find_peer i pm = Some p \<Longrightarrow> p \<in> set (pm_peers pm) \<and> pr_id p = i"
  by (auto simp: find_peer_def find_Some_iff)

lemma world_inv_peer:
  assumes "world_inv w" and "find_peer i (w_pm w) = Some p"
  obtains k where "pr_context p = Some k" and "w_links w k = Some i" and "k < length (w_conns w)"
  using assms find_peer_Some [OF assms(2)] unfolding world_inv_def by blast

lemma world_inv_linked:
  assumes "world_inv w" and "find_peer i (w_pm w) = Some p" and "w_links w k = Some i"
  shows "pr_context p = Some k" and "k < length (w_conns w)"
proof -
  obtain k' where k': "pr_context p = Some k'" "w_links w k' = Some i" "k' < length (w_conns w)"
    using world_inv_peer [OF assms(1,2)] .
  have "k' = k" using assms(1,3) k'(2) unfolding world_inv_def by (metis domI inj_onD)
  then show "pr_context p = Some k" "k < length (w_conns w)" using k' by simp_all
qed

lemma handler_local:
  assumes "world_inv w" and "protocol_handler env k msg w = Some (r, w')"
  shows "local_step k w w'"
proof (cases "w_links w k")
  case None
  then show ?thesis using assms(2) by (simp add: protocol_handler_def local_step_refl)
next
  case (Some i)
  show ?thesis
  proof (cases "find_peer i (w_pm w)")
    case None
    then show ?thesis using assms(2) Some by (simp add: protocol_handler_def local_step_refl)
  next
    case (Some p)
    note link = \<open>w_links w k = Some i\<close>
    have loc: "local_act k (apply_message env msg p)"
      using world_inv_linked(1) [OF assms(1) Some link] by (rule local_apply_message)
    obtain q where "apply_message env msg p w = Some (q, w')"
      using assms(2) link Some
      by (auto simp: protocol_handler_def split: option.splits prod.splits sum.splits fault.splits)
    then show ?thesis using loc unfolding local_act_def by blast
  qed
qed

lemma ping_timer_local:
  assumes "world_inv w" and "ping_timer env rand i w = Some (r, w')"
  shows "\<exists>k. local_step k w w'"
proof (cases "find_peer i (w_pm w)")
  case None
  then show ?thesis using assms(2) local_step_refl by (auto simp: ping_timer_def)
next
  case (Some p)
  obtain k where "pr_context p = Some k" using world_inv_peer [OF assms(1) Some] by blast
  then have "local_act k (abind (modify_peer i (pr_pingNonce_update (\<lambda>_. rand))) (\<lambda>_. send env (Ping rand) p))"
    by (intro local_intros local_send local_modify_peer) (simp_all add: pr_name_def)
  note this local_close [of k i]
  then show ?thesis
    using assms(2) Some unfolding ping_timer_def by (auto split: if_splits intro: local_actD)
qed

lemma announce_timer_local:
  assumes "world_inv w" and "announce_timer env i w = Some (r, w')"
  shows "\<exists>k. local_step k w w'"
proof (cases "find_peer i (w_pm w)")
  case None
  then show ?thesis using assms(2) local_step_refl by (auto simp: announce_timer_def)
next
  case (Some p)
  obtain k where "pr_context p = Some k" using world_inv_peer [OF assms(1) Some] by blast
  then have "local_act k (abind (send_all env ms p) (\<lambda>_. modify_peer i (pr_announce_update (\<lambda>_. []))))" for ms
    by (intro local_intros local_send_all local_modify_peer) (simp_all add: pr_name_def)
  then show ?thesis using assms(2) Some unfolding announce_timer_def by (auto intro: local_actD)
qed

lemma run_task_local:
  assumes "world_inv w" and "run_task env t w = Some (r, w')"
  shows "\<exists>k. local_step k w w'"
proof (cases t)
  case (AskNextHeaders i)
  show ?thesis
  proof (cases "find_peer i (w_pm w)")
    case None
    then show ?thesis using assms(2) AskNextHeaders local_step_refl by auto
  next
    case (Some p)
    obtain k where "pr_context p = Some k" using world_inv_peer [OF assms(1) Some] by blast
    then have "local_act k (ask_from_top env p)" by (rule local_ask_from_top)
    then show ?thesis using assms(2) AskNextHeaders Some by (auto intro: local_actD)
  qed
next
  case (AddBlockLater b)
  have "local_act 0 (abind (on_chain (addBlock (chain_hash env) (hash_junk env) b)) (\<lambda>_. areturn ()))"
    by (intro local_intros)
  then show ?thesis using assms(2) AddBlockLater by (auto intro: local_actD)
qed

lemma local_forEach: "(\<And>p. pr_name (f p) = pr_name p) \<Longrightarrow> local_act k (on_pm (\<lambda>pm. ((), forEach f pm)))"
  by (auto simp: local_act_def on_pm_def forEach_def intro!: local_step_same [where P = "\<lambda>x. True"])

lemma announce_local: "local_act k (announceTx env tx)" "local_act k (announceBlock env b)"
  unfolding announceTx_def announceBlock_def
  by (intro local_intros local_forEach, simp add: SendInventory_def pr_name_def)+

text \<open>A new peer gets an id that no connection has had.\<close>

lemma new_peer_names:
  assumes "world_inv w" and "pm_lastId (w_pm w) = i"
  shows "map pr_name (pm_peers (set_peer i (pr_context_update (\<lambda>_. Some k)) (snd (newPeer rand (w_pm w))))) =
    map pr_name (pm_peers (w_pm w)) @ [(i, Some k)]"
proof -
  have "pr_id p \<noteq> i" if "p \<in> set (pm_peers (w_pm w))" for p
    using that assms unfolding world_inv_def by (metis order_less_irrefl ranI)
  then show ?thesis
    using assms(2) by (simp add: set_peer_def newPeer_def Let_def Peer_new_def pr_name_def)
qed

lemma word_less_Suc: "i < n \<Longrightarrow> n + 1 \<noteq> 0 \<Longrightarrow> i < n + 1" "n + 1 \<noteq> 0 \<Longrightarrow> n < n + 1" for i n :: "64 word"
proof -
  assume "n + 1 \<noteq> 0"
  then have n: "unat (n + 1) = Suc (unat n)" using unatSuc [of n] by (simp add: add.commute)
  show "n < n + 1" using n by (simp add: word_less_nat_alt)
  show "i < n \<Longrightarrow> i < n + 1" using n by (simp add: word_less_nat_alt)
qed

lemma local_initialSetup: "pr_context p = Some k \<Longrightarrow> local_act k (initialSetup env p)"
  unfolding initialSetup_def by (intro local_intros local_send local_ask_from_top)

lemma on_success_inv:
  assumes "world_inv w" and "k < length (w_conns w)" and "w_links w k = None" and "pm_lastId (w_pm w) + 1 \<noteq> 0"
    and "on_success env rand k w = Some (r, w')"
  shows "world_inv w'"
proof -
  define i where "i = pm_lastId (w_pm w)"
  define w1 where "w1 = w\<lparr>w_pm := set_peer i (pr_context_update (\<lambda>_. Some k)) (snd (newPeer rand (w_pm w))),
    w_links := (w_links w)(k \<mapsto> i)\<rparr>"
  have names: "map pr_name (pm_peers (w_pm w1)) = map pr_name (pm_peers (w_pm w)) @ [(i, Some k)]"
    using new_peer_names [OF assms(1)] by (simp add: w1_def i_def)
  have last: "pm_lastId (w_pm w1) = i + 1" by (simp add: w1_def i_def set_peer_def newPeer_def Let_def)
  have old: "\<And>j. j \<in> ran (w_links w) \<Longrightarrow> j < i" "inj_on (w_links w) (dom (w_links w))"
    using assms(1) by (simp_all add: world_inv_def i_def)
  have fresh: "i \<notin> ran (w_links w)" using old(1) by blast
  define ns where "ns = map pr_name (pm_peers (w_pm w))"
  have ok: "names_ok ns (length (w_conns w)) (w_links w) i"
    using assms(1) by (simp add: world_inv_names ns_def i_def)
  have ids: "fst n \<in> ran (w_links w)" if "n \<in> set ns" for n
    using that ok unfolding names_ok_def by (blast intro: ranI)
  have "distinct (map fst (ns @ [(i, Some k)]))"
    using ok ids fresh by (auto simp: names_ok_def)
  moreover have "\<exists>j < length (w_conns w1). snd n = Some j \<and> w_links w1 j = Some (fst n)"
    if "n \<in> set (ns @ [(i, Some k)])" for n
  proof (cases "n = (i, Some k)")
    case True
    then show ?thesis using assms(2) by (simp add: w1_def)
  next
    case False
    then have "n \<in> set ns" using that by simp
    then obtain j where "j < length (w_conns w)" "snd n = Some j" "w_links w j = Some (fst n)"
      using ok unfolding names_ok_def by blast
    then show ?thesis using assms(3) by (intro exI [of _ j]) (auto simp: w1_def)
  qed
  moreover have "inj_on (w_links w1) (dom (w_links w1))"
    using old(2) fresh assms(3) by (auto simp: w1_def inj_on_def ranI dom_def)
  moreover have "j < pm_lastId (w_pm w1)" if "j \<in> ran (w_links w1)" for j
    using that old(1) assms(4) word_less_Suc(1) [of j i] word_less_Suc(2) [of i]
    unfolding last i_def [symmetric] by (auto simp: w1_def ran_def split: if_splits)
  ultimately have inv: "world_inv w1" unfolding world_inv_names names ns_def [symmetric] names_ok_def by blast
  have "initialSetup env ((Peer_new i rand)\<lparr>pr_context := Some k\<rparr>) w1 = Some (r, w')"
    using assms(5) by (simp add: on_success_def on_pm_def modify_peer_def newPeer_def Let_def i_def w1_def abind_def)
  then show ?thesis by (rule local_act_inv [OF inv local_initialSetup, rotated]) simp
qed

lemma world_run_inv: "world_run env w \<Longrightarrow> world_inv w"
proof (induction rule: world_run.induct)
  case (world_start w)
  then show ?case by (simp add: world_inv_def PeerManager_new_def)
next
  case (world_connects w k rand r w')
  then show ?case using on_success_inv by blast
next
  case (world_handles w k msg r w')
  then show ?case using handler_local local_step_inv by blast
next
  case (world_pings w rand i r w')
  then show ?case using ping_timer_local local_step_inv by blast
next
  case (world_announces_tx w tx r w')
  then show ?case using announce_local(1) local_act_inv by blast
next
  case (world_announces_block w b r w')
  then show ?case using announce_local(2) local_act_inv by blast
next
  case (world_sends_inv w i r w')
  then show ?case using announce_timer_local local_step_inv by blast
next
  case (world_task w t r w')
  then show ?case using run_task_local local_step_inv by blast
qed


section \<open>What is written\<close>

text \<open>
  The messages \<open>ms\<close>, each behind a header that names its command and its length, have been written on
  connection \<open>k\<close>, and nothing else has changed.
\<close>

definition sent :: "message list \<Rightarrow> nat \<Rightarrow> world \<Rightarrow> world \<Rightarrow> bool" where
  "sent ms k w w' \<longleftrightarrow>
     (\<exists>fs. list_all2 framed ms fs \<and> w' = w\<lparr>w_conns := (w_conns w)[k := writes (concat fs) (w_conns w ! k)]\<rparr>)"

definition speaks :: "nat \<Rightarrow> world \<Rightarrow> bool" where
  "speaks k w \<longleftrightarrow> k < length (w_conns w) \<and>
     (\<exists>context. cn_context (w_conns w ! k) = Some context \<and> mc_established context)"

definition sendable :: "message \<Rightarrow> bool" where
  "sendable m \<longleftrightarrow> (\<exists>bs. ser_Message m = Inr bs \<and> length bs < 2 ^ 32)"

text \<open>Messages are hashed with SHA-256, over buffers of the right length.\<close>

definition sha_env :: "(CSHA256, 'h) hashers \<Rightarrow> bool" where
  "sha_env env \<longleftrightarrow> (\<exists>junk. length junk = 64 \<and> msg_hash env = CSHA256 junk) \<and> length (hash_junk env) = 64"

lemma sent_Nil: "sent [] k w w"
  by (simp add: sent_def)

lemma sent_append:
  assumes "sent ms k w w'" and "sent ms' k w' w''" and "k < length (w_conns w)"
  shows "sent (ms @ ms') k w w''"
proof -
  obtain fs gs where "list_all2 framed ms fs" "w' = w\<lparr>w_conns := (w_conns w)[k := writes (concat fs) (w_conns w ! k)]\<rparr>"
    "list_all2 framed ms' gs" "w'' = w'\<lparr>w_conns := (w_conns w')[k := writes (concat gs) (w_conns w' ! k)]\<rparr>"
    using assms(1,2) by (auto simp: sent_def)
  then show ?thesis
    using assms(3) by (auto simp: sent_def writes_append intro!: exI [of _ "fs @ gs"] list_all2_appendI)
qed

lemma speaks_sent: "sent ms k w w' \<Longrightarrow> speaks k w' \<longleftrightarrow> speaks k w"
  by (cases "k < length (w_conns w)") (auto simp: sent_def speaks_def writes_def)

lemma sent_fields:
  "sent ms k w w' \<Longrightarrow> w_pm w' = w_pm w \<and> w_chain w' = w_chain w \<and> w_book w' = w_book w \<and> w_links w' = w_links w \<and>
    w_tasks w' = w_tasks w \<and> length (w_conns w') = length (w_conns w)"
  by (auto simp: sent_def)

lemma send_sent:
  assumes "sha_env env" and "pr_context p = Some k" and "speaks k w" and "sendable m"
  shows "\<exists>w'. send env m p w = Some (Inr (), w') \<and> sent [m] k w w'"
proof -
  obtain junk bs where env: "length junk = 64" "msg_hash env = CSHA256 junk" "length (hash_junk env) = 64"
    and bs: "ser_Message m = Inr bs" "length bs < 2 ^ 32"
    using assms(1,4) by (auto simp: sha_env_def sendable_def)
  obtain f where f: "frame_of (msg_hash env) (hash_junk env) m = Inr f" "framed m f"
    using frame_sha [OF env(1,3) bs] env(2) by auto
  then have "send env m p w = Some (Inr (), w\<lparr>w_conns := (w_conns w)[k := writes f (w_conns w ! k)]\<rparr>)"
    using assms(2,3) by (auto simp: send_def send_frame_def speaks_def)
  then show ?thesis using f(2) by (auto simp: sent_def intro!: exI [of _ "[f]"])
qed

text \<open>\<open>m\<close> returns, and what it does is that the messages \<open>ms\<close> are sent.\<close>

definition sends :: "message list \<Rightarrow> nat \<Rightarrow> unit act \<Rightarrow> world \<Rightarrow> bool" where
  "sends ms k m w \<longleftrightarrow> (\<exists>w'. m w = Some (Inr (), w') \<and> sent ms k w w')"

lemma sends_return: "sends [] k (areturn ()) w"
  by (simp add: sends_def sent_Nil)

lemma sends_send:
  "sha_env env \<Longrightarrow> pr_context p = Some k \<Longrightarrow> speaks k w \<Longrightarrow> sendable m \<Longrightarrow> sends [m] k (send env m p) w"
  using send_sent by (auto simp: sends_def)

lemma sends_abind:
  assumes "sends ms k m w" and "speaks k w" and "\<And>w'. sent ms k w w' \<Longrightarrow> speaks k w' \<Longrightarrow> sends ms' k (f ()) w'"
  shows "sends (ms @ ms') k (abind m f) w"
proof -
  obtain w' where w': "m w = Some (Inr (), w')" "sent ms k w w'" using assms(1) by (auto simp: sends_def)
  obtain w'' where "f () w' = Some (Inr (), w'')" "sent ms' k w' w''"
    using assms(3) [OF w'(2)] speaks_sent [OF w'(2)] assms(2) by (auto simp: sends_def)
  then show ?thesis using w' sent_append assms(2) by (auto simp: sends_def speaks_def)
qed

lemma sends_all:
  assumes "sha_env env" and "pr_context p = Some k" and "speaks k w" and "\<forall>m \<in> set ms. sendable m"
  shows "sends ms k (send_all env ms p) w"
  using assms(3,4)
proof (induction ms arbitrary: w)
  case Nil
  show ?case unfolding send_all.simps by (rule sends_return)
next
  case (Cons m ms)
  have "sends ([m] @ ms) k (abind (send env m p) (\<lambda>_. send_all env ms p)) w"
    using Cons assms(1,2) by (intro sends_abind sends_send) auto
  then show ?case by simp
qed

text \<open>What the handler does with a message that its peer answers.\<close>

definition talks_to :: "world \<Rightarrow> nat \<Rightarrow> peer \<Rightarrow> bool" where
  "talks_to w k p \<longleftrightarrow>
     w_links w k = Some (pr_id p) \<and> find_peer (pr_id p) (w_pm w) = Some p \<and> pr_context p = Some k \<and> speaks k w"

lemma handler_sends:
  assumes "talks_to w k p" and "sends ms k (apply_message env msg p) w"
  shows "sends ms k (protocol_handler env k msg) w"
  using assms by (auto simp: sends_def talks_to_def protocol_handler_def)

lemma sent_outputs:
  assumes "sent ms k w w'" and "k < length (w_conns w)"
  shows "\<exists>fs. list_all2 framed ms fs \<and> cn_out (w_conns w' ! k) = cn_out (w_conns w ! k) @ concat fs"
  using assms by (auto simp: sent_def writes_def)

lemma length_inventory: "\<forall>x \<in> set xs. iv_ok x \<Longrightarrow> length (ser_list ser_InventoryVector xs) = 36 * length xs"
  by (induction xs) (auto simp: ser_list_def ser_InventoryVector_def iv_ok_def ser_bytes_def)

lemma length_ser_varint: "length (ser_varint v) \<le> 9"
  by (simp add: ser_varint_def)

lemma inventory_sendable:
  assumes "\<forall>x \<in> set xs. iv_ok x" and "length xs \<le> 100000000"
  shows "sendable (Inv xs)" "sendable (GetData xs)" "sendable (NotFound xs)"
proof -
  have "length (ser_sized ser_InventoryVector xs) \<le> 9 + 36 * length xs"
    using length_ser_varint [of "word_of_nat (length xs)"] length_inventory [OF assms(1)] by (simp add: ser_sized_def)
  then have "length (ser_sized ser_InventoryVector xs) < 2 ^ 32" using assms(2) by simp
  then show "sendable (Inv xs)" "sendable (GetData xs)" "sendable (NotFound xs)" by (simp_all add: sendable_def)
qed

lemma small_sendable [simp]:
  "sendable (Ping n)" "sendable (Pong n)" "sendable (FeeFilter fee)" "sendable (SendCmpct a v)" "sendable GetAddr"
  "sendable SendHeaders" "sendable (Block None)"
  by (simp_all add: sendable_def)

text \<open>The messages of \<open>initialSetup\<close> while the block chain is empty.\<close>

definition setup_messages :: "blob \<Rightarrow> 64 word \<Rightarrow> message list" where
  "setup_messages genesis nonce =
     [SendHeaders, SendCmpct 0 1, Ping nonce, GetData [\<lparr>iv_type = MSG_BLOCK, iv_hash = genesis\<rparr>], FeeFilter 1000, GetAddr]"

lemma sends_Cons: "sends [m] k a w \<Longrightarrow> speaks k w \<Longrightarrow>
    (\<And>w'. sent [m] k w w' \<Longrightarrow> speaks k w' \<Longrightarrow> sends ms k (f ()) w') \<Longrightarrow> sends (m # ms) k (abind a f) w"
  using sends_abind [of "[m]" k a w ms f] by simp

lemma initialSetup_sends:
  assumes "sha_env env" and "pr_context p = Some k" and "speaks k w" and "cs_mainChain (w_chain w) = []"
    and "length (cs_genesis (w_chain w)) = 32"
  shows "sends (setup_messages (cs_genesis (w_chain w)) (pr_pingNonce p)) k (initialSetup env p) w"
proof -
  have s: "sends [m] k (send env m p) w'" if "speaks k w'" "sendable m" for m w'
    using sends_send [OF assms(1,2) that] .
  have g: "sendable (GetData [\<lparr>iv_type = MSG_BLOCK, iv_hash = cs_genesis (w_chain w)\<rparr>])"
    using assms(5) by (intro inventory_sendable) (simp_all add: iv_ok_def)
  have data: "sends [GetData [\<lparr>iv_type = MSG_BLOCK, iv_hash = cs_genesis (w_chain w)\<rparr>], FeeFilter 1000, GetAddr] k
     (abind (asks (\<lambda>w. Inr (w_chain w))) (\<lambda>s.
     abind (if getHeight s \<noteq> 0 then ask_from_top env p
            else send env (GetData [\<lparr>iv_type = MSG_BLOCK, iv_hash = cs_genesis s\<rparr>]) p) (\<lambda>_.
     abind (send env (FeeFilter 1000) p) (\<lambda>_. send env GetAddr p)))) w'"
    if "speaks k w'" "w_chain w' = w_chain w" for w'
  proof -
    have "sends [GetData [\<lparr>iv_type = MSG_BLOCK, iv_hash = cs_genesis (w_chain w)\<rparr>], FeeFilter 1000, GetAddr] k
      (abind (send env (GetData [\<lparr>iv_type = MSG_BLOCK, iv_hash = cs_genesis (w_chain w)\<rparr>]) p) (\<lambda>_.
       abind (send env (FeeFilter 1000) p) (\<lambda>_. send env GetAddr p))) w'"
      using that(1) g by (intro sends_Cons s) simp_all
    then show ?thesis using that(2) assms(4) by (simp add: sends_def asks_def getHeight_def)
  qed
  show ?thesis unfolding initialSetup_def setup_messages_def
  proof (intro sends_Cons s assms(3))
    fix w1 w2 w3
    assume "sent [SendHeaders] k w w1" "sent [SendCmpct 0 1] k w1 w2" "sent [Ping (pr_pingNonce p)] k w2 w3" "speaks k w3"
    then show "sends [GetData [\<lparr>iv_type = MSG_BLOCK, iv_hash = cs_genesis (w_chain w)\<rparr>], FeeFilter 1000, GetAddr] k
     (abind (asks (\<lambda>w. Inr (w_chain w))) (\<lambda>s.
     abind (if getHeight s \<noteq> 0 then ask_from_top env p
            else send env (GetData [\<lparr>iv_type = MSG_BLOCK, iv_hash = cs_genesis s\<rparr>]) p) (\<lambda>_.
     abind (send env (FeeFilter 1000) p) (\<lambda>_. send env GetAddr p)))) w3"
      by (intro data) (auto dest!: sent_fields)
  qed simp_all
qed

text \<open>The state in which \<open>on_success\<close> starts the setup.\<close>

definition joined :: "64 word \<Rightarrow> nat \<Rightarrow> world \<Rightarrow> world" where
  "joined rand k w =
     (let i = pm_lastId (w_pm w)
      in w\<lparr>w_pm := set_peer i (pr_context_update (\<lambda>_. Some k)) (snd (newPeer rand (w_pm w))), w_links := (w_links w)(k \<mapsto> i)\<rparr>)"

lemma on_success_joined:
  "on_success env rand k w = initialSetup env ((Peer_new (pm_lastId (w_pm w)) rand)\<lparr>pr_context := Some k\<rparr>) (joined rand k w)"
  by (simp add: on_success_def on_pm_def modify_peer_def newPeer_def Let_def joined_def abind_def)

lemma joined_fields [simp]:
  "w_conns (joined rand k w) = w_conns w" "w_chain (joined rand k w) = w_chain w" "speaks k (joined rand k w) = speaks k w"
  by (simp_all add: joined_def Let_def speaks_def)

lemma on_success_sends:
  assumes "sha_env env" and "speaks k w" and "cs_mainChain (w_chain w) = []" and "length (cs_genesis (w_chain w)) = 32"
  shows "\<exists>w'. on_success env rand k w = Some (Inr (), w') \<and>
    sent (setup_messages (cs_genesis (w_chain w)) rand) k (joined rand k w) w'"
  using initialSetup_sends [of env "(Peer_new (pm_lastId (w_pm w)) rand)\<lparr>pr_context := Some k\<rparr>" k "joined rand k w"] assms
  by (simp add: on_success_joined sends_def Peer_new_def)

lemma talks_to_sent: "talks_to w k p \<Longrightarrow> sent ms k w w' \<Longrightarrow> talks_to w' k p"
  using sent_fields [of ms k w w'] speaks_sent [of ms k w w'] by (simp add: talks_to_def)

end
