(* ===== verification/PeerProps.thy ===== *)
theory PeerProps
  imports PeerFacts StoreProps
begin

text \<open>
  The properties of the peers of a node, of the messages they exchange and of the book of addresses.
\<close>

section \<open>A sample world\<close>

definition sample_hashers :: "(CSHA256, CSHA256) hashers" where
  "sample_hashers = \<lparr>msg_hash = sha, chain_hash = sha, hash_junk = zeros\<rparr>"

lemma sample_sha: "sha_env sample_hashers"
  unfolding sha_env_def sample_hashers_def by (auto intro!: exI [of _ zeros])

definition sample_peer :: peer where
  "sample_peer = (Peer_new 0 7)\<lparr>pr_context := Some 0\<rparr>"

text \<open>Two connections; one peer, on the first of them.\<close>

definition sample_world :: "chain_state \<Rightarrow> world" where
  "sample_world s =
     \<lparr>w_chain = s, w_book = AddressManager_new, w_pm = \<lparr>pm_lastId = 1, pm_peers = [sample_peer], pm_ids = [0]\<rparr>,
      w_conns = [talking_connection, talking_connection], w_links = [0 \<mapsto> 0], w_tasks = []\<rparr>"

definition idle_world :: "chain_state \<Rightarrow> world" where
  "idle_world s =
     \<lparr>w_chain = s, w_book = AddressManager_new, w_pm = PeerManager_new,
      w_conns = [talking_connection, talking_connection], w_links = Map.empty, w_tasks = []\<rparr>"

lemma talking_established: "cn_context talking_connection = Some \<lparr>mc_established = True, mc_local = None, mc_remote = None\<rparr>"
  by (simp add: talking_connection_def)

lemma sample_talks: "talks_to (sample_world s) 0 sample_peer"
  by (simp add: talks_to_def sample_world_def sample_peer_def Peer_new_def find_peer_def speaks_def talking_established)

lemma sample_chain [simp]: "w_chain (sample_world s) = s"
  by (simp add: sample_world_def)

section \<open>Conversations\<close>

text \<open>C32: In every run, handling a message of one connection writes on that connection only and takes
  back nothing, and every peer that is left has a connection of its own that leads back to it.\<close>

theorem conversations_separate:
  assumes "world_run env w" and "protocol_handler env k msg w = Some (r, w')"
  shows "(\<forall>j. j \<noteq> k \<longrightarrow> w_conns w' ! j = w_conns w ! j) \<and>
    (\<exists>bs. w_conns w' ! k = writes bs (w_conns w ! k)) \<and>
    distinct (map pr_id (pm_peers (w_pm w'))) \<and>
    (\<forall>p \<in> set (pm_peers (w_pm w')). \<exists>j < length (w_conns w'). pr_context p = Some j \<and> w_links w' j = Some (pr_id p))"
  using handler_local [OF world_run_inv [OF assms(1)] assms(2)] world_run_inv [OF world_handles [OF assms]]
  unfolding local_step_def world_inv_def by blast

lemma sample_running: "\<exists>w. world_run sample_hashers w \<and> talks_to w 0 sample_peer \<and> length (w_conns w) = 2"
proof -
  let ?w0 = "idle_world (chain_init (key 9))"
  have run: "world_run sample_hashers ?w0" by (rule world_start) (simp_all add: idle_world_def)
  have speaks: "speaks 0 ?w0" by (simp add: speaks_def idle_world_def talking_established)
  obtain w where w: "on_success sample_hashers 7 0 ?w0 = Some (Inr (), w)"
    "sent (setup_messages (key 9) 7) 0 (joined 7 0 ?w0) w"
    using on_success_sends [OF sample_sha speaks] by (auto simp: idle_world_def chain_init_def)
  have "talks_to (joined 7 0 ?w0) 0 sample_peer"
    by (simp add: talks_to_def speaks joined_def)
      (simp add: idle_world_def newPeer_def set_peer_def PeerManager_new_def sample_peer_def Peer_new_def find_peer_def
        speaks_def talking_established)
  then have "talks_to w 0 sample_peer" by (rule talks_to_sent [OF _ w(2)])
  moreover have "world_run sample_hashers w"
    by (rule world_connects [OF run _ _ _ w(1)]) (simp_all add: idle_world_def PeerManager_new_def)
  moreover have "length (w_conns w) = 2" using sent_fields [OF w(2)] by (simp add: idle_world_def)
  ultimately show ?thesis by blast
qed

theorem conversations_separate_witness:
  "\<exists>w w'. protocol_handler sample_hashers 0 (Ping 5) w = Some (Inr (), w') \<and> w_conns w' ! 1 = w_conns w ! 1 \<and>
    distinct (map pr_id (pm_peers (w_pm w')))"
proof -
  obtain w where w: "world_run sample_hashers w" "talks_to w 0 sample_peer" using sample_running by blast
  have "sends [Pong 5] 0 (protocol_handler sample_hashers 0 (Ping 5)) w"
    using w(2) by (intro handler_sends [OF w(2)]) (auto simp: apply_Ping_def ping_def talks_to_def intro!: sends_send [OF sample_sha])
  then obtain w' where "protocol_handler sample_hashers 0 (Ping 5) w = Some (Inr (), w')" by (auto simp: sends_def)
  then show ?thesis using conversations_separate [OF w(1), of 0 "Ping 5" "Inr ()" w'] by (intro exI [of _ w] exI [of _ w']) simp
qed

text \<open>C33: A \<open>pong\<close> with a nonce that is not the expected one makes the node let the peer go, but not its
  connection: whatever message comes next on it ends the program.\<close>

theorem wrong_pong_aborts:
  assumes "w_links w k = Some i" and "find_peer i (w_pm w) = Some p" and "nonce \<noteq> pr_pingNonce p"
  shows "\<exists>w'. protocol_handler env k (Pong nonce) w = Some (Inr (), w') \<and> w_conns w' = w_conns w \<and>
    (\<forall>msg. protocol_handler env k msg w' = Some (Inl Abort, w'))"
proof -
  have i: "pr_id p = i" using find_peer_Some [OF assms(2)] by simp
  let ?w = "w\<lparr>w_pm := closePeer i (w_pm w)\<rparr>"
  have gone: "find_peer i (w_pm ?w) = None" by (simp add: find_peer_def closePeer_def find_None_iff)
  have "protocol_handler env k (Pong nonce) w = Some (Inr (), ?w)"
    using assms i by (simp add: protocol_handler_def apply_Pong_def pong_def close_def on_pm_def)
  moreover have "protocol_handler env k msg ?w = Some (Inl Abort, ?w)" for msg
    using assms(1) gone by (simp add: protocol_handler_def)
  ultimately show ?thesis by (intro exI [of _ ?w]) simp
qed

theorem wrong_pong_aborts_witness:
  "\<exists>w'. protocol_handler sample_hashers 0 (Pong 8) (sample_world chain2) = Some (Inr (), w') \<and>
    w_conns w' = w_conns (sample_world chain2) \<and> (\<forall>msg. protocol_handler sample_hashers 0 msg w' = Some (Inl Abort, w'))"
  using sample_talks [of chain2] unfolding talks_to_def
  by (intro wrong_pong_aborts [where i = 0 and p = sample_peer]) (simp_all add: sample_peer_def Peer_new_def)

section \<open>Requests\<close>

text \<open>Where a request for blocks starts: the first hash of the locator whose block is connected (its height is known) gives
  a height, and the main chain's block of this height is the start.\<close>

definition known_height :: "chain_state \<Rightarrow> blob \<Rightarrow> nat option" where
  "known_height s hash =
     (case getBlockHeader hash s of None \<Rightarrow> None
      | Some p \<Rightarrow> if inChain (hdr s p) then Some (unat (bh_height (hdr s p))) else None)"

fun start_hash :: "chain_state \<Rightarrow> blob list \<Rightarrow> blob option" where
  "start_hash s [] = None"
| "start_hash s (hash # locator) =
     (case known_height s hash of
        None \<Rightarrow> start_hash s locator
      | Some k \<Rightarrow> Some (bh_hash (hdr s (cs_mainChain s ! k))))"

lemma getBlockHash_located:
  assumes "store_ok s"
  shows "getBlockHash (locate s locator (- 1)) s = Inr (case start_hash s locator of None \<Rightarrow> blob_null 32 | Some hash \<Rightarrow> hash)"
proof (induction locator)
  case Nil
  have "length (cs_mainChain s) \<le> count s" "count s < 2 ^ 64 - 1"
    using assms branch_length [of s 0 "cs_mainChain s"] by (simp_all add: store_ok_def registered_def)
  then have "length (cs_mainChain s) \<le> unat (- 1 :: 64 word)" by (simp add: unat_minus_1)
  then show ?case by (simp add: getBlockHash_def)
next
  case (Cons hash locator)
  show ?case
  proof (cases "known_height s hash")
    case None
    then have "locate s (hash # locator) (- 1) = locate s locator (- 1)"
      by (auto simp: known_height_def inChain_def split: option.splits if_splits)
    then show ?thesis using Cons.IH None by simp
  next
    case (Some k)
    then obtain p where p: "getBlockHeader hash s = Some p" "inChain (hdr s p)" "k = ht s p"
      by (auto simp: known_height_def ht_def split: option.splits if_splits)
    then have "p < count s" by (auto simp: getBlockHeader_def getBlockHeader_id_def split: option.splits if_splits)
    then have k: "k < length (cs_mainChain s)" using assms p by (simp add: store_ok_def)
    have "locate s (hash # locator) (- 1) = word_of_nat k" using p by (auto simp: inChain_def ht_def)
    then show ?thesis using getBlockHash_main [OF assms k] Some by simp
  qed
qed

lemma blocks_repeat:
  assumes "store_ok s"
  shows "getBlocks locator stop s =
    Inr (case start_hash s locator of
        None \<Rightarrow> []
      | Some hash \<Rightarrow> if isNull hash \<or> hash = stop then [] else replicate 1001 None)"
  using getBlockHash_located [OF assms, of locator]
  by (auto simp: getBlocks_def getBlock_def collect_eq Let_def isNull_def blob_null_def split: option.split)

text \<open>C34: A request for data is not served but asked back: the node answers \<open>getdata\<close> as it answers
  \<open>inv\<close>, with a \<open>getdata\<close> of exactly those items that it does not have, if there is one.\<close>

theorem getdata_asks_back:
  assumes "sha_env env" and "talks_to w k p" and "\<forall>x \<in> set list. length (iv_hash x) = 32" and "length list \<le> MAX_INV_COUNT"
    and "unknown = filter (\<lambda>x. iv_type x = MSG_TX \<and> \<not> hasTx (iv_hash x) (w_chain w) \<or>
           iv_type x \<in> {MSG_BLOCK, MSG_FILTERED_BLOCK, MSG_CMPCT_BLOCK} \<and> \<not> hasBlock (iv_hash x) (w_chain w)) list"
  shows "sends (if unknown = [] then [] else [GetData unknown]) k (protocol_handler env k (GetData list)) w \<and>
    protocol_handler env k (GetData list) w = protocol_handler env k (Inv list) w"
proof -
  have u: "filterKnownInventory list (w_chain w) = unknown"
    unfolding filterKnownInventory_def assms(5)
    by (intro filter_cong) (auto simp: known_item_def MSG_TX_def MSG_BLOCK_def MSG_FILTERED_BLOCK_def MSG_CMPCT_BLOCK_def)
  have len: "length unknown \<le> 50000" using assms(4,5) by (auto simp: MAX_INV_COUNT_def intro: order_trans [OF length_filter_le])
  have "sendable (GetData unknown)"
    using assms(3,5) len by (intro inventory_sendable) (auto simp: iv_ok_def)
  then have "sends [GetData unknown] k (send env (GetData unknown) p) w"
    using assms(1,2) by (intro sends_send) (auto simp: talks_to_def)
  then have "sends (if unknown = [] then [] else [GetData unknown]) k (AskInventory env list p) w"
    using u by (auto simp: sends_def AskInventory_def sent_Nil filterKnownInventory_def)
  then have "sends (if unknown = [] then [] else [GetData unknown]) k (protocol_handler env k (GetData list)) w"
    by (intro handler_sends [OF assms(2)]) (simp add: apply_GetData_def)
  moreover have "protocol_handler env k (GetData list) w = protocol_handler env k (Inv list) w"
    by (simp add: protocol_handler_def apply_GetData_def apply_Inv_def split: option.split)
  ultimately show ?thesis by blast
qed

theorem getdata_asks_back_witness:
  "sends [GetData [\<lparr>iv_type = MSG_TX, iv_hash = key 3\<rparr>]] 0
     (protocol_handler sample_hashers 0 (GetData [\<lparr>iv_type = MSG_BLOCK, iv_hash = key 1\<rparr>, \<lparr>iv_type = MSG_TX, iv_hash = key 3\<rparr>]))
     (sample_world chain2)"
proof -
  have known: "hasBlock (key 1) chain2" "\<not> hasTx (key 3) chain2"
    by (simp_all add: hasTx_def hasBlock_def getBlockHeader_def getBlockHeader_id_def chain2_def hdr_def inChain_def
        small_stored_def chain_init_def)
  show ?thesis
    using getdata_asks_back [where list = "[\<lparr>iv_type = MSG_BLOCK, iv_hash = key 1\<rparr>, \<lparr>iv_type = MSG_TX, iv_hash = key 3\<rparr>]"
        and unknown = "[\<lparr>iv_type = MSG_TX, iv_hash = key 3\<rparr>]", OF sample_sha sample_talks [of chain2]] known
    by (simp add: MAX_INV_COUNT_def MSG_TX_def MSG_BLOCK_def MSG_FILTERED_BLOCK_def MSG_CMPCT_BLOCK_def)
qed

text \<open>C35: A request for blocks is answered from one block only: the main chain's block at the height of the first
  connected block in the locator. If there is none, or it is the block to stop at (or has the null hash),
  nothing is sent; otherwise 1001 \<open>block\<close> messages that hold no block at all, however long the chain is.\<close>

theorem getblocks_answer:
  assumes "sha_env env" and "talks_to w k p" and "chain_steps ops junk (chain_init genesis) (w_chain w)"
  shows "sends
    (case start_hash (w_chain w) locator of
       None \<Rightarrow> []
     | Some hash \<Rightarrow> if isNull hash \<or> hash = stop then [] else replicate 1001 (Block None))
    k (protocol_handler env k (GetBlocks version locator stop)) w"
proof -
  let ?ms = "case start_hash (w_chain w) locator of None \<Rightarrow> []
     | Some hash \<Rightarrow> if isNull hash \<or> hash = stop then [] else replicate 1001 (Block None)"
  have "store_ok (w_chain w)" using chain_steps_ok [OF assms(3)] store_ok_init by blast
  then have "SendBlocks env locator stop p w = send_all env ?ms p w"
    by (auto simp: SendBlocks_def asks_def abind_def blocks_repeat split: option.split)
  moreover have "sends ?ms k (send_all env ?ms p) w"
    using assms(1,2) by (intro sends_all) (auto simp: talks_to_def split: option.splits if_splits)
  ultimately show ?thesis by (intro handler_sends [OF assms(2)]) (simp add: apply_GetBlocks_def sends_def)
qed

theorem getblocks_answer_witness:
  "sends (replicate 1001 (Block None)) 0 (protocol_handler sample_hashers 0 (GetBlocks 80000 [key 7, key 1] (key 9))) (sample_world chain2)
   \<and> sends [] 0 (protocol_handler sample_hashers 0 (GetBlocks 80000 [key 2, key 1] (key 2))) (sample_world chain2)
   \<and> sends [] 0 (protocol_handler sample_hashers 0 (GetBlocks 80000 [key 7] (key 9))) (sample_world chain2)"
proof -
  have "start_hash chain2 [key 7, key 1] = Some (key 1)" "start_hash chain2 [key 2, key 1] = Some (key 2)" "start_hash chain2 [key 7] = None"
    by (simp_all add: known_height_def getBlockHeader_def getBlockHeader_id_def chain2_def hdr_def inChain_def)
  moreover have "chain_steps sha zeros chain0 (w_chain (sample_world chain2))" by (simp add: chain2_reached(1))
  note getblocks_answer [OF sample_sha sample_talks this, where locator = "[key 7, key 1]" and stop = "key 9" and version = 80000]
    getblocks_answer [OF sample_sha sample_talks this, where locator = "[key 2, key 1]" and stop = "key 2" and version = 80000]
    getblocks_answer [OF sample_sha sample_talks this, where locator = "[key 7]" and stop = "key 9" and version = 80000]
  ultimately show ?thesis by (simp add: isNull_def)
qed

section \<open>Announcements\<close>

text \<open>The messages of the timer's loop.\<close>

lemma inv_messages_rest:
  "m \<le> k \<Longrightarrow> n = k + length items \<Longrightarrow> inv_messages m n k inventory items = (if items = [] then [] else [Inv (inventory @ items)])"
proof (induction items arbitrary: k inventory)
  case Nil
  then show ?case by simp
next
  case (Cons x items)
  then show ?case using Cons.IH [of "k + 1" "inventory @ [x]"] by (cases "items = []") simp_all
qed

lemma inv_messages_chunks:
  "k < m \<Longrightarrow> n = k + length items \<Longrightarrow>
    inv_messages m n k inventory items =
      (if items = [] then []
       else if n \<le> m then [Inv (inventory @ items)]
       else [Inv (inventory @ take (m - k) items), Inv (drop (m - k) items)])"
proof (induction items arbitrary: k inventory)
  case Nil
  then show ?case by simp
next
  case (Cons x items)
  show ?case
  proof (cases "k + 1 = m")
    case True
    then show ?thesis using Cons.prems inv_messages_rest [of m "k + 1" n items "[]"] by (auto simp: take_Cons' drop_Cons')
  next
    case False
    then have "k + 1 < m" using Cons.prems(1) by simp
    note IH = Cons.IH [OF this, of "inventory @ [x]"]
    have "m - k = Suc (m - (k + 1))" using Cons.prems(1) by simp
    then show ?thesis using IH False Cons.prems by (cases items) auto
  qed
qed

text \<open>C36: The timer announces every item that has been collected, once, and the collection is empty
  afterwards. It makes at most two messages: all that follow the first 50000 items go into the second,
  which breaks the limit of a message as soon as there are more than 100000.\<close>

theorem announcement_chunks:
  assumes "sha_env env" and "talks_to w k p" and "items = pr_announce p" and "\<forall>x \<in> set items. length (iv_hash x) = 32"
    and "length items \<le> 100000000"
    and "ms = (if items = [] then [] else if length items \<le> 50000 then [Inv items] else [Inv (take 50000 items), Inv (drop 50000 items)])"
  shows "\<exists>w' w''. sent ms k w w' \<and> announce_timer env (pr_id p) w = Some (Inr (), w'') \<and>
    w'' = w'\<lparr>w_pm := set_peer (pr_id p) (pr_announce_update (\<lambda>_. [])) (w_pm w)\<rparr>"
proof -
  have ms: "inv_messages MAX_INV_COUNT (length items) 0 [] items = ms"
    using inv_messages_chunks [of 0 MAX_INV_COUNT "length items" items "[]"] assms(6) by (simp add: MAX_INV_COUNT_def)
  have "\<forall>m \<in> set ms. sendable m"
    using assms(4,5) unfolding assms(6)
    by (auto intro!: inventory_sendable simp: iv_ok_def dest: in_set_takeD in_set_dropD)
  then have "sends ms k (send_all env ms p) w"
    using assms(2) by (intro sends_all [OF assms(1)]) (auto simp: talks_to_def)
  then obtain w' where w': "send_all env ms p w = Some (Inr (), w')" "sent ms k w w'" by (auto simp: sends_def)
  have "announce_timer env (pr_id p) w = Some (Inr (), w'\<lparr>w_pm := set_peer (pr_id p) (pr_announce_update (\<lambda>_. [])) (w_pm w)\<rparr>)"
    using assms(2,3) ms w'(1) sent_fields [OF w'(2)]
    by (simp add: announce_timer_def talks_to_def modify_peer_def on_pm_def)
  then show ?thesis using w'(2) by blast
qed

theorem announcement_chunks_witness:
  "\<exists>w w' w''. sent [Inv [\<lparr>iv_type = MSG_TX, iv_hash = key 3\<rparr>]] 0 w w' \<and> announce_timer sample_hashers 0 w = Some (Inr (), w'') \<and>
    map pr_announce (pm_peers (w_pm w'')) = [[]]"
proof -
  let ?p = "SendInventory \<lparr>iv_type = MSG_TX, iv_hash = key 3\<rparr> sample_peer"
  let ?w = "(sample_world chain2)\<lparr>w_pm := \<lparr>pm_lastId = 1, pm_peers = [?p], pm_ids = [0]\<rparr>\<rparr>"
  have p: "pr_id ?p = 0" "pr_announce ?p = [\<lparr>iv_type = MSG_TX, iv_hash = key 3\<rparr>]"
    by (simp_all add: SendInventory_def sample_peer_def Peer_new_def)
  have t: "talks_to ?w 0 ?p"
    by (simp add: talks_to_def sample_world_def find_peer_def speaks_def talking_established p)
      (simp add: SendInventory_def sample_peer_def Peer_new_def)
  have "\<exists>w' w''. sent [Inv (pr_announce ?p)] 0 ?w w' \<and> announce_timer sample_hashers (pr_id ?p) ?w = Some (Inr (), w'') \<and>
    w'' = w'\<lparr>w_pm := set_peer (pr_id ?p) (pr_announce_update (\<lambda>_. [])) (w_pm ?w)\<rparr>"
    by (rule announcement_chunks [OF sample_sha t refl]) (simp_all add: p)
  then obtain w' w'' where w: "sent [Inv (pr_announce ?p)] 0 ?w w'" "announce_timer sample_hashers (pr_id ?p) ?w = Some (Inr (), w'')"
    "w'' = w'\<lparr>w_pm := set_peer (pr_id ?p) (pr_announce_update (\<lambda>_. [])) (w_pm ?w)\<rparr>"
    by blast
  have "map pr_announce (pm_peers (w_pm w'')) = [[]]" by (simp add: w(3) set_peer_def p)
  then show ?thesis using w(1,2) unfolding p by (intro exI conjI) assumption+
qed

section \<open>Joining\<close>

text \<open>C37: When the handshake has succeeded and the block chain is empty, a peer is made and six messages
  are written; another node of the program that these bytes reach, in whatever pieces, hands on exactly
  these six messages, in this order.\<close>

theorem setup_delivered:
  assumes "sha_env env" and "speaks k w" and "cs_mainChain (w_chain w) = []" and "genesis = cs_genesis (w_chain w)"
    and "length genesis = 32" and "full_factory junk cr" and "1 \<le> n" and "talking c" and "cn_in c = []"
  shows "\<exists>w' bs. on_success env rand k w = Some (Inr (), w') \<and> cn_out (w_conns w' ! k) = cn_out (w_conns w ! k) @ bs \<and>
    (\<forall>ps. ps \<noteq> [] \<longrightarrow> concat ps = bs \<longrightarrow>
       arrive cr n ps c = Inr (c\<lparr>cn_in := [],
         cn_handled := cn_handled c @ [SendHeaders, SendCmpct 0 1, Ping rand,
           GetData [\<lparr>iv_type = MSG_BLOCK, iv_hash = genesis\<rparr>], FeeFilter 1000, GetAddr],
         cn_ttl := 900000\<rparr>))"
proof -
  let ?ms = "setup_messages genesis rand"
  obtain w' where w': "on_success env rand k w = Some (Inr (), w')" "sent ?ms k (joined rand k w) w'"
    using on_success_sends [OF assms(1-3)] assms(4,5) by blast
  then obtain fs where fs: "list_all2 framed ?ms fs" "cn_out (w_conns w' ! k) = cn_out (w_conns w ! k) @ concat fs"
    using sent_outputs [OF w'(2)] assms(2) by (auto simp: speaks_def)
  have ok: "\<forall>m \<in> set ?ms. message_ok n m"
    using assms(5,7) by (simp add: setup_messages_def sized_ok_def iv_ok_def)
  have "arrive cr n ps c = Inr (c\<lparr>cn_in := [], cn_handled := cn_handled c @ ?ms, cn_ttl := 900000\<rparr>)"
    if "ps \<noteq> []" "concat ps = concat fs" for ps
    using arrive_framed [OF full_factory_complete [OF assms(6)] fs(1) ok, of ps "[]" c] that assms(8,9)
    by (simp add: HEADER_SIZE_def)
  then show ?thesis using w'(1) fs(2) unfolding setup_messages_def by blast
qed

theorem setup_delivered_witness:
  "\<exists>cr w' bs. on_success sample_hashers 7 1 (idle_world (chain_init (key 9))) = Some (Inr (), w') \<and>
    arrive cr 10 [bs] talking_connection = Inr (talking_connection\<lparr>cn_in := [],
      cn_handled := [SendHeaders, SendCmpct 0 1, Ping 7, GetData [\<lparr>iv_type = MSG_BLOCK, iv_hash = key 9\<rparr>], FeeFilter 1000, GetAddr],
      cn_ttl := 900000\<rparr>)"
proof -
  obtain cr where cr: "full_factory 0 cr" using a_full_factory by blast
  have "speaks 1 (idle_world (chain_init (key 9)))" by (simp add: speaks_def idle_world_def talking_established)
  then obtain w' bs where w: "on_success sample_hashers 7 1 (idle_world (chain_init (key 9))) = Some (Inr (), w')"
    "\<And>ps. ps \<noteq> [] \<Longrightarrow> concat ps = bs \<Longrightarrow> arrive cr 10 ps talking_connection = Inr (talking_connection\<lparr>cn_in := [],
      cn_handled := cn_handled talking_connection @ [SendHeaders, SendCmpct 0 1, Ping 7,
        GetData [\<lparr>iv_type = MSG_BLOCK, iv_hash = key 9\<rparr>], FeeFilter 1000, GetAddr], cn_ttl := 900000\<rparr>)"
    using setup_delivered [OF sample_sha, of 1 "idle_world (chain_init (key 9))" "key 9" 0 cr 10 talking_connection 7] cr
    by (auto simp: idle_world_def chain_init_def talking_def talking_connection_def)
  have "cn_handled talking_connection = []" by (simp add: talking_connection_def)
  then show ?thesis using w(1) w(2) [of "[bs]"] by auto
qed

end
