(* ===== verification/AddressProps.thy ===== *)
theory AddressProps
  imports Addresses
begin

text \<open>The properties of the book of addresses.\<close>

text \<open>C38: In every run of the address manager no set holds an address twice, and an address that is
  banned is neither among the registered nor among the failed ones; to register it or to report its failure leaves the
  whole book as it is. (The ban itself ends: \<open>save\<close> drops old ones, and a restart lifts all of them, C39.)\<close>

theorem address_book:
  assumes "am_run am"
  shows "distinct (map (\<lambda>a. (na_ip a, na_port a)) (am_addresses am)) \<and>
    distinct (map (\<lambda>a. (na_ip a, na_port a)) (am_failed am)) \<and>
    distinct (map (\<lambda>a. (na_ip a, na_port a)) (am_banned am)) \<and>
    (isBanned a am = Inr True \<longrightarrow>
       as_find a (am_addresses am) = None \<and> as_find a (am_failed am) = None \<and>
       am_reg a am = Inr (a, am) \<and> am_fail a am = Inr (a, am))"
proof -
  have inv: "am_inv am" by (rule am_run_inv [OF assms])
  have keys: "addr_key = (\<lambda>a. (na_ip a, na_port a))" by (simp add: addr_key_def fun_eq_iff)
  have "as_find a (am_addresses am) = None \<and> as_find a (am_failed am) = None \<and>
      am_reg a am = Inr (a, am) \<and> am_fail a am = Inr (a, am)" if "isBanned a am = Inr True"
  proof -
    have b: "am_initialized am" "as_find a (am_banned am) \<noteq> None"
      using that by (auto simp: isBanned_def getInstance_def split: if_splits)
    then have "addr_key a \<in> addr_key ` set (am_banned am)" by (simp add: as_find_None)
    then have "as_find a (am_addresses am) = None" "as_find a (am_failed am) = None"
      using inv unfolding as_find_None am_inv_def by blast+
    then show ?thesis using b by (simp add: am_reg_def am_fail_def getInstance_def)
  qed
  then show ?thesis using inv by (simp add: am_inv_def addr_set_def keys)
qed

definition sample_address :: "byte \<Rightarrow> network_address" where
  "sample_address n = NetworkAddress_new\<lparr>na_ip := replicate 16 n, na_time := 5000000\<rparr>"

definition sample_book :: address_manager where
  "sample_book = AddressManager_new\<lparr>am_initialized := True, am_saving := True,
     am_addresses := [sample_address 1], am_banned := [sample_address 2]\<rparr>"

lemma sample_book_run: "am_run sample_book"
proof -
  let ?new = "AddressManager_new\<lparr>am_initialized := True\<rparr>"
  have "am_run ?new"
    by (rule am_started [where now = 0 and s = None and c = None and b = None and ifs = None])
      (simp add: am_init_def am_load_def getInstance_def Let_def)
  moreover have "am_reg (sample_address 1) ?new =
      Inr (sample_address 1, ?new\<lparr>am_addresses := [sample_address 1], am_saving := True\<rparr>)"
    by (simp add: am_reg_def getInstance_def AddressManager_new_def as_find_def as_emplace_def scheduleSave_def)
  ultimately have "am_run (?new\<lparr>am_addresses := [sample_address 1], am_saving := True\<rparr>)" by (rule am_registers)
  moreover have "am_ban 5000000 (sample_address 2) (?new\<lparr>am_addresses := [sample_address 1], am_saving := True\<rparr>) = Inr sample_book"
    by (simp add: am_ban_def getInstance_def AddressManager_new_def as_find_def as_emplace_def as_erase_def as_setTime_def
        scheduleSave_def sample_book_def sample_address_def same_address_def setTime_def NetworkAddress_new_def)
  ultimately show ?thesis by (rule am_bans)
qed

theorem address_book_witness:
  "isBanned (sample_address 2) sample_book = Inr True \<and> am_reg (sample_address 2) sample_book = Inr (sample_address 2, sample_book)"
proof -
  have "isBanned (sample_address 2) sample_book = Inr True"
    by (simp add: isBanned_def getInstance_def sample_book_def as_find_def same_address_def)
  then show ?thesis using address_book [OF sample_book_run, of "sample_address 2"] by simp
qed

text \<open>C39: A restart lifts every ban: what \<open>save\<close> has written as banned, \<open>load\<close> registers.\<close>

theorem restart_unbans:
  assumes "am_run am" and "am_initialized am" and "am_save now am = Inr (bs, am')"
    and "\<forall>a \<in> set (am_addresses am @ am_banned am @ am_failed am). na_timed a"
    and "length (am_addresses am) + length (am_failed am) + length (am_banned am) \<le> n" and "n < 2 ^ 64"
    and "a \<in> set (am_banned am')" and "word_of_int (int now' - 86400 * 30) \<le> getTime a"
  shows "\<exists>new. am_init now' None None None (Some (memory_stream n bs)) AddressManager_new = Inr new \<and>
    am_banned new = [] \<and> isBanned a new = Inr False \<and> as_find a (am_addresses new) = Some a"
proof -
  let ?start = "AddressManager_new\<lparr>am_initialized := True\<rparr>"
  have start: "am_initialized ?start" "am_addresses ?start = []" "am_banned ?start = []" "am_storageTime ?start = 86400 * 30"
    by (simp_all add: AddressManager_new_def)
  obtain address b where l: "set address \<subseteq> set (am_addresses am) \<union> set (am_failed am)"
    "am_load now' (Some (memory_stream n bs)) ?start = Inr ((loaded now' address (am_banned am') ?start)\<lparr>am_saving := b\<rparr>)"
    using am_load_saved [OF assms(2,3) start(1) assms(4-6)] by blast
  have inv: "am_inv am" "am_inv am'" using am_run_inv assms(1) am_saves [OF assms(1,3)] by blast+
  have "set (am_banned am') \<subseteq> set (am_banned am)"
    using assms(2,3) by (auto simp: am_save_def getInstance_def truncate_def Let_def)
  then have "addr_key a \<notin> addr_key ` (set (am_addresses am) \<union> set (am_failed am))"
    using assms(7) inv(1) unfolding am_inv_def by blast
  then have "addr_key a \<notin> addr_key ` set address" using l(1) by blast
  then have "as_find a (am_addresses (loaded now' address (am_banned am') ?start)) = Some a"
    using assms(7,8) inv(2) start(2,4) by (intro loaded_banned) (simp_all add: am_inv_def threshold_def not_less)
  then show ?thesis
    using l(2) start by (simp add: am_init_def isBanned_def getInstance_def loaded_fields as_find_def)
qed

theorem restart_unbans_witness:
  "\<exists>bs am' new. am_save 5000000 sample_book = Inr (bs, am') \<and>
    am_init 5000000 None None None (Some (memory_stream 10 bs)) AddressManager_new = Inr new \<and>
    isBanned (sample_address 2) sample_book = Inr True \<and> isBanned (sample_address 2) new = Inr False"
proof -
  have banned: "isBanned (sample_address 2) sample_book = Inr True"
    by (simp add: isBanned_def getInstance_def sample_book_def as_find_def same_address_def)
  obtain bs am' where s: "am_save 5000000 sample_book = Inr (bs, am')" "am_banned am' = [sample_address 2]"
    by (simp add: am_save_def getInstance_def sample_book_def truncate_def threshold_def AddressManager_new_def Let_def
        sample_address_def NetworkAddress_new_def getTime_def)
  have "\<exists>new. am_init 5000000 None None None (Some (memory_stream 10 bs)) AddressManager_new = Inr new \<and>
    am_banned new = [] \<and> isBanned (sample_address 2) new = Inr False \<and>
    as_find (sample_address 2) (am_addresses new) = Some (sample_address 2)"
    by (rule restart_unbans [OF sample_book_run _ s(1)])
      (simp_all add: s(2) sample_book_def AddressManager_new_def na_timed_def sample_address_def NetworkAddress_new_def getTime_def)
  then show ?thesis using s(1) banned by blast
qed

end
