(* ===== verification/Base58.thy ===== *)
theory Base58
  imports Digests Blob
begin

text \<open>
  \<open>src/other/Base58.cpp\<close> and \<open>Base58.hpp\<close>: numbers in base 58 as text, with the leading zeros counted
  apart.

  Text is a list of characters; a string view is read one character past its end, where the terminating
  zero is. Both loops work in a vector from its back, so here the list of digits starts with the last
  element of the vector. The static table is given by its rows. Strings are shorter than
  \<open>2 ^ 31\<close> characters, so the counters do not overflow. \<open>isspace\<close> is that of the C locale, and false for
  the characters from 128 on, which are negative.
\<close>

section \<open>The tables\<close>

definition alphabet :: string where
  "alphabet = ''123456789ABCDEFGHJKLMNPQRSTUVWXYZabcdefghijkmnopqrstuvwxyz''"

definition base58_map :: "int list" where
  "base58_map =
     replicate 48 (- 1) @
     [-1, 0, 1, 2, 3, 4, 5, 6, 7, 8, -1, -1, -1, -1, -1, -1,
      -1, 9, 10, 11, 12, 13, 14, 15, 16, -1, 17, 18, 19, 20, 21, -1,
      22, 23, 24, 25, 26, 27, 28, 29, 30, 31, 32, -1, -1, -1, -1, -1,
      -1, 33, 34, 35, 36, 37, 38, 39, 40, 41, 42, 43, -1, 44, 45, 46,
      47, 48, 49, 50, 51, 52, 53, 54, 55, 56, 57, -1, -1, -1, -1, -1] @
     replicate 128 (- 1)"

section \<open>Decoding\<close>

text \<open>\<open>*psz\<close>.\<close>

definition at_cursor :: "string \<Rightarrow> char" where
  "at_cursor s = (case s of [] \<Rightarrow> char_of (0 :: nat) | c # cs \<Rightarrow> c)"

text \<open>The inner loop: multiply by 58 and add; the carry, the number of digits visited and the digits.\<close>

fun mul58 :: "32 word \<Rightarrow> nat \<Rightarrow> nat \<Rightarrow> 32 word list \<Rightarrow> 32 word \<times> nat \<times> 32 word list" where
  "mul58 carry i len [] = (carry, i, [])"
| "mul58 carry i len (d # ds) =
     (if carry \<noteq> 0 \<or> i < len then
        let carry = carry + 58 * d
        in case mul58 (drop_bit 8 carry) (i + 1) len ds of (carry', i', ds') \<Rightarrow> (carry', i', (carry AND 0xff) # ds')
      else (carry, i, d # ds))"

text \<open>The loop over the characters: \<open>None\<close> for an invalid one, else what is left, the length and the digits.\<close>

fun decode_loop :: "string \<Rightarrow> nat \<Rightarrow> 32 word list \<Rightarrow> io_fault + (string \<times> nat \<times> 32 word list) option" where
  "decode_loop [] len b256 = Inr (Some ([], len, b256))"
| "decode_loop (c # cs) len b256 =
     (if c = char_of (0 :: nat) \<or> isspace c then Inr (Some (c # cs, len, b256))
      else
        let carry = base58_map ! of_char c
        in if carry = - 1 then Inr None
           else case mul58 (word_of_int carry) 0 len b256 of
                  (carry, i, b256) \<Rightarrow> if carry \<noteq> 0 then Inl Abort else decode_loop cs i b256)"

definition DecodeBase58 :: "string \<Rightarrow> io_fault + bytes option" where
  "DecodeBase58 str =
     (let psz = dropWhile isspace str;
          zeroes = length (takeWhile (\<lambda>c. c = CHR ''1'') psz);
          psz = dropWhile (\<lambda>c. c = CHR ''1'') psz;
          size = length psz * 73322 div 100000 + 1
      in rbind (decode_loop psz 0 (replicate size 0)) (\<lambda>r.
         case r of
           None \<Rightarrow> Inr None
         | Some (psz, len, b256) \<Rightarrow>
             let psz = dropWhile isspace psz
             in if at_cursor psz \<noteq> char_of (0 :: nat) then Inr None
                else
                  let it = dropWhile (\<lambda>d. d = 0) (drop (size - len) (rev b256))
                  in Inr (Some (replicate zeroes 0 @ map ucast it))))"

section \<open>Encoding\<close>

fun mul256 :: "32 word \<Rightarrow> nat \<Rightarrow> nat \<Rightarrow> byte list \<Rightarrow> 32 word \<times> nat \<times> byte list" where
  "mul256 carry i len [] = (carry, i, [])"
| "mul256 carry i len (d # ds) =
     (if carry \<noteq> 0 \<or> i < len then
        let carry = carry + push_bit 8 (ucast d)
        in case mul256 (carry div 58) (i + 1) len ds of (carry', i', ds') \<Rightarrow> (carry', i', ucast (carry mod 58) # ds')
      else (carry, i, d # ds))"

fun encode_loop :: "32 word list \<Rightarrow> nat \<Rightarrow> byte list \<Rightarrow> io_fault + nat \<times> byte list" where
  "encode_loop [] len b58 = Inr (len, b58)"
| "encode_loop (carry # cs) len b58 =
     (case mul256 carry 0 len b58 of (carry, i, b58) \<Rightarrow> if carry \<noteq> 0 then Inl Abort else encode_loop cs i b58)"

text \<open>
  \<open>conv\<close> is the conversion of an element to \<open>uint32_t\<close>: that of \<open>uint8_t\<close> extends by zeros, that of \<open>char\<close>
  by the sign.
\<close>

definition EncodeBase58 :: "(byte \<Rightarrow> 32 word) \<Rightarrow> bytes \<Rightarrow> io_fault + string" where
  "EncodeBase58 conv bs =
     (let zeroes = length (takeWhile (\<lambda>b. b = 0) bs);
          cur = dropWhile (\<lambda>b. b = 0) bs;
          size = length cur * 136566 div 100000 + 1
      in rbind (encode_loop (map conv cur) 0 (replicate size 0)) (\<lambda>(len, b58).
         let it = dropWhile (\<lambda>d. d = 0) (drop (size - len) (rev b58))
         in Inr (replicate zeroes CHR ''1'' @ map (\<lambda>d. alphabet ! unat d) it)))"

section \<open>With a checksum\<close>

text \<open>
  \<open>Hash\<close> over a range of iterators that are not pointers hashes memory from the address of the iterator
  \<open>begin\<close> on: its eight bytes \<open>ptr\<close>, and what lies behind them.
\<close>

definition Hash_iterators :: "(bytes \<Rightarrow> bytes) \<Rightarrow> bytes \<Rightarrow> bytes \<Rightarrow> io_fault + bytes" where
  "Hash_iterators hash ptr data = (if length data \<le> 8 then Inr (hash (take (length data) ptr)) else Inl Undefined)"

definition EncodeBase58Check :: "(bytes \<Rightarrow> bytes) \<Rightarrow> bytes \<Rightarrow> bytes \<Rightarrow> io_fault + string" where
  "EncodeBase58Check hash ptr data = rbind (Hash_iterators hash ptr data) (\<lambda>h. EncodeBase58 ucast (data @ take 4 h))"

text \<open>The string is passed on as a pointer to characters, so it ends at its first zero.\<close>

definition DecodeBase58Check :: "(bytes \<Rightarrow> bytes) \<Rightarrow> bytes \<Rightarrow> string \<Rightarrow> io_fault + bytes option" where
  "DecodeBase58Check hash ptr str =
     rbind (DecodeBase58 (takeWhile (\<lambda>c. c \<noteq> char_of (0 :: nat)) str)) (\<lambda>r.
     case r of
       None \<Rightarrow> Inr None
     | Some vch \<Rightarrow>
         if length vch < 4 then Inr None
         else
           let data = take (length vch - 4) vch
           in rbind (Hash_iterators hash ptr data) (\<lambda>h.
              Inr (if take 4 h \<noteq> drop (length vch - 4) vch then None else Some data)))"

section \<open>Numbers in a base\<close>

fun digits_value :: "nat \<Rightarrow> nat list \<Rightarrow> nat" where
  "digits_value b [] = 0"
| "digits_value b (d # ds) = d + b * digits_value b ds"

lemma digits_value_zeros [simp]: "digits_value b (replicate n 0) = 0"
  by (induction n) simp_all

lemma digits_value_append: "digits_value b (xs @ ys) = digits_value b xs + b ^ length xs * digits_value b ys"
  by (induction xs) (simp_all add: algebra_simps)

lemma digits_value_bound: "0 < b \<Longrightarrow> \<forall>d \<in> set ds. d < b \<Longrightarrow> digits_value b ds < b ^ length ds"
proof (induction ds)
  case (Cons d ds)
  then have "d + b * digits_value b ds < b + b * digits_value b ds" by simp
  also have "\<dots> = b * (digits_value b ds + 1)" by simp
  also have "\<dots> \<le> b * b ^ length ds" using Cons by (intro mult_le_mono2) simp
  finally show ?case by simp
qed simp

text \<open>The common form of the two inner loops.\<close>

fun muladd :: "nat \<Rightarrow> nat \<Rightarrow> nat \<Rightarrow> nat \<Rightarrow> nat \<Rightarrow> nat list \<Rightarrow> nat \<times> nat \<times> nat list" where
  "muladd b k carry i len [] = (carry, i, [])"
| "muladd b k carry i len (d # ds) =
     (if carry \<noteq> 0 \<or> i < len then
        case muladd b k ((carry + k * d) div b) (i + 1) len ds of
          (carry', i', ds') \<Rightarrow> (carry', i', ((carry + k * d) mod b) # ds')
      else (carry, i, d # ds))"

lemma drop_zeros:
  assumes "\<forall>e \<in> set (drop (len - i) (d # ds)). e = (0 :: nat)"
  shows "\<forall>e \<in> set (drop (len - (i + 1)) ds). e = 0"
proof (cases "len - i")
  case 0
  then have "len - (i + 1) = 0" by simp
  then show ?thesis using assms 0 by simp
next
  case (Suc n)
  then have "len - (i + 1) = n" by simp
  then show ?thesis using assms Suc by simp
qed

lemma muladd_value:
  assumes "muladd b k carry i len ds = (c, j, es)" and "\<forall>d \<in> set (drop (len - i) ds). d = 0" and "0 < b"
  shows "digits_value b es + b ^ length ds * c = k * digits_value b ds + carry \<and> length es = length ds"
  using assms(1,2)
proof (induction ds arbitrary: carry i c j es)
  case Nil
  then show ?case by simp
next
  case (Cons d ds)
  show ?case
  proof (cases "carry \<noteq> 0 \<or> i < len")
    case True
    obtain c' j' es' where m: "muladd b k ((carry + k * d) div b) (i + 1) len ds = (c', j', es')" by (metis prod_cases3)
    have "\<forall>d \<in> set (drop (len - (i + 1)) ds). d = 0"
      using drop_zeros Cons.prems(2) by blast
    then have ih: "digits_value b es' + b ^ length ds * c' = k * digits_value b ds + (carry + k * d) div b" "length es' = length ds"
      using Cons.IH [OF m] by simp_all
    have es: "es = ((carry + k * d) mod b) # es'" "c = c'" using Cons.prems(1) True m by auto
    have "digits_value b es + b ^ length (d # ds) * c =
        (carry + k * d) mod b + b * (digits_value b es' + b ^ length ds * c')"
      by (simp add: es algebra_simps)
    also have "\<dots> = (carry + k * d) mod b + b * ((carry + k * d) div b) + b * (k * digits_value b ds)"
      unfolding ih(1) by (simp add: distrib_left)
    also have "\<dots> = carry + k * d + b * (k * digits_value b ds)" by simp
    also have "\<dots> = k * digits_value b (d # ds) + carry" by (simp add: algebra_simps)
    finally show ?thesis using es ih(2) by simp
  next
    case False
    then have "\<forall>d \<in> set (d # ds). d = 0" using Cons.prems(2) by simp
    then have "digits_value b (d # ds) = 0" by (metis digits_value_zeros replicate_length_same)
    then show ?thesis using False Cons.prems(1) by auto
  qed
qed

lemma muladd_digits:
  assumes "muladd b k carry i len ds = (c, j, es)" and "\<forall>d \<in> set (drop (len - i) ds). d = 0" and "0 < b"
    and "\<forall>d \<in> set ds. d < b"
  shows "(\<forall>d \<in> set es. d < b) \<and> (\<forall>d \<in> set (drop (j - i) es). d = 0) \<and> i \<le> j \<and> j \<le> i + length ds"
  using assms(1,2,4)
proof (induction ds arbitrary: carry i c j es)
  case Nil
  then show ?case by simp
next
  case (Cons d ds)
  show ?case
  proof (cases "carry \<noteq> 0 \<or> i < len")
    case True
    obtain c' j' es' where m: "muladd b k ((carry + k * d) div b) (i + 1) len ds = (c', j', es')" by (metis prod_cases3)
    have "\<forall>d \<in> set (drop (len - (i + 1)) ds). d = 0"
      using drop_zeros Cons.prems(2) by blast
    then have ih: "\<forall>d \<in> set es'. d < b" "\<forall>d \<in> set (drop (j' - (i + 1)) es'). d = 0" "i + 1 \<le> j'" "j' \<le> i + 1 + length ds"
      using Cons.IH [OF m] Cons.prems(3) by simp_all
    have es: "es = ((carry + k * d) mod b) # es'" "j = j'" using Cons.prems(1) True m by auto
    have "j' - i = Suc (j' - (i + 1))" using ih(3) by simp
    then show ?thesis using es ih assms(3) by simp
  next
    case False
    then show ?thesis using Cons.prems by auto
  qed
qed

section \<open>The loops on words\<close>

lemma mul58_muladd:
  assumes "\<forall>d \<in> set ds. unat d < 256" and "unat carry < 58" and "mul58 carry i len ds = (c, j, es)"
  shows "muladd 256 58 (unat carry) i len (map unat ds) = (unat c, j, map unat es)"
  using assms
proof (induction ds arbitrary: carry i c j es)
  case Nil
  then show ?case by simp
next
  case (Cons d ds)
  define x where "x = carry + 58 * d"
  have x: "unat x = unat carry + 58 * unat d"
  proof -
    have "unat (58 * d) = 58 * unat d" using Cons.prems(1) by (subst unat_mult_lem [THEN iffD1]) simp_all
    then show ?thesis using Cons.prems(1,2) unfolding x_def by (subst unat_add_lem [THEN iffD1]) simp_all
  qed
  have carry: "unat (drop_bit 8 x) = unat x div 256" by (simp add: drop_bit_eq_div unat_div)
  have byte: "unat (x AND 0xff) = unat x mod 256"
  proof -
    have "x AND 0xff = take_bit 8 x" by (simp add: take_bit_eq_mask mask_eq_exp_minus_1)
    then show ?thesis by (simp only: unsigned_take_bit_eq) (simp add: take_bit_eq_mod)
  qed
  obtain c' j' es' where m: "mul58 (drop_bit 8 x) (i + 1) len ds = (c', j', es')" by (metis prod_cases3)
  have "unat (drop_bit 8 x) < 58" using Cons.prems(1,2) unfolding carry x by (simp add: div_less_iff_less_mult)
  then have ih: "muladd 256 58 (unat x div 256) (i + 1) len (map unat ds) = (unat c', j', map unat es')"
    using Cons.IH [OF _ _ m] Cons.prems(1) carry by simp
  have zero: "unat carry = 0 \<longleftrightarrow> carry = 0" by (simp add: unat_eq_0)
  show ?case
  proof (cases "carry \<noteq> 0 \<or> i < len")
    case True
    then have "c = c'" "j = j'" "es = (x AND 0xff) # es'" using Cons.prems(3) m by (auto simp: x_def Let_def)
    then show ?thesis using True ih byte zero x by simp
  next
    case False
    then show ?thesis using Cons.prems(3) by auto
  qed
qed

lemma mul256_muladd:
  assumes "\<forall>d \<in> set ds. unat d < 58" and "unat carry < 256" and "mul256 carry i len ds = (c, j, es)"
  shows "muladd 58 256 (unat carry) i len (map unat ds) = (unat c, j, map unat es)"
  using assms
proof (induction ds arbitrary: carry i c j es)
  case Nil
  then show ?case by simp
next
  case (Cons d ds)
  define x where "x = carry + push_bit 8 (ucast d)"
  have x: "unat x = unat carry + 256 * unat d"
  proof -
    have "push_bit 8 (ucast d :: 32 word) = 256 * ucast d" by (simp add: push_bit_eq_mult)
    moreover have u: "unat (ucast d :: 32 word) = unat d" using unat_byte_lt [of d] by (simp add: unsigned_ucast_eq take_bit_nat_eq_self)
    moreover have "unat (256 * (ucast d :: 32 word)) = 256 * unat d"
      using Cons.prems(1) u by (subst unat_mult_lem [THEN iffD1]) simp_all
    ultimately show ?thesis using Cons.prems(1,2) unfolding x_def by (subst unat_add_lem [THEN iffD1]) simp_all
  qed
  have carry: "unat (x div 58) = unat x div 58" by (simp add: unat_div)
  have byte: "unat (ucast (x mod 58) :: byte) = unat x mod 58"
  proof -
    have "unat (x mod 58) = unat x mod 58" by (simp add: unat_mod)
    moreover have "unat x mod 58 < 256" by (rule less_trans [OF mod_less_divisor]) simp_all
    ultimately show ?thesis by (simp add: unsigned_ucast_eq take_bit_nat_eq_self)
  qed
  obtain c' j' es' where m: "mul256 (x div 58) (i + 1) len ds = (c', j', es')" by (metis prod_cases3)
  have "unat (x div 58) < 256" using Cons.prems(1,2) unfolding carry x by (simp add: div_less_iff_less_mult)
  then have ih: "muladd 58 256 (unat x div 58) (i + 1) len (map unat ds) = (unat c', j', map unat es')"
    using Cons.IH [OF _ _ m] Cons.prems(1) carry by simp
  have zero: "unat carry = 0 \<longleftrightarrow> carry = 0" by (simp add: unat_eq_0)
  show ?case
  proof (cases "carry \<noteq> 0 \<or> i < len")
    case True
    then have "c = c'" "j = j'" "es = ucast (x mod 58) # es'" using Cons.prems(3) m by (auto simp: x_def Let_def)
    then show ?thesis using True ih byte zero unfolding x by auto
  next
    case False
    then show ?thesis using Cons.prems(3) by auto
  qed
qed

section \<open>The outer loops\<close>

text \<open>The digits hold the number \<open>n\<close>, and only the first \<open>len\<close> of them are in use.\<close>

definition holds :: "nat \<Rightarrow> nat \<Rightarrow> nat \<Rightarrow> nat list \<Rightarrow> bool" where
  "holds b n len ds \<longleftrightarrow>
     digits_value b ds = n \<and> (\<forall>d \<in> set ds. d < b) \<and> (\<forall>d \<in> set (drop len ds). d = 0) \<and> len \<le> length ds"

lemma holds_zero: "0 < b \<Longrightarrow> holds b 0 0 (replicate n 0)"
  by (simp add: holds_def)

lemma muladd_holds:
  assumes "holds b n len ds" and "muladd b k carry 0 len ds = (c, j, es)" and "0 < b" and "k * n + carry < b ^ length ds"
  shows "c = 0 \<and> holds b (k * n + carry) j es \<and> length es = length ds"
proof -
  have v: "digits_value b es + b ^ length ds * c = k * n + carry" "length es = length ds"
    using muladd_value [OF assms(2) _ assms(3)] assms(1) by (simp_all add: holds_def)
  have "c = 0"
  proof (rule ccontr)
    assume "c \<noteq> 0"
    then have "b ^ length ds * 1 \<le> b ^ length ds * c" by (intro mult_le_mono2) simp
    then show False using v(1) assms(4) by linarith
  qed
  then have val: "digits_value b es = k * n + carry" using v(1) by simp
  have "(\<forall>d \<in> set es. d < b) \<and> (\<forall>d \<in> set (drop (j - 0) es). d = 0) \<and> 0 \<le> j \<and> j \<le> 0 + length ds"
    using assms(1) by (intro muladd_digits [OF assms(2) _ assms(3)]) (simp_all add: holds_def)
  then show ?thesis unfolding holds_def using \<open>c = 0\<close> v(2) val by auto
qed

lemma room_step: "(n + 1) * k ^ Suc m \<le> r \<Longrightarrow> d < k \<Longrightarrow> (k * n + d + 1) * k ^ m \<le> r" for n k m r d :: nat
proof -
  assume a: "(n + 1) * k ^ Suc m \<le> r" and "d < k"
  then have "k * n + d + 1 \<le> k * (n + 1)" by simp
  then have "(k * n + d + 1) * k ^ m \<le> k * (n + 1) * k ^ m" by (rule mult_le_mono1)
  then show ?thesis using a by (simp add: algebra_simps)
qed

lemma room_now: "(n + 1) * k ^ m \<le> r \<Longrightarrow> 0 < k \<Longrightarrow> n < r" for n k m r :: nat
proof -
  assume a: "(n + 1) * k ^ m \<le> r" and "0 < k"
  then have "1 \<le> k ^ m" by simp
  then have "n + 1 \<le> (n + 1) * k ^ m" using mult_le_mono2 [of 1 "k ^ m" "n + 1"] by simp
  then show ?thesis using a by simp
qed

lemma encode_loop_holds:
  assumes "holds 58 n len (map unat b58)" and "\<forall>c \<in> set cs. unat c < 256" and "(n + 1) * 256 ^ length cs \<le> 58 ^ length b58"
  shows "\<exists>len' es. encode_loop cs len b58 = Inr (len', es) \<and> length es = length b58 \<and>
    holds 58 (foldl (\<lambda>n c. 256 * n + unat c) n cs) len' (map unat es)"
  using assms
proof (induction cs arbitrary: n len b58)
  case Nil
  then show ?case by simp
next
  case (Cons c cs)
  obtain c' j es where m: "mul256 c 0 len b58 = (c', j, es)" by (metis prod_cases3)
  have room: "(256 * n + unat c + 1) * 256 ^ length cs \<le> 58 ^ length b58"
    using Cons.prems(2,3) by (intro room_step) simp_all
  have M: "muladd 58 256 (unat c) 0 len (map unat b58) = (unat c', j, map unat es)"
    using Cons.prems by (intro mul256_muladd [OF _ _ m]) (simp_all add: holds_def)
  then have h: "unat c' = 0" "holds 58 (256 * n + unat c) j (map unat es)" "length es = length b58"
    using muladd_holds [OF Cons.prems(1) M] room_now [OF room] by auto
  then show ?case
    using Cons.IH [OF h(2)] Cons.prems(2) room m by (simp add: unat_eq_0)
qed

definition codes :: "nat list" where
  "codes =
    [49, 50, 51, 52, 53, 54, 55, 56, 57, 65, 66, 67, 68, 69, 70, 71, 72, 74, 75, 76, 77, 78, 80, 81, 82, 83, 84,
     85, 86, 87, 88, 89, 90, 97, 98, 99, 100, 101, 102, 103, 104, 105, 106, 107, 109, 110, 111, 112, 113, 114, 115,
     116, 117, 118, 119, 120, 121, 122]"

lemma alphabet_codes: "map of_char alphabet = codes" "length alphabet = 58"
  by (simp_all add: alphabet_def codes_def)

lemma upto_58: "map int [0..<58] =
    [0, 1, 2, 3, 4, 5, 6, 7, 8, 9, 10, 11, 12, 13, 14, 15, 16, 17, 18, 19, 20, 21, 22, 23, 24, 25, 26, 27, 28, 29, 30, 31, 32, 33, 34, 35, 36, 37, 38, 39,
     40, 41, 42, 43, 44, 45, 46, 47, 48, 49, 50, 51, 52, 53, 54, 55, 56, 57]"
  by code_simp

lemma codes_table: "map (\<lambda>n. base58_map ! n) codes = map int [0..<58]" "\<forall>n \<in> set codes. 48 < n" "distinct codes" "codes ! 0 = 49"
  by (simp_all add: codes_def base58_map_def nth_append upto_58)

lemma alphabet_digits:
  assumes "k < 58"
  shows "base58_map ! of_char (alphabet ! k) = int k" "\<not> isspace (alphabet ! k)" "alphabet ! k \<noteq> char_of (0 :: nat)"
    "alphabet ! k = CHR ''1'' \<longleftrightarrow> k = 0"
proof -
  have len: "length codes = 58" using alphabet_codes by (metis length_map)
  have c: "of_char (alphabet ! k) = codes ! k" using assms alphabet_codes by (metis nth_map)
  have "map (\<lambda>n. base58_map ! n) codes ! k = map int [0..<58] ! k" by (simp only: codes_table(1))
  then show "base58_map ! of_char (alphabet ! k) = int k" using assms len by (simp add: c)
  have big: "48 < (of_char (alphabet ! k) :: nat)" unfolding c using codes_table(2) assms len by simp
  then show "\<not> isspace (alphabet ! k)" by (auto simp: isspace_def)
  show "alphabet ! k \<noteq> char_of (0 :: nat)" using big by auto
  have "alphabet ! k = CHR ''1'' \<longleftrightarrow> of_char (alphabet ! k) = (49 :: nat)"
    using of_char_eq_iff [of "alphabet ! k" "CHR ''1''", where ?'a = nat] by simp
  also have "\<dots> \<longleftrightarrow> codes ! k = codes ! 0" by (simp add: c codes_table(4))
  also have "\<dots> \<longleftrightarrow> k = 0" using codes_table(3) assms len by (simp add: nth_eq_iff_index_eq)
  finally show "alphabet ! k = CHR ''1'' \<longleftrightarrow> k = 0" .
qed

lemma decode_loop_holds:
  assumes "holds 256 n len (map unat b256)" and "\<forall>k \<in> set ks. k < 58" and "(n + 1) * 58 ^ length ks \<le> 256 ^ length b256"
    and "r = [] \<or> isspace (hd r)"
  shows "\<exists>len' es. decode_loop (map (\<lambda>k. alphabet ! k) ks @ r) len b256 = Inr (Some (r, len', es)) \<and> length es = length b256 \<and>
    holds 256 (foldl (\<lambda>n k. 58 * n + k) n ks) len' (map unat es)"
  using assms(1-3)
proof (induction ks arbitrary: n len b256)
  case Nil
  then show ?case using assms(4) by (cases r) simp_all
next
  case (Cons k ks)
  have k: "k < 58" using Cons.prems(2) by simp
  obtain c' j es where m: "mul58 (word_of_nat k) 0 len b256 = (c', j, es)" by (metis prod_cases3)
  have u: "unat (word_of_nat k :: 32 word) = k" using k by (simp add: unat_of_nat)
  have room: "(58 * n + k + 1) * 58 ^ length ks \<le> 256 ^ length b256"
    using Cons.prems(2,3) by (intro room_step) simp_all
  have M: "muladd 256 58 k 0 len (map unat b256) = (unat c', j, map unat es)"
    using mul58_muladd [OF _ _ m] Cons.prems(1) k u by (simp add: holds_def)
  then have h: "unat c' = 0" "holds 256 (58 * n + k) j (map unat es)" "length es = length b256"
    using muladd_holds [OF Cons.prems(1) M] room_now [OF room] by auto
  have "(int k = - 1) = False" by simp
  then show ?case
    using Cons.IH [OF h(2)] Cons.prems(2) room m h(1,3) alphabet_digits [OF k] by (simp add: unat_eq_0)
qed

section \<open>Canonical digits\<close>

lemma zero_digits: "0 < b \<Longrightarrow> digits_value b xs = 0 \<Longrightarrow> xs = [] \<or> last xs \<noteq> 0 \<Longrightarrow> xs = []"
  by (induction xs) (auto split: if_splits)

lemma canonical:
  assumes "1 < b" and "digits_value b xs = digits_value b ys" and "\<forall>d \<in> set xs. d < b" and "\<forall>d \<in> set ys. d < b"
    and "xs = [] \<or> last xs \<noteq> 0" and "ys = [] \<or> last ys \<noteq> 0"
  shows "xs = ys"
  using assms(2-)
proof (induction xs arbitrary: ys)
  case Nil
  then have "digits_value b ys = 0" by simp
  then show ?case using zero_digits [of b ys] Nil assms(1) by blast
next
  case (Cons x xs)
  show ?case
  proof (cases ys)
    case Nil
    then show ?thesis using zero_digits [of b "x # xs"] assms(1) Cons.prems by simp
  next
    case (Cons y zs)
    then have e: "x + b * digits_value b xs = y + b * digits_value b zs" "x < b" "y < b" using Cons.prems by simp_all
    have "x = y" using arg_cong [OF e(1), of "\<lambda>v. v mod b"] e(2,3) by simp
    moreover have "digits_value b xs = digits_value b zs" using e(1) calculation assms(1) by simp
    moreover have "xs = [] \<or> last xs \<noteq> 0" "zs = [] \<or> last zs \<noteq> 0" using Cons.prems Cons by (auto split: if_splits)
    ultimately show ?thesis using Cons.IH [of zs] Cons.prems Cons by simp
  qed
qed

text \<open>The digits in use, most significant first and without leading zeros.\<close>

lemma drop_unused:
  assumes "\<forall>d \<in> set (drop len ds). d = 0" and "n = length ds" and "len \<le> n"
  shows "dropWhile (\<lambda>d. d = 0) (drop (n - len) (rev ds)) = dropWhile (\<lambda>d. d = 0) (rev ds)"
proof -
  define us where "us = rev (drop len ds)"
  define vs where "vs = drop (n - len) (rev ds)"
  have "take (n - len) (rev ds) = us" using assms(2,3) by (simp add: rev_drop us_def)
  then have "rev ds = us @ vs" unfolding vs_def by (metis append_take_drop_id)
  moreover have "\<forall>d \<in> set us. d = 0" using assms(1) by (simp add: us_def)
  then have "dropWhile (\<lambda>d. d = 0) (us @ vs) = dropWhile (\<lambda>d. d = 0) vs" by (intro dropWhile_append2) simp
  ultimately show ?thesis by (simp add: vs_def)
qed

lemma value_dropWhile: "digits_value b (rev (dropWhile (\<lambda>d. d = 0) xs)) = digits_value b (rev xs)"
  by (induction xs) (simp_all add: digits_value_append)

lemma digits_foldl: "foldl (\<lambda>n d. b * n + d) n ds = b ^ length ds * n + digits_value b (rev ds)"
  by (induction ds arbitrary: n) (simp_all add: digits_value_append algebra_simps)

lemma capacity:
  fixes a b :: nat
  assumes "a ^ q \<le> b ^ p" and "p * n0 \<le> m0 * q" and "0 < q" and "0 < n0" and "1 < b"
  shows "a ^ n \<le> b ^ (n * m0 div n0 + 1)"
proof -
  let ?m = "n * m0 div n0 + 1"
  have "n * m0 < ?m * n0" using assms(4) by (metis Suc_eq_plus1 dividend_less_div_times mult.commute mult_Suc add.commute)
  then have "n * m0 * q \<le> ?m * n0 * q" by simp
  moreover have "n * (p * n0) \<le> n * (m0 * q)" using assms(2) by (rule mult_le_mono2)
  moreover have "n * (p * n0) = (n * p) * n0" "n * (m0 * q) = n * m0 * q" "?m * n0 * q = (?m * q) * n0"
    by (simp_all only: ac_simps)
  ultimately have "(n * p) * n0 \<le> (?m * q) * n0" by linarith
  then have le: "n * p \<le> ?m * q" using assms(4) by simp
  have "(a ^ n) ^ q = (a ^ q) ^ n" by (simp add: power_mult [symmetric] mult.commute)
  also have "\<dots> \<le> (b ^ p) ^ n" using assms(1) by (rule power_mono) simp
  also have "\<dots> = b ^ (n * p)" by (simp add: power_mult [symmetric] mult.commute)
  also have "\<dots> \<le> b ^ (?m * q)" using le assms(5) by (intro power_increasing) simp_all
  also have "\<dots> = (b ^ ?m) ^ q" by (simp only: power_mult)
  finally have "(a ^ n) ^ q \<le> (b ^ ?m) ^ q" .
  then show ?thesis using power_mono_iff [of "a ^ n" "b ^ ?m" q] assms(3) by blast
qed

text \<open>Powers of 58 from below, with 24 significant bits.\<close>

lemma power_square: "m * 2 ^ e \<le> b ^ p \<Longrightarrow> n * 2 ^ k \<le> m * m \<Longrightarrow> e' = e + e + k \<Longrightarrow> p' = p + p \<Longrightarrow>
    n * 2 ^ e' \<le> b ^ p'" for m n b :: nat
proof -
  assume a: "m * 2 ^ e \<le> b ^ p" and "n * 2 ^ k \<le> m * m" and "e' = e + e + k" "p' = p + p"
  then have "(n * 2 ^ k) * (2 ^ e * 2 ^ e) \<le> (m * m) * (2 ^ e * 2 ^ e)" by (intro mult_le_mono1)
  also have "\<dots> = (m * 2 ^ e) * (m * 2 ^ e)" by (simp only: ac_simps)
  also have "\<dots> \<le> b ^ p * b ^ p" by (intro mult_le_mono a)
  finally show ?thesis using \<open>e' = _\<close> \<open>p' = _\<close> by (simp add: power_add ac_simps)
qed

lemma power_next: "m * 2 ^ e \<le> b ^ p \<Longrightarrow> n * 2 ^ k \<le> m * b \<Longrightarrow> e' = e + k \<Longrightarrow> p' = p + 1 \<Longrightarrow>
    n * 2 ^ e' \<le> b ^ p'" for m n b :: nat
proof -
  assume a: "m * 2 ^ e \<le> b ^ p" and "n * 2 ^ k \<le> m * b" and "e' = e + k" "p' = p + 1"
  then have "(n * 2 ^ k) * 2 ^ e \<le> (m * b) * 2 ^ e" by (intro mult_le_mono1)
  also have "\<dots> = (m * 2 ^ e) * b" by (simp only: ac_simps)
  also have "\<dots> \<le> b ^ p * b" by (intro mult_le_mono1 a)
  finally show ?thesis using \<open>e' = _\<close> \<open>p' = _\<close> by (simp add: power_add ac_simps)
qed

lemma room_58: "256 ^ 629 \<le> (58 :: nat) ^ 859"
proof -
  have r0: "58 * 2 ^ 0 \<le> (58 :: nat) ^ 1" by simp
  have r1: "3364 * 2 ^ 0 \<le> (58 :: nat) ^ 2"
    by (rule power_square [OF r0, where k = 0]) simp_all
  have r2: "195112 * 2 ^ 0 \<le> (58 :: nat) ^ 3"
    by (rule power_next [OF r1, where k = 0]) simp_all
  have r3: "9294114 * 2 ^ 12 \<le> (58 :: nat) ^ 6"
    by (rule power_square [OF r2, where k = 12]) simp_all
  have r4: "10297364 * 2 ^ 47 \<le> (58 :: nat) ^ 12"
    by (rule power_square [OF r3, where k = 23]) simp_all
  have r5: "9331986 * 2 ^ 53 \<le> (58 :: nat) ^ 13"
    by (rule power_next [OF r4, where k = 6]) simp_all
  have r6: "10381455 * 2 ^ 129 \<le> (58 :: nat) ^ 26"
    by (rule power_square [OF r5, where k = 23]) simp_all
  have r7: "12847734 * 2 ^ 281 \<le> (58 :: nat) ^ 52"
    by (rule power_square [OF r6, where k = 23]) simp_all
  have r8: "11643258 * 2 ^ 287 \<le> (58 :: nat) ^ 53"
    by (rule power_next [OF r7, where k = 6]) simp_all
  have r9: "16160661 * 2 ^ 597 \<le> (58 :: nat) ^ 106"
    by (rule power_square [OF r8, where k = 23]) simp_all
  have r10: "14645599 * 2 ^ 603 \<le> (58 :: nat) ^ 107"
    by (rule power_next [OF r9, where k = 6]) simp_all
  have r11: "12784813 * 2 ^ 1230 \<le> (58 :: nat) ^ 214"
    by (rule power_square [OF r10, where k = 24]) simp_all
  have r12: "9742465 * 2 ^ 2484 \<le> (58 :: nat) ^ 428"
    by (rule power_square [OF r11, where k = 24]) simp_all
  have r13: "8829108 * 2 ^ 2490 \<le> (58 :: nat) ^ 429"
    by (rule power_next [OF r12, where k = 6]) simp_all
  have r14: "9292739 * 2 ^ 5003 \<le> (58 :: nat) ^ 858"
    by (rule power_square [OF r13, where k = 23]) simp_all
  have r15: "8421544 * 2 ^ 5009 \<le> (58 :: nat) ^ 859"
    by (rule power_next [OF r14, where k = 6]) simp_all
  have "(256 :: nat) ^ 629 = (2 ^ 8) ^ 629" by (rule arg_cong [where f = "\<lambda>x. x ^ 629"]) simp
  also have "\<dots> = 2 ^ (8 * 629)" by (simp only: power_mult)
  also have "8 * 629 = (23 + 5009 :: nat)" by simp
  also have "2 ^ (23 + 5009) = (2 :: nat) ^ 23 * 2 ^ 5009" by (simp only: power_add)
  also have "\<dots> \<le> 8421544 * 2 ^ 5009" by (rule mult_le_mono1) simp
  finally show ?thesis using r15 by (rule order_trans)
qed

lemma room_256: "58 ^ 71 \<le> (256 :: nat) ^ 52"
  by simp

lemma encode_room: "256 ^ n \<le> (58 :: nat) ^ (n * 136566 div 100000 + 1)"
  by (rule capacity [OF room_58]) simp_all

lemma decode_room: "58 ^ n \<le> (256 :: nat) ^ (n * 73322 div 100000 + 1)"
  by (rule capacity [OF room_256]) simp_all

section \<open>Round trip\<close>

text \<open>The digits that a loop leaves, as the code copies them.\<close>

lemma result_digits:
  fixes es :: "'a :: len word list"
  assumes "holds b n len (map unat es)"
  defines "it \<equiv> dropWhile (\<lambda>d. d = 0) (drop (length es - len) (rev es))"
  shows "digits_value b (rev (map unat it)) = n" "\<forall>d \<in> set it. unat d < b" "it = [] \<or> hd it \<noteq> 0"
proof -
  have "map unat it = dropWhile (\<lambda>d. d = 0) (drop (length es - len) (rev (map unat es)))"
    by (simp add: it_def dropWhile_map drop_map comp_def unat_eq_0 rev_map)
  also have "\<dots> = dropWhile (\<lambda>d. d = 0) (rev (map unat es))"
    using assms(1) by (intro drop_unused) (simp_all add: holds_def)
  finally have m: "map unat it = dropWhile (\<lambda>d. d = 0) (rev (map unat es))" .
  show "digits_value b (rev (map unat it)) = n" unfolding m value_dropWhile using assms(1) by (simp add: holds_def)
  have "unat d \<in> set (dropWhile (\<lambda>d. d = 0) (rev (map unat es)))" if "d \<in> set it" for d
    using that arg_cong [OF m, of set] by (metis image_eqI list.set_map)
  then have "unat d \<in> set (rev (map unat es))" if "d \<in> set it" for d using that by (blast dest: set_dropWhileD)
  then show "\<forall>d \<in> set it. unat d < b" using assms(1) by (fastforce simp: holds_def)
  show "it = [] \<or> hd it \<noteq> 0" unfolding it_def by (metis (mono_tags, lifting) hd_dropWhile)
qed

lemma canonical_words:
  fixes xs :: "'a :: len word list" and ys :: "'b :: len word list"
  assumes "1 < b" and "digits_value b (rev (map unat xs)) = digits_value b (rev (map unat ys))"
    and "\<forall>d \<in> set xs. unat d < b" and "\<forall>d \<in> set ys. unat d < b" and "xs = [] \<or> hd xs \<noteq> 0" and "ys = [] \<or> hd ys \<noteq> 0"
  shows "map unat xs = map unat ys"
proof -
  have "rev (map unat xs) = rev (map unat ys)"
  proof (rule canonical [OF assms(1,2)])
    show "rev (map unat xs) = [] \<or> last (rev (map unat xs)) \<noteq> 0" using assms(5) by (cases xs) (auto simp: unat_eq_0)
    show "rev (map unat ys) = [] \<or> last (rev (map unat ys)) \<noteq> 0" using assms(6) by (cases ys) (auto simp: unat_eq_0)
  qed (use assms(3,4) in auto)
  then show ?thesis by (simp only: rev_is_rev_conv)
qed

lemma encode_result:
  fixes bs :: bytes
  defines "cur \<equiv> dropWhile (\<lambda>b. b = 0) bs"
  shows "\<exists>it :: byte list. EncodeBase58 ucast bs = Inr (replicate (length (takeWhile (\<lambda>b. b = 0) bs)) CHR ''1'' @ map (\<lambda>d. alphabet ! unat d) it) \<and>
    digits_value 58 (rev (map unat it)) = digits_value 256 (rev (map unat cur)) \<and> (\<forall>d \<in> set it. unat d < 58) \<and>
    (it = [] \<or> hd it \<noteq> 0)"
proof -
  let ?size = "length cur * 136566 div 100000 + 1"
  let ?cs = "map ucast cur :: 32 word list"
  have u: "unat (ucast b :: 32 word) = unat b" for b :: byte
    using unat_byte_lt [of b] by (simp add: unsigned_ucast_eq take_bit_nat_eq_self)
  have "holds 58 0 0 (map unat (replicate ?size (0 :: byte)))" using holds_zero [of 58 ?size] by simp
  then obtain len es where e: "encode_loop ?cs 0 (replicate ?size 0) = Inr (len, es)" "length es = ?size"
    "holds 58 (foldl (\<lambda>n c. 256 * n + unat c) 0 ?cs) len (map unat es)"
    using encode_loop_holds [of 0 0 "replicate ?size 0" ?cs] encode_room [of "length cur"] u unat_byte_lt by auto
  have "foldl (\<lambda>n c. 256 * n + unat c) 0 ?cs = foldl (\<lambda>n d. 256 * n + d) 0 (map unat cur)"
    by (simp add: foldl_map u)
  also have "\<dots> = digits_value 256 (rev (map unat cur))" by (simp add: digits_foldl)
  finally have v: "foldl (\<lambda>n c. 256 * n + unat c) 0 ?cs = digits_value 256 (rev (map unat cur))" .
  define it where "it = dropWhile (\<lambda>d. d = 0) (drop (?size - len) (rev es))"
  have "EncodeBase58 ucast bs = Inr (replicate (length (takeWhile (\<lambda>b. b = 0) bs)) CHR ''1'' @ map (\<lambda>d. alphabet ! unat d) it)"
    using e(1) by (simp add: EncodeBase58_def Let_def cur_def it_def)
  then show ?thesis using result_digits [OF e(3)] e(2) v unfolding it_def by auto
qed

lemma at_cursor_spaces:
  assumes "list_all isspace r"
  shows "at_cursor (dropWhile isspace r) = char_of (0 :: nat)"
proof -
  have "dropWhile isspace r = []" using assms by (induction r) simp_all
  then show ?thesis unfolding at_cursor_def by (simp only: list.case)
qed

lemma takeWhile_replicate: "(xs = [] \<or> hd xs \<noteq> a) \<Longrightarrow> takeWhile (\<lambda>c. c = a) (replicate n a @ xs) = replicate n a"
    "(xs = [] \<or> hd xs \<noteq> a) \<Longrightarrow> dropWhile (\<lambda>c. c = a) (replicate n a @ xs) = xs"
  by (induction n) (cases xs; simp)+

lemma decode_digits:
  assumes "\<forall>k \<in> set ks. k < 58" and "ks = [] \<or> hd ks \<noteq> 0" and "list_all isspace sp" and "list_all isspace r"
    and "0 < z + length ks \<or> r = []"
  shows "\<exists>it :: 32 word list. DecodeBase58 (sp @ replicate z CHR ''1'' @ map (\<lambda>k. alphabet ! k) ks @ r) =
      Inr (Some (replicate z 0 @ map ucast it)) \<and>
    digits_value 256 (rev (map unat it)) = digits_value 58 (rev ks) \<and> (\<forall>d \<in> set it. unat d < 256) \<and> (it = [] \<or> hd it \<noteq> 0)"
proof -
  let ?t = "map (\<lambda>k. alphabet ! k) ks @ r"
  let ?size = "length ?t * 73322 div 100000 + 1"
  have one: "\<not> isspace CHR ''1''" by (simp add: isspace_def)
  have front: "replicate z CHR ''1'' @ ?t = [] \<or> \<not> isspace (hd (replicate z CHR ''1'' @ ?t))"
    using assms(1,5) one alphabet_digits(2) by (cases z; cases ks) auto
  have "dropWhile isspace (sp @ replicate z CHR ''1'' @ ?t) = dropWhile isspace (replicate z CHR ''1'' @ ?t)"
    using assms(3) by (intro dropWhile_append2) (simp add: list_all_iff)
  also have "\<dots> = replicate z CHR ''1'' @ ?t" using front by (cases "replicate z CHR ''1'' @ ?t") auto
  finally have psz: "dropWhile isspace (sp @ replicate z CHR ''1'' @ ?t) = replicate z CHR ''1'' @ ?t" .
  have "?t = [] \<or> hd ?t \<noteq> CHR ''1''"
  proof (cases ks)
    case Nil
    then show ?thesis using assms(4) one by (cases r) auto
  next
    case (Cons k ks')
    then show ?thesis using assms(1,2) alphabet_digits(4) [of k] by simp
  qed
  note ones = takeWhile_replicate [OF this]
  have "58 ^ length ks \<le> (256 :: nat) ^ ?size"
  proof -
    have "length ks * 73322 div 100000 + 1 \<le> ?size" by (simp add: div_le_mono)
    then have "(256 :: nat) ^ (length ks * 73322 div 100000 + 1) \<le> 256 ^ ?size" by (intro power_increasing) simp_all
    then show ?thesis using decode_room [of "length ks"] by (rule order_trans [rotated])
  qed
  moreover have "holds 256 0 0 (map unat (replicate ?size (0 :: 32 word)))" using holds_zero [of 256 ?size] by simp
  moreover have "r = [] \<or> isspace (hd r)" using assms(4) by (cases r) simp_all
  ultimately obtain len es where e: "decode_loop ?t 0 (replicate ?size 0) = Inr (Some (r, len, es))" "length es = ?size"
    "holds 256 (foldl (\<lambda>n k. 58 * n + k) 0 ks) len (map unat es)"
    using decode_loop_holds [of 0 0 "replicate ?size 0" ks r] assms(1) by auto
  have v: "foldl (\<lambda>n k. 58 * n + k) 0 ks = digits_value 58 (rev ks)" by (simp add: digits_foldl)
  define it where "it = dropWhile (\<lambda>d. d = 0) (drop (?size - len) (rev es))"
  have "DecodeBase58 (sp @ replicate z CHR ''1'' @ ?t) = Inr (Some (replicate z 0 @ map ucast it))"
    unfolding DecodeBase58_def Let_def psz ones e(1) it_def using at_cursor_spaces [OF assms(4)] by simp
  then show ?thesis using result_digits [OF e(3)] e(2) v unfolding it_def by auto
qed

lemma base58_text:
  assumes "list_all isspace sp" and "list_all isspace r"
  shows "\<exists>s. EncodeBase58 ucast bs = Inr s \<and> DecodeBase58 (sp @ s @ r) = Inr (Some bs)"
proof -
  let ?cur = "dropWhile (\<lambda>b. b = 0) bs" and ?z = "length (takeWhile (\<lambda>b. b = 0) bs)"
  obtain it :: "byte list" where e: "EncodeBase58 ucast bs = Inr (replicate ?z CHR ''1'' @ map (\<lambda>d. alphabet ! unat d) it)"
    "digits_value 58 (rev (map unat it)) = digits_value 256 (rev (map unat ?cur))" "\<forall>d \<in> set it. unat d < 58"
    "it = [] \<or> hd it \<noteq> 0"
    using encode_result [of bs] by blast
  define ks where "ks = map unat it"
  define r' where "r' = (if 0 < ?z + length ks then r else [])"
  have ks: "\<forall>k \<in> set ks. k < 58" "ks = [] \<or> hd ks \<noteq> 0" using e(3,4) by (cases it; auto simp: ks_def unat_eq_0)+
  have r': "list_all isspace r'" "0 < ?z + length ks \<or> r' = []" using assms(2) by (simp_all add: r'_def)
  obtain it2 :: "32 word list" where d: "DecodeBase58 (sp @ replicate ?z CHR ''1'' @ map (\<lambda>k. alphabet ! k) ks @ r') =
      Inr (Some (replicate ?z 0 @ map ucast it2))"
    "digits_value 256 (rev (map unat it2)) = digits_value 58 (rev ks)" "\<forall>d \<in> set it2. unat d < 256" "it2 = [] \<or> hd it2 \<noteq> 0"
    using decode_digits [OF ks assms(1) r'] by blast
  have "map unat it2 = map unat ?cur"
  proof (rule canonical_words [of 256])
    show "\<forall>d \<in> set ?cur. unat d < 256" using unat_byte_lt by blast
    show "?cur = [] \<or> hd ?cur \<noteq> 0" by (metis (mono_tags, lifting) hd_dropWhile)
  qed (use d e(2) in \<open>simp_all add: ks_def\<close>)
  then have "map (\<lambda>n. word_of_nat n :: byte) (map unat it2) = map word_of_nat (map unat ?cur)" by simp
  then have "map ucast it2 = ?cur" by (simp add: comp_def)
  moreover have "replicate ?z 0 = takeWhile (\<lambda>b. b = 0) bs"
    by (metis (mono_tags, lifting) replicate_length_same set_takeWhileD)
  ultimately have bs: "replicate ?z 0 @ map ucast it2 = bs" by simp
  have shape: "replicate ?z CHR ''1'' @ map (\<lambda>d. alphabet ! unat d) it = replicate ?z CHR ''1'' @ map (\<lambda>k. alphabet ! k) ks"
    by (simp add: ks_def)
  show ?thesis
  proof (cases "0 < ?z + length ks")
    case True
    then show ?thesis using e(1) d(1) bs shape by (simp add: r'_def)
  next
    case False
    then have "DecodeBase58 (sp @ r) = DecodeBase58 (sp @ [])"
      using assms by (simp add: DecodeBase58_def list_all_iff dropWhile_append3 dropWhile_eq_Nil_conv [THEN iffD2])
    then show ?thesis using False e(1) d(1) bs shape by (simp add: r'_def ks_def)
  qed
qed

text \<open>An encoder of \<open>char\<close> takes a byte from 128 on for a number near \<open>2 ^ 32\<close>.\<close>

lemma signed_encoding: "EncodeBase58 scast [0x80] = Inl Abort"
proof -
  have c: "(scast (0x80 :: byte) :: 32 word) = 0xFFFFFF80" by simp
  have r: "replicate 2 (0 :: byte) = [0, 0]" by (simp add: numeral_2_eq_2)
  have d: "(0xFFFFFF80 :: 32 word) div 58 = 74051158" "(74051158 :: 32 word) div 58 = 1276744" by simp_all
  have "encode_loop [scast (0x80 :: byte)] 0 (replicate 2 0) = Inl Abort" unfolding c r by (simp add: d)
  then show ?thesis by (simp add: EncodeBase58_def)
qed

end
