(* ===== verification/Aes.thy ===== *)
theory Aes
  imports Streams
begin

text \<open>
  The block cipher of \<open>src/crypto/ctaes/ctaes.c\<close>: the sixteen bytes of a state are kept as eight
  slices, and bit \<open>4 * r + c\<close> of slice \<open>b\<close> is bit \<open>b\<close> of the byte in row \<open>r\<close> and column \<open>c\<close>.

  A state is the list of its slices. The gates of the S-box are written for words of any length, since each
  bit of the slices goes through them alone. Keys and blocks are arrays of the length the functions ask for.
\<close>

type_synonym aes_state = "16 word list"

section \<open>Slices\<close>

function load_bits :: "nat \<Rightarrow> byte \<Rightarrow> nat \<Rightarrow> aes_state \<Rightarrow> aes_state" where
  "load_bits i byte k s =
     (if i < 8 then load_bits (i + 1) (drop_bit 1 byte) k (s[i := s ! i OR push_bit k (ucast (byte AND 1))]) else s)"
  by auto
termination by (relation "measure (\<lambda>(i, _). 8 - i)") auto

declare load_bits.simps [simp del]

definition LoadByte :: "aes_state \<Rightarrow> byte \<Rightarrow> nat \<Rightarrow> nat \<Rightarrow> aes_state" where
  "LoadByte s byte r c = load_bits 0 byte (r * 4 + c) s"

text \<open>The order in which the loops over columns and rows visit the cells.\<close>

definition cells :: "(nat \<times> nat) list" where
  "cells = [(r, c). c \<leftarrow> [0..<4], r \<leftarrow> [0..<4]]"

definition LoadBytes :: "aes_state \<Rightarrow> bytes \<Rightarrow> aes_state" where
  "LoadBytes s data16 = fold (\<lambda>(byte, r, c) s. LoadByte s byte r c) (zip data16 cells) s"

definition save_byte :: "aes_state \<Rightarrow> nat \<Rightarrow> nat \<Rightarrow> byte" where
  "save_byte s r c = fold (\<lambda>b v. v OR push_bit b (ucast (drop_bit (r * 4 + c) (s ! b) AND 1))) [0..<8] 0"

definition SaveBytes :: "aes_state \<Rightarrow> bytes" where
  "SaveBytes s = map (\<lambda>(r, c). save_byte s r c) cells"

section \<open>The S-box\<close>

text \<open>The linear parts and the common non-linear one, each with the variables that the next one uses.\<close>

definition sub_undo_post :: "'a :: len word list \<Rightarrow> 'a word list" where
  "sub_undo_post s =
     (let U0 = s ! 7; U1 = s ! 6; U2 = s ! 5; U3 = s ! 4; U4 = s ! 3; U5 = s ! 2; U6 = s ! 1; U7 = s ! 0;
          T23 = U0 XOR U3; T22 = NOT (U1 XOR U3); T2 = NOT (U0 XOR U1); T1 = U3 XOR U4; T24 = NOT (U4 XOR U7);
          R5 = U6 XOR U7; T8 = NOT (U1 XOR T23); T19 = T22 XOR R5; T9 = NOT (U7 XOR T1); T10 = T2 XOR T24;
          T13 = T2 XOR R5; T3 = T1 XOR R5; T25 = NOT (U2 XOR T1); R13 = U1 XOR U6; T17 = NOT (U2 XOR T19);
          T20 = T24 XOR R13; T4 = U4 XOR T8; R17 = NOT (U2 XOR U5); R18 = NOT (U5 XOR U6); R19 = NOT (U2 XOR U4);
          D = U0 XOR R17; T6 = T22 XOR R17; T16 = R13 XOR R19; T27 = T1 XOR R18; T15 = T10 XOR T27;
          T14 = T10 XOR R18; T26 = T3 XOR T16
      in [T1, T2, T3, T4, T6, T8, T9, T10, T13, T14, T15,
          T16, T17, T19, T20, T22, T23, T24, T25, T26, T27, D])"

definition sub_pre :: "'a :: len word list \<Rightarrow> 'a word list" where
  "sub_pre s =
     (let U0 = s ! 7; U1 = s ! 6; U2 = s ! 5; U3 = s ! 4; U4 = s ! 3; U5 = s ! 2; U6 = s ! 1; U7 = s ! 0;
          T1 = U0 XOR U3; T2 = U0 XOR U5; T3 = U0 XOR U6; T4 = U3 XOR U5; T5 = U4 XOR U6; T6 = T1 XOR T5;
          T7 = U1 XOR U2; T8 = U7 XOR T6; T9 = U7 XOR T7; T10 = T6 XOR T7; T11 = U1 XOR U5; T12 = U2 XOR U5;
          T13 = T3 XOR T4; T14 = T6 XOR T11; T15 = T5 XOR T11; T16 = T5 XOR T12; T17 = T9 XOR T16; T18 = U3 XOR U7;
          T19 = T7 XOR T18; T20 = T1 XOR T19; T21 = U6 XOR U7; T22 = T7 XOR T21; T23 = T2 XOR T22; T24 = T2 XOR T10;
          T25 = T20 XOR T17; T26 = T3 XOR T16; T27 = T1 XOR T12; D = U7
      in [T1, T2, T3, T4, T6, T8, T9, T10, T13, T14, T15,
          T16, T17, T19, T20, T22, T23, T24, T25, T26, T27, D])"

definition sub_core :: "'a :: len word list \<Rightarrow> 'a word list" where
  "sub_core T =
     (let T1 = T ! 0; T2 = T ! 1; T3 = T ! 2; T4 = T ! 3; T6 = T ! 4; T8 = T ! 5; T9 = T ! 6; T10 = T ! 7;
          T13 = T ! 8; T14 = T ! 9; T15 = T ! 10; T16 = T ! 11; T17 = T ! 12; T19 = T ! 13; T20 = T ! 14;
          T22 = T ! 15; T23 = T ! 16; T24 = T ! 17; T25 = T ! 18; T26 = T ! 19; T27 = T ! 20; D = T ! 21;
          M1 = T13 AND T6; M6 = T3 AND T16; M11 = T1 AND T15; M13 = (T4 AND T27) XOR M11;
          M15 = (T2 AND T10) XOR M11; M20 = T14 XOR M1 XOR (T23 AND T8) XOR M13;
          M21 = (T19 AND D) XOR M1 XOR T24 XOR M15; M22 = T26 XOR M6 XOR (T22 AND T9) XOR M13;
          M23 = (T20 AND T17) XOR M6 XOR M15 XOR T25; M25 = M22 AND M20;
          M37 = M21 XOR ((M20 XOR M21) AND (M23 XOR M25)); M38 = M20 XOR M25 XOR (M21 OR (M20 AND M23));
          M39 = M23 XOR ((M22 XOR M23) AND (M21 XOR M25)); M40 = M22 XOR M25 XOR (M23 OR (M21 AND M22));
          M41 = M38 XOR M40; M42 = M37 XOR M39; M43 = M37 XOR M38; M44 = M39 XOR M40; M45 = M42 XOR M41;
          M46 = M44 AND T6; M47 = M40 AND T8; M48 = M39 AND D; M49 = M43 AND T16; M50 = M38 AND T9;
          M51 = M37 AND T17; M52 = M42 AND T15; M53 = M45 AND T27; M54 = M41 AND T10; M55 = M44 AND T13;
          M56 = M40 AND T23; M57 = M39 AND T19; M58 = M43 AND T3; M59 = M38 AND T22; M60 = M37 AND T20;
          M61 = M42 AND T1; M62 = M45 AND T4; M63 = M41 AND T2
      in [M46, M47, M48, M49, M50, M51, M52, M53, M54, M55, M56, M57, M58, M59, M60, M61, M62, M63])"

definition sub_undo_pre :: "'a :: len word list \<Rightarrow> 'a word list" where
  "sub_undo_pre M =
     (let M46 = M ! 0; M47 = M ! 1; M48 = M ! 2; M49 = M ! 3; M50 = M ! 4; M51 = M ! 5; M52 = M ! 6; M53 = M ! 7;
          M54 = M ! 8; M55 = M ! 9; M56 = M ! 10; M57 = M ! 11; M58 = M ! 12; M59 = M ! 13; M60 = M ! 14;
          M61 = M ! 15; M62 = M ! 16; M63 = M ! 17; P0 = M52 XOR M61; P1 = M58 XOR M59; P2 = M54 XOR M62;
          P3 = M47 XOR M50; P4 = M48 XOR M56; P5 = M46 XOR M51; P6 = M49 XOR M60; P7 = P0 XOR P1; P8 = M50 XOR M53;
          P9 = M55 XOR M63; P10 = M57 XOR P4; P11 = P0 XOR P3; P12 = M46 XOR M48; P13 = M49 XOR M51;
          P14 = M49 XOR M62; P15 = M54 XOR M59; P16 = M57 XOR M61; P17 = M58 XOR P2; P18 = M63 XOR P5;
          P19 = P2 XOR P3; P20 = P4 XOR P6; P22 = P2 XOR P7; P23 = P7 XOR P8; P24 = P5 XOR P7; P25 = P6 XOR P10;
          P26 = P9 XOR P11; P27 = P10 XOR P18; P28 = P11 XOR P25; P29 = P15 XOR P20
      in [P9 XOR P16, P14 XOR P23, P19 XOR P24, P23 XOR P27,
          P12 XOR P22, P17 XOR P28, P26 XOR P29, P13 XOR P22])"

definition sub_post :: "'a :: len word list \<Rightarrow> 'a word list" where
  "sub_post M =
     (let M46 = M ! 0; M47 = M ! 1; M48 = M ! 2; M49 = M ! 3; M50 = M ! 4; M51 = M ! 5; M52 = M ! 6; M53 = M ! 7;
          M54 = M ! 8; M55 = M ! 9; M56 = M ! 10; M57 = M ! 11; M58 = M ! 12; M59 = M ! 13; M60 = M ! 14;
          M61 = M ! 15; M62 = M ! 16; M63 = M ! 17; L0 = M61 XOR M62; L1 = M50 XOR M56; L2 = M46 XOR M48;
          L3 = M47 XOR M55; L4 = M54 XOR M58; L5 = M49 XOR M61; L6 = M62 XOR L5; L7 = M46 XOR L3; L8 = M51 XOR M59;
          L9 = M52 XOR M53; L10 = M53 XOR L4; L11 = M60 XOR L2; L12 = M48 XOR M51; L13 = M50 XOR L0;
          L14 = M52 XOR M61; L15 = M55 XOR L1; L16 = M56 XOR L0; L17 = M57 XOR L1; L18 = M58 XOR L8;
          L19 = M63 XOR L4; L20 = L0 XOR L1; L21 = L1 XOR L7; L22 = L3 XOR L12; L23 = L18 XOR L2; L24 = L15 XOR L9;
          L25 = L6 XOR L10; L26 = L7 XOR L9; L27 = L8 XOR L10; L28 = L11 XOR L14; L29 = L11 XOR L17
      in [NOT (L6 XOR L23), NOT (L13 XOR L27), L25 XOR L29, L20 XOR L22,
          L6 XOR L21, NOT (L19 XOR L28), NOT (L16 XOR L26), L6 XOR L24])"

definition SubBytes :: "'a :: len word list \<Rightarrow> bool \<Rightarrow> 'a word list" where
  "SubBytes s undo = (if undo then sub_undo_pre (sub_core (sub_undo_post s)) else sub_post (sub_core (sub_pre s)))"

section \<open>The other steps\<close>

definition BIT_RANGE :: "nat \<Rightarrow> nat \<Rightarrow> 16 word" where
  "BIT_RANGE from to = push_bit from (push_bit (to - from) 1 - 1)"

definition BIT_RANGE_LEFT :: "16 word \<Rightarrow> nat \<Rightarrow> nat \<Rightarrow> nat \<Rightarrow> 16 word" where
  "BIT_RANGE_LEFT x from to shift = push_bit shift (x AND BIT_RANGE from to)"

definition BIT_RANGE_RIGHT :: "16 word \<Rightarrow> nat \<Rightarrow> nat \<Rightarrow> nat \<Rightarrow> 16 word" where
  "BIT_RANGE_RIGHT x from to shift = drop_bit shift (x AND BIT_RANGE from to)"

definition ShiftRows :: "aes_state \<Rightarrow> aes_state" where
  "ShiftRows s = map (\<lambda>v.
     (v AND BIT_RANGE 0 4) OR
     BIT_RANGE_LEFT v 4 5 3 OR BIT_RANGE_RIGHT v 5 8 1 OR
     BIT_RANGE_LEFT v 8 10 2 OR BIT_RANGE_RIGHT v 10 12 2 OR
     BIT_RANGE_LEFT v 12 15 1 OR BIT_RANGE_RIGHT v 15 16 3) s"

definition InvShiftRows :: "aes_state \<Rightarrow> aes_state" where
  "InvShiftRows s = map (\<lambda>v.
     (v AND BIT_RANGE 0 4) OR
     BIT_RANGE_LEFT v 4 7 1 OR BIT_RANGE_RIGHT v 7 8 3 OR
     BIT_RANGE_LEFT v 8 10 2 OR BIT_RANGE_RIGHT v 10 12 2 OR
     BIT_RANGE_LEFT v 12 13 3 OR BIT_RANGE_RIGHT v 13 16 1) s"

definition ROT :: "16 word \<Rightarrow> nat \<Rightarrow> 16 word" where
  "ROT x b = (drop_bit (b * 4) x OR push_bit ((4 - b) * 4) x)"

definition mix_forward :: "aes_state \<Rightarrow> aes_state" where
  "mix_forward s =
     (let s0 = s ! 0; s1 = s ! 1; s2 = s ! 2; s3 = s ! 3; s4 = s ! 4; s5 = s ! 5; s6 = s ! 6; s7 = s ! 7;
          s0_01 = s0 XOR ROT s0 1; s0_123 = ROT s0_01 1 XOR ROT s0 3;
          s1_01 = s1 XOR ROT s1 1; s1_123 = ROT s1_01 1 XOR ROT s1 3;
          s2_01 = s2 XOR ROT s2 1; s2_123 = ROT s2_01 1 XOR ROT s2 3;
          s3_01 = s3 XOR ROT s3 1; s3_123 = ROT s3_01 1 XOR ROT s3 3;
          s4_01 = s4 XOR ROT s4 1; s4_123 = ROT s4_01 1 XOR ROT s4 3;
          s5_01 = s5 XOR ROT s5 1; s5_123 = ROT s5_01 1 XOR ROT s5 3;
          s6_01 = s6 XOR ROT s6 1; s6_123 = ROT s6_01 1 XOR ROT s6 3;
          s7_01 = s7 XOR ROT s7 1; s7_123 = ROT s7_01 1 XOR ROT s7 3
      in [s7_01 XOR s0_123,
          s7_01 XOR s0_01 XOR s1_123,
          s1_01 XOR s2_123,
          s7_01 XOR s2_01 XOR s3_123,
          s7_01 XOR s3_01 XOR s4_123,
          s4_01 XOR s5_123,
          s5_01 XOR s6_123,
          s6_01 XOR s7_123])"

definition mix_more :: "aes_state \<Rightarrow> aes_state" where
  "mix_more s =
     (let t0_02 = s ! 0 XOR ROT (s ! 0) 2; t1_02 = s ! 1 XOR ROT (s ! 1) 2;
          t2_02 = s ! 2 XOR ROT (s ! 2) 2; t3_02 = s ! 3 XOR ROT (s ! 3) 2;
          t4_02 = s ! 4 XOR ROT (s ! 4) 2; t5_02 = s ! 5 XOR ROT (s ! 5) 2;
          t6_02 = s ! 6 XOR ROT (s ! 6) 2; t7_02 = s ! 7 XOR ROT (s ! 7) 2
      in [s ! 0 XOR t6_02,
          s ! 1 XOR (t6_02 XOR t7_02),
          s ! 2 XOR (t0_02 XOR t7_02),
          s ! 3 XOR (t1_02 XOR t6_02),
          s ! 4 XOR (t2_02 XOR t6_02 XOR t7_02),
          s ! 5 XOR (t3_02 XOR t7_02),
          s ! 6 XOR t4_02,
          s ! 7 XOR t5_02])"

definition MixColumns :: "aes_state \<Rightarrow> bool \<Rightarrow> aes_state" where
  "MixColumns s undo = (if undo then mix_more (mix_forward s) else mix_forward s)"

definition AddRoundKey :: "aes_state \<Rightarrow> aes_state \<Rightarrow> aes_state" where
  "AddRoundKey s round = map2 (XOR) s round"

section \<open>The key schedule\<close>

definition GetOneColumn :: "aes_state \<Rightarrow> nat \<Rightarrow> aes_state" where
  "GetOneColumn a c = map (\<lambda>v. drop_bit c v AND 0x1111) a"

definition KeySetupColumnMix :: "aes_state \<Rightarrow> aes_state \<Rightarrow> aes_state \<Rightarrow> nat \<Rightarrow> nat \<Rightarrow> aes_state \<times> aes_state" where
  "KeySetupColumnMix s r a c1 c2 =
     (let s = map2 (\<lambda>v w. v XOR (drop_bit c2 w AND 0x1111)) s a
      in (s, map2 (\<lambda>w v. w OR push_bit c1 (v AND 0x1111)) r s))"

definition KeySetupTransform :: "aes_state \<Rightarrow> aes_state \<Rightarrow> aes_state" where
  "KeySetupTransform s r = map2 (\<lambda>v w. (drop_bit 4 v OR push_bit 12 v) XOR w) s r"

definition MultX :: "aes_state \<Rightarrow> aes_state" where
  "MultX s =
     (let top = s ! 7
      in [top, s ! 0 XOR top, s ! 1, s ! 2 XOR top, s ! 3 XOR top, s ! 4, s ! 5, s ! 6])"

text \<open>The loop over the columns: the schedule, the last column, the round constant and the position.\<close>

type_synonym setup_state = "aes_state list \<times> aes_state \<times> aes_state \<times> nat"

definition transform_column :: "nat \<Rightarrow> aes_state \<Rightarrow> aes_state \<Rightarrow> nat \<Rightarrow> aes_state \<times> aes_state" where
  "transform_column nkeywords column rcon pos =
     (if pos = 0 then (KeySetupTransform (SubBytes column False) rcon, MultX rcon)
      else if nkeywords > 6 \<and> pos = 4 then (SubBytes column False, rcon)
      else (column, rcon))"

definition setup_step :: "nat \<Rightarrow> nat \<Rightarrow> setup_state \<Rightarrow> setup_state" where
  "setup_step nkeywords i = (\<lambda>(rounds, column, rcon, pos).
     case transform_column nkeywords column rcon pos of
       (column, rcon) \<Rightarrow>
         let pos = (if pos + 1 = nkeywords then 0 else pos + 1)
         in case KeySetupColumnMix column (rounds ! (i div 4)) (rounds ! ((i - nkeywords) div 4)) (i mod 4)
                   ((i - nkeywords) mod 4) of
              (column, r) \<Rightarrow> (rounds[i div 4 := r], column, rcon, pos))"

definition load_key :: "bytes \<Rightarrow> nat \<Rightarrow> aes_state list \<Rightarrow> aes_state list" where
  "load_key key nkeywords rounds =
     fold (\<lambda>(i, r) rounds. rounds[i div 4 := LoadByte (rounds ! (i div 4)) (key ! (4 * i + r)) r (i mod 4)])
       [(i, r). i \<leftarrow> [0..<nkeywords], r \<leftarrow> [0..<4]] rounds"

definition AES_setup :: "bytes \<Rightarrow> nat \<Rightarrow> nat \<Rightarrow> aes_state list" where
  "AES_setup key nkeywords nrounds =
     (let rounds = load_key key nkeywords (replicate (nrounds + 1) (replicate 8 0));
          column = GetOneColumn (rounds ! ((nkeywords - 1) div 4)) ((nkeywords - 1) mod 4)
      in fst (fold (setup_step nkeywords) [nkeywords..<4 * (nrounds + 1)] (rounds, column, [1, 0, 0, 0, 0, 0, 0, 0], 0)))"

section \<open>Blocks\<close>

definition AES_encrypt :: "aes_state list \<Rightarrow> nat \<Rightarrow> bytes \<Rightarrow> bytes" where
  "AES_encrypt rounds nrounds plain16 =
     (let s = AddRoundKey (LoadBytes (replicate 8 0) plain16) (rounds ! 0);
          s = fold (\<lambda>round s. AddRoundKey (MixColumns (ShiftRows (SubBytes s False)) False) (rounds ! round)) [1..<nrounds] s
      in SaveBytes (AddRoundKey (ShiftRows (SubBytes s False)) (rounds ! nrounds)))"

definition AES_decrypt :: "aes_state list \<Rightarrow> nat \<Rightarrow> bytes \<Rightarrow> bytes" where
  "AES_decrypt rounds nrounds cipher16 =
     (let s = AddRoundKey (LoadBytes (replicate 8 0) cipher16) (rounds ! nrounds);
          s = fold (\<lambda>round s. MixColumns (AddRoundKey (SubBytes (InvShiftRows s) True) (rounds ! (nrounds - round))) True)
                [1..<nrounds] s
      in SaveBytes (AddRoundKey (SubBytes (InvShiftRows s) True) (rounds ! 0)))"

fun each_block :: "(bytes \<Rightarrow> bytes) \<Rightarrow> nat \<Rightarrow> bytes \<Rightarrow> bytes" where
  "each_block f 0 bs = []"
| "each_block f (Suc blocks) bs = f (take 16 bs) @ each_block f blocks (drop 16 bs)"

definition AES128_init :: "bytes \<Rightarrow> aes_state list" where
  "AES128_init key16 = AES_setup key16 4 10"

definition AES128_encrypt :: "aes_state list \<Rightarrow> nat \<Rightarrow> bytes \<Rightarrow> bytes" where
  "AES128_encrypt ctx blocks plain16 = each_block (AES_encrypt ctx 10) blocks plain16"

definition AES128_decrypt :: "aes_state list \<Rightarrow> nat \<Rightarrow> bytes \<Rightarrow> bytes" where
  "AES128_decrypt ctx blocks cipher16 = each_block (AES_decrypt ctx 10) blocks cipher16"

definition AES192_init :: "bytes \<Rightarrow> aes_state list" where
  "AES192_init key24 = AES_setup key24 6 12"

definition AES192_encrypt :: "aes_state list \<Rightarrow> nat \<Rightarrow> bytes \<Rightarrow> bytes" where
  "AES192_encrypt ctx blocks plain16 = each_block (AES_encrypt ctx 12) blocks plain16"

definition AES192_decrypt :: "aes_state list \<Rightarrow> nat \<Rightarrow> bytes \<Rightarrow> bytes" where
  "AES192_decrypt ctx blocks cipher16 = each_block (AES_decrypt ctx 12) blocks cipher16"

definition AES256_init :: "bytes \<Rightarrow> aes_state list" where
  "AES256_init key32 = AES_setup key32 8 14"

definition AES256_encrypt :: "aes_state list \<Rightarrow> nat \<Rightarrow> bytes \<Rightarrow> bytes" where
  "AES256_encrypt ctx blocks plain16 = each_block (AES_encrypt ctx 14) blocks plain16"

definition AES256_decrypt :: "aes_state list \<Rightarrow> nat \<Rightarrow> bytes \<Rightarrow> bytes" where
  "AES256_decrypt ctx blocks cipher16 = each_block (AES_decrypt ctx 14) blocks cipher16"

end
