(* ===== verification/AesFacts.thy ===== *)
theory AesFacts
  imports Aes
begin

text \<open>
  \<open>FIPS-197\<close>, and that the sliced cipher computes it: every step on slices is the standard's step on bytes.
  \<open>cell\<close> is the byte at a position of the slices. The gates of the S-box act on each cell alone, so it is
  enough to run them once on words of 256 bits whose lanes hold all bytes.
\<close>

section \<open>The standard\<close>

definition fips_sbox :: bytes where
  "fips_sbox =
     [0x63, 0x7c, 0x77, 0x7b, 0xf2, 0x6b, 0x6f, 0xc5, 0x30, 0x01, 0x67, 0x2b, 0xfe, 0xd7, 0xab, 0x76,
      0xca, 0x82, 0xc9, 0x7d, 0xfa, 0x59, 0x47, 0xf0, 0xad, 0xd4, 0xa2, 0xaf, 0x9c, 0xa4, 0x72, 0xc0,
      0xb7, 0xfd, 0x93, 0x26, 0x36, 0x3f, 0xf7, 0xcc, 0x34, 0xa5, 0xe5, 0xf1, 0x71, 0xd8, 0x31, 0x15,
      0x04, 0xc7, 0x23, 0xc3, 0x18, 0x96, 0x05, 0x9a, 0x07, 0x12, 0x80, 0xe2, 0xeb, 0x27, 0xb2, 0x75,
      0x09, 0x83, 0x2c, 0x1a, 0x1b, 0x6e, 0x5a, 0xa0, 0x52, 0x3b, 0xd6, 0xb3, 0x29, 0xe3, 0x2f, 0x84,
      0x53, 0xd1, 0x00, 0xed, 0x20, 0xfc, 0xb1, 0x5b, 0x6a, 0xcb, 0xbe, 0x39, 0x4a, 0x4c, 0x58, 0xcf,
      0xd0, 0xef, 0xaa, 0xfb, 0x43, 0x4d, 0x33, 0x85, 0x45, 0xf9, 0x02, 0x7f, 0x50, 0x3c, 0x9f, 0xa8,
      0x51, 0xa3, 0x40, 0x8f, 0x92, 0x9d, 0x38, 0xf5, 0xbc, 0xb6, 0xda, 0x21, 0x10, 0xff, 0xf3, 0xd2,
      0xcd, 0x0c, 0x13, 0xec, 0x5f, 0x97, 0x44, 0x17, 0xc4, 0xa7, 0x7e, 0x3d, 0x64, 0x5d, 0x19, 0x73,
      0x60, 0x81, 0x4f, 0xdc, 0x22, 0x2a, 0x90, 0x88, 0x46, 0xee, 0xb8, 0x14, 0xde, 0x5e, 0x0b, 0xdb,
      0xe0, 0x32, 0x3a, 0x0a, 0x49, 0x06, 0x24, 0x5c, 0xc2, 0xd3, 0xac, 0x62, 0x91, 0x95, 0xe4, 0x79,
      0xe7, 0xc8, 0x37, 0x6d, 0x8d, 0xd5, 0x4e, 0xa9, 0x6c, 0x56, 0xf4, 0xea, 0x65, 0x7a, 0xae, 0x08,
      0xba, 0x78, 0x25, 0x2e, 0x1c, 0xa6, 0xb4, 0xc6, 0xe8, 0xdd, 0x74, 0x1f, 0x4b, 0xbd, 0x8b, 0x8a,
      0x70, 0x3e, 0xb5, 0x66, 0x48, 0x03, 0xf6, 0x0e, 0x61, 0x35, 0x57, 0xb9, 0x86, 0xc1, 0x1d, 0x9e,
      0xe1, 0xf8, 0x98, 0x11, 0x69, 0xd9, 0x8e, 0x94, 0x9b, 0x1e, 0x87, 0xe9, 0xce, 0x55, 0x28, 0xdf,
      0x8c, 0xa1, 0x89, 0x0d, 0xbf, 0xe6, 0x42, 0x68, 0x41, 0x99, 0x2d, 0x0f, 0xb0, 0x54, 0xbb, 0x16]"

text \<open>The byte in row \<open>r\<close> and column \<open>c\<close> is at place \<open>r + 4 * c\<close>.\<close>

definition fips_SubBytes :: "bytes \<Rightarrow> bytes" where
  "fips_SubBytes s = map (\<lambda>b. fips_sbox ! unat b) s"

definition fips_ShiftRows :: "bytes \<Rightarrow> bytes" where
  "fips_ShiftRows s = map (\<lambda>i. s ! ((i + 4 * (i mod 4)) mod 16)) [0..<16]"

definition xtime :: "byte \<Rightarrow> byte" where
  "xtime b = (push_bit 1 b XOR (if bit b 7 then 0x1b else 0))"

definition fips_MixColumns :: "bytes \<Rightarrow> bytes" where
  "fips_MixColumns s = map (\<lambda>i.
     let a = (\<lambda>k. s ! (4 * (i div 4) + (i + k) mod 4))
     in xtime (a 0) XOR (xtime (a 1) XOR a 1) XOR a 2 XOR a 3) [0..<16]"

definition fips_AddRoundKey :: "bytes \<Rightarrow> bytes \<Rightarrow> bytes" where
  "fips_AddRoundKey s w = map2 (XOR) s w"

text \<open>Word \<open>i\<close> of the expansion of a key of \<open>nk\<close> words.\<close>

fun fips_Rcon :: "nat \<Rightarrow> bytes" where
  "fips_Rcon j = [(xtime ^^ (j - 1)) 1, 0, 0, 0]"

function fips_word :: "bytes \<Rightarrow> nat \<Rightarrow> nat \<Rightarrow> bytes" where
  "fips_word key nk i =
     (if i < nk \<or> nk = 0 then take 4 (drop (4 * i) key)
      else
        let temp = fips_word key nk (i - 1);
            temp =
              (if i mod nk = 0 then map2 (XOR) (fips_SubBytes (rotate 1 temp)) (fips_Rcon (i div nk))
               else if nk > 6 \<and> i mod nk = 4 then fips_SubBytes temp
               else temp)
        in map2 (XOR) (fips_word key nk (i - nk)) temp)"
  by pat_completeness auto
termination by (relation "measure (\<lambda>(key, nk, i). i)") auto

declare fips_word.simps [simp del]

definition fips_round_key :: "bytes \<Rightarrow> nat \<Rightarrow> bytes" where
  "fips_round_key key r = concat (map (fips_word key (length key div 4)) [4 * r..<4 * r + 4])"

text \<open>The number of rounds is ten for a key of four words, and grows with it.\<close>

definition fips_Cipher :: "bytes \<Rightarrow> bytes \<Rightarrow> bytes" where
  "fips_Cipher key input =
     (let nr = length key div 4 + 6;
          s = fips_AddRoundKey input (fips_round_key key 0);
          s = fold (\<lambda>r s. fips_AddRoundKey (fips_MixColumns (fips_ShiftRows (fips_SubBytes s))) (fips_round_key key r)) [1..<nr] s
      in fips_AddRoundKey (fips_ShiftRows (fips_SubBytes s)) (fips_round_key key nr))"

section \<open>The gates of the S-box\<close>

text \<open>Bit \<open>i\<close> of one word equals bit \<open>k\<close> of the other.\<close>

definition rel :: "nat \<Rightarrow> nat \<Rightarrow> 'a :: len word \<Rightarrow> 'b :: len word \<Rightarrow> bool" where
  "rel i k x y \<longleftrightarrow> i < LENGTH('a) \<and> k < LENGTH('b) \<and> bit x i = bit y k"

lemma rel_ops:
  "rel i k x y \<Longrightarrow> rel i k x' y' \<Longrightarrow> rel i k (x XOR x') (y XOR y')"
  "rel i k x y \<Longrightarrow> rel i k x' y' \<Longrightarrow> rel i k (x AND x') (y AND y')"
  "rel i k x y \<Longrightarrow> rel i k x' y' \<Longrightarrow> rel i k (x OR x') (y OR y')"
  "rel i k x y \<Longrightarrow> rel i k (NOT x) (NOT y)"
  by (auto simp: rel_def bit_simps)

lemma rel_let:
  assumes "rel i k e e'" and "\<And>x y. rel i k x y \<Longrightarrow> list_all2 (rel i k) (f x) (f' y)"
  shows "list_all2 (rel i k) (Let e f) (Let e' f')"
  using assms by (simp add: Let_def)

lemma rel_nth: "list_all2 (rel i k) xs ys \<Longrightarrow> length xs = n \<Longrightarrow> j < n \<Longrightarrow> rel i k (xs ! j) (ys ! j)"
  by (simp add: list_all2_nthD)

lemma rel_lists:
  "list_all2 (rel i k) [] []"
  "rel i k x y \<Longrightarrow> list_all2 (rel i k) xs ys \<Longrightarrow> list_all2 (rel i k) (x # xs) (y # ys)"
  by simp_all

lemma rel_pre:
  assumes "list_all2 (rel i k) s t" and "length s = 8"
  shows "list_all2 (rel i k) (sub_pre s) (sub_pre t)"
  unfolding sub_pre_def
  by (intro rel_let rel_lists rel_ops) (assumption | rule rel_nth [OF assms], simp)+

lemma rel_undo_post:
  assumes "list_all2 (rel i k) s t" and "length s = 8"
  shows "list_all2 (rel i k) (sub_undo_post s) (sub_undo_post t)"
  unfolding sub_undo_post_def
  by (intro rel_let rel_lists rel_ops) (assumption | rule rel_nth [OF assms], simp)+

lemma rel_core:
  assumes "list_all2 (rel i k) s t" and "length s = 22"
  shows "list_all2 (rel i k) (sub_core s) (sub_core t)"
  unfolding sub_core_def
  by (intro rel_let rel_lists rel_ops) (assumption | rule rel_nth [OF assms], simp)+

lemma rel_post:
  assumes "list_all2 (rel i k) s t" and "length s = 18"
  shows "list_all2 (rel i k) (sub_post s) (sub_post t)"
  unfolding sub_post_def
  by (intro rel_let rel_lists rel_ops) (assumption | rule rel_nth [OF assms], simp)+

lemma rel_undo_pre:
  assumes "list_all2 (rel i k) s t" and "length s = 18"
  shows "list_all2 (rel i k) (sub_undo_pre s) (sub_undo_pre t)"
  unfolding sub_undo_pre_def
  by (intro rel_let rel_lists rel_ops) (assumption | rule rel_nth [OF assms], simp)+

lemma length_gates [simp]:
  "length (sub_pre s) = 22" "length (sub_undo_post s) = 22" "length (sub_core s) = 18" "length (sub_post s) = 8"
  "length (sub_undo_pre s) = 8"
  by (simp_all add: sub_pre_def sub_undo_post_def sub_core_def sub_post_def sub_undo_pre_def Let_def)

lemma length_SubBytes [simp]: "length (SubBytes s undo) = 8"
  by (simp add: SubBytes_def)

lemma rel_SubBytes:
  assumes "list_all2 (rel i k) s t" and "length s = 8"
  shows "list_all2 (rel i k) (SubBytes s undo) (SubBytes t undo)"
  using assms by (auto simp: SubBytes_def intro!: rel_pre rel_undo_post rel_core rel_post rel_undo_pre)

section \<open>Lanes\<close>

definition cell :: "'a :: len word list \<Rightarrow> nat \<Rightarrow> byte" where
  "cell s p = fold (\<lambda>b v. v OR push_bit b (of_bool (bit (s ! b) p))) [0..<8] 0"

lemma upt_eight: "[0..<8] = [0, 1, 2, 3, 4, 5, 6, 7 :: nat]"
  by (simp add: upt_rec)

lemma below_eight: "b < 8 \<longleftrightarrow> b \<in> {0, 1, 2, 3, 4, 5, 6, 7 :: nat}"
  by auto

lemma bit_lane_fold:
  "bit (fold (\<lambda>b v. v OR push_bit b (of_bool (bit (s ! b) p))) bs v :: byte) n \<longleftrightarrow>
    bit v n \<or> n < 8 \<and> n \<in> set bs \<and> bit (s ! n) p"
proof (induction bs arbitrary: v)
  case (Cons c bs)
  have "bit (v OR push_bit c (of_bool (bit (s ! c) p)) :: byte) n \<longleftrightarrow> bit v n \<or> n < 8 \<and> n = c \<and> bit (s ! c) p"
    by (cases "n = c") (auto simp: bit_or_iff bit_push_bit_iff bit_of_bool_iff)
  then show ?case unfolding fold.simps comp_apply Cons.IH by auto
qed simp

lemma bit_lane: "bit (cell s p) b \<longleftrightarrow> b < 8 \<and> bit (s ! b) p"
  by (simp add: cell_def bit_lane_fold)

lemma lane_eqI: "(\<And>b. b < 8 \<Longrightarrow> bit (s ! b) p = bit v b) \<Longrightarrow> cell s p = v"
  by (rule bit_word_eqI) (simp add: bit_lane)

text \<open>The word whose lanes are bit \<open>b\<close> of the bytes of a list.\<close>

fun slice_of :: "bytes \<Rightarrow> nat \<Rightarrow> 256 word" where
  "slice_of [] b = 0"
| "slice_of (x # xs) b = 2 * slice_of xs b OR of_bool (bit x b)"

lemma bit_slice_of: "length bs \<le> 256 \<Longrightarrow> k < length bs \<Longrightarrow> bit (slice_of bs b) k = bit (bs ! k) b"
proof (induction bs arbitrary: k)
  case (Cons x bs)
  then show ?case by (cases k) (auto simp: bit_or_iff bit_of_bool_iff bit_double_iff)
qed simp

definition all_bytes :: bytes where
  "all_bytes = map word_of_nat [0..<256]"

definition all_slices :: "256 word list" where
  "all_slices =
     [0xaaaaaaaaaaaaaaaaaaaaaaaaaaaaaaaaaaaaaaaaaaaaaaaaaaaaaaaaaaaaaaaa,
      0xcccccccccccccccccccccccccccccccccccccccccccccccccccccccccccccccc,
      0xf0f0f0f0f0f0f0f0f0f0f0f0f0f0f0f0f0f0f0f0f0f0f0f0f0f0f0f0f0f0f0f0,
      0xff00ff00ff00ff00ff00ff00ff00ff00ff00ff00ff00ff00ff00ff00ff00ff00,
      0xffff0000ffff0000ffff0000ffff0000ffff0000ffff0000ffff0000ffff0000,
      0xffffffff00000000ffffffff00000000ffffffff00000000ffffffff00000000,
      0xffffffffffffffff0000000000000000ffffffffffffffff0000000000000000,
      0xffffffffffffffffffffffffffffffff00000000000000000000000000000000]"

definition sbox_slices :: "256 word list" where
  "sbox_slices =
     [0x4f1ead396f247a0410bdb210c006eab568ab4bfa8acb7a13b14ede67096c6eed,
      0xc870974094ead8a96a450b2ef33486b4e61a4c5e97816f7a7bae007d4c53fc7d,
      0xac39b6c0d6ce2efc577d64e03b0c3ffb23a869a2a428c424a16387fb3b48b4c6,
      0x4e9ddb76c892fb1be9da849cf6ac6c1b2568ea2effa8527d109020a2193d586a,
      0xf210a3aece472e532624b286bc48ecb4f7f17a494ce30f58c2b0f97752b8b11e,
      0x54b248130b4f256f7d8dcc4706319e086bc2aa4e0d787aa4f8045f7b6d98dd7f,
      0x21e0b833255917823f6bcb91b30db559e4851b3bf3ab2560980a3cc2c2fdb4ff,
      0x52379de7b844e3e14cb3770196ca0329e7bac28f866aac825caa2ec7bf977090]"

lemma slices_sbox: "map (slice_of fips_sbox) [0..<8] = sbox_slices"
  by (simp add: fips_sbox_def sbox_slices_def upt_eight bit_simps)

lemma gates_forward: "SubBytes all_slices False = sbox_slices"
  by (simp add: SubBytes_def sub_pre_def sub_core_def sub_post_def all_slices_def sbox_slices_def cong: let_weak_cong)

lemma gates_backward: "SubBytes sbox_slices True = all_slices"
  by (simp add: SubBytes_def sub_undo_pre_def sub_core_def sub_undo_post_def all_slices_def sbox_slices_def cong: let_weak_cong)

lemma slices_all: "map (slice_of all_bytes) [0..<8] = all_slices"
  by (simp add: all_bytes_def all_slices_def upt_eight upt_rec bit_simps)

lemma rel_slices:
  assumes "map (slice_of bs) [0..<8] = t" and "length bs = 256" and "length (s :: aes_state) = 8" and "p < 16" and "k < 256"
    and "cell s p = bs ! k"
  shows "list_all2 (rel p k) s t"
proof (rule list_all2_all_nthI)
  show "length s = length t" using assms(1,3) by auto
  fix b assume b: "b < length s"
  then have t: "t ! b = slice_of bs b" using assms(1,3) by auto
  have "bit (s ! b) p = bit (bs ! k) b" using b assms(3) bit_lane [of s p b] unfolding assms(6) by simp
  then show "rel p k (s ! b) (t ! b)"
    using assms(2,4,5) by (simp add: rel_def t bit_slice_of)
qed

lemma lane_rel:
  assumes "list_all2 (rel p k) s (map (slice_of bs) [0..<8])" and "length bs = 256" and "k < 256"
  shows "cell s p = bs ! k"
proof (rule lane_eqI)
  fix b :: nat assume b: "b < 8"
  have "length s = 8" using assms(1) by (simp add: list_all2_lengthD)
  then have "rel p k (s ! b) (slice_of bs b)" using rel_nth [OF assms(1), of 8 b] b by simp
  then show "bit (s ! b) p = bit (bs ! k) b" using assms(2,3) by (simp add: rel_def bit_slice_of)
qed

lemma nth_all_bytes: "k < 256 \<Longrightarrow> all_bytes ! k = word_of_nat k"
  by (simp add: all_bytes_def)

lemma length_sbox: "length fips_sbox = 256" "length all_bytes = 256"
  by (simp_all add: fips_sbox_def all_bytes_def)

lemma lane_SubBytes:
  assumes "length (s :: aes_state) = 8" and "p < 16"
  shows "cell (SubBytes s False) p = fips_sbox ! unat (cell s p)"
proof -
  let ?k = "unat (cell s p)"
  have k: "?k < 256" by (rule unat_byte_lt)
  have "list_all2 (rel p ?k) s all_slices"
    using assms k by (intro rel_slices [OF slices_all]) (simp_all add: nth_all_bytes length_sbox)
  then have "list_all2 (rel p ?k) (SubBytes s False) (map (slice_of fips_sbox) [0..<8])"
    unfolding slices_sbox gates_forward [symmetric] by (rule rel_SubBytes) (rule assms(1))
  then show ?thesis using k by (intro lane_rel) (simp_all add: length_sbox)
qed

lemma lane_SubBytes_undo:
  assumes "length (s :: aes_state) = 8" and "p < 16" and "cell s p = fips_sbox ! unat v"
  shows "cell (SubBytes s True) p = v"
proof -
  let ?k = "unat v"
  have k: "?k < 256" by (rule unat_byte_lt)
  have "list_all2 (rel p ?k) s sbox_slices"
    using assms k by (intro rel_slices [OF slices_sbox]) (simp_all add: length_sbox)
  then have "list_all2 (rel p ?k) (SubBytes s True) (map (slice_of all_bytes) [0..<8])"
    unfolding slices_all gates_backward [symmetric] by (rule rel_SubBytes) (rule assms(1))
  then show ?thesis using k lane_rel [of p ?k "SubBytes s True" all_bytes] by (simp add: length_sbox nth_all_bytes)
qed

lemma state_eqI:
  assumes "length (s :: aes_state) = 8" and "length t = 8" and "\<And>p. p < 16 \<Longrightarrow> cell s p = cell t p"
  shows "s = t"
proof (rule nth_equalityI)
  fix b assume b: "b < length s"
  show "s ! b = t ! b"
  proof (rule bit_word_eqI)
    fix p :: nat assume "p < LENGTH(16)"
    then have "cell s p = cell t p" using assms(3) by simp
    then show "bit (s ! b) p = bit (t ! b) p" using b assms(1) by (metis bit_lane)
  qed
qed (simp add: assms)

lemma SubBytes_undo: "length (s :: aes_state) = 8 \<Longrightarrow> SubBytes (SubBytes s False) True = s"
  by (rule state_eqI) (simp_all add: lane_SubBytes_undo [OF _ _ lane_SubBytes])

end
