(* ===== verification/AesSteps.thy ===== *)
theory AesSteps
  imports AesFacts
begin

text \<open>
  The other steps on slices against those on bytes: loading and saving, shifting rows, mixing columns; and that
  decryption undoes encryption.
\<close>

section \<open>Loading and saving\<close>

text \<open>The position in the slices of the byte at place \<open>i\<close>.\<close>

definition cell_place :: "nat \<Rightarrow> nat" where
  "cell_place i = i mod 4 * 4 + i div 4"

lemma place_less: "i < 16 \<Longrightarrow> cell_place i < 16"
proof -
  assume "i < 16"
  then have "i div 4 < 4" by (simp add: div_less_iff_less_mult)
  moreover have "i mod 4 < 4" by simp
  ultimately show ?thesis unfolding cell_place_def by linarith
qed

lemma place_place: "i < 16 \<Longrightarrow> cell_place (cell_place i) = i"
proof -
  assume "i < 16"
  then have d: "i div 4 < 4" by (simp add: div_less_iff_less_mult)
  then have "(i mod 4 * 4 + i div 4) mod 4 = i div 4" "(i mod 4 * 4 + i div 4) div 4 = i mod 4" by simp_all
  then show ?thesis unfolding cell_place_def by simp
qed

lemma save_byte_lane: "save_byte s r c = cell s (r * 4 + c)"
proof -
  have "(ucast (drop_bit k v AND 1) :: byte) = of_bool (bit v k)" for v :: "16 word" and k
    by (rule bit_word_eqI) (auto simp: bit_simps)
  then show ?thesis by (simp add: save_byte_def cell_def)
qed

lemma cells_list: "cells = map (\<lambda>i. (i mod 4, i div 4)) [0..<16]"
  by (simp add: cells_def upt_rec)

lemma SaveBytes_lanes: "SaveBytes s = map (\<lambda>i. cell s (cell_place i)) [0..<16]"
  by (simp add: SaveBytes_def cells_list save_byte_lane cell_place_def)

lemma length_SaveBytes [simp]: "length (SaveBytes s) = 16"
  by (simp add: SaveBytes_lanes)

lemma nth_SaveBytes: "i < 16 \<Longrightarrow> SaveBytes s ! i = cell s (cell_place i)"
  by (simp add: SaveBytes_lanes)

lemma SaveBytes_eqI:
  "length bs = 16 \<Longrightarrow> (\<And>i. i < 16 \<Longrightarrow> cell s (cell_place i) = bs ! i) \<Longrightarrow> SaveBytes s = bs"
  by (rule nth_equalityI) (simp_all add: nth_SaveBytes)

lemma SaveBytes_inject:
  assumes "SaveBytes s = SaveBytes t" and "length s = 8" and "length t = 8"
  shows "s = t"
proof (rule state_eqI [OF assms(2,3)])
  fix p :: nat assume "p < 16"
  then show "cell s p = cell t p"
    using assms(1) nth_SaveBytes [of "cell_place p"] by (metis place_less place_place)
qed

lemma load_bits_spec:
  assumes "length s = 8" and "k < 16"
  shows "length (load_bits i byte k s) = 8 \<and>
    (\<forall>b < 8. \<forall>p. bit (load_bits i byte k s ! b) p \<longleftrightarrow> bit (s ! b) p \<or> i \<le> b \<and> p = k \<and> bit byte (b - i))"
  using assms
proof (induction i byte k s rule: load_bits.induct)
  case (1 i byte k s)
  show ?case
  proof (cases "i < 8")
    case True
    define t where "t = s[i := s ! i OR push_bit k (ucast (byte AND 1))]"
    have t: "bit (t ! b) p \<longleftrightarrow> bit (s ! b) p \<or> b = i \<and> p = k \<and> bit byte 0" if "b < 8" for b p
      using that 1(2,3) True by (cases "b = i") (auto simp: t_def bit_simps)
    have "length (load_bits (i + 1) (drop_bit 1 byte) k t) = 8 \<and>
      (\<forall>b < 8. \<forall>p. bit (load_bits (i + 1) (drop_bit 1 byte) k t ! b) p \<longleftrightarrow>
         bit (t ! b) p \<or> i + 1 \<le> b \<and> p = k \<and> bit (drop_bit 1 byte) (b - (i + 1)))"
      using 1(1) [OF True, folded t_def] 1(2,3) by (simp add: t_def)
    moreover have "load_bits i byte k s = load_bits (i + 1) (drop_bit 1 byte) k t"
      using True by (subst load_bits.simps) (simp add: t_def)
    moreover have "(bit (t ! b) p \<or> i + 1 \<le> b \<and> p = k \<and> bit (drop_bit 1 byte) (b - (i + 1))) \<longleftrightarrow>
        bit (s ! b) p \<or> i \<le> b \<and> p = k \<and> bit byte (b - i)" if "b < 8" for b p
    proof (cases "i + 1 \<le> b")
      case True
      then have "bit (drop_bit 1 byte) (b - (i + 1)) = bit byte (b - i)"
        by (simp add: bit_drop_bit_eq Suc_diff_Suc Suc_le_eq)
      then show ?thesis using True that t by simp
    next
      case False
      then show ?thesis using that t by (cases "i = b") simp_all
    qed
    ultimately show ?thesis by simp
  next
    case False
    then show ?thesis using 1(2) by (subst load_bits.simps, subst load_bits.simps) auto
  qed
qed

lemma LoadByte_spec:
  assumes "length s = 8" and "r * 4 + c < 16"
  shows "length (LoadByte s byte r c) = 8"
    and "cell (LoadByte s byte r c) p = (if p = r * 4 + c then cell s p OR byte else cell s p)"
proof -
  note l = load_bits_spec [OF assms, of 0 byte, folded LoadByte_def]
  show "length (LoadByte s byte r c) = 8" using l by simp
  show "cell (LoadByte s byte r c) p = (if p = r * 4 + c then cell s p OR byte else cell s p)"
    using l by (intro lane_eqI) (auto simp: bit_or_iff bit_lane)
qed

definition key_of :: "nat \<times> nat \<Rightarrow> nat" where
  "key_of = (\<lambda>(r, c). r * 4 + c)"

lemma load_cells:
  assumes "length s = 8" and "\<forall>x \<in> set cs. key_of x < 16" and "length bs = length cs" and "distinct (map key_of cs)"
  shows "length (fold (\<lambda>(byte, r, c) s. LoadByte s byte r c) (zip bs cs) s) = 8 \<and>
    (\<forall>j < length cs.
       cell (fold (\<lambda>(byte, r, c) s. LoadByte s byte r c) (zip bs cs) s) (key_of (cs ! j)) = cell s (key_of (cs ! j)) OR bs ! j) \<and>
    (\<forall>p. p \<notin> key_of ` set cs \<longrightarrow> cell (fold (\<lambda>(byte, r, c) s. LoadByte s byte r c) (zip bs cs) s) p = cell s p)"
  using assms
proof (induction cs arbitrary: bs s)
  case (Cons x cs)
  obtain b bs' where bs: "bs = b # bs'" using Cons.prems(3) by (cases bs) auto
  define t where "t = LoadByte s b (fst x) (snd x)"
  have ok: "fst x * 4 + snd x < 16" using Cons.prems(2) by (simp add: key_of_def split: prod.splits)
  have key: "key_of x = fst x * 4 + snd x" by (simp add: key_of_def split: prod.split)
  have t: "length t = 8" "cell t p = (if p = key_of x then cell s p OR b else cell s p)" for p
    using LoadByte_spec [OF Cons.prems(1) ok] by (simp_all add: t_def key)
  have new: "key_of x \<notin> key_of ` set cs" using Cons.prems(4) by simp
  have run: "fold (\<lambda>(byte, r, c) s. LoadByte s byte r c) (zip bs (x # cs)) s =
      fold (\<lambda>(byte, r, c) s. LoadByte s byte r c) (zip bs' cs) t"
    by (simp add: bs t_def split: prod.split)
  note ih = Cons.IH [OF t(1), of bs']
  have len: "length (fold (\<lambda>(byte, r, c) s. LoadByte s byte r c) (zip bs' cs) t) = 8"
    and at: "\<And>j. j < length cs \<Longrightarrow>
       cell (fold (\<lambda>(byte, r, c) s. LoadByte s byte r c) (zip bs' cs) t) (key_of (cs ! j)) = cell t (key_of (cs ! j)) OR bs' ! j"
    and off: "\<And>p. p \<notin> key_of ` set cs \<Longrightarrow> cell (fold (\<lambda>(byte, r, c) s. LoadByte s byte r c) (zip bs' cs) t) p = cell t p"
    using ih Cons.prems(2-4) by (simp_all add: bs)
  have "key_of (cs ! j) \<noteq> key_of x" if "j < length cs" for j using new that by (metis image_eqI nth_mem)
  then show ?case unfolding run using len at off new t(2) by (auto simp: bs nth_Cons')
qed simp

lemma LoadBytes_lane:
  assumes "length s = 8" and "length bs = 16" and "i < 16"
  shows "length (LoadBytes s bs) = 8" and "cell (LoadBytes s bs) (cell_place i) = cell s (cell_place i) OR bs ! i"
proof -
  have len: "length cells = 16" by (simp add: cells_list)
  have all: "\<forall>x \<in> set cells. key_of x < 16" using place_less by (auto simp: cells_list key_of_def cell_place_def)
  have dist: "distinct (map key_of cells)" by (simp add: cells_list upt_rec key_of_def)
  have at: "key_of (cells ! i) = cell_place i" using assms(3) by (simp add: cells_list cell_place_def key_of_def)
  note l = load_cells [OF assms(1) all _ dist, of bs, folded LoadBytes_def]
  show "length (LoadBytes s bs) = 8" using l assms(2) len by simp
  show "cell (LoadBytes s bs) (cell_place i) = cell s (cell_place i) OR bs ! i"
    using l assms(2,3) len by (simp flip: at)
qed

lemma lane_zero: "p < 16 \<Longrightarrow> cell (replicate 8 (0 :: 16 word)) p = 0"
  by (rule lane_eqI) simp

lemma Save_Load: "length bs = 16 \<Longrightarrow> SaveBytes (LoadBytes (replicate 8 0) bs) = bs"
  by (rule SaveBytes_eqI) (simp_all add: LoadBytes_lane lane_zero place_less)

lemma length_Load: "length bs = 16 \<Longrightarrow> length (LoadBytes (replicate 8 0) bs) = 8"
  by (rule LoadBytes_lane(1) [where i = 0]) simp_all

lemma Load_Save: "length s = 8 \<Longrightarrow> LoadBytes (replicate 8 0) (SaveBytes s) = s"
  by (rule SaveBytes_inject) (simp_all add: Save_Load length_Load)

section \<open>Substitution and shifts\<close>

lemma Save_SubBytes: "length s = 8 \<Longrightarrow> SaveBytes (SubBytes s False) = fips_SubBytes (SaveBytes s)"
  by (rule SaveBytes_eqI) (simp_all add: fips_SubBytes_def nth_SaveBytes lane_SubBytes place_less)

lemma below_sixteen: "n < 16 \<longleftrightarrow> n \<in> {0, 1, 2, 3, 4, 5, 6, 7, 8, 9, 10, 11, 12, 13, 14, 15 :: nat}"
proof -
  have "n < 16 \<longleftrightarrow> n \<in> set [0..<16]" by simp
  then show ?thesis by (simp add: upt_rec numeral_eq_Suc)
qed

lemma bit_BIT_RANGE: "from \<le> to \<Longrightarrow> bit (BIT_RANGE from to) n \<longleftrightarrow> n < 16 \<and> from \<le> n \<and> n < to"
  by (auto simp: BIT_RANGE_def push_bit_eq_mult bit_push_bit_iff bit_mask_iff simp flip: push_bit_eq_mult mask_eq_exp_minus_1)

lemma bit_ranges:
  "from \<le> to \<Longrightarrow> bit (BIT_RANGE_LEFT x from to k) n \<longleftrightarrow> n < 16 \<and> k \<le> n \<and> from \<le> n - k \<and> n - k < to \<and> bit x (n - k)"
  "from \<le> to \<Longrightarrow> bit (BIT_RANGE_RIGHT x from to k) n \<longleftrightarrow> k + n < 16 \<and> from \<le> k + n \<and> k + n < to \<and> bit x (k + n)"
  by (auto simp: BIT_RANGE_LEFT_def BIT_RANGE_RIGHT_def bit_push_bit_iff bit_drop_bit_eq bit_and_iff bit_BIT_RANGE)

definition shift_word :: "16 word \<Rightarrow> 16 word" where
  "shift_word v = ShiftRows [v] ! 0"

definition unshift_word :: "16 word \<Rightarrow> 16 word" where
  "unshift_word v = InvShiftRows [v] ! 0"

lemma shifts_map: "ShiftRows s = map shift_word s" "InvShiftRows s = map unshift_word s"
  by (simp_all add: ShiftRows_def shift_word_def InvShiftRows_def unshift_word_def)

lemma bit_shift_word:
  assumes "i < 16"
  shows "bit (shift_word v) (cell_place i) = bit v (cell_place ((i + 4 * (i mod 4)) mod 16))"
  using assms unfolding below_sixteen
  by (elim insertE emptyE) (simp_all add: shift_word_def ShiftRows_def bit_or_iff bit_and_iff bit_ranges bit_BIT_RANGE cell_place_def)

lemma unshift_shift: "unshift_word (shift_word v) = v"
proof (rule bit_word_eqI)
  fix n :: nat assume "n < LENGTH(16)"
  then have "n < 16" by simp
  then show "bit (unshift_word (shift_word v)) n = bit v n"
    unfolding below_sixteen
    by (elim insertE emptyE)
      (simp_all add: shift_word_def unshift_word_def ShiftRows_def InvShiftRows_def bit_or_iff bit_and_iff bit_ranges bit_BIT_RANGE)
qed

lemma InvShiftRows_ShiftRows: "InvShiftRows (ShiftRows s) = s"
  by (simp add: shifts_map o_def unshift_shift)

lemma length_ShiftRows [simp]: "length (ShiftRows s) = length s"
  by (simp add: shifts_map)

lemma Save_ShiftRows: "length s = 8 \<Longrightarrow> SaveBytes (ShiftRows s) = fips_ShiftRows (SaveBytes s)"
proof (rule SaveBytes_eqI)
  fix i :: nat assume s: "length s = 8" and i: "i < 16"
  have "cell (ShiftRows s) (cell_place i) = cell s (cell_place ((i + 4 * (i mod 4)) mod 16))"
    using s i by (intro lane_eqI) (simp add: shifts_map bit_shift_word bit_lane)
  then show "cell (ShiftRows s) (cell_place i) = fips_ShiftRows (SaveBytes s) ! i"
    using i by (simp add: fips_ShiftRows_def nth_SaveBytes)
qed (simp add: fips_ShiftRows_def)

section \<open>Mixing columns\<close>

lemma bit_ROT: "n < 16 \<Longrightarrow> b \<in> {1, 2, 3} \<Longrightarrow> bit (ROT x b) n = bit x ((n + b * 4) mod 16)"
  unfolding below_sixteen by (auto simp: ROT_def bit_simps dest: bit_imp_le_length)

lemma ROT_xor: "b \<in> {1, 2, 3} \<Longrightarrow> ROT (x XOR y) b = ROT x b XOR ROT y b"
  by (rule bit_word_eqI) (auto simp: bit_ROT bit_xor_iff)

lemma turns: "(n + 20) mod 16 = (n + 4) mod (16 :: nat)" "(n + 24) mod 16 = (n + 8) mod (16 :: nat)"
  using mod_add_self2 [of "n + 4" "16 :: nat"] mod_add_self2 [of "n + 8" "16 :: nat"] by (simp_all add: add.commute)

lemma ROT_ROT:
  "ROT (ROT x 1) 1 = ROT x 2" "ROT (ROT x 2) 1 = ROT x 3" "ROT (ROT x 1) 2 = ROT x 3" "ROT (ROT x 3) 1 = x" "ROT (ROT x 1) 3 = x"
  "ROT (ROT x 2) 2 = x" "ROT (ROT x 3) 2 = ROT x 1" "ROT (ROT x 2) 3 = ROT x 1" "ROT (ROT x 3) 3 = ROT x 2"
  by (rule bit_word_eqI, simp add: bit_ROT mod_simps add.commute turns)+

lemma length_mix [simp]: "length (mix_forward s) = 8" "length (mix_more s) = 8" "length (MixColumns s u) = 8"
  by (simp_all add: mix_forward_def mix_more_def MixColumns_def Let_def)

lemma list_8_words: "length s = 8 \<Longrightarrow> s = [s ! 0, s ! 1, s ! 2, s ! 3, s ! 4, s ! 5, s ! 6, s ! 7]"
  by (rule nth_equalityI) (auto simp: less_Suc_eq numeral_eq_Suc)

lemma MixColumns_undo:
  assumes "length s = 8"
  shows "MixColumns (MixColumns s False) True = s"
proof -
  obtain a b c d e f g h where "s = [a, b, c, d, e, f, g, h]" using list_8_words [OF assms] by blast
  then show ?thesis
    by (simp add: MixColumns_def mix_forward_def mix_more_def Let_def ROT_xor ROT_ROT [unfolded One_nat_def] xor.assoc xor.left_commute xor.commute)
qed

lemma bit_xtime:
  "bit (xtime v) 0 = bit v 7" "bit (xtime v) 1 = (bit v 0 \<noteq> bit v 7)" "bit (xtime v) 2 = bit v 1"
  "bit (xtime v) 3 = (bit v 2 \<noteq> bit v 7)" "bit (xtime v) 4 = (bit v 3 \<noteq> bit v 7)" "bit (xtime v) 5 = bit v 4"
  "bit (xtime v) 6 = bit v 5" "bit (xtime v) 7 = bit v 6"
  by (auto simp: xtime_def bit_simps mult.commute [of v])

lemma bit_column:
  assumes "b < 8" and "length s = 8" and "n < 16"
  shows "bit (mix_forward s ! b) n =
    bit (xtime (cell s n) XOR (xtime (cell s ((n + 4) mod 16)) XOR cell s ((n + 4) mod 16)) XOR cell s ((n + 8) mod 16) XOR
      cell s ((n + 12) mod 16)) b"
proof -
  have rot: "bit (ROT x 1) n = bit x ((n + 4) mod 16)" "bit (ROT x 2) n = bit x ((n + 8) mod 16)" "bit (ROT x 3) n = bit x ((n + 12) mod 16)" for x
    using assms(3) by (simp_all add: bit_ROT)
  show ?thesis using assms(1) unfolding below_eight
    by (elim insertE emptyE)
      (simp_all add: mix_forward_def Let_def ROT_xor ROT_ROT bit_xor_iff rot bit_xtime bit_lane del: One_nat_def, auto)
qed

lemma place_column: "i < 16 \<Longrightarrow> k \<in> {1, 2, 3} \<Longrightarrow> cell_place (4 * (i div 4) + (i + k) mod 4) = (cell_place i + 4 * k) mod 16"
  unfolding below_sixteen by (auto simp: cell_place_def)

lemma Save_MixColumns:
  assumes "length s = 8"
  shows "SaveBytes (MixColumns s False) = fips_MixColumns (SaveBytes s)"
proof (rule SaveBytes_eqI)
  fix i :: nat assume i: "i < 16"
  have less: "4 * (i div 4) + (i + k) mod 4 < 16" for k
  proof -
    have "i div 4 < 4" "(i + k) mod 4 < 4" using i by (simp_all add: div_less_iff_less_mult)
    then show ?thesis by linarith
  qed
  have col: "SaveBytes s ! (4 * (i div 4) + (i + k) mod 4) = cell s ((cell_place i + 4 * k) mod 16)" if "k \<in> {1, 2, 3}" for k
    using less that i by (simp only: nth_SaveBytes place_column)
  have "SaveBytes s ! (4 * (i div 4) + (i + 0) mod 4) = cell s (cell_place i)" using i by (simp add: nth_SaveBytes)
  moreover have "cell (mix_forward s) (cell_place i) =
      xtime (cell s (cell_place i)) XOR (xtime (cell s ((cell_place i + 4) mod 16)) XOR cell s ((cell_place i + 4) mod 16)) XOR
      cell s ((cell_place i + 8) mod 16) XOR cell s ((cell_place i + 12) mod 16)"
    using bit_column [OF _ assms place_less [OF i]] by (intro lane_eqI)
  ultimately show "cell (MixColumns s False) (cell_place i) = fips_MixColumns (SaveBytes s) ! i"
    using i col [of 1] col [of 2] col [of 3] by (simp add: MixColumns_def fips_MixColumns_def Let_def)
qed (simp add: fips_MixColumns_def)

lemma length_AddRoundKey [simp]: "length (AddRoundKey s k) = min (length s) (length k)"
  by (simp add: AddRoundKey_def)

lemma Save_AddRoundKey:
  assumes "length s = 8" and "length k = 8"
  shows "SaveBytes (AddRoundKey s k) = fips_AddRoundKey (SaveBytes s) (SaveBytes k)"
proof (rule SaveBytes_eqI)
  fix i :: nat assume i: "i < 16"
  have "cell (AddRoundKey s k) (cell_place i) = cell s (cell_place i) XOR cell k (cell_place i)"
    using assms by (intro lane_eqI) (simp add: AddRoundKey_def bit_xor_iff bit_lane)
  then show "cell (AddRoundKey s k) (cell_place i) = fips_AddRoundKey (SaveBytes s) (SaveBytes k) ! i"
    using i by (simp add: fips_AddRoundKey_def nth_SaveBytes)
qed (simp add: fips_AddRoundKey_def)

lemma AddRoundKey_twice: "length s = 8 \<Longrightarrow> length k = 8 \<Longrightarrow> AddRoundKey (AddRoundKey s k) k = s"
  by (rule nth_equalityI) (simp_all add: AddRoundKey_def xor.assoc)

end
