(* ===== verification/AesKeys.thy ===== *)
theory AesKeys
  imports AesSteps
begin

text \<open>
  The key schedule on slices against the expansion of the standard, and the whole cipher: \<open>AES_encrypt\<close> is
  the standard's, and \<open>AES_decrypt\<close> undoes it.
\<close>

section \<open>Columns\<close>

definition col :: "aes_state \<Rightarrow> nat \<Rightarrow> bytes" where
  "col s c = map (\<lambda>r. cell s (r * 4 + c)) [0, 1, 2, 3]"

lemma below_four: "n < 4 \<longleftrightarrow> n \<in> {0, 1, 2, 3 :: nat}"
  by auto

lemma length_col [simp]: "length (col s c) = 4"
  by (simp add: col_def)

lemma nth_col: "r < 4 \<Longrightarrow> col s c ! r = cell s (r * 4 + c)"
  unfolding below_four by (elim insertE emptyE) (simp_all add: col_def)

lemma col_eqI: "(\<And>r. r < 4 \<Longrightarrow> cell s (r * 4 + c) = v ! r) \<Longrightarrow> length v = 4 \<Longrightarrow> col s c = v"
  by (rule nth_equalityI) (simp_all add: nth_col)

lemma upt_sixteen: "[0..<16] = [0, 1, 2, 3, 4, 5, 6, 7, 8, 9, 10, 11, 12, 13, 14, 15 :: nat]"
  by (simp add: upt_rec numeral_eq_Suc)

lemma upt_four: "[0..<4] = [0, 1, 2, 3 :: nat]"
  by (simp add: upt_rec numeral_eq_Suc)

lemma SaveBytes_cols: "SaveBytes s = concat (map (col s) [0..<4])"
  by (simp add: SaveBytes_lanes col_def cell_place_def upt_sixteen upt_four)

lemma bit_0x1111: "r < 4 \<Longrightarrow> c < 4 \<Longrightarrow> bit (0x1111 :: 16 word) (r * 4 + c) \<longleftrightarrow> c = 0"
  unfolding below_four by (elim insertE emptyE) simp_all

lemma bit_0x1111_first: "r < 4 \<Longrightarrow> bit (0x1111 :: 16 word) (r * 4)" "r < 4 \<Longrightarrow> bit (0x1111 :: int) (r * 4)"
  unfolding below_four by (elim insertE emptyE; simp)+

lemma col_SubBytes: "length s = 8 \<Longrightarrow> col (SubBytes s False) 0 = fips_SubBytes (col s 0)"
  by (rule col_eqI) (simp_all add: fips_SubBytes_def nth_col lane_SubBytes)

lemma col_KeySetupTransform:
  assumes "length s = 8" and "length r = 8"
  shows "col (KeySetupTransform s r) 0 = map2 (XOR) (rotate 1 (col s 0)) (col r 0)"
proof (rule col_eqI)
  fix k :: nat assume k: "k < 4"
  have rot: "drop_bit 4 v OR push_bit 12 v = ROT v 1" for v by (simp add: ROT_def)
  have "cell (KeySetupTransform s r) (k * 4) = cell s ((k * 4 + 4) mod 16) XOR cell r (k * 4)"
    using assms k by (intro lane_eqI) (simp add: KeySetupTransform_def rot bit_xor_iff bit_ROT bit_lane)
  moreover have "rotate 1 (col s 0) ! k = cell s ((k * 4 + 4) mod 16)"
    using k unfolding below_four by (elim insertE emptyE) (simp_all add: col_def rotate1_def)
  ultimately show "cell (KeySetupTransform s r) (k * 4 + 0) = map2 (XOR) (rotate 1 (col s 0)) (col r 0) ! k"
    using k nth_col [of k r 0] by simp
qed simp

lemma lane_MultX: "length s = 8 \<Longrightarrow> cell (MultX s) p = xtime (cell s p)"
  by (rule lane_eqI, unfold below_eight)
    (elim insertE emptyE; simp add: MultX_def Let_def bit_xtime bit_lane bit_xor_iff del: One_nat_def)

lemma length_schedule_steps [simp]:
  "length (KeySetupTransform s r) = min (length s) (length r)" "length (MultX s) = 8"
  "length (GetOneColumn a c) = length a"
  by (simp_all add: KeySetupTransform_def MultX_def GetOneColumn_def Let_def)

lemma col_GetOneColumn: "length a = 8 \<Longrightarrow> col (GetOneColumn a c) 0 = col a c"
  by (intro col_eqI lane_eqI)
    (simp_all add: GetOneColumn_def nth_col bit_lane bit_and_iff bit_drop_bit_eq bit_0x1111_first add.commute)

lemma KeySetupColumnMix_cols:
  assumes "length s = 8" and "length r = 8" and "length a = 8" and "c1 < 4" and "c2 < 4" and "col r c1 = [0, 0, 0, 0]"
    and "KeySetupColumnMix s r a c1 c2 = (s', r')"
  shows "length s' = 8 \<and> length r' = 8 \<and> col s' 0 = map2 (XOR) (col s 0) (col a c2) \<and>
    (\<forall>c < 4. col r' c = (if c = c1 then col s' 0 else col r c))"
proof (intro conjI allI impI)
  have s': "s' = map2 (\<lambda>v w. v XOR (drop_bit c2 w AND 0x1111)) s a"
    and r': "r' = map2 (\<lambda>w v. w OR push_bit c1 (v AND 0x1111)) r s'"
    using assms(7) by (auto simp: KeySetupColumnMix_def Let_def)
  show len: "length s' = 8" "length r' = 8" using assms by (simp_all add: s' r')
  show "col s' 0 = map2 (XOR) (col s 0) (col a c2)"
    using assms by (intro col_eqI lane_eqI)
      (simp_all add: s' nth_col bit_xor_iff bit_and_iff bit_drop_bit_eq bit_0x1111_first bit_lane add.commute)
  fix c :: nat assume c: "c < 4"
  have bits: "bit (r' ! b) (k * 4 + c) \<longleftrightarrow> bit (r ! b) (k * 4 + c) \<or> c = c1 \<and> bit (s' ! b) (k * 4)" if "k < 4" "b < 8" for k b
  proof -
    have "c1 \<le> k * 4 + c \<and> bit (0x1111 :: 16 word) (k * 4 + c - c1) \<longleftrightarrow> c = c1"
      using that(1) c assms(4) unfolding below_four by (elim insertE emptyE) simp_all
    then show ?thesis using that c assms(1-4) len(1)
      by (auto simp: r' bit_or_iff bit_push_bit_iff bit_and_iff)
  qed
  show "col r' c = (if c = c1 then col s' 0 else col r c)"
  proof (cases "c = c1")
    case True
    have z: "cell r (k * 4 + c1) = 0" if "k < 4" for k
      using that unfolding nth_col [OF that, symmetric] assms(6) below_four by (elim insertE emptyE) simp_all
    have "\<not> bit (r ! b) (k * 4 + c1)" if "k < 4" "b < 8" for k b using z [OF that(1)] bit_lane [of r "k * 4 + c1" b] that(2) by simp
    then show ?thesis using bits True by (intro col_eqI lane_eqI) (simp_all add: nth_col bit_lane)
  next
    case False
    then show ?thesis using bits by (intro col_eqI lane_eqI) (simp_all add: nth_col bit_lane)
  qed
qed

section \<open>The first columns\<close>

text \<open>The bytes that loading the key puts into the cells of a schedule.\<close>

lemma load_key_cells:
  assumes "\<forall>s \<in> set rounds. length s = 8" and "\<forall>(i, r) \<in> set xs. i < 4 * length rounds \<and> r < 4"
  shows "length (fold (\<lambda>(i, r) rounds. rounds[i div 4 := LoadByte (rounds ! (i div 4)) (f i r) r (i mod 4)]) xs rounds) = length rounds \<and>
    (\<forall>s \<in> set (fold (\<lambda>(i, r) rounds. rounds[i div 4 := LoadByte (rounds ! (i div 4)) (f i r) r (i mod 4)]) xs rounds). length s = 8) \<and>
    (\<forall>j < 4 * length rounds. \<forall>k < 4.
      cell (fold (\<lambda>(i, r) rounds. rounds[i div 4 := LoadByte (rounds ! (i div 4)) (f i r) r (i mod 4)]) xs rounds ! (j div 4)) (k * 4 + j mod 4) =
      cell (rounds ! (j div 4)) (k * 4 + j mod 4) OR (if (j, k) \<in> set xs then f j k else 0))"
  using assms
proof (induction xs arbitrary: rounds)
  case Nil
  then show ?case by simp
next
  case (Cons x xs)
  obtain i r where x: "x = (i, r)" by (cases x)
  have i: "i div 4 < length rounds" "r < 4" using Cons.prems(2) x by auto
  define t where "t = rounds[i div 4 := LoadByte (rounds ! (i div 4)) (f i r) r (i mod 4)]"
  have cell: "r * 4 + i mod 4 < 16" using i(2) mod_less_divisor [of 4 i] by linarith
  have s: "length (rounds ! (i div 4)) = 8" using Cons.prems(1) i(1) by simp
  note l = LoadByte_spec [OF s cell, of "f i r"]
  have t: "length t = length rounds" "\<forall>s \<in> set t. length s = 8"
    using Cons.prems(1) l(1) set_update_subset_insert by (fastforce simp: t_def)+
  have at: "cell (t ! (j div 4)) (k * 4 + j mod 4) =
      cell (rounds ! (j div 4)) (k * 4 + j mod 4) OR (if (j, k) = (i, r) then f j k else 0)"
    if "j < 4 * length rounds" "k < 4" for j k
  proof (cases "j div 4 = i div 4")
    case True
    have "k * 4 + j mod 4 = r * 4 + i mod 4 \<longleftrightarrow> (j, k) = (i, r)"
    proof
      assume e: "k * 4 + j mod 4 = r * 4 + i mod 4"
      have "j mod 4 < 4" "i mod 4 < 4" by simp_all
      then have "k = r" "j mod 4 = i mod 4" using e by presburger+
      then show "(j, k) = (i, r)" using True by (metis div_mult_mod_eq)
    qed simp
    then show ?thesis using True i(1) l(2) by (simp add: t_def)
  next
    case False
    then show ?thesis by (auto simp: t_def)
  qed
  have "\<forall>(i, r) \<in> set xs. i < 4 * length t \<and> r < 4" using Cons.prems(2) t(1) by simp
  note ih = Cons.IH [OF t(2) this]
  show ?case unfolding x using ih t(1) at by (auto simp flip: t_def simp: or.assoc)
qed

lemma load_key_cols:
  assumes "length key = 4 * nk" and "nk \<le> 4 * n"
  shows "length (load_key key nk (replicate n (replicate 8 0))) = n \<and>
    (\<forall>s \<in> set (load_key key nk (replicate n (replicate 8 0))). length s = 8) \<and>
    (\<forall>j < 4 * n. col (load_key key nk (replicate n (replicate 8 0)) ! (j div 4)) (j mod 4) =
      (if j < nk then take 4 (drop (4 * j) key) else [0, 0, 0, 0]))"
proof -
  let ?xs = "[(i, r). i \<leftarrow> [0..<nk], r \<leftarrow> [0..<4 :: nat]]"
  have xs: "\<forall>(i, r) \<in> set ?xs. i < 4 * length (replicate n (replicate 8 (0 :: 16 word))) \<and> r < 4" using assms(2) by auto
  note l = load_key_cells [OF _ xs, of "\<lambda>i r. key ! (4 * i + r)", folded load_key_def]
  have "col (load_key key nk (replicate n (replicate 8 0)) ! (j div 4)) (j mod 4) =
      (if j < nk then take 4 (drop (4 * j) key) else [0, 0, 0, 0])" if j: "j < 4 * n" for j
  proof (rule col_eqI)
    fix k :: nat assume k: "k < 4"
    have p: "k * 4 + j mod 4 < 16" using k mod_less_divisor [of 4 j] by linarith
    have d: "j div 4 < n" using j by auto
    have "(j, k) \<in> set ?xs \<longleftrightarrow> j < nk" using k by (auto intro!: bexI [of _ j])
    then have "cell (load_key key nk (replicate n (replicate 8 0)) ! (j div 4)) (k * 4 + j mod 4) =
        (if j < nk then key ! (4 * j + k) else 0)"
      using l j k d p by (simp add: lane_zero)
    moreover have "[0, 0, 0, 0] ! k = (0 :: byte)" using k unfolding below_four by (elim insertE emptyE) simp_all
    ultimately show "cell (load_key key nk (replicate n (replicate 8 0)) ! (j div 4)) (k * 4 + j mod 4) =
        (if j < nk then take 4 (drop (4 * j) key) else [0, 0, 0, 0]) ! k"
      using k assms(1) by simp
  qed (use assms(1) in auto)
  then show ?thesis using l by simp
qed

section \<open>The expansion\<close>

text \<open>What holds before column \<open>i\<close> is made.\<close>

definition schedule_inv :: "bytes \<Rightarrow> nat \<Rightarrow> nat \<Rightarrow> nat \<Rightarrow> setup_state \<Rightarrow> bool" where
  "schedule_inv key nk n i = (\<lambda>(rounds, column, rcon, pos).
     length rounds = n \<and> (\<forall>s \<in> set rounds. length s = 8) \<and> length column = 8 \<and> length rcon = 8 \<and>
     (\<forall>j < 4 * n. col (rounds ! (j div 4)) (j mod 4) = (if j < i then fips_word key nk j else [0, 0, 0, 0])) \<and>
     col column 0 = fips_word key nk (i - 1) \<and>
     (\<forall>p < 16. cell rcon p = (if p = 0 then (xtime ^^ ((i - 1) div nk)) 1 else 0)) \<and>
     pos = i mod nk)"

lemma xtime_0 [simp]: "xtime 0 = 0"
  by (simp add: xtime_def)

lemma map2_XOR_commute: "map2 (XOR) xs ys = map2 (XOR) ys (xs :: bytes)"
proof (induction xs arbitrary: ys)
  case (Cons x xs)
  then show ?case by (cases ys) (simp_all add: xor.commute)
qed simp

lemma transform_column_cols:
  assumes "schedule_inv key nk n i (rounds, column, rcon, pos)" and "nk \<le> i" and "3 < nk"
    and "transform_column nk column rcon pos = (column', rcon')"
  shows "length column' = 8 \<and> length rcon' = 8 \<and>
    (\<forall>p < 16. cell rcon' p = (if p = 0 then (xtime ^^ (i div nk)) 1 else 0)) \<and>
    col column' 0 =
      (if i mod nk = 0 then map2 (XOR) (fips_SubBytes (rotate 1 (fips_word key nk (i - 1)))) (fips_Rcon (i div nk))
       else if nk > 6 \<and> i mod nk = 4 then fips_SubBytes (fips_word key nk (i - 1))
       else fips_word key nk (i - 1))"
proof -
  have inv: "length column = 8" "length rcon = 8" "col column 0 = fips_word key nk (i - 1)" "pos = i mod nk"
    "\<And>p. p < 16 \<Longrightarrow> cell rcon p = (if p = 0 then (xtime ^^ ((i - 1) div nk)) 1 else 0)"
    using assms(1) by (auto simp: schedule_inv_def)
  have div: "i div nk = (if i mod nk = 0 then Suc ((i - 1) div nk) else (i - 1) div nk)"
    using assms(2,3) div_Suc [of "i - 1" nk] by simp
  show ?thesis
  proof (cases "i mod nk = 0")
    case True
    have "col rcon 0 = fips_Rcon (i div nk)"
      by (rule col_eqI, unfold below_four, elim insertE emptyE) (simp_all add: inv(5) div True)
    moreover have "rotate 1 (fips_SubBytes v) = fips_SubBytes (rotate 1 v)" for v by (simp add: fips_SubBytes_def rotate_map)
    ultimately show ?thesis using True assms(4) inv div
      by (auto simp: transform_column_def col_KeySetupTransform col_SubBytes lane_MultX simp del: fips_Rcon.simps)
  next
    case False
    then show ?thesis using assms(4) inv div
      by (auto simp: transform_column_def col_SubBytes split: if_splits)
  qed
qed

lemma setup_step_inv:
  assumes "schedule_inv key nk n i st" and "nk \<le> i" and "3 < nk" and "i < 4 * n"
  shows "schedule_inv key nk n (Suc i) (setup_step nk i st)"
proof -
  obtain rounds column rcon pos where st: "st = (rounds, column, rcon, pos)" by (cases st)
  obtain column1 rcon1 where t: "transform_column nk column rcon pos = (column1, rcon1)" by fastforce
  have inv: "length rounds = n" "\<forall>s \<in> set rounds. length s = 8" "pos = i mod nk"
    "\<And>j. j < 4 * n \<Longrightarrow> col (rounds ! (j div 4)) (j mod 4) = (if j < i then fips_word key nk j else [0, 0, 0, 0])"
    using assms(1) by (auto simp: schedule_inv_def st)
  note tc = transform_column_cols [OF assms(1) [unfolded st] assms(2,3) t]
  obtain column2 r where m: "KeySetupColumnMix column1 (rounds ! (i div 4)) (rounds ! ((i - nk) div 4)) (i mod 4) ((i - nk) mod 4) =
      (column2, r)" by fastforce
  have d: "i div 4 < n" "(i - nk) div 4 < n" using assms(4) by auto
  have len: "length (rounds ! (i div 4)) = 8" "length (rounds ! ((i - nk) div 4)) = 8" using inv(1,2) d by simp_all
  have "col (rounds ! (i div 4)) (i mod 4) = [0, 0, 0, 0]" using inv(4) [OF assms(4)] by simp
  note mix = KeySetupColumnMix_cols [OF conjunct1 [OF tc] len _ _ this m]
  have "col (rounds ! ((i - nk) div 4)) ((i - nk) mod 4) = fips_word key nk (i - nk)"
    using inv(4) [of "i - nk"] assms(2-4) by simp
  then have word: "col column2 0 = fips_word key nk i"
    using mix tc assms(2,3) by (subst fips_word.simps) (simp add: Let_def map2_XOR_commute)
  have pos: "(if pos + 1 = nk then 0 else pos + 1) = Suc i mod nk"
    using inv(3) mod_Suc [of i nk] assms(3) by simp
  have "col (rounds[i div 4 := r] ! (j div 4)) (j mod 4) = (if j < Suc i then fips_word key nk j else [0, 0, 0, 0])"
    if "j < 4 * n" for j
  proof (cases "j div 4 = i div 4")
    case True
    then have "j mod 4 = i mod 4 \<longleftrightarrow> j = i" by (metis div_mult_mod_eq)
    then show ?thesis using True inv(1) inv(4) [OF that] d(1) mix word by auto
  next
    case False
    then show ?thesis using inv(4) [OF that] by (auto simp: less_Suc_eq)
  qed
  then show ?thesis
    using t m mix tc inv(1,2) pos word set_update_subset_insert [of rounds "i div 4" r]
    unfolding st setup_step_def schedule_inv_def by auto
qed

end
