(* ===== verification/AesCipher.thy ===== *)
theory AesCipher
  imports AesKeys
begin

text \<open>The whole cipher: the schedule holds the standard's round keys, and both directions on blocks.\<close>

section \<open>The round keys\<close>

lemma setup_fold_inv:
  assumes "schedule_inv key nk n nk st" and "3 < nk" and "nk + m \<le> 4 * n"
  shows "schedule_inv key nk n (nk + m) (fold (setup_step nk) [nk..<nk + m] st)"
  using assms(3)
proof (induction m)
  case 0
  then show ?case using assms(1) by simp
next
  case (Suc m)
  then show ?case using setup_step_inv [of key nk n "nk + m"] assms(2) by simp
qed

lemma AES_setup_keys:
  assumes "length key = 4 * nk" and "3 < nk" and "nk \<le> 4 * (nr + 1)" and "r \<le> nr"
  shows "length (AES_setup key nk nr ! r) = 8 \<and> SaveBytes (AES_setup key nk nr ! r) = fips_round_key key r"
proof -
  define rounds where "rounds = load_key key nk (replicate (nr + 1) (replicate 8 0))"
  define column where "column = GetOneColumn (rounds ! ((nk - 1) div 4)) ((nk - 1) mod 4)"
  note l = load_key_cols [OF assms(1,3), folded rounds_def]
  have word: "fips_word key nk j = take 4 (drop (4 * j) key)" if "j < nk" for j using that by (subst fips_word.simps) simp
  have d: "nk - 1 < 4 * (nr + 1)" "(nk - 1) div 4 < nr + 1" using assms(2,3) by auto
  then have "length (rounds ! ((nk - 1) div 4)) = 8" using l by simp
  then have c: "col column 0 = fips_word key nk (nk - 1)" "length column = 8"
    using l d(1) assms(2) word by (simp_all add: column_def col_GetOneColumn)
  have one: "cell [1, 0, 0, 0, 0, 0, 0, 0 :: 16 word] p = (if p = 0 then 1 else 0)" if "p < 16" for p
    using that by (intro lane_eqI, unfold below_eight, elim insertE emptyE) (auto simp: bit_simps)
  have "schedule_inv key nk (nr + 1) nk (rounds, column, [1, 0, 0, 0, 0, 0, 0, 0], 0)"
    using l c one word assms(2) by (auto simp: schedule_inv_def)
  then have "schedule_inv key nk (nr + 1) (4 * (nr + 1))
      (fold (setup_step nk) [nk..<4 * (nr + 1)] (rounds, column, [1, 0, 0, 0, 0, 0, 0, 0], 0))"
    using setup_fold_inv [of key nk "nr + 1" _ "4 * (nr + 1) - nk"] assms(2,3) by simp
  then obtain ks where ks: "ks = AES_setup key nk nr" "length ks = nr + 1" "\<forall>s \<in> set ks. length s = 8"
    "\<And>j. j < 4 * (nr + 1) \<Longrightarrow> col (ks ! (j div 4)) (j mod 4) = fips_word key nk j"
    unfolding AES_setup_def Let_def rounds_def [symmetric] column_def [symmetric] schedule_inv_def
    by (auto split: prod.splits)
  have "col (ks ! r) c = fips_word key nk (4 * r + c)" if "c < 4" for c
  proof -
    have "(4 * r + c) div 4 = r" "(4 * r + c) mod 4 = c" "4 * r + c < 4 * (nr + 1)" using that assms(4) by auto
    then show ?thesis using ks(4) by metis
  qed
  moreover have shift: "[4 * r..<4 * r + 4] = map (\<lambda>c. c + 4 * r) [0..<4]" by (simp add: map_add_upt add.commute)
  ultimately have "SaveBytes (ks ! r) = fips_round_key key r"
    using assms(1) unfolding fips_round_key_def shift by (simp add: SaveBytes_cols upt_four add.commute)
  then show ?thesis using ks(2,3) assms(4) by (simp add: ks(1) [symmetric])
qed

section \<open>Encryption\<close>

lemma length_aes_round: "length s = 8 \<Longrightarrow> length k = 8 \<Longrightarrow>
    length (AddRoundKey (MixColumns (ShiftRows (SubBytes s False)) False) k) = 8"
  by simp

lemma AES_encrypt_fips:
  assumes "length plain = 16" and "0 < nr" and "\<And>r. r \<le> nr \<Longrightarrow> length (rounds ! r) = 8 \<and> SaveBytes (rounds ! r) = K r"
  shows "AES_encrypt rounds nr plain =
    fips_AddRoundKey (fips_ShiftRows (fips_SubBytes
      (fold (\<lambda>r s. fips_AddRoundKey (fips_MixColumns (fips_ShiftRows (fips_SubBytes s))) (K r)) [1..<nr] (fips_AddRoundKey plain (K 0)))))
    (K nr)"
proof -
  have run: "length (fold (\<lambda>round s. AddRoundKey (MixColumns (ShiftRows (SubBytes s False)) False) (rounds ! round)) [1..<m] s) = 8 \<and>
      SaveBytes (fold (\<lambda>round s. AddRoundKey (MixColumns (ShiftRows (SubBytes s False)) False) (rounds ! round)) [1..<m] s) =
      fold (\<lambda>r s. fips_AddRoundKey (fips_MixColumns (fips_ShiftRows (fips_SubBytes s))) (K r)) [1..<m] (SaveBytes s)"
    if "length s = 8" "m \<le> nr" for s m
    using that
  proof (induction m)
    case (Suc m)
    then show ?case
      using assms(3) [of m] by (cases "m = 0") (simp_all add: Save_AddRoundKey Save_MixColumns Save_ShiftRows Save_SubBytes)
  qed simp
  have "length (AddRoundKey (LoadBytes (replicate 8 0) plain) (rounds ! 0)) = 8"
    using assms by (simp add: length_Load)
  note r = run [OF this order_refl]
  then show ?thesis
    using assms by (simp add: AES_encrypt_def Let_def Save_AddRoundKey Save_ShiftRows Save_SubBytes Save_Load length_Load)
qed

section \<open>Decryption\<close>

lemma AES_decrypt_encrypt:
  assumes "length plain = 16" and "0 < nr" and "\<And>r. r \<le> nr \<Longrightarrow> length (rounds ! r) = 8"
  shows "AES_decrypt rounds nr (AES_encrypt rounds nr plain) = plain"
proof -
  define start where "start = AddRoundKey (LoadBytes (replicate 8 0) plain) (rounds ! 0)"
  define E where "E m = fold (\<lambda>round s. AddRoundKey (MixColumns (ShiftRows (SubBytes s False)) False) (rounds ! round)) [1..<m] start" for m
  have start: "length start = 8" using assms by (simp add: start_def length_Load)
  have E: "length (E m) = 8" if "m \<le> nr" for m
    using that
  proof (induction m)
    case (Suc m)
    then show ?case using assms(3) [of m] by (cases "m = 0") (simp_all add: E_def start)
  qed (simp add: E_def start)
  have E_Suc: "E (Suc m) = AddRoundKey (MixColumns (ShiftRows (SubBytes (E m) False)) False) (rounds ! m)" if "0 < m" for m
    using that by (simp add: E_def)
  have final: "length (AddRoundKey (ShiftRows (SubBytes (E nr) False)) (rounds ! nr)) = 8" using assms(3) by simp
  have undone: "fold (\<lambda>round s. MixColumns (AddRoundKey (SubBytes (InvShiftRows s) True) (rounds ! (nr - round))) True) [1..<Suc m]
      (ShiftRows (SubBytes (E nr) False)) = ShiftRows (SubBytes (E (nr - m)) False)" if "m < nr" for m
    using that
  proof (induction m)
    case (Suc m)
    have pos: "0 < nr - Suc m" "nr - m = Suc (nr - Suc m)" using Suc.prems by simp_all
    have k: "length (rounds ! (nr - Suc m)) = 8" using assms(3) by simp
    have "MixColumns (AddRoundKey (SubBytes (InvShiftRows (ShiftRows (SubBytes (E (nr - m)) False))) True) (rounds ! (nr - Suc m))) True =
        ShiftRows (SubBytes (E (nr - Suc m)) False)"
      using E [of "nr - m"] E [of "nr - Suc m"] k
      by (simp add: InvShiftRows_ShiftRows SubBytes_undo) (simp add: pos(2) E_Suc [OF pos(1)] AddRoundKey_twice MixColumns_undo)
    then show ?case using Suc by simp
  qed simp
  have "fold (\<lambda>round s. MixColumns (AddRoundKey (SubBytes (InvShiftRows s) True) (rounds ! (nr - round))) True) [1..<nr]
      (ShiftRows (SubBytes (E nr) False)) = ShiftRows (SubBytes (E 1) False)"
    using undone [of "nr - 1"] assms(2) by simp
  moreover have "LoadBytes (replicate 8 0) (AES_encrypt rounds nr plain) = AddRoundKey (ShiftRows (SubBytes (E nr) False)) (rounds ! nr)"
    unfolding AES_encrypt_def Let_def start_def [symmetric] E_def [symmetric] by (rule Load_Save [OF final])
  moreover have "AddRoundKey (SubBytes (InvShiftRows (ShiftRows (SubBytes (E 1) False))) True) (rounds ! 0) = LoadBytes (replicate 8 0) plain"
    using start assms by (simp add: E_def InvShiftRows_ShiftRows SubBytes_undo start_def AddRoundKey_twice length_Load)
  ultimately show ?thesis
    using assms E by (simp add: AES_decrypt_def Let_def AddRoundKey_twice Save_Load)
qed

lemma length_AES_encrypt: "length (AES_encrypt rounds nr plain) = 16"
  by (simp add: AES_encrypt_def Let_def)

end
