(* ===== verification/AesCbc.thy ===== *)
theory AesCbc
  imports AesCipher
begin

text \<open>
  \<open>src/crypto/aes.cpp\<close>: the classes around the AES of \<open>Aes\<close>, and the mode CBC with padding. An object is its key: the
  constructors run the key schedule. \<open>data\<close> and \<open>out\<close> are not null; \<open>size\<close> is the length of \<open>data\<close>. The result
  of \<open>CBCEncrypt\<close> is the bytes written, whose number the function returns; that of \<open>CBCDecrypt\<close> the bytes written and the number
  returned. The counter \<open>written\<close> is an \<open>int\<close>: when \<open>written + AES_BLOCKSIZE\<close> exceeds the largest \<open>int\<close>, it is undefined.
\<close>

section \<open>The functions\<close>

definition AES_BLOCKSIZE :: nat where "AES_BLOCKSIZE = 16"

definition INT_LIMIT :: nat where "INT_LIMIT = 2 ^ 31 - 1"

definition AES128_Encrypt :: "bytes \<Rightarrow> bytes \<Rightarrow> bytes" where
  "AES128_Encrypt key plaintext = AES128_encrypt (AES128_init key) 1 plaintext"

definition AES128_Decrypt :: "bytes \<Rightarrow> bytes \<Rightarrow> bytes" where
  "AES128_Decrypt key ciphertext = AES128_decrypt (AES128_init key) 1 ciphertext"

definition AES256_Encrypt :: "bytes \<Rightarrow> bytes \<Rightarrow> bytes" where
  "AES256_Encrypt key plaintext = AES256_encrypt (AES256_init key) 1 plaintext"

definition AES256_Decrypt :: "bytes \<Rightarrow> bytes \<Rightarrow> bytes" where
  "AES256_Decrypt key ciphertext = AES256_decrypt (AES256_init key) 1 ciphertext"

text \<open>The loop over the full blocks: what is written, the block \<open>mixed\<close> and the data that remain.\<close>

function cbc_blocks :: "(bytes \<Rightarrow> bytes) \<Rightarrow> bytes \<Rightarrow> bytes \<Rightarrow> bytes \<times> bytes \<times> bytes" where
  "cbc_blocks enc mixed data =
     (if AES_BLOCKSIZE \<le> length data then
        let block = enc (map2 (XOR) mixed (take AES_BLOCKSIZE data));
            (out, mixed, data) = cbc_blocks enc block (drop AES_BLOCKSIZE data)
        in (block @ out, mixed, data)
      else ([], mixed, data))"
  by pat_completeness auto
termination
  by (relation "measure (\<lambda>(enc, mixed, data). length data)") (auto simp: AES_BLOCKSIZE_def)

declare cbc_blocks.simps [simp del]

definition CBCEncrypt :: "(bytes \<Rightarrow> bytes) \<Rightarrow> bytes \<Rightarrow> bytes \<Rightarrow> bool \<Rightarrow> io_fault + bytes" where
  "CBCEncrypt enc iv data pad =
     (let size = length data; padsize = size mod AES_BLOCKSIZE
      in if size = 0 then Inr []
         else if \<not> pad \<and> padsize \<noteq> 0 then Inr []
         else if size - padsize + AES_BLOCKSIZE > INT_LIMIT then Inl Undefined
         else
           let (out, mixed, rest) = cbc_blocks enc iv data
           in if pad
              then Inr (out @ enc (map2 (XOR) mixed (rest @ replicate (AES_BLOCKSIZE - padsize) (word_of_nat (AES_BLOCKSIZE - padsize)))))
              else Inr out)"

fun uncbc_blocks :: "(bytes \<Rightarrow> bytes) \<Rightarrow> bytes \<Rightarrow> nat \<Rightarrow> bytes \<Rightarrow> bytes" where
  "uncbc_blocks dec prev 0 data = []"
| "uncbc_blocks dec prev (Suc n) data =
     map2 (XOR) (dec (take AES_BLOCKSIZE data)) prev @ uncbc_blocks dec (take AES_BLOCKSIZE data) n (drop AES_BLOCKSIZE data)"

text \<open>The check of the padding: the loop reads the last block from its end.\<close>

fun pad_loop :: "nat \<Rightarrow> byte \<Rightarrow> bytes \<Rightarrow> bool \<Rightarrow> bool" where
  "pad_loop 0 padsize bk fail = fail"
| "pad_loop (Suc i) padsize bk fail =
     pad_loop i padsize (tl bk) (fail \<or> (Suc i > AES_BLOCKSIZE - unat padsize \<and> hd bk \<noteq> padsize))"

definition CBCDecrypt :: "(bytes \<Rightarrow> bytes) \<Rightarrow> bytes \<Rightarrow> bytes \<Rightarrow> bool \<Rightarrow> bytes \<times> nat" where
  "CBCDecrypt dec iv data pad =
     (let size = length data
      in if size = 0 then ([], 0)
         else if size mod AES_BLOCKSIZE \<noteq> 0 then ([], 0)
         else
           let out = uncbc_blocks dec iv (size div AES_BLOCKSIZE) data
           in if pad
              then
                let padsize = last out;
                    fail = (padsize = 0 \<or> unat padsize > AES_BLOCKSIZE);
                    padsize = padsize * (if fail then 0 else 1);
                    fail = pad_loop AES_BLOCKSIZE padsize (rev out) fail
                in (out, (size - unat padsize) * (if fail then 0 else 1))
              else (out, size))"

text \<open>The four classes: an object has the key, the start vector and whether to pad.\<close>

definition AES128CBC_Encrypt :: "bytes \<Rightarrow> bytes \<Rightarrow> bool \<Rightarrow> bytes \<Rightarrow> io_fault + bytes" where
  "AES128CBC_Encrypt key iv pad data = CBCEncrypt (AES128_Encrypt key) iv data pad"

definition AES128CBC_Decrypt :: "bytes \<Rightarrow> bytes \<Rightarrow> bool \<Rightarrow> bytes \<Rightarrow> bytes \<times> nat" where
  "AES128CBC_Decrypt key iv pad data = CBCDecrypt (AES128_Decrypt key) iv data pad"

definition AES256CBC_Encrypt :: "bytes \<Rightarrow> bytes \<Rightarrow> bool \<Rightarrow> bytes \<Rightarrow> io_fault + bytes" where
  "AES256CBC_Encrypt key iv pad data = CBCEncrypt (AES256_Encrypt key) iv data pad"

definition AES256CBC_Decrypt :: "bytes \<Rightarrow> bytes \<Rightarrow> bool \<Rightarrow> bytes \<Rightarrow> bytes \<times> nat" where
  "AES256CBC_Decrypt key iv pad data = CBCDecrypt (AES256_Decrypt key) iv data pad"

section \<open>Decryption undoes encryption\<close>

text \<open>What the mode relies on: a block is encrypted to a block, and decrypted to what it was.\<close>

locale block_cipher =
  fixes is_key :: "'k \<Rightarrow> bool" and enc :: "'k \<Rightarrow> bytes \<Rightarrow> bytes" and dec :: "'k \<Rightarrow> bytes \<Rightarrow> bytes"
  assumes length_enc: "is_key k \<Longrightarrow> length b = 16 \<Longrightarrow> length (enc k b) = 16"
    and dec_enc: "is_key k \<Longrightarrow> length b = 16 \<Longrightarrow> dec k (enc k b) = b"

lemma xor_twice: "length xs = length ys \<Longrightarrow> map2 (XOR) (map2 (XOR) xs ys) xs = (ys :: bytes)"
proof (induction xs ys rule: list_induct2)
  case (Cons x xs y ys)
  moreover have "(x XOR y) XOR x = y" by (rule bit_word_eqI) (auto simp: bit_simps)
  ultimately show ?case by simp
qed simp

lemma last_padding: "0 < m \<Longrightarrow> last (data @ replicate m x) = x"
  by (cases m) (simp_all del: replicate_Suc add: last_replicate)

lemma pad_loop_fits:
  "i \<le> 16 \<Longrightarrow> unat p \<le> 16 \<Longrightarrow> i \<le> length bk \<Longrightarrow> (\<And>j. j < i \<Longrightarrow> i - j > 16 - unat p \<Longrightarrow> bk ! j = p) \<Longrightarrow> pad_loop i p bk fail = fail"
proof (induction i arbitrary: bk)
  case (Suc i)
  obtain b bs where b: "bk = b # bs" using Suc.prems(3) by (cases bk) auto
  have "bs ! j = p" if "j < i" "i - j > 16 - unat p" for j using Suc.prems(4) [of "Suc j"] that b by simp
  then have "pad_loop i p bs fail = fail" using Suc.IH [of bs] Suc.prems b by simp
  moreover have "\<not> (16 - unat p < Suc i \<and> b \<noteq> p)" using Suc.prems(4) [of 0] b by auto
  ultimately show ?case using b by (simp add: AES_BLOCKSIZE_def del: de_Morgan_conj)
qed simp

context block_cipher
begin

lemma blocks_back:
  assumes "is_key k" and "length mixed = 16"
  shows "case cbc_blocks (enc k) mixed data of (out, mixed', rest) \<Rightarrow>
    length out = 16 * (length data div 16) \<and> length mixed' = 16 \<and> rest = drop (16 * (length data div 16)) data \<and>
    (\<forall>n more. uncbc_blocks (dec k) mixed (length data div 16 + n) (out @ more) =
      take (16 * (length data div 16)) data @ uncbc_blocks (dec k) mixed' n more)"
  using assms(2)
proof (induction "enc k" mixed data rule: cbc_blocks.induct)
  case (1 mixed data)
  show ?case
  proof (cases "16 \<le> length data")
    case False
    then show ?thesis using "1.prems" by (simp add: cbc_blocks.simps [of _ _ data] AES_BLOCKSIZE_def)
  next
    case True
    let ?x = "map2 (XOR) mixed (take 16 data)"
    have x: "length ?x = 16" using True "1.prems" by simp
    note block = length_enc [OF assms(1) x]
    obtain out mixed' rest where r: "cbc_blocks (enc k) (enc k ?x) (drop 16 data) = (out, mixed', rest)"
      by (cases "cbc_blocks (enc k) (enc k ?x) (drop 16 data)")
    have d: "length data div 16 = Suc ((length data - 16) div 16)" using True by (simp add: le_div_geq)
    have ih: "length out = 16 * ((length data - 16) div 16)" "length mixed' = 16"
      "rest = drop (16 * ((length data - 16) div 16)) (drop 16 data)"
      "\<And>n more. uncbc_blocks (dec k) (enc k ?x) ((length data - 16) div 16 + n) (out @ more) =
        take (16 * ((length data - 16) div 16)) (drop 16 data) @ uncbc_blocks (dec k) mixed' n more"
      using "1.hyps" [of "enc k ?x"] True block r by (auto simp: AES_BLOCKSIZE_def)
    have "map2 (XOR) ?x mixed = take 16 data" using True "1.prems" by (intro xor_twice) simp
    then have "uncbc_blocks (dec k) mixed (length data div 16 + n) ((enc k ?x @ out) @ more) =
        take 16 data @ take (16 * ((length data - 16) div 16)) (drop 16 data) @ uncbc_blocks (dec k) mixed' n more" for n more
      using ih(4) [of n more] block dec_enc [OF assms(1) x] by (simp add: d AES_BLOCKSIZE_def)
    moreover have "take 16 data @ take (16 * ((length data - 16) div 16)) (drop 16 data) = take (16 * (length data div 16)) data"
      by (simp add: d take_add [symmetric] add.commute flip: take_add)
    ultimately show ?thesis
      using True r ih(1-3) block by (simp add: cbc_blocks.simps [of _ _ data] AES_BLOCKSIZE_def d add.commute)
  qed
qed

text \<open>With padding all data come back, and the number returned is their length; without it, full blocks do.\<close>

lemma cbc_back:
  assumes "is_key k" and "length iv = 16" and "data \<noteq> []" and "length data < INT_LIMIT - 16" and "pad \<or> 16 dvd length data"
  shows "\<exists>c out. CBCEncrypt (enc k) iv data pad = Inr c \<and> CBCDecrypt (dec k) iv c pad = (out, length data) \<and>
    take (length data) out = data \<and> length c = (if pad then 16 * (length data div 16 + 1) else length data)"
proof -
  let ?n = "length data div 16"
  let ?p = "16 - length data mod 16"
  obtain out mixed rest where r: "cbc_blocks (enc k) iv data = (out, mixed, rest)" by (cases "cbc_blocks (enc k) iv data")
  have b: "length out = 16 * ?n" "length mixed = 16" "rest = drop (16 * ?n) data"
    "\<And>n more. uncbc_blocks (dec k) iv (?n + n) (out @ more) = take (16 * ?n) data @ uncbc_blocks (dec k) mixed n more"
    using blocks_back [OF assms(1,2), of data] r by auto
  have limit: "\<not> length data - length data mod 16 + 16 > INT_LIMIT" using assms(4) by simp
  show ?thesis
  proof (cases pad)
    case False
    then have m: "length data mod 16 = 0" using assms(5) by simp
    then have n: "16 * ?n = length data" using mult_div_mod_eq [of 16 "length data"] by simp
    have "CBCEncrypt (enc k) iv data pad = Inr out"
      using False assms(3) m limit r by (simp add: CBCEncrypt_def AES_BLOCKSIZE_def Let_def)
    moreover have "CBCDecrypt (dec k) iv out pad = (data, length data)"
      using False assms(3) b(1) b(4) [of 0 "[]"] n m by (auto simp: CBCDecrypt_def AES_BLOCKSIZE_def Let_def)
    ultimately show ?thesis using False b(1) n by auto
  next
    case True
    define m where "m = ?p"
    define v :: byte where "v = word_of_nat m"
    have m: "0 < m" "m \<le> 16" "m + length data mod 16 = 16" by (simp_all add: m_def)
    have v: "unat v = m" "v \<noteq> 0" using m(1,2) by (auto simp: v_def unat_of_nat simp flip: unat_eq_0)
    let ?x = "map2 (XOR) mixed (rest @ replicate m v)"
    have len: "length rest = length data mod 16" using b(3) by (simp add: minus_mult_div_eq_mod)
    then have x: "length ?x = 16" using b(2) m(3) by simp
    note block = length_enc [OF assms(1) x]
    let ?c = "out @ enc k ?x" and ?out = "data @ replicate m v"
    have enc: "CBCEncrypt (enc k) iv data pad = Inr ?c"
      using True assms(3) limit r by (simp add: CBCEncrypt_def AES_BLOCKSIZE_def Let_def m_def v_def)
    have c: "length ?c = 16 * (?n + 1)" using b(1) block by simp
    have size: "length ?c - m = length data" 
    proof -
      have "16 * (?n + 1) = length data + m" using m(3) mult_div_mod_eq [of 16 "length data"] by arith
      with c show ?thesis by simp
    qed
    have "map2 (XOR) ?x mixed = rest @ replicate m v" using b(2) len m(3) by (intro xor_twice) simp
    then have bk: "uncbc_blocks (dec k) iv (?n + 1) ?c = ?out"
      using b(3) b(4) [of 1 "enc k ?x"] block dec_enc [OF assms(1) x] by (simp add: AES_BLOCKSIZE_def)
    have "16 \<le> length (rev ?out)" using m(3) mod_less_eq_dividend [of "length data" 16] by simp
    then have pads: "pad_loop 16 v (rev ?out) False = False"
      using v(1) m(2) by (intro pad_loop_fits) (auto simp: nth_append)
    have "CBCDecrypt (dec k) iv ?c pad = (?out, length data)"
    proof -
      have n: "length ?c div 16 = ?n + 1" "length ?c mod 16 = 0" "length ?c \<noteq> 0" using c by simp_all
      show ?thesis
        unfolding CBCDecrypt_def Let_def AES_BLOCKSIZE_def n(1) bk last_padding [OF m(1)]
        using True n(2,3) v m(2) pads size by auto
    qed
    then show ?thesis using enc True c by auto
  qed
qed

end

section \<open>AES\<close>

text \<open>One block: for keys of the right length the classes compute the cipher of FIPS 197 and its inverse.\<close>

lemma AES_block:
  assumes "length key = 4 * nk" and "nk \<in> {4, 6, 8}" and "nr = nk + 6" and "length b = 16"
  shows "AES_encrypt (AES_setup key nk nr) nr b = fips_Cipher key b"
    and "AES_decrypt (AES_setup key nk nr) nr (AES_encrypt (AES_setup key nk nr) nr b) = b"
proof -
  have keys: "length (AES_setup key nk nr ! r) = 8 \<and> SaveBytes (AES_setup key nk nr ! r) = fips_round_key key r" if "r \<le> nr" for r
    using that assms(1-3) by (intro AES_setup_keys) auto
  have n: "length key div 4 + 6 = nr" "0 < nr" using assms(1,3) by simp_all
  show "AES_encrypt (AES_setup key nk nr) nr b = fips_Cipher key b"
    using AES_encrypt_fips [OF assms(4) n(2) keys] by (simp add: fips_Cipher_def n(1) Let_def)
  show "AES_decrypt (AES_setup key nk nr) nr (AES_encrypt (AES_setup key nk nr) nr b) = b"
    using AES_decrypt_encrypt [OF assms(4) n(2)] keys by blast
qed

lemmas aes_classes = AES128_Encrypt_def AES128_Decrypt_def AES128_encrypt_def AES128_decrypt_def AES128_init_def
  AES256_Encrypt_def AES256_Decrypt_def AES256_encrypt_def AES256_decrypt_def AES256_init_def

lemma AES128_Encrypt_fips: "length key = 16 \<Longrightarrow> length b = 16 \<Longrightarrow> AES128_Encrypt key b = fips_Cipher key b"
  using AES_block(1) [of key 4 10 b] by (simp add: aes_classes)

lemma AES256_Encrypt_fips: "length key = 32 \<Longrightarrow> length b = 16 \<Longrightarrow> AES256_Encrypt key b = fips_Cipher key b"
  using AES_block(1) [of key 8 14 b] by (simp add: aes_classes)

interpretation aes128: block_cipher "\<lambda>key. length key = 16" AES128_Encrypt AES128_Decrypt
proof
  fix key b :: bytes assume k: "length key = 16" "length b = 16"
  then have "length (AES128_Encrypt key b) = 16" by (simp add: aes_classes length_AES_encrypt)
  then show "length (AES128_Encrypt key b) = 16" "AES128_Decrypt key (AES128_Encrypt key b) = b"
    using AES_block(2) [of key 4 10 b] k by (simp_all add: aes_classes)
qed

interpretation aes256: block_cipher "\<lambda>key. length key = 32" AES256_Encrypt AES256_Decrypt
proof
  fix key b :: bytes assume k: "length key = 32" "length b = 16"
  then have "length (AES256_Encrypt key b) = 16" by (simp add: aes_classes length_AES_encrypt)
  then show "length (AES256_Encrypt key b) = 16" "AES256_Decrypt key (AES256_Encrypt key b) = b"
    using AES_block(2) [of key 8 14 b] k by (simp_all add: aes_classes)
qed

lemma aes_cbc_back:
  assumes "length iv = 16" and "data \<noteq> []" and "length data < INT_LIMIT - 16" and "pad \<or> 16 dvd length data"
  shows "length key = 16 \<Longrightarrow> \<exists>c out. AES128CBC_Encrypt key iv pad data = Inr c \<and>
      AES128CBC_Decrypt key iv pad c = (out, length data) \<and> take (length data) out = data"
    and "length key = 32 \<Longrightarrow> \<exists>c out. AES256CBC_Encrypt key iv pad data = Inr c \<and>
      AES256CBC_Decrypt key iv pad c = (out, length data) \<and> take (length data) out = data"
  using aes128.cbc_back [OF _ assms] aes256.cbc_back [OF _ assms]
  by (fastforce simp: AES128CBC_Encrypt_def AES128CBC_Decrypt_def AES256CBC_Encrypt_def AES256CBC_Decrypt_def)+

end
