(* ===== verification/ChaCha.thy ===== *)
theory ChaCha
  imports Streams Sha2
begin

text \<open>
  The stream cipher of \<open>src/crypto/chacha20.cpp\<close>. An object is its array \<open>input\<close> of sixteen words. \<open>Output\<close>
  is compared with the standard: a matrix of four rows whose columns and diagonals are mixed ten times.
\<close>

type_synonym chacha20 = "32 word list"

section \<open>The class\<close>

definition rotl32 :: "32 word \<Rightarrow> nat \<Rightarrow> 32 word" where
  "rotl32 v c = (push_bit c v OR drop_bit (32 - c) v)"

definition quarter_round :: "32 word \<Rightarrow> 32 word \<Rightarrow> 32 word \<Rightarrow> 32 word \<Rightarrow> 32 word \<times> 32 word \<times> 32 word \<times> 32 word" where
  "quarter_round a b c d =
     (let a = a + b; d = rotl32 (d XOR a) 16;
          c = c + d; b = rotl32 (b XOR c) 12;
          a = a + b; d = rotl32 (d XOR a) 8;
          c = c + d; b = rotl32 (b XOR c) 7
      in (a, b, c, d))"

text \<open>The macro on four of the variables \<open>x0\<close> to \<open>x15\<close>.\<close>

definition QUARTERROUND :: "nat \<Rightarrow> nat \<Rightarrow> nat \<Rightarrow> nat \<Rightarrow> 32 word list \<Rightarrow> 32 word list" where
  "QUARTERROUND i j k l x =
     (case quarter_round (x ! i) (x ! j) (x ! k) (x ! l) of
        (a, b, c, d) \<Rightarrow> x[i := a, j := b, k := c, l := d])"

definition sigma :: bytes where
  "sigma = map of_char ''expand 32-byte k''"

definition tau :: bytes where
  "tau = map of_char ''expand 16-byte k''"

definition read_words :: "bytes \<Rightarrow> io_fault + 32 word list" where
  "read_words k =
     rbind (ReadLE32 k) (\<lambda>a. rbind (ReadLE32 (drop 4 k)) (\<lambda>b.
     rbind (ReadLE32 (drop 8 k)) (\<lambda>c. rbind (ReadLE32 (drop 12 k)) (\<lambda>d. Inr [a, b, c, d]))))"

definition SetKey :: "bytes \<Rightarrow> nat \<Rightarrow> io_fault + chacha20" where
  "SetKey k keylen =
     rbind (read_words k) (\<lambda>i4.
     let k = (if keylen = 32 then drop 16 k else k);
         constants = (if keylen = 32 then sigma else tau)
     in rbind (read_words k) (\<lambda>i8.
        rbind (read_words constants) (\<lambda>i0.
        Inr (i0 @ i4 @ i8 @ [0, 0, 0, 0]))))"

definition ChaCha20_new :: chacha20 where
  "ChaCha20_new = replicate 16 0"

definition SetIV :: "64 word \<Rightarrow> chacha20 \<Rightarrow> chacha20" where
  "SetIV iv s = s[14 := ucast iv, 15 := ucast (drop_bit 32 iv)]"

definition Seek :: "64 word \<Rightarrow> chacha20 \<Rightarrow> chacha20" where
  "Seek pos s = s[12 := ucast pos, 13 := ucast (drop_bit 32 pos)]"

definition double_round :: "32 word list \<Rightarrow> 32 word list" where
  "double_round x =
     (let x = QUARTERROUND 0 4 8 12 x;
          x = QUARTERROUND 1 5 9 13 x;
          x = QUARTERROUND 2 6 10 14 x;
          x = QUARTERROUND 3 7 11 15 x;
          x = QUARTERROUND 0 5 10 15 x;
          x = QUARTERROUND 1 6 11 12 x;
          x = QUARTERROUND 2 7 8 13 x
      in QUARTERROUND 3 4 9 14 x)"

fun round_loop :: "nat \<Rightarrow> 32 word list \<Rightarrow> 32 word list" where
  "round_loop i x = (if i > 0 then round_loop (i - 2) (double_round x) else x)"

declare round_loop.simps [simp del]

text \<open>One round of the endless loop: the words \<open>j\<close> give 64 bytes, and the counter in two of them goes up.\<close>

definition next_block :: "32 word list \<Rightarrow> bytes \<times> 32 word list" where
  "next_block j =
     (let x = map2 (+) (round_loop 20 j) j;
          j12 = j ! 12 + 1;
          j13 = (if j12 = 0 then j ! 13 + 1 else j ! 13)
      in (concat (map WriteLE32 x), j[12 := j12, 13 := j13]))"

text \<open>The loop writes the last bytes through a buffer of its own.\<close>

fun output_loop :: "nat \<Rightarrow> 32 word list \<Rightarrow> bytes \<times> 32 word list" where
  "output_loop bytes j =
     (case next_block j of
        (c, j) \<Rightarrow>
          if bytes \<le> 64 then (take bytes c, j)
          else case output_loop (bytes - 64) j of (c', j) \<Rightarrow> (c @ c', j))"

declare output_loop.simps [simp del]

definition Output :: "nat \<Rightarrow> chacha20 \<Rightarrow> bytes \<times> chacha20" where
  "Output bytes s =
     (if bytes = 0 then ([], s)
      else case output_loop bytes s of (c, j) \<Rightarrow> (c, s[12 := j ! 12, 13 := j ! 13]))"

section \<open>The standard\<close>

type_synonym matrix = "32 word list \<times> 32 word list \<times> 32 word list \<times> 32 word list"

definition std_quarter :: "32 word \<Rightarrow> 32 word \<Rightarrow> 32 word \<Rightarrow> 32 word \<Rightarrow> 32 word \<times> 32 word \<times> 32 word \<times> 32 word" where
  "std_quarter a b c d =
     (let a1 = a + b; d1 = word_rotl 16 (d XOR a1);
          c1 = c + d1; b1 = word_rotl 12 (b XOR c1);
          a2 = a1 + b1; d2 = word_rotl 8 (d1 XOR a2);
          c2 = c1 + d2; b2 = word_rotl 7 (b1 XOR c2)
      in (a2, b2, c2, d2))"

definition std_columns :: "matrix \<Rightarrow> matrix" where
  "std_columns = (\<lambda>(a, b, c, d).
     let q = map (\<lambda>i. std_quarter (a ! i) (b ! i) (c ! i) (d ! i)) [0, 1, 2, 3]
     in (map fst q, map (fst \<circ> snd) q, map (fst \<circ> snd \<circ> snd) q, map (snd \<circ> snd \<circ> snd) q))"

definition std_diagonals :: "matrix \<Rightarrow> matrix" where
  "std_diagonals = (\<lambda>(a, b, c, d).
     case std_columns (a, rotate 1 b, rotate 2 c, rotate 3 d) of
       (a, b, c, d) \<Rightarrow> (a, rotate 3 b, rotate 2 c, rotate 1 d))"

definition words_of :: "bytes \<Rightarrow> nat \<Rightarrow> 32 word list" where
  "words_of bs p = map (\<lambda>i. word_of_nat (le_value (take 4 (drop (p + 4 * i) bs)))) [0, 1, 2, 3]"

text \<open>A key has 32 bytes, or 16 which are used twice.\<close>

definition std_matrix :: "bytes \<Rightarrow> 64 word \<Rightarrow> 64 word \<Rightarrow> matrix" where
  "std_matrix key iv pos =
     (words_of (if length key = 32 then sigma else tau) 0,
      words_of key 0, words_of key (length key - 16),
      [ucast pos, ucast (drop_bit 32 pos), ucast iv, ucast (drop_bit 32 iv)])"

definition std_block :: "bytes \<Rightarrow> 64 word \<Rightarrow> 64 word \<Rightarrow> bytes" where
  "std_block key iv pos =
     (case std_matrix key iv pos of (a, b, c, d) \<Rightarrow>
      case ((std_diagonals \<circ> std_columns) ^^ 10) (a, b, c, d) of (a', b', c', d') \<Rightarrow>
        concat (map WriteLE32 (map2 (+) (a' @ b' @ c' @ d') (a @ b @ c @ d))))"

text \<open>The key stream from the block \<open>pos\<close> on.\<close>

definition std_stream :: "bytes \<Rightarrow> 64 word \<Rightarrow> 64 word \<Rightarrow> nat \<Rightarrow> bytes" where
  "std_stream key iv pos n = concat (map (\<lambda>i. std_block key iv (pos + of_nat i)) [0..<n])"


section \<open>The rounds\<close>

lemma rotl32_rotl: "0 < c \<Longrightarrow> c < 32 \<Longrightarrow> rotl32 v c = word_rotl c v"
  unfolding rotl32_def by (rule rotate_left_bits) simp_all

lemma quarter_round_std: "quarter_round = std_quarter"
  by (simp add: fun_eq_iff quarter_round_def std_quarter_def rotl32_rotl Let_def)

definition columns :: "32 word list \<Rightarrow> 32 word list" where
  "columns x = QUARTERROUND 3 7 11 15 (QUARTERROUND 2 6 10 14 (QUARTERROUND 1 5 9 13 (QUARTERROUND 0 4 8 12 x)))"

definition diagonals :: "32 word list \<Rightarrow> 32 word list" where
  "diagonals x = QUARTERROUND 3 4 9 14 (QUARTERROUND 2 7 8 13 (QUARTERROUND 1 6 11 12 (QUARTERROUND 0 5 10 15 x)))"

lemma double_round_parts: "double_round x = diagonals (columns x)"
  by (simp add: double_round_def diagonals_def columns_def Let_def)

definition flat :: "matrix \<Rightarrow> 32 word list" where
  "flat = (\<lambda>(a, b, c, d). a @ b @ c @ d)"

definition rows_ok :: "matrix \<Rightarrow> bool" where
  "rows_ok = (\<lambda>(a, b, c, d). length a = 4 \<and> length b = 4 \<and> length c = 4 \<and> length d = 4)"

lemma four_words: "length xs = 4 \<Longrightarrow> \<exists>a b c d. xs = [a, b, c, d]"
  by (auto simp: length_Suc_conv numeral_eq_Suc)

lemma QUARTERROUND_proj:
  "QUARTERROUND i j k l x =
    (let q = std_quarter (x ! i) (x ! j) (x ! k) (x ! l)
     in x[i := fst q, j := fst (snd q), k := fst (snd (snd q)), l := snd (snd (snd q))])"
  by (simp add: QUARTERROUND_def quarter_round_std split: prod.split)

lemma columns_std:
  assumes "rows_ok m"
  shows "columns (flat m) = flat (std_columns m) \<and> rows_ok (std_columns m)"
proof -
  obtain a0 a1 a2 a3 b0 b1 b2 b3 c0 c1 c2 c3 d0 d1 d2 d3
    where "m = ([a0, a1, a2, a3], [b0, b1, b2, b3], [c0, c1, c2, c3], [d0, d1, d2, d3])"
    using assms unfolding rows_ok_def by (cases m) (auto dest!: four_words)
  then show ?thesis
    by (simp add: columns_def QUARTERROUND_proj flat_def std_columns_def rows_ok_def Let_def)
qed

lemma diagonals_std:
  assumes "rows_ok m"
  shows "diagonals (flat m) = flat (std_diagonals m) \<and> rows_ok (std_diagonals m)"
proof -
  obtain a0 a1 a2 a3 b0 b1 b2 b3 c0 c1 c2 c3 d0 d1 d2 d3
    where "m = ([a0, a1, a2, a3], [b0, b1, b2, b3], [c0, c1, c2, c3], [d0, d1, d2, d3])"
    using assms unfolding rows_ok_def by (cases m) (auto dest!: four_words)
  then show ?thesis
    by (simp add: diagonals_def QUARTERROUND_proj flat_def std_diagonals_def std_columns_def rows_ok_def Let_def
        rotate_def numeral_eq_Suc)
qed

lemma round_loop_std:
  assumes "rows_ok m"
  shows "round_loop (2 * n) (flat m) = flat (((std_diagonals \<circ> std_columns) ^^ n) m)"
  using assms
proof (induction n arbitrary: m)
  case 0
  then show ?case by (subst round_loop.simps) simp
next
  case (Suc n)
  have c: "rows_ok (std_columns m)" "columns (flat m) = flat (std_columns m)"
    using columns_std [OF Suc.prems] by simp_all
  have d: "rows_ok (std_diagonals (std_columns m))" "diagonals (flat (std_columns m)) = flat (std_diagonals (std_columns m))"
    using diagonals_std [OF c(1)] by simp_all
  have "round_loop (2 * Suc n) (flat m) = round_loop (2 * n) (flat (std_diagonals (std_columns m)))"
    by (subst round_loop.simps) (simp add: double_round_parts c(2) d(2))
  then show ?case using Suc.IH [OF d(1)] by (simp only: funpow_Suc_right comp_apply)
qed


section \<open>The key stream\<close>

lemma read_words_of: "p + 16 \<le> length k \<Longrightarrow> read_words (drop p k) = Inr (words_of k p)"
  by (auto simp: read_words_def words_of_def ReadLE32_def read_bytes_def add.commute)

lemma rows_ok_matrix: "rows_ok (std_matrix k iv pos)"
  by (simp add: rows_ok_def std_matrix_def words_of_def)

lemma SetKey_matrix:
  assumes "length k \<in> {16, 32}"
  shows "SetKey k (length k) = Inr (flat (std_matrix k 0 0))"
proof -
  have "read_words k = Inr (words_of k 0)" using read_words_of [of 0 k] assms by auto
  moreover have "read_words (if length k = 32 then drop 16 k else k) = Inr (words_of k (length k - 16))"
    using read_words_of [of "length k - 16" k] assms by auto
  moreover have "read_words (if length k = 32 then sigma else tau) = Inr (words_of (if length k = 32 then sigma else tau) 0)"
    using read_words_of [of 0 "if length k = 32 then sigma else tau"] by (simp add: sigma_def tau_def)
  ultimately show ?thesis
    unfolding SetKey_def Let_def by (simp add: flat_def std_matrix_def)
qed

lemma flat_matrix:
  "\<exists>x. length x = 12 \<and> (\<forall>iv pos. flat (std_matrix k iv pos) =
     x @ [ucast pos, ucast (drop_bit 32 pos), ucast iv, ucast (drop_bit 32 iv)])"
  by (rule exI [of _ "words_of (if length k = 32 then sigma else tau) 0 @ words_of k 0 @ words_of k (length k - 16)"])
    (simp add: flat_def std_matrix_def words_of_def)

lemma SetIV_matrix: "SetIV iv (flat (std_matrix k iv' pos)) = flat (std_matrix k iv pos)"
  using flat_matrix [of k] by (auto simp: SetIV_def list_update_append)

lemma Seek_matrix: "Seek pos (flat (std_matrix k iv pos')) = flat (std_matrix k iv pos)"
  using flat_matrix [of k] by (auto simp: Seek_def list_update_append)

lemma high_half: "unat (ucast (drop_bit 32 (x :: 64 word)) :: 32 word) = unat x div 2 ^ 32"
proof -
  have "unat x div 2 ^ 32 < 2 ^ 32" using unsigned_less [of x, where ?'a = nat] by (simp add: less_mult_imp_div_less)
  then show ?thesis by (simp add: unsigned_ucast_eq drop_bit_eq_div unat_div take_bit_nat_eq_self)
qed

lemma low_half: "unat (ucast (x :: 64 word) :: 32 word) = unat x mod 2 ^ 32"
  by (simp add: unsigned_ucast_eq take_bit_eq_mod)

lemma counter_step:
  fixes pos :: "64 word"
  shows "(ucast (pos + 1) :: 32 word) = ucast pos + 1"
    and "(ucast (drop_bit 32 (pos + 1)) :: 32 word) =
      (if (ucast pos + 1 :: 32 word) = 0 then ucast (drop_bit 32 pos) + 1 else ucast (drop_bit 32 pos))"
proof -
  let ?P = "unat pos"
  have step: "unat (pos + 1) = Suc ?P mod (2 ^ 32 * 2 ^ 32)" by (simp add: unat_word_ariths)
  show low: "(ucast (pos + 1) :: 32 word) = ucast pos + 1"
  proof -
    have "unat (ucast (pos + 1) :: 32 word) = unat (ucast pos + 1 :: 32 word)"
      unfolding low_half step by (simp add: unat_word_ariths low_half mod_mod_cancel mod_Suc_eq)
    then show ?thesis by (rule unsigned_word_eqI)
  qed
  have "unat (ucast (pos + 1) :: 32 word) = Suc ?P mod 2 ^ 32"
    unfolding low_half step by (simp add: mod_mod_cancel)
  then have zero: "(ucast pos + 1 :: 32 word) = 0 \<longleftrightarrow> Suc ?P mod 2 ^ 32 = 0"
    unfolding low by (metis unat_eq_0)
  have "unat (pos + 1) div 2 ^ 32 = (Suc ?P div 2 ^ 32) mod 2 ^ 32"
    unfolding step mod_mult2_eq by simp
  then have "unat (ucast (drop_bit 32 (pos + 1)) :: 32 word) =
      (if Suc ?P mod 2 ^ 32 = 0 then Suc (?P div 2 ^ 32) else ?P div 2 ^ 32) mod 2 ^ 32"
    unfolding high_half div_Suc by simp
  also have "\<dots> = unat (if (ucast pos + 1 :: 32 word) = 0 then ucast (drop_bit 32 pos) + 1 else ucast (drop_bit 32 pos) :: 32 word)"
    using unsigned_less [of "ucast (drop_bit 32 pos) :: 32 word", where ?'a = nat]
    unfolding zero by (simp add: unat_word_ariths high_half)
  finally show "(ucast (drop_bit 32 (pos + 1)) :: 32 word) =
      (if (ucast pos + 1 :: 32 word) = 0 then ucast (drop_bit 32 pos) + 1 else ucast (drop_bit 32 pos))"
    by (rule unsigned_word_eqI)
qed

lemma next_block_std:
  "next_block (flat (std_matrix k iv pos)) = (std_block k iv pos, flat (std_matrix k iv (pos + 1)))"
proof -
  obtain x where x: "length x = 12" "\<And>iv pos. flat (std_matrix k iv pos) =
     x @ [ucast pos, ucast (drop_bit 32 pos), ucast iv, ucast (drop_bit 32 iv)]"
    using flat_matrix by blast
  have "fst (next_block (flat (std_matrix k iv pos))) = std_block k iv pos"
    using round_loop_std [OF rows_ok_matrix, of 10 k iv pos]
    by (simp add: next_block_def std_block_def flat_def Let_def split: prod.split)
  moreover have "snd (next_block (flat (std_matrix k iv pos))) = flat (std_matrix k iv (pos + 1))"
    unfolding x(2) by (simp add: next_block_def Let_def nth_append list_update_append x(1) counter_step)
  ultimately show ?thesis by (metis prod.collapse)
qed

lemma length_std_block: "length (std_block k iv pos) = 64"
proof -
  have "length (map2 (+) (flat m) (flat m')) = 16" if "rows_ok m" "rows_ok m'" for m m'
    using that by (auto simp: rows_ok_def flat_def)
  moreover have "rows_ok (((std_diagonals \<circ> std_columns) ^^ n) m)" if "rows_ok m" for n m
    using that by (induction n) (simp_all add: columns_std diagonals_std)
  ultimately have "length (map2 (+) (flat (((std_diagonals \<circ> std_columns) ^^ 10) (std_matrix k iv pos))) (flat (std_matrix k iv pos))) = 16"
    using rows_ok_matrix by blast
  then show ?thesis
    by (simp add: std_block_def flat_def length_concat o_def sum_list_triv split: prod.splits)
qed

lemma std_stream_Suc: "std_stream k iv pos (Suc n) = std_block k iv pos @ std_stream k iv (pos + 1) n"
  by (simp add: std_stream_def upt_conv_Cons map_Suc_upt [symmetric] o_def algebra_simps del: upt_Suc)

lemma output_loop_stream:
  assumes "0 < n"
  shows "output_loop n (flat (std_matrix k iv pos)) =
    (take n (std_stream k iv pos ((n + 63) div 64)), flat (std_matrix k iv (pos + of_nat ((n + 63) div 64))))"
  using assms
proof (induction n arbitrary: pos rule: less_induct)
  case (less n)
  show ?case
  proof (cases "n \<le> 64")
    case True
    then have "(n + 63) div 64 = Suc 0" using less.prems by (simp add: div_nat_eqI)
    then show ?thesis using True
      by (subst output_loop.simps) (simp add: next_block_std std_stream_Suc std_stream_def)
  next
    case False
    then have m: "(n + 63) div 64 = Suc ((n - 64 + 63) div 64)" by (simp add: div_if)
    have "output_loop (n - 64) (flat (std_matrix k iv (pos + 1))) =
      (take (n - 64) (std_stream k iv (pos + 1) ((n - 64 + 63) div 64)),
       flat (std_matrix k iv (pos + 1 + of_nat ((n - 64 + 63) div 64))))"
      using False by (intro less.IH) simp_all
    then show ?thesis using False unfolding m
      by (subst output_loop.simps) (simp add: next_block_std std_stream_Suc length_std_block add.assoc)
  qed
qed

lemma Output_stream:
  assumes "SetKey k (length k) = Inr s" and "length k \<in> {16, 32}"
  shows "Output n (Seek pos (SetIV iv s)) =
    (take n (std_stream k iv pos ((n + 63) div 64)), Seek (pos + of_nat ((n + 63) div 64)) (SetIV iv s))"
proof (cases "n = 0")
  case True
  then show ?thesis by (simp add: Output_def)
next
  case False
  have s: "s = flat (std_matrix k 0 0)" using assms SetKey_matrix by simp
  have "Seek p (SetIV iv s) = flat (std_matrix k iv p)" for p by (simp add: s SetIV_matrix Seek_matrix)
  moreover have "(flat (std_matrix k iv p))[12 := flat (std_matrix k iv q) ! 12, 13 := flat (std_matrix k iv q) ! 13] =
      flat (std_matrix k iv q)" for p q
    using flat_matrix [of k] by (auto simp: list_update_append nth_append)
  ultimately show ?thesis using False output_loop_stream by (simp add: Output_def)
qed

end
