(* ===== verification/UtilProps.thy ===== *)
theory UtilProps
  imports Base58 AesCbc ChaCha
begin

text \<open>The properties of the encodings, hash functions and ciphers that the other parts do not use.\<close>

text \<open>C40: Every byte vector, leading zeros included, has an encoding in base 58, and decoding it gives the
  vector back, whatever white space stands around it.\<close>

theorem base58_roundtrip:
  assumes "list_all isspace before" and "list_all isspace behind"
  shows "\<exists>s. EncodeBase58 ucast bs = Inr s \<and> DecodeBase58 (before @ s @ behind) = Inr (Some bs)"
  using assms by (rule base58_text)

theorem base58_roundtrip_witness:
  "\<exists>s. EncodeBase58 ucast [0, 0, 0x61, 0xFF] = Inr s \<and> DecodeBase58 ('' '' @ s @ ''  '') = Inr (Some [0, 0, 0x61, 0xFF])"
  by (rule base58_roundtrip) (simp_all add: isspace_def)

end
