(* ===== verification/Spec2Isabelle.thy ===== *)
theory Spec2Isabelle
  imports InterpreterProps HashProps ChainProps StoreProps CheckerProps KeyProps ProtocolProps PeerProps AddressProps UtilProps
begin

text \<open>
  A model of the program \<open>tkeycoin2\<close>, a node of a crypto-currency in C++, and what has been proved of it.
  Paths are relative to \<open>src/src/\<close>.

  \<^bold>\<open>The program.\<close> A node keeps a store of block headers and transactions (\<open>node/Blockchain.cpp\<close>) and a
  book of addresses of other nodes (\<open>node/AddressManager.cpp\<close>). Connections carry messages
  (\<open>protocol/messages\<close>), which are cut out of the bytes, read and handed on by the classes of
  \<open>transport/messages\<close>; a connection on which the handshake has succeeded belongs to a peer
  (\<open>net/Peer.cpp\<close>), and a message is applied to it by \<open>Protocol::handler\<close>. Blocks and transactions
  (\<open>blockchain\<close>) are serialized by \<open>serialization\<close>, named by double SHA-256 (\<open>crypto\<close>, \<open>other\<close>), and
  the outputs of transactions are guarded by scripts (\<open>script\<close>), whose signature operations ask
  \<open>script/checkers\<close> and the keys of \<open>crypto/keys\<close>. The theories follow these layers from below.

  \<^bold>\<open>Conventions\<close> (\<open>Prelude\<close>, \<open>Streams\<close>, \<open>BlockStore\<close>, \<open>Peers\<close>).
  \<^item> Integers are words of their width, so that they wrap; signed overflow is undefined behaviour and a
    fault. Byte vectors are lists, objects are records of their members, smart pointers that may be
    empty are options.
  \<^item> A function that can end otherwise than by returning has a value in \<open>fault + 'a\<close>: \<open>Throw\<close> (an exception
    with an error code), \<open>StdExcept\<close> (another exception), \<open>Abort\<close> (a failed assertion; the program is taken to
    be built with assertions) and \<open>Undefined\<close>.
  \<^item> A function that may not return is a \<open>partial_function (option)\<close> with \<open>None\<close> for not returning; \<open>obind\<close>
    and the actions of \<open>Peers\<close> compose these. All other loops are total functions with a
    termination proof, so there is no fuel anywhere.
  \<^item> Uninitialised memory, random numbers, the clock and the contents of files are arguments.
  \<^item> An input stream is a record of the bytes left, whether it is good, and the number of elements
    up to which \<open>resize\<close> succeeds (\<open>room\<close>).

  \<^bold>\<open>Scripts\<close> (\<open>script\<close>). \<open>Flags\<close>, \<open>OpCode\<close>, \<open>ScriptError\<close>, \<open>ScriptNum\<close>, \<open>Stack\<close> and \<open>Script\<close> model the files of these
  names; \<open>SigEncoding\<close> the static checks of \<open>Interpreter.cpp\<close>; \<open>InterpOps\<close> its \<open>op_\<close> methods, \<open>Interpreter\<close> the
  signature operations, the switch and the loop, \<open>Eval\<close> the handlers around it. \<open>interp\<close> holds the mutable members
  of the class, \<open>env\<close> the constant ones and the virtual functions of the checker. \<open>Execute\<close> states what a step
  keeps, \<open>Eval\<close> gives the run as a step relation with rule induction, \<open>Safety\<close> bounds counters and stacks and finds
  where an execution can crash, \<open>Conditionals\<close> proves that the vector of flags computes structured conditionals,
  \<open>StackSpec\<close> compares the stack operations with a table, \<open>SigOps\<close> states what \<open>FindAndDelete\<close> and the loop of
  \<open>OP_CHECKMULTISIG\<close> compute, \<open>Runs\<close> executes particular scripts. The properties are in \<open>InterpreterProps\<close>.

  \<^bold>\<open>Hashes\<close> (\<open>crypto\<close>, \<open>other\<close>). \<open>Hasher\<close> is the buffered Merkle-Damgard class that SHA-256, SHA-1, RIPEMD-160 and
  SHA-512 share, with the locale \<open>hasher_contract\<close>: what a client of a hasher may rely on. \<open>Sha2\<close> and
  \<open>Sha256\<close>, \<open>Sha512\<close>, \<open>Sha1\<close>, \<open>Ripemd160\<close> translate the transforms statement by statement and prove them equal to
  the standards, and interpret the locale. \<open>Sha256D64\<close> is the transform of two blocks with folded constants;
  \<open>Intrinsics\<close>, \<open>Sha256Lanes\<close>, \<open>Sha256Wide\<close>, \<open>Sha256Shani\<close> the files for vector instructions, \<open>Sha256Detect\<close> the choice
  among them. \<open>Digests\<close> has \<open>CHash256\<close>, \<open>CHash160\<close> and HMAC, \<open>HashStream\<close> the hashing output stream, \<open>Merkle\<close>
  the Merkle root, \<open>Base58\<close> numbers as text. Properties: \<open>HashProps\<close>, \<open>UtilProps\<close>. \<open>Aes\<close> has the bit-sliced AES of
  \<open>crypto/ctaes\<close>; \<open>AesFacts\<close>, \<open>AesSteps\<close>, \<open>AesKeys\<close> and \<open>AesCipher\<close> show that it is the cipher of FIPS 197 and that decryption
  undoes it, \<open>AesCbc\<close> has the mode CBC of \<open>crypto/aes.cpp\<close> over the locale \<open>block_cipher\<close>, \<open>ChaCha\<close> the stream cipher and that its
  output is the standard key stream.

  \<^bold>\<open>Data\<close> (\<open>serialization\<close>, \<open>types\<close>, \<open>util\<close>, \<open>blockchain\<close>). \<open>Endians\<close>, \<open>Blob\<close> and \<open>Streams\<close> are the elements; the locales
  \<open>codec\<close> and \<open>vector_codec\<close> of \<open>Streams\<close> say that a reader gives back what a writer wrote, stops behind it, and that
  vectors inherit this. Every wire type of \<open>ChainTypes\<close>, \<open>Transactions\<close>, \<open>Blocks\<close>, \<open>NetTypes\<close> and \<open>CompactBlocks\<close> that does
  so interprets them; the types that do not are among the findings. Properties: \<open>ChainProps\<close>.

  \<^bold>\<open>The store\<close> (\<open>node/Blockchain.cpp\<close>). \<open>BlockStore\<close> has the state \<open>chain_state\<close> and the operations; blocks are pointers
  into \<open>cs_blocks\<close>. \<open>BlockStoreInv\<close> has the invariant \<open>store_ok\<close> and the locale \<open>registry\<close> of what lookups
  promise, \<open>BlockStoreOps\<close> and \<open>BlockStoreReach\<close> that the operations keep it and what connecting a block does to the
  main chain, \<open>BlockStoreRun\<close> the runs from a fresh store, when they return, and locators. A call that does not return is
  \<open>None\<close> and has no state after it; what connecting the first block does before its endless loop is \<open>place_genesis\<close>. Loading
  a saved store is modelled but is no step of a run, because the invariant does not hold after it. Properties: \<open>StoreProps\<close>, with the interpretations.

  \<^bold>\<open>Keys and signatures\<close> (\<open>crypto/keys\<close>, \<open>script/checkers\<close>). \<open>PubKey\<close> and \<open>Keys\<close> have the keys and extended keys over a record of
  the functions of libsecp256k1; \<open>SigChecker\<close> what a signature signs, \<open>CheckerFacts\<close> that this does not depend on the
  transaction. Properties: \<open>CheckerProps\<close>, \<open>KeyProps\<close>.

  \<^bold>\<open>Messages and transport\<close> (\<open>protocol\<close>, \<open>transport/messages\<close>). \<open>Messages\<close> has a constructor for each class and its reader and
  writer, the factory and the headers; \<open>MessageFacts\<close> reads back what was written, \<open>MessageTypes\<close> gives the shapes of what
  can be read. \<open>Wire\<close> has \<open>MsgPipe\<close>, \<open>MsgServer\<close>, \<open>MsgClient\<close> and \<open>MsgContext\<close> over a record \<open>connection\<close>; \<open>WireFacts\<close> that the
  pipe does not depend on how the bytes are cut, and the handshake; \<open>PipeSpec\<close> specifies how the pipe cuts any bytes into frames
  and shows that its loop does so. \<open>Communicator\<close> is the state machine of
  \<open>MsgCommunicator\<close> with its steps and invariant. Properties: \<open>ProtocolProps\<close>.

  \<^bold>\<open>Peers and addresses\<close> (\<open>net\<close>, \<open>node\<close>). \<open>Addresses\<close> has the sets of the address manager, their invariant and runs,
  saving and loading; properties: \<open>AddressProps\<close>. \<open>Peers\<close> puts the layers together: its state \<open>world\<close> holds the store,
  the addresses, the peer manager, the connections and the tasks, and its actions are the
  operations of peers, the timers, the \<open>apply\<close> of each message, the handler, and what \<open>Node\<close> does when a
  connection succeeds or something is announced. \<open>PeerFacts\<close> has the runs, the invariant that ties each peer to its
  connection, and the messages an action sends, as bytes that the pipe of another node hands on.
  Properties: \<open>PeerProps\<close>.

  \<^bold>\<open>Flaws.\<close> Several theorems state what the code does where that is not what it means to do: a signature
  hash that is the same for all transactions (\<open>script_ignores_transaction\<close>), an orphan with which the call that
  connects the first block never returns (\<open>early_child_stalls\<close>), headers that cannot be read (\<open>headers_unreadable\<close>), a
  checksum that is compared with itself (\<open>checksum_ignored\<close>), a server that closes every conversation
  (\<open>server_closes\<close>), a \<open>pong\<close> that ends the program (\<open>wrong_pong_aborts\<close>), answers without blocks
  (\<open>getblocks_answer\<close>), bans that a restart lifts (\<open>restart_unbans\<close>).

  \<^bold>\<open>Not modelled.\<close>
  \<^item> Threads, locks, sockets, timers as such, the task queue, logs, metrics, JSON and the HTTP
    interface: they are the helper library's (\<open>src/lib/primitive\<close>) or only call it. What a timer or a task does when it
    runs is modelled; when it runs is not. The order in which an unordered set is traversed is that of
    insertion.
  \<^item> libsecp256k1, and the assembly routine of \<open>crypto/sha256_sse4.cpp\<close>: parameters, with the
    documented behaviour as named hypotheses.
  \<^item> Text output for people (\<open>toSVal\<close>, trace output), \<open>main.cpp\<close>, and the tests.
  \<^item> The entropy sources and locked memory of \<open>support\<close>, and the members of templates that cannot be instantiated or have no body.\<close>

end
